(* ===== verification/Prelude.thy ===== *)
theory Prelude
  imports Main "HOL-Library.AList"
begin

text \<open>
  Shared vocabulary of the development: the Python values every component uses.

  A Python \<open>dict\<close> is an association list in insertion order: storing under a present key
  keeps its place and a new key goes to the end, which is what \<open>AList.update\<close> does; deleting
  removes the key. \<open>dict_ok\<close> says the keys are distinct, which every operation keeps. A Python
  \<open>set\<close> is a list without repetition; its order stands for the interpreter's iteration order,
  and the properties that depend on an iteration are stated so that the order does not matter.
  An exception is a value of \<open>exn\<close>, and a call that may raise answers a sum, \<open>Inl\<close> the
  exception.
\<close>

named_theorems dict_rules \<open>lookups and key sets after a dictionary operation\<close>
named_theorems sum_rules \<open>sums over the values of a dictionary\<close>

subsection \<open>Exceptions\<close>

datatype exn =
    KeyError
  | ValueError
  | TypeError
  | OverflowError
  | RecursionError
  | AssertionError
  | RuntimeError
  | ProtocolError
  | IndexError
  | EndOfStream
  | Raised string \<comment> \<open>any other exception, by its class name\<close>

subsection \<open>Dictionaries\<close>

type_synonym ('k, 'v) dict = "('k \<times> 'v) list"

abbreviation dict_get :: "('k, 'v) dict \<Rightarrow> 'k \<Rightarrow> 'v option" where
  "dict_get d k \<equiv> map_of d k"

definition dict_set :: "'k \<Rightarrow> 'v \<Rightarrow> ('k, 'v) dict \<Rightarrow> ('k, 'v) dict" where
  "dict_set k v d = AList.update k v d"

definition dict_del :: "'k \<Rightarrow> ('k, 'v) dict \<Rightarrow> ('k, 'v) dict" where
  "dict_del k d = AList.delete k d"

definition dict_default :: "('k, 'v) dict \<Rightarrow> 'k \<Rightarrow> 'v \<Rightarrow> 'v" where
  "dict_default d k v = (case dict_get d k of None \<Rightarrow> v | Some u \<Rightarrow> u)"

abbreviation dict_keys :: "('k, 'v) dict \<Rightarrow> 'k list" where
  "dict_keys d \<equiv> map fst d"

definition dict_ok :: "('k, 'v) dict \<Rightarrow> bool" where
  "dict_ok d \<longleftrightarrow> distinct (dict_keys d)"

lemma dict_get_set [simp, dict_rules]:
  "dict_get (dict_set k v d) k' = (if k' = k then Some v else dict_get d k')"
  by (simp add: dict_set_def update_conv)

lemma dict_get_del [simp, dict_rules]:
  "dict_get (dict_del k d) k' = (if k' = k then None else dict_get d k')"
  by (simp add: dict_del_def delete_conv)

lemma dict_ok_Nil [simp]: "dict_ok []"
  by (simp add: dict_ok_def)

lemma dict_ok_Cons [simp]: "dict_ok (p # d) \<longleftrightarrow> fst p \<notin> fst ` set d \<and> dict_ok d"
  by (simp add: dict_ok_def)

lemma dict_ok_set [simp]: "dict_ok d \<Longrightarrow> dict_ok (dict_set k v d)"
  by (simp add: dict_ok_def dict_set_def distinct_update)

lemma dict_ok_del [simp]: "dict_ok d \<Longrightarrow> dict_ok (dict_del k d)"
  by (simp add: dict_ok_def dict_del_def distinct_delete)

lemma dict_keys_get: "k \<in> set (dict_keys d) \<longleftrightarrow> (\<exists>v. dict_get d k = Some v)"
  by (metis domIff dom_map_of_conv_image_fst image_set not_None_eq)

lemma dict_get_mem: "dict_get d k = Some v \<Longrightarrow> (k, v) \<in> set d"
  by (rule map_of_SomeD)

lemma dict_mem_get: "dict_ok d \<Longrightarrow> (k, v) \<in> set d \<Longrightarrow> dict_get d k = Some v"
  by (simp add: dict_ok_def)

lemma dict_mem_iff: "dict_ok d \<Longrightarrow> (k, v) \<in> set d \<longleftrightarrow> dict_get d k = Some v"
  by (auto intro: dict_mem_get dict_get_mem)

lemma dict_keys_set [simp]: "set (dict_keys (dict_set k v d)) = insert k (set (dict_keys d))"
  by (simp add: dict_set_def dom_update)

lemma dict_keys_del [simp]: "set (dict_keys (dict_del k d)) = set (dict_keys d) - {k}"
  by (auto simp: dict_del_def AList.delete_eq)

lemma dict_default_set [simp]:
  "dict_default (dict_set k v d) k' u = (if k' = k then v else dict_default d k' u)"
  by (simp add: dict_default_def)

lemma dict_default_del [simp]:
  "dict_default (dict_del k d) k' u = (if k' = k then u else dict_default d k' u)"
  by (simp add: dict_default_def)

lemma dict_default_Nil [simp]: "dict_default [] k u = u"
  by (simp add: dict_default_def)

lemma dict_default_None [simp]: "dict_get d k = None \<Longrightarrow> dict_default d k u = u"
  by (simp add: dict_default_def)

lemma dict_default_Some [simp]: "dict_get d k = Some v \<Longrightarrow> dict_default d k u = v"
  by (simp add: dict_default_def)

lemma dict_del_absent: "dict_get d k = None \<Longrightarrow> dict_del k d = d"
proof (induction d)
  case (Cons p d)
  then show ?case by (cases p) (auto simp: dict_del_def split: if_splits)
qed (simp add: dict_del_def)

lemma dict_del_shorter: "dict_get d k = Some v \<Longrightarrow> length (dict_del k d) < length d"
proof (induction d)
  case (Cons p d)
  have "length (dict_del k d) \<le> length d"
    by (simp add: dict_del_def AList.delete_eq)
  with Cons show ?case
    by (cases p) (auto simp: dict_del_def split: if_splits)
qed simp

lemma dict_set_Nil [simp]: "dict_set k v [] = [(k, v)]"
  by (simp add: dict_set_def)

lemma dict_set_Cons [simp]:
  "dict_set k v (p # d) = (if fst p = k then (k, v) # d else p # dict_set k v d)"
  by (cases p) (simp add: dict_set_def)

lemma dict_del_Nil [simp]: "dict_del k [] = []"
  by (simp add: dict_del_def)

lemma dict_del_Cons [simp]:
  "dict_del k (p # d) = (if fst p = k then dict_del k d else p # dict_del k d)"
  by (cases p) (simp add: dict_del_def)

subsection \<open>Sums over the values of a dictionary\<close>

definition dict_sum :: "('v \<Rightarrow> int) \<Rightarrow> ('k, 'v) dict \<Rightarrow> int" where
  "dict_sum f d = (\<Sum>p\<leftarrow>d. f (snd p))"

definition dict_part :: "('v \<Rightarrow> int) \<Rightarrow> ('k, 'v) dict \<Rightarrow> 'k \<Rightarrow> int" where
  "dict_part f d k = (case dict_get d k of None \<Rightarrow> 0 | Some v \<Rightarrow> f v)"

lemma dict_sum_Nil [simp]: "dict_sum f [] = 0"
  by (simp add: dict_sum_def)

lemma dict_sum_Cons [simp]: "dict_sum f (p # d) = f (snd p) + dict_sum f d"
  by (simp add: dict_sum_def)

lemma dict_sum_del [sum_rules]:
  "dict_ok d \<Longrightarrow> dict_sum f (dict_del k d) = dict_sum f d - dict_part f d k"
proof (induction d)
  case (Cons p d)
  have none: "dict_get d k = None" if "fst p = k"
    using that Cons.prems by (auto simp: map_of_eq_None_iff)
  show ?case
    using Cons none by (cases p) (auto simp: dict_part_def dict_del_absent)
qed (simp add: dict_part_def)

lemma dict_sum_set [sum_rules]:
  "dict_ok d \<Longrightarrow> dict_sum f (dict_set k v d) = dict_sum f d - dict_part f d k + f v"
proof (induction d)
  case (Cons p d)
  then show ?case by (cases p) (auto simp: dict_part_def)
qed (simp add: dict_part_def)

lemma dict_sum_nonneg: "(\<And>k v. (k, v) \<in> set d \<Longrightarrow> 0 \<le> f v) \<Longrightarrow> 0 \<le> dict_sum f d"
  by (induction d) (fastforce simp: add_nonneg_nonneg)+

lemma dict_sum_ge:
  assumes "(k, v) \<in> set d" "\<And>k v. (k, v) \<in> set d \<Longrightarrow> 0 \<le> f v"
  shows "f v \<le> dict_sum f d"
  using assms
proof (induction d)
  case (Cons p d)
  have nn: "0 \<le> dict_sum f d" by (rule dict_sum_nonneg) (use Cons.prems in auto)
  have p: "0 \<le> f (snd p)" using Cons.prems(2)[of "fst p" "snd p"] by simp
  show ?case
  proof (cases "p = (k, v)")
    case True
    with nn show ?thesis by simp
  next
    case False
    with Cons.prems Cons.IH have "f v \<le> dict_sum f d" by auto
    with p show ?thesis by simp
  qed
qed simp

lemma dict_sum_zero: "(\<And>k v. (k, v) \<in> set d \<Longrightarrow> f v = 0) \<Longrightarrow> dict_sum f d = 0"
  by (induction d) fastforce+

subsection \<open>Sets\<close>

definition set_add :: "'a \<Rightarrow> 'a list \<Rightarrow> 'a list" where
  "set_add x xs = (if x \<in> set xs then xs else xs @ [x])"

definition set_discard :: "'a \<Rightarrow> 'a list \<Rightarrow> 'a list" where
  "set_discard x xs = filter (\<lambda>y. y \<noteq> x) xs"

lemma set_set_add [simp]: "set (set_add x xs) = insert x (set xs)"
  by (auto simp: set_add_def)

lemma set_set_discard [simp]: "set (set_discard x xs) = set xs - {x}"
  by (auto simp: set_discard_def)

lemma distinct_set_add [simp]: "distinct xs \<Longrightarrow> distinct (set_add x xs)"
  by (simp add: set_add_def)

lemma distinct_set_discard [simp]: "distinct xs \<Longrightarrow> distinct (set_discard x xs)"
  by (simp add: set_discard_def)

lemma set_add_not_Nil [simp]: "set_add x xs \<noteq> []"
  by (auto simp: set_add_def)

subsection \<open>Loops that stop at the first exception\<close>

text \<open>One call after another.\<close>

definition res_bind :: "exn + 'a \<Rightarrow> ('a \<Rightarrow> exn + 'b) \<Rightarrow> exn + 'b" where
  "res_bind r f = (case r of Inl e \<Rightarrow> Inl e | Inr a \<Rightarrow> f a)"

lemma res_bind_simps [simp]: "res_bind (Inr a) f = f a" "res_bind (Inl e) f = Inl e"
  by (simp_all add: res_bind_def)

lemma res_bind_Inr_iff: "res_bind r f = Inr b \<longleftrightarrow> (\<exists>a. r = Inr a \<and> f a = Inr b)"
  by (cases r) simp_all

text \<open>A comprehension \<open>[f(x) for x in xs]\<close> whose body may raise.\<close>

fun map_res :: "('a \<Rightarrow> exn + 'b) \<Rightarrow> 'a list \<Rightarrow> exn + 'b list" where
  "map_res f [] = Inr []"
| "map_res f (x # xs) =
     (case f x of Inl e \<Rightarrow> Inl e
      | Inr y \<Rightarrow> (case map_res f xs of Inl e \<Rightarrow> Inl e | Inr ys \<Rightarrow> Inr (y # ys)))"

lemma map_res_cong [fundef_cong]:
  "xs = ys \<Longrightarrow> (\<And>x. x \<in> set ys \<Longrightarrow> f x = g x) \<Longrightarrow> map_res f xs = map_res g ys"
  by (induction xs arbitrary: ys) (auto split: sum.splits)

lemma map_res_Inr_iff:
  "map_res f xs = Inr ys \<longleftrightarrow> list_all2 (\<lambda>x y. f x = Inr y) xs ys"
proof (induction xs arbitrary: ys)
  case (Cons x xs)
  show ?case
  proof (cases "map_res f xs")
    case (Inl e)
    then have "\<not> list_all2 (\<lambda>x y. f x = Inr y) xs zs" for zs
      using Cons.IH[of zs] by simp
    with Inl show ?thesis by (auto simp: list_all2_Cons1 split: sum.splits)
  next
    case (Inr zs)
    then have "list_all2 (\<lambda>x y. f x = Inr y) xs us \<longleftrightarrow> us = zs" for us
      using Cons.IH[of us] by auto
    with Inr show ?thesis by (auto simp: list_all2_Cons1 split: sum.splits)
  qed
qed auto

lemma map_res_length: "map_res f xs = Inr ys \<Longrightarrow> length ys = length xs"
  by (simp add: map_res_Inr_iff list_all2_lengthD)

lemma map_res_all_Inr: "(\<And>x. x \<in> set xs \<Longrightarrow> f x = Inr (g x)) \<Longrightarrow> map_res f xs = Inr (map g xs)"
  by (induction xs) auto

lemma map_res_Inl: "map_res f xs = Inl e \<Longrightarrow> \<exists>x\<in>set xs. f x = Inl e"
  by (induction xs) (auto split: sum.splits)

section \<open>Ordering\<close>

text \<open>
  \<open>sorted\<close>: code points in order, an insertion sort by any test, and the facts about it the components
  share. A Python set of strings that is only ever sorted is the sorted list of its elements.
\<close>

fun lex_le :: "nat list \<Rightarrow> nat list \<Rightarrow> bool" where
  "lex_le [] ys = True"
| "lex_le (x # xs) [] = False"
| "lex_le (x # xs) (y # ys) = (x < y \<or> (x = y \<and> lex_le xs ys))"

fun insert_by :: "('a \<Rightarrow> 'a \<Rightarrow> bool) \<Rightarrow> 'a \<Rightarrow> 'a list \<Rightarrow> 'a list" where
  "insert_by le x [] = [x]"
| "insert_by le x (y # ys) = (if le x y then x # y # ys else y # insert_by le x ys)"

definition sort_by :: "('a \<Rightarrow> 'a \<Rightarrow> bool) \<Rightarrow> 'a list \<Rightarrow> 'a list" where
  "sort_by le xs = foldr (insert_by le) xs []"

lemma sort_by_set [simp]: "set (sort_by le xs) = set xs"
proof -
  have "set (insert_by le x ys) = insert x (set ys)" for x :: 'a and ys
    by (induction ys) auto
  then show ?thesis by (induction xs) (auto simp: sort_by_def)
qed

definition str_le :: "string \<Rightarrow> string \<Rightarrow> bool" where
  "str_le a b = lex_le (map of_char a) (map of_char b)"

definition sorted_strs :: "string list \<Rightarrow> string list" where
  "sorted_strs xs = sort_by str_le (remdups xs)"

lemma sorted_strs_set [simp]: "set (sorted_strs xs) = set xs"
  by (simp add: sorted_strs_def)

lemma lex_le_refl [simp]: "lex_le xs xs"
  by (induction xs) auto

lemma lex_le_total: "lex_le xs ys \<or> lex_le ys xs"
  by (induction xs ys rule: lex_le.induct) auto

lemma lex_le_trans: "lex_le xs ys \<Longrightarrow> lex_le ys zs \<Longrightarrow> lex_le xs zs"
proof (induction xs ys arbitrary: zs rule: lex_le.induct)
  case (3 x xs y ys)
  then show ?case by (cases zs) auto
qed auto

lemma lex_le_antisym: "lex_le xs ys \<Longrightarrow> lex_le ys xs \<Longrightarrow> xs = ys"
  by (induction xs ys rule: lex_le.induct) (auto elim: lex_le.elims)

lemma str_le_total: "str_le a b \<or> str_le b a"
  unfolding str_le_def by (rule lex_le_total)

lemma str_le_trans: "str_le a b \<Longrightarrow> str_le b c \<Longrightarrow> str_le a c"
  unfolding str_le_def by (rule lex_le_trans)

lemma str_le_antisym: "str_le a b \<Longrightarrow> str_le b a \<Longrightarrow> a = b"
  unfolding str_le_def by (drule (1) lex_le_antisym) (simp add: inj_map_eq_map inj_def)

lemma insert_by_sorted:
  assumes "\<And>a b. le a b \<or> le b a" "\<And>a b c. le a b \<Longrightarrow> le b c \<Longrightarrow> le a c" "sorted_wrt le xs"
  shows "sorted_wrt le (insert_by le x xs)"
  using assms(3)
proof (induction xs)
  case (Cons y ys)
  have s: "set (insert_by le x ys) = insert x (set ys)"
    by (induction ys) auto
  show ?case
  proof (cases "le x y")
    case True
    with Cons.prems assms(2)[OF True] show ?thesis by auto
  next
    case False
    then have "le y x" using assms(1) by blast
    with Cons s False show ?thesis by auto
  qed
qed simp

lemma sort_by_sorted:
  assumes "\<And>a b. le a b \<or> le b a" "\<And>a b c. le a b \<Longrightarrow> le b c \<Longrightarrow> le a c"
  shows "sorted_wrt le (sort_by le xs)"
  by (induction xs) (auto simp: sort_by_def intro: insert_by_sorted[OF assms])

lemma length_insert_by [simp]: "length (insert_by le x xs) = Suc (length xs)"
  by (induction xs) auto

lemma length_sort_by [simp]: "length (sort_by le xs) = length xs"
  by (induction xs) (simp_all add: sort_by_def)

lemma distinct_sort_by [simp]: "distinct (sort_by le xs) = distinct xs"
proof -
  have "card (set (sort_by le xs)) = card (set xs)" by simp
  then show ?thesis by (metis card_distinct distinct_card length_sort_by)
qed

lemma sorted_strs_sorted: "sorted_wrt str_le (sorted_strs xs)" "distinct (sorted_strs xs)"
  unfolding sorted_strs_def by (rule sort_by_sorted[OF str_le_total str_le_trans]) simp_all

text \<open>A set of strings has one sorted list.\<close>

lemma sorted_unique:
  "sorted_wrt str_le xs \<Longrightarrow> distinct xs \<Longrightarrow> sorted_wrt str_le ys \<Longrightarrow> distinct ys \<Longrightarrow> set xs = set ys \<Longrightarrow> xs = ys"
proof (induction xs arbitrary: ys)
  case (Cons x xs)
  then obtain y zs where ys: "ys = y # zs" by (cases ys) auto
  have "x = y"
  proof (rule ccontr)
    assume ne: "x \<noteq> y"
    then have "x \<in> set zs" "y \<in> set xs" using Cons.prems(5) ys by auto
    then have "str_le y x" "str_le x y" using Cons.prems ys by auto
    with ne show False using str_le_antisym by blast
  qed
  moreover have "set xs = set zs" using Cons.prems ys \<open>x = y\<close> by auto
  ultimately show ?case using Cons ys by auto
qed simp

lemma sorted_strs_cong: "set xs = set ys \<Longrightarrow> sorted_strs xs = sorted_strs ys"
  by (rule sorted_unique) (simp_all add: sorted_strs_sorted)

end
