(* ===== verification/Lifecycle.thy ===== *)
theory Lifecycle
  imports Prelude
begin

text \<open>
  The handle table of \<open>huggorm/lifecycle.py\<close>: entries, connections, escrow and the object index,
  with every operation of \<open>HandleTable\<close>, its guards and its exceptions. This theory holds the
  definitions; \<open>Lifecycle_Inv\<close> and \<open>Reaping\<close> hold what is proved of them.

  A Python object is known to the table by \<open>id(obj)\<close> only, so an object is an \<open>objref\<close>. A
  \<open>Connection\<close> has an identity (\<open>unbind\<close> compares records with \<open>is\<close>): \<open>c_id\<close> is that identity,
  and \<open>next_conn\<close> the next one. What the operations read from outside is an argument: \<open>now\<close> is
  \<open>time.monotonic()\<close>, read once for a call, and \<open>nid\<close> is what \<open>_new_id()\<close> would answer. Every
  operation that can raise answers its result with the table it leaves, on the error branch too.
\<close>

subsection \<open>State\<close>

type_synonym hid = string
type_synonym token = string
type_synonym objref = nat
type_synonym time = int

definition ANON :: token where
  "ANON = CHR 0x00 # ''anon''"

datatype share_mode = COPY | TRANSFER

record entry =
  e_obj :: objref
  e_leases :: int
  e_parents :: "hid list"
  e_children :: "hid list"
  e_tokens :: "token list"

definition new_entry :: "objref \<Rightarrow> entry" where
  "new_entry ob = \<lparr>e_obj = ob, e_leases = 0, e_parents = [], e_children = [], e_tokens = []\<rparr>"

record connection =
  c_id :: nat
  c_leases :: "(hid, int) dict"
  c_last_seen :: time
  c_streams :: int

definition new_connection :: "nat \<Rightarrow> time \<Rightarrow> connection" where
  "new_connection i now = \<lparr>c_id = i, c_leases = [], c_last_seen = now, c_streams = 0\<rparr>"

record table =
  ttl :: "time option"
  escrow_ttl :: "time option"
  entries :: "(hid, entry) dict"
  connections :: "(token, connection) dict"
  escrow :: "(token, (hid, int) dict) dict"
  escrowed_at :: "(token, time) dict"
  by_obj :: "(token, (objref, hid) dict) dict"
  on_drop :: bool \<comment> \<open>whether the transport set the callback\<close>
  on_drop_calls :: "objref list" \<comment> \<open>the objects it was called with, in order\<close>
  next_conn :: nat

definition new_table :: "time option \<Rightarrow> time option \<Rightarrow> table" where
  "new_table l e = \<lparr>ttl = l, escrow_ttl = e, entries = [], connections = [], escrow = [],
     escrowed_at = [], by_obj = [], on_drop = False, on_drop_calls = [], next_conn = 0\<rparr>"

definition key_of :: "token \<Rightarrow> token" where
  "key_of tok = (if tok = [] then ANON else tok)"

text \<open>Writes through an object the table holds: a no-op where the key is absent, which each
  operation below has already excluded.\<close>

definition upd_conn :: "token \<Rightarrow> (connection \<Rightarrow> connection) \<Rightarrow> table \<Rightarrow> table" where
  "upd_conn key f t = (case dict_get (connections t) key of None \<Rightarrow> t
     | Some c \<Rightarrow> t\<lparr>connections := dict_set key (f c) (connections t)\<rparr>)"

definition upd_entry :: "hid \<Rightarrow> (entry \<Rightarrow> entry) \<Rightarrow> table \<Rightarrow> table" where
  "upd_entry h f t = (case dict_get (entries t) h of None \<Rightarrow> t
     | Some e \<Rightarrow> t\<lparr>entries := dict_set h (f e) (entries t)\<rparr>)"

definition conn_lease :: "table \<Rightarrow> token \<Rightarrow> hid \<Rightarrow> int" where
  "conn_lease t key h = (case dict_get (connections t) key of None \<Rightarrow> 0
     | Some c \<Rightarrow> dict_default (c_leases c) h 0)"

definition escrow_lease :: "table \<Rightarrow> token \<Rightarrow> hid \<Rightarrow> int" where
  "escrow_lease t key h = (case dict_get (escrow t) key of None \<Rightarrow> 0
     | Some b \<Rightarrow> dict_default b h 0)"

definition put_lease :: "token \<Rightarrow> hid \<Rightarrow> int \<Rightarrow> table \<Rightarrow> table" where
  "put_lease key h n = upd_conn key (\<lambda>c. c\<lparr>c_leases := dict_set h n (c_leases c)\<rparr>)"

definition del_lease :: "token \<Rightarrow> hid \<Rightarrow> table \<Rightarrow> table" where
  "del_lease key h = upd_conn key (\<lambda>c. c\<lparr>c_leases := dict_del h (c_leases c)\<rparr>)"

definition see :: "time \<Rightarrow> token \<Rightarrow> table \<Rightarrow> table" where
  "see now key = upd_conn key (\<lambda>c. c\<lparr>c_last_seen := now\<rparr>)"

definition add_leases :: "hid \<Rightarrow> int \<Rightarrow> table \<Rightarrow> (exn + unit) \<times> table" where
  "add_leases h n t = (if dict_get (entries t) h = None then (Inl KeyError, t)
     else (Inr (), upd_entry h (\<lambda>e. e\<lparr>e_leases := e_leases e + n\<rparr>) t))"

subsection \<open>The object index\<close>

definition index :: "token \<Rightarrow> hid \<Rightarrow> table \<Rightarrow> (exn + unit) \<times> table" where
  "index tok h t = (case dict_get (entries t) h of None \<Rightarrow> (Inl KeyError, t)
     | Some e \<Rightarrow> (Inr (), upd_entry h (\<lambda>e. e\<lparr>e_tokens := set_add tok (e_tokens e)\<rparr>)
         (t\<lparr>by_obj := dict_set tok (dict_set (e_obj e) h (dict_default (by_obj t) tok []))
              (by_obj t)\<rparr>)))"

definition unindex :: "token \<Rightarrow> hid \<Rightarrow> table \<Rightarrow> table" where
  "unindex tok h t = (case dict_get (entries t) h of None \<Rightarrow> t
     | Some e \<Rightarrow> upd_entry h (\<lambda>e. e\<lparr>e_tokens := set_discard tok (e_tokens e)\<rparr>)
        (case dict_get (by_obj t) tok of None \<Rightarrow> t
         | Some b \<Rightarrow> if dict_get b (e_obj e) = Some h
             then let b' = dict_del (e_obj e) b in
                  t\<lparr>by_obj := if b' = [] then dict_del tok (by_obj t)
                             else dict_set tok b' (by_obj t)\<rparr>
             else t))"

definition unindex_all :: "token \<Rightarrow> table \<Rightarrow> table" where
  "unindex_all tok t =
     fold (\<lambda>h. upd_entry h (\<lambda>e. e\<lparr>e_tokens := set_discard tok (e_tokens e)\<rparr>))
       (map snd (dict_default (by_obj t) tok []))
       (t\<lparr>by_obj := dict_del tok (by_obj t)\<rparr>)"

subsection \<open>Connection records\<close>

definition conn_for :: "time \<Rightarrow> token \<Rightarrow> table \<Rightarrow> table" where
  "conn_for now tok t = (let key = key_of tok in
     case dict_get (connections t) key of
       None \<Rightarrow> t\<lparr>connections := dict_set key (new_connection (next_conn t) now) (connections t),
                next_conn := Suc (next_conn t)\<rparr>
     | Some _ \<Rightarrow> see now key t)"

definition require_conn :: "time \<Rightarrow> token \<Rightarrow> table \<Rightarrow> (exn + unit) \<times> table" where
  "require_conn now tok t = (let key = key_of tok in
     if dict_get (connections t) key = None then (Inl KeyError, t) else (Inr (), see now key t))"

definition alive :: "time \<Rightarrow> token \<Rightarrow> table \<Rightarrow> bool \<times> table" where
  "alive now tok t = (let key = key_of tok in
     if dict_get (connections t) key = None then (False, t) else (True, see now key t))"

fun claim_leases :: "token \<Rightarrow> (hid \<times> int) list \<Rightarrow> table \<Rightarrow> table" where
  "claim_leases tok [] t = t"
| "claim_leases tok ((h, n) # ps) t =
     (let t1 = put_lease tok h (conn_lease t tok h + n) t in
      claim_leases tok ps (if dict_get (entries t1) h = None then t1 else snd (index tok h t1)))"

definition bind :: "time \<Rightarrow> token \<Rightarrow> token option \<Rightarrow> table \<Rightarrow> token \<times> table" where
  "bind now nid claim t =
     (let tok = (case claim of None \<Rightarrow> nid | Some c \<Rightarrow> if c = [] then nid else c);
          t1 = (case dict_get (connections t) tok of
                  None \<Rightarrow> t\<lparr>connections := dict_set tok (new_connection (next_conn t) now)
                                             (connections t),
                           next_conn := Suc (next_conn t)\<rparr>
                | Some _ \<Rightarrow> see now tok t);
          t2 = upd_conn tok (\<lambda>c. c\<lparr>c_streams := c_streams c + 1\<rparr>) t1;
          t3 = t2\<lparr>escrowed_at := dict_del tok (escrowed_at t2)\<rparr>;
          bucket = dict_default (escrow t3) tok []
      in (tok, claim_leases tok bucket (t3\<lparr>escrow := dict_del tok (escrow t3)\<rparr>)))"

definition unbind :: "token \<Rightarrow> nat \<Rightarrow> table \<Rightarrow> table" where
  "unbind tok cid t = (case dict_get (connections t) tok of None \<Rightarrow> t
     | Some c \<Rightarrow> if c_id c \<noteq> cid then t
        else let c' = c\<lparr>c_streams := c_streams c - 1\<rparr> in
          if c_streams c' = 0 \<and> c_leases c' = []
          then unindex_all tok (t\<lparr>connections := dict_del tok (connections t)\<rparr>)
          else t\<lparr>connections := dict_set tok c' (connections t)\<rparr>)"

subsection \<open>Handles\<close>

definition grant :: "time \<Rightarrow> token \<Rightarrow> hid \<Rightarrow> int \<Rightarrow> table \<Rightarrow> (exn + unit) \<times> table" where
  "grant now tok h n t =
     (let key = key_of tok; t1 = conn_for now tok t
      in add_leases h n (put_lease key h (conn_lease t1 key h + n) t1))"

definition link :: "hid \<Rightarrow> hid \<Rightarrow> table \<Rightarrow> table" where
  "link h p t = upd_entry p (\<lambda>e. e\<lparr>e_children := set_add h (e_children e)\<rparr>)
     (upd_entry h (\<lambda>e. e\<lparr>e_parents := set_add p (e_parents e)\<rparr>) t)"

definition handle_for :: "table \<Rightarrow> token \<Rightarrow> objref \<Rightarrow> hid option" where
  "handle_for t key ob = dict_get (dict_default (by_obj t) key []) ob"

definition put :: "time \<Rightarrow> hid \<Rightarrow> objref \<Rightarrow> token \<Rightarrow> hid list \<Rightarrow> table \<Rightarrow> (exn + hid) \<times> table" where
  "put now nid ob tok ps t =
     (if list_ex (\<lambda>p. dict_get (entries t) p = None) ps then (Inl KeyError, t)
      else let key = key_of tok;
               (h, t1) = (case handle_for t key ob of
                   None \<Rightarrow> (nid, t\<lparr>entries := dict_set nid (new_entry ob) (entries t)\<rparr>)
                 | Some h \<Rightarrow> (h, t))
           in if dict_get (entries t1) h = None then (Inl KeyError, t1)
              else case grant now key h 1 (fold (link h) ps t1) of
                  (Inl x, t2) \<Rightarrow> (Inl x, t2)
                | (Inr _, t2) \<Rightarrow> (case index key h t2 of
                      (Inl x, t3) \<Rightarrow> (Inl x, t3)
                    | (Inr _, t3) \<Rightarrow> (Inr h, t3)))"

definition get :: "hid \<Rightarrow> table \<Rightarrow> exn + objref" where
  "get h t = (case dict_get (entries t) h of None \<Rightarrow> Inl KeyError | Some e \<Rightarrow> Inr (e_obj e))"

definition touch :: "time \<Rightarrow> token \<Rightarrow> hid \<Rightarrow> table \<Rightarrow> (exn + bool) \<times> table" where
  "touch now tok h t =
     (case dict_get (entries t) h of None \<Rightarrow> (Inl KeyError, t)
      | Some e \<Rightarrow> let key = key_of tok; t1 = conn_for now key t in
          if conn_lease t1 key h \<noteq> 0 then (Inr False, t1)
          else case grant now key h 1 t1 of (Inl x, t2) \<Rightarrow> (Inl x, t2)
             | (Inr _, t2) \<Rightarrow>
                 if handle_for t2 key (e_obj e) = None
                 then (case index key h t2 of (Inl x, t3) \<Rightarrow> (Inl x, t3)
                       | (Inr _, t3) \<Rightarrow> (Inr True, t3))
                 else (Inr True, t2))"

subsection \<open>Reaping\<close>

fun unlink_parents :: "hid list \<Rightarrow> hid \<Rightarrow> hid list \<Rightarrow> table \<Rightarrow> hid list \<times> table" where
  "unlink_parents [] h todo t = (todo, t)"
| "unlink_parents (p # ps) h todo t =
     (if dict_get (entries t) p = None then unlink_parents ps h todo t
      else unlink_parents ps h (p # todo)
             (upd_entry p (\<lambda>e. e\<lparr>e_children := set_discard h (e_children e)\<rparr>) t))"

definition drop_entry :: "hid \<Rightarrow> entry \<Rightarrow> hid list \<Rightarrow> table \<Rightarrow> hid list \<times> table" where
  "drop_entry h e todo t =
     (let t1 = fold (\<lambda>k. unindex k h) (e_tokens e) t;
          (todo', t2) = unlink_parents (e_parents e) h todo
                          (t1\<lparr>entries := dict_del h (entries t1)\<rparr>)
      in (todo', if on_drop t2 then t2\<lparr>on_drop_calls := on_drop_calls t2 @ [e_obj e]\<rparr> else t2))"

lemma length_upd_entry [simp]: "length (entries (upd_entry h f t)) = length (entries t)"
proof -
  have "length (dict_set k v d) = length d" if "dict_get d k = Some u" for k u d and v :: entry
    using that by (induction d) (auto split: if_splits)
  then show ?thesis by (auto simp: upd_entry_def split: option.splits)
qed

lemma length_unindex [simp]: "length (entries (unindex k h t)) = length (entries t)"
  by (auto simp: unindex_def Let_def split: option.splits)

lemma length_fold_unindex [simp]:
  "length (entries (fold (\<lambda>k. unindex k h) ks t)) = length (entries t)"
  by (induction ks arbitrary: t) simp_all

lemma length_unlink_parents [simp]:
  "length (entries (snd (unlink_parents ps h todo t))) = length (entries t)"
  by (induction ps h todo t rule: unlink_parents.induct) auto

lemma dict_get_upd_entry:
  "dict_get (entries (upd_entry h f t)) k =
     (if k = h then map_option f (dict_get (entries t) h) else dict_get (entries t) k)"
  by (auto simp: upd_entry_def split: option.splits)

lemma upd_entry_present [simp]:
  "dict_get (entries (upd_entry h f t)) k = None \<longleftrightarrow> dict_get (entries t) k = None"
  by (auto simp: dict_get_upd_entry)

lemma unindex_present [simp]:
  "dict_get (entries (unindex k h t)) h' = None \<longleftrightarrow> dict_get (entries t) h' = None"
  by (auto simp: unindex_def Let_def split: option.splits)

lemma fold_unindex_present [simp]:
  "dict_get (entries (fold (\<lambda>k. unindex k h) ks t)) h' = None \<longleftrightarrow> dict_get (entries t) h' = None"
  by (induction ks arbitrary: t) simp_all

lemma drop_entry_shorter:
  assumes "dict_get (entries t) h = Some e"
  shows "length (entries (snd (drop_entry h e' todo t))) < length (entries t)"
proof -
  let ?t1 = "fold (\<lambda>k. unindex k h) (e_tokens e') t"
  have "dict_get (entries ?t1) h \<noteq> None" using assms by simp
  then obtain e1 where "dict_get (entries ?t1) h = Some e1" by (simp only: not_None_eq) blast
  then have "length (dict_del h (entries ?t1)) < length (entries ?t1)"
    by (rule dict_del_shorter)
  then show ?thesis
    by (simp add: drop_entry_def Let_def case_prod_beta)
qed

text \<open>The work list of \<open>_reap\<close>, its next element first: \<open>todo.pop()\<close> takes the head and
  \<open>todo.append\<close> puts in front. It ends because each round drops an entry or shortens the list.\<close>

function reap :: "hid list \<Rightarrow> hid list \<Rightarrow> table \<Rightarrow> hid list \<times> table" where
  "reap [] dropped t = (dropped, t)"
| "reap (h # todo) dropped t =
     (case dict_get (entries t) h of None \<Rightarrow> reap todo dropped t
      | Some e \<Rightarrow> if e_leases e \<noteq> 0 \<or> e_children e \<noteq> [] then reap todo dropped t
          else reap (fst (drop_entry h e todo t)) (dropped @ [h]) (snd (drop_entry h e todo t)))"
  by pat_completeness auto
termination
  by (relation "measures [\<lambda>(todo, dropped, t). length (entries t), \<lambda>(todo, dropped, t). length todo]")
     (auto simp: drop_entry_shorter)

text \<open>The same with the drop named once, for evaluation.\<close>

lemma reap_code [code]:
  "reap [] dropped t = (dropped, t)"
  "reap (h # todo) dropped t =
     (case dict_get (entries t) h of None \<Rightarrow> reap todo dropped t
      | Some e \<Rightarrow> if e_leases e \<noteq> 0 \<or> e_children e \<noteq> [] then reap todo dropped t
          else (case drop_entry h e todo t of (todo', t') \<Rightarrow> reap todo' (dropped @ [h]) t'))"
  by (simp_all add: case_prod_beta split: option.split)

definition reap_candidates :: "hid list \<Rightarrow> table \<Rightarrow> hid list \<times> table" where
  "reap_candidates cs t = reap (rev cs) [] t"

subsection \<open>Releasing, sharing, detaching\<close>

definition release :: "time \<Rightarrow> token \<Rightarrow> hid \<Rightarrow> int \<Rightarrow> table \<Rightarrow> (exn + unit) \<times> table" where
  "release now tok h n t =
     (case require_conn now tok t of (Inl x, t1) \<Rightarrow> (Inl x, t1)
      | (Inr _, t1) \<Rightarrow> let key = key_of tok; held = conn_lease t1 key h in
          if held < n then (Inl ValueError, t1)
          else if held = n \<and> (case dict_get (connections t1) key of None \<Rightarrow> True
                               | Some c \<Rightarrow> dict_get (c_leases c) h = None) then (Inl KeyError, t1)
          else let t2 = (if held = n then del_lease key h t1 else put_lease key h (held - n) t1) in
            case add_leases h (- n) t2 of (Inl x, t3) \<Rightarrow> (Inl x, t3)
            | (Inr _, t3) \<Rightarrow> (Inr (), snd (reap_candidates [h] t3)))"

definition share :: "time \<Rightarrow> token \<Rightarrow> token \<Rightarrow> hid \<Rightarrow> share_mode \<Rightarrow> table \<Rightarrow> (exn + unit) \<times> table" where
  "share now from_token to_token h mode t =
     (case require_conn now from_token t of (Inl x, t1) \<Rightarrow> (Inl x, t1)
      | (Inr _, t1) \<Rightarrow> let key = key_of from_token in
          if to_token = key then (Inl ValueError, t1)
          else if dict_get (connections t1) to_token = None then (Inl KeyError, t1)
          else let held = conn_lease t1 key h in
            if held < 1 then (Inl ValueError, t1)
            else case (case mode of
                  TRANSFER \<Rightarrow> (Inr (), if held = 1 then del_lease key h t1
                                       else put_lease key h (held - 1) t1)
                | COPY \<Rightarrow> add_leases h 1 t1) of
              (Inl x, t2) \<Rightarrow> (Inl x, t2)
            | (Inr _, t2) \<Rightarrow>
                index to_token h (put_lease to_token h (conn_lease t2 to_token h + 1) t2))"

fun detach_loop :: "token \<Rightarrow> hid list \<Rightarrow> int \<Rightarrow> table \<Rightarrow> int \<times> table" where
  "detach_loop key [] moved t = (moved, t)"
| "detach_loop key (h # hs) moved t =
     (let n = conn_lease t key h; t1 = del_lease key h t in
      if n = 0 then detach_loop key hs moved t1
      else detach_loop key hs (moved + n)
             (t1\<lparr>escrow := dict_set key (dict_set h (escrow_lease t1 key h + n)
                           (dict_default (escrow t1) key [])) (escrow t1)\<rparr>))"

definition detach :: "time \<Rightarrow> token \<Rightarrow> hid option \<Rightarrow> table \<Rightarrow> (exn + int) \<times> table" where
  "detach now tok h t =
     (case require_conn now tok t of (Inl x, t1) \<Rightarrow> (Inl x, t1)
      | (Inr _, t1) \<Rightarrow>
          let key = key_of tok;
              targets = (case h of Some x \<Rightarrow> [x]
                | None \<Rightarrow> (case dict_get (connections t1) key of None \<Rightarrow> []
                             | Some c \<Rightarrow> dict_keys (c_leases c)));
              (moved, t2) = detach_loop key targets 0 t1
          in (Inr moved, if moved \<noteq> 0 then t2\<lparr>escrowed_at := dict_set key now (escrowed_at t2)\<rparr>
                         else t2))"

subsection \<open>Sweeping and closing\<close>

definition truthy :: "time option \<Rightarrow> bool" where
  "truthy x = (case x of None \<Rightarrow> False | Some v \<Rightarrow> v \<noteq> 0)"

fun drop_leases :: "(hid \<times> int) list \<Rightarrow> hid list \<Rightarrow> table \<Rightarrow> (exn + hid list) \<times> table" where
  "drop_leases [] released t = (Inr released, t)"
| "drop_leases ((h, n) # ps) released t =
     (case add_leases h (- n) t of (Inl x, t1) \<Rightarrow> (Inl x, t1)
      | (Inr _, t1) \<Rightarrow> drop_leases ps (released @ [h]) t1)"

fun sweep_escrow :: "token list \<Rightarrow> hid list \<Rightarrow> table \<Rightarrow> (exn + hid list) \<times> table" where
  "sweep_escrow [] released t = (Inr released, t)"
| "sweep_escrow (k # ks) released t =
     (let bucket = dict_default (escrow t) k [] in
      case drop_leases bucket released
             (t\<lparr>escrowed_at := dict_del k (escrowed_at t), escrow := dict_del k (escrow t)\<rparr>) of
        (Inl x, t1) \<Rightarrow> (Inl x, t1)
      | (Inr r, t1) \<Rightarrow> sweep_escrow ks r t1)"

fun sweep_dead :: "token list \<Rightarrow> hid list \<Rightarrow> table \<Rightarrow> (exn + hid list) \<times> table" where
  "sweep_dead [] released t = (Inr released, t)"
| "sweep_dead (k # ks) released t =
     (case dict_get (connections t) k of None \<Rightarrow> (Inl KeyError, t)
      | Some c \<Rightarrow> (case drop_leases (c_leases c) released
                          (t\<lparr>connections := dict_del k (connections t)\<rparr>) of
            (Inl x, t1) \<Rightarrow> (Inl x, t1)
          | (Inr r, t1) \<Rightarrow> sweep_dead ks r (unindex_all k t1)))"

definition stale_escrow :: "time \<Rightarrow> table \<Rightarrow> token list" where
  "stale_escrow now t = (case escrow_ttl t of None \<Rightarrow> [] | Some e \<Rightarrow>
     if e = 0 then [] else [k. (k, at) \<leftarrow> escrowed_at t, now - at > e])"

definition dead_connections :: "time \<Rightarrow> table \<Rightarrow> token list" where
  "dead_connections now t = (case ttl t of None \<Rightarrow> [] | Some l \<Rightarrow>
     if l = 0 then [] else [k. (k, c) \<leftarrow> connections t, now - c_last_seen c > l])"

definition sweep :: "time \<Rightarrow> table \<Rightarrow> (exn + hid list) \<times> table" where
  "sweep now t =
     (case sweep_escrow (stale_escrow now t) [] t of (Inl x, t1) \<Rightarrow> (Inl x, t1)
      | (Inr r1, t1) \<Rightarrow> (case sweep_dead (dead_connections now t1) r1 t1 of
            (Inl x, t2) \<Rightarrow> (Inl x, t2)
          | (Inr r2, t2) \<Rightarrow> (let (ds, t3) = reap_candidates r2 t2 in (Inr ds, t3))))"

definition close :: "table \<Rightarrow> hid list \<times> table" where
  "close t = reap_candidates (dict_keys (entries t))
     (t\<lparr>entries := map (\<lambda>(h, e). (h, e\<lparr>e_leases := 0\<rparr>)) (entries t),
        connections := [], escrow := [], escrowed_at := []\<rparr>)"

subsection \<open>The audit\<close>

datatype complaint =
    Mismatch hid int int \<comment> \<open>the entry's count and what the holders say\<close>
  | Unreaped hid
  | Dangling hid int

definition count_leases :: "(hid, int) dict \<Rightarrow> (hid, int) dict \<Rightarrow> (hid, int) dict" where
  "count_leases ls counted = fold (\<lambda>(h, n) d. dict_set h (dict_default d h 0 + n) d) ls counted"

fun audit_entries :: "(hid \<times> entry) list \<Rightarrow> (hid, int) dict \<Rightarrow> complaint list \<Rightarrow>
    complaint list \<times> (hid, int) dict" where
  "audit_entries [] counted bad = (bad, counted)"
| "audit_entries ((h, e) # es) counted bad =
     (let held = dict_default counted h 0 in
      audit_entries es (dict_del h counted)
        (bad @ (if held \<noteq> e_leases e then [Mismatch h (e_leases e) held] else [])
             @ (if e_leases e = 0 \<and> e_children e = [] then [Unreaped h] else [])))"

definition audit :: "table \<Rightarrow> complaint list" where
  "audit t =
     (let counted = fold count_leases (map snd (escrow t))
                      (fold count_leases (map (c_leases \<circ> snd) (connections t)) []);
          (bad, left) = audit_entries (entries t) counted []
      in bad @ map (\<lambda>(h, n). Dangling h n) left)"

definition audit_raises :: "table \<Rightarrow> exn + unit" where
  "audit_raises t = (if audit t = [] then Inr () else Inl AssertionError)"

end
