(* ===== verification/Lifecycle_Inv.thy ===== *)
theory Lifecycle_Inv
  imports Lifecycle
begin

text \<open>
  The invariant of the handle table. A lease is a unit the table moves between three places: a
  connection, an escrow bucket and the entry that counts them. \<open>held_total\<close> is what the holders say
  and \<open>entry_leases\<close> what the entry says; \<open>balanced\<close> is their agreement, the property
  \<open>HandleTable.audit\<close> checks at run time. The rest of \<open>table_inv\<close> is what makes the balance stable:
  key sets, positive counts, a symmetric producer graph, an object index that names live handles
  only, and no entry that nothing holds.
\<close>

named_theorems view_rules \<open>what an operation does to the views of the table\<close>

subsection \<open>Views\<close>

abbreviation ent :: "table \<Rightarrow> hid \<Rightarrow> entry option" where
  "ent t \<equiv> dict_get (entries t)"

definition conn_total :: "table \<Rightarrow> hid \<Rightarrow> int" where
  "conn_total t h = dict_sum (\<lambda>c. dict_default (c_leases c) h 0) (connections t)"

definition escrow_total :: "table \<Rightarrow> hid \<Rightarrow> int" where
  "escrow_total t h = dict_sum (\<lambda>b. dict_default b h 0) (escrow t)"

definition held_total :: "table \<Rightarrow> hid \<Rightarrow> int" where
  "held_total t h = conn_total t h + escrow_total t h"

definition entry_leases :: "table \<Rightarrow> hid \<Rightarrow> int" where
  "entry_leases t h = (case ent t h of None \<Rightarrow> 0 | Some e \<Rightarrow> e_leases e)"

subsection \<open>The invariant\<close>

definition keys_ok :: "table \<Rightarrow> bool" where
  "keys_ok t \<longleftrightarrow> dict_ok (entries t) \<and> dict_ok (connections t) \<and> dict_ok (escrow t) \<and>
     (\<forall>k c. dict_get (connections t) k = Some c \<longrightarrow> dict_ok (c_leases c)) \<and>
     (\<forall>k b. dict_get (escrow t) k = Some b \<longrightarrow> dict_ok b)"

definition leases_pos :: "table \<Rightarrow> bool" where
  "leases_pos t \<longleftrightarrow>
     (\<forall>k c h n. dict_get (connections t) k = Some c \<longrightarrow> dict_get (c_leases c) h = Some n \<longrightarrow> 0 < n) \<and>
     (\<forall>k b h n. dict_get (escrow t) k = Some b \<longrightarrow> dict_get b h = Some n \<longrightarrow> 0 < n)"

definition present :: "table \<Rightarrow> hid \<Rightarrow> bool" where
  "present t h \<longleftrightarrow> ent t h \<noteq> None"

definition pars :: "table \<Rightarrow> hid \<Rightarrow> hid set" where
  "pars t h = (case ent t h of None \<Rightarrow> {} | Some e \<Rightarrow> set (e_parents e))"

definition kids :: "table \<Rightarrow> hid \<Rightarrow> hid set" where
  "kids t h = (case ent t h of None \<Rightarrow> {} | Some e \<Rightarrow> set (e_children e))"

definition names :: "table \<Rightarrow> hid \<Rightarrow> token \<Rightarrow> objref \<Rightarrow> bool" where
  "names t h k ob = (case ent t h of None \<Rightarrow> False
     | Some e \<Rightarrow> e_obj e = ob \<and> k \<in> set (e_tokens e))"

definition graph_ok :: "table \<Rightarrow> bool" where
  "graph_ok t \<longleftrightarrow> (\<forall>c p. p \<in> pars t c \<longleftrightarrow> c \<in> kids t p)"

definition index_ok :: "table \<Rightarrow> bool" where
  "index_ok t \<longleftrightarrow> (\<forall>k ob h. handle_for t k ob = Some h \<longrightarrow> names t h k ob)"

definition balanced :: "table \<Rightarrow> bool" where
  "balanced t \<longleftrightarrow> (\<forall>h. held_total t h = entry_leases t h)"

definition escrow_ok :: "table \<Rightarrow> bool" where
  "escrow_ok t \<longleftrightarrow> (\<forall>k. dict_get (escrowed_at t) k = None \<longleftrightarrow> dict_get (escrow t) k = None)"

definition free_in :: "table \<Rightarrow> hid set \<Rightarrow> bool" where
  "free_in t H \<longleftrightarrow> (\<forall>h e. ent t h = Some e \<longrightarrow> e_leases e = 0 \<longrightarrow> e_children e = [] \<longrightarrow> h \<in> H)"

definition core_inv :: "table \<Rightarrow> bool" where
  "core_inv t \<longleftrightarrow> keys_ok t \<and> leases_pos t \<and> graph_ok t \<and> index_ok t \<and> balanced t"

definition table_inv :: "table \<Rightarrow> bool" where
  "table_inv t \<longleftrightarrow> core_inv t \<and> escrow_ok t \<and> free_in t {}"

subsection \<open>Frames of the writes\<close>

lemma upd_entry_frame [simp]:
  "connections (upd_entry h f t) = connections t"
  "escrow (upd_entry h f t) = escrow t"
  "escrowed_at (upd_entry h f t) = escrowed_at t"
  "by_obj (upd_entry h f t) = by_obj t"
  "ttl (upd_entry h f t) = ttl t"
  "escrow_ttl (upd_entry h f t) = escrow_ttl t"
  "on_drop (upd_entry h f t) = on_drop t"
  "on_drop_calls (upd_entry h f t) = on_drop_calls t"
  "next_conn (upd_entry h f t) = next_conn t"
  by (simp_all add: upd_entry_def split: option.splits)

lemma upd_conn_frame [simp]:
  "entries (upd_conn k f t) = entries t"
  "escrow (upd_conn k f t) = escrow t"
  "escrowed_at (upd_conn k f t) = escrowed_at t"
  "by_obj (upd_conn k f t) = by_obj t"
  "ttl (upd_conn k f t) = ttl t"
  "escrow_ttl (upd_conn k f t) = escrow_ttl t"
  "on_drop (upd_conn k f t) = on_drop t"
  "on_drop_calls (upd_conn k f t) = on_drop_calls t"
  "next_conn (upd_conn k f t) = next_conn t"
  by (simp_all add: upd_conn_def split: option.splits)

lemma get_upd_conn [view_rules]:
  "dict_get (connections (upd_conn k f t)) k' =
     (if k' = k then map_option f (dict_get (connections t) k) else dict_get (connections t) k')"
  by (auto simp: upd_conn_def split: option.splits)

lemma lease_frame [simp]:
  "entries (put_lease k h n t) = entries t" "entries (del_lease k h t) = entries t"
  "escrow (put_lease k h n t) = escrow t" "escrow (del_lease k h t) = escrow t"
  "escrowed_at (put_lease k h n t) = escrowed_at t" "escrowed_at (del_lease k h t) = escrowed_at t"
  "by_obj (put_lease k h n t) = by_obj t" "by_obj (del_lease k h t) = by_obj t"
  "entries (see now k t) = entries t" "escrow (see now k t) = escrow t"
  "escrowed_at (see now k t) = escrowed_at t" "by_obj (see now k t) = by_obj t"
  by (simp_all add: put_lease_def del_lease_def see_def)

lemma conn_total_upd_conn:
  assumes "dict_ok (connections t)"
  shows "conn_total (upd_conn k f t) h = conn_total t h +
    (case dict_get (connections t) k of None \<Rightarrow> 0
     | Some c \<Rightarrow> dict_default (c_leases (f c)) h 0 - dict_default (c_leases c) h 0)"
  using assms
  by (auto simp: conn_total_def upd_conn_def dict_sum_set dict_part_def split: option.splits)

lemma conn_total_put_lease [view_rules]:
  "dict_ok (connections t) \<Longrightarrow> dict_get (connections t) k \<noteq> None \<Longrightarrow>
   conn_total (put_lease k h n t) h' = conn_total t h' + (if h' = h then n - conn_lease t k h else 0)"
  by (auto simp: put_lease_def conn_total_upd_conn conn_lease_def)

lemma conn_total_del_lease [view_rules]:
  "dict_ok (connections t) \<Longrightarrow>
   conn_total (del_lease k h t) h' = conn_total t h' - (if h' = h then conn_lease t k h else 0)"
  by (auto simp: del_lease_def conn_total_upd_conn conn_lease_def split: option.splits)

lemma conn_total_see [view_rules, simp]:
  "dict_ok (connections t) \<Longrightarrow> conn_total (see now k t) h = conn_total t h"
  by (auto simp: see_def conn_total_upd_conn split: option.splits)

lemma conn_lease_put_lease [view_rules]:
  "dict_get (connections t) k \<noteq> None \<Longrightarrow>
   conn_lease (put_lease k h n t) k' h' = (if k' = k \<and> h' = h then n else conn_lease t k' h')"
  by (auto simp: put_lease_def conn_lease_def get_upd_conn split: option.splits)

lemma conn_lease_del_lease [view_rules]:
  "conn_lease (del_lease k h t) k' h' = (if k' = k \<and> h' = h then 0 else conn_lease t k' h')"
  by (auto simp: del_lease_def conn_lease_def get_upd_conn split: option.splits)

lemma conn_lease_see [simp]: "conn_lease (see now k t) k' h' = conn_lease t k' h'"
  by (auto simp: see_def conn_lease_def get_upd_conn split: option.splits)

lemma conn_total_same [simp]:
  "conn_total (upd_entry h f t) = conn_total t" "escrow_total (upd_entry h f t) = escrow_total t"
  "escrow_total (put_lease k h n t) = escrow_total t" "escrow_total (del_lease k h t) = escrow_total t"
  "escrow_total (see now k t) = escrow_total t" "escrow_total (upd_conn k g t) = escrow_total t"
  by (simp_all add: conn_total_def escrow_total_def fun_eq_iff)

lemma conn_present [simp]:
  "dict_get (connections (put_lease k h n t)) k' = None \<longleftrightarrow> dict_get (connections t) k' = None"
  "dict_get (connections (del_lease k h t)) k' = None \<longleftrightarrow> dict_get (connections t) k' = None"
  "dict_get (connections (see now k t)) k' = None \<longleftrightarrow> dict_get (connections t) k' = None"
  "dict_get (connections (upd_conn k f t)) k' = None \<longleftrightarrow> dict_get (connections t) k' = None"
  by (auto simp: put_lease_def del_lease_def see_def get_upd_conn)

lemma dict_ok_conn [simp]:
  "dict_ok (connections t) \<Longrightarrow> dict_ok (connections (upd_conn k f t))"
  "dict_ok (connections t) \<Longrightarrow> dict_ok (connections (put_lease k h n t))"
  "dict_ok (connections t) \<Longrightarrow> dict_ok (connections (del_lease k h t))"
  "dict_ok (connections t) \<Longrightarrow> dict_ok (connections (see now k t))"
  by (auto simp: put_lease_def del_lease_def see_def upd_conn_def split: option.splits)

lemma dict_ok_upd_entry [simp]: "dict_ok (entries t) \<Longrightarrow> dict_ok (entries (upd_entry h f t))"
  by (auto simp: upd_entry_def split: option.splits)

lemma entry_leases_upd_entry [view_rules]:
  "entry_leases (upd_entry h f t) h' =
     (if h' = h then (case ent t h of None \<Rightarrow> 0 | Some e \<Rightarrow> e_leases (f e)) else entry_leases t h')"
  by (auto simp: entry_leases_def dict_get_upd_entry split: option.splits)

lemma handle_for_frame [simp]:
  "handle_for (upd_entry h f t) = handle_for t" "handle_for (upd_conn k g t) = handle_for t"
  "handle_for (put_lease k h n t) = handle_for t" "handle_for (del_lease k h t) = handle_for t"
  "handle_for (see now k t) = handle_for t"
  by (simp_all add: handle_for_def fun_eq_iff)

subsection \<open>Keys and positive counts\<close>

lemma keys_ok_upd_entry [simp]: "keys_ok t \<Longrightarrow> keys_ok (upd_entry h f t)"
  by (simp add: keys_ok_def)

lemma keys_ok_lease [simp]:
  "keys_ok t \<Longrightarrow> keys_ok (put_lease k h n t)"
  "keys_ok t \<Longrightarrow> keys_ok (del_lease k h t)"
  "keys_ok t \<Longrightarrow> keys_ok (see now k t)"
  by (auto simp: keys_ok_def put_lease_def del_lease_def see_def get_upd_conn split: if_splits)

lemma leases_pos_upd_entry [simp]: "leases_pos (upd_entry h f t) = leases_pos t"
  by (simp add: leases_pos_def)

lemma leases_pos_put_lease: "leases_pos t \<Longrightarrow> 0 < n \<Longrightarrow> leases_pos (put_lease k h n t)"
  by (fastforce simp: leases_pos_def put_lease_def get_upd_conn split: if_splits)

lemma leases_pos_del_lease [simp]: "leases_pos t \<Longrightarrow> leases_pos (del_lease k h t)"
  by (fastforce simp: leases_pos_def del_lease_def get_upd_conn split: if_splits)

lemma leases_pos_see [simp]: "leases_pos t \<Longrightarrow> leases_pos (see now k t)"
  by (fastforce simp: leases_pos_def see_def get_upd_conn split: if_splits)

lemma conn_lease_nonneg: "leases_pos t \<Longrightarrow> 0 \<le> conn_lease t k h"
  by (force simp: leases_pos_def conn_lease_def dict_default_def split: option.splits)

lemma escrow_lease_nonneg: "leases_pos t \<Longrightarrow> 0 \<le> escrow_lease t k h"
  by (force simp: leases_pos_def escrow_lease_def dict_default_def split: option.splits)

lemma conn_total_nonneg:
  assumes "keys_ok t" "leases_pos t"
  shows "0 \<le> conn_total t h"
  unfolding conn_total_def
proof (rule dict_sum_nonneg)
  fix k c assume "(k, c) \<in> set (connections t)"
  with assms show "0 \<le> dict_default (c_leases c) h 0"
    by (force simp: keys_ok_def leases_pos_def dict_mem_iff dict_default_def split: option.splits)
qed

lemma escrow_total_nonneg:
  assumes "keys_ok t" "leases_pos t"
  shows "0 \<le> escrow_total t h"
  unfolding escrow_total_def
proof (rule dict_sum_nonneg)
  fix k b assume "(k, b) \<in> set (escrow t)"
  with assms show "0 \<le> dict_default b h 0"
    by (force simp: keys_ok_def leases_pos_def dict_mem_iff dict_default_def split: option.splits)
qed

lemma conn_lease_le_total:
  assumes "keys_ok t" "leases_pos t"
  shows "conn_lease t k h \<le> held_total t h"
proof (cases "dict_get (connections t) k")
  case None
  with assms show ?thesis
    by (simp add: conn_lease_def held_total_def conn_total_nonneg escrow_total_nonneg)
next
  case (Some c)
  have "dict_default (c_leases c) h 0 \<le> conn_total t h"
    unfolding conn_total_def
  proof (rule dict_sum_ge[where f = "\<lambda>c. dict_default (c_leases c) h 0"])
    show "(k, c) \<in> set (connections t)" using Some by (rule dict_get_mem)
    fix k' c' assume "(k', c') \<in> set (connections t)"
    with assms show "0 \<le> dict_default (c_leases c') h 0"
      by (force simp: keys_ok_def leases_pos_def dict_mem_iff dict_default_def split: option.splits)
  qed
  then show ?thesis
    using Some escrow_total_nonneg[OF assms, of h] by (simp add: conn_lease_def held_total_def)
qed

lemma escrow_lease_le_total:
  assumes "keys_ok t" "leases_pos t"
  shows "escrow_lease t k h \<le> held_total t h"
proof (cases "dict_get (escrow t) k")
  case None
  with assms show ?thesis
    by (simp add: escrow_lease_def held_total_def conn_total_nonneg escrow_total_nonneg)
next
  case (Some b)
  have "dict_default b h 0 \<le> escrow_total t h"
    unfolding escrow_total_def
  proof (rule dict_sum_ge[where f = "\<lambda>b. dict_default b h 0"])
    show "(k, b) \<in> set (escrow t)" using Some by (rule dict_get_mem)
    fix k' b' assume "(k', b') \<in> set (escrow t)"
    with assms show "0 \<le> dict_default b' h 0"
      by (force simp: keys_ok_def leases_pos_def dict_mem_iff dict_default_def split: option.splits)
  qed
  then show ?thesis
    using Some conn_total_nonneg[OF assms, of h] by (simp add: escrow_lease_def held_total_def)
qed

lemma total_nonneg: "keys_ok t \<Longrightarrow> leases_pos t \<Longrightarrow> 0 \<le> held_total t h"
  by (simp add: held_total_def conn_total_nonneg escrow_total_nonneg)

lemma core_invD:
  "core_inv t \<Longrightarrow> keys_ok t" "core_inv t \<Longrightarrow> leases_pos t" "core_inv t \<Longrightarrow> graph_ok t"
  "core_inv t \<Longrightarrow> index_ok t" "core_inv t \<Longrightarrow> balanced t"
  by (simp_all add: core_inv_def)

lemma held_is_entry:
  assumes "core_inv t" "conn_lease t k h \<noteq> 0 \<or> escrow_lease t k h \<noteq> 0"
  shows "\<exists>e. ent t h = Some e \<and> 0 < e_leases e"
proof -
  note ok = core_invD[OF assms(1)]
  have "0 < held_total t h"
    using assms(2) conn_lease_le_total[OF ok(1,2), of k h] escrow_lease_le_total[OF ok(1,2), of k h]
      conn_lease_nonneg[OF ok(2), of k h] escrow_lease_nonneg[OF ok(2), of k h] by linarith
  then have "0 < entry_leases t h" using ok(5) by (simp add: balanced_def)
  then show ?thesis by (simp add: entry_leases_def split: option.splits)
qed

lemma entry_leases_nonneg: "core_inv t \<Longrightarrow> ent t h = Some e \<Longrightarrow> 0 \<le> e_leases e"
  using total_nonneg[of t h] by (simp add: core_inv_def balanced_def entry_leases_def)

subsection \<open>The producer graph and the index under writes\<close>

lemma pars_upd_entry [view_rules]:
  "pars (upd_entry h f t) c = (if c = h
     then (case ent t h of None \<Rightarrow> {} | Some e \<Rightarrow> set (e_parents (f e))) else pars t c)"
  by (auto simp: pars_def dict_get_upd_entry split: option.splits)

lemma kids_upd_entry [view_rules]:
  "kids (upd_entry h f t) c = (if c = h
     then (case ent t h of None \<Rightarrow> {} | Some e \<Rightarrow> set (e_children (f e))) else kids t c)"
  by (auto simp: kids_def dict_get_upd_entry split: option.splits)

lemma names_upd_entry [view_rules]:
  "names (upd_entry h f t) c k ob = (if c = h
     then (case ent t h of None \<Rightarrow> False | Some e \<Rightarrow> e_obj (f e) = ob \<and> k \<in> set (e_tokens (f e)))
     else names t c k ob)"
  by (auto simp: names_def dict_get_upd_entry split: option.splits)

text \<open>A write that leaves a field alone leaves the view of it alone.\<close>

lemma pars_same: "(\<And>e. e_parents (f e) = e_parents e) \<Longrightarrow> pars (upd_entry h f t) = pars t"
  by (auto simp: fun_eq_iff pars_def dict_get_upd_entry split: option.splits)

lemma kids_same: "(\<And>e. e_children (f e) = e_children e) \<Longrightarrow> kids (upd_entry h f t) = kids t"
  by (auto simp: fun_eq_iff kids_def dict_get_upd_entry split: option.splits)

lemma names_same:
  "(\<And>e. e_obj (f e) = e_obj e) \<Longrightarrow> (\<And>e. e_tokens (f e) = e_tokens e) \<Longrightarrow>
   names (upd_entry h f t) = names t"
  by (auto simp: fun_eq_iff names_def dict_get_upd_entry split: option.splits)

lemma views_entries:
  "entries t' = entries t \<Longrightarrow> pars t' = pars t"
  "entries t' = entries t \<Longrightarrow> kids t' = kids t"
  "entries t' = entries t \<Longrightarrow> names t' = names t"
  "entries t' = entries t \<Longrightarrow> entry_leases t' = entry_leases t"
  by (auto simp: fun_eq_iff pars_def kids_def names_def entry_leases_def)

lemma graph_ok_cong: "pars t' = pars t \<Longrightarrow> kids t' = kids t \<Longrightarrow> graph_ok t' = graph_ok t"
  by (simp add: graph_ok_def)

lemma index_ok_mono:
  "index_ok t \<Longrightarrow> handle_for t' = handle_for t \<Longrightarrow> (\<And>h k ob. names t h k ob \<Longrightarrow> names t' h k ob) \<Longrightarrow>
   index_ok t'"
  by (simp add: index_ok_def)

lemma lease_views [simp]:
  "pars (put_lease k h n t) = pars t" "kids (put_lease k h n t) = kids t"
  "names (put_lease k h n t) = names t" "entry_leases (put_lease k h n t) = entry_leases t"
  "pars (del_lease k h t) = pars t" "kids (del_lease k h t) = kids t"
  "names (del_lease k h t) = names t" "entry_leases (del_lease k h t) = entry_leases t"
  "pars (see now k t) = pars t" "kids (see now k t) = kids t"
  "names (see now k t) = names t" "entry_leases (see now k t) = entry_leases t"
  by (rule views_entries, simp)+

lemma graph_okD:
  assumes "graph_ok t"
  shows "p \<in> pars t c \<longleftrightarrow> c \<in> kids t p"
  using assms by (simp add: graph_ok_def)

lemma kids_ent: "c \<in> kids t p \<Longrightarrow> present t p"
  by (cases "ent t p") (auto simp: kids_def present_def)

lemma pars_ent: "p \<in> pars t c \<Longrightarrow> present t c"
  by (cases "ent t c") (auto simp: pars_def present_def)

lemma pars_present: "graph_ok t \<Longrightarrow> p \<in> pars t c \<Longrightarrow> present t p"
  using graph_okD kids_ent by metis

lemma kids_present: "graph_ok t \<Longrightarrow> c \<in> kids t p \<Longrightarrow> present t c"
  using graph_okD pars_ent by metis

lemma present_frame [simp]:
  "present (upd_entry h f t) k = present t k" "present (upd_conn c g t) k = present t k"
  "present (put_lease c h n t) k = present t k" "present (del_lease c h t) k = present t k"
  "present (see now c t) k = present t k" "present (unindex c h t) k = present t k"
  by (simp_all add: present_def)

subsection \<open>Linking a handle to its producers\<close>

lemma link_frame [simp]:
  "connections (link h p t) = connections t" "escrow (link h p t) = escrow t"
  "escrowed_at (link h p t) = escrowed_at t" "by_obj (link h p t) = by_obj t"
  "handle_for (link h p t) = handle_for t" "conn_total (link h p t) = conn_total t"
  "escrow_total (link h p t) = escrow_total t" "present (link h p t) k = present t k"
  by (simp_all add: link_def)

lemma pars_link: "present t h \<Longrightarrow> pars (link h p t) c = pars t c \<union> (if c = h then {p} else {})"
  by (auto simp: link_def pars_def dict_get_upd_entry present_def split: option.splits)

lemma kids_link: "present t p \<Longrightarrow> kids (link h p t) c = kids t c \<union> (if c = p then {h} else {})"
  by (auto simp: link_def kids_def dict_get_upd_entry present_def split: option.splits)

lemma names_link [simp]: "names (link h p t) = names t"
  by (simp add: link_def names_same)

lemma entry_leases_link [simp]: "entry_leases (link h p t) = entry_leases t"
  by (auto simp: fun_eq_iff link_def entry_leases_def dict_get_upd_entry split: option.splits)

lemma graph_ok_link:
  "graph_ok t \<Longrightarrow> present t h \<Longrightarrow> present t p \<Longrightarrow> graph_ok (link h p t)"
  by (auto simp: graph_ok_def pars_link kids_link)

lemma keys_ok_link [simp]: "keys_ok t \<Longrightarrow> keys_ok (link h p t)"
  by (simp add: link_def)

lemma leases_pos_link [simp]: "leases_pos (link h p t) = leases_pos t"
  by (simp add: link_def)

lemma link_all_frame [simp]:
  "connections (fold (link h) ps t) = connections t" "escrow (fold (link h) ps t) = escrow t"
  "escrowed_at (fold (link h) ps t) = escrowed_at t" "by_obj (fold (link h) ps t) = by_obj t"
  "handle_for (fold (link h) ps t) = handle_for t" "names (fold (link h) ps t) = names t"
  "conn_total (fold (link h) ps t) = conn_total t"
  "escrow_total (fold (link h) ps t) = escrow_total t"
  "entry_leases (fold (link h) ps t) = entry_leases t"
  "leases_pos (fold (link h) ps t) = leases_pos t"
  "present (fold (link h) ps t) k = present t k"
  by (induction ps arbitrary: t) simp_all

lemma keys_ok_link_all [simp]: "keys_ok t \<Longrightarrow> keys_ok (fold (link h) ps t)"
  by (induction ps arbitrary: t) simp_all

lemma graph_ok_link_all:
  "graph_ok t \<Longrightarrow> present t h \<Longrightarrow> \<forall>p\<in>set ps. present t p \<Longrightarrow> graph_ok (fold (link h) ps t)"
proof (induction ps arbitrary: t)
  case (Cons p ps)
  then show ?case using graph_ok_link[of t h p] by simp
qed simp

lemma pars_link_all:
  "present t h \<Longrightarrow> pars (fold (link h) ps t) c = pars t c \<union> (if c = h then set ps else {})"
  by (induction ps arbitrary: t) (auto simp: pars_link)

lemma kids_link_all:
  "\<forall>p\<in>set ps. present t p \<Longrightarrow>
   kids (fold (link h) ps t) c = kids t c \<union> (if c \<in> set ps then {h} else {})"
  by (induction ps arbitrary: t) (auto simp: kids_link)

subsection \<open>The other fields\<close>

lemma entry_views_other [simp]:
  "pars (t\<lparr>by_obj := b\<rparr>) = pars t" "kids (t\<lparr>by_obj := b\<rparr>) = kids t"
  "names (t\<lparr>by_obj := b\<rparr>) = names t" "entry_leases (t\<lparr>by_obj := b\<rparr>) = entry_leases t"
  "pars (t\<lparr>connections := c\<rparr>) = pars t" "kids (t\<lparr>connections := c\<rparr>) = kids t"
  "names (t\<lparr>connections := c\<rparr>) = names t" "entry_leases (t\<lparr>connections := c\<rparr>) = entry_leases t"
  "pars (t\<lparr>escrow := s\<rparr>) = pars t" "kids (t\<lparr>escrow := s\<rparr>) = kids t"
  "names (t\<lparr>escrow := s\<rparr>) = names t" "entry_leases (t\<lparr>escrow := s\<rparr>) = entry_leases t"
  "pars (t\<lparr>escrowed_at := a\<rparr>) = pars t" "kids (t\<lparr>escrowed_at := a\<rparr>) = kids t"
  "names (t\<lparr>escrowed_at := a\<rparr>) = names t" "entry_leases (t\<lparr>escrowed_at := a\<rparr>) = entry_leases t"
  "pars (t\<lparr>on_drop_calls := l\<rparr>) = pars t" "kids (t\<lparr>on_drop_calls := l\<rparr>) = kids t"
  "names (t\<lparr>on_drop_calls := l\<rparr>) = names t" "entry_leases (t\<lparr>on_drop_calls := l\<rparr>) = entry_leases t"
  "pars (t\<lparr>next_conn := i\<rparr>) = pars t" "kids (t\<lparr>next_conn := i\<rparr>) = kids t"
  "names (t\<lparr>next_conn := i\<rparr>) = names t" "entry_leases (t\<lparr>next_conn := i\<rparr>) = entry_leases t"
  by (rule views_entries, simp)+

lemma present_other [simp]:
  "present (t\<lparr>by_obj := b\<rparr>) k = present t k" "present (t\<lparr>connections := c\<rparr>) k = present t k"
  "present (t\<lparr>escrow := s\<rparr>) k = present t k" "present (t\<lparr>escrowed_at := a\<rparr>) k = present t k"
  "present (t\<lparr>on_drop_calls := l\<rparr>) k = present t k" "present (t\<lparr>next_conn := i\<rparr>) k = present t k"
  by (simp_all add: present_def)

lemma totals_other [simp]:
  "conn_total (t\<lparr>by_obj := b\<rparr>) = conn_total t" "escrow_total (t\<lparr>by_obj := b\<rparr>) = escrow_total t"
  "conn_total (t\<lparr>entries := e\<rparr>) = conn_total t" "escrow_total (t\<lparr>entries := e\<rparr>) = escrow_total t"
  "conn_total (t\<lparr>escrow := s\<rparr>) = conn_total t" "escrow_total (t\<lparr>connections := c\<rparr>) = escrow_total t"
  "conn_total (t\<lparr>escrowed_at := a\<rparr>) = conn_total t" "escrow_total (t\<lparr>escrowed_at := a\<rparr>) = escrow_total t"
  "conn_total (t\<lparr>on_drop_calls := l\<rparr>) = conn_total t" "escrow_total (t\<lparr>on_drop_calls := l\<rparr>) = escrow_total t"
  "conn_total (t\<lparr>next_conn := i\<rparr>) = conn_total t" "escrow_total (t\<lparr>next_conn := i\<rparr>) = escrow_total t"
  by (simp_all add: conn_total_def escrow_total_def fun_eq_iff)

lemma handle_for_other [simp]:
  "handle_for (t\<lparr>connections := c\<rparr>) = handle_for t" "handle_for (t\<lparr>entries := e\<rparr>) = handle_for t"
  "handle_for (t\<lparr>escrow := s\<rparr>) = handle_for t" "handle_for (t\<lparr>escrowed_at := a\<rparr>) = handle_for t"
  "handle_for (t\<lparr>on_drop_calls := l\<rparr>) = handle_for t" "handle_for (t\<lparr>next_conn := i\<rparr>) = handle_for t"
  by (simp_all add: handle_for_def fun_eq_iff)

lemma keys_pos_other [simp]:
  "keys_ok (t\<lparr>by_obj := b\<rparr>) = keys_ok t" "leases_pos (t\<lparr>by_obj := b\<rparr>) = leases_pos t"
  "keys_ok (t\<lparr>escrowed_at := a\<rparr>) = keys_ok t" "leases_pos (t\<lparr>escrowed_at := a\<rparr>) = leases_pos t"
  "keys_ok (t\<lparr>on_drop_calls := l\<rparr>) = keys_ok t" "leases_pos (t\<lparr>on_drop_calls := l\<rparr>) = leases_pos t"
  "keys_ok (t\<lparr>next_conn := i\<rparr>) = keys_ok t" "leases_pos (t\<lparr>next_conn := i\<rparr>) = leases_pos t"
  "leases_pos (t\<lparr>entries := e\<rparr>) = leases_pos t"
  by (simp_all add: keys_ok_def leases_pos_def)

subsection \<open>The index\<close>

lemma index_Inr: "present t h \<Longrightarrow> fst (index k h t) = Inr ()"
  by (auto simp: index_def present_def)

lemma index_frame [simp]:
  "connections (snd (index k h t)) = connections t" "escrow (snd (index k h t)) = escrow t"
  "escrowed_at (snd (index k h t)) = escrowed_at t"
  "conn_total (snd (index k h t)) = conn_total t" "escrow_total (snd (index k h t)) = escrow_total t"
  "present (snd (index k h t)) c = present t c"
  "leases_pos (snd (index k h t)) = leases_pos t"
  by (simp_all add: index_def split: option.splits)

lemma index_views [simp]:
  "pars (snd (index k h t)) = pars t" "kids (snd (index k h t)) = kids t"
  "entry_leases (snd (index k h t)) = entry_leases t"
  by (auto simp: index_def pars_same kids_same entry_leases_def dict_get_upd_entry fun_eq_iff
      split: option.splits)

lemma keys_ok_index [simp]: "keys_ok t \<Longrightarrow> keys_ok (snd (index k h t))"
  by (auto simp: index_def split: option.splits)

lemma names_index:
  "names (snd (index k h t)) c k' ob =
     (names t c k' ob \<or> c = h \<and> k' = k \<and> map_option e_obj (ent t h) = Some ob)"
  by (auto simp: index_def names_def dict_get_upd_entry split: option.splits)

lemma handle_for_index:
  "handle_for (snd (index k h t)) k' ob =
     (if k' = k \<and> map_option e_obj (ent t h) = Some ob then Some h else handle_for t k' ob)"
  by (auto simp: index_def handle_for_def split: option.splits)

lemma index_ok_index: "index_ok t \<Longrightarrow> index_ok (snd (index k h t))"
  by (auto simp: index_ok_def handle_for_index names_index split: if_splits)

lemma unindex_frame [simp]:
  "connections (unindex k h t) = connections t" "escrow (unindex k h t) = escrow t"
  "escrowed_at (unindex k h t) = escrowed_at t" "on_drop (unindex k h t) = on_drop t"
  "on_drop_calls (unindex k h t) = on_drop_calls t"
  "conn_total (unindex k h t) = conn_total t" "escrow_total (unindex k h t) = escrow_total t"
  "leases_pos (unindex k h t) = leases_pos t"
  by (simp_all add: unindex_def Let_def split: option.splits)

lemma ent_unindex_other: "c \<noteq> h \<Longrightarrow> ent (unindex k h t) c = ent t c"
  by (auto simp: unindex_def Let_def dict_get_upd_entry split: option.splits)

lemma ent_unindex_same:
  "ent (unindex k h t) h =
     map_option (\<lambda>e. e\<lparr>e_tokens := set_discard k (e_tokens e)\<rparr>) (ent t h)"
  by (auto simp: unindex_def Let_def dict_get_upd_entry split: option.splits)

lemma keys_ok_unindex [simp]: "keys_ok t \<Longrightarrow> keys_ok (unindex k h t)"
  by (auto simp: unindex_def Let_def split: option.splits)

lemma handle_for_unindex:
  "handle_for (unindex k h t) k' ob =
     (if k' = k \<and> handle_for t k ob = Some h \<and> map_option e_obj (ent t h) = Some ob
      then None else handle_for t k' ob)"
proof -
  have "dict_get (dict_del o' b) ob = None" if "dict_del o' b = []" for o' b
    using that by simp
  moreover have "dict_get b ob = None \<or> ob = o'" if "dict_del o' b = []" for o' and b :: "(objref, hid) dict"
    using that dict_get_del[of o' b ob] by (auto split: if_splits)
  ultimately show ?thesis
    by (fastforce simp: unindex_def Let_def handle_for_def split: option.splits if_splits)
qed

end
