(* ===== verification/Reaping.thy ===== *)
theory Reaping
  imports Lifecycle_Inv
begin

text \<open>
  \<open>HandleTable._reap\<close>: what dropping one entry does to the views of the table, that the loop
  keeps the invariant and leaves nothing free, and that it is an exact collector. \<open>pinned\<close> is the
  abstract specification, the least set that holds every leased entry and every producer of a
  pinned one. Reaping keeps it, and on an acyclic producer graph what survives is what is pinned.
\<close>

subsection \<open>Dropping one entry\<close>

lemma fold_unindex_frame [simp]:
  "connections (fold (\<lambda>k. unindex k h) ks t) = connections t"
  "escrow (fold (\<lambda>k. unindex k h) ks t) = escrow t"
  "escrowed_at (fold (\<lambda>k. unindex k h) ks t) = escrowed_at t"
  "on_drop (fold (\<lambda>k. unindex k h) ks t) = on_drop t"
  "on_drop_calls (fold (\<lambda>k. unindex k h) ks t) = on_drop_calls t"
  by (induction ks arbitrary: t) simp_all

lemma keys_ok_fold_unindex: "keys_ok t \<Longrightarrow> keys_ok (fold (\<lambda>k. unindex k h) ks t)"
  by (induction ks arbitrary: t) simp_all

lemma ent_fold_unindex: "c \<noteq> h \<Longrightarrow> ent (fold (\<lambda>k. unindex k h) ks t) c = ent t c"
  by (induction ks arbitrary: t) (simp_all add: ent_unindex_other)

lemma obj_unindex: "map_option e_obj (ent (unindex k h t) c) = map_option e_obj (ent t c)"
  by (cases "c = h"; cases "ent t c") (simp_all add: ent_unindex_other ent_unindex_same)

lemma handle_for_fold_unindex:
  "handle_for (fold (\<lambda>k. unindex k h) ks t) k ob =
     (if k \<in> set ks \<and> handle_for t k ob = Some h \<and> map_option e_obj (ent t h) = Some ob
      then None else handle_for t k ob)"
proof (induction ks arbitrary: t)
  case (Cons a ks)
  show ?case
    unfolding fold_Cons comp_apply Cons.IH handle_for_unindex obj_unindex
    by (cases "map_option e_obj (ent t h) = Some ob"; cases "handle_for t k ob = Some h";
        cases "k = a") simp_all
qed simp

lemma unlink_parents_frame [simp]:
  "connections (snd (unlink_parents ps h todo t)) = connections t"
  "escrow (snd (unlink_parents ps h todo t)) = escrow t"
  "escrowed_at (snd (unlink_parents ps h todo t)) = escrowed_at t"
  "on_drop (snd (unlink_parents ps h todo t)) = on_drop t"
  "on_drop_calls (snd (unlink_parents ps h todo t)) = on_drop_calls t"
  "handle_for (snd (unlink_parents ps h todo t)) = handle_for t"
  by (induction ps h todo t rule: unlink_parents.induct) simp_all

lemma keys_ok_unlink_parents: "keys_ok t \<Longrightarrow> keys_ok (snd (unlink_parents ps h todo t))"
  by (induction ps h todo t rule: unlink_parents.induct) simp_all

lemma set_discard_idem [simp]: "set_discard x (set_discard x xs) = set_discard x xs"
  by (simp add: set_discard_def)

lemma ent_unlink_parents:
  "ent (snd (unlink_parents ps h todo t)) c =
     map_option (\<lambda>e. if c \<in> set ps then e\<lparr>e_children := set_discard h (e_children e)\<rparr> else e)
       (ent t c)"
proof (induction ps h todo t rule: unlink_parents.induct)
  case (2 p ps h todo t)
  then show ?case
    by (cases "ent t c") (auto simp: dict_get_upd_entry)
qed (simp add: option.map_ident)

lemma todo_unlink_parents:
  "set (fst (unlink_parents ps h todo t)) = set todo \<union> {p \<in> set ps. present t p}"
  by (induction ps h todo t rule: unlink_parents.induct) (auto simp: present_def)

lemma drop_entry_frame [simp]:
  "connections (snd (drop_entry h e todo t)) = connections t"
  "escrow (snd (drop_entry h e todo t)) = escrow t"
  "escrowed_at (snd (drop_entry h e todo t)) = escrowed_at t"
  "on_drop (snd (drop_entry h e todo t)) = on_drop t"
  "on_drop_calls (snd (drop_entry h e todo t)) =
     on_drop_calls t @ (if on_drop t then [e_obj e] else [])"
  by (simp_all add: drop_entry_def Let_def case_prod_beta)

lemma ent_drop_entry:
  "ent (snd (drop_entry h e todo t)) c =
     (if c = h then None
      else map_option (\<lambda>x. if c \<in> set (e_parents e)
             then x\<lparr>e_children := set_discard h (e_children x)\<rparr> else x) (ent t c))"
  by (simp add: drop_entry_def Let_def case_prod_beta ent_unlink_parents ent_fold_unindex)

lemma todo_drop_entry:
  "set (fst (drop_entry h e todo t)) = set todo \<union> {p \<in> set (e_parents e). p \<noteq> h \<and> present t p}"
  by (auto simp: drop_entry_def Let_def case_prod_beta todo_unlink_parents present_def
      ent_fold_unindex)

lemma keys_ok_drop_entry: "keys_ok t \<Longrightarrow> keys_ok (snd (drop_entry h e todo t))"
proof -
  assume "keys_ok t"
  then have "keys_ok (fold (\<lambda>k. unindex k h) (e_tokens e) t)" by (rule keys_ok_fold_unindex)
  then have "keys_ok ((fold (\<lambda>k. unindex k h) (e_tokens e) t)\<lparr>entries :=
      dict_del h (entries (fold (\<lambda>k. unindex k h) (e_tokens e) t))\<rparr>)"
    by (simp add: keys_ok_def)
  then show ?thesis
    by (simp add: drop_entry_def Let_def case_prod_beta keys_ok_unlink_parents)
qed

lemma leases_pos_drop_entry: "leases_pos (snd (drop_entry h e todo t)) = leases_pos t"
  by (simp add: leases_pos_def)

lemma totals_drop_entry: "held_total (snd (drop_entry h e todo t)) = held_total t"
  by (simp add: held_total_def conn_total_def escrow_total_def fun_eq_iff)

lemma handle_for_drop_entry:
  assumes "index_ok t" "ent t h = Some e"
  shows "handle_for (snd (drop_entry h e todo t)) k ob =
    (if handle_for t k ob = Some h then None else handle_for t k ob)"
proof -
  have "names t h k ob" if "handle_for t k ob = Some h"
    using assms(1) that by (simp add: index_ok_def)
  then show ?thesis using assms(2)
    by (auto simp: drop_entry_def Let_def case_prod_beta handle_for_fold_unindex names_def)
qed

lemma pars_drop_entry:
  "pars (snd (drop_entry h e todo t)) c = (if c = h then {} else pars t c)"
  by (auto simp: pars_def ent_drop_entry split: option.splits)

lemma kids_drop_entry:
  "kids (snd (drop_entry h e todo t)) p =
     (if p = h then {} else kids t p - (if p \<in> set (e_parents e) then {h} else {}))"
  by (auto simp: kids_def ent_drop_entry split: option.splits)

lemma names_drop_entry:
  "names (snd (drop_entry h e todo t)) c k ob \<longleftrightarrow> c \<noteq> h \<and> names t c k ob"
  by (auto simp: names_def ent_drop_entry split: option.splits)

lemma entry_leases_drop_entry:
  "entry_leases (snd (drop_entry h e todo t)) c = (if c = h then 0 else entry_leases t c)"
  by (auto simp: entry_leases_def ent_drop_entry split: option.splits)

lemma present_drop_entry: "present (snd (drop_entry h e todo t)) c \<longleftrightarrow> c \<noteq> h \<and> present t c"
  by (simp add: present_def ent_drop_entry)

subsection \<open>What a free entry's drop keeps\<close>

lemma kids_free: "ent t h = Some e \<Longrightarrow> e_children e = [] \<Longrightarrow> kids t h = {}"
  by (simp add: kids_def)

lemma graph_ok_drop_entry:
  assumes "graph_ok t" "ent t h = Some e" "e_children e = []"
  shows "graph_ok (snd (drop_entry h e todo t))"
proof -
  have "kids t h = {}" using assms by (simp add: kids_def)
  then have "h \<notin> pars t c" for c using assms(1) by (simp add: graph_ok_def)
  moreover have "pars t h = set (e_parents e)" using assms(2) by (simp add: pars_def)
  ultimately show ?thesis
    using assms(1) by (auto simp: graph_ok_def pars_drop_entry kids_drop_entry)
qed

lemma core_inv_drop_entry:
  assumes "core_inv t" "ent t h = Some e" "e_leases e = 0" "e_children e = []"
  shows "core_inv (snd (drop_entry h e todo t))"
proof -
  note ok = core_invD[OF assms(1)]
  have "index_ok (snd (drop_entry h e todo t))"
    using ok(4) assms(2) by (auto simp: index_ok_def handle_for_drop_entry names_drop_entry)
  moreover have "balanced (snd (drop_entry h e todo t))"
  proof -
    have "entry_leases t h = 0" using assms(2,3) by (simp add: entry_leases_def)
    with ok(5) show ?thesis
      by (simp add: balanced_def totals_drop_entry entry_leases_drop_entry)
  qed
  ultimately show ?thesis
    using ok assms by (simp add: core_inv_def keys_ok_drop_entry leases_pos_drop_entry
        graph_ok_drop_entry)
qed

lemma free_in_drop_entry:
  assumes "graph_ok t" "ent t h = Some e" "free_in t (set (h # todo))"
  shows "free_in (snd (drop_entry h e todo t)) (set (fst (drop_entry h e todo t)))"
  unfolding free_in_def
proof (intro allI impI)
  fix c x assume x: "ent (snd (drop_entry h e todo t)) c = Some x" "e_leases x = 0" "e_children x = []"
  from x(1) have "c \<noteq> h" by (auto simp: ent_drop_entry)
  with x(1) obtain y where y: "c \<noteq> h" "ent t c = Some y"
    and xy: "x = (if c \<in> set (e_parents e) then y\<lparr>e_children := set_discard h (e_children y)\<rparr> else y)"
    by (cases "ent t c") (auto simp: ent_drop_entry)
  show "c \<in> set (fst (drop_entry h e todo t))"
  proof (cases "c \<in> set (e_parents e)")
    case True
    with y show ?thesis by (simp add: todo_drop_entry present_def)
  next
    case False
    with xy x y assms(3) show ?thesis by (auto simp: todo_drop_entry free_in_def)
  qed
qed

subsection \<open>The loop\<close>

lemma reap_skip:
  "\<not> (\<exists>e. ent t h = Some e \<and> e_leases e = 0 \<and> e_children e = []) \<Longrightarrow>
   reap (h # todo) ds t = reap todo ds t"
  by (auto split: option.splits)

lemma reap_drop:
  "ent t h = Some e \<Longrightarrow> e_leases e = 0 \<Longrightarrow> e_children e = [] \<Longrightarrow>
   reap (h # todo) ds t =
     reap (fst (drop_entry h e todo t)) (ds @ [h]) (snd (drop_entry h e todo t))"
  by simp

declare reap.simps(2) [simp del]

lemma reap_induct [case_names empty skip drop]:
  assumes "\<And>ds t. P [] ds t"
    and "\<And>h todo ds t. \<not> (\<exists>e. ent t h = Some e \<and> e_leases e = 0 \<and> e_children e = []) \<Longrightarrow>
          P todo ds t \<Longrightarrow> P (h # todo) ds t"
    and "\<And>h todo ds t e. ent t h = Some e \<Longrightarrow> e_leases e = 0 \<Longrightarrow> e_children e = [] \<Longrightarrow>
          P (fst (drop_entry h e todo t)) (ds @ [h]) (snd (drop_entry h e todo t)) \<Longrightarrow>
          P (h # todo) ds t"
  shows "P todo ds t"
proof (induction todo ds t rule: reap.induct)
  case (1 ds t)
  show ?case by (rule assms(1))
next
  case (2 h todo ds t)
  show ?case
  proof (cases "\<exists>e. ent t h = Some e \<and> e_leases e = 0 \<and> e_children e = []")
    case True
    then obtain e where "ent t h = Some e" "e_leases e = 0" "e_children e = []" by blast
    with 2(3) show ?thesis by (auto intro: assms(3))
  next
    case False
    with 2(1,2) show ?thesis by (cases "ent t h") (auto intro!: assms(2))
  qed
qed

lemma reap_frame [simp]:
  "connections (snd (reap todo ds t)) = connections t"
  "escrow (snd (reap todo ds t)) = escrow t"
  "escrowed_at (snd (reap todo ds t)) = escrowed_at t"
  "on_drop (snd (reap todo ds t)) = on_drop t"
  by (induction todo ds t rule: reap_induct) (simp_all add: reap_skip reap_drop)

lemma reap_inv:
  "core_inv t \<Longrightarrow> free_in t (set todo) \<Longrightarrow>
   core_inv (snd (reap todo ds t)) \<and> free_in (snd (reap todo ds t)) {}"
proof (induction todo ds t rule: reap_induct)
  case (skip h todo ds t)
  then have "free_in t (set todo)" by (fastforce simp: free_in_def)
  with skip show ?case by (simp add: reap_skip)
next
  case (drop h todo ds t e)
  then show ?case
    by (simp add: reap_drop core_inv_drop_entry free_in_drop_entry[OF core_invD(3)])
qed simp

text \<open>A survivor is the entry it was, with children removed; nothing is added.\<close>

lemma reap_survivor:
  "ent (snd (reap todo ds t)) c = Some x \<Longrightarrow>
   \<exists>y. ent t c = Some y \<and> e_obj x = e_obj y \<and> e_leases x = e_leases y \<and> e_parents x = e_parents y \<and>
       set (e_children x) \<subseteq> set (e_children y)"
proof (induction todo ds t rule: reap_induct)
  case (empty ds t)
  then show ?case by auto
next
  case (skip h todo ds t)
  then show ?case by (simp add: reap_skip)
next
  case (drop h todo ds t e)
  from drop.IH drop.prems drop.hyps obtain y where
    y: "ent (snd (drop_entry h e todo t)) c = Some y" "e_obj x = e_obj y" "e_leases x = e_leases y"
       "e_parents x = e_parents y" "set (e_children x) \<subseteq> set (e_children y)"
    by (auto simp: reap_drop)
  then show ?case by (auto simp: ent_drop_entry split: if_splits)
qed

subsection \<open>Exactness\<close>

inductive pinned :: "table \<Rightarrow> hid \<Rightarrow> bool" for t where
  leased: "ent t h = Some e \<Longrightarrow> e_leases e \<noteq> 0 \<Longrightarrow> pinned t h"
| producer: "c \<in> kids t h \<Longrightarrow> pinned t c \<Longrightarrow> pinned t h"

inductive_cases pinnedE: "pinned t h"

lemma pinned_present: "pinned t h \<Longrightarrow> present t h"
  by (induction rule: pinned.induct) (auto simp: present_def kids_def split: option.splits)

lemma not_pinned_free:
  assumes "ent t h = Some e" "e_leases e = 0" "e_children e = []"
  shows "\<not> pinned t h"
proof
  assume "pinned t h"
  then show False by (rule pinnedE) (use assms in \<open>auto simp: kids_def\<close>)
qed

lemma pinned_drop_entry:
  assumes "ent t h = Some e" "e_leases e = 0" "e_children e = []"
  shows "pinned (snd (drop_entry h e todo t)) c \<longleftrightarrow> pinned t c"
proof
  assume "pinned (snd (drop_entry h e todo t)) c"
  then show "pinned t c"
  proof (induction rule: pinned.induct)
    case (leased c x)
    from leased(1) have "c \<noteq> h" by (auto simp: ent_drop_entry)
    with leased obtain y where "ent t c = Some y" "e_leases y \<noteq> 0"
      by (cases "ent t c") (auto simp: ent_drop_entry split: if_splits)
    then show ?case by (rule pinned.leased)
  next
    case (producer c p)
    then have "c \<in> kids t p" by (auto simp: kids_drop_entry split: if_splits)
    then show ?case using producer.IH by (rule pinned.producer)
  qed
next
  assume "pinned t c"
  then show "pinned (snd (drop_entry h e todo t)) c"
  proof (induction rule: pinned.induct)
    case (leased c x)
    then have "c \<noteq> h" using assms by auto
    with leased show ?case
      by (intro pinned.leased[where e = "if c \<in> set (e_parents e)
            then x\<lparr>e_children := set_discard h (e_children x)\<rparr> else x"]) (auto simp: ent_drop_entry)
  next
    case (producer c p)
    have "c \<noteq> h" using producer.hyps(2) not_pinned_free[OF assms] by blast
    moreover have "p \<noteq> h" using producer.hyps(1) assms by (auto simp: kids_def)
    ultimately have "c \<in> kids (snd (drop_entry h e todo t)) p"
      using producer.hyps(1) by (simp add: kids_drop_entry)
    then show ?case using producer.IH by (rule pinned.producer)
  qed
qed

lemma pinned_reap: "pinned (snd (reap todo ds t)) = pinned t"
  by (induction todo ds t rule: reap_induct)
     (simp_all add: reap_skip reap_drop pinned_drop_entry fun_eq_iff)

definition edges :: "table \<Rightarrow> (hid \<times> hid) set" where
  "edges t = {(c, p). c \<in> kids t p}"

definition acyclic_graph :: "table \<Rightarrow> bool" where
  "acyclic_graph t \<longleftrightarrow> acyclic (edges t)"

lemma finite_edges: "graph_ok t \<Longrightarrow> finite (edges t)"
proof -
  assume g: "graph_ok t"
  have "edges t \<subseteq> set (dict_keys (entries t)) \<times> set (dict_keys (entries t))"
    using kids_present[OF g] kids_ent unfolding edges_def present_def
    by (auto simp: dict_keys_get[symmetric] simp del: set_map dest: map_of_SomeD)
  then show ?thesis by (rule finite_subset) simp
qed

lemma edges_drop_entry: "edges (snd (drop_entry h e todo t)) \<subseteq> edges t"
  by (auto simp: edges_def kids_drop_entry split: if_splits)

lemma edges_reap: "edges (snd (reap todo ds t)) \<subseteq> edges t"
proof (induction todo ds t rule: reap_induct)
  case (drop h todo ds t e)
  then show ?case using edges_drop_entry[of h e todo t] by (auto simp: reap_drop)
qed (simp_all add: reap_skip)

lemma all_pinned:
  assumes "graph_ok t" "free_in t {}" "acyclic_graph t" "present t h"
  shows "pinned t h"
proof -
  have "wf (edges t)"
    using finite_edges[OF assms(1)] assms(3) by (simp add: acyclic_graph_def finite_acyclic_wf)
  then show ?thesis using assms(4)
  proof (induction h rule: wf_induct_rule)
    case (less h)
    then obtain e where e: "ent t h = Some e" by (auto simp: present_def)
    show ?case
    proof (cases "e_leases e = 0")
      case True
      with e assms(2) have "e_children e \<noteq> []" by (auto simp: free_in_def)
      then obtain c where c: "c \<in> kids t h" using e by (cases "e_children e") (auto simp: kids_def)
      then have "pinned t c" using less.IH[of c] kids_present[OF assms(1) c] by (simp add: edges_def)
      with c show ?thesis by (rule pinned.producer)
    next
      case False
      with e show ?thesis by (rule pinned.leased)
    qed
  qed
qed

lemma reap_exact:
  assumes "core_inv t" "free_in t (set todo)" "acyclic_graph t"
  shows "present (snd (reap todo ds t)) h \<longleftrightarrow> pinned t h"
proof -
  from reap_inv[OF assms(1,2)] have inv: "core_inv (snd (reap todo ds t))"
    "free_in (snd (reap todo ds t)) {}" by blast+
  have "acyclic_graph (snd (reap todo ds t))"
    using assms(3) edges_reap[of todo ds t] acyclic_subset by (auto simp: acyclic_graph_def)
  then show ?thesis
    using all_pinned[OF core_invD(3)[OF inv(1)] inv(2)] pinned_present pinned_reap by metis
qed

subsection \<open>The order of the drops\<close>

lemma reap_drops:
  "\<exists>ds'. fst (reap todo ds t) = ds @ ds' \<and> distinct ds' \<and>
     set ds' = {h. present t h \<and> \<not> present (snd (reap todo ds t)) h} \<and>
     sorted_wrt (\<lambda>a b. b \<notin> kids t a) ds' \<and>
     (graph_ok t \<longrightarrow> on_drop_calls (snd (reap todo ds t)) = on_drop_calls t @
        (if on_drop t then map (\<lambda>h. e_obj (the (ent t h))) ds' else []))"
proof (induction todo ds t rule: reap_induct)
  case (empty ds t)
  show ?case by simp
next
  case (skip h todo ds t)
  then show ?case by (simp add: reap_skip)
next
  case (drop h todo ds t e)
  let ?t = "snd (drop_entry h e todo t)" and ?todo = "fst (drop_entry h e todo t)"
  from drop.IH obtain ds' where ds':
    "fst (reap ?todo (ds @ [h]) ?t) = (ds @ [h]) @ ds'" "distinct ds'"
    "set ds' = {x. present ?t x \<and> \<not> present (snd (reap ?todo (ds @ [h]) ?t)) x}"
    "sorted_wrt (\<lambda>a b. b \<notin> kids ?t a) ds'"
    "graph_ok ?t \<longrightarrow> on_drop_calls (snd (reap ?todo (ds @ [h]) ?t)) = on_drop_calls ?t @
        (if on_drop ?t then map (\<lambda>h. e_obj (the (ent ?t h))) ds' else [])" by blast
  have h: "h \<notin> set ds'" using ds'(3) by (simp add: present_drop_entry)
  have gone: "\<not> present (snd (reap ?todo (ds @ [h]) ?t)) h"
    using reap_survivor[of ?todo "ds @ [h]" ?t h]
    by (cases "ent (snd (reap ?todo (ds @ [h]) ?t)) h") (simp_all add: present_def ent_drop_entry)
  have "sorted_wrt (\<lambda>a b. b \<notin> kids t a) ds'"
    by (rule sorted_wrt_mono_rel[OF _ ds'(4)]) (use h in \<open>auto simp: kids_drop_entry split: if_splits\<close>)
  then have order: "sorted_wrt (\<lambda>a b. b \<notin> kids t a) (h # ds')"
    using drop.hyps by (simp add: kids_def)
  have R: "reap (h # todo) ds t = reap ?todo (ds @ [h]) ?t"
    using drop.hyps by (rule reap_drop)
  have set: "set (h # ds') = {x. present t x \<and> \<not> present (snd (reap (h # todo) ds t)) x}"
  proof -
    have "present t h" using drop.hyps(1) by (simp add: present_def)
    with ds'(3) gone show ?thesis unfolding R by (auto simp: present_drop_entry)
  qed
  have same: "map (\<lambda>h. e_obj (the (ent ?t h))) ds' = map (\<lambda>h. e_obj (the (ent t h))) ds'"
  proof (rule map_cong[OF refl])
    fix x assume "x \<in> set ds'"
    then have "present t x" "x \<noteq> h" using ds'(3) h by (auto simp: present_drop_entry)
    then show "e_obj (the (ent ?t x)) = e_obj (the (ent t x))"
      by (auto simp: ent_drop_entry present_def)
  qed
  show ?case
  proof (intro exI[of _ "h # ds'"] conjI impI)
    show "fst (reap (h # todo) ds t) = ds @ h # ds'" using ds'(1) by (simp add: R)
    show "distinct (h # ds')" using ds'(2) h by simp
    show "set (h # ds') = {x. present t x \<and> \<not> present (snd (reap (h # todo) ds t)) x}" by (fact set)
    show "sorted_wrt (\<lambda>a b. b \<notin> kids t a) (h # ds')" by (fact order)
    assume "graph_ok t"
    then have "graph_ok ?t" using drop.hyps by (intro graph_ok_drop_entry)
    with ds'(5) same drop.hyps(1)
    show "on_drop_calls (snd (reap (h # todo) ds t)) = on_drop_calls t @
        (if on_drop t then map (\<lambda>h. e_obj (the (ent t h))) (h # ds') else [])"
      unfolding R by simp
  qed
qed

end
