(* ===== verification/Lifecycle_Ops.thy ===== *)
theory Lifecycle_Ops
  imports Reaping
begin

text \<open>
  Every operation of the handle table keeps \<open>table_inv\<close>, with the exact effect on the lease counts
  where the operation moves leases. The proofs go through the views of \<open>Lifecycle_Inv\<close>: an
  operation is described by what it does to each view, and the invariant is a statement about
  the views.
\<close>

subsection \<open>The invariant through the views\<close>

lemma free_in_views:
  "free_in t H \<longleftrightarrow> (\<forall>h. present t h \<longrightarrow> entry_leases t h = 0 \<longrightarrow> kids t h = {} \<longrightarrow> h \<in> H)"
proof
  assume L: "free_in t H"
  show "\<forall>h. present t h \<longrightarrow> entry_leases t h = 0 \<longrightarrow> kids t h = {} \<longrightarrow> h \<in> H"
  proof (intro allI impI)
    fix h assume h: "present t h" "entry_leases t h = 0" "kids t h = {}"
    then obtain e where "ent t h = Some e" by (auto simp: present_def)
    with h L show "h \<in> H" by (auto simp: free_in_def entry_leases_def kids_def)
  qed
next
  assume R: "\<forall>h. present t h \<longrightarrow> entry_leases t h = 0 \<longrightarrow> kids t h = {} \<longrightarrow> h \<in> H"
  show "free_in t H" unfolding free_in_def
    using R by (auto simp: present_def entry_leases_def kids_def)
qed

lemma free_in_mono: "free_in t H \<Longrightarrow> H \<subseteq> K \<Longrightarrow> free_in t K"
  by (auto simp: free_in_def)

lemma core_invI:
  "keys_ok t \<Longrightarrow> leases_pos t \<Longrightarrow> graph_ok t \<Longrightarrow> index_ok t \<Longrightarrow> balanced t \<Longrightarrow> core_inv t"
  by (simp add: core_inv_def)

lemma table_invD:
  "table_inv t \<Longrightarrow> core_inv t" "table_inv t \<Longrightarrow> escrow_ok t" "table_inv t \<Longrightarrow> free_in t {}"
  by (simp_all add: table_inv_def)

lemma balancedD: "core_inv t \<Longrightarrow> conn_total t h + escrow_total t h = entry_leases t h"
  by (simp add: core_inv_def balanced_def held_total_def)

lemma core_keysD:
  assumes "core_inv t"
  shows "dict_ok (entries t)" "dict_ok (connections t)" "dict_ok (escrow t)"
    "dict_get (connections t) k = Some c \<Longrightarrow> dict_ok (c_leases c)"
    "dict_get (escrow t) k = Some b \<Longrightarrow> dict_ok b"
  using assms by (auto simp: core_inv_def keys_ok_def)

lemma core_inv_cong:
  assumes "core_inv t" "keys_ok t'" "leases_pos t'"
    "pars t' = pars t" "kids t' = kids t" "handle_for t' = handle_for t" "names t' = names t"
    "\<And>h. conn_total t' h + escrow_total t' h = entry_leases t' h"
  shows "core_inv t'"
  using assms by (simp add: core_inv_def graph_ok_def index_ok_def balanced_def held_total_def)

lemma table_inv_new [simp]: "table_inv (new_table l e)"
  by (simp add: table_inv_def core_inv_def keys_ok_def leases_pos_def graph_ok_def index_ok_def
      balanced_def escrow_ok_def free_in_def new_table_def pars_def kids_def handle_for_def
      held_total_def conn_total_def escrow_total_def entry_leases_def)

subsection \<open>Connection records\<close>

lemma key_of_key_of [simp]: "key_of (key_of tok) = key_of tok"
  by (simp add: key_of_def ANON_def)

lemma see_inv: "core_inv t \<Longrightarrow> core_inv (see now k t)"
  by (rule core_inv_cong) (auto simp: core_invD core_keysD balancedD)

lemma conn_for_frame [simp]:
  "entries (conn_for now tok t) = entries t" "escrow (conn_for now tok t) = escrow t"
  "escrowed_at (conn_for now tok t) = escrowed_at t" "by_obj (conn_for now tok t) = by_obj t"
  "present (conn_for now tok t) h = present t h" "pars (conn_for now tok t) = pars t"
  "kids (conn_for now tok t) = kids t" "names (conn_for now tok t) = names t"
  "entry_leases (conn_for now tok t) = entry_leases t"
  "handle_for (conn_for now tok t) = handle_for t"
  "escrow_total (conn_for now tok t) = escrow_total t"
  by (auto simp: conn_for_def Let_def split: option.splits)

lemma conn_for_present: "dict_get (connections (conn_for now tok t)) (key_of tok) \<noteq> None"
  by (cases "dict_get (connections t) (key_of tok)")
     (auto simp: conn_for_def Let_def see_def get_upd_conn)

lemma conn_total_new [simp]:
  "dict_ok (connections t) \<Longrightarrow> dict_get (connections t) k = None \<Longrightarrow>
   conn_total (t\<lparr>connections := dict_set k (new_connection i now) (connections t)\<rparr>) h = conn_total t h"
  by (simp add: conn_total_def dict_sum_set dict_part_def new_connection_def)

lemma conn_total_conn_for [simp]:
  "dict_ok (connections t) \<Longrightarrow> conn_total (conn_for now tok t) h = conn_total t h"
  by (auto simp: conn_for_def Let_def split: option.splits)

lemma conn_lease_conn_for [simp]: "conn_lease (conn_for now tok t) k h = conn_lease t k h"
  by (auto simp: conn_for_def Let_def conn_lease_def see_def get_upd_conn new_connection_def
      split: option.splits)

lemma keys_ok_new:
  "keys_ok t \<Longrightarrow> keys_ok (t\<lparr>connections := dict_set k (new_connection i now) (connections t)\<rparr>)"
  by (auto simp: keys_ok_def new_connection_def)

lemma leases_pos_new:
  "leases_pos t \<Longrightarrow> leases_pos (t\<lparr>connections := dict_set k (new_connection i now) (connections t)\<rparr>)"
  by (auto simp: leases_pos_def new_connection_def)

lemma keys_pos_conn_for [simp]:
  "keys_ok t \<Longrightarrow> keys_ok (conn_for now tok t)" "leases_pos t \<Longrightarrow> leases_pos (conn_for now tok t)"
  by (auto simp: conn_for_def Let_def keys_ok_new leases_pos_new split: option.splits)

lemma conn_for_inv: "core_inv t \<Longrightarrow> core_inv (conn_for now tok t)"
  by (rule core_inv_cong) (auto simp: core_invD core_keysD balancedD)

lemma require_conn_cases:
  "require_conn now tok t = (Inl KeyError, t) \<and> dict_get (connections t) (key_of tok) = None \<or>
   require_conn now tok t = (Inr (), see now (key_of tok) t) \<and>
     dict_get (connections t) (key_of tok) \<noteq> None"
  by (simp add: require_conn_def Let_def)

lemma table_inv_see: "table_inv t \<Longrightarrow> table_inv (see now k t)"
  by (simp add: table_inv_def see_inv escrow_ok_def free_in_views)

lemma table_inv_conn_for: "table_inv t \<Longrightarrow> table_inv (conn_for now tok t)"
  by (simp add: table_inv_def conn_for_inv escrow_ok_def free_in_views)

lemma alive_inv: "table_inv t \<Longrightarrow> table_inv (snd (alive now tok t))"
  by (simp add: alive_def Let_def table_inv_see)

subsection \<open>Granting\<close>

lemma add_leases_Inr: "present t h \<Longrightarrow>
   add_leases h n t = (Inr (), upd_entry h (\<lambda>e. e\<lparr>e_leases := e_leases e + n\<rparr>) t)"
  by (simp add: add_leases_def present_def)

lemma entry_leases_add:
  "present t h \<Longrightarrow> entry_leases (upd_entry h (\<lambda>e. e\<lparr>e_leases := e_leases e + n\<rparr>) t) h' =
     entry_leases t h' + (if h' = h then n else 0)"
  by (auto simp: entry_leases_def dict_get_upd_entry present_def)

lemma grant_eq:
  assumes "present t h"
  shows "grant now tok h n t = (Inr (), upd_entry h (\<lambda>e. e\<lparr>e_leases := e_leases e + n\<rparr>)
    (put_lease (key_of tok) h (conn_lease t (key_of tok) h + n) (conn_for now tok t)))"
  using assms by (simp add: grant_def Let_def add_leases_Inr)

lemma grant_views:
  assumes "present t h"
  shows "pars (snd (grant now tok h n t)) = pars t" "kids (snd (grant now tok h n t)) = kids t"
    "names (snd (grant now tok h n t)) = names t"
    "handle_for (snd (grant now tok h n t)) = handle_for t"
    "escrow (snd (grant now tok h n t)) = escrow t"
    "escrowed_at (snd (grant now tok h n t)) = escrowed_at t"
    "present (snd (grant now tok h n t)) c = present t c"
    "entry_leases (snd (grant now tok h n t)) c = entry_leases t c + (if c = h then n else 0)"
    "conn_lease (snd (grant now tok h n t)) k c =
       conn_lease t k c + (if k = key_of tok \<and> c = h then n else 0)"
    "map_option e_obj (ent (snd (grant now tok h n t)) c) = map_option e_obj (ent t c)"
proof -
  show "conn_lease (snd (grant now tok h n t)) k c =
       conn_lease t k c + (if k = key_of tok \<and> c = h then n else 0)"
    using conn_for_present[of now tok t]
    by (simp add: grant_eq[OF assms] conn_lease_put_lease conn_lease_def[of "upd_entry _ _ _"]
        conn_lease_def[of "put_lease _ _ _ _", symmetric])
  show "map_option e_obj (ent (snd (grant now tok h n t)) c) = map_option e_obj (ent t c)"
    by (cases "ent t c") (auto simp: grant_eq[OF assms] dict_get_upd_entry)
qed (simp_all add: grant_eq[OF assms] pars_same kids_same names_same entry_leases_add assms)

lemma grant_inv:
  assumes "core_inv t" "present t h" "0 < n"
  shows "core_inv (snd (grant now tok h n t))"
proof (rule core_inv_cong[OF assms(1)])
  note ok = core_invD[OF assms(1)]
  have "0 < conn_lease t (key_of tok) h + n" using conn_lease_nonneg[OF ok(2)] assms(3)
    by (smt (verit))
  then show "leases_pos (snd (grant now tok h n t))"
    using ok(2) by (simp add: grant_eq[OF assms(2)] leases_pos_put_lease)
  show "keys_ok (snd (grant now tok h n t))" using ok(1) by (simp add: grant_eq[OF assms(2)])
  fix c
  have "dict_ok (connections (conn_for now tok t))"
    using keys_pos_conn_for(1)[OF ok(1)] by (simp add: keys_ok_def)
  moreover have "dict_ok (connections t)" using assms(1) by (rule core_keysD)
  ultimately have "conn_total (snd (grant now tok h n t)) c = conn_total t c + (if c = h then n else 0)"
    using conn_for_present[of now tok t]
    by (simp add: grant_eq[OF assms(2)] conn_total_put_lease)
  moreover have "escrow_total (snd (grant now tok h n t)) = escrow_total t"
    by (simp add: grant_eq[OF assms(2)])
  ultimately show "conn_total (snd (grant now tok h n t)) c + escrow_total (snd (grant now tok h n t)) c =
      entry_leases (snd (grant now tok h n t)) c"
    using balancedD[OF assms(1), of c] by (simp add: grant_views[OF assms(2)])
qed (simp_all add: grant_views[OF assms(2)])

lemma grant_free:
  assumes "core_inv t" "present t h" "0 < n" "free_in t (insert h H)"
  shows "free_in (snd (grant now tok h n t)) H"
proof -
  have "0 \<le> entry_leases t h"
    using total_nonneg[of t h] core_invD[OF assms(1)] by (simp add: balanced_def)
  then show ?thesis
    using assms(3,4) by (auto simp: free_in_views grant_views[OF assms(2)] split: if_splits)
qed

subsection \<open>Indexing, putting, touching\<close>

lemma index_inv: "core_inv t \<Longrightarrow> core_inv (snd (index k h t))"
  by (simp add: core_inv_def index_ok_index graph_ok_def balanced_def held_total_def)

lemma index_free: "free_in (snd (index k h t)) H = free_in t H"
  by (simp add: free_in_views)

lemma escrow_ok_cong:
  "escrow t' = escrow t \<Longrightarrow> escrowed_at t' = escrowed_at t \<Longrightarrow> escrow_ok t' = escrow_ok t"
  by (simp add: escrow_ok_def)

lemma index_inv_all: "table_inv t \<Longrightarrow> table_inv (snd (index k h t))"
  by (simp add: table_inv_def index_inv index_free escrow_ok_def)

text \<open>A new entry changes no view but \<open>present\<close>.\<close>

definition add_entry :: "hid \<Rightarrow> objref \<Rightarrow> table \<Rightarrow> table" where
  "add_entry nid ob t = t\<lparr>entries := dict_set nid (new_entry ob) (entries t)\<rparr>"

lemma add_entry_views:
  assumes "\<not> present t nid"
  shows "pars (add_entry nid ob t) = pars t" "kids (add_entry nid ob t) = kids t"
    "names (add_entry nid ob t) = names t" "entry_leases (add_entry nid ob t) = entry_leases t"
    "handle_for (add_entry nid ob t) = handle_for t"
    "present (add_entry nid ob t) c \<longleftrightarrow> c = nid \<or> present t c"
    "escrow (add_entry nid ob t) = escrow t" "escrowed_at (add_entry nid ob t) = escrowed_at t"
    "connections (add_entry nid ob t) = connections t"
    "map_option e_obj (ent (add_entry nid ob t) nid) = Some ob"
    "c \<noteq> nid \<Longrightarrow> ent (add_entry nid ob t) c = ent t c"
  using assms
  by (auto simp: add_entry_def fun_eq_iff pars_def kids_def names_def entry_leases_def present_def
      new_entry_def)

lemma add_entry_inv: "core_inv t \<Longrightarrow> \<not> present t nid \<Longrightarrow> core_inv (add_entry nid ob t)"
proof (rule core_inv_cong)
  assume c: "core_inv t" and n: "\<not> present t nid"
  show "keys_ok (add_entry nid ob t)" "leases_pos (add_entry nid ob t)"
    using c by (simp_all add: core_inv_def keys_ok_def leases_pos_def add_entry_def)
  show "conn_total (add_entry nid ob t) h + escrow_total (add_entry nid ob t) h =
      entry_leases (add_entry nid ob t) h" for h
    using balancedD[OF c, of h] n by (simp add: add_entry_views) (simp add: add_entry_def)
qed (simp_all add: add_entry_views)

lemma add_entry_free: "free_in t {} \<Longrightarrow> \<not> present t nid \<Longrightarrow> free_in (add_entry nid ob t) {nid}"
  by (auto simp: free_in_views add_entry_views)

lemma link_all_inv:
  "core_inv t \<Longrightarrow> present t h \<Longrightarrow> \<forall>p\<in>set ps. present t p \<Longrightarrow> core_inv (fold (link h) ps t)"
  by (simp add: core_inv_def graph_ok_link_all index_ok_def balanced_def held_total_def)

lemma link_all_free:
  "free_in t H \<Longrightarrow> \<forall>p\<in>set ps. present t p \<Longrightarrow> free_in (fold (link h) ps t) H"
  by (auto simp: free_in_views kids_link_all split: if_splits)

text \<open>\<open>put\<close> names every branch: the missing producer, the object's handle, a new handle.\<close>

definition put_handle :: "hid \<Rightarrow> objref \<Rightarrow> token \<Rightarrow> table \<Rightarrow> hid" where
  "put_handle nid ob tok t = (case handle_for t (key_of tok) ob of None \<Rightarrow> nid | Some h \<Rightarrow> h)"

definition put_base :: "hid \<Rightarrow> objref \<Rightarrow> token \<Rightarrow> table \<Rightarrow> table" where
  "put_base nid ob tok t =
     (case handle_for t (key_of tok) ob of None \<Rightarrow> add_entry nid ob t | Some h \<Rightarrow> t)"

lemma put_missing:
  "\<not> (\<forall>p\<in>set ps. present t p) \<Longrightarrow> put now nid ob tok ps t = (Inl KeyError, t)"
  by (auto simp: put_def list_ex_iff present_def)

lemma put_base_present:
  assumes "core_inv t"
  shows "present (put_base nid ob tok t) (put_handle nid ob tok t)"
proof (cases "handle_for t (key_of tok) ob")
  case (Some h)
  then have "names t h (key_of tok) ob" using assms by (simp add: core_inv_def index_ok_def)
  with Some show ?thesis
    by (cases "ent t h") (auto simp: put_base_def put_handle_def names_def present_def)
qed (simp add: put_base_def put_handle_def add_entry_def present_def)

lemma put_eq:
  assumes "core_inv t" "\<forall>p\<in>set ps. present t p"
  shows "put now nid ob tok ps t =
    (Inr (put_handle nid ob tok t),
     snd (index (key_of tok) (put_handle nid ob tok t)
       (snd (grant now (key_of tok) (put_handle nid ob tok t) 1
         (fold (link (put_handle nid ob tok t)) ps (put_base nid ob tok t))))))"
proof -
  let ?h = "put_handle nid ob tok t" and ?t = "put_base nid ob tok t"
  have nex: "\<not> list_ex (\<lambda>p. ent t p = None) ps"
    using assms(2) by (simp add: list_ex_iff present_def)
  have p: "present ?t ?h" by (rule put_base_present[OF assms(1)])
  then have "present (fold (link ?h) ps ?t) ?h" by simp
  then have g: "grant now (key_of tok) ?h 1 (fold (link ?h) ps ?t) =
      (Inr (), snd (grant now (key_of tok) ?h 1 (fold (link ?h) ps ?t)))"
    and i: "fst (index (key_of tok) ?h (snd (grant now (key_of tok) ?h 1 (fold (link ?h) ps ?t)))) = Inr ()"
    by (simp_all add: grant_eq index_Inr)
  show ?thesis
    using nex p g i
    by (cases "handle_for t (key_of tok) ob")
       (auto simp: put_def Let_def put_base_def put_handle_def add_entry_def present_def
         split: sum.splits prod.splits)
qed

lemma put_base_inv:
  assumes "table_inv t" "\<not> present t nid"
  shows "core_inv (put_base nid ob tok t)"
    "free_in (put_base nid ob tok t) {put_handle nid ob tok t}"
    "escrow (put_base nid ob tok t) = escrow t" "escrowed_at (put_base nid ob tok t) = escrowed_at t"
    "present t c \<Longrightarrow> present (put_base nid ob tok t) c"
    "kids (put_base nid ob tok t) = kids t"
    "entry_leases (put_base nid ob tok t) = entry_leases t"
    "connections (put_base nid ob tok t) = connections t"
  using assms
  by (auto simp: put_base_def put_handle_def table_inv_def add_entry_inv add_entry_free
      add_entry_views intro: free_in_mono split: option.splits)

lemma put_inv:
  assumes "table_inv t" "\<not> present t nid"
  shows "table_inv (snd (put now nid ob tok ps t))"
proof (cases "\<forall>p\<in>set ps. present t p")
  case True
  let ?h = "put_handle nid ob tok t" and ?b = "put_base nid ob tok t"
  let ?l = "fold (link ?h) ps ?b"
  note b = put_base_inv[OF assms]
  have ps: "\<forall>p\<in>set ps. present ?b p" using True b(5) by blast
  have h: "present ?b ?h" using assms(1) by (intro put_base_present table_invD)
  have l: "core_inv ?l" by (rule link_all_inv[OF b(1) h ps])
  have f: "free_in ?l {?h}" by (rule link_all_free[OF b(2) ps])
  have hl: "present ?l ?h" using h by simp
  have "core_inv (snd (grant now (key_of tok) ?h 1 ?l))" using l hl by (rule grant_inv) simp
  moreover have "free_in (snd (grant now (key_of tok) ?h 1 ?l)) {}"
    using l hl _ f by (rule grant_free) simp
  ultimately show ?thesis
    using table_invD(1,2)[OF assms(1)] True b(3,4)
    by (simp add: put_eq table_inv_def index_inv index_free escrow_ok_def grant_views[OF hl])
qed (use assms in \<open>simp add: put_missing\<close>)

lemma touch_inv:
  assumes "table_inv t"
  shows "table_inv (snd (touch now tok h t))"
proof (cases "ent t h")
  case (Some e)
  let ?k = "key_of tok"
  let ?c = "conn_for now ?k t"
  have p: "present ?c h" using Some by (simp add: present_def)
  have c: "core_inv ?c" "escrow_ok ?c" "free_in ?c {}"
    using table_inv_conn_for[OF assms] by (simp_all add: table_inv_def)
  have g: "core_inv (snd (grant now ?k h 1 ?c))" using c(1) p by (rule grant_inv) simp
  have "free_in ?c (insert h {})" using c(3) by (rule free_in_mono) simp
  then have f: "free_in (snd (grant now ?k h 1 ?c)) {}" using c(1) p by (intro grant_free) simp_all
  have "present (snd (grant now ?k h 1 ?c)) h" using p by (simp add: grant_views)
  then have i: "fst (index k h (snd (grant now ?k h 1 ?c))) = Inr ()" for k by (rule index_Inr)
  have gi: "table_inv (snd (grant now ?k h 1 ?c))"
    using g f c(2) by (simp add: table_inv_def escrow_ok_def grant_views[OF p])
  have ge: "grant now ?k h 1 ?c = (Inr (), snd (grant now ?k h 1 ?c))" by (simp add: grant_eq[OF p])
  show ?thesis
    using c gi i[of ?k] index_inv_all[OF gi, of ?k h]
    by (subst touch_def, simp only: Some option.case Let_def, subst ge)
       (auto simp: table_inv_def split: sum.splits prod.splits)
qed (simp add: touch_def assms)

end
