(* ===== verification/Lifecycle_Moves.thy ===== *)
theory Lifecycle_Moves
  imports Lifecycle_Ops
begin

text \<open>
  The operations that move leases between holders: \<open>release\<close>, \<open>share\<close>, \<open>detach\<close>, \<open>bind\<close> and
  \<open>unbind\<close>. Each is described by its effect on the lease counts, and each keeps \<open>table_inv\<close>.
\<close>

declare not_None_eq [simp del]

subsection \<open>Taking leases from a connection\<close>

definition take_lease :: "token \<Rightarrow> hid \<Rightarrow> int \<Rightarrow> table \<Rightarrow> table" where
  "take_lease k h n t =
     (if conn_lease t k h = n then del_lease k h t else put_lease k h (conn_lease t k h - n) t)"

lemma take_lease_frame [simp]:
  "entries (take_lease k h n t) = entries t" "escrow (take_lease k h n t) = escrow t"
  "escrowed_at (take_lease k h n t) = escrowed_at t" "by_obj (take_lease k h n t) = by_obj t"
  "pars (take_lease k h n t) = pars t" "kids (take_lease k h n t) = kids t"
  "names (take_lease k h n t) = names t" "entry_leases (take_lease k h n t) = entry_leases t"
  "handle_for (take_lease k h n t) = handle_for t" "present (take_lease k h n t) c = present t c"
  "escrow_total (take_lease k h n t) = escrow_total t"
  "dict_get (connections (take_lease k h n t)) k' = None \<longleftrightarrow> dict_get (connections t) k' = None"
  "keys_ok t \<Longrightarrow> keys_ok (take_lease k h n t)"
  by (simp_all add: take_lease_def)

lemma take_lease_pos:
  "leases_pos t \<Longrightarrow> n \<le> conn_lease t k h \<Longrightarrow> leases_pos (take_lease k h n t)"
  by (simp add: take_lease_def leases_pos_put_lease)

lemma conn_lease_take:
  "dict_get (connections t) k \<noteq> None \<Longrightarrow> conn_lease (take_lease k h n t) k' h' =
     conn_lease t k' h' - (if k' = k \<and> h' = h then n else 0)"
  by (simp add: take_lease_def conn_lease_put_lease conn_lease_del_lease)

lemma conn_total_take:
  "dict_ok (connections t) \<Longrightarrow> dict_get (connections t) k \<noteq> None \<Longrightarrow>
   conn_total (take_lease k h n t) c = conn_total t c - (if c = h then n else 0)"
  by (simp add: take_lease_def conn_total_put_lease conn_total_del_lease)

lemma conn_lease_absent: "dict_get (connections t) k = None \<Longrightarrow> conn_lease t k h = 0"
  by (simp add: conn_lease_def)

lemma lease_present: "core_inv t \<Longrightarrow> conn_lease t k h \<noteq> 0 \<Longrightarrow> present t h"
  using held_is_entry[of t k h] by (auto simp: present_def)

text \<open>A change of an entry's count that the holders match.\<close>

definition bump :: "hid \<Rightarrow> int \<Rightarrow> table \<Rightarrow> table" where
  "bump h n = upd_entry h (\<lambda>e. e\<lparr>e_leases := e_leases e + n\<rparr>)"

lemma bump_views [simp]:
  "pars (bump h n t) = pars t" "kids (bump h n t) = kids t" "names (bump h n t) = names t"
  "handle_for (bump h n t) = handle_for t" "present (bump h n t) c = present t c"
  "connections (bump h n t) = connections t" "escrow (bump h n t) = escrow t"
  "escrowed_at (bump h n t) = escrowed_at t" "by_obj (bump h n t) = by_obj t"
  "conn_total (bump h n t) = conn_total t" "escrow_total (bump h n t) = escrow_total t"
  "leases_pos (bump h n t) = leases_pos t" "keys_ok t \<Longrightarrow> keys_ok (bump h n t)"
  by (simp_all add: bump_def pars_same kids_same names_same)

lemma entry_leases_bump:
  "present t h \<Longrightarrow> entry_leases (bump h n t) c = entry_leases t c + (if c = h then n else 0)"
  by (simp add: bump_def entry_leases_add)

lemma add_leases_bump: "present t h \<Longrightarrow> add_leases h n t = (Inr (), bump h n t)"
  by (simp add: bump_def add_leases_Inr)

lemma lease_bound: "conn_lease t k h \<noteq> 0 \<Longrightarrow> dict_get (connections t) k \<noteq> None"
  using conn_lease_absent[of t k h] by blast

lemma release_core:
  assumes "core_inv t" "0 < n" "n \<le> conn_lease t k h"
  shows "core_inv (bump h (- n) (take_lease k h n t))"
proof (rule core_inv_cong[OF assms(1)])
  note ok = core_invD[OF assms(1)]
  have p: "present t h" using assms by (intro lease_present[of t k]) simp_all
  have c: "dict_get (connections t) k \<noteq> None" using assms by (intro lease_bound[of _ _ h]) simp
  show "leases_pos (bump h (- n) (take_lease k h n t))"
    using ok(2) assms(3) by (simp add: take_lease_pos)
  show "keys_ok (bump h (- n) (take_lease k h n t))" using ok(1) by simp
  fix c'
  show "conn_total (bump h (- n) (take_lease k h n t)) c' +
      escrow_total (bump h (- n) (take_lease k h n t)) c' =
      entry_leases (bump h (- n) (take_lease k h n t)) c'"
    using balancedD[OF assms(1), of c'] p c
    by (auto simp: entry_leases_bump conn_total_take core_keysD(2)[OF assms(1)])
qed simp_all

lemma bump_free: "free_in t {} \<Longrightarrow> present t h \<Longrightarrow> free_in (bump h n (take_lease k h m t)) {h}"
  by (auto simp: free_in_views entry_leases_bump split: if_splits)

lemma reap_table_inv:
  assumes "core_inv t" "escrow_ok t" "free_in t (set todo)"
  shows "table_inv (snd (reap todo ds t))"
  using reap_inv[OF assms(1,3), of ds] assms(2) by (simp add: table_inv_def escrow_ok_def)

subsection \<open>Release\<close>

lemma release_unbound:
  "dict_get (connections t) (key_of tok) = None \<Longrightarrow> release now tok h n t = (Inl KeyError, t)"
  using require_conn_cases[of now tok t] by (auto simp: release_def)

lemma release_short:
  "dict_get (connections t) (key_of tok) \<noteq> None \<Longrightarrow> conn_lease t (key_of tok) h < n \<Longrightarrow>
   release now tok h n t = (Inl ValueError, see now (key_of tok) t)"
  using require_conn_cases[of now tok t] by (auto simp: release_def Let_def)

lemma release_eq:
  assumes "core_inv t" "0 < n" "n \<le> conn_lease t (key_of tok) h"
  shows "release now tok h n t = (Inr (), snd (reap [h] []
    (bump h (- n) (take_lease (key_of tok) h n (see now (key_of tok) t)))))"
proof -
  let ?k = "key_of tok"
  have c: "dict_get (connections t) ?k \<noteq> None" using assms by (intro lease_bound[of _ _ h]) simp
  have p: "present t h" using assms by (intro lease_present[of t ?k]) simp_all
  have "dict_get (connections (see now ?k t)) ?k \<noteq> None" using c by simp
  then obtain cn where cn: "dict_get (connections (see now ?k t)) ?k = Some cn" by blast
  have "dict_get (c_leases cn) h \<noteq> None"
  proof
    assume "dict_get (c_leases cn) h = None"
    then have "conn_lease (see now ?k t) ?k h = 0" using cn by (simp add: conn_lease_def)
    then show False using assms by simp
  qed
  with cn have del: "\<not> (case dict_get (connections (see now ?k t)) ?k of None \<Rightarrow> True
      | Some c \<Rightarrow> dict_get (c_leases c) h = None)" by simp
  have r: "require_conn now tok t = (Inr (), see now ?k t)"
    using require_conn_cases[of now tok t] c by auto
  show ?thesis
    unfolding release_def r prod.case sum.case Let_def
    using assms(3) p del
    by (simp add: reap_candidates_def add_leases_bump take_lease_def del: reap.simps)
qed

lemma release_inv:
  assumes "table_inv t" "0 < n"
  shows "table_inv (snd (release now tok h n t))"
proof -
  let ?k = "key_of tok"
  consider "dict_get (connections t) ?k = None"
    | "dict_get (connections t) ?k \<noteq> None" "conn_lease t ?k h < n" | "n \<le> conn_lease t ?k h"
    by force
  then show ?thesis
  proof cases
    case 3
    let ?s = "see now ?k t"
    have s: "table_inv ?s" using assms(1) by (rule table_inv_see)
    have "core_inv (bump h (- n) (take_lease ?k h n ?s))"
      using table_invD(1)[OF s] assms(2) by (rule release_core) (simp add: 3)
    moreover have "free_in (bump h (- n) (take_lease ?k h n ?s)) (set [h])"
      using bump_free[OF table_invD(3)[OF s]] lease_present[of t ?k h] assms 3
      by (simp add: table_inv_def)
    moreover have "escrow_ok (bump h (- n) (take_lease ?k h n ?s))"
      using table_invD(2)[OF s] by (simp add: escrow_ok_def)
    ultimately show ?thesis
      using assms 3 reap_table_inv by (simp add: release_eq table_invD del: reap.simps)
  qed (use assms in \<open>simp_all add: release_unbound release_short table_inv_see\<close>)
qed

subsection \<open>Giving leases to a connection\<close>

definition give_lease :: "token \<Rightarrow> hid \<Rightarrow> int \<Rightarrow> table \<Rightarrow> table" where
  "give_lease k h n t = put_lease k h (conn_lease t k h + n) t"

lemma give_lease_frame [simp]:
  "entries (give_lease k h n t) = entries t" "escrow (give_lease k h n t) = escrow t"
  "escrowed_at (give_lease k h n t) = escrowed_at t" "by_obj (give_lease k h n t) = by_obj t"
  "pars (give_lease k h n t) = pars t" "kids (give_lease k h n t) = kids t"
  "names (give_lease k h n t) = names t" "entry_leases (give_lease k h n t) = entry_leases t"
  "handle_for (give_lease k h n t) = handle_for t" "present (give_lease k h n t) c = present t c"
  "escrow_total (give_lease k h n t) = escrow_total t"
  "dict_get (connections (give_lease k h n t)) k' = None \<longleftrightarrow> dict_get (connections t) k' = None"
  "keys_ok t \<Longrightarrow> keys_ok (give_lease k h n t)"
  by (simp_all add: give_lease_def)

lemma give_lease_pos: "leases_pos t \<Longrightarrow> 0 < n \<Longrightarrow> leases_pos (give_lease k h n t)"
  using conn_lease_nonneg[of t k h] by (simp add: give_lease_def leases_pos_put_lease)

lemma conn_lease_give:
  "dict_get (connections t) k \<noteq> None \<Longrightarrow> conn_lease (give_lease k h n t) k' h' =
     conn_lease t k' h' + (if k' = k \<and> h' = h then n else 0)"
  by (simp add: give_lease_def conn_lease_put_lease)

lemma conn_total_give:
  "dict_ok (connections t) \<Longrightarrow> dict_get (connections t) k \<noteq> None \<Longrightarrow>
   conn_total (give_lease k h n t) c = conn_total t c + (if c = h then n else 0)"
  by (simp add: give_lease_def conn_total_put_lease)

subsection \<open>Share\<close>

definition share_take :: "token \<Rightarrow> hid \<Rightarrow> share_mode \<Rightarrow> table \<Rightarrow> table" where
  "share_take k h mode t = (case mode of TRANSFER \<Rightarrow> take_lease k h 1 t | COPY \<Rightarrow> bump h 1 t)"

lemma share_core:
  assumes "core_inv t" "1 \<le> conn_lease t k h" "dict_get (connections t) k2 \<noteq> None"
  shows "core_inv (give_lease k2 h 1 (share_take k h mode t))"
proof (rule core_inv_cong[OF assms(1)])
  note ok = core_invD[OF assms(1)]
  have p: "present t h" using assms by (intro lease_present[of t k]) simp_all
  have c: "dict_get (connections t) k \<noteq> None" using assms by (intro lease_bound[of _ _ h]) simp
  have d: "dict_ok (connections t)" using assms(1) by (rule core_keysD)
  show "leases_pos (give_lease k2 h 1 (share_take k h mode t))"
    using ok(2) assms(2) by (cases mode) (simp_all add: share_take_def give_lease_pos take_lease_pos)
  show "keys_ok (give_lease k2 h 1 (share_take k h mode t))"
    using ok(1) by (cases mode) (simp_all add: share_take_def)
  show "conn_total (give_lease k2 h 1 (share_take k h mode t)) x +
      escrow_total (give_lease k2 h 1 (share_take k h mode t)) x =
      entry_leases (give_lease k2 h 1 (share_take k h mode t)) x" for x
  proof -
    have "dict_ok (connections (take_lease k h 1 t))" using ok(1) take_lease_frame(13)[of t k h 1]
      by (simp add: keys_ok_def)
    then show ?thesis
      using balancedD[OF assms(1), of x] p c d assms(3)
      by (cases mode; cases "x = h")
         (simp_all add: share_take_def conn_total_give conn_total_take entry_leases_bump)
  qed
  show "pars (give_lease k2 h 1 (share_take k h mode t)) = pars t"
    "kids (give_lease k2 h 1 (share_take k h mode t)) = kids t"
    "names (give_lease k2 h 1 (share_take k h mode t)) = names t"
    "handle_for (give_lease k2 h 1 (share_take k h mode t)) = handle_for t"
    by (cases mode; simp add: share_take_def)+
qed

lemma share_free:
  assumes "table_inv t" "present t h"
  shows "free_in (give_lease k2 h 1 (share_take k h mode t)) {}"
proof -
  have "0 \<le> entry_leases t h" using table_invD(1)[OF assms(1)] total_nonneg[of t h]
    by (simp add: core_inv_def balanced_def)
  then show ?thesis
    using table_invD(3)[OF assms(1)] assms(2)
    by (cases mode) (auto simp: share_take_def free_in_views entry_leases_bump split: if_splits)
qed

lemma share_refused:
  "dict_get (connections t) (key_of a) = None \<Longrightarrow> share now a b h mode t = (Inl KeyError, t)"
  "dict_get (connections t) (key_of a) \<noteq> None \<Longrightarrow> b = key_of a \<Longrightarrow>
     share now a b h mode t = (Inl ValueError, see now (key_of a) t)"
  "dict_get (connections t) (key_of a) \<noteq> None \<Longrightarrow> b \<noteq> key_of a \<Longrightarrow>
     dict_get (connections t) b = None \<Longrightarrow>
     share now a b h mode t = (Inl KeyError, see now (key_of a) t)"
  "dict_get (connections t) (key_of a) \<noteq> None \<Longrightarrow> b \<noteq> key_of a \<Longrightarrow>
     dict_get (connections t) b \<noteq> None \<Longrightarrow> conn_lease t (key_of a) h < 1 \<Longrightarrow>
     share now a b h mode t = (Inl ValueError, see now (key_of a) t)"
  using require_conn_cases[of now a t] by (auto simp: share_def Let_def)

lemma share_eq:
  assumes "core_inv t" "1 \<le> conn_lease t (key_of a) h" "b \<noteq> key_of a"
    "dict_get (connections t) b \<noteq> None"
  shows "share now a b h mode t =
    (Inr (), snd (index b h (give_lease b h 1 (share_take (key_of a) h mode (see now (key_of a) t)))))"
proof -
  let ?k = "key_of a"
  let ?s = "see now ?k t"
  let ?g = "give_lease b h 1 (share_take ?k h mode ?s)"
  have c: "dict_get (connections t) ?k \<noteq> None" using assms by (intro lease_bound[of _ _ h]) simp
  have p: "present t h" using assms by (intro lease_present[of t ?k]) simp_all
  have r: "require_conn now a t = (Inr (), ?s)" using require_conn_cases[of now a t] c by auto
  have "present ?g h" using p by (cases mode) (simp_all add: share_take_def)
  then have "fst (index b h ?g) = Inr ()" by (rule index_Inr)
  then have i: "index b h ?g = (Inr (), snd (index b h ?g))" by (simp add: prod_eq_iff)
  have t2: "(case mode of TRANSFER \<Rightarrow> (Inr (), if conn_lease ?s ?k h = 1 then del_lease ?k h ?s
        else put_lease ?k h (conn_lease ?s ?k h - 1) ?s) | COPY \<Rightarrow> add_leases h 1 ?s) =
      (Inr () :: exn + unit, share_take ?k h mode ?s)"
    using p by (cases mode) (simp_all add: share_take_def take_lease_def add_leases_bump)
  show ?thesis
    unfolding share_def r prod.case sum.case Let_def t2
    using i assms(2-4) by (auto simp: give_lease_def)
qed

lemma share_inv:
  assumes "table_inv t"
  shows "table_inv (snd (share now a b h mode t))"
proof -
  let ?k = "key_of a"
  have s: "table_inv (see now ?k t)" using assms by (rule table_inv_see)
  show ?thesis
  proof (cases "1 \<le> conn_lease t ?k h \<and> b \<noteq> ?k \<and> dict_get (connections t) b \<noteq> None")
    case True
    let ?g = "give_lease b h 1 (share_take ?k h mode (see now ?k t))"
    have "present t h" using True assms by (intro lease_present[of t ?k] table_invD) simp_all
    then have "free_in ?g {}" by (intro share_free s) simp
    moreover have "core_inv ?g" by (rule share_core) (use True s in \<open>simp_all add: table_inv_def\<close>)
    moreover have "escrow_ok ?g"
      using table_invD(2)[OF s] by (cases mode) (simp_all add: share_take_def escrow_ok_def)
    ultimately have "table_inv ?g" by (simp add: table_inv_def)
    then show ?thesis using True assms by (simp add: share_eq table_invD index_inv_all)
  next
    case False
    then consider "dict_get (connections t) ?k = None"
      | "dict_get (connections t) ?k \<noteq> None" "b = ?k"
      | "dict_get (connections t) ?k \<noteq> None" "b \<noteq> ?k" "dict_get (connections t) b = None"
      | "dict_get (connections t) ?k \<noteq> None" "b \<noteq> ?k" "dict_get (connections t) b \<noteq> None"
        "conn_lease t ?k h < 1"
      by linarith
    then show ?thesis by cases (use assms s in \<open>simp_all add: share_refused\<close>)
  qed
qed

subsection \<open>Escrow\<close>

definition stash :: "token \<Rightarrow> hid \<Rightarrow> int \<Rightarrow> table \<Rightarrow> table" where
  "stash k h n t = t\<lparr>escrow := dict_set k (dict_set h (escrow_lease t k h + n)
     (dict_default (escrow t) k [])) (escrow t)\<rparr>"

lemma stash_frame [simp]:
  "entries (stash k h n t) = entries t" "connections (stash k h n t) = connections t"
  "escrowed_at (stash k h n t) = escrowed_at t" "by_obj (stash k h n t) = by_obj t"
  "pars (stash k h n t) = pars t" "kids (stash k h n t) = kids t"
  "names (stash k h n t) = names t" "entry_leases (stash k h n t) = entry_leases t"
  "handle_for (stash k h n t) = handle_for t" "present (stash k h n t) c = present t c"
  "conn_total (stash k h n t) = conn_total t" "conn_lease (stash k h n t) = conn_lease t"
  by (simp_all add: stash_def conn_lease_def fun_eq_iff)

lemma get_stash:
  "dict_get (escrow (stash k h n t)) k' = (if k' = k
     then Some (dict_set h (escrow_lease t k h + n) (dict_default (escrow t) k []))
     else dict_get (escrow t) k')"
  by (simp add: stash_def)

lemma keys_ok_stash [simp]: "keys_ok t \<Longrightarrow> keys_ok (stash k h n t)"
  by (auto simp: keys_ok_def stash_def dict_default_def split: option.splits)

lemma leases_pos_stash:
  assumes "leases_pos t" "0 < n"
  shows "leases_pos (stash k h n t)"
proof -
  have "0 < escrow_lease t k h + n" using escrow_lease_nonneg[OF assms(1), of k h] assms(2) by simp
  with assms(1) show ?thesis
    by (fastforce simp: leases_pos_def get_stash dict_default_def split: if_splits option.splits)
qed

lemma escrow_total_stash:
  "dict_ok (escrow t) \<Longrightarrow>
   escrow_total (stash k h n t) c = escrow_total t c + (if c = h then n else 0)"
  by (cases "dict_get (escrow t) k")
     (auto simp: escrow_total_def stash_def dict_sum_set dict_part_def escrow_lease_def)

lemma escrow_lease_stash:
  "escrow_lease (stash k h n t) k' h' =
     escrow_lease t k' h' + (if k' = k \<and> h' = h then n else 0)"
  by (cases "dict_get (escrow t) k") (auto simp: escrow_lease_def stash_def)

subsection \<open>Detach\<close>

definition detach_one :: "token \<Rightarrow> hid \<Rightarrow> table \<Rightarrow> table" where
  "detach_one key h t = (let t1 = del_lease key h t in
     if conn_lease t key h = 0 then t1 else stash key h (conn_lease t key h) t1)"

lemma detach_loop_Cons:
  "detach_loop key (h # hs) m t = detach_loop key hs (m + conn_lease t key h) (detach_one key h t)"
  by (simp add: detach_one_def Let_def stash_def)

declare detach_loop.simps(2) [simp del]

lemma detach_one_frame [simp]:
  "entries (detach_one k h t) = entries t" "escrowed_at (detach_one k h t) = escrowed_at t"
  "pars (detach_one k h t) = pars t" "kids (detach_one k h t) = kids t"
  "names (detach_one k h t) = names t" "entry_leases (detach_one k h t) = entry_leases t"
  "handle_for (detach_one k h t) = handle_for t" "present (detach_one k h t) c = present t c"
  "dict_get (connections (detach_one k h t)) k' = None \<longleftrightarrow> dict_get (connections t) k' = None"
  by (simp_all add: detach_one_def Let_def)

lemma conn_lease_detach_one:
  "conn_lease (detach_one k h t) k' h' = (if k' = k \<and> h' = h then 0 else conn_lease t k' h')"
  by (simp add: detach_one_def Let_def conn_lease_del_lease)

lemma escrow_lease_detach_one:
  "escrow_lease (detach_one k h t) k' h' =
     escrow_lease t k' h' + (if k' = k \<and> h' = h then conn_lease t k h else 0)"
  by (auto simp: detach_one_def Let_def escrow_lease_stash) (simp_all add: escrow_lease_def)

lemma get_escrow_detach_one:
  "dict_get (escrow (detach_one k h t)) k' = None \<longleftrightarrow>
     dict_get (escrow t) k' = None \<and> (k' = k \<longrightarrow> conn_lease t k h = 0)"
  by (auto simp: detach_one_def Let_def get_stash)

lemma detach_one_core:
  assumes "core_inv t"
  shows "core_inv (detach_one k h t)"
proof (rule core_inv_cong[OF assms])
  note ok = core_invD[OF assms]
  show "keys_ok (detach_one k h t)" using ok(1) by (simp add: detach_one_def Let_def)
  have "0 < conn_lease t k h" if "conn_lease t k h \<noteq> 0"
    using conn_lease_nonneg[OF ok(2), of k h] that by simp
  then show "leases_pos (detach_one k h t)"
    using ok(2) by (simp add: detach_one_def Let_def leases_pos_stash)
  show "conn_total (detach_one k h t) c + escrow_total (detach_one k h t) c =
      entry_leases (detach_one k h t) c" for c
    using balancedD[OF assms, of c] core_keysD(2,3)[OF assms]
    by (auto simp: detach_one_def Let_def conn_total_del_lease escrow_total_stash)
qed simp_all

lemma detach_loop_effect:
  assumes "core_inv t"
  shows "core_inv (snd (detach_loop k hs m t))"
    "entries (snd (detach_loop k hs m t)) = entries t"
    "escrowed_at (snd (detach_loop k hs m t)) = escrowed_at t"
    "handle_for (snd (detach_loop k hs m t)) = handle_for t"
    "fst (detach_loop k hs m t) = m + (\<Sum>h\<in>set hs. conn_lease t k h)"
    "conn_lease (snd (detach_loop k hs m t)) k' h' =
       (if k' = k \<and> h' \<in> set hs then 0 else conn_lease t k' h')"
    "escrow_lease (snd (detach_loop k hs m t)) k' h' =
       escrow_lease t k' h' + (if k' = k \<and> h' \<in> set hs then conn_lease t k h' else 0)"
    "dict_get (escrow (snd (detach_loop k hs m t))) k' = None \<longleftrightarrow>
       dict_get (escrow t) k' = None \<and> (k' = k \<longrightarrow> (\<forall>h\<in>set hs. conn_lease t k h = 0))"
    "dict_get (connections (snd (detach_loop k hs m t))) k' = None \<longleftrightarrow>
       dict_get (connections t) k' = None"
  using assms
proof (induction hs arbitrary: m t)
  case (Cons h hs)
  { case 5
    have "(\<Sum>x\<in>set hs. conn_lease (detach_one k h t) k x) = (\<Sum>x\<in>set hs - {h}. conn_lease t k x)"
      by (rule sum.mono_neutral_cong_right) (auto simp: conn_lease_detach_one)
    moreover have "(\<Sum>x\<in>set (h # hs). conn_lease t k x) =
        conn_lease t k h + (\<Sum>x\<in>set hs - {h}. conn_lease t k x)"
      by (simp add: sum.insert_remove)
    ultimately show ?case
      using Cons.IH(5)[OF detach_one_core[OF 5]] by (simp add: detach_loop_Cons)
  }
qed (auto simp: detach_loop_Cons detach_one_core conn_lease_detach_one escrow_lease_detach_one
      get_escrow_detach_one)

definition detach_targets :: "token \<Rightarrow> hid option \<Rightarrow> table \<Rightarrow> hid list" where
  "detach_targets k ho t = (case ho of Some x \<Rightarrow> [x]
     | None \<Rightarrow> (case dict_get (connections t) k of None \<Rightarrow> [] | Some c \<Rightarrow> dict_keys (c_leases c)))"

lemma detach_unbound:
  "dict_get (connections t) (key_of tok) = None \<Longrightarrow> detach now tok ho t = (Inl KeyError, t)"
  using require_conn_cases[of now tok t] by (auto simp: detach_def)

lemma detach_eq:
  assumes "dict_get (connections t) (key_of tok) \<noteq> None"
  shows "detach now tok ho t =
    (let r = detach_loop (key_of tok) (detach_targets (key_of tok) ho (see now (key_of tok) t)) 0
               (see now (key_of tok) t)
     in (Inr (fst r), if fst r \<noteq> 0
           then (snd r)\<lparr>escrowed_at := dict_set (key_of tok) now (escrowed_at (snd r))\<rparr> else snd r))"
proof -
  have r: "require_conn now tok t = (Inr (), see now (key_of tok) t)"
    using require_conn_cases[of now tok t] assms by auto
  show ?thesis
    unfolding detach_def r prod.case sum.case detach_targets_def by (simp add: case_prod_beta Let_def)
qed

lemma free_in_entries: "entries t' = entries t \<Longrightarrow> free_in t' H = free_in t H"
  by (simp add: free_in_def)

lemma detach_moved_zero:
  assumes "core_inv t"
  shows "fst (detach_loop k hs 0 t) = 0 \<longleftrightarrow> (\<forall>h\<in>set hs. conn_lease t k h = 0)"
  using detach_loop_effect(5)[OF assms, of k hs 0] conn_lease_nonneg[OF core_invD(2)[OF assms]]
  by (simp add: sum_nonneg_eq_0_iff)

lemma detach_inv:
  assumes "table_inv t"
  shows "table_inv (snd (detach now tok ho t))"
proof (cases "dict_get (connections t) (key_of tok) = None")
  case False
  let ?k = "key_of tok"
  let ?s = "see now ?k t"
  let ?r = "detach_loop ?k (detach_targets ?k ho ?s) 0 ?s"
  have s: "table_inv ?s" using assms by (rule table_inv_see)
  note e = detach_loop_effect[OF table_invD(1)[OF s], where k = ?k and m = 0
      and hs = "detach_targets ?k ho ?s"]
  let ?t' = "if fst ?r \<noteq> 0 then (snd ?r)\<lparr>escrowed_at := dict_set ?k now (escrowed_at (snd ?r))\<rparr>
    else snd ?r"
  have core: "core_inv ?t'"
    using e(1) by (auto intro!: core_inv_cong[OF e(1)] simp: core_invD balancedD)
  have free: "free_in ?t' {}"
    using table_invD(3)[OF s] by (subst free_in_entries[of _ ?s]) (simp_all add: e)
  have esc: "escrow_ok ?t'"
    unfolding escrow_ok_def
  proof
    fix k'
    show "(dict_get (escrowed_at ?t') k' = None) = (dict_get (escrow ?t') k' = None)"
      using table_invD(2)[OF s] e(3) e(8)[of k']
        detach_moved_zero[OF table_invD(1)[OF s], of ?k "detach_targets ?k ho ?s"]
      by (auto simp: escrow_ok_def)
  qed
  show ?thesis
    using core free esc by (simp add: detach_eq[OF False] Let_def table_inv_def)
qed (simp add: detach_unbound assms)

subsection \<open>Bind\<close>

definition lsum :: "(hid \<times> int) list \<Rightarrow> hid \<Rightarrow> int" where
  "lsum ps h = (\<Sum>p\<leftarrow>ps. if fst p = h then snd p else 0)"

lemma lsum_Nil [simp]: "lsum [] h = 0"
  by (simp add: lsum_def)

lemma lsum_Cons [simp]: "lsum (p # ps) h = (if fst p = h then snd p else 0) + lsum ps h"
  by (simp add: lsum_def)

lemma lsum_absent: "h \<notin> fst ` set ps \<Longrightarrow> lsum ps h = 0"
  by (induction ps) auto

lemma lsum_dict: "dict_ok b \<Longrightarrow> lsum b h = dict_default b h 0"
proof (induction b)
  case (Cons p b)
  then show ?case
    by (cases p; cases "fst p = h") (simp_all add: lsum_absent dict_default_def)
qed simp

definition claim_one :: "token \<Rightarrow> hid \<times> int \<Rightarrow> table \<Rightarrow> table" where
  "claim_one tok p t = (let t1 = give_lease tok (fst p) (snd p) t in
     if present t (fst p) then snd (index tok (fst p) t1) else t1)"

lemma claim_leases_Cons: "claim_leases tok (p # ps) t = claim_leases tok ps (claim_one tok p t)"
  by (cases p) (simp add: claim_one_def give_lease_def present_def Let_def)

declare claim_leases.simps(2) [simp del]

lemma claim_one_frame [simp]:
  "escrow (claim_one tok p t) = escrow t" "escrowed_at (claim_one tok p t) = escrowed_at t"
  "pars (claim_one tok p t) = pars t" "kids (claim_one tok p t) = kids t"
  "entry_leases (claim_one tok p t) = entry_leases t" "present (claim_one tok p t) c = present t c"
  "escrow_total (claim_one tok p t) = escrow_total t"
  "dict_get (connections (claim_one tok p t)) k' = None \<longleftrightarrow> dict_get (connections t) k' = None"
  "keys_ok t \<Longrightarrow> keys_ok (claim_one tok p t)"
  "index_ok t \<Longrightarrow> index_ok (claim_one tok p t)"
proof -
  have "index_ok t \<Longrightarrow> index_ok (give_lease tok (fst p) (snd p) t)" by (simp add: index_ok_def)
  then show "index_ok t \<Longrightarrow> index_ok (claim_one tok p t)"
    by (simp add: claim_one_def Let_def index_ok_index)
qed (simp_all add: claim_one_def Let_def)

lemma claim_one_leases:
  assumes b: "dict_get (connections t) tok \<noteq> None"
  shows "dict_ok (connections t) \<Longrightarrow>
      conn_total (claim_one tok p t) c = conn_total t c + (if c = fst p then snd p else 0)"
    "conn_lease (claim_one tok p t) k c =
      conn_lease t k c + (if k = tok \<and> c = fst p then snd p else 0)"
    "leases_pos t \<Longrightarrow> 0 < snd p \<Longrightarrow> leases_pos (claim_one tok p t)"
proof -
  let ?g = "give_lease tok (fst p) (snd p) t"
  have i: "conn_lease (snd (index tok x u)) = conn_lease u" for x u
    by (simp add: conn_lease_def fun_eq_iff)
  have "conn_lease (claim_one tok p t) = conn_lease ?g"
    by (simp only: claim_one_def Let_def i if_distrib[of conn_lease] if_cancel)
  then show "conn_lease (claim_one tok p t) k c =
      conn_lease t k c + (if k = tok \<and> c = fst p then snd p else 0)"
    by (simp only: conn_lease_give[OF b])
  have "conn_total (claim_one tok p t) = conn_total ?g"
    by (simp only: claim_one_def Let_def index_frame if_distrib[of conn_total] if_cancel)
  then show "dict_ok (connections t) \<Longrightarrow>
      conn_total (claim_one tok p t) c = conn_total t c + (if c = fst p then snd p else 0)"
    by (simp only: conn_total_give[OF _ b])
  have "leases_pos (claim_one tok p t) = leases_pos ?g"
    by (simp only: claim_one_def Let_def index_frame if_distrib[of leases_pos] if_cancel)
  then show "leases_pos t \<Longrightarrow> 0 < snd p \<Longrightarrow> leases_pos (claim_one tok p t)"
    by (simp only: give_lease_pos)
qed

lemma claim_leases_effect:
  assumes "dict_get (connections t) tok \<noteq> None"
  shows "escrow (claim_leases tok ps t) = escrow t"
    "escrowed_at (claim_leases tok ps t) = escrowed_at t"
    "pars (claim_leases tok ps t) = pars t" "kids (claim_leases tok ps t) = kids t"
    "entry_leases (claim_leases tok ps t) = entry_leases t"
    "present (claim_leases tok ps t) c = present t c"
    "conn_lease (claim_leases tok ps t) k c = conn_lease t k c + (if k = tok then lsum ps c else 0)"
    "dict_get (connections (claim_leases tok ps t)) k' = None \<longleftrightarrow> dict_get (connections t) k' = None"
    "keys_ok t \<Longrightarrow> keys_ok (claim_leases tok ps t)"
    "index_ok t \<Longrightarrow> index_ok (claim_leases tok ps t)"
    "keys_ok t \<Longrightarrow> conn_total (claim_leases tok ps t) c = conn_total t c + lsum ps c"
    "leases_pos t \<Longrightarrow> \<forall>p\<in>set ps. 0 < snd p \<Longrightarrow> leases_pos (claim_leases tok ps t)"
  using assms
proof (induction ps arbitrary: t)
  case (Cons p ps)
  note step = claim_leases_Cons claim_one_leases(2)
  have b: "dict_get (connections t) tok \<noteq> None \<Longrightarrow>
      dict_get (connections (claim_one tok p t)) tok \<noteq> None" for t
    by simp
  { case 1 then show ?case using Cons.IH(1)[OF b[OF 1]] by (simp add: step) next
    case 2 then show ?case using Cons.IH(2)[OF b[OF 2]] by (simp add: step) next
    case 3 then show ?case using Cons.IH(3)[OF b[OF 3]] by (simp add: step) next
    case 4 then show ?case using Cons.IH(4)[OF b[OF 4]] by (simp add: step) next
    case 5 then show ?case using Cons.IH(5)[OF b[OF 5]] by (simp add: step) next
    case 6 then show ?case using Cons.IH(6)[OF b[OF 6]] by (simp add: step) next
    case 7 then show ?case using Cons.IH(7)[OF b[OF 7]] by (simp add: claim_leases_Cons claim_one_leases(2)[OF 7]) next
    case 8 then show ?case using Cons.IH(8)[OF b[OF 8]] by (simp add: step) next
    case 9 then show ?case using Cons.IH(9)[OF _ b[OF 9(2)]] by (simp add: step) next
    case 10 then show ?case using Cons.IH(10)[OF _ b[OF 10(2)]] by (simp add: step) next
    case 11
    then have "dict_ok (connections t)" by (simp add: keys_ok_def)
    with 11 show ?case using Cons.IH(11)[OF claim_one_frame(9) b[OF 11(2)]]
      by (simp add: claim_leases_Cons claim_one_leases(1)[OF 11(2)]) next
    case 12
    then show ?case using Cons.IH(12)[OF claim_one_leases(3)[OF 12(3) 12(1)] _ b[OF 12(3)]]
      by (simp add: claim_leases_Cons)
  }
qed simp_all

text \<open>The table after \<open>bind\<close> has registered the stream and before it claims the bucket.\<close>

definition bind_token :: "token \<Rightarrow> token option \<Rightarrow> token" where
  "bind_token nid claim = (case claim of None \<Rightarrow> nid | Some c \<Rightarrow> if c = [] then nid else c)"

definition bind_base :: "time \<Rightarrow> token \<Rightarrow> table \<Rightarrow> table" where
  "bind_base now tok t =
     (let t1 = (case dict_get (connections t) tok of
                  None \<Rightarrow> t\<lparr>connections := dict_set tok (new_connection (next_conn t) now)
                                             (connections t),
                           next_conn := Suc (next_conn t)\<rparr>
                | Some _ \<Rightarrow> see now tok t);
          t2 = upd_conn tok (\<lambda>c. c\<lparr>c_streams := c_streams c + 1\<rparr>) t1
      in t2\<lparr>escrowed_at := dict_del tok (escrowed_at t2), escrow := dict_del tok (escrow t2)\<rparr>)"

lemma bind_eq:
  "bind now nid claim t = (let tok = bind_token nid claim in
     (tok, claim_leases tok (dict_default (escrow t) tok []) (bind_base now tok t)))"
proof -
  let ?tok = "bind_token nid claim"
  have "escrow (case dict_get (connections t) ?tok of None \<Rightarrow> t\<lparr>connections := d, next_conn := i\<rparr>
      | Some _ \<Rightarrow> see now ?tok t) = escrow t" for d i
    by (simp split: option.split)
  then show ?thesis
    by (simp add: bind_def bind_token_def[symmetric] bind_base_def Let_def)
qed

lemma upd_conn_leases:
  assumes "\<And>c. c_leases (f c) = c_leases c"
  shows "dict_ok (connections t) \<Longrightarrow> conn_total (upd_conn k f t) h = conn_total t h"
    "conn_lease (upd_conn k f t) k' h = conn_lease t k' h"
    "keys_ok t \<Longrightarrow> keys_ok (upd_conn k f t)" "leases_pos t \<Longrightarrow> leases_pos (upd_conn k f t)"
    "entry_leases (upd_conn k f t) = entry_leases t" "pars (upd_conn k f t) = pars t"
    "kids (upd_conn k f t) = kids t" "names (upd_conn k f t) = names t"
proof -
  show "dict_ok (connections t) \<Longrightarrow> conn_total (upd_conn k f t) h = conn_total t h"
    by (simp add: conn_total_upd_conn assms split: option.splits)
  show "conn_lease (upd_conn k f t) k' h = conn_lease t k' h"
    by (auto simp: conn_lease_def get_upd_conn assms split: option.splits)
  show "keys_ok t \<Longrightarrow> keys_ok (upd_conn k f t)"
    by (auto simp: keys_ok_def get_upd_conn assms split: if_splits)
  show "leases_pos t \<Longrightarrow> leases_pos (upd_conn k f t)"
    by (fastforce simp: leases_pos_def get_upd_conn assms split: if_splits)
qed (rule views_entries, simp)+

lemma escrow_total_del:
  "dict_ok (escrow t) \<Longrightarrow> escrow_total (t\<lparr>escrow := dict_del k (escrow t)\<rparr>) h =
     escrow_total t h - escrow_lease t k h"
  by (cases "dict_get (escrow t) k")
     (simp_all add: escrow_total_def dict_sum_del dict_part_def escrow_lease_def)

lemma bind_base_effect:
  assumes "core_inv t"
  shows "dict_get (connections (bind_base now tok t)) tok \<noteq> None"
    "keys_ok (bind_base now tok t)" "leases_pos (bind_base now tok t)"
    "pars (bind_base now tok t) = pars t" "kids (bind_base now tok t) = kids t"
    "names (bind_base now tok t) = names t" "entry_leases (bind_base now tok t) = entry_leases t"
    "handle_for (bind_base now tok t) = handle_for t"
    "conn_total (bind_base now tok t) c = conn_total t c"
    "conn_lease (bind_base now tok t) k c = conn_lease t k c"
    "escrow_total (bind_base now tok t) c = escrow_total t c - escrow_lease t tok c"
    "escrowed_at (bind_base now tok t) = dict_del tok (escrowed_at t)"
    "escrow (bind_base now tok t) = dict_del tok (escrow t)"
    "entries (bind_base now tok t) = entries t"
proof -
  define t1 where "t1 = (case dict_get (connections t) tok of
      None \<Rightarrow> t\<lparr>connections := dict_set tok (new_connection (next_conn t) now) (connections t),
               next_conn := Suc (next_conn t)\<rparr>
    | Some _ \<Rightarrow> see now tok t)"
  define t2 where "t2 = upd_conn tok (\<lambda>c. c\<lparr>c_streams := c_streams c + 1\<rparr>) t1"
  note ok = core_invD[OF assms]
  have fr: "entries t1 = entries t" "escrow t1 = escrow t" "escrowed_at t1 = escrowed_at t"
    "by_obj t1 = by_obj t"
    by (simp_all add: t1_def split: option.splits)
  have k1: "keys_ok t1" using ok(1) by (auto simp: t1_def keys_ok_new split: option.splits)
  have p1: "leases_pos t1" using ok(2) by (auto simp: t1_def leases_pos_new split: option.splits)
  have c1: "conn_total t1 c = conn_total t c" "conn_lease t1 k c = conn_lease t k c" for c k
    using core_keysD(2)[OF assms]
     apply (simp add: t1_def split: option.splits)
    apply (auto simp: t1_def conn_lease_def new_connection_def see_def get_upd_conn
        split: option.splits)
    done
  have b1: "dict_get (connections t1) tok \<noteq> None" by (auto simp: t1_def see_def get_upd_conn split: option.splits)
  have f: "c_leases (c\<lparr>c_streams := c_streams c + 1\<rparr>) = c_leases c" for c :: connection by simp
  note u = upd_conn_leases[of "\<lambda>c. c\<lparr>c_streams := c_streams c + 1\<rparr>", OF f]
  have k2: "keys_ok t2" and p2: "leases_pos t2"
    using u(3)[OF k1, of tok] u(4)[OF p1, of tok] by (simp_all add: t2_def)
  have c2: "conn_total t2 c = conn_total t c" "conn_lease t2 k c = conn_lease t k c" for c k
    using u(1)[of t1 tok c] u(2)[of tok t1 k c] k1 c1 by (simp_all add: t2_def keys_ok_def)
  have b2: "dict_get (connections t2) tok \<noteq> None" using b1 by (simp add: t2_def)
  have fr2: "entries t2 = entries t" "escrow t2 = escrow t" "escrowed_at t2 = escrowed_at t"
    "by_obj t2 = by_obj t"
    by (simp_all add: t2_def fr)
  have e: "bind_base now tok t =
      t2\<lparr>escrowed_at := dict_del tok (escrowed_at t2), escrow := dict_del tok (escrow t2)\<rparr>"
    by (simp only: bind_base_def t1_def[symmetric] t2_def[symmetric] Let_def)
  show "dict_get (connections (bind_base now tok t)) tok \<noteq> None"
    "escrowed_at (bind_base now tok t) = dict_del tok (escrowed_at t)"
    "escrow (bind_base now tok t) = dict_del tok (escrow t)"
    "entries (bind_base now tok t) = entries t"
    using b2 by (simp_all add: e fr2)
  show "keys_ok (bind_base now tok t)" "leases_pos (bind_base now tok t)"
    using k2 p2 by (auto simp: e keys_ok_def leases_pos_def split: if_splits)
  show "pars (bind_base now tok t) = pars t" "kids (bind_base now tok t) = kids t"
    "names (bind_base now tok t) = names t" "entry_leases (bind_base now tok t) = entry_leases t"
    by (rule views_entries, simp add: e fr2)+
  show "handle_for (bind_base now tok t) = handle_for t"
    by (simp add: e fr2 handle_for_def fun_eq_iff)
  have "conn_total (bind_base now tok t) = conn_total t2" "conn_lease (bind_base now tok t) = conn_lease t2"
    by (simp_all add: e conn_total_def conn_lease_def fun_eq_iff)
  then show "conn_total (bind_base now tok t) c = conn_total t c"
    "conn_lease (bind_base now tok t) k c = conn_lease t k c"
    using c2 by simp_all
  have "escrow_total (bind_base now tok t) c = escrow_total (t\<lparr>escrow := dict_del tok (escrow t)\<rparr>) c"
    by (simp add: e fr2 escrow_total_def)
  then show "escrow_total (bind_base now tok t) c = escrow_total t c - escrow_lease t tok c"
    by (simp add: escrow_total_del core_keysD(3)[OF assms])
qed

lemma bind_inv:
  assumes "table_inv t"
  shows "table_inv (snd (bind now nid claim t))"
proof -
  let ?k = "bind_token nid claim"
  let ?ps = "dict_default (escrow t) ?k []"
  let ?b = "bind_base now ?k t"
  let ?r = "claim_leases ?k ?ps ?b"
  note c = table_invD(1)[OF assms]
  note b = bind_base_effect[OF c, of now ?k]
  note r = claim_leases_effect[OF b(1), of ?ps]
  have pok: "dict_ok ?ps" using core_keysD(5)[OF c]
    by (cases "dict_get (escrow t) ?k") simp_all
  have ps: "lsum ?ps h = escrow_lease t ?k h" for h
    using pok by (cases "dict_get (escrow t) ?k") (simp_all add: lsum_dict escrow_lease_def)
  have pos: "\<forall>p\<in>set ?ps. 0 < snd p"
  proof (cases "dict_get (escrow t) ?k")
    case (Some d)
    then show ?thesis using core_invD(2)[OF c] core_keysD(5)[OF c Some]
      by (auto simp: leases_pos_def dict_mem_iff)
  qed simp
  have "core_inv ?r"
  proof (rule core_invI)
    show "keys_ok ?r" using b(2) by (rule r(9))
    show "leases_pos ?r" using b(3) pos by (rule r(12))
    show "graph_ok ?r" using core_invD(3)[OF c] graph_ok_cong[of ?r t] by (simp add: r b)
    have "index_ok ?b" using core_invD(4)[OF c] by (simp add: index_ok_def b)
    then show "index_ok ?r" by (rule r(10))
    have "escrow_total ?r = escrow_total ?b" by (simp add: escrow_total_def r(1) fun_eq_iff)
    then show "balanced ?r"
      using balancedD[OF c] by (simp add: balanced_def held_total_def r(11)[OF b(2)] r(5) b ps)
  qed
  moreover have "escrow_ok ?r" using table_invD(2)[OF assms] by (simp add: escrow_ok_def r b)
  moreover have "free_in ?r {}"
    using table_invD(3)[OF assms] by (simp add: free_in_views r b present_def[of ?b]) (simp add: present_def)
  ultimately show ?thesis by (simp add: bind_eq Let_def table_inv_def)
qed

end
