(* ===== verification/Lifecycle_Sweep.thy ===== *)
theory Lifecycle_Sweep
  imports Lifecycle_Moves
begin

text \<open>
  The operations that end holders: \<open>unbind\<close>, \<open>sweep\<close> and \<open>close\<close>. A loop over the leases of a
  holder that is gone leaves the table between two balanced states: \<open>owing t F\<close> says how much each
  entry still counts for the leases the loop has not reached.
\<close>

subsection \<open>Forgetting a token's index\<close>

definition forget_token :: "token \<Rightarrow> hid \<Rightarrow> table \<Rightarrow> table" where
  "forget_token tok h = upd_entry h (\<lambda>e. e\<lparr>e_tokens := set_discard tok (e_tokens e)\<rparr>)"

lemma forget_token_frame [simp]:
  "connections (forget_token k h t) = connections t" "escrow (forget_token k h t) = escrow t"
  "escrowed_at (forget_token k h t) = escrowed_at t" "by_obj (forget_token k h t) = by_obj t"
  "ttl (forget_token k h t) = ttl t"
  "pars (forget_token k h t) = pars t" "kids (forget_token k h t) = kids t"
  "entry_leases (forget_token k h t) = entry_leases t" "present (forget_token k h t) c = present t c"
  "handle_for (forget_token k h t) = handle_for t" "conn_total (forget_token k h t) = conn_total t"
  "escrow_total (forget_token k h t) = escrow_total t"
  "keys_ok t \<Longrightarrow> keys_ok (forget_token k h t)" "leases_pos (forget_token k h t) = leases_pos t"
  by (simp_all add: forget_token_def pars_same kids_same)
     (auto simp: entry_leases_def dict_get_upd_entry fun_eq_iff split: option.splits)

lemma names_forget_token:
  "k' \<noteq> k \<Longrightarrow> names (forget_token k h t) c k' ob = names t c k' ob"
  by (auto simp: forget_token_def names_def dict_get_upd_entry split: option.splits)

lemma unindex_all_eq:
  "unindex_all k t = fold (forget_token k) (map snd (dict_default (by_obj t) k []))
     (t\<lparr>by_obj := dict_del k (by_obj t)\<rparr>)"
  by (simp add: unindex_all_def forget_token_def[abs_def])

lemma forget_all_frame [simp]:
  "connections (fold (forget_token k) hs t) = connections t"
  "escrow (fold (forget_token k) hs t) = escrow t"
  "escrowed_at (fold (forget_token k) hs t) = escrowed_at t"
  "ttl (fold (forget_token k) hs t) = ttl t"
  "pars (fold (forget_token k) hs t) = pars t" "kids (fold (forget_token k) hs t) = kids t"
  "entry_leases (fold (forget_token k) hs t) = entry_leases t"
  "present (fold (forget_token k) hs t) c = present t c"
  "handle_for (fold (forget_token k) hs t) = handle_for t"
  "conn_total (fold (forget_token k) hs t) = conn_total t"
  "escrow_total (fold (forget_token k) hs t) = escrow_total t"
  "leases_pos (fold (forget_token k) hs t) = leases_pos t"
  by (induction hs arbitrary: t) simp_all

lemma keys_ok_forget_all [simp]: "keys_ok t \<Longrightarrow> keys_ok (fold (forget_token k) hs t)"
  by (induction hs arbitrary: t) simp_all

lemma names_forget_all:
  "k' \<noteq> k \<Longrightarrow> names (fold (forget_token k) hs t) c k' ob = names t c k' ob"
  by (induction hs arbitrary: t) (simp_all add: names_forget_token)

lemma unindex_all_frame [simp]:
  "connections (unindex_all k t) = connections t" "escrow (unindex_all k t) = escrow t"
  "escrowed_at (unindex_all k t) = escrowed_at t" "ttl (unindex_all k t) = ttl t"
  "pars (unindex_all k t) = pars t" "kids (unindex_all k t) = kids t"
  "entry_leases (unindex_all k t) = entry_leases t" "present (unindex_all k t) c = present t c"
  "conn_total (unindex_all k t) = conn_total t" "escrow_total (unindex_all k t) = escrow_total t"
  "leases_pos (unindex_all k t) = leases_pos t" "keys_ok t \<Longrightarrow> keys_ok (unindex_all k t)"
  by (simp_all add: unindex_all_eq)

lemma handle_for_unindex_all:
  "handle_for (unindex_all k t) k' ob = (if k' = k then None else handle_for t k' ob)"
  by (simp add: unindex_all_eq) (simp add: handle_for_def)

lemma names_unindex_all: "k' \<noteq> k \<Longrightarrow> names (unindex_all k t) c k' ob = names t c k' ob"
  by (simp add: unindex_all_eq names_forget_all)

lemma index_ok_unindex_all: "index_ok t \<Longrightarrow> index_ok (unindex_all k t)"
  by (simp add: index_ok_def handle_for_unindex_all names_unindex_all)

subsection \<open>Unbind\<close>

lemma conn_total_del:
  "dict_ok (connections t) \<Longrightarrow> conn_total (t\<lparr>connections := dict_del k (connections t)\<rparr>) h =
     conn_total t h - conn_lease t k h"
  by (cases "dict_get (connections t) k")
     (simp_all add: conn_total_def dict_sum_del dict_part_def conn_lease_def)

lemma keys_pos_del:
  "keys_ok t \<Longrightarrow> keys_ok (t\<lparr>connections := dict_del k (connections t)\<rparr>)"
  "leases_pos t \<Longrightarrow> leases_pos (t\<lparr>connections := dict_del k (connections t)\<rparr>)"
  "keys_ok t \<Longrightarrow> keys_ok (t\<lparr>escrow := dict_del k (escrow t)\<rparr>)"
  "leases_pos t \<Longrightarrow> leases_pos (t\<lparr>escrow := dict_del k (escrow t)\<rparr>)"
  by (auto simp: keys_ok_def leases_pos_def)

lemma unbind_cases:
  obtains (stale) "unbind tok cid t = t"
  | (last) c where "dict_get (connections t) tok = Some c" "c_id c = cid" "c_leases c = []"
      "c_streams c = 1" "unbind tok cid t = unindex_all tok (t\<lparr>connections := dict_del tok (connections t)\<rparr>)"
  | (keep) c where "dict_get (connections t) tok = Some c" "c_id c = cid"
      "c_leases c \<noteq> [] \<or> c_streams c \<noteq> 1"
      "unbind tok cid t = upd_conn tok (\<lambda>c. c\<lparr>c_streams := c_streams c - 1\<rparr>) t"
proof (cases "dict_get (connections t) tok")
  case (Some c)
  show ?thesis
    using Some stale last[OF Some] keep[OF Some]
    by (cases "c_id c = cid"; cases "c_leases c = [] \<and> c_streams c = 1")
       (auto simp: unbind_def upd_conn_def Let_def)
qed (simp add: unbind_def that)

lemma unbind_inv:
  assumes "table_inv t"
  shows "table_inv (snd ((), unbind tok cid t))"
proof (cases rule: unbind_cases[of tok cid t])
  case (last c)
  let ?d = "t\<lparr>connections := dict_del tok (connections t)\<rparr>"
  note c = table_invD(1)[OF assms]
  have "conn_total ?d h = conn_total t h" for h
    using conn_total_del[OF core_keysD(2)[OF c]] last by (simp add: conn_lease_def)
  then have "core_inv ?d"
    using core_inv_cong[OF c, of ?d] keys_pos_del core_invD[OF c] balancedD[OF c] by simp
  then have "core_inv (unindex_all tok ?d)"
    by (simp add: core_inv_def index_ok_unindex_all graph_ok_def balanced_def held_total_def)
  then show ?thesis
    using assms last by (simp add: table_inv_def escrow_ok_def free_in_views)
next
  case (keep c)
  note i = table_invD(1)[OF assms]
  have f: "c_leases (c\<lparr>c_streams := c_streams c - 1\<rparr>) = c_leases c" for c :: connection by simp
  note u = upd_conn_leases[of "\<lambda>c. c\<lparr>c_streams := c_streams c - 1\<rparr>", OF f]
  have "core_inv (upd_conn tok (\<lambda>c. c\<lparr>c_streams := c_streams c - 1\<rparr>) t)"
    using core_inv_cong[OF i] u(3-8) u(1)[OF core_keysD(2)[OF i]] core_invD[OF i] balancedD[OF i]
    by simp
  then show ?thesis
    using assms keep by (simp add: table_inv_def escrow_ok_def free_in_views u)
qed (use assms in simp)

subsection \<open>Leases whose holder is gone\<close>

definition owing :: "table \<Rightarrow> (hid \<Rightarrow> int) \<Rightarrow> bool" where
  "owing t F \<longleftrightarrow> keys_ok t \<and> leases_pos t \<and> graph_ok t \<and> index_ok t \<and>
     (\<forall>h. held_total t h + F h = entry_leases t h)"

lemma owing_nil: "owing t (lsum []) = core_inv t"
  by (simp add: owing_def core_inv_def balanced_def)

lemma owingD: "owing t F \<Longrightarrow> held_total t h + F h = entry_leases t h"
  by (simp add: owing_def)

lemma lsum_nonneg: "\<forall>p\<in>set ps. 0 < snd p \<Longrightarrow> 0 \<le> lsum ps h"
  by (induction ps) auto

lemma owing_present:
  assumes "owing t (lsum ((h, n) # ps))" "0 < n" "\<forall>p\<in>set ps. 0 < snd p"
  shows "present t h"
proof -
  have "0 < held_total t h + lsum ((h, n) # ps) h"
    using total_nonneg[of t h] lsum_nonneg[OF assms(3), of h] assms(1,2) by (simp add: owing_def)
  then have "entry_leases t h \<noteq> 0" using owingD[OF assms(1), of h] by simp
  then show ?thesis by (cases "ent t h") (simp_all add: entry_leases_def present_def)
qed

lemma owing_bump:
  assumes "owing t (lsum ((h, n) # ps))" "present t h"
  shows "owing (bump h (- n) t) (lsum ps)"
  unfolding owing_def
proof (intro conjI allI)
  show "held_total (bump h (- n) t) c + lsum ps c = entry_leases (bump h (- n) t) c" for c
    using owingD[OF assms(1), of c] assms(2)
    by (cases "c = h") (simp_all add: held_total_def entry_leases_bump)
qed (use assms graph_ok_cong[of "bump h (- n) t" t] in \<open>simp_all add: owing_def index_ok_def\<close>)

lemma drop_leases_effect:
  assumes "owing t (lsum ps)" "\<forall>p\<in>set ps. 0 < snd p" "free_in t H"
  shows "\<exists>t'. drop_leases ps r t = (Inr (r @ map fst ps), t') \<and> core_inv t' \<and>
    free_in t' (H \<union> set (map fst ps)) \<and> connections t' = connections t \<and> escrow t' = escrow t \<and>
    escrowed_at t' = escrowed_at t \<and> by_obj t' = by_obj t \<and> ttl t' = ttl t \<and>
    pars t' = pars t \<and> kids t' = kids t \<and> (\<forall>h. present t' h = present t h)"
  using assms
proof (induction ps arbitrary: r t H)
  case Nil
  then show ?case unfolding owing_nil by simp
next
  case (Cons p ps)
  obtain h n where p: "p = (h, n)" by (cases p)
  have pr: "present t h"
    by (rule owing_present[OF Cons.prems(1)[unfolded p]]) (use Cons.prems(2) in \<open>simp_all add: p\<close>)
  have o: "owing (bump h (- n) t) (lsum ps)" using Cons.prems(1) pr unfolding p by (rule owing_bump)
  have f: "free_in (bump h (- n) t) (insert h H)"
    using Cons.prems(3) pr by (auto simp: free_in_views entry_leases_bump split: if_splits)
  have fr: "ttl (bump h (- n) t) = ttl t" by (simp add: bump_def)
  have u: "insert h H \<union> set (map fst ps) = H \<union> set (map fst (p # ps))" by (auto simp: p)
  have pos: "\<forall>p\<in>set ps. 0 < snd p" using Cons.prems(2) by simp
  show ?case
    using Cons.IH[OF o pos f, of "r @ [h]"] pr fr unfolding u
    by (simp add: p add_leases_bump)
qed

lemma bucket_pos:
  "core_inv t \<Longrightarrow> \<forall>p\<in>set (dict_default (escrow t) k []). 0 < snd p"
  "core_inv t \<Longrightarrow> dict_get (connections t) k = Some c \<Longrightarrow> \<forall>p\<in>set (c_leases c). 0 < snd p"
proof -
  assume c: "core_inv t"
  show "\<forall>p\<in>set (dict_default (escrow t) k []). 0 < snd p"
  proof (cases "dict_get (escrow t) k")
    case (Some d)
    then show ?thesis using core_invD(2)[OF c] core_keysD(5)[OF c Some]
      by (auto simp: leases_pos_def dict_mem_iff)
  qed simp
  show "\<forall>p\<in>set (c_leases d). 0 < snd p" if "dict_get (connections t) k = Some d" for d
    using core_invD(2)[OF c] core_keysD(4)[OF c that] that by (auto simp: leases_pos_def dict_mem_iff)
qed

lemma bucket_lsum: "core_inv t \<Longrightarrow> lsum (dict_default (escrow t) k []) h = escrow_lease t k h"
  using core_keysD(5)[of t k]
  by (cases "dict_get (escrow t) k") (simp_all add: escrow_lease_def lsum_dict)

subsection \<open>Sweep\<close>

lemma sweep_escrow_effect:
  assumes "core_inv t" "escrow_ok t" "free_in t (set r)"
  shows "\<exists>r' t'. sweep_escrow ks r t = (Inr r', t') \<and> core_inv t' \<and> escrow_ok t' \<and>
    free_in t' (set r') \<and> connections t' = connections t \<and> ttl t' = ttl t \<and>
    pars t' = pars t \<and> kids t' = kids t \<and> by_obj t' = by_obj t \<and>
    (\<forall>h. present t' h = present t h) \<and>
    (\<forall>k. dict_get (escrow t') k = (if k \<in> set ks then None else dict_get (escrow t) k)) \<and>
    (\<forall>k. dict_get (escrowed_at t') k = (if k \<in> set ks then None else dict_get (escrowed_at t) k))"
  using assms
proof (induction ks arbitrary: r t)
  case (Cons k ks)
  let ?ps = "dict_default (escrow t) k []"
  let ?d = "t\<lparr>escrowed_at := dict_del k (escrowed_at t), escrow := dict_del k (escrow t)\<rparr>"
  note c = Cons.prems(1)
  have e: "entries ?d = entries t" by simp
  have v: "pars ?d = pars t" "kids ?d = kids t" "names ?d = names t" "entry_leases ?d = entry_leases t"
    "handle_for ?d = handle_for t" "conn_total ?d = conn_total t" "present ?d h = present t h" for h
    by (simp_all add: views_entries[OF e] handle_for_def conn_total_def present_def fun_eq_iff)
  have et: "escrow_total ?d h = escrow_total t h - escrow_lease t k h" for h
  proof -
    have "escrow_total ?d h = escrow_total (t\<lparr>escrow := dict_del k (escrow t)\<rparr>) h"
      by (simp add: escrow_total_def)
    then show ?thesis by (simp add: escrow_total_del core_keysD(3)[OF c])
  qed
  have "owing ?d (lsum ?ps)"
    unfolding owing_def
  proof (intro conjI allI)
    show "held_total ?d h + lsum ?ps h = entry_leases ?d h" for h
      using balancedD[OF c, of h] by (simp add: held_total_def v et bucket_lsum[OF c])
    show "graph_ok ?d" using core_invD(3)[OF c] graph_ok_cong[OF v(1,2)] by simp
    show "index_ok ?d" using core_invD(4)[OF c] by (simp add: index_ok_def v)
    show "keys_ok ?d" "leases_pos ?d"
      using core_invD(1,2)[OF c] by (auto simp: keys_ok_def leases_pos_def)
  qed
  moreover have "free_in ?d (set r)" using Cons.prems(3) free_in_entries[OF e] by simp
  ultimately obtain t1 where t1: "drop_leases ?ps r ?d = (Inr (r @ map fst ?ps), t1)" "core_inv t1"
    "free_in t1 (set r \<union> set (map fst ?ps))" "connections t1 = connections ?d"
    "escrow t1 = escrow ?d" "escrowed_at t1 = escrowed_at ?d" "by_obj t1 = by_obj ?d"
    "ttl t1 = ttl ?d" "pars t1 = pars ?d" "kids t1 = kids ?d" "\<forall>h. present t1 h = present ?d h"
    using drop_leases_effect[OF _ bucket_pos(1)[OF c]] by blast
  have e1: "escrow_ok t1" using Cons.prems(2) t1(5,6) by (simp add: escrow_ok_def)
  have f1: "free_in t1 (set (r @ map fst ?ps))" using t1(3) by simp
  obtain r' t' where "sweep_escrow ks (r @ map fst ?ps) t1 = (Inr r', t')" and
    res: "core_inv t'" "escrow_ok t'" "free_in t' (set r')" "connections t' = connections t1"
    "ttl t' = ttl t1" "pars t' = pars t1" "kids t' = kids t1" "by_obj t' = by_obj t1"
    "\<forall>h. present t' h = present t1 h"
    "\<forall>k. dict_get (escrow t') k = (if k \<in> set ks then None else dict_get (escrow t1) k)"
    "\<forall>k. dict_get (escrowed_at t') k = (if k \<in> set ks then None else dict_get (escrowed_at t1) k)"
    using Cons.IH[OF t1(2) e1 f1] by blast
  then have s: "sweep_escrow (k # ks) r t = (Inr r', t')" by (simp add: t1(1))
  show ?case
    unfolding s
    by (rule exI[of _ r'], rule exI[of _ t'])
       (use res in \<open>simp add: t1(4-11) v\<close>)
qed simp

lemma sweep_dead_effect:
  assumes "core_inv t" "escrow_ok t" "free_in t (set r)" "distinct ks"
    "\<forall>k\<in>set ks. dict_get (connections t) k \<noteq> None"
  shows "\<exists>r' t'. sweep_dead ks r t = (Inr r', t') \<and> core_inv t' \<and> escrow_ok t' \<and>
    free_in t' (set r') \<and> escrow t' = escrow t \<and> pars t' = pars t \<and> kids t' = kids t \<and>
    (\<forall>h. present t' h = present t h) \<and>
    (\<forall>k. dict_get (connections t') k = (if k \<in> set ks then None else dict_get (connections t) k)) \<and>
    (\<forall>k ob. handle_for t' k ob = (if k \<in> set ks then None else handle_for t k ob))"
  using assms
proof (induction ks arbitrary: r t)
  case (Cons k ks)
  note c = Cons.prems(1)
  obtain cn where cn: "dict_get (connections t) k = Some cn"
    using Cons.prems(5) by (auto simp: not_None_eq)
  let ?d = "t\<lparr>connections := dict_del k (connections t)\<rparr>"
  have v: "names ?d = names t" "escrow_total ?d = escrow_total t" "handle_for ?d = handle_for t"
    by simp_all
  have l: "lsum (c_leases cn) h = conn_lease t k h" for h
    using core_keysD(4)[OF c cn] by (simp add: conn_lease_def cn lsum_dict)
  have "owing ?d (lsum (c_leases cn))"
    unfolding owing_def
  proof (intro conjI allI)
    show "held_total ?d h + lsum (c_leases cn) h = entry_leases ?d h" for h
      using balancedD[OF c, of h] by (simp add: held_total_def conn_total_del core_keysD(2)[OF c] l)
    show "graph_ok ?d" using core_invD(3)[OF c] by (simp add: graph_ok_def)
    show "index_ok ?d" using core_invD(4)[OF c] by (simp add: index_ok_def)
    show "keys_ok ?d" "leases_pos ?d" using core_invD(1,2)[OF c] by (simp_all add: keys_pos_del)
  qed
  moreover have "free_in ?d (set r)" using Cons.prems(3) free_in_entries[of ?d t] by simp
  ultimately obtain t1 where t1: "drop_leases (c_leases cn) r ?d = (Inr (r @ map fst (c_leases cn)), t1)"
    "core_inv t1" "free_in t1 (set r \<union> set (map fst (c_leases cn)))"
    "connections t1 = connections ?d" "escrow t1 = escrow ?d" "escrowed_at t1 = escrowed_at ?d"
    "by_obj t1 = by_obj ?d" "pars t1 = pars ?d" "kids t1 = kids ?d"
    "\<forall>h. present t1 h = present ?d h"
    using drop_leases_effect[OF _ bucket_pos(2)[OF c cn]] by blast
  let ?u = "unindex_all k t1"
  have u: "core_inv ?u"
    using t1(2) by (simp add: core_inv_def index_ok_unindex_all graph_ok_def balanced_def held_total_def)
  have e1: "escrow_ok ?u" using Cons.prems(2) t1(5,6) by (simp add: escrow_ok_def)
  have f1: "free_in ?u (set (r @ map fst (c_leases cn)))" using t1(3) by (simp add: free_in_views)
  have b1: "\<forall>x\<in>set ks. dict_get (connections ?u) x \<noteq> None"
    using Cons.prems(4,5) by (auto simp: t1(4))
  have "distinct ks" using Cons.prems(4) by simp
  then obtain r' t' where "sweep_dead ks (r @ map fst (c_leases cn)) ?u = (Inr r', t')" and
    res: "core_inv t'" "escrow_ok t'" "free_in t' (set r')" "escrow t' = escrow ?u"
    "pars t' = pars ?u" "kids t' = kids ?u" "\<forall>h. present t' h = present ?u h"
    "\<forall>k. dict_get (connections t') k = (if k \<in> set ks then None else dict_get (connections ?u) k)"
    "\<forall>k ob. handle_for t' k ob = (if k \<in> set ks then None else handle_for ?u k ob)"
    using Cons.IH[OF u e1 f1 _ b1] by blast
  then have s: "sweep_dead (k # ks) r t = (Inr r', t')" by (simp add: t1(1) cn)
  have hf: "handle_for t1 = handle_for t" using t1(7) by (simp add: handle_for_def fun_eq_iff)
  show ?case
    unfolding s
    by (rule exI[of _ r'], rule exI[of _ t'])
       (use res in \<open>simp add: t1(4-10) handle_for_unindex_all hf\<close>)
qed simp

definition conn_expired :: "time \<Rightarrow> table \<Rightarrow> connection \<Rightarrow> bool" where
  "conn_expired now t c = (case ttl t of None \<Rightarrow> False
     | Some l \<Rightarrow> l \<noteq> 0 \<and> now - c_last_seen c > l)"

definition escrow_expired :: "time \<Rightarrow> table \<Rightarrow> token \<Rightarrow> bool" where
  "escrow_expired now t k = (case escrow_ttl t of None \<Rightarrow> False
     | Some l \<Rightarrow> l \<noteq> 0 \<and> (\<exists>at. (k, at) \<in> set (escrowed_at t) \<and> now - at > l))"

lemma stale_escrow_iff: "k \<in> set (stale_escrow now t) \<longleftrightarrow> escrow_expired now t k"
  by (auto simp: stale_escrow_def escrow_expired_def split: option.splits)

lemma dead_connections_eq:
  "dead_connections now t = map fst (filter (\<lambda>p. conn_expired now t (snd p)) (connections t))"
proof -
  have *: "[k. (k, c) \<leftarrow> d, P c] = map fst (filter (\<lambda>p. P (snd p)) d)" for P and d :: "(token \<times> connection) list"
    by (induction d) auto
  show ?thesis
    by (cases "ttl t"; cases "ttl t = Some 0")
       (auto simp: dead_connections_def conn_expired_def * filter_empty_conv)
qed

lemma dead_connections_iff:
  "dict_ok (connections t) \<Longrightarrow> k \<in> set (dead_connections now t) \<longleftrightarrow>
     (\<exists>c. dict_get (connections t) k = Some c \<and> conn_expired now t c)"
  by (auto simp: dead_connections_eq image_iff dict_mem_iff Bex_def)

lemma distinct_dead: "dict_ok (connections t) \<Longrightarrow> distinct (dead_connections now t)"
  by (simp add: dead_connections_eq dict_ok_def distinct_map_filter)

text \<open>The table a sweep reaps: the expired holders are gone, their leases taken off the entries.\<close>

lemma sweep_effect:
  assumes "table_inv t"
  obtains r t2 where "sweep now t = (Inr (fst (reap r [] t2)), snd (reap r [] t2))"
    "core_inv t2" "escrow_ok t2" "free_in t2 (set r)" "pars t2 = pars t" "kids t2 = kids t"
    "\<And>h. present t2 h = present t h"
    "\<And>k. dict_get (connections t2) k = (case dict_get (connections t) k of None \<Rightarrow> None
       | Some c \<Rightarrow> if conn_expired now t c then None else Some c)"
    "\<And>k. dict_get (escrow t2) k = (if escrow_expired now t k then None else dict_get (escrow t) k)"
proof -
  obtain r1 t1 where 1: "sweep_escrow (stale_escrow now t) [] t = (Inr r1, t1)" "core_inv t1"
    "escrow_ok t1" "free_in t1 (set r1)" "connections t1 = connections t" "ttl t1 = ttl t"
    "pars t1 = pars t" "kids t1 = kids t" "\<forall>h. present t1 h = present t h"
    "\<forall>k. dict_get (escrow t1) k =
       (if k \<in> set (stale_escrow now t) then None else dict_get (escrow t) k)"
    using sweep_escrow_effect[of t "[]" "stale_escrow now t"] assms by (auto simp: table_inv_def)
  have ok: "dict_ok (connections t1)" using 1(2) by (rule core_keysD)
  have dead: "k \<in> set (dead_connections now t1) \<longleftrightarrow>
      (\<exists>c. dict_get (connections t) k = Some c \<and> conn_expired now t c)" for k
    using dead_connections_iff[OF ok, of k now] 1(5,6) by (simp add: conn_expired_def)
  have b: "\<forall>k\<in>set (dead_connections now t1). dict_get (connections t1) k \<noteq> None"
    using dead 1(5) by auto
  obtain r t2 where 2: "sweep_dead (dead_connections now t1) r1 t1 = (Inr r, t2)" "core_inv t2"
    "escrow_ok t2" "free_in t2 (set r)" "escrow t2 = escrow t1" "pars t2 = pars t1"
    "kids t2 = kids t1" "\<forall>h. present t2 h = present t1 h"
    "\<forall>k. dict_get (connections t2) k =
       (if k \<in> set (dead_connections now t1) then None else dict_get (connections t1) k)"
    using sweep_dead_effect[OF 1(2,3,4) distinct_dead[OF ok] b] by blast
  have "sweep now t = (Inr (fst (reap (rev r) [] t2)), snd (reap (rev r) [] t2))"
    by (simp add: sweep_def 1(1) 2(1) reap_candidates_def case_prod_beta Let_def)
  moreover have "dict_get (connections t2) k = (case dict_get (connections t) k of None \<Rightarrow> None
       | Some c \<Rightarrow> if conn_expired now t c then None else Some c)" for k
    using 2(9) dead[of k] 1(5) by (auto split: option.splits)
  ultimately show ?thesis
    using 2(2-4) by (intro that[of "rev r" t2]) (simp_all add: 1 2 stale_escrow_iff)
qed

lemma sweep_inv: "table_inv t \<Longrightarrow> table_inv (snd (sweep now t))"
  by (rule sweep_effect[of t now]) (simp_all add: reap_table_inv)

subsection \<open>Close\<close>

definition emptied :: "table \<Rightarrow> table" where
  "emptied t = t\<lparr>entries := map (\<lambda>(h, e). (h, e\<lparr>e_leases := 0\<rparr>)) (entries t),
     connections := [], escrow := [], escrowed_at := []\<rparr>"

lemma close_eq: "close t = reap (rev (dict_keys (entries t))) [] (emptied t)"
  by (simp add: close_def emptied_def reap_candidates_def)

lemma ent_emptied: "ent (emptied t) h = map_option (\<lambda>e. e\<lparr>e_leases := 0\<rparr>) (ent t h)"
proof -
  have "dict_get (map (\<lambda>(h, e). (h, e\<lparr>e_leases := 0\<rparr>)) d) h =
      map_option (\<lambda>e. e\<lparr>e_leases := 0\<rparr>) (dict_get d h)" for d :: "(hid, entry) dict"
    by (induction d) auto
  then show ?thesis by (simp add: emptied_def)
qed

lemma emptied_views [simp]:
  "pars (emptied t) = pars t" "kids (emptied t) = kids t" "names (emptied t) = names t"
  "present (emptied t) h = present t h" "entry_leases (emptied t) h = 0"
  "handle_for (emptied t) = handle_for t" "held_total (emptied t) h = 0"
  "on_drop_calls (emptied t) = on_drop_calls t" "on_drop (emptied t) = on_drop t"
proof -
  show "pars (emptied t) = pars t" "kids (emptied t) = kids t" "names (emptied t) = names t"
    by (auto simp: fun_eq_iff pars_def kids_def names_def ent_emptied split: option.splits)
  show "present (emptied t) h = present t h" "entry_leases (emptied t) h = 0"
    by (auto simp: present_def entry_leases_def ent_emptied split: option.splits)
  show "handle_for (emptied t) = handle_for t" "held_total (emptied t) h = 0"
    "on_drop_calls (emptied t) = on_drop_calls t" "on_drop (emptied t) = on_drop t"
    by (simp_all add: emptied_def handle_for_def fun_eq_iff held_total_def conn_total_def
        escrow_total_def)
qed

lemma emptied_core:
  assumes "core_inv t"
  shows "core_inv (emptied t)"
proof (rule core_invI)
  have "map fst (map (\<lambda>(h, e). (h, e\<lparr>e_leases := 0\<rparr>)) d) = map fst d" for d :: "(hid, entry) dict"
    by (induction d) auto
  then show "keys_ok (emptied t)"
    using core_keysD(1)[OF assms] by (simp add: keys_ok_def emptied_def dict_ok_def del: map_map)
qed (use core_invD[OF assms] in \<open>simp_all add: leases_pos_def graph_ok_def index_ok_def balanced_def,
       simp add: emptied_def\<close>)

lemma emptied_free: "free_in (emptied t) (set (rev (dict_keys (entries t))))"
proof -
  have "h \<in> set (dict_keys (entries t))" if "present t h" for h
    using that unfolding dict_keys_get by (simp add: present_def not_None_eq)
  then show ?thesis by (auto simp: free_in_views)
qed

lemma emptied_unpinned: "\<not> pinned (emptied t) h"
proof
  assume "pinned (emptied t) h"
  then show False by (induction rule: pinned.induct) (auto simp: ent_emptied)
qed

lemma close_frame:
  "connections (snd (close t)) = []" "escrow (snd (close t)) = []" "escrowed_at (snd (close t)) = []"
  by (simp_all add: close_eq) (simp_all add: emptied_def)

lemma close_inv: "table_inv t \<Longrightarrow> table_inv (snd (close t))"
  unfolding close_eq
  using emptied_free[of t]
  by (intro reap_table_inv) (simp_all add: emptied_core table_invD, simp add: escrow_ok_def emptied_def)

lemma close_all_gone:
  assumes "table_inv t" "acyclic_graph t"
  shows "entries (snd (close t)) = []"
proof -
  have "acyclic_graph (emptied t)" using assms(2) by (simp add: acyclic_graph_def edges_def)
  then have "\<not> present (snd (close t)) h" for h
    unfolding close_eq
    using reap_exact[OF emptied_core[OF table_invD(1)[OF assms(1)]] emptied_free] emptied_unpinned
    by blast
  then have "dict_get (entries (snd (close t))) = Map.empty"
    by (simp add: present_def fun_eq_iff)
  then show ?thesis by simp
qed

section \<open>The audit\<close>

text \<open>
  What \<open>HandleTable.audit\<close> checks: on a table with distinct keys and positive counts it reports
  nothing exactly when the lease counts balance and no entry is left that nothing holds.
\<close>

definition all_pos :: "(hid, int) dict \<Rightarrow> bool" where
  "all_pos d \<longleftrightarrow> (\<forall>h n. dict_get d h = Some n \<longrightarrow> 0 < n)"

lemma all_pos_default: "all_pos d \<Longrightarrow> 0 \<le> dict_default d h 0"
  by (cases "dict_get d h") (auto simp: all_pos_def less_imp_le)

lemma count_leases_Cons:
  "count_leases ((h, n) # ls) d = count_leases ls (dict_set h (dict_default d h 0 + n) d)"
  by (simp add: count_leases_def)

lemma count_leases_effect:
  "dict_default (count_leases ls d) h 0 = dict_default d h 0 + lsum ls h"
  "all_pos d \<Longrightarrow> \<forall>p\<in>set ls. 0 < snd p \<Longrightarrow> all_pos (count_leases ls d)"
proof -
  show "dict_default (count_leases ls d) h 0 = dict_default d h 0 + lsum ls h"
  proof (induction ls arbitrary: d)
    case (Cons p ls)
    then show ?case by (cases p) (simp add: count_leases_Cons)
  qed (simp add: count_leases_def)
  show "all_pos d \<Longrightarrow> \<forall>p\<in>set ls. 0 < snd p \<Longrightarrow> all_pos (count_leases ls d)"
  proof (induction ls arbitrary: d)
    case (Cons p ls)
    obtain h n where p: "p = (h, n)" by (cases p)
    have "0 < dict_default d h 0 + n" using Cons.prems all_pos_default[of d h] by (simp add: p)
    then have "all_pos (dict_set h (dict_default d h 0 + n) d)"
      using Cons.prems(1) by (auto simp: all_pos_def)
    then show ?case using Cons.IH Cons.prems(2) by (simp add: p count_leases_Cons)
  qed (simp add: count_leases_def)
qed

lemma count_all_effect:
  "dict_default (fold count_leases lss d) h 0 = dict_default d h 0 + (\<Sum>ls\<leftarrow>lss. lsum ls h)"
  "all_pos d \<Longrightarrow> \<forall>ls\<in>set lss. \<forall>p\<in>set ls. 0 < snd p \<Longrightarrow> all_pos (fold count_leases lss d)"
  by (induction lss arbitrary: d) (simp_all add: count_leases_effect)

definition counted :: "table \<Rightarrow> (hid, int) dict" where
  "counted t = fold count_leases (map snd (escrow t))
     (fold count_leases (map (c_leases \<circ> snd) (connections t)) [])"

lemma counted_total:
  assumes "keys_ok t"
  shows "dict_default (counted t) h 0 = held_total t h"
proof -
  have c: "(\<Sum>ls\<leftarrow>map (c_leases \<circ> snd) (connections t). lsum ls h) = conn_total t h"
  proof -
    have "lsum (c_leases c) h = dict_default (c_leases c) h 0" if "(k, c) \<in> set (connections t)" for k c
      using assms that by (auto simp: keys_ok_def dict_mem_iff lsum_dict)
    then have "map (\<lambda>p. lsum (c_leases (snd p)) h) (connections t) =
        map (\<lambda>p. dict_default (c_leases (snd p)) h 0) (connections t)"
      by (intro map_cong) auto
    then show ?thesis unfolding conn_total_def dict_sum_def by (simp only: map_map comp_def)
  qed
  have e: "(\<Sum>ls\<leftarrow>map snd (escrow t). lsum ls h) = escrow_total t h"
  proof -
    have "lsum b h = dict_default b h 0" if "(k, b) \<in> set (escrow t)" for k b
      using assms that by (auto simp: keys_ok_def dict_mem_iff lsum_dict)
    then have "map (\<lambda>p. lsum (snd p) h) (escrow t) =
        map (\<lambda>p. dict_default (snd p) h 0) (escrow t)"
      by (intro map_cong) auto
    then show ?thesis unfolding escrow_total_def dict_sum_def by (simp only: map_map comp_def)
  qed
  show ?thesis
    unfolding counted_def count_all_effect c e by (simp add: held_total_def)
qed

lemma counted_pos:
  assumes "keys_ok t" "leases_pos t"
  shows "all_pos (counted t)"
proof -
  have "0 < n" if "(k, c) \<in> set (connections t)" "(h, n) \<in> set (c_leases c)" for k c h n
    using assms that by (auto simp: keys_ok_def leases_pos_def dict_mem_iff)
  moreover have "0 < n" if "(k, b) \<in> set (escrow t)" "(h, n) \<in> set b" for k b h n
    using assms that by (auto simp: keys_ok_def leases_pos_def dict_mem_iff)
  ultimately show ?thesis
    unfolding counted_def by (intro count_all_effect(2)) (auto simp: all_pos_def)
qed

definition entry_bad :: "(hid, int) dict \<Rightarrow> hid \<times> entry \<Rightarrow> complaint list" where
  "entry_bad d p =
     (let held = dict_default d (fst p) 0 in
      (if held \<noteq> e_leases (snd p) then [Mismatch (fst p) (e_leases (snd p)) held] else []) @
      (if e_leases (snd p) = 0 \<and> e_children (snd p) = [] then [Unreaped (fst p)] else []))"

lemma audit_entries_Cons:
  "audit_entries (p # es) d bad = audit_entries es (dict_del (fst p) d) (bad @ entry_bad d p)"
  by (cases p) (simp add: entry_bad_def Let_def)

lemma audit_entries_effect:
  "distinct (map fst es) \<Longrightarrow> fst (audit_entries es d bad) = bad @ concat (map (entry_bad d) es)"
  "dict_get (snd (audit_entries es d bad)) h = (if h \<in> fst ` set es then None else dict_get d h)"
proof -
  show "distinct (map fst es) \<Longrightarrow> fst (audit_entries es d bad) = bad @ concat (map (entry_bad d) es)"
  proof (induction es arbitrary: d bad)
    case (Cons p es)
    have "map (entry_bad (dict_del (fst p) d)) es = map (entry_bad d) es"
    proof (intro map_cong refl)
      fix q assume "q \<in> set es"
      then have "fst q \<noteq> fst p" using Cons.prems by (auto simp: image_iff)
      then show "entry_bad (dict_del (fst p) d) q = entry_bad d q" by (simp add: entry_bad_def)
    qed
    then show ?case using Cons.IH Cons.prems
      by (simp only: audit_entries_Cons) (simp del: map_eq_conv)
  qed simp
  show "dict_get (snd (audit_entries es d bad)) h = (if h \<in> fst ` set es then None else dict_get d h)"
    by (induction es arbitrary: d bad) (auto simp: audit_entries_Cons)
qed

lemma entry_bad_nil:
  "entry_bad d (h, e) = [] \<longleftrightarrow> dict_default d h 0 = e_leases e \<and> \<not> (e_leases e = 0 \<and> e_children e = [])"
  by (simp add: entry_bad_def Let_def)

lemma audit_split:
  assumes "dict_ok (entries t)"
  shows "audit t = [] \<longleftrightarrow> (\<forall>p\<in>set (entries t). entry_bad (counted t) p = []) \<and>
    (\<forall>h. ent t h = None \<longrightarrow> dict_get (counted t) h = None)"
proof -
  let ?r = "audit_entries (entries t) (counted t) []"
  have a: "audit t = fst ?r @ map (\<lambda>(h, n). Dangling h n) (snd ?r)"
    by (simp add: audit_def counted_def Let_def case_prod_beta)
  have "snd ?r = [] \<longleftrightarrow> (\<forall>h. dict_get (snd ?r) h = None)"
    using map_of_eq_empty_iff[of "snd ?r"] by (auto simp: fun_eq_iff simp del: map_of_eq_empty_iff)
  also have "\<dots> \<longleftrightarrow> (\<forall>h. ent t h = None \<longrightarrow> dict_get (counted t) h = None)"
    by (simp add: audit_entries_effect(2) map_of_eq_None_iff)
  finally show ?thesis
    using audit_entries_effect(1)[of "entries t" "counted t" "[]"] assms
    by (simp add: a dict_ok_def)
qed

lemma audit_iff:
  assumes "keys_ok t" "leases_pos t"
  shows "audit t = [] \<longleftrightarrow> balanced t \<and> free_in t {}"
proof -
  have ok: "dict_ok (entries t)" using assms(1) by (simp add: keys_ok_def)
  have "(\<forall>p\<in>set (entries t). entry_bad (counted t) p = []) \<longleftrightarrow>
      (\<forall>h e. ent t h = Some e \<longrightarrow> held_total t h = e_leases e \<and> \<not> (e_leases e = 0 \<and> e_children e = []))"
    unfolding Ball_def split_paired_All entry_bad_nil dict_mem_iff[OF ok] counted_total[OF assms(1)]
    by simp
  moreover have "dict_get (counted t) h = None \<longleftrightarrow> held_total t h = 0" for h
    using counted_pos[OF assms] counted_total[OF assms(1), of h]
    by (cases "dict_get (counted t) h") (fastforce simp: all_pos_def)+
  ultimately show ?thesis
    unfolding audit_split[OF ok] balanced_def free_in_def entry_leases_def
    by (auto split: option.splits)
qed

lemma table_inv_audit: "table_inv t \<Longrightarrow> audit t = []"
  using audit_iff[of t] by (simp add: table_inv_def core_inv_def)

end
