(* ===== verification/Lifecycle_System.thy ===== *)
theory Lifecycle_System
  imports Lifecycle_Sweep
begin

text \<open>
  The handle table as a system: its operations as one datatype, the tables they reach from an empty
  one, and what each operation does to the leases of every connection. The interface a connection
  relies on is the locale \<open>holder_store\<close>: a step another connection takes never takes a lease away,
  and a lease keeps its handle alive. It is interpreted on the table below.
\<close>

subsection \<open>Leases under each operation\<close>

lemma conn_lease_frame [simp]:
  "conn_lease (upd_entry h f t) = conn_lease t" "conn_lease (link h p t) = conn_lease t"
  "conn_lease (snd (index k h t)) = conn_lease t" "conn_lease (unindex k h t) = conn_lease t"
  "conn_lease (unindex_all k t) = conn_lease t" "conn_lease (bump h n t) = conn_lease t"
  "conn_lease (snd (reap todo ds t)) = conn_lease t" "conn_lease (fold (link h) ps t) = conn_lease t"
  "conn_lease (add_entry h ob t) = conn_lease t"
  by (simp_all add: conn_lease_def add_entry_def fun_eq_iff)

lemma put_lease_counts:
  assumes "core_inv t" "\<forall>p\<in>set ps. present t p"
  shows "conn_lease (snd (put now nid ob tok ps t)) k c =
    conn_lease t k c + (if k = key_of tok \<and> c = put_handle nid ob tok t then 1 else 0)"
proof -
  let ?h = "put_handle nid ob tok t" and ?b = "put_base nid ob tok t"
  have p: "present (fold (link ?h) ps ?b) ?h" using put_base_present[OF assms(1)] by simp
  have "conn_lease ?b = conn_lease t" by (simp add: put_base_def split: option.split)
  then show ?thesis by (simp add: put_eq[OF assms] grant_views(9)[OF p])
qed

lemma touch_cases:
  assumes "present t h"
  obtains (held) "conn_lease t (key_of tok) h \<noteq> 0"
      "touch now tok h t = (Inr False, conn_for now (key_of tok) t)"
  | (granted) t' where "conn_lease t (key_of tok) h = 0" "touch now tok h t = (Inr True, t')"
      "t' = snd (grant now (key_of tok) h 1 (conn_for now (key_of tok) t)) \<or>
       t' = snd (index (key_of tok) h (snd (grant now (key_of tok) h 1 (conn_for now (key_of tok) t))))"
proof -
  let ?k = "key_of tok"
  let ?c = "conn_for now ?k t"
  obtain e where e: "ent t h = Some e" using assms by (auto simp: present_def not_None_eq)
  have p: "present ?c h" using assms by simp
  define g where "g = snd (grant now ?k h 1 ?c)"
  have ge: "grant now ?k h 1 ?c = (Inr (), g)" by (simp add: grant_eq[OF p] g_def)
  have "fst (index ?k h g) = Inr ()"
    using p by (intro index_Inr) (simp add: g_def grant_views)
  then obtain t3 where i: "index ?k h g = (Inr (), t3)" by (cases "index ?k h g") simp
  have un: "touch now tok h t = (if conn_lease ?c ?k h \<noteq> 0 then (Inr False, ?c)
      else if handle_for g ?k (e_obj e) = None then (Inr True, t3) else (Inr True, g))"
    unfolding touch_def e option.case Let_def ge by (simp add: i)
  have t3: "t3 = snd (index ?k h g)" by (simp add: i)
  show ?thesis
  proof (cases "conn_lease t ?k h = 0")
    case True
    then show ?thesis
      using un granted t3 by (cases "handle_for g ?k (e_obj e) = None") (simp_all add: g_def)
  next
    case False
    then show ?thesis using un held by simp
  qed
qed

lemma touch_lease_counts:
  assumes "present t h"
  shows "conn_lease (snd (touch now tok h t)) k c = conn_lease t k c +
    (if k = key_of tok \<and> c = h \<and> conn_lease t (key_of tok) h = 0 then 1 else 0)"
  using assms
proof (cases rule: touch_cases[where tok = tok and now = now])
  case (granted t')
  have p: "present (conn_for now (key_of tok) t) h" using assms by simp
  show ?thesis using granted by (auto simp: grant_views(9)[OF p])
qed simp

lemma release_lease_counts:
  assumes "core_inv t" "0 < n"
  shows "conn_lease (snd (release now tok h n t)) k c = conn_lease t k c -
    (if k = key_of tok \<and> c = h \<and> n \<le> conn_lease t (key_of tok) h then n else 0)"
proof -
  let ?k = "key_of tok"
  consider "dict_get (connections t) ?k = None"
    | "dict_get (connections t) ?k \<noteq> None" "conn_lease t ?k h < n" | "n \<le> conn_lease t ?k h"
    by force
  then show ?thesis
  proof cases
    case 3
    have "dict_get (connections t) ?k \<noteq> None" using 3 assms(2) by (intro lease_bound[of _ _ h]) simp
    then show ?thesis
      using 3 assms by (simp add: release_eq conn_lease_take del: reap.simps)
  qed (use assms(2) in \<open>simp_all add: release_unbound release_short conn_lease_absent\<close>)
qed

definition share_goes :: "table \<Rightarrow> token \<Rightarrow> token \<Rightarrow> hid \<Rightarrow> bool" where
  "share_goes t a b h \<longleftrightarrow> 1 \<le> conn_lease t (key_of a) h \<and> b \<noteq> key_of a \<and>
     dict_get (connections t) b \<noteq> None"

lemma share_stays: "\<not> share_goes t a b h \<Longrightarrow>
   snd (share now a b h mode t) = t \<or> snd (share now a b h mode t) = see now (key_of a) t"
  using share_refused[where t = t and a = a and now = now and b = b and h = h and mode = mode]
  by (fastforce simp: share_goes_def)

lemma share_lease_counts:
  assumes "core_inv t"
  shows "conn_lease (snd (share now a b h mode t)) k c = conn_lease t k c +
    (if share_goes t a b h \<and> c = h
     then (if k = b then 1 else if k = key_of a \<and> mode = TRANSFER then - 1 else 0) else 0)"
proof (cases "share_goes t a b h")
  case True
  let ?s = "see now (key_of a) t"
  have b1: "dict_get (connections t) (key_of a) \<noteq> None"
    using True by (intro lease_bound[of _ _ h]) (simp add: share_goes_def)
  have "dict_get (connections (share_take (key_of a) h mode ?s)) b \<noteq> None"
    using True by (cases mode) (simp_all add: share_take_def share_goes_def)
  moreover have "conn_lease (share_take (key_of a) h mode ?s) k c =
      conn_lease t k c - (if mode = TRANSFER \<and> k = key_of a \<and> c = h then 1 else 0)"
    using b1 by (cases mode) (simp_all add: share_take_def conn_lease_take)
  ultimately show ?thesis
    using True assms by (auto simp: share_goes_def share_eq conn_lease_give)
next
  case False
  then show ?thesis using share_stays[OF False, of now mode] by auto
qed

lemma detach_lease_counts:
  assumes "core_inv t"
  shows "conn_lease (snd (detach now tok ho t)) k c =
    (if k = key_of tok \<and> c \<in> set (detach_targets (key_of tok) ho (see now (key_of tok) t))
     then 0 else conn_lease t k c)"
    "escrow_lease (snd (detach now tok ho t)) k c = escrow_lease t k c +
    (if k = key_of tok \<and> c \<in> set (detach_targets (key_of tok) ho (see now (key_of tok) t))
     then conn_lease t k c else 0)"
proof -
  let ?k = "key_of tok" and ?s = "see now (key_of tok) t"
  let ?r = "detach_loop ?k (detach_targets ?k ho ?s) 0 ?s"
  have e: "escrow_lease ?s = escrow_lease t" by (simp add: escrow_lease_def fun_eq_iff)
  have upd: "conn_lease (u\<lparr>escrowed_at := a\<rparr>) = conn_lease u"
    "escrow_lease (u\<lparr>escrowed_at := a\<rparr>) = escrow_lease u" for u a
    by (simp_all add: conn_lease_def escrow_lease_def fun_eq_iff)
  note d = detach_loop_effect(6,7)[OF see_inv[OF assms, of now ?k], where k = ?k and m = 0
      and hs = "detach_targets ?k ho ?s" and k' = k and h' = c]
  have unb: "conn_lease t ?k c = 0" if "dict_get (connections t) ?k = None"
    using that by (rule conn_lease_absent)
  show "conn_lease (snd (detach now tok ho t)) k c =
    (if k = ?k \<and> c \<in> set (detach_targets ?k ho ?s) then 0 else conn_lease t k c)"
  proof (cases "dict_get (connections t) ?k = None")
    case False
    then have "conn_lease (snd (detach now tok ho t)) = conn_lease (snd ?r)"
      by (simp add: detach_eq Let_def upd)
    then show ?thesis using d(1) by simp
  qed (simp add: detach_unbound unb)
  show "escrow_lease (snd (detach now tok ho t)) k c = escrow_lease t k c +
    (if k = ?k \<and> c \<in> set (detach_targets ?k ho ?s) then conn_lease t k c else 0)"
  proof (cases "dict_get (connections t) ?k = None")
    case False
    then have "escrow_lease (snd (detach now tok ho t)) = escrow_lease (snd ?r)"
      by (simp add: detach_eq Let_def upd)
    then show ?thesis using d(2) by (simp add: e)
  qed (simp add: detach_unbound unb)
qed

lemma bind_lease_counts:
  assumes "core_inv t"
  shows "conn_lease (snd (bind now nid claim t)) k c =
    conn_lease t k c + (if k = bind_token nid claim then escrow_lease t k c else 0)"
  using claim_leases_effect(7)[OF bind_base_effect(1)[OF assms], of "bind_token nid claim"]
    bind_base_effect(10)[OF assms] bucket_lsum[OF assms]
  by (simp add: bind_eq Let_def)

lemma unbind_lease_counts: "conn_lease (unbind tok cid t) = conn_lease t"
proof (cases rule: unbind_cases[of tok cid t])
  case (last c)
  then have "conn_lease (t\<lparr>connections := dict_del tok (connections t)\<rparr>) = conn_lease t"
    by (auto simp: conn_lease_def fun_eq_iff)
  with last show ?thesis by simp
next
  case (keep c)
  then show ?thesis
    using upd_conn_leases(2)[of "\<lambda>c. c\<lparr>c_streams := c_streams c - 1\<rparr>"] by (simp add: fun_eq_iff)
qed simp

definition swept :: "time \<Rightarrow> table \<Rightarrow> token \<Rightarrow> bool" where
  "swept now t k = (case dict_get (connections t) k of None \<Rightarrow> False | Some c \<Rightarrow> conn_expired now t c)"

lemma sweep_lease_counts:
  assumes "table_inv t"
  shows "conn_lease (snd (sweep now t)) k c = (if swept now t k then 0 else conn_lease t k c)"
proof (rule sweep_effect[OF assms, of now])
  fix r t2
  assume "sweep now t = (Inr (fst (reap r [] t2)), snd (reap r [] t2))"
    "\<And>k. dict_get (connections t2) k = (case dict_get (connections t) k of None \<Rightarrow> None
       | Some c \<Rightarrow> if conn_expired now t c then None else Some c)"
  then show ?thesis by (auto simp: swept_def conn_lease_def split: option.splits)
qed

subsection \<open>The operations as steps\<close>

datatype table_op =
    Bind time token "token option"
  | Unbind token nat
  | Alive time token
  | Put time hid objref token "hid list"
  | Touch time token hid
  | Release time token hid int
  | Share time token token hid share_mode
  | Detach time token "hid option"
  | Sweep time
  | Close

fun run_op :: "table_op \<Rightarrow> table \<Rightarrow> table" where
  "run_op (Bind now nid claim) t = snd (bind now nid claim t)"
| "run_op (Unbind tok cid) t = unbind tok cid t"
| "run_op (Alive now tok) t = snd (alive now tok t)"
| "run_op (Put now nid ob tok ps) t = snd (put now nid ob tok ps t)"
| "run_op (Touch now tok h) t = snd (touch now tok h t)"
| "run_op (Release now tok h n) t = snd (release now tok h n t)"
| "run_op (Share now a b h mode) t = snd (share now a b h mode t)"
| "run_op (Detach now tok ho) t = snd (detach now tok ho t)"
| "run_op (Sweep now) t = snd (sweep now t)"
| "run_op Close t = snd (close t)"

text \<open>What the callers keep to: \<open>uuid4\<close> answers an id no live handle has, and a release is of at
  least one lease (every caller uses the default).\<close>

fun admissible :: "table_op \<Rightarrow> table \<Rightarrow> bool" where
  "admissible (Put now nid ob tok ps) t = (\<not> present t nid)"
| "admissible (Release now tok h n) t = (0 < n)"
| "admissible _ t = True"

inductive reachable :: "table \<Rightarrow> bool" where
  init: "reachable (new_table l e)"
| callback: "reachable t \<Longrightarrow> reachable (t\<lparr>on_drop := b\<rparr>)"
| step: "reachable t \<Longrightarrow> admissible op t \<Longrightarrow> reachable (run_op op t)"

lemma run_op_inv: "table_inv t \<Longrightarrow> admissible op t \<Longrightarrow> table_inv (run_op op t)"
proof (cases op)
  case (Unbind tok cid)
  then show "table_inv t \<Longrightarrow> ?thesis" using unbind_inv[of t tok cid] by simp
qed (simp_all add: bind_inv alive_inv put_inv touch_inv release_inv share_inv detach_inv sweep_inv
      close_inv)

lemma on_drop_inv: "table_inv (t\<lparr>on_drop := b\<rparr>) = table_inv t"
proof -
  have e: "entries (t\<lparr>on_drop := b\<rparr>) = entries t" by simp
  show ?thesis
    by (simp add: table_inv_def core_inv_def keys_ok_def leases_pos_def graph_ok_def index_ok_def
        balanced_def escrow_ok_def free_in_def held_total_def conn_total_def escrow_total_def
        handle_for_def views_entries[OF e])
qed

lemma reachable_inv: "reachable t \<Longrightarrow> table_inv t"
  by (induction rule: reachable.induct) (simp_all add: run_op_inv on_drop_inv)

fun may_lose :: "table_op \<Rightarrow> table \<Rightarrow> token \<Rightarrow> bool" where
  "may_lose (Release now tok h n) t k = (k = key_of tok)"
| "may_lose (Share now a b h mode) t k = (k = key_of a \<and> mode = TRANSFER)"
| "may_lose (Detach now tok ho) t k = (k = key_of tok)"
| "may_lose (Sweep now) t k = swept now t k"
| "may_lose Close t k = True"
| "may_lose _ t k = False"

lemma run_op_keeps:
  assumes "table_inv t" "admissible op t" "\<not> may_lose op t k"
  shows "conn_lease t k h \<le> conn_lease (run_op op t) k h"
proof (cases op)
  case (Bind now nid claim)
  then show ?thesis
    using bind_lease_counts[OF table_invD(1)[OF assms(1)]]
      escrow_lease_nonneg[OF core_invD(2)[OF table_invD(1)[OF assms(1)]]] by simp
next
  case (Put now nid ob tok ps)
  then show ?thesis
    using put_lease_counts[OF table_invD(1)[OF assms(1)], of ps now nid ob tok k h]
    by (cases "\<forall>p\<in>set ps. present t p") (simp_all add: put_missing)
next
  case (Touch now tok c)
  then show ?thesis
    using touch_lease_counts[of t c now tok k h]
    by (cases "present t c") (simp_all add: touch_def present_def)
next
  case (Unbind tok cid)
  then show ?thesis by (simp add: unbind_lease_counts)
next
  case (Alive now tok)
  then show ?thesis by (simp add: alive_def Let_def)
next
  case (Release now tok c n)
  then show ?thesis
    using assms release_lease_counts[OF table_invD(1)[OF assms(1)]] by simp
next
  case (Share now a b c mode)
  then show ?thesis
    using assms(3) share_lease_counts[OF table_invD(1)[OF assms(1)], of now a b c mode k h]
    by (auto split: if_splits)
next
  case (Detach now tok ho)
  then show ?thesis
    using assms detach_lease_counts(1)[OF table_invD(1)[OF assms(1)]] by simp
next
  case (Sweep now)
  then show ?thesis using assms sweep_lease_counts[OF assms(1)] by simp
qed (use assms in simp)

subsection \<open>The object behind a handle\<close>

definition obj_of :: "table \<Rightarrow> hid \<Rightarrow> objref option" where
  "obj_of t h = map_option e_obj (ent t h)"

text \<open>No entry appears and none changes its object.\<close>

definition shrinks :: "table \<Rightarrow> table \<Rightarrow> bool" where
  "shrinks t t' \<longleftrightarrow> (\<forall>h. present t' h \<longrightarrow> obj_of t' h = obj_of t h)"

lemma obj_of_present: "obj_of t h \<noteq> None \<longleftrightarrow> present t h"
  by (simp add: obj_of_def present_def)

lemma shrinks_refl [simp]: "shrinks t t"
  by (simp add: shrinks_def)

lemma shrinks_trans: "shrinks t u \<Longrightarrow> shrinks u v \<Longrightarrow> shrinks t v"
  unfolding shrinks_def by (metis obj_of_present)

lemma shrinks_entries: "entries t' = entries t \<Longrightarrow> shrinks t t'"
  by (simp add: shrinks_def obj_of_def)

lemma shrinks_upd_entry: "(\<And>e. e_obj (f e) = e_obj e) \<Longrightarrow> shrinks t (upd_entry h f t)"
  by (auto simp: shrinks_def obj_of_def dict_get_upd_entry option.map_comp comp_def)

lemma obj_of_views [simp]:
  "obj_of (bump h n t) = obj_of t" "obj_of (put_lease k h n t) = obj_of t"
  "obj_of (del_lease k h t) = obj_of t" "obj_of (see now k t) = obj_of t"
  "obj_of (conn_for now k t) = obj_of t" "obj_of (take_lease k h n t) = obj_of t"
  "obj_of (give_lease k h n t) = obj_of t" "obj_of (forget_token k h t) = obj_of t"
  "obj_of (link h p t) = obj_of t" "obj_of (snd (index k h t)) = obj_of t"
  by (auto simp: fun_eq_iff obj_of_def bump_def forget_token_def link_def index_def
      dict_get_upd_entry option.map_comp comp_def split: option.splits)

lemma obj_of_link_all [simp]: "obj_of (fold (link h) ps t) = obj_of t"
  by (induction ps arbitrary: t) simp_all

lemma obj_of_forget_all [simp]: "obj_of (fold (forget_token k) hs t) = obj_of t"
  by (induction hs arbitrary: t) simp_all

lemma obj_of_reap: "shrinks t (snd (reap todo ds t))"
  unfolding shrinks_def
proof (intro allI impI)
  fix h assume "present (snd (reap todo ds t)) h"
  then obtain x where x: "ent (snd (reap todo ds t)) h = Some x" by (auto simp: present_def not_None_eq)
  from reap_survivor[OF x] show "obj_of (snd (reap todo ds t)) h = obj_of t h"
    by (auto simp: obj_of_def x)
qed

lemma obj_of_entries: "entries t' = entries t \<Longrightarrow> obj_of t' = obj_of t"
  by (simp add: obj_of_def fun_eq_iff)

lemma obj_of_other [simp]:
  "obj_of (t\<lparr>connections := c\<rparr>) = obj_of t" "obj_of (t\<lparr>by_obj := b\<rparr>) = obj_of t"
  "obj_of (t\<lparr>escrow := s\<rparr>) = obj_of t" "obj_of (t\<lparr>escrowed_at := a\<rparr>) = obj_of t"
  "obj_of (upd_conn k f t) = obj_of t"
  by (rule obj_of_entries, simp)+

lemma obj_of_loops [simp]:
  "obj_of (unindex_all k t) = obj_of t" "obj_of (claim_leases tok ps t) = obj_of t"
proof -
  show "obj_of (claim_leases tok ps t) = obj_of t"
    by (induction ps arbitrary: t)
       (simp_all add: claim_leases_Cons claim_one_def Let_def if_distrib[of obj_of])
qed (simp add: unindex_all_eq)

lemma obj_of_grant: "present t h \<Longrightarrow> obj_of (snd (grant now tok h n t)) = obj_of t"
  by (simp add: fun_eq_iff obj_of_def grant_views(10))

lemma obj_of_leases [simp]: "obj_of (upd_entry h (\<lambda>e. e\<lparr>e_leases := f e\<rparr>) t) = obj_of t"
  by (auto simp: fun_eq_iff obj_of_def dict_get_upd_entry option.map_comp comp_def)

lemma obj_of_drop_leases:
  "obj_of (snd (drop_leases ps r t)) = obj_of t"
proof (induction ps r t rule: drop_leases.induct)
  case (2 h n ps r t)
  then show ?case
    by (cases "present t h") (simp_all add: add_leases_bump add_leases_def present_def)
qed simp

lemma obj_of_sweep_escrow: "obj_of (snd (sweep_escrow ks r t)) = obj_of t"
proof (induction ks arbitrary: r t)
  case (Cons k ks)
  let ?d = "t\<lparr>escrowed_at := dict_del k (escrowed_at t), escrow := dict_del k (escrow t)\<rparr>"
  have "obj_of (snd (drop_leases (dict_default (escrow t) k []) r ?d)) = obj_of t"
    by (simp add: obj_of_drop_leases)
  then show ?case
    by (cases "drop_leases (dict_default (escrow t) k []) r ?d")
       (auto simp: Let_def Cons.IH split: sum.split)
qed simp

lemma obj_of_sweep_dead: "obj_of (snd (sweep_dead ks r t)) = obj_of t"
proof (induction ks arbitrary: r t)
  case (Cons k ks)
  show ?case
  proof (cases "dict_get (connections t) k")
    case (Some c)
    let ?d = "t\<lparr>connections := dict_del k (connections t)\<rparr>"
    have "obj_of (snd (drop_leases (c_leases c) r ?d)) = obj_of t"
      by (simp add: obj_of_drop_leases)
    then show ?thesis
      using Some by (cases "drop_leases (c_leases c) r ?d") (auto simp: Cons.IH split: sum.split)
  qed simp
qed simp

lemma sweep_shrinks: "shrinks t (snd (sweep now t))"
proof (cases "sweep_escrow (stale_escrow now t) [] t")
  case e: (Pair a t1)
  have o1: "obj_of t1 = obj_of t" using obj_of_sweep_escrow[of "stale_escrow now t" "[]" t] e by simp
  show ?thesis
  proof (cases a)
    case (Inr r1)
    obtain b t2 where d: "sweep_dead (dead_connections now t1) r1 t1 = (b, t2)" by fastforce
    have o2: "obj_of t2 = obj_of t"
      using obj_of_sweep_dead[of "dead_connections now t1" r1 t1] d o1 by simp
    show ?thesis
      using o2 obj_of_reap[of t2] e Inr d
      by (cases b) (auto simp: sweep_def shrinks_def reap_candidates_def case_prod_beta Let_def)
  qed (use e o1 in \<open>simp add: sweep_def shrinks_def\<close>)
qed

lemma put_obj:
  assumes "core_inv t" "\<forall>p\<in>set ps. present t p" "\<not> present t nid"
  shows "obj_of (snd (put now nid ob tok ps t)) c =
    (if c = put_handle nid ob tok t then Some ob else obj_of t c)"
proof -
  let ?h = "put_handle nid ob tok t" and ?b = "put_base nid ob tok t"
  have p: "present (fold (link ?h) ps ?b) ?h" using put_base_present[OF assms(1)] by simp
  have "obj_of (snd (put now nid ob tok ps t)) c = obj_of ?b c"
    by (simp add: put_eq[OF assms(1,2)] obj_of_grant[OF p])
  also have "obj_of ?b c = (if c = ?h then Some ob else obj_of t c)"
  proof (cases "handle_for t (key_of tok) ob")
    case (Some h)
    then have "names t h (key_of tok) ob" using assms(1) by (simp add: core_inv_def index_ok_def)
    then show ?thesis using Some
      by (auto simp: put_base_def put_handle_def obj_of_def names_def split: option.splits)
  qed (simp add: put_base_def put_handle_def add_entry_def obj_of_def new_entry_def)
  finally show ?thesis .
qed

text \<open>Only a put adds an entry.\<close>

definition puts :: "table_op \<Rightarrow> bool" where
  "puts x \<longleftrightarrow> (case x of Put now nid ob tok ps \<Rightarrow> True | _ \<Rightarrow> False)"

lemma run_op_same_obj:
  assumes "table_inv t" "present (run_op x t) h" "\<not> puts x" "admissible x t"
  shows "obj_of (run_op x t) h = obj_of t h"
proof (cases x)
  case (Put now nid ob tok ps)
  then show ?thesis using assms(3) by (simp add: puts_def)
next
  case (Unbind tok cid)
  then show ?thesis by (cases rule: unbind_cases[of tok cid t]) simp_all
next
  case (Touch now tok g)
  show ?thesis
  proof (cases "present t g")
    case True
    have p: "present (conn_for now (key_of tok) t) g" using True by simp
    from True show ?thesis unfolding Touch
      by (cases rule: touch_cases[where tok = tok and now = now]) (auto simp: obj_of_grant[OF p])
  qed (simp add: Touch touch_def present_def)
next
  case (Release now tok g n)
  let ?k = "key_of tok"
  consider "dict_get (connections t) ?k = None"
    | "dict_get (connections t) ?k \<noteq> None" "conn_lease t ?k g < n" | "n \<le> conn_lease t ?k g"
    by force
  then show ?thesis
  proof cases
    case 3
    then show ?thesis
      using Release assms(1,2,4) obj_of_reap[of "bump g (- n) (take_lease ?k g n (see now ?k t))" "[g]" "[]"]
      by (simp add: release_eq table_invD shrinks_def del: reap.simps)
  qed (use Release in \<open>simp_all add: release_unbound release_short\<close>)
next
  case (Share now a b g mode)
  show ?thesis
  proof (cases "share_goes t a b g")
    case True
    then show ?thesis
      using Share assms(1) by (cases mode) (simp_all add: share_goes_def share_eq table_invD share_take_def)
  next
    case False
    then show ?thesis using share_stays[OF False, of now mode] Share by auto
  qed
next
  case (Detach now tok ho)
  have s: "core_inv (see now (key_of tok) t)" using assms(1) by (intro see_inv table_invD)
  show ?thesis unfolding Detach
    by (cases "dict_get (connections t) (key_of tok) = None")
       (simp_all add: detach_unbound detach_eq Let_def obj_of_def detach_loop_effect(2)[OF s])
next
  case (Sweep now)
  then show ?thesis using sweep_shrinks[of t now] assms(2) by (simp add: shrinks_def)
next
  case Close
  have "obj_of (emptied t) = obj_of t"
    by (simp add: fun_eq_iff obj_of_def ent_emptied option.map_comp comp_def)
  then show ?thesis
    using Close assms(2) obj_of_reap[of "emptied t"] by (simp add: close_eq shrinks_def)
next
  case (Bind now nid claim)
  have "obj_of (bind_base now tok t) = obj_of t" for tok
    using bind_base_effect(14)[OF table_invD(1)[OF assms(1)]] by (rule obj_of_entries)
  then show ?thesis by (simp add: Bind bind_eq Let_def)
qed (simp add: alive_def Let_def)

lemma run_op_new:
  assumes "table_inv t" "admissible x t" "present (run_op x t) h"
  shows "present t h \<or> (\<exists>now ob tok ps. x = Put now h ob tok ps)"
proof (cases x)
  case (Put now nid ob tok ps)
  note c = table_invD(1)[OF assms(1)]
  show ?thesis
  proof (cases "\<forall>p\<in>set ps. present t p")
    case True
    have "present t h \<or> h = put_handle nid ob tok t"
      using put_obj[OF c True, of nid now ob tok h] assms(2,3) Put obj_of_present[of t h]
        obj_of_present[of "run_op x t" h] by (auto split: if_splits)
    moreover have "present t (put_handle nid ob tok t) \<or> put_handle nid ob tok t = nid"
    proof (cases "handle_for t (key_of tok) ob")
      case (Some g)
      then have "names t g (key_of tok) ob" using c by (simp add: core_inv_def index_ok_def)
      then show ?thesis using Some by (auto simp: put_handle_def names_def present_def split: option.splits)
    qed (simp add: put_handle_def)
    ultimately show ?thesis using Put by metis
  next
    case False
    then show ?thesis using assms(3) Put by (simp add: put_missing)
  qed
qed (use run_op_same_obj[OF assms(1,3) _ assms(2)] assms(3) obj_of_present[of t h] obj_of_present[of "run_op x t" h] in
  \<open>simp_all add: puts_def\<close>)

lemma run_op_obj:
  assumes "table_inv t" "admissible x t" "present t h" "present (run_op x t) h"
  shows "obj_of (run_op x t) h = obj_of t h"
proof (cases "puts x")
  case False
  then show ?thesis by (rule run_op_same_obj[OF assms(1,4) _ assms(2)])
next
  case True
  then obtain now nid ob tok ps where Put: "x = Put now nid ob tok ps" by (auto simp: puts_def split: table_op.splits)
  note c = table_invD(1)[OF assms(1)]
  show ?thesis
  proof (cases "\<forall>p\<in>set ps. present t p")
    case True
    have "obj_of t h = Some ob" if "h = put_handle nid ob tok t"
    proof (cases "handle_for t (key_of tok) ob")
      case None
      then show ?thesis using that assms(2,3) Put by (simp add: put_handle_def)
    next
      case (Some g)
      then have "names t g (key_of tok) ob" using c by (simp add: core_inv_def index_ok_def)
      then show ?thesis using Some that
        by (auto simp: put_handle_def obj_of_def names_def split: option.splits)
    qed
    then show ?thesis using put_obj[OF c True, of nid now ob tok h] assms(2) Put by simp
  qed (simp add: Put put_missing)
qed

end
