(* ===== verification/Holders.thy ===== *)
theory Holders
  imports Lifecycle_System
begin

text \<open>
  Two specifications the table is held against. \<open>holder_store\<close> is the interface a connection relies
  on: a step another connection takes never takes one of its leases, and a lease keeps its handle
  with its object. \<open>needed\<close> says, from lease counts and producer edges alone, which handles must
  outlive a release: those with a lease, and those something needed was made from.
\<close>

subsection \<open>What a holder relies on\<close>

locale holder_store =
  fixes inv :: "'s \<Rightarrow> bool"
    and ok :: "'op \<Rightarrow> 's \<Rightarrow> bool"
    and step :: "'op \<Rightarrow> 's \<Rightarrow> 's"
    and loses :: "'op \<Rightarrow> 's \<Rightarrow> 'k \<Rightarrow> bool"
    and lease :: "'s \<Rightarrow> 'k \<Rightarrow> 'h \<Rightarrow> int"
    and obj :: "'s \<Rightarrow> 'h \<Rightarrow> 'o option"
  assumes inv_step: "inv s \<Longrightarrow> ok x s \<Longrightarrow> inv (step x s)"
    and keeps: "inv s \<Longrightarrow> ok x s \<Longrightarrow> \<not> loses x s k \<Longrightarrow> lease s k h \<le> lease (step x s) k h"
    and lease_live: "inv s \<Longrightarrow> 0 < lease s k h \<Longrightarrow> obj s h \<noteq> None"
    and same_obj: "inv s \<Longrightarrow> ok x s \<Longrightarrow> obj s h \<noteq> None \<Longrightarrow> obj (step x s) h \<noteq> None \<Longrightarrow>
      obj (step x s) h = obj s h"
begin

text \<open>A schedule no step of which may take a lease of \<open>k\<close>.\<close>

fun others :: "'k \<Rightarrow> 'op list \<Rightarrow> 's \<Rightarrow> bool" where
  "others k [] s = True"
| "others k (x # xs) s = (ok x s \<and> \<not> loses x s k \<and> others k xs (step x s))"

lemma run_inv: "inv s \<Longrightarrow> others k xs s \<Longrightarrow> inv (fold step xs s)"
  by (induction xs arbitrary: s) (auto simp: inv_step)

lemma run_keeps: "inv s \<Longrightarrow> others k xs s \<Longrightarrow> lease s k h \<le> lease (fold step xs s) k h"
proof (induction xs arbitrary: s)
  case (Cons x xs)
  then have "lease s k h \<le> lease (step x s) k h" by (simp add: keeps)
  also have "\<dots> \<le> lease (fold step xs (step x s)) k h"
    using Cons by (simp add: inv_step)
  finally show ?case by simp
qed simp

lemma run_obj:
  "inv s \<Longrightarrow> others k xs s \<Longrightarrow> 0 < lease s k h \<Longrightarrow> obj (fold step xs s) h = obj s h"
proof (induction xs arbitrary: s)
  case (Cons x xs)
  have i: "inv (step x s)" using Cons.prems by (simp add: inv_step)
  have "lease s k h \<le> lease (step x s) k h" using Cons.prems by (simp add: keeps)
  then have l: "0 < lease (step x s) k h" using Cons.prems(3) by linarith
  have "obj (step x s) h = obj s h"
    using Cons.prems lease_live[OF Cons.prems(1,3)] lease_live[OF i l] by (intro same_obj) simp_all
  then show ?case using Cons.IH[OF i _ l] Cons.prems(2) by simp
qed simp

end

text \<open>The same schedule over the table, in the open.\<close>

fun undisturbed :: "token \<Rightarrow> table_op list \<Rightarrow> table \<Rightarrow> bool" where
  "undisturbed k [] t = True"
| "undisturbed k (x # xs) t = (admissible x t \<and> \<not> may_lose x t k \<and> undisturbed k xs (run_op x t))"

interpretation tbl: holder_store table_inv admissible run_op may_lose conn_lease obj_of
proof
  fix t k h x
  show "table_inv t \<Longrightarrow> 0 < conn_lease t k h \<Longrightarrow> obj_of t h \<noteq> None"
    using lease_present[of t k h] by (simp add: table_invD obj_of_present)
  show "table_inv t \<Longrightarrow> admissible x t \<Longrightarrow> obj_of t h \<noteq> None \<Longrightarrow> obj_of (run_op x t) h \<noteq> None \<Longrightarrow>
      obj_of (run_op x t) h = obj_of t h"
    by (simp add: obj_of_present run_op_obj)
qed (simp_all add: run_op_inv run_op_keeps)

lemma undisturbed_others: "undisturbed k xs t = tbl.others k xs t"
  by (induction xs arbitrary: t) simp_all

lemma get_obj_of: "get h t = (case obj_of t h of None \<Rightarrow> Inl KeyError | Some ob \<Rightarrow> Inr ob)"
  by (simp add: get_def obj_of_def split: option.split)

subsection \<open>Which handles are needed\<close>

inductive needed :: "(hid \<Rightarrow> int) \<Rightarrow> (hid \<Rightarrow> hid set) \<Rightarrow> hid \<Rightarrow> bool" for L K where
  counted: "L h \<noteq> 0 \<Longrightarrow> needed L K h"
| made_from: "c \<in> K h \<Longrightarrow> needed L K c \<Longrightarrow> needed L K h"

lemma pinned_needed: "pinned t h \<longleftrightarrow> needed (entry_leases t) (kids t) h"
proof
  assume "pinned t h"
  then show "needed (entry_leases t) (kids t) h"
  proof (induction rule: pinned.induct)
    case (leased h e)
    then show ?case by (intro needed.counted) (simp add: entry_leases_def)
  qed (rule needed.made_from)
next
  assume "needed (entry_leases t) (kids t) h"
  then show "pinned t h"
  proof (induction rule: needed.induct)
    case (counted h)
    then obtain e where "ent t h = Some e" "e_leases e \<noteq> 0"
      by (cases "ent t h") (simp_all add: entry_leases_def)
    then show ?case by (rule pinned.leased)
  qed (rule pinned.producer)
qed

lemma needed_cong: "(\<And>h. L h = L' h) \<Longrightarrow> needed L K = needed L' K"
proof -
  assume "\<And>h. L h = L' h"
  then have "L = L'" by (rule ext)
  then show ?thesis by simp
qed

lemma reap_needed:
  assumes "core_inv t" "free_in t (set todo)"
  shows "needed (entry_leases t) (kids t) h \<Longrightarrow> present (snd (reap todo ds t)) h"
    "acyclic_graph t \<Longrightarrow> present (snd (reap todo ds t)) h \<longleftrightarrow> needed (entry_leases t) (kids t) h"
  using reap_exact[OF assms, of ds h] pinned_present[of "snd (reap todo ds t)" h]
  by (simp_all add: pinned_reap pinned_needed)

lemma acyclic_cong: "kids t' = kids t \<Longrightarrow> acyclic_graph t' = acyclic_graph t"
  by (simp add: acyclic_graph_def edges_def)

lemma release_needed:
  assumes "table_inv t" "0 < n" "n \<le> conn_lease t (key_of tok) h"
  defines "L \<equiv> (\<lambda>x. held_total t x - (if x = h then n else 0))"
  shows "needed L (kids t) c \<Longrightarrow> present (snd (release now tok h n t)) c"
    "acyclic_graph t \<Longrightarrow> present (snd (release now tok h n t)) c \<longleftrightarrow> needed L (kids t) c"
proof -
  let ?k = "key_of tok"
  let ?s = "see now ?k t"
  let ?b = "bump h (- n) (take_lease ?k h n ?s)"
  have s: "table_inv ?s" using assms(1) by (rule table_inv_see)
  have p: "present t h" using assms by (intro lease_present[of t ?k]) (simp_all add: table_invD)
  have core: "core_inv ?b" by (rule release_core) (use s assms in \<open>simp_all add: table_invD\<close>)
  have free: "free_in ?b (set [h])" using bump_free[OF table_invD(3)[OF s]] p by simp
  have L: "entry_leases ?b x = L x" for x
    using balancedD[OF table_invD(1)[OF assms(1)], of x] p
    by (simp add: L_def held_total_def entry_leases_bump)
  have eq: "snd (release now tok h n t) = snd (reap [h] [] ?b)"
    using assms by (simp add: release_eq table_invD del: reap.simps)
  have nd: "needed (entry_leases ?b) (kids ?b) = needed L (kids t)"
    using needed_cong[of "entry_leases ?b" L] L by simp
  show "needed L (kids t) c \<Longrightarrow> present (snd (release now tok h n t)) c"
    unfolding eq using reap_needed(1)[OF core free, of c "[]"] nd by simp
  have "acyclic_graph ?b = acyclic_graph t" by (rule acyclic_cong) simp
  then show "acyclic_graph t \<Longrightarrow> present (snd (release now tok h n t)) c \<longleftrightarrow> needed L (kids t) c"
    unfolding eq using reap_needed(2)[OF core free, of "[]" c] nd by simp
qed

lemma sweep_needed:
  assumes "table_inv t"
  shows "needed (held_total (snd (sweep now t))) (kids t) c \<Longrightarrow> present (snd (sweep now t)) c"
    "acyclic_graph t \<Longrightarrow>
      present (snd (sweep now t)) c \<longleftrightarrow> needed (held_total (snd (sweep now t))) (kids t) c"
proof -
  obtain r t2 where s: "sweep now t = (Inr (fst (reap r [] t2)), snd (reap r [] t2))"
    "core_inv t2" "free_in t2 (set r)" "kids t2 = kids t"
    by (rule sweep_effect[OF assms, of now])
  have L: "held_total (snd (sweep now t)) x = entry_leases t2 x" for x
    using balancedD[OF s(2), of x] s(1) by (simp add: held_total_def conn_total_def escrow_total_def)
  have nd: "needed (held_total (snd (sweep now t))) (kids t) = needed (entry_leases t2) (kids t2)"
    using needed_cong[of "held_total (snd (sweep now t))" "entry_leases t2"] L s(4) by simp
  have eq: "snd (sweep now t) = snd (reap r [] t2)" by (simp only: s(1) snd_conv)
  show "present (snd (sweep now t)) c" if "needed (held_total (snd (sweep now t))) (kids t) c"
    using reap_needed(1)[OF s(2,3), of c "[]"] that unfolding nd by (simp only: eq)
  show "present (snd (sweep now t)) c \<longleftrightarrow> needed (held_total (snd (sweep now t))) (kids t) c"
    if "acyclic_graph t"
    using reap_needed(2)[OF s(2,3), of "[]" c] that acyclic_cong[OF s(4)] unfolding nd by (simp only: eq)
qed

end
