(* ===== verification/Lifecycle_Props.thy ===== *)
theory Lifecycle_Props
  imports Holders
begin

text \<open>
  The properties of the handle table, each with a witness on a table the operations really reach:
  \<open>demo\<close> is the table after two connections made, shared, detached and claimed handles.
\<close>

subsection \<open>A table to evaluate on\<close>

fun allowed :: "table_op list \<Rightarrow> table \<Rightarrow> bool" where
  "allowed [] t = True"
| "allowed (x # xs) t = (admissible x t \<and> allowed xs (run_op x t))"

lemma reachable_fold: "reachable t \<Longrightarrow> allowed xs t \<Longrightarrow> reachable (fold run_op xs t)"
  by (induction xs arbitrary: t) (simp_all add: reachable.step)

definition demo_ops :: "table_op list" where
  "demo_ops =
    [Bind 0 ''c'' None, Put 1 ''h1'' 7 ''c'' [], Put 2 ''h2'' 8 ''c'' [''h1''], Bind 3 ''d'' None,
     Touch 4 ''d'' ''h2'', Share 5 ''c'' ''d'' ''h1'' COPY, Put 6 ''h3'' 9 ''c'' [''h2'', ''h1'']]"

definition demo :: table where
  "demo = fold run_op demo_ops (new_table (Some 120) (Some 300))"

lemma demo_reachable: "reachable demo"
  unfolding demo_def by (rule reachable_fold[OF reachable.init]) code_simp

lemma demo_acyclic: "acyclic_graph demo"
proof -
  have k: "kids demo x = (if x = ''h1'' then {''h2'', ''h3''} else if x = ''h2'' then {''h3''} else {})" for x
  proof -
    have "map (\<lambda>(h, e). (h, e_children e)) (entries demo) =
        [(''h1'', [''h2'', ''h3'']), (''h2'', [''h3'']), (''h3'', [])]" by code_simp
    then obtain a b c where "entries demo = [(''h1'', a), (''h2'', b), (''h3'', c)]"
      "e_children a = [''h2'', ''h3'']" "e_children b = [''h3'']" "e_children c = []"
      by (auto simp: map_eq_Cons_conv)
    then show ?thesis by (auto simp: kids_def)
  qed
  let ?f = "\<lambda>x. if x = ''h1'' then 2 else if x = ''h2'' then 1 else (0 :: nat)"
  have "edges demo \<subseteq> inv_image less_than ?f"
    by (auto simp: edges_def k split: if_splits)
  then have "wf (edges demo)" using wf_subset[OF wf_inv_image[OF wf_less_than]] by blast
  then show ?thesis using wf_acyclic by (simp add: acyclic_graph_def)
qed

subsection \<open>The invariant\<close>

text \<open>C1. However the operations of the table are called, in whatever order and with whatever
  arguments, \<open>HandleTable.audit\<close> finds nothing to complain of: every entry's lease count is what the
  connections and the escrow buckets hold of it, and no entry is left that nothing holds.\<close>

theorem audit_silent: "reachable t \<Longrightarrow> audit_raises t = Inr ()"
  by (simp add: audit_raises_def table_inv_audit reachable_inv)

theorem audit_silent_witness: "reachable demo \<and> audit_raises demo = Inr ()"
  using audit_silent[OF demo_reachable] demo_reachable by simp

text \<open>The audit is exact: on a table with distinct keys and positive lease counts it stays
  silent if and only if the counts balance and every entry has a lease or a child.\<close>

theorem audit_exact:
  "keys_ok t \<Longrightarrow> leases_pos t \<Longrightarrow> audit_raises t = Inr () \<longleftrightarrow>
   (\<forall>h. conn_total t h + escrow_total t h = entry_leases t h) \<and>
   (\<forall>h e. ent t h = Some e \<longrightarrow> e_leases e \<noteq> 0 \<or> e_children e \<noteq> [])"
  using audit_iff[of t] by (auto simp: audit_raises_def balanced_def held_total_def free_in_def)

definition unbalanced :: table where
  "unbalanced = upd_entry ''h1'' (\<lambda>e. e\<lparr>e_leases := e_leases e + 1\<rparr>) demo"

theorem audit_exact_witness: "audit_raises unbalanced = Inl AssertionError \<and>
   \<not> ((\<forall>h. conn_total unbalanced h + escrow_total unbalanced h = entry_leases unbalanced h) \<and>
      (\<forall>h e. ent unbalanced h = Some e \<longrightarrow> e_leases e \<noteq> 0 \<or> e_children e \<noteq> []))"
proof -
  have "keys_ok unbalanced" "leases_pos unbalanced"
    using reachable_inv[OF demo_reachable]
    by (simp_all add: unbalanced_def table_inv_def core_inv_def)
  moreover have "audit_raises unbalanced = Inl AssertionError" by code_simp
  ultimately show ?thesis using audit_exact[of unbalanced] by simp
qed

subsection \<open>Isolation\<close>

text \<open>C5. A lease is never lost to somebody else: while no operation gives up a lease of connection
  \<open>k\<close> (its own release, transfer or detach, a sweep that finds it silent, or the close), a handle
  \<open>k\<close> has a lease on stays in the table, with the same object behind it.\<close>

theorem lease_keeps_object:
  "reachable t \<Longrightarrow> undisturbed k xs t \<Longrightarrow> 0 < conn_lease t k h \<Longrightarrow>
   get h (fold run_op xs t) = get h t \<and> (\<exists>ob. get h t = Inr ob)"
  using tbl.run_obj[of t k xs h] tbl.lease_live[of t k h] reachable_inv[of t]
  by (simp add: undisturbed_others get_obj_of) (auto simp: not_None_eq)

theorem lease_keeps_object_witness:
  "get ''h2'' (fold run_op [Release 9 ''c'' ''h2'' 1, Release 9 ''c'' ''h1'' 1,
     Detach 10 ''c'' None, Sweep 400] (snd (alive 390 ''d'' demo))) = Inr 8"
proof -
  let ?t = "snd (alive 390 ''d'' demo)"
  let ?xs = "[Release 9 ''c'' ''h2'' 1, Release 9 ''c'' ''h1'' 1, Detach 10 ''c'' None, Sweep 400]"
  have "reachable ?t" using reachable.step[OF demo_reachable, of "Alive 390 ''d''"] by simp
  moreover have "undisturbed ''d'' ?xs ?t" by code_simp
  moreover have "0 < conn_lease ?t ''d'' ''h2''" by code_simp
  ultimately have "get ''h2'' (fold run_op ?xs ?t) = get ''h2'' ?t"
    using lease_keeps_object by blast
  also have "\<dots> = Inr 8" by code_simp
  finally show ?thesis .
qed

subsection \<open>Release\<close>

text \<open>C8. A release the connection has the leases for succeeds, takes exactly them, and drops
  nothing that is held: a handle is left if it still has a lease, or if something made from it
  (through any number of producers) has one. Where no handle is, through its producers, made from itself,
  nothing else is left; a cycle of producers, which the operations can build, is never dropped.\<close>

theorem release_drops_exactly:
  assumes "reachable t" "0 < n" "n \<le> conn_lease t (key_of tok) h"
  shows "fst (release now tok h n t) = Inr () \<and>
    (\<forall>k c. conn_lease (snd (release now tok h n t)) k c =
       conn_lease t k c - (if k = key_of tok \<and> c = h then n else 0)) \<and>
    (\<forall>c. needed (\<lambda>x. held_total t x - (if x = h then n else 0)) (kids t) c \<longrightarrow>
       present (snd (release now tok h n t)) c) \<and>
    (acyclic_graph t \<longrightarrow> (\<forall>c. present (snd (release now tok h n t)) c \<longrightarrow>
       needed (\<lambda>x. held_total t x - (if x = h then n else 0)) (kids t) c))"
proof -
  note i = reachable_inv[OF assms(1)]
  have "fst (release now tok h n t) = Inr ()"
    by (simp add: release_eq[OF table_invD(1)[OF i] assms(2,3)])
  moreover have "\<forall>k c. conn_lease (snd (release now tok h n t)) k c =
      conn_lease t k c - (if k = key_of tok \<and> c = h then n else 0)"
    using assms(3) by (simp add: release_lease_counts[OF table_invD(1)[OF i] assms(2)])
  ultimately show ?thesis
    using release_needed[OF i assms(2,3), where now = now] by blast
qed

theorem release_drops_exactly_witness:
  "fst (release 9 ''c'' ''h3'' 1 demo) = Inr () \<and>
   conn_lease (snd (release 9 ''c'' ''h3'' 1 demo)) ''c'' ''h3'' = 0 \<and>
   present (snd (release 9 ''c'' ''h3'' 1 demo)) ''h1''"
proof -
  have k: "key_of ''c'' = ''c''" by code_simp
  have "1 \<le> conn_lease demo (key_of ''c'') ''h3''" by code_simp
  note r = release_drops_exactly[OF demo_reachable zero_less_one this, of 9]
  have "held_total demo ''h1'' = 2" "conn_lease demo ''c'' ''h3'' = 1" by code_simp+
  then have "needed (\<lambda>x. held_total demo x - (if x = ''h3'' then 1 else 0)) (kids demo) ''h1''"
    by (intro needed.counted) simp
  with r \<open>conn_lease demo ''c'' ''h3'' = 1\<close> show ?thesis by (simp add: k)
qed

text \<open>C39. A release of more leases than the connection has is refused, with \<open>ValueError\<close>, or with
  \<open>KeyError\<close> when the connection is not bound, and changes neither a lease nor an entry.\<close>

theorem release_refused:
  "conn_lease t (key_of tok) h < n \<Longrightarrow>
   fst (release now tok h n t) =
     Inl (if dict_get (connections t) (key_of tok) = None then KeyError else ValueError) \<and>
   conn_lease (snd (release now tok h n t)) = conn_lease t \<and>
   entries (snd (release now tok h n t)) = entries t \<and>
   escrow (snd (release now tok h n t)) = escrow t"
  by (cases "dict_get (connections t) (key_of tok) = None")
     (simp_all add: release_unbound release_short fun_eq_iff)

theorem release_refused_witness:
  "fst (release 9 ''d'' ''h3'' 1 demo) = Inl ValueError \<and> fst (release 9 ''x'' ''h3'' 1 demo) = Inl KeyError"
proof -
  have "conn_lease demo (key_of ''d'') ''h3'' < 1" "conn_lease demo (key_of ''x'') ''h3'' < 1"
    "dict_get (connections demo) (key_of ''d'') \<noteq> None" "dict_get (connections demo) (key_of ''x'') = None"
    by code_simp+
  then show ?thesis
    using release_refused[of demo "''d''" "''h3''" 1 9] release_refused[of demo "''x''" "''h3''" 1 9] by simp
qed

subsection \<open>Put and touch\<close>

text \<open>\<open>put\<close> either refuses a missing producer before it changes anything, or answers the handle
  the connection already has for the object (else the new one), which then names the object, has
  one more lease of this connection and of no other, is found for the object again, and hangs under
  every producer given.\<close>

theorem put_spec:
  assumes "reachable t" "\<not> present t nid"
  shows "if \<forall>p\<in>set ps. present t p
    then \<exists>t' h. put now nid ob tok ps t = (Inr h, t') \<and>
      h = (case handle_for t (key_of tok) ob of None \<Rightarrow> nid | Some g \<Rightarrow> g) \<and>
      get h t' = Inr ob \<and> handle_for t' (key_of tok) ob = Some h \<and>
      (\<forall>k c. conn_lease t' k c = conn_lease t k c + (if k = key_of tok \<and> c = h then 1 else 0)) \<and>
      pars t' h = pars t h \<union> set ps
    else put now nid ob tok ps t = (Inl KeyError, t)"
proof (cases "\<forall>p\<in>set ps. present t p")
  case True
  let ?h = "put_handle nid ob tok t" and ?b = "put_base nid ob tok t"
  let ?t' = "snd (put now nid ob tok ps t)"
  note c = table_invD(1)[OF reachable_inv[OF assms(1)]]
  have b: "present ?b ?h" by (rule put_base_present[OF c])
  then have p: "present (fold (link ?h) ps ?b) ?h" by simp
  have e: "put now nid ob tok ps t = (Inr ?h, ?t')" using put_eq[OF c True, of now nid ob tok] by simp
  have o: "obj_of ?t' ?h = Some ob" using put_obj[OF c True assms(2)] by simp
  let ?g = "snd (grant now (key_of tok) ?h 1 (fold (link ?h) ps ?b))"
  have og: "map_option e_obj (ent ?g ?h) = Some ob"
    using o put_eq[OF c True, of now nid ob tok] by (simp add: obj_of_def[symmetric])
  have "handle_for ?t' (key_of tok) ob = Some ?h"
    using put_eq[OF c True, of now nid ob tok] og by (simp add: handle_for_index)
  moreover have "pars ?t' ?h = pars t ?h \<union> set ps"
  proof -
    have "pars ?b = pars t"
      using add_entry_views(1)[OF assms(2)] by (simp add: put_base_def split: option.split)
    then show ?thesis
      using put_eq[OF c True, of now nid ob tok] b by (simp add: grant_views[OF p] pars_link_all)
  qed
  moreover have "\<forall>k x. conn_lease ?t' k x = conn_lease t k x + (if k = key_of tok \<and> x = ?h then 1 else 0)"
    by (simp add: put_lease_counts[OF c True])
  moreover have "get ?h ?t' = Inr ob" by (simp add: get_obj_of o)
  moreover have "?h = (case handle_for t (key_of tok) ob of None \<Rightarrow> nid | Some g \<Rightarrow> g)"
    by (simp add: put_handle_def)
  ultimately have "\<exists>t' h. put now nid ob tok ps t = (Inr h, t') \<and>
      h = (case handle_for t (key_of tok) ob of None \<Rightarrow> nid | Some g \<Rightarrow> g) \<and>
      get h t' = Inr ob \<and> handle_for t' (key_of tok) ob = Some h \<and>
      (\<forall>k c. conn_lease t' k c = conn_lease t k c + (if k = key_of tok \<and> c = h then 1 else 0)) \<and>
      pars t' h = pars t h \<union> set ps"
    using e by blast
  then show ?thesis unfolding if_P[OF True] .
next
  case False
  then show ?thesis unfolding if_not_P[OF False] by (rule put_missing)
qed

theorem put_spec_witness:
  "(\<exists>t'. put 7 ''h9'' 8 ''c'' [''h1''] demo = (Inr ''h2'', t') \<and> conn_lease t' ''c'' ''h2'' = 2) \<and>
   put 7 ''h9'' 8 ''c'' [''zz''] demo = (Inl KeyError, demo)"
proof -
  have n: "\<not> present demo ''h9''" and k: "key_of ''c'' = ''c''"
    and h: "handle_for demo ''c'' 8 = Some ''h2''" and l: "conn_lease demo ''c'' ''h2'' = 1"
    and p: "present demo ''h1''" "\<not> present demo ''zz''"
    by code_simp+
  show ?thesis
    using put_spec[OF demo_reachable n, of "[''h1'']" 7 8 "''c''"]
      put_spec[OF demo_reachable n, of "[''zz'']" 7 8 "''c''"] p
    by (auto simp: k h l)
qed

text \<open>Naming a handle makes the connection a holder once: after a \<open>touch\<close> the connection has a
  lease, a second \<open>touch\<close> grants none and says so, and no other lease changes in either.\<close>

theorem touch_once:
  assumes "present t h"
  shows "\<exists>b t1 t2. touch now tok h t = (Inr b, t1) \<and> touch now' tok h t1 = (Inr False, t2) \<and>
    b = (conn_lease t (key_of tok) h = 0) \<and> conn_lease t1 (key_of tok) h \<noteq> 0 \<and>
    conn_lease t2 = conn_lease t1 \<and>
    (\<forall>k c. k \<noteq> key_of tok \<or> c \<noteq> h \<longrightarrow> conn_lease t1 k c = conn_lease t k c)"
proof -
  let ?t1 = "snd (touch now tok h t)" and ?b = "conn_lease t (key_of tok) h = 0"
  have p: "present (conn_for now (key_of tok) t) h" using assms by simp
  have p1: "present ?t1 h" and r: "touch now tok h t = (Inr ?b, ?t1)"
    using assms
    by (cases rule: touch_cases[where tok = tok and now = now], auto simp: grant_views(7)[OF p])+
  have l: "conn_lease ?t1 (key_of tok) h \<noteq> 0" by (simp add: touch_lease_counts[OF assms])
  have "touch now' tok h ?t1 = (Inr False, conn_for now' (key_of tok) ?t1)"
    using p1 l by (cases rule: touch_cases[where tok = tok and now = now']) simp_all
  moreover have "\<forall>k c. k \<noteq> key_of tok \<or> c \<noteq> h \<longrightarrow> conn_lease ?t1 k c = conn_lease t k c"
    by (auto simp: touch_lease_counts[OF assms])
  ultimately show ?thesis
    using r l by (intro exI[of _ ?b] exI[of _ ?t1] exI[of _ "conn_for now' (key_of tok) ?t1"])
      (simp add: fun_eq_iff)
qed

theorem touch_once_witness:
  "\<exists>t1 t2. touch 7 ''d'' ''h3'' demo = (Inr True, t1) \<and> touch 8 ''d'' ''h3'' t1 = (Inr False, t2)"
proof -
  have "present demo ''h3''" "conn_lease demo (key_of ''d'') ''h3'' = 0" by code_simp+
  then show ?thesis using touch_once[of demo "''h3''" 7 "''d''" 8] by auto
qed

subsection \<open>Share\<close>

text \<open>Sharing never creates or destroys a lease by accident: a share that is refused changes no
  lease and no entry; a transfer takes one lease from the granting connection and gives it to the
  target, the entry's count unchanged; a copy gives the target one and counts one more. The target
  finds the handle for its object.\<close>

theorem share_conserves:
  assumes "reachable t"
  shows "if 1 \<le> conn_lease t (key_of a) h \<and> b \<noteq> key_of a \<and> dict_get (connections t) b \<noteq> None
    then fst (share now a b h mode t) = Inr () \<and>
      conn_lease (snd (share now a b h mode t)) b h = conn_lease t b h + 1 \<and>
      conn_lease (snd (share now a b h mode t)) (key_of a) h =
        conn_lease t (key_of a) h - (if mode = TRANSFER then 1 else 0) \<and>
      entry_leases (snd (share now a b h mode t)) h =
        entry_leases t h + (if mode = COPY then 1 else 0) \<and>
      (\<exists>ob. get h t = Inr ob \<and> handle_for (snd (share now a b h mode t)) b ob = Some h)
    else fst (share now a b h mode t) \<in> {Inl KeyError, Inl ValueError} \<and>
      conn_lease (snd (share now a b h mode t)) = conn_lease t \<and>
      entries (snd (share now a b h mode t)) = entries t"
proof (cases "share_goes t a b h")
  case True
  note c = table_invD(1)[OF reachable_inv[OF assms]]
  have cond: "1 \<le> conn_lease t (key_of a) h" "b \<noteq> key_of a" "dict_get (connections t) b \<noteq> None"
    using True by (simp_all add: share_goes_def)
  let ?g = "give_lease b h 1 (share_take (key_of a) h mode (see now (key_of a) t))"
  note e = share_eq[OF c cond, of now mode]
  have p: "present t h" by (rule lease_present[OF c, of "key_of a"]) (use cond in simp)
  then obtain ob where ob: "obj_of t h = Some ob" using obj_of_present[of t h] by (auto simp: not_None_eq)
  have "obj_of ?g h = Some ob" using ob by (cases mode) (simp_all add: share_take_def)
  then have "handle_for (snd (share now a b h mode t)) b ob = Some h"
    by (simp add: e handle_for_index obj_of_def)
  moreover have "get h t = Inr ob" by (simp add: get_obj_of ob)
  moreover have "entry_leases (snd (share now a b h mode t)) h =
      entry_leases t h + (if mode = COPY then 1 else 0)"
    unfolding e snd_conv using p by (cases mode) (simp_all add: share_take_def entry_leases_bump)
  moreover have "conn_lease (snd (share now a b h mode t)) b h = conn_lease t b h + 1"
    "conn_lease (snd (share now a b h mode t)) (key_of a) h =
        conn_lease t (key_of a) h - (if mode = TRANSFER then 1 else 0)"
    using True cond(2) by (simp_all add: share_lease_counts[OF c])
  moreover have "fst (share now a b h mode t) = Inr ()" by (simp add: e)
  ultimately show ?thesis using True unfolding share_goes_def by auto
next
  case False
  have "conn_lease (snd (share now a b h mode t)) = conn_lease t"
    "entries (snd (share now a b h mode t)) = entries t"
    using share_stays[OF False, of now mode] by (auto simp: fun_eq_iff)
  moreover have "fst (share now a b h mode t) \<in> {Inl KeyError, Inl ValueError}"
    using False share_refused[where t = t and a = a and now = now and b = b and h = h and mode = mode]
    by (fastforce simp: share_goes_def)
  ultimately show ?thesis using False unfolding share_goes_def by (simp only: if_False simp_thms)
qed

theorem share_conserves_witness:
  "fst (share 7 ''c'' ''d'' ''h3'' TRANSFER demo) = Inr () \<and>
   conn_lease (snd (share 7 ''c'' ''d'' ''h3'' TRANSFER demo)) ''d'' ''h3'' = 1"
proof -
  have "1 \<le> conn_lease demo (key_of ''c'') ''h3''" "''d'' \<noteq> key_of ''c''"
    "dict_get (connections demo) ''d'' \<noteq> None" "conn_lease demo ''d'' ''h3'' = 0" by code_simp+
  then show ?thesis
    using share_conserves[OF demo_reachable, of "''c''" "''h3''" "''d''" 7 TRANSFER] by simp
qed

subsection \<open>Detach and bind\<close>

text \<open>C34. Detaching everything and binding the same token again is a round trip: no object is lost
  in between, nothing is left in escrow, and the connection has every lease it had, with those
  already in its bucket; no other connection's lease moves.\<close>

theorem detach_bind_roundtrip:
  assumes "reachable t" "tok \<noteq> []"
  shows "let t1 = snd (detach now tok None t); t2 = snd (bind now' nid (Some tok) t1) in
    (\<forall>h. conn_lease t1 tok h = 0 \<and> escrow_lease t1 tok h = conn_lease t tok h + escrow_lease t tok h) \<and>
    (\<forall>h. conn_lease t2 tok h = conn_lease t tok h + escrow_lease t tok h) \<and>
    (\<forall>k h. k \<noteq> tok \<longrightarrow> conn_lease t2 k h = conn_lease t k h) \<and>
    dict_get (escrow t2) tok = None \<and>
    (\<forall>h. present t2 h = present t h \<and> entry_leases t2 h = entry_leases t h)"
proof -
  let ?t1 = "snd (detach now tok None t)"
  let ?t2 = "snd (bind now' nid (Some tok) ?t1)"
  note c = table_invD(1)[OF reachable_inv[OF assms(1)]]
  have k: "key_of tok = tok" using assms(2) by (simp add: key_of_def)
  have b: "bind_token nid (Some tok) = tok" using assms(2) by (simp add: bind_token_def)
  have tg: "h \<in> set (detach_targets tok None (see now tok t))" if "conn_lease t tok h \<noteq> 0" for h
  proof -
    have "conn_lease (see now tok t) tok h \<noteq> 0" using that by simp
    then obtain cn where cn: "dict_get (connections (see now tok t)) tok = Some cn"
      "dict_default (c_leases cn) h 0 \<noteq> 0"
      by (auto simp: conn_lease_def split: option.splits)
    then obtain n where "dict_get (c_leases cn) h = Some n"
      by (cases "dict_get (c_leases cn) h") simp_all
    then have "h \<in> set (dict_keys (c_leases cn))" unfolding dict_keys_get by blast
    then show ?thesis by (simp add: detach_targets_def cn)
  qed
  have d: "conn_lease ?t1 tok h = 0" "escrow_lease ?t1 tok h = escrow_lease t tok h + conn_lease t tok h"
    "x \<noteq> tok \<Longrightarrow> conn_lease ?t1 x h = conn_lease t x h" for h x
    using detach_lease_counts[OF c, of now tok None] tg[of h] by (auto simp: k)
  have i1: "core_inv ?t1" using detach_inv[OF reachable_inv[OF assms(1)]] by (rule table_invD)
  have e1: "entries ?t1 = entries t"
    using detach_loop_effect(2)[OF see_inv[OF c]]
    by (cases "dict_get (connections t) (key_of tok) = None")
       (simp_all add: detach_unbound detach_eq Let_def)
  note bb = bind_base_effect[OF i1, of now' tok]
  have "conn_lease ?t2 x h = conn_lease ?t1 x h + (if x = tok then escrow_lease ?t1 x h else 0)" for x h
    using bind_lease_counts[OF i1, of now' nid "Some tok" x h] by (simp add: b)
  moreover have "dict_get (escrow ?t2) tok = None"
    by (simp add: bind_eq b Let_def claim_leases_effect(1)[OF bb(1)] bb(13))
  moreover have "entry_leases ?t2 = entry_leases t"
    by (simp add: bind_eq b Let_def claim_leases_effect(5)[OF bb(1)] bb(7) views_entries(4)[OF e1])
  moreover have "present ?t2 h = present t h" for h
    by (simp add: bind_eq b Let_def claim_leases_effect(6)[OF bb(1)])
       (simp add: present_def bb(14) e1)
  ultimately show ?thesis unfolding Let_def by (simp add: d)
qed

theorem detach_bind_roundtrip_witness:
  "conn_lease (snd (bind 20 ''n'' (Some ''c'') (snd (detach 10 ''c'' None demo)))) ''c'' ''h3'' = 1"
proof -
  have "conn_lease demo ''c'' ''h3'' = 1" "escrow_lease demo ''c'' ''h3'' = 0" by code_simp+
  then show ?thesis
    using detach_bind_roundtrip[OF demo_reachable, of "''c''" 10 20 "''n''"] by (simp add: Let_def)
qed

subsection \<open>Sweep and close\<close>

text \<open>C13. A sweep never raises, ends exactly the connections silent past the TTL and the escrow
  buckets unclaimed past theirs, keeps every other one as it was, drops no handle the remaining
  holders need, each dropped one once and after what was made from it; where no handle is, through its
  producers, made from itself, it leaves none but those.\<close>

theorem sweep_exact:
  assumes "reachable t"
  shows "\<exists>ds t'. sweep now t = (Inr ds, t') \<and>
    (\<forall>k. dict_get (connections t') k = (case dict_get (connections t) k of None \<Rightarrow> None
       | Some c \<Rightarrow> if conn_expired now t c then None else Some c)) \<and>
    (\<forall>k. dict_get (escrow t') k = (if escrow_expired now t k then None else dict_get (escrow t) k)) \<and>
    (\<forall>c. needed (held_total t') (kids t) c \<longrightarrow> present t' c) \<and>
    (acyclic_graph t \<longrightarrow> (\<forall>c. present t' c \<longrightarrow> needed (held_total t') (kids t) c)) \<and>
    distinct ds \<and> set ds = {c. present t c \<and> \<not> present t' c} \<and> sorted_wrt (\<lambda>a b. b \<notin> kids t a) ds"
proof -
  note i = reachable_inv[OF assms]
  obtain r t2 where s: "sweep now t = (Inr (fst (reap r [] t2)), snd (reap r [] t2))"
    "pars t2 = pars t" "kids t2 = kids t" "\<And>h. present t2 h = present t h"
    and cn: "\<And>k. dict_get (connections t2) k = (case dict_get (connections t) k of None \<Rightarrow> None
       | Some c \<Rightarrow> if conn_expired now t c then None else Some c)"
      "\<And>k. dict_get (escrow t2) k = (if escrow_expired now t k then None else dict_get (escrow t) k)"
    by (rule sweep_effect[OF i, of now]) (rule that)
  define t' where "t' = snd (reap r [] t2)"
  define ds where "ds = fst (reap r [] t2)"
  have e: "sweep now t = (Inr ds, t')" by (simp add: s(1) ds_def t'_def)
  have "distinct ds \<and> set ds = {c. present t c \<and> \<not> present t' c} \<and> sorted_wrt (\<lambda>a b. b \<notin> kids t a) ds"
    using reap_drops[of r "[]" t2] by (auto simp: ds_def t'_def s(3,4))
  moreover have "connections t' = connections t2" "escrow t' = escrow t2" by (simp_all add: t'_def)
  ultimately show ?thesis
    using sweep_needed[OF i, of now] cn by (intro exI[of _ ds] exI[of _ t']) (simp add: e)
qed

theorem sweep_exact_witness:
  "acyclic_graph demo \<and> (\<exists>ds t'. sweep 125 demo = (Inr ds, t') \<and>
     dict_get (connections t') ''d'' = None \<and> dict_get (connections t') ''c'' \<noteq> None \<and>
     (\<forall>c. present t' c \<longrightarrow> needed (held_total t') (kids demo) c))"
proof -
  obtain ds t' where r: "sweep 125 demo = (Inr ds, t')"
    "\<forall>k. dict_get (connections t') k = (case dict_get (connections demo) k of None \<Rightarrow> None
       | Some c \<Rightarrow> if conn_expired 125 demo c then None else Some c)"
    "\<forall>c. present t' c \<longrightarrow> needed (held_total t') (kids demo) c"
    using sweep_exact[OF demo_reachable, of 125] demo_acyclic by blast
  moreover have "(case dict_get (connections demo) ''d'' of None \<Rightarrow> None
       | Some c \<Rightarrow> if conn_expired 125 demo c then None else Some c) = None"
    "(case dict_get (connections demo) ''c'' of None \<Rightarrow> None
       | Some c \<Rightarrow> if conn_expired 125 demo c then None else Some c) \<noteq> None"
    by code_simp+
  ultimately show ?thesis using demo_acyclic by auto
qed

text \<open>\<open>close\<close> releases every lease, held or escrowed, and on an acyclic producer graph drops
  every entry, each once, no child after its parent, calling \<open>on_drop\<close> with the objects in that
  order.\<close>

theorem close_drops_all:
  assumes "reachable t" "acyclic_graph t" "on_drop t"
  shows "entries (snd (close t)) = [] \<and> connections (snd (close t)) = [] \<and>
    escrow (snd (close t)) = [] \<and> distinct (fst (close t)) \<and>
    set (fst (close t)) = {h. present t h} \<and> sorted_wrt (\<lambda>a b. b \<notin> kids t a) (fst (close t)) \<and>
    on_drop_calls (snd (close t)) =
      on_drop_calls t @ map (\<lambda>h. e_obj (the (ent t h))) (fst (close t))"
proof -
  note i = reachable_inv[OF assms(1)]
  have gone: "entries (snd (close t)) = []" by (rule close_all_gone[OF i assms(2)])
  have g: "graph_ok (emptied t)" using emptied_core[OF table_invD(1)[OF i]] by (rule core_invD)
  obtain ds where ds: "fst (close t) = ds" "distinct ds"
    "set ds = {h. present (emptied t) h \<and> \<not> present (snd (close t)) h}"
    "sorted_wrt (\<lambda>a b. b \<notin> kids (emptied t) a) ds"
    "on_drop_calls (snd (close t)) = on_drop_calls (emptied t) @
       (if on_drop (emptied t) then map (\<lambda>h. e_obj (the (ent (emptied t) h))) ds else [])"
    using reap_drops[of "rev (dict_keys (entries t))" "[]" "emptied t"] g unfolding close_eq by auto
  have o: "map (\<lambda>h. e_obj (the (ent (emptied t) h))) ds = map (\<lambda>h. e_obj (the (ent t h))) ds"
  proof (rule map_cong[OF refl])
    fix h assume "h \<in> set ds"
    then have "present t h" using ds(3) by simp
    then show "e_obj (the (ent (emptied t) h)) = e_obj (the (ent t h))"
      by (auto simp: ent_emptied present_def not_None_eq)
  qed
  have ap: "\<not> present (snd (close t)) h" for h by (simp add: present_def gone)
  show ?thesis using gone close_frame[of t] ds o ap assms(3) by simp
qed

theorem close_drops_all_witness:
  "let t = demo\<lparr>on_drop := True\<rparr> in acyclic_graph t \<and> on_drop t \<and> entries (snd (close t)) = [] \<and>
     on_drop_calls (snd (close t)) = [9, 8, 7]"
proof -
  let ?t = "demo\<lparr>on_drop := True\<rparr>"
  have r: "reachable ?t" using demo_reachable by (rule reachable.callback)
  have "kids ?t = kids demo" by (rule views_entries) simp
  from acyclic_cong[OF this] have a: "acyclic_graph ?t" using demo_acyclic by blast
  have "fst (close ?t) = [''h3'', ''h2'', ''h1'']" by code_simp
  moreover have "on_drop_calls ?t @ map (\<lambda>h. e_obj (the (ent ?t h))) [''h3'', ''h2'', ''h1''] = [9, 8, 7]"
    by code_simp
  moreover have o: "on_drop ?t" by simp
  note c = close_drops_all[OF r a o]
  have "entries (snd (close ?t)) = []" "on_drop_calls (snd (close ?t)) =
      on_drop_calls ?t @ map (\<lambda>h. e_obj (the (ent ?t h))) (fst (close ?t))"
    using c by blast+
  ultimately show ?thesis using a o unfolding Let_def by metis
qed

text \<open>The close reaches only what reaping can free. Two puts that make each handle a producer of
  the other leave a cycle that neither the holder's releases nor \<open>close\<close> drops: the entries stay,
  held by nothing but each other.\<close>

theorem close_leaves_cycle:
  "let t = fold run_op [Put 0 ''a'' 1 ''c'' [], Put 1 ''b'' 2 ''c'' [''a''], Put 2 ''x'' 1 ''c'' [''b''],
       Release 3 ''c'' ''a'' 2, Release 4 ''c'' ''b'' 1] (new_table None None) in
   reachable t \<and> conn_lease t ''c'' ''a'' = 0 \<and> conn_lease t ''c'' ''b'' = 0 \<and>
   fst (close t) = [] \<and> map fst (entries (snd (close t))) = [''a'', ''b'']"
proof -
  let ?xs = "[Put 0 ''a'' 1 ''c'' [], Put 1 ''b'' 2 ''c'' [''a''], Put 2 ''x'' 1 ''c'' [''b''],
       Release 3 ''c'' ''a'' 2, Release 4 ''c'' ''b'' 1]"
  let ?t = "fold run_op ?xs (new_table None None)"
  have "allowed ?xs (new_table None None)" by code_simp
  then have "reachable ?t" by (rule reachable_fold[OF reachable.init])
  moreover have "conn_lease ?t ''c'' ''a'' = 0" "conn_lease ?t ''c'' ''b'' = 0" "fst (close ?t) = []"
    "map fst (entries (snd (close ?t))) = [''a'', ''b'']" by code_simp+
  ultimately show ?thesis unfolding Let_def by simp
qed

end
