(* ===== verification/Effects.thy ===== *)
theory Effects
  imports Prelude
begin

text \<open>
  Code that may raise and that changes state: a computation takes the state and answers its result
  or its exception with the state it leaves. \<open>bind_eff\<close> stops at the first exception and keeps the
  state reached, as a Python statement sequence does; \<open>map_eff\<close> is a comprehension over a list, in
  order.
\<close>

type_synonym ('s, 'a) eff = "'s \<Rightarrow> (exn + 'a) \<times> 's"

definition ret :: "'a \<Rightarrow> ('s, 'a) eff" where
  "ret a = (\<lambda>s. (Inr a, s))"

definition raise :: "exn \<Rightarrow> ('s, 'a) eff" where
  "raise e = (\<lambda>s. (Inl e, s))"

definition bind_eff :: "('s, 'a) eff \<Rightarrow> ('a \<Rightarrow> ('s, 'b) eff) \<Rightarrow> ('s, 'b) eff" where
  "bind_eff m f = (\<lambda>s. case m s of (Inl e, s') \<Rightarrow> (Inl e, s') | (Inr a, s') \<Rightarrow> f a s')"

definition lift_res :: "exn + 'a \<Rightarrow> ('s, 'a) eff" where
  "lift_res r = (\<lambda>s. (r, s))"

fun map_eff :: "('a \<Rightarrow> ('s, 'b) eff) \<Rightarrow> 'a list \<Rightarrow> ('s, 'b list) eff" where
  "map_eff f [] = ret []"
| "map_eff f (x # xs) = bind_eff (f x) (\<lambda>y. bind_eff (map_eff f xs) (\<lambda>ys. ret (y # ys)))"

text \<open>A comprehension over the items of a dict, the keys passed through.\<close>

definition map_items :: "('v \<Rightarrow> ('s, 'w) eff) \<Rightarrow> ('k \<times> 'v) list \<Rightarrow> ('s, ('k \<times> 'w) list) eff" where
  "map_items f = map_eff (\<lambda>p. bind_eff (f (snd p)) (\<lambda>y. ret (fst p, y)))"

lemma ret_apply: "ret a s = (Inr a, s)"
  by (simp add: ret_def)

lemma raise_apply: "raise e s = (Inl e, s)"
  by (simp add: raise_def)

lemma lift_res_apply: "lift_res r s = (r, s)"
  by (simp add: lift_res_def)

text \<open>As equations on the answer: a rewrite of the computation itself would contract to a pair.\<close>

lemma eff_eq_iff [simp]:
  "ret a s = (r, s') \<longleftrightarrow> r = Inr a \<and> s' = s" "raise e s = (r', s') \<longleftrightarrow> r' = Inl e \<and> s' = s"
  "lift_res q s = (q', s') \<longleftrightarrow> q' = q \<and> s' = s"
  by (auto simp: ret_def raise_def lift_res_def)

lemma eff_proj [simp]:
  "fst (ret a s) = Inr a" "snd (ret a s) = s" "fst (raise e s) = Inl e" "snd (raise e s) = s"
  "fst (lift_res q s) = q" "snd (lift_res q s) = s"
  by (simp_all add: ret_def raise_def lift_res_def)

lemma bind_eff_Inr [simp]: "m s = (Inr a, s') \<Longrightarrow> bind_eff m f s = f a s'"
  by (simp add: bind_eff_def)

lemma bind_eff_Inl [simp]: "m s = (Inl e, s') \<Longrightarrow> bind_eff m f s = (Inl e, s')"
  by (simp add: bind_eff_def)

lemma bind_eff_ret [simp]: "bind_eff (ret a) f = f a"
  by (simp add: bind_eff_def ret_def fun_eq_iff)

lemma bind_eff_raise [simp]: "bind_eff (raise e) f = raise e"
  by (simp add: bind_eff_def raise_def fun_eq_iff)

lemma lift_res_simps [simp]: "lift_res (Inr a) = ret a" "lift_res (Inl e) = raise e"
  by (simp_all add: lift_res_def ret_def raise_def fun_eq_iff)

lemma bind_eff_cases:
  obtains (raised) e s' where "m s = (Inl e, s')" "bind_eff m f s = (Inl e, s')"
  | (done_with) a s' where "m s = (Inr a, s')" "bind_eff m f s = f a s'"
proof (cases "m s")
  case (Pair r s')
  then show ?thesis by (cases r) (simp_all add: that)
qed

lemma bind_eff_Inr_iff:
  "bind_eff m f s = (Inr b, s2) \<longleftrightarrow> (\<exists>a s1. m s = (Inr a, s1) \<and> f a s1 = (Inr b, s2))"
  by (cases rule: bind_eff_cases[of m s f]) auto

lemma bind_eff_cong [fundef_cong]:
  "m = m' \<Longrightarrow> (\<And>a. f a = f' a) \<Longrightarrow> bind_eff m f = bind_eff m' f'"
  by presburger

lemma map_eff_cong [fundef_cong]:
  "xs = ys \<Longrightarrow> (\<And>x. x \<in> set ys \<Longrightarrow> f x = g x) \<Longrightarrow> map_eff f xs = map_eff g ys"
proof -
  assume "xs = ys" "\<And>x. x \<in> set ys \<Longrightarrow> f x = g x"
  moreover have "\<forall>x\<in>set ys. f x = g x \<Longrightarrow> map_eff f ys = map_eff g ys" by (induction ys) simp_all
  ultimately show ?thesis by simp
qed

lemma map_items_cong [fundef_cong]:
  "xs = ys \<Longrightarrow> (\<And>k v. (k, v) \<in> set ys \<Longrightarrow> f v = g v) \<Longrightarrow> map_items f xs = map_items g ys"
  unfolding map_items_def by (intro map_eff_cong) auto

text \<open>A loop whose every step leaves the state alone.\<close>

lemma map_eff_pure:
  "list_all2 (\<lambda>x y. f x s = (Inr y, s)) xs ys \<Longrightarrow> map_eff f xs s = (Inr ys, s)"
  by (induction rule: list_all2_induct) simp_all

lemma map_eff_Inr_length: "map_eff f xs s = (Inr ys, s') \<Longrightarrow> length ys = length xs"
  by (induction xs arbitrary: s ys) (auto simp: bind_eff_Inr_iff)

lemma map_items_pure:
  fixes f :: "'v \<Rightarrow> ('s, 'w) eff" and xs :: "('k \<times> 'v) list"
  shows "list_all2 (\<lambda>p q. fst q = fst p \<and> f (snd p) s = (Inr (snd q), s)) xs ys \<Longrightarrow>
   map_items f xs s = (Inr ys, s)"
  unfolding map_items_def
proof (rule map_eff_pure, erule list_all2_mono)
  fix p :: "'k \<times> 'v" and q :: "'k \<times> 'w"
  assume "fst q = fst p \<and> f (snd p) s = (Inr (snd q), s)"
  then show "bind_eff (f (snd p)) (\<lambda>y. ret (fst p, y)) s = (Inr q, s)"
    by (cases q) simp
qed

text \<open>What the steps of a loop do one after another: each takes the state the one before left.\<close>

inductive chain :: "('s \<Rightarrow> 'a \<Rightarrow> 's \<Rightarrow> bool) \<Rightarrow> 's \<Rightarrow> 'a list \<Rightarrow> 's \<Rightarrow> bool" for R where
  nil: "chain R s [] s"
| cons: "R s y s1 \<Longrightarrow> chain R s1 ys s2 \<Longrightarrow> chain R s (y # ys) s2"

lemma map_eff_chain:
  assumes "map_eff f xs s = (Inr ys, s')"
    "\<And>x t y t'. x \<in> set xs \<Longrightarrow> f x t = (Inr y, t') \<Longrightarrow> R t y t'"
  shows "chain R s ys s'"
  using assms
proof (induction xs arbitrary: s ys)
  case Nil
  then show ?case by (auto intro: chain.nil)
next
  case (Cons x xs)
  from Cons.prems(1) obtain y s1 zs where st: "f x s = (Inr y, s1)" "map_eff f xs s1 = (Inr zs, s')" "ys = y # zs"
    by (auto simp: bind_eff_Inr_iff)
  have "chain R s1 zs s'" by (rule Cons.IH[OF st(2)]) (rule Cons.prems(2), simp_all)
  with Cons.prems(2)[OF _ st(1)] st(3) show ?case by (auto intro: chain.cons)
qed

lemma chain_mono: "chain R s ys s' \<Longrightarrow> (\<And>t y t'. R t y t' \<Longrightarrow> Q t y t') \<Longrightarrow> chain Q s ys s'"
  by (induction rule: chain.induct) (auto intro: chain.intros)

text \<open>What holds of the answer and the state left, when nothing is raised; the rules that step through a
  computation with it.\<close>

definition gives :: "('s, 'a) eff \<Rightarrow> 's \<Rightarrow> ('a \<Rightarrow> 's \<Rightarrow> bool) \<Rightarrow> bool" where
  "gives m s Q \<longleftrightarrow> (\<forall>a t. m s = (Inr a, t) \<longrightarrow> Q a t)"

named_theorems gives_rules \<open>rules for the answer of a computation\<close>

lemma gives_ret [gives_rules]: "Q a s \<Longrightarrow> gives (ret a) s Q"
  by (simp add: gives_def)

lemma gives_raise [gives_rules]: "gives (raise e) s Q"
  by (simp add: gives_def)

lemma gives_bind: "gives m s (\<lambda>a t. gives (f a) t Q) \<Longrightarrow> gives (bind_eff m f) s Q"
  by (auto simp: gives_def bind_eff_Inr_iff)

lemma gives_if [gives_rules]: "(b \<Longrightarrow> gives m s Q) \<Longrightarrow> (\<not> b \<Longrightarrow> gives n s Q) \<Longrightarrow> gives (if b then m else n) s Q"
  by simp

lemma gives_weaken: "gives m s P \<Longrightarrow> (\<And>a t. P a t \<Longrightarrow> Q a t) \<Longrightarrow> gives m s Q"
  by (simp add: gives_def)

lemma givesD: "gives m s Q \<Longrightarrow> m s = (Inr a, t) \<Longrightarrow> Q a t"
  by (simp add: gives_def)

lemma givesI: "(\<And>a t. m s = (Inr a, t) \<Longrightarrow> Q a t) \<Longrightarrow> gives m s Q"
  by (simp add: gives_def)

lemma gives_map_eff:
  assumes "\<And>x t. x \<in> set xs \<Longrightarrow> gives (f x) t (\<lambda>y. R t y)"
  shows "gives (map_eff f xs) s (\<lambda>ys t. chain R s ys t)"
  by (rule givesI, erule map_eff_chain) (use assms in \<open>simp add: gives_def\<close>)

end
