(* ===== verification/Values.thy ===== *)
theory Values
  imports Effects
begin

text \<open>
  The values the codec moves: \<open>pyval\<close> is a Python object above the wire, \<open>mp\<close> what msgpack carries
  natively, \<open>wire\<close> the declared type of \<open>_callspec.py\<close> and \<open>SPELLED\<close> of \<open>_wiretypes.py\<close>. A Python
  float is its 64 bit pattern, since the codec only copies one or makes one of an int; a
  \<open>timedelta\<close> is its whole microseconds and a \<open>Path\<close> its text.

  The bound classes (\<open>huggorm_bindings\<close>, built from C++) are not in the repository: they are the
  record \<open>bindings\<close>, an argument of everything that uses them.
\<close>

subsection \<open>Python values and msgpack values\<close>

type_synonym flt = nat
type_synonym objref = nat

datatype pykey = KStr string | KBytes "nat list" | KOther nat

datatype pyval =
    PNone
  | PBool bool
  | PInt int
  | PFloat flt
  | PStr string
  | PBytes "nat list"
  | PTimedelta int
  | PPath string
  | PEnum string string \<comment> \<open>the member of a \<open>StrEnum\<close> class with this value\<close>
  | PObj objref
  | PList "pyval list"
  | PTuple "pyval list"
  | PDict "(pykey \<times> pyval) list"

datatype mp =
    MNil
  | MBool bool
  | MInt int
  | MFloat flt
  | MStr string
  | MBin "nat list"
  | MList "mp list"
  | MMap "(pykey \<times> mp) list"

fun py_of_key :: "pykey \<Rightarrow> pyval" where
  "py_of_key (KStr s) = PStr s"
| "py_of_key (KBytes b) = PBytes b"
| "py_of_key (KOther n) = PObj n"

text \<open>What \<open>for v in value\<close> goes through.\<close>

fun iter_of :: "pyval \<Rightarrow> exn + pyval list" where
  "iter_of (PList vs) = Inr vs"
| "iter_of (PTuple vs) = Inr vs"
| "iter_of (PStr s) = Inr (map (\<lambda>c. PStr [c]) s)"
| "iter_of (PEnum c s) = Inr (map (\<lambda>c. PStr [c]) s)"
| "iter_of (PBytes b) = Inr (map (\<lambda>n. PInt (int n)) b)"
| "iter_of (PDict kvs) = Inr (map (py_of_key \<circ> fst) kvs)"
| "iter_of _ = Inl TypeError"

fun items_of :: "pyval \<Rightarrow> exn + (pykey \<times> pyval) list" where
  "items_of (PDict kvs) = Inr kvs"
| "items_of _ = Inl (Raised ''AttributeError'')"

fun truth :: "pyval \<Rightarrow> bool" where
  "truth PNone = False"
| "truth (PBool b) = b"
| "truth (PInt i) = (i \<noteq> 0)"
| "truth (PFloat f) = (f \<noteq> 0 \<and> f \<noteq> 2 ^ 63)"
| "truth (PStr s) = (s \<noteq> [])"
| "truth (PBytes b) = (b \<noteq> [])"
| "truth (PTimedelta t) = (t \<noteq> 0)"
| "truth (PEnum c s) = (s \<noteq> [])"
| "truth (PList vs) = (vs \<noteq> [])"
| "truth (PTuple vs) = (vs \<noteq> [])"
| "truth (PDict kvs) = (kvs \<noteq> [])"
| "truth _ = True"

subsection \<open>An int as a float\<close>

function bit_length :: "nat \<Rightarrow> nat" where
  "bit_length n = (if n = 0 then 0 else Suc (bit_length (n div 2)))"
  by pat_completeness auto
termination by (relation "measure id") auto

declare bit_length.simps [simp del]

text \<open>\<open>float(i)\<close>: 53 significant bits, round half to even, the pattern of IEEE 754 binary64. A carry
  out of the fraction goes into the exponent.\<close>

definition float_of_int :: "int \<Rightarrow> exn + flt" where
  "float_of_int i =
     (let a = nat \<bar>i\<bar>; l = bit_length a; sign = (if i < 0 then 2 ^ 63 else 0) in
      if a = 0 then Inr 0
      else let q = (if l \<le> 53 then a * 2 ^ (53 - l)
                    else let d = 2 ^ (l - 53); q0 = a div d; r = a mod d in
                      if 2 * r > d \<or> (2 * r = d \<and> odd q0) then q0 + 1 else q0);
               bits = (l + 1022) * 2 ^ 52 + (q - 2 ^ 52)
           in if bits \<ge> 2047 * 2 ^ 52 then Inl OverflowError else Inr (sign + bits))"

subsection \<open>Paths\<close>

fun split_on :: "char \<Rightarrow> string \<Rightarrow> string list" where
  "split_on d [] = [[]]"
| "split_on d (c # cs) = (if c = d then [] # split_on d cs
     else (case split_on d cs of [] \<Rightarrow> [[c]] | w # ws \<Rightarrow> (c # w) # ws))"

fun join_with :: "string \<Rightarrow> string list \<Rightarrow> string" where
  "join_with d [] = []"
| "join_with d [w] = w"
| "join_with d (w # ws) = w @ d @ join_with d ws"

definition path_root :: "string \<Rightarrow> string" where
  "path_root s = (if take 1 s \<noteq> ''/'' then [] else
     if take 2 s = ''//'' \<and> take 3 s \<noteq> ''///'' then ''//'' else ''/'')"

definition path_parts :: "string \<Rightarrow> string list" where
  "path_parts s = filter (\<lambda>w. w \<noteq> [] \<and> w \<noteq> ''.'') (split_on (CHR ''/'') s)"

text \<open>\<open>str(pathlib.PurePosixPath(s))\<close>: empty and \<open>.\<close> components go, the root stays, and nothing is
  the current directory.\<close>

definition path_norm :: "string \<Rightarrow> string" where
  "path_norm s = (let t = path_root s @ join_with ''/'' (path_parts s) in if t = [] then ''.'' else t)"

subsection \<open>Declared types\<close>

datatype wire_kind = SCALAR | ENUM | VALUE | UNION | ERROR | PROXY | CLIENT | LIST | MAP

datatype wire = Wire (wkind: wire_kind) (wname: string) (witem: "wire option") (woptional: bool)

type_synonym arg = "string \<times> wire"

definition FLAT :: "wire_kind list" where
  "FLAT = [SCALAR, ENUM]"

definition CONTAINER :: "wire_kind list" where
  "CONTAINER = [LIST, MAP]"

definition MAX_UNION_DEPTH :: nat where
  "MAX_UNION_DEPTH = 32"

datatype scalar_type = TStr | TInt | TFloat | TBool | TBytes

definition SCALARS :: "string \<Rightarrow> scalar_type option" where
  "SCALARS = map_of [(''str'', TStr), (''int'', TInt), (''uint'', TInt), (''float'', TFloat),
     (''bool'', TBool), (''bytes'', TBytes)]"

text \<open>\<open>SPELLED\<close>, each by the builtin its \<open>field\<close> names.\<close>

datatype spelled = Timedelta | PathLike

definition SPELLED :: "string \<Rightarrow> spelled option" where
  "SPELLED = map_of [(''datetime.timedelta'', Timedelta), (''pathlib.Path'', PathLike)]"

fun spelled_field :: "spelled \<Rightarrow> scalar_type" where
  "spelled_field Timedelta = TInt"
| "spelled_field PathLike = TStr"

definition day_us :: int where
  "day_us = 86400000000"

definition duration_in :: "int \<Rightarrow> exn + pyval" where
  "duration_in raw = (if \<bar>raw div day_us\<bar> > 999999999 then Inl OverflowError else Inr (PTimedelta raw))"

definition duration_out :: "pyval \<Rightarrow> exn + mp" where
  "duration_out v = (case v of PTimedelta us \<Rightarrow> Inr (MInt us) | _ \<Rightarrow> Inl TypeError)"

definition path_out :: "pyval \<Rightarrow> exn + mp" where
  "path_out v = (case v of PPath s \<Rightarrow> Inr (MStr s) | PStr s \<Rightarrow> Inr (MStr s) | PEnum c s \<Rightarrow> Inr (MStr s)
     | PBytes b \<Rightarrow> Inr (MBin b) | _ \<Rightarrow> Inl TypeError)"

fun spelled_out :: "spelled \<Rightarrow> pyval \<Rightarrow> exn + mp" where
  "spelled_out Timedelta v = duration_out v"
| "spelled_out PathLike v = path_out v"

fun spelled_back :: "spelled \<Rightarrow> mp \<Rightarrow> exn + pyval" where
  "spelled_back Timedelta (MInt i) = duration_in i"
| "spelled_back PathLike (MStr s) = Inr (PPath (path_norm s))"
| "spelled_back _ _ = Inl TypeError"

subsection \<open>The bound classes\<close>

record bindings =
  b_enum :: "string \<Rightarrow> string \<Rightarrow> bool" \<comment> \<open>is this word in the vocabulary of that class\<close>
  b_isinst :: "objref \<Rightarrow> string \<Rightarrow> bool"
  b_sync :: "objref \<Rightarrow> objref" \<comment> \<open>the binding object behind a wrapper\<close>
  b_parts :: "objref \<Rightarrow> pyval list"
  b_make :: "string \<Rightarrow> pyval list \<Rightarrow> exn + objref" \<comment> \<open>\<open>cls._from_parts(*parts)\<close>\<close>
  b_attr :: "objref \<Rightarrow> string \<Rightarrow> exn + pyval"
  b_error :: "string \<Rightarrow> pyval list \<Rightarrow> exn + objref" \<comment> \<open>\<open>kls(*parts)\<close> for a declared exception\<close>
  b_convert :: "string \<Rightarrow> pyval \<Rightarrow> exn + mp" \<comment> \<open>a builtin's conversion of a value of a further type\<close>

record tables =
  t_fields :: "string \<Rightarrow> arg list option"
  t_errors :: "string \<Rightarrow> arg list option"
  t_unions :: "string \<Rightarrow> wire list option"

section \<open>Paths in normal form\<close>

text \<open>
  \<open>path_norm\<close> is idempotent: the text of a path is a path whose text it is, so a path that crossed
  the wire once crosses unchanged ever after.
\<close>

lemma split_on_not_Nil [simp]: "split_on d cs \<noteq> []"
  by (induction cs) (auto split: list.split)

lemma split_on_plain: "d \<notin> set w \<Longrightarrow> split_on d w = [w]"
  by (induction w) auto

lemma split_on_append:
  "d \<notin> set w \<Longrightarrow> split_on d (w @ d # cs) = w # split_on d cs"
  by (induction w) auto

lemma split_on_members: "w \<in> set (split_on d cs) \<Longrightarrow> d \<notin> set w"
proof (induction cs arbitrary: w)
  case (Cons c cs)
  obtain v vs where v: "split_on d cs = v # vs" by (cases "split_on d cs") auto
  with Cons show ?case by (auto split: if_splits)
qed simp

lemma split_on_join:
  "ws \<noteq> [] \<Longrightarrow> \<forall>w\<in>set ws. d \<notin> set w \<Longrightarrow> split_on d (join_with [d] ws) = ws"
proof (induction "[d]" ws rule: join_with.induct)
  case (2 w)
  then show ?case by (simp add: split_on_plain)
next
  case (3 w v ws)
  then show ?case using split_on_append[of d w "join_with [d] (v # ws)"] by simp
qed simp

definition clean :: "string list \<Rightarrow> bool" where
  "clean ws \<longleftrightarrow> (\<forall>w\<in>set ws. w \<noteq> [] \<and> w \<noteq> ''.'' \<and> CHR ''/'' \<notin> set w)"

lemma clean_parts: "clean (path_parts s)"
  by (auto simp: clean_def path_parts_def dest: split_on_members)

lemma join_clean:
  assumes "clean ws"
  shows "take 1 (join_with ''/'' ws) \<noteq> ''/''" "join_with ''/'' ws = [] \<longleftrightarrow> ws = []"
proof -
  have "take 1 (join_with ''/'' ws) \<noteq> ''/'' \<and> (join_with ''/'' ws = [] \<longleftrightarrow> ws = [])"
  proof (cases ws)
    case (Cons w vs)
    then obtain c cs where w: "w = c # cs" "c \<noteq> CHR ''/''"
      using assms by (cases w) (auto simp: clean_def)
    then show ?thesis using Cons by (cases vs) auto
  qed simp
  then show "take 1 (join_with ''/'' ws) \<noteq> ''/''" "join_with ''/'' ws = [] \<longleftrightarrow> ws = []" by blast+
qed

lemma path_root_cases: "path_root s \<in> {[], ''/'', ''//''}"
  by (simp add: path_root_def)

lemma path_parts_rooted:
  assumes "clean ws" "r \<in> {[], ''/'', ''//''}"
  shows "path_parts (r @ join_with ''/'' ws) = ws"
proof -
  have j: "filter (\<lambda>w. w \<noteq> [] \<and> w \<noteq> ''.'') (split_on (CHR ''/'') (join_with ''/'' ws)) = ws"
  proof (cases "ws = []")
    case False
    then show ?thesis
      using split_on_join[of ws "CHR ''/''"] assms(1) by (auto simp: clean_def filter_id_conv)
  qed simp
  show ?thesis using assms(2) j by (auto simp: path_parts_def)
qed

lemma path_root_rooted:
  assumes "take 1 j \<noteq> ''/''" "r \<in> {[], ''/'', ''//''}"
  shows "path_root (r @ j) = r"
  using assms by (cases j) (auto simp: path_root_def)

lemma path_norm_idem: "path_norm (path_norm s) = path_norm s"
proof -
  let ?r = "path_root s" and ?j = "join_with ''/'' (path_parts s)"
  note c = clean_parts[of s]
  have "path_root (?r @ ?j) = ?r" "path_parts (?r @ ?j) = path_parts s"
    using path_root_rooted[OF join_clean(1)[OF c] path_root_cases]
      path_parts_rooted[OF c path_root_cases] by simp_all
  then have "?r @ ?j \<noteq> [] \<Longrightarrow> path_norm (?r @ ?j) = ?r @ ?j"
    by (simp add: path_norm_def Let_def)
  moreover have "path_norm ''.'' = ''.''" by code_simp
  ultimately show ?thesis by (cases "?r @ ?j = []") (simp_all add: path_norm_def[of s] Let_def)
qed

end
