(* ===== verification/Codec.thy ===== *)
theory Codec
  imports Values
begin

text \<open>
  The value codec of \<open>huggorm/codec.py\<close>: \<open>encode\<close> and \<open>decode\<close> by a declared \<open>Wire\<close>, with
  every type check, the union rules and the handle callbacks. The callbacks change the server's
  state (a proxy answer leases a handle), so both run in \<open>eff\<close>. Encoding reads the parts of bound
  objects, which no structure bounds: its first argument is how many nested calls the interpreter
  allows, and running out is \<open>RecursionError\<close>. Decoding walks the received data and ends.
\<close>

subsection \<open>Scalars\<close>

fun scalar_conv :: "bindings \<Rightarrow> scalar_type \<Rightarrow> string \<Rightarrow> pyval \<Rightarrow> exn + mp" where
  "scalar_conv b TStr n (PStr s) = Inr (MStr s)"
| "scalar_conv b TStr n (PEnum c s) = Inr (MStr s)"
| "scalar_conv b TStr n (PPath s) = Inr (MStr s)"
| "scalar_conv b TInt n (PInt i) = Inr (MInt i)"
| "scalar_conv b TInt n (PBool v) = Inr (MInt (if v then 1 else 0))"
| "scalar_conv b TFloat n (PFloat f) = Inr (MFloat f)"
| "scalar_conv b TFloat n (PInt i) = map_sum id MFloat (float_of_int i)"
| "scalar_conv b TFloat n (PBool v) = map_sum id MFloat (float_of_int (if v then 1 else 0))"
| "scalar_conv b TBool n v = Inr (MBool (truth v))"
| "scalar_conv b TBytes n (PBytes w) = Inr (MBin w)"
| "scalar_conv b TBytes n (PInt i) = (if i < 0 then Inl ValueError else Inr (MBin (replicate (nat i) 0)))"
| "scalar_conv b _ n v = b_convert b n v"

fun enum_word :: "pyval \<Rightarrow> string option" where
  "enum_word (PStr s) = Some s"
| "enum_word (PEnum c s) = Some s"
| "enum_word _ = None"

text \<open>Looking a word up in an enum class answers its member or raises \<open>ValueError\<close>.\<close>

definition enum_make :: "bindings \<Rightarrow> string \<Rightarrow> pyval \<Rightarrow> exn + pyval" where
  "enum_make b cls v = (case enum_word v of None \<Rightarrow> Inl ValueError
     | Some s \<Rightarrow> if b_enum b cls s then Inr (PEnum cls s) else Inl ValueError)"

definition scalar_out :: "bindings \<Rightarrow> wire \<Rightarrow> pyval \<Rightarrow> exn + mp" where
  "scalar_out b w v = (case SPELLED (wname w) of Some sp \<Rightarrow> spelled_out sp v
     | None \<Rightarrow>
       if wkind w = ENUM
       then (case enum_make b (wname w) v of Inl e \<Rightarrow> Inl e
             | Inr m \<Rightarrow> (case enum_word m of Some s \<Rightarrow> Inr (MStr s) | None \<Rightarrow> Inl TypeError))
       else (case SCALARS (wname w) of None \<Rightarrow> Inl KeyError
             | Some t \<Rightarrow> scalar_conv b t (wname w) v))"

text \<open>\<open>_expect\<close>: the exact type msgpack hands back, an int also where a float is due.\<close>

fun expect :: "mp \<Rightarrow> scalar_type \<Rightarrow> bool" where
  "expect (MStr s) TStr = True"
| "expect (MInt i) TInt = True"
| "expect (MFloat f) TFloat = True"
| "expect (MInt i) TFloat = True"
| "expect (MBool v) TBool = True"
| "expect (MBin w) TBytes = True"
| "expect _ _ = False"

fun scalar_back :: "scalar_type \<Rightarrow> mp \<Rightarrow> exn + pyval" where
  "scalar_back TFloat (MInt i) = map_sum id PFloat (float_of_int i)"
| "scalar_back TFloat (MFloat f) = Inr (PFloat f)"
| "scalar_back TStr (MStr s) = Inr (PStr s)"
| "scalar_back TInt (MInt i) = Inr (PInt i)"
| "scalar_back TBool (MBool v) = Inr (PBool v)"
| "scalar_back TBytes (MBin w) = Inr (PBytes w)"
| "scalar_back _ _ = Inl TypeError"

definition scalar_in :: "bindings \<Rightarrow> wire \<Rightarrow> mp \<Rightarrow> exn + pyval" where
  "scalar_in b w raw =
     (if wkind w = ENUM
      then (if expect raw TStr
            then (case raw of MStr s \<Rightarrow> enum_make b (wname w) (PStr s) | _ \<Rightarrow> Inl TypeError)
            else Inl TypeError)
      else (case SPELLED (wname w) of
          Some sp \<Rightarrow> if expect raw (spelled_field sp) then spelled_back sp raw else Inl TypeError
        | None \<Rightarrow> (case SCALARS (wname w) of None \<Rightarrow> Inl KeyError
            | Some t \<Rightarrow> if expect raw t then scalar_back t raw else Inl TypeError)))"

definition sync :: "bindings \<Rightarrow> pyval \<Rightarrow> pyval" where
  "sync b v = (case v of PObj ob \<Rightarrow> PObj (b_sync b ob) | _ \<Rightarrow> v)"

subsection \<open>Parts and unions, by the coder of one part\<close>

definition no_proxy :: "'a \<Rightarrow> ('s, 'b) eff" where
  "no_proxy x = raise TypeError"

definition not_too_deep :: "nat \<Rightarrow> exn + unit" where
  "not_too_deep depth = (if depth > MAX_UNION_DEPTH then Inl ValueError else Inr ())"

definition parts_out ::
  "(wire \<Rightarrow> pyval \<Rightarrow> nat \<Rightarrow> ('s, mp) eff) \<Rightarrow> bindings \<Rightarrow> tables \<Rightarrow> string \<Rightarrow> pyval \<Rightarrow> nat \<Rightarrow> ('s, mp) eff" where
  "parts_out enc b tb cls v depth =
     (case sync b v of
        PObj ob \<Rightarrow> (case t_fields tb cls of None \<Rightarrow> raise KeyError
          | Some fs \<Rightarrow>
            let ps = b_parts b ob in
            if length ps \<noteq> length fs then raise TypeError
            else bind_eff (map_eff (\<lambda>(f, p). enc (snd f) p depth) (zip fs ps)) (\<lambda>ms. ret (MList ms)))
      | _ \<Rightarrow> raise (Raised ''AttributeError''))"

definition parts_in :: "(wire \<Rightarrow> mp \<Rightarrow> ('s, pyval) eff) \<Rightarrow> arg list \<Rightarrow> mp \<Rightarrow> ('s, pyval list) eff" where
  "parts_in dec fs raw = (case raw of
       MList ms \<Rightarrow> if length ms \<noteq> length fs then raise TypeError
         else map_eff (\<lambda>(f, m). dec (snd f) m) (zip fs ms)
     | _ \<Rightarrow> raise TypeError)"

definition exact_type :: "wire \<Rightarrow> pyval \<Rightarrow> exn + bool" where
  "exact_type arm v =
     (if wkind arm = ENUM then Inr (case v of PEnum c s \<Rightarrow> c = wname arm | _ \<Rightarrow> False)
      else (case SCALARS (wname arm) of None \<Rightarrow> Inl KeyError
        | Some TStr \<Rightarrow> Inr (case v of PStr s \<Rightarrow> True | _ \<Rightarrow> False)
        | Some TInt \<Rightarrow> Inr (case v of PInt i \<Rightarrow> True | _ \<Rightarrow> False)
        | Some TFloat \<Rightarrow> Inr (case v of PFloat f \<Rightarrow> True | _ \<Rightarrow> False)
        | Some TBool \<Rightarrow> Inr (case v of PBool x \<Rightarrow> True | _ \<Rightarrow> False)
        | Some TBytes \<Rightarrow> Inr (case v of PBytes w \<Rightarrow> True | _ \<Rightarrow> False)))"

definition is_instance :: "bindings \<Rightarrow> pyval \<Rightarrow> string \<Rightarrow> bool" where
  "is_instance b v cls = (case v of PObj ob \<Rightarrow> b_isinst b ob cls | PEnum c s \<Rightarrow> c = cls | _ \<Rightarrow> False)"

fun union_arms ::
  "(string \<Rightarrow> pyval \<Rightarrow> nat \<Rightarrow> ('s, mp) eff) \<Rightarrow> bindings \<Rightarrow> wire list \<Rightarrow> nat \<Rightarrow> pyval \<Rightarrow> nat \<Rightarrow> ('s, mp) eff" where
  "union_arms po b [] i held depth = raise TypeError"
| "union_arms po b (arm # arms) i held depth =
     (if wkind arm \<in> set FLAT
      then (case exact_type arm held of Inl e \<Rightarrow> raise e
        | Inr True \<Rightarrow> bind_eff (lift_res (scalar_out b arm held)) (\<lambda>m. ret (MList [MInt (int i), m]))
        | Inr False \<Rightarrow> union_arms po b arms (Suc i) held depth)
      else if is_instance b held (wname arm)
      then bind_eff (po (wname arm) held (depth + 1)) (\<lambda>m. ret (MList [MInt (int i), m]))
      else union_arms po b arms (Suc i) held depth)"

definition union_out ::
  "(string \<Rightarrow> pyval \<Rightarrow> nat \<Rightarrow> ('s, mp) eff) \<Rightarrow> bindings \<Rightarrow> tables \<Rightarrow> string \<Rightarrow> pyval \<Rightarrow> nat \<Rightarrow> ('s, mp) eff" where
  "union_out po b tb alias v depth =
     (case not_too_deep depth of Inl e \<Rightarrow> raise e
      | Inr _ \<Rightarrow> (case t_unions tb alias of None \<Rightarrow> raise KeyError
          | Some arms \<Rightarrow> union_arms po b arms 0 (sync b v) depth))"

definition union_in ::
  "(wire \<Rightarrow> mp \<Rightarrow> nat \<Rightarrow> ('s, pyval) eff) \<Rightarrow> bindings \<Rightarrow> tables \<Rightarrow> string \<Rightarrow> mp \<Rightarrow> nat \<Rightarrow> ('s, pyval) eff" where
  "union_in dec b tb alias raw depth =
     (case not_too_deep depth of Inl e \<Rightarrow> raise e
      | Inr _ \<Rightarrow> (case t_unions tb alias of None \<Rightarrow> raise KeyError
          | Some arms \<Rightarrow> (case raw of
              MList [MInt i, m] \<Rightarrow>
                if 0 \<le> i \<and> i < int (length arms)
                then let arm = arms ! nat i in
                  if wkind arm \<in> set FLAT then lift_res (scalar_in b arm m) else dec arm m (depth + 1)
                else raise TypeError
            | _ \<Rightarrow> raise TypeError)))"

subsection \<open>Encoding\<close>

text \<open>What the two sides may do with a handle, an object the client keeps and its id.\<close>

type_synonym 's proxy_id = "pyval \<Rightarrow> ('s, string) eff"
type_synonym 's client_id = "string \<Rightarrow> pyval \<Rightarrow> ('s, int) eff"
type_synonym 's proxy_obj = "string \<Rightarrow> ('s, pyval) eff"
type_synonym 's client_obj = "string \<Rightarrow> int \<Rightarrow> ('s, pyval) eff"

fun encode ::
  "nat \<Rightarrow> bindings \<Rightarrow> tables \<Rightarrow> wire option \<Rightarrow> pyval \<Rightarrow> 's proxy_id \<Rightarrow> nat \<Rightarrow> 's client_id option \<Rightarrow>
   ('s, mp) eff" where
  "encode 0 b tb w v pid depth cid = raise RecursionError"
| "encode (Suc n) b tb None v pid depth cid = ret MNil"
| "encode (Suc n) b tb (Some w) v pid depth cid =
     (if v = PNone
      then (if woptional w \<or> wkind w \<in> set CONTAINER then ret MNil else raise TypeError)
      else (case wkind w of
        SCALAR \<Rightarrow> lift_res (scalar_out b w v)
      | ENUM \<Rightarrow> lift_res (scalar_out b w v)
      | LIST \<Rightarrow> (case witem w of None \<Rightarrow> raise TypeError
          | Some it \<Rightarrow> bind_eff (lift_res (iter_of v)) (\<lambda>vs.
              bind_eff (map_eff (\<lambda>x. encode n b tb (Some it) x pid depth cid) vs)
                (\<lambda>ms. ret (MList ms))))
      | MAP \<Rightarrow> (case witem w of None \<Rightarrow> raise TypeError
          | Some it \<Rightarrow> bind_eff (lift_res (items_of v)) (\<lambda>kvs.
              bind_eff (map_items (\<lambda>x. encode n b tb (Some it) x pid depth cid) kvs)
                (\<lambda>ms. ret (MMap ms))))
      | VALUE \<Rightarrow> parts_out (\<lambda>f x d. encode n b tb (Some f) x no_proxy d None) b tb (wname w) v depth
      | UNION \<Rightarrow> union_out
          (parts_out (\<lambda>f x d. encode n b tb (Some f) x no_proxy d None) b tb) b tb (wname w) v depth
      | ERROR \<Rightarrow> (case t_errors tb (wname w) of None \<Rightarrow> raise KeyError
          | Some fs \<Rightarrow> bind_eff (map_eff (\<lambda>f. bind_eff
                (lift_res (case v of PObj ob \<Rightarrow> b_attr b ob (fst f) | _ \<Rightarrow> Inl (Raised ''AttributeError'')))
                (\<lambda>x. encode n b tb (Some (snd f)) x no_proxy 0 None)) fs)
              (\<lambda>ms. ret (MList ms)))
      | PROXY \<Rightarrow> bind_eff (pid v) (\<lambda>h. ret (MStr h))
      | CLIENT \<Rightarrow> (case cid of None \<Rightarrow> raise TypeError
          | Some ci \<Rightarrow> bind_eff (ci (wname w) v) (\<lambda>i. ret (MInt i)))))"

subsection \<open>Decoding\<close>

lemma parts_in_cong [fundef_cong]:
  assumes "raw = raw'" "fs = fs'"
    "\<And>w ms m. raw' = MList ms \<Longrightarrow> m \<in> set ms \<Longrightarrow> dec w m = dec' w m"
  shows "parts_in dec fs raw = parts_in dec' fs' raw'"
proof (cases raw')
  case (MList ms)
  have "map_eff (\<lambda>(f, m). dec (snd f) m) (zip fs' ms) = map_eff (\<lambda>(f, m). dec' (snd f) m) (zip fs' ms)"
    by (rule map_eff_cong[OF refl]) (use assms(3) MList in \<open>auto dest: set_zip_rightD\<close>)
  then show ?thesis using assms(1,2) MList by (simp add: parts_in_def)
qed (use assms in \<open>simp_all add: parts_in_def\<close>)

lemma union_in_cong [fundef_cong]:
  assumes "raw = raw'" "b = b'" "tb = tb'" "alias = alias'" "depth = depth'"
    "\<And>w i m d. raw' = MList [i, m] \<Longrightarrow> dec w m d = dec' w m d"
  shows "union_in dec b tb alias raw depth = union_in dec' b' tb' alias' raw' depth'"
  using assms by (auto simp: union_in_def Let_def split: sum.split option.split mp.split list.split)

lemma size_mp_MList [termination_simp]: "m \<in> set ms \<Longrightarrow> size m < Suc (size_list size ms)"
  by (induction ms) auto

lemma size_mp_MMap [termination_simp]:
  "(k, m) \<in> set ms \<Longrightarrow> size m < Suc (size_list (size_prod (\<lambda>x. 0) size) ms)"
  by (induction ms) auto

function decode ::
  "bindings \<Rightarrow> tables \<Rightarrow> wire option \<Rightarrow> mp \<Rightarrow> 's proxy_obj \<Rightarrow> nat \<Rightarrow> 's client_obj option \<Rightarrow> ('s, pyval) eff" where
  "decode b tb None raw pobj depth cobj = ret PNone"
| "decode b tb (Some w) raw pobj depth cobj =
     (if raw = MNil
      then (if woptional w then ret PNone
            else if wkind w = LIST then ret (PList [])
            else if wkind w = MAP then ret (PDict []) else raise TypeError)
      else (case wkind w of
        SCALAR \<Rightarrow> lift_res (scalar_in b w raw)
      | ENUM \<Rightarrow> lift_res (scalar_in b w raw)
      | LIST \<Rightarrow> (case witem w of None \<Rightarrow> raise TypeError
          | Some it \<Rightarrow> (case raw of
              MList ms \<Rightarrow> bind_eff (map_eff (\<lambda>m. decode b tb (Some it) m pobj depth cobj) ms)
                            (\<lambda>vs. ret (PList vs))
            | _ \<Rightarrow> raise TypeError))
      | MAP \<Rightarrow> (case witem w of None \<Rightarrow> raise TypeError
          | Some it \<Rightarrow> (case raw of
              MMap kms \<Rightarrow> bind_eff (map_items (\<lambda>m. decode b tb (Some it) m pobj depth cobj) kms)
                             (\<lambda>kvs. ret (PDict kvs))
            | _ \<Rightarrow> raise TypeError))
      | VALUE \<Rightarrow> (case t_fields tb (wname w) of None \<Rightarrow> raise KeyError
          | Some fs \<Rightarrow> bind_eff (parts_in (\<lambda>f m. decode b tb (Some f) m no_proxy depth None) fs raw)
              (\<lambda>ps. bind_eff (lift_res (b_make b (wname w) ps)) (\<lambda>ob. ret (PObj ob))))
      | UNION \<Rightarrow> union_in (\<lambda>arm m d. decode b tb (Some arm) m no_proxy d None) b tb (wname w) raw depth
      | ERROR \<Rightarrow> (case t_errors tb (wname w) of None \<Rightarrow> raise KeyError
          | Some fs \<Rightarrow> bind_eff (parts_in (\<lambda>f m. decode b tb (Some f) m no_proxy depth None) fs raw)
              (\<lambda>ps. bind_eff (lift_res (b_error b (wname w) ps)) (\<lambda>ob. ret (PObj ob))))
      | PROXY \<Rightarrow> (case raw of MStr h \<Rightarrow> pobj h | _ \<Rightarrow> raise TypeError)
      | CLIENT \<Rightarrow> (case raw of
            MInt i \<Rightarrow> (case cobj of None \<Rightarrow> raise TypeError | Some co \<Rightarrow> co (wname w) i)
          | _ \<Rightarrow> raise TypeError)))"
  by pat_completeness auto
termination
  by (relation "measure (\<lambda>(b, tb, w, raw, pobj, depth, cobj). size raw)")
     (auto simp: size_mp_MList size_mp_MMap)

section \<open>The wire format as a relation\<close>

text \<open>
  The wire format as a relation, independent of how \<open>encode\<close> and \<open>decode\<close> compute it: \<open>crosses\<close> says
  which msgpack value stands for which Python value at a declared type. Both directions of the codec
  are proved to follow it. \<open>nm\<close> names the handle of a proxy; a part of a wire value has none, and
  the relation uses the empty naming there.
\<close>

subsection \<open>Scalars\<close>

fun flat_image :: "pyval \<Rightarrow> mp" where
  "flat_image (PStr s) = MStr s"
| "flat_image (PInt i) = MInt i"
| "flat_image (PFloat f) = MFloat f"
| "flat_image (PBool x) = MBool x"
| "flat_image (PBytes w) = MBin w"
| "flat_image (PTimedelta us) = MInt us"
| "flat_image (PPath s) = MStr s"
| "flat_image (PEnum c s) = MStr s"
| "flat_image _ = MNil"

fun has_scalar_type :: "scalar_type \<Rightarrow> pyval \<Rightarrow> bool" where
  "has_scalar_type TStr (PStr s) = True"
| "has_scalar_type TInt (PInt i) = True"
| "has_scalar_type TFloat (PFloat f) = True"
| "has_scalar_type TBool (PBool x) = True"
| "has_scalar_type TBytes (PBytes w) = True"
| "has_scalar_type _ _ = False"

text \<open>A value of exactly the declared scalar or enum type: a duration a \<open>timedelta\<close> can hold, a path
  in the spelling \<open>pathlib\<close> gives it.\<close>

definition flat_ok :: "bindings \<Rightarrow> wire \<Rightarrow> pyval \<Rightarrow> bool" where
  "flat_ok b w v =
     (if wkind w = ENUM
      then SPELLED (wname w) = None \<and>
        (case v of PEnum c s \<Rightarrow> c = wname w \<and> b_enum b c s | _ \<Rightarrow> False)
      else wkind w = SCALAR \<and> (case SPELLED (wname w) of
          Some Timedelta \<Rightarrow> (case v of PTimedelta us \<Rightarrow> \<bar>us div day_us\<bar> \<le> 999999999 | _ \<Rightarrow> False)
        | Some PathLike \<Rightarrow> (case v of PPath s \<Rightarrow> path_norm s = s | _ \<Rightarrow> False)
        | None \<Rightarrow> (case SCALARS (wname w) of None \<Rightarrow> False | Some t \<Rightarrow> has_scalar_type t v)))"

lemma flat_roundtrip:
  assumes "flat_ok b w v"
  shows "scalar_out b w v = Inr (flat_image v)" "scalar_in b w (flat_image v) = Inr v"
    "flat_image v \<noteq> MNil" "v \<noteq> PNone"
proof -
  have sc: "scalar_conv b t n v = Inr (flat_image v) \<and> expect (flat_image v) t \<and>
      scalar_back t (flat_image v) = Inr v \<and> flat_image v \<noteq> MNil \<and> v \<noteq> PNone"
    if "has_scalar_type t v" for t n
    using that by (cases t; cases v) simp_all
  have *: "scalar_out b w v = Inr (flat_image v) \<and> scalar_in b w (flat_image v) = Inr v \<and>
      flat_image v \<noteq> MNil \<and> v \<noteq> PNone"
  proof (cases "wkind w = ENUM")
    case True
    with assms obtain s where "v = PEnum (wname w) s" "b_enum b (wname w) s" "SPELLED (wname w) = None"
      by (auto simp: flat_ok_def split: pyval.splits)
    with True show ?thesis by (simp add: scalar_out_def scalar_in_def enum_make_def)
  next
    case False
    show ?thesis
    proof (cases "SPELLED (wname w)")
      case None
      with False assms obtain t where "SCALARS (wname w) = Some t" "has_scalar_type t v"
        by (auto simp: flat_ok_def split: option.splits)
      with None False sc show ?thesis by (simp add: scalar_out_def scalar_in_def)
    next
      case (Some sp)
      show ?thesis
      proof (cases sp)
        case Timedelta
        with Some False assms obtain us where "v = PTimedelta us" "\<bar>us div day_us\<bar> \<le> 999999999"
          by (auto simp: flat_ok_def split: pyval.splits)
        with Some False Timedelta show ?thesis
          by (simp add: scalar_out_def scalar_in_def duration_out_def duration_in_def)
      next
        case PathLike
        with Some False assms obtain s where "v = PPath s" "path_norm s = s"
          by (auto simp: flat_ok_def split: pyval.splits)
        with Some False PathLike show ?thesis by (simp add: scalar_out_def scalar_in_def path_out_def)
      qed
    qed
  qed
  then show "scalar_out b w v = Inr (flat_image v)" "scalar_in b w (flat_image v) = Inr v"
    "flat_image v \<noteq> MNil" "v \<noteq> PNone" by blast+
qed

subsection \<open>The relation\<close>

text \<open>An arm the union test passes over.\<close>

definition arm_misses :: "bindings \<Rightarrow> pyval \<Rightarrow> wire \<Rightarrow> bool" where
  "arm_misses b v arm = (if wkind arm \<in> set FLAT then exact_type arm v = Inr False
     else \<not> is_instance b v (wname arm))"

inductive crosses ::
  "bindings \<Rightarrow> tables \<Rightarrow> (pyval \<Rightarrow> string \<Rightarrow> bool) \<Rightarrow> nat \<Rightarrow> wire \<Rightarrow> pyval \<Rightarrow> mp \<Rightarrow> bool" for b tb where
  absent: "woptional w \<Longrightarrow> crosses b tb nm d w PNone MNil"
| flat: "flat_ok b w v \<Longrightarrow> crosses b tb nm d w v (flat_image v)"
| items: "wkind w = LIST \<Longrightarrow> witem w = Some it \<Longrightarrow> list_all2 (crosses b tb nm d it) vs ms \<Longrightarrow>
    crosses b tb nm d w (PList vs) (MList ms)"
| entries: "wkind w = MAP \<Longrightarrow> witem w = Some it \<Longrightarrow> map fst kms = map fst kvs \<Longrightarrow>
    list_all2 (crosses b tb nm d it) (map snd kvs) (map snd kms) \<Longrightarrow>
    crosses b tb nm d w (PDict kvs) (MMap kms)"
| parts: "wkind w = VALUE \<Longrightarrow> b_sync b ob = ob \<Longrightarrow> t_fields tb (wname w) = Some fs \<Longrightarrow>
    b_make b (wname w) (b_parts b ob) = Inr ob \<Longrightarrow> length fs = length (b_parts b ob) \<Longrightarrow>
    list_all2 (\<lambda>q m. crosses b tb (\<lambda>_ _. False) d (snd (fst q)) (snd q) m) (zip fs (b_parts b ob)) ms \<Longrightarrow>
    crosses b tb nm d w (PObj ob) (MList ms)"
| flat_arm: "wkind w = UNION \<Longrightarrow> d \<le> MAX_UNION_DEPTH \<Longrightarrow> t_unions tb (wname w) = Some (pre @ arm # post) \<Longrightarrow>
    \<forall>a\<in>set pre. arm_misses b v a \<Longrightarrow> flat_ok b arm v \<Longrightarrow> exact_type arm v = Inr True \<Longrightarrow>
    crosses b tb nm d w v (MList [MInt (int (length pre)), flat_image v])"
| value_arm: "wkind w = UNION \<Longrightarrow> d \<le> MAX_UNION_DEPTH \<Longrightarrow> t_unions tb (wname w) = Some (pre @ arm # post) \<Longrightarrow>
    \<forall>a\<in>set pre. arm_misses b (PObj ob) a \<Longrightarrow> wkind arm = VALUE \<Longrightarrow> b_sync b ob = ob \<Longrightarrow>
    b_isinst b ob (wname arm) \<Longrightarrow> crosses b tb (\<lambda>_ _. False) (d + 1) arm (PObj ob) m \<Longrightarrow>
    crosses b tb nm d w (PObj ob) (MList [MInt (int (length pre)), m])"
| proxy: "wkind w = PROXY \<Longrightarrow> v \<noteq> PNone \<Longrightarrow> nm v h \<Longrightarrow> crosses b tb nm d w v (MStr h)"
monos list_all2_mono

subsection \<open>Both directions follow it\<close>

definition named_by :: "(pyval \<Rightarrow> string \<Rightarrow> bool) \<Rightarrow> 's proxy_id \<Rightarrow> 't proxy_obj \<Rightarrow> bool" where
  "named_by nm pid pobj \<longleftrightarrow> (\<forall>v h. nm v h \<longrightarrow>
     (\<forall>s. \<exists>s'. pid v s = (Inr h, s')) \<and> (\<forall>u. \<exists>u'. pobj h u = (Inr v, u')))"

definition encodes :: "(nat \<Rightarrow> ('s, 'a) eff) \<Rightarrow> 'a \<Rightarrow> bool" where
  "encodes f m \<longleftrightarrow> (\<exists>n. \<forall>k\<ge>n. \<forall>s. \<exists>s'. f k s = (Inr m, s'))"

definition answers :: "('s, 'a) eff \<Rightarrow> 'a \<Rightarrow> bool" where
  "answers f a \<longleftrightarrow> (\<forall>s. \<exists>s'. f s = (Inr a, s'))"

lemma encodes_answers: "encodes f m \<longleftrightarrow> (\<exists>n. \<forall>k\<ge>n. answers (f k) m)"
  by (simp add: encodes_def answers_def)

lemma answers_ret [simp]: "answers (ret a) b \<longleftrightarrow> b = a"
  by (auto simp: answers_def)

lemma answers_bind: "answers m a \<Longrightarrow> answers (f a) c \<Longrightarrow> answers (bind_eff m f) c"
  unfolding answers_def by (metis bind_eff_Inr)

lemma answers_map: "list_all2 (\<lambda>x y. answers (f x) y) xs ys \<Longrightarrow> answers (map_eff f xs) ys"
proof (induction rule: list_all2_induct)
  case (Cons x xs y ys)
  show ?case unfolding map_eff.simps
    by (rule answers_bind[OF Cons.hyps(1) answers_bind[OF Cons.IH]]) simp
qed simp

lemma answers_items:
  assumes "map fst ys = map fst xs" "list_all2 (\<lambda>x y. answers (f x) y) (map snd xs) (map snd ys)"
  shows "answers (map_items f xs) ys"
  unfolding map_items_def
proof (rule answers_map)
  show "list_all2 (\<lambda>p q. answers (bind_eff (f (snd p)) (\<lambda>y. ret (fst p, y))) q) xs ys"
    using assms
  proof (induction xs arbitrary: ys)
    case (Cons x xs)
    then obtain y zs where y: "ys = y # zs" by (cases ys) auto
    have "answers (bind_eff (f (snd x)) (\<lambda>z. ret (fst x, z))) y"
      by (rule answers_bind[of _ "snd y"]) (use Cons.prems y in \<open>simp_all add: prod_eq_iff\<close>)
    then show ?case using Cons y by simp
  qed simp
qed

text \<open>Fuel enough for every element of a list.\<close>

lemma encodes_all:
  assumes "list_all2 (\<lambda>x m. encodes (\<lambda>k. f k x) m) xs ms"
  shows "\<exists>n. \<forall>k\<ge>n. list_all2 (\<lambda>x m. answers (f k x) m) xs ms"
  using assms
proof (induction rule: list_all2_induct)
  case (Cons x xs m ms)
  then obtain n1 n2 where "\<forall>k\<ge>n1. answers (f k x) m" "\<forall>k\<ge>n2. list_all2 (\<lambda>x m. answers (f k x) m) xs ms"
    by (auto simp: encodes_answers)
  then show ?case by (intro exI[of _ "max n1 n2"]) simp
qed simp

lemma encodes_Suc: "(\<exists>n. \<forall>k\<ge>n. answers (f (Suc k)) m) \<Longrightarrow> encodes f m"
proof -
  assume "\<exists>n. \<forall>k\<ge>n. answers (f (Suc k)) m"
  then obtain n where "\<forall>k\<ge>n. answers (f (Suc k)) m" by blast
  then have "\<forall>k\<ge>Suc n. answers (f k) m" by (metis Suc_le_D Suc_le_mono)
  then show ?thesis by (auto simp: encodes_answers)
qed

end
