(* ===== verification/Codec_Round.thy ===== *)
theory Codec_Round
  imports Codec
begin

text \<open>
  Both directions of the codec follow \<open>crosses\<close>: encoding with enough stack answers the msgpack value
  the relation gives, and decoding it answers the Python value back. Then what the codec refuses:
  chains of unions past the bound, values of the wrong type.
\<close>

subsection \<open>Encoding follows the relation\<close>

lemma crosses_not_nil: "crosses b tb nm d w v m \<Longrightarrow> m = MNil \<longleftrightarrow> v = PNone"
  by (induction rule: crosses.induct) (simp_all add: flat_roundtrip)

lemma union_arms_pick:
  assumes "\<forall>a\<in>set pre. arm_misses b v a"
  shows "union_arms po b (pre @ arms) i v d = union_arms po b arms (i + length pre) v d"
  using assms by (induction pre arbitrary: i) (auto simp: arm_misses_def)

lemma encode_crosses:
  fixes pid :: "'s proxy_id"
  shows "crosses b tb nm d w v m \<Longrightarrow> (\<And>v h. nm v h \<Longrightarrow> answers (pid v) h) \<Longrightarrow>
   encodes (\<lambda>k. encode k b tb (Some w) v pid d cid) m"
proof (induction arbitrary: pid cid rule: crosses.induct)
  case (absent w nm d)
  then show ?case by (intro encodes_Suc exI[of _ 0]) simp
next
  case (flat w v nm d)
  note f = flat_roundtrip[OF flat.hyps]
  have "wkind w = ENUM \<or> wkind w = SCALAR" using flat.hyps by (auto simp: flat_ok_def split: if_splits)
  then show ?case using f by (intro encodes_Suc exI[of _ 0]) auto
next
  case (items w it nm d vs ms)
  have "list_all2 (\<lambda>x m. encodes (\<lambda>k. encode k b tb (Some it) x pid d cid) m) vs ms"
    using items.IH by (rule list_all2_mono) (use items.prems in blast)
  from encodes_all[where f = "\<lambda>k x. encode k b tb (Some it) x pid d cid", OF this]
  obtain n where "\<forall>k\<ge>n. list_all2 (\<lambda>x m. answers (encode k b tb (Some it) x pid d cid) m) vs ms"
    by blast
  then show ?case
    using items.hyps by (intro encodes_Suc exI[of _ n]) (auto intro!: answers_bind[OF answers_map])
next
  case (entries w it kms kvs nm d)
  have "list_all2 (\<lambda>x m. encodes (\<lambda>k. encode k b tb (Some it) x pid d cid) m) (map snd kvs) (map snd kms)"
    using entries.IH by (rule list_all2_mono) (use entries.prems in blast)
  from encodes_all[where f = "\<lambda>k x. encode k b tb (Some it) x pid d cid", OF this]
  obtain n where "\<forall>k\<ge>n. list_all2 (\<lambda>x m. answers (encode k b tb (Some it) x pid d cid) m)
      (map snd kvs) (map snd kms)"
    by blast
  then show ?case
    using entries.hyps by (intro encodes_Suc exI[of _ n]) (auto intro!: answers_bind[OF answers_items])
next
  case (parts w ob fs d ms nm)
  let ?ps = "b_parts b ob"
  have "list_all2 (\<lambda>q m. encodes (\<lambda>k. encode k b tb (Some (snd (fst q))) (snd q) (no_proxy :: 's proxy_id) d None) m)
      (zip fs ?ps) ms"
    using parts.IH by (rule list_all2_mono) simp
  from encodes_all[where f = "\<lambda>k q. encode k b tb (Some (snd (fst q))) (snd q) (no_proxy :: 's proxy_id) d None", OF this]
  obtain n where n: "\<forall>k\<ge>n. list_all2 (\<lambda>q m. answers
      (encode k b tb (Some (snd (fst q))) (snd q) (no_proxy :: 's proxy_id) d None) m) (zip fs ?ps) ms" by blast
  show ?case
    using n parts.hyps
    by (intro encodes_Suc exI[of _ n])
       (auto simp: parts_out_def sync_def Let_def case_prod_beta intro!: answers_bind[OF answers_map])
next
  case (flat_arm w d pre arm post v nm)
  have k: "wkind arm \<in> set FLAT" using flat_arm.hyps(5) by (auto simp: flat_ok_def FLAT_def split: if_splits)
  have s: "sync b v = v"
  proof -
    have "v \<noteq> PObj ob" for ob using flat_arm.hyps(5) by (auto simp: flat_ok_def split: if_splits option.splits spelled.splits)
    then show ?thesis by (cases v) (auto simp: sync_def)
  qed
  show ?case
    using flat_arm.hyps flat_roundtrip[OF flat_arm.hyps(5)] k s
    by (intro encodes_Suc exI[of _ 0])
       (auto simp: union_out_def not_too_deep_def union_arms_pick)
next
  case (value_arm w d pre arm post ob m nm)
  have "encodes (\<lambda>k. encode k b tb (Some arm) (PObj ob) (no_proxy :: 's proxy_id) (d + 1) None) m"
    using value_arm.IH by blast
  then obtain n where n: "\<forall>k\<ge>n. answers (encode k b tb (Some arm) (PObj ob) (no_proxy :: 's proxy_id) (d + 1) None) m"
    by (auto simp: encodes_answers)
  have k: "wkind arm \<notin> set FLAT" using value_arm.hyps(5) by (simp add: FLAT_def)
  show ?case
  proof (intro encodes_Suc exI[of _ n] allI impI)
    fix k assume "n \<le> k"
    then have "answers (encode (Suc k) b tb (Some arm) (PObj ob) (no_proxy :: 's proxy_id) (d + 1) None) m"
      using n by (simp only: le_SucI)
    then have "answers (parts_out (\<lambda>f x d. encode k b tb (Some f) x (no_proxy :: 's proxy_id) d None) b tb (wname arm)
        (PObj ob) (d + 1)) m"
      using value_arm.hyps(5) by simp
    then show "answers (encode (Suc k) b tb (Some w) (PObj ob) pid d cid)
        (MList [MInt (int (length pre)), m])"
      using value_arm.hyps k
      by (auto simp: union_out_def not_too_deep_def union_arms_pick sync_def is_instance_def
          intro!: answers_bind)
  qed
next
  case (proxy w v nm h d)
  then show ?case by (intro encodes_Suc exI[of _ 0]) (auto intro!: answers_bind)
qed

subsection \<open>Decoding follows the relation\<close>

declare decode.simps(2) [simp del]

lemma decode_crosses:
  fixes pobj :: "'s proxy_obj"
  shows "crosses b tb nm d w v m \<Longrightarrow> (\<And>v h. nm v h \<Longrightarrow> answers (pobj h) v) \<Longrightarrow>
   answers (decode b tb (Some w) m pobj d cobj) v"
proof (induction arbitrary: pobj cobj rule: crosses.induct)
  case (absent w nm d)
  then show ?case by (simp add: decode.simps(2))
next
  case (flat w v nm d)
  note f = flat_roundtrip[OF flat.hyps]
  have "wkind w = ENUM \<or> wkind w = SCALAR" using flat.hyps by (auto simp: flat_ok_def split: if_splits)
  then show ?case using f by (subst decode.simps(2)) auto
next
  case (items w it nm d vs ms)
  have "list_all2 (\<lambda>v m. answers (decode b tb (Some it) m pobj d cobj) v) vs ms"
    using items.IH by (rule list_all2_mono) (use items.prems in blast)
  then have "list_all2 (\<lambda>m v. answers (decode b tb (Some it) m pobj d cobj) v) ms vs"
    by (simp add: list_all2_conv_all_nth)
  then show ?case
    using items.hyps by (subst decode.simps(2)) (auto intro!: answers_bind[OF answers_map])
next
  case (entries w it kms kvs nm d)
  have "list_all2 (\<lambda>v m. answers (decode b tb (Some it) m pobj d cobj) v) (map snd kvs) (map snd kms)"
    using entries.IH by (rule list_all2_mono) (use entries.prems in blast)
  then have "list_all2 (\<lambda>m v. answers (decode b tb (Some it) m pobj d cobj) v) (map snd kms) (map snd kvs)"
    by (auto simp: list_all2_conv_all_nth)
  then show ?case
    using entries.hyps by (subst decode.simps(2)) (auto intro!: answers_bind[OF answers_items])
next
  case (parts w ob fs d ms nm)
  let ?ps = "b_parts b ob"
  have "list_all2 (\<lambda>q m. answers (decode b tb (Some (snd (fst q))) m (no_proxy :: 's proxy_obj) d None) (snd q))
      (zip fs ?ps) ms"
    using parts.IH by (rule list_all2_mono) simp
  then have l: "length ms = length fs"
    and e: "\<forall>i<length fs. answers (decode b tb (Some (snd (fs ! i))) (ms ! i) (no_proxy :: 's proxy_obj) d None) (?ps ! i)"
    using parts.hyps(5) by (auto simp: list_all2_conv_all_nth)
  have "list_all2 (\<lambda>(f, m) p. answers (decode b tb (Some (snd f)) m (no_proxy :: 's proxy_obj) d None) p)
      (zip fs ms) ?ps"
    using l e parts.hyps(5) by (simp add: list_all2_conv_all_nth)
  then have "answers (map_eff (\<lambda>(f, m). decode b tb (Some (snd f)) m (no_proxy :: 's proxy_obj) d None) (zip fs ms)) ?ps"
    by (intro answers_map) (simp add: case_prod_unfold)
  then have "answers (parts_in (\<lambda>f m. decode b tb (Some f) m (no_proxy :: 's proxy_obj) d None) fs (MList ms)) ?ps"
    using l by (simp add: parts_in_def)
  then show ?case
    using parts.hyps by (subst decode.simps(2)) (auto intro!: answers_bind)
next
  case (flat_arm w d pre arm post v nm)
  have k: "wkind arm \<in> set FLAT" using flat_arm.hyps(5) by (auto simp: flat_ok_def FLAT_def split: if_splits)
  show ?case
    using flat_arm.hyps flat_roundtrip[OF flat_arm.hyps(5)] k
    by (subst decode.simps(2)) (simp add: union_in_def not_too_deep_def)
next
  case (value_arm w d pre arm post ob m nm)
  have "answers (decode b tb (Some arm) m (no_proxy :: 's proxy_obj) (d + 1) None) (PObj ob)"
    using value_arm.IH by simp
  moreover have "wkind arm \<notin> set FLAT" using value_arm.hyps(5) by (simp add: FLAT_def)
  ultimately show ?case
    using value_arm.hyps by (subst decode.simps(2)) (simp add: union_in_def not_too_deep_def)
next
  case (proxy w v nm h d)
  then show ?case by (subst decode.simps(2)) simp
qed

subsection \<open>What stays out of a wire value\<close>

text \<open>A declared type no proxy and no client object is part of, lists and maps looked into.\<close>

fun plain :: "wire \<Rightarrow> bool" where
  "plain (Wire k n it opt) = (k \<noteq> PROXY \<and> k \<noteq> CLIENT \<and>
     (case it of None \<Rightarrow> True | Some w \<Rightarrow> plain w))"

definition silent :: "('s, 'a) eff \<Rightarrow> bool" where
  "silent f \<longleftrightarrow> (\<forall>s. snd (f s) = s)"

lemma silent_basic [simp]: "silent (ret a)" "silent (raise e)" "silent (lift_res r)" "silent (no_proxy x)"
  by (simp_all add: silent_def no_proxy_def)

lemma silent_bind: "silent m \<Longrightarrow> (\<And>a. silent (f a)) \<Longrightarrow> silent (bind_eff m f)"
proof -
  assume m: "silent m" and f: "\<And>a. silent (f a)"
  have "snd (m s) = s" "snd (f a s) = s" for a s using m f by (simp_all add: silent_def)
  then show ?thesis
    unfolding silent_def bind_eff_def by (simp add: case_prod_beta split: sum.split)
qed

lemma silent_map: "(\<And>x. x \<in> set xs \<Longrightarrow> silent (f x)) \<Longrightarrow> silent (map_eff f xs)"
  by (induction xs) (auto intro!: silent_bind)

lemma silent_items: "(\<And>k x. (k, x) \<in> set xs \<Longrightarrow> silent (f x)) \<Longrightarrow> silent (map_items f xs)"
  unfolding map_items_def by (rule silent_map) (auto intro!: silent_bind)

lemma silent_parts_out:
  "(\<And>f x d. silent (enc f x d)) \<Longrightarrow> silent (parts_out enc b tb cls v d)"
  by (auto simp: parts_out_def Let_def split: pyval.split option.split
      intro!: silent_bind silent_map)

lemma silent_union_arms:
  "(\<And>c x d. silent (po c x d)) \<Longrightarrow> silent (union_arms po b arms i v d)"
  by (induction po b arms i v d rule: union_arms.induct)
     (auto intro!: silent_bind split: sum.split bool.split)

lemma silent_encode:
  fixes pid :: "'s proxy_id"
  shows "plain w \<or> (\<forall>v. silent (pid v)) \<and> cid = None \<Longrightarrow> silent (encode n b tb (Some w) v pid d cid)"
proof (induction n arbitrary: w v pid d cid)
  case (Suc n)
  have it: "plain x \<or> (\<forall>v. silent (pid v)) \<and> cid = None" if "witem w = Some x" for x
    using Suc.prems that by (cases w) auto
  have np: "silent (encode n b tb (Some f) x (no_proxy :: 's proxy_id) e None)" for f x e
    by (rule Suc.IH) simp
  have pk: "wkind w = PROXY \<or> wkind w = CLIENT \<Longrightarrow> (\<forall>v. silent (pid v)) \<and> cid = None"
    using Suc.prems by (cases w) auto
  show ?case
    by (cases "wkind w")
       (auto simp: union_out_def pk np Suc.IH[OF it] split: option.split sum.split
         intro!: silent_bind silent_map silent_items silent_parts_out silent_union_arms)
qed simp

lemma silent_parts_in:
  "(\<And>f ms m. raw = MList ms \<Longrightarrow> m \<in> set ms \<Longrightarrow> silent (dec f m)) \<Longrightarrow> silent (parts_in dec fs raw)"
  by (auto simp: parts_in_def split: mp.split intro!: silent_map dest: set_zip_rightD)

lemma silent_union_in:
  "(\<And>arm i m d. raw = MList [i, m] \<Longrightarrow> silent (dec arm m d)) \<Longrightarrow> silent (union_in dec b tb alias raw d)"
  by (auto simp: union_in_def Let_def split: mp.split list.split sum.split option.split)

lemma silent_decode:
  fixes pobj :: "'s proxy_obj"
  shows "plain w \<or> (\<forall>h. silent (pobj h)) \<and> cobj = None \<Longrightarrow>
    silent (decode b tb (Some w) raw pobj d cobj)"
proof (induction "size raw" arbitrary: w raw pobj d cobj rule: less_induct)
  case less
  have it: "plain x \<or> (\<forall>v. silent (pobj v)) \<and> cobj = None" if "witem w = Some x" for x
    using less.prems that by (cases w) auto
  have pk: "wkind w = PROXY \<or> wkind w = CLIENT \<Longrightarrow> (\<forall>v. silent (pobj v)) \<and> cobj = None"
    using less.prems by (cases w) auto
  have np: "size m < size raw \<Longrightarrow> silent (decode b tb (Some f) m (no_proxy :: 's proxy_obj) e None)" for f m e
    by (rule less.hyps) simp_all
  have el: "raw = MList ms \<Longrightarrow> m \<in> set ms \<Longrightarrow> size m < size raw" for ms m
    using size_mp_MList[of m ms] by simp
  have en: "raw = MMap kms \<Longrightarrow> (k, m) \<in> set kms \<Longrightarrow> size m < size raw" for kms k m
    using size_mp_MMap[of k m kms] by simp
  show ?case
    by (subst decode.simps(2), cases "wkind w")
       (auto simp: pk size_mp_MList split: option.split mp.split
         intro!: silent_bind silent_map silent_items silent_parts_in silent_union_in np
         intro: less.hyps[OF el it] less.hyps[OF en it] el)
qed

end
