(* ===== verification/Codec_Props.thy ===== *)
theory Codec_Props
  imports Codec_Round
begin

text \<open>
  What decoding may answer. \<open>typed\<close> is the declared type as a property of Python values; \<open>R\<close> says
  what the handle callbacks may answer, and inside a wire value it is empty.
\<close>

definition flat_typed :: "bindings \<Rightarrow> wire \<Rightarrow> pyval \<Rightarrow> bool" where
  "flat_typed b w v =
     (if wkind w = ENUM then (case v of PEnum c s \<Rightarrow> c = wname w \<and> b_enum b c s | _ \<Rightarrow> False)
      else flat_ok b (Wire SCALAR (wname w) None False) v)"

inductive typed :: "bindings \<Rightarrow> tables \<Rightarrow> (pyval \<Rightarrow> bool) \<Rightarrow> wire \<Rightarrow> pyval \<Rightarrow> bool" for b tb where
  absent: "woptional w \<Longrightarrow> typed b tb R w PNone"
| flat: "wkind w \<in> set FLAT \<Longrightarrow> flat_typed b w v \<Longrightarrow> typed b tb R w v"
| items: "wkind w = LIST \<Longrightarrow> (\<And>x. x \<in> set vs \<Longrightarrow> \<exists>it. witem w = Some it \<and> typed b tb R it x) \<Longrightarrow>
    typed b tb R w (PList vs)"
| entries: "wkind w = MAP \<Longrightarrow> (\<And>k x. (k, x) \<in> set kvs \<Longrightarrow> \<exists>it. witem w = Some it \<and> typed b tb R it x) \<Longrightarrow>
    typed b tb R w (PDict kvs)"
| built: "wkind w = VALUE \<Longrightarrow> t_fields tb (wname w) = Some fs \<Longrightarrow>
    list_all2 (\<lambda>f p. typed b tb (\<lambda>_. False) (snd f) p) fs ps \<Longrightarrow> b_make b (wname w) ps = Inr ob \<Longrightarrow>
    typed b tb R w (PObj ob)"
| failed: "wkind w = ERROR \<Longrightarrow> t_errors tb (wname w) = Some fs \<Longrightarrow>
    list_all2 (\<lambda>f p. typed b tb (\<lambda>_. False) (snd f) p) fs ps \<Longrightarrow> b_error b (wname w) ps = Inr ob \<Longrightarrow>
    typed b tb R w (PObj ob)"
| arm: "wkind w = UNION \<Longrightarrow> t_unions tb (wname w) = Some arms \<Longrightarrow> a \<in> set arms \<Longrightarrow>
    typed b tb (\<lambda>_. False) a v \<Longrightarrow> typed b tb R w v"
| handle: "wkind w = PROXY \<or> wkind w = CLIENT \<Longrightarrow> R v \<Longrightarrow> typed b tb R w v"
monos list_all2_mono

lemma scalar_in_typed:
  assumes "scalar_in b w raw = Inr v" "wkind w \<in> set FLAT"
  shows "flat_typed b w v"
proof (cases "wkind w = ENUM")
  case True
  with assms show ?thesis
    by (auto simp: scalar_in_def flat_typed_def enum_make_def split: if_splits mp.splits option.splits)
next
  case False
  have sb: "expect raw t \<Longrightarrow> scalar_back t raw = Inr v \<Longrightarrow> has_scalar_type t v" for t
    by (cases t; cases raw) (auto simp: map_sum_def split: sum.splits)
  from False assms(1) show ?thesis
    using sb path_norm_idem
    by (auto simp: scalar_in_def flat_typed_def flat_ok_def duration_in_def
        split: option.splits if_splits spelled.splits elim!: expect.elims)
qed

lemma map_eff_each:
  "map_eff f xs s = (Inr ys, s') \<Longrightarrow> list_all2 (\<lambda>x y. \<exists>t t'. f x t = (Inr y, t')) xs ys"
  by (induction xs arbitrary: s ys) (auto simp: bind_eff_Inr_iff)

lemma map_items_each:
  "map_items f xs s = (Inr ys, s') \<Longrightarrow>
   list_all2 (\<lambda>p q. fst q = fst p \<and> (\<exists>t t'. f (snd p) t = (Inr (snd q), t'))) xs ys"
  unfolding map_items_def
  by (drule map_eff_each, erule list_all2_mono) (auto simp: bind_eff_Inr_iff; blast)

lemma list_all2_right: "list_all2 P xs ys \<Longrightarrow> y \<in> set ys \<Longrightarrow> \<exists>x\<in>set xs. P x y"
  by (induction rule: list_all2_induct) auto

lemma parts_in_each:
  "parts_in dec fs raw s = (Inr ps, s') \<Longrightarrow>
   \<exists>ms. raw = MList ms \<and> length ms = length fs \<and> length ps = length fs \<and>
     (\<forall>i<length fs. \<exists>t t'. dec (snd (fs ! i)) (ms ! i) t = (Inr (ps ! i), t'))"
  by (auto simp: parts_in_def list_all2_conv_all_nth split: mp.splits if_splits dest!: map_eff_each)

lemma decode_typed_gen:
  fixes pobj :: "'s proxy_obj"
  assumes "decode b tb (Some w) raw pobj d cobj s = (Inr v, s')"
    "\<And>h u x u'. pobj h u = (Inr x, u') \<Longrightarrow> R x"
    "\<And>co c i u x u'. cobj = Some co \<Longrightarrow> co c i u = (Inr x, u') \<Longrightarrow> R x"
  shows "typed b tb R w v"
  using assms
proof (induction "size raw" arbitrary: w raw pobj d cobj s v s' R rule: less_induct)
  case less
  note eq = trans[OF fun_cong[OF decode.simps(2)[of b tb w raw pobj d cobj, symmetric]] less.prems(1)]
  have np: "typed b tb (\<lambda>_. False) f x"
    if "decode b tb (Some f) m (no_proxy :: 's proxy_obj) e None t = (Inr x, t')" "size m < size raw" for f m e t x t'
    by (rule less.hyps[OF that(2,1)]) (simp_all add: no_proxy_def)
  have parts: "list_all2 (\<lambda>f p. typed b tb (\<lambda>_. False) (snd f) p) fs ps"
    if "parts_in (\<lambda>f m. decode b tb (Some f) m (no_proxy :: 's proxy_obj) d None) fs raw t = (Inr ps, t')" for fs t ps t'
  proof -
    from parts_in_each[OF that] obtain ms where ms: "raw = MList ms" "length ms = length fs"
      "length ps = length fs"
      and e: "\<And>i. i < length fs \<Longrightarrow> \<exists>t t'. decode b tb (Some (snd (fs ! i))) (ms ! i)
        (no_proxy :: 's proxy_obj) d None t = (Inr (ps ! i), t')" by blast
    have "typed b tb (\<lambda>_. False) (snd (fs ! i)) (ps ! i)" if i: "i < length fs" for i
    proof -
      from e[OF i] obtain t t' where "decode b tb (Some (snd (fs ! i))) (ms ! i)
        (no_proxy :: 's proxy_obj) d None t = (Inr (ps ! i), t')" by blast
      then show ?thesis by (rule np) (use i ms size_mp_MList[of "ms ! i" ms] in simp)
    qed
    then show ?thesis using ms(3) by (simp add: list_all2_conv_all_nth)
  qed
  show ?case
  proof (cases "raw = MNil")
    case True
    with eq show ?thesis by (auto split: if_splits intro: typed.absent typed.items typed.entries)
  next
    case False
    show ?thesis
    proof (cases "wkind w")
      case SCALAR
      with eq False show ?thesis by (auto intro!: typed.flat scalar_in_typed simp: FLAT_def)
    next
      case ENUM
      with eq False show ?thesis by (auto intro!: typed.flat scalar_in_typed simp: FLAT_def)
    next
      case VALUE
      with eq False parts show ?thesis
        by (auto simp: bind_eff_Inr_iff split: option.splits intro!: typed.built)
    next
      case ERROR
      with eq False parts show ?thesis
        by (auto simp: bind_eff_Inr_iff split: option.splits intro!: typed.failed)
    next
      case UNION
      with eq False obtain arms i m where a: "t_unions tb (wname w) = Some arms" "raw = MList [MInt i, m]"
        "0 \<le> i" "i < int (length arms)"
        and r: "if wkind (arms ! nat i) \<in> set FLAT then scalar_in b (arms ! nat i) m = Inr v
          else decode b tb (Some (arms ! nat i)) m (no_proxy :: 's proxy_obj) (d + 1) None s = (Inr v, s')"
        by (auto simp: union_in_def Let_def split: sum.splits option.splits mp.splits list.splits if_splits)
      have "typed b tb (\<lambda>_. False) (arms ! nat i) v"
        using r np[of "arms ! nat i" m] a(2)
        by (auto split: if_splits intro: typed.flat scalar_in_typed)
      moreover have "arms ! nat i \<in> set arms" using a(3,4) by simp
      ultimately show ?thesis by (rule typed.arm[OF UNION a(1), rotated])
    next
      case PROXY
      with eq False less.prems(2) show ?thesis
        by (auto split: mp.splits intro!: typed.handle)
    next
      case CLIENT
      with eq False less.prems(3) show ?thesis
        by (auto split: mp.splits option.splits intro!: typed.handle)
    next
      case LIST
      with eq False obtain it ms vs where l: "witem w = Some it" "raw = MList ms" "v = PList vs"
        "map_eff (\<lambda>m. decode b tb (Some it) m pobj d cobj) ms s = (Inr vs, s')"
        by (auto simp: bind_eff_Inr_iff split: option.splits mp.splits)
      have "typed b tb R it x" if "x \<in> set vs" for x
      proof -
        from list_all2_right[OF map_eff_each[OF l(4)] that] obtain m t t' where "m \<in> set ms"
          "decode b tb (Some it) m pobj d cobj t = (Inr x, t')" by blast
        then show ?thesis
          using less.hyps[of m it pobj d cobj t x t' R] less.prems(2,3) size_mp_MList[of m ms] l(2) by auto
      qed
      with LIST l show ?thesis by (auto intro: typed.items)
    next
      case MAP
      with eq False obtain it ms vs where l: "witem w = Some it" "raw = MMap ms" "v = PDict vs"
        "map_items (\<lambda>m. decode b tb (Some it) m pobj d cobj) ms s = (Inr vs, s')"
        by (auto simp: bind_eff_Inr_iff split: option.splits mp.splits)
      have "typed b tb R it x" if "(k, x) \<in> set vs" for k x
      proof -
        from list_all2_right[OF map_items_each[OF l(4)] that] obtain j m t t' where "(j, m) \<in> set ms"
          "decode b tb (Some it) m pobj d cobj t = (Inr x, t')" by auto
        then show ?thesis
          using less.hyps[of m it pobj d cobj t x t' R] less.prems(2,3) size_mp_MMap[of j m ms] l(2) by auto
      qed
      with MAP l show ?thesis by (auto intro: typed.entries)
    qed
  qed
qed

subsection \<open>Chains of unions\<close>

text \<open>What a peer may send: arm \<open>i\<close> of a union, whose only part is the union again, \<open>n\<close> times.\<close>

fun union_chain :: "nat \<Rightarrow> int \<Rightarrow> mp \<Rightarrow> mp" where
  "union_chain 0 i m = m"
| "union_chain (Suc n) i m = MList [MInt i, MList [union_chain n i m]]"

lemma union_chain_nil: "m \<noteq> MNil \<Longrightarrow> union_chain n i m \<noteq> MNil"
  by (cases n) simp_all

lemma chain_too_deep:
  assumes "wkind w = UNION" "t_unions tb (wname w) = Some arms" "0 \<le> i" "i < int (length arms)"
    "wkind (arms ! nat i) = VALUE" "t_fields tb (wname (arms ! nat i)) = Some [(f, w)]"
    "m \<noteq> MNil" "MAX_UNION_DEPTH < d + n"
  shows "decode b tb (Some w) (union_chain n i m) pobj d cobj s = (Inl ValueError, s)"
  using assms(8)
proof (induction n arbitrary: d pobj cobj)
  case 0
  then show ?case
    using assms(1,7) by (subst decode.simps(2)) (simp add: union_in_def not_too_deep_def)
next
  case (Suc n)
  have IH: "decode b tb (Some w) (union_chain n i m) no_proxy (d + 1) None s = (Inl ValueError, s)"
    by (rule Suc.IH) (use Suc.prems in simp)
  have "map_eff (\<lambda>(f, m). decode b tb (Some (snd f)) m no_proxy (d + 1) None)
      [((f, w), union_chain n i m)] s = (Inl ValueError, s)"
    using IH by simp
  then have v: "decode b tb (Some (arms ! nat i)) (MList [union_chain n i m]) no_proxy (d + 1) None s =
      (Inl ValueError, s)"
    using assms(5,6) by (subst decode.simps(2)) (simp add: parts_in_def)
  have nf: "VALUE \<notin> set FLAT" by (simp add: FLAT_def)
  show ?case
  proof (cases "MAX_UNION_DEPTH < d")
    case True
    then show ?thesis using assms(1) by (subst decode.simps(2)) (simp add: union_in_def not_too_deep_def)
  next
    case False
    then show ?thesis
      using assms(1-5) v nf by (subst decode.simps(2)) (simp add: union_in_def not_too_deep_def)
  qed
qed

section \<open>The properties of the codec\<close>

text \<open>
  The properties of the value codec, with a small set of bound classes to evaluate them on.
\<close>

subsection \<open>Bound classes to evaluate on\<close>

text \<open>A \<open>StorePath\<close> of one string, a \<open>Built\<close> that holds a \<open>Derived\<close> and a name, where \<open>Derived\<close> is the
  union of the two: object 11 is a \<open>StorePath\<close>, object 12 a \<open>Built\<close> of it.\<close>

fun demo_isinst :: "objref \<Rightarrow> string \<Rightarrow> bool" where
  "demo_isinst ob c = ((ob = 11 \<and> c = ''StorePath'') \<or> (ob = 12 \<and> c = ''Built''))"

definition demo_parts :: "objref \<Rightarrow> pyval list" where
  "demo_parts ob = (if ob = 11 then [PStr ''abc''] else if ob = 12 then [PObj 11, PStr ''out''] else [])"

definition demo_make :: "string \<Rightarrow> pyval list \<Rightarrow> exn + objref" where
  "demo_make c ps = (if c = ''StorePath'' \<and> ps = [PStr ''abc''] then Inr 11
     else if c = ''Built'' \<and> ps = [PObj 11, PStr ''out''] then Inr 12 else Inl ValueError)"

definition demo_b :: bindings where
  "demo_b = \<lparr>b_enum = (\<lambda>c s. c = ''Level'' \<and> s \<in> {''info'', ''warn''}), b_isinst = demo_isinst,
     b_sync = id, b_parts = demo_parts, b_make = demo_make,
     b_attr = (\<lambda>ob a. Inl (Raised ''AttributeError'')), b_error = (\<lambda>c ps. Inl TypeError),
     b_convert = (\<lambda>n v. Inl TypeError)\<rparr>"

definition w_str :: wire where "w_str = Wire SCALAR ''str'' None False"
definition w_derived :: wire where "w_derived = Wire UNION ''Derived'' None False"
definition w_path :: wire where "w_path = Wire VALUE ''StorePath'' None False"
definition w_built :: wire where "w_built = Wire VALUE ''Built'' None False"

definition demo_tb :: tables where
  "demo_tb = \<lparr>t_fields = map_of [(''StorePath'', [(''text'', w_str)]),
                                 (''Built'', [(''drv'', w_derived), (''output'', w_str)])],
     t_errors = (\<lambda>_. None), t_unions = map_of [(''Derived'', [w_str, w_path, w_built])]\<rparr>"

lemma demo_sel [simp]:
  "b_sync demo_b = id" "b_isinst demo_b = demo_isinst" "b_parts demo_b = demo_parts"
  "b_make demo_b = demo_make" "demo_parts 11 = [PStr ''abc'']" "demo_parts 12 = [PObj 11, PStr ''out'']"
  "demo_make ''StorePath'' [PStr ''abc''] = Inr 11" "demo_make ''Built'' [PObj 11, PStr ''out''] = Inr 12"
  "t_fields demo_tb ''StorePath'' = Some [(''text'', w_str)]"
  "t_fields demo_tb ''Built'' = Some [(''drv'', w_derived), (''output'', w_str)]"
  "t_unions demo_tb ''Derived'' = Some [w_str, w_path, w_built]"
  by (simp_all add: demo_b_def demo_parts_def demo_make_def demo_tb_def)

lemma demo_wires [simp]:
  "wkind w_str = SCALAR" "wname w_str = ''str''" "wkind w_path = VALUE" "wname w_path = ''StorePath''"
  "wkind w_built = VALUE" "wname w_built = ''Built''" "wkind w_derived = UNION"
  "wname w_derived = ''Derived''"
  by (simp_all add: w_str_def w_path_def w_built_def w_derived_def)

definition w_demo :: wire where
  "w_demo = Wire MAP '''' (Some (Wire LIST '''' (Some w_derived) False)) False"

definition v_demo :: pyval where
  "v_demo = PDict [(KStr ''a'', PList [PObj 12, PStr ''x'']), (KStr ''b'', PList [])]"

definition m_demo :: mp where
  "m_demo = MMap [(KStr ''a'', MList [MList [MInt 2, MList [MList [MInt 1, MList [MStr ''abc'']], MStr ''out'']],
     MList [MInt 0, MStr ''x'']]), (KStr ''b'', MList [])]"

subsection \<open>Round trip\<close>

text \<open>C3. The codec follows the wire format in both directions: a value that stands for a msgpack
  value by the format, at any declared type, encodes to it with enough stack and decodes back from
  it, handles included when the two sides agree on what they name.\<close>

theorem codec_roundtrip:
  fixes pid :: "'s proxy_id" and pobj :: "'t proxy_obj"
  assumes "crosses b tb nm d w v m" "named_by nm pid pobj"
  shows "(\<exists>n. \<forall>k\<ge>n. \<forall>s. \<exists>s'. encode k b tb (Some w) v pid d cid s = (Inr m, s')) \<and>
    (\<forall>u. \<exists>u'. decode b tb (Some w) m pobj d cobj u = (Inr v, u'))"
  using encode_crosses[OF assms(1), of pid cid] decode_crosses[OF assms(1), of pobj cobj] assms(2)
  by (auto simp: named_by_def encodes_def answers_def)

lemma demo_str: "crosses demo_b demo_tb nm d w_str (PStr s) (MStr s)"
proof -
  have "flat_ok demo_b w_str (PStr s)" by (simp add: flat_ok_def SPELLED_def SCALARS_def)
  from crosses.flat[OF this] show ?thesis by simp
qed

lemma demo_path: "crosses demo_b demo_tb nm d w_path (PObj 11) (MList [MStr ''abc''])"
  by (rule crosses.parts[where fs = "[(''text'', w_str)]"]) (simp_all add: demo_str)

lemma demo_misses [simp]:
  "arm_misses demo_b (PObj ob) w_str" "arm_misses demo_b (PObj 12) w_path"
  by (simp_all add: arm_misses_def FLAT_def exact_type_def SCALARS_def is_instance_def)

lemma demo_arm1:
  assumes "d \<le> MAX_UNION_DEPTH"
  shows "crosses demo_b demo_tb nm d w_derived (PObj 11) (MList [MInt 1, MList [MStr ''abc'']])"
proof -
  have "crosses demo_b demo_tb nm d w_derived (PObj 11)
      (MList [MInt (int (length [w_str])), MList [MStr ''abc'']])"
    by (rule crosses.value_arm[where arm = w_path and post = "[w_built]"])
       (use assms in \<open>simp_all add: demo_path\<close>)
  then show ?thesis by simp
qed

lemma demo_built:
  "d \<le> MAX_UNION_DEPTH \<Longrightarrow>
   crosses demo_b demo_tb nm d w_built (PObj 12) (MList [MList [MInt 1, MList [MStr ''abc'']], MStr ''out''])"
  by (rule crosses.parts[where fs = "[(''drv'', w_derived), (''output'', w_str)]"])
     (simp_all add: demo_arm1 demo_str)

lemma demo_arm2:
  assumes "d < MAX_UNION_DEPTH"
  shows "crosses demo_b demo_tb nm d w_derived (PObj 12)
     (MList [MInt 2, MList [MList [MInt 1, MList [MStr ''abc'']], MStr ''out'']])"
proof -
  have "crosses demo_b demo_tb nm d w_derived (PObj 12) (MList [MInt (int (length [w_str, w_path])),
      MList [MList [MInt 1, MList [MStr ''abc'']], MStr ''out'']])"
    by (rule crosses.value_arm[where arm = w_built and post = "[]"])
       (use assms in \<open>simp_all add: demo_built\<close>)
  then show ?thesis by simp
qed

lemma demo_arm0:
  assumes "d \<le> MAX_UNION_DEPTH"
  shows "crosses demo_b demo_tb nm d w_derived (PStr s) (MList [MInt 0, MStr s])"
proof -
  have "crosses demo_b demo_tb nm d w_derived (PStr s) (MList [MInt (int (length ([] :: wire list))), flat_image (PStr s)])"
    by (rule crosses.flat_arm[where arm = w_str and post = "[w_path, w_built]"])
       (use assms in \<open>simp_all add: flat_ok_def SPELLED_def SCALARS_def exact_type_def\<close>)
  then show ?thesis by simp
qed

lemma demo_crosses: "crosses demo_b demo_tb nm 0 w_demo v_demo m_demo"
  unfolding w_demo_def v_demo_def m_demo_def
  by (rule crosses.entries)
     (auto intro!: crosses.items demo_arm2 demo_arm0 simp: MAX_UNION_DEPTH_def)

theorem codec_roundtrip_witness:
  "(\<exists>n. \<forall>k\<ge>n. \<exists>s'. encode k demo_b demo_tb (Some w_demo) v_demo no_proxy 0 None () = (Inr m_demo, s')) \<and>
   (\<exists>u'. decode demo_b demo_tb (Some w_demo) m_demo no_proxy 0 None () = (Inr v_demo, u'))"
proof -
  have "named_by (\<lambda>_ _. False) (no_proxy :: unit proxy_id) (no_proxy :: unit proxy_obj)"
    by (simp add: named_by_def)
  from codec_roundtrip[OF demo_crosses this, of None None]
  show ?thesis by blast
qed

subsection \<open>What decoding answers\<close>

text \<open>C12. Whatever bytes a peer sends, a value that decodes is of its declared type all the way
  down: a scalar of exactly its type, an enum member of the vocabulary, a duration in range, a path
  in normal spelling, every part of a wire value of its part's type; a handle only where one is
  declared, and then as the callback answered it.\<close>

theorem decode_typed:
  fixes pobj :: "'s proxy_obj"
  assumes "decode b tb (Some w) raw pobj d None s = (Inr v, s')"
    "\<forall>h u x u'. pobj h u = (Inr x, u') \<longrightarrow> R x"
  shows "typed b tb R w v"
  by (rule decode_typed_gen[OF assms(1)]) (use assms(2) in auto)

theorem decode_typed_witness: "typed demo_b demo_tb (\<lambda>_. False) w_demo v_demo"
proof -
  have "named_by (\<lambda>_ _. False) (no_proxy :: unit proxy_id) (no_proxy :: unit proxy_obj)"
    by (simp add: named_by_def)
  from decode_crosses[OF demo_crosses, of "\<lambda>_ _. False" "no_proxy :: unit proxy_obj" None]
  obtain u' where "decode demo_b demo_tb (Some w_demo) m_demo (no_proxy :: unit proxy_obj) 0 None () = (Inr v_demo, u')"
    by (auto simp: answers_def)
  then show ?thesis by (rule decode_typed) (simp add: no_proxy_def)
qed

text \<open>A union sent inside itself ends: a chain of more than \<open>MAX_UNION_DEPTH\<close> arms, whatever is at
  its end, is refused with \<open>ValueError\<close>, and the state is as it was.\<close>

theorem union_chain_refused:
  assumes "wkind w = UNION" "t_unions tb (wname w) = Some arms" "0 \<le> i" "i < int (length arms)"
    "wkind (arms ! nat i) = VALUE" "t_fields tb (wname (arms ! nat i)) = Some [(f, w)]"
    "m \<noteq> MNil" "32 < n"
  shows "decode b tb (Some w) (union_chain n i m) pobj 0 cobj s = (Inl ValueError, s)"
  by (rule chain_too_deep[OF assms(1-7)]) (use assms(8) in \<open>simp add: MAX_UNION_DEPTH_def\<close>)

definition nested_tb :: tables where
  "nested_tb = \<lparr>t_fields = map_of [(''Node'', [(''next'', Wire UNION ''Chain'' None False)])],
     t_errors = (\<lambda>_. None),
     t_unions = map_of [(''Chain'', [w_str, Wire VALUE ''Node'' None False])]\<rparr>"

theorem union_chain_refused_witness:
  "decode demo_b nested_tb (Some (Wire UNION ''Chain'' None False)) (union_chain 1000 1 (MBool True))
     (no_proxy :: unit proxy_obj) 0 None () = (Inl ValueError, ())"
proof -
  let ?w = "Wire UNION ''Chain'' None False"
  let ?arms = "[w_str, Wire VALUE ''Node'' None False]"
  have t: "t_unions nested_tb (wname ?w) = Some ?arms"
    "t_fields nested_tb (wname (?arms ! nat 1)) = Some [(''next'', ?w)]"
    and k: "wkind ?w = UNION" "wkind (?arms ! nat 1) = VALUE" "(0 :: int) \<le> 1" "1 < int (length ?arms)"
      "MBool True \<noteq> MNil" "(32 :: nat) < 1000"
    by (simp_all add: nested_tb_def)
  show ?thesis by (rule union_chain_refused[OF k(1) t(1) k(3,4,2) t(2) k(5,6)])
qed

text \<open>The handle callbacks are called for proxies and client objects and for nothing else: coding
  a value of a declared type without them, in either direction and whether or not it succeeds,
  leaves the state of the caller as it was.\<close>

theorem wire_values_hold_no_handles:
  "plain w \<Longrightarrow> snd (encode n b tb (Some w) v pid d cid s) = s \<and>
   snd (decode b tb (Some w) raw pobj d cobj u) = u"
  using silent_encode[of w pid cid n b tb v d] silent_decode[of w pobj cobj b tb raw d]
  by (simp add: silent_def)

theorem wire_values_hold_no_handles_witness:
  "snd (encode 9 demo_b demo_tb (Some w_demo) v_demo (\<lambda>v (n :: nat). (Inr ''h'', n + 1)) 0 None 5) = 5"
proof -
  have "plain w_demo" by (simp add: w_demo_def w_derived_def)
  then show ?thesis by (rule conjunct1[OF wire_values_hold_no_handles])
qed

text \<open>An absent value crosses as absent only where the declaration or a container allows it, and
  an absent container that is not optional reads back empty: \<open>None\<close> does not survive there.\<close>

theorem absent_values:
  "encode (Suc n) b tb (Some w) PNone pid d cid s =
     (if woptional w \<or> wkind w = LIST \<or> wkind w = MAP then (Inr MNil, s) else (Inl TypeError, s)) \<and>
   decode b tb (Some w) MNil pobj d cobj u =
     (if woptional w then (Inr PNone, u)
      else if wkind w = LIST then (Inr (PList []), u)
      else if wkind w = MAP then (Inr (PDict []), u) else (Inl TypeError, u))"
proof -
  have "decode b tb (Some w) MNil pobj d cobj = (if woptional w then ret PNone
      else if wkind w = LIST then ret (PList []) else if wkind w = MAP then ret (PDict []) else raise TypeError)"
    by (subst decode.simps(2)) (simp only: refl if_True)
  moreover have "encode (Suc n) b tb (Some w) PNone pid d cid =
      (if woptional w \<or> wkind w = LIST \<or> wkind w = MAP then ret MNil else raise TypeError)"
    by (simp add: CONTAINER_def)
  ultimately show ?thesis by (simp only: ret_def raise_def split: if_split) blast
qed

end
