(* ===== verification/Trees.thy ===== *)
theory Trees
  imports Codec
begin

text \<open>
  Value trees: the nodes of \<open>huggorm/tree.py\<close>, how the codec writes and reads them
  (\<open>encode_tree\<close>, \<open>decode_tree\<close>), Python data as tree nodes with its refusal of data that holds itself
  (\<open>encode_data\<close>), the server's bounded walk of a value (\<open>TreeWalk\<close>) and its making of a value from
  data (\<open>Build\<close>). The values walked are bound objects of any type \<open>'o\<close>; their accessors, which the
  build emits, are arguments.
\<close>

subsection \<open>Nodes\<close>

datatype 'o node =
    Leaf string pyval
  | Stays string 'o
  | Items string 'o "'o node list"
  | Entries string 'o "(pykey \<times> 'o node) list"

definition NODE_LEAF :: int where "NODE_LEAF = 0"
definition NODE_STAYS :: int where "NODE_STAYS = 1"
definition NODE_ITEMS :: int where "NODE_ITEMS = 2"
definition NODE_ENTRIES :: int where "NODE_ENTRIES = 3"

lemmas node_tags = NODE_LEAF_def NODE_STAYS_def NODE_ITEMS_def NODE_ENTRIES_def

subsection \<open>Writing a tree\<close>

fun encode_tree :: "bindings \<Rightarrow> (string \<Rightarrow> 'o \<Rightarrow> ('s, string) eff) \<Rightarrow> 'o node \<Rightarrow> ('s, mp) eff" where
  "encode_tree b pid (Leaf wr v) =
     (if v = PNone then ret (MList [MInt NODE_LEAF, MNil])
      else case SCALARS wr of None \<Rightarrow> raise KeyError
        | Some t \<Rightarrow> bind_eff (lift_res (scalar_conv b t wr v)) (\<lambda>m. ret (MList [MInt NODE_LEAF, m])))"
| "encode_tree b pid (Stays cls ob) =
     bind_eff (pid cls ob) (\<lambda>h. ret (MList [MInt NODE_STAYS, MStr cls, MStr h]))"
| "encode_tree b pid (Items cls ob ns) =
     bind_eff (pid cls ob) (\<lambda>h. bind_eff (map_eff (encode_tree b pid) ns)
       (\<lambda>ms. ret (MList [MInt NODE_ITEMS, MStr cls, MStr h, MList ms])))"
| "encode_tree b pid (Entries cls ob es) =
     bind_eff (pid cls ob) (\<lambda>h. bind_eff (map_eff (\<lambda>p. bind_eff (encode_tree b pid (snd p))
          (\<lambda>m. ret (fst p, m))) es)
       (\<lambda>ms. ret (MList [MInt NODE_ENTRIES, MStr cls, MStr h, MMap ms])))"

subsection \<open>Reading a tree\<close>

text \<open>What reading answers: a plain value, or an object of the client's making. \<open>sorted\<close> of names is
  by code point; of \<open>bytes\<close> keys by byte; of both kinds at once it raises.\<close>

datatype 'h tval = TVal mp | TObj 'h

datatype 'h contents = CItems "'h tval list" | CEntries "(pykey \<times> 'h tval) list"

fun key_codes :: "pykey \<Rightarrow> nat list" where
  "key_codes (KStr s) = map of_char s"
| "key_codes (KBytes b) = b"
| "key_codes (KOther n) = [n]"

definition is_str_key :: "pykey \<Rightarrow> bool" where
  "is_str_key k = (case k of KStr s \<Rightarrow> True | _ \<Rightarrow> False)"

definition sorted_entries :: "(pykey \<times> 'v) list \<Rightarrow> exn + (pykey \<times> 'v) list" where
  "sorted_entries es =
     (if 1 < length es \<and> list_ex (is_str_key \<circ> fst) es \<and> \<not> list_all (is_str_key \<circ> fst) es
      then Inl TypeError
      else Inr (sort_by (\<lambda>p q. lex_le (key_codes (fst p)) (key_codes (fst q))) es))"

lemma sorted_entries_set: "sorted_entries es = Inr fs \<Longrightarrow> set fs = set es"
  by (auto simp: sorted_entries_def split: if_splits)

definition entries_of :: "(pykey \<times> mp) list \<Rightarrow> (pykey \<times> mp) list" where
  "entries_of es = (case sorted_entries es of Inl e \<Rightarrow> [] | Inr fs \<Rightarrow> fs)"

lemma entries_of_subset: "set (entries_of es) \<subseteq> set es"
  by (auto simp: entries_of_def sorted_entries_set split: sum.splits)

lemma size_entries_of [termination_simp]:
  "(k, m) \<in> set (entries_of es) \<Longrightarrow> size m < Suc (size_list (size_prod (\<lambda>x. 0) size) es)"
  by (rule size_mp_MMap[OF subsetD[OF entries_of_subset]])

text \<open>\<open>Node(x)\<close> takes any value equal to a member's: an int, a bool or a float.\<close>

fun node_tag :: "mp \<Rightarrow> int option" where
  "node_tag (MInt n) = (if 0 \<le> n \<and> n \<le> 3 then Some n else None)"
| "node_tag (MBool x) = Some (if x then 1 else 0)"
| "node_tag (MFloat f) = (if f = 0 \<or> f = 2 ^ 63 then Some 0 else if f = 0x3FF0000000000000 then Some 1
     else if f = 0x4000000000000000 then Some 2 else if f = 0x4008000000000000 then Some 3 else None)"
| "node_tag _ = None"

text \<open>The match of \<open>decode_tree\<close>: the tag first, then the shape.\<close>

datatype view =
    VLeaf mp
  | VStays string string
  | VItems string string "mp list"
  | VEntries string string "(pykey \<times> mp) list"

fun view_rest :: "int \<Rightarrow> mp list \<Rightarrow> exn + view" where
  "view_rest n [v] = (if n = NODE_LEAF then Inr (VLeaf v) else Inl TypeError)"
| "view_rest n [MStr cls, MStr h] = (if n = NODE_STAYS then Inr (VStays cls h) else Inl TypeError)"
| "view_rest n [MStr cls, MStr h, MList ms] =
     (if n = NODE_ITEMS then Inr (VItems cls h ms) else Inl TypeError)"
| "view_rest n [MStr cls, MStr h, MMap es] =
     (if n = NODE_ENTRIES then Inr (VEntries cls h es) else Inl TypeError)"
| "view_rest n _ = Inl TypeError"

fun node_view :: "mp \<Rightarrow> exn + view" where
  "node_view (MList []) = Inl IndexError"
| "node_view (MList (tag # rest)) =
     (case node_tag tag of None \<Rightarrow> Inl ValueError | Some n \<Rightarrow> view_rest n rest)"
| "node_view _ = Inl TypeError"

lemma view_rest_size:
  "view_rest n rest = Inr (VItems cls h ms) \<Longrightarrow> rest = [MStr cls, MStr h, MList ms]"
  "view_rest n rest = Inr (VEntries cls h es) \<Longrightarrow> rest = [MStr cls, MStr h, MMap es]"
  by (auto elim!: view_rest.elims split: if_splits)

lemma node_view_size:
  "node_view raw = Inr (VItems cls h ms) \<Longrightarrow> m \<in> set ms \<Longrightarrow> size m < size raw"
  "node_view raw = Inr (VEntries cls h es) \<Longrightarrow> (k, m) \<in> set (entries_of es) \<Longrightarrow> size m < size raw"
proof -
  assume a: "node_view raw = Inr (VItems cls h ms)" "m \<in> set ms"
  from a(1) obtain tag n rest where r: "raw = MList (tag # rest)" "view_rest n rest = Inr (VItems cls h ms)"
    by (cases raw rule: node_view.cases) (auto split: option.splits)
  show "size m < size raw"
    using view_rest_size(1)[OF r(2)] r(1) size_mp_MList[OF a(2)] by simp
next
  assume a: "node_view raw = Inr (VEntries cls h es)" "(k, m) \<in> set (entries_of es)"
  from a(1) obtain tag n rest where r: "raw = MList (tag # rest)" "view_rest n rest = Inr (VEntries cls h es)"
    by (cases raw rule: node_view.cases) (auto split: option.splits)
  show "size m < size raw"
    using view_rest_size(2)[OF r(2)] r(1) size_entries_of[OF a(2)] by simp
qed

function decode_tree ::
  "(string \<Rightarrow> string \<Rightarrow> ('s, 'h) eff) \<Rightarrow> (string \<Rightarrow> string \<Rightarrow> 'h contents \<Rightarrow> ('s, 'h) eff) \<Rightarrow> mp \<Rightarrow>
   ('s, 'h tval) eff" where
  "decode_tree pobj holder raw =
     (case node_view raw of
       Inl e \<Rightarrow> raise e
     | Inr (VLeaf v) \<Rightarrow> ret (TVal v)
     | Inr (VStays cls h) \<Rightarrow> bind_eff (pobj cls h) (\<lambda>r. ret (TObj r))
     | Inr (VItems cls h ms) \<Rightarrow>
         bind_eff (map_eff (decode_tree pobj holder) ms)
           (\<lambda>vs. bind_eff (holder cls h (CItems vs)) (\<lambda>r. ret (TObj r)))
     | Inr (VEntries cls h es) \<Rightarrow>
         (case sorted_entries es of Inl e \<Rightarrow> raise e
          | Inr _ \<Rightarrow> bind_eff (map_items (decode_tree pobj holder) (entries_of es))
              (\<lambda>vs. bind_eff (holder cls h (CEntries vs)) (\<lambda>r. ret (TObj r)))))"
  by pat_completeness auto
termination
  by (relation "measure (\<lambda>(pobj, holder, raw). size raw)") (auto simp: node_view_size)

declare decode_tree.simps [simp del]

subsection \<open>Python data as nodes\<close>

text \<open>The data a caller hands over, by object identity: a reference, and what each reference is.\<close>

datatype data_obj =
    DNone
  | DBool bool
  | DInt int
  | DFloat flt
  | DStr string
  | DHandle \<comment> \<open>it has a \<open>_backend\<close>\<close>
  | DSeq "objref list" \<comment> \<open>a list or a tuple\<close>
  | DMap "(string option \<times> objref) list" \<comment> \<open>a mapping, by key: \<open>None\<close> is a key that is not a str\<close>
  | DOther

type_synonym data_heap = "(objref, data_obj) dict"

definition I64_MIN :: int where "I64_MIN = - (2 ^ 63)"
definition I64_MAX :: int where "I64_MAX = 2 ^ 63 - 1"

definition str_keyed :: "(string option \<times> objref) list \<Rightarrow> bool" where
  "str_keyed kvs = list_all (\<lambda>p. fst p \<noteq> None) kvs"

text \<open>\<open>_data\<close> with \<open>open_\<close>, the containers being written. It ends because each container is opened
  once on a path and there are finitely many.\<close>

definition open_room :: "data_heap \<Rightarrow> objref list \<Rightarrow> nat" where
  "open_room hp opened = length (filter (\<lambda>r. r \<notin> set opened) (dict_keys hp))"

lemma open_room_less:
  assumes "dict_get hp r = Some d" "r \<notin> set opened"
  shows "open_room hp (r # opened) < open_room hp opened"
proof -
  have "r \<in> set (dict_keys hp)" using assms(1) dict_keys_get[of r hp] by blast
  have "length (filter (\<lambda>x. x \<notin> set (r # opened)) ks) < length (filter (\<lambda>x. x \<notin> set opened) ks)"
    if "r \<in> set ks" for ks
    using that
  proof (induction ks)
    case (Cons k ks)
    have "length (filter (\<lambda>x. x \<notin> set (r # opened)) ks) \<le> length (filter (\<lambda>x. x \<notin> set opened) ks)"
      by (induction ks) auto
    with Cons assms(2) show ?case by auto
  qed simp
  from this[OF \<open>r \<in> set (dict_keys hp)\<close>] show ?thesis unfolding open_room_def .
qed

function data_nodes :: "data_heap \<Rightarrow> (objref \<Rightarrow> exn + string) \<Rightarrow> objref \<Rightarrow> objref list \<Rightarrow> exn + mp" where
  "data_nodes hp hid r opened =
     (case dict_get hp r of
       None \<Rightarrow> Inl TypeError
     | Some d \<Rightarrow> (case d of
         DNone \<Rightarrow> Inr (MList [MInt NODE_LEAF, MNil])
       | DBool x \<Rightarrow> Inr (MList [MInt NODE_LEAF, MBool x])
       | DFloat f \<Rightarrow> Inr (MList [MInt NODE_LEAF, MFloat f])
       | DStr s \<Rightarrow> Inr (MList [MInt NODE_LEAF, MStr s])
       | DInt i \<Rightarrow> if I64_MIN \<le> i \<and> i \<le> I64_MAX then Inr (MList [MInt NODE_LEAF, MInt i])
                   else Inl OverflowError
       | DHandle \<Rightarrow> (case hid r of Inl e \<Rightarrow> Inl e | Inr h \<Rightarrow> Inr (MList [MInt NODE_STAYS, MStr h]))
       | DOther \<Rightarrow> Inl TypeError
       | DSeq rs \<Rightarrow> if r \<in> set opened then Inl ValueError
           else (case map_res (\<lambda>x. data_nodes hp hid x (r # opened)) rs of Inl e \<Rightarrow> Inl e
             | Inr ms \<Rightarrow> Inr (MList [MInt NODE_ITEMS, MList ms]))
       | DMap kvs \<Rightarrow> if r \<in> set opened then Inl ValueError
           else if \<not> str_keyed kvs then Inl TypeError
           else (case map_res (\<lambda>x. data_nodes hp hid x (r # opened)) (map snd kvs) of Inl e \<Rightarrow> Inl e
             | Inr ms \<Rightarrow> Inr (MList [MInt NODE_ENTRIES,
                          MMap (zip (map (\<lambda>p. KStr (the (fst p))) kvs) ms)]))))"
  by pat_completeness auto
termination
  by (relation "measure (\<lambda>(hp, hid, r, opened). open_room hp opened)") (auto simp: open_room_less)

declare data_nodes.simps [simp del]

definition encode_data :: "data_heap \<Rightarrow> (objref \<Rightarrow> exn + string) \<Rightarrow> objref \<Rightarrow> exn + mp" where
  "encode_data hp hid r = data_nodes hp hid r []"

subsection \<open>Walking a value\<close>

text \<open>How the declaration reads a node, and the walk's own state: what is left of the budget, the
  nodes seen, whether the answer is cut, and the world the accessors act in.\<close>

datatype ('o, 'w) reading =
    RLeaf string "'o \<Rightarrow> ('w, pyval) eff"
  | RNull
  | RItems "'o \<Rightarrow> ('w, nat) eff" "'o \<Rightarrow> nat \<Rightarrow> ('w, 'o) eff"
  | REntries "'o \<Rightarrow> ('w, nat) eff" "'o \<Rightarrow> nat \<Rightarrow> ('w, string) eff" "'o \<Rightarrow> nat \<Rightarrow> ('w, 'o) eff"

record ('o, 'w) walk_spec =
  ws_kind :: "'o \<Rightarrow> ('w, string) eff"
  ws_kinds :: "string \<Rightarrow> ('o, 'w) reading option"
  ws_identity :: "('o \<Rightarrow> ('w, nat) eff) option"
  ws_force :: "('o \<Rightarrow> ('w, unit) eff) option"
  ws_stop :: "('o \<Rightarrow> ('w, bool) eff) option"
  ws_id :: "'o \<Rightarrow> nat" \<comment> \<open>\<open>id(obj)\<close>\<close>
  ws_class :: "'o \<Rightarrow> string" \<comment> \<open>\<open>type(obj).__name__\<close>\<close>
  ws_errors :: "(string \<times> string) list" \<comment> \<open>the declared errors, each with its base\<close>

record 'w walker =
  w_world :: 'w
  w_left :: int
  w_seen :: "nat list"
  w_truncated :: bool

definition new_walker :: "'w \<Rightarrow> int \<Rightarrow> 'w walker" where
  "new_walker w budget = \<lparr>w_world = w, w_left = budget, w_seen = [], w_truncated = False\<rparr>"

definition in_world :: "('w, 'a) eff \<Rightarrow> ('w walker, 'a) eff" where
  "in_world m = (\<lambda>s. let (r, w) = m (w_world s) in (r, s\<lparr>w_world := w\<rparr>))"

text \<open>\<open>try: m; except NixError: h\<close> takes \<open>NixError\<close> and every declared error below it: the bases are followed for as many
  steps as there are declared errors, more than any chain of them has.\<close>

fun below_nix :: "(string \<times> string) list \<Rightarrow> nat \<Rightarrow> string \<Rightarrow> bool" where
  "below_nix errs 0 n = (n = ''NixError'')"
| "below_nix errs (Suc k) n = (n = ''NixError'' \<or> (case map_of errs n of None \<Rightarrow> False | Some b \<Rightarrow> below_nix errs k b))"

definition is_nix :: "(string \<times> string) list \<Rightarrow> exn \<Rightarrow> bool" where
  "is_nix errs e = (case e of Raised n \<Rightarrow> below_nix errs (length errs) n | _ \<Rightarrow> False)"

definition catch_nix :: "(string \<times> string) list \<Rightarrow> ('s, 'a) eff \<Rightarrow> ('s, 'a) eff \<Rightarrow> ('s, 'a) eff" where
  "catch_nix errs m h = (\<lambda>s. case m s of (Inl e, s') \<Rightarrow> if is_nix errs e then h s' else (Inl e, s')
     | (Inr a, s') \<Rightarrow> (Inr a, s'))"

definition walk_key :: "('o, 'w) walk_spec \<Rightarrow> 'o \<Rightarrow> ('w walker, nat) eff" where
  "walk_key sp ob = (case ws_identity sp of Some how \<Rightarrow> in_world (how ob) | None \<Rightarrow> ret (ws_id sp ob))"

definition walk_stops :: "('o, 'w) walk_spec \<Rightarrow> 'o \<Rightarrow> ('w walker, bool) eff" where
  "walk_stops sp ob = (case ws_stop sp of None \<Rightarrow> ret False
     | Some stop \<Rightarrow> catch_nix (ws_errors sp) (in_world (stop ob)) (ret True))"

definition cut :: "('w walker, unit) eff" where
  "cut = (\<lambda>s. (Inr (), s\<lparr>w_truncated := True\<rparr>))"

text \<open>Whether the budget and the nodes seen let this node be expanded, and if so that it is.\<close>

definition admit :: "nat \<Rightarrow> ('w walker, bool) eff" where
  "admit k = (\<lambda>s. if w_left s \<le> 0 \<or> k \<in> set (w_seen s) then (Inr False, s)
     else (Inr True, s\<lparr>w_left := w_left s - 1, w_seen := k # w_seen s\<rparr>))"

definition forced :: "('o, 'w) walk_spec \<Rightarrow> bool \<Rightarrow> 'o \<Rightarrow> ('w walker, bool) eff" where
  "forced sp forcing ob = (case ws_force sp of
     Some f \<Rightarrow> if forcing then catch_nix (ws_errors sp) (bind_eff (in_world (f ob)) (\<lambda>_. ret True)) (ret False) else ret True
   | None \<Rightarrow> ret True)"

definition dict_of :: "('k \<times> 'v) list \<Rightarrow> ('k \<times> 'v) list" where
  "dict_of ps = fold (\<lambda>p d. dict_set (fst p) (snd p) d) ps []"

text \<open>Reading a node of a kind, with the walk of its children; a kind nothing describes stays. The
  names of an attribute set are the keys of one dict.\<close>

definition read_node ::
  "('o, 'w) walk_spec \<Rightarrow> bool \<Rightarrow> ('o \<Rightarrow> ('w walker, 'o node) eff) \<Rightarrow> 'o \<Rightarrow> ('o, 'w) reading option \<Rightarrow>
   ('w walker, 'o node) eff" where
  "read_node sp forcing child ob rd = (case rd of
       Some (RLeaf wr get) \<Rightarrow> bind_eff (in_world (get ob)) (\<lambda>v. ret (Leaf wr v))
     | Some RNull \<Rightarrow> ret (Leaf ''null'' PNone)
     | Some (RItems sz it) \<Rightarrow>
         bind_eff (in_world (sz ob)) (\<lambda>n.
           bind_eff (map_eff (\<lambda>i. bind_eff (in_world (it ob i)) child) [0..<n])
             (\<lambda>ns. ret (Items (ws_class sp ob) ob ns)))
     | Some (REntries sz nm vl) \<Rightarrow>
         bind_eff (if forcing then walk_stops sp ob else ret False) (\<lambda>st.
           if st then ret (Stays (ws_class sp ob) ob)
           else bind_eff (in_world (sz ob)) (\<lambda>n.
             bind_eff (map_eff (\<lambda>i. bind_eff (in_world (nm ob i)) (\<lambda>nme.
                 bind_eff (bind_eff (in_world (vl ob i)) child) (\<lambda>t. ret (KStr nme, t)))) [0..<n])
               (\<lambda>es. ret (Entries (ws_class sp ob) ob (dict_of es)))))
     | None \<Rightarrow> bind_eff cut (\<lambda>_. ret (Stays (ws_class sp ob) ob)))"

definition expand_node ::
  "('o, 'w) walk_spec \<Rightarrow> bool \<Rightarrow> ('o \<Rightarrow> ('w walker, 'o node) eff) \<Rightarrow> 'o \<Rightarrow> ('w walker, 'o node) eff" where
  "expand_node sp forcing child ob =
     bind_eff (forced sp forcing ob) (\<lambda>ok.
       if \<not> ok then ret (Stays (ws_class sp ob) ob)
       else bind_eff (in_world (ws_kind sp ob)) (\<lambda>kd. read_node sp forcing child ob (ws_kinds sp kd)))"

function walk :: "('o, 'w) walk_spec \<Rightarrow> bool \<Rightarrow> nat \<Rightarrow> 'o \<Rightarrow> nat \<Rightarrow> ('w walker, 'o node) eff" where
  "walk sp forcing limit ob depth =
     bind_eff (walk_key sp ob) (\<lambda>k.
       if limit \<le> depth then bind_eff cut (\<lambda>_. ret (Stays (ws_class sp ob) ob))
       else bind_eff (admit k) (\<lambda>go.
         if \<not> go then bind_eff cut (\<lambda>_. ret (Stays (ws_class sp ob) ob))
         else expand_node sp forcing (\<lambda>c. walk sp forcing limit c (depth + 1)) ob))"
  by pat_completeness auto
termination
  by (relation "measure (\<lambda>(sp, forcing, limit, ob, depth). limit - depth)") auto

declare walk.simps [simp del]

text \<open>\<open>realize\<close>: a walk with the bounds asked for, or the server's own. \<open>force\<close> is asked for and
  declared.\<close>

definition DEFAULT_DEPTH :: nat where "DEFAULT_DEPTH = 8"
definition DEFAULT_BUDGET :: int where "DEFAULT_BUDGET = 1000"

definition realize_walk ::
  "('o, 'w) walk_spec \<Rightarrow> int \<Rightarrow> int \<Rightarrow> bool \<Rightarrow> 'o \<Rightarrow> 'w \<Rightarrow> (exn + 'o node) \<times> 'w walker" where
  "realize_walk sp depth budget force ob w =
     walk sp (force \<and> ws_force sp \<noteq> None) (if depth > 0 then nat depth else DEFAULT_DEPTH) ob 0
       (new_walker w (if budget > 0 then budget else DEFAULT_BUDGET))"

subsection \<open>Building a value\<close>

record ('o, 'w) builds =
  bu_null :: "'o \<Rightarrow> ('w, 'o) eff"
  bu_leaf :: "string \<Rightarrow> ('o \<Rightarrow> pyval \<Rightarrow> ('w, 'o) eff) option"
  bu_items :: "'o \<Rightarrow> ('w, 'o) eff"
  bu_add_item :: "'o \<Rightarrow> 'o \<Rightarrow> 'o \<Rightarrow> ('w, unit) eff"
  bu_entries :: "'o \<Rightarrow> ('w, 'o) eff"
  bu_add_entry :: "'o \<Rightarrow> 'o \<Rightarrow> pykey \<Rightarrow> 'o \<Rightarrow> ('w, unit) eff"

text \<open>The match both \<open>handles\<close> and \<open>node\<close> make.\<close>

datatype data_view =
    DVNull
  | DVLeaf string pyval
  | DVStays string
  | DVItems "mp list"
  | DVEntries "(pykey \<times> mp) list"
  | DVBad

fun view_data :: "mp \<Rightarrow> data_view" where
  "view_data (MList [tag, v]) =
     (case node_tag tag of None \<Rightarrow> DVBad
      | Some n \<Rightarrow>
          if n = NODE_LEAF then
            (case v of MNil \<Rightarrow> DVNull | MBool x \<Rightarrow> DVLeaf ''bool'' (PBool x) | MInt i \<Rightarrow> DVLeaf ''int'' (PInt i)
             | MFloat f \<Rightarrow> DVLeaf ''float'' (PFloat f) | MStr s \<Rightarrow> DVLeaf ''str'' (PStr s) | _ \<Rightarrow> DVBad)
          else if n = NODE_STAYS then (case v of MStr h \<Rightarrow> DVStays h | _ \<Rightarrow> DVBad)
          else if n = NODE_ITEMS then (case v of MList ms \<Rightarrow> DVItems ms | _ \<Rightarrow> DVBad)
          else (case v of MMap es \<Rightarrow> DVEntries es | _ \<Rightarrow> DVBad))"
| "view_data _ = DVBad"

lemma view_data_size:
  "view_data raw = DVItems ms \<Longrightarrow> m \<in> set ms \<Longrightarrow> size m < size raw"
  "view_data raw = DVEntries es \<Longrightarrow> (k, m) \<in> set es \<Longrightarrow> size m < size raw"
proof -
  assume a: "view_data raw = DVItems ms" "m \<in> set ms"
  then obtain tag where "raw = MList [tag, MList ms]"
    by (cases raw rule: view_data.cases) (auto split: option.splits if_splits mp.splits)
  then show "size m < size raw" using size_mp_MList[OF a(2)] by simp
next
  assume a: "view_data raw = DVEntries es" "(k, m) \<in> set es"
  then obtain tag where "raw = MList [tag, MMap es]"
    by (cases raw rule: view_data.cases) (auto split: option.splits if_splits mp.splits)
  then show "size m < size raw" using size_mp_MMap[OF a(2)] by simp
qed

function build_handles :: "mp \<Rightarrow> string list" where
  "build_handles raw = (case view_data raw of
       DVStays h \<Rightarrow> [h]
     | DVItems ms \<Rightarrow> concat (map build_handles ms)
     | DVEntries es \<Rightarrow> concat (map (\<lambda>p. build_handles (snd p)) es)
     | _ \<Rightarrow> [])"
  by pat_completeness auto
termination by (relation "measure size") (auto simp: view_data_size)

declare build_handles.simps [simp del]

function build_node ::
  "('o, 'w) builds \<Rightarrow> ('o \<Rightarrow> string) \<Rightarrow> (string \<Rightarrow> 'o option) \<Rightarrow> 'o \<Rightarrow> mp \<Rightarrow> ('w, 'o node \<times> 'o) eff" where
  "build_node bu cls given st raw = (case view_data raw of
       DVNull \<Rightarrow> bind_eff (bu_null bu st) (\<lambda>made. ret (Leaf ''null'' PNone, made))
     | DVLeaf wr v \<Rightarrow> (case bu_leaf bu wr of None \<Rightarrow> raise KeyError
         | Some mk \<Rightarrow> bind_eff (mk st v) (\<lambda>made. ret (Leaf wr v, made)))
     | DVStays h \<Rightarrow> (case given h of None \<Rightarrow> raise KeyError
         | Some ob \<Rightarrow> ret (Stays (cls ob) ob, ob))
     | DVItems ms \<Rightarrow> bind_eff (bu_items bu st) (\<lambda>made.
         bind_eff (map_eff (\<lambda>m. bind_eff (build_node bu cls given st m) (\<lambda>nm.
             bind_eff (bu_add_item bu st made (snd nm)) (\<lambda>_. ret (fst nm)))) ms)
           (\<lambda>ns. ret (Items (cls made) made ns, made)))
     | DVEntries es \<Rightarrow> bind_eff (bu_entries bu st) (\<lambda>made.
         bind_eff (map_eff (\<lambda>p. bind_eff (build_node bu cls given st (snd p)) (\<lambda>nm.
             bind_eff (bu_add_entry bu st made (fst p) (snd nm)) (\<lambda>_. ret (fst p, fst nm)))) es)
           (\<lambda>ns. ret (Entries (cls made) made (dict_of ns), made)))
     | DVBad \<Rightarrow> raise ProtocolError)"
  by pat_completeness auto
termination
  by (relation "measure (\<lambda>(bu, cls, given, st, raw). size raw)") (auto simp: view_data_size)

declare build_node.simps [simp del]

definition build_root ::
  "('o, 'w) builds \<Rightarrow> ('o \<Rightarrow> string) \<Rightarrow> (string \<Rightarrow> 'o option) \<Rightarrow> 'o \<Rightarrow> mp \<Rightarrow> ('w, 'o node) eff" where
  "build_root bu cls given st raw = bind_eff (build_node bu cls given st raw) (\<lambda>nm.
     ret (case fst nm of Leaf wr v \<Rightarrow> Stays (cls (snd nm)) (snd nm) | n \<Rightarrow> n))"

end
