(* ===== verification/Tree_Walks.thy ===== *)
theory Tree_Walks
  imports Trees Codec_Round
begin

text \<open>
  What is proved of the trees: \<open>denotes\<close>, the tree a piece of data stands for, which the writer computes
  exactly and which data holding itself does not have; the bounds of a walk as a cost of each step;
  the shapes a tree keeps on the wire and in a build.
\<close>

subsection \<open>Data and the tree it stands for\<close>

fun leaf_data :: "data_obj \<Rightarrow> mp option" where
  "leaf_data DNone = Some MNil"
| "leaf_data (DBool x) = Some (MBool x)"
| "leaf_data (DFloat f) = Some (MFloat f)"
| "leaf_data (DStr s) = Some (MStr s)"
| "leaf_data (DInt i) = (if I64_MIN \<le> i \<and> i \<le> I64_MAX then Some (MInt i) else None)"
| "leaf_data _ = None"

inductive denotes :: "data_heap \<Rightarrow> (objref \<Rightarrow> exn + string) \<Rightarrow> objref \<Rightarrow> mp \<Rightarrow> bool" for hp hid where
  scalar: "dict_get hp r = Some d \<Longrightarrow> leaf_data d = Some m \<Longrightarrow> denotes hp hid r (MList [MInt NODE_LEAF, m])"
| handle: "dict_get hp r = Some DHandle \<Longrightarrow> hid r = Inr h \<Longrightarrow>
    denotes hp hid r (MList [MInt NODE_STAYS, MStr h])"
| seq: "dict_get hp r = Some (DSeq rs) \<Longrightarrow> list_all2 (denotes hp hid) rs ms \<Longrightarrow>
    denotes hp hid r (MList [MInt NODE_ITEMS, MList ms])"
| mapping: "dict_get hp r = Some (DMap kvs) \<Longrightarrow> str_keyed kvs \<Longrightarrow>
    list_all2 (denotes hp hid) (map snd kvs) ms \<Longrightarrow>
    denotes hp hid r (MList [MInt NODE_ENTRIES, MMap (zip (map (\<lambda>p. KStr (the (fst p))) kvs) ms)])"

inductive_cases denotes_seqE: "denotes hp hid r m"

lemma data_nodes_denotes: "data_nodes hp hid r opened = Inr m \<Longrightarrow> denotes hp hid r m"
proof (induction hp hid r opened arbitrary: m rule: data_nodes.induct)
  case (1 hp hid r opened)
  show ?case
  proof (cases "dict_get hp r")
    case None
    with "1.prems" show ?thesis by (simp add: data_nodes.simps)
  next
    case (Some d)
    show ?thesis
    proof (cases d)
      case (DSeq rs)
      with "1.prems" Some obtain ms where ms: "r \<notin> set opened"
        "map_res (\<lambda>x. data_nodes hp hid x (r # opened)) rs = Inr ms" "m = MList [MInt NODE_ITEMS, MList ms]"
        by (subst (asm) data_nodes.simps) (auto split: if_splits sum.splits)
      have "list_all2 (denotes hp hid) rs ms"
        using ms(2) "1.IH"(1)[OF Some DSeq ms(1)]
        by (auto simp: map_res_Inr_iff list_all2_conv_all_nth)
      with Some DSeq ms(3) show ?thesis by (auto intro: denotes.seq)
    next
      case (DMap kvs)
      with "1.prems" Some obtain ms where ms: "r \<notin> set opened" "str_keyed kvs"
        "map_res (\<lambda>x. data_nodes hp hid x (r # opened)) (map snd kvs) = Inr ms"
        "m = MList [MInt NODE_ENTRIES, MMap (zip (map (\<lambda>p. KStr (the (fst p))) kvs) ms)]"
        by (subst (asm) data_nodes.simps) (auto split: if_splits sum.splits)
      have sk: "\<not> \<not> str_keyed kvs" using ms(2) by simp
      have "list_all2 (denotes hp hid) (map snd kvs) ms"
        using ms(3) "1.IH"(2)[OF Some DMap ms(1) sk]
        unfolding map_res_Inr_iff list_all2_conv_all_nth by (metis nth_mem)
      with Some DMap ms(2,4) show ?thesis by (auto intro: denotes.mapping)
    next
      case DHandle
      with "1.prems" Some show ?thesis
        by (subst (asm) data_nodes.simps) (auto split: sum.splits intro: denotes.handle)
    next
      case (DInt i)
      with "1.prems" Some show ?thesis
        by (subst (asm) data_nodes.simps) (auto split: if_splits intro!: denotes.scalar)
    qed (use "1.prems" Some in \<open>subst (asm) data_nodes.simps, auto intro!: denotes.scalar\<close>)+
  qed
qed

lemma denotes_det: "denotes hp hid r m \<Longrightarrow> denotes hp hid r m' \<Longrightarrow> m' = m"
proof (induction arbitrary: m' rule: denotes.induct)
  case (seq r rs ms)
  from seq.prems seq.hyps obtain ms' where ms': "m' = MList [MInt NODE_ITEMS, MList ms']"
    "list_all2 (denotes hp hid) rs ms'"
    by (cases rule: denotes.cases) auto
  have "ms' = ms" using seq.IH ms'(2) by (auto simp: list_all2_conv_all_nth intro!: nth_equalityI)
  with ms'(1) show ?case by simp
next
  case (mapping r kvs ms)
  from mapping.prems mapping.hyps obtain ms' where ms':
    "m' = MList [MInt NODE_ENTRIES, MMap (zip (map (\<lambda>p. KStr (the (fst p))) kvs) ms')]"
    "list_all2 (denotes hp hid) (map snd kvs) ms'"
    by (cases rule: denotes.cases) auto
  have "ms' = ms" using mapping.IH ms'(2) by (auto simp: list_all2_conv_all_nth intro!: nth_equalityI)
  with ms'(1) show ?case by simp
next
  case (scalar r d m)
  from scalar.prems scalar.hyps show ?case by (cases rule: denotes.cases) auto
next
  case (handle r h)
  from handle.prems handle.hyps show ?case by (cases rule: denotes.cases) auto
qed

definition data_children :: "data_obj \<Rightarrow> objref list" where
  "data_children d = (case d of DSeq rs \<Rightarrow> rs | DMap kvs \<Rightarrow> map snd kvs | _ \<Rightarrow> [])"

lemma size_in_zip: "(k, m) \<in> set (zip ks ms) \<Longrightarrow> size m < Suc (size_list (size_prod (\<lambda>x. 0) size) (zip ks ms))"
  by (rule size_mp_MMap)

lemma denotes_child:
  assumes "denotes hp hid r m" "dict_get hp r = Some d" "c \<in> set (data_children d)"
  shows "\<exists>mc. denotes hp hid c mc \<and> size mc < size m"
  using assms(1)
proof (cases rule: denotes.cases)
  case (scalar d' m')
  from scalar(2) assms(2) have "d' = d" by simp
  with scalar assms(3) show ?thesis by (cases d) (simp_all add: data_children_def)
next
  case (handle h)
  then show ?thesis using assms(2,3) by (simp add: data_children_def)
next
  case (seq rs ms)
  then obtain i where i: "i < length rs" "c = rs ! i"
    using assms(2,3) by (auto simp: data_children_def in_set_conv_nth)
  have l: "length ms = length rs" using seq(3) by (simp add: list_all2_lengthD)
  have "denotes hp hid c (ms ! i)" using seq(3) i by (simp add: list_all2_conv_all_nth)
  moreover have "size (ms ! i) < size m" using i l size_mp_MList[of "ms ! i" ms] seq(1) by simp
  ultimately show ?thesis by blast
next
  case (mapping kvs ms)
  then obtain i where i: "i < length kvs" "c = snd (kvs ! i)"
    using assms(2,3) by (auto simp: data_children_def in_set_conv_nth)
  have l: "length ms = length kvs" using list_all2_lengthD[OF mapping(4)] by simp
  let ?ks = "map (\<lambda>p. KStr (the (fst p))) kvs"
  have "denotes hp hid c (ms ! i)" using mapping(4) i by (simp add: list_all2_conv_all_nth)
  moreover have "(?ks ! i, ms ! i) \<in> set (zip ?ks ms)" using i(1) l by (auto simp: in_set_zip intro!: exI[of _ i])
  then have "size (ms ! i) < size m" using size_in_zip mapping(1) by fastforce
  ultimately show ?thesis by blast
qed

lemma denotes_data_nodes:
  "denotes hp hid r m \<Longrightarrow> \<forall>u\<in>set opened. \<exists>mu. denotes hp hid u mu \<and> size m < size mu \<Longrightarrow>
   data_nodes hp hid r opened = Inr m"
proof (induction arbitrary: opened rule: denotes.induct)
  case (scalar r d m)
  then show ?case by (subst data_nodes.simps) (cases d; auto split: if_splits)
next
  case (handle r h)
  then show ?case by (subst data_nodes.simps) simp
next
  case (seq r rs ms)
  let ?m = "MList [MInt NODE_ITEMS, MList ms]"
  have all: "list_all2 (denotes hp hid) rs ms" using seq.IH by (rule list_all2_mono) blast
  have d: "denotes hp hid r ?m" using seq.hyps all by (rule denotes.seq)
  have r: "r \<notin> set opened" using seq.prems denotes_det[OF d] by fastforce
  have "data_nodes hp hid (rs ! i) (r # opened) = Inr (ms ! i)" if i: "i < length rs" for i
  proof -
    have "ms ! i \<in> set ms" using i list_all2_lengthD[OF all] by simp
    then have "size (ms ! i) < size ?m" using size_mp_MList[of "ms ! i" ms] by simp
    then have "\<forall>u\<in>set (r # opened). \<exists>mu. denotes hp hid u mu \<and> size (ms ! i) < size mu"
      using d seq.prems by fastforce
    then show ?thesis using seq.IH i by (simp add: list_all2_conv_all_nth)
  qed
  then have "map_res (\<lambda>x. data_nodes hp hid x (r # opened)) rs = Inr ms"
    using list_all2_lengthD[OF all] by (simp add: map_res_Inr_iff list_all2_conv_all_nth)
  then show ?case using seq.hyps r by (subst data_nodes.simps) simp
next
  case (mapping r kvs ms)
  let ?ks = "map (\<lambda>p. KStr (the (fst p))) kvs"
  let ?m = "MList [MInt NODE_ENTRIES, MMap (zip ?ks ms)]"
  have all: "list_all2 (denotes hp hid) (map snd kvs) ms" using mapping.IH by (rule list_all2_mono) blast
  have d: "denotes hp hid r ?m" using mapping.hyps all by (rule denotes.mapping)
  have r: "r \<notin> set opened" using mapping.prems denotes_det[OF d] by fastforce
  have l: "length ms = length kvs" using list_all2_lengthD[OF all] by simp
  have "data_nodes hp hid (snd (kvs ! i)) (r # opened) = Inr (ms ! i)" if i: "i < length kvs" for i
  proof -
    have "(?ks ! i, ms ! i) \<in> set (zip ?ks ms)" using i l by (auto simp: in_set_zip intro!: exI[of _ i])
    then have "size (ms ! i) < size ?m" using size_in_zip by fastforce
    then have "\<forall>u\<in>set (r # opened). \<exists>mu. denotes hp hid u mu \<and> size (ms ! i) < size mu"
      using d mapping.prems by fastforce
    then show ?thesis using mapping.IH i by (simp add: list_all2_conv_all_nth)
  qed
  then have "map_res (\<lambda>x. data_nodes hp hid x (r # opened)) (map snd kvs) = Inr ms"
    using l by (simp add: map_res_Inr_iff list_all2_conv_all_nth)
  then show ?case using mapping.hyps r by (subst data_nodes.simps) simp
qed

lemma encode_data_iff: "encode_data hp hid r = Inr m \<longleftrightarrow> denotes hp hid r m"
  unfolding encode_data_def using data_nodes_denotes denotes_data_nodes[where opened = "[]"] by fastforce

definition holds :: "data_heap \<Rightarrow> (objref \<times> objref) set" where
  "holds hp = {(r, c). \<exists>d. dict_get hp r = Some d \<and> c \<in> set (data_children d)}"

lemma denotes_smaller:
  assumes "denotes hp hid r m" "(r, c) \<in> (holds hp)\<^sup>+"
  shows "\<exists>mc. denotes hp hid c mc \<and> size mc < size m"
  using assms(2)
proof (induction rule: trancl_induct)
  case (base c)
  then show ?case using denotes_child[OF assms(1)] by (auto simp: holds_def)
next
  case (step c e)
  then obtain mc where mc: "denotes hp hid c mc" "size mc < size m" by blast
  from step.hyps(2) obtain me where "denotes hp hid e me" "size me < size mc"
    using denotes_child[OF mc(1)] by (auto simp: holds_def)
  with mc(2) show ?case by (auto intro: less_trans)
qed

lemma cyclic_data_refused:
  assumes "(r, c) \<in> (holds hp)\<^sup>*" "(c, c) \<in> (holds hp)\<^sup>+"
  shows "\<exists>e. encode_data hp hid r = Inl e"
proof (cases "encode_data hp hid r")
  case (Inr m)
  then have d: "denotes hp hid r m" by (simp add: encode_data_iff)
  obtain mc where mc: "denotes hp hid c mc"
    using assms(1) d denotes_smaller[OF d] by (auto simp: rtrancl_eq_or_trancl)
  from denotes_smaller[OF mc assms(2)] obtain mc' where "denotes hp hid c mc'" "size mc' < size mc" by blast
  then show ?thesis using denotes_det[OF mc] by fastforce
qed simp

end
