(* ===== verification/Tree_Round.thy ===== *)
theory Tree_Round
  imports Tree_Walks
begin

text \<open>
  Trees over the wire and back. \<open>minted\<close> is a tree with each object replaced by the handle it was
  given, made in the order the tree is read; \<open>shown\<close> what the far side makes of it. Then the values
  a build makes: its answer holds exactly the data it was sent.
\<close>

subsection \<open>Handles for the objects of a tree\<close>

fun minted :: "(string \<Rightarrow> 'o \<Rightarrow> ('s, string) eff) \<Rightarrow> 'o node \<Rightarrow> ('s, string node) eff" where
  "minted pid (Leaf wr v) = ret (Leaf wr v)"
| "minted pid (Stays cls ob) = bind_eff (pid cls ob) (\<lambda>h. ret (Stays cls h))"
| "minted pid (Items cls ob ns) = bind_eff (pid cls ob) (\<lambda>h. bind_eff (map_eff (minted pid) ns)
       (\<lambda>ms. ret (Items cls h ms)))"
| "minted pid (Entries cls ob es) = bind_eff (pid cls ob) (\<lambda>h.
     bind_eff (map_eff (\<lambda>p. bind_eff (minted pid (snd p)) (\<lambda>m. ret (fst p, m))) es)
       (\<lambda>ms. ret (Entries cls h ms)))"

datatype shown = Proxy string string | View string string "shown contents"

definition key_le :: "pykey \<times> 'v \<Rightarrow> pykey \<times> 'v \<Rightarrow> bool" where
  "key_le p q = lex_le (key_codes (fst p)) (key_codes (fst q))"

text \<open>The value a leaf carries on the wire.\<close>

definition leaf_wire :: "bindings \<Rightarrow> string \<Rightarrow> pyval \<Rightarrow> exn + mp" where
  "leaf_wire b wr v = (if v = PNone then Inr MNil
     else case SCALARS wr of None \<Rightarrow> Inl KeyError | Some t \<Rightarrow> scalar_conv b t wr v)"

fun show_tree :: "bindings \<Rightarrow> string node \<Rightarrow> shown tval" where
  "show_tree b (Leaf wr v) = (case leaf_wire b wr v of Inl e \<Rightarrow> TVal MNil | Inr m \<Rightarrow> TVal m)"
| "show_tree b (Stays cls h) = TObj (Proxy cls h)"
| "show_tree b (Items cls h ns) = TObj (View cls h (CItems (map (show_tree b) ns)))"
| "show_tree b (Entries cls h es) =
     TObj (View cls h (CEntries (sort_by key_le (map (\<lambda>p. (fst p, show_tree b (snd p))) es))))"

fun names_ok :: "'o node \<Rightarrow> bool" where
  "names_ok (Leaf wr v) = True"
| "names_ok (Stays cls ob) = True"
| "names_ok (Items cls ob ns) = list_all names_ok ns"
| "names_ok (Entries cls ob es) = (list_all (is_str_key \<circ> fst) es \<and> list_all (\<lambda>p. names_ok (snd p)) es)"

definition obj_proxy :: "string \<Rightarrow> string \<Rightarrow> ('s, shown) eff" where
  "obj_proxy cls h = ret (Proxy cls h)"

definition obj_view :: "string \<Rightarrow> string \<Rightarrow> shown contents \<Rightarrow> ('s, shown) eff" where
  "obj_view cls h c = ret (View cls h c)"

subsection \<open>Sorting by name looks at the names only\<close>

lemma insert_by_map:
  "(\<And>x y. le' (f x) (f y) = le x y) \<Longrightarrow> insert_by le' (f x) (map f ys) = map f (insert_by le x ys)"
  by (induction ys) auto

lemma sort_by_map:
  assumes "\<And>x y. le' (f x) (f y) = le x y"
  shows "sort_by le' (map f xs) = map f (sort_by le xs)"
proof (induction xs)
  case (Cons x xs)
  then show ?case using insert_by_map[of le' f le x, OF assms] by (simp add: sort_by_def)
qed (simp add: sort_by_def)

lemma sorted_entries_str:
  "list_all (is_str_key \<circ> fst) es \<Longrightarrow> sorted_entries es = Inr (sort_by key_le es)"
  by (simp add: sorted_entries_def key_le_def[abs_def])

lemma node_tag_small [simp]:
  "node_tag (MInt NODE_LEAF) = Some NODE_LEAF" "node_tag (MInt NODE_STAYS) = Some NODE_STAYS"
  "node_tag (MInt NODE_ITEMS) = Some NODE_ITEMS" "node_tag (MInt NODE_ENTRIES) = Some NODE_ENTRIES"
  by (simp_all add: node_tags)

lemma node_view_made [simp]:
  "node_view (MList [MInt NODE_LEAF, m]) = Inr (VLeaf m)"
  "node_view (MList [MInt NODE_STAYS, MStr c, MStr h]) = Inr (VStays c h)"
  "node_view (MList [MInt NODE_ITEMS, MStr c, MStr h, MList ms]) = Inr (VItems c h ms)"
  "node_view (MList [MInt NODE_ENTRIES, MStr c, MStr h, MMap es]) = Inr (VEntries c h es)"
  by (simp_all add: node_tags)

declare node_view.simps [simp del] node_tag.simps [simp del]

subsection \<open>Encoding mints, and the far side reads what was minted\<close>

definition reads_as :: "bindings \<Rightarrow> mp \<Rightarrow> string node \<Rightarrow> bool" where
  "reads_as b m n \<longleftrightarrow> (\<forall>t. decode_tree obj_proxy obj_view m t = (Inr (show_tree b n), t :: unit))"

lemma reads_as_list:
  "list_all2 (reads_as b) ms ns \<Longrightarrow>
   map_eff (decode_tree obj_proxy obj_view) ms t = (Inr (map (show_tree b) ns), t)" for t :: unit
  by (intro map_eff_pure) (auto simp: reads_as_def list_all2_map2 elim: list_all2_mono)

lemma reads_as_entries:
  assumes "list_all2 (\<lambda>p q. fst p = fst q \<and> reads_as b (snd p) (snd q)) ms ns" "list_all (is_str_key \<circ> fst) ns"
  shows "reads_as b (MList [MInt NODE_ENTRIES, MStr c, MStr h, MMap ms]) (Entries c h ns)"
proof -
  let ?f = "\<lambda>p. (fst p, show_tree b (snd p))"
  have str: "list_all (is_str_key \<circ> fst) ms"
    using assms by (auto simp: list_all2_conv_all_nth list_all_length)
  let ?zip = "zip ms ns"
  have ms: "ms = map fst ?zip" and ns: "ns = map snd ?zip"
    using assms(1) by (simp_all add: list_all2_lengthD)
  have z: "\<forall>z\<in>set ?zip. fst (fst z) = fst (snd z) \<and> reads_as b (snd (fst z)) (snd (snd z))"
    using assms(1) by (auto simp: list_all2_iff)
  let ?d = "\<lambda>p. (fst p, THE v. decode_tree obj_proxy obj_view (snd p) () = (Inr v, ()))"
  have the: "?d (fst z) = ?f (snd z)" if "z \<in> set ?zip" for z
    using z that by (auto simp: reads_as_def)
  have sorted: "sort_by key_le (map ?f ns) = map ?d (sort_by key_le ms)"
  proof -
    have "map ?f ns = map ?d ms" using the by (subst ms, subst ns) simp
    then show ?thesis using sort_by_map[of key_le ?d key_le ms] by (simp add: key_le_def)
  qed
  have "map_items (decode_tree obj_proxy obj_view) (sort_by key_le ms) t = (Inr (map ?d (sort_by key_le ms)), t)"
    for t :: unit
  proof (rule map_items_pure)
    have "decode_tree obj_proxy obj_view (snd p) t = (Inr (snd (?d p)), t)" if "p \<in> set ms" for p
    proof -
      from that ms obtain z' where "z' \<in> set ?zip" "p = fst z'" by (metis (no_types, lifting) imageE list.set_map)
      then show ?thesis using z by (auto simp: reads_as_def)
    qed
    then show "list_all2 (\<lambda>p q. fst q = fst p \<and> decode_tree obj_proxy obj_view (snd p) t = (Inr (snd q), t))
        (sort_by key_le ms) (map ?d (sort_by key_le ms))"
      by (simp add: list_all2_map2 list.rel_refl_strong list_all2_same)
  qed
  then show ?thesis
    unfolding reads_as_def
    by (subst decode_tree.simps) (simp add: sorted_entries_str[OF str] entries_of_def obj_view_def sorted)
qed

lemma map_eff_minted:
  assumes "map_eff f xs s = (Inr ms, s')"
    "\<And>x t m t'. x \<in> set xs \<Longrightarrow> f x t = (Inr m, t') \<Longrightarrow> \<exists>y. g x t = (Inr y, t') \<and> R m y"
  shows "\<exists>ys. map_eff g xs s = (Inr ys, s') \<and> list_all2 R ms ys"
  using assms
proof (induction xs arbitrary: s ms)
  case (Cons x xs)
  from Cons.prems(1) obtain m s1 ms' where st: "f x s = (Inr m, s1)" "map_eff f xs s1 = (Inr ms', s')" "ms = m # ms'"
    by (auto simp: bind_eff_Inr_iff)
  obtain y where "g x s = (Inr y, s1)" "R m y" using Cons.prems(2)[OF _ st(1)] by auto
  moreover obtain ys where "map_eff g xs s1 = (Inr ys, s')" "list_all2 R ms' ys"
    using Cons.IH[OF st(2)] Cons.prems(2) by (meson list.set_intros(2))
  ultimately show ?case using st(3) by auto
qed simp

lemma encode_tree_minted:
  assumes "encode_tree b pid n s = (Inr m, s')" "names_ok n"
  shows "\<exists>n'. minted pid n s = (Inr n', s') \<and> reads_as b m n'"
  using assms
proof (induction n arbitrary: s m s')
  case (Leaf wr v)
  then show ?case
    by (auto simp: bind_eff_Inr_iff leaf_wire_def reads_as_def decode_tree.simps[of _ _ "MList _"]
        dest!: sym[of "Inr _"] split: if_splits option.splits)
next
  case (Stays cls ob)
  then show ?case
    by (fastforce simp: bind_eff_Inr_iff reads_as_def decode_tree.simps obj_proxy_def)
next
  case (Items cls ob ns)
  from Items.prems(1) obtain h s1 ms where st: "pid cls ob s = (Inr h, s1)"
    "map_eff (encode_tree b pid) ns s1 = (Inr ms, s')" "m = MList [MInt NODE_ITEMS, MStr cls, MStr h, MList ms]"
    by (auto simp: bind_eff_Inr_iff)
  obtain ns' where ns': "map_eff (minted pid) ns s1 = (Inr ns', s')" "list_all2 (reads_as b) ms ns'"
    using map_eff_minted[OF st(2), of "minted pid" "reads_as b"] Items.IH Items.prems(2) by (auto simp: list_all_iff)
  have "reads_as b m (Items cls h ns')"
    using reads_as_list[OF ns'(2)] unfolding reads_as_def st(3)
    by (auto simp: decode_tree.simps[of _ _ "MList _"] obj_view_def)
  with st(1) ns'(1) show ?case by auto
next
  case (Entries cls ob es)
  let ?enc = "\<lambda>p. bind_eff (encode_tree b pid (snd p)) (\<lambda>m. ret (fst p, m))"
  let ?min = "\<lambda>p. bind_eff (minted pid (snd p)) (\<lambda>m. ret (fst p, m))"
  let ?R = "\<lambda>p q. fst p = fst q \<and> is_str_key (fst q) \<and> reads_as b (snd p) (snd q)"
  from Entries.prems(1) obtain h s1 ms where st: "pid cls ob s = (Inr h, s1)"
    "map_eff ?enc es s1 = (Inr ms, s')" "m = MList [MInt NODE_ENTRIES, MStr cls, MStr h, MMap ms]"
    by (auto simp: bind_eff_Inr_iff)
  have "\<exists>y. ?min p t = (Inr y, t') \<and> ?R q y" if p: "p \<in> set es" and q: "?enc p t = (Inr q, t')" for p t q t'
  proof -
    from q obtain x where x: "encode_tree b pid (snd p) t = (Inr x, t')" "q = (fst p, x)"
      by (auto simp: bind_eff_Inr_iff)
    have ok: "is_str_key (fst p)" "names_ok (snd p)" using Entries.prems(2) p by (auto simp: list_all_iff)
    from Entries.IH[of p "snd p", OF p _ x(1) ok(2)] obtain y where
      "minted pid (snd p) t = (Inr y, t')" "reads_as b x y" by (cases p) auto
    with x(2) ok(1) show ?thesis by auto
  qed
  from map_eff_minted[OF st(2), of ?min ?R, OF this] obtain es' where
    es': "map_eff ?min es s1 = (Inr es', s')" "list_all2 ?R ms es'" by blast
  have "reads_as b m (Entries cls h es')" unfolding st(3)
    by (rule reads_as_entries) (use es'(2) in \<open>auto simp: list_all2_conv_all_nth list_all_length\<close>)
  with st(1) es'(1) show ?case by auto
qed

subsection \<open>Building\<close>

text \<open>The data a built tree stands for, by the handle of each object.\<close>

fun leaf_mp :: "pyval \<Rightarrow> mp" where
  "leaf_mp (PBool x) = MBool x"
| "leaf_mp (PInt i) = MInt i"
| "leaf_mp (PFloat f) = MFloat f"
| "leaf_mp (PStr s) = MStr s"
| "leaf_mp _ = MNil"

fun node_data :: "('o \<Rightarrow> string) \<Rightarrow> 'o node \<Rightarrow> mp" where
  "node_data hof (Leaf wr v) = MList [MInt NODE_LEAF, leaf_mp v]"
| "node_data hof (Stays cls ob) = MList [MInt NODE_STAYS, MStr (hof ob)]"
| "node_data hof (Items cls ob ns) = MList [MInt NODE_ITEMS, MList (map (node_data hof) ns)]"
| "node_data hof (Entries cls ob es) =
     MList [MInt NODE_ENTRIES, MMap (map (\<lambda>p. (fst p, node_data hof (snd p))) es)]"

text \<open>Data as \<open>encode_data\<close> writes it: the tags are ints, and no name comes twice.\<close>

inductive plain_data :: "mp \<Rightarrow> bool" where
  nil: "plain_data (MList [MInt NODE_LEAF, MNil])"
| bool: "plain_data (MList [MInt NODE_LEAF, MBool x])"
| int: "plain_data (MList [MInt NODE_LEAF, MInt i])"
| float: "plain_data (MList [MInt NODE_LEAF, MFloat f])"
| str: "plain_data (MList [MInt NODE_LEAF, MStr s])"
| stays: "plain_data (MList [MInt NODE_STAYS, MStr h])"
| items: "\<forall>m\<in>set ms. plain_data m \<Longrightarrow> plain_data (MList [MInt NODE_ITEMS, MList ms])"
| entries: "\<forall>p\<in>set es. plain_data (snd p) \<Longrightarrow> distinct (map fst es) \<Longrightarrow>
    plain_data (MList [MInt NODE_ENTRIES, MMap es])"

lemma view_data_made [simp]:
  "view_data (MList [MInt NODE_LEAF, MNil]) = DVNull"
  "view_data (MList [MInt NODE_LEAF, MBool x]) = DVLeaf ''bool'' (PBool x)"
  "view_data (MList [MInt NODE_LEAF, MInt i]) = DVLeaf ''int'' (PInt i)"
  "view_data (MList [MInt NODE_LEAF, MFloat f]) = DVLeaf ''float'' (PFloat f)"
  "view_data (MList [MInt NODE_LEAF, MStr s]) = DVLeaf ''str'' (PStr s)"
  "view_data (MList [MInt NODE_STAYS, MStr h]) = DVStays h"
  "view_data (MList [MInt NODE_ITEMS, MList ms]) = DVItems ms"
  "view_data (MList [MInt NODE_ENTRIES, MMap es]) = DVEntries es"
  by (simp_all add: node_tags node_tag.simps)

lemma node_tags_distinct:
  "NODE_LEAF \<noteq> NODE_STAYS" "NODE_LEAF \<noteq> NODE_ITEMS" "NODE_LEAF \<noteq> NODE_ENTRIES" "NODE_STAYS \<noteq> NODE_LEAF" "NODE_STAYS \<noteq> NODE_ITEMS" "NODE_STAYS \<noteq> NODE_ENTRIES" "NODE_ITEMS \<noteq> NODE_LEAF" "NODE_ITEMS \<noteq> NODE_STAYS" "NODE_ITEMS \<noteq> NODE_ENTRIES" "NODE_ENTRIES \<noteq> NODE_LEAF" "NODE_ENTRIES \<noteq> NODE_STAYS" "NODE_ENTRIES \<noteq> NODE_ITEMS"
  by (simp_all add: node_tags)

declare view_data.simps [simp del]

lemma dict_set_fresh: "k \<notin> set (dict_keys d) \<Longrightarrow> dict_set k v d = d @ [(k, v)]"
  unfolding dict_set_def by (induction d) auto

lemma dict_of_distinct:
  assumes "distinct (map fst ps)"
  shows "dict_of ps = ps"
proof -
  have "fold (\<lambda>p d. dict_set (fst p) (snd p) d) ps d = d @ ps"
    if "distinct (map fst d @ map fst ps)" for d
    using that
  proof (induction ps arbitrary: d)
    case (Cons p ps)
    then show ?case using Cons.IH[of "d @ [p]"] by (cases p) (simp add: dict_set_fresh)
  qed simp
  from this[of "[]"] assms show ?thesis by (simp add: dict_of_def)
qed

text \<open>The builders when none of them raises, and what the handles name.\<close>

definition builds_all :: "('o, 'w) builds \<Rightarrow> bool" where
  "builds_all bu \<longleftrightarrow>
     (\<forall>st w. \<exists>r w'. bu_null bu st w = (Inr r, w')) \<and> (\<forall>st w. \<exists>r w'. bu_items bu st w = (Inr r, w'))
     \<and> (\<forall>st w. \<exists>r w'. bu_entries bu st w = (Inr r, w'))
     \<and> (\<forall>st m c w. \<exists>w'. bu_add_item bu st m c w = (Inr (), w'))
     \<and> (\<forall>st m k c w. \<exists>w'. bu_add_entry bu st m k c w = (Inr (), w'))
     \<and> (\<forall>wr\<in>{''bool'', ''int'', ''float'', ''str''}.
          \<exists>mk. bu_leaf bu wr = Some mk \<and> (\<forall>st v w. \<exists>r w'. mk st v w = (Inr r, w')))"

lemma builds_allD:
  assumes "builds_all bu"
  shows "\<exists>r w'. bu_null bu st w = (Inr r, w')" "\<exists>r w'. bu_items bu st w = (Inr r, w')"
    "\<exists>r w'. bu_entries bu st w = (Inr r, w')" "\<exists>w'. bu_add_item bu st m c w = (Inr (), w')"
    "\<exists>w'. bu_add_entry bu st m k c w = (Inr (), w')"
    "wr \<in> {''bool'', ''int'', ''float'', ''str''} \<Longrightarrow>
       \<exists>mk. bu_leaf bu wr = Some mk \<and> (\<forall>st v w. \<exists>r w'. mk st v w = (Inr r, w'))"
  using assms unfolding builds_all_def by (simp_all, elim disjE conjE) simp_all

lemma map_eff_total:
  assumes "\<And>x t. x \<in> set xs \<Longrightarrow> \<exists>y t'. f x t = (Inr y, t') \<and> R x y"
  shows "\<exists>ys s'. map_eff f xs s = (Inr ys, s') \<and> list_all2 R xs ys"
  using assms
proof (induction xs arbitrary: s)
  case (Cons x xs)
  obtain y s1 where y: "f x s = (Inr y, s1)" "R x y" using Cons.prems[of x s] by auto
  moreover obtain ys s' where "map_eff f xs s1 = (Inr ys, s')" "list_all2 R xs ys"
    using Cons.IH[of s1] Cons.prems by (meson list.set_intros(2))
  ultimately show ?case by (auto intro!: exI)
qed simp

lemma build_handles_made:
  "build_handles (MList [MInt NODE_STAYS, MStr h]) = [h]"
  "build_handles (MList [MInt NODE_ITEMS, MList ms]) = concat (map build_handles ms)"
  "build_handles (MList [MInt NODE_ENTRIES, MMap es]) = concat (map (\<lambda>p. build_handles (snd p)) es)"
  by (subst build_handles.simps, simp del: view_data.simps)+

lemma build_node_echoes:
  assumes all: "builds_all bu" and "plain_data m"
    and "\<forall>h\<in>set (build_handles m). \<exists>ob. given h = Some ob \<and> hof ob = h"
  shows "\<exists>n made w'. build_node bu cls given st m w = (Inr (n, made), w') \<and> node_data hof n = m"
  using assms(2,3)
proof (induction arbitrary: w rule: plain_data.induct)
  case nil
  obtain r w' where "bu_null bu st w = (Inr r, w')" using builds_allD(1)[OF all] by blast
  then show ?case by (subst build_node.simps) simp
next
  case (bool x)
  obtain mk where "bu_leaf bu ''bool'' = Some mk" "\<forall>st v w. \<exists>r w'. mk st v w = (Inr r, w')"
    using builds_allD(6)[OF all, of "''bool''"] by auto
  moreover then obtain r w' where "mk st (PBool x) w = (Inr r, w')" by blast
  ultimately show ?case by (subst build_node.simps) simp
next
  case (int x)
  obtain mk where "bu_leaf bu ''int'' = Some mk" "\<forall>st v w. \<exists>r w'. mk st v w = (Inr r, w')"
    using builds_allD(6)[OF all, of "''int''"] by auto
  moreover then obtain r w' where "mk st (PInt x) w = (Inr r, w')" by blast
  ultimately show ?case by (subst build_node.simps) simp
next
  case (float x)
  obtain mk where "bu_leaf bu ''float'' = Some mk" "\<forall>st v w. \<exists>r w'. mk st v w = (Inr r, w')"
    using builds_allD(6)[OF all, of "''float''"] by auto
  moreover then obtain r w' where "mk st (PFloat x) w = (Inr r, w')" by blast
  ultimately show ?case by (subst build_node.simps) simp
next
  case (str x)
  obtain mk where "bu_leaf bu ''str'' = Some mk" "\<forall>st v w. \<exists>r w'. mk st v w = (Inr r, w')"
    using builds_allD(6)[OF all, of "''str''"] by auto
  moreover then obtain r w' where "mk st (PStr x) w = (Inr r, w')" by blast
  ultimately show ?case by (subst build_node.simps) simp
next
  case (stays h)
  then obtain ob where "given h = Some ob" "hof ob = h" by (auto simp: build_handles_made)
  then show ?case by (subst build_node.simps) (simp add: ret_def)
next
  case (items ms)
  obtain made w1 where made: "bu_items bu st w = (Inr made, w1)" using builds_allD(2)[OF all] by blast
  let ?f = "\<lambda>m. bind_eff (build_node bu cls given st m) (\<lambda>nm.
             bind_eff (bu_add_item bu st made (snd nm)) (\<lambda>_. ret (fst nm)))"
  have step: "\<exists>y t'. ?f m t = (Inr y, t') \<and> node_data hof y = m" if m: "m \<in> set ms" for m t
  proof -
    have "\<forall>h\<in>set (build_handles m). \<exists>ob. given h = Some ob \<and> hof ob = h"
      using items.prems m by (auto simp: build_handles_made)
    with items.IH m obtain n c t1 where n: "build_node bu cls given st m t = (Inr (n, c), t1)" "node_data hof n = m"
      by meson
    obtain t2 where "bu_add_item bu st made c t1 = (Inr (), t2)" using builds_allD(4)[OF all] by blast
    with n show ?thesis by simp
  qed
  from map_eff_total[of ms ?f "\<lambda>m n. node_data hof n = m", OF step] obtain ns w2 where
    "map_eff ?f ms w1 = (Inr ns, w2)" "list_all2 (\<lambda>m n. node_data hof n = m) ms ns" by blast
  moreover then have "map (node_data hof) ns = ms"
    by (auto simp: list_all2_conv_all_nth intro!: nth_equalityI)
  ultimately show ?case using made by (subst build_node.simps) simp
next
  case (entries es)
  obtain made w1 where made: "bu_entries bu st w = (Inr made, w1)" using builds_allD(3)[OF all] by blast
  let ?f = "\<lambda>p. bind_eff (build_node bu cls given st (snd p)) (\<lambda>nm.
             bind_eff (bu_add_entry bu st made (fst p) (snd nm)) (\<lambda>_. ret (fst p, fst nm)))"
  let ?R = "\<lambda>p q. fst q = fst p \<and> node_data hof (snd q) = snd p"
  have step: "\<exists>y t'. ?f p t = (Inr y, t') \<and> ?R p y" if p: "p \<in> set es" for p t
  proof -
    have "\<forall>h\<in>set (build_handles (snd p)). \<exists>ob. given h = Some ob \<and> hof ob = h"
      using entries.prems p by (auto simp: build_handles_made)
    with entries.IH p obtain n c t1 where
      n: "build_node bu cls given st (snd p) t = (Inr (n, c), t1)" "node_data hof n = snd p"
      by meson
    obtain t2 where "bu_add_entry bu st made (fst p) c t1 = (Inr (), t2)" using builds_allD(5)[OF all] by blast
    with n show ?thesis by simp
  qed
  from map_eff_total[of es ?f ?R, OF step] obtain ns w2 where
    ns: "map_eff ?f es w1 = (Inr ns, w2)" "list_all2 ?R es ns" by blast
  have keys: "map fst ns = map fst es" "map (\<lambda>p. (fst p, node_data hof (snd p))) ns = es"
    using ns(2) by (auto simp: list_all2_conv_all_nth intro!: nth_equalityI prod_eqI)
  have "dict_of ns = ns" by (rule dict_of_distinct) (use keys(1) entries.hyps in simp)
  with ns(1) keys(2) made show ?case by (subst build_node.simps) simp
qed

text \<open>Data whose mappings name nothing twice, which a Python mapping cannot.\<close>

definition heap_ok :: "data_heap \<Rightarrow> bool" where
  "heap_ok hp \<longleftrightarrow> (\<forall>r kvs. dict_get hp r = Some (DMap kvs) \<longrightarrow> distinct (map fst kvs))"

lemma denotes_plain: "denotes hp hid r m \<Longrightarrow> heap_ok hp \<Longrightarrow> plain_data m"
proof (induction rule: denotes.induct)
  case (scalar r d m)
  then show ?case by (cases d) (auto split: if_splits intro: plain_data.intros)
next
  case (seq r rs ms)
  then show ?case by (intro plain_data.items) (auto simp: list_all2_conv_all_nth in_set_conv_nth)
next
  case (mapping r kvs ms)
  let ?ks = "map (\<lambda>p. KStr (the (fst p))) kvs"
  have l: "length ms = length kvs" using list_all2_lengthD[OF mapping.IH] by simp
  have "distinct (map fst kvs)" using mapping.prems mapping.hyps(1) by (auto simp: heap_ok_def)
  moreover have "inj_on (KStr \<circ> the) (set (map fst kvs))"
  proof (rule inj_onI)
    fix x y assume "x \<in> set (map fst kvs)" "y \<in> set (map fst kvs)" and e: "(KStr \<circ> the) x = (KStr \<circ> the) y"
    then have "x \<noteq> None" "y \<noteq> None" using mapping.hyps(2) by (auto simp: str_keyed_def list_all_iff)
    with e show "x = y" by auto
  qed
  ultimately have "distinct (map (KStr \<circ> the) (map fst kvs))" by (simp only: distinct_map) 
  then have "distinct ?ks" by (simp add: comp_def)
  moreover have "\<forall>m\<in>set ms. plain_data m"
    using mapping.IH mapping.prems l by (auto simp: list_all2_conv_all_nth in_set_conv_nth)
  ultimately show ?case using l by (intro plain_data.entries) (auto dest: set_zip_rightD)
qed (auto intro: plain_data.intros)

end
