(* ===== verification/Tree_Props.thy ===== *)
theory Tree_Props
  imports Tree_Round
begin

text \<open>
  The bounds of a walk (\<open>TreeWalk.node\<close>): what each step costs of the budget, what it sees, how
  deep the answer goes, and that an answer not marked truncated has no node left out.
\<close>

subsection \<open>Measures of an answer\<close>

fun expanded :: "'o node \<Rightarrow> nat" where
  "expanded (Leaf wr v) = 1"
| "expanded (Stays cls ob) = 0"
| "expanded (Items cls ob ns) = Suc (sum_list (map expanded ns))"
| "expanded (Entries cls ob es) = Suc (sum_list (map (\<lambda>p. expanded (snd p)) es))"

fun levels :: "'o node \<Rightarrow> nat" where
  "levels (Leaf wr v) = 1"
| "levels (Stays cls ob) = 0"
| "levels (Items cls ob ns) = Suc (fold max (map levels ns) 0)"
| "levels (Entries cls ob es) = Suc (fold max (map (\<lambda>p. levels (snd p)) es) 0)"

fun whole :: "'o node \<Rightarrow> bool" where
  "whole (Leaf wr v) = True"
| "whole (Stays cls ob) = False"
| "whole (Items cls ob ns) = list_all whole ns"
| "whole (Entries cls ob es) = list_all (\<lambda>p. whole (snd p)) es"

lemma fold_max_le: "fold max (map f xs) a \<le> b \<longleftrightarrow> a \<le> b \<and> (\<forall>x\<in>set xs. f x \<le> b)" for a b :: nat
  by (induction xs arbitrary: a) auto

subsection \<open>The state of a walk, step by step\<close>

definition spends :: "nat \<Rightarrow> 'w walker \<Rightarrow> 'w walker \<Rightarrow> bool" where
  "spends n s t \<longleftrightarrow> int n \<le> w_left s - w_left t \<and> (0 \<le> w_left s \<longrightarrow> 0 \<le> w_left t)
     \<and> w_left t + int (length (w_seen t)) = w_left s + int (length (w_seen s))
     \<and> (distinct (w_seen s) \<longrightarrow> distinct (w_seen t)) \<and> (w_truncated s \<longrightarrow> w_truncated t)"

definition answers_within :: "bool \<Rightarrow> nat \<Rightarrow> 'w walker \<Rightarrow> 'o node \<Rightarrow> 'w walker \<Rightarrow> bool" where
  "answers_within forcing room s n t \<longleftrightarrow>
     spends (expanded n) s t \<and> levels n \<le> room \<and> (\<not> forcing \<and> \<not> w_truncated t \<longrightarrow> whole n)"

lemma spends_refl [simp]: "spends 0 s s"
  by (simp add: spends_def)

lemma spends_trans: "spends m s t \<Longrightarrow> spends n t u \<Longrightarrow> spends (m + n) s u"
  by (auto simp: spends_def)

lemma spends_mono: "spends m s t \<Longrightarrow> n \<le> m \<Longrightarrow> spends n s t"
  by (auto simp: spends_def)

lemma in_world_spends: "in_world m s = (r, t) \<Longrightarrow> spends 0 s t \<and> w_truncated t = w_truncated s"
  by (auto simp: in_world_def spends_def split: prod.splits)

lemma cut_spends: "cut s = (r, t) \<Longrightarrow> spends 0 s t \<and> w_truncated t"
  by (auto simp: cut_def spends_def)

lemma admit_spends:
  "admit k s = (Inr go, t) \<Longrightarrow> spends (if go then 1 else 0) s t \<and> w_truncated t = w_truncated s"
  by (auto simp: admit_def spends_def split: if_splits)

lemma walk_key_spends: "walk_key sp ob s = (r, t) \<Longrightarrow> spends 0 s t \<and> w_truncated t = w_truncated s"
  by (auto simp: walk_key_def dest: in_world_spends split: option.splits)

lemma catch_nix_spends:
  assumes "\<And>u r t. m u = (r, t) \<Longrightarrow> spends 0 u t \<and> w_truncated t = w_truncated u"
    "\<And>u r t. h u = (r, t) \<Longrightarrow> spends 0 u t \<and> w_truncated t = w_truncated u" "catch_nix errs m h s = (r, t)"
  shows "spends 0 s t \<and> w_truncated t = w_truncated s"
proof (cases "m s")
  case (Pair q u)
  have u: "spends 0 s u" "w_truncated u = w_truncated s" using assms(1)[OF Pair] by auto
  show ?thesis
  proof (cases q)
    case (Inl e)
    show ?thesis
    proof (cases "is_nix errs e")
      case True
      then have "h u = (r, t)" using assms(3) Pair Inl by (simp add: catch_nix_def)
      from assms(2)[OF this] u show ?thesis using spends_trans[of 0 s u 0 t] by simp
    qed (use assms(3) Pair Inl u in \<open>simp add: catch_nix_def\<close>)
  qed (use assms(3) Pair u in \<open>simp add: catch_nix_def\<close>)
qed

lemma walk_stops_spends: "walk_stops sp ob s = (r, t) \<Longrightarrow> spends 0 s t \<and> w_truncated t = w_truncated s"
  unfolding walk_stops_def
  by (cases "ws_stop sp") (auto elim!: catch_nix_spends[rotated 2] dest: in_world_spends)

lemma forced_spends: "forced sp forcing ob s = (r, t) \<Longrightarrow> spends 0 s t \<and> w_truncated t = w_truncated s"
proof (cases "ws_force sp")
  case (Some f)
  have b: "spends 0 u t \<and> w_truncated t = w_truncated u"
    if "bind_eff (in_world (f ob)) (\<lambda>_. ret True) u = (r, t)" for u r t
    using that by (cases rule: bind_eff_cases[of "in_world (f ob)" u]) (auto dest: in_world_spends)
  assume "forced sp forcing ob s = (r, t)"
  then show ?thesis unfolding forced_def Some
    by (cases forcing) (auto elim!: catch_nix_spends[rotated 2] dest: b)
qed (simp add: forced_def)

lemma forced_plain: "forced sp False ob s = (r, t) \<Longrightarrow> r = Inr True"
  by (auto simp: forced_def split: option.splits)

lemma chain_within:
  "chain (answers_within forcing room) s ns t \<Longrightarrow>
   spends (sum_list (map expanded ns)) s t \<and> (\<forall>n\<in>set ns. levels n \<le> room)
   \<and> (\<not> forcing \<and> \<not> w_truncated t \<longrightarrow> list_all whole ns)"
proof (induction rule: chain.induct)
  case (cons s y s1 ys s2)
  then have "w_truncated s1 \<longrightarrow> w_truncated s2" by (simp add: spends_def)
  with cons show ?case using spends_trans[of "expanded y" s s1] by (auto simp: answers_within_def)
qed simp

lemma chain_snd: "chain (\<lambda>s p t. R s (snd p) t) s ps t \<Longrightarrow> chain R s (map snd ps) t"
  by (induction rule: chain.induct) (auto intro: chain.intros)

lemma dict_set_snd: "snd ` set (dict_set k v d) \<subseteq> insert v (snd ` set d)"
  unfolding dict_set_def by (induction d) auto

lemma dict_of_snd: "snd ` set (dict_of ps) \<subseteq> snd ` set ps"
proof -
  have "snd ` set (fold (\<lambda>p d. dict_set (fst p) (snd p) d) ps d) \<subseteq> snd ` set ps \<union> snd ` set d" for d
  proof (induction ps arbitrary: d)
    case (Cons p ps)
    have "snd ` set (fold (\<lambda>p d. dict_set (fst p) (snd p) d) (p # ps) d)
      \<subseteq> snd ` set ps \<union> snd ` set (dict_set (fst p) (snd p) d)" using Cons by simp
    also have "\<dots> \<subseteq> snd ` set ps \<union> insert (snd p) (snd ` set d)" using dict_set_snd by (rule Un_mono[OF subset_refl])
    finally show ?case by auto
  qed simp
  from this[of "[]"] show ?thesis by (simp add: dict_of_def)
qed

lemma dict_set_sum: "sum_list (map (\<lambda>p. f (snd p)) (dict_set k v d)) \<le> f v + sum_list (map (\<lambda>p. f (snd p)) d)"
  for f :: "'v \<Rightarrow> nat"
  unfolding dict_set_def by (induction d) auto

lemma dict_of_sum: "sum_list (map (\<lambda>p. f (snd p)) (dict_of ps)) \<le> sum_list (map (\<lambda>p. f (snd p)) ps)"
  for f :: "'v \<Rightarrow> nat"
proof -
  have "sum_list (map (\<lambda>p. f (snd p)) (fold (\<lambda>p d. dict_set (fst p) (snd p) d) ps d))
    \<le> sum_list (map (\<lambda>p. f (snd p)) ps) + sum_list (map (\<lambda>p. f (snd p)) d)" for d
  proof (induction ps arbitrary: d)
    case (Cons p ps)
    show ?case using Cons[of "dict_set (fst p) (snd p) d"] dict_set_sum[of f "fst p" "snd p" d] by simp
  qed simp
  from this[of "[]"] show ?thesis by (simp add: dict_of_def)
qed

lemma entries_within:
  assumes "chain (\<lambda>s p t. answers_within forcing room s (snd p) t) s ps t"
  shows "spends (expanded (Entries cls ob (dict_of ps)) - 1) s t"
    "\<forall>p\<in>set (dict_of ps). levels (snd p) \<le> room"
    "\<not> forcing \<and> \<not> w_truncated t \<longrightarrow> list_all (\<lambda>p. whole (snd p)) (dict_of ps)"
proof -
  have c: "chain (answers_within forcing room) s (map snd ps) t" using assms by (rule chain_snd)
  note w = chain_within[OF c]
  show "spends (expanded (Entries cls ob (dict_of ps)) - 1) s t"
    using spends_mono[of "sum_list (map expanded (map snd ps))" s t] w dict_of_sum[of expanded ps]
    by (simp add: comp_def)
  show "\<forall>p\<in>set (dict_of ps). levels (snd p) \<le> room" "\<not> forcing \<and> \<not> w_truncated t \<longrightarrow>
    list_all (\<lambda>p. whole (snd p)) (dict_of ps)"
    using w dict_of_snd[of ps] by (fastforce simp: list_all_iff)+
qed

lemma gives_spends:
  "gives (in_world m) s (\<lambda>a t. spends 0 s t)" "gives (walk_key sp ob) s (\<lambda>a t. spends 0 s t)"
  "gives (walk_stops sp ob) s (\<lambda>a t. spends 0 s t)" "gives (forced sp forcing ob) s (\<lambda>a t. spends 0 s t)"
  by (auto intro!: givesI dest: in_world_spends walk_key_spends walk_stops_spends forced_spends)

lemma spends_first: "spends 0 s t \<Longrightarrow> spends n t u \<Longrightarrow> spends n s u"
  using spends_trans[of 0 s t n u] by simp

lemma gives_stay:
  assumes "spends 0 s t"
  shows "gives (bind_eff cut (\<lambda>_. ret (Stays c ob))) t (\<lambda>n u. answers_within forcing room s n u)"
  by (rule gives_bind, rule givesI, rule gives_ret)
    (use assms in \<open>auto simp: answers_within_def dest!: cut_spends intro: spends_first\<close>)

lemma within_Items:
  assumes "spends 1 s u" "chain (answers_within forcing room) u ns t" "room < room'"
  shows "answers_within forcing room' s (Items c ob ns) t"
proof -
  have "fold max (map levels ns) 0 \<le> room" using chain_within[OF assms(2)] by (simp add: fold_max_le)
  with chain_within[OF assms(2)] spends_trans[OF assms(1)] assms(3) show ?thesis
    by (auto simp: answers_within_def)
qed

lemma within_Entries:
  assumes "spends 1 s u" "chain (\<lambda>s p t. answers_within forcing room s (snd p) t) u ps t" "room < room'"
  shows "answers_within forcing room' s (Entries c ob (dict_of ps)) t"
proof -
  note e = entries_within[OF assms(2)]
  have "spends (1 + sum_list (map (\<lambda>p. expanded (snd p)) (dict_of ps))) s t"
    using spends_trans[OF assms(1) e(1)[where cls = c and ob = ob]] by simp
  moreover have "fold max (map (\<lambda>p. levels (snd p)) (dict_of ps)) 0 < room'"
  proof -
    have "fold max (map (\<lambda>p. levels (snd p)) (dict_of ps)) 0 \<le> room" using e(2) by (simp add: fold_max_le)
    with assms(3) show ?thesis by simp
  qed
  ultimately show ?thesis using e(3) by (simp add: answers_within_def Suc_le_eq)
qed

lemma within_stay: "spends 0 s t \<Longrightarrow> forcing \<Longrightarrow> answers_within forcing room s (Stays c ob) t"
  by (simp add: answers_within_def)

lemma spends_less: "spends 1 s t \<Longrightarrow> spends 0 s t"
  by (rule spends_mono) simp_all

lemma gives_cons_first: "spends 0 s t \<Longrightarrow> spends 1 r s \<Longrightarrow> spends 1 r t"
  using spends_trans[of 1 r s 0 t] by simp

lemma gives_child:
  assumes "\<And>c t. gives (child c) t (answers_within forcing room t)"
  shows "gives (bind_eff (in_world m) child) t (answers_within forcing room t)"
proof (rule gives_bind, rule gives_weaken[OF gives_spends(1)])
  fix c u assume u: "spends 0 t u"
  show "gives (child c) u (answers_within forcing room t)"
    by (rule gives_weaken[OF assms]) (use spends_first[OF u] in \<open>auto simp: answers_within_def\<close>)
qed

lemma gives_read_node:
  assumes child: "\<And>c t. gives (child c) t (answers_within forcing room t)"
    and s: "spends 1 s u" "room < room'"
  shows "gives (read_node sp forcing child ob rd) u (answers_within forcing room' s)"
proof (cases rd)
  case None
  then show ?thesis using gives_stay[OF spends_less[OF s(1)]] by (simp add: read_node_def)
next
  case (Some r)
  show ?thesis
  proof (cases r)
    case (RLeaf wr get)
    have "answers_within forcing room' s (Leaf wr v) t" if "spends 0 u t" for v t
      using that s by (auto simp: answers_within_def dest: gives_cons_first)
    with Some RLeaf show ?thesis
      by (auto simp: read_node_def intro!: gives_bind gives_weaken[OF gives_spends(1)] gives_ret)
  next
    case RNull
    with Some s show ?thesis by (auto simp: read_node_def answers_within_def intro!: gives_ret)
  next
    case (RItems sz it)
    have "gives (bind_eff (map_eff (\<lambda>i. bind_eff (in_world (it ob i)) child) [0..<n])
        (\<lambda>ns. ret (Items (ws_class sp ob) ob ns))) t (answers_within forcing room' s)"
      if "spends 0 u t" for n t
      by (rule gives_bind, rule gives_weaken[OF gives_map_eff[where R = "answers_within forcing room"]])
        (auto intro!: gives_child child gives_ret within_Items gives_cons_first[OF that s(1)] s(2))
    with Some RItems show ?thesis
      by (auto simp: read_node_def intro!: gives_bind[of "in_world _"] gives_weaken[OF gives_spends(1)])
  next
    case (REntries sz nm vl)
    let ?step = "\<lambda>i. bind_eff (in_world (nm ob i)) (\<lambda>nme.
      bind_eff (bind_eff (in_world (vl ob i)) child) (\<lambda>t. ret (KStr nme, t)))"
    have step: "gives (?step i) t (\<lambda>p. answers_within forcing room t (snd p))" for i t
    proof (rule gives_bind, rule gives_weaken[OF gives_spends(1)], rule gives_bind)
      fix nme t1 assume t1: "spends 0 t t1"
      show "gives (bind_eff (in_world (vl ob i)) child) t1
        (\<lambda>n t2. gives (ret (KStr nme, n)) t2 (\<lambda>p. answers_within forcing room t (snd p)))"
        by (rule gives_weaken[OF gives_child[OF child]])
          (use spends_first[OF t1] in \<open>auto intro!: gives_ret simp: answers_within_def\<close>)
    qed
    have entries: "gives (bind_eff (map_eff ?step [0..<n])
        (\<lambda>es. ret (Entries (ws_class sp ob) ob (dict_of es)))) t (answers_within forcing room' s)"
      if "spends 0 u t" for n t
      by (rule gives_bind, rule gives_weaken[OF gives_map_eff[OF step]])
        (auto intro!: gives_ret within_Entries gives_cons_first[OF that s(1)] s(2))
    have go: "gives (if st then ret (Stays (ws_class sp ob) ob)
          else bind_eff (in_world (sz ob)) (\<lambda>n. bind_eff (map_eff ?step [0..<n])
        (\<lambda>es. ret (Entries (ws_class sp ob) ob (dict_of es))))) t (answers_within forcing room' s)"
      if "spends 0 u t" "st \<Longrightarrow> forcing" for st t
    proof (rule gives_if)
      assume "st"
      with that(2) have "forcing" .
      then show "gives (ret (Stays (ws_class sp ob) ob)) t (answers_within forcing room' s)"
        using spends_less[OF gives_cons_first[OF that(1) s(1)]] by (intro gives_ret within_stay)
    next
      show "gives (bind_eff (in_world (sz ob)) (\<lambda>n. bind_eff (map_eff ?step [0..<n])
        (\<lambda>es. ret (Entries (ws_class sp ob) ob (dict_of es))))) t (answers_within forcing room' s)"
        by (rule gives_bind, rule gives_weaken[OF gives_spends(1)]) (rule entries, rule spends_first[OF that(1)])
    qed
    have "gives (bind_eff (if forcing then walk_stops sp ob else ret False) (\<lambda>st.
           if st then ret (Stays (ws_class sp ob) ob)
           else bind_eff (in_world (sz ob)) (\<lambda>n. bind_eff (map_eff ?step [0..<n])
               (\<lambda>es. ret (Entries (ws_class sp ob) ob (dict_of es)))))) u (answers_within forcing room' s)"
    proof (cases forcing)
      case True
      then show ?thesis
        using gives_weaken[OF gives_spends(3), of u _ sp ob] go by (simp add: gives_bind)
    next
      case False
      show ?thesis using go[of u False] False by simp
    qed
    with Some REntries show ?thesis by (simp add: read_node_def)
  qed
qed

lemma gives_expand_node:
  assumes child: "\<And>c t. gives (child c) t (answers_within forcing room t)"
    and s: "spends 1 s u" "room < room'"
  shows "gives (expand_node sp forcing child ob) u (answers_within forcing room' s)"
  unfolding expand_node_def
proof (rule gives_bind, rule givesI, rule gives_if)
  fix ok t assume f: "forced sp forcing ob u = (Inr ok, t)"
  then have t: "spends 1 s t" using gives_cons_first[OF forced_spends[OF f, THEN conjunct1] s(1)] by simp
  {
    assume "\<not> ok"
    with f forced_plain have "forcing" by fastforce
    then show "gives (ret (Stays (ws_class sp ob) ob)) t (answers_within forcing room' s)"
      using spends_less[OF t] by (intro gives_ret within_stay)
  }
  show "gives (bind_eff (in_world (ws_kind sp ob)) (\<lambda>kd. read_node sp forcing child ob (ws_kinds sp kd))) t
    (answers_within forcing room' s)"
    by (rule gives_bind, rule gives_weaken[OF gives_spends(1)])
      (rule gives_read_node[OF child _ s(2)], erule gives_cons_first, rule t)
qed

lemma gives_walk: "gives (walk sp forcing limit ob depth) s (answers_within forcing (limit - depth) s)"
proof (induction sp forcing limit ob depth arbitrary: s rule: walk.induct)
  case (1 sp forcing limit ob depth)
  show ?case
  proof (subst walk.simps, rule gives_bind, rule gives_weaken[OF gives_spends(2)], rule gives_if)
    fix k s1 assume s1: "spends 0 s s1"
    then show "gives (bind_eff cut (\<lambda>_. ret (Stays (ws_class sp ob) ob))) s1
      (answers_within forcing (limit - depth) s)" by (rule gives_stay)
    assume room: "\<not> limit \<le> depth"
    show "gives (bind_eff (admit k) (\<lambda>go. if \<not> go then bind_eff cut (\<lambda>_. ret (Stays (ws_class sp ob) ob))
         else expand_node sp forcing (\<lambda>c. walk sp forcing limit c (depth + 1)) ob)) s1
      (answers_within forcing (limit - depth) s)"
    proof (rule gives_bind, rule givesI, rule gives_if)
      fix go s2 assume "admit k s1 = (Inr go, s2)"
      then have s2: "spends (if go then 1 else 0) s s2"
        by (intro spends_first[OF s1] admit_spends[THEN conjunct1])
      {
        assume "\<not> go"
        with s2 show "gives (bind_eff cut (\<lambda>_. ret (Stays (ws_class sp ob) ob))) s2
          (answers_within forcing (limit - depth) s)" by (intro gives_stay) simp
      }
      assume "\<not> \<not> go"
      with s2 room show "gives (expand_node sp forcing (\<lambda>c. walk sp forcing limit c (depth + 1)) ob) s2
          (answers_within forcing (limit - depth) s)"
        by (intro gives_expand_node[where room = "limit - (depth + 1)"] "1.IH") auto
    qed
  qed
qed

section \<open>The properties of trees\<close>

text \<open>
  The properties of value trees, each with a concrete instance: data that holds itself is refused, a
  tree reads back as what it was, a walk keeps its bounds, a built value holds the data it was sent.
\<close>

text \<open>Data that holds itself, at any depth, is refused by \<open>encode_data\<close>, whatever the rest of it is.\<close>

theorem cyclic_data_raises:
  assumes "(r, c) \<in> (holds hp)\<^sup>*" "(c, c) \<in> (holds hp)\<^sup>+"
  shows "\<exists>e. encode_data hp hid r = Inl e"
  using assms by (rule cyclic_data_refused)

definition demo_cycle :: data_heap where
  "demo_cycle = [(5, DSeq [6, 7]), (6, DInt 3), (7, DMap [(Some ''x'', 5)])]"

theorem cyclic_data_raises_witness:
  "\<exists>e. encode_data demo_cycle (\<lambda>r. Inl TypeError) 5 = Inl e"
proof (rule cyclic_data_raises[of 5 5])
  have "(5, 7) \<in> holds demo_cycle" "(7, 5) \<in> holds demo_cycle"
    by (auto simp: holds_def demo_cycle_def data_children_def)
  then show "(5, 5) \<in> (holds demo_cycle)\<^sup>+" by (rule trancl.trancl_into_trancl[OF trancl.r_into_trancl])
qed simp

text \<open>C28. Encoding a tree asks for one handle per object, in the order the tree is read, and the far side
  reads back the same tree with those handles, each attribute set sorted by name.\<close>

theorem tree_roundtrip:
  assumes "encode_tree b pid n s = (Inr m, s')" "names_ok n"
  shows "\<exists>n'. minted pid n s = (Inr n', s') \<and>
    decode_tree obj_proxy obj_view m () = (Inr (show_tree b n'), ())"
  using encode_tree_minted[OF assms] by (auto simp: reads_as_def)

definition demo_tree :: "nat node" where
  "demo_tree = Entries ''Attrs'' 7 [(KStr ''b'', Leaf ''str'' (PStr ''x'')),
     (KStr ''a'', Items ''List'' 8 [Stays ''Value'' 9, Leaf ''null'' PNone])]"

definition demo_bind :: bindings where
  "demo_bind = \<lparr>b_enum = (\<lambda>_ _. False), b_isinst = (\<lambda>_ _. False), b_sync = id, b_parts = (\<lambda>_. []),
     b_make = (\<lambda>_ _. Inl TypeError), b_attr = (\<lambda>_ _. Inl TypeError), b_error = (\<lambda>_ _. Inl TypeError),
     b_convert = (\<lambda>_ _. Inl TypeError)\<rparr>"

definition count_ids :: "string \<Rightarrow> nat \<Rightarrow> (nat, string) eff" where
  "count_ids cls ob = (\<lambda>s. (Inr (replicate s CHR ''h''), Suc s))"

definition demo_tree_wire :: mp where
  "demo_tree_wire = MList [MInt 3, MStr ''Attrs'', MStr [], MMap [(KStr ''b'', MList [MInt 0, MStr ''x'']),
     (KStr ''a'', MList [MInt 2, MStr ''List'', MStr ''h'',
        MList [MList [MInt 1, MStr ''Value'', MStr ''hh''], MList [MInt 0, MNil]]])]]"

theorem tree_roundtrip_witness:
  "encode_tree demo_bind count_ids demo_tree 0 = (Inr demo_tree_wire, 3) \<and>
   (\<exists>n'. minted count_ids demo_tree 0 = (Inr n', 3) \<and>
     decode_tree obj_proxy obj_view demo_tree_wire () = (Inr (show_tree demo_bind n'), ()))"
proof -
  have e: "encode_tree demo_bind count_ids demo_tree 0 = (Inr demo_tree_wire, 3)"
    by (simp add: demo_tree_def demo_tree_wire_def bind_eff_def ret_def count_ids_def lift_res_def SCALARS_def
        node_tags)
  moreover have "names_ok demo_tree" by (simp add: demo_tree_def is_str_key_def)
  ultimately show ?thesis using tree_roundtrip[OF e] by blast
qed

text \<open>C38. A walk answers at most as many expanded nodes as its budget and at most as many levels as its
  depth, spends exactly one of the budget on each node it sees, sees none twice, and, when it forces nothing and
  the answer is not marked truncated, leaves no node out.\<close>

theorem walk_bounded:
  assumes "realize_walk sp depth budget force ob w = (Inr n, t)"
  shows "int (expanded n) \<le> (if budget > 0 then budget else DEFAULT_BUDGET)
    \<and> levels n \<le> (if depth > 0 then nat depth else DEFAULT_DEPTH)
    \<and> w_left t + int (length (w_seen t)) = (if budget > 0 then budget else DEFAULT_BUDGET)
    \<and> 0 \<le> w_left t \<and> distinct (w_seen t)
    \<and> (\<not> (force \<and> ws_force sp \<noteq> None) \<and> \<not> w_truncated t \<longrightarrow> whole n)"
proof -
  let ?s = "new_walker w (if budget > 0 then budget else DEFAULT_BUDGET)"
  have "0 \<le> w_left ?s" by (simp add: new_walker_def DEFAULT_BUDGET_def)
  with givesD[OF gives_walk assms[unfolded realize_walk_def]] show ?thesis
    by (auto simp: answers_within_def spends_def new_walker_def)
qed

text \<open>A list 4 of two ints 5 and 6, and of itself: the repeat stays where it is.\<close>

definition demo_walk :: "(nat, unit) walk_spec" where
  "demo_walk = \<lparr>ws_kind = (\<lambda>ob. ret (if ob = 4 then ''list'' else ''int'')),
     ws_kinds = map_of [(''list'', RItems (\<lambda>ob. ret 3) (\<lambda>ob i. ret (if i = 2 then 4 else 5 + i))),
       (''int'', RLeaf ''int'' (\<lambda>ob. ret (PInt (int ob))))],
     ws_identity = None, ws_force = None, ws_stop = None, ws_id = id, ws_class = (\<lambda>_. ''V''), ws_errors = []\<rparr>"

theorem walk_bounded_witness:
  "\<exists>n t. realize_walk demo_walk 0 10 True 4 () = (Inr n, t) \<and> w_truncated t \<and> w_left t = 7
     \<and> expanded n = 3 \<and> int (expanded n) \<le> 10 \<and> levels n \<le> 8"
proof -
  let ?n = "Items ''V'' 4 [Leaf ''int'' (PInt 5), Leaf ''int'' (PInt 6), Stays ''V'' (4 :: nat)]"
  let ?t = "\<lparr>w_world = (), w_left = 7, w_seen = [6, 5, 4], w_truncated = True\<rparr>"
  have r: "realize_walk demo_walk 0 10 True 4 () = (Inr ?n, ?t)" by code_simp
  from walk_bounded[OF r] show ?thesis using r by (auto simp: DEFAULT_DEPTH_def)
qed

text \<open>Data that \<open>encode_data\<close> accepts is built without a protocol error, whatever the builders answer,
  and the tree answered holds exactly that data; a bare scalar is answered as a handle.\<close>

theorem build_echoes:
  assumes "heap_ok hp" "encode_data hp hid r = Inr m" "builds_all bu"
    and "\<forall>h\<in>set (build_handles m). \<exists>ob. given h = Some ob \<and> hof ob = h"
  shows "\<exists>n w'. build_root bu cls given st m w = (Inr n, w') \<and>
    (case view_data m of DVNull \<Rightarrow> (\<exists>ob. n = Stays (cls ob) ob) | DVLeaf wr v \<Rightarrow> (\<exists>ob. n = Stays (cls ob) ob)
     | _ \<Rightarrow> node_data hof n = m)"
proof -
  have p: "plain_data m" using assms(1,2) by (auto simp: encode_data_iff intro: denotes_plain)
  from build_node_echoes[OF assms(3) p assms(4)] obtain n made w' where
    n: "build_node bu cls given st m w = (Inr (n, made), w')" "node_data hof n = m" by blast
  have b: "build_root bu cls given st m w =
    (Inr (case n of Leaf wr v \<Rightarrow> Stays (cls made) made | n \<Rightarrow> n), w')"
    using n(1) by (cases n) (simp_all add: build_root_def)
  from n(2) have "view_data m = (case n of Leaf wr v \<Rightarrow> view_data m | Stays c ob \<Rightarrow> DVStays (hof ob)
    | Items c ob ns \<Rightarrow> DVItems (map (node_data hof) ns)
    | Entries c ob es \<Rightarrow> DVEntries (map (\<lambda>p. (fst p, node_data hof (snd p))) es))"
    by (cases n) auto
  moreover have "view_data m \<noteq> DVBad" using p by (cases rule: plain_data.cases) auto
  moreover have "\<exists>w v. view_data m = DVNull \<or> view_data m = DVLeaf w v" if "n = Leaf wr v" for wr v
    using p n(2) that by (cases rule: plain_data.cases) (simp_all add: node_tags_distinct)
  ultimately show ?thesis using b n(2) by (cases n) fastforce+
qed

definition demo_builds :: "(nat, nat) builds" where
  "demo_builds = \<lparr>bu_null = (\<lambda>st w. (Inr w, Suc w)), bu_leaf = (\<lambda>wr. Some (\<lambda>st v w. (Inr w, Suc w))),
     bu_items = (\<lambda>st w. (Inr w, Suc w)), bu_add_item = (\<lambda>st m c. ret ()),
     bu_entries = (\<lambda>st w. (Inr w, Suc w)), bu_add_entry = (\<lambda>st m k c. ret ())\<rparr>"

definition demo_data :: data_heap where
  "demo_data = [(3, DMap [(Some ''a'', 4), (Some ''b'', 5)]), (4, DInt 8), (5, DSeq [4, 4, 6]), (6, DHandle)]"

definition demo_data_wire :: mp where
  "demo_data_wire = MList [MInt 3, MMap [(KStr ''a'', MList [MInt 0, MInt 8]), (KStr ''b'', MList [MInt 2,
     MList [MList [MInt 0, MInt 8], MList [MInt 0, MInt 8], MList [MInt 1, MStr ''h'']]])]]"

theorem build_echoes_witness:
  "\<exists>n w'. build_root demo_builds (\<lambda>_. ''V'') [''h'' \<mapsto> 99] 2 demo_data_wire 10 = (Inr n, w') \<and>
     node_data (\<lambda>_. ''h'') n = demo_data_wire"
proof -
  have hp: "heap_ok demo_data" by (auto simp: heap_ok_def demo_data_def split: if_splits)
  have e: "encode_data demo_data (\<lambda>_. Inr ''h'') 3 = Inr demo_data_wire" by code_simp
  have bu: "builds_all demo_builds" by (simp add: builds_all_def demo_builds_def ret_def)
  have hs: "build_handles demo_data_wire = [''h'']" by code_simp
  have v: "\<exists>es. view_data demo_data_wire = DVEntries es"
    by (simp add: demo_data_wire_def view_data.simps node_tag.simps node_tags)
  from build_echoes[OF hp e bu, of "[''h'' \<mapsto> 99]" "\<lambda>_. ''h''" "\<lambda>_. ''V''" 2 10] hs v
  show ?thesis by auto
qed

end
