(* ===== verification/Watching.thy ===== *)
theory Watching
  imports Values
begin

text \<open>
  When to forget an evaluation and when to evaluate before anyone asks: \<open>huggorm/watch.py\<close>,
  \<open>notify.py\<close> and \<open>warm.py\<close>. The evaluator (\<open>EvalState\<close>, C++ behind generated classes), the file
  system and inotify are arguments: \<open>evaluator\<close> and \<open>inotify\<close>, acting on a world of any type. Every
  public operation of the watcher runs under its lock, so an operation is one step.
\<close>

record ('w, 'v) evaluator =
  ev_eval :: "string \<Rightarrow> ('w, 'v) eff" \<comment> \<open>\<open>eval_file\<close>\<close>
  ev_cached :: "('w, string list) eff" \<comment> \<open>\<open>cached_files\<close>\<close>
  ev_forget :: "string \<Rightarrow> ('w, unit) eff" \<comment> \<open>\<open>forget_file\<close>\<close>
  ev_stat :: "'w \<Rightarrow> string \<Rightarrow> (int \<times> int) option" \<comment> \<open>\<open>os.stat\<close>: mtime in ns and size, nothing on \<open>OSError\<close>\<close>

record 'w watcher =
  wt_world :: 'w
  wt_snaps :: "(string, string list) dict"
  wt_seen :: "(string, int \<times> int) dict"

definition new_watcher :: "'w \<Rightarrow> 'w watcher" where
  "new_watcher w = \<lparr>wt_world = w, wt_snaps = [], wt_seen = []\<rparr>"

definition VIRTUAL :: string where
  "VIRTUAL = [CHR 0xAB]"

definition starts_with :: "string \<Rightarrow> string \<Rightarrow> bool" where
  "starts_with s p \<longleftrightarrow> take (length p) s = p"

definition watchable :: "string list \<Rightarrow> string list" where
  "watchable ps = filter (\<lambda>p. \<not> starts_with p VIRTUAL) ps"

definition stamp :: "('w, 'v) evaluator \<Rightarrow> 'w \<Rightarrow> string \<Rightarrow> int \<times> int" where
  "stamp ev w p = (case ev_stat ev w p of None \<Rightarrow> (- 1, - 1) | Some st \<Rightarrow> st)"

definition asking :: "('w, 'a) eff \<Rightarrow> ('w watcher, 'a) eff" where
  "asking m = (\<lambda>s. let (r, w) = m (wt_world s) in (r, s\<lparr>wt_world := w\<rparr>))"

definition roots :: "'w watcher \<Rightarrow> string list" where
  "roots s = sorted_strs (dict_keys (wt_snaps s))"

definition snapshot_files :: "'w watcher \<Rightarrow> string list" where
  "snapshot_files s = concat (map snd (wt_snaps s))"

definition watching :: "'w watcher \<Rightarrow> string list" where
  "watching s = sorted_strs (watchable (snapshot_files s))"

subsection \<open>Evaluating and recording\<close>

definition forget_each :: "('w, 'v) evaluator \<Rightarrow> string list \<Rightarrow> ('w watcher, unit) eff" where
  "forget_each ev ps = bind_eff (map_eff (\<lambda>p. asking (ev_forget ev p)) ps) (\<lambda>_. ret ())"

definition drop_unrecorded :: "('w, 'v) evaluator \<Rightarrow> ('w watcher, unit) eff" where
  "drop_unrecorded ev = (\<lambda>s. bind_eff (asking (ev_cached ev)) (\<lambda>cached.
     forget_each ev (sorted_strs (watchable (filter (\<lambda>f. f \<notin> set (snapshot_files s)) cached)))) s)"

definition set_default :: "'k \<Rightarrow> 'v \<Rightarrow> ('k, 'v) dict \<Rightarrow> ('k, 'v) dict" where
  "set_default k v d = (case dict_get d k of None \<Rightarrow> dict_set k v d | Some _ \<Rightarrow> d)"

definition record_root :: "('w, 'v) evaluator \<Rightarrow> string \<Rightarrow> string list \<Rightarrow> 'w watcher \<Rightarrow> 'w watcher" where
  "record_root ev path files s =
     s\<lparr>wt_snaps := dict_set path files (wt_snaps s),
       wt_seen := fold (\<lambda>p d. set_default p (stamp ev (wt_world s) p) d) (watchable files) (wt_seen s)\<rparr>"

definition eval_file :: "('w, 'v) evaluator \<Rightarrow> string \<Rightarrow> ('w watcher, 'v) eff" where
  "eval_file ev path = (\<lambda>s. case asking (ev_eval ev path) s of
       (Inl e, s1) \<Rightarrow> (case drop_unrecorded ev s1 of (Inl e', s2) \<Rightarrow> (Inl e', s2) | (Inr _, s2) \<Rightarrow> (Inl e, s2))
     | (Inr v, s1) \<Rightarrow> (case asking (ev_cached ev) s1 of (Inl e, s2) \<Rightarrow> (Inl e, s2)
         | (Inr cached, s2) \<Rightarrow> (Inr v, record_root ev path (remdups cached) s2)))"

subsection \<open>Forgetting\<close>

definition implicated :: "string \<Rightarrow> 'w watcher \<Rightarrow> (string \<times> string list) list" where
  "implicated path s = filter (\<lambda>p. path \<in> set (snd p)) (wt_snaps s)"

definition prune_seen :: "'w watcher \<Rightarrow> 'w watcher" where
  "prune_seen s = s\<lparr>wt_seen := filter (\<lambda>p. fst p \<in> set (snapshot_files s)) (wt_seen s)\<rparr>"

definition forget_path :: "('w, 'v) evaluator \<Rightarrow> string \<Rightarrow> ('w watcher, string list) eff" where
  "forget_path ev path = (\<lambda>s.
     let hit = implicated path s; doomed = concat (map snd hit); gone = map fst hit;
         s1 = s\<lparr>wt_snaps := fold dict_del gone (wt_snaps s)\<rparr>
     in case forget_each ev (sorted_strs doomed) s1 of (Inl e, s2) \<Rightarrow> (Inl e, s2)
        | (Inr _, s2) \<Rightarrow> (Inr (sorted_strs gone), prune_seen s2))"

definition changed :: "('w, 'v) evaluator \<Rightarrow> string \<Rightarrow> ('w watcher, string list) eff" where
  "changed ev path = forget_path ev path"

definition moved_files :: "('w, 'v) evaluator \<Rightarrow> 'w watcher \<Rightarrow> string list" where
  "moved_files ev s = filter (\<lambda>p. dict_get (wt_seen s) p \<noteq> Some (stamp ev (wt_world s) p))
     (sorted_strs (dict_keys (wt_seen s)))"

definition restamp :: "('w, 'v) evaluator \<Rightarrow> string \<Rightarrow> 'w watcher \<Rightarrow> 'w watcher" where
  "restamp ev p s = s\<lparr>wt_seen := dict_set p (stamp ev (wt_world s) p) (wt_seen s)\<rparr>"

definition rescan :: "('w, 'v) evaluator \<Rightarrow> ('w watcher, string list) eff" where
  "rescan ev = (\<lambda>s. bind_eff (map_eff (\<lambda>p. \<lambda>t. forget_path ev p (restamp ev p t)) (moved_files ev s))
     (\<lambda>fs. ret (sorted_strs (concat fs))) s)"

subsection \<open>Warming\<close>

record 'w warmer =
  wm_watcher :: "'w watcher"
  wm_registered :: "string list"
  wm_failures :: "(string, exn) dict"

definition register :: "string \<Rightarrow> 'w warmer \<Rightarrow> 'w warmer" where
  "register r m = m\<lparr>wm_registered := set_add r (wm_registered m)\<rparr>"

definition unregister :: "string \<Rightarrow> 'w warmer \<Rightarrow> 'w warmer" where
  "unregister r m = m\<lparr>wm_registered := set_discard r (wm_registered m),
     wm_failures := dict_del r (wm_failures m)\<rparr>"

definition registered :: "'w warmer \<Rightarrow> string list" where
  "registered m = sorted_strs (wm_registered m)"

definition stale :: "'w warmer \<Rightarrow> string list" where
  "stale m = sorted_strs (filter (\<lambda>r. r \<notin> set (roots (wm_watcher m))) (wm_registered m))"

text \<open>One root of the pass: what raised is recorded, what worked is answered.\<close>

definition warm_one :: "('w, 'v) evaluator \<Rightarrow> string \<Rightarrow> 'w warmer \<Rightarrow> bool \<times> 'w warmer" where
  "warm_one ev r m = (case eval_file ev r (wm_watcher m) of
       (Inl e, s) \<Rightarrow> (False, m\<lparr>wm_watcher := s, wm_failures := dict_set r e (wm_failures m)\<rparr>)
     | (Inr v, s) \<Rightarrow> (True, m\<lparr>wm_watcher := s, wm_failures := dict_del r (wm_failures m)\<rparr>))"

fun warm_each :: "('w, 'v) evaluator \<Rightarrow> string list \<Rightarrow> 'w warmer \<Rightarrow> string list \<times> 'w warmer" where
  "warm_each ev [] m = ([], m)"
| "warm_each ev (r # rs) m = (let (ok, m1) = warm_one ev r m; (ds, m2) = warm_each ev rs m1
     in (if ok then r # ds else ds, m2))"

definition refresh :: "('w, 'v) evaluator \<Rightarrow> 'w warmer \<Rightarrow> string list \<times> 'w warmer" where
  "refresh ev m = warm_each ev (stale m) m"

subsection \<open>Noticing\<close>

text \<open>\<open>os.path.dirname\<close> and \<open>str(Path(p).parent)\<close>.\<close>

definition drop_last_while :: "(char \<Rightarrow> bool) \<Rightarrow> string \<Rightarrow> string" where
  "drop_last_while f s = rev (dropWhile f (rev s))"

definition dirname :: "string \<Rightarrow> string" where
  "dirname p = (let h = drop_last_while (\<lambda>c. c \<noteq> CHR ''/'') p in
     if list_all (\<lambda>c. c = CHR ''/'') h then h else drop_last_while (\<lambda>c. c = CHR ''/'') h)"

definition path_parent :: "string \<Rightarrow> string" where
  "path_parent p = (let ps = path_parts p; t = path_root p @ join_with ''/'' (butlast ps)
     in if t = [] then ''.'' else t)"

definition parents :: "string list \<Rightarrow> string list" where
  "parents ps = remdups (map path_parent ps)"

definition OSError :: exn where
  "OSError = Raised ''OSError''"

record 'w inotify =
  ino_add :: "string \<Rightarrow> ('w, unit) eff"
  ino_rm :: "string \<Rightarrow> ('w, unit) eff"

record 'w notifier =
  nf_watcher :: "'w watcher"
  nf_watches :: "string list" \<comment> \<open>the directories of \<open>_watches\<close>\<close>

definition by_watcher :: "('w watcher, 'a) eff \<Rightarrow> ('w notifier, 'a) eff" where
  "by_watcher m = (\<lambda>s. let (r, t) = m (nf_watcher s) in (r, s\<lparr>nf_watcher := t\<rparr>))"

definition directories :: "'w notifier \<Rightarrow> string list" where
  "directories s = sorted_strs (nf_watches s)"

definition close_notifier :: "'w notifier \<Rightarrow> 'w notifier" where
  "close_notifier s = s\<lparr>nf_watches := []\<rparr>"

definition unwatch :: "'w inotify \<Rightarrow> string \<Rightarrow> ('w notifier, unit) eff" where
  "unwatch io d = (\<lambda>s. case by_watcher (asking (ino_rm io d)) s of
       (Inl e, s1) \<Rightarrow> if e = OSError then (Inr (), s1\<lparr>nf_watches := set_discard d (nf_watches s1)\<rparr>) else (Inl e, s1)
     | (Inr _, s1) \<Rightarrow> (Inr (), s1\<lparr>nf_watches := set_discard d (nf_watches s1)\<rparr>))"

text \<open>A directory that is not there: every file the watcher holds under it has gone.\<close>

definition orphaned :: "('w, 'v) evaluator \<Rightarrow> string \<Rightarrow> ('w notifier, string list) eff" where
  "orphaned ev d = (\<lambda>s. bind_eff
     (map_eff (\<lambda>p. by_watcher (changed ev p)) (filter (\<lambda>p. dirname p = d) (watching (nf_watcher s))))
     (\<lambda>fs. ret (concat fs)) s)"

definition watch_dir :: "('w, 'v) evaluator \<Rightarrow> 'w inotify \<Rightarrow> string \<Rightarrow> ('w notifier, string list) eff" where
  "watch_dir ev io d = (\<lambda>s. case by_watcher (asking (ino_add io d)) s of
       (Inr _, s1) \<Rightarrow> (Inr [], s1\<lparr>nf_watches := set_add d (nf_watches s1)\<rparr>)
     | (Inl e, s1) \<Rightarrow> if e = OSError then orphaned ev d s1 else (Inl e, s1))"

definition sync_watches :: "('w, 'v) evaluator \<Rightarrow> 'w inotify \<Rightarrow> ('w notifier, string list) eff" where
  "sync_watches ev io = (\<lambda>s.
     let wanted = parents (watching (nf_watcher s)) in
     bind_eff (map_eff (unwatch io) (sorted_strs (filter (\<lambda>d. d \<notin> set wanted) (nf_watches s)))) (\<lambda>_. \<lambda>s1.
       bind_eff (map_eff (watch_dir ev io) (sorted_strs (filter (\<lambda>d. d \<notin> set (nf_watches s1)) wanted)))
         (\<lambda>fs. ret (sorted_strs (concat fs))) s1) s)"

definition notifier_eval :: "('w, 'v) evaluator \<Rightarrow> 'w inotify \<Rightarrow> string \<Rightarrow> ('w notifier, 'v) eff" where
  "notifier_eval ev io path = bind_eff (by_watcher (eval_file ev path)) (\<lambda>v.
     bind_eff (sync_watches ev io) (\<lambda>_. ret v))"

text \<open>An event: the path it is about, nothing when its watch is gone, and the name in the directory when it
  has one.\<close>

record event =
  ev_path :: "string option"
  ev_name :: "string option"

definition event_paths :: "event \<Rightarrow> 'w watcher \<Rightarrow> string list" where
  "event_paths e s = (case ev_path e of None \<Rightarrow> []
     | Some p \<Rightarrow> (case ev_name e of
         None \<Rightarrow> filter (\<lambda>f. dirname f = p) (watching s)
       | Some _ \<Rightarrow> filter (\<lambda>f. f = p) (watching s)))"

text \<open>\<open>next_change\<close> on the events to come: \<open>None\<close> when it still waits, else what it forgot and the rest.\<close>

fun next_change ::
  "('w, 'v) evaluator \<Rightarrow> 'w inotify \<Rightarrow> event list \<Rightarrow> ('w notifier, (string list \<times> event list) option) eff" where
  "next_change ev io [] = ret None"
| "next_change ev io (e # es) = (\<lambda>s. case event_paths e (nf_watcher s) of
       [] \<Rightarrow> next_change ev io es s
     | ps \<Rightarrow> bind_eff (map_eff (\<lambda>p. by_watcher (changed ev p)) ps) (\<lambda>fs.
         bind_eff (sync_watches ev io) (\<lambda>g. ret (Some (sorted_strs (concat fs @ g), es)))) s)"

end
