(* ===== verification/Watching_Props.thy ===== *)
theory Watching_Props
  imports Watching
begin

text \<open>
  What the watcher promises. An evaluator's cache is described by what each root's answer was read from:
  \<open>cache_laws\<close> is what \<open>EvalState\<close> documents of \<open>eval_file\<close>, \<open>cached_files\<close> and \<open>forget_file\<close>. Then: a
  snapshot never misses a file its root read, so a change forgets every answer that could depend on
  it; a failed evaluation leaves nothing in the cache it alone read; a pass of the warmer settles every
  registered root.
\<close>

lemma dict_get_key: "dict_get d k = Some v \<Longrightarrow> k \<in> set (dict_keys d)"
  by (induction d) (auto split: if_splits)

subsection \<open>What the evaluator keeps\<close>

definition cache_laws :: "('w, 'v) evaluator \<Rightarrow> ('w \<Rightarrow> string set) \<Rightarrow> ('w \<Rightarrow> string \<Rightarrow> string set) \<Rightarrow> bool" where
  "cache_laws ev cached reads \<longleftrightarrow>
     (\<forall>w p r w'. ev_eval ev p w = (r, w') \<longrightarrow> (\<forall>q. q \<noteq> p \<longrightarrow> reads w' q = reads w q)
        \<and> (case r of Inr v \<Rightarrow> reads w' p \<subseteq> cached w' | Inl e \<Rightarrow> reads w' p = reads w p))
     \<and> (\<forall>w. \<exists>fs. ev_cached ev w = (Inr fs, w) \<and> set fs = cached w)
     \<and> (\<forall>w p. \<exists>w'. ev_forget ev p w = (Inr (), w') \<and> cached w' = cached w - {p} \<and> reads w' = reads w)"

lemma cached_law: "cache_laws ev cached reads \<Longrightarrow> \<exists>fs. ev_cached ev w = (Inr fs, w) \<and> set fs = cached w"
  unfolding cache_laws_def by blast

lemma forget_law: "cache_laws ev cached reads \<Longrightarrow>
   \<exists>w'. ev_forget ev p w = (Inr (), w') \<and> cached w' = cached w - {p} \<and> reads w' = reads w"
  unfolding cache_laws_def by blast

lemma eval_law:
  assumes "cache_laws ev cached reads" "ev_eval ev p w = (r, w')"
  shows "(\<forall>q. q \<noteq> p \<longrightarrow> reads w' q = reads w q) \<and>
   (case r of Inr v \<Rightarrow> reads w' p \<subseteq> cached w' | Inl e \<Rightarrow> reads w' p = reads w p)"
  using assms(1)[unfolded cache_laws_def, THEN conjunct1, rule_format, OF assms(2)] by simp

lemma forget_each_law:
  assumes "cache_laws ev cached reads"
  shows "\<exists>w'. forget_each ev ps s = (Inr (), s\<lparr>wt_world := w'\<rparr>) \<and> cached w' = cached (wt_world s) - set ps
     \<and> reads w' = reads (wt_world s)"
proof -
  have "\<exists>us w'. map_eff (\<lambda>p. asking (ev_forget ev p)) ps s = (Inr us, s\<lparr>wt_world := w'\<rparr>) \<and>
     cached w' = cached (wt_world s) - set ps \<and> reads w' = reads (wt_world s)"
  proof (induction ps arbitrary: s)
    case Nil
    show ?case by (intro exI[of _ "[]"] exI[of _ "wt_world s"]) simp
  next
    case (Cons p ps)
    obtain w1 where w1: "ev_forget ev p (wt_world s) = (Inr (), w1)" "cached w1 = cached (wt_world s) - {p}"
      "reads w1 = reads (wt_world s)" using forget_law[OF assms] by blast
    let ?s1 = "s\<lparr>wt_world := w1\<rparr>"
    have a: "asking (ev_forget ev p) s = (Inr (), ?s1)" using w1(1) by (simp add: asking_def)
    from Cons.IH[of ?s1] obtain us w' where
      "map_eff (\<lambda>p. asking (ev_forget ev p)) ps ?s1 = (Inr us, ?s1\<lparr>wt_world := w'\<rparr>)"
      "cached w' = cached w1 - set ps" "reads w' = reads w1" by auto
    with a w1 show ?case by auto
  qed
  then obtain us w' where "map_eff (\<lambda>p. asking (ev_forget ev p)) ps s = (Inr us, s\<lparr>wt_world := w'\<rparr>)"
     "cached w' = cached (wt_world s) - set ps" "reads w' = reads (wt_world s)" by blast
  then show ?thesis by (intro exI[of _ w']) (simp add: forget_each_def)
qed

subsection \<open>The invariant\<close>

definition covers :: "('w \<Rightarrow> string \<Rightarrow> string set) \<Rightarrow> 'w watcher \<Rightarrow> bool" where
  "covers reads s \<longleftrightarrow> dict_ok (wt_snaps s) \<and>
     (\<forall>r fs. dict_get (wt_snaps s) r = Some fs \<longrightarrow> reads (wt_world s) r \<subseteq> set fs)"

text \<open>What a watcher reaches by its own operations.\<close>

inductive watched :: "('w, 'v) evaluator \<Rightarrow> 'w watcher \<Rightarrow> bool" for ev where
  new: "watched ev (new_watcher w)"
| evaluated: "watched ev s \<Longrightarrow> watched ev (snd (eval_file ev p s))"
| changed: "watched ev s \<Longrightarrow> watched ev (snd (changed ev p s))"
| rescanned: "watched ev s \<Longrightarrow> watched ev (snd (rescan ev s))"

lemma covers_world:
  "covers reads s \<Longrightarrow> reads w = reads (wt_world s) \<Longrightarrow> covers reads (s\<lparr>wt_world := w\<rparr>)"
  by (simp add: covers_def)

lemma dict_get_del_all: "dict_get (fold dict_del ks d) k = (if k \<in> set ks then None else dict_get d k)"
  by (induction ks arbitrary: d) (auto simp: dict_del_def delete_conv')

lemma dict_ok_del_all: "dict_ok d \<Longrightarrow> dict_ok (fold dict_del ks d)"
  by (induction ks arbitrary: d) auto

lemma covers_del: "covers reads s \<Longrightarrow> covers reads (s\<lparr>wt_snaps := fold dict_del gone (wt_snaps s)\<rparr>)"
  by (auto simp: covers_def dict_get_del_all dict_ok_del_all)

lemma covers_prune: "covers reads (prune_seen s) = covers reads s"
  by (simp add: covers_def prune_seen_def)

lemma drop_unrecorded_law:
  assumes "cache_laws ev cached reads"
  shows "\<exists>w'. drop_unrecorded ev s = (Inr (), s\<lparr>wt_world := w'\<rparr>) \<and> reads w' = reads (wt_world s) \<and>
    cached w' = {f \<in> cached (wt_world s). f \<in> set (snapshot_files s) \<or> starts_with f VIRTUAL}"
proof -
  obtain fs where fs: "ev_cached ev (wt_world s) = (Inr fs, wt_world s)" "set fs = cached (wt_world s)"
    using cached_law[OF assms] by blast
  let ?ps = "sorted_strs (watchable (filter (\<lambda>f. f \<notin> set (snapshot_files s)) fs))"
  have a: "asking (ev_cached ev) s = (Inr fs, s)" using fs(1) by (simp add: asking_def)
  obtain w' where "forget_each ev ?ps s = (Inr (), s\<lparr>wt_world := w'\<rparr>)" "cached w' = cached (wt_world s) - set ?ps"
    "reads w' = reads (wt_world s)" using forget_each_law[OF assms] by blast
  with a fs(2) show ?thesis unfolding drop_unrecorded_def by (auto simp: watchable_def)
qed

lemma eval_file_cases:
  assumes "cache_laws ev cached reads"
  obtains (failed) e w1 w2 where "ev_eval ev p (wt_world s) = (Inl e, w1)"
      "eval_file ev p s = (Inl e, s\<lparr>wt_world := w2\<rparr>)" "reads w2 = reads w1"
      "cached w2 = {f \<in> cached w1. f \<in> set (snapshot_files s) \<or> starts_with f VIRTUAL}"
  | (worked) v w1 fs where "ev_eval ev p (wt_world s) = (Inr v, w1)" "set fs = cached w1"
      "eval_file ev p s = (Inr v, record_root ev p fs (s\<lparr>wt_world := w1\<rparr>))"
proof (cases "ev_eval ev p (wt_world s)")
  case (Pair r w1)
  let ?s1 = "s\<lparr>wt_world := w1\<rparr>"
  have a: "asking (ev_eval ev p) s = (r, ?s1)" using Pair by (simp add: asking_def)
  show ?thesis
  proof (cases r)
    case (Inl e)
    obtain w2 where "drop_unrecorded ev ?s1 = (Inr (), ?s1\<lparr>wt_world := w2\<rparr>)" "reads w2 = reads w1"
      "cached w2 = {f \<in> cached w1. f \<in> set (snapshot_files ?s1) \<or> starts_with f VIRTUAL}"
      using drop_unrecorded_law[OF assms, of ?s1] by auto
    with a Inl Pair failed[of e w1 w2] show ?thesis by (simp add: eval_file_def snapshot_files_def)
  next
    case (Inr v)
    obtain fs where fs: "ev_cached ev w1 = (Inr fs, w1)" "set fs = cached w1" using cached_law[OF assms] by blast
    then have "asking (ev_cached ev) ?s1 = (Inr fs, ?s1)" by (simp add: asking_def)
    with a Inr Pair fs(2) worked[of v w1 "remdups fs"] show ?thesis by (simp add: eval_file_def)
  qed
qed

lemma eval_file_covers:
  assumes "cache_laws ev cached reads" "covers reads s"
  shows "covers reads (snd (eval_file ev p s))"
  using assms(1)
proof (cases rule: eval_file_cases[of ev cached reads p s])
  case (failed e w1 w2)
  have "reads w1 = reads (wt_world s)"
    by (rule ext) (use eval_law[OF assms(1) failed(1)] in \<open>case_tac "x = p"; simp\<close>)
  with failed(2,3) assms(2) show ?thesis by (simp add: covers_world)
next
  case (worked v w1 fs)
  have wp: "reads w1 p \<subseteq> cached w1" "\<forall>q. q \<noteq> p \<longrightarrow> reads w1 q = reads (wt_world s) q"
    using eval_law[OF assms(1) worked(1)] by simp_all
  have "reads w1 r \<subseteq> set gs" if "(if r = p then Some fs else dict_get (wt_snaps s) r) = Some gs" for r gs
  proof (cases "r = p")
    case True
    with that worked(2) wp(1) show ?thesis by simp
  next
    case False
    with that have "dict_get (wt_snaps s) r = Some gs" by simp
    then have "reads (wt_world s) r \<subseteq> set gs" using assms(2) unfolding covers_def by blast
    with False wp(2) show ?thesis by simp
  qed
  moreover have "dict_ok (wt_snaps s)" using assms(2) unfolding covers_def by blast
  ultimately show ?thesis unfolding worked(3) covers_def record_root_def by simp
qed

lemma forget_path_law:
  assumes "cache_laws ev cached reads"
  shows "\<exists>w'. forget_path ev p s = (Inr (sorted_strs (map fst (implicated p s))),
      prune_seen (s\<lparr>wt_snaps := fold dict_del (map fst (implicated p s)) (wt_snaps s), wt_world := w'\<rparr>))
    \<and> cached w' = cached (wt_world s) - set (concat (map snd (implicated p s))) \<and> reads w' = reads (wt_world s)"
proof -
  let ?s1 = "s\<lparr>wt_snaps := fold dict_del (map fst (implicated p s)) (wt_snaps s)\<rparr>"
  obtain w' where "forget_each ev (sorted_strs (concat (map snd (implicated p s)))) ?s1 =
      (Inr (), ?s1\<lparr>wt_world := w'\<rparr>)"
    "cached w' = cached (wt_world s) - set (sorted_strs (concat (map snd (implicated p s))))"
    "reads w' = reads (wt_world s)"
    using forget_each_law[OF assms, of "sorted_strs (concat (map snd (implicated p s)))" ?s1] by auto
  then show ?thesis by (auto simp: forget_path_def Let_def)
qed

lemma forget_path_covers:
  assumes "cache_laws ev cached reads" "covers reads s"
  shows "covers reads (snd (forget_path ev p s))"
proof -
  obtain w' where f: "forget_path ev p s = (Inr (sorted_strs (map fst (implicated p s))),
      prune_seen (s\<lparr>wt_snaps := fold dict_del (map fst (implicated p s)) (wt_snaps s), wt_world := w'\<rparr>))"
    "reads w' = reads (wt_world s)" using forget_path_law[OF assms(1)] by blast
  have "covers reads (s\<lparr>wt_snaps := fold dict_del (map fst (implicated p s)) (wt_snaps s), wt_world := w'\<rparr>)"
    using covers_world[OF covers_del[OF assms(2)]] f(2) by simp
  with f(1) show ?thesis by (simp only: snd_conv covers_prune)
qed

lemma covers_restamp [simp]: "covers reads (restamp ev p s) = covers reads s"
  by (simp add: covers_def restamp_def)

lemma map_eff_inv:
  assumes "\<And>x s. x \<in> set xs \<Longrightarrow> P s \<Longrightarrow> P (snd (f x s))" "P s"
  shows "P (snd (map_eff f xs s))"
  using assms
proof (induction xs arbitrary: s)
  case (Cons x xs)
  show ?case
  proof (cases "f x s")
    case (Pair r t)
    then have t: "P t" using Cons.prems(1)[of x s] Cons.prems(2) by simp
    show ?thesis
    proof (cases r)
      case (Inr y)
      have "P (snd (map_eff f xs t))" using Cons.IH[OF _ t] Cons.prems(1) by simp
      with Pair Inr show ?thesis by (cases "map_eff f xs t"; cases "fst (map_eff f xs t)") simp_all
    qed (use Pair t in simp)
  qed
qed simp

lemma rescan_covers:
  assumes "cache_laws ev cached reads" "covers reads s"
  shows "covers reads (snd (rescan ev s))"
proof -
  let ?m = "map_eff (\<lambda>p t. forget_path ev p (restamp ev p t)) (moved_files ev s)"
  have "covers reads (snd (?m s))"
    by (rule map_eff_inv[where P = "covers reads"])
      (use assms(2) in \<open>simp_all add: forget_path_covers[OF assms(1)]\<close>)
  then show ?thesis by (cases "?m s"; cases "fst (?m s)") (simp_all add: rescan_def)
qed

lemma watched_covers:
  assumes "watched ev s" "cache_laws ev cached reads"
  shows "covers reads s"
  using assms(1)
proof induction
  case (new w)
  show ?case by (simp add: covers_def new_watcher_def)
qed (simp_all add: changed_def eval_file_covers[OF assms(2)] forget_path_covers[OF assms(2)] rescan_covers[OF assms(2)])

lemma del_all_filter: "fold dict_del ks d = filter (\<lambda>q. fst q \<notin> set ks) d"
proof (induction ks arbitrary: d)
  case (Cons k ks)
  have "dict_del k d = filter (\<lambda>q. fst q \<noteq> k) d"
    by (induction d) (auto simp: dict_del_def)
  then show ?case using Cons by (auto intro: filter_cong)
qed simp

subsection \<open>A change\<close>

lemma roots_after:
  assumes "forget_path ev p s = (Inr rs, s')" "cache_laws ev cached reads"
  shows "rs = sorted_strs (map fst (implicated p s))"
    "wt_snaps s' = fold dict_del (map fst (implicated p s)) (wt_snaps s)"
    "cached (wt_world s') = cached (wt_world s) - set (concat (map snd (implicated p s)))"
    "reads (wt_world s') = reads (wt_world s)"
  using forget_path_law[OF assms(2), of p s] assms(1) by (auto simp: prune_seen_def)

lemma implicated_iff:
  assumes "dict_ok (wt_snaps s)"
  shows "r \<in> fst ` set (implicated p s) \<longleftrightarrow> (\<exists>fs. dict_get (wt_snaps s) r = Some fs \<and> p \<in> set fs)"
  using assms unfolding implicated_def dict_ok_def by (force simp: map_of_eq_Some_iff)

text \<open>After a watcher is told a path changed, every root whose answer was read from it is answered as
  forgotten, none of the files such an answer was read from is still cached, and no root left depends on
  the path.\<close>

theorem change_forgets:
  assumes "cache_laws ev cached reads" "watched ev s" "changed ev p s = (Inr rs, s')"
  shows "(\<forall>r\<in>set (roots s). p \<in> reads (wt_world s) r \<longrightarrow>
       r \<in> set rs \<and> reads (wt_world s) r \<inter> cached (wt_world s') = {})
     \<and> (\<forall>r\<in>set (roots s'). p \<notin> reads (wt_world s') r)
     \<and> set (roots s') = set (roots s) - set rs"
proof (intro conjI ballI impI)
  have c: "covers reads s" by (rule watched_covers[OF assms(2,1)])
  note f = roots_after[OF assms(3)[unfolded changed_def] assms(1)]
  have ok: "dict_ok (wt_snaps s)" using c unfolding covers_def by blast
  have rs: "set rs = fst ` set (implicated p s)" by (simp add: f(1))
  {
    fix r assume r: "r \<in> set (roots s)" and p: "p \<in> reads (wt_world s) r"
    then obtain fs where fs: "dict_get (wt_snaps s) r = Some fs"
      by (auto simp: roots_def) (metis map_of_eq_None_iff image_iff not_Some_eq fst_conv)
    then have sub: "reads (wt_world s) r \<subseteq> set fs" using c unfolding covers_def by blast
    then have "p \<in> set fs" using p by blast
    then show "r \<in> set rs" using fs rs implicated_iff[OF ok] by blast
    have "(r, fs) \<in> set (implicated p s)" using fs \<open>p \<in> set fs\<close> by (simp add: implicated_def map_of_SomeD)
    then have "set fs \<subseteq> set (concat (map snd (implicated p s)))" by force
    then show "reads (wt_world s) r \<inter> cached (wt_world s') = {}" using sub f(3) by blast
  }
  show s': "set (roots s') = set (roots s) - set rs"
  proof -
    have "set (dict_keys (wt_snaps s')) = set (dict_keys (wt_snaps s)) - fst ` set (implicated p s)"
      unfolding f(2) del_all_filter by auto
    then show ?thesis unfolding roots_def sorted_strs_set rs .
  qed
  fix r assume r: "r \<in> set (roots s')"
  then obtain fs where fs: "dict_get (wt_snaps s) r = Some fs" "r \<notin> set rs"
    using s' by (auto simp: roots_def) (metis map_of_eq_None_iff image_iff not_Some_eq fst_conv)
  then have "reads (wt_world s) r \<subseteq> set fs" using c unfolding covers_def by blast
  moreover have "p \<notin> set fs" using fs rs implicated_iff[OF ok] by blast
  ultimately show "p \<notin> reads (wt_world s') r" using f(4) by auto
qed

text \<open>An evaluator that reads a root and one library, and fails on one root.\<close>

definition demo_ev :: "(string list, unit) evaluator" where
  "demo_ev = \<lparr>ev_eval = (\<lambda>p w. (if p = ''bad'' then Inl ValueError else Inr (), p # ''lib'' # w)),
     ev_cached = (\<lambda>w. (Inr w, w)), ev_forget = (\<lambda>p w. (Inr (), filter (\<lambda>f. f \<noteq> p) w)),
     ev_stat = (\<lambda>w p. None)\<rparr>"

lemma demo_laws: "cache_laws demo_ev set (\<lambda>w r. if r = ''bad'' then {} else {r, ''lib''})"
  by (auto simp: cache_laws_def demo_ev_def split: sum.splits)

theorem change_forgets_witness:
  "\<exists>s rs s'. roots s = [''a'', ''b''] \<and> changed demo_ev ''lib'' s = (Inr rs, s') \<and> ''a'' \<in> set rs \<and> ''b'' \<in> set rs
     \<and> ''lib'' \<notin> set (wt_world s')"
proof -
  obtain s where w: "watched demo_ev s" and r: "roots s = [''a'', ''b'']"
  proof (rule that)
    let ?s1 = "snd (eval_file demo_ev ''a'' (new_watcher []))"
    let ?s = "snd (eval_file demo_ev ''b'' ?s1)"
    show "watched demo_ev ?s" by (intro watched.intros)
    show "roots ?s = [''a'', ''b'']" by code_simp
  qed
  obtain rs s' where c: "changed demo_ev ''lib'' s = (Inr rs, s')"
    using forget_path_law[OF demo_laws, of "''lib''" s] by (auto simp: changed_def)
  note f = change_forgets[OF demo_laws w c, THEN conjunct1, rule_format]
  have "''a'' \<in> set rs \<and> {''a'', ''lib''} \<inter> set (wt_world s') = {}" using f[of "''a''"] by (simp add: r)
  moreover have "''b'' \<in> set rs" using f[of "''b''"] by (simp add: r)
  ultimately show ?thesis using r c by (intro exI[of _ s] exI[of _ rs] exI[of _ s']) simp
qed

text \<open>A failed evaluation leaves in the cache no file of this machine that no recorded root's answer may
  be read from, so that a corrected file is read again; and it keeps every recorded answer.\<close>

theorem failed_eval_forgotten:
  assumes "cache_laws ev cached reads" "eval_file ev p s = (Inl e, s')"
  shows "wt_snaps s' = wt_snaps s \<and> (\<forall>f\<in>cached (wt_world s'). starts_with f VIRTUAL \<or> f \<in> set (snapshot_files s'))"
  using assms(1)
proof (cases rule: eval_file_cases[of ev cached reads p s])
  case (failed e' w1 w2)
  with assms(2) show ?thesis by (auto simp: snapshot_files_def)
next
  case (worked v w1 fs)
  with assms(2) show ?thesis by simp
qed

theorem failed_eval_forgotten_witness:
  "\<exists>s'. eval_file demo_ev ''bad'' (new_watcher [''other'']) = (Inl ValueError, s') \<and> ''bad'' \<notin> set (wt_world s')"
proof -
  have e: "eval_file demo_ev ''bad'' (new_watcher [''other'']) = (Inl ValueError, new_watcher [])" by code_simp
  from failed_eval_forgotten[OF demo_laws e] e show ?thesis by (simp add: new_watcher_def)
qed

subsection \<open>A rescan\<close>

lemma snaps_after:
  assumes "dict_ok d"
  shows "fold dict_del (map fst (filter (\<lambda>q. p \<in> set (snd q)) d)) d = filter (\<lambda>q. p \<notin> set (snd q)) d"
  unfolding del_all_filter
proof (rule filter_cong[OF refl])
  fix q assume q: "q \<in> set d"
  have "q' = q" if "q' \<in> set d" "fst q' = fst q" for q'
    using q that assms by (metis dict_ok_def eq_key_imp_eq_value prod.collapse)
  then show "(fst q \<notin> set (map fst (filter (\<lambda>q. p \<in> set (snd q)) d))) = (p \<notin> set (snd q))"
    using q by auto
qed

lemma rescan_steps:
  assumes "cache_laws ev cached reads"
  shows "dict_ok (wt_snaps t) \<Longrightarrow>
    \<exists>fs t'. map_eff (\<lambda>p t. forget_path ev p (restamp ev p t)) ps t = (Inr fs, t') \<and>
    set (concat fs) = fst ` {q \<in> set (wt_snaps t). \<exists>p\<in>set ps. p \<in> set (snd q)} \<and>
    wt_snaps t' = filter (\<lambda>q. \<forall>p\<in>set ps. p \<notin> set (snd q)) (wt_snaps t)"
proof (induction ps arbitrary: t)
  case (Cons p ps)
  let ?t = "restamp ev p t"
  let ?hit = "filter (\<lambda>q. p \<in> set (snd q)) (wt_snaps t)" and ?rest = "filter (\<lambda>q. p \<notin> set (snd q)) (wt_snaps t)"
  have i: "implicated p ?t = ?hit" "wt_snaps ?t = wt_snaps t" by (simp_all add: implicated_def restamp_def)
  obtain t1 where f: "forget_path ev p ?t = (Inr (sorted_strs (map fst ?hit)), t1)" "wt_snaps t1 = ?rest"
    using forget_path_law[OF assms, of p ?t] snaps_after[OF Cons.prems, of p] unfolding i
    by (auto simp: prune_seen_def)
  have "dict_ok ?rest" using Cons.prems by (auto simp: dict_ok_def distinct_map_filter)
  then obtain fs t' where r: "map_eff (\<lambda>p t. forget_path ev p (restamp ev p t)) ps t1 = (Inr fs, t')"
    "set (concat fs) = fst ` {q \<in> set ?rest. \<exists>p\<in>set ps. p \<in> set (snd q)}"
    "wt_snaps t' = filter (\<lambda>q. \<forall>p\<in>set ps. p \<notin> set (snd q)) ?rest"
    using Cons.IH[of t1] f(2) by auto
  have "set (concat (sorted_strs (map fst ?hit) # fs)) =
      fst ` {q \<in> set (wt_snaps t). \<exists>x\<in>set (p # ps). x \<in> set (snd q)}"
    using r(2) by auto
  moreover have "wt_snaps t' = filter (\<lambda>q. \<forall>x\<in>set (p # ps). x \<notin> set (snd q)) (wt_snaps t)"
    using r(3) by (simp add: conj_commute)
  ultimately show ?case using f(1) r(1) by (intro exI[of _ "sorted_strs (map fst ?hit) # fs"] exI[of _ t']) simp
qed simp

text \<open>A rescan answers exactly the recorded roots with a watched file that is not as it was last seen,
  changed, replaced or gone; it forgets those and keeps the others as they are.\<close>

theorem rescan_exact:
  assumes "cache_laws ev cached reads" "watched ev s"
  shows "\<exists>rs s'. rescan ev s = (Inr rs, s') \<and>
    set rs = {r. \<exists>fs. (r, fs) \<in> set (wt_snaps s) \<and> (\<exists>p\<in>set fs. p \<in> set (dict_keys (wt_seen s)) \<and>
       dict_get (wt_seen s) p \<noteq> Some (stamp ev (wt_world s) p))} \<and>
    wt_snaps s' = filter (\<lambda>q. fst q \<notin> set rs) (wt_snaps s)"
proof -
  have ok: "dict_ok (wt_snaps s)" using watched_covers[OF assms(2,1)] unfolding covers_def by blast
  let ?ps = "moved_files ev s"
  have ps: "set ?ps = {p \<in> set (dict_keys (wt_seen s)). dict_get (wt_seen s) p \<noteq> Some (stamp ev (wt_world s) p)}"
    by (auto simp: moved_files_def)
  obtain fs t' where m: "map_eff (\<lambda>p t. forget_path ev p (restamp ev p t)) ?ps s = (Inr fs, t')"
    "set (concat fs) = fst ` {q \<in> set (wt_snaps s). \<exists>p\<in>set ?ps. p \<in> set (snd q)}"
    "wt_snaps t' = filter (\<lambda>q. \<forall>p\<in>set ?ps. p \<notin> set (snd q)) (wt_snaps s)"
    using rescan_steps[OF assms(1) ok] by blast
  let ?rs = "sorted_strs (concat fs)"
  have "rescan ev s = (Inr ?rs, t')" using m(1) by (simp add: rescan_def)
  moreover have "set ?rs = {r. \<exists>fs. (r, fs) \<in> set (wt_snaps s) \<and> (\<exists>p\<in>set fs. p \<in> set (dict_keys (wt_seen s)) \<and>
       dict_get (wt_seen s) p \<noteq> Some (stamp ev (wt_world s) p))}"
    unfolding sorted_strs_set m(2) ps by (auto simp: image_def)
  moreover have "wt_snaps t' = filter (\<lambda>q. fst q \<notin> set ?rs) (wt_snaps s)"
    unfolding m(3) sorted_strs_set m(2)
  proof (rule filter_cong[OF refl])
    fix q assume q: "q \<in> set (wt_snaps s)"
    have "q' = q" if "q' \<in> set (wt_snaps s)" "fst q' = fst q" for q'
      using q that ok by (metis dict_ok_def eq_key_imp_eq_value prod.collapse)
    then show "(\<forall>p\<in>set ?ps. p \<notin> set (snd q)) =
      (fst q \<notin> fst ` {q \<in> set (wt_snaps s). \<exists>p\<in>set ?ps. p \<in> set (snd q)})" using q by (auto; metis)
  qed
  ultimately show ?thesis by blast
qed

text \<open>The same evaluator with a clock: a file is as old as the world says.\<close>

definition demo_clock :: "(string list, unit) evaluator" where
  "demo_clock = demo_ev\<lparr>ev_stat := \<lambda>w p. Some (int (length (filter (\<lambda>f. f = p) w)), 0)\<rparr>"

lemma demo_clock_laws: "cache_laws demo_clock set (\<lambda>w r. if r = ''bad'' then {} else {r, ''lib''})"
  using demo_laws by (simp add: cache_laws_def demo_clock_def)

theorem rescan_exact_witness:
  "\<exists>s rs s'. roots s = [''a'', ''b''] \<and> rescan demo_clock s = (Inr rs, s') \<and> set rs = {''a'', ''b''} \<and> wt_snaps s' = []"
proof -
  obtain s where w: "watched demo_clock s" and r: "roots s = [''a'', ''b'']"
    and v: "wt_snaps s = [(''a'', [''a'', ''lib'']), (''b'', [''b'', ''a'', ''lib''])]"
      "dict_get (wt_seen s) ''lib'' = Some (1, 0)" "stamp demo_clock (wt_world s) ''lib'' = (2, 0)"
  proof (rule that)
    let ?s1 = "snd (eval_file demo_clock ''a'' (new_watcher []))"
    let ?s = "snd (eval_file demo_clock ''b'' ?s1)"
    show "watched demo_clock ?s" by (intro watched.intros)
    show "roots ?s = [''a'', ''b'']" by code_simp
    show "wt_snaps ?s = [(''a'', [''a'', ''lib'']), (''b'', [''b'', ''a'', ''lib''])]" by code_simp
    show "dict_get (wt_seen ?s) ''lib'' = Some (1, 0)" by code_simp
    show "stamp demo_clock (wt_world ?s) ''lib'' = (2, 0)" by code_simp
  qed
  have k: "''lib'' \<in> set (dict_keys (wt_seen s))" using v(2) by (rule dict_get_key)
  obtain rs s' where e: "rescan demo_clock s = (Inr rs, s')"
    "set rs = {r. \<exists>fs. (r, fs) \<in> set (wt_snaps s) \<and> (\<exists>p\<in>set fs. p \<in> set (dict_keys (wt_seen s)) \<and>
       dict_get (wt_seen s) p \<noteq> Some (stamp demo_clock (wt_world s) p))}"
    "wt_snaps s' = filter (\<lambda>q. fst q \<notin> set rs) (wt_snaps s)"
    using rescan_exact[OF demo_clock_laws w] by blast
  have d: "dict_get (wt_seen s) ''lib'' \<noteq> Some (stamp demo_clock (wt_world s) ''lib'')" by (simp add: v)
  have "''a'' \<in> set rs" "''b'' \<in> set rs"
    unfolding e(2) using k d by (auto simp del: set_map simp: v(1) intro!: bexI[of _ "''lib''"])
  moreover have "set rs \<subseteq> {''a'', ''b''}" unfolding e(2) v(1) by auto
  ultimately have rs: "set rs = {''a'', ''b''}" by blast
  have "wt_snaps s' = []" unfolding e(3) rs v(1) by simp
  with e(1) rs r show ?thesis by blast
qed

subsection \<open>A pass of the warmer\<close>

lemma roots_kept:
  assumes "cache_laws ev cached reads" "r \<in> set (roots s)"
  shows "r \<in> set (roots (snd (eval_file ev p s)))"
  using assms(1)
proof (cases rule: eval_file_cases[of ev cached reads p s])
  case (worked v w1 fs)
  show ?thesis using assms(2) unfolding worked(3) roots_def record_root_def by (simp del: set_map)
qed (use assms(2) in \<open>simp add: roots_def\<close>)

definition settled :: "'w warmer \<Rightarrow> string \<Rightarrow> bool" where
  "settled m r \<longleftrightarrow> r \<in> set (roots (wm_watcher m)) \<or> dict_get (wm_failures m) r \<noteq> None"

lemma warm_one_settles:
  assumes "cache_laws ev cached reads" "warm_one ev r m = (ok, m')"
  shows "settled m' r \<and> (settled m q \<longrightarrow> settled m' q) \<and> wm_registered m' = wm_registered m \<and>
    (ok \<longrightarrow> r \<in> set (roots (wm_watcher m'))) \<and> (q \<in> set (roots (wm_watcher m)) \<longrightarrow> q \<in> set (roots (wm_watcher m')))"
  using assms(1)
proof (cases rule: eval_file_cases[of ev cached reads r "wm_watcher m"])
  case (failed e w1 w2)
  with assms(2) have m': "ok = False" "m' = m\<lparr>wm_watcher := (wm_watcher m)\<lparr>wt_world := w2\<rparr>,
    wm_failures := dict_set r e (wm_failures m)\<rparr>" by (auto simp: warm_one_def)
  then show ?thesis by (auto simp: settled_def roots_def)
next
  case (worked v w1 fs)
  let ?s = "record_root ev r fs ((wm_watcher m)\<lparr>wt_world := w1\<rparr>)"
  from worked assms(2) have m': "ok = True" "m' = m\<lparr>wm_watcher := ?s, wm_failures := dict_del r (wm_failures m)\<rparr>"
    by (auto simp: warm_one_def)
  have rs: "set (roots ?s) = insert r (set (roots (wm_watcher m)))" by (simp add: roots_def record_root_def del: set_map)
  have f: "dict_get (dict_del r d) q = (if q = r then None else dict_get d q)" for d :: "(string, exn) dict"
    by (simp add: dict_del_def delete_conv')
  show ?thesis unfolding m' settled_def using rs f by auto
qed

lemma warm_each_settles:
  assumes "cache_laws ev cached reads"
  shows "warm_each ev rs m = (ds, m') \<Longrightarrow>
    (\<forall>r\<in>set rs. settled m' r) \<and> (\<forall>q. settled m q \<longrightarrow> settled m' q) \<and> wm_registered m' = wm_registered m \<and>
    (\<forall>q\<in>set (roots (wm_watcher m)). q \<in> set (roots (wm_watcher m'))) \<and> set ds \<subseteq> set rs \<inter> set (roots (wm_watcher m'))"
proof (induction rs arbitrary: m ds m')
  case (Cons r rs)
  obtain ok m1 where o: "warm_one ev r m = (ok, m1)" by (cases "warm_one ev r m")
  obtain ds1 m2 where e: "warm_each ev rs m1 = (ds1, m2)" by (cases "warm_each ev rs m1")
  note w = warm_one_settles[OF assms o]
  from Cons.prems o e have d: "ds = (if ok then r # ds1 else ds1)" "m' = m2" by simp_all
  note i = Cons.IH[OF e]
  have "set ds \<subseteq> set (r # rs) \<inter> set (roots (wm_watcher m'))"
    using i w unfolding d by (cases ok) auto
  moreover have "\<forall>q\<in>set (r # rs). settled m' q" using i w unfolding d by auto
  ultimately show ?case using i w unfolding d by metis
qed simp

text \<open>After a pass, every registered root is either warm or has the failure of its last attempt recorded;
  what the pass answers is stale roots that are warm now.\<close>

theorem refresh_settles:
  assumes "cache_laws ev cached reads" "refresh ev m = (ds, m')"
  shows "(\<forall>r\<in>set (registered m'). r \<notin> set (stale m') \<or> dict_get (wm_failures m') r \<noteq> None) \<and>
    set ds \<subseteq> set (stale m) - set (stale m')"
proof -
  note w = warm_each_settles[OF assms(1) assms(2)[unfolded refresh_def]]
  have "settled m' r" if "r \<in> set (registered m')" for r
  proof (cases "r \<in> set (stale m)")
    case False
    with that w have "settled m r" by (auto simp: registered_def stale_def settled_def)
    with w show ?thesis by blast
  qed (use w in blast)
  moreover have "r \<notin> set (roots (wm_watcher m'))" if "r \<in> set (stale m')" for r
    using that by (simp add: stale_def)
  ultimately show ?thesis using w unfolding settled_def by blast
qed

theorem refresh_settles_witness:
  "\<exists>ds m'. refresh demo_ev (register ''bad'' (register ''a'' \<lparr>wm_watcher = new_watcher [], wm_registered = [], wm_failures = []\<rparr>))
     = (ds, m') \<and> registered m' = [''a'', ''bad''] \<and> stale m' = [''bad''] \<and> set ds = {''a''} \<and>
     dict_get (wm_failures m') ''bad'' \<noteq> None"
proof -
  let ?m = "register ''bad'' (register ''a'' \<lparr>wm_watcher = new_watcher [], wm_registered = [], wm_failures = []\<rparr>)"
  obtain ds m' where r: "refresh demo_ev ?m = (ds, m')" by (cases "refresh demo_ev ?m")
  have c: "ds = [''a''] \<and> registered m' = [''a'', ''bad''] \<and> stale m' = [''bad'']"
  proof -
    have "case refresh demo_ev ?m of (ds, m') \<Rightarrow> ds = [''a''] \<and> registered m' = [''a'', ''bad''] \<and> stale m' = [''bad'']"
      by code_simp
    with r show ?thesis by simp
  qed
  from refresh_settles[OF demo_laws r] r c show ?thesis by auto
qed

end
