(* ===== verification/Devshell.thy ===== *)
theory Devshell
  imports Values
begin

text \<open>
  The development shell of \<open>huggorm/devshell.py\<close>: the surgery on a derivation, the build environment and
  its JSON document, the shell code it renders to, and the sequence of store calls around them. The store
  is bound C++: the record \<open>store\<close>, an argument, whose operations take and answer parsed JSON where the
  code wraps them in \<open>json.loads\<close> and \<open>json.dumps\<close>. An environment has the types the dataclasses declare;
  \<open>Untyped\<close> marks a document that gives them a value of another type, which the code does not check.
  The async functions make the same calls in the same order.
\<close>

datatype json =
    JNull
  | JBool bool
  | JNum int
  | JReal flt
  | JStr string
  | JArr "json list"
  | JObj "(string \<times> json) list"

definition NixErr :: exn where
  "NixErr = Raised ''NixError''"

definition Untyped :: exn where
  "Untyped = Raised ''Untyped''"

definition AttributeErr :: exn where
  "AttributeErr = Raised ''AttributeError''"

text \<open>\<open>v[k]\<close> for a str \<open>k\<close>, \<open>v.items()\<close>, and what \<open>list(v)\<close> and \<open>dict(v)\<close> make of a value.\<close>

definition jget :: "json \<Rightarrow> string \<Rightarrow> exn + json" where
  "jget v k = (case v of JObj kvs \<Rightarrow> (case dict_get kvs k of None \<Rightarrow> Inl KeyError | Some x \<Rightarrow> Inr x)
     | _ \<Rightarrow> Inl TypeError)"

definition jitems :: "json \<Rightarrow> exn + (string \<times> json) list" where
  "jitems v = (case v of JObj kvs \<Rightarrow> Inr kvs | _ \<Rightarrow> Inl AttributeErr)"

definition jstr :: "json \<Rightarrow> exn + string" where
  "jstr v = (case v of JStr s \<Rightarrow> Inr s | _ \<Rightarrow> Inl Untyped)"

definition jlist :: "json \<Rightarrow> exn + string list" where
  "jlist v = (case v of JArr vs \<Rightarrow> map_res jstr vs | JStr s \<Rightarrow> Inr (map (\<lambda>c. [c]) s)
     | JObj kvs \<Rightarrow> Inr (dict_keys kvs) | _ \<Rightarrow> Inl TypeError)"

definition jpair :: "json \<Rightarrow> exn + (string \<times> string)" where
  "jpair v = (case jlist v of Inl e \<Rightarrow> Inl e | Inr ws \<Rightarrow>
     (case ws of [k, x] \<Rightarrow> Inr (k, x) | _ \<Rightarrow> Inl ValueError))"

definition str_items :: "(string \<times> json) list \<Rightarrow> exn + (string \<times> string) list" where
  "str_items kvs = map_res (\<lambda>p. map_sum id (\<lambda>s. (fst p, s)) (jstr (snd p))) kvs"

definition jdict :: "json \<Rightarrow> exn + (string, string) dict" where
  "jdict v = (case v of JObj kvs \<Rightarrow> str_items kvs
     | JArr vs \<Rightarrow> map_sum id (\<lambda>ps. fold (\<lambda>p d. dict_set (fst p) (snd p) d) ps []) (map_res jpair vs)
     | JStr s \<Rightarrow> if s = [] then Inr [] else Inl ValueError
     | _ \<Rightarrow> Inl TypeError)"

subsection \<open>The environment\<close>

datatype env_value =
    Var bool string \<comment> \<open>whether the shell exports it, and its value\<close>
  | Indexed "string list"
  | Associative "(string, string) dict"

record build_env =
  be_vars :: "(string, env_value) dict"
  be_functions :: "(string, string) dict"
  be_attrs :: "(string \<times> string) option" \<comment> \<open>\<open>.attrs.json\<close> and \<open>.attrs.sh\<close>\<close>

definition var_of_json :: "json \<Rightarrow> exn + env_value option" where
  "var_of_json info = res_bind (jget info ''type'') (\<lambda>kind.
     if kind = JStr ''var'' \<or> kind = JStr ''exported''
     then res_bind (jget info ''value'') (\<lambda>v. res_bind (jstr v) (\<lambda>s. Inr (Some (Var (kind = JStr ''exported'') s))))
     else if kind = JStr ''array''
     then res_bind (jget info ''value'') (\<lambda>v. res_bind (jlist v) (\<lambda>ws. Inr (Some (Indexed ws))))
     else if kind = JStr ''associative''
     then res_bind (jget info ''value'') (\<lambda>v. res_bind (jdict v) (\<lambda>d. Inr (Some (Associative d))))
     else Inr None)"

fun vars_of_json :: "(string \<times> json) list \<Rightarrow> exn + (string, env_value) dict" where
  "vars_of_json [] = Inr []"
| "vars_of_json ((name, info) # rest) = res_bind (var_of_json info) (\<lambda>v.
     res_bind (vars_of_json rest) (\<lambda>vs. Inr (case v of None \<Rightarrow> vs | Some x \<Rightarrow> (name, x) # vs)))"

definition from_json :: "(string \<times> json) list \<Rightarrow> exn + build_env" where
  "from_json doc =
     res_bind (jget (JObj doc) ''variables'') (\<lambda>vs. res_bind (jitems vs) (\<lambda>infos.
     res_bind (vars_of_json infos) (\<lambda>vars.
     res_bind (jget (JObj doc) ''bashFunctions'') (\<lambda>fs. res_bind (jdict fs) (\<lambda>functions.
     res_bind (case dict_get doc ''structuredAttrs'' of None \<Rightarrow> Inr None
         | Some attrs \<Rightarrow> res_bind (jget attrs ''.attrs.json'') (\<lambda>j. res_bind (jget attrs ''.attrs.sh'') (\<lambda>s.
             res_bind (jstr j) (\<lambda>j'. res_bind (jstr s) (\<lambda>s'. Inr (Some (j', s')))))))
       (\<lambda>structured. Inr \<lparr>be_vars = vars, be_functions = functions, be_attrs = structured\<rparr>))))))"

fun var_json :: "env_value \<Rightarrow> json" where
  "var_json (Var ex v) = JObj [(''type'', JStr (if ex then ''exported'' else ''var'')), (''value'', JStr v)]"
| "var_json (Indexed ws) = JObj [(''type'', JStr ''array''), (''value'', JArr (map JStr ws))]"
| "var_json (Associative d) = JObj [(''type'', JStr ''associative''),
     (''value'', JObj (map (\<lambda>p. (fst p, JStr (snd p))) d))]"

definition env_document :: "build_env \<Rightarrow> (string \<times> json) list" where
  "env_document env =
     [(''variables'', JObj (map (\<lambda>p. (fst p, var_json (snd p))) (be_vars env))),
      (''bashFunctions'', JObj (map (\<lambda>p. (fst p, JStr (snd p))) (be_functions env)))]
     @ (case be_attrs env of None \<Rightarrow> []
        | Some (j, s) \<Rightarrow> [(''structuredAttrs'', JObj [(''.attrs.sh'', JStr s), (''.attrs.json'', JStr j)])])"

text \<open>Dicts compare without their order; what is read back has the order it was written in, so the
  comparison of values is the same.\<close>

definition to_dict :: "build_env \<Rightarrow> exn + (string \<times> json) list" where
  "to_dict env = (if from_json (env_document env) \<noteq> Inr env then Inl NixErr else Inr (env_document env))"

subsection \<open>Shell code\<close>

definition SQ :: char where "SQ = CHR 0x27"
definition DQ :: char where "DQ = CHR 0x22"
definition BACKSLASH :: char where "BACKSLASH = CHR 0x5C"
definition NL :: string where "NL = [CHR 0x0A]"

definition escape_shell_arg :: "string \<Rightarrow> string" where
  "escape_shell_arg v = SQ # concat (map (\<lambda>c. if c = SQ then [SQ, BACKSLASH, SQ, SQ] else [c]) v) @ [SQ]"

definition IGNORE_VARS :: "string list" where
  "IGNORE_VARS = [''BASHOPTS'', ''HOME'', ''NIX_BUILD_TOP'', ''NIX_ENFORCE_PURITY'', ''NIX_LOG_FD'', ''NIX_REMOTE'',
     ''PPID'', ''SHELLOPTS'', ''SSL_CERT_FILE'', ''TEMP'', ''TEMPDIR'', ''TERM'', ''TMP'', ''TMPDIR'', ''TZ'', ''UID'']"

definition SAVED_VARS :: "string list" where
  "SAVED_VARS = [''PATH'', ''XDG_DATA_DIRS'']"

fun bash_var :: "string \<Rightarrow> env_value \<Rightarrow> string" where
  "bash_var name (Var ex v) = name @ ''='' @ escape_shell_arg v @ NL
     @ (if ex then ''export '' @ name @ NL else [])"
| "bash_var name (Indexed ws) = ''declare -a '' @ name @ ''=(''
     @ concat (map (\<lambda>w. escape_shell_arg w @ '' '') ws) @ '')'' @ NL"
| "bash_var name (Associative d) = ''declare -A '' @ name @ ''=(''
     @ concat (map (\<lambda>k. ''['' @ escape_shell_arg k @ '']='' @ escape_shell_arg (dict_default d k []) @ '' '')
         (sorted_strs (dict_keys d))) @ '')'' @ NL"

definition to_bash :: "string list \<Rightarrow> build_env \<Rightarrow> string" where
  "to_bash ignore env =
     concat (map (\<lambda>name. if name \<in> set ignore then [] else
         (case dict_get (be_vars env) name of None \<Rightarrow> [] | Some v \<Rightarrow> bash_var name v))
       (sorted_strs (dict_keys (be_vars env))))
     @ concat (map (\<lambda>name. name @ '' ()'' @ NL @ ''{'' @ NL @ dict_default (be_functions env) name [] @ ''}'' @ NL)
       (sorted_strs (dict_keys (be_functions env))))"

definition require_string :: "build_env \<Rightarrow> string \<Rightarrow> exn + string" where
  "require_string env name = (case dict_get (be_vars env) name of None \<Rightarrow> Inl NixErr
     | Some (Var ex v) \<Rightarrow> Inr v | Some _ \<Rightarrow> Inl NixErr)"

subsection \<open>Rewriting strings\<close>

definition occurs_at :: "string \<Rightarrow> string \<Rightarrow> nat \<Rightarrow> bool" where
  "occurs_at old s i \<longleftrightarrow> i + length old \<le> length s \<and> take (length old) (drop i s) = old"

definition find_from :: "string \<Rightarrow> string \<Rightarrow> nat \<Rightarrow> nat option" where
  "find_from old s start = find (occurs_at old s) [start..<Suc (length s)]"

definition in_str :: "string \<Rightarrow> string \<Rightarrow> bool" where
  "in_str old s \<longleftrightarrow> find_from old s 0 \<noteq> None"

text \<open>The loop of one rewrite: \<open>None\<close> when it never ends.\<close>

partial_function (option) rewrite_loop :: "string \<Rightarrow> string \<Rightarrow> string \<Rightarrow> nat \<Rightarrow> string option" where
  [code]: "rewrite_loop old new s start = (case find_from old s start of None \<Rightarrow> Some s
     | Some i \<Rightarrow> rewrite_loop old new (take i s @ new @ drop (i + length old) s) i)"

fun rewrite_each :: "(string \<times> string) list \<Rightarrow> string \<Rightarrow> string option" where
  "rewrite_each [] s = Some s"
| "rewrite_each ((old, new) # rs) s = (if old = new then rewrite_each rs s
     else case rewrite_loop old new s 0 of None \<Rightarrow> None | Some s' \<Rightarrow> rewrite_each rs s')"

definition tuple_le :: "string \<times> string \<Rightarrow> string \<times> string \<Rightarrow> bool" where
  "tuple_le p q \<longleftrightarrow> (if fst p = fst q then str_le (snd p) (snd q) else str_le (fst p) (fst q))"

definition rewrite_strings :: "string \<Rightarrow> (string, string) dict \<Rightarrow> (exn + string) option" where
  "rewrite_strings script rewrites =
     (if list_ex (\<lambda>p. fst p \<noteq> snd p \<and> in_str (fst p) (snd p)) rewrites then Some (Inl ValueError)
      else map_option Inr (rewrite_each (sort_by tuple_le rewrites) script))"

subsection \<open>The script\<close>

definition path_join :: "string \<Rightarrow> string \<Rightarrow> string" where
  "path_join a b = (if take 1 b = ''/'' then b else if a = [] \<or> last a = CHR ''/'' then a @ b else a @ ''/'' @ b)"

definition is_ws :: "char \<Rightarrow> bool" where
  "is_ws c \<longleftrightarrow> c \<in> {CHR 0x20, CHR 0x09, CHR 0x0A, CHR 0x0D}"

text \<open>The pieces between runs of white space that are not empty.\<close>

fun ws_words_from :: "string \<Rightarrow> string \<Rightarrow> string list" where
  "ws_words_from w [] = (if w = [] then [] else [w])"
| "ws_words_from w (c # cs) = (if is_ws c then (if w = [] then [] else [w]) @ ws_words_from [] cs
     else ws_words_from (w @ [c]) cs)"

definition output_names :: "env_value \<Rightarrow> string list" where
  "output_names v = (case v of Var ex s \<Rightarrow> ws_words_from [] s | Associative d \<Rightarrow> dict_keys d | Indexed ws \<Rightarrow> ws)"

definition env_script :: "build_env \<Rightarrow> string" where
  "env_script env = ''unset shellHook'' @ NL
     @ concat (map (\<lambda>v. v @ ''=${'' @ v @ '':-}'' @ NL @ ''nix_saved_'' @ v @ ''='' @ [DQ] @ ''$'' @ v @ [DQ] @ NL) SAVED_VARS)
     @ to_bash IGNORE_VARS env
     @ concat (map (\<lambda>v. v @ ''='' @ [DQ] @ ''$'' @ v @ ''${nix_saved_'' @ v @ '':+:$nix_saved_'' @ v @ ''}'' @ [DQ] @ NL) SAVED_VARS)
     @ ''export NIX_BUILD_TOP='' @ [DQ] @ ''$(mktemp -d -t nix-shell.XXXXXX)'' @ [DQ] @ NL
     @ concat (map (\<lambda>v. ''export '' @ v @ ''='' @ [DQ] @ ''$NIX_BUILD_TOP'' @ [DQ] @ NL)
         [''TMP'', ''TMPDIR'', ''TEMP'', ''TEMPDIR''])
     @ ''eval '' @ [DQ] @ ''${shellHook:-}'' @ [DQ] @ NL"

definition or_else :: "string option \<Rightarrow> string \<Rightarrow> string" where
  "or_else x d = (case x of None \<Rightarrow> d | Some s \<Rightarrow> if s = [] then d else s)"

definition output_rewrites :: "build_env \<Rightarrow> string \<Rightarrow> exn + (string, string) dict" where
  "output_rewrites env base = (case dict_get (be_vars env) ''outputs'' of None \<Rightarrow> Inl NixErr
     | Some outputs \<Rightarrow> if be_attrs env \<noteq> None
         then (case outputs of Associative d \<Rightarrow>
                 Inr (fold (\<lambda>p rw. dict_set (snd p) (path_join base (fst p)) rw) d [])
               | _ \<Rightarrow> Inl NixErr)
         else map_sum id (\<lambda>ps. fold (\<lambda>p rw. dict_set (fst p) (snd p) rw) ps [])
           (map_res (\<lambda>n. map_sum id (\<lambda>s. (s, path_join base n)) (require_string env n)) (output_names outputs)))"

text \<open>The files it writes are the state: path and text, in order. \<open>cwd\<close> is \<open>os.getcwd()\<close> and \<open>made\<close> the
  directory \<open>mkdtemp\<close> would make.\<close>

definition write_file :: "string \<Rightarrow> string \<Rightarrow> ((string \<times> string) list, unit) eff" where
  "write_file path text = (\<lambda>fs. (Inr (), fs @ [(path, text)]))"

definition rc_rewrites ::
  "string \<Rightarrow> string \<Rightarrow> build_env \<Rightarrow> string option \<Rightarrow> string option \<Rightarrow> ((string \<times> string) list, (string, string) dict) eff" where
  "rc_rewrites cwd made env outputs_dir tmp_dir =
     bind_eff (lift_res (output_rewrites env (or_else outputs_dir (path_join cwd ''outputs'')))) (\<lambda>rw.
       case be_attrs env of None \<Rightarrow> ret rw
       | Some (attrs_json, attrs_sh) \<Rightarrow>
           let own = or_else tmp_dir made;
               sh_file = path_join own ''.attrs.sh''; json_file = path_join own ''.attrs.json'' in
           bind_eff (write_file sh_file attrs_sh) (\<lambda>_. bind_eff (write_file json_file attrs_json) (\<lambda>_.
           bind_eff (lift_res (require_string env ''NIX_ATTRS_SH_FILE'')) (\<lambda>s.
           bind_eff (lift_res (require_string env ''NIX_ATTRS_JSON_FILE'')) (\<lambda>j.
             ret (dict_set j json_file (dict_set s sh_file rw)))))))"

definition to_rc_script ::
  "string \<Rightarrow> string \<Rightarrow> build_env \<Rightarrow> string option \<Rightarrow> string option \<Rightarrow> (string \<times> string) list \<Rightarrow>
   (exn + string) option \<times> (string \<times> string) list" where
  "to_rc_script cwd made env outputs_dir tmp_dir fs =
     (case rc_rewrites cwd made env outputs_dir tmp_dir fs of
        (Inl e, fs') \<Rightarrow> (Some (Inl e), fs')
      | (Inr rw, fs') \<Rightarrow> (rewrite_strings (env_script env) rw, fs'))"

subsection \<open>The derivation\<close>

definition basename :: "string \<Rightarrow> string" where
  "basename p = rev (takeWhile (\<lambda>c. c \<noteq> CHR ''/'') (rev p))"

definition CHECKS :: "string list" where
  "CHECKS = [''allowedReferences'', ''allowedRequisites'', ''disallowedReferences'', ''disallowedRequisites'']"

text \<open>\<open>"path" in output or "hash" in output\<close>: of an object its keys, of an array its items, of a str its
  parts.\<close>

definition jin :: "string \<Rightarrow> json \<Rightarrow> exn + bool" where
  "jin k v = (case v of JObj kvs \<Rightarrow> Inr (k \<in> set (dict_keys kvs)) | JArr vs \<Rightarrow> Inr (JStr k \<in> set vs)
     | JStr s \<Rightarrow> Inr (in_str k s) | _ \<Rightarrow> Inl TypeError)"

definition has_path :: "json \<Rightarrow> exn + bool" where
  "has_path output = res_bind (jin ''path'' output) (\<lambda>p. if p then Inr True else jin ''hash'' output)"

definition jobj :: "json \<Rightarrow> exn + (string \<times> json) list" where
  "jobj v = (case v of JObj kvs \<Rightarrow> Inr kvs | _ \<Rightarrow> Inl Untyped)"

text \<open>The loop over the outputs: what each becomes, and the variables of those whose path goes.\<close>

fun clear_outputs ::
  "(string \<times> json) list \<Rightarrow> (string \<times> json) list \<Rightarrow> exn + ((string \<times> json) list \<times> (string \<times> json) list)" where
  "clear_outputs [] env = Inr ([], env)"
| "clear_outputs ((name, out) # outs) env = res_bind (has_path out) (\<lambda>hit.
     res_bind (clear_outputs outs (if hit then dict_set name (JStr []) env else env)) (\<lambda>oe.
       Inr ((name, if hit then JObj [] else out) # fst oe, snd oe)))"

definition strip_checks :: "(string \<times> json) list \<Rightarrow> exn + (string \<times> json) list" where
  "strip_checks doc = (case dict_get doc ''structuredAttrs'' of
       Some (JObj sa) \<Rightarrow> Inr (dict_set ''structuredAttrs'' (JObj (dict_del ''outputChecks'' sa)) doc)
     | Some JNull \<Rightarrow> res_bind (jget (JObj doc) ''env'') (\<lambda>e. res_bind (jobj e) (\<lambda>env.
         Inr (dict_set ''env'' (JObj (fold dict_del CHECKS env)) doc)))
     | None \<Rightarrow> res_bind (jget (JObj doc) ''env'') (\<lambda>e. res_bind (jobj e) (\<lambda>env.
         Inr (dict_set ''env'' (JObj (fold dict_del CHECKS env)) doc)))
     | Some _ \<Rightarrow> Inl Untyped)"

definition name_env :: "(string \<times> json) list \<Rightarrow> exn + (string \<times> json) list" where
  "name_env doc = res_bind (jget (JObj doc) ''name'') (\<lambda>n. res_bind (jstr n) (\<lambda>name.
     let doc1 = dict_set ''name'' (JStr (name @ ''-env'')) doc in
     res_bind (jget (JObj doc1) ''env'') (\<lambda>e. res_bind (jobj e) (\<lambda>env.
       Inr (dict_set ''env'' (JObj (dict_set ''name'' (JStr (name @ ''-env'')) env)) doc1)))))"

definition add_src :: "string \<Rightarrow> (string \<times> json) list \<Rightarrow> exn + (string \<times> json) list" where
  "add_src src doc = res_bind (jget (JObj doc) ''inputs'') (\<lambda>i. res_bind (jget i ''srcs'') (\<lambda>srcs.
     res_bind (jobj i) (\<lambda>inputs. case srcs of
       JArr vs \<Rightarrow> Inr (dict_set ''inputs'' (JObj (dict_set ''srcs'' (JArr (vs @ [JStr src])) inputs)) doc)
     | _ \<Rightarrow> Inl AttributeErr)))"

definition invalidate :: "(string \<times> json) list \<Rightarrow> exn + (string \<times> json) list" where
  "invalidate doc = res_bind (jget (JObj doc) ''outputs'') (\<lambda>o'. res_bind (jitems o') (\<lambda>outs.
     res_bind (jget (JObj doc) ''env'') (\<lambda>e. res_bind (jobj e) (\<lambda>env.
       res_bind (clear_outputs outs env) (\<lambda>oe.
         Inr (dict_set ''env'' (JObj (snd oe)) (dict_set ''outputs'' (JObj (fst oe)) doc)))))))"

definition rewrite_drv :: "(string \<times> json) list \<Rightarrow> string \<Rightarrow> string \<Rightarrow> exn + (string \<times> json) list" where
  "rewrite_drv doc args_path srcs_path =
     res_bind (jget (JObj doc) ''builder'') (\<lambda>b. res_bind (jstr b) (\<lambda>builder.
       if basename builder \<noteq> ''bash'' then Inl NixErr
       else res_bind (strip_checks (dict_set ''args'' (JArr [JStr args_path]) doc)) (\<lambda>d1.
            res_bind (name_env d1) (\<lambda>d2. res_bind (add_src srcs_path d2) invalidate))))"

subsection \<open>The store calls\<close>

record 'w store =
  st_document :: "string \<Rightarrow> ('w, (string \<times> json) list) eff" \<comment> \<open>\<open>json.loads(read_derivation(p).to_json())\<close>\<close>
  st_add_script :: "nat list \<Rightarrow> ('w, string) eff" \<comment> \<open>\<open>add_to_store("get-env.sh", ...)\<close>\<close>
  st_print :: "string \<Rightarrow> string" \<comment> \<open>\<open>print_store_path\<close>\<close>
  st_name :: "string \<Rightarrow> string" \<comment> \<open>\<open>to_string()\<close>\<close>
  st_add_derivation :: "(string \<times> json) list \<Rightarrow> ('w, string) eff"
  st_build :: "string \<Rightarrow> ('w, unit) eff" \<comment> \<open>\<open>build_paths\<close> of every output\<close>
  st_outputs :: "string \<Rightarrow> ('w, (string \<times> string) list) eff"
  st_lstat :: "string \<Rightarrow> ('w, bool \<times> int) eff" \<comment> \<open>of the real path: a regular file, and its size\<close>
  st_temp_root :: "string \<Rightarrow> ('w, unit) eff"
  st_read :: "string \<Rightarrow> ('w, nat list) eff"
  st_loads :: "nat list \<Rightarrow> exn + (string \<times> json) list" \<comment> \<open>UTF-8 and JSON, or an error of either\<close>

definition write_dev_shell_derivation :: "'w store \<Rightarrow> string \<Rightarrow> nat list \<Rightarrow> ('w, string) eff" where
  "write_dev_shell_derivation st drv script =
     bind_eff (st_document st drv) (\<lambda>doc. bind_eff (st_add_script st script) (\<lambda>sp.
       bind_eff (lift_res (rewrite_drv doc (st_print st sp) (st_name st sp))) (\<lambda>doc'.
         st_add_derivation st doc')))"

definition absent :: "exn \<Rightarrow> bool" where
  "absent e \<longleftrightarrow> e \<in> {Raised ''FileNotFoundError'', Raised ''NotADirectoryError''}"

fun first_file :: "'w store \<Rightarrow> string list \<Rightarrow> ('w, string) eff" where
  "first_file st [] = raise NixErr"
| "first_file st (p # ps) = (\<lambda>w. case st_lstat st p w of
       (Inl e, w') \<Rightarrow> if absent e then first_file st ps w' else (Inl e, w')
     | (Inr (reg, sz), w') \<Rightarrow> if reg \<and> 0 < sz then (Inr p, w') else first_file st ps w')"

definition first_env_output :: "'w store \<Rightarrow> string \<Rightarrow> ('w, string) eff" where
  "first_env_output st drv = bind_eff (st_outputs st drv) (\<lambda>outs. first_file st (map snd outs))"

definition broken :: "exn \<Rightarrow> bool" where
  "broken e \<longleftrightarrow> e \<in> {Raised ''UnicodeDecodeError'', Raised ''JSONDecodeError''}"

definition parse_env :: "'w store \<Rightarrow> nat list \<Rightarrow> exn + build_env" where
  "parse_env st data = res_bind (st_loads st data) from_json"

definition get_build_environment :: "'w store \<Rightarrow> string \<Rightarrow> nat list \<Rightarrow> ('w, build_env \<times> string) eff" where
  "get_build_environment st drv script =
     bind_eff (write_dev_shell_derivation st drv script) (\<lambda>shell. bind_eff (st_build st shell) (\<lambda>_.
     bind_eff (first_env_output st shell) (\<lambda>path. bind_eff (st_temp_root st path) (\<lambda>_.
     bind_eff (st_read st path) (\<lambda>data. case parse_env st data of
         Inl e \<Rightarrow> raise (if broken e then NixErr else e)
       | Inr env \<Rightarrow> ret (env, path))))))"

definition print_dev_env ::
  "'w store \<Rightarrow> string \<Rightarrow> nat list \<Rightarrow> string \<Rightarrow> string \<Rightarrow> string option \<Rightarrow> string option \<Rightarrow> 'w \<Rightarrow>
   (exn + string) option \<times> (string \<times> string) list \<times> 'w" where
  "print_dev_env st drv script cwd made outputs_dir tmp_dir w =
     (case get_build_environment st drv script w of
        (Inl e, w') \<Rightarrow> (Some (Inl e), [], w')
      | (Inr (env, path), w') \<Rightarrow> (case to_rc_script cwd made env outputs_dir tmp_dir [] of (r, fs) \<Rightarrow> (r, fs, w')))"

end
