(* ===== verification/Devshell_Props.thy ===== *)
theory Devshell_Props
  imports Devshell
begin

text \<open>
  What the development shell promises: an environment survives its own document, the shell reads a quoted
  value back as it was, rewriting always ends, and the surgery on a derivation changes exactly what a dump
  of the environment needs.
\<close>

lemma map_res_map: "(\<And>x. x \<in> set xs \<Longrightarrow> f (g x) = Inr x) \<Longrightarrow> map_res f (map g xs) = Inr xs"
  by (induction xs) auto

subsection \<open>The document\<close>

lemma jget_JObj [simp]: "jget (JObj kvs) k = (case dict_get kvs k of None \<Rightarrow> Inl KeyError | Some x \<Rightarrow> Inr x)"
  by (simp add: jget_def)

lemma jstr_JStr [simp]: "jstr (JStr s) = Inr s"
  by (simp add: jstr_def)

lemma jlist_strs [simp]: "jlist (JArr (map JStr ws)) = Inr ws"
  by (simp add: jlist_def map_res_map)

lemma jdict_strs [simp]: "jdict (JObj (map (\<lambda>p. (fst p, JStr (snd p))) d)) = Inr d"
  unfolding jdict_def str_items_def by (simp, rule map_res_map) simp

lemma var_of_var_json [simp]: "var_of_json (var_json v) = Inr (Some v)"
  by (cases v) (simp_all add: var_of_json_def)

lemma vars_of_vars_json [simp]: "vars_of_json (map (\<lambda>p. (fst p, var_json (snd p))) vs) = Inr vs"
  by (induction vs) auto

text \<open>C40. Every environment survives its own document: \<open>to_dict\<close> raises for none, and what it answers parses
  back to the environment it came from.\<close>

theorem env_roundtrip: "to_dict env = Inr (env_document env) \<and> from_json (env_document env) = Inr env"
proof -
  have "from_json (env_document env) = Inr env"
    by (cases "be_attrs env") (auto simp: from_json_def env_document_def jitems_def)
  then show ?thesis by (simp add: to_dict_def)
qed

subsection \<open>Quoting\<close>

text \<open>How a POSIX shell reads one word: between single quotes every character stands for itself, outside a
  backslash quotes the next one, and a blank, a line end or a bracket ends the word.\<close>

definition ends_word :: "char \<Rightarrow> bool" where
  "ends_word c \<longleftrightarrow> c \<in> {CHR 0x20, CHR 0x09, CHR 0x0A, CHR '')'', CHR '']''}"

fun shell_word :: "bool \<Rightarrow> string \<Rightarrow> (string \<times> string) option" where
  "shell_word True [] = None"
| "shell_word True (c # cs) = (if c = SQ then shell_word False cs
     else map_option (\<lambda>(w, r). (c # w, r)) (shell_word True cs))"
| "shell_word False [] = Some ([], [])"
| "shell_word False (c # cs) = (if c = SQ then shell_word True cs
     else if c = BACKSLASH then (case cs of [] \<Rightarrow> None | d # ds \<Rightarrow> map_option (\<lambda>(w, r). (d # w, r)) (shell_word False ds))
     else if ends_word c then Some ([], c # cs)
     else map_option (\<lambda>(w, r). (c # w, r)) (shell_word False cs))"

text \<open>Words until the closing bracket, at most so many.\<close>

fun shell_words :: "nat \<Rightarrow> string \<Rightarrow> (string list \<times> string) option" where
  "shell_words 0 s = None"
| "shell_words (Suc n) s = (case s of [] \<Rightarrow> None
     | c # cs \<Rightarrow> if c = CHR '')'' then Some ([], cs) else if c = CHR '' '' then shell_words n cs
       else case shell_word False s of None \<Rightarrow> None
         | Some (w, r) \<Rightarrow> map_option (\<lambda>(ws, r'). (w # ws, r')) (shell_words n r))"

definition word_ends :: "string \<Rightarrow> bool" where
  "word_ends rest \<longleftrightarrow> (case rest of [] \<Rightarrow> True | c # cs \<Rightarrow> ends_word c)"

lemma char_facts [simp]: "SQ \<noteq> BACKSLASH" "BACKSLASH \<noteq> SQ" "\<not> ends_word SQ" "\<not> ends_word BACKSLASH"
  by (simp_all add: SQ_def BACKSLASH_def ends_word_def)

lemma word_end: "word_ends rest \<Longrightarrow> shell_word False rest = Some ([], rest)"
proof (cases rest)
  case (Cons c cs)
  assume "word_ends rest"
  with Cons have "ends_word c" by (simp add: word_ends_def)
  moreover from this have "c \<noteq> SQ" "c \<noteq> BACKSLASH" by (auto simp: SQ_def BACKSLASH_def ends_word_def)
  ultimately show ?thesis using Cons by simp
qed simp

lemma shell_word_escape:
  assumes "word_ends rest"
  shows "shell_word False (escape_shell_arg v @ rest) = Some (v, rest)"
proof -
  let ?q = "\<lambda>v. concat (map (\<lambda>c. if c = SQ then [SQ, BACKSLASH, SQ, SQ] else [c]) v)"
  have "shell_word True (?q v @ SQ # rest) = Some (v, rest)"
  proof (induction v)
    case Nil
    show ?case using word_end[OF assms] by simp
  qed simp
  then show ?thesis by (simp add: escape_shell_arg_def)
qed

lemma shell_words_escape:
  "shell_words (Suc (2 * length ws)) (concat (map (\<lambda>w. escape_shell_arg w @ '' '') ws) @ '')'' @ rest) = Some (ws, rest)"
proof (induction ws)
  case (Cons w ws)
  let ?r = "concat (map (\<lambda>w. escape_shell_arg w @ '' '') ws) @ '')'' @ rest"
  have "shell_word False (escape_shell_arg w @ '' '' @ ?r) = Some (w, '' '' @ ?r)"
    by (rule shell_word_escape) (simp add: word_ends_def ends_word_def)
  moreover have "\<exists>cs. escape_shell_arg w @ '' '' @ ?r = SQ # cs" by (simp add: escape_shell_arg_def)
  ultimately show ?case using Cons by (auto simp: SQ_def)
qed simp

text \<open>A POSIX shell reads a quoted value back exactly as it was, whatever characters are in it, and the
  items of an array declaration back as the list they came from.\<close>

theorem shell_reads_back:
  "shell_word False (escape_shell_arg v @ NL) = Some (v, NL)
   \<and> (\<exists>text. bash_var name (Indexed ws) = ''declare -a '' @ name @ ''=('' @ text
       \<and> shell_words (Suc (2 * length ws)) text = Some (ws, NL))"
proof -
  have "shell_word False (escape_shell_arg v @ NL) = Some (v, NL)"
    by (rule shell_word_escape) (simp add: word_ends_def ends_word_def NL_def)
  then show ?thesis using shell_words_escape[of ws NL] by simp
qed

subsection \<open>Rewriting ends\<close>

lemma find_from_Some:
  "find_from old s start = Some i \<Longrightarrow> start \<le> i \<and> occurs_at old s i"
proof -
  assume "find_from old s start = Some i"
  then have "i \<in> set [start..<Suc (length s)]" "occurs_at old s i"
    unfolding find_from_def find_Some_iff by (metis nth_mem)+
  then show "start \<le> i \<and> occurs_at old s i" by auto
qed

lemma occurs_length: "occurs_at old s i \<Longrightarrow> i + length old \<le> length s"
  by (simp add: occurs_at_def)

lemma occurs_in_str: "occurs_at old s i \<Longrightarrow> in_str old s"
proof -
  assume a: "occurs_at old s i"
  then have "i \<in> set [0..<Suc (length s)]" using occurs_length[of old s i] by auto
  with a show ?thesis unfolding in_str_def find_from_def find_None_iff by blast
qed

lemma in_str_occurs: "in_str old s \<Longrightarrow> \<exists>i. occurs_at old s i"
  unfolding in_str_def find_from_def find_None_iff by auto

lemma in_str_empty: "in_str [] s"
  by (rule occurs_in_str[of _ _ 0]) (simp add: occurs_at_def)

text \<open>An occurrence that lies inside the text just put in is one in that text.\<close>

lemma occurs_inside:
  assumes "occurs_at old (p @ new @ q) j" "length p \<le> j" "j + length old \<le> length p + length new"
  shows "in_str old new"
proof (rule occurs_in_str)
  have "drop j (p @ new @ q) = drop (j - length p) new @ q" using assms(2,3) by simp
  then have "take (length old) (drop j (p @ new @ q)) = take (length old) (drop (j - length p) new)"
    using assms(2,3) by simp
  with assms show "occurs_at old new (j - length p)" by (auto simp: occurs_at_def)
qed

text \<open>Every occurrence still to come ends past \<open>e\<close>, the end of the text put in last.\<close>

lemma rewrite_loop_ends:
  assumes "\<not> in_str old new" "e \<le> length s" "\<And>i. start \<le> i \<Longrightarrow> occurs_at old s i \<Longrightarrow> e < i + length old"
  shows "rewrite_loop old new s start \<noteq> None"
  using assms(2,3)
proof (induction "length s - e" arbitrary: s e start rule: less_induct)
  case less
  show ?case
  proof (cases "find_from old s start")
    case None
    then show ?thesis by (subst rewrite_loop.simps) simp
  next
    case (Some i)
    then have i: "start \<le> i" "occurs_at old s i" using find_from_Some by blast+
    let ?p = "take i s" and ?q = "drop (i + length old) s"
    let ?s = "?p @ new @ ?q" and ?e = "i + length new"
    have len: "i + length old \<le> length s" "length ?p = i" using occurs_length[OF i(2)] by simp_all
    have "e < i + length old" using less.prems(2)[OF i] .
    then have "length ?s - ?e < length s - e" using len less.prems(1) by simp
    moreover have "?e \<le> length ?s" using len by simp
    moreover have "?e < j + length old" if "i \<le> j" "occurs_at old ?s j" for j
      using occurs_inside[OF that(2)] that(1) len(2) assms(1) by fastforce
    ultimately have "rewrite_loop old new ?s i \<noteq> None" by (rule less.hyps)
    with Some show ?thesis by (subst rewrite_loop.simps) simp
  qed
qed

lemma rewrite_loop_returns:
  assumes "\<not> in_str old new"
  shows "rewrite_loop old new s 0 \<noteq> None"
proof (rule rewrite_loop_ends[OF assms])
  have "old \<noteq> []" using assms in_str_empty by blast
  then show "0 < i + length old" for i by simp
qed simp

text \<open>What a loop that ends leaves from its last place on.\<close>

lemma stuck_step:
  assumes "in_str old new" "find_from old s start = Some i"
  shows "find_from old (take i s @ new @ drop (i + length old) s) i \<noteq> None"
proof -
  let ?s = "take i s @ new @ drop (i + length old) s"
  obtain j where j: "occurs_at old new j" using in_str_occurs[OF assms(1)] by blast
  have i: "occurs_at old s i" using find_from_Some[OF assms(2)] by blast
  have len: "i + length old \<le> length s" "j + length old \<le> length new"
    using occurs_length[OF i] occurs_length[OF j] by simp_all
  have "occurs_at old ?s (i + j)" using j len by (simp add: occurs_at_def)
  moreover have "i + j \<in> set [i..<Suc (length ?s)]" using len by (simp del: upt_Suc)
  ultimately show ?thesis unfolding find_from_def find_None_iff by blast
qed

lemma rewrite_loop_stuck:
  assumes "rewrite_loop old new s start = Some y"
  shows "in_str old new \<longrightarrow> find_from old s start = None"
proof (rule rewrite_loop.raw_induct[where P = "\<lambda>old new s start y. in_str old new \<longrightarrow> find_from old s start = None", OF _ assms])
  fix f :: "string \<Rightarrow> string \<Rightarrow> string \<Rightarrow> nat \<Rightarrow> string option" and old new s start y
  assume i: "\<And>old new s start y. f old new s start = Some y \<Longrightarrow> in_str old new \<longrightarrow> find_from old s start = None"
    and e: "(case find_from old s start of None \<Rightarrow> Some s
      | Some i \<Rightarrow> f old new (take i s @ new @ drop (i + length old) s) i) = Some y"
  show "in_str old new \<longrightarrow> find_from old s start = None"
  proof (cases "find_from old s start")
    case (Some k)
    then have "f old new (take k s @ new @ drop (k + length old) s) k = Some y" using e by simp
    then have "in_str old new \<longrightarrow> find_from old (take k s @ new @ drop (k + length old) s) k = None" by (rule i)
    with stuck_step[OF _ Some] show ?thesis by blast
  qed simp
qed

lemma rewrite_each_returns:
  "\<forall>p\<in>set rs. fst p = snd p \<or> \<not> in_str (fst p) (snd p) \<Longrightarrow> rewrite_each rs s \<noteq> None"
proof (induction rs arbitrary: s)
  case (Cons p rs)
  obtain old new where p: "p = (old, new)" by (cases p)
  show ?case
  proof (cases "old = new")
    case False
    with Cons.prems p have "\<not> in_str old new" by simp
    then have "rewrite_loop old new s 0 \<noteq> None" by (rule rewrite_loop_returns)
    then obtain s' where "rewrite_loop old new s 0 = Some s'" by blast
    with Cons False p show ?thesis by auto
  qed (use Cons p in auto)
qed simp

lemma rewrite_strings_returns: "\<exists>r. rewrite_strings script rw = Some r \<and>
  (r = Inl ValueError \<or> (\<exists>s. r = Inr s)) \<and>
  (r = Inl ValueError \<longleftrightarrow> (\<exists>p\<in>set rw. fst p \<noteq> snd p \<and> in_str (fst p) (snd p)))"
proof (cases "list_ex (\<lambda>p. fst p \<noteq> snd p \<and> in_str (fst p) (snd p)) rw")
  case True
  then show ?thesis by (auto simp: rewrite_strings_def list_ex_iff)
next
  case False
  then have "\<forall>p\<in>set (sort_by tuple_le rw). fst p = snd p \<or> \<not> in_str (fst p) (snd p)"
    by (auto simp: list_ex_iff)
  then obtain s where "rewrite_each (sort_by tuple_le rw) script = Some s"
    using rewrite_each_returns by blast
  with False show ?thesis by (auto simp: rewrite_strings_def list_ex_iff)
qed

text \<open>Rewriting a script always ends, for every script and map, so that \<open>to_rc_script\<close> always returns; it
  refuses exactly a map with a target that contains its source and differs from it; and such a rewrite
  would never end on a script that holds its source.\<close>

theorem rewriting_ends:
  "fst (to_rc_script cwd made env od td fs) \<noteq> None
   \<and> (\<exists>r. rewrite_strings script rw = Some r \<and>
        (r = Inl ValueError \<longleftrightarrow> (\<exists>p\<in>set rw. fst p \<noteq> snd p \<and> in_str (fst p) (snd p))))
   \<and> (in_str old new \<longrightarrow> in_str old script \<longrightarrow> rewrite_loop old new script 0 = None)"
proof (intro conjI impI)
  show "\<exists>r. rewrite_strings script rw = Some r \<and>
      (r = Inl ValueError \<longleftrightarrow> (\<exists>p\<in>set rw. fst p \<noteq> snd p \<and> in_str (fst p) (snd p)))"
    using rewrite_strings_returns by blast
  show "fst (to_rc_script cwd made env od td fs) \<noteq> None"
  proof (cases "rc_rewrites cwd made env od td fs")
    case (Pair r fs')
    obtain q where "\<And>rw. rewrite_strings (env_script env) rw = Some (q rw)"
      using rewrite_strings_returns by metis
    with Pair show ?thesis by (cases r) (simp_all add: to_rc_script_def)
  qed
  show "rewrite_loop old new script 0 = None" if "in_str old new" "in_str old script"
    using rewrite_loop_stuck[of old new script 0] that unfolding in_str_def by (metis not_None_eq)
qed

theorem rewriting_ends_witness:
  "rewrite_strings ''abb'' [(''ab'', ''a'')] = Some (Inr ''a'')
   \<and> in_str ''a'' ''ab'' \<and> in_str ''a'' ''cat'' \<and> rewrite_loop ''a'' ''ab'' ''cat'' 0 = None"
proof (intro conjI)
  show i: "in_str ''a'' ''ab''" "in_str ''a'' ''cat''" by code_simp+
  show "rewrite_loop ''a'' ''ab'' ''cat'' 0 = None"
    using rewriting_ends[where old = "''a''" and new = "''ab''" and script = "''cat''"] i by blast
  show "rewrite_strings ''abb'' [(''ab'', ''a'')] = Some (Inr ''a'')" by code_simp
qed

subsection \<open>The surgery\<close>

lemma res_bind_Inr_E:
  assumes "res_bind r f = Inr b"
  obtains a where "r = Inr a" "f a = Inr b"
  using assms by (cases r) auto

lemma jget_Inr: "jget (JObj d) k = Inr v \<longleftrightarrow> dict_get d k = Some v"
  by (auto split: option.splits)

lemma jobj_Inr: "jobj v = Inr d \<longleftrightarrow> v = JObj d"
  by (auto simp: jobj_def split: json.splits)

lemma jstr_Inr: "jstr v = Inr s \<longleftrightarrow> v = JStr s"
  by (auto simp: jstr_def split: json.splits)

lemma jitems_Inr: "jitems v = Inr d \<longleftrightarrow> v = JObj d"
  by (auto simp: jitems_def split: json.splits)

lemmas json_Inr = jget_Inr jobj_Inr jstr_Inr jitems_Inr res_bind_Inr_iff

lemma fold_dict_del [simp]:
  "dict_get (fold dict_del ks d) k = (if k \<in> set ks then None else dict_get d k)"
  by (induction ks arbitrary: d) auto

text \<open>The loop over the outputs, one output at a time.\<close>

definition cleared :: "json \<Rightarrow> json" where
  "cleared out = (if has_path out = Inr True then JObj [] else out)"

lemma clear_outputs_spec:
  "clear_outputs outs env = Inr (outs', env') \<Longrightarrow>
   outs' = map (\<lambda>p. (fst p, cleared (snd p))) outs \<and>
   (\<forall>k. dict_get env' k = (if \<exists>out. (k, out) \<in> set outs \<and> has_path out = Inr True then Some (JStr [])
      else dict_get env k))"
proof (induction outs env arbitrary: outs' env' rule: clear_outputs.induct)
  case (2 name out outs env)
  obtain hit where h: "has_path out = Inr hit" using 2(2) by (auto simp: res_bind_Inr_iff)
  obtain o1 e1 where c: "clear_outputs outs (if hit then dict_set name (JStr []) env else env) = Inr (o1, e1)"
    and r: "outs' = (name, if hit then JObj [] else out) # o1" "env' = e1"
    using 2(2) h by (auto simp: res_bind_Inr_iff)
  note i = 2(1)[OF c]
  show ?case using i h r by (auto simp: cleared_def)
qed auto

definition drv_get :: "(string \<times> json) list \<Rightarrow> string \<Rightarrow> string \<Rightarrow> json option" where
  "drv_get doc k j = (case dict_get doc k of Some (JObj d) \<Rightarrow> dict_get d j | _ \<Rightarrow> None)"

declare jget_JObj [simp del]

lemma name_env_E:
  assumes "name_env d1 = Inr d2"
  obtains name env1 where "dict_get d1 ''name'' = Some (JStr name)" "dict_get d1 ''env'' = Some (JObj env1)"
    "d2 = dict_set ''env'' (JObj (dict_set ''name'' (JStr (name @ ''-env'')) env1)) (dict_set ''name'' (JStr (name @ ''-env'')) d1)"
  using assms unfolding name_env_def Let_def by (auto simp: json_Inr)

lemma add_src_E:
  assumes "add_src src d2 = Inr d3"
  obtains inputs vs where "dict_get d2 ''inputs'' = Some (JObj inputs)" "dict_get inputs ''srcs'' = Some (JArr vs)"
    "d3 = dict_set ''inputs'' (JObj (dict_set ''srcs'' (JArr (vs @ [JStr src])) inputs)) d2"
proof -
  obtain i x inputs where i: "dict_get d2 ''inputs'' = Some i" "jget i ''srcs'' = Inr x" "i = JObj inputs"
    "(case x of JArr vs \<Rightarrow> Inr (dict_set ''inputs'' (JObj (dict_set ''srcs'' (JArr (vs @ [JStr src])) inputs)) d2)
      | _ \<Rightarrow> Inl AttributeErr) = Inr d3"
    using assms unfolding add_src_def by (auto simp: json_Inr)
  then show ?thesis using that by (cases x) (simp_all add: jget_Inr)
qed

lemma invalidate_E:
  assumes "invalidate d3 = Inr d4"
  obtains outs env2 outs' env3 where "dict_get d3 ''outputs'' = Some (JObj outs)" "dict_get d3 ''env'' = Some (JObj env2)"
    "clear_outputs outs env2 = Inr (outs', env3)" "d4 = dict_set ''env'' (JObj env3) (dict_set ''outputs'' (JObj outs') d3)"
  using assms unfolding invalidate_def by (auto simp: json_Inr)

lemma rewrite_drv_E:
  assumes "rewrite_drv doc args srcs = Inr doc'"
  obtains builder d1 d2 d3 where "dict_get doc ''builder'' = Some (JStr builder)" "basename builder = ''bash''"
    "strip_checks (dict_set ''args'' (JArr [JStr args]) doc) = Inr d1" "name_env d1 = Inr d2" "add_src srcs d2 = Inr d3"
    "invalidate d3 = Inr doc'"
  using assms unfolding rewrite_drv_def by (auto simp: json_Inr split: if_splits)

lemma rewrite_drv_steps:
  assumes "rewrite_drv doc args srcs = Inr doc'"
  obtains builder d1 name env1 inputs vs outs env2 outs' env3 where
    "dict_get doc ''builder'' = Some (JStr builder)" "basename builder = ''bash''"
    "strip_checks (dict_set ''args'' (JArr [JStr args]) doc) = Inr d1"
    "dict_get d1 ''name'' = Some (JStr name)" "dict_get d1 ''env'' = Some (JObj env1)"
    "env2 = dict_set ''name'' (JStr (name @ ''-env'')) env1"
    "dict_get d1 ''inputs'' = Some (JObj inputs)" "dict_get inputs ''srcs'' = Some (JArr vs)"
    "dict_get d1 ''outputs'' = Some (JObj outs)" "clear_outputs outs env2 = Inr (outs', env3)"
    "doc' = dict_set ''env'' (JObj env3) (dict_set ''outputs'' (JObj outs')
       (dict_set ''inputs'' (JObj (dict_set ''srcs'' (JArr (vs @ [JStr srcs])) inputs))
       (dict_set ''env'' (JObj env2) (dict_set ''name'' (JStr (name @ ''-env'')) d1))))"
  using assms
proof (cases rule: rewrite_drv_E)
  case (1 builder d1 d2 d3)
  obtain name env1 where n: "dict_get d1 ''name'' = Some (JStr name)" "dict_get d1 ''env'' = Some (JObj env1)"
    "d2 = dict_set ''env'' (JObj (dict_set ''name'' (JStr (name @ ''-env'')) env1)) (dict_set ''name'' (JStr (name @ ''-env'')) d1)"
    by (rule name_env_E[OF 1(4)])
  obtain inputs vs where i: "dict_get d2 ''inputs'' = Some (JObj inputs)" "dict_get inputs ''srcs'' = Some (JArr vs)"
    "d3 = dict_set ''inputs'' (JObj (dict_set ''srcs'' (JArr (vs @ [JStr srcs])) inputs)) d2" by (rule add_src_E[OF 1(5)])
  obtain outs env2 outs' env3 where o': "dict_get d3 ''outputs'' = Some (JObj outs)" "dict_get d3 ''env'' = Some (JObj env2)"
    "clear_outputs outs env2 = Inr (outs', env3)" "doc' = dict_set ''env'' (JObj env3) (dict_set ''outputs'' (JObj outs') d3)"
    by (rule invalidate_E[OF 1(6)])
  show ?thesis
  proof (rule that[OF 1(1,2,3) n(1,2)])
    show "env2 = dict_set ''name'' (JStr (name @ ''-env'')) env1" using o'(2) by (simp add: i(3) n(3))
    show "dict_get d1 ''inputs'' = Some (JObj inputs)" using i(1) by (simp add: n(3))
    show "dict_get d1 ''outputs'' = Some (JObj outs)" using o'(1) by (simp add: i(3) n(3))
    show "doc' = dict_set ''env'' (JObj env3) (dict_set ''outputs'' (JObj outs')
       (dict_set ''inputs'' (JObj (dict_set ''srcs'' (JArr (vs @ [JStr srcs])) inputs))
       (dict_set ''env'' (JObj env2) (dict_set ''name'' (JStr (name @ ''-env'')) d1))))"
      using o'(2) by (simp add: o'(4) i(3) n(3))
  qed (rule i(2), rule o'(3))
qed

lemma strip_checks_cases:
  assumes "strip_checks d = Inr d1"
  obtains (structured) sa where "dict_get d ''structuredAttrs'' = Some (JObj sa)"
      "d1 = dict_set ''structuredAttrs'' (JObj (dict_del ''outputChecks'' sa)) d"
  | (plain) env where "dict_get d ''structuredAttrs'' \<in> {None, Some JNull}" "dict_get d ''env'' = Some (JObj env)"
      "d1 = dict_set ''env'' (JObj (fold dict_del CHECKS env)) d"
  using assms unfolding strip_checks_def by (auto simp: json_Inr split: option.splits json.splits)

lemma strip_checks_frame:
  assumes "strip_checks d = Inr d1" "k \<notin> {''structuredAttrs'', ''env''}"
  shows "dict_get d1 k = dict_get d k"
  using assms(1) by (cases rule: strip_checks_cases) (use assms(2) in auto)

text \<open>What stripping leaves: the structured attributes, and the environment.\<close>

definition attrs_left :: "json option \<Rightarrow> json option" where
  "attrs_left sa = (case sa of Some (JObj kvs) \<Rightarrow> Some (JObj (dict_del ''outputChecks'' kvs)) | _ \<Rightarrow> sa)"

definition checks_gone :: "json option \<Rightarrow> string list" where
  "checks_gone sa = (case sa of Some (JObj kvs) \<Rightarrow> [] | _ \<Rightarrow> CHECKS)"

lemma strip_checks_env:
  assumes "strip_checks d = Inr d1" "dict_get d1 ''env'' = Some (JObj env1)"
  obtains env where "dict_get d ''env'' = Some (JObj env)"
    "env1 = fold dict_del (checks_gone (dict_get d ''structuredAttrs'')) env"
    "dict_get d1 ''structuredAttrs'' = attrs_left (dict_get d ''structuredAttrs'')"
  using assms(1)
proof (cases rule: strip_checks_cases)
  case (structured sa)
  then show ?thesis using that[of env1] assms(2) by (simp add: checks_gone_def attrs_left_def)
next
  case (plain env)
  then show ?thesis using that[of env] assms(2) by (auto simp: checks_gone_def attrs_left_def)
qed

text \<open>The rewrite of a derivation: it works only on a bash builder; the builder stays and its arguments are
  the script alone; the name and the variable of that name gain the suffix; the script is one more source;
  an output that named a path or a hash names neither, and its variable is empty; every other output, every
  other field and every other variable is as it was, less the reference checks.\<close>

theorem rewrite_drv_exact:
  assumes "rewrite_drv doc args srcs = Inr doc'"
  shows "(\<exists>b. dict_get doc ''builder'' = Some (JStr b) \<and> basename b = ''bash'')
    \<and> dict_get doc' ''args'' = Some (JArr [JStr args])
    \<and> (\<exists>n. dict_get doc ''name'' = Some (JStr n) \<and> dict_get doc' ''name'' = Some (JStr (n @ ''-env'')))
    \<and> (\<exists>vs. drv_get doc ''inputs'' ''srcs'' = Some (JArr vs) \<and> drv_get doc' ''inputs'' ''srcs'' = Some (JArr (vs @ [JStr srcs])))
    \<and> (\<exists>outs. dict_get doc ''outputs'' = Some (JObj outs)
         \<and> dict_get doc' ''outputs'' = Some (JObj (map (\<lambda>p. (fst p, cleared (snd p))) outs))
         \<and> (\<forall>k out. (k, out) \<in> set outs \<longrightarrow> has_path out = Inr True \<longrightarrow> drv_get doc' ''env'' k = Some (JStr []))
         \<and> (\<forall>k. k \<noteq> ''name'' \<longrightarrow> (\<forall>out. (k, out) \<in> set outs \<longrightarrow> has_path out \<noteq> Inr True) \<longrightarrow>
              drv_get doc' ''env'' k = (if k \<in> set (checks_gone (dict_get doc ''structuredAttrs'')) then None
                else drv_get doc ''env'' k)))
    \<and> dict_get doc' ''structuredAttrs'' = attrs_left (dict_get doc ''structuredAttrs'')
    \<and> (\<forall>k. k \<notin> {''args'', ''name'', ''inputs'', ''outputs'', ''env'', ''structuredAttrs''} \<longrightarrow> dict_get doc' k = dict_get doc k)"
  using assms
proof (cases rule: rewrite_drv_steps)
  case (1 builder d1 name env1 inputs vs outs env2 outs' env3)
  note c = clear_outputs_spec[OF 1(10)]
  note fr = strip_checks_frame[OF 1(3)]
  have same: "dict_get (dict_set ''args'' (JArr [JStr args]) doc) k = dict_get doc k" if "k \<noteq> ''args''" for k
    using that by simp
  let ?gone = "checks_gone (dict_get doc ''structuredAttrs'')"
  obtain env where env: "dict_get doc ''env'' = Some (JObj env)" and e1: "env1 = fold dict_del ?gone env"
    and at: "dict_get d1 ''structuredAttrs'' = attrs_left (dict_get doc ''structuredAttrs'')"
    by (rule strip_checks_env[OF 1(3,5)]) (simp add: same)
  have outs: "dict_get doc ''outputs'' = Some (JObj outs)" using 1(9) fr[of "''outputs''"] by simp
  have e3: "drv_get doc' ''env'' k = (if \<exists>out. (k, out) \<in> set outs \<and> has_path out = Inr True then Some (JStr [])
      else dict_get env2 k)" for k
    using c by (simp add: 1(11) drv_get_def)
  show ?thesis
  proof (intro conjI)
    show "\<exists>b. dict_get doc ''builder'' = Some (JStr b) \<and> basename b = ''bash''" using 1(1,2) by blast
    show "dict_get doc' ''args'' = Some (JArr [JStr args])" using fr[of "''args''"] by (simp add: 1(11))
    show "\<exists>n. dict_get doc ''name'' = Some (JStr n) \<and> dict_get doc' ''name'' = Some (JStr (n @ ''-env''))"
      using 1(4) fr[of "''name''"] by (simp add: 1(11))
    show "\<exists>vs. drv_get doc ''inputs'' ''srcs'' = Some (JArr vs) \<and> drv_get doc' ''inputs'' ''srcs'' = Some (JArr (vs @ [JStr srcs]))"
      using 1(7,8) fr[of "''inputs''"] by (simp add: 1(11) drv_get_def)
    show "\<exists>outs. dict_get doc ''outputs'' = Some (JObj outs)
         \<and> dict_get doc' ''outputs'' = Some (JObj (map (\<lambda>p. (fst p, cleared (snd p))) outs))
         \<and> (\<forall>k out. (k, out) \<in> set outs \<longrightarrow> has_path out = Inr True \<longrightarrow> drv_get doc' ''env'' k = Some (JStr []))
         \<and> (\<forall>k. k \<noteq> ''name'' \<longrightarrow> (\<forall>out. (k, out) \<in> set outs \<longrightarrow> has_path out \<noteq> Inr True) \<longrightarrow>
              drv_get doc' ''env'' k = (if k \<in> set (checks_gone (dict_get doc ''structuredAttrs'')) then None
                else drv_get doc ''env'' k))"
    proof (intro exI[of _ outs] conjI allI impI)
      show "dict_get doc' ''outputs'' = Some (JObj (map (\<lambda>p. (fst p, cleared (snd p))) outs))"
        using c by (simp add: 1(11))
      show "drv_get doc' ''env'' k = (if k \<in> set ?gone then None else drv_get doc ''env'' k)"
        if "k \<noteq> ''name''" "\<forall>out. (k, out) \<in> set outs \<longrightarrow> has_path out \<noteq> Inr True" for k
      proof -
        have "dict_get env2 k = (if k \<in> set ?gone then None else drv_get doc ''env'' k)"
          using that(1) env by (simp add: 1(6) e1 drv_get_def)
        moreover have "\<not> (\<exists>out. (k, out) \<in> set outs \<and> has_path out = Inr True)" using that(2) by blast
        ultimately show ?thesis using e3[of k] by (simp only: if_False)
      qed
    qed (use outs e3 in auto)
    show "dict_get doc' ''structuredAttrs'' = attrs_left (dict_get doc ''structuredAttrs'')"
      using at by (simp add: 1(11))
    show "\<forall>k. k \<notin> {''args'', ''name'', ''inputs'', ''outputs'', ''env'', ''structuredAttrs''} \<longrightarrow> dict_get doc' k = dict_get doc k"
      using fr by (simp add: 1(11))
  qed
qed

definition demo_drv :: "(string \<times> json) list" where
  "demo_drv = [(''builder'', JStr ''/nix/store/x/bin/bash''), (''args'', JArr []), (''name'', JStr ''hello''),
     (''system'', JStr ''x86''), (''inputs'', JObj [(''srcs'', JArr [JStr ''a''])]),
     (''outputs'', JObj [(''out'', JObj [(''path'', JStr ''p'')]), (''dev'', JObj [])]),
     (''env'', JObj [(''allowedReferences'', JStr ''''), (''out'', JStr ''p''), (''name'', JStr ''hello''), (''x'', JStr ''1'')])]"

theorem rewrite_drv_exact_witness:
  "\<exists>doc'. rewrite_drv demo_drv ''/s'' ''s'' = Inr doc' \<and> dict_get doc' ''name'' = Some (JStr ''hello-env'')
     \<and> drv_get doc' ''env'' ''out'' = Some (JStr []) \<and> dict_get doc' ''system'' = Some (JStr ''x86'')"
proof -
  have "case rewrite_drv demo_drv ''/s'' ''s'' of Inl e \<Rightarrow> False | Inr d \<Rightarrow> drv_get d ''env'' ''out'' = Some (JStr [])" by code_simp
  then obtain doc' where r: "rewrite_drv demo_drv ''/s'' ''s'' = Inr doc'" and o': "drv_get doc' ''env'' ''out'' = Some (JStr [])"
    by (auto split: sum.splits)
  note t = rewrite_drv_exact[OF r]
  have "dict_get doc' ''name'' = Some (JStr ''hello-env'')" "dict_get doc' ''system'' = Some (JStr ''x86'')"
    using t by (auto simp: demo_drv_def)
  with r o' show ?thesis by blast
qed

end
