(* ===== verification/Logbus.thy ===== *)
theory Logbus
  imports Effects
begin

text \<open>
  One log subscription with many readers, \<open>huggorm/logbus.py\<close>. The subscription is a bound C++ object: the
  record \<open>log_source\<close>, an argument, opens, reads and drops one and reads a record's action and level. A
  reader is known by an identity, and the fan-out keeps every reader's buffer by it: a reader that has
  left can still be read. What the code does under the fan-out's lock is one step here; a reader is
  discarded before its \<open>leave\<close> takes the lock, so that is a step of its own (\<open>discard\<close>).
\<close>

definition LOG_CAPACITY :: int where "LOG_CAPACITY = 1024"
definition LOG_LEVEL :: int where "LOG_LEVEL = 3"

record share =
  sh_capacity :: int
  sh_level :: int
  sh_dropped :: int

text \<open>A reader's buffer, under its bounds.\<close>

record 'r reader = share +
  sh_records :: "'r list"

definition new_reader :: "int \<Rightarrow> int \<Rightarrow> 'r reader" where
  "new_reader capacity level = \<lparr>sh_capacity = capacity, sh_level = level, sh_dropped = 0, sh_records = []\<rparr>"

record ('w, 's, 'r) log_source =
  ls_open :: "int \<Rightarrow> int \<Rightarrow> ('w, 's) eff"
  ls_drop :: "('w, unit) eff"
  ls_drain :: "'s \<Rightarrow> ('w, 'r list) eff"
  ls_dropped :: "'s \<Rightarrow> ('w, int) eff"
  ls_close :: "'s \<Rightarrow> ('w, unit) eff"
  ls_action :: "'r \<Rightarrow> string"
  ls_level :: "'r \<Rightarrow> int"

definition offer :: "('w, 's, 'r) log_source \<Rightarrow> 'r \<Rightarrow> 'r reader \<Rightarrow> 'r reader" where
  "offer ls r sh = (let action = ls_action ls r in
     if action = ''msg'' \<and> ls_level ls r > sh_level sh then sh
     else if action \<in> {''msg'', ''result''} \<and> int (length (sh_records sh)) \<ge> sh_capacity sh
       then sh\<lparr>sh_dropped := sh_dropped sh + 1\<rparr>
     else sh\<lparr>sh_records := sh_records sh @ [r]\<rparr>)"

definition take_records :: "'r reader \<Rightarrow> 'r list \<times> 'r reader" where
  "take_records sh = (sh_records sh, sh\<lparr>sh_records := []\<rparr>)"

record ('s, 'r) fanout =
  fo_sub :: "'s option"
  fo_capacity :: int
  fo_level :: int
  fo_heap :: "(nat, 'r reader) dict" \<comment> \<open>every reader made here, by identity\<close>
  fo_readers :: "nat list" \<comment> \<open>the readers that have not left\<close>
  fo_dropped :: int

definition new_fanout :: "('s, 'r) fanout" where
  "new_fanout = \<lparr>fo_sub = None, fo_capacity = 0, fo_level = 0, fo_heap = [], fo_readers = [], fo_dropped = 0\<rparr>"

definition reading_now :: "('s, 'r) fanout \<Rightarrow> 'r reader list" where
  "reading_now f = concat (map (\<lambda>i. case dict_get (fo_heap f) i of None \<Rightarrow> [] | Some sh \<Rightarrow> [sh]) (fo_readers f))"

definition max_of :: "int list \<Rightarrow> int \<Rightarrow> int" where
  "max_of xs d = (case xs of [] \<Rightarrow> d | x # ys \<Rightarrow> fold max ys x)"

definition widest :: "'r reader list \<Rightarrow> int" where
  "widest rs = max_of (map sh_level rs) LOG_LEVEL"

type_synonym ('w, 's, 'r, 'a) fan_eff = "('w \<times> ('s, 'r) fanout, 'a) eff"

definition outside :: "('w, 'a) eff \<Rightarrow> ('w, 's, 'r, 'a) fan_eff" where
  "outside m = (\<lambda>(w, f). let (r, w') = m w in (r, (w', f)))"

definition upd_fan :: "(('s, 'r) fanout \<Rightarrow> ('s, 'r) fanout) \<Rightarrow> ('w, 's, 'r, unit) fan_eff" where
  "upd_fan g = (\<lambda>(w, f). (Inr (), (w, g f)))"

text \<open>\<open>contextlib.suppress(Exception)\<close>.\<close>

definition suppress :: "('s, unit) eff \<Rightarrow> ('s, unit) eff" where
  "suppress m = (\<lambda>s. (Inr (), snd (m s)))"

definition offer_all :: "('w, 's, 'r) log_source \<Rightarrow> 'r list \<Rightarrow> ('s, 'r) fanout \<Rightarrow> ('s, 'r) fanout" where
  "offer_all ls rs f = f\<lparr>fo_heap := map (\<lambda>(i, sh). (i, if i \<in> set (fo_readers f) then fold (offer ls) rs sh else sh)) (fo_heap f)\<rparr>"

definition pull :: "('w, 's, 'r) log_source \<Rightarrow> ('w, 's, 'r, unit) fan_eff" where
  "pull ls = (\<lambda>(w, f). case fo_sub f of None \<Rightarrow> (Inr (), (w, f))
     | Some sub \<Rightarrow> bind_eff (outside (ls_drain ls sub)) (\<lambda>records.
         bind_eff (outside (ls_dropped ls sub)) (\<lambda>n.
           upd_fan (\<lambda>f. offer_all ls records (f\<lparr>fo_dropped := n\<rparr>)))) (w, f))"

definition close_sub :: "('w, 's, 'r) log_source \<Rightarrow> ('w, 's, 'r, unit) fan_eff" where
  "close_sub ls = (\<lambda>(w, f). bind_eff (upd_fan (\<lambda>f. f\<lparr>fo_sub := None\<rparr>)) (\<lambda>_.
     bind_eff (case fo_sub f of None \<Rightarrow> ret () | Some sub \<Rightarrow> suppress (outside (ls_close ls sub))) (\<lambda>_.
       suppress (outside (ls_drop ls)))) (w, f))"

text \<open>Opening the subscription for the readers there are and the one that joins.\<close>

definition open_sub :: "('w, 's, 'r) log_source \<Rightarrow> int \<Rightarrow> int \<Rightarrow> ('w, 's, 'r, unit) fan_eff" where
  "open_sub ls capacity level = (\<lambda>(w, f).
     let lv = max level (widest (reading_now f)); cap = max_of (capacity # map sh_capacity (reading_now f)) 0 in
     bind_eff (upd_fan (\<lambda>f. f\<lparr>fo_level := lv, fo_capacity := cap\<rparr>)) (\<lambda>_.
     bind_eff (outside (ls_open ls cap lv)) (\<lambda>sub.
     bind_eff (upd_fan (\<lambda>f. f\<lparr>fo_sub := Some sub, fo_dropped := 0\<rparr>)) (\<lambda>_.
     bind_eff (outside (ls_drain ls sub)) (\<lambda>_. ret ())))) (w, f))"

text \<open>\<open>Fanout.join\<close>: \<open>i\<close> is the identity of the new reader.\<close>

definition join :: "('w, 's, 'r) log_source \<Rightarrow> nat \<Rightarrow> int \<Rightarrow> int \<Rightarrow> ('w, 's, 'r, nat) fan_eff" where
  "join ls i capacity level =
     bind_eff (upd_fan (\<lambda>f. f\<lparr>fo_heap := dict_set i (new_reader capacity level) (fo_heap f)\<rparr>)) (\<lambda>_.
     bind_eff (\<lambda>(w, f). if fo_sub f \<noteq> None \<and> (level > fo_level f \<or> capacity > fo_capacity f)
         then bind_eff (pull ls) (\<lambda>_. close_sub ls) (w, f) else (Inr (), (w, f))) (\<lambda>_.
     bind_eff (\<lambda>(w, f). if fo_sub f = None then open_sub ls capacity level (w, f) else (Inr (), (w, f))) (\<lambda>_.
     bind_eff (upd_fan (\<lambda>f. f\<lparr>fo_readers := set_add i (fo_readers f)\<rparr>)) (\<lambda>_. ret i))))"

definition discard :: "nat \<Rightarrow> ('s, 'r) fanout \<Rightarrow> ('s, 'r) fanout" where
  "discard i f = f\<lparr>fo_readers := set_discard i (fo_readers f)\<rparr>"

definition close_if_empty :: "('w, 's, 'r) log_source \<Rightarrow> ('w, 's, 'r, unit) fan_eff" where
  "close_if_empty ls = (\<lambda>(w, f). if fo_readers f \<noteq> [] \<or> fo_sub f = None then (Inr (), (w, f)) else close_sub ls (w, f))"

definition leave :: "('w, 's, 'r) log_source \<Rightarrow> nat \<Rightarrow> ('w, 's, 'r, unit) fan_eff" where
  "leave ls i = bind_eff (upd_fan (discard i)) (\<lambda>_. close_if_empty ls)"

subsection \<open>A reader\<close>

definition reader_drain :: "('w, 's, 'r) log_source \<Rightarrow> nat \<Rightarrow> ('w, 's, 'r, 'r list) fan_eff" where
  "reader_drain ls i = bind_eff (pull ls) (\<lambda>_. \<lambda>(w, f). case dict_get (fo_heap f) i of None \<Rightarrow> (Inr [], (w, f))
     | Some sh \<Rightarrow> (let (out, sh') = take_records sh in (Inr out, (w, f\<lparr>fo_heap := dict_set i sh' (fo_heap f)\<rparr>))))"

definition reader_dropped :: "nat \<Rightarrow> ('s, 'r) fanout \<Rightarrow> int" where
  "reader_dropped i f = (case dict_get (fo_heap f) i of None \<Rightarrow> 0 | Some sh \<Rightarrow> sh_dropped sh) + fo_dropped f"

definition reader_close :: "('w, 's, 'r) log_source \<Rightarrow> nat \<Rightarrow> ('w, 's, 'r, unit) fan_eff" where
  "reader_close ls i = leave ls i"

end
