(* ===== verification/Logbus_Props.thy ===== *)
theory Logbus_Props
  imports Logbus "HOL-Library.Sublist"
begin

text \<open>
  What a log reader can rely on. The shared subscription is always as wide as every reader asked for; a
  pull hands every reader each record it wants or counts it as dropped, control records always; and one
  gap: a wider reader whose reopening fails leaves the readers before it with no subscription.
\<close>

subsection \<open>The subscription is wide enough\<close>

definition fan_ok :: "('s, 'r) fanout \<Rightarrow> bool" where
  "fan_ok f \<longleftrightarrow> set (fo_readers f) \<subseteq> set (dict_keys (fo_heap f)) \<and>
     (fo_sub f \<noteq> None \<longrightarrow> (\<forall>i\<in>set (fo_readers f). \<forall>sh. dict_get (fo_heap f) i = Some sh \<longrightarrow>
        sh_level sh \<le> fo_level f \<and> sh_capacity sh \<le> fo_capacity f))"

text \<open>Whatever is done to a fan-out, one locked section at a time, and whether or not it raises.\<close>

inductive fan_reached :: "('w, 's, 'r) log_source \<Rightarrow> 'w \<times> ('s, 'r) fanout \<Rightarrow> bool" for ls where
  new: "fan_reached ls (w, new_fanout)"
| joined: "fan_reached ls (w, f) \<Longrightarrow> i \<notin> set (dict_keys (fo_heap f)) \<Longrightarrow> fan_reached ls (snd (join ls i c l (w, f)))"
| discarded: "fan_reached ls (w, f) \<Longrightarrow> fan_reached ls (w, discard i f)"
| emptied: "fan_reached ls s \<Longrightarrow> fan_reached ls (snd (close_if_empty ls s))"
| drained: "fan_reached ls s \<Longrightarrow> fan_reached ls (snd (reader_drain ls i s))"

definition keeps_fan :: "('w, 's, 'r, 'a) fan_eff \<Rightarrow> (('s, 'r) fanout \<Rightarrow> bool) \<Rightarrow> bool" where
  "keeps_fan m P \<longleftrightarrow> (\<forall>w f. P f \<longrightarrow> P (snd (snd (m (w, f)))))"

lemma fan_keeps_bind: "keeps_fan m P \<Longrightarrow> (\<And>a. keeps_fan (g a) P) \<Longrightarrow> keeps_fan (bind_eff m g) P"
  unfolding keeps_fan_def
proof (intro allI impI)
  fix w f assume m: "\<forall>w f. P f \<longrightarrow> P (snd (snd (m (w, f))))" and g: "\<And>a. \<forall>w f. P f \<longrightarrow> P (snd (snd (g a (w, f))))" and p: "P f"
  obtain r w1 f1 where e: "m (w, f) = (r, (w1, f1))" by (metis surj_pair)
  have "P f1" using m p e by (metis snd_conv)
  then show "P (snd (snd (bind_eff m g (w, f))))" using e g by (cases r) simp_all
qed

lemma fan_keeps_outside: "keeps_fan (outside m) P"
  by (simp add: keeps_fan_def outside_def Let_def case_prod_beta)

lemma fan_keeps_upd: "(\<And>f. P f \<Longrightarrow> P (g f)) \<Longrightarrow> keeps_fan (upd_fan g) P"
  by (simp add: keeps_fan_def upd_fan_def)

lemma fan_keeps_ret: "keeps_fan (ret a) P"
  by (simp add: keeps_fan_def)

lemma fan_keeps_suppress: "keeps_fan m P \<Longrightarrow> keeps_fan (suppress m) P"
  by (simp add: keeps_fan_def suppress_def)

lemmas fan_keeps_rules = fan_keeps_bind fan_keeps_outside fan_keeps_ret fan_keeps_suppress

lemma offer_same: "sh_level (offer ls r sh) = sh_level sh" "sh_capacity (offer ls r sh) = sh_capacity sh"
  by (simp_all add: offer_def Let_def)

lemma offers_same: "sh_level (fold (offer ls) rs sh) = sh_level sh" "sh_capacity (fold (offer ls) rs sh) = sh_capacity sh"
  by (induction rs arbitrary: sh) (simp_all add: offer_same)

lemma get_offer_all:
  "dict_get (fo_heap (offer_all ls rs f)) i = map_option (\<lambda>sh. if i \<in> set (fo_readers f) then fold (offer ls) rs sh else sh)
     (dict_get (fo_heap f) i)"
proof -
  have "dict_get (map (\<lambda>(i, sh). (i, if i \<in> S then fold (offer ls) rs sh else sh)) d) i =
      map_option (\<lambda>sh. if i \<in> S then fold (offer ls) rs sh else sh) (dict_get d i)" for S d
    by (induction d) auto
  then show ?thesis by (simp add: offer_all_def)
qed

lemma offer_all_frame [simp]:
  "fo_sub (offer_all ls rs f) = fo_sub f" "fo_level (offer_all ls rs f) = fo_level f"
  "fo_capacity (offer_all ls rs f) = fo_capacity f" "fo_readers (offer_all ls rs f) = fo_readers f"
  "set (dict_keys (fo_heap (offer_all ls rs f))) = set (dict_keys (fo_heap f))"
  by (simp_all add: offer_all_def) force

lemma fan_ok_offer: "fan_ok f \<Longrightarrow> fan_ok (offer_all ls rs (f\<lparr>fo_dropped := n\<rparr>))"
  unfolding fan_ok_def by (auto simp: get_offer_all offers_same simp del: set_map)

lemma pull_ok:
  fixes ls :: "('w, 's, 'r) log_source"
  shows "keeps_fan (pull ls) fan_ok"
  unfolding keeps_fan_def
proof (intro allI impI)
  fix w and f :: "('s, 'r) fanout" assume p: "fan_ok f"
  show "fan_ok (snd (snd (pull ls (w, f))))"
  proof (cases "fo_sub f")
    case (Some sub)
    have "keeps_fan (bind_eff (outside (ls_drain ls sub)) (\<lambda>records. bind_eff (outside (ls_dropped ls sub)) (\<lambda>n.
       upd_fan (\<lambda>f. offer_all ls records (f\<lparr>fo_dropped := n\<rparr>))))) fan_ok"
      by (intro fan_keeps_rules fan_keeps_upd) (rule fan_ok_offer)
    with p Some show ?thesis by (simp add: keeps_fan_def pull_def)
  qed (simp add: pull_def p)
qed

lemma close_sub_eq: "\<exists>w'. close_sub ls (w, f) = (Inr (), (w', f\<lparr>fo_sub := None\<rparr>))"
  by (cases "fo_sub f") (auto simp: close_sub_def upd_fan_def suppress_def outside_def bind_eff_def ret_def Let_def case_prod_beta)

lemma fan_ok_closed: "fan_ok f \<Longrightarrow> fan_ok (f\<lparr>fo_sub := None\<rparr>)"
  by (simp add: fan_ok_def)

lemma close_ok:
  fixes ls :: "('w, 's, 'r) log_source"
  shows "keeps_fan (close_sub ls) fan_ok"
  unfolding keeps_fan_def
proof (intro allI impI)
  fix w and f :: "('s, 'r) fanout" assume "fan_ok f"
  then show "fan_ok (snd (snd (close_sub ls (w, f))))" using close_sub_eq[of ls w f] fan_ok_closed by fastforce
qed

lemma max_of_ge: "x \<in> set xs \<Longrightarrow> x \<le> max_of xs d"
proof -
  have "a \<le> fold max ys a" and "y \<in> set ys \<Longrightarrow> y \<le> fold max ys a" for ys a and y :: int
  proof -
    have "(\<forall>a. a \<le> fold max ys a) \<and> (\<forall>a. \<forall>y\<in>set ys. y \<le> fold max ys a)"
    proof (induction ys)
      case (Cons z zs)
      then show ?case by (auto intro: order_trans[OF _ spec[OF conjunct1[OF Cons.IH]]])
    qed simp
    then show "a \<le> fold max ys a" "y \<in> set ys \<Longrightarrow> y \<le> fold max ys a" by blast+
  qed
  then show "x \<in> set xs \<Longrightarrow> x \<le> max_of xs d" by (cases xs) (auto simp: max_of_def)
qed

lemma reading_now_mem: "i \<in> set (fo_readers f) \<Longrightarrow> dict_get (fo_heap f) i = Some sh \<Longrightarrow> sh \<in> set (reading_now f)"
  unfolding reading_now_def by force

text \<open>What opening leaves, whether it raises or not: no subscription, or one wide enough for all.\<close>

lemma open_sub_effect:
  assumes "set (fo_readers f) \<subseteq> set (dict_keys (fo_heap f))" "fo_sub f = None"
  shows "case open_sub ls c l (w, f) of (r, (w', f')) \<Rightarrow> fan_ok f' \<and> fo_readers f' = fo_readers f \<and> fo_heap f' = fo_heap f
     \<and> (r = Inr () \<longrightarrow> fo_sub f' \<noteq> None) \<and> (fo_sub f' \<noteq> None \<longrightarrow> l \<le> fo_level f' \<and> c \<le> fo_capacity f')"
proof -
  let ?lv = "max l (widest (reading_now f))" and ?cap = "max_of (c # map sh_capacity (reading_now f)) 0"
  have wide: "sh_level sh \<le> ?lv" "sh_capacity sh \<le> ?cap" if "i \<in> set (fo_readers f)" "dict_get (fo_heap f) i = Some sh" for i sh
  proof -
    have m: "sh \<in> set (reading_now f)" using reading_now_mem[OF that] .
    then have "sh_level sh \<le> widest (reading_now f)" unfolding widest_def by (intro max_of_ge) simp
    then show "sh_level sh \<le> ?lv" by (rule max.coboundedI2)
    show "sh_capacity sh \<le> ?cap" using m by (intro max_of_ge) simp
  qed
  have c: "c \<le> ?cap" by (rule max_of_ge) simp
  obtain r1 w1 where o': "ls_open ls ?cap ?lv w = (r1, w1)" by (cases "ls_open ls ?cap ?lv w")
  show ?thesis
  proof (cases r1)
    case (Inl e)
    with o' assms show ?thesis
      by (simp add: open_sub_def upd_fan_def outside_def bind_eff_def Let_def fan_ok_def)
  next
    case (Inr sub)
    obtain r2 w2 where d: "ls_drain ls sub w1 = (r2, w2)" by (cases "ls_drain ls sub w1")
    show ?thesis
      using o' Inr d assms wide c
      by (cases r2) (simp_all add: open_sub_def upd_fan_def outside_def bind_eff_def ret_def Let_def fan_ok_def)
  qed
qed

text \<open>The three sections of a join, in order.\<close>

definition reopen :: "('w, 's, 'r) log_source \<Rightarrow> int \<Rightarrow> int \<Rightarrow> ('w, 's, 'r, unit) fan_eff" where
  "reopen ls c l = (\<lambda>(w, f). if fo_sub f \<noteq> None \<and> (l > fo_level f \<or> c > fo_capacity f)
         then bind_eff (pull ls) (\<lambda>_. close_sub ls) (w, f) else (Inr (), (w, f)))"

definition reopened :: "('w, 's, 'r) log_source \<Rightarrow> int \<Rightarrow> int \<Rightarrow> ('w, 's, 'r, unit) fan_eff" where
  "reopened ls c l = (\<lambda>(w, f). if fo_sub f = None then open_sub ls c l (w, f) else (Inr (), (w, f)))"

lemma join_eq: "join ls i c l =
     bind_eff (upd_fan (\<lambda>f. f\<lparr>fo_heap := dict_set i (new_reader c l) (fo_heap f)\<rparr>)) (\<lambda>_.
     bind_eff (reopen ls c l) (\<lambda>_. bind_eff (reopened ls c l) (\<lambda>_.
     bind_eff (upd_fan (\<lambda>f. f\<lparr>fo_readers := set_add i (fo_readers f)\<rparr>)) (\<lambda>_. ret i))))"
  by (simp add: join_def reopen_def reopened_def)

definition heap_like :: "('s, 'r) fanout \<Rightarrow> ('s, 'r) fanout \<Rightarrow> bool" where
  "heap_like f f' \<longleftrightarrow> fo_readers f' = fo_readers f \<and> (\<forall>i. map_option (\<lambda>sh. (sh_level sh, sh_capacity sh)) (dict_get (fo_heap f') i)
     = map_option (\<lambda>sh. (sh_level sh, sh_capacity sh)) (dict_get (fo_heap f) i))"

lemma pull_heap:
  fixes ls :: "('w, 's, 'r) log_source"
  shows "keeps_fan (pull ls) (heap_like f0)"
  unfolding keeps_fan_def
proof (intro allI impI)
  fix w and f :: "('s, 'r) fanout" assume p: "heap_like f0 f"
  show "heap_like f0 (snd (snd (pull ls (w, f))))"
  proof (cases "fo_sub f")
    case (Some sub)
    have u: "heap_like f0 (offer_all ls rs (f\<lparr>fo_dropped := n\<rparr>))" if "heap_like f0 f" for rs n f
    proof -
      have "map_option (\<lambda>sh. (sh_level sh, sh_capacity sh)) (dict_get (fo_heap (offer_all ls rs (f\<lparr>fo_dropped := n\<rparr>))) i) =
          map_option (\<lambda>sh. (sh_level sh, sh_capacity sh)) (dict_get (fo_heap f) i)" for i
        by (cases "dict_get (fo_heap f) i") (simp_all add: get_offer_all offers_same)
      with that show ?thesis by (simp add: heap_like_def)
    qed
    have "keeps_fan (bind_eff (outside (ls_drain ls sub)) (\<lambda>records. bind_eff (outside (ls_dropped ls sub)) (\<lambda>n.
       upd_fan (\<lambda>f. offer_all ls records (f\<lparr>fo_dropped := n\<rparr>))))) (heap_like f0)"
      by (intro fan_keeps_rules fan_keeps_upd) (rule u)
    with p Some show ?thesis by (simp add: keeps_fan_def pull_def)
  qed (simp add: pull_def p)
qed

lemma reopen_effect:
  assumes "fan_ok f"
  shows "case reopen ls c l (w, f) of (r, (w', f')) \<Rightarrow> fan_ok f' \<and> heap_like f f' \<and>
     (r = Inr () \<longrightarrow> fo_sub f' \<noteq> None \<longrightarrow> l \<le> fo_level f' \<and> c \<le> fo_capacity f')"
proof (cases "fo_sub f \<noteq> None \<and> (l > fo_level f \<or> c > fo_capacity f)")
  case True
  obtain r1 w1 f1 where p: "pull ls (w, f) = (r1, (w1, f1))" by (metis surj_pair)
  have f1: "fan_ok f1" "heap_like f f1"
  proof -
    have h: "heap_like f f" by (simp add: heap_like_def)
    show "fan_ok f1" using pull_ok[of ls, unfolded keeps_fan_def, rule_format, OF assms, of w] p by simp
    show "heap_like f f1" using pull_heap[of ls f, unfolded keeps_fan_def, rule_format, OF h, of w] p by simp
  qed
  obtain w2 where c: "close_sub ls (w1, f1) = (Inr (), (w2, f1\<lparr>fo_sub := None\<rparr>))" using close_sub_eq[of ls w1 f1] by (elim exE)
  show ?thesis
  proof (cases r1)
    case (Inl e)
    with p f1 True show ?thesis by (simp add: reopen_def)
  next
    case (Inr u)
    with p c f1 True fan_ok_closed[OF f1(1)] show ?thesis by (simp add: reopen_def heap_like_def)
  qed
qed (use assms in \<open>auto simp: reopen_def heap_like_def\<close>)

lemma join_effect:
  assumes "fan_ok f" "i \<notin> set (dict_keys (fo_heap f))"
  shows "case join ls i c l (w, f) of (r, (w', f')) \<Rightarrow> fan_ok f' \<and>
    (\<forall>j. r = Inr j \<longrightarrow> j = i \<and> fo_sub f' \<noteq> None \<and> i \<in> set (fo_readers f') \<and> (\<exists>sh. dict_get (fo_heap f') i = Some sh))"
proof -
  let ?f = "f\<lparr>fo_heap := dict_set i (new_reader c l) (fo_heap f)\<rparr>"
  have nr: "i \<notin> set (fo_readers f)" using assms unfolding fan_ok_def by blast
  have f0: "fan_ok ?f" using assms(1) nr unfolding fan_ok_def by (auto simp del: set_map)
  obtain r1 w1 f1 where r: "reopen ls c l (w, ?f) = (r1, (w1, f1))" by (metis surj_pair)
  have f1: "fan_ok f1" "heap_like ?f f1" "r1 = Inr () \<Longrightarrow> fo_sub f1 \<noteq> None \<Longrightarrow> l \<le> fo_level f1 \<and> c \<le> fo_capacity f1"
    using reopen_effect[OF f0, where ls = ls and c = c and l = l and w = w] r by auto
  obtain r2 w2 f2 where q: "reopened ls c l (w1, f1) = (r2, (w2, f2))" by (metis surj_pair)
  have f2: "fan_ok f2 \<and> fo_readers f2 = fo_readers f1 \<and> fo_heap f2 = fo_heap f1 \<and>
     (r1 = Inr () \<longrightarrow> (r2 = Inr () \<longrightarrow> fo_sub f2 \<noteq> None) \<and> (fo_sub f2 \<noteq> None \<longrightarrow> l \<le> fo_level f2 \<and> c \<le> fo_capacity f2))"
  proof (cases "fo_sub f1")
    case None
    with open_sub_effect[of f1, where ls = ls and c = c and l = l and w = w1] f1(1) q show ?thesis by (simp add: reopened_def fan_ok_def)
  qed (use q f1 in \<open>simp add: reopened_def\<close>)
  have new: "map_option (\<lambda>sh. (sh_level sh, sh_capacity sh)) (dict_get (fo_heap f2) i) = Some (l, c)"
    using f2 f1(2) by (simp add: heap_like_def new_reader_def)
  then obtain sh where sh: "dict_get (fo_heap f2) i = Some sh" "sh_level sh = l" "sh_capacity sh = c" by auto
  let ?f3 = "f2\<lparr>fo_readers := set_add i (fo_readers f2)\<rparr>"
  have "fan_ok ?f3" if "r1 = Inr ()"
    using f2 that sh dict_get_mem[OF sh(1)] unfolding fan_ok_def by (auto intro: rev_image_eqI)
  moreover have "join ls i c l (w, f) = (case r1 of Inl e \<Rightarrow> (Inl e, (w1, f1)) | Inr _ \<Rightarrow>
      (case r2 of Inl e \<Rightarrow> (Inl e, (w2, f2)) | Inr _ \<Rightarrow> (Inr i, (w2, ?f3))))"
    using r q by (cases r1; cases r2) (simp_all add: join_eq upd_fan_def bind_eff_def ret_def)
  ultimately show ?thesis using f1 f2 sh by (auto split: sum.splits)
qed

lemma discard_ok: "fan_ok f \<Longrightarrow> fan_ok (discard i f)"
  by (auto simp: fan_ok_def discard_def)

lemma fan_reached_ok: "fan_reached ls s \<Longrightarrow> fan_ok (snd s)"
proof (induction rule: fan_reached.induct)
  case (new w)
  show ?case by (simp add: fan_ok_def new_fanout_def)
next
  case (joined w f i c l)
  then show ?case using join_effect[of f i ls c l w] by (auto split: prod.splits)
next
  case (discarded w f i)
  then show ?case by (simp add: discard_ok)
next
  case (emptied s)
  then show ?case using close_ok[of ls] by (cases s) (simp add: close_if_empty_def keeps_fan_def)
next
  case (drained s i)
  obtain w f where s: "s = (w, f)" by (cases s)
  have u: "keeps_fan (\<lambda>(w, f). case dict_get (fo_heap f) i of None \<Rightarrow> (Inr [], (w, f))
     | Some sh \<Rightarrow> (let (out, sh') = take_records sh in (Inr out, (w, f\<lparr>fo_heap := dict_set i sh' (fo_heap f)\<rparr>)))) fan_ok"
    unfolding keeps_fan_def
    by (auto simp: fan_ok_def take_records_def simp del: set_map split: option.splits)
  have "keeps_fan (reader_drain ls i) fan_ok"
    unfolding reader_drain_def by (rule fan_keeps_bind[OF pull_ok u])
  with drained s show ?case by (simp add: keeps_fan_def)
qed

text \<open>However readers join, leave and drain, and whatever the subscription raises, an open subscription
  has the level and the capacity of every reader that has not left; and a join that works leaves one open,
  with its reader among them.\<close>

theorem fanout_covers:
  assumes "fan_reached ls (w, f)"
  shows "(\<forall>i\<in>set (fo_readers f). \<exists>sh. dict_get (fo_heap f) i = Some sh \<and>
       (fo_sub f \<noteq> None \<longrightarrow> sh_level sh \<le> fo_level f \<and> sh_capacity sh \<le> fo_capacity f))
     \<and> (\<forall>i c l w' f'. i \<notin> set (dict_keys (fo_heap f)) \<longrightarrow> join ls i c l (w, f) = (Inr i, (w', f')) \<longrightarrow>
          fo_sub f' \<noteq> None \<and> i \<in> set (fo_readers f'))"
proof -
  have ok: "fan_ok f" using fan_reached_ok[OF assms] by simp
  show ?thesis
  proof (intro conjI ballI allI impI)
    fix i assume i: "i \<in> set (fo_readers f)"
    then have "i \<in> set (dict_keys (fo_heap f))" using ok unfolding fan_ok_def by blast
    then obtain sh where "dict_get (fo_heap f) i = Some sh" using dict_keys_get[of i "fo_heap f"] by blast
    with i ok show "\<exists>sh. dict_get (fo_heap f) i = Some sh \<and>
       (fo_sub f \<noteq> None \<longrightarrow> sh_level sh \<le> fo_level f \<and> sh_capacity sh \<le> fo_capacity f)"
      unfolding fan_ok_def by blast
  next
    fix i c l w' f' assume "i \<notin> set (dict_keys (fo_heap f))" "join ls i c l (w, f) = (Inr i, (w', f'))"
    with join_effect[OF ok, of i ls c l w] show "fo_sub f' \<noteq> None" "i \<in> set (fo_readers f')" by auto
  qed
qed

text \<open>A source for the examples: the world is the queue of what each open subscription holds and the number
  of opens left before one fails.\<close>

definition demo_source :: "(string list \<times> nat, nat, string) log_source" where
  "demo_source = \<lparr>ls_open = (\<lambda>c l (q, n). if n = 0 then (Inl RuntimeError, (q, n)) else (Inr n, (q, n - 1))),
     ls_drop = ret (), ls_drain = (\<lambda>s (q, n). (Inr q, ([], n))), ls_dropped = (\<lambda>s. ret 0), ls_close = (\<lambda>s. ret ()),
     ls_action = (\<lambda>r. if r = ''stop'' then ''stop'' else ''msg''), ls_level = (\<lambda>r. int (length r))\<rparr>"

theorem fanout_covers_witness:
  "\<exists>w f. fan_reached demo_source (w, f) \<and> fo_readers f = [1, 2] \<and> fo_level f = 5 \<and> fo_capacity f = 10 \<and> fo_sub f \<noteq> None
     \<and> (\<forall>i\<in>{1, 2}. \<exists>sh. dict_get (fo_heap f) i = Some sh \<and> sh_level sh \<le> 5)"
proof -
  obtain w f where r: "fan_reached demo_source (w, f)"
    and v: "fo_readers f = [1, 2]" "fo_level f = 5" "fo_capacity f = 10" "fo_sub f \<noteq> None"
  proof -
    let ?a = "snd (join demo_source 1 10 2 (([], 5), new_fanout))"
    let ?b = "snd (join demo_source 2 4 5 ?a)"
    have a: "fan_reached demo_source ?a" by (intro fan_reached.intros) (simp add: new_fanout_def)
    have k: "(2::nat) \<notin> set (dict_keys (fo_heap (snd ?a)))" by code_simp
    have "fan_reached demo_source (fst ?a, snd ?a)" using a by simp
    from fan_reached.joined[OF this k] have b: "fan_reached demo_source ?b" by simp
    have "fo_readers (snd ?b) = [1, 2]" "fo_level (snd ?b) = 5" "fo_capacity (snd ?b) = 10" "fo_sub (snd ?b) \<noteq> None"
      by code_simp+
    with b that[of "fst ?b" "snd ?b"] show ?thesis by simp
  qed
  have "\<exists>sh. dict_get (fo_heap f) i = Some sh \<and> sh_level sh \<le> 5" if "i \<in> {1, 2}" for i
    using fanout_covers[OF r] v that by auto
  with r v show ?thesis by blast
qed

subsection \<open>What a pull delivers\<close>

definition wanted :: "('w, 's, 'r) log_source \<Rightarrow> int \<Rightarrow> 'r \<Rightarrow> bool" where
  "wanted ls level r \<longleftrightarrow> \<not> (ls_action ls r = ''msg'' \<and> ls_level ls r > level)"

definition is_control :: "('w, 's, 'r) log_source \<Rightarrow> 'r \<Rightarrow> bool" where
  "is_control ls r \<longleftrightarrow> ls_action ls r \<notin> {''msg'', ''result''}"

text \<open>What a buffer becomes: some of the wanted records, all of the control records, and the rest counted.\<close>

definition delivered :: "('w, 's, 'r) log_source \<Rightarrow> 'r list \<Rightarrow> 'r reader \<Rightarrow> 'r reader \<Rightarrow> bool" where
  "delivered ls rs sh sh' \<longleftrightarrow> (\<exists>ks. sh_records sh' = sh_records sh @ ks \<and> subseq ks (filter (wanted ls (sh_level sh)) rs) \<and>
     filter (is_control ls) ks = filter (is_control ls) rs \<and>
     sh_dropped sh' + int (length ks) = sh_dropped sh + int (length (filter (wanted ls (sh_level sh)) rs)) \<and>
     (int (length (sh_records sh) + length rs) \<le> sh_capacity sh \<longrightarrow> ks = filter (wanted ls (sh_level sh)) rs))"

lemma offers_delivered: "delivered ls rs sh (fold (offer ls) rs sh)"
proof (induction rs arbitrary: sh)
  case (Cons r rs)
  let ?s = "offer ls r sh"
  obtain ks where ks: "sh_records (fold (offer ls) rs ?s) = sh_records ?s @ ks" "subseq ks (filter (wanted ls (sh_level sh)) rs)"
    "filter (is_control ls) ks = filter (is_control ls) rs"
    "sh_dropped (fold (offer ls) rs ?s) + int (length ks) = sh_dropped ?s + int (length (filter (wanted ls (sh_level sh)) rs))"
    "int (length (sh_records ?s) + length rs) \<le> sh_capacity sh \<Longrightarrow> ks = filter (wanted ls (sh_level sh)) rs"
    using Cons[of ?s] unfolding delivered_def offer_same by blast
  consider (unwanted) "\<not> wanted ls (sh_level sh) r" "?s = sh"
    | (full) "wanted ls (sh_level sh) r" "\<not> is_control ls r" "?s = sh\<lparr>sh_dropped := sh_dropped sh + 1\<rparr>"
        "int (length (sh_records sh)) \<ge> sh_capacity sh"
    | (kept) "wanted ls (sh_level sh) r" "?s = sh\<lparr>sh_records := sh_records sh @ [r]\<rparr>"
    by (cases "wanted ls (sh_level sh) r"; cases "is_control ls r"; cases "int (length (sh_records sh)) \<ge> sh_capacity sh")
      (auto simp: offer_def Let_def wanted_def is_control_def)
  then show ?case
  proof cases
    case unwanted
    then have "\<not> is_control ls r" by (auto simp: wanted_def is_control_def)
    with unwanted ks show ?thesis unfolding delivered_def by (intro exI[of _ ks]) auto
  next
    case full
    with ks show ?thesis unfolding delivered_def
      by (intro exI[of _ ks]) (auto intro: list_emb_Cons)
  next
    case kept
    with ks show ?thesis unfolding delivered_def
      by (intro exI[of _ "r # ks"]) auto
  qed
qed (simp add: delivered_def)

text \<open>A pull hands every reader that has not left each record it wants, in order, or counts it as dropped:
  a record that is not a message or a result is never dropped, and nothing is while there is room. A
  reader that has left gets nothing.\<close>

theorem pull_delivers:
  assumes "fo_sub f = Some sub" "ls_drain ls sub w = (Inr rs, w1)" "ls_dropped ls sub w1 = (Inr n, w2)"
  shows "\<exists>f'. pull ls (w, f) = (Inr (), (w2, f')) \<and> fo_dropped f' = n \<and>
     (\<forall>i sh. dict_get (fo_heap f) i = Some sh \<longrightarrow>
        (\<exists>sh'. dict_get (fo_heap f') i = Some sh' \<and>
           (if i \<in> set (fo_readers f) then delivered ls rs sh sh' else sh' = sh)))"
proof -
  let ?f = "offer_all ls rs (f\<lparr>fo_dropped := n\<rparr>)"
  have "pull ls (w, f) = (Inr (), (w2, ?f))"
    using assms by (simp add: pull_def outside_def upd_fan_def bind_eff_def)
  moreover have "fo_dropped ?f = n" by (simp add: offer_all_def)
  moreover have "\<exists>sh'. dict_get (fo_heap ?f) i = Some sh' \<and> (if i \<in> set (fo_readers f) then delivered ls rs sh sh' else sh' = sh)"
    if "dict_get (fo_heap f) i = Some sh" for i sh
    using that offers_delivered[of ls rs sh] by (simp add: get_offer_all)
  ultimately show ?thesis by blast
qed

theorem pull_delivers_witness:
  "\<exists>f'. pull demo_source (([''ab'', ''stop'', ''abc''], 0), \<lparr>fo_sub = Some 0, fo_capacity = 1, fo_level = 3,
        fo_heap = [(1, new_reader 1 2)], fo_readers = [1], fo_dropped = 0\<rparr>) = (Inr (), (([], 0), f'))
     \<and> (\<exists>sh'. dict_get (fo_heap f') 1 = Some sh' \<and> delivered demo_source [''ab'', ''stop'', ''abc''] (new_reader 1 2) sh')"
proof -
  let ?f = "\<lparr>fo_sub = Some 0, fo_capacity = 1, fo_level = 3, fo_heap = [(1, new_reader 1 2)], fo_readers = [1], fo_dropped = 0\<rparr>"
  have d: "ls_drain demo_source 0 ([''ab'', ''stop'', ''abc''], 0) = (Inr [''ab'', ''stop'', ''abc''], ([], 0))"
    "ls_dropped demo_source 0 ([], 0) = (Inr 0, ([], 0))" by (simp_all add: demo_source_def)
  have f: "fo_sub ?f = Some 0" "dict_get (fo_heap ?f) 1 = Some (new_reader 1 2)" "1 \<in> set (fo_readers ?f)" by simp_all
  from pull_delivers[OF f(1) d] show ?thesis
  proof (elim exE conjE)
    fix f' assume p: "pull demo_source (([''ab'', ''stop'', ''abc''], 0), ?f) = (Inr (), (([], 0), f'))"
      and q: "\<forall>i sh. dict_get (fo_heap ?f) i = Some sh \<longrightarrow> (\<exists>sh'. dict_get (fo_heap f') i = Some sh' \<and>
       (if i \<in> set (fo_readers ?f) then delivered demo_source [''ab'', ''stop'', ''abc''] sh sh' else sh' = sh))"
    have "\<exists>sh'. dict_get (fo_heap f') 1 = Some sh' \<and>
      delivered demo_source [''ab'', ''stop'', ''abc''] (new_reader 1 2) sh'"
      using q[rule_format, OF f(2)] by (simp only: f(3) if_True)
    with p show ?thesis by (intro exI[of _ f'] conjI)
  qed
qed

subsection \<open>A reopening that fails\<close>

text \<open>A wider reader closes the subscription before it opens the wider one. When that fails, the readers there
  were stay, with no subscription: their drains answer nothing and raise nothing.\<close>

lemma failed_reopening_silences:
  "\<exists>e w f. (let s1 = snd (join demo_source 1 10 2 (([], 1), new_fanout)) in join demo_source 2 10 7 s1) = (Inl e, (w, f))
     \<and> fo_readers f = [1] \<and> fo_sub f = None \<and> fst (reader_drain demo_source 1 (([''x'', ''stop''], 0), f)) = Inr []"
proof -
  let ?s = "let s1 = snd (join demo_source 1 10 2 (([], 1), new_fanout)) in join demo_source 2 10 7 s1"
  have c: "fst ?s = Inl RuntimeError" "fo_readers (snd (snd ?s)) = [1]" "fo_sub (snd (snd ?s)) = None"
    "fst (reader_drain demo_source 1 (([''x'', ''stop''], 0), snd (snd ?s))) = Inr []" by code_simp+
  then show ?thesis by (metis prod.collapse)
qed

end
