(* ===== verification/Pool.thy ===== *)
theory Pool
  imports Effects
begin

text \<open>
  The shared thread pool of the wrappers, class \<open>_Pool\<close> of \<open>huggorm_gen/payload/_runtime.py\<close>, and the
  jobs it runs. What the code does under the pool's lock, and each operation of its queue, is one step of
  one thread; \<open>pl_pc\<close> says where in \<open>_work\<close> a thread is. A job is known by its place in the order of
  submission, and its future is kept by it. A job's result comes from outside, as does the end of a wait.
\<close>

subsection \<open>Jobs and their futures\<close>

datatype 'r future = Pending | Cancelled | Busy | Settled "exn + 'r"

text \<open>\<open>Future.set_running_or_notify_cancel\<close>: whether the job may run. On a future that has started it raises.\<close>

definition set_running :: "'r future \<Rightarrow> exn + bool \<times> 'r future" where
  "set_running f = (case f of Pending \<Rightarrow> Inr (True, Busy) | Cancelled \<Rightarrow> Inr (False, Cancelled)
     | _ \<Rightarrow> Inl RuntimeError)"

definition cancel_future :: "'r future \<Rightarrow> 'r future" where
  "cancel_future f = (case f of Pending \<Rightarrow> Cancelled | _ \<Rightarrow> f)"

definition is_settled :: "'r future \<Rightarrow> bool" where
  "is_settled f = (case f of Cancelled \<Rightarrow> True | Settled _ \<Rightarrow> True | _ \<Rightarrow> False)"

text \<open>\<open>_Job.run\<close>, its function given by what it answers or raises.\<close>

definition job_runs :: "(exn + 'r) \<Rightarrow> 'r future \<Rightarrow> exn + 'r future" where
  "job_runs result f = (case set_running f of Inl e \<Rightarrow> Inl e
     | Inr (go, f') \<Rightarrow> Inr (if go then Settled result else f'))"

subsection \<open>The pool\<close>

datatype pc =
    Top \<comment> \<open>at the head of the loop\<close>
  | Get \<comment> \<open>in \<open>queue.get\<close>\<close>
  | Got "nat option" \<comment> \<open>with what the queue gave, still counted as idle\<close>
  | Ready nat
  | Run nat
  | Held nat \<comment> \<open>in \<open>wait\<close>, inside the job\<close>
  | Passing \<comment> \<open>about to pass the stop on\<close>
  | Leaving

record 'r pool =
  pl_size :: nat
  pl_queue :: "nat option list"
  pl_threads :: "nat list"
  pl_started :: nat
  pl_idle :: int
  pl_waiting :: int
  pl_shutdown :: bool
  pl_futures :: "'r future list"
  pl_pc :: "nat \<Rightarrow> pc"
  pl_stops :: nat \<comment> \<open>shutdowns between their lock and their put\<close>

definition new_pool :: "nat \<Rightarrow> 'r pool" where
  "new_pool n = \<lparr>pl_size = n, pl_queue = [], pl_threads = [], pl_started = 0, pl_idle = 0, pl_waiting = 0,
     pl_shutdown = False, pl_futures = [], pl_pc = (\<lambda>_. Top), pl_stops = 0\<rparr>"

definition allowance :: "'r pool \<Rightarrow> int" where
  "allowance p = int (pl_size p) + pl_waiting p"

definition go_to :: "nat \<Rightarrow> pc \<Rightarrow> 'r pool \<Rightarrow> 'r pool" where
  "go_to t c p = p\<lparr>pl_pc := (pl_pc p)(t := c)\<rparr>"

definition set_future :: "nat \<Rightarrow> 'r future \<Rightarrow> 'r pool \<Rightarrow> 'r pool" where
  "set_future j f p = p\<lparr>pl_futures := (pl_futures p)[j := f]\<rparr>"

definition grow :: "'r pool \<Rightarrow> 'r pool" where
  "grow p = (if pl_idle p = 0 \<and> int (length (pl_threads p)) < allowance p
     then p\<lparr>pl_started := pl_started p + 1, pl_threads := set_add (pl_started p) (pl_threads p),
            pl_pc := (pl_pc p)(pl_started p := Top)\<rparr>
     else p)"

definition submit :: "'r pool \<Rightarrow> exn + nat \<times> 'r pool" where
  "submit p = (if pl_shutdown p then Inl RuntimeError
     else let j = length (pl_futures p) in
       Inr (j, grow (p\<lparr>pl_futures := pl_futures p @ [Pending], pl_queue := pl_queue p @ [Some j]\<rparr>)))"

subsection \<open>A thread at work\<close>

text \<open>The head of the loop: a thread over the count retires, any other counts itself idle.\<close>

definition work_top :: "nat \<Rightarrow> 'r pool \<Rightarrow> 'r pool" where
  "work_top t p = (if int (length (pl_threads p)) > allowance p
     then p\<lparr>pl_threads := set_discard t (pl_threads p)\<rparr>
     else go_to t Get (p\<lparr>pl_idle := pl_idle p + 1\<rparr>))"

definition work_get :: "nat \<Rightarrow> 'r pool \<Rightarrow> 'r pool option" where
  "work_get t p = (case pl_queue p of [] \<Rightarrow> None | x # q \<Rightarrow> Some (go_to t (Got x) (p\<lparr>pl_queue := q\<rparr>)))"

definition work_got :: "nat \<Rightarrow> nat option \<Rightarrow> 'r pool \<Rightarrow> 'r pool" where
  "work_got t x p = go_to t (case x of None \<Rightarrow> Passing | Some j \<Rightarrow> Ready j) (p\<lparr>pl_idle := pl_idle p - 1\<rparr>)"

definition work_begin :: "nat \<Rightarrow> nat \<Rightarrow> 'r pool \<Rightarrow> exn + 'r pool" where
  "work_begin t j p = (case set_running (pl_futures p ! j) of Inl e \<Rightarrow> Inl e
     | Inr (go, f) \<Rightarrow> Inr (go_to t (if go then Run j else Top) (set_future j f p)))"

definition work_finish :: "nat \<Rightarrow> nat \<Rightarrow> (exn + 'r) \<Rightarrow> 'r pool \<Rightarrow> 'r pool" where
  "work_finish t j result p = go_to t Top (set_future j (Settled result) p)"

definition work_pass :: "nat \<Rightarrow> 'r pool \<Rightarrow> 'r pool" where
  "work_pass t p = go_to t Leaving (p\<lparr>pl_queue := pl_queue p @ [None]\<rparr>)"

definition work_leave :: "nat \<Rightarrow> 'r pool \<Rightarrow> 'r pool" where
  "work_leave t p = p\<lparr>pl_threads := set_discard t (pl_threads p)\<rparr>"

subsection \<open>Waiting for a hook, and stopping\<close>

definition wait_begin :: "nat \<Rightarrow> nat \<Rightarrow> 'r pool \<Rightarrow> 'r pool" where
  "wait_begin t j p = (let p = go_to t (Held j) (p\<lparr>pl_waiting := pl_waiting p + 1\<rparr>) in
     if pl_queue p \<noteq> [] then grow p else p)"

definition wait_end :: "nat \<Rightarrow> nat \<Rightarrow> 'r pool \<Rightarrow> 'r pool" where
  "wait_end t j p = go_to t (Run j) (p\<lparr>pl_waiting := pl_waiting p - 1\<rparr>)"

definition shutdown_begin :: "'r pool \<Rightarrow> 'r pool" where
  "shutdown_begin p = p\<lparr>pl_shutdown := True, pl_stops := pl_stops p + 1\<rparr>"

definition shutdown_put :: "'r pool \<Rightarrow> 'r pool" where
  "shutdown_put p = p\<lparr>pl_stops := pl_stops p - 1, pl_queue := pl_queue p @ [None]\<rparr>"

subsection \<open>Steps\<close>

text \<open>What the threads of the pool do by themselves: no hook is answered, no client acts.\<close>

inductive own_step :: "'r pool \<Rightarrow> 'r pool \<Rightarrow> bool" where
  top: "t \<in> set (pl_threads p) \<Longrightarrow> pl_pc p t = Top \<Longrightarrow> own_step p (work_top t p)"
| get: "t \<in> set (pl_threads p) \<Longrightarrow> pl_pc p t = Get \<Longrightarrow> work_get t p = Some p' \<Longrightarrow> own_step p p'"
| got: "t \<in> set (pl_threads p) \<Longrightarrow> pl_pc p t = Got x \<Longrightarrow> own_step p (work_got t x p)"
| ready: "t \<in> set (pl_threads p) \<Longrightarrow> pl_pc p t = Ready j \<Longrightarrow> work_begin t j p = Inr p' \<Longrightarrow> own_step p p'"
| finish: "t \<in> set (pl_threads p) \<Longrightarrow> pl_pc p t = Run j \<Longrightarrow> own_step p (work_finish t j r p)"
| pass: "t \<in> set (pl_threads p) \<Longrightarrow> pl_pc p t = Passing \<Longrightarrow> own_step p (work_pass t p)"
| leave: "t \<in> set (pl_threads p) \<Longrightarrow> pl_pc p t = Leaving \<Longrightarrow> own_step p (work_leave t p)"

inductive pool_step :: "'r pool \<Rightarrow> 'r pool \<Rightarrow> bool" where
  own: "own_step p p' \<Longrightarrow> pool_step p p'"
| submitted: "submit p = Inr (j, p') \<Longrightarrow> pool_step p p'"
| cancelled: "j < length (pl_futures p) \<Longrightarrow> pool_step p (set_future j (cancel_future (pl_futures p ! j)) p)"
| waits: "t \<in> set (pl_threads p) \<Longrightarrow> pl_pc p t = Run j \<Longrightarrow> pool_step p (wait_begin t j p)"
| waited: "t \<in> set (pl_threads p) \<Longrightarrow> pl_pc p t = Held j \<Longrightarrow> pool_step p (wait_end t j p)"
| stops: "pool_step p (shutdown_begin p)"
| stopped: "pl_stops p > 0 \<Longrightarrow> pool_step p (shutdown_put p)"

inductive pool_reached :: "nat \<Rightarrow> 'r pool \<Rightarrow> bool" for n where
  new: "pool_reached n (new_pool n)"
| step: "pool_reached n p \<Longrightarrow> pool_step p p' \<Longrightarrow> pool_reached n p'"

end
