(* ===== verification/Pool_Props.thy ===== *)
theory Pool_Props
  imports Pool
begin

text \<open>
  The pool always gets to a queued job, even when no hook is ever answered: of the threads it keeps, one is
  never held by a wait. The invariant counts the idle and the held threads and keeps the jobs apart.
\<close>

subsection \<open>Counting threads\<close>

definition tally :: "(pc \<Rightarrow> int) \<Rightarrow> 'r pool \<Rightarrow> int" where
  "tally f p = (\<Sum>t\<in>set (pl_threads p). f (pl_pc p t))"

definition is_idle :: "pc \<Rightarrow> bool" where
  "is_idle c = (case c of Get \<Rightarrow> True | Got _ \<Rightarrow> True | _ \<Rightarrow> False)"

definition is_held :: "pc \<Rightarrow> bool" where
  "is_held c = (case c of Held _ \<Rightarrow> True | _ \<Rightarrow> False)"

definition is_stopping :: "pc \<Rightarrow> bool" where
  "is_stopping c = (case c of Got None \<Rightarrow> True | Passing \<Rightarrow> True | Leaving \<Rightarrow> True | _ \<Rightarrow> False)"

lemmas pc_kinds = is_idle_def is_held_def is_stopping_def

lemma tally_move:
  assumes "t \<in> set (pl_threads p)" "pl_threads p' = pl_threads p" "pl_pc p' = (pl_pc p)(t := c)"
  shows "tally f p' = tally f p - f (pl_pc p t) + f c"
proof -
  let ?A = "set (pl_threads p) - {t}"
  have s: "(\<Sum>u\<in>set (pl_threads p). g u) = g t + (\<Sum>u\<in>?A. g u)" for g :: "nat \<Rightarrow> int"
    using assms(1) by (simp add: sum.remove)
  have "(\<Sum>u\<in>?A. f (pl_pc p' u)) = (\<Sum>u\<in>?A. f (pl_pc p u))"
    by (rule sum.cong) (simp_all add: assms(3))
  then show ?thesis using s[of "\<lambda>u. f (pl_pc p u)"] s[of "\<lambda>u. f (pl_pc p' u)"] assms(2,3) by (simp add: tally_def)
qed

lemma tally_gone:
  assumes "t \<in> set (pl_threads p)" "set (pl_threads p') = set (pl_threads p) - {t}" "pl_pc p' = pl_pc p"
  shows "tally f p' = tally f p - f (pl_pc p t)"
  using assms by (simp add: tally_def sum_diff1)

lemma tally_born:
  assumes "t \<notin> set (pl_threads p)" "set (pl_threads p') = insert t (set (pl_threads p))" "pl_pc p' = (pl_pc p)(t := c)"
  shows "tally f p' = tally f p + f c"
proof -
  have "(\<Sum>u\<in>set (pl_threads p). f (pl_pc p' u)) = (\<Sum>u\<in>set (pl_threads p). f (pl_pc p u))"
    by (rule sum.cong) (use assms(1,3) in auto)
  with assms show ?thesis by (simp add: tally_def)
qed

lemma tally_same: "pl_threads p' = pl_threads p \<Longrightarrow> pl_pc p' = pl_pc p \<Longrightarrow> tally f p' = tally f p"
  by (simp add: tally_def)

lemma tally_exists:
  assumes "tally (\<lambda>c. of_bool (P c)) p > 0"
  shows "\<exists>t\<in>set (pl_threads p). P (pl_pc p t)"
proof (rule ccontr)
  assume "\<not> ?thesis"
  then have "tally (\<lambda>c. of_bool (P c)) p = (\<Sum>t\<in>set (pl_threads p). 0)"
    unfolding tally_def by (intro sum.cong) auto
  with assms show False by simp
qed

lemma tally_misses:
  assumes "distinct (pl_threads p)" "tally (\<lambda>c. of_bool (P c)) p < int (length (pl_threads p))"
  shows "\<exists>t\<in>set (pl_threads p). \<not> P (pl_pc p t)"
proof (rule ccontr)
  assume "\<not> ?thesis"
  then have "tally (\<lambda>c. of_bool (P c)) p = (\<Sum>t\<in>set (pl_threads p). 1)"
    unfolding tally_def by (intro sum.cong) auto
  with assms show False by (simp add: distinct_card)
qed

subsection \<open>The invariant\<close>

definition queued :: "'r pool \<Rightarrow> nat list" where
  "queued p = List.map_filter id (pl_queue p)"

definition job_of :: "pc \<Rightarrow> nat option" where
  "job_of c = (case c of Got x \<Rightarrow> x | Ready j \<Rightarrow> Some j | Run j \<Rightarrow> Some j | Held j \<Rightarrow> Some j | _ \<Rightarrow> None)"

definition unbegun :: "pc \<Rightarrow> bool" where
  "unbegun c = (case c of Got _ \<Rightarrow> True | Ready _ \<Rightarrow> True | _ \<Rightarrow> False)"

definition counts_ok :: "'r pool \<Rightarrow> bool" where
  "counts_ok p \<longleftrightarrow> pl_size p > 0 \<and> distinct (pl_threads p) \<and> (\<forall>t\<in>set (pl_threads p). t < pl_started p) \<and>
     pl_idle p = tally (\<lambda>c. of_bool (is_idle c)) p \<and> pl_waiting p = tally (\<lambda>c. of_bool (is_held c)) p"

definition stop_ok :: "'r pool \<Rightarrow> bool" where
  "stop_ok p \<longleftrightarrow> (\<exists>js k. pl_queue p = map Some js @ replicate k None) \<and>
     (None \<in> set (pl_queue p) \<or> pl_stops p > 0 \<longrightarrow> pl_shutdown p) \<and>
     ((\<exists>t\<in>set (pl_threads p). is_stopping (pl_pc p t)) \<longrightarrow> pl_shutdown p \<and> queued p = [])"

definition served :: "'r pool \<Rightarrow> bool" where
  "served p \<longleftrightarrow> (queued p \<noteq> [] \<longrightarrow> (\<exists>t\<in>set (pl_threads p). \<not> is_held (pl_pc p t)))"

definition jobs_ok :: "'r pool \<Rightarrow> bool" where
  "jobs_ok p \<longleftrightarrow> distinct (queued p) \<and>
     (\<forall>j\<in>set (queued p). j < length (pl_futures p) \<and> pl_futures p ! j \<in> {Pending, Cancelled}) \<and>
     (\<forall>t\<in>set (pl_threads p). \<forall>j. job_of (pl_pc p t) = Some j \<longrightarrow> j \<notin> set (queued p) \<and> j < length (pl_futures p) \<and>
        pl_futures p ! j \<in> (if unbegun (pl_pc p t) then {Pending, Cancelled} else {Busy}) \<and>
        (\<forall>u\<in>set (pl_threads p). job_of (pl_pc p u) = Some j \<longrightarrow> u = t))"


definition pool_ok :: "'r pool \<Rightarrow> bool" where
  "pool_ok p \<longleftrightarrow> counts_ok p \<and> stop_ok p \<and> served p \<and> jobs_ok p"

lemma queued_simps [simp]: "queued (p\<lparr>pl_queue := []\<rparr>) = []"
  "queued (p\<lparr>pl_queue := x # q\<rparr>) = (case x of None \<Rightarrow> [] | Some j \<Rightarrow> [j]) @ queued (p\<lparr>pl_queue := q\<rparr>)"
  "queued (p\<lparr>pl_queue := q @ r\<rparr>) = queued (p\<lparr>pl_queue := q\<rparr>) @ queued (p\<lparr>pl_queue := r\<rparr>)"
  by (simp_all add: queued_def map_filter_simps List.map_filter_def split: option.split)

lemma queued_cong: "pl_queue p = pl_queue q \<Longrightarrow> queued p = queued q"
  by (simp add: queued_def)

lemma queued_mem: "j \<in> set (queued p) \<longleftrightarrow> Some j \<in> set (pl_queue p)"
proof -
  have "Some j \<in> set q \<longleftrightarrow> j \<in> set (List.map_filter id q)" for q
    by (induction q) (auto simp: map_filter_simps split: option.splits)
  then show ?thesis by (simp add: queued_def)
qed

text \<open>Some thread is not held, when no thread is stopping and either one is idle or the count is reached.\<close>

lemma served_by_count:
  assumes "counts_ok p" "allowance p \<le> int (length (pl_threads p))"
  shows "served p"
proof -
  have "pl_waiting p < int (length (pl_threads p))" using assms by (simp add: counts_ok_def allowance_def)
  then show ?thesis
    using tally_misses[of p is_held] assms(1) by (auto simp: counts_ok_def served_def)
qed

lemma served_by_idle:
  assumes "counts_ok p" "pl_idle p \<noteq> 0"
  shows "served p"
proof -
  have "tally (\<lambda>c. of_bool (is_idle c)) p \<ge> 0" by (simp add: tally_def sum_nonneg)
  then have "tally (\<lambda>c. of_bool (is_idle c)) p > 0" using assms by (simp add: counts_ok_def)
  from tally_exists[OF this] show ?thesis by (auto simp: served_def pc_kinds split: pc.splits)
qed

lemma grow_counts: 
  assumes "counts_ok p"
  shows "counts_ok (grow p)"
proof (cases "grow p = p")
  case False
  then have g: "grow p = p\<lparr>pl_started := pl_started p + 1, pl_threads := set_add (pl_started p) (pl_threads p),
            pl_pc := (pl_pc p)(pl_started p := Top)\<rparr>" by (auto simp: grow_def split: if_splits)
  have n: "pl_started p \<notin> set (pl_threads p)" using assms by (auto simp: counts_ok_def)
  have "tally f (grow p) = tally f p + f Top" for f
    by (rule tally_born[OF n]) (simp_all add: g)
  then show ?thesis using assms by (auto simp: counts_ok_def g pc_kinds)
qed (use assms in simp)

lemma grow_served:
  assumes "counts_ok p"
  shows "served (grow p)"
proof (cases "pl_idle p = 0 \<and> int (length (pl_threads p)) < allowance p")
  case True
  then show ?thesis by (auto simp: grow_def served_def is_held_def)
next
  case False
  then have "grow p = p" by (auto simp: grow_def)
  with False assms show ?thesis using served_by_count[of p] served_by_idle[of p] by force
qed

lemma grow_frame [simp]: "pl_queue (grow p) = pl_queue p" "pl_futures (grow p) = pl_futures p"
  "pl_shutdown (grow p) = pl_shutdown p" "pl_stops (grow p) = pl_stops p" "queued (grow p) = queued p"
  by (simp_all add: grow_def queued_def)

lemma grow_pcs:
  "t \<in> set (pl_threads (grow p)) \<Longrightarrow> counts_ok p \<Longrightarrow>
   t \<in> set (pl_threads p) \<and> pl_pc (grow p) t = pl_pc p t \<or> t \<notin> set (pl_threads p) \<and> pl_pc (grow p) t = Top"
  by (auto simp: grow_def counts_ok_def split: if_splits)

lemma grow_stop: "counts_ok p \<Longrightarrow> stop_ok p \<Longrightarrow> stop_ok (grow p)"
  unfolding stop_ok_def by (auto dest!: grow_pcs simp: is_stopping_def)

lemma jobs_okD:
  assumes "jobs_ok p"
  shows "distinct (queued p)"
    "j \<in> set (queued p) \<Longrightarrow> j < length (pl_futures p) \<and> pl_futures p ! j \<in> {Pending, Cancelled}"
    "t \<in> set (pl_threads p) \<Longrightarrow> job_of (pl_pc p t) = Some j \<Longrightarrow> j \<notin> set (queued p)"
    "t \<in> set (pl_threads p) \<Longrightarrow> job_of (pl_pc p t) = Some j \<Longrightarrow> j < length (pl_futures p) \<and>
      pl_futures p ! j \<in> (if unbegun (pl_pc p t) then {Pending, Cancelled} else {Busy})"
    "t \<in> set (pl_threads p) \<Longrightarrow> job_of (pl_pc p t) = Some j \<Longrightarrow> u \<in> set (pl_threads p) \<Longrightarrow>
      job_of (pl_pc p u) = Some j \<Longrightarrow> u = t"
  using assms unfolding jobs_ok_def by blast+

lemma jobs_okI:
  assumes "distinct (queued p)"
    "\<And>j. j \<in> set (queued p) \<Longrightarrow> j < length (pl_futures p) \<and> pl_futures p ! j \<in> {Pending, Cancelled}"
    "\<And>t j. t \<in> set (pl_threads p) \<Longrightarrow> job_of (pl_pc p t) = Some j \<Longrightarrow> j \<notin> set (queued p) \<and> j < length (pl_futures p) \<and>
      pl_futures p ! j \<in> (if unbegun (pl_pc p t) then {Pending, Cancelled} else {Busy})"
    "\<And>t j u. t \<in> set (pl_threads p) \<Longrightarrow> job_of (pl_pc p t) = Some j \<Longrightarrow> u \<in> set (pl_threads p) \<Longrightarrow>
      job_of (pl_pc p u) = Some j \<Longrightarrow> u = t"
  shows "jobs_ok p"
  using assms unfolding jobs_ok_def by blast

text \<open>A change that only adds or moves threads without a job.\<close>

lemma jobs_ok_threads:
  assumes "jobs_ok p" "queued p' = queued p" "pl_futures p' = pl_futures p"
    and same: "\<And>t j. t \<in> set (pl_threads p') \<Longrightarrow> job_of (pl_pc p' t) = Some j \<Longrightarrow>
      t \<in> set (pl_threads p) \<and> job_of (pl_pc p t) = Some j \<and> unbegun (pl_pc p' t) = unbegun (pl_pc p t)"
  shows "jobs_ok p'"
  using assms(1) same unfolding jobs_ok_def assms(2,3) by (simp, blast)

lemma grow_jobs:
  assumes "counts_ok p" "jobs_ok p"
  shows "jobs_ok (grow p)"
proof (rule jobs_ok_threads[OF assms(2)])
  fix t j assume "t \<in> set (pl_threads (grow p))" "job_of (pl_pc (grow p) t) = Some j"
  with grow_pcs[OF this(1) assms(1)]
  show "t \<in> set (pl_threads p) \<and> job_of (pl_pc p t) = Some j \<and> unbegun (pl_pc (grow p) t) = unbegun (pl_pc p t)"
    by (auto simp: job_of_def)
qed simp_all

subsection \<open>Every step keeps it\<close>

lemma counts_move:
  assumes "counts_ok p" "t \<in> set (pl_threads p)" "pl_threads p' = pl_threads p" "pl_pc p' = (pl_pc p)(t := c)"
    "pl_size p' = pl_size p" "pl_started p' = pl_started p"
    "pl_idle p' = pl_idle p - of_bool (is_idle (pl_pc p t)) + of_bool (is_idle c)"
    "pl_waiting p' = pl_waiting p - of_bool (is_held (pl_pc p t)) + of_bool (is_held c)"
  shows "counts_ok p'"
  using assms(1) tally_move[OF assms(2,3,4)] assms(3,5-) by (simp add: counts_ok_def)

lemma counts_gone:
  assumes "counts_ok p" "t \<in> set (pl_threads p)" "\<not> is_idle (pl_pc p t)" "\<not> is_held (pl_pc p t)"
    "p' = p\<lparr>pl_threads := set_discard t (pl_threads p)\<rparr>"
  shows "counts_ok p'" "length (pl_threads p') + 1 = length (pl_threads p)"
proof -
  have "tally f p' = tally f p - f (pl_pc p t)" for f
    by (rule tally_gone[OF assms(2)]) (simp_all add: assms(5))
  with assms show "counts_ok p'" by (auto simp: counts_ok_def)
  have "distinct (pl_threads p)" using assms(1) by (simp add: counts_ok_def)
  then have "length (set_discard t (pl_threads p)) = card (set (pl_threads p) - {t})"
    by (metis distinct_card distinct_set_discard set_set_discard)
  also have "\<dots> + 1 = card (set (pl_threads p))"
    using assms(2) by (metis Suc_eq_plus1 card_Suc_Diff1 List.finite_set)
  finally show "length (pl_threads p') + 1 = length (pl_threads p)"
    using \<open>distinct (pl_threads p)\<close> by (simp add: assms(5) distinct_card)
qed

text \<open>A thread moves within the loop and the queue stays: to a stop only from a stop.\<close>

lemma stop_move:
  assumes "stop_ok p" "t \<in> set (pl_threads p)" "pl_threads p' = pl_threads p" "pl_pc p' = (pl_pc p)(t := c)"
    "is_stopping c \<Longrightarrow> is_stopping (pl_pc p t)" "pl_queue p' = pl_queue p" "pl_shutdown p' = pl_shutdown p" "pl_stops p' = pl_stops p"
  shows "stop_ok p'"
  using assms(1,2,5) unfolding stop_ok_def queued_cong[OF assms(6)] assms(3,4,6,7,8) by auto

lemma served_move: "t \<in> set (pl_threads p') \<Longrightarrow> \<not> is_held (pl_pc p' t) \<Longrightarrow> served p'"
  by (auto simp: served_def)

text \<open>A thread moves and keeps the job it has.\<close>

lemma thread_moves:
  assumes "pool_ok p" "t \<in> set (pl_threads p)" and p': "p' = go_to t c (p\<lparr>pl_idle := i, pl_waiting := w\<rparr>)"
    and i: "i = pl_idle p - of_bool (is_idle (pl_pc p t)) + of_bool (is_idle c)"
    and w: "w = pl_waiting p - of_bool (is_held (pl_pc p t)) + of_bool (is_held c)"
    and c: "is_stopping c \<Longrightarrow> is_stopping (pl_pc p t)" "job_of c = job_of (pl_pc p t)"
      "job_of c \<noteq> None \<Longrightarrow> unbegun c = unbegun (pl_pc p t)"
  shows "counts_ok p'" "stop_ok p'" "jobs_ok p'" "\<not> is_held c \<Longrightarrow> pool_ok p'"
proof -
  have f: "pl_threads p' = pl_threads p" "pl_pc p' = (pl_pc p)(t := c)" by (simp_all add: p' go_to_def)
  show a: "counts_ok p'"
    by (rule counts_move[OF _ assms(2) f]) (use assms(1) i w in \<open>simp_all add: pool_ok_def p' go_to_def\<close>)
  show b: "stop_ok p'"
    by (rule stop_move[OF _ assms(2) f]) (use assms(1) c in \<open>simp_all add: pool_ok_def p' go_to_def\<close>)
  show d: "jobs_ok p'"
  proof (rule jobs_ok_threads[of p])
    fix u j assume "u \<in> set (pl_threads p')" "job_of (pl_pc p' u) = Some j"
    then show "u \<in> set (pl_threads p) \<and> job_of (pl_pc p u) = Some j \<and> unbegun (pl_pc p' u) = unbegun (pl_pc p u)"
      using c(2,3) f by (cases "u = t") auto
  qed (use assms(1) in \<open>simp_all add: pool_ok_def p' go_to_def queued_def\<close>)
  show "pool_ok p'" if "\<not> is_held c"
    using a b d served_move[of t p'] that assms(2) f by (simp add: pool_ok_def)
qed

lemma pool_ok_top:
  assumes "pool_ok p" "t \<in> set (pl_threads p)" "pl_pc p t = Top"
  shows "pool_ok (work_top t p)"
proof (cases "int (length (pl_threads p)) > allowance p")
  case True
  define p' where "p' = p\<lparr>pl_threads := set_discard t (pl_threads p)\<rparr>"
  have c: "counts_ok p'" and n: "length (pl_threads p') + 1 = length (pl_threads p)"
    using counts_gone[OF _ assms(2) _ _ p'_def] assms by (auto simp: pool_ok_def pc_kinds)
  have "served p'" by (rule served_by_count[OF c]) (use n True in \<open>simp add: allowance_def p'_def\<close>)
  moreover have "stop_ok p'" using assms(1) by (auto simp: pool_ok_def stop_ok_def p'_def queued_def)
  moreover have "jobs_ok p'"
    using assms(1) by (intro jobs_ok_threads[of p p']) (auto simp: pool_ok_def p'_def queued_def)
  ultimately show ?thesis using c True by (simp add: pool_ok_def work_top_def p'_def)
next
  case False
  then have "work_top t p = go_to t Get (p\<lparr>pl_idle := pl_idle p + 1, pl_waiting := pl_waiting p\<rparr>)"
    by (simp add: work_top_def)
  from thread_moves(4)[OF assms(1,2) this] show ?thesis by (simp add: assms(3) pc_kinds job_of_def)
qed

lemma pool_ok_got:
  assumes "pool_ok p" "t \<in> set (pl_threads p)" "pl_pc p t = Got x"
  shows "pool_ok (work_got t x p)"
  by (rule thread_moves(4)[OF assms(1,2), where i = "pl_idle p - 1" and w = "pl_waiting p"
      and c = "case x of None \<Rightarrow> Passing | Some j \<Rightarrow> Ready j"])
    (auto simp: assms(3) pc_kinds job_of_def unbegun_def work_got_def split: option.splits)

lemma pool_ok_wait_end:
  assumes "pool_ok p" "t \<in> set (pl_threads p)" "pl_pc p t = Held j"
  shows "pool_ok (wait_end t j p)"
  by (rule thread_moves(4)[OF assms(1,2), where i = "pl_idle p" and w = "pl_waiting p - 1" and c = "Run j"])
    (simp_all add: assms(3) pc_kinds job_of_def unbegun_def wait_end_def)

lemma pool_ok_wait_begin:
  assumes "pool_ok p" "t \<in> set (pl_threads p)" "pl_pc p t = Run j"
  shows "pool_ok (wait_begin t j p)"
proof -
  define p' where "p' = go_to t (Held j) (p\<lparr>pl_idle := pl_idle p, pl_waiting := pl_waiting p + 1\<rparr>)"
  have p': "counts_ok p'" "stop_ok p'" "jobs_ok p'"
    using thread_moves(1,2,3)[OF assms(1,2) p'_def] by (simp_all add: assms(3) pc_kinds job_of_def unbegun_def)
  have w: "wait_begin t j p = (if pl_queue p' \<noteq> [] then grow p' else p')"
    by (simp add: wait_begin_def Let_def p'_def)
  show ?thesis
  proof (cases "pl_queue p' = []")
    case True
    then have "served p'" by (simp add: served_def queued_def map_filter_simps)
    with p' True show ?thesis by (simp add: w pool_ok_def)
  next
    case False
    with p' show ?thesis
      using grow_counts[OF p'(1)] grow_stop[OF p'(1,2)] grow_served[OF p'(1)] grow_jobs[OF p'(1,3)]
      by (simp add: w pool_ok_def)
  qed
qed

lemma stopping_seen:
  assumes "pool_ok p" "t \<in> set (pl_threads p)" "is_stopping (pl_pc p t)"
  shows "pl_shutdown p" "queued p = []"
  using assms unfolding pool_ok_def stop_ok_def by blast+

lemma pool_ok_leave:
  assumes "pool_ok p" "t \<in> set (pl_threads p)" "pl_pc p t = Leaving"
  shows "pool_ok (work_leave t p)"
proof -
  have c: "counts_ok (work_leave t p)"
    using counts_gone(1)[OF _ assms(2) _ _ refl] assms by (auto simp: pool_ok_def pc_kinds work_leave_def)
  have q: "queued (work_leave t p) = []"
    using stopping_seen(2)[OF assms(1,2)] assms(3) by (simp add: work_leave_def is_stopping_def queued_def)
  have "stop_ok p" using assms(1) by (simp add: pool_ok_def)
  then have "stop_ok (work_leave t p)" using q by (auto simp: stop_ok_def work_leave_def)
  moreover have "jobs_ok (work_leave t p)"
    using assms(1) by (intro jobs_ok_threads[of p "work_leave t p"]) (auto simp: pool_ok_def work_leave_def queued_def)
  ultimately show ?thesis using c q by (simp add: pool_ok_def served_def)
qed

text \<open>Another stop in the queue changes no job, once the pool is shut down.\<close>

lemma put_stop:
  assumes "pool_ok p" "pl_shutdown p" "p' = p\<lparr>pl_stops := n, pl_queue := pl_queue p @ [None]\<rparr>"
  shows "pool_ok p'"
proof -
  have q: "queued p' = queued p" by (simp add: assms(3) queued_def List.map_filter_def)
  obtain js k where j: "pl_queue p = map Some js @ replicate k None" using assms(1) by (auto simp: pool_ok_def stop_ok_def)
  have "pl_queue p' = map Some js @ replicate (Suc k) None" by (simp add: assms(3) j replicate_append_same)
  then have "\<exists>js k. pl_queue p' = map Some js @ replicate k None" by blast
  then have "stop_ok p'" using assms(1,2) by (simp add: pool_ok_def stop_ok_def q) (simp add: assms(3))
  moreover have "counts_ok p'" using assms(1,3) by (simp add: pool_ok_def counts_ok_def tally_def)
  moreover have "served p'" using assms(1) by (simp add: pool_ok_def served_def q) (simp add: assms(3))
  moreover have "jobs_ok p'" using assms(1) q by (intro jobs_ok_threads[of p p']) (simp_all add: pool_ok_def assms(3))
  ultimately show ?thesis by (simp add: pool_ok_def)
qed

lemma pool_ok_pass:
  assumes "pool_ok p" "t \<in> set (pl_threads p)" "pl_pc p t = Passing"
  shows "pool_ok (work_pass t p)"
proof -
  define p1 where "p1 = go_to t Leaving (p\<lparr>pl_idle := pl_idle p, pl_waiting := pl_waiting p\<rparr>)"
  have "pool_ok p1" using thread_moves(4)[OF assms(1,2) p1_def] by (simp add: assms(3) pc_kinds job_of_def)
  moreover have "pl_shutdown p1" using stopping_seen(1)[OF assms(1,2)] assms(3) by (simp add: p1_def go_to_def is_stopping_def)
  ultimately show ?thesis
    by (rule put_stop[where n = "pl_stops p"]) (simp add: p1_def work_pass_def go_to_def)
qed

lemma pool_ok_stops:
  assumes "pool_ok p"
  shows "pool_ok (shutdown_begin p)"
proof -
  let ?p = "shutdown_begin p"
  have q: "queued ?p = queued p" and f: "pl_queue ?p = pl_queue p" "pl_threads ?p = pl_threads p" "pl_pc ?p = pl_pc p"
    "pl_futures ?p = pl_futures p" "pl_shutdown ?p"
    by (simp_all add: shutdown_begin_def queued_def)
  have "counts_ok ?p" using assms by (simp add: pool_ok_def counts_ok_def tally_def shutdown_begin_def)
  moreover have "stop_ok ?p" using assms by (simp add: pool_ok_def stop_ok_def q f)
  moreover have "served ?p" using assms by (simp add: pool_ok_def served_def q f)
  moreover have "jobs_ok ?p" using assms by (intro jobs_ok_threads[of p ?p]) (simp_all add: pool_ok_def q f)
  ultimately show ?thesis by (simp add: pool_ok_def)
qed

lemma pool_ok_stopped:
  assumes "pool_ok p" "pl_stops p > 0"
  shows "pool_ok (shutdown_put p)"
proof (rule put_stop[OF assms(1)])
  show "pl_shutdown p" using assms by (simp add: pool_ok_def stop_ok_def)
qed (simp add: shutdown_put_def)

lemma pool_ok_get:
  assumes "pool_ok p" "t \<in> set (pl_threads p)" "pl_pc p t = Get" "work_get t p = Some p'"
  shows "pool_ok p'"
proof -
  obtain x q where q: "pl_queue p = x # q" using assms(4) by (auto simp: work_get_def split: list.splits)
  have p': "p' = go_to t (Got x) (p\<lparr>pl_queue := q\<rparr>)" using assms(4) by (simp add: work_get_def q)
  have f: "pl_threads p' = pl_threads p" "pl_pc p' = (pl_pc p)(t := Got x)" by (simp_all add: p' go_to_def)
  have qd: "queued p = (case x of None \<Rightarrow> [] | Some j \<Rightarrow> [j]) @ queued p'"
    by (simp add: queued_def q p' go_to_def map_filter_simps split: option.split)
  have ok: "counts_ok p" "stop_ok p" "jobs_ok p" using assms(1) by (simp_all add: pool_ok_def)
  have "counts_ok p'"
    by (rule counts_move[OF ok(1) assms(2) f]) (simp_all add: p' go_to_def assms(3) pc_kinds)
  moreover have "served p'" by (rule served_move[of t]) (use assms(2) f in \<open>simp_all add: pc_kinds\<close>)
  moreover have "stop_ok p'"
  proof -
    obtain js k where j: "pl_queue p = map Some js @ replicate k None" using ok(2) by (auto simp: stop_ok_def)
    have s: "(\<exists>js k. pl_queue p' = map Some js @ replicate k None) \<and> (x = None \<longrightarrow> queued p' = [])"
    proof (cases js)
      case Nil
      with j q obtain k' where k: "k = Suc k'" by (cases k) auto
      then have "pl_queue p' = map Some [] @ replicate k' None" using Nil j q by (simp add: p' go_to_def)
      then show ?thesis by (auto simp: queued_def List.map_filter_def)
    next
      case (Cons i js')
      then have "pl_queue p' = map Some js' @ replicate k None" "x = Some i" using j q by (simp_all add: p' go_to_def)
      then show ?thesis by auto
    qed
    have "None \<in> set (pl_queue p) \<or> pl_stops p > 0 \<longrightarrow> pl_shutdown p" using ok(2) by (simp add: stop_ok_def)
    moreover have "(\<exists>u\<in>set (pl_threads p). is_stopping (pl_pc p u)) \<longrightarrow> pl_shutdown p \<and> queued p = []"
      using ok(2) by (simp add: stop_ok_def)
    ultimately show ?thesis using s qd
      by (auto simp: stop_ok_def f q p' go_to_def is_stopping_def[of "Got x"] split: option.splits)
  qed
  moreover have "jobs_ok p'"
  proof (cases x)
    case None
    then show ?thesis using ok(3) qd f by (intro jobs_ok_threads[of p p']) (auto simp: p' go_to_def job_of_def split: if_splits)
  next
    case (Some i)
    then have q2: "queued p = i # queued p'" using qd by simp
    have ft: "pl_futures p' = pl_futures p" by (simp add: p' go_to_def)
    note ok3 = jobs_okD[OF ok(3)]
    have old: "j \<noteq> i" "u \<noteq> t" if "u \<in> set (pl_threads p)" "job_of (pl_pc p u) = Some j" for u j
      using ok3(3)[OF that] that assms(3) q2 by (auto simp: job_of_def)
    have pcs: "job_of (pl_pc p' t) = Some i" "unbegun (pl_pc p' t)" "\<And>u. u \<noteq> t \<Longrightarrow> pl_pc p' u = pl_pc p u"
      by (simp_all add: f(2) Some job_of_def unbegun_def)
    show ?thesis
    proof (rule jobs_okI, unfold ft f(1))
      show "distinct (queued p')" using ok3(1) q2 by simp
    next
      fix j assume "j \<in> set (queued p')"
      then show "j < length (pl_futures p) \<and> pl_futures p ! j \<in> {Pending, Cancelled}"
        using ok3(2)[of j] q2 by simp
    next
      fix u j assume u: "u \<in> set (pl_threads p)" "job_of (pl_pc p' u) = Some j"
      show "j \<notin> set (queued p') \<and> j < length (pl_futures p) \<and>
        pl_futures p ! j \<in> (if unbegun (pl_pc p' u) then {Pending, Cancelled} else {Busy})"
      proof (cases "u = t")
        case True
        then show ?thesis using ok3(1) ok3(2)[of i] u pcs q2 by simp
      next
        case False
        then show ?thesis using ok3(3,4)[OF u(1), of j] u(2) pcs(3)[of u] q2 by simp
      qed
    next
      fix u j v assume u: "u \<in> set (pl_threads p)" "job_of (pl_pc p' u) = Some j"
        and v: "v \<in> set (pl_threads p)" "job_of (pl_pc p' v) = Some j"
      show "v = u"
      proof (cases "u = t \<or> v = t")
        case True
        then show ?thesis using u v old(1) pcs by (metis option.inject)
      next
        case False
        then show ?thesis using ok3(5)[OF u(1) _ v(1)] u v pcs(3) by simp
      qed
    qed
  qed
  ultimately show ?thesis by (simp add: pool_ok_def)
qed

text \<open>A thread changes the future of its own job.\<close>

lemma thread_settles:
  assumes "pool_ok p" "t \<in> set (pl_threads p)" "job_of (pl_pc p t) = Some j"
    and p': "p' = go_to t c (set_future j f p)"
    and kinds: "\<not> is_idle (pl_pc p t)" "\<not> is_held (pl_pc p t)" "\<not> is_idle c" "\<not> is_held c" "\<not> is_stopping c"
    and c: "job_of c = None \<or> job_of c = Some j \<and> \<not> unbegun c \<and> f = Busy"
  shows "pool_ok p'"
proof -
  have ok: "counts_ok p" "stop_ok p" "jobs_ok p" using assms(1) by (simp_all add: pool_ok_def)
  note ok3 = jobs_okD[OF ok(3)]
  have e: "pl_threads p' = pl_threads p" "pl_pc p' = (pl_pc p)(t := c)" "pl_futures p' = (pl_futures p)[j := f]"
    by (simp_all add: p' go_to_def set_future_def)
  have q: "queued p' = queued p" by (simp add: p' go_to_def set_future_def queued_def)
  have "counts_ok p'"
    by (rule counts_move[OF ok(1) assms(2) e(1,2)]) (use kinds in \<open>simp_all add: p' go_to_def set_future_def\<close>)
  moreover have "stop_ok p'"
    by (rule stop_move[OF ok(2) assms(2) e(1,2)]) (use kinds in \<open>simp_all add: p' go_to_def set_future_def\<close>)
  moreover have "served p'" by (rule served_move[of t]) (use assms(2) e kinds in simp_all)
  moreover have "jobs_ok p'"
  proof (rule jobs_okI, unfold q e(1))
    show "distinct (queued p)" by (rule ok3(1))
  next
    fix i assume i: "i \<in> set (queued p)"
    then have "i \<noteq> j" using ok3(3)[OF assms(2,3)] by blast
    then show "i < length (pl_futures p') \<and> pl_futures p' ! i \<in> {Pending, Cancelled}"
      using ok3(2)[OF i] by (simp add: e(3))
  next
    fix u i assume u: "u \<in> set (pl_threads p)" "job_of (pl_pc p' u) = Some i"
    show "i \<notin> set (queued p) \<and> i < length (pl_futures p') \<and>
      pl_futures p' ! i \<in> (if unbegun (pl_pc p' u) then {Pending, Cancelled} else {Busy})"
    proof (cases "u = t")
      case True
      then show ?thesis using ok3(3,4)[OF assms(2,3)] u c by (simp add: e(2,3))
    next
      case False
      then have u2: "job_of (pl_pc p u) = Some i" using u by (simp add: e(2))
      then have "i \<noteq> j" using ok3(5)[OF u(1) u2 assms(2)] assms(3) False by blast
      then show ?thesis using ok3(3,4)[OF u(1) u2] False by (simp add: e(2,3))
    qed
  next
    fix u i v assume u: "u \<in> set (pl_threads p)" "job_of (pl_pc p' u) = Some i"
      and v: "v \<in> set (pl_threads p)" "job_of (pl_pc p' v) = Some i"
    have old: "job_of (pl_pc p w) = Some i" if "job_of (pl_pc p' w) = Some i" for w
      using that c assms(3) by (cases "w = t") (auto simp: e(2))
    show "v = u" by (rule ok3(5)[OF u(1) old[OF u(2)] v(1) old[OF v(2)]])
  qed
  ultimately show ?thesis by (simp add: pool_ok_def)
qed

lemma pool_ok_ready:
  assumes "pool_ok p" "t \<in> set (pl_threads p)" "pl_pc p t = Ready j" "work_begin t j p = Inr p'"
  shows "pool_ok p'"
proof -
  obtain go f where s: "set_running (pl_futures p ! j) = Inr (go, f)" "p' = go_to t (if go then Run j else Top) (set_future j f p)"
    using assms(4) by (auto simp: work_begin_def split: sum.splits)
  then have "go \<Longrightarrow> f = Busy" by (auto simp: set_running_def split: future.splits)
  then show ?thesis
    by (intro thread_settles[OF assms(1,2) _ s(2)]) (auto simp: assms(3) job_of_def pc_kinds unbegun_def)
qed

lemma pool_ok_finish:
  assumes "pool_ok p" "t \<in> set (pl_threads p)" "pl_pc p t = Run j"
  shows "pool_ok (work_finish t j r p)"
  by (rule thread_settles[OF assms(1,2) _ work_finish_def]) (simp_all add: assms(3) job_of_def pc_kinds)

lemma pool_ok_cancel:
  assumes "pool_ok p"
  shows "pool_ok (set_future j (cancel_future (pl_futures p ! j)) p)" (is "pool_ok ?p")
proof -
  have e: "pl_threads ?p = pl_threads p" "pl_pc ?p = pl_pc p" "pl_queue ?p = pl_queue p" "pl_shutdown ?p = pl_shutdown p"
    "pl_stops ?p = pl_stops p" "pl_size ?p = pl_size p" "pl_started ?p = pl_started p" "pl_idle ?p = pl_idle p"
    "pl_waiting ?p = pl_waiting p" "length (pl_futures ?p) = length (pl_futures p)"
    and q: "queued ?p = queued p" by (simp_all add: set_future_def queued_def)
  have f: "pl_futures p ! i \<in> S \<Longrightarrow> S = {Pending, Cancelled} \<or> S = {Busy} \<Longrightarrow> i < length (pl_futures p) \<Longrightarrow> pl_futures ?p ! i \<in> S" for i S
    by (cases "i = j") (auto simp: set_future_def cancel_future_def)
  have ok: "counts_ok p" "stop_ok p" "served p" "jobs_ok p" using assms by (simp_all add: pool_ok_def)
  note ok3 = jobs_okD[OF ok(4)]
  have "counts_ok ?p" using ok(1) tally_same[OF e(1,2)] by (simp add: counts_ok_def e)
  moreover have "stop_ok ?p" using ok(2) by (simp add: stop_ok_def e q)
  moreover have "served ?p" using ok(3) by (simp add: served_def e q)
  moreover have "jobs_ok ?p"
  proof (rule jobs_okI, unfold q e(1,2,10))
    show "distinct (queued p)" by (rule ok3(1))
  next
    fix i assume "i \<in> set (queued p)"
    from ok3(2)[OF this] f[of i] show "i < length (pl_futures p) \<and> pl_futures ?p ! i \<in> {Pending, Cancelled}" by blast
  next
    fix t i assume t: "t \<in> set (pl_threads p)" "job_of (pl_pc p t) = Some i"
    let ?S = "if unbegun (pl_pc p t) then {Pending, Cancelled} else {Busy}"
    have "?S = {Pending, Cancelled} \<or> ?S = {Busy}" by simp
    with ok3(3,4)[OF t] f[of i ?S] show "i \<notin> set (queued p) \<and> i < length (pl_futures p) \<and>
      pl_futures ?p ! i \<in> (if unbegun (pl_pc p t) then {Pending, Cancelled} else {Busy})" by presburger
  next
    fix t i u assume "t \<in> set (pl_threads p)" "job_of (pl_pc p t) = Some i" "u \<in> set (pl_threads p)" "job_of (pl_pc p u) = Some i"
    then show "u = t" by (rule ok3(5))
  qed
  ultimately show ?thesis by (simp add: pool_ok_def)
qed

lemma pool_ok_submit:
  assumes "pool_ok p" "submit p = Inr (j, p')"
  shows "pool_ok p'"
proof -
  define p1 where "p1 = p\<lparr>pl_futures := pl_futures p @ [Pending], pl_queue := pl_queue p @ [Some j]\<rparr>"
  have s: "\<not> pl_shutdown p" "j = length (pl_futures p)" "p' = grow p1"
    using assms(2) by (auto simp: submit_def Let_def p1_def split: if_splits)
  have e: "pl_threads p1 = pl_threads p" "pl_pc p1 = pl_pc p" by (simp_all add: p1_def)
  have q: "queued p1 = queued p @ [j]" by (simp add: p1_def queued_def List.map_filter_def)
  have ok: "counts_ok p" "stop_ok p" "jobs_ok p" using assms(1) by (simp_all add: pool_ok_def)
  note ok3 = jobs_okD[OF ok(3)]
  have "counts_ok p1" using ok(1) tally_same[OF e] by (simp add: counts_ok_def p1_def)
  moreover have "stop_ok p1"
  proof -
    obtain js k where k: "pl_queue p = map Some js @ replicate k None" using ok(2) by (auto simp: stop_ok_def)
    have "None \<notin> set (pl_queue p)" using ok(2) s(1) by (auto simp: stop_ok_def)
    with k have "pl_queue p1 = map Some (js @ [j]) @ replicate 0 None" by (cases k) (auto simp: p1_def)
    then have "\<exists>js k. pl_queue p1 = map Some js @ replicate k None" by blast
    moreover have "\<not> is_stopping (pl_pc p t)" if "t \<in> set (pl_threads p)" for t
      using stopping_seen(1)[OF assms(1) that] s(1) by blast
    moreover have "pl_stops p = 0" using ok(2) s(1) by (auto simp: stop_ok_def)
    ultimately show ?thesis using \<open>None \<notin> set (pl_queue p)\<close> unfolding stop_ok_def e by (simp add: p1_def)
  qed
  moreover have "jobs_ok p1"
  proof (rule jobs_okI, unfold q e)
    show "distinct (queued p @ [j])" using ok3(1,2) s(2) by fastforce
  next
    fix i assume "i \<in> set (queued p @ [j])"
    then show "i < length (pl_futures p1) \<and> pl_futures p1 ! i \<in> {Pending, Cancelled}"
      using ok3(2)[of i] s(2) by (auto simp: p1_def nth_append)
  next
    fix t i assume t: "t \<in> set (pl_threads p)" "job_of (pl_pc p t) = Some i"
    from ok3(3,4)[OF t] s(2) show "i \<notin> set (queued p @ [j]) \<and> i < length (pl_futures p1) \<and>
      pl_futures p1 ! i \<in> (if unbegun (pl_pc p t) then {Pending, Cancelled} else {Busy})" by (simp add: p1_def nth_append)
  next
    fix t i u assume "t \<in> set (pl_threads p)" "job_of (pl_pc p t) = Some i" "u \<in> set (pl_threads p)" "job_of (pl_pc p u) = Some i"
    then show "u = t" by (rule ok3(5))
  qed
  ultimately show ?thesis
    using grow_counts[of p1] grow_stop[of p1] grow_served[of p1] grow_jobs[of p1] by (simp add: s(3) pool_ok_def)
qed

lemma own_step_ok: "own_step p p' \<Longrightarrow> pool_ok p \<Longrightarrow> pool_ok p'"
proof (induction rule: own_step.induct)
  case (pass t p) then show ?case by (rule pool_ok_pass[rotated])
next
  case (leave t p) then show ?case by (rule pool_ok_leave[rotated])
qed (auto intro: pool_ok_top pool_ok_get pool_ok_got pool_ok_ready pool_ok_finish)

lemma pool_step_ok: "pool_step p p' \<Longrightarrow> pool_ok p \<Longrightarrow> pool_ok p'"
  by (induction rule: pool_step.induct)
    (auto intro: own_step_ok pool_ok_submit pool_ok_cancel pool_ok_wait_begin pool_ok_wait_end pool_ok_stops pool_ok_stopped)

lemma reached_pool_ok:
  assumes "pool_reached n p" "n > 0"
  shows "pool_ok p"
  using assms(1)
proof (induction rule: pool_reached.induct)
  case new
  have "stop_ok (new_pool n)" by (simp add: stop_ok_def new_pool_def queued_def List.map_filter_def)
  then show ?case using assms(2)
    by (simp add: pool_ok_def counts_ok_def served_def jobs_ok_def new_pool_def tally_def queued_def List.map_filter_def)
qed (rule pool_step_ok)

subsection \<open>A queued job gets its turn\<close>

definition in_hand :: "nat \<Rightarrow> 'r pool \<Rightarrow> bool" where
  "in_hand j p \<longleftrightarrow> j \<in> set (queued p) \<or>
     (\<exists>t\<in>set (pl_threads p). pl_pc p t = Got (Some j) \<or> pl_pc p t = Ready j \<or> pl_pc p t = Run j)"

fun rank :: "pc \<Rightarrow> nat" where
  "rank (Got _) = 6" | "rank (Ready _) = 5" | "rank (Run _) = 4" | "rank Top = 3" | "rank Get = 2" | "rank _ = 0"

definition work_left :: "'r pool \<Rightarrow> nat" where
  "work_left p = 5 * length (pl_queue p) + (\<Sum>t\<in>set (pl_threads p). rank (pl_pc p t))"

lemma work_left_tally: "int (work_left p) = 5 * int (length (pl_queue p)) + tally (\<lambda>c. int (rank c)) p"
  by (simp add: work_left_def tally_def)

lemma less_work:
  assumes "t \<in> set (pl_threads p)" "pl_threads p' = pl_threads p" "pl_pc p' = (pl_pc p)(t := c)"
    "int (rank c) + 5 * int (length (pl_queue p')) < int (rank (pl_pc p t)) + 5 * int (length (pl_queue p))"
  shows "work_left p' < work_left p"
  using tally_move[OF assms(1-3), of "\<lambda>c. int (rank c)"] assms(4) work_left_tally[of p] work_left_tally[of p'] by linarith

text \<open>A job that is in hand is settled or still in hand after some step that leaves less work.\<close>

definition nearer :: "nat \<Rightarrow> 'r pool \<Rightarrow> bool" where
  "nearer j p \<longleftrightarrow> (\<exists>p'. own_step p p' \<and> (is_settled (pl_futures p' ! j) \<and> j < length (pl_futures p') \<or> in_hand j p' \<and> work_left p' < work_left p))"

lemma nearerI: "own_step p p' \<Longrightarrow> in_hand j p' \<Longrightarrow> work_left p' < work_left p \<Longrightarrow> nearer j p"
  by (auto simp: nearer_def)

lemma in_hand_move:
  assumes "in_hand j p" "pl_threads p' = pl_threads p" "pl_pc p' = (pl_pc p)(t := c)" "queued p' = queued p"
    "pl_pc p t \<in> {Got (Some j), Ready j, Run j} \<Longrightarrow> c \<in> {Got (Some j), Ready j, Run j}"
  shows "in_hand j p'"
proof -
  have "pl_pc p' u \<in> {Got (Some j), Ready j, Run j}" if "pl_pc p u \<in> {Got (Some j), Ready j, Run j}" for u
    using that assms(3,5) by (cases "u = t") simp_all
  then show ?thesis using assms(1,2,4) unfolding in_hand_def by (metis insertCI insertE singletonD)
qed

lemma nearer_top:
  assumes "t \<in> set (pl_threads p)" "pl_pc p t = Top" "in_hand j p"
  shows "nearer j p"
proof (rule nearerI[OF own_step.top[OF assms(1,2)]])
  show "in_hand j (work_top t p)"
  proof (cases "int (length (pl_threads p)) > allowance p")
    case True
    then show ?thesis using assms by (auto simp: work_top_def in_hand_def queued_def)
  next
    case False
    then have w: "work_top t p = go_to t Get (p\<lparr>pl_idle := pl_idle p + 1\<rparr>)" by (simp add: work_top_def)
    show ?thesis unfolding w
      by (rule in_hand_move[OF assms(3), where c = Get and t = t]) (use assms(2) in \<open>auto simp: go_to_def queued_def\<close>)
  qed
  show "work_left (work_top t p) < work_left p"
  proof (cases "int (length (pl_threads p)) > allowance p")
    case True
    define p' where "p' = p\<lparr>pl_threads := set_discard t (pl_threads p)\<rparr>"
    have "tally (\<lambda>c. int (rank c)) p' = tally (\<lambda>c. int (rank c)) p - int (rank Top)"
      using tally_gone[OF assms(1), of p'] assms(2) by (simp add: p'_def)
    then have "work_left p' < work_left p" using work_left_tally[of p] work_left_tally[of p'] by (simp add: p'_def)
    then show ?thesis using True by (simp add: work_top_def p'_def)
  next
    case False
    then show ?thesis
      by (intro less_work[OF assms(1), where c = Get]) (simp_all add: work_top_def go_to_def assms(2))
  qed
qed

lemma nearer_get:
  assumes "t \<in> set (pl_threads p)" "pl_pc p t = Get" "j \<in> set (queued p)"
  shows "nearer j p"
proof -
  obtain x q where q: "pl_queue p = x # q" using assms(3) by (cases "pl_queue p") (auto simp: queued_def List.map_filter_def)
  have w: "work_get t p = Some (go_to t (Got x) (p\<lparr>pl_queue := q\<rparr>))" (is "_ = Some ?p") by (simp add: work_get_def q)
  show ?thesis
  proof (rule nearerI[OF own_step.get[OF assms(1,2) w]])
    show "in_hand j ?p"
      using assms(1,3) q by (auto simp: in_hand_def queued_mem go_to_def)
    show "work_left ?p < work_left p"
      by (rule less_work[OF assms(1), where c = "Got x"]) (simp_all add: go_to_def q assms(2))
  qed
qed

lemma nearer_got:
  assumes "t \<in> set (pl_threads p)" "pl_pc p t = Got x" "in_hand j p"
  shows "nearer j p"
proof (rule nearerI[OF own_step.got[OF assms(1,2)]])
  have e: "pl_threads (work_got t x p) = pl_threads p" "pl_queue (work_got t x p) = pl_queue p"
    "pl_pc (work_got t x p) = (pl_pc p)(t := case x of None \<Rightarrow> Passing | Some j \<Rightarrow> Ready j)"
    by (simp_all add: work_got_def go_to_def)
  show "in_hand j (work_got t x p)"
    by (rule in_hand_move[OF assms(3) e(1,3)]) (use e(2) assms(2) in \<open>auto simp: queued_def\<close>)
  show "work_left (work_got t x p) < work_left p"
    by (rule less_work[OF assms(1) e(1,3)]) (use assms(2) e(2) in \<open>simp split: option.split\<close>)
qed

lemma nearer_ready:
  assumes "pool_ok p" "t \<in> set (pl_threads p)" "pl_pc p t = Ready i" "in_hand j p"
  shows "nearer j p"
proof -
  have i: "i < length (pl_futures p)" "pl_futures p ! i \<in> {Pending, Cancelled}"
    using jobs_okD(4)[of p t i] assms(1-3) by (auto simp: pool_ok_def job_of_def unbegun_def)
  obtain go f where s: "set_running (pl_futures p ! i) = Inr (go, f)" "\<not> go \<Longrightarrow> f = Cancelled"
  proof (cases "pl_futures p ! i = Pending")
    case True
    then show ?thesis using that[of True Busy] by (simp add: set_running_def)
  next
    case False
    then show ?thesis using i(2) that[of False Cancelled] by (simp add: set_running_def)
  qed
  define p' where "p' = go_to t (if go then Run i else Top) (set_future i f p)"
  have w: "own_step p p'"
    by (rule own_step.ready[OF assms(2,3)]) (simp add: work_begin_def s(1) p'_def)
  have e: "pl_threads p' = pl_threads p" "pl_pc p' = (pl_pc p)(t := if go then Run i else Top)" "pl_queue p' = pl_queue p"
    "pl_futures p' = (pl_futures p)[i := f]"
    by (simp_all add: p'_def go_to_def set_future_def)
  show ?thesis
  proof (cases "i = j \<and> \<not> go")
    case True
    with w s(2) e(4) i(1) show ?thesis by (auto simp: nearer_def is_settled_def)
  next
    case False
    show ?thesis
    proof (rule nearerI[OF w])
      show "in_hand j p'"
        by (rule in_hand_move[OF assms(4) e(1,2) queued_cong[OF e(3)]]) (use False assms(3) in auto)
      show "work_left p' < work_left p" by (rule less_work[OF assms(2) e(1,2)]) (simp add: assms(3) e(3))
    qed
  qed
qed

lemma nearer_run:
  assumes "pool_ok p" "t \<in> set (pl_threads p)" "pl_pc p t = Run i" "in_hand j p"
  shows "nearer j p"
proof -
  have i: "i < length (pl_futures p)"
    using jobs_okD(4)[of p t i] assms(1-3) by (auto simp: pool_ok_def job_of_def)
  define p' where "p' = work_finish t i (Inl RuntimeError) p"
  have w: "own_step p p'" unfolding p'_def by (rule own_step.finish[OF assms(2,3)])
  have e: "pl_threads p' = pl_threads p" "pl_pc p' = (pl_pc p)(t := Top)" "pl_queue p' = pl_queue p"
    "pl_futures p' = (pl_futures p)[i := Settled (Inl RuntimeError)]"
    by (simp_all add: p'_def work_finish_def go_to_def set_future_def)
  show ?thesis
  proof (cases "i = j")
    case True
    with w e(4) i show ?thesis by (auto simp: nearer_def is_settled_def)
  next
    case False
    show ?thesis
    proof (rule nearerI[OF w])
      show "in_hand j p'"
        by (rule in_hand_move[OF assms(4) e(1,2) queued_cong[OF e(3)]]) (use False assms(3) in auto)
      show "work_left p' < work_left p" by (rule less_work[OF assms(2) e(1,2)]) (simp add: assms(3) e(3))
    qed
  qed
qed

lemma nearer_in_hand:
  assumes "pool_ok p" "in_hand j p"
  shows "nearer j p"
proof -
  have "\<exists>t\<in>set (pl_threads p). \<not> is_held (pl_pc p t) \<and> (j \<in> set (queued p) \<or> pl_pc p t \<noteq> Get) \<and> \<not> (is_stopping (pl_pc p t))"
  proof (cases "j \<in> set (queued p)")
    case True
    then obtain t where t: "t \<in> set (pl_threads p)" "\<not> is_held (pl_pc p t)"
      using assms(1) by (auto simp: pool_ok_def served_def)
    have "\<not> is_stopping (pl_pc p t)" using stopping_seen(2)[OF assms(1) t(1)] True by auto
    with t True show ?thesis by blast
  next
    case False
    then obtain t where t: "t \<in> set (pl_threads p)" "pl_pc p t = Got (Some j) \<or> pl_pc p t = Ready j \<or> pl_pc p t = Run j"
      using assms(2) by (auto simp: in_hand_def)
    from t(2) have "\<not> is_held (pl_pc p t) \<and> pl_pc p t \<noteq> Get \<and> \<not> is_stopping (pl_pc p t)" by (auto simp: pc_kinds)
    with t(1) show ?thesis by blast
  qed
  then obtain t where t: "t \<in> set (pl_threads p)" "\<not> is_held (pl_pc p t)" "\<not> is_stopping (pl_pc p t)"
    "j \<in> set (queued p) \<or> pl_pc p t \<noteq> Get" by blast
  show ?thesis
  proof (cases "pl_pc p t")
    case Top then show ?thesis using nearer_top t assms by blast
  next
    case Get then show ?thesis using nearer_get t by blast
  next
    case Got then show ?thesis using nearer_got t assms by blast
  next
    case Ready then show ?thesis using nearer_ready t assms by blast
  next
    case Run then show ?thesis using nearer_run t assms by blast
  qed (use t in \<open>simp_all add: pc_kinds\<close>)
qed

lemma in_hand_served:
  "pool_ok p \<Longrightarrow> in_hand j p \<Longrightarrow> \<exists>p'. own_step\<^sup>*\<^sup>* p p' \<and> j < length (pl_futures p') \<and> is_settled (pl_futures p' ! j)"
proof (induction "work_left p" arbitrary: p rule: less_induct)
  case less
  obtain p' where p': "own_step p p'"
    "is_settled (pl_futures p' ! j) \<and> j < length (pl_futures p') \<or> in_hand j p' \<and> work_left p' < work_left p"
    using nearer_in_hand[OF less.prems] by (auto simp: nearer_def)
  show ?case
  proof (cases "is_settled (pl_futures p' ! j) \<and> j < length (pl_futures p')")
    case True
    with p'(1) show ?thesis by blast
  next
    case False
    with p' obtain p2 where "own_step\<^sup>*\<^sup>* p' p2" "j < length (pl_futures p2)" "is_settled (pl_futures p2 ! j)"
      using less.hyps[of p'] own_step_ok[OF p'(1) less.prems(1)] by blast
    with p'(1) show ?thesis by (meson converse_rtranclp_into_rtranclp)
  qed
qed

subsection \<open>No job is lost\<close>

definition job_at :: "nat \<Rightarrow> 'r pool \<Rightarrow> bool" where
  "job_at j p \<longleftrightarrow> j \<in> set (queued p) \<or> (\<exists>t\<in>set (pl_threads p). job_of (pl_pc p t) = Some j)"

definition accounted :: "'r pool \<Rightarrow> bool" where
  "accounted p \<longleftrightarrow> (\<forall>j<length (pl_futures p). is_settled (pl_futures p ! j) \<or> job_at j p)"

lemma job_at_cases: "job_at j p \<Longrightarrow> in_hand j p \<or> (\<exists>t\<in>set (pl_threads p). pl_pc p t = Held j)"
proof -
  have c: "job_of c = Some j \<longleftrightarrow> c = Got (Some j) \<or> c = Ready j \<or> c = Run j \<or> c = Held j" for c
    by (cases c) (auto simp: job_of_def)
  assume "job_at j p"
  then show ?thesis unfolding job_at_def in_hand_def c by blast
qed

lemma accounted_keep:
  assumes "accounted p" "length (pl_futures p') = length (pl_futures p)"
    "\<And>j. j < length (pl_futures p) \<Longrightarrow> is_settled (pl_futures p ! j) \<Longrightarrow> is_settled (pl_futures p' ! j)"
    "\<And>j. job_at j p \<Longrightarrow> j < length (pl_futures p) \<Longrightarrow> job_at j p' \<or> is_settled (pl_futures p' ! j)"
  shows "accounted p'"
  using assms unfolding accounted_def by metis

lemma job_at_move:
  assumes "job_at j p" "pl_threads p' = pl_threads p" "pl_pc p' = (pl_pc p)(t := c)"
    "set (queued p) \<subseteq> set (queued p')" "job_of (pl_pc p t) = Some j \<Longrightarrow> job_of c = Some j"
  shows "job_at j p'"
proof -
  have "job_of (pl_pc p' u) = Some j" if "job_of (pl_pc p u) = Some j" for u
    using that assms(3,5) by (cases "u = t") auto
  then show ?thesis using assms(1,2,4) unfolding job_at_def by (metis subsetD)
qed

lemma job_at_gone:
  "job_at j p \<Longrightarrow> job_of (pl_pc p t) = None \<Longrightarrow> job_at j (p\<lparr>pl_threads := set_discard t (pl_threads p)\<rparr>)"
  unfolding job_at_def queued_def by (auto simp: Bex_def)

lemma job_at_grow:
  assumes "counts_ok p" "job_at j p"
  shows "job_at j (grow p)"
proof -
  have "\<forall>t\<in>set (pl_threads p). t \<noteq> pl_started p" using assms(1) by (auto simp: counts_ok_def)
  then show ?thesis using assms(2) by (auto simp: job_at_def grow_def queued_def)
qed

lemma own_step_accounted: "own_step p p' \<Longrightarrow> pool_ok p \<Longrightarrow> accounted p \<Longrightarrow> accounted p'"
proof (induction rule: own_step.induct)
  case (top t p)
  show ?case
  proof (rule accounted_keep[OF top.prems(2)])
    fix j assume "job_at j p"
    then show "job_at j (work_top t p) \<or> is_settled (pl_futures (work_top t p) ! j)"
      using job_at_gone[of j p t] job_at_move[of j p "work_top t p" t Get] top.hyps
      by (cases "int (length (pl_threads p)) > allowance p") (simp_all add: work_top_def go_to_def job_of_def queued_def)
  qed (simp_all add: work_top_def go_to_def)
next
  case (get t p p')
  obtain x q where q: "pl_queue p = x # q" "p' = go_to t (Got x) (p\<lparr>pl_queue := q\<rparr>)"
    using get.hyps(3) by (auto simp: work_get_def split: list.splits)
  show ?case
  proof (rule accounted_keep[OF get.prems(2)])
    fix j assume j: "job_at j p"
    show "job_at j p' \<or> is_settled (pl_futures p' ! j)"
    proof (cases "j \<in> set (queued p)")
      case True
      then show ?thesis using get.hyps(1) by (auto simp: job_at_def queued_mem q go_to_def job_of_def)
    next
      case False
      then obtain u where u: "u \<in> set (pl_threads p)" "job_of (pl_pc p u) = Some j" using j by (auto simp: job_at_def)
      then have "u \<noteq> t" using get.hyps(2) by (auto simp: job_of_def)
      with u show ?thesis by (auto simp: job_at_def q go_to_def intro!: bexI[of _ u])
    qed
  qed (simp_all add: q go_to_def)
next
  case (got t p x)
  show ?case
  proof (rule accounted_keep[OF got.prems(2)])
    fix j assume "job_at j p"
    then show "job_at j (work_got t x p) \<or> is_settled (pl_futures (work_got t x p) ! j)"
      using job_at_move[of j p "work_got t x p" t "case x of None \<Rightarrow> Passing | Some j \<Rightarrow> Ready j"] got.hyps
      by (simp add: work_got_def go_to_def job_of_def queued_def split: option.splits)
  qed (simp_all add: work_got_def go_to_def)
next
  case (ready t p i p')
  obtain go f where s: "set_running (pl_futures p ! i) = Inr (go, f)" "p' = go_to t (if go then Run i else Top) (set_future i f p)"
    using ready.hyps(3) by (auto simp: work_begin_def split: sum.splits)
  have f: "\<not> go \<Longrightarrow> is_settled f" "\<not> is_settled (pl_futures p ! i) \<or> is_settled f"
    using s(1) by (auto simp: set_running_def is_settled_def split: future.splits)
  show ?case
  proof (rule accounted_keep[OF ready.prems(2)])
    fix j assume j: "job_at j p" "j < length (pl_futures p)"
    show "job_at j p' \<or> is_settled (pl_futures p' ! j)"
    proof (cases "i = j \<and> \<not> go")
      case True
      then show ?thesis using f j(2) by (simp add: s(2) go_to_def set_future_def)
    next
      case False
      then have "job_at j p'"
        by (intro job_at_move[OF j(1), of p' t "if go then Run i else Top"])
          (use ready.hyps(2) in \<open>auto simp: s(2) go_to_def set_future_def queued_def job_of_def\<close>)
      then show ?thesis ..
    qed
  next
    fix j assume "j < length (pl_futures p)" "is_settled (pl_futures p ! j)"
    then show "is_settled (pl_futures p' ! j)" using f(2) by (cases "i = j") (auto simp: s(2) go_to_def set_future_def)
  qed (simp_all add: s(2) go_to_def set_future_def)
next
  case (finish t p i r)
  let ?p = "work_finish t i r p"
  have e: "pl_futures ?p = (pl_futures p)[i := Settled r]" "pl_threads ?p = pl_threads p" "pl_pc ?p = (pl_pc p)(t := Top)"
    "queued ?p = queued p"
    by (simp_all add: work_finish_def go_to_def set_future_def queued_def)
  show ?case
  proof (rule accounted_keep[OF finish.prems(2)])
    fix j assume j: "job_at j p" "j < length (pl_futures p)"
    show "job_at j ?p \<or> is_settled (pl_futures ?p ! j)"
    proof (cases "i = j")
      case True
      then have "is_settled (pl_futures ?p ! j)" using j(2) e(1) by (simp add: is_settled_def)
      then show ?thesis ..
    next
      case False
      then have "job_at j ?p"
        by (intro job_at_move[OF j(1) e(2,3)]) (use finish.hyps(2) in \<open>auto simp: e(4) job_of_def\<close>)
      then show ?thesis ..
    qed
  next
    fix j assume "j < length (pl_futures p)" "is_settled (pl_futures p ! j)"
    then show "is_settled (pl_futures ?p ! j)" using e(1) by (cases "i = j") (simp_all add: is_settled_def)
  qed (simp add: e(1))
next
  case (pass t p)
  have "job_at j (work_pass t p)" if "job_at j p" for j
    by (rule job_at_move[OF that, where c = Leaving and t = t])
      (use pass.hyps in \<open>auto simp: work_pass_def go_to_def job_of_def queued_mem\<close>)
  then show ?case by (intro accounted_keep[OF pass.prems(2)]) (simp_all add: work_pass_def go_to_def)
next
  case (leave t p)
  have "job_at j (work_leave t p)" if "job_at j p" for j
    using job_at_gone[OF that, of t] leave.hyps by (simp add: job_of_def work_leave_def)
  then show ?case by (intro accounted_keep[OF leave.prems(2)]) (simp_all add: work_leave_def)
qed

lemma pool_step_accounted: "pool_step p p' \<Longrightarrow> pool_ok p \<Longrightarrow> accounted p \<Longrightarrow> accounted p'"
proof (induction rule: pool_step.induct)
  case (own p p')
  then show ?case by (rule own_step_accounted)
next
  case (submitted p j p')
  define p1 where "p1 = p\<lparr>pl_futures := pl_futures p @ [Pending], pl_queue := pl_queue p @ [Some j]\<rparr>"
  have s: "j = length (pl_futures p)" "p' = grow p1"
    using submitted.hyps by (auto simp: submit_def Let_def p1_def split: if_splits)
  have c: "counts_ok p1"
    using submitted.prems(1) tally_same[of p1 p] by (simp add: pool_ok_def counts_ok_def p1_def)
  have "job_at i p1" if "job_at i p \<or> i = j" for i
    using that by (auto simp: job_at_def queued_mem p1_def)
  then have "job_at i p'" if "job_at i p \<or> i = j" for i
    using that job_at_grow[OF c] by (simp add: s(2))
  then show ?case using submitted.prems(2)
    by (auto simp: accounted_def s p1_def nth_append less_Suc_eq)
next
  case (cancelled j p)
  let ?p = "set_future j (cancel_future (pl_futures p ! j)) p"
  have "is_settled (cancel_future f)" if "is_settled f" for f :: "'a future"
    using that by (simp add: cancel_future_def is_settled_def split: future.splits)
  moreover have "is_settled (pl_futures ?p ! i)" if "is_settled (pl_futures p ! i)" "is_settled (cancel_future (pl_futures p ! i))" for i
    using that cancelled.hyps by (cases "i = j") (simp_all add: set_future_def)
  moreover have "job_at i ?p = job_at i p" for i by (simp add: job_at_def queued_def set_future_def)
  ultimately show ?case by (intro accounted_keep[OF cancelled.prems(2)]) (simp_all add: set_future_def)
next
  case (waits t p j)
  define p1 where "p1 = go_to t (Held j) (p\<lparr>pl_idle := pl_idle p, pl_waiting := pl_waiting p + 1\<rparr>)"
  have c: "counts_ok p1"
    using thread_moves(1)[OF waits.prems(1) waits.hyps(1) p1_def] waits.hyps(2)
    by (simp add: pc_kinds job_of_def unbegun_def)
  have w: "wait_begin t j p = (if pl_queue p1 \<noteq> [] then grow p1 else p1)"
    by (simp add: wait_begin_def Let_def p1_def)
  have "job_at i p1" if "job_at i p" for i
    by (rule job_at_move[OF that, where c = "Held j" and t = t])
      (use waits.hyps in \<open>auto simp: p1_def go_to_def job_of_def queued_def\<close>)
  then have "job_at i (wait_begin t j p)" if "job_at i p" for i using that job_at_grow[OF c] by (simp add: w)
  then show ?case by (intro accounted_keep[OF waits.prems(2)]) (simp_all add: w, simp_all add: p1_def go_to_def)
next
  case (waited t p j)
  have "job_at i (wait_end t j p)" if "job_at i p" for i
    by (rule job_at_move[OF that, where c = "Run j" and t = t])
      (use waited.hyps in \<open>auto simp: wait_end_def go_to_def job_of_def queued_def\<close>)
  then show ?case by (intro accounted_keep[OF waited.prems(2)]) (simp_all add: wait_end_def go_to_def)
next
  case (stops p)
  show ?case by (intro accounted_keep[OF stops.prems(2)]) (simp_all add: shutdown_begin_def job_at_def queued_def)
next
  case (stopped p)
  have "job_at i (shutdown_put p)" if "job_at i p" for i
    using that by (auto simp: shutdown_put_def job_at_def queued_mem)
  then show ?case by (intro accounted_keep[OF stopped.prems(2)]) (simp_all add: shutdown_put_def)
qed

lemma reached_accounted:
  assumes "pool_reached n p" "n > 0"
  shows "accounted p"
  using assms(1)
proof (induction rule: pool_reached.induct)
  case (step p p')
  then show ?case using pool_step_accounted reached_pool_ok assms(2) by blast
qed (simp add: accounted_def new_pool_def)

subsection \<open>The property\<close>

text \<open>C18. No job given to the shared pool is lost, and hooks that are never answered do not stop it. In any
  state the clients, the hooks, cancels and shutdowns can bring the pool to, a job is either settled (it has
  its result or was cancelled), or runs on a thread that waits for a hook, or can be brought to its end by
  steps of the pool's own threads alone, with no wait ending. The size is the code's: at least 1.\<close>

theorem pool_serves:
  assumes "pool_reached n p" "n > 0" "j < length (pl_futures p)"
  shows "is_settled (pl_futures p ! j) \<or> (\<exists>t\<in>set (pl_threads p). pl_pc p t = Held j) \<or>
    (\<exists>p'. own_step\<^sup>*\<^sup>* p p' \<and> is_settled (pl_futures p' ! j))"
proof -
  have "is_settled (pl_futures p ! j) \<or> job_at j p"
    using reached_accounted[OF assms(1,2)] assms(3) by (auto simp: accounted_def)
  then show ?thesis
    using job_at_cases in_hand_served[OF reached_pool_ok[OF assms(1,2)]] by blast
qed

text \<open>One thread, held by the hook of job 0, and job 1 submitted meanwhile: the pool starts a thread for it.\<close>

lemma held_reached: "\<exists>p. pool_reached 1 p \<and> pl_pc p 0 = Held 0 \<and> 0 \<in> set (pl_threads p) \<and>
  \<not> is_settled (pl_futures p ! 0 :: unit future) \<and> length (pl_futures p) = 1 \<and> \<not> pl_shutdown p"
proof -
  obtain p1 :: "unit pool" where 1: "submit (new_pool 1) = Inr (0, p1)" "p1 = snd (projr (submit (new_pool 1)))"
    by (simp add: submit_def new_pool_def Let_def)
  define p2 where "p2 = work_top 0 p1"
  define p3 where "p3 = the (work_get 0 p2)"
  define p4 where "p4 = work_got 0 (Some 0) p3"
  define p5 where "p5 = projr (work_begin 0 0 p4)"
  note d = 1(2) p2_def p3_def p4_def p5_def submit_def new_pool_def Let_def grow_def allowance_def set_add_def
    work_top_def go_to_def work_get_def work_got_def work_begin_def set_running_def set_future_def
  have r1: "pool_reached 1 p1" by (rule pool_reached.step[OF pool_reached.new pool_step.submitted[OF 1(1)]])
  have r2: "pool_reached 1 p2" unfolding p2_def
    by (intro pool_reached.step[OF r1] pool_step.own own_step.top) (simp_all add: d)
  have r3: "pool_reached 1 p3"
    by (intro pool_reached.step[OF r2] pool_step.own own_step.get[of 0]) (simp_all add: d)
  have r4: "pool_reached 1 p4" unfolding p4_def
    by (intro pool_reached.step[OF r3] pool_step.own own_step.got) (simp_all add: d)
  have r5: "pool_reached 1 p5"
    by (intro pool_reached.step[OF r4] pool_step.own own_step.ready[of 0 _ 0]) (simp_all add: d)
  have "pool_reached 1 (wait_begin 0 0 p5)"
    by (intro pool_reached.step[OF r5] pool_step.waits) (simp_all add: d)
  then show ?thesis
    by (intro exI[of _ "wait_begin 0 0 p5"] conjI) (simp_all add: d wait_begin_def is_settled_def)
qed

lemma pool_serves_witness:
  "\<exists>p :: unit pool. pool_reached 1 p \<and> 0 \<in> set (pl_threads p) \<and> pl_pc p 0 = Held 0 \<and> 1 < length (pl_futures p) \<and>
     (is_settled (pl_futures p ! 1) \<or> (\<exists>t\<in>set (pl_threads p). pl_pc p t = Held 1) \<or>
      (\<exists>p'. own_step\<^sup>*\<^sup>* p p' \<and> is_settled (pl_futures p' ! 1)))"
proof -
  obtain p where p: "pool_reached 1 p" "pl_pc p 0 = Held 0" "0 \<in> set (pl_threads p)"
    "length (pl_futures p) = 1" "\<not> pl_shutdown (p :: unit pool)" using held_reached by blast
  obtain j p' where s: "submit p = Inr (j, p')" using p(5) by (simp add: submit_def Let_def)
  have r: "pool_reached 1 p'" by (rule pool_reached.step[OF p(1) pool_step.submitted[OF s]])
  have c: "counts_ok p" using reached_pool_ok[OF p(1)] by (simp add: pool_ok_def)
  have l: "length (pl_futures p') = 2" "0 \<in> set (pl_threads p')" "pl_pc p' 0 = Held 0"
    using s p c by (auto simp: submit_def Let_def grow_def counts_ok_def split: if_splits)
  show ?thesis using r l pool_serves[OF r, of 1] by (intro exI[of _ p']) simp
qed

text \<open>The pool does not always use its size. A thread stays counted as idle until it has taken a job, so of two
  submits that find one idle thread neither starts another: the second job then waits for the end of the
  first, with no thread idle and room for three more.\<close>

lemma burst_serialises:
  "\<exists>p :: unit pool. pool_reached 4 p \<and> pl_queue p = [Some 2] \<and> pl_threads p = [0] \<and> pl_pc p 0 = Run 1 \<and>
     pl_idle p = 0 \<and> int (length (pl_threads p)) + 3 = allowance p"
proof -
  let ?submit = "\<lambda>p. snd (projr (submit p))" and ?take = "\<lambda>p. the (work_get 0 p)"
    and ?start = "\<lambda>j p. projr (work_begin 0 j p)"
  define p1 :: "unit pool" where "p1 = ?submit (new_pool 4)"
  define p2 where "p2 = work_top 0 p1"
  define p3 where "p3 = ?take p2"
  define p4 where "p4 = work_got 0 (Some 0) p3"
  define p5 where "p5 = ?start 0 p4"
  define p6 where "p6 = work_finish 0 0 (Inr ()) p5"
  define p7 where "p7 = work_top 0 p6"
  define p8 where "p8 = ?submit p7"
  define p9 where "p9 = ?submit p8"
  define p10 where "p10 = ?take p9"
  define p11 where "p11 = work_got 0 (Some 1) p10"
  define p12 where "p12 = ?start 1 p11"
  note d = p1_def p2_def p3_def p4_def p5_def p6_def p7_def p8_def p9_def p10_def p11_def p12_def submit_def
    new_pool_def Let_def grow_def allowance_def set_add_def work_top_def go_to_def work_get_def work_got_def work_begin_def
    set_running_def set_future_def work_finish_def
  have "pool_reached 4 p1" by (rule pool_reached.step[OF pool_reached.new pool_step.submitted[of _ 0]]) (simp add: d)
  then have "pool_reached 4 p2" unfolding p2_def by (rule pool_reached.step) (intro pool_step.own own_step.top; simp add: d)
  then have "pool_reached 4 p3" by (rule pool_reached.step) (intro pool_step.own own_step.get[of 0]; simp add: d)
  then have "pool_reached 4 p4" unfolding p4_def by (rule pool_reached.step) (intro pool_step.own own_step.got; simp add: d)
  then have "pool_reached 4 p5" by (rule pool_reached.step) (intro pool_step.own own_step.ready[of 0 _ 0]; simp add: d)
  then have "pool_reached 4 p6" unfolding p6_def by (rule pool_reached.step) (intro pool_step.own own_step.finish; simp add: d)
  then have "pool_reached 4 p7" unfolding p7_def by (rule pool_reached.step) (intro pool_step.own own_step.top; simp add: d)
  then have "pool_reached 4 p8" by (rule pool_reached.step) (rule pool_step.submitted[of _ 1]; simp add: d)
  then have "pool_reached 4 p9" by (rule pool_reached.step) (rule pool_step.submitted[of _ 2]; simp add: d)
  then have "pool_reached 4 p10" by (rule pool_reached.step) (intro pool_step.own own_step.get[of 0]; simp add: d)
  then have "pool_reached 4 p11" unfolding p11_def by (rule pool_reached.step) (intro pool_step.own own_step.got; simp add: d)
  then have "pool_reached 4 p12" by (rule pool_reached.step) (intro pool_step.own own_step.ready[of 0 _ 1]; simp add: d)
  then show ?thesis by (intro exI[of _ p12]) (simp add: d)
qed

end
