(* ===== verification/Home.thy ===== *)
theory Home
  imports Pool "HOL-Library.Multiset"
begin

text \<open>
  The dedicated thread of an affine wrapper, class \<open>_Home\<close> of \<open>huggorm_gen/payload/_runtime.py\<close>: one worker
  whose work can also run while the worker waits for a hook. A queue made by \<open>wait\<close> is known by a number and
  keeps its contents in \<open>hm_inboxes\<close>; the worker's call stack holds the jobs it is inside and, between
  them, the waits. What the code does under its lock is one step. The executor underneath is Python's, with one thread: it
  runs what was queued before it was shut down, unless that is cancelled, and takes nothing after. \<open>hm_dropped\<close> lists
  the jobs that were taken and will never be run.
\<close>

datatype frame =
    In nat \<comment> \<open>running a job\<close>
  | Waiting nat "nat option" bool \<comment> \<open>in \<open>wait\<close>: its inbox, the outer one, whether \<open>start\<close> has run\<close>

record home =
  hm_pool :: "nat list"
  hm_inbox :: "nat option"
  hm_inboxes :: "nat \<Rightarrow> nat option list"
  hm_made :: nat
  hm_stack :: "frame list"
  hm_shut :: bool
  hm_dropped :: "nat list"

definition new_home :: home where
  "new_home = \<lparr>hm_pool = [], hm_inbox = None, hm_inboxes = (\<lambda>_. []), hm_made = 0, hm_stack = [], hm_shut = False, hm_dropped = []\<rparr>"

definition put_inbox :: "nat \<Rightarrow> nat option \<Rightarrow> home \<Rightarrow> home" where
  "put_inbox i x h = h\<lparr>hm_inboxes := (hm_inboxes h)(i := hm_inboxes h i @ [x])\<rparr>"

text \<open>A submit to an executor that was shut down raises; an open wait takes work all the same.\<close>

definition home_submit :: "nat \<Rightarrow> home \<Rightarrow> home option" where
  "home_submit j h = (case hm_inbox h of
       None \<Rightarrow> if hm_shut h then None else Some (h\<lparr>hm_pool := hm_pool h @ [j]\<rparr>)
     | Some i \<Rightarrow> Some (put_inbox i (Some j) h))"

definition home_shutdown :: "bool \<Rightarrow> home \<Rightarrow> home" where
  "home_shutdown cancel h = (if cancel then h\<lparr>hm_shut := True, hm_pool := [], hm_dropped := hm_dropped h @ hm_pool h\<rparr> else h\<lparr>hm_shut := True\<rparr>)"

text \<open>The one thread of the executor underneath takes the next job.\<close>

definition home_next :: "home \<Rightarrow> (nat \<times> home) option" where
  "home_next h = (case (hm_stack h, hm_pool h) of ([], j # q) \<Rightarrow> Some (j, h\<lparr>hm_stack := [In j], hm_pool := q\<rparr>) | _ \<Rightarrow> None)"

definition home_return :: "home \<Rightarrow> (nat \<times> home) option" where
  "home_return h = (case hm_stack h of In j # st \<Rightarrow> Some (j, h\<lparr>hm_stack := st\<rparr>) | _ \<Rightarrow> None)"

definition wait_enter :: "home \<Rightarrow> home option" where
  "wait_enter h = (case hm_stack h of In j # st \<Rightarrow> (let i = hm_made h in
     Some (h\<lparr>hm_made := i + 1, hm_inboxes := (hm_inboxes h)(i := []), hm_inbox := Some i,
             hm_stack := Waiting i (hm_inbox h) False # hm_stack h\<rparr>)) | _ \<Rightarrow> None)"

definition wait_started :: "home \<Rightarrow> home option" where
  "wait_started h = (case hm_stack h of Waiting i out False # st \<Rightarrow> Some (h\<lparr>hm_stack := Waiting i out True # st\<rparr>) | _ \<Rightarrow> None)"

text \<open>The callback of the future waited for: the wake goes into the inbox.\<close>

definition wait_wake :: "nat \<Rightarrow> home \<Rightarrow> home" where
  "wait_wake i h = put_inbox i None h"

definition wait_run :: "home \<Rightarrow> (nat \<times> home) option" where
  "wait_run h = (case hm_stack h of Waiting i out True # st \<Rightarrow>
       (case hm_inboxes h i of Some j # q \<Rightarrow>
          Some (j, h\<lparr>hm_inboxes := (hm_inboxes h)(i := q), hm_stack := In j # hm_stack h\<rparr>) | _ \<Rightarrow> None)
     | _ \<Rightarrow> None)"

text \<open>What is left in an inbox goes to the one outside it, or to the executor. When that was shut down its submit raises, and
  the job in hand and those still in the inbox are lost.\<close>

definition jobs_in :: "nat option list \<Rightarrow> nat list" where
  "jobs_in q = List.map_filter id q"

fun hand_over :: "nat option \<Rightarrow> nat option list \<Rightarrow> home \<Rightarrow> home" where
  "hand_over out [] h = h"
| "hand_over out (None # q) h = hand_over out q h"
| "hand_over out (Some j # q) h = (case out of
       Some o' \<Rightarrow> hand_over out q (put_inbox o' (Some j) h)
     | None \<Rightarrow> if hm_shut h then h\<lparr>hm_dropped := hm_dropped h @ j # jobs_in q\<rparr>
               else hand_over out q (h\<lparr>hm_pool := hm_pool h @ [j]\<rparr>))"

definition wait_close :: "nat \<Rightarrow> nat option \<Rightarrow> frame list \<Rightarrow> home \<Rightarrow> home" where
  "wait_close i out st h = hand_over out (hm_inboxes h i) (h\<lparr>hm_inbox := out, hm_inboxes := (hm_inboxes h)(i := []), hm_stack := st\<rparr>)"

text \<open>The loop of \<open>wait\<close> ends at a wake, or \<open>start\<close> raises before it.\<close>

definition wait_leave :: "home \<Rightarrow> home option" where
  "wait_leave h = (case hm_stack h of
       Waiting i out True # st \<Rightarrow> (case hm_inboxes h i of
           None # q \<Rightarrow> Some (wait_close i out st (h\<lparr>hm_inboxes := (hm_inboxes h)(i := q)\<rparr>)) | _ \<Rightarrow> None)
     | Waiting i out False # st \<Rightarrow> Some (wait_close i out st h)
     | _ \<Rightarrow> None)"

subsection \<open>Steps\<close>

datatype act = Submit nat | Refuse nat | Start nat | Return nat | Open | Close | Shutdown bool | Inner

inductive home_step :: "home \<Rightarrow> act \<Rightarrow> home \<Rightarrow> bool" where
  submit: "home_submit j h = Some h' \<Longrightarrow> home_step h (Submit j) h'"
| refuse: "home_submit j h = None \<Longrightarrow> home_step h (Refuse j) h"
| shutdown: "home_step h (Shutdown c) (home_shutdown c h)"
| pool_next: "home_next h = Some (j, h') \<Longrightarrow> home_step h (Start j) h'"
| inbox_next: "wait_run h = Some (j, h') \<Longrightarrow> home_step h (Start j) h'"
| return: "home_return h = Some (j, h') \<Longrightarrow> home_step h (Return j) h'"
| enter: "wait_enter h = Some h' \<Longrightarrow> home_step h Open h'"
| started: "wait_started h = Some h' \<Longrightarrow> home_step h Inner h'"
| wake: "i < hm_made h \<Longrightarrow> home_step h Inner (wait_wake i h)"
| leave: "wait_leave h = Some h' \<Longrightarrow> home_step h Close h'"

inductive home_trace :: "act list \<Rightarrow> home \<Rightarrow> bool" where
  nil: "home_trace [] new_home"
| snoc: "home_trace tr h \<Longrightarrow> home_step h a h' \<Longrightarrow> home_trace (tr @ [a]) h'"

subsection \<open>What a home promises\<close>

text \<open>
  A stack of queues, one for each open wait and one underneath, and the stack of running jobs. Work goes to
  and comes from the innermost queue, in order; closing a wait adds what it still holds to the queue outside. A shutdown
  closes the queue underneath: it takes no more, neither from a submit nor from a wait that closes over it.
\<close>

record queue_levels =
  lv_queues :: "nat list list"
  lv_running :: "nat list"
  lv_shut :: bool
  lv_dropped :: "nat list"

definition new_levels :: queue_levels where
  "new_levels = \<lparr>lv_queues = [[]], lv_running = [], lv_shut = False, lv_dropped = []\<rparr>"

inductive level_step :: "queue_levels \<Rightarrow> act \<Rightarrow> queue_levels \<Rightarrow> bool" where
  submit: "\<not> z \<or> qs \<noteq> [] \<Longrightarrow> level_step \<lparr>lv_queues = q # qs, lv_running = r, lv_shut = z, lv_dropped = d\<rparr> (Submit j)
     \<lparr>lv_queues = (q @ [j]) # qs, lv_running = r, lv_shut = z, lv_dropped = d\<rparr>"
| refuse: "level_step \<lparr>lv_queues = [q], lv_running = r, lv_shut = True, lv_dropped = d\<rparr> (Refuse j)
     \<lparr>lv_queues = [q], lv_running = r, lv_shut = True, lv_dropped = d\<rparr>"
| shutdown: "level_step \<lparr>lv_queues = qs @ [q], lv_running = r, lv_shut = z, lv_dropped = d\<rparr> (Shutdown c)
     \<lparr>lv_queues = qs @ [if c then [] else q], lv_running = r, lv_shut = True, lv_dropped = (if c then d @ q else d)\<rparr>"
| start: "length r = length qs \<Longrightarrow> level_step \<lparr>lv_queues = (j # q) # qs, lv_running = r, lv_shut = z, lv_dropped = d\<rparr> (Start j)
     \<lparr>lv_queues = q # qs, lv_running = j # r, lv_shut = z, lv_dropped = d\<rparr>"
| return: "length r = length qs \<Longrightarrow> level_step \<lparr>lv_queues = q # qs, lv_running = j # r, lv_shut = z, lv_dropped = d\<rparr> (Return j)
     \<lparr>lv_queues = q # qs, lv_running = r, lv_shut = z, lv_dropped = d\<rparr>"
| opened: "length r = length qs \<Longrightarrow> level_step \<lparr>lv_queues = qs, lv_running = r, lv_shut = z, lv_dropped = d\<rparr> Open
     \<lparr>lv_queues = [] # qs, lv_running = r, lv_shut = z, lv_dropped = d\<rparr>"
| close: "length r = Suc (length qs) \<Longrightarrow> \<not> z \<or> qs \<noteq> [] \<Longrightarrow>
     level_step \<lparr>lv_queues = q # q' # qs, lv_running = r, lv_shut = z, lv_dropped = d\<rparr> Close
     \<lparr>lv_queues = (q' @ q) # qs, lv_running = r, lv_shut = z, lv_dropped = d\<rparr>"
| close_shut: "length r = 1 \<Longrightarrow> level_step \<lparr>lv_queues = [q, q'], lv_running = r, lv_shut = True, lv_dropped = d\<rparr> Close
     \<lparr>lv_queues = [q'], lv_running = r, lv_shut = True, lv_dropped = d @ q\<rparr>"

inductive level_trace :: "act list \<Rightarrow> queue_levels \<Rightarrow> bool" where
  nil: "level_trace [] new_levels"
| snoc: "level_trace tr l \<Longrightarrow> level_step l a l' \<Longrightarrow> level_trace (tr @ [a]) l'"

section \<open>The properties of the dedicated thread\<close>

text \<open>
  A home does what \<open>queue_levels\<close> says: its inboxes, the wakes in them and the restoring of the outer inbox amount
  to a stack of queues. Every run of the code is, step by step, a run of the specification.
\<close>

subsection \<open>The view of a home\<close>

lemma jobs_in_simps [simp]: "jobs_in [] = []" "jobs_in (None # q) = jobs_in q" "jobs_in (Some j # q) = j # jobs_in q"
  "jobs_in (p @ q) = jobs_in p @ jobs_in q"
  by (simp_all add: jobs_in_def List.map_filter_def)

fun waits :: "frame list \<Rightarrow> nat list" where
  "waits [] = []" | "waits (In j # st) = waits st" | "waits (Waiting i out b # st) = i # waits st"

fun running :: "frame list \<Rightarrow> nat list" where
  "running [] = []" | "running (In j # st) = j # running st" | "running (Waiting i out b # st) = running st"

definition home_view :: "home \<Rightarrow> queue_levels" where
  "home_view h = \<lparr>lv_queues = map (\<lambda>i. jobs_in (hm_inboxes h i)) (waits (hm_stack h)) @ [hm_pool h], lv_running = running (hm_stack h),
     lv_shut = hm_shut h, lv_dropped = hm_dropped h\<rparr>"

text \<open>The inbox in use is the innermost wait's, each wait keeps the one outside it, and jobs and waits alternate.\<close>

definition top_wait :: "frame list \<Rightarrow> nat option" where
  "top_wait st = (case waits st of [] \<Rightarrow> None | i # _ \<Rightarrow> Some i)"

fun stacked :: "frame list \<Rightarrow> bool" where
  "stacked [] = True"
| "stacked (In j # st) \<longleftrightarrow> stacked st \<and> length (running st) = length (waits st)"
| "stacked (Waiting i out b # st) \<longleftrightarrow> stacked st \<and> length (running st) = Suc (length (waits st)) \<and> out = top_wait st \<and> i \<notin> set (waits st)"

definition home_ok :: "home \<Rightarrow> bool" where
  "home_ok h \<longleftrightarrow> stacked (hm_stack h) \<and> hm_inbox h = top_wait (hm_stack h) \<and> (\<forall>i\<in>set (waits (hm_stack h)). i < hm_made h)"

lemma stacked_running: "stacked st \<Longrightarrow> length (running st) = length (waits st) \<or> length (running st) = Suc (length (waits st))"
  by (cases st rule: stacked.cases) auto

text \<open>The simulation: one step of the code is the step of the specification with the same name, or none.\<close>

definition matches :: "queue_levels \<Rightarrow> act \<Rightarrow> queue_levels \<Rightarrow> bool" where
  "matches l a l' \<longleftrightarrow> (if a = Inner then l' = l else level_step l a l')"

lemma top_wait_simps [simp]: "top_wait [] = None" "top_wait (In j # st) = top_wait st" "top_wait (Waiting i out b # st) = Some i"
  by (simp_all add: top_wait_def)

lemma view_put:
  assumes "top_wait (hm_stack h) = Some i" "stacked (hm_stack h)"
  shows "home_view (put_inbox i x h) = (home_view h)\<lparr>lv_queues := (hd (lv_queues (home_view h)) @ jobs_in [x]) # tl (lv_queues (home_view h))\<rparr>"
proof -
  obtain ws where w: "waits (hm_stack h) = i # ws" using assms(1) by (auto simp: top_wait_def split: list.splits)
  have "distinct (waits st)" if "stacked st" for st using that by (induction st rule: stacked.induct) auto
  then have "i \<notin> set ws" using assms(2) w by fastforce
  then show ?thesis by (auto simp: home_view_def put_inbox_def w)
qed

lemma hand_over_frame: "hm_stack (hand_over out q h) = hm_stack h" "hm_inbox (hand_over out q h) = hm_inbox h"
  "hm_made (hand_over out q h) = hm_made h" "hm_shut (hand_over out q h) = hm_shut h"
  by (induction out q h rule: hand_over.induct) (auto simp: put_inbox_def split: option.splits if_splits)

text \<open>The queue outside takes what is handed over, unless the executor, shut down, loses it.\<close>

definition taken_over :: "queue_levels \<Rightarrow> nat list \<Rightarrow> queue_levels" where
  "taken_over l js = (if lv_shut l \<and> tl (lv_queues l) = [] then l\<lparr>lv_dropped := lv_dropped l @ js\<rparr>
     else l\<lparr>lv_queues := (hd (lv_queues l) @ js) # tl (lv_queues l)\<rparr>)"

lemma view_queues: "lv_queues (home_view h) = hd (lv_queues (home_view h)) # tl (lv_queues (home_view h))"
  by (cases "waits (hm_stack h)") (simp_all add: home_view_def)

lemma base_level: "tl (lv_queues (home_view h)) = [] \<longleftrightarrow> top_wait (hm_stack h) = None"
  by (cases "waits (hm_stack h)") (simp_all add: home_view_def top_wait_def)

lemma taken_over_Nil: "taken_over (home_view h) [] = home_view h"
  using view_queues[of h] by (simp add: taken_over_def)

lemma view_hand_over:
  "stacked (hm_stack h) \<Longrightarrow> out = top_wait (hm_stack h) \<Longrightarrow> home_view (hand_over out q h) = taken_over (home_view h) (jobs_in q)"
proof (induction out q h rule: hand_over.induct)
  case (1 out h)
  then show ?case by (simp add: taken_over_Nil)
next
  case (3 out j q h)
  show ?case
  proof (cases out)
    case None
    then have w: "waits (hm_stack h) = []" using 3 by (auto simp: top_wait_def split: list.splits)
    show ?thesis
    proof (cases "hm_shut h")
      case True
      then show ?thesis using None w by (simp add: home_view_def taken_over_def)
    next
      case False
      then show ?thesis using 3(1)[OF None False] 3(3,4) None w by (simp add: home_view_def taken_over_def)
    qed
  next
    case (Some i)
    have v: "home_view (put_inbox i (Some j) h) = (home_view h)\<lparr>lv_queues := (hd (lv_queues (home_view h)) @ [j]) # tl (lv_queues (home_view h))\<rparr>"
      using view_put[of h i "Some j"] 3(3,4) Some by simp
    have o: "tl (lv_queues (home_view h)) \<noteq> []" using base_level[of h] 3(4) Some by (metis option.distinct(1))
    have "home_view (hand_over out q (put_inbox i (Some j) h)) = taken_over (home_view (put_inbox i (Some j) h)) (jobs_in q)"
      using 3(2)[OF Some] 3(3,4) Some by (simp add: put_inbox_def)
    then show ?thesis using Some o by (simp add: v taken_over_def)
  qed
qed simp

lemma sim_submit:
  assumes ok: "home_ok h" and s: "home_submit j h = Some h'"
  shows "level_step (home_view h) (Submit j) (home_view h') \<and> home_ok h'"
proof -
  let ?l = "home_view h"
  have v: "home_view h' = ?l\<lparr>lv_queues := (hd (lv_queues ?l) @ [j]) # tl (lv_queues ?l)\<rparr> \<and> (\<not> lv_shut ?l \<or> tl (lv_queues ?l) \<noteq> [])"
  proof (cases "hm_inbox h")
    case None
    then have "waits (hm_stack h) = []" using ok by (auto simp: home_ok_def top_wait_def split: list.splits)
    then show ?thesis using None s by (auto simp: home_submit_def home_view_def split: if_splits)
  next
    case (Some i)
    then have t: "top_wait (hm_stack h) = Some i" using ok by (simp add: home_ok_def)
    have "home_view (put_inbox i (Some j) h) = ?l\<lparr>lv_queues := (hd (lv_queues ?l) @ [j]) # tl (lv_queues ?l)\<rparr>"
      using view_put[OF t, of "Some j"] ok by (simp add: home_ok_def)
    then show ?thesis using Some s base_level[of h] t by (simp add: home_submit_def)
  qed
  have "level_step \<lparr>lv_queues = hd (lv_queues ?l) # tl (lv_queues ?l), lv_running = lv_running ?l, lv_shut = lv_shut ?l, lv_dropped = lv_dropped ?l\<rparr> (Submit j)
      \<lparr>lv_queues = (hd (lv_queues ?l) @ [j]) # tl (lv_queues ?l), lv_running = lv_running ?l, lv_shut = lv_shut ?l, lv_dropped = lv_dropped ?l\<rparr>"
    by (rule level_step.submit) (use v in blast)
  then have "level_step ?l (Submit j) (home_view h')" using view_queues[of h] v by (cases ?l) simp
  moreover have "home_ok h'"
    using ok s by (auto simp: home_ok_def home_submit_def put_inbox_def split: option.splits if_splits)
  ultimately show ?thesis ..
qed

lemma sim_refuse:
  assumes "home_ok h" "home_submit j h = None"
  shows "level_step (home_view h) (Refuse j) (home_view h)"
proof -
  have "hm_inbox h = None" "hm_shut h" using assms(2) by (auto simp: home_submit_def split: option.splits if_splits)
  then have "home_view h = \<lparr>lv_queues = [hm_pool h], lv_running = running (hm_stack h), lv_shut = True, lv_dropped = hm_dropped h\<rparr>"
    using assms(1) by (auto simp: home_ok_def home_view_def top_wait_def split: list.splits)
  then show ?thesis by (simp add: level_step.refuse)
qed

lemma sim_shutdown: "home_ok h \<Longrightarrow> level_step (home_view h) (Shutdown c) (home_view (home_shutdown c h)) \<and> home_ok (home_shutdown c h)"
  using level_step.shutdown[of "map (\<lambda>i. jobs_in (hm_inboxes h i)) (waits (hm_stack h))" "hm_pool h" "running (hm_stack h)" "hm_shut h" "hm_dropped h" c]
  by (cases c) (simp_all add: home_view_def home_shutdown_def home_ok_def)

lemma sim_pool_next:
  assumes "home_ok h" "home_next h = Some (j, h')"
  shows "level_step (home_view h) (Start j) (home_view h') \<and> home_ok h'"
proof -
  obtain q where q: "hm_stack h = []" "hm_pool h = j # q" "h' = h\<lparr>hm_stack := [In j], hm_pool := q\<rparr>"
    using assms(2) by (auto simp: home_next_def split: list.splits)
  have "level_step (home_view h) (Start j) (home_view h')"
    using level_step.start[of "[]" "[]" j q "hm_shut h" "hm_dropped h"] q by (simp add: home_view_def)
  then show ?thesis using assms(1) q by (simp add: home_ok_def)
qed

lemma map_inboxes_other:
  "i \<notin> set ws \<Longrightarrow> map (\<lambda>k. jobs_in ((f(i := q)) k)) ws = map (\<lambda>k. jobs_in (f k)) ws"
  by (induction ws) auto

lemma sim_inbox_next:
  assumes "home_ok h" "wait_run h = Some (j, h')"
  shows "level_step (home_view h) (Start j) (home_view h') \<and> home_ok h'"
proof -
  obtain i out st q where q: "hm_stack h = Waiting i out True # st" "hm_inboxes h i = Some j # q"
    "h' = h\<lparr>hm_inboxes := (hm_inboxes h)(i := q), hm_stack := In j # hm_stack h\<rparr>"
    using assms(2) by (auto simp: wait_run_def split: list.splits frame.splits bool.splits option.splits)
  have st: "i \<notin> set (waits st)" "length (running st) = Suc (length (waits st))" using assms(1) q(1) by (simp_all add: home_ok_def)
  let ?qs = "map (\<lambda>k. jobs_in (hm_inboxes h k)) (waits st) @ [hm_pool h]"
  have "home_view h = \<lparr>lv_queues = (j # jobs_in q) # ?qs, lv_running = running st, lv_shut = hm_shut h, lv_dropped = hm_dropped h\<rparr>"
    using q by (simp add: home_view_def)
  moreover have "home_view h' = \<lparr>lv_queues = jobs_in q # ?qs, lv_running = j # running st, lv_shut = hm_shut h, lv_dropped = hm_dropped h\<rparr>"
    using q map_inboxes_other[OF st(1), of "hm_inboxes h" q] by (simp add: home_view_def)
  moreover have "home_ok h'" using assms(1) q st by (simp add: home_ok_def)
  ultimately show ?thesis using level_step.start[of "running st" ?qs j "jobs_in q"] st(2) by simp
qed

lemma sim_return:
  assumes "home_ok h" "home_return h = Some (j, h')"
  shows "level_step (home_view h) (Return j) (home_view h') \<and> home_ok h'"
proof -
  obtain st where q: "hm_stack h = In j # st" "h' = h\<lparr>hm_stack := st\<rparr>"
    using assms(2) by (auto simp: home_return_def split: list.splits frame.splits)
  have st: "stacked st" "length (running st) = length (waits st)" using assms(1) q(1) by (simp_all add: home_ok_def)
  obtain q0 qs where v: "lv_queues (home_view h') = q0 # qs" "length qs = length (waits st)"
    by (cases "waits st") (simp_all add: q home_view_def)
  then have "home_view h = \<lparr>lv_queues = q0 # qs, lv_running = j # running st, lv_shut = hm_shut h, lv_dropped = hm_dropped h\<rparr>"
    "home_view h' = \<lparr>lv_queues = q0 # qs, lv_running = running st, lv_shut = hm_shut h, lv_dropped = hm_dropped h\<rparr>"
    using q by (simp_all add: home_view_def)
  moreover have "home_ok h'" using assms(1) q st by (simp add: home_ok_def)
  ultimately show ?thesis using level_step.return[of "running st" qs q0 j] st(2) v(2) by simp
qed

lemma sim_enter:
  assumes "home_ok h" "wait_enter h = Some h'"
  shows "level_step (home_view h) Open (home_view h') \<and> home_ok h'"
proof -
  obtain j st where q: "hm_stack h = In j # st" and h': "h' = h\<lparr>hm_made := hm_made h + 1,
      hm_inboxes := (hm_inboxes h)(hm_made h := []), hm_inbox := Some (hm_made h),
      hm_stack := Waiting (hm_made h) (hm_inbox h) False # hm_stack h\<rparr>"
    using assms(2) by (auto simp: wait_enter_def Let_def split: list.splits frame.splits)
  have n: "hm_made h \<notin> set (waits (hm_stack h))" using assms(1) by (auto simp: home_ok_def)
  have st: "length (running (hm_stack h)) = Suc (length (waits (hm_stack h)))" using assms(1) q by (simp add: home_ok_def)
  let ?qs = "map (\<lambda>k. jobs_in (hm_inboxes h k)) (waits (hm_stack h)) @ [hm_pool h]"
  have "home_view h = \<lparr>lv_queues = ?qs, lv_running = running (hm_stack h), lv_shut = hm_shut h, lv_dropped = hm_dropped h\<rparr>"
    by (simp add: home_view_def)
  moreover have "home_view h' = \<lparr>lv_queues = [] # ?qs, lv_running = running (hm_stack h), lv_shut = hm_shut h, lv_dropped = hm_dropped h\<rparr>"
    using map_inboxes_other[OF n, of "hm_inboxes h" "[]"] by (simp add: home_view_def h')
  moreover have "home_ok h'" using assms(1) n st by (auto simp: home_ok_def h')
  ultimately show ?thesis using level_step.opened[of "running (hm_stack h)" ?qs] st by simp
qed

lemma sim_started:
  assumes "home_ok h" "wait_started h = Some h'"
  shows "home_view h' = home_view h \<and> home_ok h'"
proof -
  obtain i out st where q: "hm_stack h = Waiting i out False # st" "h' = h\<lparr>hm_stack := Waiting i out True # st\<rparr>"
    using assms(2) by (auto simp: wait_started_def split: list.splits frame.splits bool.splits)
  with assms(1) show ?thesis by (simp add: home_ok_def home_view_def)
qed

lemma sim_wake: "home_ok h \<Longrightarrow> home_view (wait_wake i h) = home_view h \<and> home_ok (wait_wake i h)"
  by (simp add: home_ok_def home_view_def wait_wake_def put_inbox_def)

lemma sim_close:
  assumes "home_ok h" "hm_stack h = Waiting i out b # st"
  shows "level_step (home_view h) Close (home_view (wait_close i out st h)) \<and> home_ok (wait_close i out st h)"
proof -
  have st: "stacked st" "i \<notin> set (waits st)" "length (running st) = Suc (length (waits st))" "out = top_wait st"
    using assms by (simp_all add: home_ok_def)
  let ?h = "h\<lparr>hm_inbox := out, hm_inboxes := (hm_inboxes h)(i := []), hm_stack := st\<rparr>"
  let ?q = "jobs_in (hm_inboxes h i)"
  obtain q0 qs where v: "map (\<lambda>k. jobs_in (hm_inboxes h k)) (waits st) @ [hm_pool h] = q0 # qs" "length qs = length (waits st)"
    by (cases "waits st") simp_all
  have v1: "home_view ?h = \<lparr>lv_queues = q0 # qs, lv_running = running st, lv_shut = hm_shut h, lv_dropped = hm_dropped h\<rparr>"
    using map_inboxes_other[OF st(2), of "hm_inboxes h" "[]"] v(1) by (simp add: home_view_def del: map_eq_conv fun_upd_apply)
  have "home_view (wait_close i out st h) = taken_over (home_view ?h) ?q"
    using view_hand_over[of ?h out "hm_inboxes h i"] st by (simp add: wait_close_def)
  then have v2: "home_view (wait_close i out st h) = (if hm_shut h \<and> qs = []
      then \<lparr>lv_queues = q0 # qs, lv_running = running st, lv_shut = hm_shut h, lv_dropped = hm_dropped h @ ?q\<rparr>
      else \<lparr>lv_queues = (q0 @ ?q) # qs, lv_running = running st, lv_shut = hm_shut h, lv_dropped = hm_dropped h\<rparr>)"
    by (simp add: v1 taken_over_def)
  have v3: "home_view h = \<lparr>lv_queues = ?q # q0 # qs, lv_running = running st, lv_shut = hm_shut h, lv_dropped = hm_dropped h\<rparr>"
    using v(1) assms(2) by (simp add: home_view_def)
  have "level_step (home_view h) Close (home_view (wait_close i out st h))"
  proof (cases "hm_shut h \<and> qs = []")
    case True
    then show ?thesis using level_step.close_shut[of "running st" ?q q0 "hm_dropped h"] st(3) v(2) v2 v3 by simp
  next
    case False
    then show ?thesis using level_step.close[of "running st" qs "hm_shut h" ?q q0 "hm_dropped h"] st(3) v(2) v2 v3 by auto
  qed
  moreover have "home_ok (wait_close i out st h)"
    using assms st by (simp add: home_ok_def wait_close_def hand_over_frame)
  ultimately show ?thesis ..
qed

lemma sim_leave:
  assumes "home_ok h" "wait_leave h = Some h'"
  shows "level_step (home_view h) Close (home_view h') \<and> home_ok h'"
proof -
  consider (wake) i out st q where "hm_stack h = Waiting i out True # st" "hm_inboxes h i = None # q"
      "h' = wait_close i out st (h\<lparr>hm_inboxes := (hm_inboxes h)(i := q)\<rparr>)"
    | (failed) i out st where "hm_stack h = Waiting i out False # st" "h' = wait_close i out st h"
  proof -
    obtain f st where st: "hm_stack h = f # st" using assms(2) by (cases "hm_stack h") (simp_all add: wait_leave_def)
    obtain i out b where f: "f = Waiting i out b" using assms(2) st by (cases f) (simp_all add: wait_leave_def)
    show thesis
    proof (cases b)
      case False
      then show ?thesis using that(2)[of i out st] assms(2) st f by (simp add: wait_leave_def)
    next
      case True
      then obtain x q where q: "hm_inboxes h i = x # q"
        using assms(2) st f by (cases "hm_inboxes h i") (simp_all add: wait_leave_def)
      then show ?thesis using that(1)[of i out st q] assms(2) st f True by (cases x) (simp_all add: wait_leave_def)
    qed
  qed
  then show ?thesis
  proof cases
    case wake
    let ?h = "h\<lparr>hm_inboxes := (hm_inboxes h)(i := q)\<rparr>"
    have "i \<notin> set (waits st)" using assms(1) wake(1) by (simp add: home_ok_def)
    then have "home_view ?h = home_view h"
      using wake(1,2) map_inboxes_other[of i "waits st" "hm_inboxes h" q] by (simp add: home_view_def)
    moreover have "home_ok ?h" using assms(1) by (simp add: home_ok_def)
    ultimately show ?thesis using sim_close[of ?h i out True st] wake by simp
  next
    case failed
    then show ?thesis using sim_close[OF assms(1) failed(1)] by simp
  qed
qed

lemma simulates:
  assumes "home_step h a h'" "home_ok h"
  shows "matches (home_view h) a (home_view h') \<and> home_ok h'"
  using assms
proof cases
  case (submit j) then show ?thesis using sim_submit[OF assms(2)] by (simp add: matches_def)
next
  case (refuse j) then show ?thesis using sim_refuse[OF assms(2)] assms(2) by (simp add: matches_def)
next
  case (shutdown c) then show ?thesis using sim_shutdown[OF assms(2)] by (simp add: matches_def)
next
  case (pool_next j) then show ?thesis using sim_pool_next[OF assms(2)] by (simp add: matches_def)
next
  case (inbox_next j) then show ?thesis using sim_inbox_next[OF assms(2)] by (simp add: matches_def)
next
  case (return j) then show ?thesis using sim_return[OF assms(2)] by (simp add: matches_def)
next
  case enter then show ?thesis using sim_enter[OF assms(2)] by (simp add: matches_def)
next
  case started then show ?thesis using sim_started[OF assms(2)] by (simp add: matches_def)
next
  case (wake i) then show ?thesis using sim_wake[OF assms(2)] by (simp add: matches_def)
next
  case leave then show ?thesis using sim_leave[OF assms(2)] by (simp add: matches_def)
qed

subsection \<open>Traces\<close>

definition submitted :: "act list \<Rightarrow> nat list" where
  "submitted tr = List.map_filter (\<lambda>a. case a of Submit j \<Rightarrow> Some j | _ \<Rightarrow> None) tr"

definition begun :: "act list \<Rightarrow> nat list" where
  "begun tr = List.map_filter (\<lambda>a. case a of Start j \<Rightarrow> Some j | _ \<Rightarrow> None) tr"

lemma trace_simps [simp]: "submitted [] = []" "begun [] = []"
  "submitted (tr @ [a]) = submitted tr @ (case a of Submit j \<Rightarrow> [j] | _ \<Rightarrow> [])"
  "begun (tr @ [a]) = begun tr @ (case a of Start j \<Rightarrow> [j] | _ \<Rightarrow> [])"
  by (simp_all add: submitted_def begun_def List.map_filter_def split: act.split)

lemma refines: "home_trace tr h \<Longrightarrow> level_trace (filter (\<lambda>a. a \<noteq> Inner) tr) (home_view h) \<and> home_ok h"
proof (induction rule: home_trace.induct)
  case nil
  have "home_view new_home = new_levels" by (simp add: home_view_def new_home_def new_levels_def)
  then show ?case using level_trace.nil by (simp add: home_ok_def new_home_def)
next
  case (snoc tr h a h')
  then have "matches (home_view h) a (home_view h') \<and> home_ok h'" using simulates by blast
  then show ?case using snoc.IH level_trace.snoc by (auto simp: matches_def split: if_splits)
qed

lemma trace_visible: "submitted (filter (\<lambda>a. a \<noteq> Inner) tr) = submitted tr" "begun (filter (\<lambda>a. a \<noteq> Inner) tr) = begun tr"
  by (induction tr) (simp_all add: submitted_def begun_def map_filter_simps split: act.split option.split)

lemma level_conserves: "level_trace tr l \<Longrightarrow>
    mset (submitted tr) = mset (begun tr) + mset (concat (lv_queues l)) + mset (lv_dropped l) \<and>
    lv_shut l = list_ex (\<lambda>a. \<exists>c. a = Shutdown c) tr \<and> (lv_dropped l \<noteq> [] \<longrightarrow> lv_shut l)"
proof (induction rule: level_trace.induct)
  case (snoc tr l a l')
  show ?case using snoc.hyps(2) snoc.IH by cases (auto simp: ac_simps)
qed (simp add: new_levels_def)

text \<open>C14. A dedicated thread refines a stack of queues. Whatever a home does, in any order with the wakes of the
  futures it waits for, submits from anywhere and shutdowns, is a run of the specification \<open>queue_levels\<close>, read through
  \<open>home_view\<close>: work submitted while a wait is open is run inside that wait, in order; work queued before stays queued
  until the wait has closed; what a closing wait leaves moves outside, behind what is there. The jobs begun, those still
  queued and those dropped are together exactly the jobs taken, so none is run twice, and none is dropped unless the
  executor was shut down: then the queue it cancels is, and what a wait that closes over it still holds.\<close>

theorem home_refines:
  assumes "home_trace tr h"
  shows "level_trace (filter (\<lambda>a. a \<noteq> Inner) tr) (home_view h) \<and>
    mset (submitted tr) = mset (begun tr) + mset (concat (lv_queues (home_view h))) + mset (hm_dropped h) \<and>
    (list_ex (\<lambda>a. \<exists>c. a = Shutdown c) tr \<or> hm_dropped h = [])"
proof -
  have "list_ex (\<lambda>a. \<exists>c. a = Shutdown c) (filter (\<lambda>a. a \<noteq> Inner) tr) = list_ex (\<lambda>a. \<exists>c. a = Shutdown c) tr"
    by (induction tr) auto
  then show ?thesis
    using refines[OF assms] level_conserves[of "filter (\<lambda>a. a \<noteq> Inner) tr" "home_view h"] by (auto simp: trace_visible home_view_def)
qed

text \<open>Job 0 waits; job 1 is submitted and runs inside, before job 0 has returned; job 2 arrives behind the wake and moves outside.\<close>

lemmas home_ops = new_home_def home_submit_def home_next_def wait_enter_def wait_started_def wait_wake_def put_inbox_def wait_run_def
  home_return_def wait_leave_def wait_close_def home_shutdown_def Let_def

lemma trace_of:
  "home_trace tr h \<Longrightarrow> home_submit j h = Some h' \<Longrightarrow> home_trace (tr @ [Submit j]) h'"
  "home_trace tr h \<Longrightarrow> home_next h = Some (j, h') \<Longrightarrow> home_trace (tr @ [Start j]) h'"
  "home_trace tr h \<Longrightarrow> wait_run h = Some (j, h') \<Longrightarrow> home_trace (tr @ [Start j]) h'"
  "home_trace tr h \<Longrightarrow> home_return h = Some (j, h') \<Longrightarrow> home_trace (tr @ [Return j]) h'"
  "home_trace tr h \<Longrightarrow> wait_enter h = Some h' \<Longrightarrow> home_trace (tr @ [Open]) h'"
  "home_trace tr h \<Longrightarrow> wait_started h = Some h' \<Longrightarrow> home_trace (tr @ [Inner]) h'"
  "home_trace tr h \<Longrightarrow> i < hm_made h \<Longrightarrow> home_trace (tr @ [Inner]) (wait_wake i h)"
  "home_trace tr h \<Longrightarrow> wait_leave h = Some h' \<Longrightarrow> home_trace (tr @ [Close]) h'"
  "home_trace tr h \<Longrightarrow> home_trace (tr @ [Shutdown c]) (home_shutdown c h)"
  by (auto intro: home_trace.snoc home_step.intros)

definition nested_run :: "act list" where
  "nested_run = [Submit 0, Start 0, Open, Inner, Submit 1, Inner, Submit 2, Start 1, Return 1, Close]"

text \<open>The home after job 0 has begun to wait.\<close>

definition waiting_home :: home where
  "waiting_home = new_home\<lparr>hm_inbox := Some 0, hm_made := 1, hm_stack := [Waiting 0 None True, In 0]\<rparr>"

lemma waiting_reached: "home_trace [Submit 0, Start 0, Open, Inner] waiting_home"
proof -
  have "home_trace ([] @ [Submit 0]) (new_home\<lparr>hm_pool := [0]\<rparr>)" by (rule trace_of(1)[OF home_trace.nil]) (simp add: home_ops)
  from trace_of(2)[OF this, of 0 "new_home\<lparr>hm_stack := [In 0]\<rparr>"]
  have "home_trace [Submit 0, Start 0] (new_home\<lparr>hm_stack := [In 0]\<rparr>)" by (simp add: home_ops)
  from trace_of(5)[OF this, of "new_home\<lparr>hm_inbox := Some 0, hm_made := 1, hm_stack := [Waiting 0 None False, In 0]\<rparr>"]
  have "home_trace [Submit 0, Start 0, Open] (new_home\<lparr>hm_inbox := Some 0, hm_made := 1, hm_stack := [Waiting 0 None False, In 0]\<rparr>)"
    by (simp add: home_ops fun_upd_idem)
  from trace_of(6)[OF this, of waiting_home] show ?thesis by (simp add: home_ops waiting_home_def)
qed

lemma nested_reached: "\<exists>h. home_trace nested_run h \<and> home_view h = \<lparr>lv_queues = [[2]], lv_running = [0], lv_shut = False, lv_dropped = []\<rparr>"
proof -
  define h5 where "h5 = the (home_submit 1 waiting_home)"
  define h6 where "h6 = wait_wake 0 h5"
  define h7 where "h7 = the (home_submit 2 h6)"
  define h8 where "h8 = snd (the (wait_run h7))"
  define h9 where "h9 = snd (the (home_return h8))"
  define h10 where "h10 = the (wait_leave h9)"
  note d = h5_def h6_def h7_def h8_def h9_def h10_def home_ops waiting_home_def
  from trace_of(1)[OF waiting_reached, of 1 h5] have "home_trace [Submit 0, Start 0, Open, Inner, Submit 1] h5" by (simp add: d)
  from trace_of(7)[OF this, of 0] have "home_trace [Submit 0, Start 0, Open, Inner, Submit 1, Inner] h6" by (simp add: d)
  from trace_of(1)[OF this, of 2 h7] have "home_trace [Submit 0, Start 0, Open, Inner, Submit 1, Inner, Submit 2] h7" by (simp add: d)
  from trace_of(3)[OF this, of 1 h8] have "home_trace [Submit 0, Start 0, Open, Inner, Submit 1, Inner, Submit 2, Start 1] h8" by (simp add: d)
  from trace_of(4)[OF this, of 1 h9] have "home_trace [Submit 0, Start 0, Open, Inner, Submit 1, Inner, Submit 2, Start 1, Return 1] h9"
    by (simp add: d)
  from trace_of(8)[OF this, of h10] have "home_trace nested_run h10" by (simp add: d nested_run_def)
  moreover have "home_view h10 = \<lparr>lv_queues = [[2]], lv_running = [0], lv_shut = False, lv_dropped = []\<rparr>" by (simp add: d home_view_def)
  ultimately show ?thesis by blast
qed

lemma home_refines_witness:
  "\<exists>h. home_trace nested_run h \<and> level_trace (filter (\<lambda>a. a \<noteq> Inner) nested_run) (home_view h) \<and>
     mset (submitted nested_run) = mset (begun nested_run) + mset (concat (lv_queues (home_view h))) \<and> hm_dropped h = []"
proof -
  obtain h where h: "home_trace nested_run h" "hm_dropped h = []" using nested_reached by (auto simp: home_view_def)
  then show ?thesis using home_refines[OF h(1)] by auto
qed

text \<open>A shutdown while job 0 waits: job 1, submitted behind the wake, is taken and lost.\<close>

lemma taken_and_lost:
  "\<exists>h. home_trace [Submit 0, Start 0, Open, Inner, Shutdown False, Inner, Submit 1, Close] h \<and> hm_dropped h = [1]"
proof -
  define h5 where "h5 = home_shutdown False waiting_home"
  define h6 where "h6 = wait_wake 0 h5"
  define h7 where "h7 = the (home_submit 1 h6)"
  define h8 where "h8 = the (wait_leave h7)"
  note d = h5_def h6_def h7_def h8_def home_ops waiting_home_def
  from trace_of(9)[OF waiting_reached, of False] have "home_trace [Submit 0, Start 0, Open, Inner, Shutdown False] h5" by (simp add: d)
  from trace_of(7)[OF this, of 0] have "home_trace [Submit 0, Start 0, Open, Inner, Shutdown False, Inner] h6" by (simp add: d)
  from trace_of(1)[OF this, of 1 h7] have "home_trace [Submit 0, Start 0, Open, Inner, Shutdown False, Inner, Submit 1] h7" by (simp add: d)
  from trace_of(8)[OF this, of h8] have "home_trace [Submit 0, Start 0, Open, Inner, Shutdown False, Inner, Submit 1, Close] h8" by (simp add: d)
  moreover have "hm_dropped h8 = [1]" by (simp add: d)
  ultimately show ?thesis by blast
qed

end
