(* ===== verification/Hooks.thy ===== *)
theory Hooks
  imports Pool
begin

text \<open>
  The async hooks of one call, classes \<open>_Hooks\<close> and \<open>_InRequest\<close> and the function \<open>_until_done\<close> of
  \<open>huggorm_gen/payload/_runtime.py\<close>. Two threads share the queue \<open>hk_asked\<close>: the worker, inside the call,
  asks for hooks and waits for answers; the loop runs them. What the code does under the lock of the hooks
  is one step, as is each stretch of the loop's code between two awaits. An answer is known by its place in
  the order of asking. What a hook answers, and when the caller cancels, comes from outside.
\<close>

definition POSTED_WINDOW :: nat where "POSTED_WINDOW = 16"

text \<open>Where the worker is: at work in the call, on its way to wake the loop, or waiting.\<close>

datatype worker =
    Working
  | Waking worker
  | Asking nat \<comment> \<open>in \<open>ask\<close>, until this answer\<close>
  | Posting \<comment> \<open>in \<open>post\<close>, before the window has room\<close>
  | Flushing "exn option" \<comment> \<open>in \<open>flush\<close>, with the first failure\<close>
  | Ended "exn option"

datatype loop =
    Checking \<comment> \<open>about to ask whether the call is done\<close>
  | Sleeping \<comment> \<open>awaiting \<open>wake\<close>\<close>
  | Running_asked \<comment> \<open>in \<open>run_asked\<close>, before its lock\<close>
  | Hook nat bool \<comment> \<open>awaiting a hook\<close>
  | Shielded \<comment> \<open>cancelled, awaiting the end of the work\<close>
  | Returned

record 'r hooks =
  hk_home :: bool \<comment> \<open>the executor is a \<open>_Home\<close>\<close>
  hk_asked :: "(nat \<times> bool) list"
  hk_awake :: bool
  hk_closed :: bool
  hk_broken :: "exn option"
  hk_posted :: "nat list"
  hk_answers :: "'r future list"
  hk_event :: bool \<comment> \<open>\<open>wake\<close> is set\<close>
  hk_done :: bool \<comment> \<open>the loop's future of the call is done\<close>
  hk_told :: bool \<comment> \<open>and its callback has run\<close>
  hk_worker :: worker
  hk_loop :: loop

definition new_hooks :: "bool \<Rightarrow> 'r hooks" where
  "new_hooks home = \<lparr>hk_home = home, hk_asked = [], hk_awake = False, hk_closed = False, hk_broken = None, hk_posted = [],
     hk_answers = [], hk_event = False, hk_done = False, hk_told = False, hk_worker = Working, hk_loop = Checking\<rparr>"

text \<open>\<open>_cancelled()\<close>, the failure of a hook whose call was cancelled.\<close>

definition cancelled_error :: exn where "cancelled_error = RuntimeError"

definition answer_hook :: "nat \<Rightarrow> (exn + 'r) \<Rightarrow> 'r hooks \<Rightarrow> 'r hooks" where
  "answer_hook a r h = h\<lparr>hk_answers := (hk_answers h)[a := Settled r]\<rparr>"

definition answered :: "'r hooks \<Rightarrow> nat \<Rightarrow> bool" where
  "answered h a \<longleftrightarrow> is_settled (hk_answers h ! a)"

text \<open>The exception in a future, as \<open>done.exception()\<close> answers it.\<close>

definition failure_of :: "'r future \<Rightarrow> exn option" where
  "failure_of f = (case f of Settled (Inl e) \<Rightarrow> Some e | _ \<Rightarrow> None)"

subsection \<open>The worker\<close>

text \<open>\<open>_put\<close>: a new answer, refused at once when the hooks are closed; the loop is woken only when it may sleep.\<close>

definition put_hook :: "bool \<Rightarrow> worker \<Rightarrow> 'r hooks \<Rightarrow> nat \<times> 'r hooks" where
  "put_hook posted w h = (let a = length (hk_answers h); h = h\<lparr>hk_answers := hk_answers h @ [Pending]\<rparr> in
     (a, if hk_closed h then answer_hook a (Inl cancelled_error) (h\<lparr>hk_worker := w\<rparr>)
      else let h = h\<lparr>hk_asked := hk_asked h @ [(a, posted)]\<rparr> in
        if hk_awake h then h\<lparr>hk_worker := w\<rparr> else h\<lparr>hk_awake := True, hk_worker := Waking w\<rparr>))"

definition wake_loop :: "worker \<Rightarrow> 'r hooks \<Rightarrow> 'r hooks" where
  "wake_loop w h = h\<lparr>hk_event := True, hk_worker := w\<rparr>"

definition ask :: "'r hooks \<Rightarrow> 'r hooks" where
  "ask h = snd (put_hook False (Asking (length (hk_answers h))) h)"

definition ask_end :: "nat \<Rightarrow> 'r hooks \<Rightarrow> 'r hooks option" where
  "ask_end a h = (if answered h a then Some (h\<lparr>hk_worker := Working\<rparr>) else None)"

text \<open>\<open>post\<close>: on a \<open>_Home\<close> it asks. Else it takes settled answers off the front, and when the window is full it
  waits for the oldest; a failure found there is raised and the hook is not queued.\<close>

definition post :: "'r hooks \<Rightarrow> 'r hooks" where
  "post h = (if hk_home h then ask h else h\<lparr>hk_worker := Posting\<rparr>)"

definition post_step :: "'r hooks \<Rightarrow> 'r hooks option" where
  "post_step h = (case hk_posted h of
       a # rest \<Rightarrow>
         if answered h a then Some (h\<lparr>hk_posted := rest,
              hk_worker := if failure_of (hk_answers h ! a) = None then Posting else Working\<rparr>)
         else if length (hk_posted h) \<ge> POSTED_WINDOW then None
         else (let (b, h) = put_hook True Working h in Some (h\<lparr>hk_posted := hk_posted h @ [b]\<rparr>))
     | [] \<Rightarrow> (let (b, h) = put_hook True Working h in Some (h\<lparr>hk_posted := hk_posted h @ [b]\<rparr>)))"

text \<open>\<open>_InRequest.__exit__\<close>: the call is about to end, by a result or an exception, and flushes first.\<close>

definition flush :: "'r hooks \<Rightarrow> 'r hooks" where
  "flush h = h\<lparr>hk_worker := Flushing None\<rparr>"

definition flush_step :: "exn option \<Rightarrow> 'r hooks \<Rightarrow> 'r hooks option" where
  "flush_step failure h = (case hk_posted h of [] \<Rightarrow> Some (h\<lparr>hk_worker := Ended failure\<rparr>)
     | a # rest \<Rightarrow> if answered h a then Some (h\<lparr>hk_posted := rest,
           hk_worker := Flushing (if failure = None then failure_of (hk_answers h ! a) else failure)\<rparr>) else None)"

subsection \<open>The loop\<close>

definition call_done :: "'r hooks \<Rightarrow> bool" where
  "call_done h = (case hk_worker h of Ended _ \<Rightarrow> True | _ \<Rightarrow> False)"

definition check_done :: "'r hooks \<Rightarrow> 'r hooks" where
  "check_done h = h\<lparr>hk_loop := if hk_done h then Returned else Sleeping\<rparr>"

definition done_arrives :: "'r hooks \<Rightarrow> 'r hooks" where
  "done_arrives h = h\<lparr>hk_done := True\<rparr>"

definition future_done :: "'r hooks \<Rightarrow> 'r hooks" where
  "future_done h = h\<lparr>hk_event := True, hk_told := True\<rparr>"

text \<open>\<open>wake\<close> was set: a new event takes its place.\<close>

definition wake_up :: "loop \<Rightarrow> 'r hooks \<Rightarrow> 'r hooks" where
  "wake_up l h = h\<lparr>hk_event := False, hk_loop := l\<rparr>"

definition run_asked :: "'r hooks \<Rightarrow> 'r hooks" where
  "run_asked h = (case hk_asked h of [] \<Rightarrow> h\<lparr>hk_awake := False, hk_loop := Checking\<rparr>
     | (a, posted) # rest \<Rightarrow> let h = h\<lparr>hk_asked := rest\<rparr> in
        (case (posted, hk_broken h) of (True, Some e) \<Rightarrow> answer_hook a (Inl e) h
         | _ \<Rightarrow> h\<lparr>hk_loop := Hook a posted\<rparr>))"

definition hook_returns :: "nat \<Rightarrow> bool \<Rightarrow> (exn + 'r) \<Rightarrow> 'r hooks \<Rightarrow> 'r hooks" where
  "hook_returns a posted r h = (let h = answer_hook a r (h\<lparr>hk_loop := Running_asked\<rparr>) in
     case r of Inl e \<Rightarrow> if posted then h\<lparr>hk_broken := Some e\<rparr> else h | Inr _ \<Rightarrow> h)"

definition close_hooks :: "'r hooks \<Rightarrow> 'r hooks" where
  "close_hooks h = (let asked = hk_asked h; h = h\<lparr>hk_closed := True, hk_asked := []\<rparr> in
     fold (\<lambda>(a, _). answer_hook a (Inl cancelled_error)) asked h)"

text \<open>The caller cancels where the loop awaits: in a hook, which fails, or in the sleep.\<close>

definition cancel_call :: "'r hooks \<Rightarrow> 'r hooks" where
  "cancel_call h = close_hooks (case hk_loop h of Hook a _ \<Rightarrow> answer_hook a (Inl cancelled_error) (h\<lparr>hk_loop := Shielded\<rparr>)
     | _ \<Rightarrow> h\<lparr>hk_loop := Shielded\<rparr>)"

definition shield_check :: "'r hooks \<Rightarrow> 'r hooks" where
  "shield_check h = (if hk_done h then h\<lparr>hk_loop := Returned\<rparr> else wake_up Shielded h)"

subsection \<open>Steps\<close>

text \<open>What the loop does, with the wakes and the result it is owed.\<close>

inductive loop_step :: "'r hooks \<Rightarrow> 'r hooks \<Rightarrow> bool" where
  woken: "hk_worker h = Waking w \<Longrightarrow> loop_step h (wake_loop w h)"
| arrives: "call_done h \<Longrightarrow> \<not> hk_done h \<Longrightarrow> loop_step h (done_arrives h)"
| told: "hk_done h \<Longrightarrow> \<not> hk_told h \<Longrightarrow> loop_step h (future_done h)"
| check: "hk_loop h = Checking \<Longrightarrow> loop_step h (check_done h)"
| up: "hk_loop h = Sleeping \<Longrightarrow> hk_event h \<Longrightarrow> loop_step h (wake_up Running_asked h)"
| runs: "hk_loop h = Running_asked \<Longrightarrow> loop_step h (run_asked h)"
| returns: "hk_loop h = Hook a posted \<Longrightarrow> loop_step h (hook_returns a posted r h)"
| shield: "hk_loop h = Shielded \<Longrightarrow> hk_done h \<or> hk_event h \<Longrightarrow> loop_step h (shield_check h)"

inductive hooks_step :: "'r hooks \<Rightarrow> 'r hooks \<Rightarrow> bool" where
  loop: "loop_step h h' \<Longrightarrow> hooks_step h h'"
| asks: "hk_worker h = Working \<Longrightarrow> hooks_step h (ask h)"
| asked: "hk_worker h = Asking a \<Longrightarrow> ask_end a h = Some h' \<Longrightarrow> hooks_step h h'"
| posts: "hk_worker h = Working \<Longrightarrow> hooks_step h (post h)"
| posting: "hk_worker h = Posting \<Longrightarrow> post_step h = Some h' \<Longrightarrow> hooks_step h h'"
| flushes: "hk_worker h = Working \<Longrightarrow> hooks_step h (flush h)"
| flushing: "hk_worker h = Flushing f \<Longrightarrow> flush_step f h = Some h' \<Longrightarrow> hooks_step h h'"
| cancel: "hk_loop h = Sleeping \<or> (\<exists>a p. hk_loop h = Hook a p) \<Longrightarrow> hooks_step h (cancel_call h)"

inductive hooks_reached :: "'r hooks \<Rightarrow> bool" where
  new: "hooks_reached (new_hooks home)"
| step: "hooks_reached h \<Longrightarrow> hooks_step h h' \<Longrightarrow> hooks_reached h'"

end
