(* ===== verification/Hooks_Props.thy ===== *)
theory Hooks_Props
  imports Hooks
begin

text \<open>
  Every hook a call asks for is answered, and the call's coroutine ends. The two threads never both take the
  other for awake: while a hook is asked, the loop is running hooks, is about to, or is being woken.
\<close>

subsection \<open>The invariant\<close>

fun waits_for :: "worker \<Rightarrow> nat option" where
  "waits_for (Asking a) = Some a" | "waits_for (Waking w) = waits_for w" | "waits_for _ = None"

definition running_hooks :: "loop \<Rightarrow> bool" where
  "running_hooks l = (case l of Running_asked \<Rightarrow> True | Hook _ _ \<Rightarrow> True | _ \<Rightarrow> False)"

definition in_loop :: "'r hooks \<Rightarrow> nat \<Rightarrow> bool" where
  "in_loop h a \<longleftrightarrow> a \<in> fst ` set (hk_asked h) \<or> (\<exists>p. hk_loop h = Hook a p)"

definition queue_ok :: "'r hooks \<Rightarrow> bool" where
  "queue_ok h \<longleftrightarrow> (\<forall>a<length (hk_answers h). answered h a \<or> in_loop h a \<and> (a \<in> set (hk_posted h) \<or> waits_for (hk_worker h) = Some a)) \<and>
     (\<forall>a. in_loop h a \<longrightarrow> a < length (hk_answers h)) \<and> length (hk_posted h) \<le> POSTED_WINDOW"

definition awake_ok :: "'r hooks \<Rightarrow> bool" where
  "awake_ok h \<longleftrightarrow> (hk_asked h \<noteq> [] \<longrightarrow> hk_awake h) \<and>
     (hk_awake h \<longrightarrow> hk_closed h \<or> (\<exists>w. hk_worker h = Waking w) \<or> hk_event h \<or> running_hooks (hk_loop h))"

definition end_ok :: "'r hooks \<Rightarrow> bool" where
  "end_ok h \<longleftrightarrow> (hk_closed h \<longrightarrow> hk_asked h = [] \<and> hk_loop h \<in> {Shielded, Returned}) \<and> (hk_loop h = Shielded \<longrightarrow> hk_closed h) \<and>
     (hk_loop h = Returned \<longrightarrow> hk_done h) \<and> (hk_done h \<longrightarrow> call_done h) \<and> (hk_told h \<longrightarrow> hk_done h) \<and>
     (hk_told h \<and> hk_loop h = Sleeping \<longrightarrow> hk_event h) \<and> (call_done h \<longrightarrow> hk_posted h = []) \<and>
     (\<forall>w. hk_worker h = Waking w \<longrightarrow> w = Working \<or> (\<exists>a. w = Asking a))"

definition hooks_ok :: "'r hooks \<Rightarrow> bool" where
  "hooks_ok h \<longleftrightarrow> queue_ok h \<and> awake_ok h \<and> end_ok h"

lemmas ok_defs = awake_ok_def end_ok_def running_hooks_def call_done_def

lemma answered_answer: "a < length (hk_answers h) \<Longrightarrow> answered (answer_hook b r h) a \<longleftrightarrow> a = b \<or> answered h a"
  by (cases "a = b") (simp_all add: answered_def answer_hook_def is_settled_def)

lemma answer_frame [simp]: "length (hk_answers (answer_hook a r h)) = length (hk_answers h)" "hk_asked (answer_hook a r h) = hk_asked h"
  "hk_loop (answer_hook a r h) = hk_loop h" "hk_posted (answer_hook a r h) = hk_posted h" "hk_worker (answer_hook a r h) = hk_worker h"
  "hk_awake (answer_hook a r h) = hk_awake h" "hk_closed (answer_hook a r h) = hk_closed h" "hk_event (answer_hook a r h) = hk_event h"
  "hk_done (answer_hook a r h) = hk_done h" "hk_told (answer_hook a r h) = hk_told h" "hk_broken (answer_hook a r h) = hk_broken h"
  "hk_home (answer_hook a r h) = hk_home h"
  by (simp_all add: answer_hook_def)

text \<open>The queue's part, for a step that leaves the answers alone.\<close>

lemma queue_ok_same:
  assumes "queue_ok h" "hk_answers h' = hk_answers h" "\<And>a. in_loop h' a = in_loop h a" "hk_posted h' = hk_posted h"
    "waits_for (hk_worker h') = waits_for (hk_worker h)"
  shows "queue_ok h'"
  using assms by (simp add: queue_ok_def answered_def)

lemma in_loop_cong: "hk_asked h' = hk_asked h \<Longrightarrow> hk_loop h' = hk_loop h \<Longrightarrow> in_loop h' a = in_loop h a"
  by (simp add: in_loop_def)

lemma in_loop_plain: "hk_asked h' = hk_asked h \<Longrightarrow> \<nexists>a p. hk_loop h = Hook a p \<Longrightarrow> \<nexists>a p. hk_loop h' = Hook a p \<Longrightarrow> in_loop h' a = in_loop h a"
  by (simp add: in_loop_def)

lemma ok_woken:
  assumes "hooks_ok h" "hk_worker h = Waking w"
  shows "hooks_ok (wake_loop w h)"
  using assms queue_ok_same[of h "wake_loop w h"]
  by (auto simp: hooks_ok_def ok_defs wake_loop_def in_loop_def)

lemma ok_arrives: "hooks_ok h \<Longrightarrow> call_done h \<Longrightarrow> hooks_ok (done_arrives h)"
  using queue_ok_same[of h "done_arrives h"]
  by (auto simp: hooks_ok_def ok_defs done_arrives_def in_loop_def)

lemma ok_told: "hooks_ok h \<Longrightarrow> hk_done h \<Longrightarrow> hooks_ok (future_done h)"
  using queue_ok_same[of h "future_done h"]
  by (auto simp: hooks_ok_def ok_defs future_done_def in_loop_def)

lemma ok_check: "hooks_ok h \<Longrightarrow> hk_loop h = Checking \<Longrightarrow> hooks_ok (check_done h)"
  using queue_ok_same[of h "check_done h"]
  by (auto simp: hooks_ok_def ok_defs check_done_def in_loop_def)

lemma ok_up: "hooks_ok h \<Longrightarrow> hk_loop h = Sleeping \<Longrightarrow> hooks_ok (wake_up Running_asked h)"
  using queue_ok_same[of h "wake_up Running_asked h"]
  by (auto simp: hooks_ok_def ok_defs wake_up_def in_loop_def)

lemma ok_shield: "hooks_ok h \<Longrightarrow> hk_loop h = Shielded \<Longrightarrow> hooks_ok (shield_check h)"
  using queue_ok_same[of h "shield_check h"]
  by (auto simp: hooks_ok_def ok_defs shield_check_def wake_up_def in_loop_def)

lemma ok_runs:
  assumes "hooks_ok h" "hk_loop h = Running_asked"
  shows "hooks_ok (run_asked h)"
proof (cases "hk_asked h")
  case Nil
  then show ?thesis using assms queue_ok_same[of h "run_asked h"]
    by (auto simp: hooks_ok_def ok_defs run_asked_def in_loop_def)
next
  case (Cons p rest)
  obtain a posted where p: "p = (a, posted)" by (cases p)
  have a: "a < length (hk_answers h)" using assms(1) Cons p by (auto simp: hooks_ok_def queue_ok_def in_loop_def)
  have ok: "queue_ok h" "awake_ok h" "end_ok h" using assms(1) by (simp_all add: hooks_ok_def)
  have il: "in_loop h b \<longleftrightarrow> b = a \<or> b \<in> fst ` set rest" for b using assms(2) Cons p by (auto simp: in_loop_def)
  show ?thesis
  proof (cases "posted \<and> hk_broken h \<noteq> None")
    case True
    then obtain e where r: "run_asked h = answer_hook a (Inl e) (h\<lparr>hk_asked := rest\<rparr>)" (is "_ = ?h")
      using Cons p by (auto simp: run_asked_def Let_def)
    have an: "answered ?h b \<longleftrightarrow> b = a \<or> answered h b" if "b < length (hk_answers h)" for b
      using answered_answer[of b "h\<lparr>hk_asked := rest\<rparr>" a "Inl e"] that by (simp add: answered_def)
    have il2: "in_loop ?h b \<longleftrightarrow> b \<in> fst ` set rest" for b using assms(2) by (simp add: in_loop_def)
    have "queue_ok ?h" using ok(1) by (auto simp: queue_ok_def an il il2)
    moreover have "awake_ok ?h" "end_ok ?h" using ok(2,3) assms(2) Cons by (auto simp: ok_defs)
    ultimately show ?thesis by (simp add: hooks_ok_def r)
  next
    case False
    then have r: "run_asked h = h\<lparr>hk_asked := rest, hk_loop := Hook a posted\<rparr>" (is "_ = ?h")
      using Cons p by (cases posted; cases "hk_broken h") (simp_all add: run_asked_def Let_def)
    have "in_loop ?h b = in_loop h b" for b unfolding il by (auto simp: in_loop_def)
    then have "queue_ok ?h" by (intro queue_ok_same[OF ok(1)]) simp_all
    moreover have "awake_ok ?h" "end_ok ?h" using ok(2,3) assms(2) Cons by (auto simp: ok_defs)
    ultimately show ?thesis by (simp add: hooks_ok_def r)
  qed
qed

lemma ok_answered:
  assumes "hooks_ok h" "hk_loop h = Hook a p" "l \<in> {Running_asked, Shielded}"
  shows "queue_ok (answer_hook a r (h\<lparr>hk_loop := l\<rparr>))" (is "queue_ok ?h")
proof -
  have il: "in_loop h b \<longleftrightarrow> in_loop ?h b \<or> b = a" for b using assms(2,3) by (auto simp: in_loop_def)
  have an: "answered ?h b \<longleftrightarrow> b = a \<or> answered h b" if "b < length (hk_answers h)" for b
    using answered_answer[of b "h\<lparr>hk_loop := l\<rparr>" a r] that by (simp add: answered_def)
  show ?thesis using assms(1) by (auto simp: hooks_ok_def queue_ok_def an il)
qed

lemma ok_returns:
  assumes "hooks_ok h" "hk_loop h = Hook a p"
  shows "hooks_ok (hook_returns a p r h)"
proof -
  let ?h = "answer_hook a r (h\<lparr>hk_loop := Running_asked\<rparr>)"
  have q: "queue_ok ?h" by (rule ok_answered[OF assms]) simp
  have e: "hook_returns a p r h = ?h \<or> (\<exists>e. hook_returns a p r h = ?h\<lparr>hk_broken := Some e\<rparr>)"
    by (auto simp: hook_returns_def Let_def split: sum.split)
  have "hooks_ok ?h" using q assms by (auto simp: hooks_ok_def ok_defs)
  moreover from this have "hooks_ok (?h\<lparr>hk_broken := Some e\<rparr>)" for e
    using queue_ok_same[of ?h "?h\<lparr>hk_broken := Some e\<rparr>"] by (auto simp: hooks_ok_def ok_defs in_loop_def)
  ultimately show ?thesis using e by auto
qed

lemma closes:
  fixes h :: "'r hooks"
  defines "h' \<equiv> close_hooks h"
  shows "hk_closed h'" "hk_asked h' = []" "hk_loop h' = hk_loop h" "hk_posted h' = hk_posted h" "hk_worker h' = hk_worker h"
    "hk_awake h' = hk_awake h" "hk_event h' = hk_event h" "hk_done h' = hk_done h" "hk_told h' = hk_told h"
    "length (hk_answers h') = length (hk_answers h)"
    "\<And>a. a < length (hk_answers h) \<Longrightarrow> answered h' a \<longleftrightarrow> answered h a \<or> a \<in> fst ` set (hk_asked h)"
proof -
  let ?f = "\<lambda>asked (h :: 'r hooks). fold (\<lambda>(a, _). answer_hook a (Inl cancelled_error)) asked h"
  have f: "hk_closed (?f q g) = hk_closed g \<and> hk_asked (?f q g) = hk_asked g \<and> hk_loop (?f q g) = hk_loop g \<and>
     hk_posted (?f q g) = hk_posted g \<and> hk_worker (?f q g) = hk_worker g \<and> hk_awake (?f q g) = hk_awake g \<and>
     hk_event (?f q g) = hk_event g \<and> hk_done (?f q g) = hk_done g \<and> hk_told (?f q g) = hk_told g \<and>
     length (hk_answers (?f q g)) = length (hk_answers g)" for q g
    by (induction q arbitrary: g) (simp_all add: case_prod_beta)
  have a: "a < length (hk_answers g) \<Longrightarrow> answered (?f q g) a \<longleftrightarrow> answered g a \<or> a \<in> fst ` set q" for q g a
    by (induction q arbitrary: g) (force simp: answered_answer)+
  show "hk_closed h'" "hk_asked h' = []" "hk_loop h' = hk_loop h" "hk_posted h' = hk_posted h" "hk_worker h' = hk_worker h"
    "hk_awake h' = hk_awake h" "hk_event h' = hk_event h" "hk_done h' = hk_done h" "hk_told h' = hk_told h"
    "length (hk_answers h') = length (hk_answers h)"
    by (simp_all add: h'_def close_hooks_def Let_def f)
  show "\<And>a. a < length (hk_answers h) \<Longrightarrow> answered h' a \<longleftrightarrow> answered h a \<or> a \<in> fst ` set (hk_asked h)"
    by (simp add: h'_def close_hooks_def Let_def a) (simp add: answered_def)
qed

lemma ok_cancel:
  assumes "hooks_ok h" "hk_loop h = Sleeping \<or> (\<exists>a p. hk_loop h = Hook a p)"
  shows "hooks_ok (cancel_call h)"
proof -
  obtain g where g: "cancel_call h = close_hooks g" "queue_ok g" "hk_loop g = Shielded" "hk_posted g = hk_posted h"
    "hk_worker g = hk_worker h" "hk_done g = hk_done h" "hk_told g = hk_told h"
  proof (cases "hk_loop h = Sleeping")
    case True
    have "queue_ok (h\<lparr>hk_loop := Shielded\<rparr>)"
      using assms(1) True queue_ok_same[of h "h\<lparr>hk_loop := Shielded\<rparr>"] by (simp add: hooks_ok_def in_loop_def)
    then show ?thesis using that[of "h\<lparr>hk_loop := Shielded\<rparr>"] True by (simp add: cancel_call_def)
  next
    case False
    then obtain a p where l: "hk_loop h = Hook a p" using assms(2) by blast
    have "queue_ok (answer_hook a (Inl cancelled_error) (h\<lparr>hk_loop := Shielded\<rparr>))" (is "queue_ok ?g")
      by (rule ok_answered[OF assms(1) l]) simp
    then show ?thesis using that[of ?g] l by (simp add: cancel_call_def)
  qed
  note c = closes[where h = g]
  have "queue_ok (close_hooks g)"
    using g(2,3) c by (auto simp: queue_ok_def in_loop_def)
  moreover have "awake_ok (close_hooks g)" using c by (simp add: ok_defs)
  moreover have "end_ok (close_hooks g)" using assms(1) g c by (auto simp: hooks_ok_def end_ok_def call_done_def)
  ultimately show ?thesis by (simp add: hooks_ok_def g(1))
qed

subsection \<open>The worker\<close>

lemma put_queue:
  fixes h :: "'r hooks"
  assumes "queue_ok h" "put_hook posted w h = (a, h')"
  shows "a = length (hk_answers h)" "length (hk_answers h') = Suc a" "hk_posted h' = hk_posted h" "hk_loop h' = hk_loop h"
    "waits_for (hk_worker h') = waits_for w"
    "b < a \<Longrightarrow> answered h' b = answered h b" "answered h' a = hk_closed h"
    "in_loop h' b \<longleftrightarrow> in_loop h b \<or> b = a \<and> \<not> hk_closed h"
proof -
  define g where "g = h\<lparr>hk_answers := hk_answers h @ [Pending]\<rparr>"
  have p: "a = length (hk_answers h)" "h' = (if hk_closed h then answer_hook a (Inl cancelled_error) (g\<lparr>hk_worker := w\<rparr>)
      else let h = g\<lparr>hk_asked := hk_asked h @ [(a, posted)]\<rparr> in
        if hk_awake h then h\<lparr>hk_worker := w\<rparr> else h\<lparr>hk_awake := True, hk_worker := Waking w\<rparr>)"
    using assms(2) by (auto simp: put_hook_def g_def Let_def)
  show "a = length (hk_answers h)" by (rule p(1))
  show "length (hk_answers h') = Suc a" "hk_posted h' = hk_posted h" "hk_loop h' = hk_loop h" "waits_for (hk_worker h') = waits_for w"
    using p(1) by (simp_all add: p(2) g_def Let_def)
  show "answered h' b = answered h b" if "b < a"
    using that p(1) by (simp add: p(2) g_def Let_def answered_def answer_hook_def nth_append)
  show "answered h' a = hk_closed h"
    using p(1) by (simp add: p(2) g_def Let_def answered_def answer_hook_def is_settled_def)
  show "in_loop h' b \<longleftrightarrow> in_loop h b \<or> b = a \<and> \<not> hk_closed h"
    by (auto simp: p(2) g_def Let_def in_loop_def)
qed

lemma put_awake:
  assumes "awake_ok h" "put_hook posted w h = (a, h')" "\<nexists>v. hk_worker h = Waking v"
  shows "awake_ok h'"
  using assms by (auto simp: put_hook_def Let_def ok_defs split: if_splits)

lemma put_end:
  assumes "end_ok h" "put_hook posted w h = (a, h')" "\<not> call_done h" "w = Working \<or> (\<exists>b. w = Asking b)"
  shows "end_ok h'"
  using assms by (auto simp: put_hook_def Let_def end_ok_def call_done_def split: if_splits)

lemma ok_ask:
  assumes "hooks_ok h" "hk_worker h = Working"
  shows "hooks_ok (ask h)"
proof -
  let ?w = "Asking (length (hk_answers h))"
  obtain a h' where p: "put_hook False ?w h = (a, h')" by fastforce
  have ok: "queue_ok h" "awake_ok h" "end_ok h" using assms(1) by (simp_all add: hooks_ok_def)
  note q = put_queue[OF ok(1) p]
  have "queue_ok h'"
    unfolding queue_ok_def q(2,3)
  proof (intro conjI allI impI)
    fix b assume "b < Suc a"
    then show "answered h' b \<or> in_loop h' b \<and> (b \<in> set (hk_posted h) \<or> waits_for (hk_worker h') = Some b)"
      using q ok(1) assms(2) by (cases "b = a") (auto simp: queue_ok_def)
  next
    fix b assume "in_loop h' b"
    then show "b < Suc a" using q(1,8) ok(1) by (auto simp: queue_ok_def less_Suc_eq)
  qed (use ok(1) in \<open>simp add: queue_ok_def\<close>)
  moreover have "awake_ok h'" by (rule put_awake[OF ok(2) p]) (simp add: assms(2))
  moreover have "end_ok h'" by (rule put_end[OF ok(3) p]) (simp_all add: assms(2) call_done_def)
  ultimately show ?thesis by (simp add: hooks_ok_def ask_def p)
qed

lemma ok_asked:
  assumes "hooks_ok h" "hk_worker h = Asking a" "ask_end a h = Some h'"
  shows "hooks_ok h'"
proof -
  have h': "answered h a" "h' = h\<lparr>hk_worker := Working\<rparr>" using assms(3) by (auto simp: ask_end_def split: if_splits)
  have "queue_ok h'" using assms(1,2) h'(1) by (auto simp: hooks_ok_def queue_ok_def h'(2) answered_def in_loop_def)
  then show ?thesis using assms(1,2) by (auto simp: hooks_ok_def ok_defs h'(2))
qed

lemma ok_idle_worker:
  assumes "hooks_ok h" "waits_for (hk_worker h) = None" "\<nexists>v. hk_worker h = Waking v" "waits_for w = None"
    "\<nexists>v. w = Waking v" "\<nexists>f. hk_worker h = Ended f" "(\<exists>f. w = Ended f) \<longrightarrow> hk_posted h = []"
  shows "hooks_ok (h\<lparr>hk_worker := w\<rparr>)"
proof -
  have "queue_ok (h\<lparr>hk_worker := w\<rparr>)" using assms(1,2,4) by (auto simp: hooks_ok_def queue_ok_def answered_def in_loop_def)
  moreover have "awake_ok (h\<lparr>hk_worker := w\<rparr>)" using assms(1,3) by (auto simp: hooks_ok_def awake_ok_def)
  moreover have "\<not> call_done h" using assms(6) by (auto simp: call_done_def split: worker.splits)
  then have "end_ok (h\<lparr>hk_worker := w\<rparr>)" using assms(1,5,7) by (auto simp: hooks_ok_def end_ok_def call_done_def split: worker.splits)
  ultimately show ?thesis by (simp add: hooks_ok_def)
qed

text \<open>The oldest posted answer is taken off, once it is there.\<close>

lemma ok_popped:
  assumes "hooks_ok h" "hk_posted h = a # rest" "answered h a"
  shows "hooks_ok (h\<lparr>hk_posted := rest\<rparr>)"
proof -
  have "queue_ok (h\<lparr>hk_posted := rest\<rparr>)"
    using assms by (auto simp: hooks_ok_def queue_ok_def answered_def in_loop_def)
  moreover have "awake_ok (h\<lparr>hk_posted := rest\<rparr>)" using assms(1) by (simp add: hooks_ok_def ok_defs)
  moreover have "end_ok (h\<lparr>hk_posted := rest\<rparr>)"
    using assms(1,2) by (auto simp: hooks_ok_def end_ok_def call_done_def)
  ultimately show ?thesis by (simp add: hooks_ok_def)
qed

lemma ok_put_posted:
  assumes "hooks_ok h" "hk_worker h = Posting" "length (hk_posted h) < POSTED_WINDOW" "put_hook True Working h = (a, h')"
  shows "hooks_ok (h'\<lparr>hk_posted := hk_posted h' @ [a]\<rparr>)" (is "hooks_ok ?h")
proof -
  have ok: "queue_ok h" "awake_ok h" "end_ok h" using assms(1) by (simp_all add: hooks_ok_def)
  note q = put_queue[OF ok(1) assms(4)]
  have e: "answered ?h b = answered h' b" "in_loop ?h b = in_loop h' b" for b by (simp_all add: answered_def in_loop_def)
  have "queue_ok ?h"
    unfolding queue_ok_def e
  proof (intro conjI allI impI)
    fix b assume "b < length (hk_answers ?h)"
    then have "b < a \<or> b = a" using q(2) by auto
    then show "answered h' b \<or> in_loop h' b \<and> (b \<in> set (hk_posted ?h) \<or> waits_for (hk_worker ?h) = Some b)"
      using q ok(1) assms(2) by (auto simp: queue_ok_def)
  next
    fix b assume "in_loop h' b"
    then show "b < length (hk_answers ?h)" using q(1,2,8) ok(1) by (auto simp: queue_ok_def less_Suc_eq)
  qed (use assms(3) q(3) in simp)
  moreover have "awake_ok h'" by (rule put_awake[OF ok(2) assms(4)]) (simp add: assms(2))
  moreover have "end_ok h'" by (rule put_end[OF ok(3) assms(4)]) (simp_all add: assms(2) call_done_def)
  moreover have "\<not> call_done h'" using assms(2,4) by (auto simp: put_hook_def Let_def call_done_def split: if_splits)
  ultimately show ?thesis by (auto simp: hooks_ok_def ok_defs)
qed

lemma ok_posting:
  assumes "hooks_ok h" "hk_worker h = Posting" "post_step h = Some h'"
  shows "hooks_ok h'"
proof (cases "\<exists>a rest. hk_posted h = a # rest \<and> answered h a")
  case True
  then obtain a rest where a: "hk_posted h = a # rest" "answered h a" by blast
  define w where "w = (if failure_of (hk_answers h ! a) = None then Posting else Working)"
  have h': "h' = (h\<lparr>hk_posted := rest\<rparr>)\<lparr>hk_worker := w\<rparr>"
    using assms(3) a by (simp add: post_step_def w_def)
  show ?thesis unfolding h'
    by (rule ok_idle_worker[OF ok_popped[OF assms(1) a]]) (simp_all add: assms(2) w_def)
next
  case False
  then have "length (hk_posted h) < POSTED_WINDOW \<and> Some h' = (let (b, h) = put_hook True Working h in Some (h\<lparr>hk_posted := hk_posted h @ [b]\<rparr>))"
    using assms(3) by (auto simp: post_step_def POSTED_WINDOW_def not_le split: list.splits if_splits)
  then show ?thesis using ok_put_posted[OF assms(1,2)] by (auto split: prod.splits)
qed

lemma ok_flushing:
  assumes "hooks_ok h" "hk_worker h = Flushing f" "flush_step f h = Some h'"
  shows "hooks_ok h'"
proof (cases "hk_posted h")
  case Nil
  then have h': "h' = h\<lparr>hk_worker := Ended f\<rparr>" using assms(3) by (simp add: flush_step_def)
  show ?thesis unfolding h' by (rule ok_idle_worker[OF assms(1)]) (simp_all add: assms(2) Nil)
next
  case (Cons a rest)
  define w where "w = Flushing (if f = None then failure_of (hk_answers h ! a) else f)"
  have h': "answered h a" "h' = (h\<lparr>hk_posted := rest\<rparr>)\<lparr>hk_worker := w\<rparr>"
    using assms(3) Cons by (auto simp: flush_step_def w_def split: if_splits)
  show ?thesis unfolding h'(2)
    by (rule ok_idle_worker[OF ok_popped[OF assms(1) Cons h'(1)]]) (simp_all add: assms(2) w_def)
qed

lemma loop_step_ok: "loop_step h h' \<Longrightarrow> hooks_ok h \<Longrightarrow> hooks_ok h'"
  by (induction rule: loop_step.induct)
    (auto intro: ok_woken ok_arrives ok_told ok_check ok_up ok_runs ok_returns ok_shield)

lemma hooks_step_ok: "hooks_step h h' \<Longrightarrow> hooks_ok h \<Longrightarrow> hooks_ok h'"
proof (induction rule: hooks_step.induct)
  case (posts h)
  show ?case
  proof (cases "hk_home h")
    case True
    then show ?thesis using ok_ask posts by (simp add: post_def)
  next
    case False
    have "hooks_ok (h\<lparr>hk_worker := Posting\<rparr>)" by (rule ok_idle_worker[OF posts.prems]) (simp_all add: posts.hyps)
    then show ?thesis using False by (simp add: post_def)
  qed
next
  case (flushes h)
  show ?case unfolding flush_def by (rule ok_idle_worker[OF flushes.prems]) (simp_all add: flushes.hyps)
qed (auto intro: loop_step_ok ok_ask ok_asked ok_posting ok_flushing ok_cancel)

lemma reached_hooks_ok: "hooks_reached h \<Longrightarrow> hooks_ok h"
proof (induction rule: hooks_reached.induct)
  case (new home)
  show ?case by (simp add: hooks_ok_def queue_ok_def ok_defs in_loop_def new_hooks_def)
qed (rule hooks_step_ok)

subsection \<open>The loop gets there\<close>

fun wakes :: "worker \<Rightarrow> nat" where
  "wakes (Waking w) = Suc (wakes w)" | "wakes _ = 0"

fun loop_rank :: "loop \<Rightarrow> nat" where
  "loop_rank Checking = 3" | "loop_rank Sleeping = 2" | "loop_rank Running_asked = 1" | "loop_rank (Hook _ _) = 2"
| "loop_rank Shielded = 1" | "loop_rank Returned = 0"

definition distance :: "'r hooks \<Rightarrow> nat" where
  "distance h = 4 * length (hk_asked h) + loop_rank (hk_loop h) + wakes (hk_worker h) + of_bool (\<not> hk_done h) + of_bool (\<not> hk_told h)"

text \<open>With an answer missing, some step of the loop brings it nearer.\<close>

lemma step_down:
  assumes "hooks_ok h" "a < length (hk_answers h)" "\<not> answered h a"
  shows "\<exists>h'. loop_step h h' \<and> distance h' < distance h"
proof -
  have ok: "queue_ok h" "awake_ok h" "end_ok h" using assms(1) by (simp_all add: hooks_ok_def)
  have il: "in_loop h a" "a \<in> set (hk_posted h) \<or> waits_for (hk_worker h) = Some a"
    using ok(1) assms(2,3) by (auto simp: queue_ok_def)
  have live: "\<not> call_done h" using il(2) ok(3) by (auto simp: end_ok_def call_done_def split: worker.splits)
  then have nd: "\<not> hk_done h" using ok(3) by (auto simp: end_ok_def)
  show ?thesis
  proof (cases "hk_loop h")
    case Checking
    then have "distance (check_done h) < distance h" using nd by (simp add: distance_def check_done_def)
    then show ?thesis using loop_step.check[OF Checking] by blast
  next
    case Sleeping
    then have q: "hk_asked h \<noteq> []" using il(1) by (auto simp: in_loop_def)
    then have "\<not> hk_closed h" using ok(3) by (auto simp: end_ok_def)
    then consider w where "hk_worker h = Waking w" | "hk_event h"
      using q ok(2) Sleeping by (auto simp: awake_ok_def running_hooks_def)
    then show ?thesis
    proof cases
      case (1 w)
      have "distance (wake_loop w h) < distance h" by (simp add: distance_def wake_loop_def 1)
      then show ?thesis using loop_step.woken[OF 1] by blast
    next
      case 2
      have "distance (wake_up Running_asked h) < distance h" by (simp add: distance_def wake_up_def Sleeping)
      then show ?thesis using loop_step.up[OF Sleeping 2] by blast
    qed
  next
    case Running_asked
    then obtain b p rest where q: "hk_asked h = (b, p) # rest" using il(1) by (cases "hk_asked h") (auto simp: in_loop_def)
    have "distance (run_asked h) < distance h"
      using q Running_asked by (cases p; cases "hk_broken h") (simp_all add: run_asked_def Let_def distance_def)
    then show ?thesis using loop_step.runs[OF Running_asked] by blast
  next
    case (Hook b p)
    have "distance (hook_returns b p (Inl RuntimeError) h) < distance h"
      by (simp add: hook_returns_def Let_def distance_def Hook)
    then show ?thesis using loop_step.returns[OF Hook] by blast
  next
    case Shielded
    then show ?thesis using il(1) ok(3) by (auto simp: in_loop_def end_ok_def)
  next
    case Returned
    then show ?thesis using ok(3) nd by (auto simp: end_ok_def)
  qed
qed

lemma run_asked_frame: "length (hk_answers (run_asked h)) = length (hk_answers h)" "hk_worker (run_asked h) = hk_worker h"
  "hk_done (run_asked h) = hk_done h"
  by (simp_all add: run_asked_def Let_def split: list.split prod.split bool.split option.split)

lemma hook_returns_frame: "length (hk_answers (hook_returns a p r h)) = length (hk_answers h)"
  "hk_worker (hook_returns a p r h) = hk_worker h" "hk_done (hook_returns a p r h) = hk_done h"
  by (simp_all add: hook_returns_def Let_def split: sum.split)

lemma loop_step_keeps:
  "loop_step h h' \<Longrightarrow> length (hk_answers h') = length (hk_answers h) \<and> (call_done h \<longrightarrow> call_done h')"
  by (induction rule: loop_step.induct)
    (simp_all add: run_asked_frame hook_returns_frame wake_loop_def done_arrives_def future_done_def check_done_def wake_up_def
      shield_check_def call_done_def)

lemma answer_comes:
  "hooks_ok h \<Longrightarrow> a < length (hk_answers h) \<Longrightarrow> \<exists>h'. loop_step\<^sup>*\<^sup>* h h' \<and> answered h' a"
proof (induction "distance h" arbitrary: h rule: less_induct)
  case less
  show ?case
  proof (cases "answered h a")
    case False
    then obtain g where g: "loop_step h g" "distance g < distance h" using step_down less.prems by blast
    moreover have "hooks_ok g" "a < length (hk_answers g)" using loop_step_ok[OF g(1)] loop_step_keeps[OF g(1)] less.prems by simp_all
    ultimately show ?thesis using less.hyps[of g] by (meson converse_rtranclp_into_rtranclp)
  qed blast
qed

text \<open>With the call over, the loop comes to its end.\<close>

fun end_rank :: "loop \<Rightarrow> nat" where
  "end_rank Sleeping = 3" | "end_rank Running_asked = 2" | "end_rank (Hook _ _) = 3" | "end_rank Checking = 1"
| "end_rank Shielded = 1" | "end_rank Returned = 0"

definition end_distance :: "'r hooks \<Rightarrow> nat" where
  "end_distance h = 4 * length (hk_asked h) + end_rank (hk_loop h) + of_bool (\<not> hk_done h) + of_bool (\<not> hk_told h)"

lemma end_step:
  assumes "hooks_ok h" "call_done h" "hk_loop h \<noteq> Returned"
  shows "\<exists>h'. loop_step h h' \<and> end_distance h' < end_distance h"
proof -
  have ok: "end_ok h" using assms(1) by (simp add: hooks_ok_def)
  consider "\<not> hk_done h" | "hk_done h" "\<not> hk_told h" | "hk_done h" "hk_told h" by blast
  then show ?thesis
  proof cases
    case 1
    then have "end_distance (done_arrives h) < end_distance h" by (simp add: end_distance_def done_arrives_def)
    then show ?thesis using loop_step.arrives[OF assms(2) 1] by blast
  next
    case 2
    then have "end_distance (future_done h) < end_distance h" by (simp add: end_distance_def future_done_def)
    then show ?thesis using loop_step.told[OF 2] by blast
  next
    case 3
    show ?thesis
    proof (cases "hk_loop h")
      case Checking
      then have "end_distance (check_done h) < end_distance h" using 3 by (simp add: end_distance_def check_done_def)
      then show ?thesis using loop_step.check[OF Checking] by blast
    next
      case Sleeping
      then have "hk_event h" using ok(1) 3 by (simp add: end_ok_def)
      moreover have "end_distance (wake_up Running_asked h) < end_distance h" by (simp add: end_distance_def wake_up_def Sleeping)
      ultimately show ?thesis using loop_step.up[OF Sleeping] by blast
    next
      case Running_asked
      have "end_distance (run_asked h) < end_distance h"
        using Running_asked 3 by (simp add: run_asked_def Let_def end_distance_def split: list.split prod.split bool.split option.split)
      then show ?thesis using loop_step.runs[OF Running_asked] by blast
    next
      case (Hook b p)
      have "end_distance (hook_returns b p (Inl RuntimeError) h) < end_distance h"
        by (simp add: hook_returns_def Let_def end_distance_def Hook)
      then show ?thesis using loop_step.returns[OF Hook] by blast
    next
      case Shielded
      have "loop_step h (shield_check h)" using loop_step.shield[OF Shielded] 3 by blast
      moreover have "end_distance (shield_check h) < end_distance h" using 3 by (simp add: end_distance_def shield_check_def Shielded)
      ultimately show ?thesis by blast
    qed (use assms(3) in simp)
  qed
qed

lemma call_returns: "hooks_ok h \<Longrightarrow> call_done h \<Longrightarrow> \<exists>h'. loop_step\<^sup>*\<^sup>* h h' \<and> hk_loop h' = Returned"
proof (induction "end_distance h" arbitrary: h rule: less_induct)
  case less
  show ?case
  proof (cases "hk_loop h = Returned")
    case False
    then obtain g where g: "loop_step h g" "end_distance g < end_distance h" using end_step less.prems by blast
    moreover have "hooks_ok g" "call_done g" using loop_step_ok[OF g(1)] loop_step_keeps[OF g(1)] less.prems by simp_all
    ultimately show ?thesis using less.hyps[of g] by (meson converse_rtranclp_into_rtranclp)
  qed blast
qed

lemma done_answered: "hooks_ok h \<Longrightarrow> call_done h \<Longrightarrow> a < length (hk_answers h) \<Longrightarrow> answered h a"
  by (auto simp: hooks_ok_def queue_ok_def end_ok_def call_done_def split: worker.splits)

text \<open>C15. No hook waits for ever, and no wake-up is lost. Whatever the worker asks and posts, however the loop is
  interleaved with it and wherever the caller cancels, every answer the worker was promised can come by steps
  of the loop alone, the hooks it runs returning; when the call has ended every hook it asked has its answer,
  those it posted too, and the coroutine that awaits the call can return; and never more than the window of
  posted hooks are open.\<close>

theorem hooks_answered:
  assumes "hooks_reached h"
  shows "(\<forall>a<length (hk_answers h). \<exists>h'. loop_step\<^sup>*\<^sup>* h h' \<and> answered h' a) \<and>
    (call_done h \<longrightarrow> (\<forall>a<length (hk_answers h). answered h a) \<and> (\<exists>h'. loop_step\<^sup>*\<^sup>* h h' \<and> hk_loop h' = Returned)) \<and>
    length (hk_posted h) \<le> POSTED_WINDOW"
proof (intro conjI impI allI)
  note ok = reached_hooks_ok[OF assms]
  show "\<exists>h'. loop_step\<^sup>*\<^sup>* h h' \<and> answered h' a" if "a < length (hk_answers h)" for a by (rule answer_comes[OF ok that])
  show "answered h a" if "call_done h" "a < length (hk_answers h)" for a by (rule done_answered[OF ok that])
  show "\<exists>h'. loop_step\<^sup>*\<^sup>* h h' \<and> hk_loop h' = Returned" if "call_done h" by (rule call_returns[OF ok that])
  show "length (hk_posted h) \<le> POSTED_WINDOW" using ok by (simp add: hooks_ok_def queue_ok_def)
qed

text \<open>A posted hook whose put finds the loop asleep.\<close>

lemma posted_reached:
  "\<exists>h :: unit hooks. hooks_reached h \<and> hk_asked h = [(0, True)] \<and> \<not> answered h 0 \<and> length (hk_answers h) = 1 \<and> hk_loop h = Sleeping"
proof -
  define h1 :: "unit hooks" where "h1 = check_done (new_hooks False)"
  define h2 where "h2 = post h1"
  define h3 where "h3 = the (post_step h2)"
  note d = h1_def h2_def h3_def new_hooks_def check_done_def post_def post_step_def put_hook_def Let_def
  have "hooks_reached h1" unfolding h1_def
    by (rule hooks_reached.step[OF hooks_reached.new hooks_step.loop[OF loop_step.check]]) (simp add: d)
  then have "hooks_reached h2" unfolding h2_def by (rule hooks_reached.step) (rule hooks_step.posts, simp add: d)
  then have "hooks_reached h3" by (rule hooks_reached.step) (rule hooks_step.posting; simp add: d)
  then show ?thesis by (intro exI[of _ h3]) (simp add: d answered_def is_settled_def)
qed

lemma hooks_answered_witness:
  "\<exists>h :: unit hooks. hooks_reached h \<and> \<not> answered h 0 \<and> hk_loop h = Sleeping \<and> (\<exists>h'. loop_step\<^sup>*\<^sup>* h h' \<and> answered h' 0)"
proof -
  obtain h :: "unit hooks" where h: "hooks_reached h" "\<not> answered h 0" "length (hk_answers h) = 1" "hk_loop h = Sleeping"
    using posted_reached by blast
  then show ?thesis using hooks_answered[OF h(1)] by auto
qed

end
