(* ===== verification/Runner.thy ===== *)
theory Runner
  imports Effects
begin

text \<open>
  The runners of the wrappers, \<open>huggorm_gen/payload/_runtime.py\<close>: where a wrapped object is built, which
  executor its calls run on, what an argument contributes, and how a failure arrives. A runner is known by
  an identity. The bound objects, their factories and methods are the record \<open>bound\<close>, an argument. Building under the
  lock is modelled twice: as any number of threads that interleave between two accesses of a field, and as the one step
  the calls below use. A call from submit to answer is one step, its hooks and its thread being the subject of \<open>Hooks\<close>,
  \<open>Pool\<close> and \<open>Home\<close>. \<open>rt_built\<close> lists the factories run so far.
\<close>

subsection \<open>Errors\<close>

text \<open>What a caller sees: an exception that passes through, or \<open>InternalError\<close> with its message and cause.\<close>

datatype failure = Passed exn | Internal string exn

text \<open>An error that carries \<open>to_dict\<close>, as \<open>WrapperError\<close> and \<open>InternalError\<close> build it.\<close>

definition wrapper_dict :: "string \<Rightarrow> string \<Rightarrow> (string, string) dict" where
  "wrapper_dict code message = [(''code'', code), (''message'', message)]"

definition internal_dict :: "string \<Rightarrow> string \<Rightarrow> string \<Rightarrow> (string, string) dict" where
  "internal_dict message cause_type cause_message =
     dict_set ''cause_message'' cause_message (dict_set ''cause_type'' cause_type (wrapper_dict ''internal'' message))"

subsection \<open>Building under the lock\<close>

text \<open>
  One runner as the threads see it that build it (\<open>_resolve\<close>). A place is what a thread does next: the first look at
  the object, the second read of the fast path, taking the lock, the looks under it, the factory, giving the lock up, and
  the last read. The counters say how often a factory was begun, the object dropped (\<open>_retire\<close>, \<open>aclose\<close> of an attached
  runner) and a factory left by what is no \<open>Exception\<close>.
\<close>

datatype 'v place = Calling | Reading | Wanting | Holding | Building | Releasing "exn option" | Leaving | Ended "exn + 'v option"

datatype 'v made_by = Done 'v | Failed exn | Aborted exn

record 'v building =
  bg_factory :: bool
  bg_obj :: "'v option"
  bg_error :: "exn option"
  bg_lock :: "nat option"
  bg_at :: "nat \<Rightarrow> 'v place"
  bg_runs :: nat
  bg_drops :: nat
  bg_aborts :: nat

definition put_at :: "nat \<Rightarrow> 'v place \<Rightarrow> 'v building \<Rightarrow> 'v building" where
  "put_at t p s = s\<lparr>bg_at := (bg_at s)(t := p)\<rparr>"

definition look_locked :: "nat \<Rightarrow> 'v building \<Rightarrow> 'v building" where
  "look_locked t s = (if bg_obj s \<noteq> None then put_at t (Releasing None) s
     else (case bg_error s of Some e \<Rightarrow> put_at t (Releasing (Some e)) s
       | None \<Rightarrow> if bg_factory s then put_at t Building (s\<lparr>bg_runs := Suc (bg_runs s)\<rparr>)
                 else put_at t (Releasing (Some AssertionError)) (s\<lparr>bg_error := Some AssertionError\<rparr>)))"

definition factory_ends :: "nat \<Rightarrow> 'v made_by \<Rightarrow> 'v building \<Rightarrow> 'v building" where
  "factory_ends t out s = (case out of
       Done v \<Rightarrow> put_at t (Releasing None) (s\<lparr>bg_obj := Some v\<rparr>)
     | Failed e \<Rightarrow> put_at t (Releasing (Some e)) (s\<lparr>bg_error := Some e\<rparr>)
     | Aborted e \<Rightarrow> put_at t (Releasing (Some e)) (s\<lparr>bg_aborts := Suc (bg_aborts s)\<rparr>))"

text \<open>The next step of a thread; \<open>out\<close> is how the factory ends when that is the step.\<close>

definition build_next :: "'v made_by \<Rightarrow> nat \<Rightarrow> 'v building \<Rightarrow> 'v building option" where
  "build_next out t s = (case bg_at s t of
       Calling \<Rightarrow> Some (put_at t (if bg_obj s \<noteq> None then Reading else Wanting) s)
     | Reading \<Rightarrow> Some (put_at t (Ended (Inr (bg_obj s))) s)
     | Wanting \<Rightarrow> if bg_lock s = None then Some (put_at t Holding (s\<lparr>bg_lock := Some t\<rparr>)) else None
     | Holding \<Rightarrow> Some (look_locked t s)
     | Building \<Rightarrow> Some (factory_ends t out s)
     | Releasing r \<Rightarrow> Some (put_at t (case r of None \<Rightarrow> Leaving | Some e \<Rightarrow> Ended (Inl e)) (s\<lparr>bg_lock := None\<rparr>))
     | Leaving \<Rightarrow> Some (put_at t (Ended (Inr (bg_obj s))) s)
     | Ended r \<Rightarrow> None)"

definition unbuilt :: "bool \<Rightarrow> 'v option \<Rightarrow> 'v building" where
  "unbuilt fac ob = \<lparr>bg_factory = fac, bg_obj = ob, bg_error = None, bg_lock = None, bg_at = (\<lambda>_. Calling),
     bg_runs = 0, bg_drops = 0, bg_aborts = 0\<rparr>"

definition drop_object :: "'v building \<Rightarrow> 'v building" where
  "drop_object s = s\<lparr>bg_obj := None, bg_drops := Suc (bg_drops s)\<rparr>"

inductive building_reached :: "'v building \<Rightarrow> bool" where
  new: "building_reached (unbuilt fac ob)"
| move: "building_reached s \<Longrightarrow> build_next out t s = Some s' \<Longrightarrow> building_reached s'"
| again: "building_reached s \<Longrightarrow> bg_at s t = Ended r \<Longrightarrow> building_reached (put_at t Calling s)"
| dropped: "building_reached s \<Longrightarrow> building_reached (drop_object s)"

subsection \<open>State\<close>

text \<open>Where a runner's work goes. An \<open>AttachedRunner\<close> goes where its parent goes.\<close>

datatype kind = Affine nat | Attached kind | Pooled | Inline

fun dedicated :: "kind \<Rightarrow> bool" where
  "dedicated (Affine h) = True" | "dedicated (Attached k) = True" | "dedicated Pooled = False" | "dedicated Inline = False"

datatype executor = Home_of nat | Shared_pool

fun executor_of :: "kind \<Rightarrow> exn + executor" where
  "executor_of (Affine h) = Inr (Home_of h)"
| "executor_of (Attached k) = executor_of k"
| "executor_of Pooled = Inr Shared_pool"
| "executor_of Inline = Inl (Raised ''NotImplementedError'')"

record 'v runner =
  rn_kind :: kind
  rn_factory :: bool
  rn_obj :: "'v option"
  rn_error :: "exn option"

record ('w, 'v) runtime =
  rt_world :: 'w
  rt_runners :: "(nat, 'v runner) dict"
  rt_request :: int
  rt_pool_size :: int
  rt_pool :: "int option"
  rt_retired :: "nat list" \<comment> \<open>homes shut down\<close>
  rt_built :: "nat list"

text \<open>An argument of a call: a plain value, an async wrapper over a runner, or a handle on a server.\<close>

datatype 'v arg = Plain 'v | Wrapper nat bool | Foreign

text \<open>What comes from the bindings. A call answers \<open>None\<close> where Python answers \<open>None\<close>.\<close>

record ('w, 'v) bound =
  bd_make :: "nat \<Rightarrow> ('w, 'v) eff"
  bd_call :: "'v \<Rightarrow> string \<Rightarrow> 'v list \<Rightarrow> ('w, 'v option) eff"
  bd_function :: "string \<Rightarrow> 'v list \<Rightarrow> ('w, 'v option) eff"
  bd_copy :: "'v \<Rightarrow> ('w, 'v) eff"
  bd_typed :: "exn \<Rightarrow> bool"
  bd_execution :: "string \<Rightarrow> kind" \<comment> \<open>how a served class runs, its home ignored\<close>
  bd_adapt :: "string \<Rightarrow> 'v arg \<Rightarrow> exn + 'v arg" \<comment> \<open>\<open>adapt\<close> on a class Nix calls back\<close>

type_synonym ('w, 'v, 'a) run = "(('w, 'v) runtime, 'a) eff"

definition in_world :: "('w, 'a) eff \<Rightarrow> ('w, 'v, 'a) run" where
  "in_world m = (\<lambda>s. let (r, w) = m (rt_world s) in (r, s\<lparr>rt_world := w\<rparr>))"

definition set_runner :: "nat \<Rightarrow> 'v runner \<Rightarrow> ('w, 'v) runtime \<Rightarrow> ('w, 'v) runtime" where
  "set_runner i r s = s\<lparr>rt_runners := dict_set i r (rt_runners s)\<rparr>"

definition with_runner :: "nat \<Rightarrow> ('v runner \<Rightarrow> ('w, 'v, 'a) run) \<Rightarrow> ('w, 'v, 'a) run" where
  "with_runner i f = (\<lambda>s. case dict_get (rt_runners s) i of None \<Rightarrow> (Inl KeyError, s) | Some r \<Rightarrow> f r s)"

subsection \<open>The shared pool and the request numbers\<close>

definition set_pool_size :: "int \<Rightarrow> ('w, 'v, unit) run" where
  "set_pool_size n = (\<lambda>s. if n < 1 then (Inl ValueError, s)
     else if rt_pool s \<noteq> None then (Inl RuntimeError, s) else (Inr (), s\<lparr>rt_pool_size := n\<rparr>))"

definition shared_pool :: "('w, 'v, int) run" where
  "shared_pool = (\<lambda>s. case rt_pool s of Some n \<Rightarrow> (Inr n, s)
     | None \<Rightarrow> (Inr (rt_pool_size s), s\<lparr>rt_pool := Some (rt_pool_size s)\<rparr>))"

definition next_request :: "('w, 'v, int) run" where
  "next_request = (\<lambda>s. let n = rt_request s + 1 in (Inr n, s\<lparr>rt_request := n\<rparr>))"

text \<open>An executor takes work unless it was shut down. The pool is made at its first use.\<close>

definition use_executor :: "kind \<Rightarrow> ('w, 'v, unit) run" where
  "use_executor k = bind_eff (lift_res (executor_of k)) (\<lambda>e. case e of
     Shared_pool \<Rightarrow> bind_eff shared_pool (\<lambda>_. ret ())
   | Home_of h \<Rightarrow> (\<lambda>s. if h \<in> set (rt_retired s) then (Inl RuntimeError, s) else (Inr (), s)))"

subsection \<open>Building the object\<close>

text \<open>\<open>_resolve\<close>: the object, built at the first call; a factory that failed is not run again.\<close>

definition rn_resolve :: "('w, 'v) bound \<Rightarrow> nat \<Rightarrow> ('w, 'v, 'v) run" where
  "rn_resolve b i = with_runner i (\<lambda>r. case (rn_obj r, rn_error r) of
       (Some v, _) \<Rightarrow> ret v
     | (None, Some e) \<Rightarrow> raise e
     | (None, None) \<Rightarrow> (\<lambda>s. let (res, s') = (if rn_factory r then in_world (bd_make b i) (s\<lparr>rt_built := rt_built s @ [i]\<rparr>)
                                   else (Inl AssertionError, s)) in
         case res of Inr v \<Rightarrow> (Inr v, set_runner i (r\<lparr>rn_obj := Some v\<rparr>) s')
                   | Inl e \<Rightarrow> (Inl e, set_runner i (r\<lparr>rn_error := Some e\<rparr>) s')))"

text \<open>\<open>ensure\<close> runs off the home thread, so a dedicated runner must have its object already.\<close>

definition ensure :: "('w, 'v) bound \<Rightarrow> nat \<Rightarrow> ('w, 'v, 'v) run" where
  "ensure b i = with_runner i (\<lambda>r. if dedicated (rn_kind r) \<and> rn_obj r = None
     then raise (case rn_error r of Some e \<Rightarrow> e | None \<Rightarrow> TypeError) else rn_resolve b i)"

definition unwrap_arg :: "('w, 'v) bound \<Rightarrow> 'v arg \<Rightarrow> ('w, 'v, 'v) run" where
  "unwrap_arg b x = (case x of Plain v \<Rightarrow> ret v | Foreign \<Rightarrow> raise TypeError
     | Wrapper i copied \<Rightarrow> bind_eff (ensure b i) (\<lambda>v. if copied then in_world (bd_copy b v) else ret v))"

definition unwrap_args :: "('w, 'v) bound \<Rightarrow> 'v arg list \<Rightarrow> ('w, 'v, 'v list) run" where
  "unwrap_args b = map_eff (unwrap_arg b)"

definition refuse_foreign :: "kind \<Rightarrow> kind \<Rightarrow> exn option" where
  "refuse_foreign callee a = (if \<not> (dedicated callee \<and> dedicated a) then None
     else if executor_of callee = executor_of a then None else Some TypeError)"

fun check_isolation :: "kind \<Rightarrow> 'v arg list \<Rightarrow> ('w, 'v, unit) run" where
  "check_isolation callee [] = ret ()"
| "check_isolation callee (x # xs) = bind_eff (case x of Plain v \<Rightarrow> ret () | Foreign \<Rightarrow> raise TypeError
     | Wrapper i copied \<Rightarrow> if copied then ret () else with_runner i (\<lambda>r.
         case refuse_foreign callee (rn_kind r) of None \<Rightarrow> ret () | Some e \<Rightarrow> raise e)) (\<lambda>_. check_isolation callee xs)"

text \<open>\<open>materialize\<close> builds on the runner's own executor, an inline runner where it is called.\<close>

definition materialize :: "('w, 'v) bound \<Rightarrow> nat \<Rightarrow> ('w, 'v, unit) run" where
  "materialize b i = with_runner i (\<lambda>r. if rn_kind r = Inline then bind_eff (rn_resolve b i) (\<lambda>_. ret ())
     else if rn_obj r \<noteq> None then ret ()
     else bind_eff (use_executor (rn_kind r)) (\<lambda>_. bind_eff (rn_resolve b i) (\<lambda>_. ret ())))"

fun materialize_args :: "('w, 'v) bound \<Rightarrow> 'v arg list \<Rightarrow> ('w, 'v, unit) run" where
  "materialize_args b [] = ret ()"
| "materialize_args b (x # xs) = bind_eff (case x of Wrapper i c \<Rightarrow> with_runner i (\<lambda>r.
     if rn_obj r = None then materialize b i else ret ()) | _ \<Rightarrow> ret ()) (\<lambda>_. materialize_args b xs)"

subsection \<open>Calls\<close>

text \<open>The policy of \<open>_invoke\<close>, \<open>run\<close> and \<open>call_function\<close>: a typed error passes, any other is wrapped.\<close>

definition fails_as :: "('w, 'v) bound \<Rightarrow> string \<Rightarrow> exn \<Rightarrow> failure" where
  "fails_as b name e = (if bd_typed b e then Passed e else Internal (name @ '' failed'') e)"

definition invoke_body :: "('w, 'v) bound \<Rightarrow> nat \<Rightarrow> string \<Rightarrow> 'v arg list \<Rightarrow> ('w, 'v, 'v option) run" where
  "invoke_body b i name xs = bind_eff (rn_resolve b i) (\<lambda>v. bind_eff (unwrap_args b xs) (\<lambda>vs. in_world (bd_call b v name vs)))"

type_synonym ('w, 'v, 'a) answering = "('w, 'v) runtime \<Rightarrow> (failure + 'a) \<times> ('w, 'v) runtime"

definition guarded :: "('w, 'v) bound \<Rightarrow> string \<Rightarrow> ('w, 'v, 'a) run \<Rightarrow> ('w, 'v, 'a) answering" where
  "guarded b name m = (\<lambda>s. case m s of (Inl e, s') \<Rightarrow> (Inl (fails_as b name e), s') | (Inr a, s') \<Rightarrow> (Inr a, s'))"

definition unguarded :: "('w, 'v, 'a) run \<Rightarrow> ('w, 'v, 'a) answering" where
  "unguarded m = (\<lambda>s. case m s of (Inl e, s') \<Rightarrow> (Inl (Passed e), s') | (Inr a, s') \<Rightarrow> (Inr a, s'))"

definition and_then :: "('w, 'v, 'a) answering \<Rightarrow> ('a \<Rightarrow> ('w, 'v, 'c) answering) \<Rightarrow> ('w, 'v, 'c) answering" where
  "and_then m f = (\<lambda>s. case m s of (Inl e, s') \<Rightarrow> (Inl e, s') | (Inr a, s') \<Rightarrow> f a s')"

definition invoke :: "('w, 'v) bound \<Rightarrow> nat \<Rightarrow> string \<Rightarrow> 'v arg list \<Rightarrow> ('w, 'v, 'v option) answering" where
  "invoke b i name xs = guarded b name (invoke_body b i name xs)"

text \<open>A result: a value as it is, or a new wrapper over it.\<close>

datatype 'v outcome = Value "'v option" | Wrapped nat

text \<open>\<open>adopt\<close> of each runner class. The new runner runs as the class's execution says; an affine object
  stays on its producer's executor, and has none when the producer is not dedicated.\<close>

definition adopt_kind :: "kind \<Rightarrow> kind \<Rightarrow> exn + kind" where
  "adopt_kind execution parent = (case execution of
       Affine _ \<Rightarrow> if dedicated parent then Inr (Attached parent) else Inl TypeError
     | k \<Rightarrow> Inr k)"

definition add_runner :: "'v runner \<Rightarrow> ('w, 'v, nat) run" where
  "add_runner r = (\<lambda>s. let i = Suc (Max (insert 0 (set (dict_keys (rt_runners s))))) in (Inr i, set_runner i r s))"

definition adopted :: "('w, 'v) bound \<Rightarrow> kind \<Rightarrow> string option \<Rightarrow> 'v option \<Rightarrow> ('w, 'v, 'v outcome) run" where
  "adopted b parent returns result = (case (result, returns) of
       (Some v, Some cls) \<Rightarrow> bind_eff (lift_res (adopt_kind (bd_execution b cls) parent)) (\<lambda>k.
          bind_eff (add_runner \<lparr>rn_kind = k, rn_factory = False, rn_obj = Some v, rn_error = None\<rparr>) (\<lambda>i. ret (Wrapped i)))
     | _ \<Rightarrow> ret (Value result))"

text \<open>\<open>_adapted_args\<close>: what a \<open>@calls_back\<close> parameter takes is adapted to the class it names; a \<open>Local\<close> spec has none.\<close>

fun adapt_each :: "('w, 'v) bound \<Rightarrow> string option list \<Rightarrow> 'v arg list \<Rightarrow> exn + 'v arg list" where
  "adapt_each b [] [] = Inr []"
| "adapt_each b (t # ts) (x # xs) = res_bind (case t of None \<Rightarrow> Inr x | Some cls \<Rightarrow> bd_adapt b cls x) (\<lambda>y.
     res_bind (adapt_each b ts xs) (\<lambda>ys. Inr (y # ys)))"
| "adapt_each b _ _ = Inl ValueError"

definition adapted_args :: "('w, 'v) bound \<Rightarrow> string option list option \<Rightarrow> 'v arg list \<Rightarrow> exn + 'v arg list" where
  "adapted_args b takes xs = (case takes of None \<Rightarrow> Inr xs | Some ts \<Rightarrow> adapt_each b ts xs)"

text \<open>\<open>call\<close>. A dedicated runner awaits nothing before its submit; an inline one has no executor and no request.\<close>

definition run_method ::
  "('w, 'v) bound \<Rightarrow> nat \<Rightarrow> string \<Rightarrow> string option list option \<Rightarrow> string option \<Rightarrow> 'v arg list \<Rightarrow> ('w, 'v, 'v outcome) answering" where
  "run_method b i name takes returns args = (\<lambda>s. case dict_get (rt_runners s) i of None \<Rightarrow> (Inl (Passed KeyError), s)
     | Some r \<Rightarrow> let k = rn_kind r in
        and_then (unguarded (lift_res (adapted_args b takes args))) (\<lambda>xs.
        and_then (unguarded (check_isolation k xs)) (\<lambda>_.
        and_then (unguarded (if dedicated k then ret () else materialize_args b xs)) (\<lambda>_.
        and_then (if k = Inline then unguarded (ret ())
                  else unguarded (bind_eff next_request (\<lambda>_. use_executor k))) (\<lambda>_.
        and_then (invoke b i name xs) (\<lambda>v. unguarded (adopted b k returns v)))))) s)"

definition call_function :: "('w, 'v) bound \<Rightarrow> string \<Rightarrow> 'v arg list \<Rightarrow> ('w, 'v, 'v option) answering" where
  "call_function b name xs = and_then (unguarded (materialize_args b xs)) (\<lambda>_.
     and_then (unguarded (bind_eff next_request (\<lambda>_. use_executor Pooled))) (\<lambda>_.
     guarded b name (bind_eff (unwrap_args b xs) (in_world \<circ> bd_function b name))))"

text \<open>\<open>run\<close>: a function \<open>f\<close> of the target, on its executor.\<close>

definition run_function :: "('w, 'v) bound \<Rightarrow> nat \<Rightarrow> ('v \<Rightarrow> ('w, 'a) eff) \<Rightarrow> ('w, 'v, 'a) answering" where
  "run_function b i f = (\<lambda>s. case dict_get (rt_runners s) i of None \<Rightarrow> (Inl (Passed KeyError), s)
     | Some r \<Rightarrow> (if rn_kind r = Inline then unguarded (bind_eff (ensure b i) (in_world \<circ> f))
        else and_then (unguarded (bind_eff next_request (\<lambda>_. use_executor (rn_kind r)))) (\<lambda>_.
             guarded b ''run'' (bind_eff (rn_resolve b i) (in_world \<circ> f)))) s)"

text \<open>\<open>aclose\<close>: an affine runner submits \<open>_retire\<close>, which drops its object on its thread, and another thread then shuts the
  executor down; between the two the loop runs, and a call may come. An attached runner drops its object; pool and inline
  runners do nothing.\<close>

definition aclose_retire :: "nat \<Rightarrow> ('w, 'v, unit) run" where
  "aclose_retire i = with_runner i (\<lambda>r. case rn_kind r of
       Affine h \<Rightarrow> bind_eff (use_executor (Affine h)) (\<lambda>_. \<lambda>s. (Inr (), set_runner i (r\<lparr>rn_obj := None\<rparr>) s))
     | Attached k \<Rightarrow> (\<lambda>s. (Inr (), set_runner i (r\<lparr>rn_obj := None\<rparr>) s))
     | _ \<Rightarrow> ret ())"

definition aclose_shutdown :: "nat \<Rightarrow> ('w, 'v, unit) run" where
  "aclose_shutdown i = with_runner i (\<lambda>r. case rn_kind r of
       Affine h \<Rightarrow> (\<lambda>s. (Inr (), s\<lparr>rt_retired := set_add h (rt_retired s)\<rparr>))
     | _ \<Rightarrow> ret ())"

text \<open>A new wrapper over a factory: an affine one gets a home of its own.\<close>

definition new_runner :: "kind \<Rightarrow> ('w, 'v, nat) run" where
  "new_runner k = add_runner \<lparr>rn_kind = k, rn_factory = True, rn_obj = None, rn_error = None\<rparr>"

end
