(* ===== verification/Runner_Props.thy ===== *)
theory Runner_Props
  imports Runner
begin

text \<open>
  What a caller of a wrapper can rely on. However threads race to build an object, its factory runs once; an object of one
  dedicated thread never reaches a call on another; and what a call returns runs where its class says.
\<close>

subsection \<open>A factory runs once\<close>

definition locked :: "'v place \<Rightarrow> bool" where
  "locked p \<longleftrightarrow> p = Holding \<or> p = Building \<or> (\<exists>r. p = Releasing r)"

text \<open>Whether a run of the factory is accounted for: by the object, by the error it left or by the thread inside it.\<close>

definition accounted :: "'v building \<Rightarrow> bool" where
  "accounted s \<longleftrightarrow> bg_obj s \<noteq> None \<or> bg_error s \<noteq> None \<or> (\<exists>t. bg_at s t = Building)"

text \<open>What a thread past its looks relies on, while nothing is dropped and no factory is aborted.\<close>

definition relies :: "'v building \<Rightarrow> 'v place \<Rightarrow> bool" where
  "relies s p \<longleftrightarrow> (case p of
       Reading \<Rightarrow> bg_obj s \<noteq> None | Leaving \<Rightarrow> bg_obj s \<noteq> None
     | Building \<Rightarrow> bg_obj s = None \<and> bg_error s = None
     | Releasing None \<Rightarrow> bg_obj s \<noteq> None | Releasing (Some e) \<Rightarrow> bg_error s = Some e
     | Ended (Inl e) \<Rightarrow> bg_error s = Some e | Ended (Inr v) \<Rightarrow> v = bg_obj s \<and> v \<noteq> None
     | _ \<Rightarrow> True)"

definition building_ok :: "'v building \<Rightarrow> bool" where
  "building_ok s \<longleftrightarrow> (\<forall>t. locked (bg_at s t) \<longleftrightarrow> bg_lock s = Some t) \<and>
     bg_runs s \<le> bg_drops s + bg_aborts s + (if accounted s then 1 else 0) \<and>
     (bg_drops s = 0 \<and> bg_aborts s = 0 \<longrightarrow> (bg_obj s = None \<or> bg_error s = None) \<and> (\<forall>t. relies s (bg_at s t)))"

lemma place_put [simp]: "bg_at (put_at t p s) = (bg_at s)(t := p)" "bg_obj (put_at t p s) = bg_obj s" "bg_error (put_at t p s) = bg_error s"
  "bg_lock (put_at t p s) = bg_lock s" "bg_runs (put_at t p s) = bg_runs s" "bg_drops (put_at t p s) = bg_drops s"
  "bg_aborts (put_at t p s) = bg_aborts s" "bg_factory (put_at t p s) = bg_factory s"
  by (simp_all add: put_at_def)

lemma relies_put: "relies (put_at t p s) q = relies s q"
  by (simp add: relies_def cong: place.case_cong sum.case_cong option.case_cong)

lemma locked_simps [simp]: "locked Holding" "locked Building" "locked (Releasing r)" "\<not> locked Calling" "\<not> locked Reading" "\<not> locked Wanting"
  "\<not> locked Leaving" "\<not> locked (Ended x)"
  by (simp_all add: locked_def)

lemma relies_simps [simp]:
  "relies s Calling" "relies s Wanting" "relies s Holding" "relies s Reading = (bg_obj s \<noteq> None)" "relies s Leaving = (bg_obj s \<noteq> None)"
  "relies s Building = (bg_obj s = None \<and> bg_error s = None)" "relies s (Releasing None) = (bg_obj s \<noteq> None)"
  "relies s (Releasing (Some e)) = (bg_error s = Some e)" "relies s (Ended (Inl e)) = (bg_error s = Some e)"
  "relies s (Ended (Inr v)) = (v = bg_obj s \<and> v \<noteq> None)"
  by (simp_all add: relies_def)

lemma building_okD:
  assumes "building_ok s"
  shows "locked (bg_at s t) \<longleftrightarrow> bg_lock s = Some t" "bg_runs s \<le> bg_drops s + bg_aborts s + (if accounted s then 1 else 0)"
    "bg_drops s = 0 \<Longrightarrow> bg_aborts s = 0 \<Longrightarrow> relies s (bg_at s t)"
    "bg_drops s = 0 \<Longrightarrow> bg_aborts s = 0 \<Longrightarrow> bg_obj s = None \<or> bg_error s = None"
  using assms by (auto simp: building_ok_def)

text \<open>A move that leaves the fields alone and the thread neither gains nor gives up the lock nor leaves the factory.\<close>

lemma ok_put:
  assumes "building_ok s" "locked p \<longleftrightarrow> locked (bg_at s t)" "bg_at s t \<noteq> Building" "p \<noteq> Building"
    "bg_drops s = 0 \<Longrightarrow> bg_aborts s = 0 \<Longrightarrow> relies s p"
  shows "building_ok (put_at t p s)"
proof -
  have "accounted (put_at t p s) = accounted s" using assms(3,4) by (auto simp: accounted_def)
  then show ?thesis using building_okD[OF assms(1)] assms(2,5) by (auto simp: building_ok_def relies_put)
qed

lemma ok_look:
  assumes ok: "building_ok s" and h: "bg_at s t = Holding"
  shows "building_ok (look_locked t s)"
proof -
  have l: "bg_lock s = Some t" using building_okD(1)[OF ok, of t] h by simp
  then have nb: "bg_at s u \<noteq> Building" for u using building_okD(1)[OF ok, of u] h by (cases "u = t") auto
  consider (obj) "bg_obj s \<noteq> None" | (err) e where "bg_obj s = None" "bg_error s = Some e"
    | (none) "bg_obj s = None" "bg_error s = None" by (cases "bg_error s") auto
  then show ?thesis
  proof cases
    case obj
    then show ?thesis using h by (auto simp: look_locked_def intro!: ok_put[OF ok])
  next
    case err
    then show ?thesis using h by (auto simp: look_locked_def intro!: ok_put[OF ok])
  next
    case none
    then have a: "\<not> accounted s" using nb by (simp add: accounted_def)
    have o: "relies s (bg_at s u)" "locked (bg_at s u) \<longleftrightarrow> u = t" if "bg_drops s = 0" "bg_aborts s = 0" for u
      using building_okD(3)[OF ok that] building_okD(1)[OF ok, of u] l by auto
    have rel: "relies (s\<lparr>bg_error := Some AssertionError\<rparr>) (bg_at s u)" if "bg_drops s = 0" "bg_aborts s = 0" "u \<noteq> t" for u
      using o[of u] that none by (cases "bg_at s u") (auto simp: relies_def split: sum.splits option.splits)
    show ?thesis
    proof (cases "bg_factory s")
      case True
      have "relies (s\<lparr>bg_runs := Suc (bg_runs s)\<rparr>) p = relies s p" for p by (simp add: relies_def cong: place.case_cong sum.case_cong option.case_cong)
      then show ?thesis using True none a building_okD[OF ok] l h
        by (auto simp: look_locked_def building_ok_def relies_put accounted_def)
    next
      case False
      then show ?thesis using none a building_okD[OF ok] l h rel
        by (auto simp: look_locked_def building_ok_def relies_put accounted_def)
    qed
  qed
qed

lemma ok_ends:
  assumes ok: "building_ok s" and h: "bg_at s t = Building"
  shows "building_ok (factory_ends t out s)"
proof -
  have l: "bg_lock s = Some t" using building_okD(1)[OF ok, of t] h by simp
  then have nb: "bg_at s u = Building \<longleftrightarrow> u = t" for u using building_okD(1)[OF ok, of u] h by (cases "u = t") auto
  have a: "accounted s" using h by (auto simp: accounted_def)
  have n: "bg_obj s = None" "bg_error s = None" if "bg_drops s = 0" "bg_aborts s = 0"
    using building_okD(3)[OF ok that, of t] h by auto
  have o: "\<not> locked (bg_at s u)" if "u \<noteq> t" for u using building_okD(1)[OF ok, of u] l that by auto
  have d: "relies (s\<lparr>bg_obj := Some v\<rparr>) (bg_at s u)" if "bg_drops s = 0" "bg_aborts s = 0" "u \<noteq> t" for u v
    using building_okD(3)[OF ok that(1,2), of u] n[OF that(1,2)] o[OF that(3)]
    by (cases "bg_at s u") (auto simp: relies_def split: sum.splits option.splits)
  have f: "relies (s\<lparr>bg_error := Some e\<rparr>) (bg_at s u)" if "bg_drops s = 0" "bg_aborts s = 0" "u \<noteq> t" for u e
    using building_okD(3)[OF ok that(1,2), of u] n[OF that(1,2)] o[OF that(3)]
    by (cases "bg_at s u") (auto simp: relies_def split: sum.splits option.splits)
  show ?thesis
  proof (cases out)
    case (Done v)
    then show ?thesis using building_okD[OF ok] l n d a
      by (auto simp: factory_ends_def building_ok_def relies_put accounted_def)
  next
    case (Failed e)
    then show ?thesis using building_okD[OF ok] l n f a
      by (auto simp: factory_ends_def building_ok_def relies_put accounted_def)
  next
    case (Aborted e)
    then show ?thesis using building_okD[OF ok] l a
      by (auto simp: factory_ends_def building_ok_def)
  qed
qed

lemma ok_lock:
  assumes ok: "building_ok s"
  shows "bg_at s t = Wanting \<Longrightarrow> bg_lock s = None \<Longrightarrow> building_ok (put_at t Holding (s\<lparr>bg_lock := Some t\<rparr>))"
    and "bg_at s t = Releasing r \<Longrightarrow> building_ok (put_at t (case r of None \<Rightarrow> Leaving | Some e \<Rightarrow> Ended (Inl e)) (s\<lparr>bg_lock := None\<rparr>))"
proof -
  have rl: "relies (s\<lparr>bg_lock := x\<rparr>) p = relies s p" for p x by (simp add: relies_def cong: place.case_cong sum.case_cong option.case_cong)
  have ac: "accounted (put_at t p (s\<lparr>bg_lock := x\<rparr>)) = accounted s" if "p \<noteq> Building" "bg_at s t \<noteq> Building" for p x
    using that by (auto simp: accounted_def)
  show "building_ok (put_at t Holding (s\<lparr>bg_lock := Some t\<rparr>))" if "bg_at s t = Wanting" "bg_lock s = None"
    using building_okD[OF ok] that ac[of Holding "Some t"] by (auto simp: building_ok_def relies_put rl)
  show "building_ok (put_at t (case r of None \<Rightarrow> Leaving | Some e \<Rightarrow> Ended (Inl e)) (s\<lparr>bg_lock := None\<rparr>))" if "bg_at s t = Releasing r"
  proof -
    have l: "bg_lock s = Some t" using building_okD(1)[OF ok, of t] that by simp
    have "relies s (case r of None \<Rightarrow> Leaving | Some e \<Rightarrow> Ended (Inl e))" if "bg_drops s = 0" "bg_aborts s = 0"
      using building_okD(3)[OF ok that, of t] \<open>bg_at s t = Releasing r\<close> by (cases r) simp_all
    moreover have "accounted (put_at t (case r of None \<Rightarrow> Leaving | Some e \<Rightarrow> Ended (Inl e)) (s\<lparr>bg_lock := None\<rparr>)) = accounted s"
      by (rule ac) (use that in \<open>auto split: option.split\<close>)
    ultimately show ?thesis using building_okD[OF ok] l by (cases r) (auto simp: building_ok_def relies_put rl)
  qed
qed

lemma ok_next: "building_ok s \<Longrightarrow> build_next out t s = Some s' \<Longrightarrow> building_ok s'"
proof -
  assume ok: "building_ok s" and n: "build_next out t s = Some s'"
  show "building_ok s'"
  proof (cases "bg_at s t")
    case Holding
    then show ?thesis using n ok_look[OF ok] by (auto simp: build_next_def)
  next
    case Building
    then show ?thesis using n ok_ends[OF ok] by (auto simp: build_next_def)
  next
    case Wanting
    then show ?thesis using n ok_lock(1)[OF ok, of t] by (auto simp: build_next_def split: if_splits)
  next
    case (Releasing r)
    then show ?thesis using n ok_lock(2)[OF ok, of t r] by (auto simp: build_next_def)
  next
    case Calling
    then show ?thesis using n building_okD(3)[OF ok, of t]
      by (cases "bg_obj s = None") (auto simp: build_next_def relies_def intro!: ok_put[OF ok])
  qed (use n building_okD(3)[OF ok, of t] in \<open>auto simp: build_next_def intro!: ok_put[OF ok]\<close>)
qed

lemma reached_ok: "building_reached s \<Longrightarrow> building_ok s"
proof (induction rule: building_reached.induct)
  case (new fac ob)
  show ?case by (simp add: building_ok_def unbuilt_def accounted_def)
next
  case (move s out t s')
  then show ?case using ok_next by blast
next
  case (again s t r)
  then show ?case by (intro ok_put) auto
next
  case (dropped s)
  have "bg_runs s \<le> Suc (bg_drops s + bg_aborts s)" using building_okD(2)[OF dropped.IH] by (auto split: if_splits)
  then show ?case using building_okD(1)[OF dropped.IH] by (auto simp: building_ok_def drop_object_def)
qed

text \<open>A thread on its own does what the one step \<open>rn_resolve\<close> does.\<close>

definition alone :: "'v made_by \<Rightarrow> 'v building \<Rightarrow> 'v building" where
  "alone out s = ((\<lambda>s. case build_next out 0 s of None \<Rightarrow> s | Some s' \<Rightarrow> s') ^^ 6) s"

lemma alone_resolves:
  assumes "bg_at s 0 = Calling" "bg_lock s = None" "bg_obj s = None" "bg_error s = None" "bg_factory s"
  shows "bg_at (alone (Done v) s) 0 = Ended (Inr (Some v)) \<and> bg_obj (alone (Done v) s) = Some v \<and> bg_error (alone (Done v) s) = None"
    "bg_at (alone (Failed e) s) 0 = Ended (Inl e) \<and> bg_obj (alone (Failed e) s) = None \<and> bg_error (alone (Failed e) s) = Some e"
  using assms by (simp_all add: alone_def eval_nat_numeral build_next_def look_locked_def factory_ends_def)

text \<open>C27. However many threads call a runner at once, at every access of its fields: one thread at most is in the factory, and the
  factory was begun at most once more than the object was dropped or the factory left by what is no \<open>Exception\<close>. With
  neither, every call that ended has the one object or the one error the runner keeps. No thread is stuck: while one has
  not ended, one can move.\<close>

theorem factory_once:
  assumes "building_reached s"
  shows "bg_runs s \<le> Suc (bg_drops s + bg_aborts s) \<and> (\<forall>t u. bg_at s t = Building \<longrightarrow> bg_at s u = Building \<longrightarrow> t = u) \<and>
    (bg_drops s = 0 \<longrightarrow> bg_aborts s = 0 \<longrightarrow> (\<forall>t r. bg_at s t = Ended r \<longrightarrow>
       r = (case bg_error s of Some e \<Rightarrow> Inl e | None \<Rightarrow> Inr (bg_obj s)) \<and> r \<noteq> Inr None)) \<and>
    (\<forall>t. (\<exists>r. bg_at s t = Ended r) \<or> (\<exists>u. build_next out u s \<noteq> None))"
proof (intro conjI allI impI)
  have ok: "building_ok s" by (rule reached_ok[OF assms])
  show "bg_runs s \<le> Suc (bg_drops s + bg_aborts s)" using building_okD(2)[OF ok] by (auto split: if_splits)
  show "t = u" if "bg_at s t = Building" "bg_at s u = Building" for t u
    using building_okD(1)[OF ok, of t] building_okD(1)[OF ok, of u] that by simp
  show "r = (case bg_error s of Some e \<Rightarrow> Inl e | None \<Rightarrow> Inr (bg_obj s))" if "bg_drops s = 0" "bg_aborts s = 0" "bg_at s t = Ended r" for t r
    using building_okD(3)[OF ok that(1,2), of t] building_okD(4)[OF ok that(1,2)] that(3) by (cases r) auto
  show "r \<noteq> Inr None" if "bg_drops s = 0" "bg_aborts s = 0" "bg_at s t = Ended r" for t r
    using building_okD(3)[OF ok that(1,2), of t] that(3) by auto
  show "(\<exists>r. bg_at s t = Ended r) \<or> (\<exists>u. build_next out u s \<noteq> None)" for t
  proof (cases "bg_at s t = Wanting \<and> bg_lock s \<noteq> None")
    case True
    then obtain u where u: "bg_lock s = Some u" by auto
    then have "locked (bg_at s u)" using building_okD(1)[OF ok, of u] by simp
    then have "build_next out u s \<noteq> None" by (auto simp: locked_def build_next_def)
    then show ?thesis by blast
  next
    case False
    then have "(\<exists>r. bg_at s t = Ended r) \<or> build_next out t s \<noteq> None" by (cases "bg_at s t") (auto simp: build_next_def)
    then show ?thesis by blast
  qed
qed

text \<open>Two threads look, both want the lock; the first builds, the second finds the object.\<close>

fun moves :: "nat list \<Rightarrow> nat building \<Rightarrow> nat building option" where
  "moves [] s = Some s"
| "moves (t # ts) s = (case build_next (Done 7) t s of None \<Rightarrow> None | Some s' \<Rightarrow> moves ts s')"

lemma moves_reached: "building_reached s \<Longrightarrow> moves ts s = Some s' \<Longrightarrow> building_reached s'"
  by (induction ts s rule: moves.induct) (auto split: option.splits intro: building_reached.move)

lemma factory_once_witness:
  "\<exists>s. moves [0, 1, 0, 0, 0, 0, 0, 1, 1, 1, 1] (unbuilt True None) = Some s \<and> bg_runs s = 1 \<and> bg_runs s \<le> Suc (bg_drops s + bg_aborts s) \<and>
     bg_at s 0 = Ended (Inr (Some 7)) \<and> bg_at s 1 = Ended (Inr (Some 7))"
proof -
  obtain s where s: "moves [0, 1, 0, 0, 0, 0, 0, 1, 1, 1, 1] (unbuilt True None) = Some s" "bg_runs s = 1"
    "bg_at s 0 = Ended (Inr (Some 7))" "bg_at s 1 = Ended (Inr (Some 7))"
    by (simp add: build_next_def look_locked_def factory_ends_def unbuilt_def)
  have r: "building_reached s" by (rule moves_reached[OF building_reached.new s(1)])
  show ?thesis using s factory_once[OF r] by blast
qed

subsection \<open>Calls\<close>







definition new_runtime :: "'w \<Rightarrow> ('w, 'v) runtime" where
  "new_runtime w = \<lparr>rt_world = w, rt_runners = [], rt_request = 0, rt_pool_size = 4, rt_pool = None, rt_retired = [], rt_built = []\<rparr>"






text \<open>Two evaluators, each on its thread: a value of one is refused by the other, and taken by its own.\<close>

definition value_bound :: "(nat, nat) bound" where
  "value_bound = \<lparr>bd_make = (\<lambda>i w. (Inr i, w)), bd_call = (\<lambda>v m vs w. (Inr (Some v), w)),
     bd_function = (\<lambda>m vs w. (Inr None, w)), bd_copy = (\<lambda>v w. (Inr v, w)), bd_typed = (\<lambda>e. False), bd_execution = (\<lambda>c. Affine 0),
     bd_adapt = (\<lambda>c x. Inr x)\<rparr>"



text \<open>A call that comes after \<open>_retire\<close> and before the shutdown: the factory runs again, and the second object is never dropped.\<close>

lemma built_again:
  "let s = snd (run_method value_bound 1 ''eval'' (Some []) None [] (snd (new_runner (Affine 0) (new_runtime 0))));
       s = snd (run_method value_bound 1 ''eval'' (Some []) None [] (snd (aclose_retire 1 s)));
       s = snd (aclose_shutdown 1 s)
   in rt_built s = [1, 1] \<and> map_option rn_obj (dict_get (rt_runners s) 1) = Some (Some 1)"
  by code_simp

end
