(* ===== verification/Protocol.thy ===== *)
theory Protocol
  imports Codec_Round
begin

text \<open>
  The frames of \<open>huggorm/protocol.py\<close>: opcodes, the length-prefixed channel, and failures as one value
  (\<open>Faults\<close>). msgpack is not in the repository: \<open>pack\<close> and \<open>unpack\<close> are arguments. A byte is a
  number below 256. What a peer sends until it closes is one byte list, since a read waits for the
  bytes it needs; what is written is one byte list, since sends are serialised and shielded.
\<close>

subsection \<open>Opcodes\<close>

datatype op = HELLO | WELCOME | CALL | CONTROL | CANCEL | DROP | RESULT | FAULT | CALLBACK | REPLY | REFUSE

definition OPS :: "op list" where
  "OPS = [HELLO, WELCOME, CALL, CONTROL, CANCEL, DROP, RESULT, FAULT, CALLBACK, REPLY, REFUSE]"

fun op_number :: "op \<Rightarrow> int" where
  "op_number HELLO = 0"
| "op_number WELCOME = 1"
| "op_number CALL = 2"
| "op_number CONTROL = 3"
| "op_number CANCEL = 4"
| "op_number DROP = 5"
| "op_number RESULT = 6"
| "op_number FAULT = 7"
| "op_number CALLBACK = 8"
| "op_number REPLY = 9"
| "op_number REFUSE = 10"

definition op_of :: "int \<Rightarrow> op option" where
  "op_of n = find (\<lambda>o'. op_number o' = n) OPS"

datatype control = PING | SHARE | DETACH | RELEASE | REALIZE | LOGS_BARRIER | LOGS | BUILD

definition CONTROLS :: "control list" where
  "CONTROLS = [PING, SHARE, DETACH, RELEASE, REALIZE, LOGS_BARRIER, LOGS, BUILD]"

fun control_number :: "control \<Rightarrow> int" where
  "control_number PING = 0"
| "control_number SHARE = 1"
| "control_number DETACH = 2"
| "control_number RELEASE = 3"
| "control_number REALIZE = 4"
| "control_number LOGS_BARRIER = 5"
| "control_number LOGS = 6"
| "control_number BUILD = 7"

definition control_of :: "int \<Rightarrow> control option" where
  "control_of n = find (\<lambda>c. control_number c = n) CONTROLS"

lemma op_of_number [simp]: "op_of (op_number o') = Some o'"
  by (cases o') (simp_all add: op_of_def OPS_def)

lemma control_of_number [simp]: "control_of (control_number c) = Some c"
  by (cases c) (simp_all add: control_of_def CONTROLS_def)

lemma find_numbered: "find (\<lambda>x. f x = n) xs = Some y \<Longrightarrow> f y = n"
  by (induction xs) (auto split: if_splits)

lemma op_of_Some: "op_of n = Some o' \<Longrightarrow> op_number o' = n"
  unfolding op_of_def by (rule find_numbered)

subsection \<open>The channel\<close>

definition MAX_FRAME :: nat where
  "MAX_FRAME = 256 * 2 ^ 20"

text \<open>\<open>struct.Struct(">I")\<close>: four bytes, most significant first.\<close>

definition length_pack :: "nat \<Rightarrow> nat list" where
  "length_pack n = [n div 2 ^ 24 mod 256, n div 2 ^ 16 mod 256, n div 2 ^ 8 mod 256, n mod 256]"

fun length_unpack :: "nat list \<Rightarrow> nat" where
  "length_unpack [a, b, c, d] = a * 2 ^ 24 + b * 2 ^ 16 + c * 2 ^ 8 + d"
| "length_unpack _ = 0"

type_synonym frame = "op \<times> mp list"

fun frame_mp :: "frame \<Rightarrow> mp" where
  "frame_mp (o', args) = MList (MInt (op_number o') # args)"

text \<open>\<open>Channel.send\<close>, on the bytes written so far.\<close>

definition send :: "(mp \<Rightarrow> exn + nat list) \<Rightarrow> frame \<Rightarrow> (nat list, unit) eff" where
  "send pack fr = (\<lambda>out. case pack (frame_mp fr) of
       Inl e \<Rightarrow> (Inl e, out)
     | Inr body \<Rightarrow> if MAX_FRAME < length body then (Inl ProtocolError, out)
         else (Inr (), out @ length_pack (length body) @ body))"

definition IncompleteRead :: exn where
  "IncompleteRead = Raised ''IncompleteRead''"

text \<open>\<open>receive_exactly(n)\<close> of the buffered stream: on a close before the last byte, what has arrived
  stays in the buffer.\<close>

definition receive_exactly :: "nat \<Rightarrow> (nat list, nat list) eff" where
  "receive_exactly n = (\<lambda>inp. if length inp < n then (Inl IncompleteRead, inp)
     else (Inr (take n inp), drop n inp))"

text \<open>\<open>try: m; except e1: raise e2\<close>.\<close>

definition reraise :: "exn \<Rightarrow> exn \<Rightarrow> ('s, 'a) eff \<Rightarrow> ('s, 'a) eff" where
  "reraise e1 e2 m = (\<lambda>s. case m s of (Inl e, t) \<Rightarrow> (Inl (if e = e1 then e2 else e), t) | (Inr a, t) \<Rightarrow> (Inr a, t))"

definition frame_of :: "mp \<Rightarrow> exn + frame" where
  "frame_of m = (case m of
       MList (MInt n # args) \<Rightarrow> (case op_of n of None \<Rightarrow> Inl ProtocolError | Some o' \<Rightarrow> Inr (o', args))
     | _ \<Rightarrow> Inl ProtocolError)"

definition receive :: "(nat list \<Rightarrow> exn + mp) \<Rightarrow> (nat list, frame) eff" where
  "receive unpack =
     bind_eff (reraise IncompleteRead EndOfStream (receive_exactly 4)) (\<lambda>head.
       let n = length_unpack head in
       if MAX_FRAME < n then raise ProtocolError
       else bind_eff (reraise IncompleteRead ProtocolError (receive_exactly n)) (\<lambda>body.
         bind_eff (lift_res (unpack body)) (\<lambda>m. lift_res (frame_of m))))"

text \<open>The build's identity: a digest of the sources, each with its path relative to its package. A
  package is \<open>None\<close> when it cannot be found; its files come sorted by path.\<close>

definition identity_input :: "(nat list \<times> nat list) list list \<Rightarrow> nat list" where
  "identity_input pkgs = concat (map (\<lambda>files. concat (map (\<lambda>(name, content). name @ 0 # content @ [0]) files)) pkgs)"

fun all_found :: "'a option list \<Rightarrow> exn + 'a list" where
  "all_found [] = Inr []"
| "all_found (None # xs) = Inl RuntimeError"
| "all_found (Some x # xs) = (case all_found xs of Inl e \<Rightarrow> Inl e | Inr ys \<Rightarrow> Inr (x # ys))"

definition build_identity ::
  "(nat list \<Rightarrow> string) \<Rightarrow> (nat list \<times> nat list) list option list \<Rightarrow> exn + string" where
  "build_identity sha256 pkgs = map_sum id (sha256 \<circ> identity_input) (all_found pkgs)"

subsection \<open>Failures\<close>

datatype refusal = IDENTITY | SWEPT

fun refusal_code :: "refusal \<Rightarrow> string" where
  "refusal_code IDENTITY = ''refused_identity''"
| "refusal_code SWEPT = ''refused_swept''"

definition REFUSALS :: "(string \<times> refusal) list" where
  "REFUSALS = map (\<lambda>r. (refusal_code r, r)) [IDENTITY, SWEPT]"

text \<open>An exception object: a refusal; an object of a class the bindings declare; a \<open>WrapperError\<close> of
  the runtime with its class, code, message and \<open>__cause__\<close>; any other, by its class and what it
  was made of. What crossed the wire may be any native value.\<close>

datatype pyexc =
    Refused refusal mp
  | Declared string objref
  | Wrapper string string mp "pyexc option"
  | Plain string mp

record fault_env =
  fe_errors :: "string list" \<comment> \<open>\<open>_ERRORS\<close>: the declared error classes, in order\<close>
  fe_code :: "objref \<Rightarrow> mp"
  fe_message :: "objref \<Rightarrow> mp"
  fe_str :: "pyexc \<Rightarrow> string" \<comment> \<open>\<open>str(e)\<close>\<close>
  fe_text :: "mp \<Rightarrow> string" \<comment> \<open>\<open>str(v)\<close> of a native value\<close>

fun exc_class :: "pyexc \<Rightarrow> string" where
  "exc_class (Refused r m) = ''Refused''"
| "exc_class (Declared c ob) = c"
| "exc_class (Wrapper c code m cause) = c"
| "exc_class (Plain c m) = c"

text \<open>\<open>_declared\<close> goes by the class itself: one that only shares a declared name is not it.\<close>

definition declared_index :: "fault_env \<Rightarrow> pyexc option \<Rightarrow> nat option" where
  "declared_index fe e = (case e of
       Some (Declared c ob) \<Rightarrow>
         (case find (\<lambda>i. fe_errors fe ! i = c) [0..<length (fe_errors fe)] of None \<Rightarrow> None | Some i \<Rightarrow> Some i)
     | _ \<Rightarrow> None)"

definition error_wire :: "string \<Rightarrow> wire" where
  "error_wire c = Wire ERROR c None False"

definition fault_parts ::
  "nat \<Rightarrow> bindings \<Rightarrow> tables \<Rightarrow> fault_env \<Rightarrow> nat \<Rightarrow> pyexc \<Rightarrow> (unit, mp) eff" where
  "fault_parts fuel b tb fe i e = (case e of
       Declared c ob \<Rightarrow> encode fuel b tb (Some (error_wire (fe_errors fe ! i))) (PObj ob) no_proxy 0 None
     | _ \<Rightarrow> raise (Raised ''AttributeError''))"

definition fault_value :: "mp \<Rightarrow> mp \<Rightarrow> string \<Rightarrow> string \<Rightarrow> nat option \<Rightarrow> mp \<Rightarrow> mp" where
  "fault_value code msg ct cm i parts =
     MList [code, msg, MStr ct, MStr cm, (case i of None \<Rightarrow> MNil | Some n \<Rightarrow> MInt (int n)), parts]"

fun exc_code :: "fault_env \<Rightarrow> pyexc \<Rightarrow> mp" where
  "exc_code fe (Refused r m) = MStr (refusal_code r)"
| "exc_code fe (Declared c ob) = fe_code fe ob"
| "exc_code fe (Wrapper c code m cause) = MStr code"
| "exc_code fe (Plain c m) = MNil"

fun exc_message :: "fault_env \<Rightarrow> pyexc \<Rightarrow> mp" where
  "exc_message fe (Refused r m) = m"
| "exc_message fe (Declared c ob) = fe_message fe ob"
| "exc_message fe (Wrapper c code m cause) = m"
| "exc_message fe (Plain c m) = MNil"

fun exc_cause :: "pyexc \<Rightarrow> pyexc option" where
  "exc_cause (Wrapper c code m cause) = cause"
| "exc_cause _ = None"

text \<open>\<open>Faults.encode\<close>. It takes a declared error, a \<open>WrapperError\<close> or a \<open>Refused\<close>: any other has no \<open>code\<close>.\<close>

definition faults_encode :: "nat \<Rightarrow> bindings \<Rightarrow> tables \<Rightarrow> fault_env \<Rightarrow> pyexc \<Rightarrow> (unit, mp) eff" where
  "faults_encode fuel b tb fe e = (case e of
       Refused r m \<Rightarrow> ret (fault_value (MStr (refusal_code r)) m '''' '''' None MNil)
     | Plain c m \<Rightarrow> raise (Raised ''AttributeError'')
     | _ \<Rightarrow> (case declared_index fe (Some e) of
         Some i \<Rightarrow> bind_eff (fault_parts fuel b tb fe i e) (\<lambda>ps.
           ret (fault_value (exc_code fe e) (exc_message fe e) '''' '''' (Some i) ps))
       | None \<Rightarrow> (case exc_cause e of
           None \<Rightarrow> ret (fault_value (exc_code fe e) (exc_message fe e) '''' '''' None MNil)
         | Some c \<Rightarrow> (case declared_index fe (Some c) of
             None \<Rightarrow> ret (fault_value (exc_code fe e) (exc_message fe e) (exc_class c) (fe_str fe c) None MNil)
           | Some i \<Rightarrow> bind_eff (fault_parts fuel b tb fe i c) (\<lambda>ps.
               ret (fault_value (exc_code fe e) (exc_message fe e) (exc_class c) (fe_str fe c) (Some i) ps))))))"

text \<open>The exception classes of \<open>builtins\<close> that are made of one message, by the class a name stands for;
  the others want more (\<open>UnicodeDecodeError\<close>) or a list (\<open>ExceptionGroup\<close>).\<close>

definition BUILTIN_EXCEPTIONS :: "(string \<times> string) list" where
  "BUILTIN_EXCEPTIONS = map (\<lambda>c. (c, c))
     [''BaseException'', ''Exception'', ''ArithmeticError'', ''AssertionError'', ''AttributeError'',
      ''BlockingIOError'', ''BrokenPipeError'', ''BufferError'', ''BytesWarning'', ''ChildProcessError'',
      ''ConnectionAbortedError'', ''ConnectionError'', ''ConnectionRefusedError'', ''ConnectionResetError'',
      ''DeprecationWarning'', ''EOFError'', ''EncodingWarning'', ''FileExistsError'', ''FileNotFoundError'',
      ''FloatingPointError'', ''FutureWarning'', ''GeneratorExit'', ''ImportError'', ''ImportWarning'',
      ''IndentationError'', ''IndexError'', ''InterruptedError'', ''IsADirectoryError'', ''KeyError'',
      ''KeyboardInterrupt'', ''LookupError'', ''MemoryError'', ''ModuleNotFoundError'', ''NameError'',
      ''NotADirectoryError'', ''NotImplementedError'', ''OSError'', ''OverflowError'',
      ''PendingDeprecationWarning'', ''PermissionError'', ''ProcessLookupError'', ''RecursionError'',
      ''ReferenceError'', ''ResourceWarning'', ''RuntimeError'', ''RuntimeWarning'', ''StopAsyncIteration'',
      ''StopIteration'', ''SyntaxError'', ''SyntaxWarning'', ''SystemError'', ''SystemExit'', ''TabError'',
      ''TimeoutError'', ''TypeError'', ''UnboundLocalError'', ''UnicodeError'', ''UnicodeWarning'',
      ''UserWarning'', ''ValueError'', ''Warning'', ''ZeroDivisionError'']
     @ [(''EnvironmentError'', ''OSError''), (''IOError'', ''OSError'')]"

fun text_of :: "fault_env \<Rightarrow> mp \<Rightarrow> string" where
  "text_of fe (MStr s) = s"
| "text_of fe m = fe_text fe m"

definition approximate :: "fault_env \<Rightarrow> mp \<Rightarrow> mp \<Rightarrow> exn + pyexc" where
  "approximate fe ct msg = (case ct of
       MStr n \<Rightarrow> (case map_of BUILTIN_EXCEPTIONS n of
           Some c \<Rightarrow> Inr (Plain c msg)
         | None \<Rightarrow> Inr (Plain ''Exception'' (if n = [] then msg else MStr (n @ '': '' @ text_of fe msg))))
     | _ \<Rightarrow> Inl TypeError)"

text \<open>What \<open>not x\<close> and \<open>d.get(x)\<close> are of a native value.\<close>

fun mp_truth :: "mp \<Rightarrow> bool" where
  "mp_truth MNil = False"
| "mp_truth (MBool x) = x"
| "mp_truth (MInt i) = (i \<noteq> 0)"
| "mp_truth (MFloat f) = (f \<noteq> 0 \<and> f \<noteq> 2 ^ 63)"
| "mp_truth (MStr s) = (s \<noteq> [])"
| "mp_truth (MBin w) = (w \<noteq> [])"
| "mp_truth (MList ms) = (ms \<noteq> [])"
| "mp_truth (MMap es) = (es \<noteq> [])"

fun refusal_of :: "mp \<Rightarrow> exn + refusal option" where
  "refusal_of (MStr s) = Inr (map_of REFUSALS s)"
| "refusal_of (MList ms) = Inl TypeError"
| "refusal_of (MMap es) = Inl TypeError"
| "refusal_of _ = Inr None"

text \<open>The class of \<open>error\<close>, an index sent by the peer, rebuilt from its parts.\<close>

definition rebuild :: "bindings \<Rightarrow> tables \<Rightarrow> fault_env \<Rightarrow> mp \<Rightarrow> mp \<Rightarrow> (unit, pyexc) eff" where
  "rebuild b tb fe err parts = (case err of
       MInt i \<Rightarrow> if 0 \<le> i \<and> i < int (length (fe_errors fe))
         then bind_eff (decode b tb (Some (error_wire (fe_errors fe ! nat i))) parts no_proxy 0 None) (\<lambda>v.
           case v of PObj ob \<Rightarrow> ret (Declared (fe_errors fe ! nat i) ob) | _ \<Rightarrow> raise TypeError)
         else raise ProtocolError
     | _ \<Rightarrow> raise ProtocolError)"

definition faults_decode :: "bindings \<Rightarrow> tables \<Rightarrow> fault_env \<Rightarrow> mp \<Rightarrow> (unit, pyexc) eff" where
  "faults_decode b tb fe raw = (case raw of
       MList [code, msg, ct, cm, err, parts] \<Rightarrow>
         bind_eff (lift_res (refusal_of code)) (\<lambda>reason.
           if reason \<noteq> None \<and> err = MNil \<and> \<not> mp_truth ct then ret (Refused (the reason) msg)
           else bind_eff (if err = MNil then ret None else bind_eff (rebuild b tb fe err parts) (\<lambda>e. ret (Some e)))
             (\<lambda>rebuilt.
               if \<not> mp_truth ct
               then ret (case rebuilt of Some e \<Rightarrow> e | None \<Rightarrow> Wrapper ''WrapperError'' ''wrapper_error'' msg None)
               else bind_eff (case rebuilt of Some e \<Rightarrow> ret e | None \<Rightarrow> lift_res (approximate fe ct cm))
                 (\<lambda>cause. ret (Wrapper ''InternalError'' ''internal'' msg (Some cause)))))
     | _ \<Rightarrow> raise ProtocolError)"

end
