(* ===== verification/Dispatcher.thy ===== *)
theory Dispatcher
  imports Lifecycle_System Trees Protocol Logbus
begin

text \<open>
  The server of \<open>huggorm/server.py\<close>: the handlers built from the emitted policy, the dispatch of a call
  (resolve, decode, run, lease, encode), the session operations, the answer of one request, and the frames
  of a connection. It acts on the handle table of \<open>Lifecycle\<close>, codes values with \<open>Codec\<close> and \<open>Trees\<close> and
  shares log subscriptions with \<open>Logbus\<close>.

  The bound objects live in a world of any type; \<open>senv\<close> is what the dispatcher calls there, the emitted
  policy and the supplies of identities. A request runs as one step; what may happen between two
  requests is the order of the steps (\<open>event\<close>).
\<close>

subsection \<open>The emitted policy\<close>

datatype subscription = OPEN | CLOSE

record call =
  ca_index :: nat
  ca_name :: string
  ca_args :: "arg list"
  ca_returns :: "wire option"
  ca_sub :: "subscription option"

record acquire =
  aq_index :: nat
  aq_cls :: string
  aq_args :: "arg list"
  aq_required :: nat

datatype spec = SCall call | SAcquire acquire

fun spec_index :: "spec \<Rightarrow> nat" where
  "spec_index (SCall c) = ca_index c"
| "spec_index (SAcquire a) = aq_index a"

fun spec_args :: "spec \<Rightarrow> arg list" where
  "spec_args (SCall c) = ca_args c"
| "spec_args (SAcquire a) = aq_args a"

fun spec_least :: "spec \<Rightarrow> nat" where
  "spec_least (SCall c) = length (ca_args c)"
| "spec_least (SAcquire a) = aq_required a"

fun spec_returns :: "spec \<Rightarrow> wire option" where
  "spec_returns (SCall c) = ca_returns c"
| "spec_returns (SAcquire a) = None"

record policy =
  METHODS :: "(string, call list) dict"
  ACQUIRES :: "(string, acquire) dict"
  FREE :: "(string, call) dict"
  CALLS :: "spec list"

subsection \<open>Handlers\<close>

datatype target = HANDLE | NEW | NONE

text \<open>What a handler runs: a role of a shared subscription, the method, the constructor or the function.\<close>

datatype runs =
    RunRole subscription
  | RunMethod string
  | RunConstruct string
  | RunFreeRole subscription
  | RunFunction string

record handler =
  h_target :: target
  h_run :: runs
  h_label :: string

definition method_handler :: "string \<Rightarrow> call \<Rightarrow> handler" where
  "method_handler cls m = \<lparr>h_target = HANDLE,
     h_run = (case ca_sub m of Some r \<Rightarrow> RunRole r | None \<Rightarrow> RunMethod (ca_name m)),
     h_label = cls @ ''.'' @ ca_name m\<rparr>"

definition acquire_handler :: "string \<Rightarrow> handler" where
  "acquire_handler cls = \<lparr>h_target = NEW, h_run = RunConstruct cls, h_label = cls @ ''.Acquire''\<rparr>"

definition free_handler :: "string \<Rightarrow> call \<Rightarrow> handler" where
  "free_handler fname c = \<lparr>h_target = NONE,
     h_run = (case ca_sub c of Some r \<Rightarrow> RunFreeRole r | None \<Rightarrow> RunFunction fname),
     h_label = ''Functions.'' @ fname\<rparr>"

definition all_handlers :: "policy \<Rightarrow> (nat \<times> handler) list" where
  "all_handlers p =
     concat (map (\<lambda>(cls, ms). map (\<lambda>m. (ca_index m, method_handler cls m)) ms) (METHODS p))
     @ map (\<lambda>(cls, a). (aq_index a, acquire_handler cls)) (ACQUIRES p)
     @ map (\<lambda>(fname, c). (ca_index c, free_handler fname c)) (FREE p)"

definition handlers :: "policy \<Rightarrow> exn + (nat, handler) dict" where
  "handlers p = (let hs = fold (\<lambda>(i, h) d. dict_set i h d) (all_handlers p) [] in
     if set (dict_keys hs) \<noteq> set (map spec_index (CALLS p)) then Inl RuntimeError else Inr hs)"

subsection \<open>The server\<close>

record ('w, 's) server =
  sv_table :: table
  sv_world :: 'w
  sv_next :: nat \<comment> \<open>identities given out\<close>
  sv_fans :: "(nat, objref option \<times> ('s, pyval) fanout) dict" \<comment> \<open>every fan-out, with the state it reads\<close>
  sv_log_fanouts :: "(objref, nat) dict" \<comment> \<open>\<open>_log_fanouts\<close>, by the state's identity\<close>
  sv_readers :: "(objref, nat) dict" \<comment> \<open>the fan-out each reader belongs to\<close>
  sv_handle_readers :: "(token \<times> objref, objref list) dict"
  sv_closing :: "objref list" \<comment> \<open>objects whose \<open>aclose\<close> a task is to run\<close>

definition PROCESS :: nat where
  "PROCESS = 0"

definition new_server :: "time option \<Rightarrow> time option \<Rightarrow> 'w \<Rightarrow> ('w, 's) server" where
  "new_server l e w = \<lparr>sv_table = (new_table l e)\<lparr>on_drop := True\<rparr>, sv_world = w, sv_next = 1,
     sv_fans = [(PROCESS, (None, new_fanout))], sv_log_fanouts = [], sv_readers = [], sv_handle_readers = [],
     sv_closing = []\<rparr>"

type_synonym ('w, 's, 'a) sv = "(('w, 's) server, 'a) eff"

record ('w, 's) senv =
  en_policy :: policy
  en_handlers :: "(nat, handler) dict"
  en_stack :: nat
  en_bind :: bindings
  en_tables :: tables
  en_fault :: fault_env
  en_now :: time
  en_mint :: "nat \<Rightarrow> hid" \<comment> \<open>\<open>uuid4().hex\<close>\<close>
  en_object :: "nat \<Rightarrow> objref" \<comment> \<open>the identity of a new reader\<close>
  en_ident :: "pyval \<Rightarrow> objref" \<comment> \<open>\<open>id\<close> of a value that is not a bound object\<close>
  en_class :: "objref \<Rightarrow> string option" \<comment> \<open>\<open>DECLARED\<close> of its type; none for a reader\<close>
  en_method :: "objref \<Rightarrow> string \<Rightarrow> pyval list \<Rightarrow> ('w, pyval) eff"
  en_construct :: "string \<Rightarrow> pyval list \<Rightarrow> ('w, objref) eff"
  en_function :: "string \<Rightarrow> pyval list \<Rightarrow> ('w, pyval) eff"
  en_source :: "objref option \<Rightarrow> ('w, 's, pyval) log_source"
  en_walk :: "string \<Rightarrow> (objref, 'w) walk_spec option" \<comment> \<open>\<open>TREES\<close>\<close>
  en_build :: "string \<Rightarrow> (objref, 'w) builds option" \<comment> \<open>\<open>BUILDERS\<close>\<close>
  en_type :: "objref \<Rightarrow> string"
  en_wrapped :: "string \<Rightarrow> bool" \<comment> \<open>in \<open>CLASSES\<close>\<close>
  en_adopt :: "objref \<Rightarrow> objref \<Rightarrow> ('w, objref) eff"
  en_isolation :: "objref \<Rightarrow> objref list \<Rightarrow> exn + unit" \<comment> \<open>\<open>_check_isolation\<close>\<close>
  en_request :: "objref \<Rightarrow> ('w, int) eff" \<comment> \<open>\<open>current_request\<close> on its runner\<close>
  en_aclose :: "objref \<Rightarrow> ('w, unit) eff"
  en_exc :: "exn \<Rightarrow> pyexc"
  en_seconds :: "time option \<Rightarrow> mp"

definition on_world :: "('w, 'a) eff \<Rightarrow> ('w, 's, 'a) sv" where
  "on_world m = (\<lambda>s. let (r, w) = m (sv_world s) in (r, s\<lparr>sv_world := w\<rparr>))"

text \<open>\<open>_on_drop\<close>: the fan-out goes with the state, and a task is to close the object.\<close>

definition on_drop_obj :: "objref \<Rightarrow> ('w, 's) server \<Rightarrow> ('w, 's) server" where
  "on_drop_obj ob s = s\<lparr>sv_log_fanouts := dict_del ob (sv_log_fanouts s), sv_closing := sv_closing s @ [ob]\<rparr>"

text \<open>An operation of the table, with the callback for each object it dropped.\<close>

definition on_table :: "(table, 'a) eff \<Rightarrow> ('w, 's, 'a) sv" where
  "on_table m = (\<lambda>s. let (r, t) = m (sv_table s);
       dropped = drop (length (on_drop_calls (sv_table s))) (on_drop_calls t)
     in (r, fold on_drop_obj dropped (s\<lparr>sv_table := t\<rparr>)))"

definition put_obj :: "('w, 's) senv \<Rightarrow> objref \<Rightarrow> token \<Rightarrow> hid list \<Rightarrow> ('w, 's, hid) sv" where
  "put_obj env ob tok parents = (\<lambda>s.
     on_table (Lifecycle.put (en_now env) (en_mint env (sv_next s)) ob tok parents) (s\<lparr>sv_next := Suc (sv_next s)\<rparr>))"

definition get_obj :: "hid \<Rightarrow> ('w, 's, objref) sv" where
  "get_obj h = on_table (\<lambda>t. (Lifecycle.get h t, t))"

definition resolve :: "('w, 's) senv \<Rightarrow> hid \<Rightarrow> token \<Rightarrow> ('w, 's, objref) sv" where
  "resolve env h tok = bind_eff (on_table (touch (en_now env) tok h)) (\<lambda>_. get_obj h)"

definition ident :: "('w, 's) senv \<Rightarrow> pyval \<Rightarrow> objref" where
  "ident env v = (case v of PObj ob \<Rightarrow> ob | _ \<Rightarrow> en_ident env v)"

definition adopt :: "('w, 's) senv \<Rightarrow> objref \<Rightarrow> objref \<Rightarrow> ('w, 's, objref) sv" where
  "adopt env ob parent = (if en_wrapped env (en_type env ob) then on_world (en_adopt env ob parent) else raise TypeError)"

subsection \<open>Log readers\<close>

definition AttributeError :: exn where
  "AttributeError = Raised ''AttributeError''"

text \<open>A section of a fan-out.\<close>

definition on_fan :: "nat \<Rightarrow> ('w, 's, pyval, 'a) fan_eff \<Rightarrow> ('w, 's, 'a) sv" where
  "on_fan i m = (\<lambda>s. case dict_get (sv_fans s) i of None \<Rightarrow> (Inl KeyError, s)
     | Some (src, f) \<Rightarrow> (case m (sv_world s, f) of (r, (w, f')) \<Rightarrow>
         (r, s\<lparr>sv_world := w, sv_fans := dict_set i (src, f') (sv_fans s)\<rparr>)))"

definition fan_source :: "('w, 's) senv \<Rightarrow> nat \<Rightarrow> ('w, 's) server \<Rightarrow> ('w, 's, pyval) log_source" where
  "fan_source env i s = en_source env (case dict_get (sv_fans s) i of None \<Rightarrow> None | Some (src, f) \<Rightarrow> src)"

definition fanout_of :: "('w, 's) senv \<Rightarrow> objref \<Rightarrow> ('w, 's, nat) sv" where
  "fanout_of env ob = (\<lambda>s. case dict_get (sv_log_fanouts s) ob of Some i \<Rightarrow> (Inr i, s)
     | None \<Rightarrow> (case en_class env ob of None \<Rightarrow> (Inl KeyError, s)
       | Some cls \<Rightarrow> if dict_get (METHODS (en_policy env)) cls = None then (Inl KeyError, s)
           else (Inr (sv_next s), s\<lparr>sv_next := Suc (sv_next s), sv_fans := dict_set (sv_next s) (Some ob, new_fanout) (sv_fans s),
                  sv_log_fanouts := dict_set ob (sv_next s) (sv_log_fanouts s)\<rparr>)))"

text \<open>A new reader of a fan-out.\<close>

definition join_fan :: "('w, 's) senv \<Rightarrow> nat \<Rightarrow> int \<Rightarrow> int \<Rightarrow> ('w, 's, objref) sv" where
  "join_fan env i capacity level = (\<lambda>s. let ob = en_object env (sv_next s) in
     bind_eff (on_fan i (join (fan_source env i s) ob capacity level))
       (\<lambda>_. \<lambda>s1. (Inr ob, s1\<lparr>sv_readers := dict_set ob i (sv_readers s1)\<rparr>)) (s\<lparr>sv_next := Suc (sv_next s)\<rparr>))"

definition join_handle :: "('w, 's) senv \<Rightarrow> nat \<Rightarrow> token \<times> objref \<Rightarrow> int \<Rightarrow> int \<Rightarrow> ('w, 's, objref) sv" where
  "join_handle env i key capacity level = bind_eff (join_fan env i capacity level) (\<lambda>ob. \<lambda>s.
     (Inr ob, s\<lparr>sv_handle_readers := dict_set key (set_add ob (dict_default (sv_handle_readers s) key [])) (sv_handle_readers s)\<rparr>))"

definition reader_method :: "('w, 's) senv \<Rightarrow> objref \<Rightarrow> nat \<Rightarrow> string \<Rightarrow> pyval list \<Rightarrow> ('w, 's, pyval) sv" where
  "reader_method env ob i name args = (\<lambda>s. let src = fan_source env i s in
     if args \<noteq> [] then (Inl TypeError, s)
     else if name = ''drain'' then bind_eff (on_fan i (reader_drain src ob)) (\<lambda>rs. ret (PList rs)) s
     else if name = ''dropped'' then bind_eff (on_fan i (\<lambda>(w, f). (Inr (reader_dropped ob f), (w, f)))) (\<lambda>n. ret (PInt n)) s
     else if name = ''close'' \<or> name = ''aclose'' then bind_eff (on_fan i (reader_close src ob)) (\<lambda>_. ret PNone) s
     else (Inl AttributeError, s))"

text \<open>The readers a connection opened on an object, by its own calls, leave.\<close>

definition leave_all :: "('w, 's) senv \<Rightarrow> token \<times> objref \<Rightarrow> ('w, 's, unit) sv" where
  "leave_all env key = (\<lambda>s. let obs = dict_default (sv_handle_readers s) key [] in
     bind_eff (map_eff (\<lambda>ob. \<lambda>s. case dict_get (sv_readers s) ob of None \<Rightarrow> (Inr (), s)
         | Some i \<Rightarrow> on_fan i (reader_close (fan_source env i s) ob) s) obs)
       (\<lambda>_. ret ()) (s\<lparr>sv_handle_readers := dict_del key (sv_handle_readers s)\<rparr>))"

definition two_ints :: "pyval list \<Rightarrow> (int \<times> int) option" where
  "two_ints args = (case args of [PInt c, PInt l] \<Rightarrow> Some (c, l) | _ \<Rightarrow> None)"

definition subscribe :: "('w, 's) senv \<Rightarrow> ('w, 's, nat) sv \<Rightarrow> token \<times> objref \<Rightarrow> pyval list \<Rightarrow> ('w, 's, pyval) sv" where
  "subscribe env fan key args = (case two_ints args of None \<Rightarrow> raise TypeError
     | Some (c, l) \<Rightarrow> bind_eff fan (\<lambda>i. bind_eff (join_handle env i key c l) (\<lambda>ob. ret (PObj ob))))"

definition unsubscribe :: "('w, 's) senv \<Rightarrow> token \<times> objref \<Rightarrow> pyval list \<Rightarrow> ('w, 's, pyval) sv" where
  "unsubscribe env key args = (if args \<noteq> [] then raise TypeError else bind_eff (leave_all env key) (\<lambda>_. ret PNone))"

subsection \<open>One call\<close>

definition arguments ::
  "('w, 's) senv \<Rightarrow> spec \<Rightarrow> mp list \<Rightarrow> token \<Rightarrow> ('w, 's) server client_obj option \<Rightarrow> ('w, 's, pyval list) sv" where
  "arguments env sp raw tok back =
     (if length raw < spec_least sp \<or> length (spec_args sp) < length raw then raise TypeError
      else map_eff (\<lambda>(a, v). decode (en_bind env) (en_tables env) (Some (snd a)) v
             (\<lambda>h. bind_eff (resolve env h tok) (\<lambda>ob. ret (PObj ob))) 0 back) (zip (spec_args sp) raw))"

definition run_on :: "('w, 's) senv \<Rightarrow> runs \<Rightarrow> token \<Rightarrow> objref \<Rightarrow> pyval list \<Rightarrow> ('w, 's, pyval) sv" where
  "run_on env rn tok ob args = (case rn of
       RunRole OPEN \<Rightarrow> subscribe env (fanout_of env ob) (tok, ob) args
     | RunRole CLOSE \<Rightarrow> unsubscribe env (tok, ob) args
     | RunMethod name \<Rightarrow> (\<lambda>s. case dict_get (sv_readers s) ob of
           Some i \<Rightarrow> reader_method env ob i name args s
         | None \<Rightarrow> on_world (en_method env ob name args) s)
     | _ \<Rightarrow> raise TypeError)"

definition run_free :: "('w, 's) senv \<Rightarrow> runs \<Rightarrow> token \<Rightarrow> pyval list \<Rightarrow> ('w, 's, pyval) sv" where
  "run_free env rn tok args = (case rn of
       RunFreeRole OPEN \<Rightarrow> subscribe env (ret PROCESS) (tok, 0) args
     | RunFreeRole CLOSE \<Rightarrow> unsubscribe env (tok, 0) args
     | RunFunction name \<Rightarrow> on_world (en_function env name args)
     | RunConstruct cls \<Rightarrow> bind_eff (on_world (en_construct env cls args)) (\<lambda>ob. ret (PObj ob))
     | _ \<Rightarrow> raise TypeError)"

definition encode_answer ::
  "('w, 's) senv \<Rightarrow> wire option \<Rightarrow> pyval \<Rightarrow> token \<Rightarrow> hid list \<Rightarrow> ('w, 's, mp) sv" where
  "encode_answer env returns v tok parents = encode (en_stack env) (en_bind env) (en_tables env) returns v
     (\<lambda>x. put_obj env (ident env x) tok parents) 0 None"

definition run_call ::
  "('w, 's) senv \<Rightarrow> token \<Rightarrow> int \<Rightarrow> mp \<Rightarrow> mp list \<Rightarrow> ('w, 's) server client_obj option \<Rightarrow> ('w, 's, mp) sv" where
  "run_call env tok idx hid raw back =
     (if \<not> (0 \<le> idx \<and> idx < int (length (CALLS (en_policy env)))) then raise ProtocolError
      else let sp = CALLS (en_policy env) ! nat idx in
        (case dict_get (en_handlers env) (nat idx) of None \<Rightarrow> raise KeyError
         | Some h \<Rightarrow> (case h_target h of
             HANDLE \<Rightarrow> (case hid of
                 MStr hn \<Rightarrow> bind_eff (resolve env hn tok) (\<lambda>ob. bind_eff (arguments env sp raw tok back) (\<lambda>args.
                   bind_eff (run_on env (h_run h) tok ob args) (\<lambda>v. encode_answer env (spec_returns sp) v tok [hn])))
               | _ \<Rightarrow> raise ProtocolError)
           | NEW \<Rightarrow> bind_eff (arguments env sp raw tok back) (\<lambda>args. bind_eff (run_free env (h_run h) tok args) (\<lambda>v.
               bind_eff (put_obj env (ident env v) tok []) (\<lambda>hn. ret (MStr hn))))
           | NONE \<Rightarrow> bind_eff (arguments env sp raw tok back) (\<lambda>args. bind_eff (run_free env (h_run h) tok args) (\<lambda>v.
               encode_answer env (spec_returns sp) v tok [])))))"

subsection \<open>Session operations\<close>

definition ping :: "('w, 's) senv \<Rightarrow> token \<Rightarrow> ('w, 's, bool) sv" where
  "ping env tok = on_table (\<lambda>t. case Lifecycle.alive (en_now env) tok t of (b, t') \<Rightarrow> (Inr b, t'))"

definition share_handle :: "('w, 's) senv \<Rightarrow> token \<Rightarrow> token \<Rightarrow> hid \<Rightarrow> share_mode \<Rightarrow> ('w, 's, unit) sv" where
  "share_handle env tok to_tok h mode = on_table (Lifecycle.share (en_now env) tok to_tok h mode)"

definition share_mode_of :: "string \<Rightarrow> exn + share_mode" where
  "share_mode_of m = (if m = ''copy'' then Inr COPY else if m = ''transfer'' then Inr TRANSFER else Inl ValueError)"

definition detach_handle :: "('w, 's) senv \<Rightarrow> token \<Rightarrow> hid option \<Rightarrow> bool \<Rightarrow> ('w, 's, bool) sv" where
  "detach_handle env tok h all = (if h = None \<and> \<not> all then raise ValueError
     else bind_eff (on_table (Lifecycle.detach (en_now env) tok h)) (\<lambda>n. ret (n > 0)))"

definition release_handle :: "('w, 's) senv \<Rightarrow> token \<Rightarrow> hid \<Rightarrow> ('w, 's, unit) sv" where
  "release_handle env tok h = on_table (Lifecycle.release (en_now env) tok h 1)"

fun release_many :: "('w, 's) senv \<Rightarrow> token \<Rightarrow> hid list \<Rightarrow> nat \<times> nat \<Rightarrow> ('w, 's, nat \<times> nat) sv" where
  "release_many env tok [] counts = ret counts"
| "release_many env tok (h # hs) counts = (\<lambda>s. case release_handle env tok h s of
       (Inr _, s1) \<Rightarrow> release_many env tok hs (Suc (fst counts), snd counts) s1
     | (Inl e, s1) \<Rightarrow> if e = KeyError \<or> e = ValueError
         then release_many env tok hs (fst counts, Suc (snd counts)) s1 else (Inl e, s1))"

definition class_of :: "('w, 's) senv \<Rightarrow> objref \<Rightarrow> string" where
  "class_of env ob = (case en_class env ob of None \<Rightarrow> [] | Some c \<Rightarrow> c)"

definition realize :: "('w, 's) senv \<Rightarrow> token \<Rightarrow> hid \<Rightarrow> int \<Rightarrow> int \<Rightarrow> bool \<Rightarrow> ('w, 's, objref \<times> objref node) sv" where
  "realize env tok h depth budget force = bind_eff (resolve env h tok) (\<lambda>target.
     case en_walk env (class_of env target) of None \<Rightarrow> raise TypeError
     | Some sp \<Rightarrow> bind_eff (on_world (\<lambda>w. case realize_walk sp depth budget force (b_sync (en_bind env) target) w of
           (r, wk) \<Rightarrow> (r, w_world wk))) (\<lambda>root. ret (target, root)))"

text \<open>A node the tree stops at is adopted, leased and pinned to the handle named.\<close>

definition lease_node :: "('w, 's) senv \<Rightarrow> token \<Rightarrow> hid \<Rightarrow> objref \<Rightarrow> objref \<Rightarrow> ('w, 's, hid) sv" where
  "lease_node env tok h target ob = bind_eff (adopt env ob target) (\<lambda>wrapper. put_obj env wrapper tok [h])"

definition build :: "('w, 's) senv \<Rightarrow> token \<Rightarrow> hid \<Rightarrow> mp \<Rightarrow> ('w, 's, mp) sv" where
  "build env tok h data = bind_eff (resolve env h tok) (\<lambda>target.
     case en_build env (class_of env target) of None \<Rightarrow> raise TypeError
     | Some bu \<Rightarrow> bind_eff (map_eff (\<lambda>x. bind_eff (resolve env x tok) (\<lambda>ob. ret (x, ob))) (build_handles data)) (\<lambda>given.
         bind_eff (lift_res (en_isolation env target (map snd (dict_of given)))) (\<lambda>_.
         let synced = map (\<lambda>p. (fst p, b_sync (en_bind env) (snd p))) (dict_of given) in
         bind_eff (on_world (build_root bu (en_type env) (dict_get synced) (b_sync (en_bind env) target) data)) (\<lambda>root.
           encode_tree (en_bind env) (\<lambda>cls ob. case dict_get (dict_of (map prod.swap synced)) ob of
               Some x \<Rightarrow> if x = [] then lease_node env tok h target ob else ret x
             | None \<Rightarrow> lease_node env tok h target ob) root))))"

definition open_logs :: "('w, 's) senv \<Rightarrow> token \<Rightarrow> hid option \<Rightarrow> int \<Rightarrow> int \<Rightarrow> ('w, 's, hid) sv" where
  "open_logs env tok h capacity level = (case h of
       None \<Rightarrow> bind_eff (join_fan env PROCESS capacity level) (\<lambda>ob. put_obj env ob tok [])
     | Some hn \<Rightarrow> bind_eff (resolve env hn tok) (\<lambda>target. bind_eff (fanout_of env target) (\<lambda>i.
         bind_eff (join_fan env i capacity level) (\<lambda>ob. put_obj env ob tok [hn]))))"

definition logs_barrier :: "('w, 's) senv \<Rightarrow> token \<Rightarrow> hid \<Rightarrow> ('w, 's, int) sv" where
  "logs_barrier env tok h = bind_eff (resolve env h tok) (\<lambda>target.
     bind_eff (on_world (en_request env target)) (\<lambda>n. if n = 0 then raise TypeError else ret n))"

subsection \<open>Controls\<close>

text \<open>The class patterns of a \<open>match\<close>: \<open>int()\<close> takes a bool too.\<close>

fun as_int :: "mp \<Rightarrow> int option" where
  "as_int (MInt i) = Some i"
| "as_int (MBool x) = Some (if x then 1 else 0)"
| "as_int _ = None"

fun as_str_opt :: "mp \<Rightarrow> string option option" where
  "as_str_opt (MStr s) = Some (Some s)"
| "as_str_opt MNil = Some None"
| "as_str_opt _ = None"

datatype request =
    RPing
  | RShare string string string
  | RDetach "string option" bool
  | RRelease string
  | RRealize string int int bool
  | RBuild string "mp list"
  | RBarrier string
  | RLogs "string option" int int

definition request_of :: "control \<Rightarrow> mp list \<Rightarrow> request option" where
  "request_of c args = (case (c, args) of
       (PING, []) \<Rightarrow> Some RPing
     | (SHARE, [MStr t, MStr h, MStr m]) \<Rightarrow> Some (RShare t h m)
     | (DETACH, [h, MBool all]) \<Rightarrow> map_option (\<lambda>x. RDetach x all) (as_str_opt h)
     | (RELEASE, [MStr h]) \<Rightarrow> Some (RRelease h)
     | (REALIZE, [MStr h, d, b, MBool f]) \<Rightarrow> (case (as_int d, as_int b) of
           (Some i, Some j) \<Rightarrow> Some (RRealize h i j f) | _ \<Rightarrow> None)
     | (BUILD, [MStr h, MList data]) \<Rightarrow> Some (RBuild h data)
     | (LOGS_BARRIER, [MStr h]) \<Rightarrow> Some (RBarrier h)
     | (LOGS, [h, c', l]) \<Rightarrow> (case (as_str_opt h, as_int c', as_int l) of
           (Some x, Some i, Some j) \<Rightarrow> Some (RLogs x i j) | _ \<Rightarrow> None)
     | _ \<Rightarrow> None)"

definition control_op :: "('w, 's) senv \<Rightarrow> token \<Rightarrow> control \<Rightarrow> mp list \<Rightarrow> ('w, 's, mp) sv" where
  "control_op env tok c args = (case request_of c args of
       None \<Rightarrow> raise ProtocolError
     | Some RPing \<Rightarrow> bind_eff (ping env tok) (\<lambda>b. ret (MBool b))
     | Some (RShare t h m) \<Rightarrow> bind_eff (lift_res (share_mode_of m)) (\<lambda>mode.
         bind_eff (share_handle env tok t h mode) (\<lambda>_. ret MNil))
     | Some (RDetach h all) \<Rightarrow> bind_eff (detach_handle env tok h all) (\<lambda>b. ret (MBool b))
     | Some (RRelease h) \<Rightarrow> bind_eff (release_handle env tok h) (\<lambda>_. ret MNil)
     | Some (RRealize h d b f) \<Rightarrow> bind_eff (realize env tok h d b f) (\<lambda>(target, root).
         encode_tree (en_bind env) (\<lambda>cls ob. lease_node env tok h target ob) root)
     | Some (RBuild h data) \<Rightarrow> build env tok h (MList data)
     | Some (RBarrier h) \<Rightarrow> bind_eff (logs_barrier env tok h) (\<lambda>n. ret (MInt n))
     | Some (RLogs h c' l) \<Rightarrow> bind_eff (open_logs env tok h c' l) (\<lambda>hn. ret (MStr hn)))"

subsection \<open>Answers\<close>

definition has_to_dict :: "pyexc \<Rightarrow> bool" where
  "has_to_dict e = (case e of Declared c ob \<Rightarrow> True | Wrapper c code m cause \<Rightarrow> True | _ \<Rightarrow> False)"

definition failure :: "pyexc \<Rightarrow> string \<Rightarrow> pyexc" where
  "failure e label = (case e of Refused r m \<Rightarrow> e
     | _ \<Rightarrow> if has_to_dict e then e else Wrapper ''InternalError'' ''internal'' (MStr (label @ '' failed'')) (Some e))"

definition swept_refusal :: "token \<Rightarrow> pyexc" where
  "swept_refusal tok = Refused SWEPT (MStr (''connection '' @ take 8 tok @ '' was swept, and its handles with it''))"

definition fault_frame :: "('w, 's) senv \<Rightarrow> mp \<Rightarrow> string \<Rightarrow> pyexc \<Rightarrow> exn + frame" where
  "fault_frame env cid label e =
     map_sum id (\<lambda>m. (FAULT, [cid, m])) (fst (faults_encode (en_stack env) (en_bind env) (en_tables env) (en_fault env) (failure e label) ()))"

text \<open>\<open>_answer\<close>: the frame to send, or what encoding the failure raised.\<close>

definition answer ::
  "('w, 's) senv \<Rightarrow> token \<Rightarrow> mp \<Rightarrow> string \<Rightarrow> ('w, 's, mp) sv \<Rightarrow> bool \<Rightarrow> ('w, 's, frame) sv" where
  "answer env tok cid label run after_sweep = (\<lambda>s.
     if \<not> after_sweep \<and> dict_get (connections (sv_table s)) tok = None
     then (fault_frame env cid label (swept_refusal tok), s)
     else (case run s of (Inr v, s') \<Rightarrow> (Inr (RESULT, [cid, v]), s')
       | (Inl e, s') \<Rightarrow> (fault_frame env cid label (en_exc env e), s')))"

subsection \<open>Frames\<close>

datatype job = JCall int mp "mp list" | JControl control "mp list"

datatype action =
    Spawn mp string job bool
  | Cancel int
  | Drop "hid list"
  | Back "mp list"
  | Refuse exn

fun all_strs :: "mp list \<Rightarrow> string list option" where
  "all_strs [] = Some []"
| "all_strs (MStr s # ms) = map_option (Cons s) (all_strs ms)"
| "all_strs (m # ms) = None"

definition call_label :: "('w, 's) senv \<Rightarrow> int \<Rightarrow> string \<Rightarrow> string" where
  "call_label env idx text = (case (if idx < 0 then None else dict_get (en_handlers env) (nat idx)) of
     Some h \<Rightarrow> h_label h | None \<Rightarrow> ''call '' @ text)"

fun control_name :: "control \<Rightarrow> string" where
  "control_name PING = ''ping''"
| "control_name SHARE = ''share''"
| "control_name DETACH = ''detach''"
| "control_name RELEASE = ''release''"
| "control_name REALIZE = ''realize''"
| "control_name LOGS_BARRIER = ''logs_barrier''"
| "control_name LOGS = ''logs''"
| "control_name BUILD = ''build''"

text \<open>The match of \<open>_frames\<close>. \<open>backs\<close>: the server takes callbacks.\<close>

definition read_frame :: "('w, 's) senv \<Rightarrow> bool \<Rightarrow> frame \<Rightarrow> action" where
  "read_frame env backs fr = (case fr of
       (CALL, [cid, i, hid, MList args]) \<Rightarrow> (case (as_int cid, as_int i) of
           (Some c, Some idx) \<Rightarrow> Spawn cid (call_label env idx (text_of (en_fault env) i)) (JCall idx hid args) False
         | _ \<Rightarrow> Refuse ProtocolError)
     | (CONTROL, [cid, n, MList args]) \<Rightarrow> (case (as_int cid, as_int n) of
           (Some c, Some k) \<Rightarrow> (case control_of k of None \<Rightarrow> Refuse ProtocolError
             | Some ctl \<Rightarrow> Spawn cid (''Session/'' @ control_name ctl) (JControl ctl args) (ctl = PING))
         | _ \<Rightarrow> Refuse ProtocolError)
     | (CANCEL, [cid]) \<Rightarrow> (case as_int cid of Some c \<Rightarrow> Cancel c | None \<Rightarrow> Refuse ProtocolError)
     | (DROP, [MList hs]) \<Rightarrow> (case all_strs hs of Some ws \<Rightarrow> Drop ws | None \<Rightarrow> Refuse ProtocolError)
     | (REPLY, [n, v]) \<Rightarrow> if backs \<and> as_int n \<noteq> None then Back [n, v] else Refuse ProtocolError
     | (REFUSE, [n, v]) \<Rightarrow> if backs \<and> as_int n \<noteq> None then Back [n, v] else Refuse ProtocolError
     | _ \<Rightarrow> Refuse ProtocolError)"

definition run_job :: "('w, 's) senv \<Rightarrow> token \<Rightarrow> ('w, 's) server client_obj option \<Rightarrow> job \<Rightarrow> ('w, 's, mp) sv" where
  "run_job env tok back j = (case j of JCall idx hid args \<Rightarrow> run_call env tok idx hid args back
     | JControl c args \<Rightarrow> control_op env tok c args)"

end
