(* ===== verification/Client.thy ===== *)
theory Client
  imports Complex_Main Dispatcher
begin

text \<open>
  The client of \<open>huggorm/remote.py\<close>, class \<open>NixClient\<close>: the objects it hands out and the count of those
  alive for each handle, the calls it waits for by number, the tasks that read frames, ping and answer
  callbacks. It codes with \<open>Codec\<close> and \<open>Trees\<close> and reads failures with \<open>Protocol\<close>. A stretch of code
  between two awaits is one step; the order of the steps is the schedule of the loop. The identity of a new
  object comes from outside, as do the objects the caller makes.
\<close>

subsection \<open>State\<close>

text \<open>An object the client made: its backend's handle, none once released, and the handle its finalizer holds.\<close>

record proxy =
  px_class :: string
  px_hid :: "hid option"
  px_tracked :: hid
  px_live :: bool
  px_contents :: "objref contents option"

record nc_link =
  ln_open :: bool
  ln_sent :: "frame list"

datatype purpose =
    WPing
  | WAlive
  | WNothing
  | WTruth
  | WRelease objref
  | WTree "(hid, objref) dict"
  | WReader
  | WNumber
  | WAcquire string
  | WResult call

text \<open>The locals of a coroutine in \<open>_ask\<close>, and what its caller does with the answer.\<close>

record waiting =
  wt_link :: nat
  wt_wanted :: purpose

record client =
  nc_callbacks :: bool \<comment> \<open>\<open>experimental_callbacks\<close>\<close>
  nc_objects :: "(int, string \<times> pyval) dict"
  nc_object_ids :: "(objref, int) dict"
  nc_answering :: "(int, bool) dict" \<comment> \<open>whether its scope was cancelled\<close>
  nc_channel :: "nat option"
  nc_token :: "token option"
  nc_opened :: bool \<comment> \<open>inside \<open>async with\<close>\<close>
  nc_reader :: "nat option"
  nc_pinger :: "rat option" \<comment> \<open>its interval\<close>
  nc_expired :: bool
  nc_ids :: int
  nc_pending :: "(int, bool \<times> frame option) dict"
  nc_refs :: "(hid, int) dict"
  nc_dropped :: "hid list"
  nc_links :: "nc_link list" \<comment> \<open>every channel made\<close>
  nc_reading :: "nat list" \<comment> \<open>the channels a reader task still reads\<close>
  nc_waiting :: "(int, waiting) dict"
  nc_hooks :: "(nat \<times> int \<times> int \<times> string \<times> mp list) list" \<comment> \<open>callback tasks not yet started\<close>
  nc_running :: "(nat \<times> int \<times> int \<times> string \<times> mp list) list" \<comment> \<open>and those that are\<close>
  nc_objs :: "(objref, proxy) dict"
  nc_next :: nat

definition new_client :: "bool \<Rightarrow> client" where
  "new_client cbs = \<lparr>nc_callbacks = cbs, nc_objects = [], nc_object_ids = [], nc_answering = [], nc_channel = None,
     nc_token = None, nc_opened = False, nc_reader = None, nc_pinger = None, nc_expired = False, nc_ids = 1,
     nc_pending = [], nc_refs = [], nc_dropped = [], nc_links = [], nc_reading = [], nc_waiting = [], nc_hooks = [], nc_running = [],
     nc_objs = [], nc_next = 0\<rparr>"

type_synonym 'a cl = "(client, 'a) eff"

record cenv =
  ce_policy :: policy \<comment> \<open>\<open>ACQUIRE\<close> and \<open>FREE\<close>\<close>
  ce_no_rpc :: "string list"
  ce_backs :: "(string, call list) dict" \<comment> \<open>\<open>CALLBACKS\<close>\<close>
  ce_classes :: "string list"
  ce_stack :: nat
  ce_bind :: bindings
  ce_tables :: tables
  ce_fault :: fault_env
  ce_pack :: "mp \<Rightarrow> exn + nat list"
  ce_identity :: "exn + string" \<comment> \<open>\<open>build_identity()\<close>\<close>
  ce_object :: "nat \<Rightarrow> objref"
  ce_ident :: "pyval \<Rightarrow> objref"
  ce_hook :: "pyval \<Rightarrow> string \<Rightarrow> pyval list \<Rightarrow> pyexc + pyval" \<comment> \<open>the method the caller's object has\<close>
  ce_exc :: "exn \<Rightarrow> pyexc"
  ce_float :: "flt \<Rightarrow> rat" \<comment> \<open>the number a finite float is\<close>
  ce_int :: "mp \<Rightarrow> exn + int" \<comment> \<open>\<open>int\<close> of a float, a text or bytes\<close>

definition ConnectionExpired :: exn where "ConnectionExpired = Raised ''ConnectionExpired''"
definition ConnectionLost :: exn where "ConnectionLost = Raised ''ConnectionLost''"
definition ClosedResource :: exn where "ClosedResource = Raised ''ClosedResourceError''"

subsection \<open>Handles\<close>

text \<open>\<open>handle_of\<close>: only an object over a \<open>Remote\<close> has one.\<close>

definition handle_of :: "pyval \<Rightarrow> hid cl" where
  "handle_of v = (\<lambda>c. case v of
       PObj ob \<Rightarrow> (case dict_get (nc_objs c) ob of None \<Rightarrow> (Inl TypeError, c)
         | Some p \<Rightarrow> (case px_hid p of None \<Rightarrow> (Inl ValueError, c) | Some h \<Rightarrow> (Inr h, c)))
     | _ \<Rightarrow> (Inl TypeError, c))"

definition track :: "hid \<Rightarrow> client \<Rightarrow> client" where
  "track h c = c\<lparr>nc_refs := dict_set h (dict_default (nc_refs c) h 0 + 1) (nc_refs c)\<rparr>"

definition forget :: "hid \<Rightarrow> client \<Rightarrow> client" where
  "forget h c = (case dict_get (nc_refs c) h of None \<Rightarrow> c
     | Some n \<Rightarrow> if n > 1 then c\<lparr>nc_refs := dict_set h (n - 1) (nc_refs c)\<rparr>
         else c\<lparr>nc_refs := dict_del h (nc_refs c), nc_dropped := nc_dropped c @ [h]\<rparr>)"

definition untrack :: "hid option \<Rightarrow> client \<Rightarrow> client" where
  "untrack ho c = (case ho of None \<Rightarrow> c
     | Some h \<Rightarrow> c\<lparr>nc_refs := dict_del h (nc_refs c), nc_dropped := filter (\<lambda>x. x \<noteq> h) (nc_dropped c)\<rparr>)"

definition make_object :: "cenv \<Rightarrow> string \<Rightarrow> hid \<Rightarrow> objref contents option \<Rightarrow> objref cl" where
  "make_object env cls h cont = (\<lambda>c. let ob = ce_object env (nc_next c) in
     (Inr ob, track h (c\<lparr>nc_next := Suc (nc_next c), nc_objs := dict_set ob
        \<lparr>px_class = cls, px_hid = Some h, px_tracked = h, px_live = True, px_contents = cont\<rparr> (nc_objs c)\<rparr>)))"

definition client_proxy :: "cenv \<Rightarrow> string \<Rightarrow> hid \<Rightarrow> objref cl" where
  "client_proxy env cls h = (if cls \<notin> set (ce_classes env) then raise TypeError else make_object env cls h None)"

definition client_view :: "cenv \<Rightarrow> string \<Rightarrow> hid \<Rightarrow> objref contents \<Rightarrow> objref cl" where
  "client_view env cls h cont = (if cls \<notin> set (ce_classes env) then raise KeyError else make_object env cls h (Some cont))"

text \<open>An object dies and its finalizer runs. A coroutine that waits for its release still refers to it.\<close>

definition releasing :: "objref \<Rightarrow> client \<Rightarrow> bool" where
  "releasing ob c = list_ex (\<lambda>p. wt_wanted (snd p) = WRelease ob) (nc_waiting c)"

definition collect :: "objref \<Rightarrow> client \<Rightarrow> client" where
  "collect ob c = (case dict_get (nc_objs c) ob of None \<Rightarrow> c
     | Some p \<Rightarrow> if px_live p \<and> \<not> releasing ob c
         then forget (px_tracked p) (c\<lparr>nc_objs := dict_set ob (p\<lparr>px_live := False\<rparr>) (nc_objs c)\<rparr>) else c)"

subsection \<open>Frames\<close>

definition live_channel :: "nat cl" where
  "live_channel = (\<lambda>c. if nc_expired c then (Inl ConnectionExpired, c)
     else case nc_channel c of None \<Rightarrow> (Inl ConnectionLost, c) | Some k \<Rightarrow> (Inr k, c))"

definition upd_link :: "nat \<Rightarrow> (nc_link \<Rightarrow> nc_link) \<Rightarrow> client \<Rightarrow> client" where
  "upd_link k f c = (if k < length (nc_links c) then c\<lparr>nc_links := (nc_links c)[k := f (nc_links c ! k)]\<rparr> else c)"

text \<open>\<open>Channel.send\<close>; a stream that is closed at either end raises.\<close>

definition client_send :: "cenv \<Rightarrow> nat \<Rightarrow> frame \<Rightarrow> unit cl" where
  "client_send env k fr = (\<lambda>c. case fst (send (ce_pack env) fr []) of Inl e \<Rightarrow> (Inl e, c)
     | Inr _ \<Rightarrow> if k < length (nc_links c) \<and> ln_open (nc_links c ! k)
         then (Inr (), upd_link k (\<lambda>l. l\<lparr>ln_sent := ln_sent l @ [fr]\<rparr>) c) else (Inl ClosedResource, c))"

definition flush_dropped :: "cenv \<Rightarrow> nat cl" where
  "flush_dropped env = (\<lambda>c. let queued = filter (\<lambda>h. dict_get (nc_refs c) h = None) (nc_dropped c); c1 = c\<lparr>nc_dropped := []\<rparr> in
     if queued = [] then (Inr 0, c1)
     else bind_eff live_channel (\<lambda>k. bind_eff (client_send env k (DROP, [MList (map MStr queued)])) (\<lambda>_. ret (length queued))) c1)"

text \<open>\<open>_ask\<close>, to its wait, from its wait to its answer, and when its caller is cancelled there.\<close>

definition ask_server :: "cenv \<Rightarrow> purpose \<Rightarrow> op \<Rightarrow> mp list \<Rightarrow> int cl" where
  "ask_server env wn o' body = bind_eff live_channel (\<lambda>k. \<lambda>c. let cid = nc_ids c;
       c1 = c\<lparr>nc_ids := cid + 1, nc_pending := dict_set cid (False, None) (nc_pending c)\<rparr> in
     (case client_send env k (o', MInt cid # body) c1 of
        (Inl e, c2) \<Rightarrow> (Inl (if e = ClosedResource then ConnectionLost else e), c2\<lparr>nc_pending := dict_del cid (nc_pending c2)\<rparr>)
      | (Inr _, c2) \<Rightarrow> (Inr cid, c2\<lparr>nc_waiting := dict_set cid \<lparr>wt_link = k, wt_wanted = wn\<rparr> (nc_waiting c2)\<rparr>)))"

definition leave_call :: "int \<Rightarrow> client \<Rightarrow> client" where
  "leave_call cid c = c\<lparr>nc_waiting := dict_del cid (nc_waiting c), nc_pending := dict_del cid (nc_pending c)\<rparr>"

definition cancel_ask :: "cenv \<Rightarrow> int \<Rightarrow> client \<Rightarrow> client" where
  "cancel_ask env cid c = (case (dict_get (nc_waiting c) cid, dict_get (nc_pending c) cid) of
       (Some w, Some (dn, fr)) \<Rightarrow> leave_call cid (if dn then c else snd (client_send env (wt_link w) (CANCEL, [MInt cid]) c))
     | _ \<Rightarrow> c)"

text \<open>A failure that reaches the caller: one the client raises, or the one a fault tells.\<close>

datatype trouble = Local exn | Told pyexc

definition client_fault :: "cenv \<Rightarrow> mp \<Rightarrow> client \<Rightarrow> trouble \<times> client" where
  "client_fault env raw c = (case fst (faults_decode (ce_bind env) (ce_tables env) (ce_fault env) raw ()) of
       Inl e \<Rightarrow> (Local e, c)
     | Inr (Refused SWEPT m) \<Rightarrow> (Local ConnectionExpired, c\<lparr>nc_expired := True\<rparr>)
     | Inr e \<Rightarrow> (Told e, c))"

definition answered_value :: "cenv \<Rightarrow> frame option \<Rightarrow> client \<Rightarrow> (trouble + mp) \<times> client" where
  "answered_value env fr c = (case fr of
       Some (RESULT, [_, v]) \<Rightarrow> (Inr v, c)
     | Some (FAULT, [_, f]) \<Rightarrow> (case client_fault env f c of (t, c') \<Rightarrow> (Inl t, c'))
     | None \<Rightarrow> (Inl (Local ConnectionLost), c)
     | _ \<Rightarrow> (Inl (Local ProtocolError), c))"

subsection \<open>The reader\<close>

text \<open>The \<open>finally\<close> of \<open>_read\<close>: every call still waiting wakes, on whatever channel it was sent.\<close>

definition read_ends :: "nat \<Rightarrow> client \<Rightarrow> client" where
  "read_ends k c = (if k \<notin> set (nc_reading c) then c
     else upd_link k (\<lambda>l. l\<lparr>ln_open := False\<rparr>)
       (c\<lparr>nc_channel := (if nc_channel c = Some k then None else nc_channel c),
          nc_pending := map (\<lambda>(cid, (dn, fr)). (cid, (True, fr))) (nc_pending c),
          nc_reading := removeAll k (nc_reading c)\<rparr>))"

definition take_answer :: "int \<Rightarrow> frame \<Rightarrow> client \<Rightarrow> client" where
  "take_answer cid fr c = (case dict_get (nc_pending c) cid of None \<Rightarrow> c
     | Some _ \<Rightarrow> c\<lparr>nc_pending := dict_set cid (True, Some fr) (nc_pending c)\<rparr>)"

text \<open>The match of \<open>_read\<close>.\<close>

definition read_answer :: "nat \<Rightarrow> frame \<Rightarrow> client \<Rightarrow> client" where
  "read_answer k fr c = (if k \<notin> set (nc_reading c) then c else (case fr of
       (RESULT, [cid, v]) \<Rightarrow> (case as_int cid of Some n \<Rightarrow> take_answer n fr c | None \<Rightarrow> read_ends k c)
     | (FAULT, [cid, v]) \<Rightarrow> (case as_int cid of Some n \<Rightarrow> take_answer n fr c | None \<Rightarrow> read_ends k c)
     | (CALLBACK, [n, i, MStr name, MList raw]) \<Rightarrow> (case (as_int n, as_int i) of
           (Some m, Some j) \<Rightarrow> if nc_callbacks c then c\<lparr>nc_hooks := nc_hooks c @ [(k, m, j, name, raw)]\<rparr> else read_ends k c
         | _ \<Rightarrow> read_ends k c)
     | (CANCEL, [n]) \<Rightarrow> (case as_int n of
           Some m \<Rightarrow> if \<not> nc_callbacks c then read_ends k c
             else if dict_get (nc_answering c) m = None then c else c\<lparr>nc_answering := dict_set m True (nc_answering c)\<rparr>
         | None \<Rightarrow> read_ends k c)
     | _ \<Rightarrow> read_ends k c))"

subsection \<open>Opening and closing\<close>

definition open_scope :: "client \<Rightarrow> client" where
  "open_scope c = c\<lparr>nc_opened := True\<rparr>"

definition stop_pinging :: "client \<Rightarrow> client" where
  "stop_pinging c = c\<lparr>nc_pinger := None\<rparr>"

text \<open>\<open>_close\<close> cancels; the reader's \<open>finally\<close> is a step of its own.\<close>

definition close_reader :: "client \<Rightarrow> client" where
  "close_reader c = c\<lparr>nc_reader := None, nc_answering := map (\<lambda>(n, x). (n, True)) (nc_answering c)\<rparr>"

definition leave_scope :: "client \<Rightarrow> client" where
  "leave_scope c = (close_reader (stop_pinging c))\<lparr>nc_opened := False\<rparr>"

definition bind_start :: "unit cl" where
  "bind_start = (\<lambda>c. if \<not> nc_opened c then (Inl RuntimeError, c) else (Inr (), close_reader (stop_pinging c)))"

definition ping_interval :: "rat \<Rightarrow> rat" where
  "ping_interval t = (if t > 0 then max (1 / 2) (min (t / 4) 15) else 10)"

fun ttl_of :: "cenv \<Rightarrow> mp \<Rightarrow> rat option" where
  "ttl_of env (MInt i) = Some (of_int i)"
| "ttl_of env (MBool x) = Some (if x then 1 else 0)"
| "ttl_of env (MFloat f) = Some (ce_float env f)"
| "ttl_of env _ = None"

text \<open>After \<open>connect_unix\<close>: HELLO is sent and \<open>reply\<close> is what the channel receives.\<close>

definition hello_frame :: "cenv \<Rightarrow> token option \<Rightarrow> exn + frame" where
  "hello_frame env claim = (case ce_identity env of Inl e \<Rightarrow> Inl e
     | Inr i \<Rightarrow> Inr (HELLO, [MStr i, (case claim of None \<Rightarrow> MNil | Some t \<Rightarrow> MStr t)]))"

definition bind_welcome :: "cenv \<Rightarrow> exn + frame \<Rightarrow> trouble + string \<times> rat" where
  "bind_welcome env reply = (case reply of Inl e \<Rightarrow> Inl (Local e)
     | Inr (WELCOME, [MStr tok, secs]) \<Rightarrow> (case ttl_of env secs of None \<Rightarrow> Inl (Local ProtocolError) | Some t \<Rightarrow> Inr (tok, t))
     | Inr (FAULT, [MNil, f]) \<Rightarrow> (case fst (faults_decode (ce_bind env) (ce_tables env) (ce_fault env) f ()) of
         Inl e \<Rightarrow> Inl (Local e) | Inr e \<Rightarrow> Inl (Told e))
     | _ \<Rightarrow> Inl (Local ProtocolError))"

definition bind_open :: "cenv \<Rightarrow> token option \<Rightarrow> exn + frame \<Rightarrow> client \<Rightarrow> (trouble + string) \<times> client" where
  "bind_open env claim reply c = (let k = length (nc_links c);
       c0 = c\<lparr>nc_links := nc_links c @ [\<lparr>ln_open = True, ln_sent = []\<rparr>]\<rparr>;
       shut = upd_link k (\<lambda>l. l\<lparr>ln_open := False\<rparr>) in
     (case hello_frame env claim of Inl e \<Rightarrow> (Inl (Local e), shut c0)
      | Inr fr \<Rightarrow> (case client_send env k fr c0 of (Inl e, c1) \<Rightarrow> (Inl (Local e), shut c1)
        | (Inr _, c1) \<Rightarrow> (case bind_welcome env reply of Inl t \<Rightarrow> (Inl t, shut c1)
          | Inr (tok, secs) \<Rightarrow> (Inr tok, c1\<lparr>nc_channel := Some k, nc_token := Some tok, nc_expired := False,
                nc_reader := Some k, nc_reading := nc_reading c1 @ [k], nc_pinger := Some (ping_interval secs)\<rparr>)))))"

end
