(* ===== verification/Client_Calls.thy ===== *)
theory Client_Calls
  imports Client
begin

text \<open>
  The operations of \<open>NixClient\<close> in \<open>huggorm/remote.py\<close>: what each checks and sends (\<open>_ask\<close>), what it
  makes of the answer (\<open>deliver\<close>), the ping loop, and the answer to a callback. The steps of the
  client are those of \<open>client_step\<close>, each an event.
\<close>

subsection \<open>Session operations\<close>

definition ask_control :: "cenv \<Rightarrow> purpose \<Rightarrow> control \<Rightarrow> mp list \<Rightarrow> int cl" where
  "ask_control env wn k args = ask_server env wn CONTROL [MInt (control_number k), MList args]"

fun mode_value :: "share_mode \<Rightarrow> string" where
  "mode_value COPY = ''copy''"
| "mode_value TRANSFER = ''transfer''"

definition share_ask :: "cenv \<Rightarrow> pyval \<Rightarrow> token \<Rightarrow> share_mode \<Rightarrow> int cl" where
  "share_ask env v to_tok mode = bind_eff (handle_of v) (\<lambda>h.
     ask_control env WNothing SHARE [MStr to_tok, MStr h, MStr (mode_value mode)])"

definition detach_ask :: "cenv \<Rightarrow> pyval option \<Rightarrow> bool \<Rightarrow> int cl" where
  "detach_ask env vo all = bind_eff (case vo of None \<Rightarrow> ret MNil | Some v \<Rightarrow> bind_eff (handle_of v) (\<lambda>h. ret (MStr h)))
     (\<lambda>h. ask_control env WTruth DETACH [h, MBool all])"

definition release_ask :: "cenv \<Rightarrow> objref \<Rightarrow> int cl" where
  "release_ask env ob = (\<lambda>c. case dict_get (nc_objs c) ob of None \<Rightarrow> (Inl AttributeError, c)
     | Some p \<Rightarrow> (case px_hid p of None \<Rightarrow> (Inl ValueError, c)
         | Some h \<Rightarrow> ask_control env (WRelease ob) RELEASE [MStr h] c))"

definition realize_ask :: "cenv \<Rightarrow> pyval \<Rightarrow> int \<Rightarrow> int \<Rightarrow> bool \<Rightarrow> int cl" where
  "realize_ask env v depth budget force = bind_eff (handle_of v) (\<lambda>h.
     ask_control env (WTree []) REALIZE [MStr h, MInt depth, MInt budget, MBool force])"

text \<open>The handles in the data of \<open>value\<close>, in the order the writer meets them.\<close>

function data_refs :: "data_heap \<Rightarrow> objref \<Rightarrow> objref list \<Rightarrow> objref list" where
  "data_refs hp r opened = (case dict_get hp r of None \<Rightarrow> []
     | Some d \<Rightarrow> (case d of
         DHandle \<Rightarrow> [r]
       | DSeq rs \<Rightarrow> if r \<in> set opened then [] else concat (map (\<lambda>x. data_refs hp x (r # opened)) rs)
       | DMap kvs \<Rightarrow> if r \<in> set opened then [] else concat (map (\<lambda>x. data_refs hp x (r # opened)) (map snd kvs))
       | _ \<Rightarrow> []))"
  by pat_completeness auto
termination
  by (relation "measure (\<lambda>(hp, r, opened). open_room hp opened)") (auto simp: open_room_less)

declare data_refs.simps [simp del]

definition passed_objects :: "data_heap \<Rightarrow> objref \<Rightarrow> client \<Rightarrow> (hid, objref) dict" where
  "passed_objects hp r c = fold (\<lambda>x d. case fst (handle_of (PObj x) c) of Inl e \<Rightarrow> d | Inr h \<Rightarrow> dict_set h x d) (data_refs hp r []) []"

definition value_ask :: "cenv \<Rightarrow> pyval \<Rightarrow> data_heap \<Rightarrow> objref \<Rightarrow> int cl" where
  "value_ask env state hp r = bind_eff (handle_of state) (\<lambda>h. \<lambda>c.
     (case encode_data hp (\<lambda>x. fst (handle_of (PObj x) c)) r of Inl e \<Rightarrow> (Inl e, c)
      | Inr m \<Rightarrow> ask_control env (WTree (passed_objects hp r c)) BUILD [MStr h, m] c))"

definition reader_class :: "cenv \<Rightarrow> exn + string" where
  "reader_class env = (case dict_get (FREE (ce_policy env)) ''subscribe_process_logs'' of None \<Rightarrow> Inl KeyError
     | Some m \<Rightarrow> (case ca_returns m of None \<Rightarrow> Inl AssertionError | Some w \<Rightarrow> Inr (wname w)))"

text \<open>\<open>logs\<close> and \<open>process_logs\<close> to their first batch. The reader's \<open>drain\<close>, \<open>dropped\<close> and \<open>aclose\<close> are calls and a
  release like any other.\<close>

definition logs_ask :: "cenv \<Rightarrow> pyval option \<Rightarrow> int \<Rightarrow> int option \<Rightarrow> int cl" where
  "logs_ask env vo capacity level = bind_eff (case vo of None \<Rightarrow> ret MNil | Some v \<Rightarrow> bind_eff (handle_of v) (\<lambda>h. ret (MStr h)))
     (\<lambda>h. bind_eff (lift_res (reader_class env)) (\<lambda>_. ask_control env WReader LOGS
       [h, MInt (if capacity = 0 then LOG_CAPACITY else capacity), MInt (case level of None \<Rightarrow> LOG_LEVEL | Some l \<Rightarrow> l)]))"

definition barrier_ask :: "cenv \<Rightarrow> pyval \<Rightarrow> int cl" where
  "barrier_ask env v = bind_eff (handle_of v) (\<lambda>h. ask_control env WNumber LOGS_BARRIER [MStr h])"

subsection \<open>Calls\<close>

text \<open>\<open>_client_id\<close>: this client's id for an object the server will call back.\<close>

definition client_id_of :: "cenv \<Rightarrow> client client_id" where
  "client_id_of env cls v = (\<lambda>c. case dict_get (nc_object_ids c) (ce_ident env v) of Some n \<Rightarrow> (Inr n, c)
     | None \<Rightarrow> let n = int (length (nc_objects c)) + 1 in
         (Inr n, c\<lparr>nc_object_ids := dict_set (ce_ident env v) n (nc_object_ids c), nc_objects := dict_set n (cls, v) (nc_objects c)\<rparr>))"

definition encode_args :: "cenv \<Rightarrow> arg list \<Rightarrow> pyval list \<Rightarrow> mp list cl" where
  "encode_args env as vs = (\<lambda>c. map_eff (\<lambda>(a, v). encode (ce_stack env) (ce_bind env) (ce_tables env) (Some (snd a)) v handle_of 0
       (if nc_callbacks c then Some (client_id_of env) else None)) (zip as vs) c)"

definition ask_call :: "cenv \<Rightarrow> purpose \<Rightarrow> nat \<Rightarrow> mp \<Rightarrow> arg list \<Rightarrow> pyval list \<Rightarrow> int cl" where
  "ask_call env wn idx h as vs = bind_eff (encode_args env as vs) (\<lambda>ms. ask_server env wn CALL [MInt (int idx), h, MList ms])"

definition acquire_ask :: "cenv \<Rightarrow> string \<Rightarrow> pyval list \<Rightarrow> int cl" where
  "acquire_ask env cls vs = (case dict_get (ACQUIRES (ce_policy env)) cls of None \<Rightarrow> raise ValueError
     | Some a \<Rightarrow> if length vs < aq_required a \<or> length (aq_args a) < length vs then raise TypeError
         else ask_call env (WAcquire cls) (aq_index a) MNil (aq_args a) vs)"

definition function_ask :: "cenv \<Rightarrow> string \<Rightarrow> pyval list \<Rightarrow> int cl" where
  "function_ask env fname vs = (case dict_get (FREE (ce_policy env)) fname of
       None \<Rightarrow> raise (if fname \<in> set (ce_no_rpc env) then TypeError else ValueError)
     | Some m \<Rightarrow> if length vs \<noteq> length (ca_args m) then raise TypeError
         else ask_call env (WResult m) (ca_index m) MNil (ca_args m) vs)"

definition invoke_ask :: "cenv \<Rightarrow> call \<Rightarrow> hid option \<Rightarrow> pyval list \<Rightarrow> int cl" where
  "invoke_ask env m ho vs = (case ho of None \<Rightarrow> raise ValueError
     | Some h \<Rightarrow> if length vs \<noteq> length (ca_args m) then raise TypeError
         else ask_call env (WResult m) (ca_index m) (MStr h) (ca_args m) vs)"

text \<open>\<open>Remote.call\<close>: a method of an object, or one that runs only in process.\<close>

datatype bound_spec = Crosses call | Stays_local

definition remote_call :: "cenv \<Rightarrow> objref \<Rightarrow> bound_spec \<Rightarrow> pyval list \<Rightarrow> int cl" where
  "remote_call env ob sp vs = (case sp of Stays_local \<Rightarrow> raise TypeError
     | Crosses m \<Rightarrow> (\<lambda>c. case dict_get (nc_objs c) ob of None \<Rightarrow> (Inl AttributeError, c)
         | Some p \<Rightarrow> invoke_ask env m (px_hid p) vs c))"

subsection \<open>Answers\<close>

datatype result = ANone | ABool bool | AInt int | AVal pyval | ATree "objref tval" | AReader objref

text \<open>The server names a handle by a string; any other value in its place is not taken further.\<close>

definition as_handle :: "mp \<Rightarrow> hid cl" where
  "as_handle m = (case m of MStr h \<Rightarrow> ret h | _ \<Rightarrow> raise TypeError)"

fun number_of :: "cenv \<Rightarrow> mp \<Rightarrow> exn + int" where
  "number_of env (MInt i) = Inr i"
| "number_of env (MBool x) = Inr (if x then 1 else 0)"
| "number_of env MNil = Inl TypeError"
| "number_of env (MList ms) = Inl TypeError"
| "number_of env (MMap es) = Inl TypeError"
| "number_of env m = ce_int env m"

definition result_of :: "cenv \<Rightarrow> call \<Rightarrow> mp \<Rightarrow> pyval cl" where
  "result_of env m raw = decode (ce_bind env) (ce_tables env) (ca_returns m) raw
     (\<lambda>h. bind_eff (client_proxy env (case ca_returns m of None \<Rightarrow> [] | Some w \<Rightarrow> wname w) h) (\<lambda>ob. ret (PObj ob))) 0 None"

definition tree_of :: "cenv \<Rightarrow> (hid, objref) dict \<Rightarrow> mp \<Rightarrow> objref tval cl" where
  "tree_of env passed raw = decode_tree (\<lambda>cls h. case dict_get passed h of Some ob \<Rightarrow> ret ob | None \<Rightarrow> client_proxy env cls h)
     (client_view env) raw"

text \<open>The end of \<open>release\<close>. Its backend may have been released meanwhile by another call.\<close>

definition release_done :: "objref \<Rightarrow> client \<Rightarrow> client" where
  "release_done ob c = (case dict_get (nc_objs c) ob of None \<Rightarrow> c
     | Some p \<Rightarrow> let c1 = untrack (px_hid p) c in c1\<lparr>nc_objs := dict_set ob (p\<lparr>px_hid := None\<rparr>) (nc_objs c1)\<rparr>)"

definition deliver :: "cenv \<Rightarrow> purpose \<Rightarrow> mp \<Rightarrow> result cl" where
  "deliver env wn v = (case wn of
       WNothing \<Rightarrow> ret ANone
     | WTruth \<Rightarrow> ret (ABool (mp_truth v))
     | WPing \<Rightarrow> ret (ABool (mp_truth v))
     | WAlive \<Rightarrow> ret (ABool (mp_truth v))
     | WRelease ob \<Rightarrow> (\<lambda>c. (Inr ANone, release_done ob c))
     | WTree passed \<Rightarrow> bind_eff (tree_of env passed v) (\<lambda>t. ret (ATree t))
     | WReader \<Rightarrow> bind_eff (as_handle v) (\<lambda>h. bind_eff (lift_res (reader_class env)) (\<lambda>cls.
         bind_eff (client_proxy env cls h) (\<lambda>ob. ret (AReader ob))))
     | WNumber \<Rightarrow> bind_eff (lift_res (number_of env v)) (\<lambda>n. ret (AInt n))
     | WAcquire cls \<Rightarrow> bind_eff (as_handle v) (\<lambda>h. bind_eff (client_proxy env cls h) (\<lambda>ob. ret (AVal (PObj ob))))
     | WResult m \<Rightarrow> bind_eff (result_of env m v) (\<lambda>x. ret (AVal x)))"

definition outcome_of :: "cenv \<Rightarrow> purpose \<Rightarrow> frame option \<Rightarrow> client \<Rightarrow> (trouble + result) \<times> client" where
  "outcome_of env wn fr c = (case answered_value env fr c of (Inl t, c1) \<Rightarrow> (Inl t, c1)
     | (Inr v, c1) \<Rightarrow> (case deliver env wn v c1 of (Inl e, c2) \<Rightarrow> (Inl (Local e), c2) | (Inr a, c2) \<Rightarrow> (Inr a, c2)))"

text \<open>\<open>alive\<close> answers false when the server cannot be reached.\<close>

definition unreachable :: "trouble \<Rightarrow> bool" where
  "unreachable t \<longleftrightarrow> t = Local ConnectionExpired \<or> t = Local ConnectionLost"

definition alive_outcome :: "(trouble + result) \<times> client \<Rightarrow> (trouble + result) \<times> client" where
  "alive_outcome rc = (case rc of (Inl t, c) \<Rightarrow> if unreachable t then (Inr (ABool False), c) else (Inl t, c) | (Inr a, c) \<Rightarrow> (Inr a, c))"

text \<open>A turn of \<open>_ping_forever\<close>: a swept connection is told once and the loop ends; else the dropped handles go.
  It ends too when the connection is lost, and goes on after any other failure.\<close>

definition ping_outcome :: "cenv \<Rightarrow> (trouble + result) \<times> client \<Rightarrow> client" where
  "ping_outcome env rc = (case rc of
       (Inl t, c) \<Rightarrow> if t = Local ConnectionLost then stop_pinging c else c
     | (Inr a, c) \<Rightarrow> if a = ABool False then stop_pinging (c\<lparr>nc_expired := True\<rparr>)
         else (case flush_dropped env c of (Inl e, c1) \<Rightarrow> if e = ConnectionLost then stop_pinging c1 else c1 | (Inr _, c1) \<Rightarrow> c1))"

text \<open>A coroutine whose call is done goes on; nothing for one that still waits.\<close>

definition resume :: "cenv \<Rightarrow> int \<Rightarrow> client \<Rightarrow> ((trouble + result) \<times> client) option" where
  "resume env cid c = (case (dict_get (nc_waiting c) cid, dict_get (nc_pending c) cid) of
       (Some w, Some (True, fr)) \<Rightarrow> (let rc = outcome_of env (wt_wanted w) fr (leave_call cid c) in
         Some (case wt_wanted w of WPing \<Rightarrow> (Inr ANone, ping_outcome env rc) | WAlive \<Rightarrow> alive_outcome rc | _ \<Rightarrow> rc))
     | _ \<Rightarrow> None)"

subsection \<open>Callbacks\<close>

definition callback_failure :: "string \<Rightarrow> pyexc \<Rightarrow> pyexc" where
  "callback_failure name e = (if has_to_dict e then e
     else Wrapper ''InternalError'' ''internal'' (MStr (''callback '' @ name @ '' failed'')) (Some e))"

definition hook_args :: "cenv \<Rightarrow> arg list \<Rightarrow> mp list \<Rightarrow> exn + pyval list" where
  "hook_args env as raw = (case fst (map_eff (\<lambda>(a, v). decode (ce_bind env) (ce_tables env) (Some (snd a)) v no_proxy 0 None) (zip as raw) ()) of
       Inl e \<Rightarrow> Inl e | Inr vs \<Rightarrow> if length as \<noteq> length raw then Inl ValueError else Inr vs)"

definition hook_value :: "cenv \<Rightarrow> client \<Rightarrow> int \<Rightarrow> string \<Rightarrow> mp list \<Rightarrow> pyexc + mp" where
  "hook_value env c i name raw = (case dict_get (nc_objects c) i of None \<Rightarrow> Inl (ce_exc env KeyError)
     | Some (cls, ob) \<Rightarrow> (case dict_get (ce_backs env) cls of None \<Rightarrow> Inl (ce_exc env KeyError)
       | Some ms \<Rightarrow> (case find (\<lambda>m. ca_name m = name) ms of None \<Rightarrow> Inl (ce_exc env (Raised ''StopIteration''))
         | Some m \<Rightarrow> (case hook_args env (ca_args m) raw of Inl e \<Rightarrow> Inl (ce_exc env e)
           | Inr vs \<Rightarrow> (case ce_hook env ob name vs of Inl e \<Rightarrow> Inl e
             | Inr v \<Rightarrow> (case fst (encode (ce_stack env) (ce_bind env) (ce_tables env) (ca_returns m) v no_proxy 0 None ()) of
                 Inl e \<Rightarrow> Inl (ce_exc env e) | Inr x \<Rightarrow> Inr x))))))"

definition hook_frame :: "cenv \<Rightarrow> client \<Rightarrow> int \<Rightarrow> int \<Rightarrow> string \<Rightarrow> mp list \<Rightarrow> exn + frame" where
  "hook_frame env c n i name raw = (case hook_value env c i name raw of Inr x \<Rightarrow> Inr (REPLY, [MInt n, x])
     | Inl e \<Rightarrow> map_sum id (\<lambda>m. (REFUSE, [MInt n, m]))
         (fst (faults_encode (ce_stack env) (ce_bind env) (ce_tables env) (ce_fault env) (callback_failure name e) ())))"

definition hook_start :: "nat \<Rightarrow> client \<Rightarrow> client" where
  "hook_start j c = (if j < length (nc_hooks c) then (case nc_hooks c ! j of (k, n, rest) \<Rightarrow>
       c\<lparr>nc_hooks := take j (nc_hooks c) @ drop (Suc j) (nc_hooks c), nc_running := nc_running c @ [(k, n, rest)],
         nc_answering := dict_set n False (nc_answering c)\<rparr>) else c)"

text \<open>The task ends, cancelled or with its answer sent; a closed connection is no failure.\<close>

definition hook_end :: "cenv \<Rightarrow> nat \<Rightarrow> unit cl" where
  "hook_end env j = (\<lambda>c. if j < length (nc_running c) then (case nc_running c ! j of (k, n, i, name, raw) \<Rightarrow>
       let c1 = c\<lparr>nc_running := take j (nc_running c) @ drop (Suc j) (nc_running c), nc_answering := dict_del n (nc_answering c)\<rparr> in
       if dict_get (nc_answering c) n = Some True then (Inr (), c1)
       else (case hook_frame env c n i name raw of Inl e \<Rightarrow> (Inl e, c1)
         | Inr fr \<Rightarrow> (case client_send env k fr c1 of (Inl e, c2) \<Rightarrow> (if e = ClosedResource then Inr () else Inl e, c2) | x \<Rightarrow> x)))
     else (Inr (), c))"

subsection \<open>Steps\<close>

datatype order =
    Share pyval token share_mode
  | Detach "pyval option" bool
  | Give_back objref
  | Realize pyval int int bool
  | Make_value pyval data_heap objref
  | Read_logs "pyval option" int "int option"
  | Barrier pyval
  | Make string "pyval list"
  | Call_free string "pyval list"
  | Call_on objref bound_spec "pyval list"
  | Is_alive
  | Ping_turn

fun start_order :: "cenv \<Rightarrow> order \<Rightarrow> int cl" where
  "start_order env (Share v t m) = share_ask env v t m"
| "start_order env (Detach v all) = detach_ask env v all"
| "start_order env (Give_back ob) = release_ask env ob"
| "start_order env (Realize v d b f) = realize_ask env v d b f"
| "start_order env (Make_value v hp r) = value_ask env v hp r"
| "start_order env (Read_logs v cap l) = logs_ask env v cap l"
| "start_order env (Barrier v) = barrier_ask env v"
| "start_order env (Make cls vs) = acquire_ask env cls vs"
| "start_order env (Call_free name vs) = function_ask env name vs"
| "start_order env (Call_on ob sp vs) = remote_call env ob sp vs"
| "start_order env Is_alive = ask_control env WAlive PING []"
| "start_order env Ping_turn = (\<lambda>c. if nc_pinger c = None then (Inl RuntimeError, c) else
     (case ask_control env WPing PING [] c of (Inl e, c1) \<Rightarrow> (Inl e, if e = ConnectionLost then stop_pinging c1 else c1) | x \<Rightarrow> x))"

datatype client_event =
    Open_scope
  | Bind_start
  | Bind_open "token option" "exn + frame"
  | Stop_pinging
  | Leave_scope
  | Order order
  | Arrive nat frame
  | Stream_ends nat
  | Peer_gone nat
  | Resume int
  | Cancelled int
  | Collect objref
  | Flush
  | Hook_start nat
  | Hook_end nat

fun client_step :: "cenv \<Rightarrow> client_event \<Rightarrow> client \<Rightarrow> client" where
  "client_step env Open_scope c = open_scope c"
| "client_step env Bind_start c = snd (bind_start c)"
| "client_step env (Bind_open claim reply) c = snd (bind_open env claim reply c)"
| "client_step env Stop_pinging c = stop_pinging c"
| "client_step env Leave_scope c = leave_scope c"
| "client_step env (Order q) c = snd (start_order env q c)"
| "client_step env (Arrive k fr) c = read_answer k fr c"
| "client_step env (Stream_ends k) c = read_ends k c"
| "client_step env (Peer_gone k) c = upd_link k (\<lambda>l. l\<lparr>ln_open := False\<rparr>) c"
| "client_step env (Resume cid) c = (case resume env cid c of None \<Rightarrow> c | Some (r, c1) \<Rightarrow> c1)"
| "client_step env (Cancelled cid) c = cancel_ask env cid c"
| "client_step env (Collect ob) c = collect ob c"
| "client_step env Flush c = snd (flush_dropped env c)"
| "client_step env (Hook_start j) c = hook_start j c"
| "client_step env (Hook_end j) c = snd (hook_end env j c)"

definition client_run :: "cenv \<Rightarrow> client_event list \<Rightarrow> client \<Rightarrow> client" where
  "client_run env es c = fold (client_step env) es c"

end
