(* ===== verification/Serving.thy ===== *)
theory Serving
  imports Dispatcher
begin

text \<open>
  The server as a whole: connections that open with HELLO, read frames into jobs, answer them in any order,
  are cancelled and end; the sweeper, the tasks that close dropped objects, and the stop. Each is one
  step of \<open>run_event\<close>, at a time of its own.
\<close>

record ('w, 's) conn =
  cn_token :: token
  cn_bound :: nat \<comment> \<open>the connection record \<open>bind\<close> answered\<close>
  cn_jobs :: "(nat, mp \<times> string \<times> job \<times> bool) dict" \<comment> \<open>every call not yet answered\<close>
  cn_running :: "(int, nat) dict" \<comment> \<open>\<open>running\<close>: the scope of each call id\<close>
  cn_next :: nat
  cn_out :: "frame list" \<comment> \<open>what was sent\<close>

record ('w, 's) site =
  st_server :: "('w, 's) server"
  st_conns :: "(nat, ('w, 's) conn) dict"
  st_refused :: "frame list" \<comment> \<open>frames to connections that never opened\<close>
  st_next :: nat

definition new_site :: "time option \<Rightarrow> time option \<Rightarrow> 'w \<Rightarrow> ('w, 's) site" where
  "new_site l e w = \<lparr>st_server = new_server l e w, st_conns = [], st_refused = [], st_next = 0\<rparr>"

subsection \<open>Opening\<close>


definition identity_refusal :: "string \<Rightarrow> string \<Rightarrow> pyexc" where
  "identity_refusal theirs ours = Refused IDENTITY (MStr (''the client runs build '' @ take 12 theirs
     @ '' and this server runs '' @ take 12 ours @ '': connect with the server's huggorm''))"

text \<open>What \<open>_connection\<close> makes of the peer's uid and its first frame.\<close>

datatype hello = HNotOurs | HBad | HOther string | HHello "token option"

definition read_hello :: "nat \<Rightarrow> nat \<Rightarrow> string \<Rightarrow> frame \<Rightarrow> hello" where
  "read_hello uid euid ours fr = (if uid \<noteq> euid then HNotOurs else
     (case fr of
        (HELLO, [MStr identity, claim]) \<Rightarrow> (case as_str_opt claim of None \<Rightarrow> HBad
          | Some c \<Rightarrow> if identity \<noteq> ours then HOther identity else HHello c)
      | _ \<Rightarrow> HBad))"

definition bind_token :: "('w, 's) senv \<Rightarrow> token option \<Rightarrow> ('w, 's, token \<times> mp) sv" where
  "bind_token env claim = (\<lambda>s. on_table (\<lambda>t. case Lifecycle.bind (en_now env) (en_mint env (sv_next s)) claim t of
       (tok, t') \<Rightarrow> (Inr (tok, en_seconds env (if truthy (ttl t) then ttl t else None)), t')) (s\<lparr>sv_next := Suc (sv_next s)\<rparr>))"

definition open_conn :: "('w, 's) senv \<Rightarrow> nat \<Rightarrow> nat \<Rightarrow> string \<Rightarrow> frame \<Rightarrow> ('w, 's) site \<Rightarrow> ('w, 's) site" where
  "open_conn env uid euid ours fr st = (case read_hello uid euid ours fr of
       HNotOurs \<Rightarrow> st
     | HBad \<Rightarrow> st
     | HOther theirs \<Rightarrow> (case fst (faults_encode (en_stack env) (en_bind env) (en_tables env) (en_fault env)
           (identity_refusal theirs ours) ()) of
         Inl e \<Rightarrow> st | Inr m \<Rightarrow> st\<lparr>st_refused := st_refused st @ [(FAULT, [MNil, m])]\<rparr>)
     | HHello claim \<Rightarrow> (case bind_token env claim (st_server st) of
           (Inl e, s) \<Rightarrow> st\<lparr>st_server := s\<rparr>
         | (Inr (tok, secs), s) \<Rightarrow> (case dict_get (connections (sv_table s)) tok of
             None \<Rightarrow> st\<lparr>st_server := s\<rparr>
           | Some c \<Rightarrow> st\<lparr>st_server := s, st_next := Suc (st_next st), st_conns := dict_set (st_next st)
               \<lparr>cn_token = tok, cn_bound = c_id c, cn_jobs = [], cn_running = [], cn_next = 0,
                cn_out = [(WELCOME, [MStr tok, secs])]\<rparr> (st_conns st)\<rparr>)))"

subsection \<open>Serving\<close>

definition upd_site_conn :: "nat \<Rightarrow> (('w, 's) conn \<Rightarrow> ('w, 's) conn) \<Rightarrow> ('w, 's) site \<Rightarrow> ('w, 's) site" where
  "upd_site_conn i f st = (case dict_get (st_conns st) i of None \<Rightarrow> st
     | Some c \<Rightarrow> st\<lparr>st_conns := dict_set i (f c) (st_conns st)\<rparr>)"

text \<open>The connection ends: its running calls are cancelled and its token is unbound.\<close>

definition end_conn :: "nat \<Rightarrow> ('w, 's) site \<Rightarrow> ('w, 's) site" where
  "end_conn i st = (case dict_get (st_conns st) i of None \<Rightarrow> st
     | Some c \<Rightarrow> (case on_table (\<lambda>t. (Inr (), Lifecycle.unbind (cn_token c) (cn_bound c) t)) (st_server st) of
         (_ :: exn + unit, s) \<Rightarrow> st\<lparr>st_server := s, st_conns := dict_del i (st_conns st)\<rparr>))"

definition take_frame :: "('w, 's) senv \<Rightarrow> bool \<Rightarrow> nat \<Rightarrow> frame \<Rightarrow> ('w, 's) site \<Rightarrow> ('w, 's) site" where
  "take_frame env backs i fr st = (case dict_get (st_conns st) i of None \<Rightarrow> st
     | Some c \<Rightarrow> (case read_frame env backs fr of
         Spawn cid label j after \<Rightarrow> upd_site_conn i (\<lambda>c. c\<lparr>cn_jobs := dict_set (cn_next c) (cid, label, j, after) (cn_jobs c),
             cn_next := Suc (cn_next c)\<rparr>) st
       | Cancel cid \<Rightarrow> (case dict_get (cn_running c) cid of None \<Rightarrow> st
           | Some n \<Rightarrow> upd_site_conn i (\<lambda>c. c\<lparr>cn_jobs := dict_del n (cn_jobs c), cn_running := dict_del cid (cn_running c)\<rparr>) st)
       | Drop hs \<Rightarrow> (case release_many env (cn_token c) hs (0, 0) (st_server st) of
             (Inl e, s) \<Rightarrow> end_conn i (st\<lparr>st_server := s\<rparr>)
           | (Inr _, s) \<Rightarrow> st\<lparr>st_server := s\<rparr>)
       | Back args \<Rightarrow> st
       | Refuse e \<Rightarrow> end_conn i st))"

definition start_job :: "nat \<Rightarrow> nat \<Rightarrow> ('w, 's) site \<Rightarrow> ('w, 's) site" where
  "start_job i n st = upd_site_conn i (\<lambda>c. case dict_get (cn_jobs c) n of None \<Rightarrow> c
     | Some (cid, label, j, after) \<Rightarrow> (case as_int cid of None \<Rightarrow> c
         | Some k \<Rightarrow> c\<lparr>cn_running := dict_set k n (cn_running c)\<rparr>)) st"

text \<open>The proxies for a client's objects, when the server takes callbacks, live in the world. A call ends: its
  answer is sent. One whose failure cannot be encoded takes its connection with it.\<close>

type_synonym 'w hooks = "(string \<Rightarrow> int \<Rightarrow> ('w, pyval) eff) option"

definition finish_job ::
  "('w, 's) senv \<Rightarrow> 'w hooks \<Rightarrow> nat \<Rightarrow> nat \<Rightarrow> ('w, 's) site \<Rightarrow> ('w, 's) site" where
  "finish_job env back i n st = (case dict_get (st_conns st) i of None \<Rightarrow> st
     | Some c \<Rightarrow> (case dict_get (cn_jobs c) n of None \<Rightarrow> st
       | Some (cid, label, j, after) \<Rightarrow>
           (case answer env (cn_token c) cid label (run_job env (cn_token c) (map_option (\<lambda>g cls n. on_world (g cls n)) back) j) after (st_server st) of
              (Inl e, s) \<Rightarrow> end_conn i (st\<lparr>st_server := s\<rparr>)
            | (Inr fr, s) \<Rightarrow> upd_site_conn i (\<lambda>c. c\<lparr>cn_jobs := dict_del n (cn_jobs c),
                cn_running := (case as_int cid of None \<Rightarrow> cn_running c | Some k \<Rightarrow> dict_del k (cn_running c)),
                cn_out := cn_out c @ [fr]\<rparr>) (st\<lparr>st_server := s\<rparr>))))"

definition sweep_site :: "('w, 's) senv \<Rightarrow> ('w, 's) site \<Rightarrow> ('w, 's) site" where
  "sweep_site env st = (case on_table (Lifecycle.sweep (en_now env)) (st_server st) of (_, s) \<Rightarrow> st\<lparr>st_server := s\<rparr>)"

text \<open>A task of \<open>_on_drop\<close>: the object closes, and a failure goes nowhere.\<close>

definition close_dropped :: "('w, 's) senv \<Rightarrow> objref \<Rightarrow> ('w, 's) site \<Rightarrow> ('w, 's) site" where
  "close_dropped env ob st = (if ob \<notin> set (sv_closing (st_server st)) then st else
     let s = (st_server st)\<lparr>sv_closing := remove1 ob (sv_closing (st_server st))\<rparr> in
     st\<lparr>st_server := snd ((case dict_get (sv_readers s) ob of
         Some i \<Rightarrow> on_fan i (reader_close (fan_source env i s) ob)
       | None \<Rightarrow> on_world (en_aclose env ob)) s)\<rparr>)"

definition stop_site :: "('w, 's) site \<Rightarrow> ('w, 's) site" where
  "stop_site st = (let ended = fold end_conn (dict_keys (st_conns st)) st in
     case on_table (\<lambda>t. case Lifecycle.close t of (hs, t') \<Rightarrow> (Inr hs, t')) (st_server ended) of
       (_ :: exn + hid list, s) \<Rightarrow> ended\<lparr>st_server := s\<rparr>)"

datatype event =
    Connect nat nat string frame
  | Frame bool nat frame
  | Start nat nat
  | Finish nat nat
  | Disconnect nat
  | SweepNow
  | CloseTask objref
  | Stop

fun run_event :: "('w, 's) senv \<Rightarrow> 'w hooks \<Rightarrow> event \<times> time \<Rightarrow> ('w, 's) site \<Rightarrow> ('w, 's) site" where
  "run_event env back (Connect uid euid ours fr, now) = open_conn (env\<lparr>en_now := now\<rparr>) uid euid ours fr"
| "run_event env back (Frame backs i fr, now) = take_frame (env\<lparr>en_now := now\<rparr>) backs i fr"
| "run_event env back (Start i n, now) = start_job i n"
| "run_event env back (Finish i n, now) = finish_job (env\<lparr>en_now := now\<rparr>) back i n"
| "run_event env back (Disconnect i, now) = end_conn i"
| "run_event env back (SweepNow, now) = sweep_site (env\<lparr>en_now := now\<rparr>)"
| "run_event env back (CloseTask ob, now) = close_dropped env ob"
| "run_event env back (Stop, now) = stop_site"

end
