(* ===== verification/Serving_Inv.thy ===== *)
theory Serving_Inv
  imports Serving
begin

text \<open>
  Invariants of the server. \<open>keeps P m\<close>: whatever \<open>m\<close> answers, it leaves a state with \<open>P\<close> when it found
  one. A codec keeps what its handle callbacks keep; \<open>server_invariant\<close> is what an invariant of the whole
  server has to satisfy, its laws about the table, the world and the rest, and gives that every request,
  frame and event keeps it.
\<close>

definition keeps :: "('s \<Rightarrow> bool) \<Rightarrow> ('s, 'a) eff \<Rightarrow> bool" where
  "keeps P m \<longleftrightarrow> (\<forall>s. P s \<longrightarrow> P (snd (m s)))"

named_theorems keeps_intro \<open>computations that keep an invariant\<close>

lemma keepsD: "keeps P m \<Longrightarrow> P s \<Longrightarrow> m s = (r, s') \<Longrightarrow> P s'"
  unfolding keeps_def by (metis snd_conv)

lemma keeps_snd: "keeps P m \<Longrightarrow> P s \<Longrightarrow> P (snd (m s))"
  by (simp add: keeps_def)

lemma keeps_ret [keeps_intro]: "keeps P (ret a)"
  by (simp add: keeps_def)

lemma keeps_raise [keeps_intro]: "keeps P (raise e)"
  by (simp add: keeps_def)

lemma keeps_lift [keeps_intro]: "keeps P (lift_res r)"
  by (simp add: keeps_def)

lemma keeps_bind [keeps_intro]: "keeps P m \<Longrightarrow> (\<And>a. keeps P (f a)) \<Longrightarrow> keeps P (bind_eff m f)"
  unfolding keeps_def
proof (intro allI impI)
  fix s assume "\<forall>s. P s \<longrightarrow> P (snd (m s))" "\<And>a. \<forall>s. P s \<longrightarrow> P (snd (f a s))" "P s"
  then show "P (snd (bind_eff m f s))" by (cases rule: bind_eff_cases[of m s f]) (metis snd_conv)+
qed

lemma keeps_map [keeps_intro]: "(\<And>x. x \<in> set xs \<Longrightarrow> keeps P (f x)) \<Longrightarrow> keeps P (map_eff f xs)"
  by (induction xs) (auto intro!: keeps_intro)

lemma keeps_items [keeps_intro]: "(\<And>k v. (k, v) \<in> set xs \<Longrightarrow> keeps P (f v)) \<Longrightarrow> keeps P (map_items f xs)"
  unfolding map_items_def by (intro keeps_intro) auto

lemma keeps_at: "(\<And>s. P s \<Longrightarrow> P (snd (m s))) \<Longrightarrow> keeps P m"
  by (simp add: keeps_def)

subsection \<open>The codecs\<close>

lemma keeps_parts_out:
  "(\<And>w x d. keeps P (enc w x d)) \<Longrightarrow> keeps P (parts_out enc b tb cls v depth)"
  unfolding parts_out_def Let_def
  by (auto intro!: keeps_intro split: pyval.split option.split)

lemma keeps_union_arms:
  "(\<And>c x d. keeps P (po c x d)) \<Longrightarrow> keeps P (union_arms po b arms i held depth)"
  by (induction arms arbitrary: i) (auto intro!: keeps_intro split: sum.split bool.split)

lemma keeps_union_out:
  "(\<And>c x d. keeps P (po c x d)) \<Longrightarrow> keeps P (union_out po b tb alias v depth)"
  unfolding union_out_def
  by (auto intro!: keeps_intro keeps_union_arms split: sum.split option.split)

lemma keeps_no_proxy [keeps_intro]: "keeps P (no_proxy x)"
  by (simp add: no_proxy_def keeps_raise)

lemma encode_keeps:
  "(\<And>v. keeps P (pid v)) \<Longrightarrow> (\<And>ci c x. cid = Some ci \<Longrightarrow> keeps P (ci c x)) \<Longrightarrow> keeps P (encode n b tb w v pid depth cid)"
proof (induction n arbitrary: w v pid depth cid)
  case (Suc n)
  have rec: "keeps P (encode n b tb (Some it) x pid depth c)" if "\<And>ci k y. c = Some ci \<Longrightarrow> keeps P (ci k y)" for it x c
    by (rule Suc.IH[OF Suc.prems(1)]) (rule that)
  have none: "keeps P (encode n b tb (Some f) x no_proxy d None)" for f x d
    by (rule Suc.IH) (auto intro: keeps_intro)
  show ?case
  proof (cases w)
    case None
    then show ?thesis by (simp add: keeps_ret)
  next
    case (Some wr)
    show ?thesis unfolding Some
      by (auto simp: Let_def intro!: keeps_intro keeps_parts_out keeps_union_out rec none Suc.prems
          split: wire_kind.split option.split)
  qed
qed (simp add: keeps_raise)

declare decode.simps(2) [simp del]

lemma keeps_parts_in:
  assumes "\<And>w ms m. raw = MList ms \<Longrightarrow> m \<in> set ms \<Longrightarrow> keeps P (dec w m)"
  shows "keeps P (parts_in dec fs raw)"
proof (cases raw)
  case (MList ms)
  have "keeps P (map_eff (\<lambda>(f, m). dec (snd f) m) (zip fs ms))"
    by (intro keeps_map) (use assms MList in \<open>auto dest: set_zip_rightD\<close>)
  with MList show ?thesis by (simp add: parts_in_def keeps_raise)
qed (simp_all add: parts_in_def keeps_raise)

lemma keeps_union_in:
  assumes "\<And>arm i m d. raw = MList [i, m] \<Longrightarrow> keeps P (dec arm m d)"
  shows "keeps P (union_in dec b tb alias raw depth)"
  unfolding union_in_def Let_def
  by (auto intro!: keeps_intro assms split: sum.split option.split mp.split list.split)

lemma decode_keeps:
  assumes "\<And>h. keeps P (pobj h)" "\<And>co c i. cobj = Some co \<Longrightarrow> keeps P (co c i)"
  shows "keeps P (decode b tb w raw pobj depth cobj)"
  using assms
proof (induction raw arbitrary: w pobj depth cobj rule: measure_induct_rule[of size])
  case (less raw)
  have rec: "keeps P (decode b tb (Some it) m pobj depth cobj)" if "size m < size raw" for it m
    by (rule less.IH[OF that]) (use less.prems in auto)
  have none: "keeps P (decode b tb (Some it) m no_proxy d None)" if "size m < size raw" for it m d
    by (rule less.IH[OF that]) (auto intro: keeps_intro)
  show ?case
  proof (cases w)
    case None
    then show ?thesis by (simp add: keeps_ret)
  next
    case (Some wr)
    have list: "keeps P (map_eff (\<lambda>m. decode b tb (Some it) m pobj depth cobj) ms)" if "raw = MList ms" for it ms
      by (intro keeps_map rec) (use that size_mp_MList in simp)
    have map: "keeps P (map_items (\<lambda>m. decode b tb (Some it) m pobj depth cobj) ms)" if "raw = MMap ms" for it ms
      by (intro keeps_items rec) (use that size_mp_MMap in auto)
    have parts: "keeps P (parts_in (\<lambda>f m. decode b tb (Some f) m no_proxy depth None) fs raw)" for fs
      by (intro keeps_parts_in none) (use size_mp_MList in simp)
    have union: "keeps P (union_in (\<lambda>arm m d. decode b tb (Some arm) m no_proxy d None) b tb al raw depth)" for al
      by (intro keeps_union_in none) simp
    note d = decode.simps(2)[of b tb wr raw pobj depth cobj]
    show ?thesis
    proof (cases "raw = MNil")
      case True
      then show ?thesis unfolding Some d by (simp add: keeps_ret keeps_raise)
    next
      case False
      show ?thesis
      proof (cases "wkind wr")
        case LIST
        then show ?thesis unfolding Some d using False
          by (cases "witem wr"; cases raw) (simp_all add: keeps_raise keeps_bind[OF list keeps_ret])
      next
        case MAP
        then show ?thesis unfolding Some d using False
          by (cases "witem wr"; cases raw) (simp_all add: keeps_raise keeps_bind[OF map keeps_ret])
      next
        case VALUE
        then show ?thesis unfolding Some d using False
          by (cases "t_fields tb (wname wr)") (auto intro!: keeps_intro parts)
      next
        case ERROR
        then show ?thesis unfolding Some d using False
          by (cases "t_errors tb (wname wr)") (auto intro!: keeps_intro parts)
      next
        case PROXY
        then show ?thesis unfolding Some d using False less.prems(1)
          by (cases raw) (simp_all add: keeps_raise)
      next
        case CLIENT
        then show ?thesis unfolding Some d using False less.prems(2)
          by (cases raw; cases cobj) (simp_all add: keeps_raise)
      qed (use False union in \<open>simp_all add: Some d keeps_lift\<close>)
    qed
  qed
qed

lemma encode_tree_keeps:
  "(\<And>c ob. keeps P (pid c ob)) \<Longrightarrow> keeps P (encode_tree b pid n)"
proof (induction n)
  case (Leaf wr v)
  then show ?case by (auto intro!: keeps_intro split: option.split)
qed (auto intro!: keeps_intro)

subsection \<open>An invariant of the server\<close>

text \<open>What an invariant has to satisfy: the laws of the world, the table's operations other than a put, a put
  of a fresh identity, and writes that touch neither the table nor the supply backwards.\<close>

locale server_invariant =
  fixes mint :: "nat \<Rightarrow> hid"
    and P :: "('w, 's) server \<Rightarrow> bool"
  assumes keep_rest: "P s \<Longrightarrow> sv_table s' = sv_table s \<Longrightarrow> sv_next s \<le> sv_next s' \<Longrightarrow> P s'"
    and keep_op: "admissible x (sv_table s) \<Longrightarrow> \<not> puts x \<Longrightarrow> P s \<Longrightarrow> P (s\<lparr>sv_table := run_op x (sv_table s)\<rparr>)"
    and keep_put: "P s \<Longrightarrow> P (s\<lparr>sv_table := run_op (Put now (mint (sv_next s)) ob tok ps) (sv_table s), sv_next := Suc (sv_next s)\<rparr>)"
begin

lemma keeps_world [keeps_intro]: "keeps P (on_world m)"
  by (rule keeps_at) (auto simp: on_world_def Let_def case_prod_beta intro: keep_rest)

lemma drops_frame: "sv_table (fold on_drop_obj obs s) = sv_table s" "sv_next (fold on_drop_obj obs s) = sv_next s"
  by (induction obs arbitrary: s) (simp_all add: on_drop_obj_def)

lemma on_table_snd: "\<exists>obs. snd (on_table m s) = fold on_drop_obj obs (s\<lparr>sv_table := snd (m (sv_table s))\<rparr>)"
  by (auto simp: on_table_def Let_def case_prod_beta)

lemma keeps_table:
  assumes "\<And>t. snd (m t) = run_op x t" "\<And>t. admissible x t" "\<not> puts x"
  shows "keeps P (on_table m)"
proof (rule keeps_at)
  fix s assume p: "P s"
  obtain obs where o': "snd (on_table m s) = fold on_drop_obj obs (s\<lparr>sv_table := snd (m (sv_table s))\<rparr>)"
    using on_table_snd[of m s] by blast
  have "P (s\<lparr>sv_table := run_op x (sv_table s)\<rparr>)" by (rule keep_op[OF assms(2,3) p])
  then show "P (snd (on_table m s))" unfolding o' by (rule keep_rest) (simp_all add: drops_frame assms(1))
qed

lemma keeps_read [keeps_intro]: "keeps P (on_table (\<lambda>t. (f t, t)))"
  by (rule keeps_at) (auto simp: on_table_def Let_def intro: keep_rest)

lemma keeps_put:
  assumes "en_mint env = mint"
  shows "keeps P (put_obj env ob tok ps)"
proof (rule keeps_at)
  fix s assume p: "P s"
  let ?m = "Lifecycle.put (en_now env) (en_mint env (sv_next s)) ob tok ps" and ?s = "s\<lparr>sv_next := Suc (sv_next s)\<rparr>"
  obtain obs where o': "snd (on_table ?m ?s) = fold on_drop_obj obs (?s\<lparr>sv_table := snd (?m (sv_table ?s))\<rparr>)"
    using on_table_snd[of ?m ?s] by blast
  show "P (snd (put_obj env ob tok ps s))" unfolding put_obj_def o'
    by (rule keep_rest[OF keep_put[OF p, of "en_now env" ob tok ps]]) (simp_all add: drops_frame assms)
qed

lemma keeps_get [keeps_intro]: "keeps P (get_obj h)"
  unfolding get_obj_def by (rule keeps_read)

lemma keeps_resolve [keeps_intro]: "keeps P (resolve env h tok)"
  unfolding resolve_def
  by (intro keeps_intro keeps_table[where x = "Touch (en_now env) tok h"]) (simp_all add: puts_def)

lemma keeps_release [keeps_intro]: "keeps P (release_handle env tok h)"
  unfolding release_handle_def
  by (intro keeps_table[where x = "Release (en_now env) tok h 1"]) (simp_all add: puts_def)

lemma keeps_share [keeps_intro]: "keeps P (share_handle env tok a h mode)"
  unfolding share_handle_def
  by (intro keeps_table[where x = "Share (en_now env) tok a h mode"]) (simp_all add: puts_def)

lemma keeps_detach [keeps_intro]: "keeps P (detach_handle env tok h all)"
  unfolding detach_handle_def
  by (auto intro!: keeps_intro keeps_table[where x = "Detach (en_now env) tok h"] simp: puts_def)

lemma keeps_ping [keeps_intro]: "keeps P (ping env tok)"
  unfolding ping_def
  by (intro keeps_table[where x = "Alive (en_now env) tok"]) (simp_all add: puts_def case_prod_beta)

lemma keeps_fan_section [keeps_intro]: "keeps P (on_fan i m)"
  by (rule keeps_at) (auto simp: on_fan_def split: option.split prod.split intro: keep_rest)

lemma keeps_fanout_of [keeps_intro]: "keeps P (fanout_of env ob)"
  by (rule keeps_at) (auto simp: fanout_of_def split: option.split intro: keep_rest)

lemma keeps_join_fan [keeps_intro]: "keeps P (join_fan env i c l)"
proof (rule keeps_at)
  fix s assume p: "P s"
  have "keeps P (bind_eff (on_fan i m) (\<lambda>_. \<lambda>s1. (Inr ob, s1\<lparr>sv_readers := dict_set ob i (sv_readers s1)\<rparr>)))"
    for m :: "('w, 's, pyval, nat) fan_eff" and ob
    by (intro keeps_intro) (auto intro!: keeps_at intro: keep_rest)
  moreover have "P (s\<lparr>sv_next := Suc (sv_next s)\<rparr>)" by (rule keep_rest[OF p]) simp_all
  ultimately show "P (snd (join_fan env i c l s))" by (simp add: join_fan_def Let_def keeps_def)
qed

lemma keeps_join_handle [keeps_intro]: "keeps P (join_handle env i key c l)"
  unfolding join_handle_def by (intro keeps_intro) (auto intro!: keeps_at intro: keep_rest)

lemma keeps_reader_method [keeps_intro]: "keeps P (reader_method env ob i name args)"
  by (rule keeps_at) (auto simp: reader_method_def Let_def intro!: keeps_snd[OF keeps_bind] keeps_intro)

lemma keeps_leave_all [keeps_intro]: "keeps P (leave_all env key)"
proof (rule keeps_at)
  fix s assume p: "P s"
  have "keeps P (\<lambda>s. case dict_get (sv_readers s) ob of None \<Rightarrow> (Inr (), s)
     | Some i \<Rightarrow> on_fan i (reader_close (fan_source env i s) ob) s)" for ob
    by (rule keeps_at) (auto intro!: keeps_snd[OF keeps_fan_section] split: option.split)
  then have "keeps P (bind_eff (map_eff (\<lambda>ob. \<lambda>s. case dict_get (sv_readers s) ob of None \<Rightarrow> (Inr (), s)
     | Some i \<Rightarrow> on_fan i (reader_close (fan_source env i s) ob) s) obs) (\<lambda>_. ret ()))" for obs
    by (intro keeps_intro)
  moreover have "P (s\<lparr>sv_handle_readers := dict_del key (sv_handle_readers s)\<rparr>)" by (rule keep_rest[OF p]) simp_all
  ultimately show "P (snd (leave_all env key s))" by (simp add: leave_all_def Let_def keeps_def)
qed

lemma keeps_subscribe [keeps_intro]: "keeps P fan \<Longrightarrow> keeps P (subscribe env fan key args)"
  unfolding subscribe_def by (auto intro!: keeps_intro split: option.split)

lemma keeps_unsubscribe [keeps_intro]: "keeps P (unsubscribe env key args)"
  unfolding unsubscribe_def by (auto intro!: keeps_intro)

subsection \<open>Requests keep it\<close>

lemma keeps_arguments [keeps_intro]:
  "(\<And>co c i. back = Some co \<Longrightarrow> keeps P (co c i)) \<Longrightarrow> keeps P (arguments env sp raw tok back)"
  unfolding arguments_def by (auto intro!: keeps_intro decode_keeps)

lemma keeps_run_on [keeps_intro]: "keeps P (run_on env rn tok ob args)"
proof (cases rn)
  case (RunMethod name)
  have "keeps P (\<lambda>s. case dict_get (sv_readers s) ob of Some i \<Rightarrow> reader_method env ob i name args s
         | None \<Rightarrow> on_world (en_method env ob name args) s)"
    by (rule keeps_at) (auto intro!: keeps_snd[OF keeps_reader_method] keeps_snd[OF keeps_world] split: option.split)
  then show ?thesis by (simp add: run_on_def RunMethod)
next
  case (RunRole r)
  then show ?thesis by (cases r) (auto simp: run_on_def intro!: keeps_intro)
qed (simp_all add: run_on_def keeps_raise)

lemma keeps_run_free [keeps_intro]: "keeps P (run_free env rn tok args)"
  unfolding run_free_def by (auto intro!: keeps_intro split: runs.split subscription.split)

lemma keeps_encode_answer: "en_mint env = mint \<Longrightarrow> keeps P (encode_answer env returns v tok parents)"
  unfolding encode_answer_def by (intro encode_keeps keeps_put) auto

lemma keeps_run_call:
  "en_mint env = mint \<Longrightarrow> (\<And>co c i. back = Some co \<Longrightarrow> keeps P (co c i)) \<Longrightarrow> keeps P (run_call env tok idx hid raw back)"
  unfolding run_call_def Let_def
  by (auto intro!: keeps_intro keeps_encode_answer keeps_put split: option.split target.split mp.split)

lemma keeps_release_many: "keeps P (release_many env tok hs counts)"
proof (induction hs arbitrary: counts)
  case (Cons h hs)
  show ?case
  proof (rule keeps_at)
    fix s assume "P s"
    then show "P (snd (release_many env tok (h # hs) counts s))"
      using keeps_release[of env tok h] Cons unfolding keeps_def
      by (auto split: prod.split sum.split)
  qed
qed (simp add: keeps_ret)

lemma keeps_lease_node: "en_mint env = mint \<Longrightarrow> keeps P (lease_node env tok h target ob)"
  unfolding lease_node_def adopt_def by (auto intro!: keeps_intro keeps_put)

lemma keeps_realize [keeps_intro]: "keeps P (realize env tok h d b f)"
  unfolding realize_def by (auto intro!: keeps_intro split: option.split)

lemma keeps_build: "en_mint env = mint \<Longrightarrow> keeps P (build env tok h data)"
  unfolding build_def Let_def
  by (auto intro!: keeps_intro encode_tree_keeps keeps_lease_node split: option.split)

lemma keeps_open_logs: "en_mint env = mint \<Longrightarrow> keeps P (open_logs env tok h c l)"
  unfolding open_logs_def by (auto intro!: keeps_intro keeps_put split: option.split)

lemma keeps_barrier [keeps_intro]: "keeps P (logs_barrier env tok h)"
  unfolding logs_barrier_def by (auto intro!: keeps_intro)

lemma keeps_control: "en_mint env = mint \<Longrightarrow> keeps P (control_op env tok c args)"
  unfolding control_op_def
  by (auto intro!: keeps_intro encode_tree_keeps keeps_lease_node keeps_build keeps_open_logs
      split: option.split request.split)

lemma keeps_job:
  "en_mint env = mint \<Longrightarrow> keeps P (run_job env tok (map_option (\<lambda>g cls n. on_world (g cls n)) back) j)"
  unfolding run_job_def
  by (auto intro!: keeps_run_call keeps_control keeps_world split: job.split)

lemma keeps_answer: "keeps P run \<Longrightarrow> keeps P (answer env tok cid label run after)"
  unfolding keeps_def answer_def by (auto split: prod.split sum.split)

subsection \<open>Events keep it\<close>

lemma keeps_bind_token: "keeps P (bind_token env claim)"
proof (rule keeps_at)
  fix s assume p: "P s"
  let ?m = "\<lambda>t. case Lifecycle.bind (en_now env) (en_mint env (sv_next s)) claim t of
       (tok, t') \<Rightarrow> (Inr (tok, en_seconds env (if truthy (ttl t) then ttl t else None)), t')"
  have "keeps P (on_table ?m)"
    by (rule keeps_table[where x = "Bind (en_now env) (en_mint env (sv_next s)) claim"]) (simp_all add: puts_def case_prod_beta)
  moreover have "P (s\<lparr>sv_next := Suc (sv_next s)\<rparr>)" by (rule keep_rest[OF p]) simp_all
  ultimately show "P (snd (bind_token env claim s))" unfolding bind_token_def by (rule keeps_snd)
qed

lemma keeps_open_conn:
  assumes "P (st_server st)"
  shows "P (st_server (open_conn env uid euid ours fr st))"
proof -
  have "P (snd (bind_token env claim (st_server st)))" for claim
    by (rule keeps_snd[OF keeps_bind_token assms])
  then show ?thesis using assms
    unfolding open_conn_def by (auto split: hello.split sum.split prod.split option.split) (metis snd_conv)+
qed

lemma keeps_end_conn:
  assumes "P (st_server st)"
  shows "P (st_server (end_conn i st))"
proof (cases "dict_get (st_conns st) i")
  case (Some c)
  have "keeps P (on_table (\<lambda>t. (Inr () :: exn + unit, Lifecycle.unbind (cn_token c) (cn_bound c) t)))"
    by (rule keeps_table[where x = "Unbind (cn_token c) (cn_bound c)"]) (simp_all add: puts_def)
  from keeps_snd[OF this assms] Some show ?thesis by (simp add: end_conn_def case_prod_beta)
qed (simp add: end_conn_def assms)

lemma upd_conn_server [simp]: "st_server (upd_site_conn i f st) = st_server st"
  by (simp add: upd_site_conn_def split: option.split)

lemma keeps_take_frame:
  assumes "P (st_server st)"
  shows "P (st_server (take_frame env backs i fr st))"
proof (cases "dict_get (st_conns st) i")
  case (Some c)
  have r: "P (snd (release_many env (cn_token c) hs (0, 0) (st_server st)))" for hs
    by (rule keeps_snd[OF keeps_release_many assms])
  show ?thesis
  proof (cases "read_frame env backs fr")
    case (Drop hs)
    show ?thesis
    proof (cases "release_many env (cn_token c) hs (0, 0) (st_server st)")
      case (Pair a s)
      then have "P s" using r[of hs] by simp
      then have "P (st_server (st\<lparr>st_server := s\<rparr>))" by simp
      then show ?thesis using Some Drop Pair keeps_end_conn by (auto simp: take_frame_def split: sum.split)
    qed
  qed (use Some assms keeps_end_conn in \<open>auto simp: take_frame_def split: option.split\<close>)
qed (simp add: take_frame_def assms)

lemma keeps_finish_job:
  assumes "en_mint env = mint" "P (st_server st)"
  shows "P (st_server (finish_job env back i n st))"
proof (cases "dict_get (st_conns st) i")
  case (Some c)
  show ?thesis
  proof (cases "dict_get (cn_jobs c) n")
    case None
    then show ?thesis using Some assms(2) by (simp add: finish_job_def)
  next
    case (Some x)
    obtain cid label j after where x: "x = (cid, label, j, after)" by (cases x)
    let ?a = "answer env (cn_token c) cid label (run_job env (cn_token c) (map_option (\<lambda>g cls n. on_world (g cls n)) back) j) after"
    obtain r s where a: "?a (st_server st) = (r, s)" by (cases "?a (st_server st)")
    have "P s" using keepsD[OF keeps_answer[OF keeps_job[OF assms(1)]] assms(2) a] .
    then have "P (st_server (st\<lparr>st_server := s\<rparr>))" by simp
    then show ?thesis
      using Some \<open>dict_get (st_conns st) i = Some c\<close> x a keeps_end_conn by (auto simp: finish_job_def split: sum.split)
  qed
qed (simp add: finish_job_def assms)

lemma keeps_sweep: "P (st_server st) \<Longrightarrow> P (st_server (sweep_site env st))"
  using keeps_snd[OF keeps_table[of "Lifecycle.sweep (en_now env)" "Sweep (en_now env)"], of "st_server st"]
  by (simp add: sweep_site_def puts_def case_prod_beta)

lemma keeps_close_dropped:
  assumes "P (st_server st)"
  shows "P (st_server (close_dropped env ob st))"
proof -
  let ?s = "(st_server st)\<lparr>sv_closing := remove1 ob (sv_closing (st_server st))\<rparr>"
  have s: "P ?s" by (rule keep_rest[OF assms]) simp_all
  show ?thesis using assms keeps_snd[OF keeps_fan_section s] keeps_snd[OF keeps_world s]
    by (auto simp: close_dropped_def Let_def split: option.split)
qed

lemma keeps_stop: "P (st_server st) \<Longrightarrow> P (st_server (stop_site st))"
proof -
  assume "P (st_server st)"
  then have e: "P (st_server (fold end_conn ks st))" for ks
    by (induction ks arbitrary: st) (simp_all add: keeps_end_conn)
  have "keeps P (on_table (\<lambda>t. case Lifecycle.close t of (hs, t') \<Rightarrow> (Inr hs :: exn + hid list, t')))"
    by (rule keeps_table[where x = Close]) (simp_all add: puts_def case_prod_beta)
  from keeps_snd[OF this e] show ?thesis by (simp add: stop_site_def Let_def case_prod_beta)
qed

lemma keeps_event:
  assumes "en_mint env = mint" "P (st_server st)"
  shows "P (st_server (run_event env back e st))"
proof -
  obtain ev now where e: "e = (ev, now)" by (cases e)
  show ?thesis unfolding e
    by (cases ev) (use assms in \<open>simp_all add: keeps_open_conn keeps_take_frame keeps_finish_job keeps_end_conn
      keeps_sweep keeps_close_dropped keeps_stop start_job_def\<close>)
qed

lemma keeps_events:
  assumes "en_mint env = mint" "P (st_server st)"
  shows "P (st_server (fold (run_event env back) es st))"
  using assms(2) by (induction es arbitrary: st) (simp_all add: keeps_event[OF assms(1)])

end

subsection \<open>The table stays balanced\<close>

text \<open>The table's invariant, and every identity still to come is new.\<close>

definition srv_ok :: "(nat \<Rightarrow> hid) \<Rightarrow> ('w, 's) server \<Rightarrow> bool" where
  "srv_ok mint s \<longleftrightarrow> (inj mint \<longrightarrow> table_inv (sv_table s) \<and> (\<forall>n\<ge>sv_next s. \<not> present (sv_table s) (mint n)))"

interpretation balanced: server_invariant mint "srv_ok mint" for mint
proof
  fix s s' :: "('w, 's) server"
  show "srv_ok mint s \<Longrightarrow> sv_table s' = sv_table s \<Longrightarrow> sv_next s \<le> sv_next s' \<Longrightarrow> srv_ok mint s'"
    by (simp add: srv_ok_def)
next
  fix s :: "('w, 's) server" and x
  assume x: "admissible x (sv_table s)" "\<not> puts x" and p: "srv_ok mint s"
  show "srv_ok mint (s\<lparr>sv_table := run_op x (sv_table s)\<rparr>)"
    unfolding srv_ok_def
  proof (intro impI conjI allI)
    assume i: "inj mint"
    then have t: "table_inv (sv_table s)" using p by (simp add: srv_ok_def)
    then show "table_inv (sv_table (s\<lparr>sv_table := run_op x (sv_table s)\<rparr>))" using run_op_inv x(1) by simp
    fix n assume n: "sv_next (s\<lparr>sv_table := run_op x (sv_table s)\<rparr>) \<le> n"
    then have "\<not> present (sv_table s) (mint n)" using p i by (simp add: srv_ok_def)
    then show "\<not> present (sv_table (s\<lparr>sv_table := run_op x (sv_table s)\<rparr>)) (mint n)"
      using run_op_new[OF t x(1), of "mint n"] x(2) by (auto simp: puts_def)
  qed
next
  fix s :: "('w, 's) server" and now ob tok ps
  assume p: "srv_ok mint s"
  let ?x = "Put now (mint (sv_next s)) ob tok ps"
  show "srv_ok mint (s\<lparr>sv_table := run_op ?x (sv_table s), sv_next := Suc (sv_next s)\<rparr>)"
    unfolding srv_ok_def
  proof (intro impI conjI allI)
    assume i: "inj mint"
    then have t: "table_inv (sv_table s)" and f: "\<And>n. sv_next s \<le> n \<Longrightarrow> \<not> present (sv_table s) (mint n)"
      using p by (simp_all add: srv_ok_def)
    have a: "admissible ?x (sv_table s)" using f by simp
    show "table_inv (sv_table (s\<lparr>sv_table := run_op ?x (sv_table s), sv_next := Suc (sv_next s)\<rparr>))"
      using run_op_inv[OF t a] by simp
    fix n assume n: "sv_next (s\<lparr>sv_table := run_op ?x (sv_table s), sv_next := Suc (sv_next s)\<rparr>) \<le> n"
    then have "mint n \<noteq> mint (sv_next s)" using i by (auto dest: injD)
    then show "\<not> present (sv_table (s\<lparr>sv_table := run_op ?x (sv_table s), sv_next := Suc (sv_next s)\<rparr>)) (mint n)"
      using run_op_new[OF t a, of "mint n"] f[of n] n by auto
  qed
qed

lemma new_site_ok: "srv_ok mint (st_server (new_site l e w))"
proof -
  have "table_inv ((new_table l e)\<lparr>on_drop := True\<rparr>)" by (simp add: on_drop_inv)
  moreover have "\<not> present ((new_table l e)\<lparr>on_drop := True\<rparr>) h" for h by (simp add: present_def new_table_def)
  ultimately show ?thesis by (simp add: srv_ok_def new_site_def new_server_def)
qed

end
