(* ===== verification/Client_Inv.thy ===== *)
theory Client_Inv
  imports Client_Calls Serving_Inv
begin

text \<open>
  What an invariant of the client has to satisfy: it survives a new object, a new number for an object
  the server calls back, a request sent, and the mark that the connection was swept. \<open>client_invariant\<close> gives
  that every order keeps it, and every answer but the one to a release. It is interpreted here on the count of the
  objects alive for each handle, and with the properties on the frames sent and the calls that wait.
\<close>

lemma decode_tree_keeps:
  assumes "\<And>cls h. keeps P (pobj cls h)" "\<And>cls h cont. keeps P (holder cls h cont)"
  shows "keeps P (decode_tree pobj holder raw)"
proof (induction raw rule: measure_induct_rule[of size])
  case (less raw)
  have ih: "keeps P (decode_tree pobj holder m)" if "size m < size raw" for m by (rule less.IH[OF that])
  show ?case
  proof (cases "node_view raw")
    case (Inl e)
    then show ?thesis by (subst decode_tree.simps) (simp add: keeps_raise)
  next
    case (Inr v)
    show ?thesis
    proof (cases v)
      case (VItems cls h ms)
      have "keeps P (map_eff (decode_tree pobj holder) ms)"
        by (intro keeps_intro ih node_view_size(1)[OF Inr[unfolded VItems]])
      with Inr VItems assms(2) show ?thesis by (subst decode_tree.simps) (auto intro!: keeps_intro)
    next
      case (VEntries cls h es)
      have "keeps P (map_items (decode_tree pobj holder) (entries_of es))"
        by (rule keeps_items, rule ih, rule node_view_size(2)[OF Inr[unfolded VEntries]])
      with Inr VEntries assms(2) show ?thesis
        by (subst decode_tree.simps) (auto intro!: keeps_intro split: sum.split)
    qed (use Inr assms(1) in \<open>subst decode_tree.simps, auto intro!: keeps_intro\<close>)+
  qed
qed

text \<open>The requests a client sends: a call with its index, a handle or none and its arguments, or a control the
  server reads.\<close>

definition request_body :: "op \<Rightarrow> mp list \<Rightarrow> bool" where
  "request_body o' body \<longleftrightarrow> (o' = CALL \<and> (\<exists>i h ms. body = [MInt i, h, MList ms])) \<or>
     (o' = CONTROL \<and> (\<exists>k args. body = [MInt (control_number k), MList args] \<and> request_of k args \<noteq> None))"

lemma request_body_op: "request_body o' body \<Longrightarrow> o' = CALL \<or> o' = CONTROL"
  by (auto simp: request_body_def)

lemma bind_eff_assoc: "bind_eff (bind_eff m f) g = bind_eff m (\<lambda>a. bind_eff (f a) g)"
  by (simp add: bind_eff_def fun_eq_iff split: prod.split sum.split)

lemma encode_data_list: "encode_data hp hid r = Inr m \<Longrightarrow> \<exists>ms. m = MList ms"
  unfolding encode_data_def by (subst (asm) data_nodes.simps) (auto split: option.splits data_obj.splits sum.splits if_splits)

locale client_invariant =
  fixes env :: cenv and P :: "client \<Rightarrow> bool"
  assumes made: "keeps P (make_object env cls h cont)"
    and noted: "P c \<Longrightarrow> P (c\<lparr>nc_object_ids := ids, nc_objects := obs\<rparr>)"
    and asked: "(\<And>ob. wn \<noteq> WRelease ob) \<Longrightarrow> request_body o' body \<Longrightarrow> keeps P (ask_server env wn o' body)"
    and told: "P c \<Longrightarrow> P (c\<lparr>nc_expired := True\<rparr>)"
    and stopped: "P c \<Longrightarrow> P (stop_pinging c)"
begin

lemma keeps_handle [keeps_intro]: "keeps P (handle_of v)"
  by (rule keeps_at) (auto simp: handle_of_def split: pyval.split option.split)

lemma keeps_noted [keeps_intro]: "keeps P (client_id_of env cls v)"
  by (rule keeps_at) (auto simp: client_id_of_def Let_def noted split: option.split)

lemma keeps_control [keeps_intro]: "(\<And>ob. wn \<noteq> WRelease ob) \<Longrightarrow> request_of k args \<noteq> None \<Longrightarrow> keeps P (ask_control env wn k args)"
  unfolding ask_control_def by (rule asked) (auto simp: request_body_def)

lemma keeps_at_state: "(\<And>c. keeps P (f c)) \<Longrightarrow> keeps P (\<lambda>c. f c c)"
  by (simp add: keeps_def)

lemma keeps_args [keeps_intro]: "keeps P (encode_args env as vs)"
  unfolding encode_args_def
  by (rule keeps_at_state) (auto intro!: keeps_intro encode_keeps split: if_splits)

lemma keeps_call [keeps_intro]: "(\<And>ob. wn \<noteq> WRelease ob) \<Longrightarrow> keeps P (ask_call env wn idx h as vs)"
  unfolding ask_call_def by (intro keeps_intro asked) (simp_all add: request_body_def)

lemma keeps_invoke [keeps_intro]: "keeps P (invoke_ask env m ho vs)"
  unfolding invoke_ask_def by (auto intro!: keeps_intro split: option.split)

lemma keeps_value: "keeps P (value_ask env v hp r)"
  unfolding value_ask_def
proof (rule keeps_bind[OF keeps_handle], rule keeps_at)
  fix h c assume c: "P c"
  show "P (snd (case encode_data hp (\<lambda>x. fst (handle_of (PObj x) c)) r of Inl e \<Rightarrow> (Inl e, c)
      | Inr m \<Rightarrow> ask_control env (WTree (passed_objects hp r c)) BUILD [MStr h, m] c))"
  proof (cases "encode_data hp (\<lambda>x. fst (handle_of (PObj x) c)) r")
    case (Inr m)
    then obtain ms where m: "m = MList ms" using encode_data_list by blast
    have "keeps P (ask_control env (WTree (passed_objects hp r c)) BUILD [MStr h, m])"
      by (rule keeps_control) (simp_all add: request_of_def m)
    with Inr c show ?thesis by (simp add: keeps_def)
  qed (simp add: c)
qed

lemma keeps_remote: "keeps P (remote_call env ob sp vs)"
  unfolding remote_call_def
  using keeps_invoke by (auto simp: keeps_def split: bound_spec.split option.split)

lemma keeps_ping: "keeps P (start_order env Ping_turn)"
  using keeps_control[of WPing PING "[]"] by (auto simp: request_of_def keeps_def stopped split: prod.split sum.split)

lemma keeps_detach: "keeps P (detach_ask env vo all)" and keeps_logs: "keeps P (logs_ask env vo cap l)"
  unfolding detach_ask_def logs_ask_def
  by (cases vo; auto simp: bind_eff_assoc request_of_def intro!: keeps_intro)+

lemma keeps_order:
  assumes "\<And>ob. q \<noteq> Give_back ob"
  shows "keeps P (start_order env q)"
proof (cases q)
  case (Call_on ob sp vs)
  then show ?thesis using keeps_remote by simp
next
  case (Make_value v hp r)
  then show ?thesis using keeps_value by simp
qed (use assms keeps_ping keeps_detach keeps_logs in \<open>auto simp: share_ask_def realize_ask_def barrier_ask_def acquire_ask_def
    function_ask_def request_of_def intro!: keeps_intro split: option.split\<close>)

lemma keeps_proxy [keeps_intro]: "keeps P (client_proxy env cls h)"
  unfolding client_proxy_def by (auto intro!: keeps_intro made)

lemma keeps_view [keeps_intro]: "keeps P (client_view env cls h cont)"
  unfolding client_view_def by (auto intro!: keeps_intro made)

lemma keeps_tree [keeps_intro]: "keeps P (tree_of env passed raw)"
  unfolding tree_of_def by (rule decode_tree_keeps) (auto intro!: keeps_intro split: option.split)

lemma keeps_result [keeps_intro]: "keeps P (result_of env m raw)"
  unfolding result_of_def by (auto intro!: keeps_intro decode_keeps)

lemma keeps_as_handle [keeps_intro]: "keeps P (as_handle m)"
  unfolding as_handle_def by (auto intro!: keeps_intro split: mp.split)

lemma keeps_deliver:
  assumes "\<And>ob. wn \<noteq> WRelease ob"
  shows "keeps P (deliver env wn v)"
  using assms unfolding deliver_def by (auto intro!: keeps_intro split: purpose.split)

lemma keeps_fault: "P c \<Longrightarrow> P (snd (client_fault env raw c))"
  by (auto simp: client_fault_def told split: sum.split pyexc.split refusal.split)

lemma keeps_answered: "P c \<Longrightarrow> P (snd (answered_value env fr c))"
  using keeps_fault by (auto simp: answered_value_def split: option.split prod.split op.split list.split) (metis snd_conv)

lemma keeps_outcome:
  assumes "P c" "\<And>ob. wn \<noteq> WRelease ob"
  shows "P (snd (outcome_of env wn fr c))"
proof -
  obtain r c1 where a: "answered_value env fr c = (r, c1)" by fastforce
  have "P c1" using keeps_answered[OF assms(1), of fr] a by simp
  then show ?thesis using keeps_deliver[OF assms(2)]
    by (auto simp: outcome_of_def a keeps_def split: sum.split prod.split) (metis snd_conv)+
qed

end

end
