(* ===== verification/Client_Count.thy ===== *)
theory Client_Count
  imports Client_Inv
begin

text \<open>
  The count of a handle, \<open>_refs\<close>, is the number of live objects that hold it: an invariant of the client, as
  long as callers give back objects they have and no live object of a handle stands beside a live one that
  was released (\<open>tidy_run\<close>).
\<close>

subsection \<open>Frames of the helpers\<close>

lemma upd_link_frame [simp]:
  "nc_objs (upd_link k f c) = nc_objs c" "nc_refs (upd_link k f c) = nc_refs c" "nc_next (upd_link k f c) = nc_next c"
  "nc_waiting (upd_link k f c) = nc_waiting c" "nc_pending (upd_link k f c) = nc_pending c" "nc_ids (upd_link k f c) = nc_ids c"
  "nc_reading (upd_link k f c) = nc_reading c" "nc_channel (upd_link k f c) = nc_channel c" "nc_dropped (upd_link k f c) = nc_dropped c"
  "length (nc_links (upd_link k f c)) = length (nc_links c)"
  by (simp_all add: upd_link_def)

text \<open>What went out on a channel.\<close>

definition sent_on :: "client \<Rightarrow> nat \<Rightarrow> frame list" where
  "sent_on c k = (if k < length (nc_links c) then ln_sent (nc_links c ! k) else [])"

lemma sent_on_append:
  "k < length (nc_links c) \<Longrightarrow> sent_on (upd_link k (\<lambda>l. l\<lparr>ln_sent := ln_sent l @ [fr]\<rparr>) c) j = sent_on c j @ (if j = k then [fr] else [])"
  by (simp add: sent_on_def upd_link_def)

lemma sent_on_shut [simp]: "sent_on (upd_link k (\<lambda>l. l\<lparr>ln_open := x\<rparr>) c) j = sent_on c j"
  by (simp add: sent_on_def upd_link_def nth_list_update)

lemma sent_on_still: "nc_links c' = nc_links c \<Longrightarrow> sent_on c' j = sent_on c j"
  by (simp add: sent_on_def)

lemma client_send_cases:
  obtains e where "client_send env k fr c = (Inl e, c)"
  | "k < length (nc_links c)" "ln_open (nc_links c ! k)"
    "client_send env k fr c = (Inr (), upd_link k (\<lambda>l. l\<lparr>ln_sent := ln_sent l @ [fr]\<rparr>) c)"
proof (cases "fst (send (ce_pack env) fr [])")
  case (Inr u)
  then show thesis
    using that by (cases "k < length (nc_links c) \<and> ln_open (nc_links c ! k)") (simp_all add: client_send_def)
qed (simp add: client_send_def that(1))

lemma client_send_frame [simp]:
  "nc_objs (snd (client_send env k fr c)) = nc_objs c" "nc_refs (snd (client_send env k fr c)) = nc_refs c"
  "nc_next (snd (client_send env k fr c)) = nc_next c" "nc_waiting (snd (client_send env k fr c)) = nc_waiting c"
  "nc_pending (snd (client_send env k fr c)) = nc_pending c" "nc_ids (snd (client_send env k fr c)) = nc_ids c"
  "nc_reading (snd (client_send env k fr c)) = nc_reading c" "nc_channel (snd (client_send env k fr c)) = nc_channel c"
  "nc_dropped (snd (client_send env k fr c)) = nc_dropped c"
  by (cases rule: client_send_cases[of env k fr c]; simp)+

text \<open>What a request leaves: nothing but a spent number, or a call that waits.\<close>

lemma ask_cases:
  obtains (unsent) e where "ask_server env wn o' body c = (Inl e, c)"
  | (failed) k e where "live_channel c = (Inr k, c)" "ask_server env wn o' body c = (Inl e, c\<lparr>nc_ids := nc_ids c + 1,
      nc_pending := dict_del (nc_ids c) (dict_set (nc_ids c) (False, None) (nc_pending c))\<rparr>)"
  | (asked) k where "live_channel c = (Inr k, c)" "k < length (nc_links c)"
      "ask_server env wn o' body c = (Inr (nc_ids c), upd_link k (\<lambda>l. l\<lparr>ln_sent := ln_sent l @ [(o', MInt (nc_ids c) # body)]\<rparr>)
        (c\<lparr>nc_ids := nc_ids c + 1, nc_pending := dict_set (nc_ids c) (False, None) (nc_pending c),
           nc_waiting := dict_set (nc_ids c) \<lparr>wt_link = k, wt_wanted = wn\<rparr> (nc_waiting c)\<rparr>))"
proof (cases "live_channel c")
  case (Pair r c1)
  then have c1: "c1 = c" by (auto simp: live_channel_def split: if_splits option.splits)
  show thesis
  proof (cases r)
    case (Inl e)
    with Pair c1 that(1) show thesis by (simp add: ask_server_def)
  next
    case (Inr k)
    let ?c1 = "c\<lparr>nc_ids := nc_ids c + 1, nc_pending := dict_set (nc_ids c) (False, None) (nc_pending c)\<rparr>"
    show thesis
    proof (cases rule: client_send_cases[of env k "(o', MInt (nc_ids c) # body)" ?c1])
      case (1 e)
      with Pair c1 Inr that(2)[of k] show thesis by (simp add: ask_server_def Let_def)
    next
      case 2
      with Pair c1 Inr that(3)[of k] show thesis by (simp add: ask_server_def Let_def upd_link_def)
    qed
  qed
qed

subsection \<open>The count of a handle\<close>

definition holds_handle :: "hid \<Rightarrow> proxy \<Rightarrow> int" where
  "holds_handle h p = (if px_live p \<and> px_hid p = Some h then 1 else 0)"

definition holders :: "client \<Rightarrow> hid \<Rightarrow> int" where
  "holders c h = dict_sum (holds_handle h) (nc_objs c)"

definition in_use :: "client \<Rightarrow> hid \<Rightarrow> bool" where
  "in_use c h \<longleftrightarrow> (\<exists>ob p. dict_get (nc_objs c) ob = Some p \<and> px_live p \<and> px_hid p = Some h)"

text \<open>No live object of a handle stands beside a live one that was released.\<close>

definition unmixed :: "client \<Rightarrow> bool" where
  "unmixed c \<longleftrightarrow> (\<forall>ob p ob' p'. dict_get (nc_objs c) ob = Some p \<and> dict_get (nc_objs c) ob' = Some p' \<and> px_live p \<and> px_live p' \<and>
     px_hid p' = None \<longrightarrow> px_hid p \<noteq> Some (px_tracked p'))"

definition objects_ok :: "cenv \<Rightarrow> client \<Rightarrow> bool" where
  "objects_ok env c \<longleftrightarrow> dict_ok (nc_objs c) \<and> (\<forall>ob p. dict_get (nc_objs c) ob = Some p \<longrightarrow>
     (\<exists>n<nc_next c. ob = ce_object env n) \<and> (px_hid p = None \<or> px_hid p = Some (px_tracked p)))"

definition cl_counts_ok :: "client \<Rightarrow> bool" where
  "cl_counts_ok c \<longleftrightarrow> dict_ok (nc_refs c) \<and> (\<forall>h. dict_default (nc_refs c) h 0 = holders c h) \<and> (\<forall>h n. dict_get (nc_refs c) h = Some n \<longrightarrow> 0 < n)"

definition releases_live :: "client \<Rightarrow> bool" where
  "releases_live c \<longleftrightarrow> (\<forall>cid w ob. dict_get (nc_waiting c) cid = Some w \<and> wt_wanted w = WRelease ob \<longrightarrow>
     (\<exists>p. dict_get (nc_objs c) ob = Some p \<and> px_live p))"

definition cl_counted :: "cenv \<Rightarrow> client \<Rightarrow> bool" where
  "cl_counted env c \<longleftrightarrow> objects_ok env c \<and> cl_counts_ok c \<and> releases_live c"

lemma counted_frame:
  assumes "nc_objs c' = nc_objs c" "nc_refs c' = nc_refs c" "nc_next c' = nc_next c"
    "\<And>cid w. dict_get (nc_waiting c') cid = Some w \<Longrightarrow> dict_get (nc_waiting c) cid = Some w \<or> (\<forall>ob. wt_wanted w \<noteq> WRelease ob)"
    "cl_counted env c"
  shows "cl_counted env c'"
proof -
  have r: "releases_live c" and o: "objects_ok env c" and k: "cl_counts_ok c" using assms(5) by (simp_all add: cl_counted_def)
  have "releases_live c'" unfolding releases_live_def
    using r[unfolded releases_live_def] assms(4) unfolding assms(1) by blast
  moreover have "objects_ok env c'" using o unfolding objects_ok_def assms(1,3) .
  moreover have "cl_counts_ok c'" using k unfolding cl_counts_ok_def holders_def assms(1,2) .
  ultimately show ?thesis by (simp add: cl_counted_def)
qed

lemma in_use_holders:
  assumes "dict_ok (nc_objs c)"
  shows "in_use c h \<longleftrightarrow> 0 < holders c h"
proof
  assume "in_use c h"
  then obtain ob p where p: "dict_get (nc_objs c) ob = Some p" "px_live p" "px_hid p = Some h" unfolding in_use_def by blast
  have "holds_handle h p \<le> holders c h" unfolding holders_def
    by (rule dict_sum_ge[OF dict_get_mem[OF p(1)]]) (simp add: holds_handle_def)
  then show "0 < holders c h" using p by (simp add: holds_handle_def)
next
  assume "0 < holders c h"
  then have "\<not> (\<forall>k v. (k, v) \<in> set (nc_objs c) \<longrightarrow> holds_handle h v = 0)"
    using dict_sum_zero[of "nc_objs c" "holds_handle h"] unfolding holders_def by auto
  then obtain k v where "(k, v) \<in> set (nc_objs c)" "holds_handle h v \<noteq> 0" by blast
  then show "in_use c h" using dict_mem_get[OF assms] unfolding in_use_def holds_handle_def by (metis (mono_tags, lifting))
qed

lemma holders_set:
  assumes "dict_ok (nc_objs c)"
  shows "holders (c\<lparr>nc_objs := dict_set ob p (nc_objs c)\<rparr>) h = holders c h + holds_handle h p
    - (case dict_get (nc_objs c) ob of None \<Rightarrow> 0 | Some q \<Rightarrow> holds_handle h q)"
  using assms by (simp add: holders_def dict_sum_set dict_part_def)

lemma holders_same: "nc_objs c' = nc_objs c \<Longrightarrow> holders c' h = holders c h"
  by (simp add: holders_def)

lemma countedD:
  assumes "cl_counted env c"
  shows "dict_ok (nc_objs c)" "dict_ok (nc_refs c)" "\<And>h. dict_default (nc_refs c) h 0 = holders c h"
    "\<And>h n. dict_get (nc_refs c) h = Some n \<Longrightarrow> 0 < n"
    "\<And>ob p. dict_get (nc_objs c) ob = Some p \<Longrightarrow> \<exists>n<nc_next c. ob = ce_object env n"
    "\<And>ob p h. dict_get (nc_objs c) ob = Some p \<Longrightarrow> px_hid p = Some h \<Longrightarrow> px_tracked p = h"
    "\<And>cid w ob. dict_get (nc_waiting c) cid = Some w \<Longrightarrow> wt_wanted w = WRelease ob \<Longrightarrow> \<exists>p. dict_get (nc_objs c) ob = Some p \<and> px_live p"
  using assms unfolding cl_counted_def objects_ok_def cl_counts_ok_def releases_live_def by fastforce+

lemma countedI:
  assumes "dict_ok (nc_objs c)" "dict_ok (nc_refs c)" "\<And>h. dict_default (nc_refs c) h 0 = holders c h"
    "\<And>h n. dict_get (nc_refs c) h = Some n \<Longrightarrow> 0 < n"
    "\<And>ob p. dict_get (nc_objs c) ob = Some p \<Longrightarrow> \<exists>n<nc_next c. ob = ce_object env n"
    "\<And>ob p h. dict_get (nc_objs c) ob = Some p \<Longrightarrow> px_hid p = Some h \<Longrightarrow> px_tracked p = h"
    "\<And>cid w ob. dict_get (nc_waiting c) cid = Some w \<Longrightarrow> wt_wanted w = WRelease ob \<Longrightarrow> \<exists>p. dict_get (nc_objs c) ob = Some p \<and> px_live p"
  shows "cl_counted env c"
proof -
  have "px_hid p = None \<or> px_hid p = Some (px_tracked p)" if "dict_get (nc_objs c) ob = Some p" for ob p
    using assms(6)[OF that] by (cases "px_hid p") simp_all
  then have "objects_ok env c" unfolding objects_ok_def using assms(1,5) by blast
  moreover have "cl_counts_ok c" unfolding cl_counts_ok_def using assms(2-4) by blast
  moreover have "releases_live c" unfolding releases_live_def using assms(7) by blast
  ultimately show ?thesis by (simp add: cl_counted_def)
qed

lemma holders_nonneg: "0 \<le> holders c h"
  unfolding holders_def by (rule dict_sum_nonneg) (simp add: holds_handle_def)

lemma refs_none:
  assumes "cl_counted env c"
  shows "dict_get (nc_refs c) h = None \<longleftrightarrow> \<not> in_use c h"
  using countedD(3)[OF assms, of h] countedD(4)[OF assms, of h] in_use_holders[OF countedD(1)[OF assms], of h]
  by (cases "dict_get (nc_refs c) h") fastforce+

lemma counted_made:
  assumes "inj (ce_object env)"
  shows "keeps (cl_counted env) (make_object env cls h cont)"
proof (rule keeps_at)
  fix c assume c: "cl_counted env c"
  let ?ob = "ce_object env (nc_next c)"
  let ?p = "\<lparr>px_class = cls, px_hid = Some h, px_tracked = h, px_live = True, px_contents = cont\<rparr>"
  let ?c1 = "c\<lparr>nc_next := Suc (nc_next c), nc_objs := dict_set ?ob ?p (nc_objs c)\<rparr>"
  have fresh: "dict_get (nc_objs c) ?ob = None"
    using countedD(5)[OF c, of ?ob] assms by (cases "dict_get (nc_objs c) ?ob") (auto dest: injD)
  have hold: "holders (track h ?c1) g = holders c g + (if g = h then 1 else 0)" for g
    using holders_set[OF countedD(1)[OF c], of ?ob ?p g] fresh by (simp add: track_def holders_def holds_handle_def)
  have "cl_counted env (track h ?c1)"
  proof (rule countedI)
    show "dict_default (nc_refs (track h ?c1)) g 0 = holders (track h ?c1) g" for g
      using countedD(3)[OF c] by (simp add: hold) (simp add: track_def)
    show "0 < n" if "dict_get (nc_refs (track h ?c1)) g = Some n" for g n
      using that countedD(4)[OF c, of g n] countedD(3)[OF c, of h] holders_nonneg[of c h] by (auto simp: track_def split: if_splits)
    show "\<exists>n<nc_next (track h ?c1). ob = ce_object env n" if "dict_get (nc_objs (track h ?c1)) ob = Some p" for ob p
      using that countedD(5)[OF c, of ob p] by (auto simp: track_def less_Suc_eq split: if_splits)
    show "px_tracked p = g" if "dict_get (nc_objs (track h ?c1)) ob = Some p" "px_hid p = Some g" for ob p g
      using that countedD(6)[OF c, of ob p g] by (auto simp: track_def split: if_splits)
    show "\<exists>p. dict_get (nc_objs (track h ?c1)) ob = Some p \<and> px_live p"
      if "dict_get (nc_waiting (track h ?c1)) cid = Some w" "wt_wanted w = WRelease ob" for cid w ob
      using that countedD(7)[OF c, of cid w ob] by (auto simp: track_def)
  qed (use countedD(1,2)[OF c] in \<open>simp_all add: track_def\<close>)
  then show "cl_counted env (snd (make_object env cls h cont c))" by (simp add: make_object_def Let_def)
qed

lemma counted_asked:
  assumes "\<And>ob. wn \<noteq> WRelease ob"
  shows "keeps (cl_counted env) (ask_server env' wn o' body)"
proof (rule keeps_at)
  fix c assume c: "cl_counted env c"
  show "cl_counted env (snd (ask_server env' wn o' body c))"
    by (cases rule: ask_cases[of env' wn o' body c]) (use c assms in \<open>auto intro!: counted_frame[of _ c] split: if_splits\<close>)
qed

text \<open>Identities are never given out twice: with that, the count is an invariant.\<close>

definition counted_if :: "cenv \<Rightarrow> client \<Rightarrow> bool" where
  "counted_if env c \<longleftrightarrow> (inj (ce_object env) \<longrightarrow> cl_counted env c)"

interpretation count: client_invariant env "counted_if env" for env
proof
  show "keeps (counted_if env) (make_object env cls h cont)" for cls h cont
    using counted_made[of env] by (auto simp: keeps_def counted_if_def)
  show "keeps (counted_if env) (ask_server env wn o' body)" if "\<And>ob. wn \<noteq> WRelease ob" for wn o' body
    using counted_asked[OF that] by (auto simp: keeps_def counted_if_def)
qed (auto simp: counted_if_def stop_pinging_def intro: counted_frame)

text \<open>An object dies: its finalizer takes one off the count, or does nothing when it was released.\<close>

lemma counted_collect:
  assumes "cl_counted env c" "unmixed c"
  shows "cl_counted env (collect ob c)"
proof (cases "\<exists>p. dict_get (nc_objs c) ob = Some p \<and> px_live p \<and> \<not> releasing ob c")
  case True
  then obtain p where p: "dict_get (nc_objs c) ob = Some p" "px_live p" "\<not> releasing ob c" by blast
  let ?h = "px_tracked p"
  let ?c1 = "c\<lparr>nc_objs := dict_set ob (p\<lparr>px_live := False\<rparr>) (nc_objs c)\<rparr>"
  have col: "collect ob c = forget ?h ?c1" using p by (simp add: collect_def)
  have free: "wt_wanted w \<noteq> WRelease ob" if "dict_get (nc_waiting c) cid = Some w" for cid w
    using p(3) dict_get_mem[OF that] by (auto simp: releasing_def list_ex_iff)
  have hold: "holders ?c1 g = holders c g - holds_handle g p" for g
    using holders_set[OF countedD(1)[OF assms(1)], of ob "p\<lparr>px_live := False\<rparr>" g] p(1) by (simp add: holds_handle_def)
  have mine: "holds_handle g p = (if px_hid p \<noteq> None \<and> g = ?h then 1 else 0)" for g
    by (cases "px_hid p") (use p(2) countedD(6)[OF assms(1) p(1)] in \<open>simp_all add: holds_handle_def\<close>)
  have quiet: "dict_get (nc_refs c) ?h = None" if "px_hid p = None"
    unfolding refs_none[OF assms(1)] using assms(2) p(1,2) that unfolding unmixed_def in_use_def by fast
  have refs: "dict_default (nc_refs (forget ?h ?c1)) g 0 = dict_default (nc_refs c) g 0 - holds_handle g p" for g
  proof (cases "dict_get (nc_refs c) ?h")
    case None
    have "px_hid p = None"
      using refs_none[OF assms(1), of ?h] None p(1,2) countedD(6)[OF assms(1) p(1)] unfolding in_use_def by fastforce
    then show ?thesis using None by (simp add: forget_def mine)
  next
    case (Some n)
    then have "px_hid p \<noteq> None" "0 < n" using quiet countedD(4)[OF assms(1) Some] by auto
    then show ?thesis using Some by (auto simp: forget_def mine)
  qed
  have pos: "0 < n" if "dict_get (nc_refs (forget ?h ?c1)) g = Some n" for g n
    using that countedD(4)[OF assms(1), of g n] by (auto simp: forget_def split: option.splits if_splits)
  have objs: "nc_objs (forget ?h ?c1) = nc_objs ?c1" "nc_next (forget ?h ?c1) = nc_next c" "nc_waiting (forget ?h ?c1) = nc_waiting c"
    by (simp_all add: forget_def split: option.split)
  show ?thesis unfolding col
  proof (rule countedI)
    show "dict_default (nc_refs (forget ?h ?c1)) g 0 = holders (forget ?h ?c1) g" for g
      unfolding refs holders_same[OF objs(1)] hold countedD(3)[OF assms(1)] ..
    show "\<exists>n<nc_next (forget ?h ?c1). ob' = ce_object env n" if "dict_get (nc_objs (forget ?h ?c1)) ob' = Some q" for ob' q
      using that countedD(5)[OF assms(1), of ob'] p(1) unfolding objs by (auto split: if_splits)
    show "px_tracked q = g" if "dict_get (nc_objs (forget ?h ?c1)) ob' = Some q" "px_hid q = Some g" for ob' q g
      using that countedD(6)[OF assms(1), of ob' _ g] p(1) unfolding objs by (auto split: if_splits)
    show "\<exists>q. dict_get (nc_objs (forget ?h ?c1)) ob' = Some q \<and> px_live q"
      if "dict_get (nc_waiting (forget ?h ?c1)) cid = Some w" "wt_wanted w = WRelease ob'" for cid w ob'
      using that countedD(7)[OF assms(1), of cid w ob'] free[of cid w] unfolding objs by auto
    show "dict_ok (nc_refs (forget ?h ?c1))"
      using countedD(2)[OF assms(1)] by (simp add: forget_def split: option.split)
  qed (use countedD(1)[OF assms(1)] pos in \<open>simp_all add: objs\<close>)
next
  case False
  then show ?thesis using assms(1) by (auto simp: collect_def split: option.split)
qed

text \<open>A release ends: the handle has no count, and the object no handle.\<close>

lemma counted_release:
  assumes "cl_counted env c" "unmixed (release_done ob c)" "dict_get (nc_objs c) ob = Some p" "px_live p"
  shows "cl_counted env (release_done ob c)"
proof -
  let ?c1 = "release_done ob c"
  have objs: "nc_objs ?c1 = dict_set ob (p\<lparr>px_hid := None\<rparr>) (nc_objs c)" "nc_next ?c1 = nc_next c" "nc_waiting ?c1 = nc_waiting c"
    using assms(3) by (simp_all add: release_done_def untrack_def Let_def split: option.split)
  have refs: "nc_refs ?c1 = (case px_hid p of None \<Rightarrow> nc_refs c | Some h \<Rightarrow> dict_del h (nc_refs c))"
    using assms(3) by (simp add: release_done_def untrack_def Let_def split: option.split)
  have ok: "dict_ok (nc_objs ?c1)" using countedD(1)[OF assms(1)] by (simp add: objs)
  have hold: "holders ?c1 g = holders c g - holds_handle g p" for g
    unfolding holders_def objs(1)
    using holders_set[OF countedD(1)[OF assms(1)], of ob "p\<lparr>px_hid := None\<rparr>" g] assms(3) by (simp add: holders_def holds_handle_def)
  have gone: "holders ?c1 h = 0" if "px_hid p = Some h" for h
  proof -
    have t: "px_tracked p = h" by (rule countedD(6)[OF assms(1,3) that])
    have "dict_get (nc_objs ?c1) ob = Some (p\<lparr>px_hid := None\<rparr>)" unfolding objs(1) by simp
    then have "\<not> in_use ?c1 h" using assms(2,4) t unfolding unmixed_def in_use_def by fastforce
    then show ?thesis using in_use_holders[OF ok, of h] holders_nonneg[of ?c1 h] by simp
  qed
  show ?thesis
  proof (rule countedI)
    show "dict_default (nc_refs ?c1) g 0 = holders ?c1 g" for g
    proof (cases "px_hid p = Some g")
      case True
      then show ?thesis using gone[OF True] by (simp add: refs)
    next
      case False
      then show ?thesis using countedD(3)[OF assms(1), of g]
        by (cases "px_hid p") (simp_all add: refs hold holds_handle_def)
    qed
    show "0 < n" if "dict_get (nc_refs ?c1) g = Some n" for g n
      using that countedD(4)[OF assms(1), of g n] by (auto simp: refs split: option.splits if_splits)
    show "\<exists>n<nc_next ?c1. ob' = ce_object env n" if "dict_get (nc_objs ?c1) ob' = Some q" for ob' q
      using that countedD(5)[OF assms(1), of ob'] assms(3) unfolding objs by (auto split: if_splits)
    show "px_tracked q = g" if "dict_get (nc_objs ?c1) ob' = Some q" "px_hid q = Some g" for ob' q g
      using that countedD(6)[OF assms(1), of ob' _ g] assms(3) unfolding objs by (auto split: if_splits)
    show "\<exists>q. dict_get (nc_objs ?c1) ob' = Some q \<and> px_live q"
      if "dict_get (nc_waiting ?c1) cid = Some w" "wt_wanted w = WRelease ob'" for cid w ob'
      using that countedD(7)[OF assms(1), of cid w ob'] assms(3,4) unfolding objs by auto
    show "dict_ok (nc_refs ?c1)" using countedD(2)[OF assms(1)] by (simp add: refs split: option.split)
  qed (rule ok)
qed

text \<open>A caller gives back an object it still has, and no object of a handle is alive beside a live one
  that was released.\<close>

definition tidy :: "client \<Rightarrow> client_event \<Rightarrow> bool" where
  "tidy c ev \<longleftrightarrow> (\<forall>ob. ev = Order (Give_back ob) \<longrightarrow> (\<exists>p. dict_get (nc_objs c) ob = Some p \<and> px_live p))"

inductive tidy_run :: "cenv \<Rightarrow> client \<Rightarrow> bool" for env where
  start: "tidy_run env (new_client cbs)"
| step: "tidy_run env c \<Longrightarrow> tidy c ev \<Longrightarrow> unmixed (client_step env ev c) \<Longrightarrow> tidy_run env (client_step env ev c)"

lemma counted_give_back:
  assumes "cl_counted env c" "dict_get (nc_objs c) ob = Some p" "px_live p"
  shows "cl_counted env (snd (release_ask env ob c))"
proof (cases "px_hid p")
  case (Some h)
  have e: "release_ask env ob c = ask_server env (WRelease ob) CONTROL [MInt (control_number RELEASE), MList [MStr h]] c"
    using assms(2) Some by (simp add: release_ask_def ask_control_def)
  show ?thesis unfolding e
  proof (cases rule: ask_cases[of env "WRelease ob" CONTROL "[MInt (control_number RELEASE), MList [MStr h]]" c])
    case (asked k)
    let ?c1 = "snd (ask_server env (WRelease ob) CONTROL [MInt (control_number RELEASE), MList [MStr h]] c)"
    have f: "nc_objs ?c1 = nc_objs c" "nc_refs ?c1 = nc_refs c" "nc_next ?c1 = nc_next c"
      "nc_waiting ?c1 = dict_set (nc_ids c) \<lparr>wt_link = k, wt_wanted = WRelease ob\<rparr> (nc_waiting c)"
      using asked(3) by simp_all
    show "cl_counted env ?c1"
    proof (rule countedI)
      show "\<exists>q. dict_get (nc_objs ?c1) ob' = Some q \<and> px_live q"
        if "dict_get (nc_waiting ?c1) cid = Some w" "wt_wanted w = WRelease ob'" for cid w ob'
        using that countedD(7)[OF assms(1), of cid w ob'] assms(2,3) unfolding f by (auto split: if_splits)
      show "dict_default (nc_refs ?c1) g 0 = holders ?c1 g" for g
        unfolding f holders_same[OF f(1)] by (rule countedD(3)[OF assms(1)])
    qed (unfold f, fact countedD(1)[OF assms(1)], fact countedD(2)[OF assms(1)], fact countedD(4)[OF assms(1)],
         fact countedD(5)[OF assms(1)], fact countedD(6)[OF assms(1)])
  qed (use assms(1) in \<open>auto intro: counted_frame\<close>)
qed (use assms in \<open>simp add: release_ask_def\<close>)

lemma cancel_cases:
  obtains "cancel_ask env cid c = c" | "cancel_ask env cid c = leave_call cid c"
  | w where "dict_get (nc_waiting c) cid = Some w"
      "cancel_ask env cid c = leave_call cid (snd (client_send env (wt_link w) (CANCEL, [MInt cid]) c))"
proof (cases "dict_get (nc_waiting c) cid = None \<or> dict_get (nc_pending c) cid = None")
  case True
  then have "cancel_ask env cid c = c" by (auto simp: cancel_ask_def split: option.split)
  then show thesis by (rule that(1))
next
  case False
  then obtain w dn fr where w: "dict_get (nc_waiting c) cid = Some w" "dict_get (nc_pending c) cid = Some (dn, fr)" by auto
  then show thesis using that(2,3) by (cases dn) (simp_all add: cancel_ask_def)
qed

lemma counted_cancel: "cl_counted env c \<Longrightarrow> cl_counted env (cancel_ask env' cid c)"
  by (rule counted_frame[of _ c])
     (auto simp: cancel_ask_def leave_call_def split: option.splits prod.splits if_splits)

lemma read_ends_frame [simp]:
  "nc_objs (read_ends k c) = nc_objs c" "nc_refs (read_ends k c) = nc_refs c" "nc_next (read_ends k c) = nc_next c"
  "nc_waiting (read_ends k c) = nc_waiting c"
  by (simp_all add: read_ends_def)

text \<open>Every way a frame is taken.\<close>

lemma read_answer_rule:
  assumes "P c" "P (read_ends k c)"
    "\<And>m n v. k \<in> set (nc_reading c) \<Longrightarrow> as_int m = Some n \<Longrightarrow> fr = (RESULT, [m, v]) \<or> fr = (FAULT, [m, v]) \<Longrightarrow> P (take_answer n fr c)"
    "\<And>x. nc_callbacks c \<Longrightarrow> P (c\<lparr>nc_hooks := x\<rparr>)" "\<And>x. P (c\<lparr>nc_answering := x\<rparr>)"
  shows "P (read_answer k fr c)"
proof (cases "k \<in> set (nc_reading c)")
  case True
  obtain o' args where fr: "fr = (o', args)" by fastforce
  show ?thesis
    using assms(1,2,4,5) assms(3)[OF True] True unfolding read_answer_def fr
    by (cases o') (simp_all split: list.split option.split mp.split, blast+)
qed (simp add: read_answer_def assms(1))

lemma read_answer_frame [simp]:
  "nc_objs (read_answer k fr c) = nc_objs c" "nc_refs (read_answer k fr c) = nc_refs c" "nc_next (read_answer k fr c) = nc_next c"
  "nc_waiting (read_answer k fr c) = nc_waiting c"
  by (rule read_answer_rule; simp add: take_answer_def split: option.split)+

lemma counted_still:
  assumes "nc_objs c' = nc_objs c" "nc_refs c' = nc_refs c" "nc_next c' = nc_next c" "nc_waiting c' = nc_waiting c" "cl_counted env c"
  shows "cl_counted env c'"
  by (rule counted_frame[OF assms(1-3) _ assms(5)]) (simp add: assms(4))

lemma live_channel_same: "\<exists>r. live_channel c = (r, c)"
  by (cases "nc_channel c") (simp_all add: live_channel_def)

lemma flush_cases:
  obtains r where "flush_dropped env c = (r, c\<lparr>nc_dropped := []\<rparr>)"
  | k where "flush_dropped env c = (Inr (length (filter (\<lambda>h. dict_get (nc_refs c) h = None) (nc_dropped c))),
      upd_link k (\<lambda>l. l\<lparr>ln_sent := ln_sent l @ [(DROP, [MList (map MStr (filter (\<lambda>h. dict_get (nc_refs c) h = None) (nc_dropped c)))])]\<rparr>)
        (c\<lparr>nc_dropped := []\<rparr>))"
proof -
  let ?q = "filter (\<lambda>h. dict_get (nc_refs c) h = None) (nc_dropped c)" and ?c1 = "c\<lparr>nc_dropped := []\<rparr>"
  obtain r where ch: "live_channel ?c1 = (r, ?c1)" using live_channel_same by blast
  consider "?q = []" | e where "?q \<noteq> []" "r = Inl e" | k where "?q \<noteq> []" "r = Inr k" by (cases r) auto
  then show thesis
  proof cases
    case 1
    with that(1) show thesis by (simp add: flush_dropped_def Let_def)
  next
    case (2 e)
    with ch that(1) show thesis by (simp add: flush_dropped_def Let_def del: filter_empty_conv)
  next
    case (3 k)
    with ch have e: "flush_dropped env c = bind_eff (client_send env k (DROP, [MList (map MStr ?q)])) (\<lambda>_. ret (length ?q)) ?c1"
      by (simp add: flush_dropped_def Let_def del: filter_empty_conv)
    show thesis
    proof (cases rule: client_send_cases[of env k "(DROP, [MList (map MStr ?q)])" ?c1])
      case (1 x)
      with e that(1) show thesis by simp
    next
      case 2
      with e that(2)[of k] show thesis by (simp add: ret_def)
    qed
  qed
qed

lemma flush_frame [simp]:
  "nc_objs (snd (flush_dropped env c)) = nc_objs c" "nc_refs (snd (flush_dropped env c)) = nc_refs c"
  "nc_next (snd (flush_dropped env c)) = nc_next c" "nc_waiting (snd (flush_dropped env c)) = nc_waiting c"
  by (cases rule: flush_cases[of env c]; simp)+

lemma ping_cases:
  "ping_outcome env (r, c) \<in> {c, stop_pinging c, stop_pinging (c\<lparr>nc_expired := True\<rparr>), snd (flush_dropped env c),
     stop_pinging (snd (flush_dropped env c))}"
proof (cases r)
  case (Inr a)
  then show ?thesis by (cases "flush_dropped env c") (auto simp: ping_outcome_def split: sum.split)
qed (simp add: ping_outcome_def)

lemma ping_frame [simp]:
  "nc_objs (ping_outcome env (r, c)) = nc_objs c" "nc_refs (ping_outcome env (r, c)) = nc_refs c"
  "nc_next (ping_outcome env (r, c)) = nc_next c" "nc_waiting (ping_outcome env (r, c)) = nc_waiting c"
  using ping_cases[of env r c] by (auto simp: stop_pinging_def)

definition with_link :: "client \<Rightarrow> client" where
  "with_link c = c\<lparr>nc_links := nc_links c @ [\<lparr>ln_open = True, ln_sent = []\<rparr>]\<rparr>"

lemma bind_open_cases:
  obtains (failed) c1 where "snd (bind_open env claim reply c) = upd_link (length (nc_links c)) (\<lambda>l. l\<lparr>ln_open := False\<rparr>) c1"
      "c1 = with_link c \<or> (\<exists>fr. hello_frame env claim = Inr fr \<and> c1 = snd (client_send env (length (nc_links c)) fr (with_link c)))"
  | (opened) fr c1 tok t where "hello_frame env claim = Inr fr" "c1 = snd (client_send env (length (nc_links c)) fr (with_link c))"
      "snd (bind_open env claim reply c) = c1\<lparr>nc_channel := Some (length (nc_links c)), nc_token := Some tok, nc_expired := False,
         nc_reader := Some (length (nc_links c)), nc_reading := nc_reading c1 @ [length (nc_links c)], nc_pinger := Some t\<rparr>"
proof (cases "hello_frame env claim")
  case (Inl e)
  then show thesis using that(1) by (simp add: bind_open_def with_link_def Let_def)
next
  case (Inr fr)
  obtain r c1 where sent: "client_send env (length (nc_links c)) fr (with_link c) = (r, c1)" by fastforce
  then have c1: "c1 = snd (client_send env (length (nc_links c)) fr (with_link c))" by simp
  show thesis
  proof (cases "(\<exists>e. r = Inl e) \<or> (\<exists>e. bind_welcome env reply = Inl e)")
    case True
    then have "snd (bind_open env claim reply c) = upd_link (length (nc_links c)) (\<lambda>l. l\<lparr>ln_open := False\<rparr>) c1"
      using Inr sent by (cases r) (auto simp: bind_open_def with_link_def[symmetric] Let_def)
    then show thesis by (rule that(1)) (use Inr c1 in blast)
  next
    case False
    then obtain tok t where "bind_welcome env reply = Inr (tok, t)" "r = Inr ()" by (cases r; cases "bind_welcome env reply") auto
    then have "snd (bind_open env claim reply c) = c1\<lparr>nc_channel := Some (length (nc_links c)), nc_token := Some tok, nc_expired := False,
         nc_reader := Some (length (nc_links c)), nc_reading := nc_reading c1 @ [length (nc_links c)], nc_pinger := Some (ping_interval t)\<rparr>"
      using Inr sent by (simp add: bind_open_def with_link_def[symmetric] Let_def)
    then show thesis by (rule that(2)[OF Inr c1])
  qed
qed

lemma bind_open_frame [simp]:
  "nc_objs (snd (bind_open env claim reply c)) = nc_objs c" "nc_refs (snd (bind_open env claim reply c)) = nc_refs c"
  "nc_next (snd (bind_open env claim reply c)) = nc_next c" "nc_waiting (snd (bind_open env claim reply c)) = nc_waiting c"
  by (cases rule: bind_open_cases[of env claim reply c]; auto simp: with_link_def)+

lemma map_sum_Inr: "map_sum f g x = Inr y \<Longrightarrow> \<exists>z. y = g z"
  by (cases x) auto

lemma hook_end_cases:
  obtains ks ns where "snd (hook_end env j c) = c\<lparr>nc_running := ks, nc_answering := ns\<rparr>" "set ks \<subseteq> set (nc_running c)"
  | k fr ks ns where "\<exists>n v. fr = (REPLY, [MInt n, v]) \<or> fr = (REFUSE, [MInt n, v])" "nc_running c \<noteq> []"
      "set ks \<subseteq> set (nc_running c)" "snd (hook_end env j c) = snd (client_send env k fr (c\<lparr>nc_running := ks, nc_answering := ns\<rparr>))"
proof (cases "j < length (nc_running c)")
  case False
  then show thesis using that(1)[where ks = "nc_running c" and ns = "nc_answering c"] by (simp add: hook_end_def)
next
  case True
  obtain k n i name raw where r: "nc_running c ! j = (k, n, i, name, raw)" by (cases "nc_running c ! j") auto
  let ?c1 = "c\<lparr>nc_running := take j (nc_running c) @ drop (Suc j) (nc_running c), nc_answering := dict_del n (nc_answering c)\<rparr>"
  show thesis
  proof (cases "dict_get (nc_answering c) n = Some True \<or> (\<exists>e. hook_frame env c n i name raw = Inl e)")
    case True
    then have "snd (hook_end env j c) = ?c1" using \<open>j < length (nc_running c)\<close> r by (auto simp: hook_end_def Let_def)
    then show thesis by (rule that(1)) (auto dest: in_set_takeD in_set_dropD)
  next
    case False
    then obtain fr where fr: "hook_frame env c n i name raw = Inr fr" by (cases "hook_frame env c n i name raw") auto
    have "snd (hook_end env j c) = snd (client_send env k fr ?c1)"
      using \<open>j < length (nc_running c)\<close> r False fr
      by (auto simp: hook_end_def Let_def split: prod.split sum.split)
    moreover have "\<exists>n v. fr = (REPLY, [MInt n, v]) \<or> fr = (REFUSE, [MInt n, v])"
      using fr by (cases "hook_value env c i name raw")
         (auto simp: hook_frame_def map_sum.simps split: sum.splits dest!: map_sum_Inr)
    moreover have "nc_running c \<noteq> []" using \<open>j < length (nc_running c)\<close> by auto
    moreover have "set (take j (nc_running c) @ drop (Suc j) (nc_running c)) \<subseteq> set (nc_running c)"
      by (auto dest: in_set_takeD in_set_dropD)
    ultimately show thesis using that(2) by blast
  qed
qed

lemma hook_frames [simp]:
  "nc_objs (snd (hook_end env j c)) = nc_objs c" "nc_refs (snd (hook_end env j c)) = nc_refs c"
  "nc_next (snd (hook_end env j c)) = nc_next c" "nc_waiting (snd (hook_end env j c)) = nc_waiting c"
  "nc_objs (hook_start j c) = nc_objs c" "nc_refs (hook_start j c) = nc_refs c"
  "nc_next (hook_start j c) = nc_next c" "nc_waiting (hook_start j c) = nc_waiting c"
  by (cases rule: hook_end_cases[of env j c]; simp)+ (simp_all add: hook_start_def split: prod.split)

lemma counted_left: "cl_counted env c \<Longrightarrow> cl_counted env (leave_call cid c)"
  by (rule counted_frame[of _ c]) (auto simp: leave_call_def split: if_splits)

lemma counted_resume:
  assumes "inj (ce_object env)" "cl_counted env c" "resume env cid c = Some (r, c')" "unmixed c'"
  shows "cl_counted env c'"
proof -
  obtain w fr where w: "dict_get (nc_waiting c) cid = Some w" "dict_get (nc_pending c) cid = Some (True, fr)"
    using assms(3) by (auto simp: resume_def split: option.splits bool.splits)
  let ?c0 = "leave_call cid c" and ?rc = "outcome_of env (wt_wanted w) fr (leave_call cid c)"
  have c0: "cl_counted env ?c0" by (rule counted_left[OF assms(2)])
  have res: "(r, c') = (case wt_wanted w of WPing \<Rightarrow> (Inr ANone, ping_outcome env ?rc) | WAlive \<Rightarrow> alive_outcome ?rc | _ \<Rightarrow> ?rc)"
    using assms(3) w by (simp add: resume_def Let_def)
  show ?thesis
  proof (cases "\<exists>ob. wt_wanted w = WRelease ob")
    case True
    then obtain ob where ob: "wt_wanted w = WRelease ob" by blast
    obtain p where p: "dict_get (nc_objs c) ob = Some p" "px_live p" using countedD(7)[OF assms(2) w(1) ob] by blast
    obtain q c1 where a: "answered_value env fr ?c0 = (q, c1)" by fastforce
    have c1: "cl_counted env c1" using count.keeps_answered[of env ?c0 fr] c0 a assms(1) by (simp add: counted_if_def)
    have o1: "nc_objs c1 = nc_objs c"
      using a by (auto simp: answered_value_def client_fault_def leave_call_def
        split: option.splits prod.splits op.splits list.splits sum.splits pyexc.splits refusal.splits)
    show ?thesis
    proof (cases q)
      case (Inl t)
      with res ob a c1 show ?thesis by (simp add: outcome_of_def)
    next
      case (Inr v)
      then have "c' = release_done ob c1" using res ob a by (simp add: outcome_of_def deliver_def)
      with counted_release[OF c1, of ob p] p o1 assms(4) show ?thesis by simp
    qed
  next
    case False
    obtain q c1 where rc: "?rc = (q, c1)" by fastforce
    have c1: "cl_counted env c1"
      using count.keeps_outcome[of env ?c0 "wt_wanted w" fr] c0 False rc assms(1) by (simp add: counted_if_def)
    have "c' = c1 \<or> c' = ping_outcome env (q, c1)"
      using res rc by (auto simp: alive_outcome_def split: purpose.splits sum.splits if_splits)
    then show ?thesis using c1 counted_still[of "ping_outcome env (q, c1)" c1 env] by auto
  qed
qed

lemma counted_step:
  assumes "inj (ce_object env)" "cl_counted env c" "unmixed c" "tidy c ev" "unmixed (client_step env ev c)"
  shows "cl_counted env (client_step env ev c)"
proof (cases ev)
  case (Order q)
  show ?thesis
  proof (cases "\<exists>ob. q = Give_back ob")
    case True
    then show ?thesis using assms(2,4) Order by (auto simp: tidy_def intro: counted_give_back)
  next
    case False
    then show ?thesis using count.keeps_order[of q env] assms(1,2) Order by (auto simp: keeps_def counted_if_def)
  qed
next
  case (Resume cid)
  then show ?thesis using assms(2,5) counted_resume[OF assms(1,2), of cid] by (auto split: option.splits prod.splits)
next
  case (Collect ob)
  then show ?thesis using counted_collect[OF assms(2,3)] by simp
next
  case (Cancelled cid)
  then show ?thesis using counted_cancel[OF assms(2)] by simp
qed (use assms(2) in \<open>auto intro!: counted_still[OF _ _ _ _ assms(2)]
      simp: open_scope_def bind_start_def leave_scope_def close_reader_def stop_pinging_def\<close>)

lemma counted_new: "cl_counted env (new_client cbs)"
  by (rule countedI) (simp_all add: new_client_def holders_def)

lemma tidy_run_counted: "tidy_run env c \<Longrightarrow> inj (ce_object env) \<Longrightarrow> cl_counted env c \<and> unmixed c"
proof (induction rule: tidy_run.induct)
  case (start cbs)
  have "unmixed (new_client cbs)" by (simp add: unmixed_def new_client_def)
  then show ?case using counted_new by blast
next
  case (step c ev)
  then show ?case using counted_step by blast
qed

end
