(* ===== verification/Serving_Props.thy ===== *)
theory Serving_Props
  imports Serving_Inv
begin

text \<open>
  What the server promises: whatever its clients send and whatever the bound objects do, the handle table
  stays balanced; a batch of releases is counted and takes exactly what was held; and a connection that
  was swept is told so, call by call.
\<close>

text \<open>C2. Whatever connections open, send, cancel and drop, in any order and at any times, whatever the bound
  objects answer or raise, and however often the server sweeps, closes and stops: the audit of its handle
  table finds nothing to complain of.\<close>

theorem server_audit_silent:
  assumes "inj (en_mint env)"
  shows "audit_raises (sv_table (st_server (fold (run_event env back) es (new_site l e w)))) = Inr ()"
proof -
  have "srv_ok (en_mint env) (st_server (fold (run_event env back) es (new_site l e w)))"
    by (rule balanced.keeps_events[OF refl new_site_ok])
  with assms show ?thesis by (simp add: srv_ok_def audit_raises_def table_inv_audit)
qed

text \<open>A small server: one class that is acquired and has one method, which answers a new object.\<close>

definition demo_method :: call where
  "demo_method = \<lparr>ca_index = 1, ca_name = ''child'', ca_args = [], ca_returns = Some (Wire PROXY ''Item'' None False), ca_sub = None\<rparr>"

definition demo_policy :: policy where
  "demo_policy = \<lparr>METHODS = [(''Item'', [demo_method])],
     ACQUIRES = [(''Item'', \<lparr>aq_index = 0, aq_cls = ''Item'', aq_args = [], aq_required = 0\<rparr>)], FREE = [],
     CALLS = [SAcquire \<lparr>aq_index = 0, aq_cls = ''Item'', aq_args = [], aq_required = 0\<rparr>, SCall demo_method]\<rparr>"

definition demo_source :: "(nat, nat, pyval) log_source" where
  "demo_source = \<lparr>ls_open = (\<lambda>c l. ret 0), ls_drop = ret (), ls_drain = (\<lambda>s. ret []), ls_dropped = (\<lambda>s. ret 0),
     ls_close = (\<lambda>s. ret ()), ls_action = (\<lambda>r. ''msg''), ls_level = (\<lambda>r. 0)\<rparr>"

definition demo_bindings :: bindings where
  "demo_bindings = \<lparr>b_enum = (\<lambda>_ _. False), b_isinst = (\<lambda>_ _. False), b_sync = id, b_parts = (\<lambda>_. []),
     b_make = (\<lambda>_ _. Inl TypeError), b_attr = (\<lambda>_ _. Inl AttributeError), b_error = (\<lambda>_ _. Inl TypeError),
     b_convert = (\<lambda>_ _. Inl TypeError)\<rparr>"

definition demo_env :: "(nat, nat) senv" where
  "demo_env = \<lparr>en_policy = demo_policy,
     en_handlers = [(1, method_handler ''Item'' demo_method), (0, acquire_handler ''Item'')], en_stack = 10,
     en_bind = demo_bindings, en_tables = \<lparr>t_fields = (\<lambda>_. None), t_errors = (\<lambda>_. None), t_unions = (\<lambda>_. None)\<rparr>,
     en_fault = \<lparr>fe_errors = [], fe_code = (\<lambda>_. MNil), fe_message = (\<lambda>_. MNil), fe_str = (\<lambda>_. ''''), fe_text = (\<lambda>_. '''')\<rparr>,
     en_now = 0, en_mint = (\<lambda>n. replicate (Suc n) CHR ''h''), en_object = (\<lambda>n. n + 1000), en_ident = (\<lambda>_. 0),
     en_class = (\<lambda>_. Some ''Item''), en_method = (\<lambda>ob name args w. (Inr (PObj w), w + 1)),
     en_construct = (\<lambda>cls args w. (Inr w, w + 1)), en_function = (\<lambda>_ _. ret PNone), en_source = (\<lambda>_. demo_source),
     en_walk = (\<lambda>_. None), en_build = (\<lambda>_. None), en_type = (\<lambda>_. ''Item''), en_wrapped = (\<lambda>_. True),
     en_adopt = (\<lambda>ob p. ret ob), en_isolation = (\<lambda>_ _. Inr ()), en_request = (\<lambda>_. ret 1), en_aclose = (\<lambda>_. ret ()),
     en_exc = (\<lambda>e. Plain ''Exception'' MNil), en_seconds = (\<lambda>_. MInt 0)\<rparr>"

lemma demo_mint: "inj (en_mint demo_env)"
proof (rule injI)
  fix m n assume "en_mint demo_env m = en_mint demo_env n"
  then have "length (en_mint demo_env m) = length (en_mint demo_env n)" by simp
  then show "m = n" by (simp add: demo_env_def)
qed

definition demo_events :: "(event \<times> time) list" where
  "demo_events = [(Connect 7 7 ''b'' (HELLO, [MStr ''b'', MNil]), 1), (Frame False 0 (CALL, [MInt 1, MInt 0, MNil, MList []]), 2),
     (Finish 0 0, 3), (Frame False 0 (CALL, [MInt 2, MInt 1, MStr ''hhh'', MList []]), 4), (Start 0 1, 5), (Finish 0 1, 6)]"

theorem server_audit_silent_witness:
  "audit_raises (sv_table (st_server (fold (run_event demo_env None) demo_events (new_site (Some 100) None 5)))) = Inr ()
   \<and> length (entries (sv_table (st_server (fold (run_event demo_env None) demo_events (new_site (Some 100) None 5))))) = 2"
proof
  show "audit_raises (sv_table (st_server (fold (run_event demo_env None) demo_events (new_site (Some 100) None 5)))) = Inr ()"
    by (rule server_audit_silent[OF demo_mint])
  show "length (entries (sv_table (st_server (fold (run_event demo_env None) demo_events (new_site (Some 100) None 5))))) = 2"
    by code_simp
qed

subsection \<open>A batch of releases\<close>

lemma release_raises:
  "fst (release now tok h n t) = Inl e \<Longrightarrow> e = KeyError \<or> e = ValueError"
  by (auto simp: release_def require_conn_def add_leases_def Let_def split: if_splits option.splits sum.splits prod.splits)

lemma release_handle_eq:
  "\<exists>obs. release_handle env tok h s = (fst (release (en_now env) tok h 1 (sv_table s)),
     fold on_drop_obj obs (s\<lparr>sv_table := snd (release (en_now env) tok h 1 (sv_table s))\<rparr>))"
  by (auto simp: release_handle_def on_table_def Let_def case_prod_beta)

definition taken :: "int \<Rightarrow> hid list \<Rightarrow> hid \<Rightarrow> int" where
  "taken n hs h = min n (int (count_list hs h))"

lemma release_many_step:
  assumes "table_inv (sv_table s)"
  shows "\<exists>r u s'. release_many env tok hs c s = (Inr (r, u), s') \<and> r + u = fst c + snd c + length hs \<and> fst c \<le> r
    \<and> (\<forall>k h. conn_lease (sv_table s') k h = conn_lease (sv_table s) k h -
         (if k = key_of tok then taken (conn_lease (sv_table s) k h) hs h else 0))"
  using assms
proof (induction hs arbitrary: s c)
  case Nil
  have "0 \<le> conn_lease (sv_table s) k h" for k h
    using core_invD(2)[OF table_invD(1)[OF Nil]] by (rule conn_lease_nonneg)
  then show ?case by (cases c) (auto simp: taken_def)
next
  case (Cons g hs)
  let ?t = "sv_table s" and ?t1 = "snd (release (en_now env) tok g 1 (sv_table s))"
  have nn: "0 \<le> conn_lease ?t k h" for k h
    using core_invD(2)[OF table_invD(1)[OF Cons.prems]] by (rule conn_lease_nonneg)
  obtain obs where e: "release_handle env tok g s = (fst (release (en_now env) tok g 1 ?t),
     fold on_drop_obj obs (s\<lparr>sv_table := ?t1\<rparr>))" using release_handle_eq by blast
  let ?s1 = "fold on_drop_obj obs (s\<lparr>sv_table := ?t1\<rparr>)"
  have s1: "sv_table ?s1 = ?t1" using balanced.drops_frame(1)[of obs "s\<lparr>sv_table := ?t1\<rparr>"] by simp
  have i1: "table_inv (sv_table ?s1)" unfolding s1 by (rule release_inv[OF Cons.prems]) simp
  have l1: "conn_lease ?t1 k h = conn_lease ?t k h - (if k = key_of tok \<and> h = g \<and> 1 \<le> conn_lease ?t (key_of tok) g then 1 else 0)" for k h
    by (rule release_lease_counts[OF table_invD(1)[OF Cons.prems]]) simp
  have many: "\<exists>d. release_many env tok (g # hs) c s = release_many env tok hs d ?s1 \<and> fst d + snd d = Suc (fst c + snd c) \<and> fst c \<le> fst d"
  proof (cases "fst (release (en_now env) tok g 1 ?t)")
    case (Inl x)
    with release_raises[OF Inl] e show ?thesis by (intro exI[of _ "(fst c, Suc (snd c))"]) auto
  next
    case (Inr x)
    with e show ?thesis by (intro exI[of _ "(Suc (fst c), snd c)"]) auto
  qed
  then obtain d where d: "release_many env tok (g # hs) c s = release_many env tok hs d ?s1" "fst d + snd d = Suc (fst c + snd c)" "fst c \<le> fst d"
    by blast
  obtain r u s' where r: "release_many env tok hs d ?s1 = (Inr (r, u), s')" "r + u = fst d + snd d + length hs" "fst d \<le> r"
    "\<forall>k h. conn_lease (sv_table s') k h = conn_lease ?t1 k h - (if k = key_of tok then taken (conn_lease ?t1 k h) hs h else 0)"
    using Cons.IH[OF i1, of d] unfolding s1 by blast
  have "conn_lease (sv_table s') k h = conn_lease ?t k h - (if k = key_of tok then taken (conn_lease ?t k h) (g # hs) h else 0)" for k h
    using r(4)[rule_format, of k h] l1[of k h] nn[of k h] by (auto simp: taken_def split: if_splits)
  with r d show ?case by (intro exI[of _ r] exI[of _ u] exI[of _ s']) auto
qed

text \<open>A batch release raises for no handle: it answers how many it released and how many it did not know,
  all of them together, and takes from the connection, of each handle, as many leases as it was named and
  had; no other connection's leases move.\<close>

theorem release_many_counts:
  assumes "table_inv (sv_table s)"
  shows "\<exists>r u s'. release_many env tok hs (0, 0) s = (Inr (r, u), s') \<and> r + u = length hs
    \<and> (\<forall>k h. conn_lease (sv_table s') k h = conn_lease (sv_table s) k h -
         (if k = key_of tok then min (conn_lease (sv_table s) k h) (int (count_list hs h)) else 0))"
  using release_many_step[OF assms, of env tok hs "(0, 0)"] unfolding taken_def by auto

theorem release_many_counts_witness:
  "\<exists>s r u s'. conn_lease (sv_table s) ''c'' ''h1'' = 1 \<and> release_many demo_env ''c'' [''h1'', ''h1'', ''x''] (0, 0) s = (Inr (r, u), s')
     \<and> r + u = 3 \<and> conn_lease (sv_table s') ''c'' ''h1'' = 0"
proof -
  let ?t = "snd (put 2 ''h1'' 5 ''c'' [] (snd (bind 1 ''c'' None (new_table None None))))"
  have t: "table_inv ?t"
    by (intro put_inv bind_inv table_inv_new) (simp add: present_def, code_simp)
  have l: "conn_lease ?t ''c'' ''h1'' = 1" by code_simp
  let ?s = "(new_server None None 0)\<lparr>sv_table := ?t\<rparr> :: (nat, nat) server"
  have s: "sv_table ?s = ?t" by simp
  have "table_inv (sv_table ?s)" unfolding s by (rule t)
  from release_many_counts[OF this, of demo_env "''c''" "[''h1'', ''h1'', ''x'']"] obtain r u s' where
    r: "release_many demo_env ''c'' [''h1'', ''h1'', ''x''] (0, 0) ?s = (Inr (r, u), s')" "r + u = 3"
    "conn_lease (sv_table s') ''c'' ''h1'' = 0"
    unfolding s by (auto simp: l key_of_def)
  have "conn_lease (sv_table ?s) ''c'' ''h1'' = 1" unfolding s by (rule l)
  with r show ?thesis by blast
qed

subsection \<open>A swept connection\<close>

lemma read_frame_after:
  assumes "read_frame env backs fr = Spawn cid label j after"
  shows "after \<longleftrightarrow> (\<exists>args. j = JControl PING args)"
  using assms unfolding read_frame_def
  by (auto split: prod.splits op.splits list.splits mp.splits option.splits if_splits)

text \<open>A request on a connection that was swept changes nothing: a ping answers that it is not alive, and
  every other request is answered by the refusal that says so, which the client reads back as that refusal.\<close>

theorem swept_refused:
  assumes "read_frame env backs fr = Spawn cid label j after" "dict_get (connections (sv_table s)) tok = None" "tok \<noteq> []"
  shows "if \<exists>args. j = JControl PING args
    then j = JControl PING [] \<longrightarrow> answer env tok cid label (run_job env tok back j) after s = (Inr (RESULT, [cid, MBool False]), s)
    else \<exists>m. answer env tok cid label (run_job env tok back j) after s = (Inr (FAULT, [cid, m]), s)
      \<and> faults_decode b tb fe m () = (Inr (swept_refusal tok), ())"
proof (cases "\<exists>args. j = JControl PING args")
  case True
  then have a: "after" using read_frame_after[OF assms(1)] by blast
  have "answer env tok cid label (run_job env tok back (JControl PING [])) after s = (Inr (RESULT, [cid, MBool False]), s)"
    using assms(2,3) a
    by (simp add: answer_def run_job_def control_op_def request_of_def ping_def on_table_def alive_def key_of_def bind_eff_def ret_def)
  with True show ?thesis by simp
next
  case False
  then have a: "\<not> after" using read_frame_after[OF assms(1)] by blast
  let ?m = "fault_value (MStr (refusal_code SWEPT)) (MStr (''connection '' @ take 8 tok @ '' was swept, and its handles with it'')) [] [] None MNil"
  have "answer env tok cid label (run_job env tok back j) after s = (Inr (FAULT, [cid, ?m]), s)"
    using assms(2) a by (simp add: answer_def fault_frame_def failure_def swept_refusal_def faults_encode_def)
  moreover have "faults_decode b tb fe ?m () = (Inr (swept_refusal tok), ())"
    by (simp add: faults_decode_def fault_value_def REFUSALS_def swept_refusal_def)
  ultimately show ?thesis using False by auto
qed

theorem swept_refused_witness:
  "\<exists>m. answer demo_env ''gone'' (MInt 3) ''Session/release'' (run_job demo_env ''gone'' None (JControl RELEASE [MStr ''h''])) False
      (new_server None None 0) = (Inr (FAULT, [MInt 3, m]), new_server None None 0)
     \<and> faults_decode demo_bindings (en_tables demo_env) (en_fault demo_env) m () = (Inr (swept_refusal ''gone''), ())"
proof -
  have r: "read_frame demo_env False (CONTROL, [MInt 3, MInt 3, MList [MStr ''h'']]) =
      Spawn (MInt 3) ''Session/release'' (JControl RELEASE [MStr ''h'']) False" by code_simp
  have c: "dict_get (connections (sv_table (new_server None None 0 :: (nat, nat) server))) ''gone'' = None"
    by (simp add: new_server_def new_table_def)
  from swept_refused[OF r c, of None demo_bindings "en_tables demo_env" "en_fault demo_env"] show ?thesis by simp
qed

end
