(* ===== verification/Client_Props.thy ===== *)
theory Client_Props
  imports Client_Count Serving_Props
begin

text \<open>
  What the client promises of the handles it drops: a DROP frame never names one in use, and none whose last
  object is gone is forgotten. Then where the count goes wrong: an object that was released and one that
  holds the same handle share it, and the server counts answers where the client counts handles.
\<close>

subsection \<open>Frames that name a handle\<close>

text \<open>Since \<open>c0\<close>, no frame but those of the kinds allowed went out.\<close>

definition sent_since :: "(frame \<Rightarrow> bool) \<Rightarrow> client \<Rightarrow> client \<Rightarrow> bool" where
  "sent_since ok c0 c \<longleftrightarrow> length (nc_links c0) \<le> length (nc_links c) \<and> (\<forall>k. \<exists>new. sent_on c k = sent_on c0 k @ new \<and> list_all ok new)"

lemma sent_since_refl: "sent_since ok c c"
  by (auto simp: sent_since_def)

lemma sent_since_same:
  assumes "\<And>k. sent_on c' k = sent_on c k" "length (nc_links c') = length (nc_links c)" "sent_since ok c0 c"
  shows "sent_since ok c0 c'"
  using assms(3) unfolding sent_since_def assms(1,2) .

lemma sent_since_still: "nc_links c' = nc_links c \<Longrightarrow> sent_since ok c0 c \<Longrightarrow> sent_since ok c0 c'"
  by (rule sent_since_same) (simp_all add: sent_on_def)

lemma sent_since_append:
  assumes "sent_since ok c0 c" "ok fr"
  shows "sent_since ok c0 (upd_link k (\<lambda>l. l\<lparr>ln_sent := ln_sent l @ [fr]\<rparr>) c)"
proof (cases "k < length (nc_links c)")
  case True
  show ?thesis unfolding sent_since_def
  proof (intro conjI allI)
    fix j
    obtain new where n: "sent_on c j = sent_on c0 j @ new" "list_all ok new" using assms(1) unfolding sent_since_def by blast
    show "\<exists>new. sent_on (upd_link k (\<lambda>l. l\<lparr>ln_sent := ln_sent l @ [fr]\<rparr>) c) j = sent_on c0 j @ new \<and> list_all ok new"
      unfolding sent_on_append[OF True] n(1) using n(2) assms(2)
      by (intro exI[of _ "new @ (if j = k then [fr] else [])"]) auto
  qed (use assms(1) in \<open>simp add: sent_since_def\<close>)
qed (use assms(1) in \<open>simp add: upd_link_def\<close>)

lemma sent_since_shut: "sent_since ok c0 c \<Longrightarrow> sent_since ok c0 (upd_link k (\<lambda>l. l\<lparr>ln_open := x\<rparr>) c)"
  by (rule sent_since_same) (simp_all add: sent_on_def upd_link_def nth_list_update)

lemma sent_since_send: "sent_since ok c0 c \<Longrightarrow> ok fr \<Longrightarrow> sent_since ok c0 (snd (client_send env k fr c))"
  by (cases rule: client_send_cases[of env k fr c]) (simp_all add: sent_since_append)

definition not_drop :: "frame \<Rightarrow> bool" where
  "not_drop fr \<longleftrightarrow> fst fr \<noteq> DROP"

lemma asked_not_drop:
  assumes "o' = CALL \<or> o' = CONTROL"
  shows "keeps (sent_since not_drop c0) (ask_server env wn o' body)"
proof (rule keeps_at)
  fix c assume c: "sent_since not_drop c0 c"
  show "sent_since not_drop c0 (snd (ask_server env wn o' body c))"
    by (cases rule: ask_cases[of env wn o' body c])
      (use c assms in \<open>auto simp: not_drop_def intro!: sent_since_append intro: sent_since_still[rotated]\<close>)
qed

interpretation drops: client_invariant env "sent_since not_drop c0" for env c0
proof
  show "keeps (sent_since not_drop c0) (make_object env cls h cont)" for cls h cont
    by (rule keeps_at) (auto simp: make_object_def Let_def track_def intro: sent_since_still[rotated])
  show "keeps (sent_since not_drop c0) (ask_server env wn o' body)" if "request_body o' body" for wn o' body
    by (rule asked_not_drop[OF request_body_op[OF that]])
qed (auto simp: stop_pinging_def intro: sent_since_still[rotated])

definition drop_ok :: "client \<Rightarrow> frame \<Rightarrow> bool" where
  "drop_ok c fr \<longleftrightarrow> (\<forall>ms h. fr = (DROP, [MList ms]) \<and> MStr h \<in> set ms \<longrightarrow> \<not> in_use c h)"

lemma sent_since_mono: "sent_since P c0 c \<Longrightarrow> (\<And>fr. P fr \<Longrightarrow> Q fr) \<Longrightarrow> sent_since Q c0 c"
  unfolding sent_since_def by (metis list.pred_mono_strong)

lemma not_drop_ok: "sent_since not_drop c0 c \<Longrightarrow> sent_since (drop_ok c') c0 c"
  by (erule sent_since_mono) (auto simp: not_drop_def drop_ok_def)

lemma flush_sends:
  assumes "cl_counted env c" "sent_since not_drop c0 c"
  shows "sent_since (drop_ok c) c0 (snd (flush_dropped env' c))"
proof (cases rule: flush_cases[of env' c])
  case (1 r)
  then show ?thesis using not_drop_ok[OF assms(2), of c] by (auto intro: sent_since_still[rotated])
next
  case (2 k)
  have "sent_since (drop_ok c) c0 (c\<lparr>nc_dropped := []\<rparr>)"
    using not_drop_ok[OF assms(2), of c] by (rule sent_since_still[rotated]) simp
  moreover have "drop_ok c (DROP, [MList (map MStr (filter (\<lambda>h. dict_get (nc_refs c) h = None) (nc_dropped c)))])"
    using refs_none[OF assms(1)] by (auto simp: drop_ok_def)
  ultimately show ?thesis unfolding 2 by (simp add: sent_since_append)
qed

lemma drop_ok_same: "nc_objs c' = nc_objs c \<Longrightarrow> drop_ok c' = drop_ok c"
  by (simp add: drop_ok_def fun_eq_iff in_use_def)

lemma release_links [simp]: "nc_links (release_done ob c) = nc_links c"
  by (simp add: release_done_def untrack_def Let_def split: option.split)

lemma outcome_not_drop:
  assumes "sent_since not_drop c0 c"
  shows "sent_since not_drop c0 (snd (outcome_of env wn fr c))"
proof (cases "\<exists>ob. wn = WRelease ob")
  case True
  then obtain ob where ob: "wn = WRelease ob" by blast
  obtain q c1 where a: "answered_value env fr c = (q, c1)" by fastforce
  have "sent_since not_drop c0 c1" using drops.keeps_answered[OF assms, of env fr] a by simp
  then show ?thesis using ob a
    by (cases q) (auto simp: outcome_of_def deliver_def intro: sent_since_still[rotated])
next
  case False
  then show ?thesis using drops.keeps_outcome[OF assms] by blast
qed

lemma resume_sends:
  assumes "inj (ce_object env)" "cl_counted env c" "resume env cid c = Some (r, c')"
  shows "sent_since (drop_ok c') c c'"
proof -
  obtain w fr where w: "dict_get (nc_waiting c) cid = Some w" "dict_get (nc_pending c) cid = Some (True, fr)"
    using assms(3) by (auto simp: resume_def split: option.splits bool.splits)
  let ?c0 = "leave_call cid c" and ?rc = "outcome_of env (wt_wanted w) fr (leave_call cid c)"
  have res: "(r, c') = (case wt_wanted w of WPing \<Rightarrow> (Inr ANone, ping_outcome env ?rc) | WAlive \<Rightarrow> alive_outcome ?rc | _ \<Rightarrow> ?rc)"
    using assms(3) w by (simp add: resume_def Let_def)
  obtain q c1 where rc: "?rc = (q, c1)" by fastforce
  have "sent_since not_drop c ?c0" by (rule sent_since_still[OF _ sent_since_refl]) (simp add: leave_call_def)
  then have n: "sent_since not_drop c c1" using outcome_not_drop rc by (metis snd_conv)
  show ?thesis
  proof (cases "wt_wanted w = WPing")
    case True
    have "cl_counted env ?c0" by (rule counted_left[OF assms(2)])
    then have "cl_counted env c1"
      using count.keeps_outcome[of env ?c0 "wt_wanted w" fr] True rc assms(1) by (simp add: counted_if_def)
    then have f: "sent_since (drop_ok c1) c (snd (flush_dropped env c1))" using n by (rule flush_sends)
    have c': "c' = ping_outcome env (q, c1)" using res True rc by simp
    then have "drop_ok c' = drop_ok c1" by (intro drop_ok_same) simp
    then show ?thesis unfolding c' using ping_cases[of env q c1] f not_drop_ok[OF n, of c1]
      by (auto simp: stop_pinging_def intro: sent_since_still[rotated])
  next
    case False
    then have "c' = c1" using res rc by (auto simp: alive_outcome_def split: purpose.splits sum.splits if_splits)
    then show ?thesis using not_drop_ok[OF n] by simp
  qed
qed

lemma bind_sends: "sent_since not_drop c (snd (bind_open env claim reply c))"
proof -
  have l: "sent_since not_drop c (with_link c)"
    unfolding sent_since_def
  proof (intro conjI allI)
    fix k
    have "sent_on (with_link c) k = sent_on c k" by (auto simp: sent_on_def with_link_def nth_append)
    then show "\<exists>new. sent_on (with_link c) k = sent_on c k @ new \<and> list_all not_drop new" by simp
  qed (simp add: with_link_def)
  have h: "not_drop fr" if "hello_frame env claim = Inr fr" for fr
    using that by (auto simp: hello_frame_def not_drop_def split: sum.splits)
  show ?thesis
  proof (cases rule: bind_open_cases[of env claim reply c])
    case (failed c1)
    then have "sent_since not_drop c c1" using l h sent_since_send by blast
    then show ?thesis unfolding failed(1) by (rule sent_since_shut)
  next
    case (opened fr c1 tok t)
    then have "sent_since not_drop c c1" using l h sent_since_send by blast
    then show ?thesis unfolding opened(3) by (rule sent_since_still[rotated]) simp
  qed
qed

lemma read_ends_sends: "sent_since not_drop c (read_ends k c)"
proof (cases "k \<in> set (nc_reading c)")
  case True
  then show ?thesis unfolding read_ends_def
    by (simp add: sent_since_shut sent_since_still[OF _ sent_since_refl])
qed (simp add: read_ends_def sent_since_refl)

lemma read_answer_sends: "sent_since not_drop c (read_answer k fr c)"
  by (rule read_answer_rule) (simp_all add: sent_since_refl read_ends_sends sent_since_still[OF _ sent_since_refl] take_answer_def split: option.split)

lemma cancel_sends: "sent_since not_drop c (cancel_ask env cid c)"
proof (cases rule: cancel_cases[of env cid c])
  case (3 w)
  have "sent_since not_drop c (snd (client_send env (wt_link w) (CANCEL, [MInt cid]) c))"
    by (rule sent_since_send[OF sent_since_refl]) (simp add: not_drop_def)
  then show ?thesis unfolding 3(2) by (rule sent_since_still[rotated]) (simp add: leave_call_def)
qed (auto simp: leave_call_def intro: sent_since_still[OF _ sent_since_refl] sent_since_refl)

lemma hook_sends: "sent_since not_drop c (snd (hook_end env j c))"
proof (cases rule: hook_end_cases[of env j c])
  case (2 k fr ks ns)
  have "sent_since not_drop c (c\<lparr>nc_running := ks, nc_answering := ns\<rparr>)" by (rule sent_since_still[OF _ sent_since_refl]) simp
  then show ?thesis unfolding 2(4) by (rule sent_since_send) (use 2(1) in \<open>auto simp: not_drop_def\<close>)
qed (auto intro: sent_since_still[OF _ sent_since_refl])

lemma step_sends:
  assumes "inj (ce_object env)" "cl_counted env c"
  shows "sent_since (drop_ok (client_step env ev c)) c (client_step env ev c)"
proof (cases ev)
  case (Order q)
  have "sent_since not_drop c (snd (start_order env q c))"
  proof (cases "\<exists>ob. q = Give_back ob")
    case True
    then obtain ob where q: "q = Give_back ob" by blast
    have "snd (release_ask env ob c) = c \<or> (\<exists>h. release_ask env ob c = ask_server env (WRelease ob) CONTROL [MInt (control_number RELEASE), MList [MStr h]] c)"
      by (auto simp: release_ask_def ask_control_def split: option.split)
    then show ?thesis unfolding q using sent_since_refl keeps_snd[OF asked_not_drop sent_since_refl] by fastforce
  next
    case False
    then show ?thesis using drops.keeps_order[of q] sent_since_refl by (auto simp: keeps_def)
  qed
  then show ?thesis using Order not_drop_ok by simp
next
  case (Resume cid)
  then show ?thesis using resume_sends[OF assms, of cid] sent_since_refl by (auto split: option.split)
next
  case Flush
  have "drop_ok (snd (flush_dropped env c)) = drop_ok c" by (rule drop_ok_same) simp
  then show ?thesis using Flush flush_sends[OF assms(2) sent_since_refl] by simp
next
  case (Peer_gone k)
  then show ?thesis using sent_since_shut[OF sent_since_refl] by simp
qed (simp_all add: not_drop_ok[OF read_answer_sends] not_drop_ok[OF read_ends_sends] not_drop_ok[OF cancel_sends] not_drop_ok[OF bind_sends]
      not_drop_ok[OF hook_sends] sent_since_still[OF _ sent_since_refl] open_scope_def bind_start_def leave_scope_def close_reader_def
      stop_pinging_def collect_def forget_def hook_start_def split: option.split prod.split)

text \<open>Only the death of its last object and a release end the use of a handle.\<close>

definition used_if :: "cenv \<Rightarrow> hid \<Rightarrow> client \<Rightarrow> bool" where
  "used_if env h c \<longleftrightarrow> (inj (ce_object env) \<longrightarrow> cl_counted env c \<and> in_use c h)"

lemma in_use_still: "nc_objs c' = nc_objs c \<Longrightarrow> in_use c' h = in_use c h"
  by (simp add: in_use_def)

lemma used_made:
  assumes "inj (ce_object env)" "cl_counted env c" "in_use c h"
  shows "in_use (snd (make_object env cls g cont c)) h"
proof -
  obtain ob p where p: "dict_get (nc_objs c) ob = Some p" "px_live p" "px_hid p = Some h" using assms(3) unfolding in_use_def by blast
  have "ob \<noteq> ce_object env (nc_next c)" using countedD(5)[OF assms(2) p(1)] assms(1) by (auto dest: injD)
  then have "dict_get (nc_objs (snd (make_object env cls g cont c))) ob = Some p"
    using p(1) by (simp add: make_object_def Let_def track_def)
  with p show ?thesis unfolding in_use_def by blast
qed

lemma ask_objs [simp]: "nc_objs (snd (ask_server env wn o' body c)) = nc_objs c"
  by (cases rule: ask_cases[of env wn o' body c]) simp_all

interpretation uses: client_invariant env "used_if env h" for env h
proof
  show "keeps (used_if env h) (make_object env cls g cont)" for cls g cont
    using counted_made[of env] used_made[of env] by (auto simp: keeps_def used_if_def)
  show "keeps (used_if env h) (ask_server env wn o' body)" if "\<And>ob. wn \<noteq> WRelease ob" for wn o' body
    using counted_asked[OF that] in_use_still[of "snd (ask_server env wn o' body _)"] by (auto simp: keeps_def used_if_def)
qed (auto simp: used_if_def stop_pinging_def in_use_def intro: counted_still)

definition gives_back :: "client \<Rightarrow> client_event \<Rightarrow> hid \<Rightarrow> bool" where
  "gives_back c ev h \<longleftrightarrow> (\<exists>cid w ob p. ev = Resume cid \<and> dict_get (nc_waiting c) cid = Some w \<and> wt_wanted w = WRelease ob \<and>
     dict_get (nc_objs c) ob = Some p \<and> px_hid p = Some h)"

lemma in_use_release:
  assumes "in_use c h" "\<not> in_use (release_done ob c) h"
  shows "\<exists>p. dict_get (nc_objs c) ob = Some p \<and> px_hid p = Some h"
proof -
  obtain ob' p where p: "dict_get (nc_objs c) ob' = Some p" "px_live p" "px_hid p = Some h" using assms(1) unfolding in_use_def by blast
  have "ob' = ob"
  proof (rule ccontr)
    assume "ob' \<noteq> ob"
    then have "dict_get (nc_objs (release_done ob c)) ob' = Some p"
      using p(1) by (simp add: release_done_def untrack_def Let_def split: option.split)
    with p assms(2) show False unfolding in_use_def by blast
  qed
  with p show ?thesis by blast
qed

lemma resume_in_use:
  assumes "inj (ce_object env)" "cl_counted env c" "resume env cid c = Some (r, c')" "in_use c h" "\<not> in_use c' h"
  shows "gives_back c (Resume cid) h"
proof -
  obtain w fr where w: "dict_get (nc_waiting c) cid = Some w" "dict_get (nc_pending c) cid = Some (True, fr)"
    using assms(3) by (auto simp: resume_def split: option.splits bool.splits)
  let ?c0 = "leave_call cid c" and ?rc = "outcome_of env (wt_wanted w) fr (leave_call cid c)"
  have c0: "used_if env h ?c0"
    using assms(4) counted_left[OF assms(2), of cid] in_use_still[of ?c0 c h] by (simp add: used_if_def leave_call_def)
  have res: "(r, c') = (case wt_wanted w of WPing \<Rightarrow> (Inr ANone, ping_outcome env ?rc) | WAlive \<Rightarrow> alive_outcome ?rc | _ \<Rightarrow> ?rc)"
    using assms(3) w by (simp add: resume_def Let_def)
  show ?thesis
  proof (cases "\<exists>ob. wt_wanted w = WRelease ob")
    case True
    then obtain ob where ob: "wt_wanted w = WRelease ob" by blast
    obtain q c1 where a: "answered_value env fr ?c0 = (q, c1)" by fastforce
    have "used_if env h c1" using uses.keeps_answered[OF c0, of fr] a by simp
    then have u: "in_use c1 h" using assms(1) by (simp add: used_if_def)
    have o1: "nc_objs c1 = nc_objs c"
      using a by (auto simp: answered_value_def client_fault_def leave_call_def
        split: option.splits prod.splits op.splits list.splits sum.splits pyexc.splits refusal.splits)
    have "c' = c1 \<or> c' = release_done ob c1" using res ob a by (cases q) (auto simp: outcome_of_def deliver_def)
    then have "c' = release_done ob c1" using u assms(5) by auto
    then show ?thesis using in_use_release[OF u, of ob] assms(5) ob w(1) o1 unfolding gives_back_def by simp
  next
    case False
    obtain q c1 where rc: "?rc = (q, c1)" by fastforce
    have "in_use c1 h"
      using uses.keeps_outcome[OF c0, of "wt_wanted w" fr] False rc assms(1) by (simp add: used_if_def)
    moreover have "c' = c1 \<or> c' = ping_outcome env (q, c1)"
      using res rc by (auto simp: alive_outcome_def split: purpose.splits sum.splits if_splits)
    ultimately show ?thesis using assms(5) in_use_still[of "ping_outcome env (q, c1)" c1 h] by auto
  qed
qed

lemma collect_queues:
  assumes "cl_counted env c" "cl_counted env (collect ob c)" "in_use c h" "\<not> in_use (collect ob c) h"
  shows "h \<in> set (nc_dropped (collect ob c))"
proof -
  obtain n where n: "dict_get (nc_refs c) h = Some n" using refs_none[OF assms(1), of h] assms(3) by auto
  have "dict_get (nc_refs (collect ob c)) h = None" using refs_none[OF assms(2), of h] assms(4) by simp
  with n show ?thesis by (auto simp: collect_def forget_def split: option.splits if_splits)
qed

lemma step_ends_use:
  assumes "inj (ce_object env)" "cl_counted env c" "cl_counted env (client_step env ev c)" "in_use c h" "\<not> in_use (client_step env ev c) h"
  shows "h \<in> set (nc_dropped (client_step env ev c)) \<or> gives_back c ev h"
proof (cases ev)
  case (Order q)
  show ?thesis
  proof (cases "\<exists>ob. q = Give_back ob")
    case True
    then show ?thesis using assms(4,5) Order by (auto simp: release_ask_def ask_control_def in_use_def split: option.splits)
  next
    case False
    then show ?thesis using uses.keeps_order[of q env h] assms(1,2,4,5) Order by (auto simp: keeps_def used_if_def)
  qed
next
  case (Resume cid)
  then show ?thesis using assms(4,5) resume_in_use[OF assms(1,2), of cid] by (auto split: option.splits)
next
  case (Collect ob)
  then show ?thesis using collect_queues[OF assms(2), of ob h] assms(3-5) by simp
qed (use assms(4,5) in \<open>auto simp: in_use_def open_scope_def bind_start_def leave_scope_def close_reader_def stop_pinging_def
      cancel_ask_def leave_call_def split: option.splits prod.splits if_splits\<close>)

text \<open>C7. As long as callers give back objects they have and no live object of a handle stands beside a live one that
  was released: a DROP frame never names a handle that an object in use holds; and when the last object that
  holds a handle is gone, the handle is queued for the next DROP, or was just given back.\<close>

theorem drops_safe:
  assumes "inj (ce_object env)" "tidy_run env c" "tidy c ev" "unmixed (client_step env ev c)"
  shows "(\<forall>k. \<exists>new. sent_on (client_step env ev c) k = sent_on c k @ new \<and>
      (\<forall>ms h. (DROP, [MList ms]) \<in> set new \<and> MStr h \<in> set ms \<longrightarrow> \<not> in_use (client_step env ev c) h))
    \<and> (\<forall>h. in_use c h \<and> \<not> in_use (client_step env ev c) h \<longrightarrow> h \<in> set (nc_dropped (client_step env ev c)) \<or> gives_back c ev h)"
proof (intro conjI allI)
  have c: "cl_counted env c" and cl: "unmixed c" using tidy_run_counted[OF assms(2,1)] by blast+
  fix k
  obtain new where "sent_on (client_step env ev c) k = sent_on c k @ new" "list_all (drop_ok (client_step env ev c)) new"
    using step_sends[OF assms(1) c, of ev] unfolding sent_since_def by blast
  then show "\<exists>new. sent_on (client_step env ev c) k = sent_on c k @ new \<and>
      (\<forall>ms h. (DROP, [MList ms]) \<in> set new \<and> MStr h \<in> set ms \<longrightarrow> \<not> in_use (client_step env ev c) h)"
    by (auto simp: list_all_iff drop_ok_def)
next
  have c: "cl_counted env c" "unmixed c" using tidy_run_counted[OF assms(2,1)] by blast+
  fix h
  show "in_use c h \<and> \<not> in_use (client_step env ev c) h \<longrightarrow> h \<in> set (nc_dropped (client_step env ev c)) \<or> gives_back c ev h"
    using step_ends_use[OF assms(1) c(1) counted_step[OF assms(1) c assms(3,4)], of h] by blast
qed

text \<open>For evaluation the bound of a frame is compared as an integer, in binary.\<close>

lemma client_send_code [code]:
  "client_send env k fr = (\<lambda>c. case ce_pack env (frame_mp fr) of Inl e \<Rightarrow> (Inl e, c)
     | Inr body \<Rightarrow> if 268435456 < int (length body) then (Inl ProtocolError, c)
         else if k < length (nc_links c) \<and> ln_open (nc_links c ! k)
         then (Inr (), upd_link k (\<lambda>l. l\<lparr>ln_sent := ln_sent l @ [fr]\<rparr>) c) else (Inl ClosedResource, c))"
  by (auto simp: client_send_def send_def MAX_FRAME_def fun_eq_iff split: sum.split)

text \<open>A small client of one class.\<close>

definition demo_client_env :: cenv where
  "demo_client_env = \<lparr>ce_policy = demo_policy, ce_no_rpc = [], ce_backs = [], ce_classes = [''Item''], ce_stack = 10,
     ce_bind = demo_bindings, ce_tables = en_tables demo_env, ce_fault = en_fault demo_env, ce_pack = (\<lambda>m. Inr []),
     ce_identity = Inr ''b'', ce_object = id, ce_ident = (\<lambda>_. 0), ce_hook = (\<lambda>_ _ _. Inr PNone),
     ce_exc = (\<lambda>e. Plain ''Exception'' MNil), ce_float = (\<lambda>_. 0), ce_int = (\<lambda>_. Inl ValueError)\<rparr>"

definition demo_opened :: "client_event list" where
  "demo_opened = [Open_scope, Bind_start, Bind_open None (Inr (WELCOME, [MStr ''c'', MInt 0]))]"

text \<open>An object is made: the request, its answer and what the caller does with it.\<close>

definition demo_acquire :: "int \<Rightarrow> string \<Rightarrow> client_event list" where
  "demo_acquire cid h = [Order (Make ''Item'' []), Arrive 0 (RESULT, [MInt cid, MStr h]), Resume cid]"

primrec tidy_path :: "cenv \<Rightarrow> client_event list \<Rightarrow> client \<Rightarrow> bool" where
  "tidy_path env [] c = True"
| "tidy_path env (ev # es) c = (let c' = client_step env ev c in
     (case ev of Order (Give_back ob) \<Rightarrow> (case dict_get (nc_objs c) ob of None \<Rightarrow> False | Some p \<Rightarrow> px_live p) | _ \<Rightarrow> True) \<and>
     list_all (\<lambda>q. list_all (\<lambda>q'. \<not> (px_live (snd q) \<and> px_live (snd q') \<and> px_hid (snd q') = None \<and>
       px_hid (snd q) = Some (px_tracked (snd q')))) (nc_objs c')) (nc_objs c') \<and> tidy_path env es c')"

lemma tidy_path_run: "tidy_run env c \<Longrightarrow> tidy_path env es c \<Longrightarrow> tidy_run env (client_run env es c)"
proof (induction es arbitrary: c)
  case (Cons ev es)
  let ?c = "client_step env ev c"
  have "unmixed ?c"
    using Cons.prems(2) unfolding unmixed_def by (auto simp: Let_def list_all_iff dest!: dict_get_mem) force
  moreover have "tidy c ev"
    using Cons.prems(2) by (auto simp: Let_def tidy_def split: option.splits)
  ultimately have "tidy_run env ?c" by (intro tidy_run.step[OF Cons.prems(1)])
  then show ?case using Cons.IH[of ?c] Cons.prems(2) by (simp add: client_run_def Let_def)
qed (simp add: client_run_def)

theorem drops_safe_witness:
  "\<exists>c. tidy_run demo_client_env c \<and> \<not> in_use c ''h'' \<and>
     sent_on (client_step demo_client_env Flush c) 0 = sent_on c 0 @ [(DROP, [MList [MStr ''h'']])]"
proof -
  let ?c = "client_run demo_client_env (demo_opened @ demo_acquire 1 ''h'' @ [Collect 0]) (new_client False)"
  have r: "tidy_run demo_client_env ?c" by (rule tidy_path_run[OF tidy_run.start]) code_simp
  have s: "sent_on (client_step demo_client_env Flush ?c) 0 = sent_on ?c 0 @ [(DROP, [MList [MStr ''h'']])]" by code_simp
  have p: "tidy_path demo_client_env [Flush] ?c" by code_simp
  have t: "tidy ?c Flush" by (simp add: tidy_def)
  have k: "unmixed (client_step demo_client_env Flush ?c)"
    using tidy_run_counted[OF tidy_path_run[OF r p]] by (simp add: client_run_def demo_client_env_def)
  have i: "inj (ce_object demo_client_env)" by (simp add: demo_client_env_def)
  obtain new where n: "sent_on (client_step demo_client_env Flush ?c) 0 = sent_on ?c 0 @ new"
    "\<And>ms h. (DROP, [MList ms]) \<in> set new \<Longrightarrow> MStr h \<in> set ms \<Longrightarrow> \<not> in_use (client_step demo_client_env Flush ?c) h"
    using drops_safe[OF i r t k] by blast
  from n(1) s have "new = [(DROP, [MList [MStr ''h'']])]" by simp
  then have "\<not> in_use (client_step demo_client_env Flush ?c) ''h''" using n(2)[of "[MStr ''h'']"] by simp
  then have "\<not> in_use ?c ''h''" by (simp add: in_use_def)
  with r s show ?thesis by blast
qed

subsection \<open>Where the count goes wrong\<close>

text \<open>An object is given back and stays alive; its handle is answered once more and a second object holds it. The
  finalizer of the first takes the count of the second, and the next DROP names the handle in use.\<close>

lemma stolen_lease:
  "\<exists>c. c = client_run demo_client_env (demo_opened @ demo_acquire 1 ''h''
       @ [Order (Give_back 0), Arrive 0 (RESULT, [MInt 2, MNil]), Resume 2] @ demo_acquire 3 ''h'' @ [Collect 0, Flush]) (new_client False)
     \<and> dict_get (nc_objs c) 1 = Some \<lparr>px_class = ''Item'', px_hid = Some ''h'', px_tracked = ''h'', px_live = True, px_contents = None\<rparr>
     \<and> last (sent_on c 0) = (DROP, [MList [MStr ''h'']])"
  by (intro exI conjI, rule refl) code_simp+

text \<open>The server grants a lease each time it answers an object. The client counts the objects that hold the handle, and
  gives one lease back when the last of them is gone: the other stays.\<close>

lemma lease_left:
  "\<exists>c t s'. c = client_run demo_client_env (demo_opened @ demo_acquire 1 ''h'' @ demo_acquire 2 ''h'' @ [Collect 0, Collect 1, Flush]) (new_client False)
     \<and> t = snd (put 2 ''x'' 5 ''c'' [] (snd (put 2 ''h'' 5 ''c'' [] (snd (bind 1 ''c'' None (new_table None None))))))
     \<and> s' = snd (release_many demo_env ''c'' [''h''] (0, 0) ((new_server None None 0 :: (nat, nat) server)\<lparr>sv_table := t\<rparr>))
     \<and> filter (\<lambda>fr. fst fr = DROP) (sent_on c 0) = [(DROP, [MList [MStr ''h'']])] \<and> nc_dropped c = [] \<and> nc_refs c = []
     \<and> conn_lease t ''c'' ''h'' = 2 \<and> conn_lease (sv_table s') ''c'' ''h'' = 1"
  by (intro exI conjI, (rule refl)+) code_simp+

text \<open>A flush with no connection has emptied the queue before it fails.\<close>

lemma flush_loses_queue:
  assumes "nc_dropped c = [h]" "dict_get (nc_refs c) h = None" "nc_channel c = None" "\<not> nc_expired c"
  shows "flush_dropped env c = (Inl ConnectionLost, c\<lparr>nc_dropped := []\<rparr>)"
  using assms by (simp add: flush_dropped_def live_channel_def Let_def)

end
