(* ===== verification/Client_Matching.thy ===== *)
theory Client_Matching
  imports Client_Props
begin

text \<open>
  Calls and answers of the client: whatever is sent, arrives, is cancelled or closes, a caller that waits has sent its
  number once, the answer it goes on with is one that arrived for that number, and while it cannot go on its
  channel is still being read.
\<close>

definition request_no :: "int \<Rightarrow> frame \<Rightarrow> bool" where
  "request_no n fr \<longleftrightarrow> (fst fr = CALL \<or> fst fr = CONTROL) \<and> (case snd fr of m # ms \<Rightarrow> m = MInt n | [] \<Rightarrow> False)"

definition requests :: "client \<Rightarrow> int \<Rightarrow> nat \<Rightarrow> frame list" where
  "requests c n k = filter (request_no n) (sent_on c k)"

definition answers_to :: "int \<Rightarrow> frame \<Rightarrow> bool" where
  "answers_to n fr \<longleftrightarrow> (\<exists>m v. as_int m = Some n \<and> (fr = (RESULT, [m, v]) \<or> fr = (FAULT, [m, v])))"

definition matched :: "(nat \<times> frame) set \<Rightarrow> client \<Rightarrow> bool" where
  "matched A c \<longleftrightarrow>
     (\<forall>cid w. dict_get (nc_waiting c) cid = Some w \<longrightarrow> dict_get (nc_pending c) cid \<noteq> None \<and>
        (\<forall>k. length (requests c cid k) = (if k = wt_link w then 1 else 0))) \<and>
     (\<forall>cid dn fr. dict_get (nc_pending c) cid = Some (dn, Some fr) \<longrightarrow> dn \<and> answers_to cid fr \<and> (\<exists>k. (k, fr) \<in> A)) \<and>
     (\<forall>cid fr w. dict_get (nc_pending c) cid = Some (False, fr) \<and> dict_get (nc_waiting c) cid = Some w \<longrightarrow>
        wt_link w \<in> set (nc_reading c)) \<and>
     (\<forall>k. nc_channel c = Some k \<longrightarrow> k \<in> set (nc_reading c)) \<and>
     (\<forall>n k. nc_ids c \<le> n \<longrightarrow> requests c n k = [])"

lemma matchedD:
  assumes "matched A c"
  shows "\<And>cid w. dict_get (nc_waiting c) cid = Some w \<Longrightarrow> dict_get (nc_pending c) cid \<noteq> None"
    "\<And>cid w k. dict_get (nc_waiting c) cid = Some w \<Longrightarrow> length (requests c cid k) = (if k = wt_link w then 1 else 0)"
    "\<And>cid dn fr. dict_get (nc_pending c) cid = Some (dn, Some fr) \<Longrightarrow> dn \<and> answers_to cid fr \<and> (\<exists>k. (k, fr) \<in> A)"
    "\<And>cid fr w. dict_get (nc_pending c) cid = Some (False, fr) \<Longrightarrow> dict_get (nc_waiting c) cid = Some w \<Longrightarrow> wt_link w \<in> set (nc_reading c)"
    "\<And>k. nc_channel c = Some k \<Longrightarrow> k \<in> set (nc_reading c)"
    "\<And>n k. nc_ids c \<le> n \<Longrightarrow> requests c n k = []"
  using assms unfolding matched_def by blast+

lemma matchedI:
  assumes "\<And>cid w. dict_get (nc_waiting c) cid = Some w \<Longrightarrow> dict_get (nc_pending c) cid \<noteq> None"
    "\<And>cid w k. dict_get (nc_waiting c) cid = Some w \<Longrightarrow> length (requests c cid k) = (if k = wt_link w then 1 else 0)"
    "\<And>cid dn fr. dict_get (nc_pending c) cid = Some (dn, Some fr) \<Longrightarrow> dn \<and> answers_to cid fr \<and> (\<exists>k. (k, fr) \<in> A)"
    "\<And>cid fr w. dict_get (nc_pending c) cid = Some (False, fr) \<Longrightarrow> dict_get (nc_waiting c) cid = Some w \<Longrightarrow> wt_link w \<in> set (nc_reading c)"
    "\<And>k. nc_channel c = Some k \<Longrightarrow> k \<in> set (nc_reading c)"
    "\<And>n k. nc_ids c \<le> n \<Longrightarrow> requests c n k = []"
  shows "matched A c"
  using assms unfolding matched_def by blast

lemma matched_mono: "matched A c \<Longrightarrow> A \<subseteq> B \<Longrightarrow> matched B c"
  unfolding matched_def by blast

text \<open>A step that leaves the calls and the requests alone.\<close>

lemma matched_same:
  assumes "nc_waiting c' = nc_waiting c" "nc_pending c' = nc_pending c" "nc_reading c' = nc_reading c" "nc_channel c' = nc_channel c"
    "nc_ids c' = nc_ids c" "\<And>n k. requests c' n k = requests c n k" "matched A c"
  shows "matched A c'"
  using assms(7) unfolding matched_def assms(1-6) .

lemma requests_still: "nc_links c' = nc_links c \<Longrightarrow> requests c' n k = requests c n k"
  by (simp add: requests_def sent_on_def)

lemma requests_append:
  "k < length (nc_links c) \<Longrightarrow> requests (upd_link k (\<lambda>l. l\<lparr>ln_sent := ln_sent l @ [fr]\<rparr>) c) n j =
     requests c n j @ (if j = k \<and> request_no n fr then [fr] else [])"
  by (simp add: requests_def sent_on_append)

lemma requests_shut [simp]: "requests (upd_link k (\<lambda>l. l\<lparr>ln_open := x\<rparr>) c) n j = requests c n j"
  by (simp add: requests_def)

lemma requests_send:
  assumes "\<And>n. \<not> request_no n fr"
  shows "requests (snd (client_send env k fr c)) n j = requests c n j"
  by (cases rule: client_send_cases[of env k fr c]) (simp_all add: requests_append assms)

lemma requests_with_link [simp]: "requests (with_link c) n k = requests c n k"
  by (auto simp: requests_def sent_on_def with_link_def nth_append)

lemma matched_sent:
  assumes "\<And>n. \<not> request_no n fr" "matched A c"
  shows "matched A (snd (client_send env k fr c))"
  by (rule matched_same[OF _ _ _ _ _ _ assms(2)]) (simp_all add: requests_send[OF assms(1)])

text \<open>A request takes a new number, and its channel is being read.\<close>

lemma matched_asked:
  assumes "o' = CALL \<or> o' = CONTROL"
  shows "keeps (matched A) (ask_server env wn o' body)"
proof (rule keeps_at)
  fix c assume c: "matched A c"
  have num: "request_no n (o', MInt m # body) \<longleftrightarrow> n = m" for n m using assms by (auto simp: request_no_def)
  show "matched A (snd (ask_server env wn o' body c))"
  proof (cases rule: ask_cases[of env wn o' body c])
    case (failed k e)
    let ?c1 = "snd (ask_server env wn o' body c)"
    have f: "nc_waiting ?c1 = nc_waiting c" "nc_reading ?c1 = nc_reading c" "nc_channel ?c1 = nc_channel c" "nc_ids ?c1 = nc_ids c + 1"
      "\<And>cid. dict_get (nc_pending ?c1) cid = (if cid = nc_ids c then None else dict_get (nc_pending c) cid)"
      using failed(2) by simp_all
    have q: "requests ?c1 n k = requests c n k" for n k by (rule requests_still) (simp add: failed(2))
    have fresh: "dict_get (nc_waiting c) (nc_ids c) = None"
      using matchedD(2)[OF c, of "nc_ids c"] matchedD(6)[OF c, of "nc_ids c"]
      by (metis One_nat_def list.size(3) nat.simps(3) not_None_eq order_refl)
    show ?thesis
    proof (rule matchedI)
      show "dn \<and> answers_to cid fr \<and> (\<exists>k. (k, fr) \<in> A)" if "dict_get (nc_pending ?c1) cid = Some (dn, Some fr)" for cid dn fr
        using that matchedD(3)[OF c, of cid dn fr] by (simp add: f split: if_splits)
      show "dict_get (nc_pending ?c1) cid \<noteq> None" if "dict_get (nc_waiting ?c1) cid = Some w" for cid w
        using that fresh matchedD(1)[OF c, of cid w] by (auto simp: f)
      show "wt_link w \<in> set (nc_reading ?c1)" if "dict_get (nc_pending ?c1) cid = Some (False, fr)" "dict_get (nc_waiting ?c1) cid = Some w" for cid fr w
        using that matchedD(4)[OF c, of cid fr w] by (simp add: f split: if_splits)
    qed (use matchedD(2,5,6)[OF c] in \<open>simp_all add: f q\<close>)
  next
    case (asked k)
    let ?c1 = "snd (ask_server env wn o' body c)"
    have f: "nc_waiting ?c1 = dict_set (nc_ids c) \<lparr>wt_link = k, wt_wanted = wn\<rparr> (nc_waiting c)" "nc_reading ?c1 = nc_reading c"
      "nc_channel ?c1 = nc_channel c" "nc_ids ?c1 = nc_ids c + 1" "nc_pending ?c1 = dict_set (nc_ids c) (False, None) (nc_pending c)"
      using asked(3) by simp_all
    have q: "requests ?c1 n j = requests c n j @ (if j = k \<and> n = nc_ids c then [(o', MInt (nc_ids c) # body)] else [])" for n j
      using asked(2,3) requests_append[of k "c\<lparr>nc_ids := nc_ids c + 1, nc_pending := dict_set (nc_ids c) (False, None) (nc_pending c),
           nc_waiting := dict_set (nc_ids c) \<lparr>wt_link = k, wt_wanted = wn\<rparr> (nc_waiting c)\<rparr>" "(o', MInt (nc_ids c) # body)" n j]
      by (simp add: num requests_def sent_on_def)
    have r: "k \<in> set (nc_reading c)"
      using asked(1) matchedD(5)[OF c, of k] by (auto simp: live_channel_def split: if_splits option.splits)
    have new: "requests c (nc_ids c) j = []" for j by (rule matchedD(6)[OF c]) simp
    show ?thesis
    proof (rule matchedI)
      show "length (requests ?c1 cid j) = (if j = wt_link w then 1 else 0)" if "dict_get (nc_waiting ?c1) cid = Some w" for cid w j
        using that matchedD(2)[OF c, of cid w j] new by (auto simp: f q split: if_splits)
      show "wt_link w \<in> set (nc_reading ?c1)" if "dict_get (nc_pending ?c1) cid = Some (False, fr)" "dict_get (nc_waiting ?c1) cid = Some w" for cid fr w
        using that r matchedD(4)[OF c, of cid fr w] by (auto simp: f split: if_splits)
      show "dict_get (nc_pending ?c1) cid \<noteq> None" if "dict_get (nc_waiting ?c1) cid = Some w" for cid w
        using that matchedD(1)[OF c, of cid w] by (auto simp: f split: if_splits)
      show "dn \<and> answers_to cid fr \<and> (\<exists>k. (k, fr) \<in> A)" if "dict_get (nc_pending ?c1) cid = Some (dn, Some fr)" for cid dn fr
        using that matchedD(3)[OF c, of cid dn fr] by (auto simp: f split: if_splits)
      show "j \<in> set (nc_reading ?c1)" if "nc_channel ?c1 = Some j" for j using that matchedD(5)[OF c, of j] by (simp add: f)
      show "requests ?c1 n j = []" if "nc_ids ?c1 \<le> n" for n j using that matchedD(6)[OF c, of n j] by (simp add: f q)
    qed
  qed (simp add: c)
qed

lemma matched_still:
  assumes "matched A c" "nc_waiting c' = nc_waiting c" "nc_pending c' = nc_pending c" "nc_reading c' = nc_reading c"
    "nc_channel c' = nc_channel c" "nc_ids c' = nc_ids c" "nc_links c' = nc_links c"
  shows "matched A c'"
  by (rule matched_same[OF assms(2-6) requests_still[OF assms(7)] assms(1)])

interpretation matching: client_invariant env "matched A" for env A
proof
  show "keeps (matched A) (make_object env cls h cont)" for cls h cont
    by (rule keeps_at, erule matched_still) (simp_all add: make_object_def track_def Let_def)
  show "keeps (matched A) (ask_server env wn o' body)" if "request_body o' body" for wn o' body
    by (rule matched_asked[OF request_body_op[OF that]])
qed (erule matched_still; simp add: stop_pinging_def)+

subsection \<open>Every step\<close>

lemma matched_leave: "matched A c \<Longrightarrow> matched A (leave_call cid c)"
proof -
  assume c: "matched A c"
  have q: "requests (leave_call cid c) n k = requests c n k" for n k by (rule requests_still) (simp add: leave_call_def)
  show ?thesis
  proof (rule matchedI)
    show "dn \<and> answers_to i fr \<and> (\<exists>k. (k, fr) \<in> A)" if "dict_get (nc_pending (leave_call cid c)) i = Some (dn, Some fr)" for i dn fr
      using that matchedD(3)[OF c, of i dn fr] by (simp add: leave_call_def split: if_splits)
    show "wt_link w \<in> set (nc_reading (leave_call cid c))"
      if "dict_get (nc_pending (leave_call cid c)) i = Some (False, fr)" "dict_get (nc_waiting (leave_call cid c)) i = Some w" for i fr w
      using that matchedD(4)[OF c, of i fr w] by (simp add: leave_call_def split: if_splits)
    show "dict_get (nc_pending (leave_call cid c)) i \<noteq> None" if "dict_get (nc_waiting (leave_call cid c)) i = Some w" for i w
      using that matchedD(1)[OF c, of i w] by (simp add: leave_call_def split: if_splits)
    show "length (requests (leave_call cid c) i k) = (if k = wt_link w then 1 else 0)"
      if "dict_get (nc_waiting (leave_call cid c)) i = Some w" for i w k
      using that matchedD(2)[OF c, of i w k] by (simp add: q) (simp add: leave_call_def split: if_splits)
    show "requests (leave_call cid c) n k = []" if "nc_ids (leave_call cid c) \<le> n" for n k
      using that matchedD(6)[OF c, of n k] by (simp add: q) (simp add: leave_call_def)
    show "k \<in> set (nc_reading (leave_call cid c))" if "nc_channel (leave_call cid c) = Some k" for k
      using that matchedD(5)[OF c, of k] by (simp add: leave_call_def)
  qed
qed

lemma pending_woken: "dict_get (map (\<lambda>(cid, (dn, fr)). (cid, (True, fr))) d) k = map_option (\<lambda>(dn, fr). (True, fr)) (dict_get d k)"
  by (induction d) auto

lemma matched_ends: "matched A c \<Longrightarrow> matched A (read_ends k c)"
proof -
  assume c: "matched A c"
  show ?thesis
  proof (cases "k \<in> set (nc_reading c)")
    case True
    let ?c1 = "read_ends k c"
    have f: "nc_waiting ?c1 = nc_waiting c" "nc_reading ?c1 = removeAll k (nc_reading c)" "nc_ids ?c1 = nc_ids c"
      "nc_channel ?c1 = (if nc_channel c = Some k then None else nc_channel c)"
      "\<And>i. dict_get (nc_pending ?c1) i = map_option (\<lambda>(dn, fr). (True, fr)) (dict_get (nc_pending c) i)"
      using True by (simp_all add: read_ends_def pending_woken)
    have q: "requests ?c1 n j = requests c n j" for n j
      using True by (simp add: read_ends_def) (simp add: requests_def sent_on_def)
    show ?thesis
    proof (rule matchedI)
      show "dn \<and> answers_to i fr \<and> (\<exists>k. (k, fr) \<in> A)" if "dict_get (nc_pending ?c1) i = Some (dn, Some fr)" for i dn fr
        using that matchedD(3)[OF c, of i _ fr] by (auto simp: f)
      show "dict_get (nc_pending ?c1) i \<noteq> None" if "dict_get (nc_waiting ?c1) i = Some w" for i w
        using that matchedD(1)[OF c, of i w] by (simp add: f)
      show "wt_link w \<in> set (nc_reading ?c1)" if "dict_get (nc_pending ?c1) i = Some (False, fr)" for i fr w
        using that by (auto simp: f)
      show "j \<in> set (nc_reading ?c1)" if "nc_channel ?c1 = Some j" for j
        using that matchedD(5)[OF c, of j] by (auto simp: f split: if_splits)
    qed (use matchedD(2,6)[OF c] in \<open>simp_all add: f q\<close>)
  qed (simp add: read_ends_def c)
qed

lemma matched_taken:
  assumes "matched A c" "answers_to n fr" "(k, fr) \<in> A"
  shows "matched A (take_answer n fr c)"
proof (cases "dict_get (nc_pending c) n")
  case (Some old)
  let ?c1 = "take_answer n fr c"
  have f: "nc_waiting ?c1 = nc_waiting c" "nc_reading ?c1 = nc_reading c" "nc_ids ?c1 = nc_ids c" "nc_channel ?c1 = nc_channel c"
    "nc_pending ?c1 = dict_set n (True, Some fr) (nc_pending c)"
    using Some by (simp_all add: take_answer_def)
  have q: "requests ?c1 m j = requests c m j" for m j by (rule requests_still) (use Some in \<open>simp add: take_answer_def\<close>)
  show ?thesis
  proof (rule matchedI)
    show "dn \<and> answers_to i g \<and> (\<exists>k. (k, g) \<in> A)" if "dict_get (nc_pending ?c1) i = Some (dn, Some g)" for i dn g
      using that matchedD(3)[OF assms(1), of i dn g] assms(2,3) by (auto simp: f split: if_splits)
    show "wt_link w \<in> set (nc_reading ?c1)" if "dict_get (nc_pending ?c1) i = Some (False, g)" "dict_get (nc_waiting ?c1) i = Some w" for i g w
      using that matchedD(4)[OF assms(1), of i g w] by (simp add: f split: if_splits)
    show "dict_get (nc_pending ?c1) i \<noteq> None" if "dict_get (nc_waiting ?c1) i = Some w" for i w
      using that matchedD(1)[OF assms(1), of i w] by (auto simp: f)
  qed (use matchedD(2,5,6)[OF assms(1)] in \<open>simp_all add: f q\<close>)
qed (simp add: take_answer_def assms(1))

lemma matched_arrives:
  assumes "matched A c" "(k, fr) \<in> A"
  shows "matched A (read_answer k fr c)"
  by (rule read_answer_rule)
    (use assms in \<open>auto simp: answers_to_def intro: matched_ends matched_taken\<close>, (erule matched_still; simp)+)

lemma matched_append:
  assumes "\<And>n. \<not> request_no n fr" "matched A c"
  shows "matched A (upd_link k (\<lambda>l. l\<lparr>ln_sent := ln_sent l @ [fr]\<rparr>) c)"
proof (cases "k < length (nc_links c)")
  case True
  show ?thesis by (rule matched_same[OF _ _ _ _ _ _ assms(2)]) (simp_all add: requests_append[OF True] assms(1))
qed (simp add: upd_link_def assms(2))

lemma matched_flush: "matched A c \<Longrightarrow> matched A (snd (flush_dropped env c))"
proof (cases rule: flush_cases[of env c])
  case (1 r)
  assume "matched A c"
  then show ?thesis unfolding 1 by (auto elim: matched_still)
next
  case (2 k)
  assume "matched A c"
  then have "matched A (c\<lparr>nc_dropped := []\<rparr>)" by (rule matched_still) simp_all
  then show ?thesis unfolding 2 snd_conv by (rule matched_append[rotated]) (simp add: request_no_def)
qed

lemma matched_hello: "hello_frame env claim = Inr fr \<Longrightarrow> \<not> request_no n fr"
  by (auto simp: hello_frame_def request_no_def split: sum.splits)

lemma matched_bind:
  assumes "matched A c"
  shows "matched A (snd (bind_open env claim reply c))"
proof -
  have l: "matched A (with_link c)"
    by (rule matched_same[OF _ _ _ _ _ _ assms]) (simp_all, simp_all add: with_link_def)
  show ?thesis
  proof (cases rule: bind_open_cases[of env claim reply c])
    case (failed c1)
    then have c1: "matched A c1" using l matched_sent matched_hello by metis
    show ?thesis unfolding failed(1) by (rule matched_same[OF _ _ _ _ _ _ c1]) simp_all
  next
    case (opened fr c1 tok t)
    then have c1: "matched A c1" using l matched_sent matched_hello by metis
    let ?c2 = "c1\<lparr>nc_channel := Some (length (nc_links c)), nc_token := Some tok, nc_expired := False,
         nc_reader := Some (length (nc_links c)), nc_reading := nc_reading c1 @ [length (nc_links c)], nc_pinger := Some t\<rparr>"
    have q: "requests ?c2 n k = requests c1 n k" for n k by (rule requests_still) simp
    have "matched A ?c2"
    proof (rule matchedI)
      show "wt_link w \<in> set (nc_reading ?c2)" if "dict_get (nc_pending ?c2) i = Some (False, fr)" "dict_get (nc_waiting ?c2) i = Some w" for i fr w
        using that matchedD(4)[OF c1, of i fr w] by simp
      show "dn \<and> answers_to i fr \<and> (\<exists>k. (k, fr) \<in> A)" if "dict_get (nc_pending ?c2) i = Some (dn, Some fr)" for i dn fr
        using that matchedD(3)[OF c1, of i dn fr] by simp
    qed (use matchedD(1,2,6)[OF c1] in \<open>simp_all add: q\<close>)
    then show ?thesis unfolding opened(3) .
  qed
qed

lemma matched_cancel:
  assumes "matched A c"
  shows "matched A (cancel_ask env cid c)"
proof (cases rule: cancel_cases[of env cid c])
  case (3 w)
  have "matched A (snd (client_send env (wt_link w) (CANCEL, [MInt cid]) c))"
    by (rule matched_sent[OF _ assms]) (simp add: request_no_def)
  then show ?thesis unfolding 3(2) by (rule matched_leave)
qed (use assms matched_leave in simp_all)

lemma matched_hook:
  assumes "matched A c"
  shows "matched A (snd (hook_end env j c))"
proof (cases rule: hook_end_cases[of env j c])
  case (1 ks ns)
  show ?thesis unfolding 1(1) by (rule matched_still[OF assms]) simp_all
next
  case (2 k fr ks ns)
  have "matched A (c\<lparr>nc_running := ks, nc_answering := ns\<rparr>)" by (rule matched_still[OF assms]) simp_all
  moreover have "\<not> request_no n fr" for n using 2(1) by (auto simp: request_no_def)
  ultimately show ?thesis unfolding 2(4) by (rule matched_sent[rotated])
qed

lemma matched_release: "matched A c \<Longrightarrow> matched A (release_done ob c)"
  by (rule matched_still, assumption) (simp_all add: release_done_def untrack_def Let_def split: option.split)

lemma matched_outcome:
  assumes "matched A c"
  shows "matched A (snd (outcome_of env wn fr c))"
proof (cases "\<exists>ob. wn = WRelease ob")
  case True
  then obtain ob where ob: "wn = WRelease ob" by blast
  obtain q c1 where a: "answered_value env fr c = (q, c1)" by fastforce
  have c1: "matched A c1" using matching.keeps_answered[OF assms, of env fr] a by simp
  show ?thesis using ob a c1 matched_release[OF c1, of ob] by (cases q) (simp_all add: outcome_of_def deliver_def)
next
  case False
  then show ?thesis using matching.keeps_outcome[OF assms] by blast
qed

lemma matched_ping: "matched A c \<Longrightarrow> matched A (ping_outcome env (r, c))"
proof -
  assume c: "matched A c"
  have stop: "matched A (stop_pinging x)" if "matched A x" for x by (rule matched_still[OF that]) (simp_all add: stop_pinging_def)
  have "matched A (c\<lparr>nc_expired := True\<rparr>)" by (rule matched_still[OF c]) simp_all
  then show ?thesis using ping_cases[of env r c] c stop[of c] stop[of "c\<lparr>nc_expired := True\<rparr>"]
      matched_flush[OF c, of env] stop[of "snd (flush_dropped env c)"] by fastforce
qed

lemma matched_resume:
  assumes "matched A c" "resume env cid c = Some (r, c')"
  shows "matched A c'"
proof -
  obtain w fr where w: "dict_get (nc_waiting c) cid = Some w" "dict_get (nc_pending c) cid = Some (True, fr)"
    using assms(2) by (auto simp: resume_def split: option.splits bool.splits)
  obtain q c1 where rc: "outcome_of env (wt_wanted w) fr (leave_call cid c) = (q, c1)" by fastforce
  have c1: "matched A c1" using matched_outcome[OF matched_leave[OF assms(1)], of env "wt_wanted w" fr cid] rc by simp
  have "c' = c1 \<or> c' = ping_outcome env (q, c1)"
    using assms(2) w rc by (auto simp: resume_def Let_def alive_outcome_def split: purpose.splits sum.splits if_splits)
  then show ?thesis using c1 matched_ping by blast
qed

definition arrived :: "client_event list \<Rightarrow> (nat \<times> frame) set" where
  "arrived es = {(k, fr). Arrive k fr \<in> set es}"

lemma matched_step:
  assumes "matched A c" "\<And>k fr. ev = Arrive k fr \<Longrightarrow> (k, fr) \<in> A"
  shows "matched A (client_step env ev c)"
proof (cases ev)
  case (Order q)
  show ?thesis
  proof (cases "\<exists>ob. q = Give_back ob")
    case True
    then obtain ob where q: "q = Give_back ob" by blast
    have "snd (release_ask env ob c) = c \<or> (\<exists>h. release_ask env ob c = ask_server env (WRelease ob) CONTROL [MInt (control_number RELEASE), MList [MStr h]] c)"
      by (auto simp: release_ask_def ask_control_def split: option.split)
    then show ?thesis using Order q assms(1) keeps_snd[OF matched_asked assms(1)] by fastforce
  next
    case False
    then show ?thesis using matching.keeps_order[of q] assms(1) Order by (auto simp: keeps_def)
  qed
next
  case (Resume cid)
  then show ?thesis using matched_resume[OF assms(1), of env cid] assms(1) by (auto split: option.split)
next
  case (Peer_gone k)
  then show ?thesis by (simp, intro matched_same[OF _ _ _ _ _ _ assms(1)]) simp_all
qed (use assms matched_arrives matched_ends matched_bind matched_cancel matched_flush matched_hook in
      \<open>auto intro: matched_still[OF assms(1)] simp: open_scope_def bind_start_def leave_scope_def close_reader_def stop_pinging_def
        collect_def forget_def hook_start_def split: option.split prod.split\<close>)

lemma matched_new: "matched A (new_client cbs)"
  by (rule matchedI) (simp_all add: new_client_def requests_def sent_on_def)

lemma matched_run: "matched (arrived es) (client_run env es (new_client cbs))"
proof (induction es rule: rev_induct)
  case (snoc ev es)
  have "matched (arrived (es @ [ev])) (client_run env es (new_client cbs))"
    by (rule matched_mono[OF snoc.IH]) (auto simp: arrived_def)
  then have "matched (arrived (es @ [ev])) (client_step env ev (client_run env es (new_client cbs)))"
    by (rule matched_step) (simp add: arrived_def)
  then show ?case by (simp add: client_run_def)
qed (simp add: client_run_def matched_new)

text \<open>C4. Whatever is called, arrives, is cancelled or closes: a caller that waits has sent its request once, on its own
  channel, under a number no other request has; while it cannot go on, that channel is still read; and when it goes
  on with an answer, that answer arrived and carries its number.\<close>

theorem answers_matched:
  assumes "c = client_run env es (new_client cbs)" "dict_get (nc_waiting c) cid = Some w"
  shows "(\<forall>k. length (filter (request_no cid) (sent_on c k)) = (if k = wt_link w then 1 else 0))
    \<and> (resume env cid c = None \<longrightarrow> wt_link w \<in> set (nc_reading c))
    \<and> (\<forall>rc. resume env cid c = Some rc \<longrightarrow> (\<exists>fr. dict_get (nc_pending c) cid = Some (True, fr) \<and>
        (\<forall>f. fr = Some f \<longrightarrow> answers_to cid f \<and> (\<exists>k. Arrive k f \<in> set es))))"
proof -
  have m: "matched (arrived es) c" unfolding assms(1) by (rule matched_run)
  obtain dn fr where p: "dict_get (nc_pending c) cid = Some (dn, fr)" using matchedD(1)[OF m assms(2)] by auto
  have r: "resume env cid c = None \<longleftrightarrow> \<not> dn" using assms(2) p by (cases dn) (simp_all add: resume_def Let_def)
  show ?thesis
    using matchedD(2)[OF m assms(2)] matchedD(4)[OF m _ assms(2), of fr] matchedD(3)[OF m, of cid dn] p r
    by (cases dn) (auto simp: requests_def arrived_def)
qed

theorem answers_matched_witness:
  "\<exists>c. c = client_run demo_client_env (demo_opened @ [Order (Make ''Item'' []), Arrive 0 (RESULT, [MInt 1, MStr ''h''])]) (new_client False)
     \<and> resume demo_client_env 1 c \<noteq> None \<and> length (filter (request_no 1) (sent_on c 0)) = 1"
proof -
  let ?es = "demo_opened @ [Order (Make ''Item'' []), Arrive 0 (RESULT, [MInt 1, MStr ''h''])]"
  let ?c = "client_run demo_client_env ?es (new_client False)"
  have "dict_get (nc_waiting ?c) 1 = Some \<lparr>wt_link = 0, wt_wanted = WAcquire ''Item''\<rparr>" by code_simp
  from answers_matched[OF refl this] have n: "length (filter (request_no 1) (sent_on ?c 0)) = 1" by simp
  have "(case resume demo_client_env 1 ?c of None \<Rightarrow> False | Some x \<Rightarrow> True)" by code_simp
  with n show ?thesis by (auto split: option.splits)
qed

end
