(* ===== verification/Client_Frames.thy ===== *)
theory Client_Frames
  imports Client_Matching
begin

text \<open>
  The frames a client sends, against the server that reads them: a connection opens with HELLO and says it once, and
  every other frame is one the server takes. A server closes a connection for a frame it does not know.
\<close>

definition hello_of :: "cenv \<Rightarrow> frame \<Rightarrow> bool" where
  "hello_of env fr \<longleftrightarrow> (\<exists>claim. hello_frame env claim = Inr fr)"

definition client_sends :: "cenv \<Rightarrow> bool \<Rightarrow> frame \<Rightarrow> bool" where
  "client_sends env cbs fr \<longleftrightarrow> hello_of env fr \<or> (\<exists>o' n body. fr = (o', MInt n # body) \<and> request_body o' body) \<or>
     (\<exists>n. fr = (CANCEL, [MInt n])) \<or> (\<exists>hs. fr = (DROP, [MList (map MStr hs)])) \<or>
     (cbs \<and> (\<exists>n v. fr = (REPLY, [MInt n, v]) \<or> fr = (REFUSE, [MInt n, v])))"

definition frames_ok :: "cenv \<Rightarrow> bool \<Rightarrow> client \<Rightarrow> bool" where
  "frames_ok env cbs c \<longleftrightarrow> (\<forall>k. list_all (client_sends env cbs) (sent_on c k) \<and> list_all (\<lambda>fr. fst fr \<noteq> HELLO) (tl (sent_on c k))) \<and>
     nc_callbacks c = cbs \<and> (nc_hooks c @ nc_running c \<noteq> [] \<longrightarrow> cbs)"

lemma frames_ok_still:
  assumes "frames_ok env cbs c" "\<And>k. sent_on c' k = sent_on c k" "nc_callbacks c' = nc_callbacks c"
    "nc_hooks c' @ nc_running c' = [] \<or> nc_hooks c @ nc_running c \<noteq> [] \<or> cbs"
  shows "frames_ok env cbs c'"
  using assms(1,4) unfolding frames_ok_def assms(2,3) by blast

lemma frames_ok_links:
  assumes "frames_ok env cbs c" "nc_links c' = nc_links c" "nc_callbacks c' = nc_callbacks c" "nc_hooks c' = nc_hooks c"
    "nc_running c' = nc_running c"
  shows "frames_ok env cbs c'"
  by (rule frames_ok_still[OF assms(1) sent_on_still[OF assms(2)] assms(3)]) (simp add: assms(4,5))

lemma upd_link_hooks [simp]:
  "nc_callbacks (upd_link k f c) = nc_callbacks c" "nc_hooks (upd_link k f c) = nc_hooks c" "nc_running (upd_link k f c) = nc_running c"
  by (simp_all add: upd_link_def)

lemma frames_ok_append:
  assumes "frames_ok env cbs c" "client_sends env cbs fr" "fst fr \<noteq> HELLO \<or> sent_on c k = []"
  shows "frames_ok env cbs (upd_link k (\<lambda>l. l\<lparr>ln_sent := ln_sent l @ [fr]\<rparr>) c)"
proof (cases "k < length (nc_links c)")
  case True
  have "list_all (client_sends env cbs) (sent_on (upd_link k (\<lambda>l. l\<lparr>ln_sent := ln_sent l @ [fr]\<rparr>) c) j)
    \<and> list_all (\<lambda>fr. fst fr \<noteq> HELLO) (tl (sent_on (upd_link k (\<lambda>l. l\<lparr>ln_sent := ln_sent l @ [fr]\<rparr>) c) j))" for j
  proof -
    have "list_all (client_sends env cbs) (sent_on c j)" "list_all (\<lambda>fr. fst fr \<noteq> HELLO) (tl (sent_on c j))"
      using assms(1) by (simp_all add: frames_ok_def)
    then show ?thesis unfolding sent_on_append[OF True] using assms(2,3) by (cases "sent_on c j") auto
  qed
  then show ?thesis using assms(1) by (simp add: frames_ok_def)
qed (simp add: upd_link_def assms(1))

lemma frames_ok_send:
  assumes "frames_ok env cbs c" "client_sends env cbs fr" "fst fr \<noteq> HELLO \<or> sent_on c k = []"
  shows "frames_ok env cbs (snd (client_send env' k fr c))"
  by (cases rule: client_send_cases[of env' k fr c]) (simp_all add: assms(1) frames_ok_append[OF assms])

lemma frames_ok_asked:
  assumes "request_body o' body"
  shows "keeps (frames_ok env cbs) (ask_server env' wn o' body)"
proof (rule keeps_at)
  fix c assume c: "frames_ok env cbs c"
  show "frames_ok env cbs (snd (ask_server env' wn o' body c))"
  proof (cases rule: ask_cases[of env' wn o' body c])
    case (failed k e)
    show ?thesis unfolding failed(2) by (rule frames_ok_links[OF c]) simp_all
  next
    case (asked k)
    show ?thesis unfolding asked(3) snd_conv
    proof (rule frames_ok_append)
      show "client_sends env cbs (o', MInt (nc_ids c) # body)" using assms by (auto simp: client_sends_def)
      show "fst (o', MInt (nc_ids c) # body) \<noteq> HELLO \<or> sent_on (c\<lparr>nc_ids := nc_ids c + 1, nc_pending := dict_set (nc_ids c) (False, None) (nc_pending c),
           nc_waiting := dict_set (nc_ids c) \<lparr>wt_link = k, wt_wanted = wn\<rparr> (nc_waiting c)\<rparr>) k = []"
        using request_body_op[OF assms] by auto
    qed (rule frames_ok_links[OF c], simp_all)
  qed (simp add: c)
qed

interpretation known: client_invariant env "frames_ok env cbs" for env cbs
proof
  show "keeps (frames_ok env cbs) (make_object env cls h cont)" for cls h cont
    by (rule keeps_at, erule frames_ok_links) (simp_all add: make_object_def track_def Let_def)
  show "keeps (frames_ok env cbs) (ask_server env wn o' body)" if "request_body o' body" for wn o' body
    by (rule frames_ok_asked[OF that])
qed (erule frames_ok_links; simp add: stop_pinging_def)+

subsection \<open>Every step\<close>

lemma frames_ok_flush:
  assumes "frames_ok env cbs c"
  shows "frames_ok env cbs (snd (flush_dropped env' c))"
proof (cases rule: flush_cases[of env' c])
  case (1 r)
  show ?thesis unfolding 1 snd_conv by (rule frames_ok_links[OF assms]) simp_all
next
  case (2 k)
  have "frames_ok env cbs (c\<lparr>nc_dropped := []\<rparr>)" by (rule frames_ok_links[OF assms]) simp_all
  then show ?thesis unfolding 2 snd_conv by (rule frames_ok_append) (auto simp: client_sends_def)
qed

lemma frames_ok_bind:
  assumes "frames_ok env cbs c"
  shows "frames_ok env cbs (snd (bind_open env claim reply c))"
proof -
  have s: "sent_on (with_link c) k = sent_on c k" for k by (auto simp: sent_on_def with_link_def nth_append)
  have l: "frames_ok env cbs (with_link c)" by (rule frames_ok_still[OF assms s]) (simp_all add: with_link_def)
  have h: "frames_ok env cbs (snd (client_send env (length (nc_links c)) fr (with_link c)))" if "hello_frame env claim = Inr fr" for fr
    by (rule frames_ok_send[OF l]) (use that in \<open>auto simp: client_sends_def hello_of_def s, simp add: sent_on_def\<close>)
  show ?thesis
  proof (cases rule: bind_open_cases[of env claim reply c])
    case (failed c1)
    then have c1: "frames_ok env cbs c1" using l h by blast
    show ?thesis unfolding failed(1) by (rule frames_ok_still[OF c1]) simp_all
  next
    case (opened fr c1 tok t)
    then have c1: "frames_ok env cbs c1" using h by blast
    show ?thesis unfolding opened(3) by (rule frames_ok_links[OF c1]) simp_all
  qed
qed

lemma frames_ok_cancel:
  assumes "frames_ok env cbs c"
  shows "frames_ok env cbs (cancel_ask env' cid c)"
proof (cases rule: cancel_cases[of env' cid c])
  case (3 w)
  have "frames_ok env cbs (snd (client_send env' (wt_link w) (CANCEL, [MInt cid]) c))"
    by (rule frames_ok_send[OF assms]) (auto simp: client_sends_def)
  then show ?thesis unfolding 3(2) by (rule frames_ok_links) (simp_all add: leave_call_def)
qed (use assms in \<open>auto intro: frames_ok_links simp: leave_call_def\<close>)

lemma frames_ok_hook:
  assumes "frames_ok env cbs c"
  shows "frames_ok env cbs (snd (hook_end env' j c))"
proof (cases rule: hook_end_cases[of env' j c])
  case (1 ks ns)
  show ?thesis unfolding 1(1) by (rule frames_ok_still[OF assms]) (use 1(2) in \<open>auto simp: sent_on_def\<close>)
next
  case (2 k fr ks ns)
  have c1: "frames_ok env cbs (c\<lparr>nc_running := ks, nc_answering := ns\<rparr>)"
    by (rule frames_ok_still[OF assms]) (use 2(3) in \<open>auto simp: sent_on_def\<close>)
  have "cbs" using assms 2(2) by (simp add: frames_ok_def)
  show ?thesis unfolding 2(4) by (rule frames_ok_send[OF c1]) (use 2(1) \<open>cbs\<close> in \<open>auto simp: client_sends_def\<close>)
qed

lemma frames_ok_start: "frames_ok env cbs c \<Longrightarrow> frames_ok env cbs (hook_start j c)"
  by (erule frames_ok_still) (auto simp: hook_start_def sent_on_def split: prod.split)

lemma frames_ok_ends: "frames_ok env cbs c \<Longrightarrow> frames_ok env cbs (read_ends k c)"
proof (cases "k \<in> set (nc_reading c)")
  case True
  assume "frames_ok env cbs c"
  then show ?thesis by (rule frames_ok_still) (use True in \<open>simp_all add: read_ends_def, simp add: sent_on_def\<close>)
qed (simp add: read_ends_def)

lemma frames_ok_arrives:
  assumes "frames_ok env cbs c"
  shows "frames_ok env cbs (read_answer k fr c)"
proof (rule read_answer_rule)
  show "frames_ok env cbs (c\<lparr>nc_hooks := x\<rparr>)" if "nc_callbacks c" for x
    by (rule frames_ok_still[OF assms]) (use assms that in \<open>simp_all add: sent_on_def frames_ok_def\<close>)
  show "frames_ok env cbs (c\<lparr>nc_answering := x\<rparr>)" for x by (rule frames_ok_links[OF assms]) simp_all
  show "frames_ok env cbs (take_answer n fr c)" for n
    by (rule frames_ok_links[OF assms]) (simp_all add: take_answer_def split: option.split)
qed (use assms frames_ok_ends in simp_all)

lemma frames_ok_release: "frames_ok env cbs c \<Longrightarrow> frames_ok env cbs (release_done ob c)"
  by (erule frames_ok_links) (simp_all add: release_done_def untrack_def Let_def split: option.split)

lemma frames_ok_outcome:
  assumes "frames_ok env cbs c"
  shows "frames_ok env cbs (snd (outcome_of env wn fr c))"
proof (cases "\<exists>ob. wn = WRelease ob")
  case True
  then obtain ob where ob: "wn = WRelease ob" by blast
  obtain q c1 where a: "answered_value env fr c = (q, c1)" by fastforce
  have c1: "frames_ok env cbs c1" using known.keeps_answered[OF assms, of fr] a by simp
  show ?thesis using ob a c1 frames_ok_release[OF c1, of ob] by (cases q) (simp_all add: outcome_of_def deliver_def)
next
  case False
  then show ?thesis using known.keeps_outcome[OF assms] by blast
qed

lemma frames_ok_resume:
  assumes "frames_ok env cbs c" "resume env cid c = Some (r, c')"
  shows "frames_ok env cbs c'"
proof -
  obtain w fr where w: "dict_get (nc_waiting c) cid = Some w" "dict_get (nc_pending c) cid = Some (True, fr)"
    using assms(2) by (auto simp: resume_def split: option.splits bool.splits)
  obtain q c1 where rc: "outcome_of env (wt_wanted w) fr (leave_call cid c) = (q, c1)" by fastforce
  have "frames_ok env cbs (leave_call cid c)" by (rule frames_ok_links[OF assms(1)]) (simp_all add: leave_call_def)
  then have c1: "frames_ok env cbs c1" using frames_ok_outcome[of env cbs "leave_call cid c" "wt_wanted w" fr] rc by simp
  have stop: "frames_ok env cbs (stop_pinging x)" if "frames_ok env cbs x" for x by (rule frames_ok_links[OF that]) (simp_all add: stop_pinging_def)
  have "frames_ok env cbs (c1\<lparr>nc_expired := True\<rparr>)" by (rule frames_ok_links[OF c1]) simp_all
  then have "frames_ok env cbs (ping_outcome env (q, c1))"
    using ping_cases[of env q c1] c1 stop[of c1] stop[of "c1\<lparr>nc_expired := True\<rparr>"]
      frames_ok_flush[OF c1, of env] stop[of "snd (flush_dropped env c1)"] by fastforce
  moreover have "c' = c1 \<or> c' = ping_outcome env (q, c1)"
    using assms(2) w rc by (auto simp: resume_def Let_def alive_outcome_def split: purpose.splits sum.splits if_splits)
  ultimately show ?thesis using c1 by blast
qed

lemma frames_ok_give_back:
  assumes "frames_ok env cbs c"
  shows "frames_ok env cbs (snd (release_ask env' ob c))"
proof -
  have "request_body CONTROL [MInt (control_number RELEASE), MList [MStr h]]" for h
    unfolding request_body_def by (intro disjI2 conjI exI[of _ RELEASE] exI[of _ "[MStr h]"]) (simp_all add: request_of_def)
  from keeps_snd[OF frames_ok_asked[OF this] assms] assms show ?thesis
    by (auto simp: release_ask_def ask_control_def split: option.split)
qed

lemma frames_ok_step:
  assumes "frames_ok env cbs c"
  shows "frames_ok env cbs (client_step env ev c)"
proof (cases ev)
  case (Order q)
  then show ?thesis
    using known.keeps_order[of q env cbs] frames_ok_give_back[OF assms, of env] assms by (cases q) (auto simp: keeps_def)
next
  case (Resume cid)
  then show ?thesis using frames_ok_resume[OF assms, of cid] assms by (auto split: option.split)
next
  case (Peer_gone k)
  then show ?thesis by (simp, intro frames_ok_still[OF assms]) simp_all
qed (use assms frames_ok_arrives frames_ok_ends frames_ok_bind frames_ok_cancel frames_ok_flush frames_ok_hook frames_ok_start in
      \<open>auto intro: frames_ok_links[OF assms] simp: open_scope_def bind_start_def leave_scope_def close_reader_def stop_pinging_def
        collect_def forget_def split: option.split\<close>)

lemma all_strs_map: "all_strs (map MStr hs) = Some hs"
  by (induction hs) simp_all

text \<open>What the server makes of it.\<close>

lemma sendable_read:
  assumes "client_sends env cbs fr" "fst fr \<noteq> HELLO" "cbs \<longrightarrow> backs"
  shows "read_frame senv backs fr \<noteq> Refuse e"
proof -
  have "\<not> hello_of env fr" using assms(2) by (auto simp: hello_of_def hello_frame_def split: sum.splits)
  then consider n i h ms where "fr = (CALL, [MInt n, MInt i, h, MList ms])"
    | n k args where "fr = (CONTROL, [MInt n, MInt (control_number k), MList args])"
    | n where "fr = (CANCEL, [MInt n])" | hs where "fr = (DROP, [MList (map MStr hs)])"
    | n v where "backs" "fr = (REPLY, [MInt n, v]) \<or> fr = (REFUSE, [MInt n, v])"
    using assms(1,3) by (auto simp: client_sends_def request_body_def)
  then show ?thesis by cases (auto simp: read_frame_def all_strs_map)
qed

lemma sendable_request:
  assumes "client_sends env cbs fr" "read_frame senv backs fr = Spawn cid label (JControl k args) after"
  shows "request_of k args \<noteq> None"
proof -
  have "fst fr = CONTROL"
    using assms(2) by (auto simp: read_frame_def split: prod.splits op.splits list.splits mp.splits option.splits if_splits)
  moreover from this have "\<not> hello_of env fr" by (auto simp: hello_of_def hello_frame_def split: sum.splits)
  ultimately obtain n k' args' where fr: "fr = (CONTROL, [MInt n, MInt (control_number k'), MList args'])" "request_of k' args' \<noteq> None"
    using assms(1) by (auto simp: client_sends_def request_body_def)
  then show ?thesis using assms(2) by (simp add: read_frame_def)
qed

lemma hello_read:
  assumes "client_sends env cbs fr" "fst fr = HELLO" "ce_identity env = Inr ours"
  shows "\<exists>claim. read_hello uid uid ours fr = HHello claim"
proof -
  have "hello_of env fr" using assms(1,2) by (auto simp: client_sends_def request_body_def)
  then obtain claim where "hello_frame env claim = Inr fr" unfolding hello_of_def by blast
  then have "fr = (HELLO, [MStr ours, (case claim of None \<Rightarrow> MNil | Some t \<Rightarrow> MStr t)])" using assms(3) by (simp add: hello_frame_def)
  then show ?thesis by (cases claim) (simp_all add: read_hello_def)
qed

lemma frames_ok_run: "frames_ok env cbs (client_run env es (new_client cbs))"
proof (induction es rule: rev_induct)
  case Nil
  show ?case by (simp add: client_run_def frames_ok_def new_client_def sent_on_def)
next
  case (snoc ev es)
  then show ?case using frames_ok_step by (simp add: client_run_def)
qed

text \<open>C6. Whatever a client is told to do and whatever it receives: its connections say HELLO at most once and first, with what
  a server of the same build takes; every other frame is one that the server reads without closing the connection, and
  every control in it is one it has.\<close>

theorem frames_understood:
  assumes "fr \<in> set (sent_on (client_run env es (new_client cbs)) k)" "cbs \<longrightarrow> backs"
  shows "(if fst fr = HELLO then \<forall>ours uid. ce_identity env = Inr ours \<longrightarrow> (\<exists>claim. read_hello uid uid ours fr = HHello claim)
      else (\<forall>e. read_frame senv backs fr \<noteq> Refuse e) \<and>
        (\<forall>cid label kd args after. read_frame senv backs fr = Spawn cid label (JControl kd args) after \<longrightarrow> request_of kd args \<noteq> None))
    \<and> (\<forall>g\<in>set (tl (sent_on (client_run env es (new_client cbs)) k)). fst g \<noteq> HELLO)"
proof
  have ok: "list_all (client_sends env cbs) (sent_on (client_run env es (new_client cbs)) k)"
    "list_all (\<lambda>fr. fst fr \<noteq> HELLO) (tl (sent_on (client_run env es (new_client cbs)) k))"
    using frames_ok_run[of env cbs es] by (simp_all add: frames_ok_def)
  then show "\<forall>g\<in>set (tl (sent_on (client_run env es (new_client cbs)) k)). fst g \<noteq> HELLO" by (simp add: list_all_iff)
  have s: "client_sends env cbs fr" using ok(1) assms(1) by (simp add: list_all_iff)
  show "if fst fr = HELLO then \<forall>ours uid. ce_identity env = Inr ours \<longrightarrow> (\<exists>claim. read_hello uid uid ours fr = HHello claim)
      else (\<forall>e. read_frame senv backs fr \<noteq> Refuse e) \<and>
        (\<forall>cid label kd args after. read_frame senv backs fr = Spawn cid label (JControl kd args) after \<longrightarrow> request_of kd args \<noteq> None)"
    using hello_read[OF s] sendable_read[OF s _ assms(2)] sendable_request[OF s] by auto
qed

theorem frames_understood_witness:
  "\<exists>fr. fr \<in> set (sent_on (client_run demo_client_env (demo_opened @ [Order (Make ''Item'' [])]) (new_client False)) 0)
     \<and> fst fr = CALL \<and> (\<forall>e. read_frame demo_env False fr \<noteq> Refuse e)"
proof -
  let ?c = "client_run demo_client_env (demo_opened @ [Order (Make ''Item'' [])]) (new_client False)"
  have "sent_on ?c 0 = [(HELLO, [MStr ''b'', MNil]), (CALL, [MInt 1, MInt 0, MNil, MList []])]" by code_simp
  then have m: "(CALL, [MInt 1, MInt 0, MNil, MList []]) \<in> set (sent_on ?c 0)" by simp
  from frames_understood[OF m, of False demo_env] m show ?thesis by auto
qed

end
