(* ===== verification/Protocol_Props.thy ===== *)
theory Protocol_Props
  imports Protocol
begin

text \<open>
  The channel and the faults: frames read back in order to the end of the stream, exactly what a
  receive takes and when it ends, and what a failure is on the far side.
\<close>

subsection \<open>Lengths\<close>

lemma length_pack_length [simp]: "length (length_pack n) = 4"
  by (simp add: length_pack_def)

lemma length_unpack_pack:
  assumes "n < 2 ^ 32"
  shows "length_unpack (length_pack n) = n"
proof -
  define q1 where "q1 = n div 2 ^ 8"
  define q2 where "q2 = q1 div 2 ^ 8"
  define q3 where "q3 = q2 div 2 ^ 8"
  have q: "n div 2 ^ 16 = q2" "n div 2 ^ 24 = q3"
    by (simp_all add: q1_def q2_def q3_def div_mult2_eq[symmetric])
  have "q3 < 256" using assms by (simp add: q(2)[symmetric] div_less_iff_less_mult)
  moreover have "n = q1 * 2 ^ 8 + n mod 256" "q1 = q2 * 2 ^ 8 + q1 mod 256" "q2 = q3 * 2 ^ 8 + q2 mod 256"
    by (simp_all add: q1_def q2_def q3_def)
  moreover have "length_pack n = [q3 mod 256, q2 mod 256, q1 mod 256, n mod 256]"
    unfolding length_pack_def q q1_def[symmetric] ..
  ultimately show ?thesis by simp
qed

lemma length_pack_unpack:
  assumes "length h = 4" "\<forall>x\<in>set h. x < 256"
  shows "length_pack (length_unpack h) = h"
proof -
  obtain a b c d where h: "h = [a, b, c, d]" using assms(1)
    by (auto simp: numeral_eq_Suc length_Suc_conv)
  with assms(2) have lt: "a < 256" "b < 256" "c < 256" "d < 256" by auto
  let ?n = "a * 2 ^ 24 + b * 2 ^ 16 + c * 2 ^ 8 + d"
  have "?n div 2 ^ 24 = a" "?n div 2 ^ 16 = a * 256 + b" "?n div 2 ^ 8 = (a * 256 + b) * 256 + c"
    using lt by (simp_all add: div_nat_eqI)
  with lt show ?thesis by (simp add: h length_pack_def mod_nat_eqI)
qed

subsection \<open>Reading until the peer closes\<close>

lemma receive_Inr:
  "receive unpack inp = (Inr fr, rest) \<longleftrightarrow>
     4 \<le> length inp \<and> (let n = length_unpack (take 4 inp) in n \<le> MAX_FRAME \<and> n \<le> length (drop 4 inp) \<and>
       rest = drop n (drop 4 inp) \<and> (\<exists>m. unpack (take n (drop 4 inp)) = Inr m \<and> frame_of m = Inr fr))"
  by (auto simp: receive_def receive_exactly_def reraise_def bind_eff_def lift_res_def raise_def Let_def
      split: sum.splits)

lemma receive_shorter: "receive unpack inp = (Inr fr, rest) \<Longrightarrow> length rest < length inp"
  by (auto simp: receive_Inr Let_def)

text \<open>\<open>_frames\<close> as far as it reads: every frame until a receive raises, and what it raised.\<close>

function read_all :: "(nat list \<Rightarrow> exn + mp) \<Rightarrow> nat list \<Rightarrow> frame list \<times> exn" where
  "read_all unpack inp = (case receive unpack inp of
       (Inl e, rest) \<Rightarrow> ([], e)
     | (Inr fr, rest) \<Rightarrow> (let (frs, e) = read_all unpack rest in (fr # frs, e)))"
  by pat_completeness auto
termination
  by (relation "measure (\<lambda>(unpack, inp). length inp)") (simp_all, metis receive_shorter)

declare read_all.simps [simp del]

definition sendable :: "(mp \<Rightarrow> exn + nat list) \<Rightarrow> (nat list \<Rightarrow> exn + mp) \<Rightarrow> frame \<Rightarrow> bool" where
  "sendable pack unpack fr = (case pack (frame_mp fr) of Inl e \<Rightarrow> False
     | Inr body \<Rightarrow> length body \<le> MAX_FRAME \<and> unpack body = Inr (frame_mp fr))"

lemma frame_of_mp [simp]: "frame_of (frame_mp fr) = Inr fr"
  by (cases fr) (simp add: frame_of_def)

lemma frame_of_Inr: "frame_of m = Inr fr \<longleftrightarrow> m = frame_mp fr"
  by (cases fr) (auto simp: frame_of_def dest: op_of_Some split: mp.splits list.splits option.splits)

lemma receive_sent:
  assumes "length body \<le> MAX_FRAME" "unpack body = Inr (frame_mp fr)"
  shows "receive unpack (length_pack (length body) @ body @ rest) = (Inr fr, rest)"
proof -
  have "length_unpack (length_pack (length body)) = length body"
    by (rule length_unpack_pack) (use assms(1) in \<open>simp add: MAX_FRAME_def\<close>)
  with assms show ?thesis by (simp add: receive_Inr Let_def)
qed

lemma receive_short: "length inp < 4 \<Longrightarrow> receive unpack inp = (Inl EndOfStream, inp)"
  by (simp add: receive_def receive_exactly_def reraise_def bind_eff_def)

text \<open>C29. Whatever frames are sent on a channel, in whatever order the calls finish, the far side reads
  exactly those frames in that order and then the end of the stream.\<close>

theorem frames_roundtrip:
  assumes "list_all (sendable pack unpack) frs"
  shows "\<exists>us out. map_eff (send pack) frs [] = (Inr us, out) \<and> read_all unpack out = (frs, EndOfStream)"
proof -
  have "\<exists>us out. map_eff (send pack) frs pre = (Inr us, pre @ out) \<and> read_all unpack out = (frs, EndOfStream)" for pre
    using assms
  proof (induction frs arbitrary: pre)
    case Nil
    show ?case by (simp add: read_all.simps[of _ "[]"] receive_short)
  next
    case (Cons fr frs)
    then obtain body where body: "pack (frame_mp fr) = Inr body" "length body \<le> MAX_FRAME"
      "unpack body = Inr (frame_mp fr)" by (auto simp: sendable_def split: sum.splits)
    let ?bytes = "length_pack (length body) @ body"
    have snd: "send pack fr pre = (Inr (), pre @ ?bytes)" using body by (simp add: send_def)
    obtain us out where rest: "map_eff (send pack) frs (pre @ ?bytes) = (Inr us, (pre @ ?bytes) @ out)"
      "read_all unpack out = (frs, EndOfStream)" using Cons.IH[of "pre @ ?bytes"] Cons.prems by auto
    have "receive unpack (?bytes @ out) = (Inr fr, out)" using receive_sent[where unpack = unpack, OF body(2,3)] by simp
    then have "read_all unpack (?bytes @ out) = (fr # frs, EndOfStream)"
      by (subst read_all.simps) (simp add: rest(2))
    with snd rest(1) show ?case by auto
  qed
  from this[of "[]"] show ?thesis by simp
qed

definition demo_pack :: "mp \<Rightarrow> exn + nat list" where
  "demo_pack m = (case m of MList [MInt k, MInt i] \<Rightarrow> Inr [nat k, nat i] | MList [MInt k, x] \<Rightarrow> Inr []
     | _ \<Rightarrow> Inl TypeError)"

definition demo_unpack :: "nat list \<Rightarrow> exn + mp" where
  "demo_unpack bs = (case bs of [] \<Rightarrow> Inr (MList [MInt 5, MList []]) | [a, i] \<Rightarrow> Inr (MList [MInt (int a), MInt (int i)])
     | _ \<Rightarrow> Inl ValueError)"

theorem frames_roundtrip_witness:
  "\<exists>us out. map_eff (send demo_pack) [(CANCEL, [MInt 200]), (DROP, [MList []]), (CANCEL, [MInt 7])] [] = (Inr us, out)
     \<and> read_all demo_unpack out = ([(CANCEL, [MInt 200]), (DROP, [MList []]), (CANCEL, [MInt 7])], EndOfStream)"
  by (rule frames_roundtrip)
     (simp add: sendable_def demo_pack_def demo_unpack_def MAX_FRAME_def)

text \<open>A receive answers a frame exactly when the stream holds its length, within the limit, and its body,
  and it takes those bytes and no more; it reports the end of the stream exactly when fewer than four
  bytes are left, which includes a peer that closed inside a length.\<close>

theorem receive_exact:
  assumes "\<forall>x\<in>set inp. x < 256" "\<forall>bs. unpack bs \<noteq> Inl EndOfStream"
  shows "(receive unpack inp = (Inr fr, rest) \<longleftrightarrow> (\<exists>body. inp = length_pack (length body) @ body @ rest
       \<and> length body \<le> MAX_FRAME \<and> unpack body = Inr (frame_mp fr)))
     \<and> (fst (receive unpack inp) = Inl EndOfStream \<longleftrightarrow> length inp < 4)"
proof (intro conjI iffI)
  assume r: "receive unpack inp = (Inr fr, rest)"
  let ?n = "length_unpack (take 4 inp)" and ?body = "take (length_unpack (take 4 inp)) (drop 4 inp)"
  from r have r': "4 \<le> length inp" "?n \<le> MAX_FRAME" "?n \<le> length (drop 4 inp)" "rest = drop ?n (drop 4 inp)"
    "unpack ?body = Inr (frame_mp fr)" by (auto simp: receive_Inr Let_def frame_of_Inr)
  have "length_pack ?n = take 4 inp"
    by (rule length_pack_unpack) (use r'(1) assms(1) in \<open>auto dest: in_set_takeD\<close>)
  then have "inp = length_pack (length ?body) @ ?body @ rest"
    using r'(1,3,4) by (metis append_take_drop_id length_take min.absorb2)
  with r' show "\<exists>body. inp = length_pack (length body) @ body @ rest \<and> length body \<le> MAX_FRAME \<and>
    unpack body = Inr (frame_mp fr)" by (intro exI[of _ ?body]) (simp add: min_def)
next
  assume "\<exists>body. inp = length_pack (length body) @ body @ rest \<and> length body \<le> MAX_FRAME \<and>
    unpack body = Inr (frame_mp fr)"
  then show "receive unpack inp = (Inr fr, rest)" using receive_sent[of _ unpack] by blast
next
  assume e: "fst (receive unpack inp) = Inl EndOfStream"
  show "length inp < 4"
  proof (rule ccontr)
    assume "\<not> length inp < 4"
    with e assms(2) show False
      by (auto simp: receive_def receive_exactly_def reraise_def bind_eff_def lift_res_def raise_def frame_of_def
          IncompleteRead_def Let_def split: sum.splits if_splits mp.splits list.splits option.splits)
  qed
qed (simp add: receive_short)

theorem receive_exact_witness:
  "receive demo_unpack [0, 0, 0, 2, 4, 9, 0, 0] = (Inr (CANCEL, [MInt 9]), [0, 0])
   \<and> fst (receive demo_unpack [0, 0]) = Inl EndOfStream"
proof -
  have f: "demo_unpack [4, 9] = Inr (frame_mp (CANCEL, [MInt 9]))" by (simp add: demo_unpack_def)
  have u: "\<forall>bs. demo_unpack bs \<noteq> Inl EndOfStream" by (simp add: demo_unpack_def split: list.split)
  have "receive demo_unpack [0, 0, 0, 2, 4, 9, 0, 0] = (Inr (CANCEL, [MInt 9]), [0, 0])"
    using receive_exact[OF _ u, THEN conjunct1, THEN iffD2, of "[0, 0, 0, 2, 4, 9, 0, 0]" "[0, 0]" "(CANCEL, [MInt 9])"]
    by (auto simp: length_pack_def MAX_FRAME_def f simp del: frame_mp.simps intro!: exI[of _ "[4, 9]"])
  moreover have "fst (receive demo_unpack [0, 0]) = Inl EndOfStream"
    using receive_exact[OF _ u, THEN conjunct2, THEN iffD2, of "[0, 0]"] by simp
  ultimately show ?thesis by simp
qed

subsection \<open>What a failure is on the far side\<close>

text \<open>A declared error whose parts cross: each part, by name, as its declared type.\<close>

definition error_crosses :: "bindings \<Rightarrow> tables \<Rightarrow> string \<Rightarrow> objref \<Rightarrow> mp list \<Rightarrow> objref \<Rightarrow> bool" where
  "error_crosses b tb c ob ms ob' \<longleftrightarrow> (\<exists>fs xs. t_errors tb c = Some fs \<and> length xs = length fs \<and>
     list_all2 (\<lambda>f x. b_attr b ob (fst f) = Inr x) fs xs \<and>
     list_all2 (\<lambda>q m. crosses b tb (\<lambda>_ _. False) 0 (snd (fst q)) (snd q) m) (zip fs xs) ms \<and>
     b_error b c xs = Inr ob')"

lemma error_encodes:
  assumes "error_crosses b tb c ob ms ob'"
  shows "encodes (\<lambda>k. encode k b tb (Some (error_wire c)) (PObj ob) (no_proxy :: 's proxy_id) 0 None) (MList ms)"
proof -
  from assms obtain fs xs where fx: "t_errors tb c = Some fs" "length xs = length fs"
    "list_all2 (\<lambda>f x. b_attr b ob (fst f) = Inr x) fs xs"
    "list_all2 (\<lambda>q m. crosses b tb (\<lambda>_ _. False) 0 (snd (fst q)) (snd q) m) (zip fs xs) ms"
    unfolding error_crosses_def by blast
  have "list_all2 (\<lambda>q m. encodes (\<lambda>k. encode k b tb (Some (snd (fst q))) (snd q) (no_proxy :: 's proxy_id) 0 None) m)
      (zip fs xs) ms"
    using fx(4) by (rule list_all2_mono) (rule encode_crosses[where nm = "\<lambda>_ _. False"], auto)
  from encodes_all[OF this] obtain n where n: "\<forall>k\<ge>n. list_all2 (\<lambda>q m.
      answers (encode k b tb (Some (snd (fst q))) (snd q) (no_proxy :: 's proxy_id) 0 None) m) (zip fs xs) ms" by blast
  have "answers (encode (Suc k) b tb (Some (error_wire c)) (PObj ob) (no_proxy :: 's proxy_id) 0 None) (MList ms)"
    if "n \<le> k" for k
  proof -
    have "list_all2 (\<lambda>f m. answers (bind_eff (lift_res (b_attr b ob (fst f)))
        (\<lambda>x. encode k b tb (Some (snd f)) x (no_proxy :: 's proxy_id) 0 None)) m) fs ms"
      using n that fx(2,3) by (auto simp: list_all2_conv_all_nth)
    then show ?thesis using fx(1) by (auto simp: error_wire_def FLAT_def CONTAINER_def intro!: answers_bind[OF answers_map])
  qed
  then show ?thesis by (intro encodes_Suc exI[of _ n]) auto
qed

lemma error_decodes:
  assumes "error_crosses b tb c ob ms ob'"
  shows "answers (decode b tb (Some (error_wire c)) (MList ms) (no_proxy :: 's proxy_obj) 0 None) (PObj ob')"
proof -
  from assms obtain fs xs where fx: "t_errors tb c = Some fs" "length xs = length fs"
    "list_all2 (\<lambda>q m. crosses b tb (\<lambda>_ _. False) 0 (snd (fst q)) (snd q) m) (zip fs xs) ms"
    "b_error b c xs = Inr ob'"
    unfolding error_crosses_def by blast
  have "list_all2 (\<lambda>q m. answers (decode b tb (Some (snd (fst q))) m (no_proxy :: 's proxy_obj) 0 None) (snd q))
      (zip fs xs) ms"
    using fx(3) by (rule list_all2_mono) (rule decode_crosses[where nm = "\<lambda>_ _. False"], auto)
  then have l: "length ms = length fs" and "list_all2 (\<lambda>(f, m) x.
      answers (decode b tb (Some (snd f)) m (no_proxy :: 's proxy_obj) 0 None) x) (zip fs ms) xs"
    using fx(2) by (auto simp: list_all2_conv_all_nth)
  then have "answers (map_eff (\<lambda>(f, m). decode b tb (Some (snd f)) m (no_proxy :: 's proxy_obj) 0 None) (zip fs ms)) xs"
    by (intro answers_map) (simp add: case_prod_unfold)
  then have "answers (parts_in (\<lambda>f m. decode b tb (Some f) m (no_proxy :: 's proxy_obj) 0 None) fs (MList ms)) xs"
    using l by (simp add: parts_in_def)
  then show ?thesis using fx(1,4) by (subst decode.simps(2)) (auto simp: error_wire_def intro!: answers_bind)
qed

text \<open>\<open>fault_ok\<close>: a failure a server sends. A wrapper's own code is no refusal's, a declared error is one
  of the table and \<open>rb\<close> says which object its parts rebuild.\<close>

definition plain_code :: "string \<Rightarrow> bool" where
  "plain_code s \<longleftrightarrow> map_of REFUSALS s = None"

definition declared_ok ::
  "bindings \<Rightarrow> tables \<Rightarrow> fault_env \<Rightarrow> (string \<Rightarrow> objref \<Rightarrow> objref) \<Rightarrow> string \<Rightarrow> objref \<Rightarrow> bool" where
  "declared_ok b tb fe rb c ob \<longleftrightarrow> c \<in> set (fe_errors fe) \<and> c \<noteq> [] \<and> distinct (fe_errors fe) \<and>
     (\<exists>s. fe_code fe ob = MStr s) \<and> (\<exists>ms. error_crosses b tb c ob ms (rb c ob))"

fun fault_ok ::
  "bindings \<Rightarrow> tables \<Rightarrow> fault_env \<Rightarrow> (string \<Rightarrow> objref \<Rightarrow> objref) \<Rightarrow> pyexc \<Rightarrow> bool" where
  "fault_ok b tb fe rb (Refused r m) = True"
| "fault_ok b tb fe rb (Declared c ob) = declared_ok b tb fe rb c ob"
| "fault_ok b tb fe rb (Wrapper k code m None) = plain_code code"
| "fault_ok b tb fe rb (Wrapper k code m (Some (Declared c ob))) = declared_ok b tb fe rb c ob"
| "fault_ok b tb fe rb (Wrapper k code m (Some c)) = (exc_class c \<noteq> [])"
| "fault_ok b tb fe rb (Plain c m) = False"

text \<open>What the far side raises: a refusal and a declared error are themselves; a cause is itself when it is
  declared and a builtin by name when it is not.\<close>

definition by_name :: "string \<Rightarrow> string \<Rightarrow> pyexc" where
  "by_name c s = (case map_of BUILTIN_EXCEPTIONS c of Some k \<Rightarrow> Plain k (MStr s)
     | None \<Rightarrow> Plain ''Exception'' (MStr (c @ '': '' @ s)))"

fun far_side :: "fault_env \<Rightarrow> (string \<Rightarrow> objref \<Rightarrow> objref) \<Rightarrow> pyexc \<Rightarrow> pyexc" where
  "far_side fe rb (Refused r m) = Refused r m"
| "far_side fe rb (Declared c ob) = Declared c (rb c ob)"
| "far_side fe rb (Wrapper k code m None) = Wrapper ''WrapperError'' ''wrapper_error'' m None"
| "far_side fe rb (Wrapper k code m (Some (Declared c ob))) =
     Wrapper ''InternalError'' ''internal'' m (Some (Declared c (rb c ob)))"
| "far_side fe rb (Wrapper k code m (Some c)) =
     Wrapper ''InternalError'' ''internal'' m (Some (by_name (exc_class c) (fe_str fe c)))"
| "far_side fe rb (Plain c m) = Plain c m"

lemma declared_found:
  assumes "c \<in> set (fe_errors fe)"
  obtains i where "declared_index fe (Some (Declared c ob)) = Some i" "i < length (fe_errors fe)" "fe_errors fe ! i = c"
proof -
  let ?f = "find (\<lambda>i. fe_errors fe ! i = c) [0..<length (fe_errors fe)]"
  obtain j where "j < length (fe_errors fe)" "fe_errors fe ! j = c" using assms by (auto simp: in_set_conv_nth)
  then have "?f \<noteq> None" by (auto simp: find_None_iff)
  then obtain i where i: "?f = Some i" by auto
  then have "i < length (fe_errors fe)" "fe_errors fe ! i = c" by (auto simp: find_Some_iff)
  with i that show ?thesis by (simp add: declared_index_def)
qed

lemma declared_parts:
  assumes "declared_ok b tb fe rb c ob"
  obtains i ps n where "declared_index fe (Some (Declared c ob)) = Some i" "i < length (fe_errors fe)"
    "\<forall>k\<ge>n. fault_parts k b tb fe i (Declared c ob) () = (Inr ps, ())" 
    "rebuild b tb fe (MInt (int i)) ps () = (Inr (Declared c (rb c ob)), ())"
proof -
  from assms obtain ms where ms: "c \<in> set (fe_errors fe)" "error_crosses b tb c ob ms (rb c ob)"
    by (auto simp: declared_ok_def)
  obtain i where i: "declared_index fe (Some (Declared c ob)) = Some i" "i < length (fe_errors fe)" "fe_errors fe ! i = c"
    by (rule declared_found[OF ms(1)])
  from error_encodes[OF ms(2), where ?'s = unit] obtain n where
    "\<forall>k\<ge>n. fault_parts k b tb fe i (Declared c ob) () = (Inr (MList ms), ())"
    using i(3) by (auto simp: encodes_def fault_parts_def)
  moreover have "rebuild b tb fe (MInt (int i)) (MList ms) () = (Inr (Declared c (rb c ob)), ())"
    using error_decodes[OF ms(2), where ?'s = unit] i by (auto simp: answers_def rebuild_def)
  ultimately show ?thesis using that i by blast
qed

lemma refusal_plain: "plain_code s \<Longrightarrow> refusal_of (MStr s) = Inr None"
  by (simp add: plain_code_def)

lemma approximate_by_name: "c \<noteq> [] \<Longrightarrow> approximate fe (MStr c) (MStr s) = Inr (by_name c s)"
  by (auto simp: approximate_def by_name_def split: option.split)

lemma wrapped_by_name:
  assumes "\<nexists>c ob. x = Declared c ob" "exc_class x \<noteq> []"
  shows "\<exists>m' n. (\<forall>j\<ge>n. faults_encode j b tb fe (Wrapper k code m (Some x)) () = (Inr m', ())) \<and>
    faults_decode b tb fe m' () = (Inr (Wrapper ''InternalError'' ''internal'' m
      (Some (by_name (exc_class x) (fe_str fe x)))), ())"
proof -
  have d: "declared_index fe (Some x) = None" "declared_index fe (Some (Wrapper k code m (Some x))) = None"
    using assms(1) by (cases x) (simp_all add: declared_index_def)
  let ?m = "fault_value (MStr code) m (exc_class x) (fe_str fe x) None MNil"
  have "faults_encode j b tb fe (Wrapper k code m (Some x)) () = (Inr ?m, ())" for j
    using d by (simp add: faults_encode_def)
  moreover have "faults_decode b tb fe ?m () = (Inr (Wrapper ''InternalError'' ''internal'' m
      (Some (by_name (exc_class x) (fe_str fe x)))), ())"
    using assms(2) by (simp add: faults_decode_def fault_value_def approximate_by_name)
  ultimately show ?thesis by blast
qed

lemma fault_crosses:
  assumes "fault_ok b tb fe rb e"
  shows "\<exists>m n. (\<forall>k\<ge>n. faults_encode k b tb fe e () = (Inr m, ())) \<and>
    faults_decode b tb fe m () = (Inr (far_side fe rb e), ())"
  using assms
proof (cases e)
  case (Refused r m)
  then show ?thesis
    by (cases r) (auto simp: faults_encode_def faults_decode_def fault_value_def REFUSALS_def intro!: exI[of _ 0])
next
  case (Declared c ob)
  with assms have ok: "declared_ok b tb fe rb c ob" by simp
  then obtain s where s: "fe_code fe ob = MStr s" by (auto simp: declared_ok_def)
  obtain i ps n where p: "declared_index fe (Some (Declared c ob)) = Some i"
    "\<forall>k\<ge>n. fault_parts k b tb fe i (Declared c ob) () = (Inr ps, ())"
    "rebuild b tb fe (MInt (int i)) ps () = (Inr (Declared c (rb c ob)), ())" by (rule declared_parts[OF ok])
  let ?m = "fault_value (MStr s) (fe_message fe ob) '''' '''' (Some i) ps"
  have "\<forall>k\<ge>n. faults_encode k b tb fe e () = (Inr ?m, ())" using p(1,2) s Declared by (simp add: faults_encode_def)
  moreover have "faults_decode b tb fe ?m () = (Inr (far_side fe rb e), ())"
    using p(3) Declared by (simp add: faults_decode_def fault_value_def)
  ultimately show ?thesis by blast
next
  case (Wrapper k code m cause)
  have w: "declared_index fe (Some (Wrapper k code m cause)) = None" by (simp add: declared_index_def)
  show ?thesis
  proof (cases cause)
    case None
    with assms Wrapper have c: "plain_code code" by simp
    have "faults_decode b tb fe (fault_value (MStr code) m '''' '''' None MNil) () = (Inr (far_side fe rb e), ())"
      using None Wrapper refusal_plain[OF c] by (simp add: faults_decode_def fault_value_def)
    moreover have "faults_encode n b tb fe e () = (Inr (fault_value (MStr code) m '''' '''' None MNil), ())" for n
      using None Wrapper w by (simp add: faults_encode_def)
    ultimately show ?thesis by blast
  next
    case (Some x)
    show ?thesis
    proof (cases "\<exists>c ob. x = Declared c ob")
      case False
      then have "fault_ok b tb fe rb e = (exc_class x \<noteq> [])" "far_side fe rb e =
        Wrapper ''InternalError'' ''internal'' m (Some (by_name (exc_class x) (fe_str fe x)))"
        using Wrapper Some by (cases x; simp)+
      then show ?thesis using wrapped_by_name[OF False] assms Wrapper Some by simp
    next
      case True
      then obtain c ob where x: "x = Declared c ob" by blast
      with assms Wrapper Some have ok: "declared_ok b tb fe rb c ob" by simp
      then have ne: "c \<noteq> []" by (simp add: declared_ok_def)
      obtain i ps n where p: "declared_index fe (Some (Declared c ob)) = Some i"
        "\<forall>k\<ge>n. fault_parts k b tb fe i (Declared c ob) () = (Inr ps, ())"
        "rebuild b tb fe (MInt (int i)) ps () = (Inr (Declared c (rb c ob)), ())" by (rule declared_parts[OF ok])
      let ?m = "fault_value (MStr code) m c (fe_str fe (Declared c ob)) (Some i) ps"
      have "\<forall>k\<ge>n. faults_encode k b tb fe e () = (Inr ?m, ())" using p(1,2) w Wrapper Some x
        by (simp add: faults_encode_def)
      moreover have "faults_decode b tb fe ?m () = (Inr (far_side fe rb e), ())"
        using p(3) Wrapper Some x ne by (simp add: faults_decode_def fault_value_def)
      ultimately show ?thesis by blast
    qed
  qed
next
  case (Plain c m)
  with assms show ?thesis by simp
qed

text \<open>C30. A failure crosses: the server's encoding, with enough stack, reads back on the client as the same
  refusal, the same declared error with its parts rebuilt, or an error carrying its cause, declared or by name.\<close>

theorem fault_roundtrip:
  assumes "fault_ok b tb fe rb e"
  shows "\<exists>m n. (\<forall>k\<ge>n. faults_encode k b tb fe e () = (Inr m, ())) \<and>
    faults_decode b tb fe m () = (Inr (far_side fe rb e), ())"
  by (rule fault_crosses[OF assms])

definition demo_fe :: fault_env where
  "demo_fe = \<lparr>fe_errors = [''BadPath'', ''Thrown''], fe_code = (\<lambda>_. MStr ''nix''), fe_message = (\<lambda>_. MStr ''bad''),
     fe_str = (\<lambda>_. ''boom''), fe_text = (\<lambda>_. ''?'')\<rparr>"

definition demo_err_b :: bindings where
  "demo_err_b = \<lparr>b_enum = (\<lambda>_ _. False), b_isinst = (\<lambda>_ _. False), b_sync = id, b_parts = (\<lambda>_. []),
     b_make = (\<lambda>_ _. Inl TypeError), b_attr = (\<lambda>ob f. if f = ''message'' then Inr (PStr ''bad'') else Inl TypeError),
     b_error = (\<lambda>c xs. if xs = [PStr ''bad''] then Inr 70 else Inl TypeError),
     b_convert = (\<lambda>_ _. Inl TypeError)\<rparr>"

definition demo_err_tb :: tables where
  "demo_err_tb = \<lparr>t_fields = (\<lambda>_. None), t_errors = (\<lambda>c. if c = ''Thrown''
     then Some [(''message'', Wire SCALAR ''str'' None False)] else None), t_unions = (\<lambda>_. None)\<rparr>"

theorem fault_roundtrip_witness:
  "\<exists>m n. (\<forall>k\<ge>n. faults_encode k demo_err_b demo_err_tb demo_fe
        (Wrapper ''InternalError'' ''internal'' (MStr ''x failed'') (Some (Declared ''Thrown'' 60))) () = (Inr m, ())) \<and>
    faults_decode demo_err_b demo_err_tb demo_fe m () =
      (Inr (Wrapper ''InternalError'' ''internal'' (MStr ''x failed'') (Some (Declared ''Thrown'' 70))), ())"
proof -
  have f: "flat_ok demo_err_b (Wire SCALAR ''str'' None False) (PStr ''bad'')"
    by (simp add: flat_ok_def SPELLED_def SCALARS_def)
  have "error_crosses demo_err_b demo_err_tb ''Thrown'' 60 [MStr ''bad''] 70"
    unfolding error_crosses_def
    by (rule exI[of _ "[(''message'', Wire SCALAR ''str'' None False)]"], rule exI[of _ "[PStr ''bad'']"])
       (use crosses.flat[OF f, of demo_err_tb] in \<open>simp add: demo_err_b_def demo_err_tb_def\<close>)
  then have "declared_ok demo_err_b demo_err_tb demo_fe (\<lambda>c ob. 70) ''Thrown'' 60"
    by (auto simp: declared_ok_def demo_fe_def)
  then have "fault_ok demo_err_b demo_err_tb demo_fe (\<lambda>c ob. 70)
    (Wrapper ''InternalError'' ''internal'' (MStr ''x failed'') (Some (Declared ''Thrown'' 60)))" by simp
  from fault_roundtrip[OF this] show ?thesis by simp
qed

end
