(* ===== verification/Callbacks.thy ===== *)
theory Callbacks
  imports Protocol_Props Client_Props
begin

text \<open>
  The server's side of callbacks, class \<open>Callbacks\<close> of \<open>huggorm/callbacks.py\<close>: the objects that stand for a
  client's, made once, and the calls into them that wait for a REPLY or a REFUSE. The object itself, with one
  coroutine for each virtual method, is its class and the client's id. The client's side is \<open>hook_frame\<close> of
  \<open>Client_Calls\<close>.
\<close>

definition ClientGone :: exn where "ClientGone = Raised ''ClientGone''"

record backs =
  bk_ids :: int
  bk_waiting :: "(int, bool \<times> frame option) dict"
  bk_calls :: "(int, call) dict" \<comment> \<open>the coroutines in \<open>call\<close>, by their number\<close>
  bk_proxies :: "(int, string) dict"
  bk_closed :: bool
  bk_open :: bool \<comment> \<open>the channel\<close>
  bk_sent :: "frame list"

definition new_backs :: backs where
  "new_backs = \<lparr>bk_ids = 1, bk_waiting = [], bk_calls = [], bk_proxies = [], bk_closed = False, bk_open = True, bk_sent = []\<rparr>"

record benv =
  be_stack :: nat
  be_bind :: bindings
  be_tables :: tables
  be_fault :: fault_env
  be_pack :: "mp \<Rightarrow> exn + nat list"
  be_callbacks :: "(string, call list) dict" \<comment> \<open>\<open>CALLBACKS\<close>\<close>

text \<open>The object for the client's object, made once for its id, whatever class it is asked with later.\<close>

definition back_obj :: "benv \<Rightarrow> string \<Rightarrow> int \<Rightarrow> (backs, string \<times> int) eff" where
  "back_obj env cls i = (\<lambda>b. case dict_get (bk_proxies b) i of Some k \<Rightarrow> (Inr (k, i), b)
     | None \<Rightarrow> if dict_get (be_callbacks env) cls = None then (Inl KeyError, b)
         else (Inr (cls, i), b\<lparr>bk_proxies := dict_set i cls (bk_proxies b)\<rparr>))"

definition back_send :: "benv \<Rightarrow> frame \<Rightarrow> (backs, unit) eff" where
  "back_send env fr = (\<lambda>b. case fst (send (be_pack env) fr []) of Inl e \<Rightarrow> (Inl e, b)
     | Inr _ \<Rightarrow> if bk_open b then (Inr (), b\<lparr>bk_sent := bk_sent b @ [fr]\<rparr>) else (Inl ClosedResource, b))"

definition back_args :: "benv \<Rightarrow> arg list \<Rightarrow> pyval list \<Rightarrow> exn + mp list" where
  "back_args env as vs = (case fst (map_eff (\<lambda>(a, v). encode (be_stack env) (be_bind env) (be_tables env) (Some (snd a)) v no_proxy 0 None)
         (zip as vs) ()) of Inl e \<Rightarrow> Inl e | Inr ms \<Rightarrow> if length as \<noteq> length vs then Inl ValueError else Inr ms)"

definition back_leave :: "int \<Rightarrow> backs \<Rightarrow> backs" where
  "back_leave n b = b\<lparr>bk_waiting := dict_del n (bk_waiting b), bk_calls := dict_del n (bk_calls b)\<rparr>"

text \<open>\<open>except BaseException\<close>: a call that ends before its answer tells the client to stop.\<close>

definition back_cancel :: "benv \<Rightarrow> int \<Rightarrow> backs \<Rightarrow> backs" where
  "back_cancel env n b = (case dict_get (bk_waiting b) n of None \<Rightarrow> b
     | Some (dn, fr) \<Rightarrow> back_leave n (if dn then b else snd (back_send env (CANCEL, [MInt n]) b)))"

text \<open>\<open>call\<close>, to its wait.\<close>

definition back_call :: "benv \<Rightarrow> int \<Rightarrow> call \<Rightarrow> pyval list \<Rightarrow> (backs, int) eff" where
  "back_call env i m vs = (case back_args env (ca_args m) vs of Inl e \<Rightarrow> raise e
     | Inr raw \<Rightarrow> (\<lambda>b. if bk_closed b then (Inl ClientGone, b) else
         let n = bk_ids b; b1 = b\<lparr>bk_ids := n + 1, bk_waiting := dict_set n (False, None) (bk_waiting b), bk_calls := dict_set n m (bk_calls b)\<rparr> in
         (case back_send env (CALLBACK, [MInt n, MInt i, MStr (ca_name m), MList raw]) b1 of
            (Inl e, b2) \<Rightarrow> (Inl e, back_cancel env n b2) | (Inr _, b2) \<Rightarrow> (Inr n, b2))))"

text \<open>\<open>answer\<close> and \<open>close\<close>.\<close>

definition back_answer :: "frame \<Rightarrow> backs \<Rightarrow> backs" where
  "back_answer fr b = (case snd fr of [] \<Rightarrow> b | m # ms \<Rightarrow> (case as_int m of None \<Rightarrow> b
     | Some n \<Rightarrow> if dict_get (bk_waiting b) n = None then b else b\<lparr>bk_waiting := dict_set n (True, Some fr) (bk_waiting b)\<rparr>))"

definition back_close :: "backs \<Rightarrow> backs" where
  "back_close b = b\<lparr>bk_closed := True, bk_waiting := map (\<lambda>(n, (dn, fr)). (n, (True, fr))) (bk_waiting b)\<rparr>"

text \<open>What a call that waited makes of its frame.\<close>

definition back_value :: "benv \<Rightarrow> call \<Rightarrow> frame option \<Rightarrow> trouble + pyval" where
  "back_value env m fr = (case fr of
       Some (REPLY, [_, v]) \<Rightarrow> (case fst (decode (be_bind env) (be_tables env) (ca_returns m) v no_proxy 0 None ()) of
           Inl e \<Rightarrow> Inl (Local e) | Inr x \<Rightarrow> Inr x)
     | Some (REFUSE, [_, f]) \<Rightarrow> (case fst (faults_decode (be_bind env) (be_tables env) (be_fault env) f ()) of
           Inl e \<Rightarrow> Inl (Local e) | Inr e \<Rightarrow> Inl (Told e))
     | _ \<Rightarrow> Inl (Local ClientGone))"

definition back_resume :: "benv \<Rightarrow> int \<Rightarrow> backs \<Rightarrow> ((trouble + pyval) \<times> backs) option" where
  "back_resume env n b = (case (dict_get (bk_calls b) n, dict_get (bk_waiting b) n) of
       (Some m, Some (True, fr)) \<Rightarrow> Some (back_value env m fr, back_leave n b) | _ \<Rightarrow> None)"

subsection \<open>A callback and the method it stands for\<close>

text \<open>Values that cross as themselves, without handles.\<close>

definition crosses_plain :: "bindings \<Rightarrow> tables \<Rightarrow> wire \<Rightarrow> pyval \<Rightarrow> mp \<Rightarrow> bool" where
  "crosses_plain b tb w v m \<longleftrightarrow> crosses b tb (\<lambda>_ _. False) 0 w v m"

declare decode.simps(2) [simp del]

lemma plain_encode:
  assumes "crosses_plain b tb w v m"
  shows "\<exists>n. \<forall>k\<ge>n. encode k b tb (Some w) v no_proxy 0 None () = (Inr m, ())"
  using encode_crosses[OF assms[unfolded crosses_plain_def], of "no_proxy :: unit proxy_id" None] by (simp add: encodes_def)

lemma plain_decode:
  assumes "crosses_plain b tb w v m"
  shows "decode b tb (Some w) m no_proxy 0 None () = (Inr v, ())"
  using decode_crosses[OF assms[unfolded crosses_plain_def], of "no_proxy :: unit proxy_obj" None] by (simp add: answers_def)

lemma plain_args:
  assumes "length as = length vs" "list_all2 (\<lambda>(a, v) m. crosses_plain b tb (snd a) v m) (zip as vs) ms"
  shows "\<exists>n. \<forall>k\<ge>n. map_eff (\<lambda>(a, v). encode k b tb (Some (snd a)) v no_proxy 0 None) (zip as vs) () = (Inr ms, ())"
    "map_eff (\<lambda>(a, v). decode b tb (Some (snd a)) v no_proxy 0 None) (zip as ms) () = (Inr vs, ())"
proof -
  have "\<exists>n. \<forall>k\<ge>n. list_all2 (\<lambda>p m. (case p of (a, v) \<Rightarrow> encode k b tb (Some (snd a)) v no_proxy 0 None) () = (Inr m, ())) ps ms'"
    if "list_all2 (\<lambda>(a, v) m. crosses_plain b tb (snd a) v m) ps ms'" for ps ms'
    using that
  proof (induction rule: list_all2_induct)
    case (Cons p ps m ms)
    obtain a v where p: "p = (a, v)" by fastforce
    obtain n1 where "\<forall>k\<ge>n1. encode k b tb (Some (snd a)) v no_proxy 0 None () = (Inr m, ())"
      using plain_encode[of b tb "snd a" v m] Cons.hyps(1) p by auto
    moreover obtain n2 where "\<forall>k\<ge>n2. list_all2 (\<lambda>p m. (case p of (a, v) \<Rightarrow> encode k b tb (Some (snd a)) v no_proxy 0 None) () = (Inr m, ())) ps ms"
      using Cons.IH by blast
    ultimately show ?case unfolding p by (intro exI[of _ "max n1 n2"]) simp
  qed simp
  from this[OF assms(2)] show "\<exists>n. \<forall>k\<ge>n. map_eff (\<lambda>(a, v). encode k b tb (Some (snd a)) v no_proxy 0 None) (zip as vs) () = (Inr ms, ())"
    using map_eff_pure by metis
  have "list_all2 (\<lambda>p v. (case p of (a, m) \<Rightarrow> decode b tb (Some (snd a)) m no_proxy 0 None) () = (Inr v, ())) (zip as ms) vs"
    using assms
  proof (induction as vs arbitrary: ms rule: list_induct2)
    case (Cons a as v vs)
    then obtain m ms' where "ms = m # ms'" "crosses_plain b tb (snd a) v m"
      "list_all2 (\<lambda>(a, v) m. crosses_plain b tb (snd a) v m) (zip as vs) ms'"
      by (auto simp: list_all2_Cons1)
    with Cons.IH show ?case by (simp add: plain_decode)
  qed simp
  then show "map_eff (\<lambda>(a, v). decode b tb (Some (snd a)) v no_proxy 0 None) (zip as ms) () = (Inr vs, ())"
    by (rule map_eff_pure)
qed

section \<open>The properties of callbacks\<close>

text \<open>
  A callback is the method it stands for: what the server's call answers is what the client's object answers, both
  codecs, both sides' bookkeeping and the failures included.
\<close>

lemma stack_frames [simp]:
  "be_bind (env\<lparr>be_stack := k\<rparr>) = be_bind env" "be_tables (env\<lparr>be_stack := k\<rparr>) = be_tables env" "be_fault (env\<lparr>be_stack := k\<rparr>) = be_fault env"
  "be_pack (env\<lparr>be_stack := k\<rparr>) = be_pack env" "be_stack (env\<lparr>be_stack := k\<rparr>) = k"
  by simp_all

lemma back_args_plain:
  assumes "length as = length vs" "list_all2 (\<lambda>(a, v) m. crosses_plain (be_bind env) (be_tables env) (snd a) v m) (zip as vs) ms"
  shows "\<exists>n. \<forall>k\<ge>n. back_args (env\<lparr>be_stack := k\<rparr>) as vs = Inr ms"
proof -
  obtain n where "\<forall>k\<ge>n. map_eff (\<lambda>(a, v). encode k (be_bind env) (be_tables env) (Some (snd a)) v no_proxy 0 None) (zip as vs) () = (Inr ms, ())"
    using plain_args(1)[OF assms] by blast
  then have "\<forall>k\<ge>n. back_args (env\<lparr>be_stack := k\<rparr>) as vs = Inr ms" using assms(1) by (simp add: back_args_def)
  then show ?thesis by blast
qed

lemma hook_args_plain:
  assumes "length as = length vs" "list_all2 (\<lambda>(a, v) m. crosses_plain (ce_bind env) (ce_tables env) (snd a) v m) (zip as vs) ms"
  shows "hook_args (env\<lparr>ce_stack := k\<rparr>) as ms = Inr vs"
  using plain_args(2)[OF assms] list_all2_lengthD[OF assms(2)] assms(1) by (simp add: hook_args_def)

text \<open>What the client's object answers to a call, as the server is to see it.\<close>

definition method_outcome :: "cenv \<Rightarrow> fault_env \<Rightarrow> (string \<Rightarrow> objref \<Rightarrow> objref) \<Rightarrow> pyval \<Rightarrow> string \<Rightarrow> pyval list \<Rightarrow> trouble + pyval" where
  "method_outcome env fe rb ob name vs = (case ce_hook env ob name vs of Inr v \<Rightarrow> Inr v
     | Inl e \<Rightarrow> Inl (Told (far_side fe rb (callback_failure name e))))"

definition outcome_crosses :: "cenv \<Rightarrow> (string \<Rightarrow> objref \<Rightarrow> objref) \<Rightarrow> wire \<Rightarrow> string \<Rightarrow> pyexc + pyval \<Rightarrow> bool" where
  "outcome_crosses env rb w name r \<longleftrightarrow> (case r of Inr v \<Rightarrow> (\<exists>x. crosses_plain (ce_bind env) (ce_tables env) w v x)
     | Inl e \<Rightarrow> fault_ok (ce_bind env) (ce_tables env) (ce_fault env) rb (callback_failure name e))"

lemma hook_answers:
  assumes "dict_get (nc_objects c) i = Some (cls, ob)" "dict_get (ce_backs env) cls = Some ms"
    "find (\<lambda>x. ca_name x = ca_name m) ms = Some m" "ca_returns m = Some w" "length (ca_args m) = length vs"
    "list_all2 (\<lambda>(a, v) r. crosses_plain (ce_bind env) (ce_tables env) (snd a) v r) (zip (ca_args m) vs) raw"
    "outcome_crosses env rb w (ca_name m) (ce_hook env ob (ca_name m) vs)"
    "be_bind benv = ce_bind env" "be_tables benv = ce_tables env" "be_fault benv = ce_fault env"
  shows "\<exists>k0. \<forall>k\<ge>k0. \<exists>o' x. hook_frame (env\<lparr>ce_stack := k\<rparr>) c n i (ca_name m) raw = Inr (o', [MInt n, x]) \<and> (o' = REPLY \<or> o' = REFUSE) \<and>
    back_value benv m (Some (o', [MInt n, x])) = method_outcome env (ce_fault env) rb ob (ca_name m) vs"
proof (cases "ce_hook env ob (ca_name m) vs")
  case (Inr v)
  then obtain x where x: "crosses_plain (ce_bind env) (ce_tables env) w v x" using assms(7) by (auto simp: outcome_crosses_def)
  obtain k0 where k0: "\<forall>k\<ge>k0. encode k (ce_bind env) (ce_tables env) (Some w) v no_proxy 0 None () = (Inr x, ())" using plain_encode[OF x] by blast
  have "hook_frame (env\<lparr>ce_stack := k\<rparr>) c n i (ca_name m) raw = Inr (REPLY, [MInt n, x])" if "k0 \<le> k" for k
    using assms(1-4) Inr k0 that hook_args_plain[OF assms(5,6), of k] by (simp add: hook_frame_def hook_value_def)
  moreover have "back_value benv m (Some (REPLY, [MInt n, x])) = method_outcome env (ce_fault env) rb ob (ca_name m) vs"
    using plain_decode[OF x] Inr assms(4,8,9) by (simp add: back_value_def method_outcome_def)
  ultimately show ?thesis by blast
next
  case (Inl e)
  then have f: "fault_ok (ce_bind env) (ce_tables env) (ce_fault env) rb (callback_failure (ca_name m) e)"
    using assms(7) by (simp add: outcome_crosses_def)
  obtain x k0 where x: "\<forall>k\<ge>k0. faults_encode k (ce_bind env) (ce_tables env) (ce_fault env) (callback_failure (ca_name m) e) () = (Inr x, ())"
    "faults_decode (ce_bind env) (ce_tables env) (ce_fault env) x () = (Inr (far_side (ce_fault env) rb (callback_failure (ca_name m) e)), ())"
    using fault_crosses[OF f] by blast
  have "hook_frame (env\<lparr>ce_stack := k\<rparr>) c n i (ca_name m) raw = Inr (REFUSE, [MInt n, x])" if "k0 \<le> k" for k
    using assms(1-4) Inl x(1) that hook_args_plain[OF assms(5,6), of k] by (simp add: hook_frame_def hook_value_def)
  moreover have "back_value benv m (Some (REFUSE, [MInt n, x])) = method_outcome env (ce_fault env) rb ob (ca_name m) vs"
    using x(2) Inl assms(8-10) by (simp add: back_value_def method_outcome_def)
  ultimately show ?thesis by blast
qed

lemma sent_is_read:
  assumes "sendable pack unpack fr"
  shows "\<exists>bytes. send pack fr [] = (Inr (), bytes) \<and> receive unpack bytes = (Inr fr, [])"
proof -
  obtain body where "pack (frame_mp fr) = Inr body" "length body \<le> MAX_FRAME" "unpack body = Inr (frame_mp fr)"
    using assms by (auto simp: sendable_def split: sum.splits)
  then show ?thesis using receive_sent[of body unpack fr "[]"] by (simp add: send_def)
qed

text \<open>C35. A callback is the method it stands for. When the client keeps the object, the arguments and the answer are plain values
  that cross, and the two frames of this call pack within the frame limit, the server's call sends one CALLBACK with the
  arguments encoded; the client reads that frame, and the bytes of its answer are read by the server as that answer, which given to
  the call that waits makes it return what the object's method returned. Where the method raised, the call raises that failure when it
  is a declared one, and an \<open>InternalError\<close> that carries it as its cause when it is not.\<close>

theorem callback_is_call:
  assumes "dict_get (nc_objects c) i = Some (cls, ob)" "dict_get (ce_backs env) cls = Some ms"
    "find (\<lambda>x. ca_name x = ca_name m) ms = Some m" "ca_returns m = Some w" "length (ca_args m) = length vs"
    "list_all2 (\<lambda>(a, v) r. crosses_plain (ce_bind env) (ce_tables env) (snd a) v r) (zip (ca_args m) vs) raw"
    "outcome_crosses env rb w (ca_name m) (ce_hook env ob (ca_name m) vs)"
    "be_bind benv = ce_bind env" "be_tables benv = ce_tables env" "be_fault benv = ce_fault env"
    "\<not> bk_closed b" "bk_open b"
    "sendable (be_pack benv) unpack (CALLBACK, [MInt (bk_ids b), MInt i, MStr (ca_name m), MList raw])"
    "\<exists>k1. \<forall>k\<ge>k1. \<forall>fr. hook_frame (env\<lparr>ce_stack := k\<rparr>) c (bk_ids b) i (ca_name m) raw = Inr fr \<longrightarrow> sendable (ce_pack env) unpack fr"
  shows "\<exists>k0. \<forall>k\<ge>k0. \<exists>b1 fr b2 asked told. back_call (benv\<lparr>be_stack := k\<rparr>) i m vs b = (Inr (bk_ids b), b1) \<and>
    bk_sent b1 = bk_sent b @ [(CALLBACK, [MInt (bk_ids b), MInt i, MStr (ca_name m), MList raw])] \<and>
    send (be_pack benv) (CALLBACK, [MInt (bk_ids b), MInt i, MStr (ca_name m), MList raw]) [] = (Inr (), asked) \<and>
    receive unpack asked = (Inr (CALLBACK, [MInt (bk_ids b), MInt i, MStr (ca_name m), MList raw]), []) \<and>
    hook_frame (env\<lparr>ce_stack := k\<rparr>) c (bk_ids b) i (ca_name m) raw = Inr fr \<and>
    send (ce_pack env) fr [] = (Inr (), told) \<and> receive unpack told = (Inr fr, []) \<and>
    back_resume (benv\<lparr>be_stack := k\<rparr>) (bk_ids b) (back_answer fr b1) = Some (method_outcome env (ce_fault env) rb ob (ca_name m) vs, b2)"
proof -
  let ?n = "bk_ids b"
  let ?b0 = "b\<lparr>bk_ids := ?n + 1, bk_waiting := dict_set ?n (False, None) (bk_waiting b), bk_calls := dict_set ?n m (bk_calls b)\<rparr>"
  let ?fr = "(CALLBACK, [MInt ?n, MInt i, MStr (ca_name m), MList raw])"
  let ?b1 = "?b0\<lparr>bk_sent := bk_sent b @ [?fr]\<rparr>"
  obtain k1 where k1: "\<forall>k\<ge>k1. back_args (benv\<lparr>be_stack := k\<rparr>) (ca_args m) vs = Inr raw"
    using back_args_plain[of "ca_args m" vs benv raw] assms(5,6,8,9) by auto
  obtain k2 where k2: "\<And>k. k \<ge> k2 \<Longrightarrow> \<exists>o' x. hook_frame (env\<lparr>ce_stack := k\<rparr>) c ?n i (ca_name m) raw = Inr (o', [MInt ?n, x]) \<and>
      (o' = REPLY \<or> o' = REFUSE) \<and> back_value benv m (Some (o', [MInt ?n, x])) = method_outcome env (ce_fault env) rb ob (ca_name m) vs"
    using hook_answers[OF assms(1-10), of ?n] by blast
  obtain k3 where k3: "\<And>k fr. k \<ge> k3 \<Longrightarrow> hook_frame (env\<lparr>ce_stack := k\<rparr>) c ?n i (ca_name m) raw = Inr fr \<Longrightarrow> sendable (ce_pack env) unpack fr"
    using assms(14) by blast
  obtain asked where ask: "send (be_pack benv) ?fr [] = (Inr (), asked)" "receive unpack asked = (Inr ?fr, [])"
    using sent_is_read[OF assms(13)] by blast
  then have sends: "back_send (benv\<lparr>be_stack := k\<rparr>) ?fr ?b0 = (Inr (), ?b1)" for k
    using assms(12) by (simp add: back_send_def)
  have "\<exists>fr b2 told. back_call (benv\<lparr>be_stack := k\<rparr>) i m vs b = (Inr ?n, ?b1) \<and> bk_sent ?b1 = bk_sent b @ [?fr] \<and>
      hook_frame (env\<lparr>ce_stack := k\<rparr>) c ?n i (ca_name m) raw = Inr fr \<and>
      send (ce_pack env) fr [] = (Inr (), told) \<and> receive unpack told = (Inr fr, []) \<and>
      back_resume (benv\<lparr>be_stack := k\<rparr>) ?n (back_answer fr ?b1) = Some (method_outcome env (ce_fault env) rb ob (ca_name m) vs, b2)"
    if k: "max k1 (max k2 k3) \<le> k" for k
  proof -
    have c: "back_call (benv\<lparr>be_stack := k\<rparr>) i m vs b = (Inr ?n, ?b1)"
      using k1 k assms(11) sends[of k] by (simp add: back_call_def Let_def)
    obtain o' x where h: "hook_frame (env\<lparr>ce_stack := k\<rparr>) c ?n i (ca_name m) raw = Inr (o', [MInt ?n, x])"
      "back_value benv m (Some (o', [MInt ?n, x])) = method_outcome env (ce_fault env) rb ob (ca_name m) vs"
      using k2[of k] k by auto
    obtain told where t: "send (ce_pack env) (o', [MInt ?n, x]) [] = (Inr (), told)" "receive unpack told = (Inr (o', [MInt ?n, x]), [])"
      using sent_is_read[OF k3[OF _ h(1)]] k by auto
    have v: "back_value (benv\<lparr>be_stack := k\<rparr>) m fr = back_value benv m fr" for fr unfolding back_value_def stack_frames ..
    have "back_resume (benv\<lparr>be_stack := k\<rparr>) ?n (back_answer (o', [MInt ?n, x]) ?b1)
        = Some (method_outcome env (ce_fault env) rb ob (ca_name m) vs, back_leave ?n (back_answer (o', [MInt ?n, x]) ?b1))"
      using h(2) by (simp add: back_resume_def back_answer_def v)
    with c h(1) t show ?thesis by auto
  qed
  then show ?thesis using ask by blast
qed

text \<open>The bytes of MessagePack for small numbers, short strings and short lists: a packing both sides of the example can share.\<close>

fun mini_pack :: "mp \<Rightarrow> exn + nat list" where
  "mini_pack (MInt i) = (if 0 \<le> i \<and> i < 128 then Inr [nat i] else Inl OverflowError)"
| "mini_pack (MStr s) = (if length s < 32 then Inr ((160 + length s) # map of_char s) else Inl OverflowError)"
| "mini_pack (MList xs) = (if length xs < 16 then res_bind (map_res mini_pack xs) (\<lambda>bs. Inr ((144 + length xs) # concat bs)) else Inl OverflowError)"
| "mini_pack x = Inl TypeError"

fun mini_read :: "nat \<Rightarrow> nat list \<Rightarrow> (mp \<times> nat list) option" and mini_reads :: "nat \<Rightarrow> nat \<Rightarrow> nat list \<Rightarrow> (mp list \<times> nat list) option" where
  "mini_read 0 bs = None"
| "mini_read (Suc k) [] = None"
| "mini_read (Suc k) (b # bs) = (if b < 128 then Some (MInt (int b), bs)
     else if 144 \<le> b \<and> b < 160 then map_option (\<lambda>(xs, r). (MList xs, r)) (mini_reads k (b - 144) bs)
     else if 160 \<le> b \<and> b < 192 \<and> b - 160 \<le> length bs then Some (MStr (map char_of (take (b - 160) bs)), drop (b - 160) bs)
     else None)"
| "mini_reads k 0 bs = Some ([], bs)"
| "mini_reads 0 (Suc n) bs = None"
| "mini_reads (Suc k) (Suc n) bs = (case mini_read k bs of None \<Rightarrow> None
     | Some (x, r) \<Rightarrow> map_option (\<lambda>(xs, r). (x # xs, r)) (mini_reads k n r))"

definition mini_unpack :: "nat list \<Rightarrow> exn + mp" where
  "mini_unpack bs = (case mini_read (2 * length bs) bs of Some (x, []) \<Rightarrow> Inr x | _ \<Rightarrow> Inl ValueError)"

definition w_text :: wire where
  "w_text = Wire SCALAR ''str'' None False"

definition demo_hook :: call where
  "demo_hook = \<lparr>ca_index = 0, ca_name = ''read'', ca_args = [(''path'', w_text)], ca_returns = Some w_text, ca_sub = None\<rparr>"

definition demo_hook_env :: cenv where
  "demo_hook_env = demo_client_env\<lparr>ce_pack := mini_pack, ce_backs := [(''Accessor'', [demo_hook])],
     ce_hook := (\<lambda>ob name vs. case vs of [PStr s] \<Rightarrow> Inr (PStr (s @ ''!'')) | _ \<Rightarrow> Inr PNone)\<rparr>"

definition demo_benv :: benv where
  "demo_benv = \<lparr>be_stack = 0, be_bind = ce_bind demo_hook_env, be_tables = ce_tables demo_hook_env, be_fault = ce_fault demo_hook_env,
     be_pack = mini_pack, be_callbacks = [(''Accessor'', [demo_hook])]\<rparr>"

lemma text_crosses: "crosses_plain b tb w_text (PStr s) (MStr s)"
proof -
  have "flat_ok b w_text (PStr s)" by (simp add: flat_ok_def w_text_def SPELLED_def SCALARS_def)
  from crosses.flat[OF this] show ?thesis by (simp add: crosses_plain_def)
qed

definition demo_keeper :: client where
  "demo_keeper = (new_client True)\<lparr>nc_objects := [(7, (''Accessor'', PNone))]\<rparr>"

lemma demo_hook_answer: "hook_frame (demo_hook_env\<lparr>ce_stack := Suc k\<rparr>) demo_keeper 1 7 ''read'' [MStr ''f''] = Inr (REPLY, [MInt 1, MStr ''f!''])"
proof -
  obtain k0 where k0: "\<forall>k\<ge>k0. encode k (ce_bind demo_hook_env) (ce_tables demo_hook_env) (Some w_text) (PStr ''f!'') no_proxy 0 None () = (Inr (MStr ''f!''), ())"
    using plain_encode[OF text_crosses[of "ce_bind demo_hook_env" "ce_tables demo_hook_env" "''f!''"]] by blast
  have e: "encode (Suc k) (ce_bind demo_hook_env) (ce_tables demo_hook_env) (Some w_text) (PStr ''f!'') no_proxy 0 None () = (Inr (MStr ''f!''), ())"
    using k0[rule_format, of "Suc k0"] by (simp add: w_text_def SPELLED_def SCALARS_def)
  have a: "hook_args (demo_hook_env\<lparr>ce_stack := Suc k\<rparr>) [(''path'', w_text)] [MStr ''f''] = Inr [PStr ''f'']"
    by (rule hook_args_plain) (simp_all add: text_crosses)
  have "hook_value (demo_hook_env\<lparr>ce_stack := Suc k\<rparr>) demo_keeper 7 ''read'' [MStr ''f''] = Inr (MStr ''f!'')"
    using e a by (simp add: hook_value_def demo_keeper_def demo_hook_env_def demo_hook_def)
  then show ?thesis by (simp add: hook_frame_def)
qed

theorem callback_is_call_witness:
  "\<exists>k0. \<forall>k\<ge>k0. \<exists>b1 fr b2 told. back_call (demo_benv\<lparr>be_stack := k\<rparr>) 7 demo_hook [PStr ''f''] new_backs = (Inr 1, b1) \<and>
    hook_frame (demo_hook_env\<lparr>ce_stack := k\<rparr>) demo_keeper 1 7 ''read'' [MStr ''f''] = Inr fr \<and>
    send mini_pack fr [] = (Inr (), told) \<and> receive mini_unpack told = (Inr fr, []) \<and>
    back_resume (demo_benv\<lparr>be_stack := k\<rparr>) 1 (back_answer fr b1) = Some (Inr (PStr ''f!''), b2)"
proof -
  have o: "outcome_crosses demo_hook_env (\<lambda>c ob. ob) w_text (ca_name demo_hook) (ce_hook demo_hook_env PNone (ca_name demo_hook) [PStr ''f''])"
    using text_crosses[of _ _ "''f!''"] by (auto simp: outcome_crosses_def demo_hook_env_def)
  have "case mini_pack (frame_mp (CALLBACK, [MInt 1, MInt 7, MStr ''read'', MList [MStr ''f'']])) of Inl e \<Rightarrow> False
     | Inr body \<Rightarrow> length body < 20 \<and> mini_unpack body = Inr (frame_mp (CALLBACK, [MInt 1, MInt 7, MStr ''read'', MList [MStr ''f'']]))" by code_simp
  then have req: "sendable mini_pack mini_unpack (CALLBACK, [MInt 1, MInt 7, MStr ''read'', MList [MStr ''f'']])" by (auto simp: sendable_def MAX_FRAME_def split: sum.splits)
  have "case mini_pack (frame_mp (REPLY, [MInt 1, MStr ''f!''])) of Inl e \<Rightarrow> False
     | Inr body \<Rightarrow> length body < 20 \<and> mini_unpack body = Inr (frame_mp (REPLY, [MInt 1, MStr ''f!'']))" by code_simp
  then have rep: "sendable mini_pack mini_unpack (REPLY, [MInt 1, MStr ''f!''])" by (auto simp: sendable_def MAX_FRAME_def split: sum.splits)
  have ans: "\<exists>k1. \<forall>k\<ge>k1. \<forall>fr. hook_frame (demo_hook_env\<lparr>ce_stack := k\<rparr>) demo_keeper 1 7 ''read'' [MStr ''f''] = Inr fr
      \<longrightarrow> sendable mini_pack mini_unpack fr"
  proof (intro exI[of _ 1] allI impI)
    fix k fr assume "1 \<le> (k :: nat)" "hook_frame (demo_hook_env\<lparr>ce_stack := k\<rparr>) demo_keeper 1 7 ''read'' [MStr ''f''] = Inr fr"
    then show "sendable mini_pack mini_unpack fr" using demo_hook_answer[of "k - 1"] rep by simp
  qed
  have names: "ca_name demo_hook = ''read''" "bk_ids new_backs = 1" "be_pack demo_benv = mini_pack" "ce_pack demo_hook_env = mini_pack"
    by (simp_all add: demo_hook_def new_backs_def demo_benv_def demo_hook_env_def)
  have "\<exists>k0. \<forall>k\<ge>k0. \<exists>b1 fr b2 asked told. back_call (demo_benv\<lparr>be_stack := k\<rparr>) 7 demo_hook [PStr ''f''] new_backs = (Inr (bk_ids new_backs), b1) \<and>
    bk_sent b1 = bk_sent new_backs @ [(CALLBACK, [MInt (bk_ids new_backs), MInt 7, MStr (ca_name demo_hook), MList [MStr ''f'']])] \<and>
    send (be_pack demo_benv) (CALLBACK, [MInt (bk_ids new_backs), MInt 7, MStr (ca_name demo_hook), MList [MStr ''f'']]) [] = (Inr (), asked) \<and>
    receive mini_unpack asked = (Inr (CALLBACK, [MInt (bk_ids new_backs), MInt 7, MStr (ca_name demo_hook), MList [MStr ''f'']]), []) \<and>
    hook_frame (demo_hook_env\<lparr>ce_stack := k\<rparr>) demo_keeper (bk_ids new_backs) 7 (ca_name demo_hook) [MStr ''f''] = Inr fr \<and>
    send (ce_pack demo_hook_env) fr [] = (Inr (), told) \<and> receive mini_unpack told = (Inr fr, []) \<and>
    back_resume (demo_benv\<lparr>be_stack := k\<rparr>) (bk_ids new_backs) (back_answer fr b1)
      = Some (method_outcome demo_hook_env (ce_fault demo_hook_env) (\<lambda>c ob. ob) PNone (ca_name demo_hook) [PStr ''f''], b2)"
    by (rule callback_is_call[where cls = "''Accessor''" and ms = "[demo_hook]", OF _ _ _ _ _ _ o])
      (use req ans names in \<open>simp_all add: demo_keeper_def demo_hook_env_def demo_benv_def demo_hook_def text_crosses new_backs_def\<close>)
  moreover have "method_outcome demo_hook_env (ce_fault demo_hook_env) (\<lambda>c ob. ob) PNone (ca_name demo_hook) [PStr ''f''] = Inr (PStr ''f!'')"
    by (simp add: method_outcome_def demo_hook_env_def)
  ultimately show ?thesis unfolding names by metis
qed

end
