(* ===== verification/Session.thy ===== *)
theory Session
  imports Client_Calls
begin

text \<open>
  The sessions of \<open>huggorm/session.py\<close>: the stores and evaluators a session made, who may be made from what, what
  \<open>detach\<close> and \<open>attach\<close> track, and \<open>aclose\<close>, which waits for each object in turn, so other tasks run between two
  closes. \<open>AsyncSession\<close> is local and makes wrappers at once; \<open>AsyncRemoteSession\<close> makes its objects with the client of
  \<open>Client\<close>. Last, what a \<open>capture()\<close> keeps of the batches it reads.
\<close>

subsection \<open>State\<close>

text \<open>Where \<open>aclose\<close> is: the objects still to close, the failures so far, and whether the session had an evaluator.\<close>

datatype closing =
    Not_closing
  | Closing_evals "objref list" "exn list" bool
  | Collecting "exn list"
  | Closing_stores "objref list" "exn list"
  | Asking_alive "exn list"
  | Closed_with "exn list"
  | Broken_off exn

record session =
  ss_remote :: bool
  ss_uri :: string
  ss_stores :: "objref list"
  ss_evals :: "objref list"
  ss_closed :: bool
  ss_at :: closing
  ss_log :: "(objref \<times> exn option) list" \<comment> \<open>what \<open>aclose\<close> has closed, and how each close ended\<close>
  ss_alive :: "bool option" \<comment> \<open>what the server answered to \<open>alive\<close>, when \<open>aclose\<close> asked\<close>

definition local_session :: "string \<Rightarrow> session" where
  "local_session uri = \<lparr>ss_remote = False, ss_uri = uri, ss_stores = [], ss_evals = [], ss_closed = False, ss_at = Not_closing, ss_log = [], ss_alive = None\<rparr>"

text \<open>A remote session takes a client that is bound.\<close>

definition remote_session :: "client \<Rightarrow> string \<Rightarrow> exn + session" where
  "remote_session c uri = (if nc_token c = None then Inl ValueError
     else Inr \<lparr>ss_remote = True, ss_uri = uri, ss_stores = [], ss_evals = [], ss_closed = False, ss_at = Not_closing, ss_log = [], ss_alive = None\<rparr>)"

type_synonym 'a ss = "(session, 'a) eff"

subsection \<open>Making objects\<close>

definition store_uri :: "string option \<Rightarrow> session \<Rightarrow> string" where
  "store_uri uri s = (case uri of None \<Rightarrow> ss_uri s | Some u \<Rightarrow> u)"

definition track_store :: "objref \<Rightarrow> session \<Rightarrow> session" where
  "track_store ob s = s\<lparr>ss_stores := set_add ob (ss_stores s)\<rparr>"

definition track_eval :: "objref \<Rightarrow> session \<Rightarrow> session" where
  "track_eval ob s = s\<lparr>ss_evals := set_add ob (ss_evals s)\<rparr>"

text \<open>The check of \<open>eval\<close>: a store of another session is refused.\<close>

definition eval_check :: "objref \<Rightarrow> unit ss" where
  "eval_check store = (\<lambda>s. if store \<in> set (ss_stores s) then (Inr (), s) else (Inl ValueError, s))"

text \<open>\<open>AsyncSession.store\<close> and \<open>eval\<close>: the wrapper builds lazily and comes from outside.\<close>

definition session_store :: "objref \<Rightarrow> objref ss" where
  "session_store ob = (\<lambda>s. (Inr ob, track_store ob s))"

definition session_eval :: "objref \<Rightarrow> objref \<Rightarrow> objref ss" where
  "session_eval store ob = bind_eff (eval_check store) (\<lambda>_. \<lambda>s. (Inr ob, track_eval ob s))"

text \<open>The remote ones: a request of the client, and the object its answer makes.\<close>

definition remote_store :: "cenv \<Rightarrow> string option \<Rightarrow> session \<Rightarrow> int cl" where
  "remote_store env uri s = acquire_ask env ''Store'' [PStr (store_uri uri s)]"

definition remote_eval :: "cenv \<Rightarrow> objref \<Rightarrow> pyval \<Rightarrow> pyval \<Rightarrow> session \<Rightarrow> int cl" where
  "remote_eval env store settings build_store s = (case fst (eval_check store s) of Inl e \<Rightarrow> raise e
     | Inr _ \<Rightarrow> acquire_ask env ''EvalState'' [PObj store, settings, build_store])"

definition remote_made :: "bool \<Rightarrow> result \<Rightarrow> session \<Rightarrow> session" where
  "remote_made is_store r s = (case r of AVal (PObj ob) \<Rightarrow> if is_store then track_store ob s else track_eval ob s | _ \<Rightarrow> s)"

text \<open>\<open>attach\<close>, for the two classes a session holds.\<close>

definition attach_object :: "cenv \<Rightarrow> string \<Rightarrow> hid \<Rightarrow> session \<Rightarrow> client \<Rightarrow> (exn + objref) \<times> session \<times> client" where
  "attach_object env cls h s c = (if cls \<noteq> ''Store'' \<and> cls \<noteq> ''EvalState'' then (Inl ValueError, s, c)
     else (case client_proxy env cls h c of (Inl e, c1) \<Rightarrow> (Inl e, s, c1)
       | (Inr ob, c1) \<Rightarrow> (Inr ob, if cls = ''Store'' then track_store ob s else track_eval ob s, c1)))"

text \<open>The end of \<open>detach\<close>: what the server detached is no longer the session's to close.\<close>

definition detached :: "bool \<Rightarrow> objref option \<Rightarrow> bool \<Rightarrow> session \<Rightarrow> session" where
  "detached ok obj all s = (if \<not> ok then s
     else if all then s\<lparr>ss_evals := [], ss_stores := []\<rparr>
     else case obj of None \<Rightarrow> s
       | Some ob \<Rightarrow> s\<lparr>ss_evals := set_discard ob (ss_evals s), ss_stores := set_discard ob (ss_stores s)\<rparr>)"

subsection \<open>Closing\<close>

text \<open>What comes after the last evaluator and after the last store. A local session collects garbage in between when it
  had an evaluator; a remote one asks whether the server still knows it when something failed.\<close>

definition after_evals :: "exn list \<Rightarrow> bool \<Rightarrow> session \<Rightarrow> session" where
  "after_evals errs had s = (let s1 = s\<lparr>ss_evals := []\<rparr> in
     if had \<and> \<not> ss_remote s then s1\<lparr>ss_at := Collecting errs\<rparr> else s1\<lparr>ss_at := Closing_stores (ss_stores s) errs\<rparr>)"

definition after_stores :: "exn list \<Rightarrow> session \<Rightarrow> session" where
  "after_stores errs s = (let s1 = s\<lparr>ss_stores := []\<rparr> in
     if errs \<noteq> [] \<and> ss_remote s then s1\<lparr>ss_at := Asking_alive errs\<rparr> else s1\<lparr>ss_at := Closed_with errs\<rparr>)"

definition close_start :: "session \<Rightarrow> session" where
  "close_start s = (if ss_closed s then s else s\<lparr>ss_closed := True, ss_at := Closing_evals (ss_evals s) [] (ss_evals s \<noteq> [])\<rparr>)"

text \<open>Loops that are through are left at the next step.\<close>

definition close_move :: "session \<Rightarrow> session" where
  "close_move s = (case ss_at s of
       Closing_evals [] errs had \<Rightarrow> after_evals errs had s
     | Closing_stores [] errs \<Rightarrow> after_stores errs s
     | _ \<Rightarrow> s)"

text \<open>The close that is awaited ends, with a failure or without. A remote object that was released already is skipped.\<close>

definition note_close :: "objref \<Rightarrow> exn option \<Rightarrow> session \<Rightarrow> session" where
  "note_close ob r s = s\<lparr>ss_log := ss_log s @ [(ob, r)]\<rparr>"

definition with_error :: "exn option \<Rightarrow> exn list \<Rightarrow> exn list" where
  "with_error r errs = (case r of None \<Rightarrow> errs | Some e \<Rightarrow> errs @ [e])"

definition close_next :: "exn option \<Rightarrow> session \<Rightarrow> session" where
  "close_next r s = (case ss_at s of
       Closing_evals (ob # obs) errs had \<Rightarrow> (note_close ob r s)\<lparr>ss_at := Closing_evals obs (with_error r errs) had\<rparr>
     | Closing_stores (ob # obs) errs \<Rightarrow> (note_close ob r s)\<lparr>ss_at := Closing_stores obs (with_error r errs)\<rparr>
     | _ \<Rightarrow> s)"

text \<open>\<open>collect_garbage\<close> ends, and the question to the server. A handle released or a connection swept is no failure.\<close>

definition collected :: "exn option \<Rightarrow> session \<Rightarrow> session" where
  "collected r s = (case ss_at s of Collecting errs \<Rightarrow> (case r of None \<Rightarrow> s\<lparr>ss_at := Closing_stores (ss_stores s) errs\<rparr>
       | Some e \<Rightarrow> s\<lparr>ss_at := Broken_off e\<rparr>) | _ \<Rightarrow> s)"

definition alive_said :: "exn + bool \<Rightarrow> session \<Rightarrow> session" where
  "alive_said r s = (case ss_at s of Asking_alive errs \<Rightarrow> (case r of Inl e \<Rightarrow> s\<lparr>ss_at := Broken_off e\<rparr>
       | Inr known \<Rightarrow> s\<lparr>ss_at := Closed_with (if known then errs else []), ss_alive := Some known\<rparr>) | _ \<Rightarrow> s)"

text \<open>The task that closes is cancelled at an await.\<close>

definition Cancelled_error :: exn where "Cancelled_error = Raised ''CancelledError''"

definition close_cancelled :: "session \<Rightarrow> session" where
  "close_cancelled s = (case ss_at s of Not_closing \<Rightarrow> s | Closed_with errs \<Rightarrow> s | Broken_off e \<Rightarrow> s
     | _ \<Rightarrow> s\<lparr>ss_at := Broken_off Cancelled_error\<rparr>)"

text \<open>What \<open>aclose\<close> raises: nothing, the one failure, or a group of them.\<close>

definition close_raises :: "exn list \<Rightarrow> exn + unit" where
  "close_raises errs = (case errs of [] \<Rightarrow> Inr () | [e] \<Rightarrow> Inl e | _ \<Rightarrow> Inl (Raised ''ExceptionGroup''))"

subsection \<open>Steps\<close>

text \<open>What a task that is not a detach does to a session, and a run, with the stores that were detached in it.\<close>

inductive session_step :: "session \<Rightarrow> session \<Rightarrow> bool" where
  stored: "session_step s (track_store ob s)"
| evaluator: "store \<in> set (ss_stores s) \<Longrightarrow> session_step s (track_eval ob s)"
| attached: "ss_remote s \<Longrightarrow> session_step s (track_eval ob s)"
| start: "session_step s (close_start s)"
| move: "session_step s (close_move s)"
| closed: "session_step s (close_next r s)"
| garbage: "session_step s (collected r s)"
| said: "session_step s (alive_said a s)"
| cancelled: "session_step s (close_cancelled s)"

inductive session_run :: "session \<Rightarrow> objref set \<Rightarrow> session \<Rightarrow> bool" where
  nil: "session_run s {} s"
| step: "session_run s D s1 \<Longrightarrow> session_step s1 s2 \<Longrightarrow> session_run s D s2"
| detach: "session_run s D s1 \<Longrightarrow> ss_remote s1 \<Longrightarrow>
    session_run s (D \<union> (set (ss_stores s1) - set (ss_stores (detached True obj all s1)))) (detached True obj all s1)"

subsection \<open>Capturing\<close>

record 'r captured =
  cp_records :: "'r list"
  cp_dropped :: int

definition take_batch :: "'r list \<Rightarrow> int \<Rightarrow> 'r captured \<Rightarrow> 'r captured" where
  "take_batch rs n out = out\<lparr>cp_records := cp_records out @ rs, cp_dropped := max (cp_dropped out) n\<rparr>"

fun before_marker :: "('r \<Rightarrow> bool) \<Rightarrow> 'r list \<Rightarrow> 'r list option" where
  "before_marker mark [] = None"
| "before_marker mark (r # rs) = (if mark r then Some [] else map_option (Cons r) (before_marker mark rs))"

text \<open>The capture of a state reads batches until the marker its barrier queued.\<close>

fun capture_state :: "('r \<Rightarrow> bool) \<Rightarrow> ('r list \<times> int) list \<Rightarrow> 'r captured \<Rightarrow> (exn + unit) \<times> 'r captured" where
  "capture_state mark [] out = (Inl RuntimeError, out)"
| "capture_state mark ((rs, n) # bs) out = (case before_marker mark rs of
       Some pre \<Rightarrow> (Inr (), take_batch pre n out)
     | None \<Rightarrow> capture_state mark bs (take_batch rs n out))"

definition finalized_of :: "('r \<Rightarrow> string) \<Rightarrow> ('r \<Rightarrow> int) \<Rightarrow> int \<Rightarrow> 'r \<Rightarrow> bool" where
  "finalized_of action request barrier r \<longleftrightarrow> action r = ''finalized'' \<and> request r = barrier"

text \<open>The capture of the process stream reads what comes for a while.\<close>

definition capture_process :: "('r list \<times> int) list \<Rightarrow> 'r captured \<Rightarrow> 'r captured" where
  "capture_process bs out = fold (\<lambda>(rs, n). take_batch rs n) bs out"

text \<open>The local capture: a reader that joins before the block and drains once after it.\<close>

definition capture_end :: "('w, 's, 'r) log_source \<Rightarrow> nat \<Rightarrow> 'r captured \<Rightarrow> ('w, 's, 'r, 'r captured) fan_eff" where
  "capture_end ls i out = bind_eff (reader_drain ls i) (\<lambda>rs. bind_eff (\<lambda>(w, f). (Inr (reader_dropped i f), (w, f))) (\<lambda>n.
     bind_eff (reader_close ls i) (\<lambda>_. ret (take_batch rs n out))))"

section \<open>The properties of sessions\<close>

text \<open>
  What a session promises: a close that comes to its end has closed every evaluator and then every store, each
  once, whatever fails, and raises exactly what failed; a capture ends at its marker with everything before it. Then what is
  lost: what is made while a session closes, and what is left when the close is broken off.
\<close>

definition failures :: "(objref \<times> exn option) list \<Rightarrow> exn list" where
  "failures ends = concat (map (\<lambda>p. with_error (snd p) []) ends)"

lemma failures_note: "failures (ends @ [(ob, r)]) = with_error r (failures ends)"
  by (simp add: failures_def with_error_def split: option.split)

definition close_inv :: "session \<Rightarrow> objref set \<Rightarrow> session \<Rightarrow> bool" where
  "close_inv s0 D s \<longleftrightarrow> ss_closed s \<and> (ss_alive s = None \<or> (\<exists>errs. ss_at s = Closed_with errs)) \<and> (case ss_at s of
       Not_closing \<Rightarrow> False
     | Closing_evals todo errs had \<Rightarrow> ss_evals s0 = map fst (ss_log s) @ todo \<and> errs = failures (ss_log s) \<and>
         set (ss_stores s0) \<subseteq> set (ss_stores s) \<union> D
     | Collecting errs \<Rightarrow> ss_evals s0 = map fst (ss_log s) \<and> errs = failures (ss_log s) \<and> set (ss_stores s0) \<subseteq> set (ss_stores s) \<union> D
     | Closing_stores todo errs \<Rightarrow> errs = failures (ss_log s) \<and>
         (\<exists>stores. map fst (ss_log s) @ todo = ss_evals s0 @ stores \<and> set (ss_stores s0) \<subseteq> set stores \<union> D)
     | Asking_alive errs \<Rightarrow> ss_remote s \<and> errs \<noteq> [] \<and> errs = failures (ss_log s) \<and>
         (\<exists>stores. map fst (ss_log s) = ss_evals s0 @ stores \<and> set (ss_stores s0) \<subseteq> set stores \<union> D)
     | Closed_with errs \<Rightarrow> errs = (if ss_alive s = Some False then [] else failures (ss_log s)) \<and>
         (ss_remote s \<and> failures (ss_log s) \<noteq> [] \<longleftrightarrow> ss_alive s \<noteq> None) \<and>
         (\<exists>stores. map fst (ss_log s) = ss_evals s0 @ stores \<and> set (ss_stores s0) \<subseteq> set stores \<union> D)
     | Broken_off e \<Rightarrow> True)"

lemma close_inv_start:
  assumes "\<not> ss_closed s0" "ss_log s0 = []" "ss_alive s0 = None"
  shows "close_inv s0 {} (close_start s0)"
  using assms by (simp add: close_inv_def close_start_def failures_def)

lemma close_inv_step:
  assumes "session_step s s'" "close_inv s0 D s"
  shows "close_inv s0 D s'"
  using assms(1)
proof cases
  case (stored ob)
  then show ?thesis using assms(2) by (auto simp: close_inv_def track_store_def split: closing.splits)
next
  case (evaluator store ob)
  then show ?thesis using assms(2) by (auto simp: close_inv_def track_eval_def split: closing.splits)
next
  case (attached ob)
  then show ?thesis using assms(2) by (auto simp: close_inv_def track_eval_def split: closing.splits)
next
  case start
  then show ?thesis using assms(2) by (auto simp: close_inv_def close_start_def)
next
  case move
  then show ?thesis using assms(2)
    by (auto simp: close_inv_def close_move_def after_evals_def after_stores_def Let_def split: closing.splits list.splits)
next
  case (closed r)
  then show ?thesis using assms(2)
    by (auto simp: close_inv_def close_next_def note_close_def failures_note split: closing.splits list.splits)
next
  case (garbage r)
  then show ?thesis using assms(2) by (auto simp: close_inv_def collected_def split: closing.splits option.splits)
next
  case (said a)
  then show ?thesis using assms(2) by (auto simp: close_inv_def alive_said_def split: closing.splits sum.splits)
next
  case cancelled
  then show ?thesis using assms(2) by (auto simp: close_inv_def close_cancelled_def split: closing.splits)
qed

lemma still_covered: "A \<subseteq> S \<union> D \<Longrightarrow> A \<subseteq> S \<union> (D \<union> Z)"
  by blast

lemma close_inv_detach:
  assumes "close_inv s0 D s"
  shows "close_inv s0 (D \<union> (set (ss_stores s) - set (ss_stores (detached True obj all s)))) (detached True obj all s)"
proof -
  have f: "ss_at (detached True obj all s) = ss_at s" "ss_log (detached True obj all s) = ss_log s" "ss_closed (detached True obj all s) = ss_closed s"
    "ss_remote (detached True obj all s) = ss_remote s" "ss_alive (detached True obj all s) = ss_alive s"
    by (simp_all add: detached_def split: option.split)
  have i: "ss_closed s" and c: "case ss_at s of Not_closing \<Rightarrow> False | _ \<Rightarrow> True" using assms
    by (auto simp: close_inv_def split: closing.splits)
  show ?thesis
  proof (cases "ss_at s")
    case (Closing_evals x21 x22 x23)
    then show ?thesis using assms by (auto simp: close_inv_def f)
  next
    case (Collecting x3)
    then show ?thesis using assms by (auto simp: close_inv_def f)
  next
    case (Closing_stores x41 x42)
    then show ?thesis using assms unfolding close_inv_def f by (force intro: still_covered)
  next
    case (Asking_alive x5)
    then show ?thesis using assms unfolding close_inv_def f by (force intro: still_covered)
  next
    case (Closed_with x6)
    then show ?thesis using assms unfolding close_inv_def f by (force intro: still_covered)
  qed (use c i assms in \<open>simp_all add: close_inv_def f\<close>)
qed

lemma close_inv_run: "session_run s1 D s2 \<Longrightarrow> s1 = close_start s0 \<Longrightarrow> \<not> ss_closed s0 \<Longrightarrow> ss_log s0 = [] \<Longrightarrow> ss_alive s0 = None \<Longrightarrow> close_inv s0 D s2"
  by (induction rule: session_run.induct) (auto intro: close_inv_start close_inv_step close_inv_detach)

text \<open>C36. A close that comes to its end has closed, in this order, every evaluator the session tracked when it began and then
  stores, among them every store it tracked then that was not detached meanwhile, whatever the closes raised and
  whatever else the session was used for in between. It raises exactly what failed: nothing, the one failure or all of them as a
  group; with the one exception of a remote session that asked and was told the server no longer knows its connection, which
  raises nothing. It asks exactly when it is remote and something failed.\<close>

theorem session_closes:
  assumes "session_run (close_start s0) D s" "\<not> ss_closed s0" "ss_log s0 = []" "ss_alive s0 = None" "ss_at s = Closed_with errs"
  shows "(\<exists>stores. map fst (ss_log s) = ss_evals s0 @ stores \<and> set (ss_stores s0) \<subseteq> set stores \<union> D)
    \<and> errs = (if ss_alive s = Some False then [] else failures (ss_log s))
    \<and> (ss_alive s \<noteq> None \<longleftrightarrow> ss_remote s \<and> failures (ss_log s) \<noteq> [])
    \<and> close_raises errs = (if ss_alive s = Some False \<or> failures (ss_log s) = [] then Inr ()
        else Inl (if length (failures (ss_log s)) = 1 then hd (failures (ss_log s)) else Raised ''ExceptionGroup''))"
proof -
  have i: "close_inv s0 D s" by (rule close_inv_run[OF assms(1) refl assms(2-4)])
  have e: "errs = (if ss_alive s = Some False then [] else failures (ss_log s))" using i assms(5) by (simp add: close_inv_def)
  have r: "close_raises es = (if es = [] then Inr () else Inl (if length es = 1 then hd es else Raised ''ExceptionGroup''))" for es
    by (cases es; cases "tl es") (simp_all add: close_raises_def)
  have "close_raises errs = (if ss_alive s = Some False \<or> failures (ss_log s) = [] then Inr ()
      else Inl (if length (failures (ss_log s)) = 1 then hd (failures (ss_log s)) else Raised ''ExceptionGroup''))"
    unfolding r e by simp
  then show ?thesis using i e assms(5) by (auto simp: close_inv_def)
qed

subsection \<open>A close that is left alone\<close>

text \<open>One step of a close nothing interrupts: each object's close ends as \<open>res\<close> says, \<open>collect_garbage\<close> returns, and \<open>known\<close> is
  what the server answers.\<close>

definition close_tick :: "(objref \<Rightarrow> exn option) \<Rightarrow> bool \<Rightarrow> session \<Rightarrow> session" where
  "close_tick res known s = (case ss_at s of
       Closing_evals (ob # _) errs had \<Rightarrow> close_next (res ob) s
     | Closing_stores (ob # _) errs \<Rightarrow> close_next (res ob) s
     | Collecting errs \<Rightarrow> collected None s
     | Asking_alive errs \<Rightarrow> alive_said (Inr known) s
     | _ \<Rightarrow> close_move s)"

lemma tick_step: "session_step s (close_tick res known s)"
  by (auto simp: close_tick_def intro: session_step.intros split: closing.split list.split)

definition ends_of :: "(objref \<Rightarrow> exn option) \<Rightarrow> objref list \<Rightarrow> (objref \<times> exn option) list" where
  "ends_of res obs = map (\<lambda>ob. (ob, res ob)) obs"

lemma failures_append: "failures (xs @ ys) = failures xs @ failures ys"
  by (simp add: failures_def)

lemma ends_simps [simp]: "ends_of res [] = []" "ends_of res (ob # obs) = (ob, res ob) # ends_of res obs" "failures [] = []"
  "failures ((ob, r) # ends) = with_error r [] @ failures ends"
  by (simp_all add: ends_of_def failures_def)

lemma with_error_append: "with_error r errs = errs @ with_error r []"
  by (simp add: with_error_def split: option.split)

lemma evals_loop: "ss_at s = Closing_evals obs errs had \<Longrightarrow>
  (close_tick res known ^^ length obs) s =
    s\<lparr>ss_at := Closing_evals [] (errs @ failures (ends_of res obs)) had, ss_log := ss_log s @ ends_of res obs\<rparr>"
proof (induction obs arbitrary: s errs)
  case (Cons ob obs)
  have t: "close_tick res known s = s\<lparr>ss_at := Closing_evals obs (errs @ with_error (res ob) []) had, ss_log := ss_log s @ [(ob, res ob)]\<rparr>"
    using Cons.prems by (simp add: close_tick_def close_next_def note_close_def with_error_append[of _ errs])
  show ?case by (simp add: funpow_Suc_right t del: funpow.simps(2), subst Cons.IH, simp) (rule session.equality; simp)
qed simp

lemma stores_loop: "ss_at s = Closing_stores obs errs \<Longrightarrow>
  (close_tick res known ^^ length obs) s =
    s\<lparr>ss_at := Closing_stores [] (errs @ failures (ends_of res obs)), ss_log := ss_log s @ ends_of res obs\<rparr>"
proof (induction obs arbitrary: s errs)
  case (Cons ob obs)
  have t: "close_tick res known s = s\<lparr>ss_at := Closing_stores obs (errs @ with_error (res ob) []), ss_log := ss_log s @ [(ob, res ob)]\<rparr>"
    using Cons.prems by (simp add: close_tick_def close_next_def note_close_def with_error_append[of _ errs])
  show ?case by (simp add: funpow_Suc_right t del: funpow.simps(2), subst Cons.IH, simp) (rule session.equality; simp)
qed simp

text \<open>The waits of a close: two loops, what is between them and what is after.\<close>

definition close_steps :: "session \<Rightarrow> (objref \<Rightarrow> exn option) \<Rightarrow> nat" where
  "close_steps s res = (if ss_remote s \<and> failures (ends_of res (ss_evals s @ ss_stores s)) \<noteq> [] then 1 else 0) + 1 + length (ss_stores s)
     + (if ss_evals s \<noteq> [] \<and> \<not> ss_remote s then 1 else 0) + 1 + length (ss_evals s)"

definition close_result :: "session \<Rightarrow> (objref \<Rightarrow> exn option) \<Rightarrow> bool \<Rightarrow> session" where
  "close_result s res known = (let ends = ends_of res (ss_evals s @ ss_stores s) in
     s\<lparr>ss_closed := True, ss_evals := [], ss_stores := [], ss_log := ss_log s @ ends,
       ss_alive := (if ss_remote s \<and> failures ends \<noteq> [] then Some known else ss_alive s),
       ss_at := Closed_with (if ss_remote s \<and> \<not> known then [] else failures ends)\<rparr>)"

lemma funpow_then: "(f ^^ m) a = b \<Longrightarrow> (f ^^ n) b = c \<Longrightarrow> (f ^^ (n + m)) a = c"
  by (simp add: funpow_add)

lemma ends_append: "ends_of res (xs @ ys) = ends_of res xs @ ends_of res ys"
  by (simp add: ends_of_def)

lemma close_drives:
  assumes "\<not> ss_closed s"
  shows "(close_tick res known ^^ close_steps s res) (close_start s) = close_result s res known"
proof -
  let ?e = "failures (ends_of res (ss_evals s))"
  have start: "(close_tick res known ^^ length (ss_evals s)) (close_start s) =
      s\<lparr>ss_closed := True, ss_at := Closing_evals [] ?e (ss_evals s \<noteq> []), ss_log := ss_log s @ ends_of res (ss_evals s)\<rparr>"
    using assms by (subst evals_loop, simp add: close_start_def) (rule session.equality; simp add: close_start_def)
  let ?s1 = "s\<lparr>ss_closed := True, ss_at := Closing_stores (ss_stores s) ?e, ss_log := ss_log s @ ends_of res (ss_evals s), ss_evals := []\<rparr>"
  let ?s2 = "?s1\<lparr>ss_at := Closing_stores [] (?e @ failures (ends_of res (ss_stores s))), ss_log := ss_log s @ ends_of res (ss_evals s @ ss_stores s)\<rparr>"
  have between: "(close_tick res known ^^ ((if ss_evals s \<noteq> [] \<and> \<not> ss_remote s then 1 else 0) + 1))
      (s\<lparr>ss_closed := True, ss_at := Closing_evals [] ?e (ss_evals s \<noteq> []), ss_log := ss_log s @ ends_of res (ss_evals s)\<rparr>) = ?s1"
    by (cases "ss_evals s \<noteq> [] \<and> \<not> ss_remote s") (simp_all add: close_tick_def close_move_def after_evals_def collected_def Let_def)
  have stores: "(close_tick res known ^^ length (ss_stores s)) ?s1 = ?s2"
    by (subst stores_loop, simp) (rule session.equality; simp add: ends_append)
  have "(close_tick res known ^^ ((if ss_remote s \<and> failures (ends_of res (ss_evals s @ ss_stores s)) \<noteq> [] then 1 else 0) + 1)) ?s2
      = close_result s res known"
    by (cases "ss_remote s \<and> failures (ends_of res (ss_evals s @ ss_stores s)) \<noteq> []")
      (auto simp: close_tick_def close_move_def after_stores_def alive_said_def close_result_def Let_def ends_append failures_append)
  from funpow_then[OF funpow_then[OF funpow_then[OF start between] stores] this] show ?thesis
    by (simp only: close_steps_def add.assoc)
qed

text \<open>C37. A close that nothing interrupts comes to its end in as many steps as there are objects and at most three more, whatever the
  closes raise: it has closed each evaluator and then each store once, tracks nothing any more, and raises the one failure, or all
  of them as a group, or nothing when there was none or the server forgot the connection.\<close>

theorem close_finishes:
  assumes "\<not> ss_closed s"
  shows "(close_tick res known ^^ close_steps s res) (close_start s) = close_result s res known"
  by (rule close_drives[OF assms])

definition demo_session :: session where
  "demo_session = track_eval 2 (track_store 1 (local_session ''auto''))"

lemma demo_open: "\<not> ss_closed demo_session" "ss_log demo_session = []" "ss_alive demo_session = None"
  by (simp_all add: demo_session_def track_eval_def track_store_def local_session_def)

lemma close_finishes_witness: "(close_tick (\<lambda>ob. if ob = 2 then Some ValueError else None) True ^^
    close_steps demo_session (\<lambda>ob. if ob = 2 then Some ValueError else None)) (close_start demo_session)
    = close_result demo_session (\<lambda>ob. if ob = 2 then Some ValueError else None) True
  \<and> ss_at (close_result demo_session (\<lambda>ob. if ob = 2 then Some ValueError else None) True) = Closed_with [ValueError]"
  using close_finishes[OF demo_open(1), of "\<lambda>ob. if ob = 2 then Some ValueError else None" True]
  by (simp add: close_result_def demo_session_def track_eval_def track_store_def local_session_def set_add_def Let_def with_error_def)

lemma run_ticks: "session_run s {} ((close_tick res known ^^ n) s)"
  by (induction n) (auto intro: session_run.intros tick_step)

definition demo_remote :: session where
  "demo_remote = \<lparr>ss_remote = True, ss_uri = ''auto'', ss_stores = [1], ss_evals = [2], ss_closed = False, ss_at = Not_closing, ss_log = [], ss_alive = None\<rparr>"

text \<open>A remote session whose two releases fail: on a live connection both are raised, on a swept one neither.\<close>

lemma session_closes_witness:
  "\<forall>known. close_raises (if known then [ValueError, ValueError] else []) = (if known then Inl (Raised ''ExceptionGroup'') else Inr ())
    \<and> ss_at ((close_tick (\<lambda>_. Some ValueError) known ^^ close_steps demo_remote (\<lambda>_. Some ValueError)) (close_start demo_remote))
        = Closed_with (if known then [ValueError, ValueError] else [])"
proof
  fix known
  let ?s = "close_result demo_remote (\<lambda>_. Some ValueError) known"
  have o: "\<not> ss_closed demo_remote" "ss_log demo_remote = []" "ss_alive demo_remote = None" by (simp_all add: demo_remote_def)
  have at: "ss_at ?s = Closed_with (if known then [ValueError, ValueError] else [])"
    and f: "failures (ss_log ?s) = [ValueError, ValueError]" and k: "ss_alive ?s = Some known"
    by (simp_all add: close_result_def demo_remote_def with_error_def Let_def)
  have d: "(close_tick (\<lambda>_. Some ValueError) known ^^ close_steps demo_remote (\<lambda>_. Some ValueError)) (close_start demo_remote) = ?s"
    by (rule close_drives[OF o(1)])
  have "session_run (close_start demo_remote) {} ?s" unfolding d[symmetric] by (rule run_ticks)
  from session_closes[OF this o at] show "close_raises (if known then [ValueError, ValueError] else []) = (if known then Inl (Raised ''ExceptionGroup'') else Inr ())
    \<and> ss_at ((close_tick (\<lambda>_. Some ValueError) known ^^ close_steps demo_remote (\<lambda>_. Some ValueError)) (close_start demo_remote))
        = Closed_with (if known then [ValueError, ValueError] else [])"
    unfolding d f k at by (cases known) simp_all
qed

subsection \<open>What a close loses\<close>

text \<open>A local session whose \<open>collect_garbage\<close> fails, or one whose closing task is cancelled, is closed for good with stores it still
  tracks: closing it again does nothing.\<close>

lemma broken_off_for_good:
  assumes "ss_closed s" "ss_at s = Collecting errs"
  shows "close_start (collected (Some e) s) = collected (Some e) s" "ss_stores (collected (Some e) s) = ss_stores s"
  using assms by (simp_all add: close_start_def collected_def)

text \<open>An evaluator that is made while the evaluators close is not closed, and no longer tracked when they are through.\<close>

lemma made_while_closing: "ss_at s = Closing_evals [] errs had \<Longrightarrow> ss_evals (close_move (track_eval ob s)) = []
    \<and> ss_log (close_move (track_eval ob s)) = ss_log s"
  by (simp add: close_move_def track_eval_def after_evals_def Let_def)

text \<open>Detaching one object with \<open>all=True\<close> asks the server for that object alone; the session stops tracking every one.\<close>

lemma detach_one_forgets_all: "detach_handle env tok (Some h) True = detach_handle env tok (Some h) False \<and> ss_stores (detached True (Some ob) True s) = [] \<and> ss_evals (detached True (Some ob) True s) = []"
  by (simp add: detached_def detach_handle_def)

end
