(* ===== verification/Decl.thy ===== *)
theory Decl
  imports Dispatcher
begin

text \<open>
  What the reader of declarations hands on (\<open>huggorm_dsl/read.py\<close>, with the records of \<open>declare.py\<close>): a declared type from
  an annotation object, with every refusal of \<open>type_of\<close>; the declared classes, methods and modules with the properties the
  generator asks for; the parts of a wire value; and the rules for the arms of a union.

  An annotation is the object the import made of it. A type is a leaf or wraps one type: \<open>python\<close>, which only renders the
  structure, is computed. A \<open>Decl\<close> has every field its decorators write; its \<open>name\<close> and \<open>base\<close>, and the docs and the carried
  C++ of a method, are left out.
\<close>

definition DeclarationError :: exn where "DeclarationError = Raised ''DeclarationError''"

subsection \<open>Types\<close>

record cxx_fact =
  cx_spelling :: string
  cx_width :: string \<comment> \<open>the wire scalar of a C++ width, or empty\<close>

datatype origin = OPTIONAL_OF | LIST_OF | DICT_OF

datatype dtype =
    DLeaf (dl_name: string) (dl_cxx: "cxx_fact option") (dl_bound: bool) (dl_module: string) (dl_twin: string)
  | DWrap origin dtype

fun wrap_spelling :: "origin \<Rightarrow> string \<Rightarrow> string" where
  "wrap_spelling OPTIONAL_OF s = s @ '' | None''"
| "wrap_spelling LIST_OF s = ''list['' @ s @ '']''"
| "wrap_spelling DICT_OF s = ''dict[str, '' @ s @ '']''"

fun ty_python :: "dtype \<Rightarrow> string" where
  "ty_python (DLeaf n c b m tw) = n"
| "ty_python (DWrap og t) = wrap_spelling og (ty_python t)"

fun ty_origin :: "dtype \<Rightarrow> origin option" where
  "ty_origin (DLeaf n c b m tw) = None"
| "ty_origin (DWrap og t) = Some og"

definition ty_optional :: "dtype \<Rightarrow> bool" where
  "ty_optional t \<longleftrightarrow> ty_origin t = Some OPTIONAL_OF"

fun ty_inner :: "dtype \<Rightarrow> exn + dtype" where
  "ty_inner (DLeaf n c b m tw) = Inl TypeError"
| "ty_inner (DWrap og t) = Inr t"

fun ty_required :: "dtype \<Rightarrow> dtype" where
  "ty_required (DWrap OPTIONAL_OF t) = t"
| "ty_required t = t"

definition ty_container :: "dtype \<Rightarrow> bool" where
  "ty_container t \<longleftrightarrow> ty_origin t = Some LIST_OF \<or> ty_origin t = Some DICT_OF"

definition ty_element :: "dtype \<Rightarrow> exn + dtype" where
  "ty_element t = (if ty_container t then ty_inner t else Inl TypeError)"

fun ty_leaf :: "dtype \<Rightarrow> dtype" where
  "ty_leaf (DLeaf n c b m tw) = DLeaf n c b m tw"
| "ty_leaf (DWrap og t) = ty_leaf t"

definition width_of :: "cxx_fact option \<Rightarrow> string" where
  "width_of c = (case c of None \<Rightarrow> [] | Some x \<Rightarrow> cx_width x)"

definition ty_width :: "dtype \<Rightarrow> string" where
  "ty_width t = width_of (dl_cxx (ty_leaf t))"

text \<open>\<open>Type.wire\<close>: the spelling of a wire field, with the width and a question mark for presence.\<close>

definition ty_wire :: "dtype \<Rightarrow> exn + string" where
  "ty_wire t = (let held = ty_required t; q = (if ty_optional t then ''?'' else []) in
     if ty_width held \<noteq> [] then (if ty_origin held \<noteq> None then Inl TypeError else Inr (ty_width held @ q))
     else Inr (ty_python held @ q))"

subsection \<open>Annotations\<close>

record pyclass =
  pc_module :: string
  pc_name :: string
  pc_dir :: "string option" \<comment> \<open>where its file is, unless \<open>inspect.getfile\<close> finds none\<close>

datatype ann_meta = M_variant | M_async string | M_cxx cxx_fact | M_other

datatype ann =
    A_quoted string
  | A_forward string
  | A_annotated pyclass "ann_meta list" nat \<comment> \<open>an \<open>Annotated\<close> alias of a class, and which object it is\<close>
  | A_union "ann list"
  | A_none
  | A_list ann
  | A_dict ann ann
  | A_generic string "ann list"
  | A_class pyclass
  | A_other

text \<open>The globals of the file an annotation is written in: its name, its directory, and the object each global is.\<close>

record home =
  hm_name :: string
  hm_dir :: "string option"
  hm_globals :: "(string \<times> nat) list"

definition alias_name :: "home \<Rightarrow> nat \<Rightarrow> string option" where
  "alias_name hm ob = map_option fst (List.find (\<lambda>p. snd p = ob) (hm_globals hm))"

definition undeclared :: "pyclass \<Rightarrow> cxx_fact option \<Rightarrow> string \<Rightarrow> dtype" where
  "undeclared c cx twin = (if pc_module c = ''builtins'' then DLeaf (pc_name c) cx False [] twin
     else DLeaf (pc_module c @ ''.'' @ pc_name c) cx False (pc_module c) twin)"

definition is_declared :: "pyclass \<Rightarrow> home \<Rightarrow> bool" where
  "is_declared c hm \<longleftrightarrow> pc_module c = hm_name hm \<or> (case hm_dir hm of None \<Rightarrow> False | Some d \<Rightarrow> pc_dir c = Some d)"

fun meta_twin :: "ann_meta list \<Rightarrow> string" where
  "meta_twin [] = []"
| "meta_twin (M_async s # ms) = s"
| "meta_twin (m # ms) = meta_twin ms"

fun meta_cxx :: "ann_meta list \<Rightarrow> cxx_fact option" where
  "meta_cxx [] = None"
| "meta_cxx (M_cxx c # ms) = Some c"
| "meta_cxx (m # ms) = meta_cxx ms"

definition none_class :: pyclass where
  "none_class = \<lparr>pc_module = ''builtins'', pc_name = ''NoneType'', pc_dir = None\<rparr>"

definition str_class :: pyclass where
  "str_class = \<lparr>pc_module = ''builtins'', pc_name = ''str'', pc_dir = None\<rparr>"

lemma filter_one_size: "filter P xs = [a] \<Longrightarrow> size a < Suc (size_list size xs)"
proof -
  assume "filter P xs = [a]"
  then have "a \<in> set xs" using filter_set[of P xs] arg_cong[of "filter P xs" "[a]" set] by auto
  then show ?thesis by (simp add: le_imp_less_Suc size_list_estimation')
qed

function type_of :: "home \<Rightarrow> ann \<Rightarrow> exn + dtype" where
  "type_of hm (A_quoted s) = Inl DeclarationError"
| "type_of hm (A_forward s) = Inl DeclarationError"
| "type_of hm (A_annotated held meta ob) =
     (if M_variant \<in> set meta then (case alias_name hm ob of None \<Rightarrow> Inl DeclarationError
        | Some n \<Rightarrow> Inr (DLeaf n None True [] []))
      else (case meta_cxx meta of None \<Rightarrow> Inl DeclarationError
        | Some c \<Rightarrow> Inr (undeclared held (Some c) (meta_twin meta))))"
| "type_of hm (A_union arms) = (case filter (\<lambda>a. a \<noteq> A_none) arms of
       [a] \<Rightarrow> if length arms \<noteq> 2 then Inl DeclarationError else res_bind (type_of hm a) (\<lambda>t. Inr (DWrap OPTIONAL_OF t))
     | _ \<Rightarrow> Inl DeclarationError)"
| "type_of hm (A_list a) = res_bind (type_of hm a) (\<lambda>t. Inr (DWrap LIST_OF t))"
| "type_of hm (A_dict k v) = (if k \<noteq> A_class str_class then Inl DeclarationError
     else res_bind (type_of hm v) (\<lambda>t. Inr (DWrap DICT_OF t)))"
| "type_of hm (A_generic og as) = Inl DeclarationError"
| "type_of hm A_none = Inr (if is_declared none_class hm then DLeaf (pc_name none_class) None True [] [] else undeclared none_class None [])"
| "type_of hm (A_class c) = Inr (if is_declared c hm then DLeaf (pc_name c) None True [] [] else undeclared c None [])"
| "type_of hm A_other = Inl DeclarationError"
  by pat_completeness auto
termination by (relation "measure (size \<circ> snd)") (auto dest: filter_one_size)

section \<open>Classes and files\<close>

text \<open>
  The declared classes, methods, functions and files (\<open>read.py\<close>), with what their decorators said (\<open>declare.py\<close>): which
  parts a wire value is rebuilt from, who may make one, what a file exports and which names it knows, and the rules for
  the arms of a union.
\<close>

subsection \<open>What decorators say\<close>

datatype threading = POOL | AFFINE
datatype crossing = By_proxy | By_value | By_local
datatype decl_kind = CLASS_KIND | WORDS_KIND | UNION_KIND | ERROR_KIND

datatype tree_part = TLeaf string string | TNull | TItems string string | TEntries string string string

record tree_decl =
  td_kind :: string
  td_kinds :: "(string, tree_part) dict"
  td_identity :: string
  td_force :: string
  td_stop :: string

record builds_decl =
  bu_null :: string
  bu_leaves :: "(string, string) dict"
  bu_items :: string
  bu_add_item :: string
  bu_entries :: string
  bu_add_entry :: string

text \<open>A part of a wire value as declared: the name of an accessor, or a \<open>Field\<close> with another name.\<close>

datatype part_decl = PNamed string | PField string string

record enumerated =
  en_cxx :: string
  en_wrapped :: "(string \<times> string) option" \<comment> \<open>the struct C++ hands over, and its member\<close>

record variant =
  va_cxx :: string
  va_wraps :: "(string, string \<times> string) dict"

record decl =
  dc_kind :: decl_kind
  dc_header :: string
  dc_headers :: "string list"
  dc_cxx :: string
  dc_produced :: bool
  dc_factory :: string
  dc_threading :: threading
  dc_blocking :: bool
  dc_wire :: crossing
  dc_calls_back :: bool
  dc_fields :: "part_decl list"
  dc_arms :: "string list"
  dc_scalars :: "(string, dtype) dict"
  dc_variant :: "variant option"
  dc_compare :: string
  dc_text :: string
  dc_shown :: string
  dc_order :: bool
  dc_unit :: bool
  dc_custom :: "(string, string) dict"
  dc_gc_slots :: string
  dc_parsed_by :: string
  dc_enumerated :: "enumerated option"
  dc_abstract :: bool
  dc_tree :: "tree_decl option"
  dc_builds :: "builds_decl option"
  dc_holder :: string
  dc_via :: string
  dc_collection :: string
  dc_tagged :: "(string \<times> string \<times> (string, string) dict) option"

subsection \<open>Methods and classes\<close>

text \<open>A parameter, with its default value and the member of a vocabulary the declaration named for it.\<close>

record param =
  pm_name :: string
  pm_type :: dtype
  pm_default :: "pyval option"
  pm_member :: string

definition has_default :: "param \<Rightarrow> bool" where
  "has_default p \<longleftrightarrow> pm_default p \<noteq> None"

record meth =
  mt_name :: string
  mt_params :: "param list"
  mt_ret :: "dtype option"
  mt_blocks :: bool
  mt_prop :: bool
  mt_reads :: string
  mt_body :: bool \<comment> \<open>it carries C++\<close>
  mt_guard :: string
  mt_names :: bool
  mt_fills :: "(string \<times> string) option"
  mt_local :: bool
  mt_virtual :: bool
  mt_posted :: bool
  mt_wire_read :: string
  mt_spells :: "string list"
  mt_startup :: bool
  mt_translator :: bool
  mt_policy :: "threading option"
  mt_subscription :: "subscription option"

record raised =
  ra_bases :: "string list"
  ra_parts :: "(string \<times> dtype) list"
  ra_cxx :: string

record dclass =
  kl_name :: string
  kl_decl :: decl
  kl_ctor :: "meth option"
  kl_methods :: "meth list"
  kl_from_parts :: "meth option"
  kl_raised :: "raised option"

definition is_words :: "dclass \<Rightarrow> bool" where
  "is_words c \<longleftrightarrow> dc_kind (kl_decl c) = WORDS_KIND"

definition is_union :: "dclass \<Rightarrow> bool" where
  "is_union c \<longleftrightarrow> dc_kind (kl_decl c) = UNION_KIND"

definition is_value :: "dclass \<Rightarrow> bool" where
  "is_value c \<longleftrightarrow> dc_produced (kl_decl c) \<and> dc_cxx (kl_decl c) = []"

definition is_produced :: "dclass \<Rightarrow> bool" where
  "is_produced c \<longleftrightarrow> dc_produced (kl_decl c) \<and> kl_ctor c = None"

definition constructs :: "dclass \<Rightarrow> bool" where
  "constructs c \<longleftrightarrow> kl_ctor c \<noteq> None \<and> (dc_factory (kl_decl c) \<noteq> [] \<or> \<not> dc_abstract (kl_decl c))"

subsection \<open>Parts\<close>

definition find_meth :: "string \<Rightarrow> meth list \<Rightarrow> meth option" where
  "find_meth n ms = List.find (\<lambda>m. mt_name m = n) (rev ms)"

fun part_field :: "part_decl \<Rightarrow> string \<times> string" where
  "part_field (PNamed n) = (n, n)"
| "part_field (PField n r) = (n, r)"

definition declared_part :: "meth list \<Rightarrow> part_decl \<Rightarrow> exn + (string \<times> string) \<times> meth" where
  "declared_part ms f = (case find_meth (snd (part_field f)) ms of
       Some m \<Rightarrow> if mt_ret m = None then Inl TypeError else Inr (part_field f, m)
     | None \<Rightarrow> Inl TypeError)"

fun method_parts :: "meth list \<Rightarrow> meth list \<Rightarrow> exn + ((string \<times> string) \<times> meth) list" where
  "method_parts all [] = Inr []"
| "method_parts all (m # ms) =
     (if mt_ret m = None \<or> mt_local m then method_parts all ms
      else if mt_wire_read m = [] then res_bind (method_parts all ms) (\<lambda>out. Inr (((mt_name m, mt_name m), m) # out))
      else (case find_meth (mt_wire_read m) all of
          Some r \<Rightarrow> if mt_ret r = None \<or> \<not> mt_local r then Inl TypeError
            else res_bind (method_parts all ms) (\<lambda>out. Inr (((mt_name m, mt_wire_read m), r) # out))
        | None \<Rightarrow> Inl TypeError))"

definition parts :: "dclass \<Rightarrow> exn + ((string \<times> string) \<times> meth) list" where
  "parts c = (if dc_fields (kl_decl c) \<noteq> [] then
       (if list_ex (\<lambda>m. mt_wire_read m \<noteq> []) (kl_methods c) then Inl TypeError
        else map_res (declared_part (kl_methods c)) (dc_fields (kl_decl c)))
     else if dc_wire (kl_decl c) \<noteq> By_value then Inr []
     else method_parts (kl_methods c) (kl_methods c))"

subsection \<open>Files\<close>

record dmodule =
  md_name :: string
  md_classes :: "dclass list"
  md_functions :: "meth list"
  md_unions :: "dclass list"
  md_uses :: "(string, dclass) dict"
  md_errors :: "dclass list"

definition exported :: "dmodule \<Rightarrow> meth list" where
  "exported m = (let made = map (dc_factory \<circ> kl_decl) (filter (\<lambda>c. kl_ctor c \<noteq> None) (md_classes m)) in
     filter (\<lambda>fn. \<not> (mt_startup fn \<or> mt_translator fn) \<and> mt_name fn \<notin> set made) (md_functions m))"

type_synonym known = "(string, dclass) dict"

definition known_of :: "dmodule \<Rightarrow> known" where
  "known_of m = fold (\<lambda>c d. dict_set (kl_name c) c d) (md_classes m @ md_errors m @ md_unions m) (md_uses m)"

subsection \<open>The arms of a union\<close>

text \<open>Scalar arms are told apart by their Python type; the others are declared values, no vocabulary and no union.\<close>

definition check_scalars :: "dclass \<Rightarrow> exn + unit" where
  "check_scalars c = (if distinct (map (\<lambda>(a, t). ty_python t) (dc_scalars (kl_decl c))) then Inr () else Inl DeclarationError)"

definition check_arm :: "dclass \<Rightarrow> known \<Rightarrow> string \<Rightarrow> exn + unit" where
  "check_arm c known arm = (if dict_get (dc_scalars (kl_decl c)) arm \<noteq> None then Inr ()
     else (case dict_get known arm of None \<Rightarrow> Inl DeclarationError
       | Some d \<Rightarrow> if is_words d \<or> is_union d \<or> dc_wire (kl_decl d) \<noteq> By_value then Inl DeclarationError else Inr ()))"

definition check_arms :: "dclass \<Rightarrow> known \<Rightarrow> exn + unit" where
  "check_arms c known = res_bind (check_scalars c) (\<lambda>_. res_bind (map_res (check_arm c known) (dc_arms (kl_decl c))) (\<lambda>_. Inr ()))"

section \<open>The C++ spelling\<close>

text \<open>
  How a declared type is spelled in C++ (\<open>huggorm_gen/cxx.py\<close>): by value, as a parameter, with the caster each spelling
  needs, and a default as C++ writes it. A union without a C++ type of its own is the variant of its arms, and an arm may
  be a union again; a declaration set can loop there, so the first argument is how many nested calls the interpreter allows.
\<close>

subsection \<open>Tables\<close>

record cxx_spelled =
  cs_value :: string
  cs_caster :: "string option"
  cs_by_ref :: bool

type_synonym spelling = "string \<times> string option"

definition spelled_entry :: "string \<Rightarrow> string option \<Rightarrow> bool \<Rightarrow> cxx_spelled" where
  "spelled_entry v c r = \<lparr>cs_value = v, cs_caster = c, cs_by_ref = r\<rparr>"

definition const_ref :: "string \<Rightarrow> string" where
  "const_ref s = ''const '' @ s @ '' &''"

definition spelled_param :: "cxx_spelled \<Rightarrow> spelling" where
  "spelled_param s = (if cs_by_ref s then const_ref (cs_value s) else cs_value s, cs_caster s)"

definition CXX_PARAM :: "(string, cxx_spelled) dict" where
  "CXX_PARAM = [(''string'', spelled_entry ''std::string'' (Some ''string'') True),
     (''string_view'', spelled_entry ''std::string_view'' (Some ''string_view'') False),
     (''bint'', spelled_entry ''bool'' None False),
     (''uint64_t'', spelled_entry ''std::uint64_t'' None False),
     (''int64_t'', spelled_entry ''std::int64_t'' None False),
     (''double'', spelled_entry ''double'' None False),
     (''microseconds'', spelled_entry ''std::chrono::microseconds'' (Some ''chrono'') False),
     (''nb::object'', spelled_entry ''nb::object'' None False)]"

definition CXX_PYTHON :: "(string, cxx_spelled) dict" where
  "CXX_PYTHON = [(''bytes'', spelled_entry ''nb::bytes'' None True),
     (''pathlib.Path'', spelled_entry ''std::filesystem::path'' (Some ''filesystem'') True)]"

definition CXX_BUILTIN :: "(string, cxx_spelled) dict" where
  "CXX_BUILTIN = [(''str'', spelled_entry ''std::string'' (Some ''string'') True), (''bool'', spelled_entry ''bool'' None False)]"

definition NAMESPACE :: string where "NAMESPACE = ''huggorm''"

subsection \<open>By value\<close>

definition cxx_held :: "dclass \<Rightarrow> string" where
  "cxx_held c = (if dc_cxx (kl_decl c) \<noteq> [] then dc_cxx (kl_decl c) else NAMESPACE @ ''::'' @ kl_name c)"

definition holder_type :: "string \<Rightarrow> string \<Rightarrow> string" where
  "holder_type h s = ''std::'' @ h @ ''<'' @ s @ ''>''"

text \<open>\<open>value\<close> of a leaf, by \<open>bare\<close>: a declared class through its declaration, then the three tables in their order.\<close>

definition leaf_value :: "(dclass \<Rightarrow> exn + string) \<Rightarrow> known \<Rightarrow> dtype \<Rightarrow> exn + spelling" where
  "leaf_value bare known t = (let inner = ty_python t in
     if dl_bound t \<or> dict_get known inner \<noteq> None
     then (case dict_get known inner of None \<Rightarrow> Inl TypeError
       | Some other \<Rightarrow> res_bind (bare other) (\<lambda>spelled.
           if dc_holder (kl_decl other) \<noteq> [] then Inr (holder_type (dc_holder (kl_decl other)) spelled, Some (dc_holder (kl_decl other)))
           else if is_union other then Inr (spelled, Some ''variant'')
           else Inr (spelled, if is_words other then Some ''string'' else None)))
     else (case dict_get CXX_PYTHON inner of Some e \<Rightarrow> Inr (cs_value e, cs_caster e)
       | None \<Rightarrow> (case (case dl_cxx t of None \<Rightarrow> None | Some c \<Rightarrow> dict_get CXX_PARAM (cx_spelling c)) of
             Some e \<Rightarrow> Inr (cs_value e, cs_caster e)
           | None \<Rightarrow> (case dict_get CXX_BUILTIN inner of Some e \<Rightarrow> Inr (cs_value e, cs_caster e) | None \<Rightarrow> Inl TypeError))))"

definition is_error_type :: "known \<Rightarrow> dtype \<Rightarrow> bool" where
  "is_error_type known t = (let held = ty_required t in ty_origin held = None \<and>
     (case dict_get known (ty_python held) of None \<Rightarrow> False | Some other \<Rightarrow> dc_kind (kl_decl other) = ERROR_KIND))"

fun wrap_cxx :: "origin \<Rightarrow> string \<Rightarrow> spelling" where
  "wrap_cxx OPTIONAL_OF s = (''std::optional<'' @ s @ ''>'', Some ''optional'')"
| "wrap_cxx LIST_OF s = (''std::vector<'' @ s @ ''>'', Some ''vector'')"
| "wrap_cxx DICT_OF s = (''std::map<std::string, '' @ s @ ''>'', Some ''map'')"

fun value_by :: "(dclass \<Rightarrow> exn + string) \<Rightarrow> known \<Rightarrow> dtype \<Rightarrow> exn + spelling" where
  "value_by bare known (DWrap og t) = (if is_error_type known (DWrap og t) then Inr (''nb::object'', None)
     else res_bind (value_by bare known t) (\<lambda>held. Inr (wrap_cxx og (fst held))))"
| "value_by bare known (DLeaf n c b m tw) = (if is_error_type known (DLeaf n c b m tw) then Inr (''nb::object'', None)
     else leaf_value bare known (DLeaf n c b m tw))"

text \<open>\<open>arm\<close> and \<open>arms_type\<close>, by \<open>bare\<close>.\<close>

definition arm_by :: "(dclass \<Rightarrow> exn + string) \<Rightarrow> known \<Rightarrow> dclass \<Rightarrow> string \<Rightarrow> exn + string" where
  "arm_by bare known c a = (case dict_get (dc_scalars (kl_decl c)) a of
       Some s \<Rightarrow> map_sum id fst (value_by bare known s)
     | None \<Rightarrow> (case dict_get known a of None \<Rightarrow> Inl KeyError | Some d \<Rightarrow> bare d))"

definition arms_type_by :: "(dclass \<Rightarrow> exn + string) \<Rightarrow> known \<Rightarrow> dclass \<Rightarrow> exn + string" where
  "arms_type_by bare known c = res_bind (map_res (arm_by bare known c) (dc_arms (kl_decl c)))
     (\<lambda>as. Inr (''std::variant<'' @ join_with '', '' as @ ''>''))"

primrec bare :: "nat \<Rightarrow> known \<Rightarrow> dclass \<Rightarrow> exn + string" where
  "bare 0 known c = Inl RecursionError"
| "bare (Suc n) known c =
     (if is_union c then (case dc_variant (kl_decl c) of Some v \<Rightarrow> Inr (va_cxx v) | None \<Rightarrow> arms_type_by (bare n known) known c)
      else if is_words c then Inr ''std::string''
      else if dc_cxx (kl_decl c) = [] \<and> \<not> dc_produced (kl_decl c) then Inl TypeError
      else Inr (cxx_held c))"

definition cxx_value :: "nat \<Rightarrow> known \<Rightarrow> dtype \<Rightarrow> exn + spelling" where
  "cxx_value n known = value_by (bare n known) known"

definition cxx_arm :: "nat \<Rightarrow> known \<Rightarrow> dclass \<Rightarrow> string \<Rightarrow> exn + string" where
  "cxx_arm n known = arm_by (bare n known) known"

subsection \<open>As a parameter\<close>

definition cxx_param :: "nat \<Rightarrow> known \<Rightarrow> dtype \<Rightarrow> exn + spelling" where
  "cxx_param n known t =
     (if ty_origin t \<noteq> None \<or> dict_get CXX_PYTHON (ty_python t) \<noteq> None
      then res_bind (cxx_value n known t) (\<lambda>sc. Inr (const_ref (fst sc), snd sc))
      else if dl_bound t then (case dict_get known (ty_python t) of None \<Rightarrow> Inl TypeError
        | Some other \<Rightarrow>
          if is_words other then Inr (const_ref ''std::string'', Some ''string'')
          else if dc_holder (kl_decl other) \<noteq> []
          then res_bind (bare n known other) (\<lambda>s. Inr (const_ref (holder_type (dc_holder (kl_decl other)) s), Some (dc_holder (kl_decl other))))
          else res_bind (bare n known other) (\<lambda>s. Inr (if dc_wire (kl_decl other) = By_value then const_ref s else s @ '' &'', None)))
      else (case (case dl_cxx t of None \<Rightarrow> None | Some c \<Rightarrow> dict_get CXX_PARAM (cx_spelling c)) of
          None \<Rightarrow> Inl TypeError | Some e \<Rightarrow> Inr (spelled_param e)))"

definition absent :: "param \<Rightarrow> bool" where
  "absent p \<longleftrightarrow> pm_default p = Some PNone \<and> ty_container (ty_required (pm_type p))"

definition parsed_by :: "dtype option \<Rightarrow> known \<Rightarrow> string" where
  "parsed_by t known = (case t of None \<Rightarrow> []
     | Some t \<Rightarrow> let held = ty_required t in
         if ty_origin held \<noteq> None then [] else (case dict_get known (ty_python held) of None \<Rightarrow> []
           | Some other \<Rightarrow> if \<not> is_words other then []
               else (case dc_enumerated (kl_decl other) of
                   Some e \<Rightarrow> if dc_parsed_by (kl_decl other) = []
                     then NAMESPACE @ ''::from_word<'' @ (case en_wrapped e of Some w \<Rightarrow> fst w | None \<Rightarrow> en_cxx e) @ ''>''
                     else dc_parsed_by (kl_decl other)
                 | None \<Rightarrow> dc_parsed_by (kl_decl other))))"

definition cxx_collection :: "dtype option \<Rightarrow> known \<Rightarrow> string" where
  "cxx_collection t known = (case t of Some (DWrap LIST_OF e) \<Rightarrow>
       (case dict_get known (ty_python e) of None \<Rightarrow> [] | Some c \<Rightarrow> dc_collection (kl_decl c)) | _ \<Rightarrow> [])"

definition cxx_handle :: "dtype option \<Rightarrow> known \<Rightarrow> dclass option" where
  "cxx_handle t known = (case t of None \<Rightarrow> None
     | Some t \<Rightarrow> (case ty_required t of
           DLeaf n c True m tw \<Rightarrow> (case dict_get known n of None \<Rightarrow> None
             | Some other \<Rightarrow> if dc_via (kl_decl other) \<noteq> [] then Some other else None)
         | _ \<Rightarrow> None))"

text \<open>\<open>json.dumps\<close> of a string and \<open>str\<close> of an int.\<close>

definition hex_digit :: "nat \<Rightarrow> char" where
  "hex_digit n = ''0123456789abcdef'' ! (n mod 16)"

definition json_char :: "char \<Rightarrow> string" where
  "json_char c = (let n = of_char c :: nat in
     if n = 34 then [CHR 92, CHR 34] else if n = 92 then [CHR 92, CHR 92]
     else if n = 10 then [CHR 92, CHR ''n''] else if n = 13 then [CHR 92, CHR ''r''] else if n = 9 then [CHR 92, CHR ''t'']
     else if n = 8 then [CHR 92, CHR ''b''] else if n = 12 then [CHR 92, CHR ''f'']
     else if 32 \<le> n \<and> n \<le> 126 then [c] else [CHR 92] @ ''u00'' @ [hex_digit (n div 16), hex_digit n])"

definition json_dumps :: "string \<Rightarrow> string" where
  "json_dumps s = [CHR 34] @ concat (map json_char s) @ [CHR 34]"

fun nat_digits :: "nat \<Rightarrow> nat \<Rightarrow> string" where
  "nat_digits 0 n = []"
| "nat_digits (Suc k) n = (if n < 10 then [char_of (48 + n)] else nat_digits k (n div 10) @ [char_of (48 + n mod 10)])"

definition str_int :: "int \<Rightarrow> string" where
  "str_int i = (if i < 0 then ''-'' else []) @ nat_digits (Suc (nat \<bar>i\<bar>)) (nat \<bar>i\<bar>)"

definition cxx_default :: "param \<Rightarrow> exn + string" where
  "cxx_default p = (case pm_default p of None \<Rightarrow> Inr []
     | Some v \<Rightarrow>
       if pm_member p \<noteq> [] then (case v of PStr s \<Rightarrow> Inr (json_dumps s) | PEnum c s \<Rightarrow> Inr (json_dumps s) | _ \<Rightarrow> Inl TypeError)
       else if v = PNone \<and> (ty_optional (pm_type p) \<or> absent p) then Inr ''nb::none()''
       else (case v of PBool b \<Rightarrow> Inr (if b then ''true'' else ''false'') | PNone \<Rightarrow> Inr ''nullptr''
         | PStr s \<Rightarrow> Inr (json_dumps s) | PEnum c s \<Rightarrow> Inr (json_dumps s) | PInt i \<Rightarrow> Inr (str_int i) | _ \<Rightarrow> Inl TypeError))"

end
