(* ===== verification/Model_Types.thy ===== *)
theory Model_Types
  imports Decl
begin

text \<open>
  The resolved types of \<open>huggorm_gen/ir.py\<close> and the \<open>Wire\<close> the emitter writes for each (\<open>pygen/emitter.py\<close>): what a
  name is, \<open>TypeRef\<close>, why a type cannot cross, the fields of a value and the parameters of a call. A \<open>TypeRef\<close> is a leaf or
  wraps one; the kind and the name of a wrapping one are its leaf's, as the constructors of the code give them.
\<close>

subsection \<open>What a name is\<close>

datatype kind = K_SCALAR | K_ENUM | K_UNION | K_ERROR | K_VALUE | K_PROXY | K_CLIENT | K_MODULE | K_OPAQUE

definition kind_of :: "known \<Rightarrow> string \<Rightarrow> exn + kind" where
  "kind_of known name = (if SCALARS name \<noteq> None then Inr K_SCALAR
     else if name = ''object'' then Inr K_OPAQUE
     else (case dict_get known name of None \<Rightarrow> Inl TypeError
       | Some c \<Rightarrow> Inr (if dc_kind (kl_decl c) = ERROR_KIND then K_ERROR
           else if is_words c then K_ENUM else if is_union c then K_UNION
           else if dc_calls_back (kl_decl c) then K_CLIENT
           else if dc_wire (kl_decl c) = By_value then K_VALUE else K_PROXY)))"

subsection \<open>Resolved types\<close>

datatype tref =
    RLeaf (rl_kind: kind) (rl_name: string) (rl_width: string) (rl_twin: string) (rl_cxx: spelling)
  | RWrap origin tref spelling

fun tr_spelling :: "tref \<Rightarrow> string" where
  "tr_spelling (RLeaf k n w tw sp) = n"
| "tr_spelling (RWrap og t sp) = wrap_spelling og (tr_spelling t)"

fun tr_origin :: "tref \<Rightarrow> origin option" where
  "tr_origin (RLeaf k n w tw sp) = None"
| "tr_origin (RWrap og t sp) = Some og"

fun tr_leaf :: "tref \<Rightarrow> tref" where
  "tr_leaf (RLeaf k n w tw sp) = RLeaf k n w tw sp"
| "tr_leaf (RWrap og t sp) = tr_leaf t"

definition tr_kind :: "tref \<Rightarrow> kind" where "tr_kind t = rl_kind (tr_leaf t)"
definition tr_name :: "tref \<Rightarrow> string" where "tr_name t = rl_name (tr_leaf t)"
definition tr_optional :: "tref \<Rightarrow> bool" where "tr_optional t \<longleftrightarrow> tr_origin t = Some OPTIONAL_OF"
definition tr_container :: "tref \<Rightarrow> bool" where "tr_container t \<longleftrightarrow> tr_origin t = Some LIST_OF \<or> tr_origin t = Some DICT_OF"

fun tr_required :: "tref \<Rightarrow> tref" where
  "tr_required (RWrap OPTIONAL_OF t sp) = t"
| "tr_required t = t"

lemma tr_required_size [termination_simp]: "size (tr_required t) \<le> size t"
  by (induction t rule: tr_required.induct) simp_all

fun tr_cxx :: "tref \<Rightarrow> spelling" where
  "tr_cxx (RLeaf k n w tw sp) = sp"
| "tr_cxx (RWrap og t sp) = sp"

text \<open>\<open>type_ref\<close>.\<close>

fun type_ref :: "nat \<Rightarrow> known \<Rightarrow> dtype \<Rightarrow> exn + tref" where
  "type_ref n known (DLeaf nm c b m tw) =
     res_bind (cxx_value n known (DLeaf nm c b m tw)) (\<lambda>sp.
     res_bind (if m \<noteq> [] then Inr K_MODULE else kind_of known nm) (\<lambda>k. Inr (RLeaf k nm (width_of c) tw sp)))"
| "type_ref n known (DWrap og t) =
     res_bind (cxx_value n known (DWrap og t)) (\<lambda>sp. res_bind (type_ref n known t) (\<lambda>r. Inr (RWrap og r sp)))"

text \<open>The builtin a leaf goes in a field as.\<close>

fun field_name :: "scalar_type \<Rightarrow> string" where
  "field_name TStr = ''str''"
| "field_name TInt = ''int''"
| "field_name TFloat = ''float''"
| "field_name TBool = ''bool''"
| "field_name TBytes = ''bytes''"

definition tr_scalar :: "tref \<Rightarrow> string option" where
  "tr_scalar t = (if tr_origin t = None \<and> rl_width t \<noteq> [] then Some (rl_width t)
     else if tr_kind t = K_SCALAR then Some (tr_name t)
     else map_option (\<lambda>sp. field_name (spelled_field sp)) (SPELLED (tr_name t)))"

subsection \<open>Why a type cannot cross\<close>

datatype blocker = Client_in_container | Leases_in_bulk | Not_data | No_service | No_spelling

text \<open>Down the containers: an element that is a client's object or a proxy is refused, whatever it is inside of.\<close>

fun blocked_inside :: "tref \<Rightarrow> blocker option" where
  "blocked_inside (RLeaf k n w tw sp) = None"
| "blocked_inside (RWrap og e sp) = (if og = OPTIONAL_OF then None
     else let el = tr_required e in
       if tr_kind el = K_CLIENT then Some Client_in_container
       else if tr_kind el = K_PROXY then Some Leases_in_bulk
       else blocked_inside el)"

fun inside :: "tref \<Rightarrow> tref" where
  "inside (RLeaf k n w tw sp) = RLeaf k n w tw sp"
| "inside (RWrap og e sp) = (if og = OPTIONAL_OF then RWrap og e sp else inside (tr_required e))"

definition blocked_leaf :: "tref \<Rightarrow> string list \<Rightarrow> blocker option" where
  "blocked_leaf t served = (if tr_kind t = K_OPAQUE then Some Not_data
     else if tr_kind t = K_PROXY \<and> tr_name t \<notin> set served then Some No_service
     else if tr_kind t = K_MODULE \<and> SPELLED (tr_name t) = None then Some No_spelling
     else None)"

definition wire_blocker :: "tref \<Rightarrow> string list \<Rightarrow> blocker option" where
  "wire_blocker t served = (let r = tr_required t in
     case blocked_inside r of Some why \<Rightarrow> Some why | None \<Rightarrow> blocked_leaf (inside r) served)"

subsection \<open>The wire of a type\<close>

definition CROSSES :: "kind \<Rightarrow> wire_kind option" where
  "CROSSES k = (case k of K_ENUM \<Rightarrow> Some ENUM | K_VALUE \<Rightarrow> Some VALUE | K_UNION \<Rightarrow> Some UNION | K_ERROR \<Rightarrow> Some ERROR
     | K_PROXY \<Rightarrow> Some PROXY | K_CLIENT \<Rightarrow> Some CLIENT | _ \<Rightarrow> None)"

definition leaf_wire :: "bool \<Rightarrow> tref \<Rightarrow> exn + wire" where
  "leaf_wire opt t = (if tr_scalar t \<noteq> None then Inr (Wire SCALAR (if rl_width t \<noteq> [] then rl_width t else tr_name t) None opt)
     else (case CROSSES (tr_kind t) of Some k \<Rightarrow> Inr (Wire k (tr_name t) None opt) | None \<Rightarrow> Inl TypeError))"

fun wire_at :: "bool \<Rightarrow> tref \<Rightarrow> exn + wire" where
  "wire_at opt (RLeaf k n w tw sp) = leaf_wire opt (RLeaf k n w tw sp)"
| "wire_at opt (RWrap LIST_OF e sp) = res_bind (wire_at (tr_optional e) (tr_required e)) (\<lambda>w. Inr (Wire LIST [] (Some w) opt))"
| "wire_at opt (RWrap DICT_OF e sp) = res_bind (wire_at (tr_optional e) (tr_required e)) (\<lambda>w. Inr (Wire MAP [] (Some w) opt))"
| "wire_at opt (RWrap OPTIONAL_OF e sp) = Inl TypeError"

definition wire_of :: "tref \<Rightarrow> exn + wire" where
  "wire_of t = wire_at (tr_optional t) (tr_required t)"

definition wire_opt :: "tref option \<Rightarrow> exn + wire option" where
  "wire_opt t = (case t of None \<Rightarrow> Inr None | Some t \<Rightarrow> map_sum id Some (wire_of t))"

definition args_of :: "(string \<times> tref) list \<Rightarrow> exn + arg list" where
  "args_of ps = map_res (\<lambda>(n, t). map_sum id (Pair n) (wire_of t)) ps"

subsection \<open>Fields and parameters\<close>

definition crossable :: "dtype option \<Rightarrow> exn + unit" where
  "crossable t = (case t of None \<Rightarrow> Inr ()
     | Some t \<Rightarrow> if ty_origin (ty_required t) \<noteq> None \<and> ty_width (ty_required t) \<noteq> [] then Inl TypeError else Inr ())"

record field_model =
  fm_name :: string
  fm_type :: tref
  fm_read :: string

definition field_of :: "nat \<Rightarrow> known \<Rightarrow> string \<Rightarrow> dtype \<Rightarrow> string \<Rightarrow> exn + field_model" where
  "field_of n known name t rd = res_bind (crossable (Some t)) (\<lambda>_. res_bind (type_ref n known t) (\<lambda>r.
     Inr \<lparr>fm_name = name, fm_type = r, fm_read = rd\<rparr>))"

text \<open>The default of a parameter as the source that writes it: a member of a vocabulary, or the value.\<close>

datatype default_src = Member_of string string | Repr_of pyval

record param_model =
  pr_name :: string
  pr_type :: tref
  pr_default :: "default_src option"
  pr_cxx :: spelling
  pr_cxx_default :: string
  pr_absent :: bool
  pr_parsed_by :: string
  pr_via :: string
  pr_none :: bool

definition default_of :: "param \<Rightarrow> default_src option" where
  "default_of p = (case pm_default p of None \<Rightarrow> None
     | Some v \<Rightarrow> Some (if pm_member p \<noteq> [] then Member_of (ty_python (pm_type p)) (pm_member p) else Repr_of v))"

definition param_of :: "nat \<Rightarrow> known \<Rightarrow> param \<Rightarrow> exn + param_model" where
  "param_of n known p = (let declared = (if absent p then ty_required (pm_type p) else pm_type p) in
     res_bind (cxx_param n known (pm_type p)) (\<lambda>sp.
     res_bind (type_ref n known declared) (\<lambda>t.
     res_bind (cxx_default p) (\<lambda>d.
       Inr \<lparr>pr_name = pm_name p, pr_type = t, pr_default = default_of p, pr_cxx = sp, pr_cxx_default = d, pr_absent = absent p,
         pr_parsed_by = parsed_by (Some (pm_type p)) known,
         pr_via = (case cxx_handle (Some (pm_type p)) known of None \<Rightarrow> [] | Some c \<Rightarrow> dc_via (kl_decl c)),
         pr_none = (pm_default p = Some PNone)\<rparr>))))"

text \<open>Why a call has no rpc: each parameter that cannot cross, then the return.\<close>

datatype place = At_param string | At_return | At_function
datatype why = Cannot_cross blocker | Only_from_client | No_policy

definition blockers :: "param_model list \<Rightarrow> tref option \<Rightarrow> string list \<Rightarrow> (place \<times> why) list" where
  "blockers ps rt served =
     concat (map (\<lambda>p. case wire_blocker (pr_type p) served of None \<Rightarrow> [] | Some y \<Rightarrow> [(At_param (pr_name p), Cannot_cross y)]) ps)
     @ (case rt of None \<Rightarrow> []
        | Some t \<Rightarrow> (case wire_blocker t served of Some y \<Rightarrow> [(At_return, Cannot_cross y)]
            | None \<Rightarrow> if rl_kind (tr_leaf t) = K_CLIENT then [(At_return, Only_from_client)] else []))"

end
