(* ===== verification/Model_Classes.thy ===== *)
theory Model_Classes
  imports Model_Types
begin

text \<open>
  The typed model of a declaration set (\<open>huggorm_gen/ir.py\<close>, and \<open>declared_model\<close> of \<open>cppgen/generate.py\<close>): methods,
  functions and classes with every check their construction makes, the unions, the errors with the order their C++ classes are
  caught in, and the whole set. The dataclasses keep the fields later stages decide by; text that is only printed is left out.
\<close>

subsection \<open>Checks of a method\<close>

definition guard_exn :: "bool \<Rightarrow> exn \<Rightarrow> exn + unit" where
  "guard_exn ok e = (if ok then Inr () else Inl e)"

text \<open>\<open>@tagged\<close>: the word of an arm answers the test that the union holds it.\<close>

definition arm_test :: "(string \<times> string \<times> (string, string) dict) \<Rightarrow> string \<Rightarrow> exn + string \<times> string \<times> string" where
  "arm_test tg word = (case tg of (hold, how, arms) \<Rightarrow> (case dict_get arms word of None \<Rightarrow> Inl ValueError | Some tag \<Rightarrow> Inr (hold, how, tag)))"

definition tagged_of :: "dclass \<Rightarrow> meth \<Rightarrow> exn + (string \<times> string \<times> (string, string) dict) option" where
  "tagged_of owner m = (if \<not> (mt_guard m \<noteq> [] \<or> mt_names m) then Inr None
     else (case dc_tagged (kl_decl owner) of None \<Rightarrow> Inl ValueError | Some tg \<Rightarrow> Inr (Some tg)))"

definition spells_ok :: "meth \<Rightarrow> known \<Rightarrow> exn + unit" where
  "spells_ok m known = guard_exn (list_all (\<lambda>n. case dict_get known n of None \<Rightarrow> False
     | Some held \<Rightarrow> is_words held \<and> dc_enumerated (kl_decl held) \<noteq> None) (mt_spells m)) TypeError"

definition converts_nothing :: "known \<Rightarrow> bool \<Rightarrow> bool \<Rightarrow> dtype option \<Rightarrow> bool" where
  "converts_nothing known scalars is_ret t = (case t of None \<Rightarrow> True
     | Some t \<Rightarrow> \<not> (scalars \<or> ty_container (ty_required t)) \<or>
         (let leaf = ty_leaf t; held = dict_get known (ty_python leaf);
              word = (if is_ret then (case held of None \<Rightarrow> False | Some h \<Rightarrow> is_words h \<and> dc_enumerated (kl_decl h) \<noteq> None)
                      else parsed_by (Some leaf) known \<noteq> [])
          in \<not> word \<and> cxx_handle (Some leaf) known = None))"

definition unconverted :: "meth \<Rightarrow> known \<Rightarrow> bool \<Rightarrow> exn + unit" where
  "unconverted m known scalars = guard_exn (mt_body m \<or>
     list_all (\<lambda>p. converts_nothing known scalars False (Some (pm_type p))) (mt_params m) \<and> converts_nothing known scalars True (mt_ret m)) TypeError"

definition virtual_of :: "dclass \<Rightarrow> meth \<Rightarrow> exn + bool" where
  "virtual_of owner m = (if \<not> mt_virtual m then Inr False
     else if dc_wire (kl_decl owner) \<noteq> By_local then Inl TypeError
     else if mt_body m \<or> mt_reads m \<noteq> [] then Inl TypeError else Inr True)"

definition posted_of :: "dclass \<Rightarrow> meth \<Rightarrow> exn + bool" where
  "posted_of owner m = (if \<not> mt_posted m then Inr False
     else if \<not> dc_calls_back (kl_decl owner) then Inl TypeError
     else if mt_ret m \<noteq> None then Inl TypeError else Inr True)"

definition subscription_of :: "meth \<Rightarrow> exn + subscription option" where
  "subscription_of m = (case mt_subscription m of None \<Rightarrow> Inr None
     | Some OPEN \<Rightarrow> if map pm_name (mt_params m) \<noteq> [''capacity'', ''level''] \<or> mt_ret m = None then Inl TypeError else Inr (Some OPEN)
     | Some CLOSE \<Rightarrow> if mt_params m \<noteq> [] \<or> mt_ret m \<noteq> None then Inl TypeError else Inr (Some CLOSE))"

text \<open>\<open>@fills\<close>: the class of the first parameter holds the table of arms.\<close>

definition fill_of :: "meth \<Rightarrow> param_model list \<Rightarrow> known \<Rightarrow> exn + (string \<times> string \<times> string \<times> string \<times> string) option" where
  "fill_of m ps known = (case mt_fills m of None \<Rightarrow> Inr None
     | Some (maker, arm) \<Rightarrow> (case ps of [] \<Rightarrow> Inl ValueError
         | p # _ \<Rightarrow> (case dict_get known (tr_spelling (pr_type p)) of None \<Rightarrow> Inl ValueError
             | Some held \<Rightarrow> (case dc_tagged (kl_decl held) of None \<Rightarrow> Inl ValueError
                 | Some tg \<Rightarrow> res_bind (arm_test tg arm) (\<lambda>test. Inr (Some (maker, pr_name p, test)))))))"

subsection \<open>Methods and functions\<close>

record method_model =
  mm_name :: string
  mm_params :: "param_model list"
  mm_returns :: "tref option"
  mm_blocks :: bool
  mm_body :: bool
  mm_guard :: "(string \<times> string \<times> string) option"
  mm_fills :: "(string \<times> string \<times> string \<times> string \<times> string) option" \<comment> \<open>the maker, the target and its arm's test\<close>
  mm_local :: bool
  mm_virtual :: bool
  mm_posted :: bool
  mm_subscription :: "subscription option"

definition type_opt :: "nat \<Rightarrow> known \<Rightarrow> dtype option \<Rightarrow> exn + tref option" where
  "type_opt n known t = (case t of None \<Rightarrow> Inr None | Some t \<Rightarrow> map_sum id Some (type_ref n known t))"

definition method_of :: "nat \<Rightarrow> known \<Rightarrow> dclass \<Rightarrow> meth \<Rightarrow> exn + method_model" where
  "method_of n known owner m =
     res_bind (guard_exn (\<not> mt_prop m) TypeError) (\<lambda>_.
     res_bind (map_res (param_of n known) (mt_params m)) (\<lambda>ps.
     res_bind (virtual_of owner m) (\<lambda>virt.
     res_bind (if virt then Inr () else unconverted m known False) (\<lambda>_.
     res_bind (tagged_of owner m) (\<lambda>tg.
     res_bind (case tg of Some t \<Rightarrow> if mt_guard m \<noteq> [] then map_sum id Some (arm_test t (mt_guard m)) else Inr None | None \<Rightarrow> Inr None) (\<lambda>guard.
     res_bind (type_opt n known (mt_ret m)) (\<lambda>rt.
     res_bind (fill_of m ps known) (\<lambda>fill.
     res_bind (posted_of owner m) (\<lambda>post.
     res_bind (subscription_of m) (\<lambda>sub.
     res_bind (spells_ok m known) (\<lambda>_.
       Inr \<lparr>mm_name = mt_name m, mm_params = ps, mm_returns = rt, mm_blocks = mt_blocks m, mm_body = mt_body m, mm_guard = guard,
         mm_fills = fill, mm_local = mt_local m, mm_virtual = virt, mm_posted = post, mm_subscription = sub\<rparr>)))))))))))"

record function_model =
  fn_name :: string
  fn_module :: string
  fn_threading :: "threading option"
  fn_params :: "param_model list"
  fn_returns :: "tref option"
  fn_calls :: "(string \<times> string) option"
  fn_startup :: bool
  fn_translator :: bool
  fn_subscription :: "subscription option"

definition check_crossable :: "meth \<Rightarrow> exn + unit" where
  "check_crossable m = res_bind (map_res (\<lambda>p. crossable (Some (pm_type p))) (mt_params m)) (\<lambda>_. crossable (mt_ret m))"

definition function_of :: "nat \<Rightarrow> known \<Rightarrow> string \<Rightarrow> meth \<Rightarrow> exn + function_model" where
  "function_of n known module fn =
     res_bind (if mt_policy fn \<noteq> None then check_crossable fn else Inr ()) (\<lambda>_.
     res_bind (unconverted fn known True) (\<lambda>_.
     res_bind (map_res (param_of n known) (mt_params fn)) (\<lambda>ps.
     res_bind (type_opt n known (mt_ret fn)) (\<lambda>rt.
     res_bind (spells_ok fn known) (\<lambda>_.
     res_bind (subscription_of fn) (\<lambda>sub.
       Inr \<lparr>fn_name = mt_name fn, fn_module = module, fn_threading = mt_policy fn, fn_params = ps, fn_returns = rt, fn_calls = None,
         fn_startup = mt_startup fn, fn_translator = mt_translator fn, fn_subscription = sub\<rparr>))))))"

definition fn_wrapped :: "function_model \<Rightarrow> bool" where
  "fn_wrapped f \<longleftrightarrow> fn_threading f \<noteq> None"

subsection \<open>Classes\<close>

record class_model =
  km_name :: string
  km_module :: string
  km_is_value :: bool
  km_produced :: bool
  km_constructs :: bool
  km_fields :: "field_model list"
  km_ctor :: "param_model list"
  km_bound :: "method_model list"
  km_init :: "method_model option"
  km_factory :: "function_model option"
  km_from_parts :: "method_model option"
  km_text :: string
  km_ordered :: bool
  km_unit :: bool
  km_wire :: crossing
  km_threading :: threading
  km_blocking :: bool
  km_made_elsewhere :: bool
  km_cxx :: string
  km_tree :: "tree_decl option"
  km_builds :: "builds_decl option"
  km_calls_back :: bool

definition factory_of :: "dclass \<Rightarrow> meth list \<Rightarrow> meth option" where
  "factory_of c fns = (if dc_factory (kl_decl c) = [] \<or> kl_ctor c = None then None
     else List.find (\<lambda>f. mt_name f = dc_factory (kl_decl c)) fns)"

definition ctor_params :: "dclass \<Rightarrow> meth list \<Rightarrow> param list" where
  "ctor_params c fns = (case factory_of c fns of Some f \<Rightarrow> mt_params f
     | None \<Rightarrow> (case kl_ctor c of None \<Rightarrow> [] | Some m \<Rightarrow> mt_params m))"

definition TREE_LEAVES :: "string list" where
  "TREE_LEAVES = [''str'', ''int'', ''bool'', ''float'']"

fun part_names :: "tree_part \<Rightarrow> string list" where
  "part_names (TLeaf w r) = [r]"
| "part_names TNull = []"
| "part_names (TItems s i) = [s, i]"
| "part_names (TEntries s n v) = [s, n, v]"

definition tree_names :: "tree_decl \<Rightarrow> string list" where
  "tree_names tr = td_kind tr # filter (\<lambda>n. n \<noteq> []) [td_identity tr, td_force tr, td_stop tr] @ concat (map (part_names \<circ> snd) (td_kinds tr))"

definition walkable :: "class_model \<Rightarrow> tree_decl \<Rightarrow> exn + unit" where
  "walkable c tr = guard_exn (list_all (\<lambda>(a, p). case p of TLeaf w r \<Rightarrow> w \<in> set TREE_LEAVES | _ \<Rightarrow> True) (td_kinds tr) \<and>
     set (tree_names tr) \<subseteq> set (map mm_name (km_bound c))) TypeError"

definition build_names :: "builds_decl \<Rightarrow> string list" where
  "build_names b = bu_null b # map snd (bu_leaves b) @ [bu_items b, bu_add_item b, bu_entries b, bu_add_entry b]"

definition buildable :: "class_model \<Rightarrow> builds_decl \<Rightarrow> exn + unit" where
  "buildable c b = guard_exn (set (dict_keys (bu_leaves b)) \<subseteq> set TREE_LEAVES \<and>
     set (build_names b) \<subseteq> set (map mm_name (km_bound c))) TypeError"

text \<open>\<open>_shaped\<close>: what the binding depends on.\<close>

definition shaped :: "class_model \<Rightarrow> exn + class_model" where
  "shaped c =
     res_bind (guard_exn (km_text c = [] \<or> km_text c \<in> set (map mm_name (km_bound c))) TypeError) (\<lambda>_.
     res_bind (case km_tree c of None \<Rightarrow> Inr () | Some tr \<Rightarrow> walkable c tr) (\<lambda>_.
     res_bind (case km_builds c of None \<Rightarrow> Inr () | Some b \<Rightarrow> buildable c b) (\<lambda>_.
     res_bind (guard_exn (\<not> (km_wire c = By_value \<and> (km_fields c \<noteq> [] \<or> km_unit c) \<and> \<not> km_is_value c \<and>
         (case km_init c of None \<Rightarrow> False | Some i \<Rightarrow> length (mm_params i) \<noteq> length (km_fields c)))) TypeError) (\<lambda>_.
     if \<not> km_is_value c then Inr c
     else (case km_from_parts c of
         Some fp \<Rightarrow> if mm_body fp then Inr c else Inl TypeError
       | None \<Rightarrow> res_bind (guard_exn (\<not> (list_ex (\<lambda>f. fm_read f \<noteq> fm_name f) (km_fields c) \<and>
             map fm_name (km_fields c) \<noteq> map mm_name (filter (\<lambda>m. mm_returns m \<noteq> None \<and> \<not> mm_local m) (km_bound c)))) TypeError)
           (\<lambda>_. Inr c))))))"

definition check_messages :: "dclass \<Rightarrow> meth list \<Rightarrow> exn + unit" where
  "check_messages c fns = (if dc_wire (kl_decl c) \<noteq> By_proxy then Inr ()
     else res_bind (map_res (\<lambda>p. crossable (Some (pm_type p))) (ctor_params c fns)) (\<lambda>_.
       res_bind (map_res check_crossable (kl_methods c)) (\<lambda>_. Inr ())))"

definition field_models :: "nat \<Rightarrow> known \<Rightarrow> ((string \<times> string) \<times> meth) list \<Rightarrow> exn + field_model list" where
  "field_models n known ps = map_res (\<lambda>((name, rd), m). case mt_ret m of
       Some t \<Rightarrow> field_of n known name t rd | None \<Rightarrow> Inl TypeError) (filter (\<lambda>p. mt_ret (snd p) \<noteq> None) ps)"

definition method_opt :: "nat \<Rightarrow> known \<Rightarrow> dclass \<Rightarrow> meth option \<Rightarrow> exn + method_model option" where
  "method_opt n known c m = (case m of None \<Rightarrow> Inr None | Some m \<Rightarrow> map_sum id Some (method_of n known c m))"

definition class_of_decl :: "nat \<Rightarrow> known \<Rightarrow> string \<Rightarrow> meth list \<Rightarrow> dclass \<Rightarrow> exn + class_model" where
  "class_of_decl n known module fns c =
     res_bind (check_messages c fns) (\<lambda>_.
     res_bind (parts c) (\<lambda>ps.
     res_bind (field_models n known ps) (\<lambda>fields.
     res_bind (map_res (param_of n known) (ctor_params c fns)) (\<lambda>ctor.
     res_bind (map_res (method_of n known c) (kl_methods c)) (\<lambda>bound.
     res_bind (method_opt n known c (kl_ctor c)) (\<lambda>init.
     res_bind (case factory_of c fns of None \<Rightarrow> Inr None | Some f \<Rightarrow> map_sum id Some (function_of n known module f)) (\<lambda>fac.
     res_bind (method_opt n known c (kl_from_parts c)) (\<lambda>fp.
     shaped \<lparr>km_name = kl_name c, km_module = module, km_is_value = is_value c, km_produced = is_produced c, km_constructs = constructs c,
       km_fields = fields, km_ctor = ctor, km_bound = bound, km_init = init, km_factory = fac, km_from_parts = fp,
       km_text = dc_text (kl_decl c), km_ordered = dc_order (kl_decl c), km_unit = dc_unit (kl_decl c), km_wire = dc_wire (kl_decl c),
       km_threading = dc_threading (kl_decl c), km_blocking = dc_blocking (kl_decl c), km_made_elsewhere = dc_produced (kl_decl c),
       km_cxx = dc_cxx (kl_decl c), km_tree = dc_tree (kl_decl c), km_builds = dc_builds (kl_decl c), km_calls_back = dc_calls_back (kl_decl c)\<rparr>))))))))"

definition is_surface :: "string \<Rightarrow> bool" where
  "is_surface n \<longleftrightarrow> take 1 n \<noteq> ''_'' \<or> n = ''__call__''"

definition km_methods :: "class_model \<Rightarrow> method_model list" where
  "km_methods c = filter (\<lambda>m. is_surface (mm_name m)) (km_bound c)"

definition hooks_of :: "class_model \<Rightarrow> method_model list" where
  "hooks_of c = filter mm_virtual (km_bound c)"

definition km_served :: "class_model \<Rightarrow> bool" where
  "km_served c \<longleftrightarrow> km_wire c = By_proxy"

definition km_wrapped :: "class_model \<Rightarrow> bool" where
  "km_wrapped c \<longleftrightarrow> km_threading c = AFFINE \<or> km_blocking c"

definition km_copied :: "class_model \<Rightarrow> bool" where
  "km_copied c \<longleftrightarrow> km_wire c = By_value"

datatype execution = POOL_EXEC | AFFINE_EXEC | INLINE_EXEC

definition km_execution :: "class_model \<Rightarrow> execution" where
  "km_execution c = (if \<not> km_wrapped c then INLINE_EXEC else case km_threading c of POOL \<Rightarrow> POOL_EXEC | AFFINE \<Rightarrow> AFFINE_EXEC)"

definition km_bindable :: "class_model \<Rightarrow> bool" where
  "km_bindable c \<longleftrightarrow> km_cxx c \<noteq> [] \<or> km_is_value c"

end
