(* ===== verification/Model_Set.thy ===== *)
theory Model_Set
  imports Model_Classes
begin

text \<open>
  The whole declaration set (\<open>Model\<close> of \<open>ir.py\<close>, built by \<open>declared_model\<close> of \<open>cppgen/generate.py\<close>): the unions, the
  errors and the order the translator catches them in, the modules, and what the stages ask of the set: which call makes
  a class, who is served, built, handed back or called back, which calls cross, and what the front door offers.
\<close>

subsection \<open>Unions and errors\<close>

definition union_arm :: "nat \<Rightarrow> known \<Rightarrow> dclass \<Rightarrow> string \<Rightarrow> exn + tref" where
  "union_arm n known u a = (let held = (case dict_get (dc_scalars (kl_decl u)) a of Some t \<Rightarrow> t | None \<Rightarrow> DLeaf a None True [] []) in
     res_bind (cxx_value n known held) (\<lambda>sc.
     res_bind (kind_of known a) (\<lambda>k.
     res_bind (cxx_arm n known u a) (\<lambda>s. Inr (RLeaf k a [] [] (s, snd sc))))))"

definition union_of :: "nat \<Rightarrow> known \<Rightarrow> dclass \<Rightarrow> exn + tref list" where
  "union_of n known u = map_res (union_arm n known u) (dc_arms (kl_decl u))"

record error_model =
  er_name :: string
  er_bases :: "string list"
  er_fields :: "(string \<times> tref) list"
  er_cxx :: string

definition MESSAGE_PARTS :: nat where "MESSAGE_PARTS = 2"

definition reader_ok :: "string \<times> tref \<Rightarrow> exn + unit" where
  "reader_ok f = guard_exn (tr_kind (tr_required (snd f)) = K_VALUE) TypeError"

definition error_of :: "nat \<Rightarrow> known \<Rightarrow> dclass \<Rightarrow> exn + error_model" where
  "error_of n known c = (case kl_raised c of None \<Rightarrow> Inl TypeError
     | Some r \<Rightarrow>
       res_bind (map_res (\<lambda>(p, t). map_sum id (Pair p) (type_ref n known t)) (ra_parts r)) (\<lambda>parts.
       res_bind (if ra_cxx r = [] then Inr [] else map_res reader_ok (drop MESSAGE_PARTS parts)) (\<lambda>_.
         Inr \<lparr>er_name = kl_name c, er_bases = ra_bases r, er_fields = parts, er_cxx = ra_cxx r\<rparr>)))"

text \<open>How far a class is from the root, by its first base. The loop counts its turns; a hierarchy that ends needs at most as
  many as there are classes.\<close>

fun depth_loop :: "nat \<Rightarrow> (string, error_model) dict \<Rightarrow> string \<Rightarrow> nat \<Rightarrow> (exn + nat) option" where
  "depth_loop 0 classes name d = None"
| "depth_loop (Suc n) classes name d = (case dict_get classes name of None \<Rightarrow> Some (Inl KeyError)
     | Some e \<Rightarrow> (case er_bases e of [] \<Rightarrow> Some (Inr d) | b # _ \<Rightarrow> depth_loop n classes b (Suc d)))"

definition depth_of :: "(string, error_model) dict \<Rightarrow> string \<Rightarrow> (exn + nat) option" where
  "depth_of classes name = depth_loop (Suc (length classes)) classes name 0"

definition depth_at :: "(string, error_model) dict \<Rightarrow> string \<Rightarrow> nat" where
  "depth_at classes name = (case depth_of classes name of Some (Inr d) \<Rightarrow> d | _ \<Rightarrow> 0)"

text \<open>The classes by name, and the caught ones with the deepest first; declared order breaks a tie.\<close>

definition error_dict :: "error_model list \<Rightarrow> (string, error_model) dict" where
  "error_dict es = map (\<lambda>e. (er_name e, e)) (sort_by (\<lambda>a b. str_le (er_name a) (er_name b)) es)"

definition caught_of :: "(string, error_model) dict \<Rightarrow> string list \<Rightarrow> exn + string list" where
  "caught_of classes declared = (let cs = filter (\<lambda>n. case dict_get classes n of None \<Rightarrow> False | Some e \<Rightarrow> er_cxx e \<noteq> []) declared in
     res_bind (map_res (\<lambda>n. case depth_of classes n of Some r \<Rightarrow> r | None \<Rightarrow> Inl RuntimeError) cs)
       (\<lambda>_. Inr (sort_by (\<lambda>a b. depth_at classes a \<ge> depth_at classes b) cs)))"

definition errors_of :: "nat \<Rightarrow> known \<Rightarrow> dclass list \<Rightarrow> exn + (string, error_model) dict \<times> string list" where
  "errors_of n known declared = res_bind (map_res (error_of n known) (sort_by (\<lambda>a b. str_le (kl_name a) (kl_name b)) declared)) (\<lambda>es.
     let classes = map (\<lambda>e. (er_name e, e)) es in
     res_bind (caught_of classes (map kl_name declared)) (\<lambda>cs. Inr (classes, cs)))"

subsection \<open>Files and the set\<close>

record module_model =
  mu_name :: string
  mu_classes :: "class_model list"
  mu_functions :: "function_model list"
  mu_exported :: "function_model list"

record model =
  mo_classes :: "(string, class_model) dict"
  mo_functions :: "(string, function_model) dict"
  mo_unions :: "(string, tref list) dict"
  mo_errors :: "(string, error_model) dict"
  mo_caught :: "string list"
  mo_modules :: "module_model list"
  mo_vocabularies :: "(string \<times> string list) list" \<comment> \<open>each vocabulary file with its words\<close>

definition by_name :: "('a \<Rightarrow> string) \<Rightarrow> 'a list \<Rightarrow> (string, 'a) dict \<Rightarrow> (string, 'a) dict" where
  "by_name nm xs d = fold (\<lambda>x d. dict_set (nm x) x d) xs d"

definition module_of :: "nat \<Rightarrow> string \<Rightarrow> dmodule \<Rightarrow> exn + module_model" where
  "module_of n package md = (let known = known_of md; module = package @ ''.'' @ md_name md in
     res_bind (map_res (function_of n known module) (md_functions md)) (\<lambda>fns.
     res_bind (map_res (class_of_decl n known module (md_functions md)) (md_classes md)) (\<lambda>cs.
       let d = by_name fn_name fns [] in
       Inr \<lparr>mu_name = md_name md, mu_classes = cs, mu_functions = map snd d,
         mu_exported = concat (map (\<lambda>f. case dict_get d (mt_name f) of None \<Rightarrow> [] | Some x \<Rightarrow> [x]) (exported md))\<rparr>)))"

text \<open>\<open>producers\<close>: each call that hands a class back, by the name at the leaf of its return.\<close>

definition made :: "tref option \<Rightarrow> string \<Rightarrow> bool" where
  "made t name \<longleftrightarrow> (case t of None \<Rightarrow> False | Some t \<Rightarrow> tr_name t = name)"

definition producers :: "module_model list \<Rightarrow> string \<Rightarrow> string list" where
  "producers us name = sort_by str_le (concat (map (\<lambda>u.
     concat (map (\<lambda>c. map (\<lambda>m. km_name c @ ''.'' @ mm_name m) (filter (\<lambda>m. made (mm_returns m) name) (km_bound c))) (mu_classes u))
     @ map fn_name (filter (\<lambda>f. made (fn_returns f) name) (mu_functions u))) us))"

definition post_init :: "model \<Rightarrow> exn + model" where
  "post_init m = (if list_ex (\<lambda>(n, c). km_made_elsewhere c \<and> producers (mo_modules m) n = []) (mo_classes m)
     then Inl TypeError else Inr m)"

definition unions_of :: "nat \<Rightarrow> dmodule list \<Rightarrow> exn + (string, tref list) dict" where
  "unions_of n mds = res_bind (map_res (\<lambda>md. map_res (\<lambda>u. map_sum id (Pair (kl_name u)) (union_of n (known_of md) u)) (md_unions md)) mds)
     (\<lambda>us. Inr (fold (\<lambda>(k, v) d. dict_set k v d) (concat us) []))"

definition declared_model :: "nat \<Rightarrow> string \<Rightarrow> dmodule list \<Rightarrow> dmodule list \<Rightarrow> dmodule option \<Rightarrow> exn + model" where
  "declared_model n package mds vocabs errs =
     res_bind (map_res (module_of n package) mds) (\<lambda>us.
     res_bind (unions_of n mds) (\<lambda>unions.
     res_bind (case errs of None \<Rightarrow> Inr ([], []) | Some md \<Rightarrow> errors_of n (known_of md) (md_errors md)) (\<lambda>errors.
       post_init \<lparr>mo_classes = by_name km_name (concat (map mu_classes us)) [],
         mo_functions = by_name fn_name (concat (map mu_exported us)) [], mo_unions = unions,
         mo_errors = fst errors, mo_caught = snd errors, mo_modules = us,
         mo_vocabularies = map (\<lambda>md. (md_name md, map kl_name (filter is_words (md_classes md)))) vocabs\<rparr>)))"

subsection \<open>What the stages ask\<close>

definition returned :: "model \<Rightarrow> string list" where
  "returned m = filter (\<lambda>n. producers (mo_modules m) n \<noteq> [] \<and>
     (case dict_get (mo_classes m) n of None \<Rightarrow> False | Some c \<Rightarrow> km_produced c)) (dict_keys (mo_classes m))"

definition served :: "model \<Rightarrow> string list" where
  "served m = map fst (filter (km_served \<circ> snd) (mo_classes m))"

definition classes_named :: "model \<Rightarrow> (string \<Rightarrow> bool) \<Rightarrow> class_model list" where
  "classes_named m P = concat (map (\<lambda>n. if P n then (case dict_get (mo_classes m) n of None \<Rightarrow> [] | Some c \<Rightarrow> [c]) else [])
     (sorted_strs (dict_keys (mo_classes m))))"

definition constructed :: "model \<Rightarrow> class_model list" where
  "constructed m = classes_named m (\<lambda>n. n \<notin> set (returned m))"

definition handed_back :: "model \<Rightarrow> class_model list" where
  "handed_back m = classes_named m (\<lambda>n. n \<in> set (returned m))"

definition acquirable :: "model \<Rightarrow> class_model list" where
  "acquirable m = filter km_served (constructed m)"

definition called_back :: "model \<Rightarrow> class_model list" where
  "called_back m = filter km_calls_back (classes_named m (\<lambda>_. True))"

definition ordered_served :: "model \<Rightarrow> class_model list" where
  "ordered_served m = filter km_served (handed_back m @ constructed m)"

definition adopted_class :: "model \<Rightarrow> tref option \<Rightarrow> class_model option" where
  "adopted_class m t = (case t of None \<Rightarrow> None
     | Some t \<Rightarrow> if tr_origin (tr_required t) \<noteq> None \<or> tr_kind t \<noteq> K_PROXY then None
         else (case dict_get (mo_classes m) (tr_name t) of None \<Rightarrow> None | Some c \<Rightarrow> if km_served c then Some c else None))"

definition offered :: "model \<Rightarrow> method_model \<Rightarrow> bool" where
  "offered m mm \<longleftrightarrow> blockers (mm_params mm) (mm_returns mm) (served m) = []"

definition function_blockers :: "model \<Rightarrow> function_model \<Rightarrow> (place \<times> why) list" where
  "function_blockers m fn = (if \<not> fn_wrapped fn then [(At_function, No_policy)] else blockers (fn_params fn) (fn_returns fn) (served m))"

text \<open>The free coroutine of a method a value blocks in.\<close>

definition is_upper :: "char \<Rightarrow> bool" where
  "is_upper c \<longleftrightarrow> 65 \<le> (of_char c :: nat) \<and> of_char c \<le> (90 :: nat)"

definition lower_char :: "char \<Rightarrow> char" where
  "lower_char c = (if is_upper c then char_of (of_char c + 32 :: nat) else c)"

definition snake :: "string \<Rightarrow> string" where
  "snake s = (case s of [] \<Rightarrow> [] | c # cs \<Rightarrow> lower_char c # concat (map (\<lambda>c. if is_upper c then [CHR ''_'', lower_char c] else [lower_char c]) cs))"

definition self_param :: "class_model \<Rightarrow> param_model" where
  "self_param c = \<lparr>pr_name = snake (km_name c), pr_type = RLeaf K_VALUE (km_name c) [] [] ([], None), pr_default = None, pr_cxx = ([], None),
     pr_cxx_default = [], pr_absent = False, pr_parsed_by = [], pr_via = [], pr_none = False\<rparr>"

definition blocking_method :: "model \<Rightarrow> class_model \<Rightarrow> method_model \<Rightarrow> exn + function_model list" where
  "blocking_method m c mm = (if \<not> mm_blocks mm \<or> km_wrapped c then Inr []
     else if km_served c then Inl TypeError
     else let name = snake (km_name c) @ ''_'' @ mm_name mm in
       if dict_get (mo_functions m) name \<noteq> None then Inl TypeError
       else Inr [\<lparr>fn_name = name, fn_module = km_module c, fn_threading = Some (km_threading c), fn_params = self_param c # mm_params mm,
         fn_returns = mm_returns mm, fn_calls = Some (km_name c, mm_name mm), fn_startup = False, fn_translator = False, fn_subscription = None\<rparr>])"

definition blocking_methods :: "model \<Rightarrow> exn + function_model list" where
  "blocking_methods m = map_sum id concat (map_res (\<lambda>(c, mm). blocking_method m c mm)
     (concat (map (\<lambda>c. map (Pair c) (km_methods c)) (map snd (mo_classes m)))))"

text \<open>The front door: each module's classes and exported functions, and the words of the vocabularies.\<close>

definition exports :: "model \<Rightarrow> (string \<times> string list) list" where
  "exports m = (let units = filter (\<lambda>p. snd p \<noteq> []) (map (\<lambda>u. (mu_name u, map km_name (mu_classes u) @ map fn_name (mu_exported u))) (mo_modules m));
       out = fold (\<lambda>(k, v) d. dict_set k v d) units [];
       out2 = fold (\<lambda>(k, v) d. if v = [] then d else dict_set k (dict_default d k [] @ v) d) (mo_vocabularies m) out
     in map (\<lambda>k. (k, sort_by str_le (dict_default out2 k []))) (sorted_strs (dict_keys out2)))"

end
