(* ===== verification/Contracts.thy ===== *)
theory Contracts
  imports Model_Set
begin

text \<open>
  The rules a declaration set obeys before anything is emitted (\<open>huggorm_gen/contracts.py\<close>): each answers its complaints,
  with the class and the method or field they are about; the build goes on only when there is none.
\<close>

datatype rule = Wrap_contract | Collection_contract | Policy_rule | Free_function_contract | Wire_contract

type_synonym complaint = "string \<times> string" \<comment> \<open>the class or function, and the method or field\<close>

definition class_list :: "model \<Rightarrow> class_model list" where
  "class_list m = map snd (mo_classes m)"

text \<open>\<open>wrap\<close>: an unwrapped class is on the pool and hands back no object that needs a wrapper.\<close>

definition wrap_rule :: "model \<Rightarrow> complaint list" where
  "wrap_rule m = concat (map (\<lambda>c. if km_wrapped c then []
     else (if km_threading c \<noteq> POOL then [(km_name c, [])] else [])
       @ map (\<lambda>mm. (km_name c, mm_name mm)) (filter (\<lambda>mm. case adopted_class m (mm_returns mm) of None \<Rightarrow> False | Some a \<Rightarrow> km_wrapped a) (km_methods c)))
     (class_list m))"

text \<open>\<open>collection\<close>: no method returns a container of a wrapped class.\<close>

definition in_container :: "model \<Rightarrow> tref option \<Rightarrow> bool" where
  "in_container m t \<longleftrightarrow> (case t of None \<Rightarrow> False
     | Some t \<Rightarrow> tr_name t \<in> fst ` set (filter (km_wrapped \<circ> snd) (mo_classes m)) \<and> tr_origin (tr_required t) \<noteq> None)"

definition collection_rule :: "model \<Rightarrow> complaint list" where
  "collection_rule m = concat (map (\<lambda>c. map (\<lambda>mm. (km_name c, mm_name mm)) (filter (\<lambda>mm. in_container m (mm_returns mm)) (km_methods c))) (class_list m))"

text \<open>\<open>affine_from_pool\<close>: no pool class hands back an affine one.\<close>

definition hands_affine :: "model \<Rightarrow> tref option \<Rightarrow> bool" where
  "hands_affine m t \<longleftrightarrow> (case adopted_class m t of None \<Rightarrow> False | Some a \<Rightarrow> km_wrapped a \<and> km_threading a = AFFINE)"

definition affine_rule :: "model \<Rightarrow> complaint list" where
  "affine_rule m = concat (map (\<lambda>c. map (\<lambda>mm. (km_name c, mm_name mm)) (filter (\<lambda>mm. hands_affine m (mm_returns mm)) (km_methods c)))
     (filter (\<lambda>c. km_threading c = POOL) (class_list m)))"

text \<open>\<open>free_functions\<close>: what a free function hands back is adopted from the pool.\<close>

definition function_bad :: "model \<Rightarrow> function_model \<Rightarrow> bool" where
  "function_bad m f \<longleftrightarrow> (case fn_returns f of None \<Rightarrow> False
     | Some r \<Rightarrow> rl_kind (tr_leaf r) = K_PROXY \<and> (case adopted_class m (Some r) of None \<Rightarrow> True | Some a \<Rightarrow> km_threading a \<noteq> POOL))"

definition functions_rule :: "model \<Rightarrow> exn + complaint list" where
  "functions_rule m = res_bind (blocking_methods m) (\<lambda>bs.
     Inr (map (\<lambda>f. (fn_name f, [])) (filter (function_bad m) (filter fn_wrapped (map snd (mo_functions m)) @ bs))))"

text \<open>\<open>wire\<close>: a value has parts or is a unit, is on the pool, and copies all the way down.\<close>

definition field_bad :: "model \<Rightarrow> field_model \<Rightarrow> bool" where
  "field_bad m f \<longleftrightarrow> wire_blocker (fm_type f) (served m) \<noteq> None \<or> rl_kind (tr_leaf (fm_type f)) \<in> {K_PROXY, K_CLIENT}"

definition wire_rule :: "model \<Rightarrow> complaint list" where
  "wire_rule m = concat (map (\<lambda>c.
     if km_wire c \<noteq> By_value then (if km_fields c \<noteq> [] then [(km_name c, [])] else [])
     else (if km_fields c = [] \<and> \<not> km_unit c then [(km_name c, [])] else [])
       @ (if km_fields c \<noteq> [] \<and> km_unit c then [(km_name c, [])] else [])
       @ (if km_threading c \<noteq> POOL then [(km_name c, [])] else [])
       @ map (\<lambda>f. (km_name c, fm_name f)) (filter (field_bad m) (km_fields c))) (class_list m))"

definition complaints :: "model \<Rightarrow> exn + (rule \<times> complaint) list" where
  "complaints m = res_bind (functions_rule m) (\<lambda>fs.
     Inr (map (Pair Wrap_contract) (wrap_rule m) @ map (Pair Collection_contract) (collection_rule m) @ map (Pair Policy_rule) (affine_rule m)
       @ map (Pair Free_function_contract) fs @ map (Pair Wire_contract) (wire_rule m)))"

end
