(* ===== verification/Policy.thy ===== *)
theory Policy
  imports Contracts
begin

text \<open>
  The wire policy the build emits (\<open>policy_module\<close> of \<open>pygen/emitter.py\<close>): the parts of values and errors, the arms of
  unions, every call's spec under its number, the hooks of a client's objects and the tables a caller reaches by name. The
  specs are the records the dispatcher reads. A module of source text is not modelled: what \<open>_literal\<close> writes is the value.
\<close>

subsection \<open>Specs and their numbers\<close>

definition spec_of :: "nat \<Rightarrow> string \<Rightarrow> param_model list \<Rightarrow> tref option \<Rightarrow> subscription option \<Rightarrow> exn + call" where
  "spec_of i name ps rt sub = res_bind (args_of (map (\<lambda>p. (pr_name p, pr_type p)) ps)) (\<lambda>as. res_bind (wire_opt rt) (\<lambda>w.
     Inr \<lparr>ca_index = i, ca_name = name, ca_args = as, ca_returns = w, ca_sub = sub\<rparr>))"

text \<open>A class's methods: a spec with the next number for each that crosses, and a \<open>Local\<close> for the others, whose return
  is resolved as well.\<close>

fun method_specs :: "model \<Rightarrow> nat \<Rightarrow> method_model list \<Rightarrow> exn + call list" where
  "method_specs m i [] = Inr []"
| "method_specs m i (mm # ms) = (if offered m mm
     then res_bind (spec_of i (mm_name mm) (mm_params mm) (mm_returns mm) (mm_subscription mm)) (\<lambda>c.
       res_bind (method_specs m (Suc i) ms) (\<lambda>cs. Inr (c # cs)))
     else res_bind (wire_opt (mm_returns mm)) (\<lambda>_. method_specs m i ms))"

fun class_specs :: "model \<Rightarrow> nat \<Rightarrow> class_model list \<Rightarrow> exn + (string \<times> call list) list" where
  "class_specs m i [] = Inr []"
| "class_specs m i (c # cs) = res_bind (method_specs m i (km_methods c)) (\<lambda>ms.
     res_bind (class_specs m (i + length ms) cs) (\<lambda>rest. Inr ((km_name c, ms) # rest)))"

definition required_count :: "param_model list \<Rightarrow> nat" where
  "required_count ps = length (filter (\<lambda>p. pr_default p = None) ps)"

fun acquire_specs :: "nat \<Rightarrow> class_model list \<Rightarrow> exn + (string \<times> acquire) list" where
  "acquire_specs i [] = Inr []"
| "acquire_specs i (c # cs) = res_bind (args_of (map (\<lambda>p. (pr_name p, pr_type p)) (km_ctor c))) (\<lambda>as.
     res_bind (acquire_specs (Suc i) cs) (\<lambda>rest.
       Inr ((km_name c, \<lparr>aq_index = i, aq_cls = km_name c, aq_args = as, aq_required = required_count (km_ctor c)\<rparr>) # rest)))"

fun function_specs :: "nat \<Rightarrow> function_model list \<Rightarrow> exn + (string \<times> call) list" where
  "function_specs i [] = Inr []"
| "function_specs i (f # fs) = res_bind (spec_of i (fn_name f) (fn_params f) (fn_returns f) (fn_subscription f)) (\<lambda>c.
     res_bind (function_specs (Suc i) fs) (\<lambda>rest. Inr ((fn_name f, c) # rest)))"

definition hook_specs :: "class_model \<Rightarrow> exn + (call \<times> bool) list" where
  "hook_specs c = map_res (\<lambda>(i, mm). map_sum id (\<lambda>sp. (sp, mm_posted mm)) (spec_of i (mm_name mm) (mm_params mm) (mm_returns mm) None))
     (List.enumerate 0 (hooks_of c))"

subsection \<open>The tables\<close>

record wire_policy =
  wp_fields :: "(string, arg list) dict"
  wp_errors :: "(string, arg list) dict"
  wp_unions :: "(string, wire list) dict"
  wp_policy :: policy
  wp_callbacks :: "(string, (call \<times> bool) list) dict"
  wp_no_rpc :: "(string, (place \<times> why) list) dict"

definition value_fields :: "model \<Rightarrow> exn + (string, arg list) dict" where
  "value_fields m = map_res (\<lambda>c. map_sum id (Pair (km_name c)) (args_of (map (\<lambda>f. (fm_name f, fm_type f)) (km_fields c))))
     (filter (\<lambda>c. km_wire c = By_value) (constructed m @ handed_back m))"

definition error_fields :: "model \<Rightarrow> exn + (string, arg list) dict" where
  "error_fields m = map_res (\<lambda>(n, e). map_sum id (Pair n) (args_of (er_fields e))) (mo_errors m)"

definition union_arms_of :: "model \<Rightarrow> exn + (string, wire list) dict" where
  "union_arms_of m = map_res (\<lambda>(n, arms). map_sum id (Pair n) (map_res wire_of arms)) (mo_unions m)"

definition sorted_functions :: "model \<Rightarrow> function_model list" where
  "sorted_functions m = concat (map (\<lambda>n. case dict_get (mo_functions m) n of None \<Rightarrow> [] | Some f \<Rightarrow> [f]) (sorted_strs (dict_keys (mo_functions m))))"

definition policy_module :: "model \<Rightarrow> exn + wire_policy" where
  "policy_module m =
     res_bind (value_fields m) (\<lambda>fields.
     res_bind (error_fields m) (\<lambda>errors.
     res_bind (union_arms_of m) (\<lambda>unions.
     res_bind (class_specs m 0 (ordered_served m)) (\<lambda>methods.
     res_bind (map_res (\<lambda>c. map_sum id (Pair (km_name c)) (hook_specs c)) (called_back m)) (\<lambda>hooks.
     let k = length (concat (map snd methods)) in
     res_bind (acquire_specs k (acquirable m)) (\<lambda>acquires.
     res_bind (function_specs (k + length acquires) (filter (\<lambda>f. function_blockers m f = []) (sorted_functions m))) (\<lambda>free.
       Inr \<lparr>wp_fields = fields, wp_errors = errors, wp_unions = unions,
         wp_policy = \<lparr>METHODS = methods, ACQUIRES = acquires, FREE = free,
           CALLS = map SCall (concat (map snd methods)) @ map (SAcquire \<circ> snd) acquires @ map (SCall \<circ> snd) free\<rparr>,
         wp_callbacks = hooks,
         wp_no_rpc = map (\<lambda>f. (fn_name f, function_blockers m f)) (filter (\<lambda>f. function_blockers m f \<noteq> []) (sorted_functions m))\<rparr>)))))))"

text \<open>The tables as the codec reads them.\<close>

definition policy_tables :: "wire_policy \<Rightarrow> tables" where
  "policy_tables p = \<lparr>t_fields = dict_get (wp_fields p), t_errors = dict_get (wp_errors p), t_unions = dict_get (wp_unions p)\<rparr>"

section \<open>A declaration set for witnesses\<close>

text \<open>
  A small declaration set, cut from \<open>decl/path.py\<close>, \<open>decl/store.py\<close> and \<open>decl/eval.py\<close>: a value, a pool class with a factory
  and an affine class with a class only its calls hand back. The properties of the generator are applied to it.
\<close>

definition plain_decl :: "crossing \<Rightarrow> string \<Rightarrow> decl" where
  "plain_decl w cxx = \<lparr>dc_kind = CLASS_KIND, dc_header = [], dc_headers = [], dc_cxx = cxx, dc_produced = False, dc_factory = [], dc_threading = POOL, dc_blocking = (w \<noteq> By_value),
     dc_wire = w, dc_calls_back = False, dc_fields = [], dc_arms = [], dc_scalars = [], dc_variant = None, dc_compare = [], dc_text = [], dc_shown = [], dc_order = False,
     dc_unit = False, dc_custom = [], dc_gc_slots = [], dc_parsed_by = [], dc_enumerated = None, dc_abstract = False, dc_tree = None, dc_builds = None, dc_holder = [],
     dc_via = [], dc_collection = [], dc_tagged = None\<rparr>"

definition plain_meth :: "string \<Rightarrow> param list \<Rightarrow> dtype option \<Rightarrow> meth" where
  "plain_meth n ps rt = \<lparr>mt_name = n, mt_params = ps, mt_ret = rt, mt_blocks = False, mt_prop = False, mt_reads = [], mt_body = False,
     mt_guard = [], mt_names = False, mt_fills = None, mt_local = False, mt_virtual = False, mt_posted = False, mt_wire_read = [],
     mt_spells = [], mt_startup = False, mt_translator = False, mt_policy = None, mt_subscription = None\<rparr>"

definition needed :: "string \<Rightarrow> dtype \<Rightarrow> param" where
  "needed n t = \<lparr>pm_name = n, pm_type = t, pm_default = None, pm_member = []\<rparr>"

definition t_Str :: dtype where
  "t_Str = DLeaf ''str'' (Some \<lparr>cx_spelling = ''string'', cx_width = []\<rparr>) False [] []"

definition t_Bint :: dtype where
  "t_Bint = DLeaf ''bool'' (Some \<lparr>cx_spelling = ''bint'', cx_width = []\<rparr>) False [] []"

definition bound_type :: "string \<Rightarrow> dtype" where
  "bound_type n = DLeaf n None True [] []"

definition demo_StorePath :: dclass where
  "demo_StorePath = \<lparr>kl_name = ''StorePath'', kl_decl = (plain_decl By_value ''nix::StorePath'')\<lparr>dc_fields := [PField ''base_name'' ''to_string'']\<rparr>,
     kl_ctor = Some (plain_meth ''__init__'' [needed ''base_name'' t_Str] None), kl_methods = [plain_meth ''to_string'' [] (Some t_Str)],
     kl_from_parts = None, kl_raised = None\<rparr>"

definition demo_Store :: dclass where
  "demo_Store = \<lparr>kl_name = ''Store'', kl_decl = (plain_decl By_proxy ''nix::Store'')\<lparr>dc_produced := True, dc_factory := ''open_store'',
       dc_abstract := True, dc_holder := ''shared_ptr''\<rparr>,
     kl_ctor = Some (plain_meth ''__init__'' [needed ''uri'' t_Str] None),
     kl_methods = [plain_meth ''is_valid_path'' [needed ''path'' (bound_type ''StorePath'')] (Some t_Bint),
       plain_meth ''query_all_valid_paths'' [] (Some (DWrap LIST_OF (bound_type ''StorePath'')))], kl_from_parts = None, kl_raised = None\<rparr>"

definition demo_Value :: dclass where
  "demo_Value = \<lparr>kl_name = ''Value'', kl_decl = (plain_decl By_proxy ''huggorm::Bridge'')\<lparr>dc_produced := True, dc_threading := AFFINE\<rparr>,
     kl_ctor = None, kl_methods = [plain_meth ''type_name'' [] (Some t_Str)], kl_from_parts = None, kl_raised = None\<rparr>"

definition demo_EvalState :: dclass where
  "demo_EvalState = \<lparr>kl_name = ''EvalState'', kl_decl = (plain_decl By_proxy ''huggorm::EvalState'')\<lparr>dc_threading := AFFINE\<rparr>,
     kl_ctor = Some (plain_meth ''__init__'' [needed ''store'' (bound_type ''Store'')] None),
     kl_methods = [plain_meth ''eval'' [needed ''expr'' t_Str] (Some (bound_type ''Value'')),
       plain_meth ''register'' [needed ''fn'' (DLeaf ''object'' (Some \<lparr>cx_spelling = ''nb::object'', cx_width = []\<rparr>) False [] [])] None],
     kl_from_parts = None, kl_raised = None\<rparr>"

definition demo_modules :: "dmodule list" where
  "demo_modules =
     [\<lparr>md_name = ''path'', md_classes = [demo_StorePath], md_functions = [], md_unions = [], md_uses = [], md_errors = []\<rparr>,
      \<lparr>md_name = ''store'', md_classes = [demo_Store], md_functions = [plain_meth ''open_store'' [needed ''uri'' t_Str] (Some (bound_type ''Store'')),
         (plain_meth ''nix_version'' [] (Some t_Str))\<lparr>mt_policy := Some POOL\<rparr>],
       md_unions = [], md_uses = [(''StorePath'', demo_StorePath)], md_errors = []\<rparr>,
      \<lparr>md_name = ''eval'', md_classes = [demo_EvalState, demo_Value], md_functions = [], md_unions = [],
       md_uses = [(''Store'', demo_Store)], md_errors = []\<rparr>]"

definition demo_build :: "exn + model" where
  "demo_build = declared_model 9 ''huggorm_bindings'' demo_modules [] None"

definition succeeds :: "exn + 'a \<Rightarrow> bool" where
  "succeeds r \<longleftrightarrow> (case r of Inl _ \<Rightarrow> False | Inr _ \<Rightarrow> True)"

lemma succeeds_Inr: "succeeds r \<longleftrightarrow> (\<exists>x. r = Inr x)"
  by (auto simp: succeeds_def split: sum.split)

lemma demo_policy: "succeeds (res_bind demo_build policy_module)" by code_simp

lemma demo_complaints: "res_bind demo_build complaints = Inr []" by code_simp

lemma demo_set: obtains m p where "demo_build = Inr m" "policy_module m = Inr p" "complaints m = Inr []"
proof -
  obtain m p where m: "demo_build = Inr m" "policy_module m = Inr p" using demo_policy by (auto simp: succeeds_Inr res_bind_Inr_iff)
  moreover have "complaints m = Inr []" using demo_complaints by (simp add: m)
  ultimately show ?thesis by (rule that)
qed

end
