(* ===== verification/Model_Type_Props.thy ===== *)
theory Model_Type_Props
  imports Policy
begin

text \<open>
  From an annotation to the wire: a resolved type keeps the structure of its annotation, the reasons a type cannot cross are
  exactly the types without a wire the codec can carry alone, and the wire says everything about the type a caller sees.
\<close>

subsection \<open>Resolved types are well formed\<close>

text \<open>What a resolved leaf is: a width belongs to an int, and a name with a spelling of its own is a module's.\<close>

definition leaf_ok :: "kind \<Rightarrow> string \<Rightarrow> string \<Rightarrow> bool" where
  "leaf_ok k n w \<longleftrightarrow> n \<noteq> ''uint'' \<and> (w \<noteq> [] \<longrightarrow> w = ''uint'' \<and> n = ''int'') \<and> (k = K_SCALAR \<longleftrightarrow> SCALARS n \<noteq> None) \<and> (SPELLED n \<noteq> None \<longrightarrow> k = K_MODULE)"

fun ref_ok :: "tref \<Rightarrow> bool" where
  "ref_ok (RLeaf k n w tw sp) \<longleftrightarrow> leaf_ok k n w"
| "ref_ok (RWrap og t sp) \<longleftrightarrow> ref_ok t \<and> \<not> (og = OPTIONAL_OF \<and> tr_optional t)"

fun dtype_ok :: "dtype \<Rightarrow> bool" where
  "dtype_ok (DLeaf n c b m tw) \<longleftrightarrow> n \<noteq> ''uint'' \<and> (width_of c \<noteq> [] \<longrightarrow> width_of c = ''uint'' \<and> n = ''int'')
     \<and> (m = [] \<longrightarrow> CHR ''.'' \<notin> set n) \<and> (m \<noteq> [] \<longrightarrow> CHR ''.'' \<in> set n)"
| "dtype_ok (DWrap og t) \<longleftrightarrow> dtype_ok t \<and> \<not> (og = OPTIONAL_OF \<and> ty_optional t)"

text \<open>What Python and the vocabulary of declarations give: unions are flat, a class name has no dot
  and is not \<open>uint\<close>, and the one width is of ints.\<close>

definition name_ok :: "pyclass \<Rightarrow> bool" where
  "name_ok c \<longleftrightarrow> CHR ''.'' \<notin> set (pc_name c) \<and> pc_name c \<noteq> ''uint'' \<and> pc_module c \<noteq> []"

fun ann_ok :: "ann \<Rightarrow> bool" where
  "ann_ok (A_annotated held meta ob) \<longleftrightarrow> name_ok held \<and> (case meta_cxx meta of None \<Rightarrow> True
     | Some c \<Rightarrow> cx_width c \<noteq> [] \<longrightarrow> cx_width c = ''uint'' \<and> pc_module held = ''builtins'' \<and> pc_name held = ''int'')"
| "ann_ok (A_union arms) \<longleftrightarrow> (\<forall>a \<in> set arms. ann_ok a \<and> (case a of A_union _ \<Rightarrow> False | _ \<Rightarrow> True))"
| "ann_ok (A_list a) \<longleftrightarrow> ann_ok a"
| "ann_ok (A_dict k v) \<longleftrightarrow> ann_ok v"
| "ann_ok (A_class c) \<longleftrightarrow> name_ok c"
| "ann_ok _ \<longleftrightarrow> True"

definition home_ok :: "home \<Rightarrow> bool" where
  "home_ok hm \<longleftrightarrow> (\<forall>p \<in> set (hm_globals hm). CHR ''.'' \<notin> set (fst p) \<and> fst p \<noteq> ''uint'')"

lemma alias_name_plain: "home_ok hm \<Longrightarrow> alias_name hm ob = Some n \<Longrightarrow> CHR ''.'' \<notin> set n \<and> n \<noteq> ''uint''"
  by (auto simp: alias_name_def home_ok_def find_Some_iff) (metis fst_conv nth_mem)+

lemma type_of_optional: "type_of hm a = Inr t \<Longrightarrow> ty_optional t \<Longrightarrow> (case a of A_union _ \<Rightarrow> True | _ \<Rightarrow> False)"
  by (cases "(hm, a)" rule: type_of.cases)
    (auto simp: ty_optional_def undeclared_def res_bind_Inr_iff split: option.splits if_splits)

lemma dotted_name [simp]: "a @ CHR ''.'' # b \<noteq> ''uint''"
proof
  assume "a @ CHR ''.'' # b = ''uint''"
  then have "CHR ''.'' \<in> set ''uint''" by (metis in_set_conv_decomp)
  then show False by simp
qed

lemma undeclared_ok: "name_ok c \<Longrightarrow> (width_of cx \<noteq> [] \<longrightarrow> width_of cx = ''uint'' \<and> pc_module c = ''builtins'' \<and> pc_name c = ''int'')
    \<Longrightarrow> dtype_ok (undeclared c cx tw)"
  by (auto simp: undeclared_def name_ok_def)

lemma type_of_ok: "home_ok hm \<Longrightarrow> ann_ok a \<Longrightarrow> type_of hm a = Inr t \<Longrightarrow> dtype_ok t"
proof (induction hm a arbitrary: t rule: type_of.induct)
  case (3 hm held meta ob)
  then show ?case using alias_name_plain[of hm ob]
    by (auto simp: width_of_def intro!: undeclared_ok split: if_splits option.splits)
next
  case (4 hm arms)
  then obtain a u where a: "filter (\<lambda>a. a \<noteq> A_none) arms = [a]" "length arms = 2" "type_of hm a = Inr u" "t = DWrap OPTIONAL_OF u"
    by (auto simp: res_bind_Inr_iff split: list.splits if_splits)
  have m: "a \<in> set arms" using arg_cong[OF a(1), of set] by auto
  then have ok: "ann_ok a" "\<not> (case a of A_union _ \<Rightarrow> True | _ \<Rightarrow> False)" using 4(3) by (auto split: ann.splits)
  have "dtype_ok u" using 4(1)[OF a(1)] a(2,3) ok(1) 4(2) by simp
  moreover have "\<not> ty_optional u" using type_of_optional[OF a(3)] ok(2) by blast
  ultimately show ?case using a(4) by simp
qed (auto simp: res_bind_Inr_iff undeclared_def none_class_def name_ok_def width_of_def split: if_splits)

lemma SPELLED_dot: "SPELLED n \<noteq> None \<Longrightarrow> CHR ''.'' \<in> set n"
  by (auto simp: SPELLED_def split: if_splits)

lemma SCALARS_dot: "SCALARS n \<noteq> None \<Longrightarrow> CHR ''.'' \<notin> set n"
  by (auto simp: SCALARS_def split: if_splits)

lemma kind_of_leaf: "kind_of known n = Inr k \<Longrightarrow> (k = K_SCALAR \<longleftrightarrow> SCALARS n \<noteq> None) \<and> k \<noteq> K_MODULE"
  by (auto simp: kind_of_def split: if_splits option.splits)

lemma type_ref_ok: "dtype_ok t \<Longrightarrow> type_ref n known t = Inr r \<Longrightarrow> ref_ok r \<and> tr_origin r = ty_origin t"
proof (induction t arbitrary: r)
  case (DLeaf nm c b m tw)
  then obtain k sp where r: "r = RLeaf k nm (width_of c) tw sp" "(if m \<noteq> [] then Inr K_MODULE else kind_of known nm) = Inr k"
    by (auto simp: res_bind_Inr_iff)
  have "leaf_ok k nm (width_of c)"
  proof (cases "m = []")
    case True
    then have "SPELLED nm = None" "k = K_SCALAR \<longleftrightarrow> SCALARS nm \<noteq> None" using r(2) DLeaf.prems(1) kind_of_leaf[of known nm k] SPELLED_dot[of nm] by auto
    then show ?thesis using DLeaf.prems(1) unfolding leaf_ok_def dtype_ok.simps by blast
  next
    case False
    then have "SCALARS nm = None" "k = K_MODULE" using r(2) DLeaf.prems(1) SCALARS_dot[of nm] by auto
    then show ?thesis using DLeaf.prems(1) unfolding leaf_ok_def dtype_ok.simps by blast
  qed
  then show ?case by (simp add: r)
next
  case (DWrap og t)
  then show ?case by (auto simp: res_bind_Inr_iff tr_optional_def ty_optional_def)
qed

subsection \<open>The wire of a type\<close>

fun wire_python :: "wire \<Rightarrow> string" where
  "wire_python (Wire k n it opt) =
     (let base = (case it of Some w \<Rightarrow> if k = LIST then wrap_spelling LIST_OF (wire_python w) else wrap_spelling DICT_OF (wire_python w)
        | None \<Rightarrow> if k = SCALAR \<and> n = ''uint'' then ''int'' else n)
      in if opt then wrap_spelling OPTIONAL_OF base else base)"

lemma ref_required: "ref_ok t \<Longrightarrow> ref_ok (tr_required t) \<and> \<not> tr_optional (tr_required t) \<and> tr_kind (tr_required t) = tr_kind t"
  by (cases t rule: tr_required.cases) (auto simp: tr_optional_def tr_kind_def)

lemma tr_scalar_leaf: "ref_ok (RLeaf k n w tw sp) \<Longrightarrow> tr_scalar (RLeaf k n w tw sp) \<noteq> None \<longleftrightarrow> k = K_SCALAR \<or> SPELLED n \<noteq> None"
  by (auto simp: tr_scalar_def leaf_ok_def tr_kind_def tr_name_def SCALARS_def)

lemma leaf_wire_kind: "ref_ok (RLeaf k n w tw sp) \<Longrightarrow> leaf_wire opt (RLeaf k n w tw sp) = Inr x \<Longrightarrow>
    witem x = None \<and> (wkind x \<in> {PROXY, CLIENT} \<longleftrightarrow> k \<in> {K_PROXY, K_CLIENT}) \<and> (wkind x = PROXY \<longleftrightarrow> k = K_PROXY) \<and> (wkind x = PROXY \<longrightarrow> wname x = n)"
  using tr_scalar_leaf[of k n w tw sp]
  by (cases "SPELLED n") (auto simp: leaf_wire_def CROSSES_def tr_kind_def tr_name_def leaf_ok_def split: kind.splits if_splits)

lemma wire_at_plain: "ref_ok t \<Longrightarrow> wire_at opt t = Inr w \<Longrightarrow> plain w \<longleftrightarrow> tr_kind t \<notin> {K_PROXY, K_CLIENT}"
proof (induction opt t arbitrary: w rule: wire_at.induct)
  case (1 opt k n wd tw sp)
  from leaf_wire_kind[OF 1(1) 1(2)[unfolded wire_at.simps]] show ?case by (cases w) (auto simp: tr_kind_def)
next
  case (2 opt e sp)
  then show ?case using ref_required[of e] by (auto simp: res_bind_Inr_iff tr_kind_def)
next
  case (3 opt e sp)
  then show ?case using ref_required[of e] by (auto simp: res_bind_Inr_iff tr_kind_def)
qed simp

text \<open>The wire says the type a caller sees; the one thing it adds is the width.\<close>

lemma leaf_wire_python:
  assumes "ref_ok (RLeaf k n w tw sp)" "leaf_wire opt (RLeaf k n w tw sp) = Inr x"
  shows "wire_python x = (if opt then wrap_spelling OPTIONAL_OF n else n)"
proof (cases "w = []")
  case False
  then have "w = ''uint''" "n = ''int''" using assms(1) by (auto simp: leaf_ok_def)
  then show ?thesis using assms(2) by (simp add: leaf_wire_def tr_scalar_def split: if_splits) auto
next
  case True
  have n: "n \<noteq> ''uint''" using assms(1) by (simp add: leaf_ok_def)
  obtain kd where "x = Wire kd n None opt" using assms(2) True
    by (auto simp: leaf_wire_def tr_name_def split: if_splits option.splits)
  then show ?thesis using n by simp
qed

lemma wire_at_python: "ref_ok t \<Longrightarrow> \<not> tr_optional t \<Longrightarrow> wire_at opt t = Inr w \<Longrightarrow>
    wire_python w = (if opt then wrap_spelling OPTIONAL_OF (tr_spelling t) else tr_spelling t)"
proof (induction opt t arbitrary: w rule: wire_at.induct)
  case (1 opt k n wd tw sp)
  then show ?case using leaf_wire_python by simp
next
  case (2 opt e sp)
  then show ?case using ref_required[of e] by (cases e rule: tr_required.cases) (auto simp: res_bind_Inr_iff tr_optional_def)
next
  case (3 opt e sp)
  then show ?case using ref_required[of e] by (cases e rule: tr_required.cases) (auto simp: res_bind_Inr_iff tr_optional_def)
qed (simp add: tr_optional_def)

lemma wire_of_python: "ref_ok t \<Longrightarrow> wire_of t = Inr w \<Longrightarrow> wire_python w = tr_spelling t"
  using wire_at_python[of "tr_required t" "tr_optional t" w] ref_required[of t]
  by (cases t rule: tr_required.cases) (auto simp: wire_of_def tr_optional_def)

subsection \<open>What crosses\<close>

text \<open>A wire that the codec can carry: plain all the way down, or a proxy or a client's object alone, and a proxy has a service.\<close>

definition carried :: "wire \<Rightarrow> string list \<Rightarrow> bool" where
  "carried w sv \<longleftrightarrow> (plain w \<or> wkind w = CLIENT \<or> wkind w = PROXY) \<and> (wkind w = PROXY \<longrightarrow> wname w \<in> set sv)"

lemma leaf_blocker:
  assumes "ref_ok (RLeaf k n w tw sp)"
  shows "blocked_leaf (RLeaf k n w tw sp) sv = None \<longleftrightarrow> (\<exists>x. leaf_wire opt (RLeaf k n w tw sp) = Inr x \<and> carried x sv)"
proof -
  have s: "tr_scalar (RLeaf k n w tw sp) \<noteq> None \<longleftrightarrow> k = K_SCALAR \<or> SPELLED n \<noteq> None" by (rule tr_scalar_leaf[OF assms])
  have m: "SPELLED n \<noteq> None \<longrightarrow> k = K_MODULE" using assms by (simp add: leaf_ok_def)
  show ?thesis
  proof (cases "tr_scalar (RLeaf k n w tw sp) = None")
    case True
    then show ?thesis using s m
      by (cases k) (auto simp: blocked_leaf_def leaf_wire_def CROSSES_def carried_def tr_kind_def tr_name_def)
  next
    case False
    then have "k = K_SCALAR \<or> k = K_MODULE \<and> SPELLED n \<noteq> None" using s m by blast
    then show ?thesis using False by (auto simp: blocked_leaf_def leaf_wire_def carried_def tr_kind_def tr_name_def)
  qed
qed

lemma inside_blocker:
  "ref_ok t \<Longrightarrow> \<not> tr_optional t \<Longrightarrow>
   (blocked_inside t = None \<and> blocked_leaf (inside t) sv = None) \<longleftrightarrow> (\<exists>w. wire_at opt t = Inr w \<and> carried w sv)"
proof (induction opt t rule: wire_at.induct)
  case (1 opt k n wd tw sp)
  then show ?case using leaf_blocker by simp
next
  case (2 opt e sp)
  have r: "ref_ok (tr_required e)" "\<not> tr_optional (tr_required e)" using ref_required[of e] 2(2) by auto
  show ?case
  proof (cases "tr_kind (tr_required e) \<in> {K_PROXY, K_CLIENT}")
    case True
    then show ?thesis using wire_at_plain[OF r(1)] by (auto simp: Let_def res_bind_Inr_iff carried_def)
  next
    case False
    then have "carried w sv \<longleftrightarrow> plain w" if "wire_at (tr_optional e) (tr_required e) = Inr w" for w
      using wire_at_plain[OF r(1) that] by (cases w) (auto simp: carried_def)
    then show ?thesis using False 2(1)[OF r] by (auto simp: Let_def res_bind_Inr_iff carried_def)
  qed
next
  case (3 opt e sp)
  have r: "ref_ok (tr_required e)" "\<not> tr_optional (tr_required e)" using ref_required[of e] 3(2) by auto
  show ?case
  proof (cases "tr_kind (tr_required e) \<in> {K_PROXY, K_CLIENT}")
    case True
    then show ?thesis using wire_at_plain[OF r(1)] by (auto simp: Let_def res_bind_Inr_iff carried_def)
  next
    case False
    then have "carried w sv \<longleftrightarrow> plain w" if "wire_at (tr_optional e) (tr_required e) = Inr w" for w
      using wire_at_plain[OF r(1) that] by (cases w) (auto simp: carried_def)
    then show ?thesis using False 3(1)[OF r] by (auto simp: Let_def res_bind_Inr_iff carried_def)
  qed
qed (simp add: tr_optional_def)

lemma blocker_exact: "ref_ok t \<Longrightarrow> wire_blocker t sv = None \<longleftrightarrow> (\<exists>w. wire_of t = Inr w \<and> carried w sv)"
  using inside_blocker[of "tr_required t" sv "tr_optional t"] ref_required[of t]
  by (auto simp: wire_blocker_def wire_of_def Let_def split: option.splits)

lemma type_ref_spelling: "type_ref n known t = Inr r \<Longrightarrow> tr_spelling r = ty_python t"
  by (induction t arbitrary: r) (auto simp: res_bind_Inr_iff)

lemma wire_of_plain: "ref_ok t \<Longrightarrow> wire_of t = Inr w \<Longrightarrow> tr_kind t \<notin> {K_PROXY, K_CLIENT} \<Longrightarrow> plain w"
  using wire_at_plain[of "tr_required t" "tr_optional t" w] ref_required[of t] by (simp add: wire_of_def)

text \<open>C16. A declared type has no reason not to cross exactly when the build finds a wire for it that the codec can carry: plain all the
  way down, or one proxy with a service or one client's object, alone. The wire says the type a caller sees, and coding a
  value of a type without proxies or clients' objects, in either direction, takes no lease and looks no handle up.\<close>

theorem crossing_exact:
  assumes "home_ok hm" "ann_ok a" "type_of hm a = Inr t" "type_ref n known t = Inr r"
  shows "(wire_blocker r sv = None \<longleftrightarrow> (\<exists>w. wire_of r = Inr w \<and> carried w sv))
    \<and> (\<forall>w. wire_of r = Inr w \<longrightarrow> wire_python w = ty_python t
      \<and> (tr_kind r \<notin> {K_PROXY, K_CLIENT} \<longrightarrow> snd (encode k b tb (Some w) v pid d cid s) = s
          \<and> snd (decode b tb (Some w) raw pobj d cobj u) = u))"
proof -
  have r: "ref_ok r" using type_ref_ok[OF type_of_ok[OF assms(1-3)] assms(4)] by simp
  have "snd (encode k b tb (Some w) v pid d cid s) = s \<and> snd (decode b tb (Some w) raw pobj d cobj u) = u"
    if "wire_of r = Inr w" "tr_kind r \<notin> {K_PROXY, K_CLIENT}" for w
    using wire_of_plain[OF r that] silent_encode[of w pid cid k b tb v d] silent_decode[of w pobj cobj b tb raw d] by (simp add: silent_def)
  then show ?thesis using blocker_exact[OF r] wire_of_python[OF r] type_ref_spelling[OF assms(4)] by simp
qed

definition demo_home :: home where
  "demo_home = \<lparr>hm_name = ''store'', hm_dir = Some ''decl'', hm_globals = [(''DerivedPath'', 1)]\<rparr>"

definition int_class :: pyclass where
  "int_class = \<lparr>pc_module = ''builtins'', pc_name = ''int'', pc_dir = None\<rparr>"

definition ann_U64 :: ann where
  "ann_U64 = A_annotated int_class [M_cxx \<lparr>cx_spelling = ''uint64_t'', cx_width = ''uint''\<rparr>] 2"

lemma crossing_exact_witness:
  "wire_of (RWrap OPTIONAL_OF (RLeaf K_SCALAR ''int'' ''uint'' [] (''std::uint64_t'', None)) (''std::optional<std::uint64_t>'', Some ''optional''))
     = Inr (Wire SCALAR ''uint'' None True) \<and> wire_python (Wire SCALAR ''uint'' None True) = ''int | None''"
proof -
  let ?t = "DWrap OPTIONAL_OF (DLeaf ''int'' (Some \<lparr>cx_spelling = ''uint64_t'', cx_width = ''uint''\<rparr>) False [] [])"
  let ?r = "RWrap OPTIONAL_OF (RLeaf K_SCALAR ''int'' ''uint'' [] (''std::uint64_t'', None)) (''std::optional<std::uint64_t>'', Some ''optional'')"
  have a: "home_ok demo_home" "ann_ok (A_union [ann_U64, A_none])" by (simp_all add: home_ok_def demo_home_def ann_U64_def int_class_def name_ok_def)
  have t: "type_of demo_home (A_union [ann_U64, A_none]) = Inr ?t" by (simp add: ann_U64_def int_class_def undeclared_def)
  have r: "type_ref 9 [] ?t = Inr ?r"
    by (simp add: cxx_value_def is_error_type_def leaf_value_def Let_def CXX_PYTHON_def CXX_PARAM_def spelled_entry_def kind_of_def SCALARS_def width_of_def)
  have w: "wire_of ?r = Inr (Wire SCALAR ''uint'' None True)" by (simp add: wire_of_def tr_optional_def leaf_wire_def tr_scalar_def)
  show ?thesis using crossing_exact[OF a t r] w by simp
qed

end
