(* ===== verification/Policy_Props.thy ===== *)
theory Policy_Props
  imports Policy
begin

text \<open>
  The calls of an emitted policy: they are numbered by their place in \<open>CALLS\<close>, so the dispatcher of the generated package
  starts, and each number is answered by the method, constructor or function it was given to. What is offered and emitted
  agree: a class's methods are, in order, those without a reason not to cross.
\<close>

subsection \<open>Numbers\<close>

lemma spec_of_index: "spec_of i name ps rt sub = Inr c \<Longrightarrow> ca_index c = i \<and> ca_name c = name"
  by (auto simp: spec_of_def res_bind_Inr_iff)

lemma method_specs_numbers: "method_specs m i ms = Inr cs \<Longrightarrow> map ca_index cs = [i..<i + length cs] \<and>
    map ca_name cs = map mm_name (filter (offered m) ms)"
proof (induction m i ms arbitrary: cs rule: method_specs.induct)
  case (2 m i mm ms)
  show ?case
  proof (cases "offered m mm")
    case True
    then obtain c cs' where c: "spec_of i (mm_name mm) (mm_params mm) (mm_returns mm) (mm_subscription mm) = Inr c"
      "method_specs m (Suc i) ms = Inr cs'" "cs = c # cs'" using 2(3) by (auto simp: res_bind_Inr_iff)
    then show ?thesis using 2(1)[OF True c(2)] True spec_of_index[OF c(1)] c(3) by (simp add: upt_conv_Cons del: upt_Suc)
  next
    case False
    then show ?thesis using 2(2,3) by (auto simp: res_bind_Inr_iff)
  qed
qed simp

lemma class_specs_numbers: "class_specs m i cs = Inr r \<Longrightarrow>
    map ca_index (concat (map snd r)) = [i..<i + length (concat (map snd r))] \<and>
    map (\<lambda>(n, ms). (n, map ca_name ms)) r = map (\<lambda>c. (km_name c, map mm_name (filter (offered m) (km_methods c)))) cs"
proof (induction m i cs arbitrary: r rule: class_specs.induct)
  case (2 m i c cs)
  then obtain ms rest where r: "method_specs m i (km_methods c) = Inr ms" "class_specs m (i + length ms) cs = Inr rest" "r = (km_name c, ms) # rest"
    by (auto simp: res_bind_Inr_iff)
  show ?case using 2(1)[OF r(2)] method_specs_numbers[OF r(1)] r(3) upt_add_eq_append[of i "i + length ms" "length (concat (map snd rest))"]
    by (simp add: add.assoc)
qed simp

lemma acquire_specs_numbers: "acquire_specs i cs = Inr r \<Longrightarrow> map (aq_index \<circ> snd) r = [i..<i + length r] \<and> length r = length cs
    \<and> map fst r = map km_name cs \<and> (\<forall>(n, a) \<in> set r. aq_cls a = n)"
proof (induction i cs arbitrary: r rule: acquire_specs.induct)
  case (2 i c cs)
  then obtain as rest where r: "acquire_specs (Suc i) cs = Inr rest"
    "r = (km_name c, \<lparr>aq_index = i, aq_cls = km_name c, aq_args = as, aq_required = required_count (km_ctor c)\<rparr>) # rest"
    by (auto simp: res_bind_Inr_iff)
  show ?case using 2(1)[OF r(1)] r(2) by (simp add: upt_conv_Cons del: upt_Suc)
qed simp

lemma function_specs_numbers: "function_specs i fs = Inr r \<Longrightarrow> map (ca_index \<circ> snd) r = [i..<i + length r] \<and> map fst r = map fn_name fs"
proof (induction i fs arbitrary: r rule: function_specs.induct)
  case (2 i f fs)
  then obtain c rest where r: "spec_of i (fn_name f) (fn_params f) (fn_returns f) (fn_subscription f) = Inr c"
    "function_specs (Suc i) fs = Inr rest" "r = (fn_name f, c) # rest" by (auto simp: res_bind_Inr_iff)
  show ?case using 2(1)[OF r(2)] spec_of_index[OF r(1)] r(3) by (simp add: upt_conv_Cons del: upt_Suc)
qed simp

subsection \<open>Handlers\<close>

lemma fold_set_get: "distinct (map fst xs) \<Longrightarrow> dict_get (fold (\<lambda>(i, h) d. dict_set i h d) xs d) k =
    (case map_of xs k of None \<Rightarrow> dict_get d k | Some h \<Rightarrow> Some h)"
proof (induction xs arbitrary: d)
  case (Cons p xs)
  obtain a b where p: "p = (a, b)" by (cases p)
  have "map_of xs a = None" using Cons.prems p by (simp add: map_of_eq_None_iff)
  then show ?case using Cons.IH[of "dict_set a b d"] Cons.prems by (cases "k = a") (simp_all add: p split: option.split)
qed simp

lemma fold_set_keys: "set (dict_keys (fold (\<lambda>(i, h) d. dict_set i h d) xs d)) = set (map fst xs) \<union> set (dict_keys d)"
proof (induction xs arbitrary: d)
  case (Cons p xs)
  show ?case using Cons.IH[of "dict_set (fst p) (snd p) d"] unfolding dict_keys_set by (cases p) simp
qed simp

definition handles :: "policy \<Rightarrow> (nat, handler) dict \<Rightarrow> bool" where
  "handles q hs \<longleftrightarrow> (\<forall>(cls, ms) \<in> set (METHODS q). \<forall>c \<in> set ms. dict_get hs (ca_index c) = Some (method_handler cls c))
    \<and> (\<forall>(cls, a) \<in> set (ACQUIRES q). dict_get hs (aq_index a) = Some (acquire_handler cls))
    \<and> (\<forall>(n, c) \<in> set (FREE q). dict_get hs (ca_index c) = Some (free_handler n c))"

lemma all_handlers_fst: "map fst (all_handlers q) = map ca_index (concat (map snd (METHODS q))) @ map (aq_index \<circ> snd) (ACQUIRES q) @ map (ca_index \<circ> snd) (FREE q)"
  by (simp add: all_handlers_def map_concat comp_def case_prod_unfold)

lemma handlers_of_numbers:
  assumes "distinct (map fst (all_handlers q))" "set (map fst (all_handlers q)) = set (map spec_index (CALLS q))"
  shows "\<exists>hs. handlers q = Inr hs \<and> handles q hs"
proof -
  define hs where "hs = fold (\<lambda>(i, h) d. dict_set i h d) (all_handlers q) []"
  have k: "set (dict_keys hs) = set (map spec_index (CALLS q))" unfolding hs_def fold_set_keys using assms(2) by simp
  have g: "dict_get hs i = Some h" if "(i, h) \<in> set (all_handlers q)" for i h
    unfolding hs_def fold_set_get[OF assms(1)] using assms(1) that by simp
  have "handles q hs" unfolding handles_def by (auto intro!: g simp: all_handlers_def image_iff) (force+)
  then show ?thesis using k by (auto simp: handlers_def hs_def[symmetric] Let_def)
qed

lemma policy_parts:
  assumes "policy_module m = Inr p"
  obtains methods acquires free where "class_specs m 0 (ordered_served m) = Inr methods"
    "acquire_specs (length (concat (map snd methods))) (acquirable m) = Inr acquires"
    "function_specs (length (concat (map snd methods)) + length acquires) (filter (\<lambda>f. function_blockers m f = []) (sorted_functions m)) = Inr free"
    "wp_policy p = \<lparr>METHODS = methods, ACQUIRES = acquires, FREE = free,
           CALLS = map SCall (concat (map snd methods)) @ map (SAcquire \<circ> snd) acquires @ map (SCall \<circ> snd) free\<rparr>"
  using assms by (auto simp: policy_module_def res_bind_Inr_iff Let_def)

text \<open>C17. A policy the build emits numbers its calls by their place in \<open>CALLS\<close>; the dispatcher's check of its handlers passes, and the handler of
  a number is that of the method, constructor or function whose spec has the number. Each served class has exactly the specs
  of its methods with no reason not to cross, in declared order, and each class a caller builds remotely has its \<open>Acquire\<close>.\<close>

theorem calls_numbered:
  assumes "policy_module m = Inr p"
  shows "map spec_index (CALLS (wp_policy p)) = [0..<length (CALLS (wp_policy p))]
    \<and> (\<exists>hs. handlers (wp_policy p) = Inr hs \<and> handles (wp_policy p) hs)
    \<and> map (\<lambda>(n, ms). (n, map ca_name ms)) (METHODS (wp_policy p))
        = map (\<lambda>c. (km_name c, map mm_name (filter (offered m) (km_methods c)))) (ordered_served m)
    \<and> map fst (ACQUIRES (wp_policy p)) = map km_name (acquirable m)"
proof -
  obtain ms as fs where s: "class_specs m 0 (ordered_served m) = Inr ms"
    "acquire_specs (length (concat (map snd ms))) (acquirable m) = Inr as"
    "function_specs (length (concat (map snd ms)) + length as) (filter (\<lambda>f. function_blockers m f = []) (sorted_functions m)) = Inr fs"
    "wp_policy p = \<lparr>METHODS = ms, ACQUIRES = as, FREE = fs,
      CALLS = map SCall (concat (map snd ms)) @ map (SAcquire \<circ> snd) as @ map (SCall \<circ> snd) fs\<rparr>"
    by (rule policy_parts[OF assms])
  note n = class_specs_numbers[OF s(1)] acquire_specs_numbers[OF s(2)] function_specs_numbers[OF s(3)]
  let ?a = "length (concat (map snd ms))" and ?b = "length as" and ?c = "length fs"
  have e: "map fst (all_handlers (wp_policy p)) = [0..<?a + ?b + ?c]"
    using n upt_add_eq_append[of 0 ?a "?b + ?c"] upt_add_eq_append[of ?a "?a + ?b" ?c] unfolding all_handlers_fst
    by (simp add: s(4) add.assoc)
  have i: "map spec_index (CALLS (wp_policy p)) = map fst (all_handlers (wp_policy p))"
    unfolding all_handlers_fst by (simp add: s(4) comp_def)
  have l: "length (CALLS (wp_policy p)) = ?a + ?b + ?c" by (simp add: s(4))
  have "\<exists>hs. handlers (wp_policy p) = Inr hs \<and> handles (wp_policy p) hs"
    by (rule handlers_of_numbers) (use e i in \<open>simp_all\<close>)
  moreover have "map spec_index (CALLS (wp_policy p)) = [0..<length (CALLS (wp_policy p))]" unfolding i e l by (rule refl)
  moreover have "METHODS (wp_policy p) = ms" "ACQUIRES (wp_policy p) = as" by (simp_all add: s(4))
  ultimately show ?thesis using n by simp
qed

lemma calls_numbered_witness: "\<exists>m p. demo_build = Inr m \<and> policy_module m = Inr p \<and> map fst (METHODS (wp_policy p)) = [''Value'', ''EvalState'', ''Store''] \<and>
    map spec_index (CALLS (wp_policy p)) = [0..<7]"
proof -
  obtain m p where m: "demo_build = Inr m" "policy_module m = Inr p" "complaints m = Inr []" by (rule demo_set)
  have "case res_bind demo_build policy_module of Inl _ \<Rightarrow> False
     | Inr p \<Rightarrow> map fst (METHODS (wp_policy p)) = [''Value'', ''EvalState'', ''Store''] \<and> length (CALLS (wp_policy p)) = 7" by code_simp
  then have f: "map fst (METHODS (wp_policy p)) = [''Value'', ''EvalState'', ''Store'']" "length (CALLS (wp_policy p)) = 7" by (simp_all add: m)
  show ?thesis using calls_numbered[OF m(2)] m(1,2) f by auto
qed

end
