(* ===== verification/Contracts_Props.thy ===== *)
theory Contracts_Props
  imports Model_Type_Props Policy_Props
begin

text \<open>
  What the contracts of the build give: an object a pool thread makes never leads to one that needs a thread of its own; what
  needs a wrapper is handed back alone, by a class that can attach one; a value copies all the way down; and the translator
  catches a class before any class it derives from.
\<close>

subsection \<open>The rules\<close>

lemma complaints_none: "complaints m = Inr [] \<longleftrightarrow> functions_rule m = Inr [] \<and> wrap_rule m = [] \<and> collection_rule m = [] \<and> affine_rule m = []
    \<and> wire_rule m = []"
  by (auto simp: complaints_def res_bind_Inr_iff)

lemma adopted_listed: "adopted_class m t = Some d \<Longrightarrow> d \<in> set (class_list m)"
  by (auto simp: adopted_class_def class_list_def split: option.splits if_splits dest!: map_of_SomeD intro: rev_image_eqI)

text \<open>A class hands another one back when a method of its surface returns it, alone or optional.\<close>

definition hands :: "model \<Rightarrow> class_model \<Rightarrow> class_model \<Rightarrow> bool" where
  "hands m c d \<longleftrightarrow> c \<in> set (class_list m) \<and> (\<exists>mm \<in> set (km_methods c). adopted_class m (mm_returns mm) = Some d)"

text \<open>What the coroutines of free functions hand back.\<close>

definition function_hands :: "model \<Rightarrow> class_model \<Rightarrow> bool" where
  "function_hands m d \<longleftrightarrow> (\<exists>bs f. blocking_methods m = Inr bs \<and> f \<in> set (filter fn_wrapped (map snd (mo_functions m)) @ bs)
     \<and> adopted_class m (fn_returns f) = Some d)"

lemma affine_step:
  assumes "affine_rule m = []" "hands m c d" "km_threading c = POOL"
  shows "km_threading d = POOL"
proof (rule ccontr)
  assume "km_threading d \<noteq> POOL"
  then have a: "km_threading d = AFFINE" by (cases "km_threading d") auto
  then have "km_wrapped d" by (simp add: km_wrapped_def)
  obtain mm where mm: "c \<in> set (class_list m)" "mm \<in> set (km_methods c)" "adopted_class m (mm_returns mm) = Some d"
    using assms(2) by (auto simp: hands_def)
  have "(km_name c, mm_name mm) \<in> set (affine_rule m)"
    using mm a \<open>km_wrapped d\<close> assms(3) unfolding affine_rule_def hands_affine_def by (force intro: bexI[of _ c])
  then show False using assms(1) by simp
qed

lemma hands_listed: "(hands m)\<^sup>*\<^sup>* c d \<Longrightarrow> c \<in> set (class_list m) \<Longrightarrow> d \<in> set (class_list m)"
  by (induction rule: rtranclp_induct) (auto simp: hands_def dest: adopted_listed)

lemma pool_chain: "affine_rule m = [] \<Longrightarrow> (hands m)\<^sup>*\<^sup>* c d \<Longrightarrow> km_threading c = POOL \<Longrightarrow> km_threading d = POOL"
proof -
  assume r: "affine_rule m = []"
  show "(hands m)\<^sup>*\<^sup>* c d \<Longrightarrow> km_threading c = POOL \<Longrightarrow> km_threading d = POOL"
    by (induction rule: rtranclp_induct) (auto dest: affine_step[OF r])
qed

lemma function_pool:
  assumes "functions_rule m = Inr []" "function_hands m d"
  shows "km_threading d = POOL"
proof -
  obtain bs f where f: "blocking_methods m = Inr bs" "f \<in> set (filter fn_wrapped (map snd (mo_functions m)) @ bs)"
    "adopted_class m (fn_returns f) = Some d" using assms(2) by (auto simp: function_hands_def)
  then have "\<not> function_bad m f" using assms(1) by (auto simp: functions_rule_def filter_empty_conv)
  then show ?thesis using f(3) by (auto simp: function_bad_def adopted_class_def tr_kind_def split: option.splits if_splits)
qed

text \<open>C24. When the contracts have no complaint, no chain of calls leads from a pool object, or from what the coroutine of a free function hands
  back, to an object that lives on a thread of its own.\<close>

theorem pool_stays_pool:
  assumes "complaints m = Inr []" "(hands m)\<^sup>*\<^sup>* c d" "km_threading c = POOL \<or> function_hands m c"
  shows "km_threading d = POOL"
  using assms complaints_none[of m] pool_chain[OF _ assms(2)] function_pool[of m c] by blast

lemma pool_stays_pool_witness: "\<exists>m. demo_build = Inr m \<and> (\<forall>c \<in> set (class_list m). km_threading c = POOL \<longrightarrow> (\<forall>d. (hands m)\<^sup>*\<^sup>* c d \<longrightarrow> km_threading d = POOL))"
proof -
  obtain m p where m: "demo_build = Inr m" "policy_module m = Inr p" "complaints m = Inr []" by (rule demo_set)
  show ?thesis using m(1) pool_stays_pool[OF m(3)] by blast
qed

text \<open>C25. When the contracts have no complaint and a method of the surface returns, however nested, a served class that needs a wrapper, it returns it
  alone or optional and the caller's class attaches one: the runner adopts the object.\<close>

theorem wrapped_is_adopted:
  assumes "complaints m = Inr []" "c \<in> set (class_list m)" "mm \<in> set (km_methods c)" "mm_returns mm = Some t"
    "rl_kind (tr_leaf t) = K_PROXY" "dict_get (mo_classes m) (tr_name t) = Some d" "km_served d" "km_wrapped d"
  shows "adopted_class m (mm_returns mm) = Some d \<and> km_wrapped c"
proof -
  have r: "collection_rule m = []" "wrap_rule m = []" using assms(1) complaints_none by blast+
  have "\<not> in_container m (mm_returns mm)" using r(1) assms(2,3) by (auto simp: collection_rule_def filter_empty_conv)
  then have "tr_origin (tr_required t) = None" using assms(4,6,8) map_of_SomeD[OF assms(6)]
    by (force simp: in_container_def)
  then have a: "adopted_class m (mm_returns mm) = Some d" using assms(4-7) by (simp add: adopted_class_def tr_kind_def)
  moreover have "km_wrapped c"
  proof (rule ccontr)
    assume "\<not> km_wrapped c"
    then have "(km_name c, mm_name mm) \<in> set (wrap_rule m)" using assms(2,3,8) a unfolding wrap_rule_def by (force intro: bexI[of _ c])
    then show False using r(2) by simp
  qed
  ultimately show ?thesis by simp
qed

definition returns_wrapped :: "model \<Rightarrow> method_model \<Rightarrow> bool" where
  "returns_wrapped m mm \<longleftrightarrow> (case mm_returns mm of None \<Rightarrow> False | Some t \<Rightarrow> rl_kind (tr_leaf t) = K_PROXY \<and>
     (case dict_get (mo_classes m) (tr_name t) of None \<Rightarrow> False | Some d \<Rightarrow> km_served d \<and> km_wrapped d))"

lemma demo_returns: "case demo_build of Inl _ \<Rightarrow> False | Inr m \<Rightarrow>
    (\<exists>c \<in> set (class_list m). \<exists>mm \<in> set (km_methods c). mm_name mm = ''eval'' \<and> returns_wrapped m mm)"
  by code_simp

lemma wrapped_is_adopted_witness: "\<exists>m (mm :: method_model) d. demo_build = Inr m \<and> mm_name mm = ''eval'' \<and> adopted_class m (mm_returns mm) = Some d \<and> km_wrapped d"
proof -
  obtain m p where m: "demo_build = Inr m" "policy_module m = Inr p" "complaints m = Inr []" by (rule demo_set)
  obtain c mm where h: "c \<in> set (class_list m)" "mm \<in> set (km_methods c)" "mm_name mm = ''eval''" "returns_wrapped m mm"
    using demo_returns by (auto simp: m(1))
  obtain t d where t: "mm_returns mm = Some t" "rl_kind (tr_leaf t) = K_PROXY" "dict_get (mo_classes m) (tr_name t) = Some d" "km_served d" "km_wrapped d"
    using h(4) by (auto simp: returns_wrapped_def split: option.splits)
  show ?thesis using wrapped_is_adopted[OF m(3) h(1,2) t] m(1) h(3) t(5) by blast
qed

subsection \<open>Values\<close>

lemma wire_at_kind: "wire_at opt t = Inr w \<Longrightarrow> tr_kind t \<notin> {K_PROXY, K_CLIENT} \<Longrightarrow> plain w"
proof (induction opt t arbitrary: w rule: wire_at.induct)
  case (1 opt k n wd tw sp)
  then show ?case by (auto simp: leaf_wire_def CROSSES_def tr_kind_def split: if_splits kind.splits option.splits)
next
  case (2 opt e sp)
  then show ?case by (cases e rule: tr_required.cases) (auto simp: res_bind_Inr_iff tr_kind_def)
next
  case (3 opt e sp)
  then show ?case by (cases e rule: tr_required.cases) (auto simp: res_bind_Inr_iff tr_kind_def)
qed simp

lemma wire_of_kind: "wire_of t = Inr w \<Longrightarrow> tr_kind t \<notin> {K_PROXY, K_CLIENT} \<Longrightarrow> plain w"
  using wire_at_kind[of "tr_optional t" "tr_required t" w] by (cases t rule: tr_required.cases) (simp_all add: wire_of_def tr_kind_def)

lemma classes_named_listed: "set (classes_named m P) \<subseteq> set (class_list m)"
  by (auto simp: classes_named_def class_list_def split: if_splits option.splits) (metis image_eqI map_of_SomeD snd_conv)

lemma map_sum_Inr_iff: "map_sum f g r = Inr y \<longleftrightarrow> (\<exists>x. r = Inr x \<and> y = g x)"
  by (cases r) auto

lemma list_all2_member: "list_all2 P xs ys \<Longrightarrow> y \<in> set ys \<Longrightarrow> \<exists>x \<in> set xs. P x y"
  by (induction rule: list_all2_induct) auto

lemma list_all2_first: "list_all2 P xs ys \<Longrightarrow> x \<in> set xs \<Longrightarrow> \<exists>y \<in> set ys. P x y"
  by (induction rule: list_all2_induct) auto

lemma value_fields_class:
  assumes "value_fields m = Inr fs" "(n, as) \<in> set fs"
  obtains c where "c \<in> set (class_list m)" "km_wire c = By_value" "km_name c = n" "args_of (map (\<lambda>f. (fm_name f, fm_type f)) (km_fields c)) = Inr as"
proof -
  obtain c where c: "c \<in> set (filter (\<lambda>c. km_wire c = By_value) (constructed m @ handed_back m))"
    "map_sum id (Pair (km_name c)) (args_of (map (\<lambda>f. (fm_name f, fm_type f)) (km_fields c))) = Inr (n, as)"
    using list_all2_member[OF assms(1)[unfolded value_fields_def map_res_Inr_iff] assms(2)] by blast
  then show ?thesis using that[of c] classes_named_listed[of m] by (auto simp: constructed_def handed_back_def map_sum_Inr_iff)
qed

lemma args_of_wires: "args_of ps = Inr as \<Longrightarrow> (f, w) \<in> set as \<Longrightarrow> \<exists>t. (f, t) \<in> set ps \<and> wire_of t = Inr w"
  unfolding args_of_def map_res_Inr_iff by (induction rule: list_all2_induct) (auto simp: map_sum_Inr_iff)

lemma concat_map_Nil: "concat (map g xs) = [] \<Longrightarrow> x \<in> set xs \<Longrightarrow> g x = []"
  by simp

lemma wire_rule_value:
  assumes "wire_rule m = []" "c \<in> set (class_list m)" "km_wire c = By_value"
  shows "\<forall>f \<in> set (km_fields c). \<not> field_bad m f" "km_fields c = [] \<longleftrightarrow> km_unit c"
  using concat_map_Nil[OF assms(1)[unfolded wire_rule_def] assms(2)] assms(3) by (auto simp: filter_empty_conv split: if_splits)

text \<open>What the codec walks from one declared type to the next: an element, the fields of a value, the arms of a union. The parts of an
  error are not followed; \<open>errors_unchecked\<close> below says what no rule sees there.\<close>

inductive leads :: "wire_policy \<Rightarrow> wire \<Rightarrow> wire \<Rightarrow> bool" for p where
  itself: "leads p w w"
| item: "leads p w v \<Longrightarrow> witem v = Some x \<Longrightarrow> leads p w x"
| field: "leads p w v \<Longrightarrow> wkind v = VALUE \<Longrightarrow> dict_get (wp_fields p) (wname v) = Some fs \<Longrightarrow> (f, x) \<in> set fs \<Longrightarrow> leads p w x"
| arm: "leads p w v \<Longrightarrow> wkind v = UNION \<Longrightarrow> dict_get (wp_unions p) (wname v) = Some xs \<Longrightarrow> x \<in> set xs \<Longrightarrow> leads p w x"

text \<open>What the read of a file checked: the arms of its unions, a scalar arm being no declared class; and by the marker rules no wire
  value is a class Nix calls back.\<close>

definition arms_read_well :: "known \<Rightarrow> dclass \<Rightarrow> bool" where
  "arms_read_well known u \<longleftrightarrow> check_arms u known = Inr () \<and>
     list_all (\<lambda>a. dict_get (dc_scalars (kl_decl u)) a = None \<or> dict_get known a = None) (dc_arms (kl_decl u)) \<and>
     list_all (\<lambda>(n, c). dc_wire (kl_decl c) = By_value \<longrightarrow> \<not> dc_calls_back (kl_decl c)) known"

definition unions_read_well :: "dmodule list \<Rightarrow> bool" where
  "unions_read_well mds \<longleftrightarrow> list_all (\<lambda>md. list_all (arms_read_well (known_of md)) (md_unions md)) mds"

lemma arm_kind:
  assumes "arms_read_well known u" "a \<in> set (dc_arms (kl_decl u))" "union_arm n known u a = Inr t"
  shows "tr_kind t \<notin> {K_PROXY, K_CLIENT}"
proof -
  obtain k sp where k: "kind_of known a = Inr k" "t = RLeaf k a [] [] sp" using assms(3) by (auto simp: union_arm_def res_bind_Inr_iff Let_def)
  have s: "dict_get (dc_scalars (kl_decl u)) a = None \<or> dict_get known a = None" using assms(1,2) by (auto simp: arms_read_well_def list_all_iff)
  obtain us where "map_res (check_arm u known) (dc_arms (kl_decl u)) = Inr us" using assms(1) by (auto simp: arms_read_well_def check_arms_def res_bind_Inr_iff)
  then have c: "check_arm u known a = Inr ()" using assms(2) by (auto simp: map_res_Inr_iff dest: list_all2_first)
  have "k \<notin> {K_PROXY, K_CLIENT}"
  proof (cases "dict_get known a")
    case None
    then show ?thesis using k(1) by (auto simp: kind_of_def split: if_splits)
  next
    case (Some d)
    then have "\<not> is_words d \<and> \<not> is_union d \<and> dc_wire (kl_decl d) = By_value" using c s by (auto simp: check_arm_def split: if_splits)
    moreover have "\<not> dc_calls_back (kl_decl d)" using assms(1) map_of_SomeD[OF Some] calculation by (auto simp: arms_read_well_def list_all_iff)
    ultimately show ?thesis using k(1) Some by (auto simp: kind_of_def split: if_splits)
  qed
  then show ?thesis by (simp add: k(2) tr_kind_def)
qed

lemma dict_set_listed: "(a, b) \<in> set (dict_set k v d) \<Longrightarrow> (a, b) = (k, v) \<or> (a, b) \<in> set d"
  by (induction d) (auto split: if_splits)

lemma listed_fold: "(k, v) \<in> set (fold (\<lambda>(k, v) d. dict_set k v d) xs d) \<Longrightarrow> (k, v) \<in> set xs \<or> (k, v) \<in> set d"
proof (induction xs arbitrary: d)
  case (Cons x xs)
  then show ?case using dict_set_listed[of k v "fst x" "snd x" d] by (cases x) auto
qed simp

lemma model_unions:
  assumes "declared_model n package mds vocabs errs = Inr m" "(k, ts) \<in> set (mo_unions m)"
  shows "\<exists>md \<in> set mds. \<exists>u \<in> set (md_unions md). union_of n (known_of md) u = Inr ts"
proof -
  obtain us where us: "unions_of n mds = Inr us" "mo_unions m = us"
    using assms(1) by (auto simp: declared_model_def post_init_def res_bind_Inr_iff split: if_splits)
  obtain uss where u: "list_all2 (\<lambda>md us. map_res (\<lambda>u. map_sum id (Pair (kl_name u)) (union_of n (known_of md) u)) (md_unions md) = Inr us) mds uss"
    "us = fold (\<lambda>(k, v) d. dict_set k v d) (concat uss) []" using us(1) by (auto simp: unions_of_def res_bind_Inr_iff map_res_Inr_iff)
  have "(k, ts) \<in> set (concat uss)" using listed_fold[of k ts "concat uss" "[]"] assms(2) us(2) u(2) by simp
  then obtain xs where xs: "xs \<in> set uss" "(k, ts) \<in> set xs" by auto
  obtain md where md: "md \<in> set mds" "map_res (\<lambda>u. map_sum id (Pair (kl_name u)) (union_of n (known_of md) u)) (md_unions md) = Inr xs"
    using list_all2_member[OF u(1) xs(1)] by blast
  obtain u where "u \<in> set (md_unions md)" "map_sum id (Pair (kl_name u)) (union_of n (known_of md) u) = Inr (k, ts)"
    using list_all2_member[OF md(2)[unfolded map_res_Inr_iff] xs(2)] by blast
  then show ?thesis using md(1) by (auto simp: map_sum_Inr_iff)
qed

lemma arms_plain:
  assumes "declared_model n package mds vocabs errs = Inr m" "unions_read_well mds" "policy_module m = Inr p"
    "dict_get (wp_unions p) k = Some ws" "w \<in> set ws"
  shows "plain w"
proof -
  obtain us where us: "union_arms_of m = Inr us" "wp_unions p = us" using assms(3) by (auto simp: policy_module_def res_bind_Inr_iff Let_def)
  obtain ts where ts: "(k, ts) \<in> set (mo_unions m)" "map_res wire_of ts = Inr ws"
    using list_all2_member[OF us(1)[unfolded union_arms_of_def map_res_Inr_iff]] map_of_SomeD[OF assms(4)] us(2) by (fastforce simp: map_sum_Inr_iff)
  obtain md u where u: "md \<in> set mds" "u \<in> set (md_unions md)" "union_of n (known_of md) u = Inr ts" using model_unions[OF assms(1) ts(1)] by blast
  obtain t where t: "t \<in> set ts" "wire_of t = Inr w" using list_all2_member[OF ts(2)[unfolded map_res_Inr_iff] assms(5)] by blast
  obtain a where "a \<in> set (dc_arms (kl_decl u))" "union_arm n (known_of md) u a = Inr t"
    using list_all2_member[OF u(3)[unfolded union_of_def map_res_Inr_iff] t(1)] by blast
  moreover have "arms_read_well (known_of md) u" using assms(2) u(1,2) by (auto simp: unions_read_well_def list_all_iff)
  ultimately show ?thesis using arm_kind wire_of_kind[OF t(2)] by blast
qed

lemma value_entry:
  assumes "complaints m = Inr []" "policy_module m = Inr p" "dict_get (wp_fields p) n = Some as"
  shows "(\<forall>(f, w) \<in> set as. plain w) \<and> (\<exists>c \<in> set (class_list m). km_name c = n \<and> km_wire c = By_value \<and> (as = [] \<longleftrightarrow> km_unit c))"
proof -
  obtain fs where fs: "value_fields m = Inr fs" "wp_fields p = fs" using assms(2) by (auto simp: policy_module_def res_bind_Inr_iff Let_def)
  obtain c where c: "c \<in> set (class_list m)" "km_wire c = By_value" "km_name c = n" "args_of (map (\<lambda>f. (fm_name f, fm_type f)) (km_fields c)) = Inr as"
    using value_fields_class[OF fs(1)] map_of_SomeD[OF assms(3)] fs(2) by blast
  have r: "wire_rule m = []" using assms(1) complaints_none by blast
  note ok = wire_rule_value[OF r c(1,2)]
  have "plain w" if fw: "(f, w) \<in> set as" for f w
  proof -
    obtain x where "x \<in> set (km_fields c)" "wire_of (fm_type x) = Inr w" using args_of_wires[OF c(4) fw] by auto
    then show ?thesis using wire_of_kind[of "fm_type x" w] ok(1) by (auto simp: field_bad_def tr_kind_def)
  qed
  moreover have "as = [] \<longleftrightarrow> km_unit c"
  proof -
    have "length as = length (km_fields c)" using map_res_length[OF c(4)[unfolded args_of_def]] by simp
    then show ?thesis using ok(2) by (metis length_0_conv)
  qed
  ultimately show ?thesis using c by blast
qed

lemma leads_plain:
  assumes "complaints m = Inr []" "policy_module m = Inr p" "declared_model k package mds vocabs errs = Inr m" "unions_read_well mds"
    and "leads p w v" "plain w"
  shows "plain v"
  using assms(5,6)
proof (induction rule: leads.induct)
  case (item w v x)
  then show ?case by (cases v) auto
next
  case (field w v fs f x)
  then show ?case using value_entry[OF assms(1,2) field(3)] by blast
next
  case (arm w v xs x)
  then show ?case using arms_plain[OF assms(3,4,2) arm(3,4)] by blast
qed simp

text \<open>C20. When the contracts have no complaint and the read checked the arms of the unions, nothing an emitted wire value is made of is a
  handle, however deep: not a field, not an element of one, not a field of a value it holds nor of one that is an arm of a union it
  holds. A value without fields declares that it has none. The parts of an error a value holds are outside of this, and of every rule.\<close>

theorem values_copy:
  assumes "complaints m = Inr []" "policy_module m = Inr p" "declared_model k package mds vocabs errs = Inr m" "unions_read_well mds"
    "dict_get (wp_fields p) n = Some as"
  shows "(\<forall>(f, w) \<in> set as. \<forall>v. leads p w v \<longrightarrow> wkind v \<noteq> PROXY \<and> wkind v \<noteq> CLIENT) \<and>
    (\<exists>c \<in> set (class_list m). km_name c = n \<and> km_wire c = By_value \<and> (as = [] \<longleftrightarrow> km_unit c))"
proof -
  have "wkind v \<noteq> PROXY \<and> wkind v \<noteq> CLIENT" if "(f, w) \<in> set as" "leads p w v" for f w v
  proof -
    have "plain w" using value_entry[OF assms(1,2,5)] that(1) by blast
    then have "plain v" by (rule leads_plain[OF assms(1-4) that(2)])
    then show ?thesis by (cases v) simp
  qed
  then show ?thesis using value_entry[OF assms(1,2,5)] by blast
qed

text \<open>A value that holds a union of a value and a builtin, as \<open>SingleDerivedPath\<close> stands among the fields of a value.\<close>

definition t_I64 :: dtype where
  "t_I64 = DLeaf ''int'' (Some \<lparr>cx_spelling = ''int64_t'', cx_width = ''int''\<rparr>) False [] []"

definition demo_Target :: dclass where
  "demo_Target = \<lparr>kl_name = ''Target'', kl_decl = (plain_decl By_value [])\<lparr>dc_kind := UNION_KIND, dc_arms := [''StorePath'', ''int''],
     dc_scalars := [(''int'', t_I64)]\<rparr>, kl_ctor = None, kl_methods = [], kl_from_parts = None, kl_raised = None\<rparr>"

definition demo_Wanted :: dclass where
  "demo_Wanted = \<lparr>kl_name = ''Wanted'', kl_decl = (plain_decl By_value ''nix::Wanted''), kl_ctor = Some (plain_meth ''__init__'' [needed ''targets'' (DWrap LIST_OF (bound_type ''Target''))] None),
     kl_methods = [plain_meth ''targets'' [] (Some (DWrap LIST_OF (bound_type ''Target'')))], kl_from_parts = None, kl_raised = None\<rparr>"

definition union_modules :: "dmodule list" where
  "union_modules = [\<lparr>md_name = ''path'', md_classes = [demo_StorePath, demo_Wanted], md_functions = [], md_unions = [demo_Target], md_uses = [], md_errors = []\<rparr>]"

lemma union_set: obtains m p as where "declared_model 9 ''huggorm_bindings'' union_modules [] None = Inr m" "policy_module m = Inr p" "complaints m = Inr []"
  "dict_get (wp_fields p) ''Wanted'' = Some [(''targets'', Wire LIST [] (Some (Wire UNION ''Target'' None False)) False)]"
  "dict_get (wp_unions p) ''Target'' = Some [Wire VALUE ''StorePath'' None False, Wire SCALAR ''int'' None False]"
proof -
  have c: "case declared_model 9 ''huggorm_bindings'' union_modules [] None of Inl _ \<Rightarrow> False | Inr m \<Rightarrow> complaints m = Inr [] \<and>
     (case policy_module m of Inl _ \<Rightarrow> False | Inr p \<Rightarrow>
       dict_get (wp_fields p) ''Wanted'' = Some [(''targets'', Wire LIST [] (Some (Wire UNION ''Target'' None False)) False)] \<and>
       dict_get (wp_unions p) ''Target'' = Some [Wire VALUE ''StorePath'' None False, Wire SCALAR ''int'' None False])" by code_simp
  then show ?thesis using that by (auto split: sum.splits)
qed

lemma values_copy_witness: "\<exists>m p w v. declared_model 9 ''huggorm_bindings'' union_modules [] None = Inr m \<and> policy_module m = Inr p \<and>
    dict_get (wp_fields p) ''Wanted'' = Some [(''targets'', w)] \<and> leads p w v \<and> wkind v = VALUE \<and> (\<forall>v. leads p w v \<longrightarrow> wkind v \<noteq> PROXY)"
proof -
  obtain m p where m: "declared_model 9 ''huggorm_bindings'' union_modules [] None = Inr m" "policy_module m = Inr p" "complaints m = Inr []"
    and f: "dict_get (wp_fields p) ''Wanted'' = Some [(''targets'', Wire LIST [] (Some (Wire UNION ''Target'' None False)) False)]"
    and u: "dict_get (wp_unions p) ''Target'' = Some [Wire VALUE ''StorePath'' None False, Wire SCALAR ''int'' None False]" by (rule union_set)
  have w: "unions_read_well union_modules" by code_simp
  let ?w = "Wire LIST [] (Some (Wire UNION ''Target'' None False)) False"
  have "leads p ?w (Wire UNION ''Target'' None False)" using leads.item[OF leads.itself] by simp
  from leads.arm[OF this, of _ "Wire VALUE ''StorePath'' None False"] have "leads p ?w (Wire VALUE ''StorePath'' None False)" by (simp add: u)
  then show ?thesis using values_copy[OF m(3,2,1) w f] m(1,2) f by fastforce
qed

subsection \<open>What the contracts do not see\<close>

text \<open>No contract reads the parts of an error: one declared with a proxy among its parts is emitted, and the codec refuses the
  part when the error is raised.\<close>

lemma errors_ignored: "adopted_class (m\<lparr>mo_errors := es\<rparr>) = adopted_class m" "served (m\<lparr>mo_errors := es\<rparr>) = served m"
    "class_list (m\<lparr>mo_errors := es\<rparr>) = class_list m" "blocking_method (m\<lparr>mo_errors := es\<rparr>) = blocking_method m"
    "in_container (m\<lparr>mo_errors := es\<rparr>) = in_container m"
  by (simp_all add: fun_eq_iff adopted_class_def served_def class_list_def blocking_method_def in_container_def split: option.split)

lemma errors_unread: "field_bad (m\<lparr>mo_errors := es\<rparr>) = field_bad m" "hands_affine (m\<lparr>mo_errors := es\<rparr>) = hands_affine m"
    "function_bad (m\<lparr>mo_errors := es\<rparr>) = function_bad m" "blocking_methods (m\<lparr>mo_errors := es\<rparr>) = blocking_methods m"
  by (simp_all add: fun_eq_iff field_bad_def hands_affine_def function_bad_def blocking_methods_def errors_ignored split: option.split)

lemma errors_unchecked: "complaints (m\<lparr>mo_errors := es\<rparr>) = complaints m"
  unfolding complaints_def functions_rule_def wrap_rule_def collection_rule_def affine_rule_def wire_rule_def errors_ignored errors_unread by simp

text \<open>A method that returns an opaque object is reported as one that cannot cross, and would keep its in-process form; but
  the policy resolves the return of every method, so the build stops.\<close>

lemma opaque_return_stops:
  assumes "mm_returns mm = Some (RLeaf K_OPAQUE ''object'' [] [] sp)"
  shows "\<not> offered m mm" "method_specs m i (mm # ms) = Inl TypeError"
proof -
  show n: "\<not> offered m mm" using assms by (simp add: offered_def blockers_def wire_blocker_def blocked_leaf_def tr_kind_def Let_def)
  have "wire_of (RLeaf K_OPAQUE ''object'' [] [] sp) = Inl TypeError"
    by (simp add: wire_of_def tr_optional_def leaf_wire_def tr_scalar_def tr_kind_def tr_name_def CROSSES_def SPELLED_def)
  then show "method_specs m i (mm # ms) = Inl TypeError" using n assms by (simp add: wire_opt_def)
qed

end
