(* ===== verification/Errors_Props.thy ===== *)
theory Errors_Props
  imports Model_Set
begin

text \<open>
  The order the translator catches exceptions in. C++ takes the first catch that matches, so a class has to come before any
  class it derives from. With one declared base per class it does; with two, the depth counts only the first.
\<close>

definition derives :: "(string, error_model) dict \<Rightarrow> string \<Rightarrow> string \<Rightarrow> bool" where
  "derives classes a b \<longleftrightarrow> (\<exists>e. dict_get classes a = Some e \<and> b \<in> set (er_bases e))"

definition single_bases :: "(string, error_model) dict \<Rightarrow> bool" where
  "single_bases classes \<longleftrightarrow> (\<forall>n e. dict_get classes n = Some e \<longrightarrow> length (er_bases e) \<le> 1)"

lemma depth_loop_more: "depth_loop n classes x d = Some (Inr k) \<Longrightarrow> n \<le> n' \<Longrightarrow> d \<le> k \<and> depth_loop n' classes x d' = Some (Inr (k - d + d'))"
proof (induction n classes x d arbitrary: n' d' rule: depth_loop.induct)
  case (2 n classes name d)
  obtain q where q: "n' = Suc q" "n \<le> q" using 2(3) by (cases n') auto
  obtain e where e: "dict_get classes name = Some e" using 2(2) by (auto split: option.splits)
  show ?case
  proof (cases "er_bases e")
    case Nil
    then show ?thesis using 2(2) e q by simp
  next
    case (Cons b bs)
    have "Suc d \<le> k \<and> depth_loop q classes b (Suc d') = Some (Inr (k - Suc d + Suc d'))"
      by (rule 2(1)[OF e Cons _ q(2)]) (use 2(2) e Cons in simp)
    then show ?thesis using e q Cons by auto
  qed
qed simp

lemma depth_step:
  assumes "single_bases classes" "derives classes a b" "depth_of classes a = Some (Inr k)"
  shows "depth_of classes b = Some (Inr (k - 1)) \<and> k > 0"
proof -
  obtain e where e: "dict_get classes a = Some e" "b \<in> set (er_bases e)" using assms(2) by (auto simp: derives_def)
  have "length (er_bases e) \<le> 1" using assms(1) e(1) unfolding single_bases_def by blast
  then have b: "er_bases e = [b]" using e(2) by (cases "er_bases e") auto
  have "depth_loop (length classes) classes b 1 = Some (Inr k)" using assms(3) e b by (simp add: depth_of_def)
  from depth_loop_more[OF this, of "Suc (length classes)" 0] show ?thesis by (auto simp: depth_of_def)
qed

lemma depth_chain:
  assumes "single_bases classes" "(derives classes)\<^sup>+\<^sup>+ a b" "depth_of classes a = Some (Inr k)"
  shows "depth_at classes b < depth_at classes a"
proof -
  have "\<exists>j. depth_of classes b = Some (Inr j) \<and> j < k" using assms(2)
  proof (induction rule: tranclp_induct)
    case (base y)
    then show ?case using depth_step[OF assms(1) base assms(3)] by auto
  next
    case (step y z)
    then show ?case using depth_step[OF assms(1) step(2)] by (metis less_imp_diff_less)
  qed
  then show ?thesis using assms(3) by (auto simp: depth_at_def)
qed

lemma depth_ends:
  assumes "\<forall>x e. dict_get classes x = Some e \<longrightarrow> (\<forall>b \<in> set (er_bases e). dict_get classes b \<noteq> None \<and> (rk b :: nat) < rk x)"
  shows "dict_get classes x \<noteq> None \<Longrightarrow> rk x < n \<Longrightarrow> \<exists>k. depth_loop n classes x d = Some (Inr k)"
proof (induction n arbitrary: x d)
  case (Suc n)
  obtain e where e: "dict_get classes x = Some e" using Suc.prems by auto
  show ?case
  proof (cases "er_bases e")
    case Nil
    then show ?thesis using e by simp
  next
    case (Cons b bs)
    then have "dict_get classes b \<noteq> None" "rk b < n" using assms e Suc.prems(2) by fastforce+
    then show ?thesis using Suc.IH e Cons by simp
  qed
qed simp

lemma caught_sorted:
  assumes "caught_of classes declared = Inr cs"
  shows "sorted_wrt (\<lambda>a b. depth_at classes a \<ge> depth_at classes b) cs" "\<forall>n \<in> set cs. \<exists>k. depth_of classes n = Some (Inr k)"
    "set cs = {n \<in> set declared. \<exists>e. dict_get classes n = Some e \<and> er_cxx e \<noteq> []}"
proof -
  define ks where "ks = filter (\<lambda>n. case dict_get classes n of None \<Rightarrow> False | Some e \<Rightarrow> er_cxx e \<noteq> []) declared"
  obtain ds where ds: "map_res (\<lambda>n. case depth_of classes n of Some r \<Rightarrow> r | None \<Rightarrow> Inl RuntimeError) ks = Inr ds"
    "cs = sort_by (\<lambda>a b. depth_at classes a \<ge> depth_at classes b) ks"
    using assms by (auto simp: caught_of_def res_bind_Inr_iff Let_def ks_def)
  show "sorted_wrt (\<lambda>a b. depth_at classes a \<ge> depth_at classes b) cs" unfolding ds(2) by (rule sort_by_sorted) auto
  show "\<forall>n \<in> set cs. \<exists>k. depth_of classes n = Some (Inr k)"
  proof
    fix n assume "n \<in> set cs"
    then have "n \<in> set ks" by (simp add: ds(2))
    then obtain d where "(case depth_of classes n of Some r \<Rightarrow> r | None \<Rightarrow> Inl RuntimeError) = Inr d"
      using ds(1) unfolding map_res_Inr_iff by (auto simp: list_all2_conv_all_nth in_set_conv_nth)
    then show "\<exists>k. depth_of classes n = Some (Inr k)" by (auto split: option.splits)
  qed
  show "set cs = {n \<in> set declared. \<exists>e. dict_get classes n = Some e \<and> er_cxx e \<noteq> []}"
    by (auto simp: ds(2) ks_def split: option.splits)
qed

text \<open>C26. When each error has at most one declared base, the chain of catches holds exactly the classes with a C++ type, and one that derives from
  another, however far, is caught before it: no catch of a base takes what a later catch is for.\<close>

theorem caught_most_derived:
  assumes "caught_of classes declared = Inr cs" "single_bases classes" "i < j" "j < length cs"
  shows "\<not> (derives classes)\<^sup>+\<^sup>+ (cs ! j) (cs ! i) \<and> set cs = {n \<in> set declared. \<exists>e. dict_get classes n = Some e \<and> er_cxx e \<noteq> []}"
proof -
  have "depth_at classes (cs ! j) \<le> depth_at classes (cs ! i)" using sorted_wrt_nth_less[OF caught_sorted(1)[OF assms(1)] assms(3,4)] .
  moreover obtain k where "depth_of classes (cs ! j) = Some (Inr k)" using caught_sorted(2)[OF assms(1)] assms(4) nth_mem by blast
  ultimately show ?thesis using depth_chain[OF assms(2), of "cs ! j" "cs ! i"] caught_sorted(3)[OF assms(1)] by fastforce
qed

text \<open>A hierarchy with an end has its chain: the bases are declared and lead down a rank below the number of classes.\<close>

lemma caught_exists:
  assumes "\<forall>x e. dict_get classes x = Some e \<longrightarrow> rk x \<le> length classes \<and> (\<forall>b \<in> set (er_bases e). dict_get classes b \<noteq> None \<and> (rk b :: nat) < rk x)"
  shows "\<exists>cs. caught_of classes declared = Inr cs"
proof -
  have "\<exists>k. depth_of classes n = Some (Inr k)" if "dict_get classes n = Some e" for n e
    unfolding depth_of_def by (rule depth_ends[where rk = rk]) (use assms that in \<open>auto simp: le_imp_less_Suc\<close>)
  then have d: "(case depth_of classes n of Some r \<Rightarrow> r | None \<Rightarrow> Inl RuntimeError) = Inr (depth_at classes n)" if "dict_get classes n \<noteq> None" for n
    using that by (fastforce simp: depth_at_def)
  have "map_res (\<lambda>n. case depth_of classes n of Some r \<Rightarrow> r | None \<Rightarrow> Inl RuntimeError)
      (filter (\<lambda>n. case dict_get classes n of None \<Rightarrow> False | Some e \<Rightarrow> er_cxx e \<noteq> []) declared) = Inr (map (depth_at classes)
      (filter (\<lambda>n. case dict_get classes n of None \<Rightarrow> False | Some e \<Rightarrow> er_cxx e \<noteq> []) declared))"
    by (rule map_res_all_Inr) (rule d, auto split: option.splits)
  then show ?thesis by (auto simp: caught_of_def Let_def)
qed

definition demo_error :: "string \<Rightarrow> string list \<Rightarrow> string \<times> error_model" where
  "demo_error n bs = (n, \<lparr>er_name = n, er_bases = bs, er_fields = [], er_cxx = ''nix::'' @ n\<rparr>)"

definition demo_errors :: "(string, error_model) dict" where
  "demo_errors = [demo_error ''EvalError'' [''NixError''], demo_error ''NixError'' [], demo_error ''ThrownError'' [''EvalError'']]"

lemma caught_most_derived_witness: "caught_of demo_errors [''NixError'', ''EvalError'', ''ThrownError''] = Inr [''ThrownError'', ''EvalError'', ''NixError''] \<and>
    \<not> (derives demo_errors)\<^sup>+\<^sup>+ ''NixError'' ''ThrownError''"
proof -
  have c: "caught_of demo_errors [''NixError'', ''EvalError'', ''ThrownError''] = Inr [''ThrownError'', ''EvalError'', ''NixError'']" by code_simp
  have s: "single_bases demo_errors" by (simp add: single_bases_def demo_errors_def demo_error_def)
  show ?thesis using caught_most_derived[OF c s, of 0 2] c by simp
qed

text \<open>With two bases the depth follows the first: the deeper second base comes before the class, and its catch takes the class.\<close>

lemma two_bases_misordered:
  "caught_of [demo_error ''Both'' [''Root'', ''Deep''], demo_error ''Deep'' [''Mid''], demo_error ''Mid'' [''Low''], demo_error ''Low'' [], demo_error ''Root'' []]
     [''Both'', ''Deep''] = Inr [''Deep'', ''Both'']"
  by code_simp

end
