(* ===== verification/Signature.thy ===== *)
theory Signature
  imports Prelude
begin

text \<open>
  A Nix function's shape as \<open>inspect.Signature\<close> (\<open>huggorm/signature.py\<close>), with what the module uses of Python: which
  names are identifiers, the keywords, and the checks of \<open>inspect.Parameter\<close> and \<open>inspect.Signature\<close>. The accessors of the
  function value are the fields of \<open>nix_fn\<close>: each answers or raises.
\<close>

subsection \<open>Names\<close>

text \<open>\<open>str.isidentifier\<close> on code points below 256: letters and the underscore start a name, digits and the middle dot continue it.\<close>

definition id_start :: "char \<Rightarrow> bool" where
  "id_start c = (let n = (of_char c :: nat) in (65 \<le> n \<and> n \<le> 90) \<or> (97 \<le> n \<and> n \<le> 122) \<or> n = 95 \<or> n \<in> {170, 181, 186}
     \<or> (192 \<le> n \<and> n \<noteq> 215 \<and> n \<noteq> 247))"

definition id_continue :: "char \<Rightarrow> bool" where
  "id_continue c = (let n = (of_char c :: nat) in id_start c \<or> (48 \<le> n \<and> n \<le> 57) \<or> n = 183)"

definition isidentifier :: "string \<Rightarrow> bool" where
  "isidentifier name = (case name of [] \<Rightarrow> False | c # cs \<Rightarrow> id_start c \<and> list_all id_continue cs)"

text \<open>\<open>keyword.kwlist\<close>.\<close>

definition kwlist :: "string list" where
  "kwlist = [''False'', ''None'', ''True'', ''and'', ''as'', ''assert'', ''async'', ''await'', ''break'', ''class'', ''continue'',
     ''def'', ''del'', ''elif'', ''else'', ''except'', ''finally'', ''for'', ''from'', ''global'', ''if'', ''import'', ''in'', ''is'',
     ''lambda'', ''nonlocal'', ''not'', ''or'', ''pass'', ''raise'', ''return'', ''try'', ''while'', ''with'', ''yield'']"

definition is_keyword :: "string \<Rightarrow> bool" where
  "is_keyword name \<longleftrightarrow> name \<in> set kwlist"

definition usable :: "string \<Rightarrow> bool" where
  "usable name \<longleftrightarrow> isidentifier name \<and> \<not> is_keyword name"

definition ident :: "string \<Rightarrow> string \<Rightarrow> string" where
  "ident name fallback = (if isidentifier name \<and> \<not> is_keyword name then name else fallback)"

subsection \<open>Parameters and signatures\<close>

datatype param_kind = POSITIONAL_ONLY | KEYWORD_ONLY | VAR_KEYWORD

record sig_param =
  sp_name :: string
  sp_kind :: param_kind
  sp_default :: bool \<comment> \<open>whether it has one: the code gives every default as \<open>Ellipsis\<close>\<close>

text \<open>\<open>inspect.Parameter\<close>: a name that begins with a dot is an argument of a comprehension, which none of these kinds may be.\<close>

definition parameter :: "string \<Rightarrow> param_kind \<Rightarrow> bool \<Rightarrow> exn + sig_param" where
  "parameter name k dflt = (if dflt \<and> k = VAR_KEYWORD then Inl ValueError else if name = [] then Inl IndexError
     else if (is_keyword name \<and> k \<noteq> POSITIONAL_ONLY) \<or> \<not> isidentifier name then Inl ValueError
     else Inr \<lparr>sp_name = name, sp_kind = k, sp_default = dflt\<rparr>)"

fun kind_rank :: "param_kind \<Rightarrow> nat" where
  "kind_rank POSITIONAL_ONLY = 0"
| "kind_rank KEYWORD_ONLY = 3"
| "kind_rank VAR_KEYWORD = 4"

text \<open>\<open>inspect.Signature\<close>: one pass over the parameters with the highest kind so far, whether a positional default was seen,
  whether a \<open>**\<close> was seen, and the names so far.\<close>

fun checked :: "nat \<Rightarrow> bool \<Rightarrow> bool \<Rightarrow> string list \<Rightarrow> sig_param list \<Rightarrow> exn + unit" where
  "checked hi dflt var names [] = Inr ()"
| "checked hi dflt var names (p # ps) =
     (let k = kind_rank (sp_kind p) in
      if sp_kind p = VAR_KEYWORD \<and> var then Inl ValueError
      else if k < hi then Inl ValueError
      else if sp_kind p = POSITIONAL_ONLY \<and> \<not> sp_default p \<and> dflt then Inl ValueError
      else if sp_name p \<in> set names then Inl ValueError
      else checked (max hi k) (dflt \<or> (sp_kind p = POSITIONAL_ONLY \<and> sp_default p)) (var \<or> sp_kind p = VAR_KEYWORD)
             (sp_name p # names) ps)"

definition signature :: "sig_param list \<Rightarrow> exn + sig_param list" where
  "signature ps = res_bind (checked 0 False False [] ps) (\<lambda>_. Inr ps)"

subsection \<open>The signature of a function value\<close>

record nix_fn =
  nf_type_name :: "exn + string"
  nf_is_lambda :: "exn + bool"
  nf_is_primop :: "exn + bool"
  nf_has_formals :: "exn + bool"
  nf_lambda_arg :: "exn + string"
  nf_formal_names :: "exn + string list"
  nf_defaulted :: "exn + string list"
  nf_accepts_extra :: "exn + bool"
  nf_primop_arity :: "exn + int"
  nf_primop_args :: "exn + string list"

text \<open>\<open>str(n)\<close> of a natural number.\<close>

fun dec :: "nat \<Rightarrow> string" where
  "dec n = (if n < 10 then [char_of (48 + n)] else dec (n div 10) @ [char_of (48 + n mod 10)])"

declare dec.simps [simp del]

definition EXTRA :: string where "EXTRA = ''kwargs''"

definition formal_param :: "string list \<Rightarrow> nat \<times> string \<Rightarrow> exn + sig_param" where
  "formal_param defaulted p = parameter (ident (snd p) (''formal_'' @ dec (fst p))) KEYWORD_ONLY (snd p \<in> set defaulted)"

definition lambda_signature :: "nix_fn \<Rightarrow> exn + sig_param list" where
  "lambda_signature v = res_bind (nf_has_formals v) (\<lambda>formals.
     if \<not> formals then res_bind (nf_lambda_arg v) (\<lambda>name.
       res_bind (parameter (ident name ''arg'') POSITIONAL_ONLY False) (\<lambda>p. signature [p]))
     else res_bind (nf_formal_names v) (\<lambda>names.
       res_bind (nf_defaulted v) (\<lambda>defaulted.
       res_bind (map_res (formal_param defaulted) (enumerate 0 names)) (\<lambda>params.
       res_bind (nf_accepts_extra v) (\<lambda>extra.
       let params = sort_key sp_default params in
       if extra then res_bind (parameter EXTRA VAR_KEYWORD False) (\<lambda>p. signature (params @ [p])) else signature params)))))"

definition primop_param :: "string list \<Rightarrow> nat \<Rightarrow> exn + sig_param" where
  "primop_param names n = parameter (ident (if n < length names then names ! n else []) (''arg_'' @ dec n)) POSITIONAL_ONLY False"

definition primop_signature :: "nix_fn \<Rightarrow> exn + sig_param list" where
  "primop_signature v = res_bind (nf_primop_arity v) (\<lambda>arity. res_bind (nf_primop_args v) (\<lambda>names.
     res_bind (map_res (primop_param names) [0..<nat arity]) signature))"

definition signature_of :: "nix_fn \<Rightarrow> exn + sig_param list" where
  "signature_of v = res_bind (nf_type_name v) (\<lambda>ty. if ty \<noteq> ''function'' then Inl TypeError
     else res_bind (nf_is_lambda v) (\<lambda>lam. if lam then lambda_signature v
     else res_bind (nf_is_primop v) (\<lambda>prim. if prim then primop_signature v else Inl TypeError)))"

section \<open>The properties of signatures\<close>

text \<open>
  A signature says what Nix takes: where every formal has a name Python can use, a call by keywords fits the signature exactly
  when Nix accepts the attribute set. Building one fails only when two parameters end up with one name.
\<close>

subsection \<open>What Nix and Python accept\<close>

text \<open>Nix applies a function with formals to a set of attributes: every formal without a default has to be there, and without
  \<open>...\<close> nothing else may be.\<close>

definition nix_accepts :: "string list \<Rightarrow> string list \<Rightarrow> bool \<Rightarrow> string set \<Rightarrow> bool" where
  "nix_accepts names defaulted extra attrs \<longleftrightarrow> (\<forall>n\<in>set names. n \<in> attrs \<or> n \<in> set defaulted) \<and> (extra \<or> attrs \<subseteq> set names)"

text \<open>\<open>Signature.bind\<close> of a call with keywords only.\<close>

definition sig_accepts :: "sig_param list \<Rightarrow> string set \<Rightarrow> bool" where
  "sig_accepts ps kws \<longleftrightarrow>
     (\<forall>p\<in>set ps. sp_default p \<or> sp_kind p = VAR_KEYWORD \<or> sp_kind p = KEYWORD_ONLY \<and> sp_name p \<in> kws) \<and>
     ((\<exists>p\<in>set ps. sp_kind p = VAR_KEYWORD) \<or> (\<forall>k\<in>kws. \<exists>p\<in>set ps. sp_kind p = KEYWORD_ONLY \<and> sp_name p = k))"

definition describes :: "nix_fn \<Rightarrow> string list \<Rightarrow> string list \<Rightarrow> bool \<Rightarrow> bool" where
  "describes v names defaulted extra \<longleftrightarrow> nf_type_name v = Inr ''function'' \<and> nf_is_lambda v = Inr True \<and>
     nf_has_formals v = Inr True \<and> nf_formal_names v = Inr names \<and> nf_defaulted v = Inr defaulted \<and>
     nf_accepts_extra v = Inr extra"

subsection \<open>Names\<close>

lemma usable_not_Nil [simp]: "\<not> usable []"
  by (simp add: usable_def isidentifier_def)

lemma identifier_usable: "usable fallback \<Longrightarrow> usable (ident name fallback)"
  by (auto simp: ident_def usable_def)

lemma identifier_keeps: "usable name \<Longrightarrow> ident name fallback = name"
  by (simp add: ident_def usable_def)

lemma digits_continue:
  assumes "n < (10 :: nat)"
  shows "id_continue (char_of (48 + n))"
proof -
  have "n \<in> {0, 1, 2, 3, 4, 5, 6, 7, 8, 9}" using assms by auto
  then show ?thesis by (elim insertE emptyE) (simp_all add: id_continue_def Let_def)
qed

lemma dec_continue: "list_all id_continue (dec n)"
proof (induction n rule: dec.induct)
  case (1 n)
  have last: "id_continue (char_of (48 + n mod 10))" by (rule digits_continue) simp
  show ?case using 1 digits_continue[of n] last by (subst dec.simps) (simp del: of_char_of)
qed

lemma keyword_start: "is_keyword k \<Longrightarrow> take 7 k \<noteq> ''formal_'' \<and> take 4 k \<noteq> ''arg_''"
proof -
  have "\<forall>k\<in>set kwlist. take 7 k \<noteq> ''formal_'' \<and> take 4 k \<noteq> ''arg_''" by (simp add: kwlist_def)
  then show "is_keyword k \<Longrightarrow> ?thesis" by (auto simp: is_keyword_def)
qed

lemma formal_usable: "usable (''formal_'' @ dec n)"
  using keyword_start[of "''formal_'' @ dec n"] dec_continue[of n]
  by (auto simp: usable_def isidentifier_def id_start_def id_continue_def Let_def)

lemma arg_usable: "usable (''arg_'' @ dec n)"
  using keyword_start[of "''arg_'' @ dec n"] dec_continue[of n]
  by (auto simp: usable_def isidentifier_def id_start_def id_continue_def Let_def)

lemma extra_usable: "usable EXTRA"
  by (simp add: EXTRA_def usable_def isidentifier_def id_start_def id_continue_def is_keyword_def kwlist_def)

lemma parameter_usable:
  "usable name \<Longrightarrow> dflt \<longrightarrow> k \<noteq> VAR_KEYWORD \<Longrightarrow> parameter name k dflt = Inr \<lparr>sp_name = name, sp_kind = k, sp_default = dflt\<rparr>"
  by (auto simp: parameter_def usable_def isidentifier_def)

subsection \<open>Keyword parameters\<close>

definition keyword_param :: "string list \<Rightarrow> nat \<times> string \<Rightarrow> sig_param" where
  "keyword_param defaulted p =
     \<lparr>sp_name = ident (snd p) (''formal_'' @ dec (fst p)), sp_kind = KEYWORD_ONLY, sp_default = snd p \<in> set defaulted\<rparr>"

lemma formal_param_Inr: "formal_param defaulted p = Inr (keyword_param defaulted p)"
  unfolding formal_param_def keyword_param_def
  by (rule parameter_usable[OF identifier_usable[OF formal_usable]]) simp

definition extra_param :: sig_param where
  "extra_param = \<lparr>sp_name = EXTRA, sp_kind = VAR_KEYWORD, sp_default = False\<rparr>"

text \<open>Keyword parameters with at most one \<open>**\<close> at the end pass the check exactly when their names differ.\<close>

lemma checked_keywords:
  "\<forall>p\<in>set ps. sp_kind p = KEYWORD_ONLY \<Longrightarrow> hi \<le> 3 \<Longrightarrow> tail \<in> {[], [extra_param]} \<Longrightarrow> \<not> var \<Longrightarrow>
     checked hi dflt var names (ps @ tail) =
       (if distinct (map sp_name (ps @ tail)) \<and> set names \<inter> set (map sp_name (ps @ tail)) = {} then Inr () else Inl ValueError)"
proof (induction ps arbitrary: hi dflt names)
  case Nil
  then show ?case by (auto simp: extra_param_def Let_def)
next
  case (Cons p ps)
  then show ?case by (auto simp: Let_def)
qed

lemma signature_keywords:
  assumes "\<forall>p\<in>set ps. sp_kind p = KEYWORD_ONLY" "tail \<in> {[], [extra_param]}"
  shows "signature (ps @ tail) = (if distinct (map sp_name (ps @ tail)) then Inr (ps @ tail) else Inl ValueError)"
  using checked_keywords[OF assms(1) _ assms(2), of 0 False False "[]"] by (simp add: signature_def)

definition formals_of :: "string list \<Rightarrow> string list \<Rightarrow> sig_param list" where
  "formals_of names defaulted = sort_key sp_default (map (keyword_param defaulted) (enumerate 0 names))"

definition tail_of :: "bool \<Rightarrow> sig_param list" where
  "tail_of extra = (if extra then [extra_param] else [])"

lemma lambda_exact:
  assumes "describes v names defaulted extra"
  shows "signature_of v = (if distinct (map sp_name (formals_of names defaulted @ tail_of extra))
     then Inr (formals_of names defaulted @ tail_of extra) else Inl ValueError)"
proof -
  have made: "map_res (formal_param defaulted) (enumerate 0 names) = Inr (map (keyword_param defaulted) (enumerate 0 names))"
    by (rule map_res_all_Inr) (rule formal_param_Inr)
  have kinds: "\<forall>p\<in>set (formals_of names defaulted). sp_kind p = KEYWORD_ONLY"
    by (auto simp: formals_of_def keyword_param_def)
  have extra: "parameter EXTRA VAR_KEYWORD False = Inr extra_param"
    by (simp add: parameter_usable extra_usable extra_param_def)
  have "signature_of v = signature (formals_of names defaulted @ tail_of extra)"
    using assms by (simp add: signature_of_def lambda_signature_def describes_def made extra Let_def formals_of_def tail_of_def)
  also have "\<dots> = (if distinct (map sp_name (formals_of names defaulted @ tail_of extra))
     then Inr (formals_of names defaulted @ tail_of extra) else Inl ValueError)"
    by (rule signature_keywords[OF kinds]) (simp add: tail_of_def)
  finally show ?thesis .
qed

lemma formals_usable:
  assumes "\<forall>n\<in>set names. usable n"
  shows "map (keyword_param defaulted) (enumerate 0 names) =
    map (\<lambda>n. \<lparr>sp_name = n, sp_kind = KEYWORD_ONLY, sp_default = n \<in> set defaulted\<rparr>) names"
  using assms by (intro nth_equalityI) (simp_all add: nth_enumerate_eq keyword_param_def identifier_keeps)

text \<open>C23. Where every formal of a Nix lambda is a name Python can use, the lambda has a signature, and the keyword calls that fit it
  are exactly the attribute sets Nix applies the lambda to: the formals with a default may be left out, and others may be given
  only with \<open>...\<close>. With one exception: a lambda with \<open>...\<close> and a formal named \<open>kwargs\<close> has no signature, asking for it raises
  \<open>ValueError\<close>.\<close>

theorem signature_accepts:
  assumes "describes v names defaulted extra" "distinct names" "\<forall>n\<in>set names. usable n"
  shows "if extra \<and> EXTRA \<in> set names then signature_of v = Inl ValueError
    else \<exists>ps. signature_of v = Inr ps \<and> (\<forall>kws. sig_accepts ps kws \<longleftrightarrow> nix_accepts names defaulted extra kws)"
proof -
  let ?f = "\<lambda>n. \<lparr>sp_name = n, sp_kind = KEYWORD_ONLY, sp_default = n \<in> set defaulted\<rparr>"
  have fs: "formals_of names defaulted = sort_key sp_default (map ?f names)"
    by (simp only: formals_of_def formals_usable[OF assms(3)])
  have mems: "set (formals_of names defaulted) = ?f ` set names" by (simp add: fs)
  have plain: "distinct (map sp_name (map ?f names))" using assms(2) by (simp add: comp_def)
  have once: "distinct (map ?f names)" by (simp add: distinct_map inj_on_def assms(2))
  have "distinct (map sp_name (formals_of names defaulted))"
    using once plain[unfolded distinct_map[of sp_name]]
    by (simp only: fs distinct_map[of sp_name] distinct_sort set_sort simp_thms)
  moreover have "sp_name ` set (formals_of names defaulted) = set names" by (auto simp: mems image_image)
  ultimately have "distinct (map sp_name (formals_of names defaulted @ tail_of extra)) \<longleftrightarrow> \<not> (extra \<and> EXTRA \<in> set names)"
    by (auto simp: tail_of_def extra_param_def)
  then have sig: "signature_of v = (if extra \<and> EXTRA \<in> set names then Inl ValueError else Inr (formals_of names defaulted @ tail_of extra))"
    by (simp add: lambda_exact[OF assms(1)])
  have "sig_accepts (formals_of names defaulted @ tail_of extra) kws \<longleftrightarrow> nix_accepts names defaulted extra kws" for kws
    by (cases extra) (simp_all add: sig_accepts_def nix_accepts_def mems tail_of_def extra_param_def subset_eq disj_commute)
  with sig show ?thesis by auto
qed

definition demo_fn :: "string list \<Rightarrow> string list \<Rightarrow> bool \<Rightarrow> nix_fn" where
  "demo_fn names defaulted extra = \<lparr>nf_type_name = Inr ''function'', nf_is_lambda = Inr True, nf_is_primop = Inr False,
     nf_has_formals = Inr True, nf_lambda_arg = Inr [], nf_formal_names = Inr names, nf_defaulted = Inr defaulted,
     nf_accepts_extra = Inr extra, nf_primop_arity = Inl TypeError, nf_primop_args = Inl TypeError\<rparr>"

lemma demo_describes: "describes (demo_fn names defaulted extra) names defaulted extra"
  by (simp add: describes_def demo_fn_def)

lemma signature_accepts_witness:
  "(\<exists>ps. signature_of (demo_fn [''a'', ''b''] [''a''] True) = Inr ps \<and>
     (\<forall>kws. sig_accepts ps kws \<longleftrightarrow> nix_accepts [''a'', ''b''] [''a''] True kws)) \<and>
   signature_of (demo_fn [''a'', EXTRA] [] True) = Inl ValueError"
proof -
  have u: "usable ''a''" "usable ''b''" by (simp_all add: usable_def isidentifier_def id_start_def is_keyword_def kwlist_def)
  have d: "''a'' \<noteq> EXTRA" "''b'' \<noteq> EXTRA" by (simp_all add: EXTRA_def)
  show ?thesis
    using signature_accepts[OF demo_describes[where names = "[''a'', ''b'']" and defaulted = "[''a'']" and extra = True]]
      signature_accepts[OF demo_describes[where names = "[''a'', EXTRA]" and defaulted = "[]" and extra = True]] u extra_usable d by auto
qed

text \<open>What is lost: an ellipsis next to a formal named \<open>kwargs\<close>, and a formal named like the stand-in of another one.\<close>

lemma extra_clashes: "signature_of (demo_fn [''kwargs''] [] True) = Inl ValueError"
  unfolding lambda_exact[OF demo_describes]
  by (simp add: formals_of_def tail_of_def keyword_param_def extra_param_def EXTRA_def ident_def isidentifier_def
      id_start_def id_continue_def is_keyword_def kwlist_def enumerate_eq_zip)

lemma stand_in_clashes: "signature_of (demo_fn [''formal_1'', ''with space''] [] False) = Inl ValueError"
  unfolding demo_fn_def by code_simp

text \<open>A builtin has as many positional parameters as its arity, whatever names it lists.\<close>

lemma primop_length:
  assumes "nf_type_name v = Inr ''function''" "nf_is_lambda v = Inr False" "nf_is_primop v = Inr True"
    "nf_primop_arity v = Inr n" "signature_of v = Inr ps"
  shows "length ps = nat n \<and> (\<forall>p\<in>set ps. sp_kind p = POSITIONAL_ONLY \<and> \<not> sp_default p)"
proof -
  obtain names where made: "map_res (primop_param names) [0..<nat n] = Inr ps"
    using assms by (auto simp: signature_of_def primop_signature_def res_bind_Inr_iff signature_def)
  have one: "primop_param names i = Inr p \<Longrightarrow> sp_kind p = POSITIONAL_ONLY \<and> \<not> sp_default p" for i p
    by (auto simp: primop_param_def parameter_def split: if_splits)
  from made have "list_all2 (\<lambda>i p. primop_param names i = Inr p) [0..<nat n] ps" by (simp add: map_res_Inr_iff)
  then have "\<forall>p\<in>set ps. sp_kind p = POSITIONAL_ONLY \<and> \<not> sp_default p"
    by (auto simp: list_all2_conv_all_nth in_set_conv_nth dest!: one)
  with map_res_length[OF made] show ?thesis by simp
qed

end
