(* ===== verification/Py_Source.thy ===== *)
theory Py_Source
  imports Values
begin

text \<open>
  The Python the build writes, as the syntax trees of \<open>ast\<close> it builds: expressions, statements, and which names a module uses
  and which it binds. Docstrings are left out. A type or a default that the code parses from a string is kept as that string
  (\<open>XText\<close>): the names in it are its words up to their first dot. The parser of Python is not modelled.
\<close>

subsection \<open>The words of a text\<close>

definition id_char :: "char \<Rightarrow> bool" where
  "id_char c = (let n = (of_char c :: nat) in (48 \<le> n \<and> n \<le> 57) \<or> (65 \<le> n \<and> n \<le> 90) \<or> (97 \<le> n \<and> n \<le> 122) \<or> n = 95)"

definition word_char :: "char \<Rightarrow> bool" where
  "word_char c \<longleftrightarrow> id_char c \<or> c = CHR ''.''"

fun chunks :: "string \<Rightarrow> string list" where
  "chunks [] = [[]]"
| "chunks (c # cs) = (if word_char c then (case chunks cs of [] \<Rightarrow> [[c]] | h # t \<Rightarrow> (c # h) # t) else [] # chunks cs)"

definition head_of :: "string \<Rightarrow> string" where
  "head_of w = takeWhile (\<lambda>c. c \<noteq> CHR ''.'') w"

definition text_names :: "string \<Rightarrow> string list" where
  "text_names s = map head_of (filter (\<lambda>w. w \<noteq> []) (chunks s))"

definition name_ok :: "string \<Rightarrow> bool" where
  "name_ok n \<longleftrightarrow> n \<noteq> [] \<and> list_all id_char n"

definition dotted_ok :: "string \<Rightarrow> bool" where
  "dotted_ok n \<longleftrightarrow> n \<noteq> [] \<and> list_all word_char n"

lemma chunks_not_Nil [simp]: "chunks s \<noteq> []"
  by (induction s) (auto split: list.split)

lemma chunks_word: "list_all word_char w \<Longrightarrow> chunks w = [w]"
  by (induction w) auto

lemma chunks_sep: "\<not> word_char c \<Longrightarrow> chunks (a @ c # b) = chunks a @ chunks b"
proof (induction a)
  case (Cons x a)
  then show ?case by (cases "chunks a") auto
qed simp

lemma text_names_sep: "\<not> word_char c \<Longrightarrow> text_names (a @ c # b) = text_names a @ text_names b"
  by (simp add: text_names_def chunks_sep)

lemma text_names_start: "\<not> word_char c \<Longrightarrow> text_names (c # b) = text_names b"
  using text_names_sep[of c "[]" b] by (simp add: text_names_def)

lemma text_names_Nil [simp]: "text_names [] = []"
  by (simp add: text_names_def)

lemma text_names_dotted: "dotted_ok w \<Longrightarrow> text_names w = [head_of w]"
  by (simp add: text_names_def dotted_ok_def chunks_word)

lemma id_char_word: "id_char c \<Longrightarrow> word_char c \<and> c \<noteq> CHR ''.''"
  by (auto simp: word_char_def id_char_def Let_def)

lemma name_ok_dotted: "name_ok n \<Longrightarrow> dotted_ok n"
  unfolding name_ok_def dotted_ok_def by (metis id_char_word list.pred_mono_strong)

lemma name_ok_head: "name_ok n \<Longrightarrow> head_of n = n"
  unfolding name_ok_def head_of_def by (auto simp: list_all_iff dest!: id_char_word)

lemma text_names_name: "name_ok n \<Longrightarrow> text_names n = [n]"
  by (simp add: text_names_dotted name_ok_dotted name_ok_head)

lemma name_ok_append: "name_ok a \<Longrightarrow> name_ok b \<Longrightarrow> name_ok (a @ b)"
  by (simp add: name_ok_def)

subsection \<open>Expressions and statements\<close>

datatype pyexpr =
    XName string
  | XStr string
  | XConst pyval
  | XText string
  | XAttr pyexpr string
  | XCall pyexpr "pyexpr list" "(string \<times> pyexpr) list"
  | XLambda pyexpr
  | XAwait pyexpr
  | XList "pyexpr list"
  | XTuple "pyexpr list"
  | XDict "(pyexpr \<times> pyexpr) list"
  | XOr pyexpr pyexpr
  | XIfNone string pyexpr \<comment> \<open>\<open>None if x is None else e\<close>\<close>
  | XEach pyexpr string pyexpr \<comment> \<open>\<open>[e for x in it]\<close>\<close>

fun expr_names :: "pyexpr \<Rightarrow> string list" where
  "expr_names (XName n) = [n]"
| "expr_names (XStr s) = []"
| "expr_names (XConst v) = []"
| "expr_names (XText s) = text_names s"
| "expr_names (XAttr e a) = expr_names e"
| "expr_names (XCall f as ks) = expr_names f @ concat (map expr_names as) @ concat (map (\<lambda>(k, e). expr_names e) ks)"
| "expr_names (XLambda e) = expr_names e"
| "expr_names (XAwait e) = expr_names e"
| "expr_names (XList es) = concat (map expr_names es)"
| "expr_names (XTuple es) = concat (map expr_names es)"
| "expr_names (XDict kvs) = concat (map (\<lambda>(k, v). expr_names k @ expr_names v) kvs)"
| "expr_names (XOr a b) = expr_names a @ expr_names b"
| "expr_names (XIfNone x e) = x # expr_names e"
| "expr_names (XEach e x it) = expr_names it @ filter (\<lambda>n. n \<noteq> x) (expr_names e)"

record pyarg =
  ag_name :: string
  ag_type :: "pyexpr option"
  ag_default :: "pyexpr option"

definition plain_arg :: "string \<Rightarrow> pyarg" where
  "plain_arg n = \<lparr>ag_name = n, ag_type = None, ag_default = None\<rparr>"

definition typed_arg :: "string \<Rightarrow> string \<Rightarrow> pyarg" where
  "typed_arg n t = \<lparr>ag_name = n, ag_type = Some (XText t), ag_default = None\<rparr>"

datatype pystmt =
    SImport string
  | SFrom string nat "(string \<times> string) list" \<comment> \<open>the module, its level, and each name with the name it is bound to\<close>
  | SAssign pyexpr pyexpr
  | SAnn string pyexpr "pyexpr option"
  | SReturn pyexpr
  | SExpr pyexpr
  | SRaise pyexpr
  | SDef bool "string list" string "pyarg list" "pyarg list" "pyexpr option" "pystmt list"
      \<comment> \<open>async, decorators, name, arguments, \<open>*args\<close> and \<open>**kwargs\<close>, the return, the body\<close>
  | SClass string "pyexpr list" "pystmt list"

definition opt_names :: "pyexpr option \<Rightarrow> string list" where
  "opt_names e = (case e of None \<Rightarrow> [] | Some e \<Rightarrow> expr_names e)"

definition arg_names :: "pyarg \<Rightarrow> string list" where
  "arg_names a = opt_names (ag_type a) @ opt_names (ag_default a)"

definition binds :: "pystmt \<Rightarrow> string list" where
  "binds s = (case s of SImport m \<Rightarrow> [m] | SFrom m l ns \<Rightarrow> map snd ns
     | SAssign t e \<Rightarrow> (case t of XName n \<Rightarrow> [n] | _ \<Rightarrow> []) | SAnn n t e \<Rightarrow> [n]
     | SDef as ds n args stars r body \<Rightarrow> [n] | SClass n bs body \<Rightarrow> [n] | _ \<Rightarrow> [])"

text \<open>The names a statement takes from around it. A function's parameters and what its body assigns are its own; what a class
  body binds is not seen by its functions.\<close>

fun uses :: "pystmt \<Rightarrow> string list" where
  "uses (SImport m) = []"
| "uses (SFrom m l ns) = []"
| "uses (SAssign t e) = (case t of XName n \<Rightarrow> [] | _ \<Rightarrow> expr_names t) @ expr_names e"
| "uses (SAnn n t e) = expr_names t @ opt_names e"
| "uses (SReturn e) = expr_names e"
| "uses (SExpr e) = expr_names e"
| "uses (SRaise e) = expr_names e"
| "uses (SDef as ds n args stars r body) = ds @ concat (map arg_names (args @ stars)) @ opt_names r
     @ filter (\<lambda>x. x \<notin> set (map ag_name (args @ stars) @ concat (map binds body))) (concat (map uses body))"
| "uses (SClass n bs body) = concat (map expr_names bs) @ concat (map uses body)"

definition used :: "pystmt list \<Rightarrow> string set" where
  "used body = set (concat (map uses body))"

definition bound_names :: "pystmt list \<Rightarrow> string set" where
  "bound_names body = set (concat (map binds body))"

text \<open>The names of Python's own that the emitted modules use.\<close>

definition PYTHON_NAMES :: "string set" where
  "PYTHON_NAMES = {''None'', ''str'', ''int'', ''float'', ''bool'', ''bytes'', ''object'', ''list'', ''dict'', ''tuple'', ''type'',
     ''TypeError'', ''classmethod''}"

definition scoped :: "pystmt list \<Rightarrow> bool" where
  "scoped body \<longleftrightarrow> used body \<subseteq> PYTHON_NAMES \<union> bound_names body"

end
