(* ===== verification/Spell.thy ===== *)
theory Spell
  imports Py_Source Model_Set
begin

text \<open>
  How an emitted module writes the types it names, and what that needs imported (\<open>pygen/spell.py\<close>). A \<open>Spelling\<close> is its
  settings, fixed when it is made, and the imports it has collected, which every spelling extends.
\<close>

type_synonym source = "string \<times> nat"

definition BUILTIN :: "string list" where
  "BUILTIN = [''None'', ''str'', ''int'', ''float'', ''bool'', ''bytes'', ''object'']"

definition BINDINGS :: source where "BINDINGS = (''huggorm_bindings'', 0)"
definition UNIONS :: source where "UNIONS = (''_unions'', 1)"
definition PROTOCOLS :: source where "PROTOCOLS = (''protocols'', 1)"

definition lower :: "string \<Rightarrow> string" where "lower s = map lower_char s"

definition sibling :: "string \<Rightarrow> source" where
  "sibling cls = (''async_'' @ lower cls, 1)"

text \<open>A renamed proxy and where it comes from: no source when the module defines it.\<close>

type_synonym rename = "tref \<Rightarrow> string \<times> source option"

record spelling_of =
  so_proxy :: "rename option"
  so_expand :: "(string, tref list) dict option"
  so_client :: "rename option"

record imported =
  im_froms :: "(source, string list) dict"
  im_modules :: "string list"

definition no_imports :: imported where
  "no_imports = \<lparr>im_froms = [], im_modules = []\<rparr>"

definition import_from :: "string \<Rightarrow> nat \<Rightarrow> string list \<Rightarrow> pystmt" where
  "import_from m l ns = SFrom m l (map (\<lambda>n. (n, n)) ns)"

definition need :: "string \<Rightarrow> source option \<Rightarrow> (imported, unit) eff" where
  "need name src = (\<lambda>s. (Inr (), case src of None \<Rightarrow> s
     | Some k \<Rightarrow> s\<lparr>im_froms := dict_set k (set_add name (dict_default (im_froms s) k [])) (im_froms s)\<rparr>))"

definition need_module :: "string \<Rightarrow> (imported, unit) eff" where
  "need_module dotted = (\<lambda>s. (Inr (), s\<lparr>im_modules := set_add (head_of dotted) (im_modules s)\<rparr>))"

definition python_spelling :: "string \<Rightarrow> string" where
  "python_spelling s = (if s = ''uint'' then ''int'' else s)"

fun join_text :: "string \<Rightarrow> string list \<Rightarrow> string" where
  "join_text sep [] = []"
| "join_text sep [x] = x"
| "join_text sep (x # y # zs) = x @ sep @ join_text sep (y # zs)"

text \<open>A union written out as its arms. An arm that is a union is written out in turn; the recursion of the code is bounded by
  Python's stack, here by \<open>n\<close>.\<close>

fun arms_text :: "nat \<Rightarrow> (string, tref list) dict \<Rightarrow> string \<Rightarrow> (imported, string) eff" where
  "arms_text 0 ex alias = raise RecursionError"
| "arms_text (Suc n) ex alias = (case dict_get ex alias of None \<Rightarrow> raise KeyError
     | Some arms \<Rightarrow> bind_eff (map_eff (\<lambda>arm. if tr_kind arm = K_UNION then arms_text n ex (tr_name arm)
         else let name = python_spelling (tr_name arm) in
           bind_eff (if name \<in> set BUILTIN then ret () else need name (Some BINDINGS)) (\<lambda>_. ret name)) arms)
         (\<lambda>out. ret (join_text '' | '' out)))"

definition leaf_text :: "nat \<Rightarrow> spelling_of \<Rightarrow> rename option \<Rightarrow> tref \<Rightarrow> (imported, string) eff" where
  "leaf_text n so proxy t = (if tr_kind t = K_PROXY then
       (case proxy of None \<Rightarrow> raise TypeError | Some f \<Rightarrow> bind_eff (need (fst (f t)) (snd (f t))) (\<lambda>_. ret (fst (f t))))
     else if tr_kind t = K_MODULE then bind_eff (need_module (tr_name t)) (\<lambda>_. ret (tr_name t))
     else if tr_kind t = K_UNION then (case so_expand so of Some ex \<Rightarrow> arms_text n ex (tr_name t)
         | None \<Rightarrow> bind_eff (need (tr_name t) (Some UNIONS)) (\<lambda>_. ret (tr_name t)))
     else if tr_name t \<notin> set BUILTIN then bind_eff (need (tr_name t) (Some BINDINGS)) (\<lambda>_. ret (tr_name t))
     else ret (tr_name t))"

definition either :: "rename option \<Rightarrow> rename option \<Rightarrow> rename option" where
  "either a b = (case a of None \<Rightarrow> b | Some f \<Rightarrow> Some f)"

fun spell :: "nat \<Rightarrow> spelling_of \<Rightarrow> rename option \<Rightarrow> bool \<Rightarrow> bool \<Rightarrow> tref \<Rightarrow> (imported, string) eff" where
  "spell n so proxy twin client (RWrap og e sp) = bind_eff (spell n so proxy twin client e) (\<lambda>x. ret (wrap_spelling og x))"
| "spell n so proxy twin client (RLeaf k nm w tw sp) = (let t = RLeaf k nm w tw sp in
     if twin \<and> tw \<noteq> [] then bind_eff (need_module tw) (\<lambda>_. ret tw)
     else (case so_client so of
         Some f \<Rightarrow> if client \<and> k = K_CLIENT then bind_eff (need nm (Some BINDINGS)) (\<lambda>_.
             bind_eff (need (fst (f t)) (snd (f t))) (\<lambda>_. ret (nm @ '' | '' @ fst (f t))))
           else leaf_text n so (either proxy (so_proxy so)) t
       | None \<Rightarrow> leaf_text n so (either proxy (so_proxy so)) t))"

definition spell_returns :: "nat \<Rightarrow> spelling_of \<Rightarrow> rename option \<Rightarrow> bool \<Rightarrow> tref option \<Rightarrow> (imported, string) eff" where
  "spell_returns n so proxy twin t = (case t of None \<Rightarrow> ret ''None'' | Some t \<Rightarrow> spell n so proxy twin False t)"

fun spell_defaults :: "param_model list \<Rightarrow> (imported, unit) eff" where
  "spell_defaults [] = ret ()"
| "spell_defaults (p # ps) = bind_eff (case pr_default p of Some (Member_of c m) \<Rightarrow> need c (Some BINDINGS) | _ \<Rightarrow> ret ())
     (\<lambda>_. spell_defaults ps)"

definition module_imports :: "imported \<Rightarrow> pystmt list" where
  "module_imports s = map SImport (im_modules s)"

definition import_stmts :: "string \<Rightarrow> imported \<Rightarrow> pystmt list" where
  "import_stmts own s = module_imports s @
     concat (map (\<lambda>((m, l), ns). if set_discard own ns = [] then [] else [import_from m l (set_discard own ns)]) (im_froms s))"

text \<open>\<open>absorb\<close>: one more renderer's imports.\<close>

definition absorb :: "imported \<Rightarrow> imported \<Rightarrow> imported" where
  "absorb other s = \<lparr>im_froms = fold (\<lambda>(k, ns) d. dict_set k (fold set_add ns (dict_default d k [])) d) (im_froms other) (im_froms s),
     im_modules = fold set_add (im_modules other) (im_modules s)\<rparr>"

definition binding_names :: "imported \<Rightarrow> string list" where
  "binding_names s = dict_default (im_froms s) BINDINGS []"

end
