(* ===== verification/Py_Emit.thy ===== *)
theory Py_Emit
  imports Spell
begin

text \<open>
  The Python package the build emits (\<open>pygen/emitter.py\<close>): the async class of every served class, the protocols of the
  classes Nix calls back, the coroutines of the free functions, the aliases of the unions, the tables of classes and the front
  door. A template with its substitutions is the tree the code parses it to. What is refused because it does not parse, docs and
  the sentences of messages are left out; \<open>n\<close> bounds the spelling of nested unions.
\<close>

subsection \<open>Bodies\<close>

definition ASYNC :: string where "ASYNC = ''Async''"

definition async_name :: "string \<Rightarrow> string" where "async_name c = ASYNC @ c"

definition forwarded :: "pyexpr \<Rightarrow> string \<Rightarrow> pystmt list" where
  "forwarded cl returns = (if returns = ''None'' then [SExpr (XAwait cl)]
     else [SReturn (XCall (XName ''cast'') [XText returns, XAwait cl] [])])"

definition adopting :: "pyexpr \<Rightarrow> string \<Rightarrow> pyexpr \<Rightarrow> bool \<Rightarrow> pystmt list" where
  "adopting cl aname runner opt = (let adopt = XCall (XAttr (XName aname) ''_adopt'') [XName ''result'', runner] [] in
     [SAssign (XName ''result'') (XAwait cl), SReturn (if opt then XIfNone ''result'' adopt else adopt)])"

definition twinned :: "pyexpr \<Rightarrow> tref \<Rightarrow> exn + pystmt list" where
  "twinned cl t = (let twin = XText (rl_twin (tr_leaf t)) in
     case t of RLeaf k nm w tw sp \<Rightarrow> Inr [SReturn (XCall twin [XAwait cl] [])]
     | RWrap og e sp \<Rightarrow> if tr_origin e \<noteq> None then Inl TypeError
         else (case og of
             OPTIONAL_OF \<Rightarrow> Inr [SAssign (XName ''result'') (XAwait cl),
               SReturn (XIfNone ''result'' (XCall twin [XName ''result''] []))]
           | LIST_OF \<Rightarrow> Inr [SReturn (XEach (XCall twin [XName ''item''] []) ''item'' (XAwait cl))]
           | DICT_OF \<Rightarrow> Inl TypeError))"

definition adapted :: "tref \<Rightarrow> bool" where
  "adapted t \<longleftrightarrow> \<not> tr_container t \<and> rl_kind (tr_leaf t) = K_CLIENT"

definition passed :: "param_model list \<Rightarrow> pyexpr list" where
  "passed ps = map (\<lambda>p. if adapted (pr_type p)
     then XCall (XName ''adapt'') [XName (rl_name (tr_leaf (pr_type p))), XName (pr_name p)] [] else XName (pr_name p)) ps"

definition client_rename :: "source option \<Rightarrow> rename" where
  "client_rename src t = (async_name (tr_name t), src)"

definition RUNNER :: "execution \<Rightarrow> string" where
  "RUNNER e = (case e of AFFINE_EXEC \<Rightarrow> ''AffineRunner'' | POOL_EXEC \<Rightarrow> ''PoolRunner'' | INLINE_EXEC \<Rightarrow> ''InlineRunner'')"

subsection \<open>Arguments\<close>

text \<open>The arms of a type text: what stands between its bars outside brackets, without the spaces.\<close>

fun bar_arms :: "nat \<Rightarrow> string \<Rightarrow> string list" where
  "bar_arms d [] = [[]]"
| "bar_arms d (c # cs) =
     (let d' = (if c = CHR ''['' then Suc d else if c = CHR '']'' then d - 1 else d) in
      if c = CHR ''|'' \<and> d = 0 then [] # bar_arms d' cs
      else if c = CHR '' '' \<and> d = 0 then bar_arms d' cs
      else (case bar_arms d' cs of [] \<Rightarrow> [[c]] | h # t \<Rightarrow> (c # h) # t))"

fun admits_none :: "pyexpr \<Rightarrow> bool" where
  "admits_none (XConst v) = (v = PNone)"
| "admits_none (XText s) = (''None'' \<in> set (bar_arms 0 s))"
| "admits_none (XOr a b) = (admits_none a \<or> admits_none b)"
| "admits_none e = False"

definition default_expr :: "default_src \<Rightarrow> pyexpr" where
  "default_expr d = (case d of Member_of c m \<Rightarrow> XText (c @ ''.'' @ m) | Repr_of v \<Rightarrow> XConst v)"

fun arguments :: "bool \<Rightarrow> param_model list \<Rightarrow> string list \<Rightarrow> exn + pyarg list" where
  "arguments defaulted (p # ps) (t # ts) = (let ann = (if pr_none p \<and> \<not> admits_none (XText t) then XOr (XText t) (XConst PNone) else XText t) in
     if pr_default p = None \<and> defaulted then Inl ValueError
     else res_bind (arguments (defaulted \<or> pr_default p \<noteq> None) ps ts) (\<lambda>as.
       Inr (\<lparr>ag_name = pr_name p, ag_type = Some ann, ag_default = map_option default_expr (pr_default p)\<rparr> # as)))"
| "arguments defaulted [] [] = Inr []"
| "arguments defaulted _ _ = Inl ValueError"

subsection \<open>How an async module spells its types\<close>

definition as_binding :: rename where "as_binding t = (tr_name t, Some BINDINGS)"
definition as_async :: rename where "as_async t = (async_name (tr_name t), Some (sibling (tr_name t)))"

definition own_rename :: "model \<Rightarrow> rename" where
  "own_rename m t = (if tr_name t \<in> set (served m) then as_async t else as_binding t)"

definition widened :: "nat \<Rightarrow> spelling_of \<Rightarrow> model \<Rightarrow> bool \<Rightarrow> tref \<Rightarrow> (imported, string) eff" where
  "widened n so m client t = (if tr_kind t = K_PROXY \<and> tr_origin t = None \<and> tr_name t \<in> set (served m)
     then bind_eff (need (tr_name t) (Some BINDINGS)) (\<lambda>_.
       bind_eff (need (async_name (tr_name t)) (Some (sibling (tr_name t)))) (\<lambda>_. ret (tr_name t @ '' | '' @ async_name (tr_name t))))
     else spell n so (Some as_binding) False client t)"

definition async_so :: "model \<Rightarrow> spelling_of" where
  "async_so m = \<lparr>so_proxy = Some (own_rename m), so_expand = None, so_client = Some (client_rename (Some PROTOCOLS))\<rparr>"

definition method_spelling :: "nat \<Rightarrow> model \<Rightarrow> method_model \<Rightarrow> (imported, string list \<times> string) eff" where
  "method_spelling n m mm =
     bind_eff (map_eff (\<lambda>p. spell n (async_so m) None False True (pr_type p)) (mm_params mm)) (\<lambda>ps.
     bind_eff (if adopted_class m (mm_returns mm) \<noteq> None then spell_returns n (async_so m) (Some as_async) False (mm_returns mm)
       else (case mm_returns mm of None \<Rightarrow> ret ''None'' | Some t \<Rightarrow> spell n (async_so m) (Some as_binding) True False t)) (\<lambda>r.
     bind_eff (spell_defaults (mm_params mm)) (\<lambda>_. ret (ps, r))))"

text \<open>The constructor's parameters, then each method's; a method declared twice keeps the later spelling, by its name.\<close>

definition async_spelling :: "nat \<Rightarrow> model \<Rightarrow> class_model \<Rightarrow> (imported, string list \<times> (string, string list \<times> string) dict) eff" where
  "async_spelling n m c =
     bind_eff (map_eff (\<lambda>p. widened n (async_so m) m False (pr_type p)) (km_ctor c)) (\<lambda>ctor.
     bind_eff (map_eff (\<lambda>mm. bind_eff (method_spelling n m mm) (\<lambda>sg. ret (mm_name mm, sg))) (km_methods c)) (\<lambda>ms.
     ret (ctor, fold (\<lambda>(k, v) d. dict_set k v d) ms [])))"

subsection \<open>The async class\<close>

definition spec_name :: "string \<Rightarrow> string \<Rightarrow> string" where
  "spec_name cls meth = ''_'' @ cls @ ''_'' @ meth"

definition self_attr :: "string \<Rightarrow> pyexpr" where "self_attr a = XAttr (XName ''self'') a"

definition hop_method :: "string \<Rightarrow> (string, string list \<times> string) dict \<Rightarrow> method_model \<Rightarrow> exn + pystmt" where
  "hop_method svc sigs mm = (case dict_get sigs (mm_name mm) of None \<Rightarrow> Inl KeyError
     | Some (ps, returns) \<Rightarrow>
       let cl = XCall (XAttr (self_attr ''_backend'') ''call'') [XName (spec_name svc (mm_name mm)), XList (map (XName \<circ> pr_name) (mm_params mm))] [] in
       res_bind (case mm_returns mm of None \<Rightarrow> Inr (forwarded cl returns)
           | Some t \<Rightarrow> if rl_twin (tr_leaf t) \<noteq> [] then twinned cl t else Inr (forwarded cl returns)) (\<lambda>body.
       res_bind (arguments False (mm_params mm) ps) (\<lambda>as.
       Inr (SDef True [] (mm_name mm) (plain_arg ''self'' # as) [] (Some (XText returns)) body))))"

definition on_def :: pystmt where
  "on_def = SDef False [''classmethod''] ''_on'' [plain_arg ''cls'', typed_arg ''backend'' ''Backend''] [] (Some (XText ''Self''))
     [SAssign (XName ''obj'') (XCall (XAttr (XName ''cls'') ''__new__'') [XName ''cls''] []),
      SAssign (XAttr (XName ''obj'') ''_backend'') (XName ''backend''), SReturn (XName ''obj'')]"

definition adopt_def :: "class_model \<Rightarrow> pystmt" where
  "adopt_def c = SDef False [''classmethod''] ''_adopt'' [plain_arg ''cls'', typed_arg ''obj'' (km_name c), typed_arg ''runner'' ''BaseRunner''] []
     (Some (XText ''Self'')) [SReturn (XCall (XAttr (XName ''cls'') ''_on'')
       [XCall (XAttr (XName (RUNNER (km_execution c))) ''adopt'') [XName ''obj'', XName ''runner''] []] [])]"

definition aclose_def :: pystmt where
  "aclose_def = SDef True [] ''aclose'' [plain_arg ''self''] [] (Some (XConst PNone))
     [SExpr (XAwait (XCall (XAttr (self_attr ''_backend'') ''aclose'') [] []))]"

definition future_annotations :: pystmt where
  "future_annotations = import_from ''__future__'' 0 [''annotations'']"

definition casts :: "class_model \<Rightarrow> bool" where
  "casts c \<longleftrightarrow> list_ex (\<lambda>mm. case mm_returns mm of None \<Rightarrow> False | Some t \<Rightarrow> rl_twin (tr_leaf t) = []) (km_methods c)"

definition async_module :: "nat \<Rightarrow> model \<Rightarrow> class_model \<Rightarrow> pystmt \<Rightarrow> string list \<Rightarrow> string list \<Rightarrow> exn + pystmt list" where
  "async_module n m c init typing_names runtime_names =
     (case async_spelling n m c no_imports of (Inl e, s) \<Rightarrow> Inl e
      | (Inr (ctor, sigs), s) \<Rightarrow>
        res_bind (map_res (hop_method (km_name c) sigs) (km_methods c)) (\<lambda>hops.
        let s' = snd (need (km_name c) (Some BINDINGS) s);
            typing = (if casts c then set_add ''cast'' typing_names else typing_names);
            aname = async_name (km_name c) in
        Inr (future_annotations # import_from ''typing'' 0 (''Self'' # typing)
          # import_from ''_runtime'' 1 (''Backend'' # ''BaseRunner'' # sorted_strs (RUNNER (km_execution c) # runtime_names))
          # (if km_methods c = [] then [] else [import_from ''_policy'' 1 (map (\<lambda>mm. spec_name (km_name c) (mm_name mm)) (km_methods c))])
          @ import_stmts aname s'
          @ [SClass aname [] (SAssign (XName ''_copied'') (XConst (PBool (km_copied c))) # SAnn ''_backend'' (XText ''Backend'') None
              # init # on_def # adopt_def c # hops @ [aclose_def])])))"

definition returned_init :: "class_model \<Rightarrow> pystmt" where
  "returned_init c = SDef False [] ''__init__'' [plain_arg ''self'', typed_arg ''obj'' (km_name c), typed_arg ''runner'' ''BaseRunner''] []
     (Some (XConst PNone)) [SAssign (self_attr ''_backend'')
       (XCall (XAttr (XName (RUNNER (km_execution c))) ''adopt'') [XName ''obj'', XName ''runner''] [])]"

definition returned_module :: "nat \<Rightarrow> model \<Rightarrow> class_model \<Rightarrow> exn + pystmt list" where
  "returned_module n m c = async_module n m c (returned_init c) [] []"

definition no_door_init :: "class_model \<Rightarrow> pystmt" where
  "no_door_init c = SDef False [] ''__init__'' [plain_arg ''self''] [typed_arg ''args'' ''Any'', typed_arg ''kwargs'' ''Any''] (Some (XConst PNone))
     [SRaise (XCall (XName ''TypeError'') [XStr (async_name (km_name c) @ '' has no constructor'')] [])]"

definition ctor_runner :: "class_model \<Rightarrow> string" where
  "ctor_runner c = RUNNER (case km_threading c of POOL \<Rightarrow> POOL_EXEC | AFFINE \<Rightarrow> AFFINE_EXEC)"

definition ctor_init :: "class_model \<Rightarrow> pyarg list \<Rightarrow> pystmt" where
  "ctor_init c as = SDef False [] ''__init__'' (plain_arg ''self'' # as) [] (Some (XConst PNone))
     [SAssign (self_attr ''_backend'') (XCall (XName (ctor_runner c))
       [XLambda (XCall (XName (km_name c)) (map (\<lambda>p. XCall (XName ''unwrap_arg'') [XName (pr_name p)] []) (km_ctor c)) [])]
       (if km_threading c = AFFINE then [(''name'', XStr (''huggorm-affine-'' @ km_name c))] else []))]"

definition wrapper_module :: "nat \<Rightarrow> model \<Rightarrow> class_model \<Rightarrow> exn + pystmt list" where
  "wrapper_module n m c = (if \<not> km_constructs c then async_module n m c (no_door_init c) [''Any''] []
     else (case async_spelling n m c no_imports of (Inl e, s) \<Rightarrow> Inl e
       | (Inr (ctor, sigs), s) \<Rightarrow> res_bind (arguments False (km_ctor c) ctor) (\<lambda>as.
           async_module n m c (ctor_init c as) [] (set_add (ctor_runner c) (if km_ctor c = [] then [] else [''unwrap_arg''])))))"

definition class_source :: "nat \<Rightarrow> model \<Rightarrow> class_model \<Rightarrow> exn + pystmt list" where
  "class_source n m c = (if km_name c \<in> set (returned m) then returned_module n m c else wrapper_module n m c)"

end
