(* ===== verification/Spell_Cover.thy ===== *)
theory Spell_Cover
  imports Py_Emit
begin

text \<open>
  What a spelling writes, it imports: every name in a type's text is Python's own or among the imports collected, and
  collecting never forgets one. Shared by the proofs about the emitted modules.
\<close>

definition provided :: "imported \<Rightarrow> string set" where
  "provided s = set (im_modules s) \<union> (\<Union>p\<in>set (im_froms s). set (snd p))"

definition covers :: "imported \<Rightarrow> string \<Rightarrow> bool" where
  "covers s txt \<longleftrightarrow> set (text_names txt) \<subseteq> PYTHON_NAMES \<union> provided s"

definition grows :: "(imported, 'a) eff \<Rightarrow> bool" where
  "grows m \<longleftrightarrow> (\<forall>s. provided s \<subseteq> provided (snd (m s)))"

definition tref_named :: "tref \<Rightarrow> bool" where
  "tref_named t \<longleftrightarrow> (if tr_kind t = K_MODULE then dotted_ok (tr_name t) else name_ok (tr_name t)) \<and>
     (rl_twin (tr_leaf t) = [] \<or> dotted_ok (rl_twin (tr_leaf t)) \<and> tr_kind t \<noteq> K_PROXY)"

definition rename_ok :: "rename \<Rightarrow> bool" where
  "rename_ok f \<longleftrightarrow> (\<forall>t. name_ok (tr_name t) \<longrightarrow> name_ok (fst (f t)) \<and> snd (f t) \<noteq> None)"

lemma covers_mono: "covers s txt \<Longrightarrow> provided s \<subseteq> provided s' \<Longrightarrow> covers s' txt"
  by (auto simp: covers_def)

lemma froms_set: "(\<Union>p\<in>set (dict_set k v d). set (snd p)) \<supseteq> (if set (dict_default d k []) \<subseteq> set v then (\<Union>p\<in>set d. set (snd p)) else {})"
proof (induction d)
  case (Cons p d)
  then show ?case by (cases p) (auto simp: dict_default_def split: if_splits)
qed simp

lemma provided_need: "provided (snd (need name (Some k) s)) \<supseteq> insert name (provided s)"
proof -
  let ?v = "set_add name (dict_default (im_froms s) k [])"
  have old: "(\<Union>p\<in>set (im_froms s). set (snd p)) \<subseteq> (\<Union>p\<in>set (dict_set k ?v (im_froms s)). set (snd p))"
    using froms_set[of "im_froms s" k ?v] by (simp add: subset_insertI)
  have "(k, ?v) \<in> set (dict_set k ?v (im_froms s))" by (rule dict_get_mem) simp
  then have "name \<in> (\<Union>p\<in>set (dict_set k ?v (im_froms s)). set (snd p))" by fastforce
  with old show ?thesis by (auto simp: provided_def need_def)
qed

lemma provided_need_opt: "provided s \<subseteq> provided (snd (need name src s))"
  using provided_need[of name s] by (cases src) (auto simp: need_def)

lemma need_Inr: "need name src s = (Inr (), snd (need name src s))"
  by (simp add: need_def)

lemma provided_module: "provided (snd (need_module w s)) = insert (head_of w) (provided s)"
  by (auto simp: provided_def need_module_def)

lemma need_module_Inr: "need_module w s = (Inr (), snd (need_module w s))"
  by (simp add: need_module_def)

subsection \<open>Collecting never forgets\<close>

named_theorems grow_rules \<open>steps that keep what was imported\<close>

lemma grows_ret [grow_rules]: "grows (ret a)" and grows_raise [grow_rules]: "grows (raise e)"
  by (simp_all add: grows_def)

lemma grows_need [grow_rules]: "grows (need name src)"
  by (simp add: grows_def provided_need_opt)

lemma grows_module [grow_rules]: "grows (need_module w)"
  unfolding grows_def provided_module by blast

lemma grows_bind [grow_rules]: "grows m \<Longrightarrow> (\<And>a. grows (f a)) \<Longrightarrow> grows (bind_eff m f)"
  unfolding grows_def bind_eff_def by (fastforce split: prod.split sum.split)

lemma grows_map [grow_rules]: "(\<And>x. x \<in> set xs \<Longrightarrow> grows (f x)) \<Longrightarrow> grows (map_eff f xs)"
proof (induction xs)
  case (Cons x xs)
  have "grows (f x)" "grows (map_eff f xs)" using Cons by auto
  then show ?case by (auto intro!: grow_rules)
qed (simp add: grow_rules)

lemma growsD: "grows m \<Longrightarrow> m s = (r, s') \<Longrightarrow> provided s \<subseteq> provided s'"
  unfolding grows_def by (metis snd_conv)

lemma grows_arms [grow_rules]: "grows (arms_text n ex u)"
proof (induction n ex u rule: arms_text.induct)
  case (2 n ex u)
  show ?case by (auto simp: Let_def intro!: grow_rules 2 split: option.split)
qed (simp add: grow_rules)

lemma grows_leaf [grow_rules]: "grows (leaf_text n so proxy t)"
  by (auto simp: leaf_text_def intro!: grow_rules split: option.split)

lemma grows_spell [grow_rules]: "grows (spell n so proxy twin client t)"
  by (induction n so proxy twin client t rule: spell.induct) (auto simp: Let_def intro!: grow_rules split: option.split)

lemma grows_returns [grow_rules]: "grows (spell_returns n so proxy twin t)"
  by (auto simp: spell_returns_def intro!: grow_rules split: option.split)

lemma grows_defaults [grow_rules]: "grows (spell_defaults ps)"
  by (induction ps) (auto intro!: grow_rules split: option.split default_src.split)

lemma grows_widened [grow_rules]: "grows (widened n so m client t)"
  by (auto simp: widened_def intro!: grow_rules)

lemma grows_method [grow_rules]: "grows (method_spelling n m mm)"
  by (auto simp: method_spelling_def intro!: grow_rules split: option.split)

subsection \<open>What a text needs is there\<close>

lemma covers_builtin: "t \<in> set BUILTIN \<Longrightarrow> covers s t"
proof -
  have "\<forall>t\<in>set BUILTIN. name_ok t \<and> t \<in> PYTHON_NAMES"
    by (simp add: BUILTIN_def PYTHON_NAMES_def name_ok_def id_char_def)
  then show "t \<in> set BUILTIN \<Longrightarrow> covers s t" by (simp add: covers_def text_names_name)
qed

lemma covers_need: "name_ok t \<Longrightarrow> covers (snd (need t (Some k) s)) t"
  using provided_need[of t s k] by (auto simp: covers_def text_names_name)

lemma covers_module: "dotted_ok w \<Longrightarrow> covers (snd (need_module w s)) w"
  by (simp add: covers_def text_names_dotted provided_module)

lemma bar_text: "text_names (a @ '' | '' @ b) = text_names a @ text_names b"
  by (simp add: text_names_sep text_names_start word_char_def id_char_def)

lemma wrap_names: "set (text_names (wrap_spelling og x)) \<subseteq> set (text_names x) \<union> PYTHON_NAMES"
proof (cases og)
  case OPTIONAL_OF
  have "text_names ''None'' = [''None'']" by (simp add: text_names_name name_ok_def id_char_def)
  then show ?thesis using bar_text[of x "''None''"] OPTIONAL_OF by (auto simp: PYTHON_NAMES_def)
next
  case LIST_OF
  have "text_names (''list['' @ x @ '']'') = text_names ''list'' @ text_names x @ text_names []"
    using text_names_sep[of "CHR ''[''" "''list''" "x @ '']''"] text_names_sep[of "CHR '']''" x "[]"]
    by (simp add: word_char_def id_char_def)
  moreover have "text_names ''list'' = [''list'']" by (simp add: text_names_name name_ok_def id_char_def)
  ultimately show ?thesis using LIST_OF by (auto simp: PYTHON_NAMES_def)
next
  case DICT_OF
  have "text_names (''dict[str, '' @ x @ '']'') = text_names ''dict'' @ text_names ''str'' @ text_names x"
    using text_names_sep[of "CHR ''[''" "''dict''" "''str, '' @ x @ '']''"] text_names_sep[of "CHR '']''" x "[]"]
      text_names_sep[of "CHR '',''" "''str''" "'' '' @ x @ '']''"] text_names_start[of "CHR '' ''" "x @ '']''"]
    by (simp add: word_char_def id_char_def)
  moreover have "text_names ''dict'' = [''dict'']" "text_names ''str'' = [''str'']"
    by (simp_all add: text_names_name name_ok_def id_char_def)
  ultimately show ?thesis using DICT_OF by (auto simp: PYTHON_NAMES_def)
qed

lemma covers_wrap: "covers s x \<Longrightarrow> covers s (wrap_spelling og x)"
  using wrap_names[of og x] by (auto simp: covers_def)

lemma covers_bar: "covers s a \<Longrightarrow> covers s b \<Longrightarrow> covers s (a @ '' | '' @ b)"
  unfolding covers_def bar_text by simp

lemma need_then: "bind_eff (need name src) (\<lambda>_. ret x) s = (Inr x, snd (need name src s))"
  by (simp add: bind_eff_def need_def ret_def)

lemma need_first: "bind_eff (need name src) f s = f () (snd (need name src s))"
  by (simp add: bind_eff_def need_def)

lemma module_then: "bind_eff (need_module w) (\<lambda>_. ret x) s = (Inr x, snd (need_module w s))"
  by (simp add: bind_eff_def need_module_def ret_def)

lemma leaf_covers:
  assumes "leaf_text n so proxy t s = (Inr x, s')" "so_expand so = None" "tref_named t"
    "\<And>f. proxy = Some f \<Longrightarrow> rename_ok f"
  shows "covers s' x"
proof -
  have ok: "tr_kind t \<noteq> K_MODULE \<Longrightarrow> name_ok (tr_name t)" "tr_kind t = K_MODULE \<Longrightarrow> dotted_ok (tr_name t)"
    using assms(3) by (auto simp: tref_named_def split: if_splits)
  consider (proxy) f where "tr_kind t = K_PROXY" "proxy = Some f" | (pkg) "tr_kind t = K_MODULE"
    | (sums) "tr_kind t = K_UNION" | (builtin) "tr_name t \<in> set BUILTIN" "tr_kind t \<notin> {K_PROXY, K_MODULE, K_UNION}"
    | (bound) "tr_name t \<notin> set BUILTIN" "tr_kind t \<notin> {K_PROXY, K_MODULE, K_UNION}"
    using assms(1) by (cases "tr_kind t"; cases proxy) (auto simp: leaf_text_def)
  then show ?thesis
  proof cases
    case proxy
    then obtain k where k: "name_ok (fst (f t))" "snd (f t) = Some k"
      using assms(4)[OF proxy(2)] ok by (auto simp: rename_ok_def)
    have "leaf_text n so proxy t s = (Inr (fst (f t)), snd (need (fst (f t)) (Some k) s))"
      using proxy k by (simp add: leaf_text_def need_then)
    with assms(1) covers_need[OF k(1)] show ?thesis by (metis Pair_inject sum.inject(2))
  next
    case pkg
    then have "leaf_text n so proxy t s = (Inr (tr_name t), snd (need_module (tr_name t) s))"
      by (simp add: leaf_text_def module_then)
    with assms(1) covers_module[OF ok(2)[OF pkg]] show ?thesis by (metis Pair_inject sum.inject(2))
  next
    case sums
    then have "leaf_text n so proxy t s = (Inr (tr_name t), snd (need (tr_name t) (Some UNIONS) s))"
      using assms(2) by (simp add: leaf_text_def need_then)
    with assms(1) sums covers_need[OF ok(1)] show ?thesis by (metis Pair_inject sum.inject(2) kind.distinct)
  next
    case builtin
    then have "leaf_text n so proxy t s = (Inr (tr_name t), s)" by (simp add: leaf_text_def)
    with assms(1) covers_builtin[OF builtin(1)] show ?thesis by simp
  next
    case bound
    then have "leaf_text n so proxy t s = (Inr (tr_name t), snd (need (tr_name t) (Some BINDINGS) s))"
      by (simp add: leaf_text_def need_then)
    with assms(1) bound(2) covers_need[OF ok(1)] show ?thesis by (metis Pair_inject sum.inject(2) insertCI)
  qed
qed

text \<open>So with the whole type.\<close>

lemma tref_named_wrap: "tref_named (RWrap og e sp) = tref_named e"
  by (simp add: tref_named_def tr_kind_def tr_name_def)

lemma either_Some: "either a b = Some f \<Longrightarrow> a = Some f \<or> b = Some f"
  by (auto simp: either_def split: option.splits)

lemma spell_covers:
  assumes "spell n so proxy twin client t s = (Inr x, s')" "so_expand so = None" "tref_named t"
    "\<And>f. proxy = Some f \<or> so_proxy so = Some f \<or> so_client so = Some f \<Longrightarrow> rename_ok f"
    "\<And>f t. so_client so = Some f \<Longrightarrow> snd (f t) \<noteq> None"
  shows "covers s' x"
  using assms(1,3)
proof (induction t arbitrary: s x s')
  case (RWrap og e sp)
  from RWrap.prems(1) obtain y where "spell n so proxy twin client e s = (Inr y, s')" "x = wrap_spelling og y"
    by (auto simp: bind_eff_Inr_iff)
  with RWrap show ?case by (auto simp: tref_named_wrap intro: covers_wrap)
next
  case (RLeaf k nm w tw sp)
  let ?t = "RLeaf k nm w tw sp"
  show ?case
  proof (cases "twin \<and> tw \<noteq> []")
    case True
    then have "spell n so proxy twin client ?t s = (Inr tw, snd (need_module tw s))" by (simp add: module_then)
    moreover have "dotted_ok tw" using RLeaf.prems(2) True by (simp add: tref_named_def)
    ultimately show ?thesis using RLeaf.prems(1) covers_module[of tw s] by (metis Pair_inject sum.inject(2))
  next
    case False
    show ?thesis
    proof (cases "client \<and> k = K_CLIENT \<and> so_client so \<noteq> None")
      case True
      then obtain f where f: "so_client so = Some f" by blast
      let ?s1 = "snd (need nm (Some BINDINGS) s)"
      let ?s2 = "snd (need (fst (f ?t)) (snd (f ?t)) ?s1)"
      have nm: "name_ok nm" using RLeaf.prems(2) True by (simp add: tref_named_def tr_kind_def tr_name_def)
      obtain k' where k': "snd (f ?t) = Some k'" using assms(5)[OF f, of ?t] by blast
      have ft: "name_ok (fst (f ?t))"
        using assms(4)[of f] f nm by (simp add: rename_ok_def tr_name_def)
      have "spell n so proxy twin client ?t s = (Inr (nm @ '' | '' @ fst (f ?t)), ?s2)"
        using False True f by (cases "tw = []") (simp_all add: Let_def need_first need_then del: bind_eff_Inr)
      moreover have "covers ?s2 nm"
        by (rule covers_mono[OF covers_need[OF nm]]) (rule provided_need_opt)
      moreover have "covers ?s2 (fst (f ?t))" unfolding k' by (rule covers_need[OF ft])
      ultimately show ?thesis using RLeaf.prems(1) covers_bar by (metis Pair_inject sum.inject(2))
    next
      case no: False
      have "spell n so proxy twin client ?t s = leaf_text n so (either proxy (so_proxy so)) ?t s"
        using False no by (cases "tw = []"; cases "so_client so") (auto simp: Let_def)
      with RLeaf.prems(1) have "leaf_text n so (either proxy (so_proxy so)) ?t s = (Inr x, s')" by metis
      then show ?thesis
        by (rule leaf_covers[OF _ assms(2) RLeaf.prems(2)]) (use assms(4) either_Some in blast)
    qed
  qed
qed

end
