(* ===== verification/Py_Emit_Props.thy ===== *)
theory Py_Emit_Props
  imports Spell_Cover Policy
begin

text \<open>
  The emitted async classes stand on their own: every name a module's annotations, defaults and bodies use is one Python has,
  one the module imports, or the class it defines.
\<close>

subsection \<open>Loops and texts\<close>

lemma map_eff_all:
  assumes "map_eff f xs s = (Inr ys, s')" "\<And>x. x \<in> set xs \<Longrightarrow> grows (f x)"
    "\<And>x t y t'. x \<in> set xs \<Longrightarrow> f x t = (Inr y, t') \<Longrightarrow> Q t' x y"
    "\<And>t t' x y. Q t x y \<Longrightarrow> provided t \<subseteq> provided t' \<Longrightarrow> Q t' x y"
  shows "list_all2 (Q s') xs ys"
  using assms(1-3)
proof (induction xs arbitrary: s ys)
  case Nil
  then show ?case by auto
next
  case (Cons x xs)
  from Cons.prems(1) obtain y s1 zs where st: "f x s = (Inr y, s1)" "map_eff f xs s1 = (Inr zs, s')" "ys = y # zs"
    by (auto simp: bind_eff_Inr_iff)
  have rest: "list_all2 (Q s') xs zs" by (rule Cons.IH[OF st(2)]) (use Cons.prems in auto)
  have "grows (map_eff f xs)" by (rule grows_map) (use Cons.prems(2) in auto)
  from growsD[OF this st(2)] have "provided s1 \<subseteq> provided s'" .
  with Cons.prems(3)[OF _ st(1)] have "Q s' x y" using assms(4) by simp
  with rest st(3) show ?case by simp
qed

lemma word_text: "text_names ''None'' = [''None'']" "text_names ''Self'' = [''Self'']" "text_names ''Backend'' = [''Backend'']"
  "text_names ''BaseRunner'' = [''BaseRunner'']" "text_names ''Any'' = [''Any'']"
  by (simp_all add: text_names_name name_ok_def id_char_def)

lemma async_name_ok: "name_ok n \<Longrightarrow> name_ok (async_name n)"
  by (simp add: async_name_def ASYNC_def name_ok_def id_char_def)

lemma renames_ok: "rename_ok as_binding" "rename_ok as_async" "rename_ok (own_rename m)" "rename_ok (client_rename (Some k))"
  by (simp_all add: rename_ok_def as_binding_def as_async_def own_rename_def client_rename_def async_name_ok)

text \<open>What the reader and \<open>type_ref\<close> give of a parameter: a member default is of the vocabulary the parameter is declared with.\<close>

definition enum_leaf :: "tref \<Rightarrow> bool" where
  "enum_leaf t \<longleftrightarrow> tr_origin t = None \<and> tr_kind t = K_ENUM"

definition param_named :: "param_model \<Rightarrow> bool" where
  "param_named p \<longleftrightarrow> tref_named (pr_type p) \<and>
     (case pr_default p of Some (Member_of c mb) \<Rightarrow> enum_leaf (pr_type p) \<and> c = tr_name (pr_type p) \<and> list_all word_char mb | _ \<Rightarrow> True)"

definition method_named :: "method_model \<Rightarrow> bool" where
  "method_named mm \<longleftrightarrow> list_all param_named (mm_params mm) \<and> (case mm_returns mm of None \<Rightarrow> True | Some t \<Rightarrow> tref_named t)"

definition class_named :: "class_model \<Rightarrow> bool" where
  "class_named c \<longleftrightarrow> name_ok (km_name c) \<and> list_all param_named (km_ctor c) \<and> list_all method_named (km_methods c) \<and>
     distinct (map mm_name (km_methods c))"

definition default_ready :: "imported \<Rightarrow> param_model \<Rightarrow> bool" where
  "default_ready s p \<longleftrightarrow> (case pr_default p of Some (Member_of c mb) \<Rightarrow> c \<in> PYTHON_NAMES \<union> provided s | _ \<Rightarrow> True)"

lemma default_ready_mono: "default_ready s p \<Longrightarrow> provided s \<subseteq> provided s' \<Longrightarrow> default_ready s' p"
  by (auto simp: default_ready_def split: option.splits default_src.splits)

lemma defaults_ready: "spell_defaults ps s = (Inr (), s') \<Longrightarrow> list_all (default_ready s') ps"
proof (induction ps arbitrary: s)
  case (Cons p ps)
  from Cons.prems obtain s1 where
    st: "(case pr_default p of Some (Member_of c mb) \<Rightarrow> need c (Some BINDINGS) | _ \<Rightarrow> ret ()) s = (Inr (), s1)"
    "spell_defaults ps s1 = (Inr (), s')" by (auto simp: bind_eff_Inr_iff)
  have "default_ready s1 p"
    using st(1) provided_need[of _ s BINDINGS]
    by (auto simp: default_ready_def need_def split: option.splits default_src.splits)
  moreover have "provided s1 \<subseteq> provided s'" by (rule growsD[OF grows_defaults st(2)])
  ultimately show ?case using Cons.IH[OF st(2)] default_ready_mono by auto
qed simp

lemma own_so: "so_expand (async_so m) = None"
  "f = own_rename m \<or> so_proxy (async_so m) = Some f \<or> so_client (async_so m) = Some f \<Longrightarrow> rename_ok f"
  "so_client (async_so m) = Some f \<Longrightarrow> snd (f t) \<noteq> None"
  by (auto simp: async_so_def renames_ok) (simp add: client_rename_def)

lemma own_spell:
  assumes "spell n (async_so m) proxy twin client t s = (Inr x, s')" "tref_named t" "proxy = None \<or> (\<exists>f. proxy = Some f \<and> rename_ok f)"
  shows "covers s' x"
  by (rule spell_covers[OF assms(1) own_so(1) assms(2)]) (use assms(3) own_so in auto)

lemma widened_covers:
  assumes "widened n (async_so m) m False t s = (Inr x, s')" "tref_named t"
  shows "covers s' x"
proof (cases "tr_kind t = K_PROXY \<and> tr_origin t = None \<and> tr_name t \<in> set (served m)")
  case True
  let ?s1 = "snd (need (tr_name t) (Some BINDINGS) s)"
  have nm: "name_ok (tr_name t)" using assms(2) True by (simp add: tref_named_def)
  have eq: "widened n (async_so m) m False t s = (Inr (tr_name t @ '' | '' @ async_name (tr_name t)),
      snd (need (async_name (tr_name t)) (Some (sibling (tr_name t))) ?s1))"
    using True by (simp add: widened_def need_first need_then del: bind_eff_Inr)
  have a: "covers (snd (need (async_name (tr_name t)) (Some (sibling (tr_name t))) ?s1)) (tr_name t)"
    by (rule covers_mono[OF covers_need[OF nm]]) (rule provided_need_opt)
  have b: "covers (snd (need (async_name (tr_name t)) (Some (sibling (tr_name t))) ?s1)) (async_name (tr_name t))"
    by (rule covers_need[OF async_name_ok[OF nm]])
  from covers_bar[OF a b] eq assms(1) show ?thesis by (metis Pair_inject sum.inject(2))
next
  case False
  then have "widened n (async_so m) m False t s = spell n (async_so m) (Some as_binding) False False t s"
    by (auto simp: widened_def)
  with assms(1) have "spell n (async_so m) (Some as_binding) False False t s = (Inr x, s')" by simp
  then show ?thesis by (rule own_spell[OF _ assms(2)]) (simp add: renames_ok)
qed

lemma widened_enum:
  assumes "widened n (async_so m) m False t s = (Inr x, s')" "enum_leaf t"
  shows "x = tr_name t"
  using assms
  by (cases t) (auto simp: enum_leaf_def widened_def tr_kind_def tr_name_def async_so_def leaf_text_def need_then Let_def split: if_splits)

definition spelled_ok :: "imported \<Rightarrow> method_model \<Rightarrow> string list \<times> string \<Rightarrow> bool" where
  "spelled_ok s mm sg \<longleftrightarrow> list_all2 (\<lambda>p. covers s) (mm_params mm) (fst sg) \<and> covers s (snd sg) \<and>
     list_all (default_ready s) (mm_params mm) \<and> (case mm_returns mm of None \<Rightarrow> snd sg = ''None''
       | Some t \<Rightarrow> rl_twin (tr_leaf t) = [] \<or> head_of (rl_twin (tr_leaf t)) \<in> provided s)"

lemma spelled_ok_mono: "spelled_ok s mm sg \<Longrightarrow> provided s \<subseteq> provided s' \<Longrightarrow> spelled_ok s' mm sg"
  unfolding spelled_ok_def
  by (auto intro: covers_mono elim!: list_all2_mono list.pred_mono_strong intro: default_ready_mono split: option.splits)

lemma twin_imported:
  "spell n so proxy True client t s = (Inr x, s') \<Longrightarrow> rl_twin (tr_leaf t) \<noteq> [] \<Longrightarrow> head_of (rl_twin (tr_leaf t)) \<in> provided s'"
proof (induction t arbitrary: s x s')
  case (RLeaf k nm w tw sp)
  then have "s' = snd (need_module tw s)" by (auto simp: module_then)
  then show ?case by (simp add: provided_module)
qed (auto simp: bind_eff_Inr_iff)

lemma adopted_None: "adopted_class m None = None"
  by (simp add: adopted_class_def)

lemma covers_None: "covers s ''None''"
  by (rule covers_builtin) (simp add: BUILTIN_def)

lemma method_spelled:
  assumes "method_spelling n m mm s = (Inr sg, s')" "method_named mm"
  shows "spelled_ok s' mm sg"
proof -
  from assms(1) obtain ps s1 r s2 where
    ps: "map_eff (\<lambda>p. spell n (async_so m) None False True (pr_type p)) (mm_params mm) s = (Inr ps, s1)"
    and r: "(if adopted_class m (mm_returns mm) \<noteq> None then spell_returns n (async_so m) (Some as_async) False (mm_returns mm)
       else (case mm_returns mm of None \<Rightarrow> ret ''None'' | Some t \<Rightarrow> spell n (async_so m) (Some as_binding) True False t)) s1 = (Inr r, s2)"
    and d: "spell_defaults (mm_params mm) s2 = (Inr (), s')" and sg: "sg = (ps, r)"
    by (auto simp: method_spelling_def bind_eff_Inr_iff)
  have named: "p \<in> set (mm_params mm) \<Longrightarrow> tref_named (pr_type p)" for p
    using assms(2) by (auto simp: method_named_def param_named_def list_all_iff)
  have c1: "list_all2 (\<lambda>p. covers s1) (mm_params mm) ps"
    by (rule map_eff_all[OF ps, where Q = "\<lambda>s p x. covers s x"])
      (auto intro: grow_rules covers_mono own_spell[OF _ named])
  have "grows (if adopted_class m (mm_returns mm) \<noteq> None then spell_returns n (async_so m) (Some as_async) False (mm_returns mm)
       else (case mm_returns mm of None \<Rightarrow> ret ''None'' | Some t \<Rightarrow> spell n (async_so m) (Some as_binding) True False t))"
    by (auto intro!: grow_rules split: option.split)
  from growsD[OF this r] have g2: "provided s1 \<subseteq> provided s2" .
  note c1 g2
  moreover have g3: "provided s2 \<subseteq> provided s'" by (rule growsD[OF grows_defaults d])
  moreover have "covers s2 r \<and> (case mm_returns mm of None \<Rightarrow> r = ''None''
       | Some t \<Rightarrow> rl_twin (tr_leaf t) = [] \<or> head_of (rl_twin (tr_leaf t)) \<in> provided s2)"
  proof (cases "mm_returns mm")
    case None
    with r show ?thesis by (auto simp: adopted_None covers_None)
  next
    case (Some t)
    then have t: "tref_named t" using assms(2) by (simp add: method_named_def)
    from r Some have "adopted_class m (Some t) \<noteq> None \<and> spell n (async_so m) (Some as_async) False False t s1 = (Inr r, s2) \<or>
        spell n (async_so m) (Some as_binding) True False t s1 = (Inr r, s2)"
      by (auto simp: spell_returns_def split: if_splits)
    moreover have "adopted_class m (Some t) \<noteq> None \<Longrightarrow> tr_kind t = K_PROXY"
      by (auto simp: adopted_class_def split: if_splits)
    ultimately show ?thesis using t Some by (auto intro: own_spell twin_imported simp: renames_ok tref_named_def)
  qed
  ultimately show ?thesis
    unfolding spelled_ok_def sg using defaults_ready[OF d]
    by (auto intro: covers_mono elim!: list_all2_mono split: option.splits)
qed

lemma dict_get_fold:
  "distinct (map fst ms) \<Longrightarrow> dict_get (fold (\<lambda>(k, v) d. dict_set k v d) ms d) k =
     (case dict_get ms k of Some v \<Rightarrow> Some v | None \<Rightarrow> dict_get d k)"
proof (induction ms arbitrary: d)
  case (Cons p ms)
  then have "fst p = k \<Longrightarrow> dict_get ms k = None" by (auto simp: map_of_eq_None_iff)
  with Cons show ?case by (cases p) (auto split: option.split)
qed simp

lemma class_spelled:
  assumes "async_spelling n m c s = (Inr (ctor, sigs), s')" "class_named c"
  shows "list_all2 (\<lambda>p x. covers s' x \<and> (enum_leaf (pr_type p) \<longrightarrow> x = tr_name (pr_type p))) (km_ctor c) ctor"
    "mm \<in> set (km_methods c) \<Longrightarrow> \<exists>sg. dict_get sigs (mm_name mm) = Some sg \<and> spelled_ok s' mm sg"
proof -
  from assms(1) obtain s1 ms where
    ct: "map_eff (\<lambda>p. widened n (async_so m) m False (pr_type p)) (km_ctor c) s = (Inr ctor, s1)"
    and ms: "map_eff (\<lambda>mm. bind_eff (method_spelling n m mm) (\<lambda>sg. ret (mm_name mm, sg))) (km_methods c) s1 = (Inr ms, s')"
    and sigs: "sigs = fold (\<lambda>(k, v) d. dict_set k v d) ms []"
    by (auto simp: async_spelling_def bind_eff_Inr_iff)
  have named: "p \<in> set (km_ctor c) \<Longrightarrow> tref_named (pr_type p)" for p
    using assms(2) by (auto simp: class_named_def param_named_def list_all_iff)
  have mnamed: "mm \<in> set (km_methods c) \<Longrightarrow> method_named mm" for mm
    using assms(2) by (auto simp: class_named_def list_all_iff)
  have "grows (map_eff (\<lambda>mm. bind_eff (method_spelling n m mm) (\<lambda>sg. ret (mm_name mm, sg))) (km_methods c))"
    by (auto intro!: grow_rules)
  from growsD[OF this ms] have g: "provided s1 \<subseteq> provided s'" .
  have "list_all2 (\<lambda>p x. covers s1 x \<and> (enum_leaf (pr_type p) \<longrightarrow> x = tr_name (pr_type p))) (km_ctor c) ctor"
    by (rule map_eff_all[OF ct, where Q = "\<lambda>s p x. covers s x \<and> (enum_leaf (pr_type p) \<longrightarrow> x = tr_name (pr_type p))"])
      (auto intro: grow_rules covers_mono widened_covers[OF _ named] widened_enum)
  with g show "list_all2 (\<lambda>p x. covers s' x \<and> (enum_leaf (pr_type p) \<longrightarrow> x = tr_name (pr_type p))) (km_ctor c) ctor"
    by (auto intro: covers_mono elim!: list_all2_mono)
  have all: "list_all2 (\<lambda>mm p. fst p = mm_name mm \<and> spelled_ok s' mm (snd p)) (km_methods c) ms"
    by (rule map_eff_all[OF ms, where Q = "\<lambda>s mm p. fst p = mm_name mm \<and> spelled_ok s mm (snd p)"])
      (auto simp: bind_eff_Inr_iff intro!: grow_rules intro: spelled_ok_mono method_spelled[OF _ mnamed])
  have keys: "map fst ms = map mm_name (km_methods c)"
    using all by (auto simp: list_all2_conv_all_nth intro: nth_equalityI)
  have dist: "distinct (map fst ms)" using assms(2) by (simp add: keys class_named_def)
  assume "mm \<in> set (km_methods c)"
  then obtain i where i: "i < length (km_methods c)" "mm = km_methods c ! i" by (auto simp: in_set_conv_nth)
  with all have p: "fst (ms ! i) = mm_name mm" "spelled_ok s' mm (snd (ms ! i))" "ms ! i \<in> set ms"
    by (auto simp: list_all2_conv_all_nth)
  then have "dict_get ms (mm_name mm) = Some (snd (ms ! i))"
    using dist by (metis map_of_is_SomeI prod.collapse)
  then have "dict_get sigs (mm_name mm) = Some (snd (ms ! i))" unfolding sigs by (simp add: dict_get_fold[OF dist])
  with p show "\<exists>sg. dict_get sigs (mm_name mm) = Some sg \<and> spelled_ok s' mm sg" by blast
qed

subsection \<open>Arguments and methods\<close>

definition arg_ready :: "imported \<Rightarrow> pyarg \<Rightarrow> bool" where
  "arg_ready s a \<longleftrightarrow> set (arg_names a) \<subseteq> PYTHON_NAMES \<union> provided s"

lemma default_names:
  assumes "default_ready s p" "param_named p" "pr_default p = Some d"
  shows "set (expr_names (default_expr d)) \<subseteq> PYTHON_NAMES \<union> provided s"
proof (cases d)
  case (Member_of c mb)
  then have c: "name_ok c" "list_all word_char mb" "c \<in> PYTHON_NAMES \<union> provided s"
    using assms by (auto simp: param_named_def default_ready_def tref_named_def enum_leaf_def)
  have "list_all word_char c" using name_ok_dotted[OF c(1)] by (simp add: dotted_ok_def)
  then have "dotted_ok (c @ ''.'' @ mb)" using c(2) by (simp add: dotted_ok_def word_char_def)
  moreover have "head_of (c @ ''.'' @ mb) = c"
    using name_ok_head[OF c(1)] unfolding head_of_def takeWhile_append by (auto simp: takeWhile_eq_all_conv)
  ultimately show ?thesis using Member_of c(3) by (simp add: default_expr_def text_names_dotted)
qed (simp add: default_expr_def)

lemma arguments_ready:
  assumes "arguments b ps ts = Inr as" "list_all2 (\<lambda>p. covers s) ps ts" "list_all (default_ready s) ps" "list_all param_named ps"
  shows "list_all (arg_ready s) as \<and> map ag_name as = map pr_name ps"
  using assms
proof (induction b ps ts arbitrary: as rule: arguments.induct)
  case (1 b p ps t ts)
  from 1(2) obtain rest where rest: "arguments (b \<or> pr_default p \<noteq> None) ps ts = Inr rest"
    and as: "as = \<lparr>ag_name = pr_name p,
        ag_type = Some (if pr_none p \<and> \<not> admits_none (XText t) then XOr (XText t) (XConst PNone) else XText t),
        ag_default = map_option default_expr (pr_default p)\<rparr> # rest"
    by (auto simp: Let_def res_bind_Inr_iff split: if_splits)
  have b: "\<not> (pr_default p = None \<and> b)" using 1(2) by (auto simp: Let_def)
  have "list_all (arg_ready s) rest \<and> map ag_name rest = map pr_name ps"
    by (rule 1(1)[OF refl b rest]) (use 1(3-5) in simp_all)
  moreover have "arg_ready s (hd as)"
  proof -
    have "covers s t" "default_ready s p" "param_named p" using 1(3-5) by simp_all
    then show ?thesis
      using default_names[of s p]
      by (cases "pr_default p") (auto simp: as arg_ready_def arg_names_def opt_names_def covers_def)
  qed
  ultimately show ?case by (simp add: as)
qed simp_all

lemma forwarded_uses:
  "set (concat (map uses (forwarded cl r))) \<subseteq> set (expr_names cl) \<union> (if r = ''None'' then {} else insert ''cast'' (set (text_names r)))"
  by (auto simp: forwarded_def)

lemma twinned_uses:
  assumes "twinned cl t = Inr body" "dotted_ok (rl_twin (tr_leaf t))"
  shows "set (concat (map uses body)) - set (concat (map binds body)) \<subseteq> set (expr_names cl) \<union> {head_of (rl_twin (tr_leaf t))}"
proof -
  have tw: "text_names (rl_twin (tr_leaf t)) = [head_of (rl_twin (tr_leaf t))]" by (rule text_names_dotted[OF assms(2)])
  show ?thesis
  proof (cases t)
    case (RLeaf k nm w tx sp)
    with assms(1) tw show ?thesis by (auto simp: twinned_def Let_def)
  next
    case (RWrap og e sp)
    with assms(1) tw show ?thesis
      by (cases og) (auto simp: twinned_def Let_def binds_def split: if_splits)
  qed
qed

lemma hop_uses:
  assumes "hop_method svc sigs mm = Inr d" "dict_get sigs (mm_name mm) = Some sg" "spelled_ok s mm sg" "method_named mm"
  shows "set (uses d) \<subseteq> PYTHON_NAMES \<union> provided s \<union> {spec_name svc (mm_name mm)} \<union>
    (if \<exists>t. mm_returns mm = Some t \<and> rl_twin (tr_leaf t) = [] then {''cast''} else {})"
proof -
  obtain ps r where sg: "sg = (ps, r)" by (cases sg)
  define cl where "cl = XCall (XAttr (self_attr ''_backend'') ''call'') [XName (spec_name svc (mm_name mm)), XList (map (XName \<circ> pr_name) (mm_params mm))] []"
  from assms(1,2) obtain body as where body: "(case mm_returns mm of None \<Rightarrow> Inr (forwarded cl r)
           | Some t \<Rightarrow> if rl_twin (tr_leaf t) \<noteq> [] then twinned cl t else Inr (forwarded cl r)) = Inr body"
    and as: "arguments False (mm_params mm) ps = Inr as"
    and d: "d = SDef True [] (mm_name mm) (plain_arg ''self'' # as) [] (Some (XText r)) body"
    unfolding hop_method_def cl_def by (auto simp: sg res_bind_Inr_iff Let_def)
  have args: "list_all (arg_ready s) as \<and> map ag_name as = map pr_name (mm_params mm)"
    by (rule arguments_ready[OF as]) (use assms(3,4) in \<open>simp_all add: spelled_ok_def sg method_named_def\<close>)
  have cl: "set (expr_names cl) \<subseteq> {''self'', spec_name svc (mm_name mm)} \<union> set (map pr_name (mm_params mm))"
    by (auto simp: cl_def self_attr_def)
  have r: "covers s r" using assms(3) by (simp add: spelled_ok_def sg)
  have inner: "set (concat (map uses body)) - set (concat (map binds body)) \<subseteq> set (expr_names cl) \<union> PYTHON_NAMES \<union> provided s \<union>
    (if \<exists>t. mm_returns mm = Some t \<and> rl_twin (tr_leaf t) = [] then {''cast''} else {})"
  proof (cases "mm_returns mm")
    case None
    then have "body = forwarded cl ''None''" using body assms(3) by (simp add: spelled_ok_def sg)
    then show ?thesis using forwarded_uses[of cl "''None''"] by auto
  next
    case (Some t)
    show ?thesis
    proof (cases "rl_twin (tr_leaf t) = []")
      case True
      then have "body = forwarded cl r" using body Some by simp
      then show ?thesis using forwarded_uses[of cl r] r Some True by (auto simp: covers_def split: if_splits)
    next
      case False
      then have tw: "twinned cl t = Inr body" "dotted_ok (rl_twin (tr_leaf t))" "head_of (rl_twin (tr_leaf t)) \<in> provided s"
        using body Some assms(3,4) by (simp_all add: spelled_ok_def method_named_def tref_named_def)
      then show ?thesis using twinned_uses[OF tw(1,2)] Some False by auto
    qed
  qed
  have "set (uses d) \<subseteq> (\<Union>a\<in>set as. set (arg_names a)) \<union> set (text_names r) \<union>
     ((set (concat (map uses body)) - set (concat (map binds body))) - ({''self''} \<union> set (map pr_name (mm_params mm))))"
    using args by (auto simp: d arg_names_def opt_names_def plain_arg_def)
  moreover have "(\<Union>a\<in>set as. set (arg_names a)) \<subseteq> PYTHON_NAMES \<union> provided s"
    using args by (auto simp: list_all_iff arg_ready_def)
  ultimately show ?thesis using inner cl r[unfolded covers_def] by blast
qed

lemma hops_use:
  assumes "map_res (hop_method (km_name c) sigs) (km_methods c) = Inr hops" "class_named c"
    "\<And>mm. mm \<in> set (km_methods c) \<Longrightarrow> \<exists>sg. dict_get sigs (mm_name mm) = Some sg \<and> spelled_ok s mm sg"
  shows "used hops \<subseteq> PYTHON_NAMES \<union> provided s \<union> (\<lambda>mm. spec_name (km_name c) (mm_name mm)) ` set (km_methods c) \<union> (if casts c then {''cast''} else {})"
proof
  fix x assume "x \<in> used hops"
  then obtain d where d: "d \<in> set hops" "x \<in> set (uses d)" by (auto simp: used_def)
  from assms(1) d(1) obtain mm where mm: "mm \<in> set (km_methods c)" "hop_method (km_name c) sigs mm = Inr d"
    by (auto simp: map_res_Inr_iff list_all2_conv_all_nth in_set_conv_nth) (metis nth_mem)
  from assms(3)[OF mm(1)] obtain sg where sg: "dict_get sigs (mm_name mm) = Some sg" "spelled_ok s mm sg" by blast
  have "method_named mm" using assms(2) mm(1) by (auto simp: class_named_def list_all_iff)
  from hop_uses[OF mm(2) sg this] d(2) mm(1)
  show "x \<in> PYTHON_NAMES \<union> provided s \<union> (\<lambda>mm. spec_name (km_name c) (mm_name mm)) ` set (km_methods c) \<union> (if casts c then {''cast''} else {})"
    by (auto simp: casts_def list_ex_iff split: if_splits)
qed

subsection \<open>The module\<close>

lemma import_from_binds [simp]: "binds (import_from m l ns) = ns"
  by (simp add: import_from_def binds_def comp_def)

lemma imports_bind: "provided s - {own} \<subseteq> bound_names (import_stmts own s)"
proof
  fix x assume x: "x \<in> provided s - {own}"
  then consider "x \<in> set (im_modules s)" | m l ns where "((m, l), ns) \<in> set (im_froms s)" "x \<in> set ns"
    by (auto simp: provided_def)
  then show "x \<in> bound_names (import_stmts own s)"
  proof cases
    case 1
    then show ?thesis by (auto simp: bound_names_def import_stmts_def module_imports_def binds_def)
  next
    case 2
    then have mem: "x \<in> set (set_discard own ns)" using x by simp
    then have "set_discard own ns \<noteq> []" by (metis empty_iff empty_set)
    moreover have "x \<in> set (binds (import_from m l (set_discard own ns)))" unfolding import_from_binds by (rule mem)
    moreover note 2(1)
    ultimately show ?thesis unfolding bound_names_def import_stmts_def by force
  qed
qed

lemma used_Cons: "used (d # ds) = set (uses d) \<union> used ds" and used_app: "used (a @ b) = used a \<union> used b"
  by (auto simp: used_def)

lemma bound_Cons: "bound_names (d # ds) = set (binds d) \<union> bound_names ds" and bound_app: "bound_names (a @ b) = bound_names a \<union> bound_names b"
  by (auto simp: bound_names_def)

lemma import_uses: "used (import_stmts own s) = {}" "uses (import_from m l ns) = []"
  by (auto simp: used_def import_stmts_def module_imports_def import_from_def split: if_splits)

lemma fixed_uses:
  "name_ok (km_name c) \<Longrightarrow> set (uses (adopt_def c)) \<subseteq> {''classmethod'', ''Self'', ''BaseRunner'', km_name c, RUNNER (km_execution c)}"
  "set (uses on_def) \<subseteq> {''classmethod'', ''Self'', ''Backend''}" "set (uses aclose_def) \<subseteq> {}"
  by (auto simp: adopt_def_def on_def_def aclose_def_def arg_names_def opt_names_def typed_arg_def plain_arg_def word_text binds_def
      self_attr_def text_names_name)

lemma python_words: "''classmethod'' \<in> PYTHON_NAMES" "''TypeError'' \<in> PYTHON_NAMES"
  by (simp_all add: PYTHON_NAMES_def)

lemma module_scoped:
  assumes "async_module n m c init typing runtime = Inr body" "class_named c"
    "\<And>ctor sigs s. async_spelling n m c no_imports = (Inr (ctor, sigs), s) \<Longrightarrow>
       set (uses init) \<subseteq> PYTHON_NAMES \<union> provided s \<union> set typing \<union> set runtime \<union> {km_name c, ''BaseRunner'', RUNNER (km_execution c)}"
  shows "scoped body"
proof -
  from assms(1) obtain ctor sigs s hops where sp: "async_spelling n m c no_imports = (Inr (ctor, sigs), s)"
    and hops: "map_res (hop_method (km_name c) sigs) (km_methods c) = Inr hops"
    and body: "body = future_annotations # import_from ''typing'' 0 (''Self'' # (if casts c then set_add ''cast'' typing else typing))
          # import_from ''_runtime'' 1 (''Backend'' # ''BaseRunner'' # sorted_strs (RUNNER (km_execution c) # runtime))
          # (if km_methods c = [] then [] else [import_from ''_policy'' 1 (map (\<lambda>mm. spec_name (km_name c) (mm_name mm)) (km_methods c))])
          @ import_stmts (async_name (km_name c)) (snd (need (km_name c) (Some BINDINGS) s))
          @ [SClass (async_name (km_name c)) [] (SAssign (XName ''_copied'') (XConst (PBool (km_copied c))) # SAnn ''_backend'' (XText ''Backend'') None
              # init # on_def # adopt_def c # hops @ [aclose_def])]"
    by (auto simp: async_module_def Let_def res_bind_Inr_iff split: prod.splits sum.splits)
  let ?s = "snd (need (km_name c) (Some BINDINGS) s)" and ?own = "async_name (km_name c)"
  let ?bound = "{''Self'', ''Backend'', ''BaseRunner'', RUNNER (km_execution c)} \<union> set typing \<union> set runtime \<union> (if casts c then {''cast''} else {})
      \<union> (\<lambda>mm. spec_name (km_name c) (mm_name mm)) ` set (km_methods c) \<union> provided ?s"
  have nm: "name_ok (km_name c)" using assms(2) by (simp add: class_named_def)
  have more: "insert (km_name c) (provided s) \<subseteq> provided ?s" by (rule provided_need)
  have there: "?bound \<subseteq> bound_names body"
    using imports_bind[of ?s ?own]
    by (auto simp: body bound_Cons bound_app binds_def[of "SClass n b d" for n b d] split: if_splits)
  have hu: "used hops \<subseteq> PYTHON_NAMES \<union> provided s \<union> (\<lambda>mm. spec_name (km_name c) (mm_name mm)) ` set (km_methods c) \<union> (if casts c then {''cast''} else {})"
    by (rule hops_use[OF hops assms(2)]) (rule class_spelled(2)[OF sp assms(2)])
  have "used body = used (SAnn ''_backend'' (XText ''Backend'') None # init # on_def # adopt_def c # hops @ [aclose_def])"
    by (simp add: body used_Cons used_app import_uses future_annotations_def) (simp add: used_def Un_assoc)
  also have "\<dots> = {''Backend''} \<union> set (uses init) \<union> set (uses on_def) \<union> set (uses (adopt_def c)) \<union> used hops \<union> set (uses aclose_def)"
    by (simp add: used_Cons used_app opt_names_def word_text Un_assoc) (simp add: used_def)
  also have "\<dots> \<subseteq> PYTHON_NAMES \<union> ?bound"
  proof -
    define B where "B = PYTHON_NAMES \<union> ?bound"
    have mem: "''Self'' \<in> B" "''Backend'' \<in> B" "''BaseRunner'' \<in> B" "RUNNER (km_execution c) \<in> B" "km_name c \<in> B"
      "''classmethod'' \<in> B" using more python_words by (simp_all add: B_def)
    have sub: "PYTHON_NAMES \<subseteq> B" "set typing \<subseteq> B" "set runtime \<subseteq> B" "(if casts c then {''cast''} else {}) \<subseteq> B"
      "(\<lambda>mm. spec_name (km_name c) (mm_name mm)) ` set (km_methods c) \<subseteq> B" "provided ?s \<subseteq> B" unfolding B_def by blast+
    then have old: "provided s \<subseteq> B" using more by blast
    have "set (uses init) \<subseteq> B" by (rule subset_trans[OF assms(3)[OF sp]]) (use mem sub old in simp)
    moreover have "set (uses on_def) \<subseteq> B" by (rule subset_trans[OF fixed_uses(2)]) (use mem in simp)
    moreover have "set (uses (adopt_def c)) \<subseteq> B" by (rule subset_trans[OF fixed_uses(1)[OF nm]]) (use mem in simp)
    moreover have "used hops \<subseteq> B" by (rule subset_trans[OF hu]) (use sub old in simp)
    ultimately show ?thesis using fixed_uses(3) mem(2) by (simp only: B_def[symmetric]) simp
  qed
  finally show ?thesis unfolding scoped_def using there by (meson subset_refl subset_trans Un_mono)
qed

lemma returned_uses: "name_ok (km_name c) \<Longrightarrow> set (uses (returned_init c)) \<subseteq> {km_name c, ''BaseRunner'', RUNNER (km_execution c)}"
  by (auto simp: returned_init_def arg_names_def opt_names_def typed_arg_def plain_arg_def word_text binds_def self_attr_def text_names_name)

lemma no_door_uses: "set (uses (no_door_init c)) \<subseteq> {''Any'', ''TypeError''}"
  by (auto simp: no_door_init_def arg_names_def opt_names_def typed_arg_def plain_arg_def word_text binds_def)

lemma uses_assign:
  "set (uses (SDef b ds n args [] r [SAssign (XAttr t x) e])) = set ds \<union> (\<Union>a\<in>set args. set (arg_names a)) \<union> set (opt_names r) \<union>
     ((set (expr_names t) \<union> set (expr_names e)) - ag_name ` set args)"
  by (auto simp: binds_def)

lemma ctor_uses:
  assumes "list_all (arg_ready s) as" "map ag_name as = map pr_name (km_ctor c)"
  shows "set (uses (ctor_init c as)) \<subseteq> PYTHON_NAMES \<union> provided s \<union> {km_name c, ctor_runner c} \<union> (if km_ctor c = [] then {} else {''unwrap_arg''})"
proof -
  have names: "ag_name ` set as = pr_name ` set (km_ctor c)" using arg_cong[OF assms(2), of set] by simp
  have "set (uses (ctor_init c as)) \<subseteq> (\<Union>a\<in>set as. set (arg_names a)) \<union> {km_name c, ctor_runner c} \<union> (if km_ctor c = [] then {} else {''unwrap_arg''})"
  proof -
    let ?held = "XCall (XName (ctor_runner c)) [XLambda (XCall (XName (km_name c)) (map (\<lambda>p. XCall (XName ''unwrap_arg'') [XName (pr_name p)] []) (km_ctor c)) [])]
       (if km_threading c = AFFINE then [(''name'', XStr (''huggorm-affine-'' @ km_name c))] else [])"
    have "set (expr_names ?held) \<subseteq> {ctor_runner c, km_name c} \<union> pr_name ` set (km_ctor c) \<union> (if km_ctor c = [] then {} else {''unwrap_arg''})"
      by auto
    moreover have "set (uses (ctor_init c as)) = (\<Union>a\<in>set as. set (arg_names a)) \<union>
        (({''self''} \<union> set (expr_names ?held)) - insert ''self'' (ag_name ` set as))"
      unfolding ctor_init_def self_attr_def uses_assign
      by (simp add: opt_names_def plain_arg_def arg_names_def[of "pyarg.make _ _ _"] del: expr_names.simps(6))
        (simp add: arg_names_def opt_names_def)
    ultimately show ?thesis unfolding names by blast
  qed
  moreover have "(\<Union>a\<in>set as. set (arg_names a)) \<subseteq> PYTHON_NAMES \<union> provided s"
    using assms(1) by (auto simp: list_all_iff arg_ready_def)
  ultimately show ?thesis by blast
qed

lemma class_source_cases:
  assumes "class_source n m c = Inr body"
  shows "async_module n m c (returned_init c) [] [] = Inr body \<or> async_module n m c (no_door_init c) [''Any''] [] = Inr body \<or>
    (\<exists>ctor sigs s as. async_spelling n m c no_imports = (Inr (ctor, sigs), s) \<and> arguments False (km_ctor c) ctor = Inr as \<and>
      async_module n m c (ctor_init c as) [] (set_add (ctor_runner c) (if km_ctor c = [] then [] else [''unwrap_arg''])) = Inr body)"
proof (cases "km_name c \<in> set (returned m) \<or> \<not> km_constructs c")
  case True
  with assms show ?thesis
    by (cases "km_name c \<in> set (returned m)") (simp_all add: class_source_def returned_module_def wrapper_module_def)
next
  case False
  obtain r s where rs: "async_spelling n m c no_imports = (r, s)" by (cases "async_spelling n m c no_imports")
  with False assms show ?thesis
    by (cases r) (auto simp: class_source_def wrapper_module_def res_bind_Inr_iff split: prod.splits)
qed

lemma ctor_defaults:
  "list_all2 (\<lambda>p x. covers s x \<and> (enum_leaf (pr_type p) \<longrightarrow> x = tr_name (pr_type p))) ps ts \<Longrightarrow> list_all param_named ps \<Longrightarrow>
     list_all (default_ready s) ps"
proof (induction rule: list_all2_induct)
  case (Cons p ps t ts)
  have "default_ready s p"
  proof (cases "\<exists>c mb. pr_default p = Some (Member_of c mb)")
    case True
    then obtain c mb where c: "pr_default p = Some (Member_of c mb)" by blast
    then have e: "enum_leaf (pr_type p)" "c = tr_name (pr_type p)" "name_ok c"
      using Cons.prems by (auto simp: param_named_def tref_named_def enum_leaf_def)
    then have "covers s c" using Cons.hyps(1) by metis
    with e(3) c show ?thesis by (simp add: covers_def text_names_name default_ready_def)
  qed (auto simp: default_ready_def split: option.split default_src.split)
  with Cons show ?case by simp
qed simp

text \<open>C21. The async class the build emits for a class is a module that stands on its own: every name its annotations, defaults
  and bodies use is one of Python's, one the module imports, or bound in it, whatever the constructor and the methods take
  and hand back, for classes, parameters and vocabularies named by identifiers.\<close>

theorem class_module_scoped:
  assumes "class_source n m c = Inr body" "class_named c"
  shows "scoped body"
proof -
  have nm: "name_ok (km_name c)" using assms(2) by (simp add: class_named_def)
  consider (returned) "async_module n m c (returned_init c) [] [] = Inr body"
    | (no_door) "async_module n m c (no_door_init c) [''Any''] [] = Inr body"
    | (door) ctor sigs s as where "async_spelling n m c no_imports = (Inr (ctor, sigs), s)" "arguments False (km_ctor c) ctor = Inr as"
      "async_module n m c (ctor_init c as) [] (set_add (ctor_runner c) (if km_ctor c = [] then [] else [''unwrap_arg''])) = Inr body"
    using assms(1) class_source_cases[of n m c body] by blast
  then show ?thesis
  proof cases
    case returned
    show ?thesis by (rule module_scoped[OF returned assms(2)]) (use returned_uses[OF nm] in auto)
  next
    case no_door
    show ?thesis by (rule module_scoped[OF no_door assms(2)]) (use no_door_uses[of c] python_words in auto)
  next
    case door
    have "list_all (arg_ready s) as \<and> map ag_name as = map pr_name (km_ctor c)"
    proof (rule arguments_ready[OF door(2)])
      note ready = class_spelled(1)[OF door(1) assms(2)]
      then show "list_all2 (\<lambda>p. covers s) (km_ctor c) ctor" by (auto elim: list_all2_mono)
      show named: "list_all param_named (km_ctor c)" using assms(2) by (simp add: class_named_def)
      show "list_all (default_ready s) (km_ctor c)" by (rule ctor_defaults[OF ready named])
    qed
    then show ?thesis
      using ctor_uses[of s as c] door(1) by (intro module_scoped[OF door(3) assms(2)]) (auto split: if_splits)
  qed
qed

definition demo_source :: "string \<Rightarrow> exn + pystmt list" where
  "demo_source name = res_bind demo_build (\<lambda>m. case dict_get (mo_classes m) name of None \<Rightarrow> Inl KeyError
     | Some c \<Rightarrow> if class_named c then class_source 9 m c else Inl KeyError)"

lemma demo_sources: "succeeds (demo_source ''EvalState'')" by code_simp

lemma class_module_scoped_witness:
  "\<exists>m c body. demo_build = Inr m \<and> dict_get (mo_classes m) ''EvalState'' = Some c \<and> class_source 9 m c = Inr body \<and> scoped body"
proof -
  obtain body where "demo_source ''EvalState'' = Inr body" using demo_sources by (auto simp: succeeds_Inr)
  then obtain m c where m: "demo_build = Inr m" "dict_get (mo_classes m) ''EvalState'' = Some c" "class_named c" "class_source 9 m c = Inr body"
    by (auto simp: demo_source_def res_bind_Inr_iff split: option.splits if_splits)
  from class_module_scoped[OF m(4,3)] m show ?thesis by blast
qed

subsection \<open>Modules that import each other\<close>

text \<open>Two classes whose calls hand each other back pass every contract, and each of their modules imports the other's class
  as it is loaded: Python finds the first one half made and raises.\<close>

definition demo_A :: dclass where
  "demo_A = \<lparr>kl_name = ''Left'', kl_decl = plain_decl By_proxy ''nix::Left'', kl_ctor = Some (plain_meth ''__init__'' [] None),
     kl_methods = [plain_meth ''right'' [] (Some (bound_type ''Right''))], kl_from_parts = None, kl_raised = None\<rparr>"

definition demo_B :: dclass where
  "demo_B = \<lparr>kl_name = ''Right'', kl_decl = plain_decl By_proxy ''nix::Right'', kl_ctor = Some (plain_meth ''__init__'' [] None),
     kl_methods = [plain_meth ''left'' [] (Some (bound_type ''Left''))], kl_from_parts = None, kl_raised = None\<rparr>"

definition demo_pair :: "exn + model" where
  "demo_pair = declared_model 9 ''huggorm_bindings'' [\<lparr>md_name = ''pair'', md_classes = [demo_A, demo_B], md_functions = [],
     md_unions = [], md_uses = [], md_errors = []\<rparr>] [] None"

definition loads :: "string \<Rightarrow> exn + (string \<times> nat) list" where
  "loads name = res_bind demo_pair (\<lambda>m. case dict_get (mo_classes m) name of None \<Rightarrow> Inl KeyError
     | Some c \<Rightarrow> map_sum id (\<lambda>body. concat (map (\<lambda>s. case s of SFrom md l ns \<Rightarrow> [(md, l)] | _ \<Rightarrow> []) body)) (class_source 9 m c))"

definition answers_with :: "exn + 'a list \<Rightarrow> 'a \<Rightarrow> bool" where
  "answers_with r x \<longleftrightarrow> (case r of Inl e \<Rightarrow> False | Inr xs \<Rightarrow> x \<in> set xs)"

lemma modules_in_a_circle:
  "res_bind demo_pair complaints = Inr []" "answers_with (loads ''Left'') (''async_right'', 1)" "answers_with (loads ''Right'') (''async_left'', 1)"
  by code_simp+

end
