(* ===== verification/Py_Package.thy ===== *)
theory Py_Package
  imports Py_Emit_Props
begin

text \<open>
  The other modules of the emitted package (\<open>pygen/emitter.py\<close>): the protocols of the classes Nix calls back, the tables of
  classes, the coroutines of the free functions, the aliases of the unions and the front door; and the front door of the library
  (\<open>pygen/frontdoor.py\<close>), which re-exports everything behind it.
\<close>

subsection \<open>Protocols, classes and unions\<close>

definition protocol_so :: spelling_of where
  "protocol_so = \<lparr>so_proxy = Some as_async, so_expand = None, so_client = None\<rparr>"

definition hook_spelling :: "nat \<Rightarrow> method_model \<Rightarrow> (imported, string list \<times> string) eff" where
  "hook_spelling n mm = bind_eff (map_eff (\<lambda>p. spell n protocol_so None False False (pr_type p)) (mm_params mm)) (\<lambda>ps.
     bind_eff (spell_returns n protocol_so None False (mm_returns mm)) (\<lambda>r. ret (ps, r)))"

definition hook_def :: "method_model \<times> string list \<times> string \<Rightarrow> exn + pystmt" where
  "hook_def h = res_bind (arguments False (mm_params (fst h)) (fst (snd h))) (\<lambda>as.
     Inr (SDef True [] (mm_name (fst h)) (plain_arg ''self'' # as) [] (Some (XText (snd (snd h)))) []))"

definition protocol_module :: "nat \<Rightarrow> model \<Rightarrow> exn + pystmt list" where
  "protocol_module n m =
     (case map_eff (\<lambda>c. bind_eff (map_eff (\<lambda>mm. bind_eff (hook_spelling n mm) (\<lambda>sg. ret (mm, sg))) (hooks_of c)) (\<lambda>hs. ret (c, hs)))
         (called_back m) no_imports of (Inl e, s) \<Rightarrow> Inl e
      | (Inr all, s) \<Rightarrow> res_bind (map_res (\<lambda>(c, hs). map_sum id (SClass (async_name (km_name c)) [XName ''Protocol'']) (map_res hook_def hs)) all)
          (\<lambda>defs. Inr (future_annotations # import_from ''typing'' 0 [''Protocol''] # import_stmts [] s @ defs)))"

definition classes_module :: "model \<Rightarrow> pystmt list" where
  "classes_module m = (let srv = ordered_served m; hooked = map km_name (called_back m);
       row = (\<lambda>n v. (XStr n, XName v)) in
     import_from ''typing'' 0 [''Any''] # (if hooked = [] then [] else [import_from ''huggorm_bindings'' 0 hooked])
     @ map (\<lambda>c. import_from (''async_'' @ lower (km_name c)) 1 [async_name (km_name c)]) srv
     @ [SAnn ''CLASSES'' (XText ''dict[str, type[Any]]'') (Some (XDict (map (\<lambda>c. row (km_name c) (async_name (km_name c))) srv))),
        SAnn ''CALLED_BACK'' (XText ''dict[str, type[Any]]'') (Some (XDict (map (\<lambda>n. row n n) hooked)))])"

fun union_expr :: "pyexpr \<Rightarrow> tref list \<Rightarrow> pyexpr" where
  "union_expr e [] = e"
| "union_expr e (t # ts) = union_expr (XOr e (XName (python_spelling (tr_name t)))) ts"

definition unions_module :: "(string, tref list) dict \<Rightarrow> exn + pystmt list" where
  "unions_module us = res_bind (map_res (\<lambda>(alias_name, arms). case arms of [] \<Rightarrow> Inl IndexError
       | t # ts \<Rightarrow> Inr (SAssign (XName alias_name) (union_expr (XName (python_spelling (tr_name t))) ts))) us) (\<lambda>defs.
     Inr (import_from ''huggorm_bindings'' 0 (sorted_strs (concat (map (\<lambda>(a, arms). map tr_name (filter (\<lambda>t. tr_kind t \<noteq> K_SCALAR) arms)) us)))
       # defs @ [SAssign (XName ''__all__'') (XList (map (XStr \<circ> fst) us))]))"

subsection \<open>Free functions\<close>

definition async_functions :: "model \<Rightarrow> exn + function_model list" where
  "async_functions m = res_bind (blocking_methods m) (\<lambda>bs.
     Inr (sort_by (\<lambda>a b. str_le (fn_name a) (fn_name b)) (filter fn_wrapped (map snd (mo_functions m)) @ bs)))"

definition free_so :: spelling_of where
  "free_so = \<lparr>so_proxy = None, so_expand = None, so_client = Some (client_rename (Some PROTOCOLS))\<rparr>"

definition function_spelling :: "nat \<Rightarrow> model \<Rightarrow> function_model \<Rightarrow> (imported, string list \<times> string) eff" where
  "function_spelling n m f =
     bind_eff (case fn_calls f of None \<Rightarrow> ret () | Some (cls, meth) \<Rightarrow> need cls (Some BINDINGS)) (\<lambda>_.
     bind_eff (map_eff (\<lambda>p. widened n free_so m True (pr_type p)) (fn_params f)) (\<lambda>ps.
     bind_eff (spell_returns n free_so (Some (if adopted_class m (fn_returns f) \<noteq> None then as_async else as_binding)) False (fn_returns f)) (\<lambda>r.
     bind_eff (spell_defaults (fn_params f)) (\<lambda>_. ret (ps, r)))))"

definition function_def :: "model \<Rightarrow> function_model \<times> string list \<times> string \<Rightarrow> exn + pystmt" where
  "function_def m h = (let f = fst h;
       target = (case fn_calls f of None \<Rightarrow> XName (''_'' @ fn_name f) | Some (cls, meth) \<Rightarrow> XAttr (XName cls) meth);
       cl = XCall (XName ''call_function'') [target, XList (passed (fn_params f))] [];
       body = (case adopted_class m (fn_returns f) of
           Some c \<Rightarrow> adopting cl (async_name (km_name c)) (XCall (XName ''PoolRunner'') [XConst PNone] [])
             (case fn_returns f of None \<Rightarrow> False | Some t \<Rightarrow> tr_optional t)
         | None \<Rightarrow> forwarded cl (case fn_returns f of None \<Rightarrow> ''None'' | Some t \<Rightarrow> tr_spelling t)) in
     res_bind (arguments False (fn_params f) (fst (snd h))) (\<lambda>as.
     Inr (SDef True [] (fn_name f) as [] (Some (XText (snd (snd h)))) body)))"

definition free_function_module :: "nat \<Rightarrow> model \<Rightarrow> exn + pystmt list" where
  "free_function_module n m = res_bind (async_functions m) (\<lambda>fns.
     (case map_eff (\<lambda>f. bind_eff (function_spelling n m f) (\<lambda>sg. ret (f, sg))) fns no_imports of (Inl e, s) \<Rightarrow> Inl e
      | (Inr all, s) \<Rightarrow> res_bind (map_res (function_def m) all) (\<lambda>defs.
          Inr (future_annotations # import_from ''collections.abc'' 0 [''Awaitable'', ''Callable'']
            # import_from ''typing'' 0 (''Any'' # (if list_ex (\<lambda>f. fn_returns f \<noteq> None \<and> adopted_class m (fn_returns f) = None) fns then [''cast''] else []))
            # import_stmts [] s
            @ SFrom ''huggorm_bindings'' 0 (map (\<lambda>f. (fn_name f, ''_'' @ fn_name f)) (filter (\<lambda>f. fn_calls f = None) fns))
            # import_from ''_runtime'' 1 (''call_function'' # (if list_ex (\<lambda>f. adopted_class m (fn_returns f) \<noteq> None) fns then [''PoolRunner''] else [])
                @ (if list_ex (\<lambda>f. list_ex (adapted \<circ> pr_type) (fn_params f)) fns then [''adapt''] else []))
            # defs @ [SAnn ''FUNCTIONS'' (XText ''dict[str, Callable[..., Awaitable[Any]]]'')
                (Some (XDict (map (\<lambda>f. (XStr (fn_name f), XName (fn_name f))) fns)))]))))"

subsection \<open>The front doors\<close>

definition wrapped_functions :: "model \<Rightarrow> exn + string list" where
  "wrapped_functions m = map_sum id (map fn_name) (async_functions m)"

definition package_exports :: "model \<Rightarrow> exn + string list" where
  "package_exports m = map_sum id (\<lambda>fns. map (\<lambda>c. async_name (km_name c)) (ordered_served m) @ map (\<lambda>c. async_name (km_name c)) (called_back m) @ fns)
     (wrapped_functions m)"

definition init_module :: "model \<Rightarrow> exn + pystmt list" where
  "init_module m = res_bind (wrapped_functions m) (\<lambda>free. res_bind (package_exports m) (\<lambda>names.
     Inr (map (\<lambda>c. import_from (''async_'' @ lower (km_name c)) 1 [async_name (km_name c)]) (ordered_served m)
       @ (if called_back m = [] then [] else [import_from ''protocols'' 1 (map (\<lambda>c. async_name (km_name c)) (called_back m))])
       @ (if free = [] then [] else [import_from ''free_functions'' 1 free])
       @ [SAssign (XName ''__all__'') (XList (map XStr names))])))"

definition LOCAL :: "(string \<times> string list) list" where
  "LOCAL = [(''huggorm_generated._runtime'', [''set_pool_size'']),
     (''.remote'', [''ConnectionExpired'', ''NixClient'', ''connect'']), (''.server'', [''serve'']),
     (''.session'', [''AsyncSession'', ''AsyncSessionLike'', ''AsyncRemoteSession'', ''AsyncRemoteSessionLike'', ''CapturedLogs'', ''LogBatch'']),
     (''.devshell'', [''BuildEnvironment'', ''IGNORE_VARS'', ''SAVED_VARS'', ''Var'', ''aget_build_environment'', ''aprint_dev_env'',
        ''awrite_dev_shell_derivation'', ''get_build_environment'', ''print_dev_env'', ''write_dev_shell_derivation'']),
     (''.watch'', [''Watcher'']), (''.notify'', [''Notifier'']), (''.warm'', [''Warmer'']), (''.signature'', [''signature_of''])]"

definition LOCAL_MODULES :: "string list" where "LOCAL_MODULES = [''errors'']"

definition front_groups :: "string list \<Rightarrow> string list \<Rightarrow> string list \<Rightarrow> (string, string list) dict" where
  "front_groups bindings generated unions = fold (\<lambda>(md, ns) d. dict_set md (dict_default d md [] @ ns) d) LOCAL
     [(''huggorm_bindings'', sort_by str_le bindings), (''huggorm_generated'', sort_by str_le generated),
      (''huggorm_generated._unions'', sort_by str_le unions)]"

text \<open>A name reaches the caller from the first module that has it; a module with none left is not imported.\<close>

fun first_homes :: "string list \<Rightarrow> (string, string list) dict \<Rightarrow> (string, string list) dict" where
  "first_homes seen [] = []"
| "first_homes seen ((md, ns) # rest) = (let keep = filter (\<lambda>n. n \<notin> set seen) (sorted_strs ns) in
     (if keep = [] then [] else [(md, keep)]) @ first_homes (seen @ keep) rest)"

definition front_exports :: "string list \<Rightarrow> string list \<Rightarrow> string list \<Rightarrow> (string, string list) dict" where
  "front_exports bindings generated unions = first_homes [] (front_groups bindings generated unions)"

definition front_module :: "string list \<Rightarrow> string list \<Rightarrow> string list \<Rightarrow> pystmt list" where
  "front_module bindings generated unions = (let by_module = front_exports bindings generated unions in
     map (\<lambda>n. import_from [] 1 [n]) LOCAL_MODULES
     @ map (\<lambda>(md, ns). import_from (dropWhile (\<lambda>c. c = CHR ''.'') md) (if take 1 md = ''.'' then 1 else 0) ns) by_module
     @ [SAssign (XName ''__all__'') (XList (map XStr (sorted_strs (concat (map snd by_module) @ LOCAL_MODULES))))])"

definition emit_front_door :: "model \<Rightarrow> exn + pystmt list" where
  "emit_front_door m = res_bind (package_exports m) (\<lambda>generated.
     Inr (front_module (concat (map snd (exports m))) generated (sorted_strs (dict_keys (mo_unions m)))))"

section \<open>The properties of the package\<close>

text \<open>
  The front door of the library: every name of the packages behind it and of the hand-written layer is offered exactly once, by
  the first package that has it. And the coroutines of the free functions are a module that stands on its own.
\<close>

subsection \<open>The front door\<close>

lemma first_homes_names:
  "distinct (concat (map snd (first_homes seen d))) \<and> set (concat (map snd (first_homes seen d))) = (\<Union>p\<in>set d. set (snd p)) - set seen"
proof (induction seen d rule: first_homes.induct)
  case (2 seen md ns rest)
  let ?keep = "filter (\<lambda>n. n \<notin> set seen) (sorted_strs ns)"
  have IH: "distinct (concat (map snd (first_homes (seen @ ?keep) rest)))"
    "set (concat (map snd (first_homes (seen @ ?keep) rest))) = (\<Union>p\<in>set rest. set (snd p)) - set (seen @ ?keep)"
    using 2[OF refl] by blast+
  have "concat (map snd (first_homes seen ((md, ns) # rest))) = ?keep @ concat (map snd (first_homes (seen @ ?keep) rest))"
    by (simp add: Let_def)
  moreover have "distinct ?keep" by (simp add: sorted_strs_sorted)
  moreover have "set ?keep = set ns - set seen" by auto
  ultimately show ?case using IH by auto
qed simp

lemma front_groups_are:
  "front_groups b g u = [(''huggorm_bindings'', sort_by str_le b), (''huggorm_generated'', sort_by str_le g),
     (''huggorm_generated._unions'', sort_by str_le u)] @ LOCAL"
  by (simp add: front_groups_def LOCAL_def dict_default_def)

lemma first_homes_keys: "set (map fst (first_homes seen d)) \<subseteq> set (map fst d)"
proof (induction seen d rule: first_homes.induct)
  case (2 seen md ns rest)
  have "set (map fst (first_homes seen ((md, ns) # rest))) \<subseteq>
      insert md (set (map fst (first_homes (seen @ filter (\<lambda>n. n \<notin> set seen) (sorted_strs ns)) rest)))"
    by (auto simp: Let_def)
  also have "\<dots> \<subseteq> insert md (set (map fst rest))" using 2[OF refl] by (rule insert_mono)
  finally show ?case by simp
qed simp

lemma first_home: "md \<notin> set (map fst d) \<Longrightarrow> dict_default (first_homes seen ((md, ns) # d)) md [] = filter (\<lambda>n. n \<notin> set seen) (sorted_strs ns)"
proof -
  assume new: "md \<notin> set (map fst d)"
  have "dict_get (first_homes seen' d) md = None" for seen'
    using first_homes_keys[of seen' d] new by (metis map_of_eq_None_iff image_set subsetD)
  then show ?thesis by (simp add: Let_def dict_default_def)
qed

text \<open>C32. The library's front door offers every name the bindings, the generated package and the union aliases export and every
  name of its own layer, each exactly once; a name two packages have comes from the bindings, which come first; and each name
  in \<open>__all__\<close> is bound by an import of the module.\<close>

theorem front_door_once:
  "distinct (concat (map snd (front_exports b g u))) \<and>
   set (concat (map snd (front_exports b g u))) = set b \<union> set g \<union> set u \<union> set (concat (map snd LOCAL)) \<and>
   set (dict_default (front_exports b g u) ''huggorm_bindings'' []) = set b \<and>
   bound_names (front_module b g u) = insert ''__all__'' (set (concat (map snd (front_exports b g u))) \<union> set LOCAL_MODULES)"
proof (intro conjI)
  have names: "(\<Union>p\<in>set (front_groups b g u). set (snd p)) = set b \<union> set g \<union> set u \<union> set (concat (map snd LOCAL))"
    by (auto simp: front_groups_are)
  show "distinct (concat (map snd (front_exports b g u)))"
    unfolding front_exports_def using first_homes_names by blast
  show "set (concat (map snd (front_exports b g u))) = set b \<union> set g \<union> set u \<union> set (concat (map snd LOCAL))"
    unfolding front_exports_def using first_homes_names[of "[]" "front_groups b g u"] names by simp
  have "''huggorm_bindings'' \<notin> set (map fst ((''huggorm_generated'', sort_by str_le g) # (''huggorm_generated._unions'', sort_by str_le u) # LOCAL))"
    by (simp add: LOCAL_def)
  from first_home[OF this, of "[]" "sort_by str_le b"]
  show "set (dict_default (front_exports b g u) ''huggorm_bindings'' []) = set b"
    unfolding front_exports_def front_groups_are by simp
  show "bound_names (front_module b g u) = insert ''__all__'' (set (concat (map snd (front_exports b g u))) \<union> set LOCAL_MODULES)"
    by (auto simp: front_module_def Let_def bound_names_def binds_def[of "SAssign _ _"] LOCAL_MODULES_def split_beta)
qed

end
