(* ===== verification/Py_Literal.thy ===== *)
theory Py_Literal
  imports Py_Source Dispatcher
begin

text \<open>
  The values of the wire policy as the source that rebuilds them (\<open>_literal\<close> and \<open>_table\<close> of \<open>pygen/emitter.py\<close>), and
  what Python makes of that source: a dataclass called by position and keyword. An instance carries its fields with the default
  each field's class has, if any.
\<close>

datatype lit =
    LEnum string string
  | LData string "(string \<times> lit \<times> lit option) list"
  | LTuple "lit list"
  | LDict "(lit \<times> lit) list"
  | LConst pyval
  | LOther

text \<open>The loop over the fields: those that hold their default are left out; the others go by position as long as none was
  left out, then by keyword. \<open>i\<close> is the field's place.\<close>

fun placed :: "nat \<Rightarrow> pyexpr list \<Rightarrow> (string \<times> pyexpr) list \<Rightarrow> (string \<times> pyexpr option) list \<Rightarrow> pyexpr list \<times> (string \<times> pyexpr) list" where
  "placed i as ks [] = (as, ks)"
| "placed i as ks ((n, None) # fs) = placed (Suc i) as ks fs"
| "placed i as ks ((n, Some x) # fs) = (if ks \<noteq> [] \<or> length as < i then placed (Suc i) as (ks @ [(n, x)]) fs
     else placed (Suc i) (as @ [x]) ks fs)"

text \<open>A constant is \<open>None\<close>, a string, an int, a bool or a float; anything else is refused.\<close>

definition plain_const :: "pyval \<Rightarrow> bool" where
  "plain_const v = (case v of PNone \<Rightarrow> True | PStr s \<Rightarrow> True | PInt i \<Rightarrow> True | PBool b \<Rightarrow> True | PFloat f \<Rightarrow> True | _ \<Rightarrow> False)"

fun literal :: "lit \<Rightarrow> exn + pyexpr" where
  "literal (LEnum c m) = Inr (XAttr (XName c) m)"
| "literal (LData c fs) = res_bind (map_res (\<lambda>(n, x, d). if d = Some x then Inr (n, None)
       else map_sum id (\<lambda>e. (n, Some e)) (literal x)) fs)
     (\<lambda>gs. let (as, ks) = placed 0 [] [] gs in Inr (XCall (XName c) as ks))"
| "literal (LTuple xs) = map_sum id XTuple (map_res literal xs)"
| "literal (LDict kvs) = map_sum id XDict (map_res (\<lambda>(k, v). res_bind (literal k) (\<lambda>a. map_sum id (Pair a) (literal v))) kvs)"
| "literal (LConst v) = (if plain_const v then Inr (XConst v) else Inl TypeError)"
| "literal LOther = Inl TypeError"

text \<open>A row of a table is an expression already, or a value.\<close>

definition table :: "string \<Rightarrow> string \<Rightarrow> (string \<times> (pyexpr + lit)) list \<Rightarrow> exn + pystmt" where
  "table var ann rows = map_sum id (\<lambda>vs. SAnn var (XText ann) (Some (XDict vs)))
     (map_res (\<lambda>(n, v). map_sum id (Pair (XStr n)) (case v of Inl e \<Rightarrow> Inr e | Inr l \<Rightarrow> literal l)) rows)"

subsection \<open>What Python makes of it\<close>

text \<open>The dataclasses in scope, each with its fields in order and their defaults.\<close>

type_synonym dataclasses = "string \<Rightarrow> (string \<times> lit option) list option"

text \<open>\<open>C(*args, **kws)\<close>: positions first, then keywords, then defaults.\<close>

definition construct :: "(string \<times> lit option) list \<Rightarrow> string \<Rightarrow> lit list \<Rightarrow> (string \<times> lit) list \<Rightarrow> exn + lit" where
  "construct fds c as ks = (let late = drop (length as) fds in
     if length as > length fds \<or> \<not> distinct (map fst ks) \<or> \<not> set (map fst ks) \<subseteq> set (map fst late) then Inl TypeError
     else map_sum id (LData c) (map_sum id ((@) (map2 (\<lambda>(n, d) x. (n, x, d)) (take (length as) fds) as))
       (map_res (\<lambda>(n, d). case map_of ks n of Some x \<Rightarrow> Inr (n, x, d)
          | None \<Rightarrow> (case d of Some x \<Rightarrow> Inr (n, x, d) | None \<Rightarrow> Inl TypeError)) late)))"

fun rebuild :: "dataclasses \<Rightarrow> pyexpr \<Rightarrow> exn + lit" where
  "rebuild env (XAttr (XName c) m) = Inr (LEnum c m)"
| "rebuild env (XCall (XName c) as ks) = (case env c of None \<Rightarrow> Inl (Raised ''NameError'')
     | Some fds \<Rightarrow> res_bind (map_res (rebuild env) as) (\<lambda>vs.
         res_bind (map_res (\<lambda>(n, e). map_sum id (Pair n) (rebuild env e)) ks) (\<lambda>kvs. construct fds c vs kvs)))"
| "rebuild env (XTuple es) = map_sum id LTuple (map_res (rebuild env) es)"
| "rebuild env (XDict kvs) = map_sum id LDict (map_res (\<lambda>(k, v). res_bind (rebuild env k) (\<lambda>a. map_sum id (Pair a) (rebuild env v))) kvs)"
| "rebuild env (XConst v) = Inr (LConst v)"
| "rebuild env e = Inl TypeError"

text \<open>A value made of the classes in scope.\<close>

fun lit_ok :: "dataclasses \<Rightarrow> lit \<Rightarrow> bool" where
  "lit_ok env (LEnum c m) = True"
| "lit_ok env (LData c fs) \<longleftrightarrow> env c = Some (map (\<lambda>(n, x, d). (n, d)) fs) \<and> distinct (map fst fs) \<and> list_all (\<lambda>(n, x, d). lit_ok env x) fs"
| "lit_ok env (LTuple xs) \<longleftrightarrow> list_all (lit_ok env) xs"
| "lit_ok env (LDict kvs) \<longleftrightarrow> list_all (\<lambda>(k, v). lit_ok env k \<and> lit_ok env v) kvs"
| "lit_ok env (LConst v) \<longleftrightarrow> plain_const v"
| "lit_ok env LOther \<longleftrightarrow> False"

subsection \<open>The specs of a call\<close>

text \<open>The dataclasses of \<open>_callspec.py\<close> that specs are made of, as instances with their defaults.\<close>

fun kind_member :: "wire_kind \<Rightarrow> string" where
  "kind_member SCALAR = ''SCALAR''"
| "kind_member ENUM = ''ENUM''"
| "kind_member VALUE = ''VALUE''"
| "kind_member UNION = ''UNION''"
| "kind_member ERROR = ''ERROR''"
| "kind_member PROXY = ''PROXY''"
| "kind_member CLIENT = ''CLIENT''"
| "kind_member LIST = ''LIST''"
| "kind_member MAP = ''MAP''"

abbreviation NONE :: lit where "NONE \<equiv> LConst PNone"

fun opt_lit :: "lit option \<Rightarrow> lit" where
  "opt_lit None = NONE"
| "opt_lit (Some l) = l"

fun wire_lit :: "wire \<Rightarrow> lit" where
  "wire_lit (Wire k n it opt) = LData ''Wire'' [(''kind'', LEnum ''WireKind'' (kind_member k), None),
     (''name'', LConst (PStr n), Some (LConst (PStr []))), (''item'', opt_lit (map_option wire_lit it), Some NONE),
     (''optional'', LConst (PBool opt), Some (LConst (PBool False)))]"

definition arg_lit :: "arg \<Rightarrow> lit" where
  "arg_lit a = LData ''Arg'' [(''name'', LConst (PStr (fst a)), None), (''type'', wire_lit (snd a), None)]"

fun subscription_lit :: "subscription \<Rightarrow> lit" where
  "subscription_lit OPEN = LEnum ''Subscription'' ''OPEN''"
| "subscription_lit CLOSE = LEnum ''Subscription'' ''CLOSE''"

definition call_lit :: "call \<Rightarrow> lit" where
  "call_lit c = LData ''Call'' [(''index'', LConst (PInt (int (ca_index c))), None), (''name'', LConst (PStr (ca_name c)), None),
     (''args'', LTuple (map arg_lit (ca_args c)), None), (''returns'', opt_lit (map_option wire_lit (ca_returns c)), None),
     (''subscription'', opt_lit (map_option subscription_lit (ca_sub c)), Some NONE)]"

definition acquire_lit :: "acquire \<Rightarrow> lit" where
  "acquire_lit a = LData ''Acquire'' [(''index'', LConst (PInt (int (aq_index a))), None), (''cls'', LConst (PStr (aq_cls a)), None),
     (''args'', LTuple (map arg_lit (aq_args a)), None), (''required'', LConst (PInt (int (aq_required a))), None)]"

fun spec_lit :: "spec \<Rightarrow> lit" where
  "spec_lit (SCall c) = call_lit c"
| "spec_lit (SAcquire a) = acquire_lit a"

definition CALLSPEC :: dataclasses where
  "CALLSPEC = map_of [
     (''Wire'', [(''kind'', None), (''name'', Some (LConst (PStr []))), (''item'', Some NONE), (''optional'', Some (LConst (PBool False)))]),
     (''Arg'', [(''name'', None), (''type'', None)]),
     (''Call'', [(''index'', None), (''name'', None), (''args'', None), (''returns'', None), (''subscription'', Some NONE)]),
     (''Acquire'', [(''index'', None), (''cls'', None), (''args'', None), (''required'', None)])]"

section \<open>The properties of literals\<close>

text \<open>
  The source of a value rebuilds the value: leaving out fields that hold their default and turning to keywords after the first
  one left out loses nothing.
\<close>

fun given :: "(string \<times> pyexpr option) list \<Rightarrow> (string \<times> pyexpr) list" where
  "given [] = []"
| "given ((n, None) # gs) = given gs"
| "given ((n, Some e) # gs) = (n, e) # given gs"

definition rebuild_kw :: "dataclasses \<Rightarrow> string \<times> pyexpr \<Rightarrow> exn + string \<times> lit" where
  "rebuild_kw env p = map_sum id (Pair (fst p)) (rebuild env (snd p))"

lemma rebuild_kw_case: "(\<lambda>(n, e). map_sum id (Pair n) (rebuild env e)) = rebuild_kw env"
  by (auto simp: rebuild_kw_def)

lemma rebuild_kw_Inr: "rebuild env e = Inr x \<Longrightarrow> rebuild_kw env (n, e) = Inr (n, x)"
  by (simp add: rebuild_kw_def)

text \<open>What the loop makes of the fields: a prefix by position, and from the first field left out on, the others by keyword.\<close>

lemma placed_keywords: "length as < i \<or> ks \<noteq> [] \<Longrightarrow> length as \<le> i \<Longrightarrow>
    placed i as ks gs = (as, ks @ given gs)"
proof (induction gs arbitrary: i ks)
  case (Cons g gs)
  obtain n x where g: "g = (n, x)" by (cases g)
  have step: "length as < Suc i" using Cons.prems by simp
  show ?case
  proof (cases x)
    case None
    with Cons.IH[of "Suc i" ks] step show ?thesis by (simp add: g)
  next
    case (Some e)
    with Cons.IH[of "Suc i" "ks @ [(n, e)]"] step Cons.prems(1) show ?thesis by (auto simp: g)
  qed
qed simp

lemma placed_split:
  "length as = i \<Longrightarrow> \<exists>us vs. gs = us @ vs \<and> (\<forall>g\<in>set us. snd g \<noteq> None) \<and>
     placed i as [] gs = (as @ map (the \<circ> snd) us, given vs)"
proof (induction gs arbitrary: i as)
  case Nil
  then show ?case by simp
next
  case (Cons g gs)
  obtain n x where g: "g = (n, x)" by (cases g)
  show ?case
  proof (cases x)
    case None
    have "placed i as [] (g # gs) = (as, given (g # gs))"
      using placed_keywords[of as "Suc i" "[]" gs] Cons.prems by (simp add: g None)
    then show ?thesis by (intro exI[of _ "[]"] exI[of _ "g # gs"]) simp
  next
    case (Some e)
    from Cons.IH[of "as @ [e]" "Suc i"] Cons.prems obtain us vs where
      "gs = us @ vs" "\<forall>g\<in>set us. snd g \<noteq> None"
      "placed (Suc i) (as @ [e]) [] gs = ((as @ [e]) @ map (the \<circ> snd) us, given vs)"
      by auto
    with Some Cons.prems show ?thesis by (intro exI[of _ "g # us"] exI[of _ vs]) (simp add: g)
  qed
qed

lemma rebuild_keywords:
  assumes "list_all2 (\<lambda>f g. fst g = fst f \<and> (case snd g of None \<Rightarrow> snd (snd f) = Some (fst (snd f)) | Some e \<Rightarrow> rebuild env e = Inr (fst (snd f)))) fs gs"
  shows "\<exists>kvs. map_res (rebuild_kw env) (given gs) = Inr kvs \<and>
     (distinct (map fst fs) \<longrightarrow> distinct (map fst kvs) \<and> set (map fst kvs) \<subseteq> set (map fst fs) \<and>
        (\<forall>f\<in>set fs. case map_of kvs (fst f) of Some x \<Rightarrow> x = fst (snd f) | None \<Rightarrow> snd (snd f) = Some (fst (snd f))))"
  using assms
proof (induction rule: list_all2_induct)
  case (Cons f fs g gs)
  then obtain kvs where IH: "map_res (rebuild_kw env) (given gs) = Inr kvs"
    "distinct (map fst fs) \<longrightarrow> distinct (map fst kvs) \<and> set (map fst kvs) \<subseteq> set (map fst fs) \<and>
        (\<forall>f\<in>set fs. case map_of kvs (fst f) of Some x \<Rightarrow> x = fst (snd f) | None \<Rightarrow> snd (snd f) = Some (fst (snd f)))" by blast
  obtain n x where g: "g = (n, x)" by (cases g)
  show ?case
  proof (cases x)
    case None
    have absent: "distinct (map fst (f # fs)) \<Longrightarrow> map_of kvs (fst f) = None"
      using IH(2) by (auto simp: map_of_eq_None_iff)
    with None Cons.hyps(1) IH show ?thesis by (intro exI[of _ kvs]) (auto simp: g)
  next
    case (Some e)
    have others: "fst f' \<noteq> fst f" if "distinct (map fst (f # fs))" "f' \<in> set fs" for f'
      using that by (auto simp: image_iff)
    from Some Cons.hyps(1) IH others show ?thesis
      by (intro exI[of _ "(fst f, fst (snd f)) # kvs"]) (auto simp: g rebuild_kw_Inr)
  qed
qed simp

subsection \<open>The instance\<close>

definition field_expr :: "string \<times> lit \<times> lit option \<Rightarrow> exn + string \<times> pyexpr option" where
  "field_expr f = (if snd (snd f) = Some (fst (snd f)) then Inr (fst f, None)
     else map_sum id (\<lambda>e. (fst f, Some e)) (literal (fst (snd f))))"

lemma field_expr_case:
  "(\<lambda>(n, x, d). if d = Some x then Inr (n, None) else map_sum id (\<lambda>e. (n, Some e)) (literal x)) = field_expr"
  by (auto simp: field_expr_def)

lemma construct_split:
  assumes "fds = map (\<lambda>(n, x, d). (n, d)) (fs1 @ fs2)" "as = map (fst \<circ> snd) fs1"
    "distinct (map fst kvs)" "set (map fst kvs) \<subseteq> set (map fst fs2)"
    "\<forall>f\<in>set fs2. case map_of kvs (fst f) of Some x \<Rightarrow> x = fst (snd f) | None \<Rightarrow> snd (snd f) = Some (fst (snd f))"
  shows "construct fds c as kvs = Inr (LData c (fs1 @ fs2))"
proof -
  have late: "drop (length as) fds = map (\<lambda>(n, x, d). (n, d)) fs2" and early: "take (length as) fds = map (\<lambda>(n, x, d). (n, d)) fs1"
    by (simp_all add: assms(1,2))
  have keys: "map fst (drop (length as) fds) = map fst fs2" unfolding late by (induction fs2) auto
  have first: "map2 (\<lambda>(n, d) x. (n, x, d)) (take (length as) fds) as = fs1"
    unfolding early unfolding assms(2) by (induction fs1) auto
  have rest: "map_res (\<lambda>(n, d). case map_of kvs n of Some x \<Rightarrow> Inr (n, x, d)
          | None \<Rightarrow> (case d of Some x \<Rightarrow> Inr (n, x, d) | None \<Rightarrow> Inl TypeError)) (drop (length as) fds) = Inr fs2"
  proof -
    have "(case (case f of (n, x, d) \<Rightarrow> (n, d)) of (n, d) \<Rightarrow> (case map_of kvs n of Some x \<Rightarrow> Inr (n, x, d)
          | None \<Rightarrow> (case d of Some x \<Rightarrow> Inr (n, x, d) | None \<Rightarrow> Inl TypeError))) = Inr f" if "f \<in> set fs2" for f
    proof -
      obtain n x d where f: "f = (n, x, d)" by (cases f)
      have "case map_of kvs n of Some y \<Rightarrow> y = x | None \<Rightarrow> d = Some x" using bspec[OF assms(5) that] by (simp add: f split: option.splits)
      then show ?thesis by (cases "map_of kvs n") (simp_all add: f)
    qed
    then show ?thesis unfolding late map_res_Inr_iff by (simp add: list_all2_conv_all_nth)
  qed
  have len: "\<not> length as > length fds" by (simp add: assms(1,2))
  have "\<not> (length as > length fds \<or> \<not> distinct (map fst kvs) \<or> \<not> set (map fst kvs) \<subseteq> set (map fst (drop (length as) fds)))"
    unfolding keys using len assms(3,4) by blast
  then show ?thesis unfolding construct_def Let_def by (simp only: if_False rest first) simp
qed

lemma literal_rebuilt: "lit_ok env v \<Longrightarrow> \<exists>e. literal v = Inr e \<and> rebuild env e = Inr v"
proof (induction v rule: measure_induct_rule[of size])
  case (less v)
  show ?case
  proof (cases v)
    case (LEnum c m)
    then show ?thesis by simp
  next
    case (LConst u)
    with less.prems show ?thesis by simp
  next
    case LOther
    with less.prems show ?thesis by simp
  next
    case (LTuple xs)
    have "\<exists>e. literal x = Inr e \<and> rebuild env e = Inr x" if "x \<in> set xs" for x
      by (rule less.IH) (use that less.prems LTuple in \<open>auto simp: list_all_iff size_list_estimation' less_Suc_eq_le\<close>)
    then obtain g where "\<forall>x\<in>set xs. literal x = Inr (g x) \<and> rebuild env (g x) = Inr x" by metis
    then have "map_res literal xs = Inr (map g xs)" "map_res (rebuild env) (map g xs) = Inr xs"
      by (auto simp: map_res_Inr_iff list_all2_conv_all_nth)
    then show ?thesis by (simp add: LTuple)
  next
    case (LDict kvs)
    have smaller: "size k < size v \<and> size x < size v" if "(k, x) \<in> set kvs" for k x
      using that unfolding LDict by (induction kvs) auto
    have "\<exists>a b. literal (fst p) = Inr a \<and> rebuild env a = Inr (fst p) \<and> literal (snd p) = Inr b \<and> rebuild env b = Inr (snd p)"
      if "p \<in> set kvs" for p
      using less.IH[of "fst p"] less.IH[of "snd p"] smaller[of "fst p" "snd p"] that less.prems LDict
      by (auto simp: list_all_iff split_beta)
    then obtain f g where fg: "\<forall>p\<in>set kvs. literal (fst p) = Inr (f p) \<and> rebuild env (f p) = Inr (fst p) \<and>
        literal (snd p) = Inr (g p) \<and> rebuild env (g p) = Inr (snd p)" by metis
    have "map_res (\<lambda>(k, v). res_bind (literal k) (\<lambda>a. map_sum id (Pair a) (literal v))) kvs = Inr (map (\<lambda>p. (f p, g p)) kvs)"
      using fg by (intro map_res_all_Inr) (auto simp: split_beta)
    moreover have "map_res (\<lambda>(k, v). res_bind (rebuild env k) (\<lambda>a. map_sum id (Pair a) (rebuild env v))) (map (\<lambda>p. (f p, g p)) kvs) = Inr kvs"
      using fg by (auto simp: map_res_Inr_iff list_all2_conv_all_nth)
    ultimately show ?thesis by (simp add: LDict)
  next
    case (LData c fs)
    have smaller: "size (fst (snd f)) < size v" if "f \<in> set fs" for f
      using that unfolding LData by (induction fs) auto
    have one: "\<exists>e. literal (fst (snd f)) = Inr e \<and> rebuild env e = Inr (fst (snd f))" if "f \<in> set fs" for f
      using less.IH[OF smaller[OF that]] that less.prems LData by (auto simp: list_all_iff split_beta)
    then obtain g where g: "\<forall>f\<in>set fs. literal (fst (snd f)) = Inr (g f) \<and> rebuild env (g f) = Inr (fst (snd f))" by metis
    define gs where "gs = map (\<lambda>f. (fst f, if snd (snd f) = Some (fst (snd f)) then None else Some (g f))) fs"
    have made: "map_res field_expr fs = Inr gs"
      unfolding gs_def using g by (intro map_res_all_Inr) (auto simp: field_expr_def)
    from placed_split[of "[]" 0 gs] obtain us vs where sp: "gs = us @ vs" "\<forall>h\<in>set us. snd h \<noteq> None"
      "placed 0 [] [] gs = (map (the \<circ> snd) us, given vs)" by auto
    obtain fs1 fs2 where fs: "fs = fs1 @ fs2" "us = map (\<lambda>f. (fst f, if snd (snd f) = Some (fst (snd f)) then None else Some (g f))) fs1"
      "vs = map (\<lambda>f. (fst f, if snd (snd f) = Some (fst (snd f)) then None else Some (g f))) fs2"
      using sp(1) unfolding gs_def by (auto simp: map_eq_append_conv)
    have front: "map_res (rebuild env) (map (the \<circ> snd) us) = Inr (map (fst \<circ> snd) fs1)"
    proof -
      have "rebuild env ((the \<circ> snd) (fst f, if snd (snd f) = Some (fst (snd f)) then None else Some (g f))) = Inr (fst (snd f))" if "f \<in> set fs1" for f
        using that sp(2) g unfolding fs(1,2) by force
      then show ?thesis unfolding fs(2) by (auto simp: map_res_Inr_iff list_all2_conv_all_nth)
    qed
    have "list_all2 (\<lambda>f h. fst h = fst f \<and> (case snd h of None \<Rightarrow> snd (snd f) = Some (fst (snd f)) | Some e \<Rightarrow> rebuild env e = Inr (fst (snd f)))) fs2 vs"
      using g unfolding fs by (auto simp: list_all2_conv_all_nth)
    from rebuild_keywords[OF this] obtain kvs where kvs: "map_res (rebuild_kw env) (given vs) = Inr kvs"
      "distinct (map fst fs2) \<longrightarrow> distinct (map fst kvs) \<and> set (map fst kvs) \<subseteq> set (map fst fs2) \<and>
        (\<forall>f\<in>set fs2. case map_of kvs (fst f) of Some x \<Rightarrow> x = fst (snd f) | None \<Rightarrow> snd (snd f) = Some (fst (snd f)))" by blast
    have ok: "env c = Some (map (\<lambda>(n, x, d). (n, d)) (fs1 @ fs2))" "distinct (map fst fs2)"
      using less.prems LData fs(1) by simp_all
    have "construct (map (\<lambda>(n, x, d). (n, d)) (fs1 @ fs2)) c (map (fst \<circ> snd) fs1) kvs = Inr (LData c (fs1 @ fs2))"
      by (rule construct_split[OF refl refl]) (use kvs(2) ok(2) in simp_all)
    then have "rebuild env (XCall (XName c) (map (the \<circ> snd) us) (given vs)) = Inr v"
      by (simp add: rebuild_kw_case ok(1) front kvs(1) LData fs(1))
    moreover have "literal v = Inr (XCall (XName c) (map (the \<circ> snd) us) (given vs))"
      by (simp add: LData field_expr_case made sp(3))
    ultimately show ?thesis by blast
  qed
qed

subsection \<open>Specs\<close>

lemma opt_lit_ok: "lit_ok env (opt_lit x) \<longleftrightarrow> (case x of None \<Rightarrow> True | Some l \<Rightarrow> lit_ok env l)"
  by (cases x) (simp_all add: plain_const_def)

lemma wire_lit_ok: "lit_ok CALLSPEC (wire_lit w)"
proof (induction w)
  case (Wire k n it opt)
  then have "lit_ok CALLSPEC (opt_lit (map_option wire_lit it))" by (cases it) (simp_all add: plain_const_def)
  moreover have "CALLSPEC ''Wire'' = Some [(''kind'', None), (''name'', Some (LConst (PStr []))), (''item'', Some NONE),
      (''optional'', Some (LConst (PBool False)))]" by (simp add: CALLSPEC_def)
  ultimately show ?case by (simp add: plain_const_def)
qed

lemma args_lit_ok: "list_all (lit_ok CALLSPEC) (map arg_lit as)"
proof -
  have "CALLSPEC ''Arg'' = Some [(''name'', None), (''type'', None)]" by (simp add: CALLSPEC_def)
  then show ?thesis using wire_lit_ok by (simp add: list_all_iff arg_lit_def plain_const_def)
qed

lemma spec_lit_ok: "lit_ok CALLSPEC (spec_lit s)"
proof (cases s)
  case (SCall c)
  have subs: "lit_ok CALLSPEC (subscription_lit x)" for x by (cases x) simp_all
  have rest: "lit_ok CALLSPEC (opt_lit (map_option wire_lit (ca_returns c)))" "lit_ok CALLSPEC (opt_lit (map_option subscription_lit (ca_sub c)))"
    by (simp_all add: opt_lit_ok wire_lit_ok subs split: option.split)
  have "CALLSPEC ''Call'' = Some [(''index'', None), (''name'', None), (''args'', None), (''returns'', None), (''subscription'', Some NONE)]"
    by (simp add: CALLSPEC_def)
  with rest args_lit_ok[of "ca_args c"] SCall show ?thesis by (simp add: call_lit_def plain_const_def)
next
  case (SAcquire a)
  have "CALLSPEC ''Acquire'' = Some [(''index'', None), (''cls'', None), (''args'', None), (''required'', None)]"
    by (simp add: CALLSPEC_def)
  with args_lit_ok[of "aq_args a"] SAcquire show ?thesis by (simp add: acquire_lit_def plain_const_def)
qed

lemma kind_member_inj: "kind_member k = kind_member k' \<Longrightarrow> k = k'"
  by (cases k; cases k') simp_all

lemma wire_lit_inj: "wire_lit w = wire_lit w' \<Longrightarrow> w = w'"
proof (induction w arbitrary: w')
  case (Wire k n it opt)
  obtain k' n' it' opt' where w': "w' = Wire k' n' it' opt'" by (cases w')
  have plain: "wire_lit x \<noteq> NONE" for x by (cases x) simp
  have "opt_lit (map_option wire_lit it) = opt_lit (map_option wire_lit it')" using Wire.prems by (simp add: w')
  then have "it = it'" using Wire.IH plain plain[symmetric] by (cases it; cases it') auto
  with Wire.prems show ?case by (auto simp: w' dest: kind_member_inj)
qed

lemma opt_wire_inj: "opt_lit (map_option wire_lit a) = opt_lit (map_option wire_lit b) \<Longrightarrow> a = b"
proof -
  have plain: "wire_lit x \<noteq> NONE" for x by (cases x) simp
  show "opt_lit (map_option wire_lit a) = opt_lit (map_option wire_lit b) \<Longrightarrow> a = b"
    using plain plain[symmetric] by (cases a; cases b) (auto dest: wire_lit_inj)
qed

lemma arg_lit_inj: "inj arg_lit"
  by (rule injI) (auto simp: arg_lit_def prod_eq_iff dest: wire_lit_inj)

lemma opt_sub_inj: "opt_lit (map_option subscription_lit a) = opt_lit (map_option subscription_lit b) \<Longrightarrow> a = b"
proof -
  have one: "subscription_lit x = subscription_lit y \<Longrightarrow> x = y" for x y by (cases x; cases y) simp_all
  have plain: "subscription_lit x \<noteq> NONE" for x by (cases x) simp_all
  show "opt_lit (map_option subscription_lit a) = opt_lit (map_option subscription_lit b) \<Longrightarrow> a = b"
    using plain plain[symmetric] by (cases a; cases b) (auto dest: one)
qed

text \<open>C31. The emitted policy says what the build resolved: the source written for a call's spec, with every field that holds its
  default left out, is one Python rebuilds that very spec from, and no two specs share their source.\<close>

theorem specs_rebuilt:
  "(\<forall>s. \<exists>e. literal (spec_lit s) = Inr e \<and> rebuild CALLSPEC e = Inr (spec_lit s)) \<and> inj spec_lit"
proof
  show "\<forall>s. \<exists>e. literal (spec_lit s) = Inr e \<and> rebuild CALLSPEC e = Inr (spec_lit s)"
    using literal_rebuilt[OF spec_lit_ok] by blast
  show "inj spec_lit"
  proof (rule injI)
    fix s s' assume eq: "spec_lit s = spec_lit s'"
    show "s = s'"
    proof (cases s; cases s')
      fix c c' assume s: "s = SCall c" "s' = SCall c'"
      with eq have "ca_index c = ca_index c'" "ca_name c = ca_name c'" "map arg_lit (ca_args c) = map arg_lit (ca_args c')"
        "ca_returns c = ca_returns c'" "ca_sub c = ca_sub c'"
        by (auto simp: call_lit_def dest: opt_wire_inj opt_sub_inj)
      then show ?thesis unfolding s by (simp add: inj_map_eq_map[OF arg_lit_inj])
    next
      fix a a' assume s: "s = SAcquire a" "s' = SAcquire a'"
      with eq have "aq_index a = aq_index a'" "aq_cls a = aq_cls a'" "map arg_lit (aq_args a) = map arg_lit (aq_args a')"
        "aq_required a = aq_required a'" by (auto simp: acquire_lit_def)
      then show ?thesis unfolding s by (simp add: inj_map_eq_map[OF arg_lit_inj])
    qed (use eq in \<open>simp_all add: call_lit_def acquire_lit_def\<close>)
  qed
qed

end
