(* ===== verification/Refusals.thy ===== *)
theory Refusals
  imports Decl
begin

text \<open>
  How the reader of declarations refuses (\<open>huggorm_dsl/read.py\<close>): a refusal with its place, the collector that gathers
  several of them (\<open>Diagnostics\<close>, \<open>collecting\<close>, \<open>_survive\<close>), and code that reads under it.

  The text of a message is kept as its kind and the names in it. \<open>type_of\<close> refuses by the annotation. The state of a read
  is the cache of \<open>read\<close>, which \<open>functools.cache\<close> keeps, and the collector in force, if any.
\<close>

subsection \<open>Refusals\<close>

datatype remark = Remark string "string list" | Remark_type ann

text \<open>The line a refusal points at, unless the whole file is meant, and what it says; then the file.\<close>

type_synonym notice = "nat option \<times> remark"

datatype stop =
    Refused string notice \<comment> \<open>a \<open>DeclarationError\<close>\<close>
  | Crashed exn \<comment> \<open>any other exception\<close>

fun sum_bind :: "'e + 'a \<Rightarrow> ('a \<Rightarrow> 'e + 'b) \<Rightarrow> 'e + 'b" where
  "sum_bind (Inl e) f = Inl e"
| "sum_bind (Inr a) f = f a"

fun map_sums :: "('a \<Rightarrow> 'e + 'b) \<Rightarrow> 'a list \<Rightarrow> 'e + 'b list" where
  "map_sums f [] = Inr []"
| "map_sums f (x # xs) = sum_bind (f x) (\<lambda>y. sum_bind (map_sums f xs) (\<lambda>ys. Inr (y # ys)))"

lemma sum_bind_Inr_iff: "sum_bind r f = Inr b \<longleftrightarrow> (\<exists>a. r = Inr a \<and> f a = Inr b)"
  by (cases r) auto

lemma map_sums_Inr_iff: "map_sums f xs = Inr ys \<longleftrightarrow> list_all2 (\<lambda>x y. f x = Inr y) xs ys"
  by (induction xs arbitrary: ys) (auto simp: sum_bind_Inr_iff list_all2_Cons1)

definition refuse :: "nat \<Rightarrow> string \<Rightarrow> string list \<Rightarrow> notice + 'a" where
  "refuse line text about = Inl (Some line, Remark text about)"

text \<open>A check of one file, by its path: its complaints name the file, and any other exception of it ends the read.\<close>

definition in_file :: "string \<Rightarrow> notice + 'a \<Rightarrow> stop + 'a" where
  "in_file path r = map_sum (Refused path) id r"

definition crash_free :: "exn + 'a \<Rightarrow> stop + 'a" where
  "crash_free r = map_sum Crashed id r"

subsection \<open>The collector\<close>

record diagnostics =
  dg_messages :: "stop list"
  dg_unsound :: "string list"
  dg_blind :: bool

definition new_diagnostics :: diagnostics where
  "new_diagnostics = \<lparr>dg_messages = [], dg_unsound = [], dg_blind = False\<rparr>"

definition record_stop :: "stop \<Rightarrow> string \<Rightarrow> diagnostics \<Rightarrow> diagnostics" where
  "record_stop err unsound d = d\<lparr>dg_messages := (if err \<in> set (dg_messages d) then dg_messages d else dg_messages d @ [err]),
     dg_unsound := (if unsound = [] then dg_unsound d else unsound # dg_unsound d)\<rparr>"

text \<open>\<open>raise_if_any\<close> raises one error with all the messages.\<close>

definition raise_if_any :: "diagnostics \<Rightarrow> stop list + unit" where
  "raise_if_any d = (if dg_messages d = [] then Inr () else Inl (dg_messages d))"

subsection \<open>Reading\<close>

record read_state =
  rd_cache :: "(string, dmodule) dict"
  rd_collecting :: "diagnostics option"

type_synonym 'a read = "read_state \<Rightarrow> (stop + 'a) \<times> read_state"

definition ret_rd :: "'a \<Rightarrow> 'a read" where
  "ret_rd a = (\<lambda>s. (Inr a, s))"

definition of_sum :: "stop + 'a \<Rightarrow> 'a read" where
  "of_sum r = (\<lambda>s. (r, s))"

definition bind_rd :: "'a read \<Rightarrow> ('a \<Rightarrow> 'b read) \<Rightarrow> 'b read" where
  "bind_rd m f = (\<lambda>s. case m s of (Inl e, s1) \<Rightarrow> (Inl e, s1) | (Inr a, s1) \<Rightarrow> f a s1)"

fun each_rd :: "('a \<Rightarrow> 'b read) \<Rightarrow> 'a list \<Rightarrow> 'b list read" where
  "each_rd f [] = ret_rd []"
| "each_rd f (x # xs) = bind_rd (f x) (\<lambda>y. bind_rd (each_rd f xs) (\<lambda>ys. ret_rd (y # ys)))"

text \<open>\<open>_survive\<close>: record and continue, or re-raise when nothing is collecting. \<open>surviving\<close> is the \<open>try\<close> around it, which
  catches a \<open>DeclarationError\<close> alone; what was being read is then None.\<close>

definition survive :: "stop \<Rightarrow> string \<Rightarrow> unit read" where
  "survive err unsound = (\<lambda>s. case rd_collecting s of None \<Rightarrow> (Inl err, s)
     | Some d \<Rightarrow> (Inr (), s\<lparr>rd_collecting := Some (record_stop err unsound d)\<rparr>))"

definition blinded :: "unit read" where
  "blinded = (\<lambda>s. (Inr (), s\<lparr>rd_collecting := map_option (\<lambda>d. d\<lparr>dg_blind := True\<rparr>) (rd_collecting s)\<rparr>))"

definition surviving :: "'a read \<Rightarrow> string \<Rightarrow> unit read \<Rightarrow> 'a option read" where
  "surviving m unsound also = (\<lambda>s. case m s of
       (Inl (Refused p c), s1) \<Rightarrow> bind_rd (survive (Refused p c) unsound) (\<lambda>_. bind_rd also (\<lambda>_. ret_rd None)) s1
     | (Inl (Crashed e), s1) \<Rightarrow> (Inl (Crashed e), s1)
     | (Inr a, s1) \<Rightarrow> (Inr (Some a), s1))"

text \<open>\<open>collecting\<close>: the outermost collector wins. Its block's exception is lost when there is a report, and raised when there
  is none.\<close>

definition collecting :: "'a read \<Rightarrow> read_state \<Rightarrow> (stop list + 'a) \<times> read_state" where
  "collecting m s = (case rd_collecting s of
       Some d \<Rightarrow> (case m s of (r, s1) \<Rightarrow> (map_sum (\<lambda>e. [e]) id r, s1))
     | None \<Rightarrow> (case m (s\<lparr>rd_collecting := Some new_diagnostics\<rparr>) of (r, s1) \<Rightarrow>
         (case raise_if_any (case rd_collecting s1 of Some d \<Rightarrow> d | None \<Rightarrow> new_diagnostics) of
            Inl es \<Rightarrow> (Inl es, s1\<lparr>rd_collecting := None\<rparr>)
          | Inr _ \<Rightarrow> (map_sum (\<lambda>e. [e]) id r, s1\<lparr>rd_collecting := None\<rparr>))))"

subsection \<open>Reading with and without a collector\<close>

text \<open>\<open>stays_reported\<close>: once there is a message, the first one stays the first. \<open>agrees\<close>: with nothing reported yet, a read
  under a collector goes as the plain read goes to the plain read's refusal, which is then raised or the first message.\<close>

definition reported :: "stop \<Rightarrow> read_state \<Rightarrow> bool" where
  "reported e s \<longleftrightarrow> (\<exists>d. rd_collecting s = Some d \<and> dg_messages d \<noteq> [] \<and> hd (dg_messages d) = e)"

definition stays_reported :: "'a read \<Rightarrow> bool" where
  "stays_reported m \<longleftrightarrow> (\<forall>s e. reported e s \<longrightarrow> reported e (snd (m s)))"

definition plainly :: "(string, dmodule) dict \<Rightarrow> read_state" where
  "plainly c = \<lparr>rd_cache = c, rd_collecting = None\<rparr>"

definition collector :: "(string, dmodule) dict \<Rightarrow> read_state" where
  "collector c = \<lparr>rd_cache = c, rd_collecting = Some new_diagnostics\<rparr>"

definition agrees :: "'a read \<Rightarrow> bool" where
  "agrees m \<longleftrightarrow> stays_reported m \<and> (\<forall>c. \<exists>c1. case fst (m (plainly c)) of
       Inr a \<Rightarrow> m (plainly c) = (Inr a, plainly c1) \<and> m (collector c) = (Inr a, collector c1)
     | Inl e \<Rightarrow> m (plainly c) = (Inl e, plainly c1) \<and>
         (m (collector c) = (Inl e, collector c1) \<or> reported e (snd (m (collector c)))))"

lemma reported_plainly [simp]: "\<not> reported e (plainly c)"
  by (simp add: reported_def plainly_def)

lemma reported_collector [simp]: "\<not> reported e (collector c)"
  by (simp add: reported_def collector_def new_diagnostics_def)

lemma stays_reportedD: "stays_reported m \<Longrightarrow> reported e s \<Longrightarrow> reported e (snd (m s))"
  by (simp add: stays_reported_def)

lemma agrees_stays: "agrees m \<Longrightarrow> stays_reported m"
  by (simp add: agrees_def)

lemma agrees_cases:
  assumes "agrees m"
  obtains (answer) a c1 where "m (plainly c) = (Inr a, plainly c1)" "m (collector c) = (Inr a, collector c1)"
  | (raised) e c1 where "m (plainly c) = (Inl e, plainly c1)" "m (collector c) = (Inl e, collector c1)"
  | (told) e c1 where "m (plainly c) = (Inl e, plainly c1)" "reported e (snd (m (collector c)))"
proof -
  from assms have "\<exists>c1. case fst (m (plainly c)) of
       Inr a \<Rightarrow> m (plainly c) = (Inr a, plainly c1) \<and> m (collector c) = (Inr a, collector c1)
     | Inl e \<Rightarrow> m (plainly c) = (Inl e, plainly c1) \<and>
         (m (collector c) = (Inl e, collector c1) \<or> reported e (snd (m (collector c))))"
    by (simp add: agrees_def)
  then show thesis by (cases "fst (m (plainly c))") (auto intro: answer raised told)
qed

lemma agreesI:
  assumes "stays_reported m"
    "\<And>c. (\<exists>a c1. m (plainly c) = (Inr a, plainly c1) \<and> m (collector c) = (Inr a, collector c1)) \<or>
       (\<exists>e c1. m (plainly c) = (Inl e, plainly c1) \<and> (m (collector c) = (Inl e, collector c1) \<or> reported e (snd (m (collector c)))))"
  shows "agrees m"
  unfolding agrees_def
proof (intro conjI allI)
  fix c
  show "\<exists>c1. case fst (m (plainly c)) of
       Inr a \<Rightarrow> m (plainly c) = (Inr a, plainly c1) \<and> m (collector c) = (Inr a, collector c1)
     | Inl e \<Rightarrow> m (plainly c) = (Inl e, plainly c1) \<and>
         (m (collector c) = (Inl e, collector c1) \<or> reported e (snd (m (collector c))))"
    using assms(2)[of c] by (elim disjE exE conjE) force+
qed (rule assms(1))

named_theorems agree_rules \<open>code that reads the same with and without a collector\<close>

lemma stays_of_sum: "stays_reported (of_sum r)"
  by (simp add: stays_reported_def of_sum_def)

lemma agrees_of_sum [agree_rules]: "agrees (of_sum r)"
  by (rule agreesI[OF stays_of_sum]) (cases r; simp add: of_sum_def; blast)

lemma agrees_ret [agree_rules]: "agrees (ret_rd a)"
  using agrees_of_sum[of "Inr a"] by (simp add: ret_rd_def of_sum_def)

lemma stays_bind: "stays_reported m \<Longrightarrow> (\<And>a. stays_reported (f a)) \<Longrightarrow> stays_reported (bind_rd m f)"
proof -
  assume m: "stays_reported m" and f: "\<And>a. stays_reported (f a)"
  { fix s e assume r: "reported e s"
    obtain q s1 where q: "m s = (q, s1)" by (cases "m s")
    from stays_reportedD[OF m r] q have "reported e s1" by simp
    then have "reported e (snd (bind_rd m f s))"
      using f q by (cases q) (auto simp: bind_rd_def stays_reported_def) }
  then show ?thesis by (simp add: stays_reported_def)
qed

lemma agrees_bind [agree_rules]: "agrees m \<Longrightarrow> (\<And>a. agrees (f a)) \<Longrightarrow> agrees (bind_rd m f)"
proof (rule agreesI)
  assume m: "agrees m" and f: "\<And>a. agrees (f a)"
  show "stays_reported (bind_rd m f)" by (rule stays_bind) (use m f in \<open>auto intro: agrees_stays\<close>)
  fix c
  show "(\<exists>a c1. bind_rd m f (plainly c) = (Inr a, plainly c1) \<and> bind_rd m f (collector c) = (Inr a, collector c1)) \<or>
       (\<exists>e c1. bind_rd m f (plainly c) = (Inl e, plainly c1) \<and>
          (bind_rd m f (collector c) = (Inl e, collector c1) \<or> reported e (snd (bind_rd m f (collector c)))))"
    using m
  proof (cases rule: agrees_cases[where c = c])
    case (answer a c1)
    note m_at = this
    from f[of a] show ?thesis by (cases rule: agrees_cases[where c = c1]) (use m_at in \<open>auto simp: bind_rd_def\<close>)
  next
    case (raised e c1)
    then show ?thesis by (auto simp: bind_rd_def)
  next
    case (told e c1)
    obtain q s1 where q: "m (collector c) = (q, s1)" by (cases "m (collector c)")
    with told(2) have "reported e s1" by simp
    then have "reported e (snd (bind_rd m f (collector c)))"
      using q stays_reportedD[OF agrees_stays[OF f]] by (cases q) (auto simp: bind_rd_def)
    with told(1) show ?thesis by (auto simp: bind_rd_def)
  qed
qed

lemma agrees_each [agree_rules]: "(\<And>x. agrees (f x)) \<Longrightarrow> agrees (each_rd f xs)"
  by (induction xs) (auto intro!: agree_rules)

lemma reported_record: "reported e \<lparr>rd_cache = c, rd_collecting = Some (record_stop err u d)\<rparr> \<longleftrightarrow>
    (if dg_messages d = [] then e = err else hd (dg_messages d) = e)"
  by (auto simp: reported_def record_stop_def)

lemma stays_survive: "stays_reported (survive err u)"
  by (auto simp: stays_reported_def survive_def reported_def record_stop_def split: option.splits)

lemma agrees_survive [agree_rules]: "agrees (survive err u)"
proof (rule agreesI[OF stays_survive])
  fix c
  have "reported err (snd (survive err u (collector c)))"
    by (simp add: survive_def collector_def reported_record new_diagnostics_def)
  then show "(\<exists>a c1. survive err u (plainly c) = (Inr a, plainly c1) \<and> survive err u (collector c) = (Inr a, collector c1)) \<or>
       (\<exists>e c1. survive err u (plainly c) = (Inl e, plainly c1) \<and>
          (survive err u (collector c) = (Inl e, collector c1) \<or> reported e (snd (survive err u (collector c)))))"
    by (auto simp: survive_def plainly_def)
qed

lemma bind_survive: "rd_collecting s = Some d \<Longrightarrow>
    bind_rd (survive e u) f s = f () (s\<lparr>rd_collecting := Some (record_stop e u d)\<rparr>)"
  by (simp add: bind_rd_def survive_def)

lemma stays_surviving: "stays_reported m \<Longrightarrow> stays_reported also \<Longrightarrow> stays_reported (surviving m u also)"
proof -
  assume m: "stays_reported m" and a: "stays_reported also"
  have h: "stays_reported (bind_rd (survive e u) (\<lambda>_. bind_rd also (\<lambda>_. ret_rd None)))" for e :: stop
    by (intro stays_bind stays_survive a agrees_stays[OF agrees_ret])
  { fix s e assume r: "reported e s"
    obtain q s1 where q: "m s = (q, s1)" by (cases "m s")
    from stays_reportedD[OF m r] q have s1: "reported e s1" by simp
    have "reported e (snd (surviving m u also s))"
    proof (cases q)
      case (Inl x)
      then show ?thesis using q s1 stays_reportedD[OF h s1] by (cases x) (simp_all add: surviving_def)
    qed (use q s1 in \<open>simp add: surviving_def\<close>) }
  then show ?thesis by (simp add: stays_reported_def)
qed

lemma agrees_surviving: "agrees m \<Longrightarrow> stays_reported also \<Longrightarrow> agrees (surviving m u also)"
proof (rule agreesI)
  assume m: "agrees m" and a: "stays_reported also"
  show "stays_reported (surviving m u also)" by (rule stays_surviving[OF agrees_stays[OF m] a])
  fix c
  show "(\<exists>x c1. surviving m u also (plainly c) = (Inr x, plainly c1) \<and> surviving m u also (collector c) = (Inr x, collector c1)) \<or>
       (\<exists>e c1. surviving m u also (plainly c) = (Inl e, plainly c1) \<and>
          (surviving m u also (collector c) = (Inl e, collector c1) \<or> reported e (snd (surviving m u also (collector c)))))"
    using m
  proof (cases rule: agrees_cases[where c = c])
    case (answer x c1)
    then show ?thesis by (auto simp: surviving_def)
  next
    case (raised e c1)
    have "reported e \<lparr>rd_cache = c1, rd_collecting = Some (record_stop e u new_diagnostics)\<rparr>"
      by (simp add: reported_record new_diagnostics_def)
    then have "reported e (snd (bind_rd also (\<lambda>_. ret_rd None) \<lparr>rd_cache = c1, rd_collecting = Some (record_stop e u new_diagnostics)\<rparr>))"
      by (rule stays_reportedD[OF stays_bind[OF a agrees_stays[OF agrees_ret]]])
    then have "reported e (snd (bind_rd (survive e u) (\<lambda>_. bind_rd also (\<lambda>_. ret_rd None)) (collector c1)))"
      by (simp add: bind_survive collector_def)
    with raised show ?thesis
      by (cases e) (auto simp: surviving_def bind_rd_def survive_def plainly_def)
  next
    case (told e c1)
    obtain q s1 where q: "m (collector c) = (q, s1)" by (cases "m (collector c)")
    with told(2) have s1: "reported e s1" by simp
    have h: "stays_reported (bind_rd (survive x u) (\<lambda>_. bind_rd also (\<lambda>_. ret_rd None)))" for x :: stop
      by (intro stays_bind stays_survive a agrees_stays[OF agrees_ret])
    have "reported e (snd (surviving m u also (collector c)))"
    proof (cases q)
      case (Inl x)
      then show ?thesis using q s1 stays_reportedD[OF h s1] by (cases x) (simp_all add: surviving_def)
    qed (use q s1 in \<open>simp add: surviving_def\<close>)
    with told(1) show ?thesis by (cases e) (auto simp: surviving_def bind_rd_def survive_def plainly_def)
  qed
qed

lemma stays_blinded: "stays_reported blinded"
  by (auto simp: stays_reported_def blinded_def reported_def)

end
