(* ===== verification/Marks.thy ===== *)
theory Marks
  imports Refusals
begin

text \<open>
  The decorators of a declaration (\<open>huggorm_dsl/declare.py\<close>): where each may stand (\<open>MARKERS\<close>, which \<open>_check_markers\<close> of
  \<open>read.py\<close> reads), what each writes on the class or the function under it, and what the import is left with once Python
  has applied them, the lowest first. The C++ text that only emitters copy (\<open>header\<close>, \<open>custom\<close>, \<open>gc_slots\<close>) is left out
  of the record of a class.
\<close>

subsection \<open>Where a marker may stand\<close>

datatype mark_place = On_class | On_method | On_free
datatype marker_arity = Flag | Once | Repeatable

record marker =
  mk_target :: "mark_place list"
  mk_arity :: marker_arity
  mk_excludes :: "string list"
  mk_requires :: "string list"

definition marker_on :: "mark_place list \<Rightarrow> marker_arity \<Rightarrow> marker" where
  "marker_on t a = \<lparr>mk_target = t, mk_arity = a, mk_excludes = [], mk_requires = []\<rparr>"

definition MARKERS :: "(string, marker) dict" where
  "MARKERS =
    [(''abstract'', marker_on [On_class] Flag), (''tagged'', marker_on [On_class] Once),
     (''binding'', marker_on [On_class] Once), (''builds'', marker_on [On_class] Once),
     (''custom'', marker_on [On_class] Once), (''gc_slots'', marker_on [On_class] Once),
     (''header'', marker_on [On_class] Once),
     (''in_process'', (marker_on [On_class] Flag)\<lparr>mk_excludes := [''wire_value'']\<rparr>),
     (''calls_back'', (marker_on [On_class] Flag)\<lparr>mk_requires := [''in_process'']\<rparr>),
     (''produced'', marker_on [On_class] Flag), (''tree'', marker_on [On_class] Once),
     (''wire_value'', marker_on [On_class] Once), (''words'', marker_on [On_class] Once),
     (''binds'', marker_on [On_method, On_free] Once),
     (''blocks'', (marker_on [On_method, On_free] Flag)\<lparr>mk_excludes := [''instant'']\<rparr>),
     (''cxx_name'', marker_on [On_method] Once), (''spells'', marker_on [On_method] Once),
     (''fills'', marker_on [On_method] Once), (''guard'', marker_on [On_method] Once),
     (''names'', marker_on [On_method] Flag), (''produces'', marker_on [On_method] Once),
     (''instant'', (marker_on [On_method] Flag)\<lparr>mk_excludes := [''blocks'']\<rparr>),
     (''local'', marker_on [On_method] Flag), (''reads'', marker_on [On_method] Once),
     (''wire_read'', marker_on [On_method] Once), (''threading'', marker_on [On_method, On_free] Once),
     (''needs'', marker_on [On_class, On_method, On_free] Repeatable),
     (''constructs'', marker_on [On_free] Once), (''startup'', marker_on [On_free] Flag),
     (''translator'', marker_on [On_free] Flag), (''virtual'', marker_on [On_method] Flag),
     (''posted'', (marker_on [On_method] Flag)\<lparr>mk_requires := [''virtual'']\<rparr>),
     (''subscription'', marker_on [On_method, On_free] Once)]"

definition BUILTIN_DECORATORS :: "string list" where
  "BUILTIN_DECORATORS = [''property'', ''staticmethod'', ''classmethod'', ''overload'']"

text \<open>A decorator as written: its line, its name when it is one (or a call of one), and whether it is called.\<close>

record deco =
  de_line :: nat
  de_name :: string \<comment> \<open>empty for anything but a bare name\<close>
  de_called :: bool

fun scan_markers :: "mark_place \<Rightarrow> (string, nat) dict \<Rightarrow> deco list \<Rightarrow> notice + (string, nat) dict" where
  "scan_markers k seen [] = Inr seen"
| "scan_markers k seen (d # ds) =
     (if de_name d = [] then refuse (de_line d) ''bare name'' []
      else if de_name d \<in> set BUILTIN_DECORATORS then scan_markers k seen ds
      else (case dict_get MARKERS (de_name d) of
          None \<Rightarrow> refuse (de_line d) ''unknown marker'' [de_name d]
        | Some r \<Rightarrow>
            if k \<notin> set (mk_target r) then refuse (de_line d) ''not legal here'' [de_name d]
            else if mk_arity r = Flag \<and> de_called d then refuse (de_line d) ''takes no arguments'' [de_name d]
            else if mk_arity r \<noteq> Flag \<and> \<not> de_called d then refuse (de_line d) ''needs arguments'' [de_name d]
            else if mk_arity r \<noteq> Repeatable \<and> dict_get seen (de_name d) \<noteq> None then refuse (de_line d) ''may appear once'' [de_name d]
            else scan_markers k (dict_set (de_name d) (de_line d) seen) ds))"

definition excludes_of :: "string \<Rightarrow> string list" where
  "excludes_of n = (case dict_get MARKERS n of None \<Rightarrow> [] | Some r \<Rightarrow> mk_excludes r)"

definition requires_of :: "string \<Rightarrow> string list" where
  "requires_of n = (case dict_get MARKERS n of None \<Rightarrow> [] | Some r \<Rightarrow> mk_requires r)"

fun first_note :: "('a \<Rightarrow> notice + unit) \<Rightarrow> 'a list \<Rightarrow> notice + unit" where
  "first_note f [] = Inr ()"
| "first_note f (x # xs) = sum_bind (f x) (\<lambda>_. first_note f xs)"

definition marker_pairs :: "(string, nat) dict \<Rightarrow> string \<times> nat \<Rightarrow> notice + unit" where
  "marker_pairs seen p = sum_bind
     (first_note (\<lambda>other. if fst p \<noteq> other \<and> str_le (fst p) other then refuse (snd p) ''cannot both be set'' [fst p, other] else Inr ())
        (sorted_strs (filter (\<lambda>o1. o1 \<in> set (dict_keys seen)) (excludes_of (fst p)))))
     (\<lambda>_. first_note (\<lambda>other. refuse (snd p) ''needs'' [fst p, other])
        (sorted_strs (filter (\<lambda>o1. o1 \<notin> set (dict_keys seen)) (requires_of (fst p)))))"

definition check_markers :: "mark_place \<Rightarrow> deco list \<Rightarrow> notice + unit" where
  "check_markers k ds = sum_bind (scan_markers k [] ds) (\<lambda>seen. first_note (marker_pairs seen) seen)"

subsection \<open>On a class\<close>

datatype class_mark =
    C_abstract
  | C_tagged string string "(string, string) dict"
  | C_binding string string string bool string string \<comment> \<open>\<open>cxx\<close>, \<open>threading\<close>, \<open>holder\<close>, \<open>blocking\<close>, \<open>via\<close>, \<open>collection\<close>\<close>
  | C_builds builds_decl
  | C_custom string string
  | C_gc_slots string
  | C_header string
  | C_in_process
  | C_calls_back
  | C_produced
  | C_tree tree_decl
  | C_wire_value "part_decl list" string string bool string bool \<comment> \<open>\<open>fields\<close>, \<open>compare\<close>, \<open>text\<close>, \<open>order\<close>, \<open>shown\<close>, \<open>unit\<close>\<close>
  | C_words string "enumerated option"
  | C_needs "string list"

fun class_mark_name :: "class_mark \<Rightarrow> string" where
  "class_mark_name C_abstract = ''abstract''"
| "class_mark_name (C_tagged r a ns) = ''tagged''"
| "class_mark_name (C_binding c t h b v l) = ''binding''"
| "class_mark_name (C_builds b) = ''builds''"
| "class_mark_name (C_custom n s) = ''custom''"
| "class_mark_name (C_gc_slots t) = ''gc_slots''"
| "class_mark_name (C_header p) = ''header''"
| "class_mark_name C_in_process = ''in_process''"
| "class_mark_name C_calls_back = ''calls_back''"
| "class_mark_name C_produced = ''produced''"
| "class_mark_name (C_tree t) = ''tree''"
| "class_mark_name (C_wire_value f c t ord s u) = ''wire_value''"
| "class_mark_name (C_words p e) = ''words''"
| "class_mark_name (C_needs hs) = ''needs''"

definition new_decl :: decl where
  "new_decl = \<lparr>dc_kind = CLASS_KIND, dc_header = [], dc_headers = [], dc_cxx = [], dc_produced = False, dc_factory = [], dc_threading = POOL, dc_blocking = True,
     dc_wire = By_proxy, dc_calls_back = False, dc_fields = [], dc_arms = [], dc_scalars = [], dc_variant = None, dc_compare = [], dc_text = [], dc_shown = [],
     dc_order = False, dc_unit = False, dc_custom = [], dc_gc_slots = [], dc_parsed_by = [], dc_enumerated = None, dc_abstract = False, dc_tree = None,
     dc_builds = None, dc_holder = [], dc_via = [], dc_collection = [], dc_tagged = None\<rparr>"

definition threading_of :: "string \<Rightarrow> exn + threading" where
  "threading_of w = (if w = ''pool'' then Inr POOL else if w = ''affine'' then Inr AFFINE else Inl ValueError)"

fun apply_class_mark :: "class_mark \<Rightarrow> decl \<Rightarrow> exn + decl" where
  "apply_class_mark C_abstract d = Inr (d\<lparr>dc_abstract := True\<rparr>)"
| "apply_class_mark (C_tagged r a ns) d = Inr (d\<lparr>dc_tagged := Some (r, a, ns)\<rparr>)"
| "apply_class_mark (C_binding c t h b v l) d = res_bind (threading_of t) (\<lambda>th.
     Inr (d\<lparr>dc_cxx := c, dc_blocking := b, dc_threading := th, dc_holder := h, dc_via := v, dc_collection := l\<rparr>))"
| "apply_class_mark (C_builds b) d = Inr (d\<lparr>dc_builds := Some b\<rparr>)"
| "apply_class_mark (C_custom n s) d = Inr (d\<lparr>dc_custom := dict_set n s (dc_custom d)\<rparr>)"
| "apply_class_mark (C_gc_slots t) d = Inr (d\<lparr>dc_gc_slots := t\<rparr>)"
| "apply_class_mark (C_header p) d = Inr (d\<lparr>dc_header := p\<rparr>)"
| "apply_class_mark C_in_process d = Inr (d\<lparr>dc_wire := By_local\<rparr>)"
| "apply_class_mark C_calls_back d = Inr (d\<lparr>dc_calls_back := True\<rparr>)"
| "apply_class_mark C_produced d = Inr (d\<lparr>dc_produced := True\<rparr>)"
| "apply_class_mark (C_tree t) d = Inr (d\<lparr>dc_tree := Some t\<rparr>)"
| "apply_class_mark (C_wire_value f c t ord s u) d =
     Inr (d\<lparr>dc_wire := By_value, dc_fields := f, dc_compare := c, dc_text := t, dc_order := ord,
       dc_shown := (if s = [] then t else s), dc_unit := u\<rparr>)"
| "apply_class_mark (C_words p e) d = Inr (d\<lparr>dc_kind := WORDS_KIND, dc_parsed_by := p, dc_enumerated := e\<rparr>)"
| "apply_class_mark (C_needs hs) d = Inr (d\<lparr>dc_headers := hs\<rparr>)"

text \<open>Python applies the lowest decorator first. \<open>needs\<close> writes on the class, and the read copies what it left to the
  declaration's headers; the other marks write the declaration.\<close>

definition class_marked :: "class_mark list \<Rightarrow> decl \<Rightarrow> exn + decl" where
  "class_marked ms d = foldr (\<lambda>m r. res_bind r (apply_class_mark m)) ms (Inr d)"

text \<open>\<open>constructs\<close> stands on a function and writes on the class.\<close>

definition constructs_class :: "string \<Rightarrow> decl \<Rightarrow> decl" where
  "constructs_class fn d = d\<lparr>dc_factory := fn\<rparr>"

text \<open>The headers of the highest \<open>needs\<close>.\<close>

fun class_headers :: "class_mark list \<Rightarrow> string list" where
  "class_headers [] = []"
| "class_headers (C_needs hs # ms) = hs"
| "class_headers (m # ms) = class_headers ms"

definition class_deco :: "nat \<Rightarrow> class_mark \<Rightarrow> deco" where
  "class_deco line m = \<lparr>de_line = line, de_name = class_mark_name m,
     de_called = (m \<notin> {C_abstract, C_in_process, C_calls_back, C_produced})\<rparr>"

subsection \<open>On a function\<close>

text \<open>What the decorators leave on a function, as \<open>_method\<close> reads it.\<close>

record marks =
  ms_blocks :: bool
  ms_instant :: bool
  ms_local :: bool
  ms_virtual :: bool
  ms_posted :: bool
  ms_names :: bool
  ms_startup :: bool
  ms_translator :: bool
  ms_reads :: string
  ms_collection :: string
  ms_wire_read :: string
  ms_guard :: string
  ms_produces :: string
  ms_binds :: string
  ms_cxx_name :: string
  ms_fills :: "(string \<times> string) option"
  ms_needs :: "string list"
  ms_spells :: "string list"
  ms_policy :: "threading option"
  ms_subscription :: "subscription option"

definition no_marks :: marks where
  "no_marks = \<lparr>ms_blocks = False, ms_instant = False, ms_local = False, ms_virtual = False, ms_posted = False, ms_names = False,
     ms_startup = False, ms_translator = False, ms_reads = [], ms_collection = [], ms_wire_read = [], ms_guard = [],
     ms_produces = [], ms_binds = [], ms_cxx_name = [], ms_fills = None, ms_needs = [], ms_spells = [], ms_policy = None,
     ms_subscription = None\<rparr>"

datatype meth_mark =
    M_blocks | M_instant | M_local | M_virtual | M_posted | M_names | M_startup | M_translator
  | M_reads string string
  | M_wire_read string
  | M_guard string
  | M_produces string
  | M_binds string
  | M_cxx_name string
  | M_fills string string
  | M_needs "string list"
  | M_spells "string list"
  | M_threading string
  | M_subscription subscription
  | M_constructs pyclass

fun meth_mark_name :: "meth_mark \<Rightarrow> string" where
  "meth_mark_name M_blocks = ''blocks''"
| "meth_mark_name M_instant = ''instant''"
| "meth_mark_name M_local = ''local''"
| "meth_mark_name M_virtual = ''virtual''"
| "meth_mark_name M_posted = ''posted''"
| "meth_mark_name M_names = ''names''"
| "meth_mark_name M_startup = ''startup''"
| "meth_mark_name M_translator = ''translator''"
| "meth_mark_name (M_reads m c) = ''reads''"
| "meth_mark_name (M_wire_read a) = ''wire_read''"
| "meth_mark_name (M_guard a) = ''guard''"
| "meth_mark_name (M_produces i) = ''produces''"
| "meth_mark_name (M_binds n) = ''binds''"
| "meth_mark_name (M_cxx_name n) = ''cxx_name''"
| "meth_mark_name (M_fills m a) = ''fills''"
| "meth_mark_name (M_needs hs) = ''needs''"
| "meth_mark_name (M_spells ws) = ''spells''"
| "meth_mark_name (M_threading p) = ''threading''"
| "meth_mark_name (M_subscription r) = ''subscription''"
| "meth_mark_name (M_constructs c) = ''constructs''"

text \<open>\<open>constructs\<close> writes on its class alone.\<close>

fun apply_meth_mark :: "meth_mark \<Rightarrow> marks \<Rightarrow> exn + marks" where
  "apply_meth_mark M_blocks m = Inr (m\<lparr>ms_blocks := True\<rparr>)"
| "apply_meth_mark M_instant m = Inr (m\<lparr>ms_instant := True\<rparr>)"
| "apply_meth_mark M_local m = Inr (m\<lparr>ms_local := True\<rparr>)"
| "apply_meth_mark M_virtual m = Inr (m\<lparr>ms_virtual := True\<rparr>)"
| "apply_meth_mark M_posted m = Inr (m\<lparr>ms_posted := True\<rparr>)"
| "apply_meth_mark M_names m = Inr (m\<lparr>ms_names := True\<rparr>)"
| "apply_meth_mark M_startup m = Inr (m\<lparr>ms_startup := True\<rparr>)"
| "apply_meth_mark M_translator m = Inr (m\<lparr>ms_translator := True\<rparr>)"
| "apply_meth_mark (M_reads x c) m = Inr (m\<lparr>ms_reads := x, ms_collection := c\<rparr>)"
| "apply_meth_mark (M_wire_read a) m = Inr (m\<lparr>ms_wire_read := a\<rparr>)"
| "apply_meth_mark (M_guard a) m = Inr (m\<lparr>ms_guard := a\<rparr>)"
| "apply_meth_mark (M_produces i) m = Inr (m\<lparr>ms_produces := i\<rparr>)"
| "apply_meth_mark (M_binds n) m = Inr (m\<lparr>ms_binds := n\<rparr>)"
| "apply_meth_mark (M_cxx_name n) m = Inr (m\<lparr>ms_cxx_name := n\<rparr>)"
| "apply_meth_mark (M_fills x a) m = Inr (m\<lparr>ms_fills := Some (x, a)\<rparr>)"
| "apply_meth_mark (M_needs hs) m = Inr (m\<lparr>ms_needs := hs\<rparr>)"
| "apply_meth_mark (M_spells ws) m = Inr (m\<lparr>ms_spells := ws\<rparr>)"
| "apply_meth_mark (M_threading p) m = map_sum id (\<lambda>th. m\<lparr>ms_policy := Some th\<rparr>) (threading_of p)"
| "apply_meth_mark (M_subscription r) m = Inr (m\<lparr>ms_subscription := Some r\<rparr>)"
| "apply_meth_mark (M_constructs c) m = Inr m"

text \<open>A definition under its descriptors. A marker writes on what it is handed: on the function itself, on a \<open>staticmethod\<close>
  or a \<open>classmethod\<close> object, where the function under it keeps none of it, and never on a property.\<close>

datatype 'f held = H_fn 'f | H_property "'f held" | H_static "'f held" | H_class "'f held"

datatype meth_deco = Marked meth_mark | As_property | As_static | As_class

fun decorate :: "meth_deco \<Rightarrow> marks held \<Rightarrow> exn + marks held" where
  "decorate As_property h = Inr (H_property h)"
| "decorate As_static h = Inr (H_static h)"
| "decorate As_class h = Inr (H_class h)"
| "decorate (Marked m) (H_fn f) = map_sum id H_fn (apply_meth_mark m f)"
| "decorate (Marked m) (H_property h) = (case m of M_constructs c \<Rightarrow> Inr (H_property h) | _ \<Rightarrow> Inl (Raised ''AttributeError''))"
| "decorate (Marked m) (H_static h) = map_sum id (\<lambda>_. H_static h) (apply_meth_mark m no_marks)"
| "decorate (Marked m) (H_class h) = map_sum id (\<lambda>_. H_class h) (apply_meth_mark m no_marks)"

text \<open>The decorators are evaluated from the top before any is applied, and \<open>threading\<close> refuses there.\<close>

definition decorated :: "meth_deco list \<Rightarrow> exn + marks held" where
  "decorated ds = (if list_ex (\<lambda>d. case d of Marked (M_threading p) \<Rightarrow> p \<noteq> ''pool'' | _ \<Rightarrow> False) ds then Inl ValueError
     else foldr (\<lambda>d r. res_bind r (decorate d)) ds (Inr (H_fn no_marks)))"

fun written_deco :: "nat \<Rightarrow> meth_deco \<Rightarrow> deco" where
  "written_deco line (Marked m) = \<lparr>de_line = line, de_name = meth_mark_name m,
     de_called = (m \<notin> {M_blocks, M_instant, M_local, M_virtual, M_posted, M_names, M_startup, M_translator})\<rparr>"
| "written_deco line As_property = \<lparr>de_line = line, de_name = ''property'', de_called = False\<rparr>"
| "written_deco line As_static = \<lparr>de_line = line, de_name = ''staticmethod'', de_called = False\<rparr>"
| "written_deco line As_class = \<lparr>de_line = line, de_name = ''classmethod'', de_called = False\<rparr>"

text \<open>\<open>getattr(held, "fget", None) or getattr(held, "__func__", held)\<close>, when it is a function.\<close>

fun under :: "'f held \<Rightarrow> 'f option" where
  "under (H_fn f) = Some f"
| "under (H_property (H_fn f)) = Some f"
| "under (H_static (H_fn f)) = Some f"
| "under (H_class (H_fn f)) = Some f"
| "under _ = None"

end
