(* ===== verification/Marks_Props.thy ===== *)
theory Marks_Props
  imports Marks "HOL-Library.Multiset"
begin

text \<open>
  The decorators of a declaration are checked by what they are, not by where they stand in the stack: the check is a few
  conditions on the set of them, and a stack of class decorators that passes says the same in any order.
\<close>

subsection \<open>The check as conditions\<close>

definition only_once :: "string \<Rightarrow> bool" where
  "only_once n \<longleftrightarrow> (case dict_get MARKERS n of None \<Rightarrow> False | Some r \<Rightarrow> mk_arity r \<noteq> Repeatable)"

definition deco_ok :: "mark_place \<Rightarrow> deco \<Rightarrow> bool" where
  "deco_ok k d \<longleftrightarrow> de_name d \<in> set BUILTIN_DECORATORS \<or>
     (case dict_get MARKERS (de_name d) of None \<Rightarrow> False
      | Some r \<Rightarrow> k \<in> set (mk_target r) \<and> (de_called d \<longleftrightarrow> mk_arity r \<noteq> Flag))"

definition markers_in :: "deco list \<Rightarrow> string set" where
  "markers_in ds = {n \<in> de_name ` set ds. dict_get MARKERS n \<noteq> None}"

definition markers_ok :: "mark_place \<Rightarrow> deco list \<Rightarrow> bool" where
  "markers_ok k ds \<longleftrightarrow> (\<forall>d\<in>set ds. deco_ok k d) \<and> distinct (filter only_once (map de_name ds)) \<and>
     (\<forall>a\<in>markers_in ds. \<forall>b\<in>markers_in ds. b \<notin> set (excludes_of a)) \<and>
     (\<forall>a\<in>markers_in ds. set (requires_of a) \<subseteq> markers_in ds)"

lemma builtin_no_marker: "n \<in> set BUILTIN_DECORATORS \<Longrightarrow> dict_get MARKERS n = None"
proof -
  have "\<forall>n\<in>set BUILTIN_DECORATORS. dict_get MARKERS n = None" by code_simp
  then show "n \<in> set BUILTIN_DECORATORS \<Longrightarrow> dict_get MARKERS n = None" by blast
qed

lemma marker_named: "dict_get MARKERS [] = None" "[] \<notin> set BUILTIN_DECORATORS"
  by (simp_all add: BUILTIN_DECORATORS_def MARKERS_def)

lemma once_marker: "only_once n \<Longrightarrow> n \<notin> set BUILTIN_DECORATORS"
  using builtin_no_marker by (auto simp: only_once_def)

lemma scan_iff:
  "(\<exists>out. scan_markers k seen ds = Inr out) \<longleftrightarrow> (\<forall>d\<in>set ds. deco_ok k d) \<and>
     distinct (filter only_once (map de_name ds)) \<and> set (filter only_once (map de_name ds)) \<inter> set (dict_keys seen) = {}"
proof (induction ds arbitrary: seen)
  case (Cons d ds)
  show ?case
  proof (cases "dict_get MARKERS (de_name d)")
    case None
    then show ?thesis using Cons.IH[of seen] marker_named
      by (auto simp: refuse_def deco_ok_def only_once_def)
  next
    case (Some r)
    have b: "de_name d \<notin> set BUILTIN_DECORATORS" "de_name d \<noteq> []"
      using builtin_no_marker Some marker_named by fastforce+
    have k: "dict_get seen (de_name d) = None \<longleftrightarrow> de_name d \<notin> set (dict_keys seen)"
      by (simp add: map_of_eq_None_iff)
    let ?seen = "dict_set (de_name d) (de_line d) seen"
    have step: "(\<exists>out. scan_markers k seen (d # ds) = Inr out) \<longleftrightarrow> k \<in> set (mk_target r) \<and> (de_called d \<longleftrightarrow> mk_arity r \<noteq> Flag) \<and>
        (mk_arity r \<noteq> Repeatable \<longrightarrow> de_name d \<notin> set (dict_keys seen)) \<and> (\<exists>out. scan_markers k ?seen ds = Inr out)"
      unfolding k[symmetric] by (simp add: refuse_def Some b)
    have ok: "deco_ok k d \<longleftrightarrow> k \<in> set (mk_target r) \<and> (de_called d \<longleftrightarrow> mk_arity r \<noteq> Flag)"
      using b Some by (simp add: deco_ok_def)
    have o: "only_once (de_name d) \<longleftrightarrow> mk_arity r \<noteq> Repeatable" by (simp add: only_once_def Some)
    have f: "filter only_once (map de_name (d # ds)) = (if only_once (de_name d) then de_name d # filter only_once (map de_name ds) else filter only_once (map de_name ds))"
      by simp
    have off: "\<not> only_once (de_name d) \<Longrightarrow> de_name d \<notin> set (filter only_once (map de_name ds))" by simp
    show ?thesis
      unfolding step Cons.IH[of ?seen] f dict_keys_set o[symmetric] using off
      by (cases "only_once (de_name d)") (simp only: if_True if_False; unfold list.set distinct.simps ok ball_simps; blast)+
  qed
qed simp

lemma scan_keys: "scan_markers k seen ds = Inr out \<Longrightarrow> set (dict_keys out) = set (dict_keys seen) \<union> markers_in ds"
proof (induction ds arbitrary: seen)
  case (Cons d ds)
  show ?case
  proof (cases "dict_get MARKERS (de_name d)")
    case None
    with Cons.prems have "scan_markers k seen ds = Inr out" by (simp add: refuse_def split: if_splits)
    from Cons.IH[OF this] None show ?thesis by (auto simp: markers_in_def)
  next
    case (Some r)
    have b: "de_name d \<notin> set BUILTIN_DECORATORS" "de_name d \<noteq> []"
      using builtin_no_marker Some marker_named by fastforce+
    from Cons.prems have "scan_markers k (dict_set (de_name d) (de_line d) seen) ds = Inr out"
      by (simp add: refuse_def Some b split: if_splits)
    from Cons.IH[OF this] have "set (dict_keys out) = insert (de_name d) (set (dict_keys seen)) \<union> markers_in ds"
      unfolding dict_keys_set .
    then show ?thesis using Some by (auto simp: markers_in_def)
  qed
qed (simp add: markers_in_def)

lemma first_note_iff: "first_note f xs = Inr () \<longleftrightarrow> (\<forall>x\<in>set xs. f x = Inr ())"
  by (induction xs) (auto simp: sum_bind_Inr_iff)

text \<open>Two markers that exclude each other: the lesser name of the two says so, which is where the check looks.\<close>

lemma excludes_table: "b \<in> set (excludes_of a) \<Longrightarrow>
    (a = ''in_process'' \<and> b = ''wire_value'') \<or> (a = ''blocks'' \<and> b = ''instant'') \<or> (a = ''instant'' \<and> b = ''blocks'')"
proof (cases "dict_get MARKERS a")
  case (Some r)
  have "\<forall>a\<in>set (dict_keys MARKERS). \<forall>b\<in>set (excludes_of a).
    (a = ''in_process'' \<and> b = ''wire_value'') \<or> (a = ''blocks'' \<and> b = ''instant'') \<or> (a = ''instant'' \<and> b = ''blocks'')"
    by code_simp
  moreover have "a \<in> set (dict_keys MARKERS)" using Some by (metis dict_keys_get)
  ultimately show "b \<in> set (excludes_of a) \<Longrightarrow> (a = ''in_process'' \<and> b = ''wire_value'') \<or> (a = ''blocks'' \<and> b = ''instant'') \<or>
    (a = ''instant'' \<and> b = ''blocks'')" by blast
qed (simp add: excludes_of_def)

lemma excludes_lesser: "b \<in> set (excludes_of a) \<Longrightarrow>
    (a \<noteq> b \<and> str_le a b) \<or> (b \<noteq> a \<and> str_le b a \<and> a \<in> set (excludes_of b))"
proof -
  have t: "''in_process'' \<noteq> ''wire_value''" "str_le ''in_process'' ''wire_value''" "''blocks'' \<noteq> ''instant''"
    "str_le ''blocks'' ''instant''" "''instant'' \<in> set (excludes_of ''blocks'')" by code_simp+
  assume "b \<in> set (excludes_of a)"
  from excludes_table[OF this] show ?thesis using t by (elim disjE conjE; hypsubst; blast)
qed

lemma pairs_iff: "(\<forall>p\<in>set seen. marker_pairs seen p = Inr ()) \<longleftrightarrow>
    (\<forall>a\<in>set (dict_keys seen). (\<forall>b\<in>set (dict_keys seen). b \<notin> set (excludes_of a)) \<and> set (requires_of a) \<subseteq> set (dict_keys seen))"
  (is "?l \<longleftrightarrow> ?r")
proof -
  have l: "?l \<longleftrightarrow> (\<forall>a\<in>set (dict_keys seen). (\<forall>b\<in>set (dict_keys seen). b \<in> set (excludes_of a) \<longrightarrow> \<not> (a \<noteq> b \<and> str_le a b)) \<and>
      set (requires_of a) \<subseteq> set (dict_keys seen))"
    by (force simp: marker_pairs_def sum_bind_Inr_iff first_note_iff refuse_def)
  show ?thesis unfolding l using excludes_lesser by blast
qed

text \<open>C33. A stack of decorators passes the check exactly when each is a Python decorator or a marker that is legal at that
  place and called as its arity says, no marker but a repeatable one stands twice, no two exclude each other, and what each
  needs is there.\<close>

theorem markers_checked: "check_markers k ds = Inr () \<longleftrightarrow> markers_ok k ds"
proof (cases "scan_markers k [] ds")
  case (Inl e)
  then have "\<not> (\<exists>out. scan_markers k [] ds = Inr out)" by simp
  then have "\<not> markers_ok k ds" unfolding scan_iff by (auto simp: markers_ok_def)
  then show ?thesis using Inl by (simp add: check_markers_def)
next
  case (Inr seen)
  then have "\<exists>out. scan_markers k [] ds = Inr out" by simp
  then have s: "\<forall>d\<in>set ds. deco_ok k d" "distinct (filter only_once (map de_name ds))" unfolding scan_iff by auto
  have keys: "set (dict_keys seen) = markers_in ds" using scan_keys[OF Inr] by simp
  show ?thesis
    unfolding check_markers_def Inr sum_bind.simps first_note_iff pairs_iff keys markers_ok_def using s by blast
qed

subsection \<open>The order of class decorators\<close>

fun class_stack :: "nat \<Rightarrow> class_mark list \<Rightarrow> deco list" where
  "class_stack line [] = []"
| "class_stack line (m # ms) = class_deco line m # class_stack (Suc line) ms"

lemma class_stack_names: "map de_name (class_stack line ms) = map class_mark_name ms"
  by (induction ms arbitrary: line) (simp_all add: class_deco_def)

lemma deco_ok_line: "deco_ok k (class_deco l m) \<longleftrightarrow> deco_ok k (class_deco l2 m)"
  by (simp add: deco_ok_def class_deco_def split: option.splits)

lemma class_stack_ok: "(\<forall>d\<in>set (class_stack line ms). deco_ok k d) \<longleftrightarrow> (\<forall>m\<in>set ms. deco_ok k (class_deco 0 m))"
proof (induction ms arbitrary: line)
  case (Cons m ms)
  then show ?case using deco_ok_line[of k line m 0] by simp
qed simp

lemma class_stack_markers: "markers_in (class_stack line ms) = {n \<in> class_mark_name ` set ms. dict_get MARKERS n \<noteq> None}"
proof -
  have "de_name ` set (class_stack line ms) = class_mark_name ` set ms"
    using class_stack_names[of line ms] by (metis image_set)
  then show ?thesis by (simp add: markers_in_def)
qed

lemma stack_order_free:
  assumes "mset ms = mset ns"
  shows "markers_ok k (class_stack l ms) \<longleftrightarrow> markers_ok k (class_stack l2 ns)"
proof -
  have s: "set ms = set ns" by (rule mset_eq_setD[OF assms])
  have "distinct (filter only_once (map class_mark_name ms)) \<longleftrightarrow> distinct (filter only_once (map class_mark_name ns))"
    using assms by (metis mset_eq_imp_distinct_iff mset_filter mset_map)
  then show ?thesis
    unfolding markers_ok_def class_stack_ok class_stack_names class_stack_markers s by blast
qed

text \<open>Two marks of one name, and the two that write how a class crosses.\<close>

fun mark_rank :: "class_mark \<Rightarrow> nat" where
  "mark_rank C_abstract = 0"
| "mark_rank (C_tagged r a ns) = 1"
| "mark_rank (C_binding c t h b v l) = 2"
| "mark_rank (C_builds b) = 3"
| "mark_rank (C_custom n s) = 4"
| "mark_rank (C_gc_slots t) = 5"
| "mark_rank (C_header p) = 6"
| "mark_rank C_in_process = 7"
| "mark_rank C_calls_back = 8"
| "mark_rank C_produced = 9"
| "mark_rank (C_tree t) = 10"
| "mark_rank (C_wire_value f c t ord s u) = 11"
| "mark_rank (C_words p e) = 12"
| "mark_rank (C_needs hs) = 13"

abbreviation is_needs :: "class_mark \<Rightarrow> bool" where
  "is_needs m \<equiv> mark_rank m = 13"

lemma mset_single: "mset xs = {#x#} \<Longrightarrow> xs = [x]"
  by simp

definition clash :: "class_mark \<Rightarrow> class_mark \<Rightarrow> bool" where
  "clash m n \<longleftrightarrow> mark_rank m = mark_rank n \<or> (mark_rank m = 7 \<and> mark_rank n = 11) \<or> (mark_rank m = 11 \<and> mark_rank n = 7)"

definition commutes :: "class_mark \<Rightarrow> class_mark \<Rightarrow> decl \<Rightarrow> bool" where
  "commutes m n d \<longleftrightarrow> res_bind (apply_class_mark m d) (apply_class_mark n) = res_bind (apply_class_mark n d) (apply_class_mark m)"

definition ranked :: "class_mark \<Rightarrow> class_mark \<Rightarrow> bool" where
  "ranked m n \<longleftrightarrow> mark_rank n \<noteq> 2 \<and> \<not> clash m n \<and> mark_rank m < mark_rank n"

lemma mark_commutes:
  "ranked C_abstract n \<Longrightarrow> commutes C_abstract n d"
  "ranked (C_tagged r a ns) n \<Longrightarrow> commutes (C_tagged r a ns) n d"
  "ranked (C_builds b) n \<Longrightarrow> commutes (C_builds b) n d"
  "ranked (C_custom nm sc) n \<Longrightarrow> commutes (C_custom nm sc) n d"
  "ranked (C_gc_slots tb) n \<Longrightarrow> commutes (C_gc_slots tb) n d"
  "ranked (C_header ph) n \<Longrightarrow> commutes (C_header ph) n d"
  "ranked C_in_process n \<Longrightarrow> commutes C_in_process n d"
  "ranked C_calls_back n \<Longrightarrow> commutes C_calls_back n d"
  "ranked C_produced n \<Longrightarrow> commutes C_produced n d"
  "ranked (C_tree tr) n \<Longrightarrow> commutes (C_tree tr) n d"
  "ranked (C_wire_value f c t ord s u) n \<Longrightarrow> commutes (C_wire_value f c t ord s u) n d"
  "ranked (C_words p e) n \<Longrightarrow> commutes (C_words p e) n d"
  "ranked (C_needs hs) n \<Longrightarrow> commutes (C_needs hs) n d"
  by (cases d; cases n; simp add: ranked_def clash_def commutes_def)+

lemma ranked_commutes: "mark_rank m \<noteq> 2 \<Longrightarrow> ranked m n \<Longrightarrow> commutes m n d"
  by (cases m) (simp_all add: mark_commutes)

lemma no_binding_commute:
  assumes "mark_rank m \<noteq> 2" "mark_rank n \<noteq> 2" "\<not> clash m n"
  shows "res_bind (apply_class_mark m d) (apply_class_mark n) = res_bind (apply_class_mark n d) (apply_class_mark m)"
proof (cases "mark_rank m < mark_rank n")
  case True
  then show ?thesis using ranked_commutes[of m n d] assms by (simp add: ranked_def commutes_def)
next
  case False
  then have "ranked n m" using assms by (auto simp: ranked_def clash_def)
  then show ?thesis using ranked_commutes[of n m d] assms by (simp add: commutes_def)
qed

lemma binding_commute:
  "mark_rank n \<noteq> 2 \<Longrightarrow> res_bind (apply_class_mark (C_binding c t h b v l) d) (apply_class_mark n) =
     res_bind (apply_class_mark n d) (apply_class_mark (C_binding c t h b v l))"
  by (cases "threading_of t"; cases n; simp)

lemma apply_commute:
  "\<not> clash m n \<Longrightarrow> res_bind (apply_class_mark m d) (apply_class_mark n) = res_bind (apply_class_mark n d) (apply_class_mark m)"
proof (cases "mark_rank m = 2 \<or> mark_rank n = 2")
  case True
  assume c: "\<not> clash m n"
  show ?thesis
  proof (cases "mark_rank m = 2")
    case True
    then have "mark_rank n \<noteq> 2" using c by (auto simp: clash_def)
    with True show ?thesis by (cases m; simp add: binding_commute del: apply_class_mark.simps)
  next
    case False
    with \<open>mark_rank m = 2 \<or> mark_rank n = 2\<close> show ?thesis by (cases n; simp add: binding_commute del: apply_class_mark.simps)
  qed
qed (use no_binding_commute in blast)

definition mark_step :: "class_mark \<Rightarrow> exn + decl \<Rightarrow> exn + decl" where
  "mark_step m r = res_bind r (apply_class_mark m)"

lemma class_marked_steps: "class_marked ms d = foldr mark_step ms (Inr d)"
  by (simp add: class_marked_def mark_step_def[abs_def])

lemma mark_step_commute: "\<not> clash m n \<Longrightarrow> mark_step m (mark_step n r) = mark_step n (mark_step m r)"
  by (cases r) (simp_all add: mark_step_def apply_commute[of m n])

lemma clash_sym: "clash m n \<Longrightarrow> clash n m"
  by (auto simp: clash_def)

lemma mark_to_front: "(\<forall>x\<in>set xs. \<not> clash m x) \<Longrightarrow> foldr mark_step (xs @ m # ys) r = foldr mark_step (m # xs @ ys) r"
  by (induction xs) (auto simp: mark_step_commute dest: clash_sym)

definition calm :: "class_mark multiset \<Rightarrow> bool" where
  "calm M \<longleftrightarrow> (\<forall>m\<in>#M. \<forall>n\<in>#M - {#m#}. \<not> clash m n)"

lemma calm_add: "calm (add_mset m M) \<Longrightarrow> calm M \<and> (\<forall>n\<in>#M. \<not> clash m n)"
  unfolding calm_def by (auto split: if_splits)

lemma calm_order_free: "mset ms = mset ns \<Longrightarrow> calm (mset ms) \<Longrightarrow> foldr mark_step ms r = foldr mark_step ns r"
proof (induction ms arbitrary: ns)
  case (Cons m ms)
  from Cons.prems(1) have "m \<in> set ns" by (metis list.set_intros(1) mset_eq_setD)
  then obtain xs ys where ns: "ns = xs @ m # ys" by (auto simp: in_set_conv_decomp)
  with Cons.prems(1) have eq: "mset ms = mset (xs @ ys)" by simp
  have c: "calm (mset ms)" "\<forall>n\<in>set ms. \<not> clash m n" using calm_add[of m "mset ms"] Cons.prems(2) by auto
  have "set xs \<subseteq> set ms" using mset_eq_setD[OF eq] by auto
  with c(2) have "foldr mark_step ns r = foldr mark_step (m # xs @ ys) r" unfolding ns by (intro mark_to_front) blast
  then show ?case using Cons.IH[OF eq c(1)] by simp
qed simp

definition class_names :: "string list" where
  "class_names = [''abstract'', ''tagged'', ''binding'', ''builds'', ''custom'', ''gc_slots'', ''header'', ''in_process'',
     ''calls_back'', ''produced'', ''tree'', ''wire_value'', ''words'', ''needs'']"

lemma mark_named: "class_mark_name m = class_names ! mark_rank m" "mark_rank m < 14"
  by (cases m; simp add: class_names_def)+

lemma once_names: "i < 13 \<Longrightarrow> only_once (class_names ! i)"
proof -
  have "\<forall>i\<in>set [0..<13]. only_once (class_names ! i)" by code_simp
  then show "i < 13 \<Longrightarrow> only_once (class_names ! i)" by simp
qed

lemma stack_calm:
  assumes "markers_ok k (class_stack l ms)"
  shows "calm (mset (filter (\<lambda>m. \<not> is_needs m) ms))"
  unfolding calm_def
proof (intro ballI)
  fix m n assume m0: "m \<in># mset (filter (\<lambda>m. \<not> is_needs m) ms)" and n0: "n \<in># mset (filter (\<lambda>m. \<not> is_needs m) ms) - {#m#}"
  then have m: "m \<in> set ms" and r: "mark_rank m \<noteq> 13" by auto
  from m obtain xs ys where ms: "ms = xs @ m # ys" by (auto simp: in_set_conv_decomp)
  have "n \<in># mset (filter (\<lambda>m. \<not> is_needs m) (xs @ ys))" using n0 r unfolding ms by simp
  then have nin: "n \<in> set (xs @ ys)" by auto
  have d: "distinct (filter only_once (map class_mark_name ms))"
    using assms by (simp add: markers_ok_def class_stack_names)
  have same: False if "mark_rank m = mark_rank n"
  proof -
    have nm: "class_mark_name n = class_mark_name m" "only_once (class_mark_name m)"
      using that r mark_named[of m] mark_named[of n] once_names[of "mark_rank m"] by auto
    have "class_mark_name m \<in> class_mark_name ` set (xs @ ys)" using nin nm(1) by (metis image_eqI)
    with nm(2) have "class_mark_name m \<in> set (filter only_once (map class_mark_name (xs @ ys)))" unfolding set_filter set_map by blast
    then show False using d nm(2) ms by auto
  qed
  have both: "class_mark_name m \<in> class_mark_name ` set ms" "class_mark_name n \<in> class_mark_name ` set ms"
    using ms nin by auto
  have wire: False if w: "''in_process'' \<in> class_mark_name ` set ms" "''wire_value'' \<in> class_mark_name ` set ms"
  proof -
    have t: "''wire_value'' \<in> set (excludes_of ''in_process'')" "dict_get MARKERS ''in_process'' \<noteq> None"
      "dict_get MARKERS ''wire_value'' \<noteq> None" by code_simp+
    have "''in_process'' \<in> markers_in (class_stack l ms)" "''wire_value'' \<in> markers_in (class_stack l ms)"
      unfolding class_stack_markers using w t(2,3) by blast+
    then show False using assms t(1) unfolding markers_ok_def by blast
  qed
  have nth: "class_names ! 7 = ''in_process''" "class_names ! 11 = ''wire_value''" by code_simp+
  have "\<not> (mark_rank m = 7 \<and> mark_rank n = 11)" "\<not> (mark_rank m = 11 \<and> mark_rank n = 7)"
    using wire both mark_named(1)[of m] mark_named(1)[of n] nth by (metis)+
  then show "\<not> clash m n" unfolding clash_def using same by blast
qed

text \<open>The \<open>needs\<close> of a stack only write the headers, and the highest of them last.\<close>

definition with_headers :: "string list \<Rightarrow> exn + decl \<Rightarrow> exn + decl" where
  "with_headers hs r = res_bind r (\<lambda>d. Inr (d\<lparr>dc_headers := hs\<rparr>))"

lemma with_headers_twice: "with_headers h (with_headers h' r) = with_headers h r"
  by (cases r) (simp_all add: with_headers_def)

lemma step_needs: "mark_step (C_needs hs) r = with_headers hs r"
  by (cases r) (simp_all add: mark_step_def with_headers_def)

lemma step_headers: "\<not> is_needs m \<Longrightarrow> mark_step m (with_headers hs r) = with_headers hs (mark_step m r)"
  by (cases r; cases m) (auto simp: mark_step_def with_headers_def threading_of_def)

lemma headers_apart: "foldr mark_step ms (Inr d) = (if list_ex is_needs ms then
    with_headers (class_headers ms) (foldr mark_step (filter (\<lambda>m. \<not> is_needs m) ms) (Inr d))
  else foldr mark_step (filter (\<lambda>m. \<not> is_needs m) ms) (Inr d))"
proof (induction ms)
  case (Cons m ms)
  show ?case
  proof (cases "is_needs m")
    case True
    then obtain hs where "m = C_needs hs" by (cases m) simp_all
    then show ?thesis using Cons by (auto simp: step_needs with_headers_twice)
  next
    case False
    then have "class_headers (m # ms) = class_headers ms" by (cases m) simp_all
    then show ?thesis using False Cons by (auto simp: step_headers)
  qed
qed simp

lemma class_headers_first: "class_headers ms = (case filter is_needs ms of [] \<Rightarrow> [] | m # _ \<Rightarrow> class_headers [m])"
proof (induction ms)
  case (Cons m ms)
  then show ?case by (cases m) simp_all
qed simp

lemma kept_headers: "\<forall>m\<in>set ms. \<not> is_needs m \<Longrightarrow> foldr mark_step ms (Inr d) = with_headers (dc_headers d) (foldr mark_step ms (Inr d))"
proof (induction ms)
  case (Cons m ms)
  then show ?case using step_headers[of m "dc_headers d"] by (metis foldr_Cons comp_apply list.set_intros)
qed (simp add: with_headers_def)

lemma marked_parts: "class_marked ms new_decl = with_headers (class_headers ms) (foldr mark_step (filter (\<lambda>m. \<not> is_needs m) ms) (Inr new_decl))"
proof (cases "list_ex is_needs ms")
  case False
  then have "filter is_needs ms = []" by (simp add: list_ex_iff filter_empty_conv)
  then have "class_headers ms = []" by (simp add: class_headers_first)
  then show ?thesis using False kept_headers[of "filter (\<lambda>m. \<not> is_needs m) ms" new_decl]
    by (simp add: class_marked_steps headers_apart new_decl_def)
qed (simp add: class_marked_steps headers_apart)

text \<open>C11. A legal stack of class decorators is legal in every order, and every order of it writes the same declaration but for
  the headers, which are those of the highest \<open>needs\<close>, the lower ones' being lost. With one \<open>needs\<close> or none the
  declaration is the same whole.\<close>

theorem class_order_free:
  assumes "mset ms = mset ns" "check_markers On_class (class_stack l ms) = Inr ()"
  shows "check_markers On_class (class_stack l ns) = Inr () \<and>
    class_marked ns new_decl = res_bind (class_marked ms new_decl) (\<lambda>d. Inr (d\<lparr>dc_headers := class_headers ns\<rparr>)) \<and>
    (length (filter is_needs ms) \<le> 1 \<longrightarrow> class_marked ns new_decl = class_marked ms new_decl)"
proof -
  have ok: "markers_ok On_class (class_stack l ms)" using assms(2) by (simp add: markers_checked)
  have legal: "check_markers On_class (class_stack l ns) = Inr ()"
    using stack_order_free[OF assms(1), of On_class l l] ok by (simp add: markers_checked)
  have "mset (filter (\<lambda>m. \<not> is_needs m) ms) = mset (filter (\<lambda>m. \<not> is_needs m) ns)" using assms(1) by (simp add: mset_filter)
  from calm_order_free[OF this stack_calm[OF ok]]
  have same: "foldr mark_step (filter (\<lambda>m. \<not> is_needs m) ms) r = foldr mark_step (filter (\<lambda>m. \<not> is_needs m) ns) r" for r .
  have head: "class_headers ms = class_headers ns" if "length (filter is_needs ms) \<le> 1"
  proof -
    have m: "mset (filter is_needs ns) = mset (filter is_needs ms)" using assms(1) by (simp add: mset_filter)
    have "filter is_needs ns = filter is_needs ms"
    proof (cases "filter is_needs ms")
      case (Cons x xs)
      then have "filter is_needs ms = [x]" using that by simp
      then show ?thesis using mset_single[of "filter is_needs ns" x] m by simp
    qed (use m in \<open>simp del: mset_filter\<close>)
    then show ?thesis by (simp add: class_headers_first)
  qed
  have eq: "class_marked ns new_decl = with_headers (class_headers ns) (class_marked ms new_decl)"
    by (simp add: marked_parts with_headers_twice same)
  have "class_marked ns new_decl = class_marked ms new_decl" if "length (filter is_needs ms) \<le> 1"
    using head[OF that] by (simp add: marked_parts same)
  then show ?thesis using legal eq by (simp add: with_headers_def)
qed

definition demo_stack :: "class_mark list" where
  "demo_stack = [C_produced, C_needs [''c.hh''], C_binding ''nix::X'' ''pool'' [] False [] [], C_needs [''b.hh''],
     C_header ''a.hh'', C_wire_value [PNamed ''path''] ''parts'' ''path'' True [] False]"

lemma demo_stack_legal: "check_markers On_class (class_stack 3 demo_stack) = Inr ()"
  by code_simp

lemma class_order_free_witness:
  "check_markers On_class (class_stack 3 (rev demo_stack)) = Inr () \<and>
   class_marked (rev demo_stack) new_decl = res_bind (class_marked demo_stack new_decl) (\<lambda>d. Inr (d\<lparr>dc_headers := [''b.hh'']\<rparr>)) \<and>
   check_markers On_class (class_stack 3 (rev (tl demo_stack))) = Inr () \<and>
   class_marked (rev (tl (tl demo_stack))) new_decl = class_marked (tl (tl demo_stack)) new_decl"
proof -
  have "check_markers On_class (class_stack 3 (tl demo_stack)) = Inr ()" "check_markers On_class (class_stack 3 (tl (tl demo_stack))) = Inr ()"
    by code_simp+
  moreover have "class_headers (rev demo_stack) = [''b.hh'']" "length (filter is_needs (tl (tl demo_stack))) \<le> 1"
    by (simp_all add: demo_stack_def)
  ultimately show ?thesis
    using class_order_free[OF _ demo_stack_legal, of "rev demo_stack"] class_order_free[of "tl demo_stack" "rev (tl demo_stack)" 3]
      class_order_free[of "tl (tl demo_stack)" "rev (tl (tl demo_stack))" 3] by (metis mset_rev)
qed

text \<open>What the check lets pass and the read then loses. \<open>needs\<close> may stack, and each assigns, so the lower one's headers are
  gone. A marker above \<open>staticmethod\<close> is legal and writes on the descriptor, where \<open>_method\<close> does not look.\<close>

lemma stacked_needs_lost:
  "check_markers On_class (class_stack 1 [C_needs [''a.hh''], C_needs [''b.hh'']]) = Inr () \<and>
   class_marked [C_needs [''a.hh''], C_needs [''b.hh'']] new_decl = Inr (new_decl\<lparr>dc_headers := [''a.hh'']\<rparr>)"
  by code_simp

lemma above_static_lost:
  "check_markers On_method [written_deco 1 (Marked (M_needs [''a.hh''])), written_deco 2 As_static] = Inr () \<and>
   map_option ms_needs (case decorated [Marked (M_needs [''a.hh'']), As_static] of Inl e \<Rightarrow> None | Inr h \<Rightarrow> under h) = Some [] \<and>
   map_option ms_needs (case decorated [As_static, Marked (M_needs [''a.hh''])] of Inl e \<Rightarrow> None | Inr h \<Rightarrow> under h) = Some [''a.hh'']"
  by code_simp

end
