(* ===== verification/Decl_File.thy ===== *)
theory Decl_File
  imports Marks
begin

text \<open>
  A declaration file as \<open>read.py\<close> reads it: its syntax tree, what its import left, and how the two are brought together
  (\<open>_definitions\<close>, \<open>_reconcile\<close>, \<open>_resolve\<close>, \<open>_assignments\<close>). Expressions are kept as far as the reader looks at them, and
  positions are lines.
\<close>

subsection \<open>The tree\<close>

datatype def_kind = Class_def | Func_def | Async_def

text \<open>A statement's expression: a string, \<open>...\<close>, a call of \<open>Cxx\<close> with the text of each argument that is a constant and the line
  of the first, or anything else.\<close>

datatype body_expr = E_str string | E_ellipsis | E_cxx "string option list" nat | E_else

datatype stmt =
    S_def dnode
  | S_if nat "stmt list" "stmt list"
  | S_assign nat "string option list" "string option" \<comment> \<open>its targets that are plain names, and its value when it is a string\<close>
  | S_annotated nat "string option" \<comment> \<open>an annotated or an augmented assignment\<close>
  | S_expr nat body_expr
  | S_import nat "(string \<times> string) list" \<comment> \<open>each name, and what it is imported as or empty\<close>
  | S_from nat string "(string \<times> string) list"
  | S_block nat "stmt list" "stmt list" \<comment> \<open>any other statement that holds statements\<close>
  | S_else nat
and dnode = Dnode (nd_kind: def_kind) (nd_name: string) (nd_line: nat) (nd_decos: "deco list")
    (nd_args: "(string \<times> nat) list") (nd_returns: "nat option") (nd_body: "stmt list")

fun stmt_line :: "stmt \<Rightarrow> nat" where
  "stmt_line (S_def n) = nd_line n"
| "stmt_line (S_if l b e) = l"
| "stmt_line (S_assign l ts v) = l"
| "stmt_line (S_annotated l t) = l"
| "stmt_line (S_expr l e) = l"
| "stmt_line (S_import l ns) = l"
| "stmt_line (S_from l m ns) = l"
| "stmt_line (S_block l b e) = l"
| "stmt_line (S_else l) = l"

fun body_of :: "stmt \<Rightarrow> stmt list" where
  "body_of (S_def n) = nd_body n"
| "body_of (S_if l b e) = b"
| "body_of (S_block l b e) = b"
| "body_of s = []"

fun orelse_of :: "stmt \<Rightarrow> stmt list" where
  "orelse_of (S_if l b e) = e"
| "orelse_of (S_block l b e) = e"
| "orelse_of s = []"

text \<open>\<open>ast.walk\<close>: breadth first.\<close>

lemma kids_smaller: "size_list size (body_of s) + size_list size (orelse_of s) < Suc (size s)"
proof (cases s)
  case (S_def n)
  then show ?thesis by (cases n) simp
qed simp_all

function tree_walk :: "stmt list \<Rightarrow> stmt list" where
  "tree_walk [] = []"
| "tree_walk (s # todo) = s # tree_walk (todo @ body_of s @ orelse_of s)"
  by pat_completeness auto
termination
proof (relation "measure (size_list size)")
  fix s and todo :: "stmt list"
  show "(todo @ body_of s @ orelse_of s, s # todo) \<in> measure (size_list size)"
    using kids_smaller[of s] by simp
qed simp

fun def_of :: "stmt \<Rightarrow> dnode option" where
  "def_of (S_def n) = Some n"
| "def_of s = None"

definition defs_in :: "stmt list \<Rightarrow> dnode list" where
  "defs_in ss = List.map_filter def_of (tree_walk ss)"

definition first_line :: "dnode \<Rightarrow> nat" where
  "first_line n = (case nd_decos n of [] \<Rightarrow> nd_line n | d # ds \<Rightarrow> de_line d)"

definition own_lines :: "dnode \<Rightarrow> nat list" where
  "own_lines n = nd_line n # map de_line (nd_decos n)"

definition is_docstring :: "stmt \<Rightarrow> bool" where
  "is_docstring s \<longleftrightarrow> (case s of S_expr l (E_str t) \<Rightarrow> True | _ \<Rightarrow> False)"

text \<open>The names of plain assignments, the last one of a name, with their line; those of a class body are not the file's.\<close>

fun assigned_in :: "stmt list \<Rightarrow> (string \<times> nat) list" where
  "assigned_in [] = []"
| "assigned_in (S_assign l [Some n] v # ss) = (n, l) # assigned_in ss"
| "assigned_in (s # ss) = assigned_in ss"

definition assignments :: "stmt list \<Rightarrow> (string, nat) dict" where
  "assignments tree = fold (\<lambda>(n, l) d. dict_set n l d)
     (assigned_in tree @ concat (map (\<lambda>s. case s of S_def n \<Rightarrow> if nd_kind n = Class_def then [] else assigned_in (nd_body n)
        | _ \<Rightarrow> assigned_in (body_of s) @ assigned_in (orelse_of s)) (tree_walk tree))) []"

definition binder_line :: "stmt \<Rightarrow> string \<Rightarrow> nat" where
  "binder_line tree name = (case List.find (\<lambda>s. case s of S_def n \<Rightarrow> nd_name n = name
       | S_assign l ts v \<Rightarrow> Some name \<in> set ts | S_annotated l t \<Rightarrow> t = Some name | _ \<Rightarrow> False) (tree_walk [tree]) of
     None \<Rightarrow> stmt_line tree | Some s \<Rightarrow> stmt_line s)"

definition before_dot :: "string \<Rightarrow> string" where
  "before_dot s = takeWhile (\<lambda>c. c \<noteq> CHR ''.'') s"

definition imported_names :: "stmt list \<Rightarrow> string list" where
  "imported_names tree = concat (map (\<lambda>s. case s of
       S_import l ns \<Rightarrow> map (\<lambda>(n, as). if as = [] then before_dot n else as) ns
     | S_from l m ns \<Rightarrow> map (\<lambda>(n, as). if as = [] then before_dot n else as) ns
     | _ \<Rightarrow> []) (tree_walk tree))"

subsection \<open>The import\<close>

text \<open>A parameter of \<open>inspect.signature\<close>: whether it is positional or by keyword, its annotation and its default.\<close>

record fparam =
  fp_name :: string
  fp_plain :: bool
  fp_ann :: "ann option"
  fp_default :: "pyval option"

text \<open>A function, with its place, and the definitions of its name that \<open>typing.overload\<close> kept.\<close>

datatype pyfn = Pyfn (pf_name: string) (pf_line: nat) (pf_file: string) (pf_params: "fparam list") (pf_ret: "ann option")
    (pf_marks: marks) (pf_overloads: "pyfn list")

datatype member = Mem_fn "pyfn held" | Mem_str string | Mem_other string

record pybase =
  ba_name :: string
  ba_module :: string
  ba_declared :: bool \<comment> \<open>whether a class decorator marked it\<close>

text \<open>A class: \<open>vars\<close> of it, what its decorators wrote, its bases, whether it is an exception, and what attribute lookup, which
  follows the bases, finds for \<open>_wire_fields\<close> and \<open>reader\<close>.\<close>

record pytype =
  pt_name :: string
  pt_module :: string
  pt_line :: nat
  pt_vars :: "(string \<times> member) list"
  pt_decl :: "decl option"
  pt_bases :: "pybase list"
  pt_exception :: bool
  pt_fields :: "(string \<times> ann) list"
  pt_reader :: string

text \<open>An arm of a union alias: a class, an \<open>Annotated\<close> alias, None, or anything else by its name.\<close>

datatype alias_arm = U_class pyclass | U_alias pyclass "ann_meta list" | U_none | U_named string

datatype pyobj =
    O_fn "pyfn held"
  | O_class pytype
  | O_union "alias_arm list" "variant list"
  | O_other string

record imported_module =
  im_home :: home
  im_globals :: "(string \<times> pyobj) list"

record source_file =
  sf_here :: string \<comment> \<open>its resolved path\<close>
  sf_tree :: "stmt list"
  sf_import :: "string + imported_module" \<comment> \<open>why it does not import, or the module\<close>

definition dunder :: "string \<Rightarrow> bool" where
  "dunder n \<longleftrightarrow> take 2 n = ''__'' \<and> drop (length n - 2) n = ''__''"

definition written :: "string \<Rightarrow> pyfn held \<Rightarrow> pyfn option" where
  "written here h = (case under h of None \<Rightarrow> None
     | Some f \<Rightarrow> if pf_file f \<noteq> here \<or> pf_name f = ''__annotate__'' then None else Some f)"

definition note_fn :: "string \<Rightarrow> pyfn held \<Rightarrow> (nat, pyobj) dict \<Rightarrow> (nat, pyobj) dict" where
  "note_fn here h out = (case written here h of None \<Rightarrow> out
     | Some f \<Rightarrow> fold (\<lambda>one d. dict_set (pf_line one) (O_fn (H_fn one)) d) (pf_overloads f) (dict_set (pf_line f) (O_fn h) out))"

definition note_member :: "string \<Rightarrow> string \<times> member \<Rightarrow> (nat, pyobj) dict \<Rightarrow> (nat, pyobj) dict" where
  "note_member here p out = (case snd p of Mem_fn h \<Rightarrow> note_fn here h out | _ \<Rightarrow> out)"

definition note_global :: "string \<Rightarrow> string \<Rightarrow> string \<times> pyobj \<Rightarrow> (nat, pyobj) dict \<Rightarrow> (nat, pyobj) dict" where
  "note_global here name p out = (case snd p of
       O_fn h \<Rightarrow> note_fn here h out
     | O_class t \<Rightarrow> if pt_module t = name then fold (note_member here) (pt_vars t) (dict_set (pt_line t) (O_class t) out) else out
     | _ \<Rightarrow> out)"

text \<open>\<open>_definitions\<close>: every class and function the import kept, by its first line.\<close>

definition definitions :: "string \<Rightarrow> imported_module \<Rightarrow> (nat, pyobj) dict" where
  "definitions here m = fold (note_global here (hm_name (im_home m))) (im_globals m) []"

subsection \<open>Bringing the two together\<close>

definition refused :: "string \<Rightarrow> nat \<Rightarrow> string \<Rightarrow> string list \<Rightarrow> stop + 'a" where
  "refused path line text about = Inl (Refused path (Some line, Remark text about))"

definition unbranched :: "stmt list \<Rightarrow> dnode list" where
  "unbranched tree = (let top = List.map_filter def_of tree in
     top @ concat (map (\<lambda>n. if nd_kind n = Class_def then List.map_filter def_of (nd_body n) else []) top))"

definition orphans :: "stmt list \<Rightarrow> nat list \<Rightarrow> nat list" where
  "orphans tree live = filter (\<lambda>l. l \<notin> set (concat (map own_lines (defs_in tree)))) live"

definition reconcile :: "string \<Rightarrow> stmt list \<Rightarrow> nat list \<Rightarrow> stop + unit" where
  "reconcile path tree live = (if live = [] then Inr ()
     else (case List.find (\<lambda>n. set (own_lines n) \<inter> set live = {}) (unbranched tree) of
         Some n \<Rightarrow> refused path (nd_line n) ''the import kept nothing at its line'' [nd_name n]
       | None \<Rightarrow> if orphans tree live \<noteq> [] then Inl (Refused path (None, Remark ''the tree has no node there'' []))
           else Inr ()))"

text \<open>\<open>_resolve\<close>: the statements of a body with the arms the import chose, and no \<open>if\<close>.\<close>

fun resolve_stmt :: "nat list \<Rightarrow> stmt \<Rightarrow> stmt list" where
  "resolve_stmt live (S_if l b e) = concat (map (resolve_stmt live) b) @ concat (map (resolve_stmt live) e)"
| "resolve_stmt live (S_def n) = (if set (own_lines n) \<inter> set live \<noteq> {} then [S_def n] else [])"
| "resolve_stmt live s = [s]"

definition choose_arms :: "stmt list \<Rightarrow> nat list \<Rightarrow> stmt list" where
  "choose_arms body live = concat (map (resolve_stmt live) body)"

text \<open>\<open>_chosen\<close>: the tree with its arms chosen, and the lines the import kept.\<close>

definition import_of :: "string \<Rightarrow> source_file \<Rightarrow> stop + imported_module" where
  "import_of path f = (case sf_import f of
       Inl why \<Rightarrow> Inl (Refused path (None, Remark ''the declaration does not import'' [why])) | Inr m \<Rightarrow> Inr m)"

definition chosen :: "string \<Rightarrow> source_file \<Rightarrow> stop + stmt list \<times> nat list" where
  "chosen path f = sum_bind (import_of path f) (\<lambda>m. let live = dict_keys (definitions (sf_here f) m) in
     sum_bind (reconcile path (sf_tree f) live) (\<lambda>_. Inr (choose_arms (sf_tree f) live, live)))"

end
