(* ===== verification/Reader.thy ===== *)
theory Reader
  imports Decl_File
begin

text \<open>
  The reading of declarations (\<open>read.py\<close>): a function, a class, a vocabulary, an exception, a union, a file with the files it
  imports, and the set of all of them (\<open>corpus.py\<close>). A record holds what the generator asks of it; docstrings, headers and the
  words of a vocabulary are checked and not kept.
\<close>

subsection \<open>Bodies\<close>

record cxx_body =
  cb_text :: string
  cb_path :: string
  cb_line :: nat

definition white :: "char \<Rightarrow> bool" where
  "white c \<longleftrightarrow> (let n = (of_char c :: nat) in 9 \<le> n \<and> n \<le> 13 \<or> 28 \<le> n \<and> n \<le> 32 \<or> n = 133 \<or> n = 160)"

definition MARK :: string where "MARK = ''/huggorm_decl/''"

text \<open>\<open>_source\<close>: the path from the last mark on.\<close>

definition source_name :: "string \<Rightarrow> string" where
  "source_name path = (case filter (\<lambda>i. take (length MARK) (drop i path) = MARK) [0..<length path] of
     [] \<Rightarrow> path | is \<Rightarrow> drop (Suc (last is)) path)"

definition cxx_call :: "string \<Rightarrow> stmt \<Rightarrow> stop + cxx_body option" where
  "cxx_call path s = (case s of
       S_expr l (E_cxx [Some t] at) \<Rightarrow> Inr (Some \<lparr>cb_text = t, cb_path = source_name path,
          cb_line = at + length (filter (\<lambda>c. c = CHR 0x0A) (takeWhile white t))\<rparr>)
     | S_expr l (E_cxx args at) \<Rightarrow> refused path l ''Cxx() takes one string literal'' []
     | _ \<Rightarrow> Inr None)"

text \<open>\<open>_body\<close>: a docstring first, then at most one \<open>Cxx\<close>, and \<open>...\<close> anywhere.\<close>

fun body_stmts :: "string \<Rightarrow> bool \<Rightarrow> cxx_body option \<Rightarrow> stmt list \<Rightarrow> stop + cxx_body option" where
  "body_stmts path start seen [] = Inr seen"
| "body_stmts path start seen (s # ss) =
     (if start \<and> is_docstring s then body_stmts path False seen ss
      else if (case s of S_if l b e \<Rightarrow> True | _ \<Rightarrow> False) then refused path (stmt_line s) ''a body holds no version test'' []
      else sum_bind (cxx_call path s) (\<lambda>c. case c of
          Some b \<Rightarrow> if seen \<noteq> None then refused path (stmt_line s) ''one Cxx per body'' [] else body_stmts path False (Some b) ss
        | None \<Rightarrow> if (case s of S_expr l E_ellipsis \<Rightarrow> True | _ \<Rightarrow> False) then body_stmts path False seen ss
            else refused path (stmt_line s) ''neither a docstring nor Cxx'' []))"

definition read_body :: "string \<Rightarrow> dnode \<Rightarrow> stop + cxx_body option" where
  "read_body path n = body_stmts path True None (nd_body n)"

subsection \<open>Functions\<close>

text \<open>What the reader is given of the world: the files, and of a class the words of a vocabulary, when it is one.\<close>

record world =
  wd_files :: "(string, source_file) dict"
  wd_words :: "pyclass \<Rightarrow> (string \<times> string) list option"

text \<open>Whether \<open>ast.literal_eval(repr(value)) == value\<close>; the keys of a dictionary are taken to be literals.\<close>

fun is_literal :: "pyval \<Rightarrow> bool" where
  "is_literal (PFloat b) = ((b div 2 ^ 52) mod 2048 \<noteq> 2047)"
| "is_literal (PTimedelta t) = False"
| "is_literal (PPath p) = False"
| "is_literal (PEnum c v) = False"
| "is_literal (PObj ob) = False"
| "is_literal (PList vs) = list_all is_literal vs"
| "is_literal (PTuple vs) = list_all is_literal vs"
| "is_literal (PDict kvs) = list_all (\<lambda>(k, v). is_literal v) kvs"
| "is_literal v = True"

definition writable_default :: "string \<Rightarrow> pyval \<Rightarrow> nat \<Rightarrow> string list \<Rightarrow> stop + unit" where
  "writable_default path v line about = (case v of
       PList vs \<Rightarrow> refused path line ''a mutable default'' about
     | PDict kvs \<Rightarrow> refused path line ''a mutable default'' about
     | _ \<Rightarrow> if is_literal v then Inr () else refused path line ''default is not a literal'' about)"

text \<open>\<open>_member\<close>: the first word of a vocabulary with the value.\<close>

definition word_named :: "world \<Rightarrow> pyclass \<Rightarrow> string \<Rightarrow> string" where
  "word_named w c v = (case wd_words w c of None \<Rightarrow> []
     | Some ws \<Rightarrow> (case List.find (\<lambda>p. take 1 (fst p) \<noteq> ''_'' \<and> snd p = v) ws of None \<Rightarrow> [] | Some p \<Rightarrow> fst p))"

definition word_member :: "world \<Rightarrow> ann \<Rightarrow> pyval option \<Rightarrow> string" where
  "word_member w a v = (case (a, v) of
       (A_class c, Some (PStr x)) \<Rightarrow> word_named w c x
     | (A_class c, Some (PEnum e x)) \<Rightarrow> word_named w c x
     | _ \<Rightarrow> [])"

definition type_at :: "string \<Rightarrow> home \<Rightarrow> ann \<Rightarrow> nat \<Rightarrow> stop + dtype" where
  "type_at path hm a line = map_sum (\<lambda>_. Refused path (Some line, Remark_type a)) id (type_of hm a)"

definition read_param :: "string \<Rightarrow> world \<Rightarrow> home \<Rightarrow> dnode \<Rightarrow> fparam \<Rightarrow> stop + param" where
  "read_param path w hm n p = (case dict_get (nd_args n) (fp_name p) of
       None \<Rightarrow> Inl (Crashed KeyError)
     | Some line \<Rightarrow> (case fp_ann p of
           None \<Rightarrow> refused path line ''every parameter states its type'' [nd_name n, fp_name p]
         | Some a \<Rightarrow> sum_bind (type_at path hm a line) (\<lambda>t.
             if fp_default p = Some PNone \<and> \<not> ty_optional t then refused path line ''a default of None needs None in the type'' [nd_name n, fp_name p]
             else let member = word_member w a (fp_default p) in
               sum_bind (case fp_default p of
                   Some v \<Rightarrow> if member = [] then writable_default path v line [nd_name n, fp_name p] else Inr ()
                 | None \<Rightarrow> Inr ()) (\<lambda>_.
               Inr \<lparr>pm_name = fp_name p, pm_type = t, pm_default = fp_default p, pm_member = member\<rparr>))))"

definition is_static :: "'f held \<Rightarrow> bool" where
  "is_static h \<longleftrightarrow> (case h of H_static g \<Rightarrow> True | _ \<Rightarrow> False)"

definition is_classmethod :: "'f held \<Rightarrow> bool" where
  "is_classmethod h \<longleftrightarrow> (case h of H_class g \<Rightarrow> True | _ \<Rightarrow> False)"

definition is_property :: "'f held \<Rightarrow> bool" where
  "is_property h \<longleftrightarrow> (case h of H_property g \<Rightarrow> True | _ \<Rightarrow> False)"

definition held_at :: "(nat, pyobj) dict \<Rightarrow> dnode \<Rightarrow> pyfn held option" where
  "held_at fns n = (case dict_get fns (first_line n) of Some (O_fn h) \<Rightarrow> Some h | _ \<Rightarrow> None)"

definition marked_meth :: "dnode \<Rightarrow> pyfn held \<Rightarrow> marks \<Rightarrow> param list \<Rightarrow> dtype option \<Rightarrow> bool \<Rightarrow> meth" where
  "marked_meth n h m ps r carried = \<lparr>mt_name = nd_name n, mt_params = ps, mt_ret = r, mt_blocks = ms_blocks m,
     mt_prop = is_property h, mt_reads = ms_reads m, mt_body = carried, mt_guard = ms_guard m, mt_names = ms_names m,
     mt_fills = ms_fills m, mt_local = ms_local m, mt_virtual = ms_virtual m, mt_posted = ms_posted m,
     mt_wire_read = ms_wire_read m, mt_spells = ms_spells m, mt_startup = ms_startup m, mt_translator = ms_translator m,
     mt_policy = ms_policy m, mt_subscription = ms_subscription m\<rparr>"

text \<open>\<open>_method\<close>: \<open>bound\<close> for a function whose first parameter is \<open>self\<close>, \<open>member\<close> for one that stands in a class.\<close>

definition method_shape :: "string \<Rightarrow> dnode \<Rightarrow> pyfn held option \<Rightarrow> bool \<Rightarrow> bool \<Rightarrow> stop + pyfn held \<times> pyfn" where
  "method_shape path n held bound member = (case Option.bind held under of
       None \<Rightarrow> refused path (nd_line n) ''the import has no function at this line'' [nd_name n]
     | Some f \<Rightarrow> (let h = the held; static = (\<not> bound \<and> member) in
         if static \<and> \<not> is_static h then refused path (nd_line n) ''a class member with no self is a staticmethod'' [nd_name n]
         else if (is_static h \<or> is_classmethod h) \<and> \<not> static then refused path (nd_line n) ''has no meaning in a declaration yet'' [nd_name n]
         else if list_ex (\<lambda>p. \<not> fp_plain p) (pf_params f) then refused path (nd_line n) ''takes plain positional parameters'' [nd_name n]
         else Inr (h, f)))"

definition read_ret :: "string \<Rightarrow> home \<Rightarrow> dnode \<Rightarrow> pyfn \<Rightarrow> stop + dtype option" where
  "read_ret path hm n f = (case (nd_returns n, pf_ret f) of
       (Some line, Some a) \<Rightarrow> map_sum id Some (type_at path hm a line) | _ \<Rightarrow> Inr None)"

definition read_method ::
  "string \<Rightarrow> world \<Rightarrow> home \<Rightarrow> (nat, pyobj) dict \<Rightarrow> dnode \<Rightarrow> bool \<Rightarrow> bool \<Rightarrow> stop + meth \<times> cxx_body option" where
  "read_method path w hm fns n bound member =
     sum_bind (method_shape path n (held_at fns n) bound member) (\<lambda>(h, f).
     sum_bind (map_sums (read_param path w hm n) (if bound then tl (pf_params f) else pf_params f)) (\<lambda>ps.
     sum_bind (read_ret path hm n f) (\<lambda>r.
     sum_bind (in_file path (check_markers (if member then On_method else On_free) (nd_decos n))) (\<lambda>_.
     if ms_reads (pf_marks f) \<noteq> [] \<and> ps \<noteq> [] then refused path (nd_line n) ''reads takes no parameters'' [nd_name n]
     else sum_bind (read_body path n) (\<lambda>b. Inr (marked_meth n h (pf_marks f) ps r (b \<noteq> None), b))))))"

subsection \<open>Vocabularies\<close>

text \<open>\<open>_members\<close>: the words with their values, in order. \<open>prev\<close> says a docstring may stand here: at the start, or after a
  word.\<close>

fun words_in :: "string \<Rightarrow> string \<Rightarrow> bool \<Rightarrow> stmt list \<Rightarrow> stop + (string \<times> string) list" where
  "words_in path name prev [] = Inr []"
| "words_in path name prev (S_assign l ts v # ss) = (case ts of
       [Some n] \<Rightarrow> (case v of Some x \<Rightarrow> sum_bind (words_in path name True ss) (\<lambda>ws. Inr ((n, x) # ws))
         | None \<Rightarrow> refused path l ''a word is a string'' [])
     | _ \<Rightarrow> refused path l ''a word is one plain assignment'' [])"
| "words_in path name prev (s # ss) =
     (if prev \<and> is_docstring s then words_in path name False ss
      else refused path (stmt_line s) ''a vocabulary holds words and their docstrings'' [name])"

definition read_members :: "string \<Rightarrow> dnode \<Rightarrow> stop + (string \<times> string) list" where
  "read_members path n = sum_bind (words_in path (nd_name n) True (nd_body n)) (\<lambda>ws.
     if ws = [] then refused path (nd_line n) ''a vocabulary with no words'' [nd_name n] else Inr ws)"

subsection \<open>Classes\<close>

definition FROM_PARTS :: string where "FROM_PARTS = ''_from_parts''"
definition DECLARED_DUNDERS :: "string list" where "DECLARED_DUNDERS = [''__call__'']"
definition one_definition :: "string \<Rightarrow> pyfn \<Rightarrow> (nat, dnode) dict \<Rightarrow> stop + unit" where
  "one_definition path f nodes = (case pf_overloads f of [] \<Rightarrow> Inr ()
     | e # es \<Rightarrow> (case dict_get nodes (pf_line e) of None \<Rightarrow> Inl (Crashed KeyError)
         | Some n \<Rightarrow> refused path (nd_line n) ''is overloaded'' [pf_name f]))"

definition by_first_line :: "dnode list \<Rightarrow> (nat, dnode) dict" where
  "by_first_line ns = fold (\<lambda>n d. dict_set (first_line n) n d) ns []"

definition node_of :: "(nat, dnode) dict \<Rightarrow> pyfn \<Rightarrow> stop + dnode" where
  "node_of nodes f = (case dict_get nodes (pf_line f) of None \<Rightarrow> Inl (Crashed KeyError) | Some n \<Rightarrow> Inr n)"

definition dotted :: "string \<Rightarrow> string \<Rightarrow> string" where
  "dotted c n = c @ ''.'' @ n"

text \<open>The members the import holds, each with its node; one that is neither a function of this file nor a name of Python's is
  reported.\<close>

definition class_item :: "string \<Rightarrow> string \<Rightarrow> dnode \<Rightarrow> (nat, dnode) dict \<Rightarrow> string \<times> member \<Rightarrow> dnode option read" where
  "class_item path here n nodes p = (case (case snd p of Mem_fn h \<Rightarrow> written here h | _ \<Rightarrow> None) of
       None \<Rightarrow> if dunder (fst p) \<or> fst p \<in> {''_decl'', ''_needs''} then ret_rd None
         else bind_rd (survive (Refused path (Some (binder_line (S_def n) (fst p)), Remark ''reaches no output'' [nd_name n, fst p]))
             (dotted (nd_name n) (fst p))) (\<lambda>_. ret_rd None)
     | Some f \<Rightarrow> of_sum (sum_bind (one_definition path f nodes) (\<lambda>_. map_sum id Some (node_of nodes f))))"

datatype class_part = P_ctor meth | P_from_parts "meth \<times> cxx_body option" | P_method meth

definition class_part ::
  "string \<Rightarrow> world \<Rightarrow> home \<Rightarrow> (nat, pyobj) dict \<Rightarrow> string \<Rightarrow> decl \<Rightarrow> dnode \<Rightarrow> class_part option read" where
  "class_part path w hm fns cls d n =
     (let about = dotted cls (nd_name n) in
      if nd_kind n = Async_def then
        bind_rd (survive (Refused path (Some (nd_line n), Remark ''async def says nothing here'' [cls, nd_name n])) about) (\<lambda>_. ret_rd None)
      else if nd_name n = FROM_PARTS then
        of_sum (sum_bind (read_method path w hm fns n False True) (\<lambda>mb.
          if mt_params (fst mb) \<noteq> [] then refused path (nd_line n) ''takes no parameters here'' [cls]
          else Inr (Some (P_from_parts mb))))
      else if nd_name n = ''__init__'' then
        of_sum (sum_bind (read_method path w hm fns n True True) (\<lambda>mb.
          if dc_factory d \<noteq> [] \<and> mt_params (fst mb) \<noteq> [] then refused path (nd_line n) ''the factory owns the signature'' [cls]
          else Inr (Some (P_ctor (fst mb)))))
      else if take 2 (nd_name n) = ''__'' \<and> nd_name n \<notin> set DECLARED_DUNDERS then
        bind_rd (survive (Refused path (Some (nd_line n), Remark ''reaches no emitter'' [cls, nd_name n])) about) (\<lambda>_. ret_rd None)
      else bind_rd (surviving (of_sum (read_method path w hm fns n True True)) about (ret_rd ()))
        (\<lambda>m. ret_rd (map_option (\<lambda>mb. P_method (fst mb)) m)))"

fun last_ctor :: "class_part option list \<Rightarrow> meth option" where
  "last_ctor [] = None"
| "last_ctor (Some (P_ctor m) # ps) = (case last_ctor ps of None \<Rightarrow> Some m | Some k \<Rightarrow> Some k)"
| "last_ctor (x # ps) = last_ctor ps"

fun last_from_parts :: "class_part option list \<Rightarrow> (meth \<times> cxx_body option) option" where
  "last_from_parts [] = None"
| "last_from_parts (Some (P_from_parts m) # ps) = (case last_from_parts ps of None \<Rightarrow> Some m | Some k \<Rightarrow> Some k)"
| "last_from_parts (x # ps) = last_from_parts ps"

fun methods_in :: "class_part option list \<Rightarrow> meth list" where
  "methods_in [] = []"
| "methods_in (Some (P_method m) # ps) = m # methods_in ps"
| "methods_in (x # ps) = methods_in ps"

text \<open>\<open>_mentions\<close>: the identifiers of a body, the longest at each place.\<close>

definition ident_start :: "char \<Rightarrow> bool" where
  "ident_start c \<longleftrightarrow> (let n = (of_char c :: nat) in 65 \<le> n \<and> n \<le> 90 \<or> 97 \<le> n \<and> n \<le> 122 \<or> n = 95)"

definition ident_char :: "char \<Rightarrow> bool" where
  "ident_char c \<longleftrightarrow> ident_start c \<or> (let n = (of_char c :: nat) in 48 \<le> n \<and> n \<le> 57)"

function words_of_text :: "string \<Rightarrow> string list" where
  "words_of_text [] = []"
| "words_of_text (c # cs) = (if ident_start c then (c # takeWhile ident_char cs) # words_of_text (dropWhile ident_char cs)
     else words_of_text cs)"
  by pat_completeness auto
termination by (relation "measure length") (auto simp: le_imp_less_Suc length_dropWhile_le)

definition mentions :: "string \<Rightarrow> nat \<Rightarrow> dclass \<Rightarrow> cxx_body option \<Rightarrow> stop + unit" where
  "mentions path line c b = (let seen = words_of_text (case b of None \<Rightarrow> [] | Some x \<Rightarrow> cb_text x) in
     sum_bind (crash_free (parts c)) (\<lambda>ps. case List.find (\<lambda>p. fst (fst p) \<notin> set seen) ps of
       None \<Rightarrow> Inr () | Some p \<Rightarrow> refused path line ''never mentions'' [kl_name c, fst (fst p)]))"

definition STR_ENUM :: pybase where "STR_ENUM = \<lparr>ba_name = ''StrEnum'', ba_module = ''enum'', ba_declared = False\<rparr>"
definition OBJECT :: pybase where "OBJECT = \<lparr>ba_name = ''object'', ba_module = ''builtins'', ba_declared = False\<rparr>"

definition check_bases :: "string \<Rightarrow> dnode \<Rightarrow> decl \<Rightarrow> pytype \<Rightarrow> stop + unit" where
  "check_bases path n d t =
     (if dc_kind d = WORDS_KIND then (if pt_bases t \<noteq> [STR_ENUM] then refused path (nd_line n) ''a vocabulary is a StrEnum'' [nd_name n] else Inr ())
      else if pt_bases t \<noteq> [OBJECT] then (case pt_bases t of
          [b] \<Rightarrow> if \<not> ba_declared b \<or> dc_wire d \<noteq> By_local then refused path (nd_line n) ''only an in_process class has a base'' [nd_name n] else Inr ()
        | _ \<Rightarrow> refused path (nd_line n) ''only an in_process class has a base'' [nd_name n])
      else Inr ())"

definition class_from :: "string \<Rightarrow> decl \<Rightarrow> class_part option list \<Rightarrow> dclass" where
  "class_from name d ps = \<lparr>kl_name = name, kl_decl = d, kl_ctor = last_ctor ps, kl_methods = methods_in ps,
     kl_from_parts = map_option fst (last_from_parts ps), kl_raised = None\<rparr>"

definition function_nodes :: "dnode \<Rightarrow> dnode list" where
  "function_nodes n = filter (\<lambda>m. nd_kind m \<noteq> Class_def) (defs_in (nd_body n))"

definition read_class :: "string \<Rightarrow> string \<Rightarrow> world \<Rightarrow> home \<Rightarrow> (nat, pyobj) dict \<Rightarrow> dnode \<Rightarrow> dclass read" where
  "read_class path here w hm fns n =
     bind_rd (of_sum (in_file path (check_markers On_class (nd_decos n)))) (\<lambda>_.
     case dict_get fns (first_line n) of
       Some (O_class t) \<Rightarrow> (let d = (case pt_decl t of None \<Rightarrow> new_decl | Some x \<Rightarrow> x); nodes = by_first_line (function_nodes n) in
         bind_rd (of_sum (check_bases path n d t)) (\<lambda>_.
         if dc_kind d = WORDS_KIND then bind_rd (of_sum (read_members path n)) (\<lambda>_. ret_rd (class_from (nd_name n) d []))
         else
         bind_rd (each_rd (class_item path here n nodes) (pt_vars t)) (\<lambda>items.
         bind_rd (each_rd (class_part path w hm fns (nd_name n) d) (List.map_filter id items)) (\<lambda>ps.
         let c = class_from (nd_name n) d ps in
         bind_rd (of_sum (case last_from_parts ps of None \<Rightarrow> Inr () | Some mb \<Rightarrow> mentions path (nd_line n) c (snd mb))) (\<lambda>_.
         ret_rd c)))))
     | _ \<Rightarrow> of_sum (refused path (nd_line n) ''the import has no class at this line'' [nd_name n]))"

subsection \<open>Unions\<close>

definition scalar_arm :: "string \<Rightarrow> nat \<Rightarrow> string \<Rightarrow> alias_arm \<Rightarrow> stop + dtype option" where
  "scalar_arm path line uname a = (case a of
       U_class c \<Rightarrow> if pc_module c = ''builtins'' then refused path line ''names no C++ type'' [uname, pc_name c] else Inr None
     | U_alias h ms \<Rightarrow> Inr (map_option (\<lambda>cx. undeclared h (Some cx) []) (meta_cxx ms))
     | _ \<Rightarrow> Inr None)"

fun arm_name :: "alias_arm \<Rightarrow> string" where
  "arm_name (U_class c) = pc_name c"
| "arm_name (U_alias h ms) = pc_name h"
| "arm_name U_none = ''None''"
| "arm_name (U_named n) = n"

text \<open>The arms of an alias: each with its scalar type, named by the wire spelling of it where there is one.\<close>

definition arm_entry :: "string \<Rightarrow> nat \<Rightarrow> string \<Rightarrow> alias_arm \<Rightarrow> stop + string \<times> dtype option" where
  "arm_entry path line uname a = sum_bind (scalar_arm path line uname a) (\<lambda>t. case t of
       None \<Rightarrow> Inr (arm_name a, None)
     | Some ty \<Rightarrow> sum_bind (crash_free (ty_wire ty)) (\<lambda>n. Inr (n, Some ty)))"

definition scalars_of :: "(string \<times> dtype option) list \<Rightarrow> (string, dtype) dict" where
  "scalars_of es = fold (\<lambda>(n, t) d. case t of None \<Rightarrow> d | Some ty \<Rightarrow> dict_set n ty d) es []"

definition variant_of :: "string \<Rightarrow> nat \<Rightarrow> string \<Rightarrow> variant list \<Rightarrow> string list \<Rightarrow> stop + variant option" where
  "variant_of path line uname vs arms = (case vs of
       [] \<Rightarrow> Inr None
     | [v] \<Rightarrow> (case List.find (\<lambda>a. a \<notin> set arms) (dict_keys (va_wraps v)) of
           None \<Rightarrow> Inr (Some v) | Some a \<Rightarrow> refused path line ''wraps names no arm'' [uname, a])
     | _ \<Rightarrow> refused path line ''one Variant on an alias'' [uname])"

definition read_union :: "string \<Rightarrow> nat \<Rightarrow> string \<Rightarrow> alias_arm list \<Rightarrow> variant list \<Rightarrow> stop + dclass" where
  "read_union path line name arms vs =
     sum_bind (map_sums (arm_entry path line name) arms) (\<lambda>es.
     sum_bind (variant_of path line name vs (map fst es)) (\<lambda>v.
     Inr \<lparr>kl_name = name, kl_decl = new_decl\<lparr>dc_kind := UNION_KIND, dc_arms := map fst es, dc_wire := By_value, dc_variant := v,
            dc_scalars := scalars_of es\<rparr>,
          kl_ctor = None, kl_methods = [], kl_from_parts = None, kl_raised = None\<rparr>))"

text \<open>\<open>_check_arms\<close> as a file is read: an arm nobody knows is passed over where its class failed to read, or an import did.\<close>

definition excused :: "diagnostics option \<Rightarrow> string \<Rightarrow> bool" where
  "excused dg arm = (case dg of None \<Rightarrow> False | Some d \<Rightarrow> arm \<in> set (dg_unsound d) \<or> dg_blind d)"

fun twin_scalars :: "(string, string) dict \<Rightarrow> (string \<times> dtype) list \<Rightarrow> bool" where
  "twin_scalars seen [] = False"
| "twin_scalars seen ((arm, t) # ss) = (case dict_get seen (ty_python t) of
       None \<Rightarrow> twin_scalars (dict_set (ty_python t) arm seen) ss
     | Some first \<Rightarrow> if first \<noteq> arm then True else twin_scalars seen ss)"

definition arm_read :: "diagnostics option \<Rightarrow> string \<Rightarrow> nat \<Rightarrow> dclass \<Rightarrow> known \<Rightarrow> string \<Rightarrow> stop + unit" where
  "arm_read dg path line c known arm =
     (if dict_get (dc_scalars (kl_decl c)) arm \<noteq> None then Inr ()
      else (case dict_get known arm of
          None \<Rightarrow> if excused dg arm then Inr () else refused path line ''is not a declared class'' [kl_name c, arm]
        | Some k \<Rightarrow>
            if is_words k then refused path line ''is a vocabulary'' [kl_name c, arm]
            else if is_union k then refused path line ''is itself a union'' [kl_name c, arm]
            else if dc_wire (kl_decl k) \<noteq> By_value then refused path line ''does not cross as a value'' [kl_name c, arm]
            else Inr ()))"

definition arms_read :: "string \<Rightarrow> nat \<Rightarrow> known \<Rightarrow> dclass \<Rightarrow> unit read" where
  "arms_read path line known c = (\<lambda>s.
     (if twin_scalars [] (dc_scalars (kl_decl c)) then refused path line ''are both one Python type'' [kl_name c]
      else map_sum id (\<lambda>_. ()) (map_sums (arm_read (rd_collecting s) path line c known) (dc_arms (kl_decl c))), s))"

subsection \<open>Exceptions\<close>

definition own_string :: "string \<Rightarrow> dnode \<Rightarrow> pytype \<Rightarrow> string \<Rightarrow> stop + string" where
  "own_string path n t name = (case dict_get (pt_vars t) name of
       None \<Rightarrow> Inr []
     | Some (Mem_str x) \<Rightarrow> Inr x
     | Some _ \<Rightarrow> refused path (nd_line n) ''names C++, so write a string'' [nd_name n, name])"

definition MESSAGE_COUNT :: nat where "MESSAGE_COUNT = 2"

definition read_part :: "string \<Rightarrow> home \<Rightarrow> nat \<Rightarrow> string \<times> ann \<Rightarrow> stop + string \<times> dtype" where
  "read_part path hm line p = sum_bind (type_at path hm (snd p) line) (\<lambda>t. Inr (fst p, t))"

definition read_raised :: "string \<Rightarrow> home \<Rightarrow> dnode \<Rightarrow> pytype \<Rightarrow> stop + raised" where
  "read_raised path hm n t =
     sum_bind (own_string path n t ''cxx'') (\<lambda>cxx.
     sum_bind (own_string path n t ''header'') (\<lambda>header.
     if cxx \<noteq> [] \<and> header = [] then refused path (nd_line n) ''no header declares what is caught'' [nd_name n]
     else if header \<noteq> [] \<and> cxx = [] then refused path (nd_line n) ''header with no cxx'' [nd_name n]
     else if cxx \<noteq> [] \<and> drop MESSAGE_COUNT (pt_fields t) \<noteq> [] \<and> pt_reader t = [] then
       refused path (nd_line n) ''no reader for the parts beyond the message'' [nd_name n]
     else sum_bind (map_sums (read_part path hm (nd_line n)) (pt_fields t)) (\<lambda>ps.
       Inr \<lparr>ra_bases = map ba_name (filter (\<lambda>b. ba_module b = hm_name hm) (pt_bases t)), ra_parts = ps, ra_cxx = cxx\<rparr>)))"

definition read_error :: "string \<Rightarrow> home \<Rightarrow> dnode \<Rightarrow> pytype \<Rightarrow> stop + dclass" where
  "read_error path hm n t =
     (if \<not> pt_exception t then refused path (nd_line n) ''derives from BaseException'' [nd_name n]
      else sum_bind (read_raised path hm n t) (\<lambda>r. Inr \<lparr>kl_name = nd_name n, kl_decl = new_decl\<lparr>dc_kind := ERROR_KIND\<rparr>,
        kl_ctor = None, kl_methods = [], kl_from_parts = None, kl_raised = Some r\<rparr>))"

subsection \<open>Files\<close>

definition read_free :: "string \<Rightarrow> world \<Rightarrow> home \<Rightarrow> (nat, pyobj) dict \<Rightarrow> dnode \<Rightarrow> stop + meth" where
  "read_free path w hm fns n =
     (if nd_kind n = Class_def \<or> nd_decos n = [] then refused path (nd_line n) ''a free binding is decorated'' [nd_name n]
      else if nd_kind n = Async_def then refused path (nd_line n) ''async def says nothing here'' [nd_name n]
      else map_sum id fst (read_method path w hm fns n False False))"

datatype read_item = R_class dclass | R_error dclass | R_function meth | R_union dclass nat

definition read_global :: "string \<Rightarrow> string \<Rightarrow> world \<Rightarrow> home \<Rightarrow> (nat, pyobj) dict \<Rightarrow> (nat, dnode) dict \<Rightarrow> (string, nat) dict \<Rightarrow>
    string \<times> pyobj \<Rightarrow> read_item read" where
  "read_global path here w hm fns nodes assigned p =
     (let nowhere = of_sum (Inl (Refused path (dict_get assigned (fst p), Remark ''reaches no output'' [fst p]))) in
      case snd p of
        O_class t \<Rightarrow> if pt_module t \<noteq> hm_name hm then nowhere
          else (case dict_get nodes (pt_line t) of
              None \<Rightarrow> of_sum (Inl (Crashed KeyError))
            | Some n \<Rightarrow> if nd_kind n \<noteq> Class_def then of_sum (Inl (Crashed AssertionError))
                else if nd_decos n \<noteq> [] then bind_rd (read_class path here w hm fns n) (\<lambda>c. ret_rd (R_class c))
                else bind_rd (of_sum (read_error path hm n t)) (\<lambda>c. ret_rd (R_error c)))
      | O_fn h \<Rightarrow> (case written here h of
            None \<Rightarrow> nowhere
          | Some f \<Rightarrow> of_sum (sum_bind (one_definition path f nodes) (\<lambda>_. sum_bind (node_of nodes f) (\<lambda>n.
              map_sum id R_function (read_free path w hm fns n)))))
      | O_union arms vs \<Rightarrow> (case dict_get assigned (fst p) of
            None \<Rightarrow> nowhere
          | Some line \<Rightarrow> bind_rd (of_sum (read_union path line (fst p) arms vs)) (\<lambda>c. ret_rd (R_union c line)))
      | O_other k \<Rightarrow> nowhere)"

definition try_global :: "string \<Rightarrow> string \<Rightarrow> world \<Rightarrow> home \<Rightarrow> (nat, pyobj) dict \<Rightarrow> (nat, dnode) dict \<Rightarrow> (string, nat) dict \<Rightarrow>
    string \<times> pyobj \<Rightarrow> read_item option read" where
  "try_global path here w hm fns nodes assigned p =
     surviving (read_global path here w hm fns nodes assigned p) (fst p) (ret_rd ())"

fun classes_in :: "read_item option list \<Rightarrow> dclass list" where
  "classes_in [] = []"
| "classes_in (Some (R_class c) # rs) = c # classes_in rs"
| "classes_in (r # rs) = classes_in rs"

fun errors_in :: "read_item option list \<Rightarrow> dclass list" where
  "errors_in [] = []"
| "errors_in (Some (R_error c) # rs) = c # errors_in rs"
| "errors_in (r # rs) = errors_in rs"

fun functions_in :: "read_item option list \<Rightarrow> meth list" where
  "functions_in [] = []"
| "functions_in (Some (R_function c) # rs) = c # functions_in rs"
| "functions_in (r # rs) = functions_in rs"

fun unions_in :: "read_item option list \<Rightarrow> (dclass \<times> nat) list" where
  "unions_in [] = []"
| "unions_in (Some (R_union c line) # rs) = (c, line) # unions_in rs"
| "unions_in (r # rs) = unions_in rs"

definition kept_globals :: "stmt list \<Rightarrow> imported_module \<Rightarrow> (string \<times> pyobj) list" where
  "kept_globals tree m = filter (\<lambda>p. \<not> dunder (fst p) \<and> fst p \<notin> set (imported_names tree)) (im_globals m)"

subsection \<open>Imports\<close>

definition DECLARATIONS :: string where "DECLARATIONS = ''huggorm_decl.decl''"

definition last_part :: "char \<Rightarrow> string \<Rightarrow> string" where
  "last_part c x = rev (takeWhile (\<lambda>d. d \<noteq> c) (rev x))"

definition beside :: "string \<Rightarrow> string \<Rightarrow> string" where
  "beside path stem = rev (dropWhile (\<lambda>d. d \<noteq> CHR ''/'') (rev path)) @ stem @ ''.py''"

definition path_stem :: "string \<Rightarrow> string" where
  "path_stem path = (let n = last_part (CHR ''/'') path; ext = last_part (CHR ''.'') n; root = take (length n - length ext - 1) n in
     if root = [] then n else root)"

definition followed :: "stmt list \<Rightarrow> (nat \<times> string) list" where
  "followed tree = List.map_filter (\<lambda>s. case s of
       S_from l m ns \<Rightarrow> if take (Suc (length DECLARATIONS)) m = DECLARATIONS @ ''.'' then Some (l, last_part (CHR ''.'') m) else None
     | _ \<Rightarrow> None) (tree_walk tree)"

definition offers :: "dmodule option \<Rightarrow> (string \<times> dclass) list" where
  "offers m = (case m of None \<Rightarrow> []
     | Some x \<Rightarrow> md_uses x @ map (\<lambda>c. (kl_name c, c)) (md_classes x @ md_unions x @ md_errors x))"

definition read_use :: "(string \<Rightarrow> dmodule read) \<Rightarrow> world \<Rightarrow> string \<Rightarrow> nat \<times> string \<Rightarrow> dmodule option read" where
  "read_use rd w path p = (let source = beside path (snd p) in
     if dict_get (wd_files w) source = None then
       surviving (of_sum (refused path (fst p) ''no declaration at'' [source])) [] blinded
     else surviving (rd source) [] blinded)"

definition read_uses :: "(string \<Rightarrow> dmodule read) \<Rightarrow> world \<Rightarrow> string \<Rightarrow> stmt list \<Rightarrow> (string, dclass) dict read" where
  "read_uses rd w path tree = bind_rd (each_rd (read_use rd w path) (followed tree)) (\<lambda>ms.
     ret_rd (fold (\<lambda>(n, c) d. dict_set n c d) (concat (map offers ms)) []))"

text \<open>\<open>_read\<close>, by the read of the files it imports.\<close>

definition read_one :: "(string \<Rightarrow> dmodule read) \<Rightarrow> world \<Rightarrow> string \<Rightarrow> dmodule read" where
  "read_one rd w path = (case dict_get (wd_files w) path of
       None \<Rightarrow> of_sum (Inl (Crashed (Raised ''FileNotFoundError'')))
     | Some f \<Rightarrow> bind_rd (of_sum (import_of path f)) (\<lambda>m.
         let fns = definitions (sf_here f) m; tree = sf_tree f; nodes = by_first_line (defs_in tree); assigned = assignments tree in
         bind_rd (of_sum (reconcile path tree (dict_keys fns))) (\<lambda>_.
         bind_rd (each_rd (try_global path (sf_here f) w (im_home m) fns nodes assigned) (kept_globals tree m)) (\<lambda>items.
         bind_rd (read_uses rd w path tree) (\<lambda>uses.
         let known = fold (\<lambda>c d. dict_set (kl_name c) c d) (classes_in items @ map fst (unions_in items)) uses in
         bind_rd (each_rd (\<lambda>(u, line). surviving (arms_read path line known u) (kl_name u) (ret_rd ())) (unions_in items)) (\<lambda>_.
         ret_rd \<lparr>md_name = path_stem path, md_classes = classes_in items, md_functions = functions_in items,
           md_unions = map fst (unions_in items), md_uses = uses, md_errors = errors_in items\<rparr>)))))) "

text \<open>\<open>read\<close>, with its cache; an exception is not cached. The fuel is Python's stack: every import takes one.\<close>

definition keep_read :: "string \<Rightarrow> dmodule \<Rightarrow> dmodule read" where
  "keep_read path m = (\<lambda>s. (Inr m, s\<lparr>rd_cache := dict_set path m (rd_cache s)\<rparr>))"

primrec read_file :: "nat \<Rightarrow> world \<Rightarrow> string \<Rightarrow> dmodule read" where
  "read_file 0 w path = of_sum (Inl (Crashed RecursionError))"
| "read_file (Suc n) w path = (\<lambda>s. case dict_get (rd_cache s) path of
       Some m \<Rightarrow> (Inr m, s) | None \<Rightarrow> bind_rd (read_one (read_file n w) w path) (keep_read path) s)"

subsection \<open>The set\<close>

record corpus =
  co_root :: string
  co_nanobind :: "string list"
  co_vocabularies :: "string list"
  co_errors :: string

definition corpus_path :: "corpus \<Rightarrow> string \<Rightarrow> string" where
  "corpus_path c name = co_root c @ ''/'' @ (if drop (length name - 3) name = ''.py'' then name else name @ ''.py'')"

definition corpus_files :: "corpus \<Rightarrow> string list" where
  "corpus_files c = co_nanobind c @ co_vocabularies c @ (if co_errors c = [] then [] else [co_errors c])"

text \<open>\<open>read_all\<close>, with the corpus's own cache left to the one of \<open>read\<close>.\<close>

definition read_corpus :: "nat \<Rightarrow> world \<Rightarrow> corpus \<Rightarrow> read_state \<Rightarrow> (stop list + dmodule list) \<times> read_state" where
  "read_corpus n w c = collecting (each_rd (\<lambda>name. read_file n w (corpus_path c name)) (corpus_files c))"

end
