(* ===== verification/Reader_Props.thy ===== *)
theory Reader_Props
  imports Reader
begin

text \<open>
  A small declaration file, as the tree and the import of it, for the witnesses about the reader: a value with a constructor and
  an accessor, an exception, a free function and a union; and the same file with a mistake in it.
\<close>

definition HERE :: string where "HERE = ''/d/demo.py''"

definition Str_ann :: ann where
  "Str_ann = A_annotated str_class [M_cxx \<lparr>cx_spelling = ''string'', cx_width = []\<rparr>] 1"

definition name_class :: pyclass where
  "name_class = \<lparr>pc_module = ''demo'', pc_name = ''Name'', pc_dir = Some ''/d''\<rparr>"

definition self_arg :: fparam where
  "self_arg = \<lparr>fp_name = ''self'', fp_plain = True, fp_ann = None, fp_default = None\<rparr>"

definition text_param :: fparam where
  "text_param = \<lparr>fp_name = ''text'', fp_plain = True, fp_ann = Some Str_ann, fp_default = None\<rparr>"

definition text_fn :: "pyfn held" where
  "text_fn = H_fn (Pyfn ''text'' 7 HERE [self_arg] (Some Str_ann) no_marks [])"

definition init_fn :: "pyfn held" where
  "init_fn = H_fn (Pyfn ''__init__'' 9 HERE [self_arg, text_param] None no_marks [])"

definition parse_fn :: "pyfn held" where
  "parse_fn = H_fn (Pyfn ''parse'' 13 HERE [text_param] (Some (A_class name_class)) (no_marks\<lparr>ms_policy := Some POOL\<rparr>) [])"

definition name_type :: pytype where
  "name_type = \<lparr>pt_name = ''Name'', pt_module = ''demo'', pt_line = 3,
     pt_vars = [(''__module__'', Mem_str ''demo''), (''text'', Mem_fn text_fn), (''__init__'', Mem_fn init_fn), (''_decl'', Mem_other ''Decl'')],
     pt_decl = Some (new_decl\<lparr>dc_wire := By_value, dc_cxx := ''nix::Name''\<rparr>), pt_bases = [OBJECT], pt_exception = False,
     pt_fields = [], pt_reader = []\<rparr>"

definition bad_type :: pytype where
  "bad_type = \<lparr>pt_name = ''Bad'', pt_module = ''demo'', pt_line = 11, pt_vars = [(''cxx'', Mem_str ''nix::Bad''), (''header'', Mem_str ''a.hh'')],
     pt_decl = None, pt_bases = [\<lparr>ba_name = ''Exception'', ba_module = ''builtins'', ba_declared = False\<rparr>], pt_exception = True,
     pt_fields = [], pt_reader = []\<rparr>"

definition name_node :: dnode where
  "name_node = Dnode Class_def ''Name'' 5
     [\<lparr>de_line = 3, de_name = ''binding'', de_called = True\<rparr>, \<lparr>de_line = 4, de_name = ''wire_value'', de_called = True\<rparr>] [] None
     [S_expr 6 (E_str ''A name.''),
      S_def (Dnode Func_def ''text'' 7 [] [(''self'', 7)] (Some 7) [S_expr 8 (E_str ''The text.'')]),
      S_def (Dnode Func_def ''__init__'' 9 [] [(''self'', 9), (''text'', 9)] None [S_expr 10 E_ellipsis])]"

definition parse_node :: dnode where
  "parse_node = Dnode Func_def ''parse'' 14 [\<lparr>de_line = 13, de_name = ''threading'', de_called = True\<rparr>] [(''text'', 14)] (Some 14)
     [S_expr 15 (E_cxx [Some ''return parse(text);''] 15)]"

definition demo_stmts :: "stmt list" where
  "demo_stmts = [S_from 1 ''huggorm_dsl.declare'' [(''Str'', []), (''binding'', []), (''wire_value'', []), (''threading'', [])],
     S_def name_node,
     S_def (Dnode Class_def ''Bad'' 11 [] [] None [S_assign 12 [Some ''cxx''] (Some ''nix::Bad''), S_assign 12 [Some ''header''] (Some ''a.hh'')]),
     S_def parse_node, S_assign 17 [Some ''NameOr''] None]"

definition demo_import :: imported_module where
  "demo_import = \<lparr>im_home = \<lparr>hm_name = ''demo'', hm_dir = Some ''/d'', hm_globals = []\<rparr>,
     im_globals = [(''__name__'', O_other ''str''), (''Str'', O_other ''alias''), (''Name'', O_class name_type), (''Bad'', O_class bad_type),
       (''parse'', O_fn parse_fn),
       (''NameOr'', O_union [U_class name_class, U_alias \<lparr>pc_module = ''builtins'', pc_name = ''int'', pc_dir = None\<rparr>
          [M_cxx \<lparr>cx_spelling = ''uint64_t'', cx_width = ''uint''\<rparr>]] [])]\<rparr>"

definition demo_file :: source_file where
  "demo_file = \<lparr>sf_here = HERE, sf_tree = demo_stmts, sf_import = Inr demo_import\<rparr>"

definition demo_world :: world where
  "demo_world = \<lparr>wd_files = [(''/d/demo.py'', demo_file)], wd_words = \<lambda>c. None\<rparr>"

text \<open>With \<open>async def\<close> for the accessor; and with a second name for the class.\<close>

definition async_node :: dnode where
  "async_node = Dnode Class_def ''Name'' 5 (nd_decos name_node) [] None
     [S_def (Dnode Async_def ''text'' 7 [] [(''self'', 7)] (Some 7) [S_expr 8 (E_str ''The text.'')]),
      S_def (Dnode Func_def ''__init__'' 9 [] [(''self'', 9), (''text'', 9)] None [S_expr 10 E_ellipsis])]"

definition async_world :: world where
  "async_world = \<lparr>wd_files = [(''/d/demo.py'', demo_file\<lparr>sf_tree := [S_def async_node],
     sf_import := Inr (demo_import\<lparr>im_globals := [(''Name'', O_class name_type)]\<rparr>)\<rparr>)], wd_words = \<lambda>c. None\<rparr>"

definition alias_world :: world where
  "alias_world = \<lparr>wd_files = [(''/d/demo.py'', demo_file\<lparr>sf_tree := [S_def name_node, S_assign 16 [Some ''Label''] None],
     sf_import := Inr (demo_import\<lparr>im_globals := [(''Name'', O_class name_type), (''Label'', O_class name_type)]\<rparr>)\<rparr>)], wd_words = \<lambda>c. None\<rparr>"

definition demo_corpus :: corpus where
  "demo_corpus = \<lparr>co_root = ''/d'', co_nanobind = [''demo.py''], co_vocabularies = [], co_errors = []\<rparr>"

section \<open>The properties of the reader\<close>

text \<open>
  Reading under a collector is reading: it answers what the plain read answers, or its report begins with the refusal the plain
  read raises. And what a file writes, it hands on: nothing the import kept is lost on the way, in a file or in a class.
\<close>

subsection \<open>Every step reads the same under a collector\<close>

lemma agrees_class_item [agree_rules]: "agrees (class_item path here n nodes p)"
  unfolding class_item_def by (auto intro!: agree_rules split: option.split)

lemma stays_ret: "stays_reported (ret_rd a)"
  by (rule agrees_stays[OF agrees_ret])

lemma agrees_class_part [agree_rules]: "agrees (class_part path w hm fns cls d n)"
  unfolding class_part_def Let_def
  by (intro agree_rules agrees_surviving stays_ret | simp split: if_split | intro conjI impI)+

lemma agrees_read_class [agree_rules]: "agrees (read_class path here w hm fns n)"
  unfolding read_class_def Let_def
  by (intro agree_rules | simp only: split: option.split pyobj.split if_split | intro conjI allI impI)+

lemma agrees_read_global [agree_rules]: "agrees (read_global path here w hm fns nodes assigned p)"
  unfolding read_global_def Let_def
  by (intro agree_rules | simp only: split: option.split pyobj.split if_split | intro conjI allI impI)+

lemma agrees_try_global [agree_rules]: "agrees (try_global path here w hm fns nodes assigned p)"
  unfolding try_global_def by (intro agree_rules agrees_surviving stays_ret)

lemma agrees_read_use: "(\<And>p. agrees (rd p)) \<Longrightarrow> agrees (read_use rd w path p)"
  unfolding read_use_def Let_def by (simp add: agrees_surviving stays_blinded agrees_of_sum)

lemma agrees_read_uses: "(\<And>p. agrees (rd p)) \<Longrightarrow> agrees (read_uses rd w path tree)"
  unfolding read_uses_def by (intro agree_rules agrees_read_use)

lemma agrees_arms [agree_rules]: "agrees (arms_read path line known c)"
proof (rule agreesI)
  show "stays_reported (arms_read path line known c)"
    by (simp add: stays_reported_def arms_read_def)
  fix k
  have e: "excused (Some new_diagnostics) = excused None"
    by (auto simp: excused_def new_diagnostics_def)
  have "arm_read (Some new_diagnostics) path line c known = arm_read None path line c known"
    by (rule ext) (simp add: arm_read_def e)
  then show "(\<exists>a c1. arms_read path line known c (plainly k) = (Inr a, plainly c1) \<and> arms_read path line known c (collector k) = (Inr a, collector c1)) \<or>
       (\<exists>e c1. arms_read path line known c (plainly k) = (Inl e, plainly c1) \<and>
          (arms_read path line known c (collector k) = (Inl e, collector c1) \<or> reported e (snd (arms_read path line known c (collector k)))))"
    by (cases "fst (arms_read path line known c (plainly k))") (auto simp: arms_read_def plainly_def collector_def)
qed

lemma agrees_keep [agree_rules]: "agrees (keep_read path m)"
proof (rule agreesI)
  show "stays_reported (keep_read path m)" by (simp add: stays_reported_def keep_read_def reported_def)
qed (auto simp: keep_read_def plainly_def collector_def)

lemma agrees_read_one:
  assumes "\<And>p. agrees (rd p)"
  shows "agrees (read_one rd w path)"
  unfolding read_one_def Let_def
  by (intro agree_rules agrees_surviving stays_ret agrees_read_uses assms
     | simp only: split: option.split prod.split | intro conjI allI impI)+

lemma agrees_cached:
  assumes "agrees m"
  shows "agrees (\<lambda>s. case dict_get (rd_cache s) path of Some a \<Rightarrow> (Inr a, s) | None \<Rightarrow> m s)"
proof (rule agreesI)
  show "stays_reported (\<lambda>s. case dict_get (rd_cache s) path of Some a \<Rightarrow> (Inr a, s) | None \<Rightarrow> m s)"
    using agrees_stays[OF assms] by (auto simp: stays_reported_def split: option.split)
  fix c
  let ?f = "\<lambda>s. case dict_get (rd_cache s) path of Some a \<Rightarrow> (Inr a, s) | None \<Rightarrow> m s"
  show "(\<exists>a c1. ?f (plainly c) = (Inr a, plainly c1) \<and> ?f (collector c) = (Inr a, collector c1)) \<or>
       (\<exists>e c1. ?f (plainly c) = (Inl e, plainly c1) \<and> (?f (collector c) = (Inl e, collector c1) \<or> reported e (snd (?f (collector c)))))"
  proof (cases "dict_get c path")
    case None
    then have f: "?f (plainly c) = m (plainly c)" "?f (collector c) = m (collector c)"
      by (simp_all add: plainly_def collector_def)
    show ?thesis unfolding f using assms by (cases rule: agrees_cases[where c = c]) blast+
  qed (simp add: plainly_def collector_def)
qed

lemma agrees_read_file: "agrees (read_file n w path)"
proof (induction n arbitrary: path)
  case (Suc n)
  have "agrees (bind_rd (read_one (read_file n w) w path) (keep_read path))"
    by (intro agree_rules agrees_read_one Suc)
  from agrees_cached[OF this] show ?case by (simp add: fun_eq_iff)
qed (simp add: agrees_of_sum)

lemma collecting_agrees:
  assumes "agrees m"
  shows "case m (plainly k) of (Inr a, s) \<Rightarrow> collecting m (plainly k) = (Inr a, s)
     | (Inl e, s) \<Rightarrow> \<exists>es s1. collecting m (plainly k) = (Inl (e # es), s1)"
proof -
  have start: "(plainly k)\<lparr>rd_collecting := Some new_diagnostics\<rparr> = collector k" by (simp add: plainly_def collector_def)
  have c: "collecting m (plainly k) = (case m (collector k) of (r, s1) \<Rightarrow>
      (case raise_if_any (case rd_collecting s1 of Some d \<Rightarrow> d | None \<Rightarrow> new_diagnostics) of
         Inl es \<Rightarrow> (Inl es, s1\<lparr>rd_collecting := None\<rparr>) | Inr _ \<Rightarrow> (map_sum (\<lambda>e. [e]) id r, s1\<lparr>rd_collecting := None\<rparr>)))"
    unfolding collecting_def start by (simp add: plainly_def)
  have quiet: "collecting m (plainly k) = (map_sum (\<lambda>e. [e]) id r, plainly c1)" if "m (collector k) = (r, collector c1)" for r c1
    unfolding c that by (simp add: collector_def plainly_def raise_if_any_def new_diagnostics_def)
  show ?thesis
    using assms
  proof (cases rule: agrees_cases[where c = k])
    case (answer a c1)
    then show ?thesis using quiet by simp
  next
    case (raised e c1)
    then show ?thesis using quiet by simp
  next
    case (told e c1)
    obtain r s1 where q: "m (collector k) = (r, s1)" by (cases "m (collector k)")
    with told(2) obtain d es where d: "rd_collecting s1 = Some d" "dg_messages d = e # es"
      by (auto simp: reported_def) (metis list.collapse)
    show ?thesis unfolding told(1) c q by (simp add: d raise_if_any_def)
  qed
qed

text \<open>C9. Reading the whole set under a collector answers what reading the files one after the other answers, and where that is
  refused, the report begins with the same refusal: nothing that is reported is a consequence of nothing, and nothing that is
  wrong goes unreported.\<close>

theorem report_complete:
  "case each_rd (\<lambda>name. read_file n w (corpus_path c name)) (corpus_files c) (plainly k) of
     (Inr ms, s) \<Rightarrow> read_corpus n w c (plainly k) = (Inr ms, s)
   | (Inl e, s) \<Rightarrow> \<exists>es s1. read_corpus n w c (plainly k) = (Inl (e # es), s1)"
  unfolding read_corpus_def by (rule collecting_agrees) (intro agree_rules agrees_read_file)

subsection \<open>Nothing is dropped\<close>

lemma bind_rd_Inr: "bind_rd m f s = (Inr b, s2) \<longleftrightarrow> (\<exists>a s1. m s = (Inr a, s1) \<and> f a s1 = (Inr b, s2))"
  by (auto simp: bind_rd_def split: prod.splits sum.splits)

lemma ret_rd_Inr [simp]: "ret_rd a s = (Inr b, s2) \<longleftrightarrow> b = a \<and> s2 = s"
  by (auto simp: ret_rd_def)

lemma of_sum_Inr [simp]: "of_sum r s = (Inr b, s2) \<longleftrightarrow> r = Inr b \<and> s2 = s"
  by (auto simp: of_sum_def)

lemma refused_Inr [simp]: "refused path line text about \<noteq> Inr b"
  by (simp add: refused_def)

lemma map_sum_right [simp]: "map_sum id g r = Inr y \<longleftrightarrow> (\<exists>x. r = Inr x \<and> y = g x)"
  by (cases r) auto

lemma survive_plain [simp]: "survive e u (plainly k) = (Inr b, s) \<longleftrightarrow> False"
  by (simp add: survive_def plainly_def)

lemma surviving_plain:
  "surviving m u also (plainly k) = (Inr x, s) \<longleftrightarrow> agrees m \<and> (\<exists>y. x = Some y \<and> m (plainly k) = (Inr y, s))" if "agrees m"
  using that
proof (cases rule: agrees_cases[where c = k])
  case (raised e c1)
  then show ?thesis by (cases e) (auto simp: surviving_def bind_rd_def survive_def plainly_def)
next
  case (told e c1)
  then show ?thesis by (cases e) (auto simp: surviving_def bind_rd_def survive_def plainly_def)
qed (auto simp: surviving_def that)

lemma agrees_state: "agrees m \<Longrightarrow> m (plainly k) = (r, s) \<Longrightarrow> \<exists>k1. s = plainly k1"
  by (erule agrees_cases[where c = k]) auto

definition plain_answer :: "'a read \<Rightarrow> 'a \<Rightarrow> bool" where
  "plain_answer m a \<longleftrightarrow> (\<exists>k k1. m (plainly k) = (Inr a, plainly k1))"

lemma plain_answerI: "agrees m \<Longrightarrow> m (plainly k) = (Inr a, s) \<Longrightarrow> plain_answer m a"
  using agrees_state[of m k "Inr a" s] by (auto simp: plain_answer_def)

lemma each_plain:
  assumes "\<And>x. agrees (f x)" "each_rd f xs (plainly k) = (Inr ys, s)"
  shows "list_all2 (\<lambda>x y. plain_answer (f x) y) xs ys"
  using assms(2)
proof (induction xs arbitrary: k ys)
  case (Cons x xs)
  from Cons.prems obtain y s1 zs where e: "f x (plainly k) = (Inr y, s1)" "each_rd f xs s1 = (Inr zs, s)" "ys = y # zs"
    by (auto simp: bind_rd_Inr)
  from agrees_state[OF assms(1) e(1)] obtain k1 where k1: "s1 = plainly k1" by blast
  with Cons.IH[of k1 zs] e plain_answerI[OF assms(1) e(1)] show ?case by simp
qed simp

lemma by_first_line_get: "dict_get (by_first_line ns) l = Some n \<Longrightarrow> n \<in> set ns \<and> first_line n = l"
proof -
  have "dict_get (fold (\<lambda>n d. dict_set (first_line n) n d) ns d0) l = Some n \<Longrightarrow> (n \<in> set ns \<and> first_line n = l) \<or> dict_get d0 l = Some n" for d0
    by (induction ns arbitrary: d0) (fastforce split: if_splits)+
  from this[of "[]"] show "dict_get (by_first_line ns) l = Some n \<Longrightarrow> n \<in> set ns \<and> first_line n = l"
    by (simp add: by_first_line_def)
qed

lemma read_method_name: "read_method path w hm fns n b mb = Inr x \<Longrightarrow> mt_name (fst x) = nd_name n"
  by (auto simp: read_method_def sum_bind_Inr_iff marked_meth_def split: prod.splits if_splits)

text \<open>A member of a class: a function of the file that is the constructor, the wire constructor or a method of it, or a name
  of Python's.\<close>

definition part_handed_on :: "string \<Rightarrow> dnode \<Rightarrow> dclass \<Rightarrow> string \<times> member \<Rightarrow> bool" where
  "part_handed_on here n c p = (case (case snd p of Mem_fn h \<Rightarrow> written here h | _ \<Rightarrow> None) of
       None \<Rightarrow> dunder (fst p) \<or> fst p \<in> {''_decl'', ''_needs''}
     | Some f \<Rightarrow> (\<exists>q\<in>set (function_nodes n). first_line q = pf_line f \<and>
         (nd_name q = ''__init__'' \<and> kl_ctor c \<noteq> None \<or> nd_name q = FROM_PARTS \<and> kl_from_parts c \<noteq> None \<or>
          nd_name q \<in> mt_name ` set (kl_methods c))))"

lemma class_item_plain:
  assumes "plain_answer (class_item path here n (by_first_line (function_nodes n)) p) x"
  shows "case (case snd p of Mem_fn h \<Rightarrow> written here h | _ \<Rightarrow> None) of
       None \<Rightarrow> dunder (fst p) \<or> fst p \<in> {''_decl'', ''_needs''}
     | Some f \<Rightarrow> (\<exists>q\<in>set (function_nodes n). first_line q = pf_line f \<and> x = Some q)"
proof (cases "case snd p of Mem_fn h \<Rightarrow> written here h | _ \<Rightarrow> None")
  case None
  then show ?thesis using assms by (auto simp: plain_answer_def class_item_def bind_rd_Inr split: if_splits)
next
  case (Some f)
  with assms obtain y where "node_of (by_first_line (function_nodes n)) f = Inr y" "x = Some y"
    by (auto simp: plain_answer_def class_item_def sum_bind_Inr_iff)
  then show ?thesis using by_first_line_get[of "function_nodes n" "pf_line f"] Some by (auto simp: node_of_def split: option.splits)
qed

lemma class_part_plain:
  assumes "plain_answer (class_part path w hm fns cls d q) x"
  obtains (ctor) m where "x = Some (P_ctor m)" "nd_name q = ''__init__''"
  | (from_parts) mb where "x = Some (P_from_parts mb)" "nd_name q = FROM_PARTS"
  | (plain) m where "x = Some (P_method m)" "mt_name m = nd_name q"
  using assms
  by (auto simp: plain_answer_def class_part_def Let_def bind_rd_Inr sum_bind_Inr_iff surviving_plain agrees_of_sum
     dest: read_method_name split: if_splits)

lemma last_ctor_some: "Some (P_ctor m) \<in> set ps \<Longrightarrow> last_ctor ps \<noteq> None"
  by (induction ps rule: last_ctor.induct) (auto split: option.splits)

lemma last_from_parts_some: "Some (P_from_parts m) \<in> set ps \<Longrightarrow> last_from_parts ps \<noteq> None"
  by (induction ps rule: last_from_parts.induct) (auto split: option.splits)

lemma methods_in_some: "Some (P_method m) \<in> set ps \<Longrightarrow> m \<in> set (methods_in ps)"
  by (induction ps rule: methods_in.induct) auto

lemma list_all2_from: "list_all2 P xs ys \<Longrightarrow> x \<in> set xs \<Longrightarrow> \<exists>y\<in>set ys. P x y"
  by (auto simp: list_all2_conv_all_nth in_set_conv_nth) (metis nth_mem)

lemma read_class_plain:
  assumes "read_class path here w hm fns n (plainly k) = (Inr c, s)"
  shows "kl_name c = nd_name n"
    "dict_get fns (first_line n) = Some (O_class t) \<Longrightarrow> \<not> is_words c \<Longrightarrow> list_all (part_handed_on here n c) (pt_vars t)"
proof -
  from assms obtain t where t: "dict_get fns (first_line n) = Some (O_class t)"
    by (auto simp: read_class_def bind_rd_Inr split: option.splits pyobj.splits)
  define d where "d = (case pt_decl t of None \<Rightarrow> new_decl | Some x \<Rightarrow> x)"
  let ?nodes = "by_first_line (function_nodes n)"
  from assms t show nm: "kl_name c = nd_name n"
    by (auto simp: read_class_def bind_rd_Inr Let_def class_from_def split: if_splits)
  show "list_all (part_handed_on here n c) (pt_vars t')"
    if "dict_get fns (first_line n) = Some (O_class t')" "\<not> is_words c" for t'
  proof -
    from that t have tt: "t' = t" by simp
    have kind: "dc_kind d \<noteq> WORDS_KIND"
      using assms t that(2) by (auto simp: read_class_def bind_rd_Inr Let_def class_from_def is_words_def d_def split: if_splits)
    with assms t obtain items ps s1 s2 where st:
      "each_rd (class_item path here n ?nodes) (pt_vars t) (plainly k) = (Inr items, s1)"
      "each_rd (class_part path w hm fns (nd_name n) d) (List.map_filter id items) s1 = (Inr ps, s2)"
      "c = class_from (nd_name n) d ps"
      unfolding read_class_def by (auto simp: bind_rd_Inr Let_def d_def[symmetric])
    from agrees_state[OF agrees_each[OF agrees_class_item] st(1)] obtain k1 where k1: "s1 = plainly k1" by blast
    have l1: "list_all2 (\<lambda>p x. plain_answer (class_item path here n ?nodes p) x) (pt_vars t) items"
      by (rule each_plain[OF agrees_class_item st(1)])
    have l2: "list_all2 (\<lambda>q x. plain_answer (class_part path w hm fns (nd_name n) d q) x) (List.map_filter id items) ps"
      by (rule each_plain[OF agrees_class_part]) (use st(2) k1 in simp)
    have "part_handed_on here n c p" if p: "p \<in> set (pt_vars t)" for p
    proof (cases "case snd p of Mem_fn h \<Rightarrow> written here h | _ \<Rightarrow> None")
      case None
      from list_all2_from[OF l1 p] obtain x where "plain_answer (class_item path here n ?nodes p) x" by blast
      from class_item_plain[OF this] None show ?thesis by (simp add: part_handed_on_def)
    next
      case (Some f)
      from list_all2_from[OF l1 p] obtain x where x: "x \<in> set items" "plain_answer (class_item path here n ?nodes p) x" by blast
      from class_item_plain[OF x(2)] Some obtain q where q: "q \<in> set (function_nodes n)" "first_line q = pf_line f" "x = Some q"
        by auto
      from q(3) x(1) have "q \<in> set (List.map_filter id items)" by (force simp: List.map_filter_def)
      from list_all2_from[OF l2 this] obtain y where y: "y \<in> set ps" "plain_answer (class_part path w hm fns (nd_name n) d q) y"
        by blast
      from y(2) have "nd_name q = ''__init__'' \<and> kl_ctor c \<noteq> None \<or> nd_name q = FROM_PARTS \<and> kl_from_parts c \<noteq> None \<or>
          nd_name q \<in> mt_name ` set (kl_methods c)"
      proof (cases rule: class_part_plain)
        case (ctor m)
        then show ?thesis using last_ctor_some y(1) st(3) by (simp add: class_from_def)
      next
        case (from_parts mb)
        then show ?thesis using last_from_parts_some y(1) st(3) by (simp add: class_from_def)
      next
        case (plain m)
        then have "m \<in> set (kl_methods c)" using methods_in_some y(1) st(3) by (simp add: class_from_def)
        with plain(2) show ?thesis by (metis image_eqI)
      qed
      with q(1,2) Some show ?thesis by (auto simp: part_handed_on_def)
    qed
    then show ?thesis by (simp add: list_all_iff tt)
  qed
qed

text \<open>A name of a file: a class is a declared class, with everything the import holds in it, or an exception; a function is a free
  binding; an alias is a union; and there is nothing else.\<close>

definition handed_on :: "string \<Rightarrow> (nat, pyobj) dict \<Rightarrow> stmt list \<Rightarrow> dmodule \<Rightarrow> string \<times> pyobj \<Rightarrow> bool" where
  "handed_on here fns tree m p = (case snd p of
       O_class t \<Rightarrow> (\<exists>n\<in>set (defs_in tree). first_line n = pt_line t \<and>
         ((\<exists>c\<in>set (md_classes m). kl_name c = nd_name n \<and>
             (is_words c \<or> (case dict_get fns (pt_line t) of Some (O_class held) \<Rightarrow> list_all (part_handed_on here n c) (pt_vars held) | _ \<Rightarrow> False))) \<or>
          (\<exists>c\<in>set (md_errors m). kl_name c = nd_name n)))
     | O_fn h \<Rightarrow> (case written here h of None \<Rightarrow> False
         | Some f \<Rightarrow> \<exists>n\<in>set (defs_in tree). first_line n = pf_line f \<and> nd_name n \<in> mt_name ` set (md_functions m))
     | O_union arms vs \<Rightarrow> fst p \<in> kl_name ` set (md_unions m)
     | O_other k \<Rightarrow> False)"

lemma items_in:
  "Some (R_class c) \<in> set items \<Longrightarrow> c \<in> set (classes_in items)"
  "Some (R_error c) \<in> set items \<Longrightarrow> c \<in> set (errors_in items)"
  "Some (R_function g) \<in> set items \<Longrightarrow> g \<in> set (functions_in items)"
  "Some (R_union c line) \<in> set items \<Longrightarrow> (c, line) \<in> set (unions_in items)"
  by (induction items rule: classes_in.induct) auto

lemma items_count: "None \<notin> set items \<Longrightarrow>
   length items = length (classes_in items) + length (errors_in items) + length (functions_in items) + length (unions_in items)"
proof (induction items)
  case (Cons x items)
  then show ?case
  proof (cases x)
    case (Some r)
    then show ?thesis using Cons by (cases r) auto
  qed simp
qed simp

lemma read_free_name: "read_free path w hm fns n = Inr g \<Longrightarrow> mt_name g = nd_name n"
  by (auto simp: read_free_def dest: read_method_name split: if_splits)

lemma read_error_name: "read_error path hm n t = Inr c \<Longrightarrow> kl_name c = nd_name n"
  by (auto simp: read_error_def sum_bind_Inr_iff split: if_splits)

lemma read_union_name: "read_union path line name arms vs = Inr c \<Longrightarrow> kl_name c = name"
  by (auto simp: read_union_def sum_bind_Inr_iff)

lemma global_handed_on:
  assumes "plain_answer (try_global path here w hm fns (by_first_line (defs_in tree)) assigned p) x"
    "x \<in> set items" "md_classes m = classes_in items" "md_errors m = errors_in items" "md_functions m = functions_in items"
    "md_unions m = map fst (unions_in items)"
  shows "x \<noteq> None \<and> handed_on here fns tree m p"
proof -
  from assms(1) obtain k k1 r where r: "x = Some r"
    "read_global path here w hm fns (by_first_line (defs_in tree)) assigned p (plainly k) = (Inr r, plainly k1)"
    by (auto simp: plain_answer_def try_global_def surviving_plain[OF agrees_read_global])
  have "handed_on here fns tree m p"
  proof (cases "snd p")
    case (O_class t)
    with r(2) obtain n where n: "dict_get (by_first_line (defs_in tree)) (pt_line t) = Some n" "pt_module t = hm_name hm"
      by (auto simp: read_global_def Let_def of_sum_def split: if_splits option.splits)
    have nn: "n \<in> set (defs_in tree)" "first_line n = pt_line t" using by_first_line_get[OF n(1)] by auto
    show ?thesis
    proof (cases "nd_decos n = []")
      case True
      with r(2) O_class n obtain c where c: "r = R_error c" "read_error path hm n t = Inr c"
        by (auto simp: read_global_def Let_def bind_rd_Inr of_sum_def split: if_splits)
      have "c \<in> set (md_errors m)" using assms(2) r(1) c(1) assms(4) items_in(2) by metis
      then show ?thesis using nn read_error_name[OF c(2)] by (auto simp: handed_on_def O_class)
    next
      case False
      with r(2) O_class n obtain c s where c: "r = R_class c" "read_class path here w hm fns n (plainly k) = (Inr c, s)"
        by (auto simp: read_global_def Let_def bind_rd_Inr of_sum_def split: if_splits)
      have cin: "c \<in> set (md_classes m)" using assms(2) r(1) c(1) assms(3) items_in(1) by metis
      have "is_words c \<or> (case dict_get fns (pt_line t) of Some (O_class held) \<Rightarrow> list_all (part_handed_on here n c) (pt_vars held) | _ \<Rightarrow> False)"
      proof -
        from c(2) obtain held where "dict_get fns (first_line n) = Some (O_class held)"
          by (auto simp: read_class_def bind_rd_Inr split: option.splits pyobj.splits)
        with read_class_plain(2)[OF c(2)] nn show ?thesis by auto
      qed
      then show ?thesis using nn cin read_class_plain(1)[OF c(2)] by (auto simp: handed_on_def O_class)
    qed
  next
    case (O_fn h)
    with r(2) obtain f n g where f: "written here h = Some f" "node_of (by_first_line (defs_in tree)) f = Inr n"
      "r = R_function g" "read_free path w hm fns n = Inr g"
      by (auto simp: read_global_def Let_def of_sum_def sum_bind_Inr_iff split: option.splits)
    have "g \<in> set (md_functions m)" using assms(2) r(1) f(3) assms(5) items_in(3) by metis
    moreover from f(2) by_first_line_get have "n \<in> set (defs_in tree)" "first_line n = pf_line f"
      by (auto simp: node_of_def split: option.splits)
    moreover have "nd_name n \<in> mt_name ` set (md_functions m)" using calculation(1) read_free_name[OF f(4)] by (metis image_eqI)
    ultimately show ?thesis using f(1) unfolding handed_on_def O_fn by auto
  next
    case (O_union arms vs)
    with r(2) obtain line c where c: "r = R_union c line" "read_union path line (fst p) arms vs = Inr c"
      by (auto simp: read_global_def Let_def of_sum_def bind_rd_Inr split: option.splits)
    have "(c, line) \<in> set (unions_in items)" using assms(2) r(1) c(1) items_in(4) by metis
    then show ?thesis using assms(6) read_union_name[OF c(2)] by (force simp: handed_on_def O_union)
  next
    case (O_other j)
    then show ?thesis using r(2) by (simp add: read_global_def Let_def of_sum_def)
  qed
  with r(1) show ?thesis by simp
qed

text \<open>C10. A file that reads has as many classes, exceptions, functions and unions as names the import left that are neither Python's nor
  imported, and each of these names has one of them: a class or an exception under the name of its definition, a function under
  the name of its definition, a union under the name itself. A second name for a class or a function is one more entry under the
  first name, so the second name is in no output (\<open>alias_reads_twice\<close>). Everything the import holds in a declared class that is no
  vocabulary is in the class; the members of vocabularies and of exceptions are outside of this.\<close>

theorem nothing_dropped:
  assumes "dict_get (wd_files w) path = Some f" "sf_import f = Inr im" "dict_get k path = None"
    "read_file n w path (plainly k) = (Inr m, s)"
  shows "list_all (handed_on (sf_here f) (definitions (sf_here f) im) (sf_tree f) m) (kept_globals (sf_tree f) im) \<and>
    length (md_classes m) + length (md_errors m) + length (md_functions m) + length (md_unions m) = length (kept_globals (sf_tree f) im)"
proof -
  let ?fns = "definitions (sf_here f) im"
  let ?step = "try_global path (sf_here f) w (im_home im) ?fns (by_first_line (defs_in (sf_tree f))) (assignments (sf_tree f))"
  from assms obtain n1 s1 where "n = Suc n1" "read_one (read_file n1 w) w path (plainly k) = (Inr m, s1)"
    by (cases n) (auto simp: bind_rd_Inr keep_read_def plainly_def of_sum_def)
  with assms(1,2) obtain items s2 where it: "each_rd ?step (kept_globals (sf_tree f) im) (plainly k) = (Inr items, s2)"
    and m: "md_classes m = classes_in items" "md_errors m = errors_in items" "md_functions m = functions_in items"
      "md_unions m = map fst (unions_in items)"
    by (auto simp: read_one_def import_of_def bind_rd_Inr Let_def)
  have l: "list_all2 (\<lambda>p x. plain_answer (?step p) x) (kept_globals (sf_tree f) im) items"
    by (rule each_plain[OF agrees_try_global it])
  have some: "x \<noteq> None \<and> handed_on (sf_here f) ?fns (sf_tree f) m p"
    if "plain_answer (?step p) x" "x \<in> set items" for p x
    by (rule global_handed_on[OF that m])
  have "list_all (handed_on (sf_here f) ?fns (sf_tree f) m) (kept_globals (sf_tree f) im)"
    unfolding list_all_iff using list_all2_from[OF l] some by blast
  moreover have "None \<notin> set items"
  proof
    assume "None \<in> set items"
    then obtain i where i: "i < length items" "items ! i = None" by (auto simp: in_set_conv_nth)
    from list_all2_nthD2[OF l i(1)] some i show False by (metis nth_mem)
  qed
  moreover have "length items = length (kept_globals (sf_tree f) im)" using l by (simp add: list_all2_lengthD)
  ultimately show ?thesis using items_count[of items] m by simp
qed

subsection \<open>Arms and branches\<close>

lemma update_values: "snd ` set (AList.update k v d) \<subseteq> insert v (snd ` set d)"
  by (induction d) auto

lemma twin_scalars_iff:
  "distinct (map fst ss) \<Longrightarrow> set (map fst ss) \<inter> snd ` set seen = {} \<Longrightarrow>
   twin_scalars seen ss \<longleftrightarrow> \<not> (distinct (map (\<lambda>(a, t). ty_python t) ss) \<and> set (map (\<lambda>(a, t). ty_python t) ss) \<inter> set (dict_keys seen) = {})"
proof (induction ss arbitrary: seen)
  case (Cons p ss)
  obtain arm t where p: "p = (arm, t)" by (cases p)
  show ?case
  proof (cases "dict_get seen (ty_python t)")
    case None
    have v: "snd ` set (dict_set (ty_python t) arm seen) \<subseteq> insert arm (snd ` set seen)"
      unfolding dict_set_def by (rule update_values)
    have k: "ty_python t \<notin> set (dict_keys seen)" using None by (simp add: map_of_eq_None_iff)
    have "set (map fst ss) \<inter> insert arm (snd ` set seen) = {}" using Cons.prems p by auto
    with v have "set (map fst ss) \<inter> snd ` set (dict_set (ty_python t) arm seen) = {}" by blast
    with Cons.IH[OF _ this] Cons.prems(1) show ?thesis
      using None k by (auto simp: p dict_keys_set simp del: set_map)
  next
    case (Some first)
    have "first \<in> snd ` set seen" using dict_get_mem[OF Some] by force
    with Cons.prems(2) p have "first \<noteq> arm" by auto
    moreover have "ty_python t \<in> set (dict_keys seen)" using Some dict_keys_get by fastforce
    ultimately show ?thesis using Some by (auto simp: p)
  qed
qed simp

text \<open>Read plainly, the arms of a union pass exactly when the generator's own rule for them does.\<close>

lemma arms_read_plain:
  assumes "dict_ok (dc_scalars (kl_decl c))"
  shows "(\<exists>u. fst (arms_read path line known c (plainly k)) = Inr u) \<longleftrightarrow> check_arms c known = Inr ()"
proof -
  have t: "twin_scalars [] (dc_scalars (kl_decl c)) \<longleftrightarrow> check_scalars c \<noteq> Inr ()"
    using twin_scalars_iff[of "dc_scalars (kl_decl c)" "[]"] assms by (simp add: check_scalars_def dict_ok_def)
  have a: "arm_read None path line c known x = Inr () \<longleftrightarrow> check_arm c known x = Inr ()" for x
    by (auto simp: arm_read_def check_arm_def excused_def refused_def split: option.splits)
  have m: "(\<exists>us. map_sums (arm_read None path line c known) as = Inr us) \<longleftrightarrow> (\<exists>us. map_res (check_arm c known) as = Inr us)" for as
    unfolding map_sums_Inr_iff map_res_Inr_iff by (induction as) (auto simp: a list_all2_Cons1)
  show ?thesis
    using t m[of "dc_arms (kl_decl c)"]
    by (auto simp: arms_read_def plainly_def check_arms_def res_bind_Inr_iff refused_def)
qed

text \<open>Choosing the arms of every \<open>if\<close> keeps, in order, the statements under them but the definitions the import did not keep.\<close>

fun flat_stmt :: "stmt \<Rightarrow> stmt list" where
  "flat_stmt (S_if l b e) = concat (map flat_stmt b) @ concat (map flat_stmt e)"
| "flat_stmt s = [s]"

definition kept_stmt :: "nat list \<Rightarrow> stmt \<Rightarrow> bool" where
  "kept_stmt live s \<longleftrightarrow> (case def_of s of None \<Rightarrow> True | Some n \<Rightarrow> set (own_lines n) \<inter> set live \<noteq> {})"

lemma concat_map_filter: "(\<And>x. x \<in> set xs \<Longrightarrow> f x = filter P (g x)) \<Longrightarrow> concat (map f xs) = filter P (concat (map g xs))"
  by (induction xs) auto

lemma resolve_stmt_filters: "resolve_stmt live s = filter (kept_stmt live) (flat_stmt s)"
proof (induction live s rule: resolve_stmt.induct)
  case (1 live l b e)
  have "concat (map (resolve_stmt live) b) = filter (kept_stmt live) (concat (map flat_stmt b))"
    "concat (map (resolve_stmt live) e) = filter (kept_stmt live) (concat (map flat_stmt e))"
    by (rule concat_map_filter, rule 1, assumption)+
  then show ?case by simp
qed (simp_all add: kept_stmt_def)

lemma resolve_filters: "choose_arms body live = filter (kept_stmt live) (concat (map flat_stmt body))"
  unfolding choose_arms_def by (rule concat_map_filter) (rule resolve_stmt_filters)

subsection \<open>A file, and what the read_state lets pass\<close>

definition answer_of :: "(stop + 'a) \<times> 'b \<Rightarrow> 'a option" where
  "answer_of r = (case fst r of Inl e \<Rightarrow> None | Inr a \<Rightarrow> Some a)"

lemma demo_reads: "map_option (\<lambda>m. (map kl_name (md_classes m), map kl_name (md_errors m), map mt_name (md_functions m), map kl_name (md_unions m)))
    (answer_of (read_file 1 demo_world ''/d/demo.py'' (plainly []))) = Some ([''Name''], [''Bad''], [''parse''], [''NameOr''])"
  by code_simp

definition demo_module :: dmodule where
  "demo_module = the (answer_of (read_file 1 demo_world ''/d/demo.py'' (plainly [])))"

lemma answered_some: "map_option g (answer_of r) = Some y \<Longrightarrow> r = (Inr (the (answer_of r)), snd r)"
  by (cases r) (auto simp: answer_of_def split: sum.splits)

lemma demo_answer: "read_file 1 demo_world ''/d/demo.py'' (plainly []) =
    (Inr demo_module, snd (read_file 1 demo_world ''/d/demo.py'' (plainly [])))"
  unfolding demo_module_def by (rule answered_some[OF demo_reads])

lemma nothing_dropped_witness:
  "list_all (handed_on HERE (definitions HERE demo_import) demo_stmts demo_module) (kept_globals demo_stmts demo_import) \<and>
   map fst (kept_globals demo_stmts demo_import) = [''Name'', ''Bad'', ''parse'', ''NameOr'']"
proof -
  have w: "dict_get (wd_files demo_world) ''/d/demo.py'' = Some demo_file" by (simp add: demo_world_def)
  have "sf_import demo_file = Inr demo_import" by (simp add: demo_file_def)
  from nothing_dropped[OF w this _ demo_answer] show ?thesis
    by (simp add: demo_file_def) code_simp
qed

text \<open>What a report leaves behind: the file that was refused is in the cache, without what was wrong, and the next read answers
  it.\<close>

lemma refused_file_cached:
  "(case read_corpus 1 async_world demo_corpus (plainly []) of (Inl es, s) \<Rightarrow> length es | _ \<Rightarrow> 0) = 1 \<and>
   answer_of (read_file 1 async_world ''/d/demo.py'' (plainly [])) = None \<and>
   map_option (\<lambda>m. map (map mt_name \<circ> kl_methods) (md_classes m))
     (answer_of (read_file 1 async_world ''/d/demo.py'' (snd (read_corpus 1 async_world demo_corpus (plainly []))))) = Some [[]]"
  by code_simp

text \<open>A second name for a class reads as the class again, and the name itself is nowhere.\<close>

lemma alias_reads_twice:
  "map_option (\<lambda>m. map kl_name (md_classes m)) (answer_of (read_file 1 alias_world ''/d/demo.py'' (plainly []))) = Some [''Name'', ''Name'']"
  by code_simp

end
