(* ===== verification/Nix_Decl.thy ===== *)
theory Nix_Decl
  imports Reader
begin

text \<open>
  What the declarations of Nix are written with: the type aliases of \<open>huggorm_dsl/declare.py\<close>, a declared method from its
  decorators as Python applies them, a parameter, a class, a union, an exception and a file.
\<close>

definition a_leaf :: "string \<Rightarrow> string \<Rightarrow> string \<Rightarrow> dtype" where
  "a_leaf python cxx width = DLeaf python (Some \<lparr>cx_spelling = cxx, cx_width = width\<rparr>) False [] []"

definition T_Str :: dtype where "T_Str = a_leaf ''str'' ''string'' []"
definition T_StrView :: dtype where "T_StrView = a_leaf ''str'' ''string_view'' []"
definition T_Bint :: dtype where "T_Bint = a_leaf ''bool'' ''bint'' []"
definition T_Bytes :: dtype where "T_Bytes = a_leaf ''bytes'' ''string'' []"
definition T_U64 :: dtype where "T_U64 = a_leaf ''int'' ''uint64_t'' ''uint''"
definition T_I64 :: dtype where "T_I64 = a_leaf ''int'' ''int64_t'' []"
definition T_F64 :: dtype where "T_F64 = a_leaf ''float'' ''double'' []"
definition T_Path :: dtype where
  "T_Path = DLeaf ''pathlib.Path'' (Some \<lparr>cx_spelling = ''string'', cx_width = []\<rparr>) False ''pathlib'' ''anyio.Path''"
definition T_Duration :: dtype where
  "T_Duration = DLeaf ''datetime.timedelta'' (Some \<lparr>cx_spelling = ''microseconds'', cx_width = []\<rparr>) False ''datetime'' []"
definition T_PyFunc :: dtype where "T_PyFunc = a_leaf ''object'' ''nb::object'' []"

definition T_plain :: "string \<Rightarrow> dtype" where "T_plain n = DLeaf n None False [] []"
definition T_bound :: "string \<Rightarrow> dtype" where "T_bound n = DLeaf n None True [] []"
abbreviation T_opt :: "dtype \<Rightarrow> dtype" where "T_opt \<equiv> DWrap OPTIONAL_OF"
abbreviation T_list :: "dtype \<Rightarrow> dtype" where "T_list \<equiv> DWrap LIST_OF"
abbreviation T_dict :: "dtype \<Rightarrow> dtype" where "T_dict \<equiv> DWrap DICT_OF"

definition a_word :: "string \<Rightarrow> dtype \<Rightarrow> pyval \<Rightarrow> string \<Rightarrow> param" where
  "a_word n t v m = \<lparr>pm_name = n, pm_type = t, pm_default = Some v, pm_member = m\<rparr>"

definition a_default :: "string \<Rightarrow> dtype \<Rightarrow> pyval \<Rightarrow> param" where
  "a_default n t v = a_word n t v []"

definition a_param :: "string \<Rightarrow> dtype \<Rightarrow> param" where
  "a_param n t = \<lparr>pm_name = n, pm_type = t, pm_default = None, pm_member = []\<rparr>"

definition declared_class :: "string \<Rightarrow> pyclass" where
  "declared_class n = \<lparr>pc_module = DECLARATIONS, pc_name = n, pc_dir = None\<rparr>"

text \<open>A method or function as it is written: its name, its decorators, its parameters but \<open>self\<close>, what it returns and whether
  its body carries C++; and what the reader makes of it once Python has applied the decorators.\<close>

datatype written = Written (wr_name: string) (wr_decos: "meth_deco list") (wr_params: "param list") (wr_ret: "dtype option") (wr_body: bool)

definition declared :: "written \<Rightarrow> meth" where
  "declared w = (let h = (case decorated (wr_decos w) of Inl e \<Rightarrow> H_fn no_marks | Inr h \<Rightarrow> h);
       m = (case under h of None \<Rightarrow> no_marks | Some m \<Rightarrow> m) in
     \<lparr>mt_name = wr_name w, mt_params = wr_params w, mt_ret = wr_ret w, mt_blocks = ms_blocks m, mt_prop = is_property h,
      mt_reads = ms_reads m, mt_body = wr_body w, mt_guard = ms_guard m, mt_names = ms_names m, mt_fills = ms_fills m,
      mt_local = ms_local m, mt_virtual = ms_virtual m, mt_posted = ms_posted m, mt_wire_read = ms_wire_read m,
      mt_spells = ms_spells m, mt_startup = ms_startup m, mt_translator = ms_translator m, mt_policy = ms_policy m,
      mt_subscription = ms_subscription m\<rparr>)"

definition marked_decl :: "class_mark list \<Rightarrow> decl" where
  "marked_decl ms = (case class_marked ms new_decl of Inl e \<Rightarrow> new_decl | Inr d \<Rightarrow> d)"

definition union_class :: "string \<Rightarrow> string list \<Rightarrow> (string, dtype) dict \<Rightarrow> variant option \<Rightarrow> dclass" where
  "union_class n arms scalars v = \<lparr>kl_name = n,
     kl_decl = new_decl\<lparr>dc_kind := UNION_KIND, dc_arms := arms, dc_wire := By_value, dc_variant := v, dc_scalars := scalars\<rparr>,
     kl_ctor = None, kl_methods = [], kl_from_parts = None, kl_raised = None\<rparr>"

definition error_class :: "string \<Rightarrow> string list \<Rightarrow> (string \<times> dtype) list \<Rightarrow> string \<Rightarrow> dclass" where
  "error_class n bases ps cxx = \<lparr>kl_name = n, kl_decl = new_decl\<lparr>dc_kind := ERROR_KIND\<rparr>, kl_ctor = None, kl_methods = [],
     kl_from_parts = None, kl_raised = Some \<lparr>ra_bases = bases, ra_parts = ps, ra_cxx = cxx\<rparr>\<rparr>"

text \<open>A file, with what the files it imports offer it.\<close>

definition declared_file :: "string \<Rightarrow> dclass list \<Rightarrow> meth list \<Rightarrow> dclass list \<Rightarrow> dclass list \<Rightarrow> dmodule list \<Rightarrow> dmodule" where
  "declared_file n cs fns us es files = \<lparr>md_name = n, md_classes = cs, md_functions = fns, md_unions = us,
     md_uses = fold (\<lambda>(k, c) d. dict_set k c d) (concat (map (\<lambda>f. offers (Some f)) files)) [], md_errors = es\<rparr>"

section \<open>The vocabularies, \<open>words.py\<close>\<close>

text \<open>
  Each definition is a part of \<open>huggorm_decl/decl/\<close> as the reader's records hold it, on Nix 2.34: a class with
  its decorators as written, its constructor and its methods, a function, a union, and the file with what it imports.
  Docstrings and C++ bodies are left out; a method says whether it carries one.
\<close>

definition nx_ContentAddressMethod_words :: "(string \<times> string) list" where
  "nx_ContentAddressMethod_words = 
    [(''FLAT'', ''flat''), (''NAR'', ''nar''), (''GIT'', ''git''), (''TEXT'', ''text'')]"

definition nx_ContentAddressMethod_marks :: "class_mark list" where
  "nx_ContentAddressMethod_marks = 
    [C_header ''nix/store/content-address.hh'', C_words ''nix::ContentAddressMethod::parse'' (Some \<lparr>en_cxx = ''nix::ContentAddressMethod::Raw'', en_wrapped = (Some (''nix::ContentAddressMethod'', ''raw''))\<rparr>)]"

definition nx_ContentAddressMethod :: "dclass" where
  "nx_ContentAddressMethod = \<lparr>kl_name = ''ContentAddressMethod'', kl_decl = marked_decl nx_ContentAddressMethod_marks,
     kl_ctor = None, kl_methods = [], kl_from_parts = None, kl_raised = None\<rparr>"

definition nx_HashAlgorithm_words :: "(string \<times> string) list" where
  "nx_HashAlgorithm_words = 
    [(''MD5'', ''md5''), (''SHA1'', ''sha1''), (''SHA256'', ''sha256''), (''SHA512'', ''sha512''), (''BLAKE3'', ''blake3'')]"

definition nx_HashAlgorithm_marks :: "class_mark list" where
  "nx_HashAlgorithm_marks = 
    [C_header ''nix/util/hash.hh'', C_words ''nix::parseHashAlgo'' (Some \<lparr>en_cxx = ''nix::HashAlgorithm'', en_wrapped = None\<rparr>)]"

definition nx_HashAlgorithm :: "dclass" where
  "nx_HashAlgorithm = \<lparr>kl_name = ''HashAlgorithm'', kl_decl = marked_decl nx_HashAlgorithm_marks,
     kl_ctor = None, kl_methods = [], kl_from_parts = None, kl_raised = None\<rparr>"

definition nx_FileSerialisationMethod_words :: "(string \<times> string) list" where
  "nx_FileSerialisationMethod_words = 
    [(''FLAT'', ''flat''), (''NAR'', ''nar'')]"

definition nx_FileSerialisationMethod_marks :: "class_mark list" where
  "nx_FileSerialisationMethod_marks = 
    [C_header ''nix/util/file-content-address.hh'', C_words ''nix::parseFileSerialisationMethod'' (Some \<lparr>en_cxx = ''nix::FileSerialisationMethod'', en_wrapped = None\<rparr>)]"

definition nx_FileSerialisationMethod :: "dclass" where
  "nx_FileSerialisationMethod = \<lparr>kl_name = ''FileSerialisationMethod'', kl_decl = marked_decl nx_FileSerialisationMethod_marks,
     kl_ctor = None, kl_methods = [], kl_from_parts = None, kl_raised = None\<rparr>"

definition nx_BuildMode_words :: "(string \<times> string) list" where
  "nx_BuildMode_words = 
    [(''NORMAL'', ''normal''), (''REPAIR'', ''repair''), (''CHECK'', ''check'')]"

definition nx_BuildMode_marks :: "class_mark list" where
  "nx_BuildMode_marks = 
    [C_header ''nix/store/store-api.hh'', C_words [] (Some \<lparr>en_cxx = ''nix::BuildMode'', en_wrapped = None\<rparr>)]"

definition nx_BuildMode :: "dclass" where
  "nx_BuildMode = \<lparr>kl_name = ''BuildMode'', kl_decl = marked_decl nx_BuildMode_marks,
     kl_ctor = None, kl_methods = [], kl_from_parts = None, kl_raised = None\<rparr>"

definition nx_BuildSuccessStatus_words :: "(string \<times> string) list" where
  "nx_BuildSuccessStatus_words = 
    [(''BUILT'', ''built''), (''SUBSTITUTED'', ''substituted''), (''ALREADY_VALID'', ''already-valid''), (''RESOLVES_TO_ALREADY_VALID'', ''resolves-to-already-valid'')]"

definition nx_BuildSuccessStatus_marks :: "class_mark list" where
  "nx_BuildSuccessStatus_marks = 
    [C_header ''nix/store/build-result.hh'', C_words [] (Some \<lparr>en_cxx = ''nix::BuildResultSuccessStatus'', en_wrapped = None\<rparr>)]"

definition nx_BuildSuccessStatus :: "dclass" where
  "nx_BuildSuccessStatus = \<lparr>kl_name = ''BuildSuccessStatus'', kl_decl = marked_decl nx_BuildSuccessStatus_marks,
     kl_ctor = None, kl_methods = [], kl_from_parts = None, kl_raised = None\<rparr>"

definition nx_BuildFailureStatus_words :: "(string \<times> string) list" where
  "nx_BuildFailureStatus_words = 
    [(''PERMANENT_FAILURE'', ''permanent-failure''), (''INPUT_REJECTED'', ''input-rejected''), (''OUTPUT_REJECTED'', ''output-rejected''), (''TRANSIENT_FAILURE'', ''transient-failure''), (''CACHED_FAILURE'', ''cached-failure''), (''TIMED_OUT'', ''timed-out''), (''MISC_FAILURE'', ''misc-failure''), (''DEPENDENCY_FAILED'', ''dependency-failed''), (''LOG_LIMIT_EXCEEDED'', ''log-limit-exceeded''), (''NOT_DETERMINISTIC'', ''not-deterministic''), (''NO_SUBSTITUTERS'', ''no-substituters''), (''HASH_MISMATCH'', ''hash-mismatch'')]"

definition nx_BuildFailureStatus_marks :: "class_mark list" where
  "nx_BuildFailureStatus_marks = 
    [C_header ''nix/store/build-result.hh'', C_words [] (Some \<lparr>en_cxx = ''nix::BuildResultFailureStatus'', en_wrapped = None\<rparr>)]"

definition nx_BuildFailureStatus :: "dclass" where
  "nx_BuildFailureStatus = \<lparr>kl_name = ''BuildFailureStatus'', kl_decl = marked_decl nx_BuildFailureStatus_marks,
     kl_ctor = None, kl_methods = [], kl_from_parts = None, kl_raised = None\<rparr>"

definition nx_TrustedFlag_words :: "(string \<times> string) list" where
  "nx_TrustedFlag_words = 
    [(''TRUSTED'', ''trusted''), (''NOT_TRUSTED'', ''not-trusted'')]"

definition nx_TrustedFlag_marks :: "class_mark list" where
  "nx_TrustedFlag_marks = 
    [C_header ''nix/store/store-api.hh'', C_words [] (Some \<lparr>en_cxx = ''nix::TrustedFlag'', en_wrapped = None\<rparr>)]"

definition nx_TrustedFlag :: "dclass" where
  "nx_TrustedFlag = \<lparr>kl_name = ''TrustedFlag'', kl_decl = marked_decl nx_TrustedFlag_marks,
     kl_ctor = None, kl_methods = [], kl_from_parts = None, kl_raised = None\<rparr>"

definition nx_GCAction_words :: "(string \<times> string) list" where
  "nx_GCAction_words = 
    [(''RETURN_LIVE'', ''return-live''), (''RETURN_DEAD'', ''return-dead''), (''DELETE_DEAD'', ''delete-dead''), (''DELETE_SPECIFIC'', ''delete-specific'')]"

definition nx_GCAction_marks :: "class_mark list" where
  "nx_GCAction_marks = 
    [C_header ''nix/store/gc-store.hh'', C_words [] (Some \<lparr>en_cxx = ''nix::GCAction'', en_wrapped = None\<rparr>)]"

definition nx_GCAction :: "dclass" where
  "nx_GCAction = \<lparr>kl_name = ''GCAction'', kl_decl = marked_decl nx_GCAction_marks,
     kl_ctor = None, kl_methods = [], kl_from_parts = None, kl_raised = None\<rparr>"

definition nx_RegistryType_words :: "(string \<times> string) list" where
  "nx_RegistryType_words = 
    [(''FLAG'', ''flag''), (''USER'', ''user''), (''SYSTEM'', ''system''), (''GLOBAL'', ''global''), (''CUSTOM'', ''custom'')]"

definition nx_RegistryType_marks :: "class_mark list" where
  "nx_RegistryType_marks = 
    [C_header ''nix/fetchers/registry.hh'', C_words [] (Some \<lparr>en_cxx = ''nix::fetchers::Registry::RegistryType'', en_wrapped = None\<rparr>)]"

definition nx_RegistryType :: "dclass" where
  "nx_RegistryType = \<lparr>kl_name = ''RegistryType'', kl_decl = marked_decl nx_RegistryType_marks,
     kl_ctor = None, kl_methods = [], kl_from_parts = None, kl_raised = None\<rparr>"

definition nx_FileType_words :: "(string \<times> string) list" where
  "nx_FileType_words = 
    [(''REGULAR'', ''regular''), (''SYMLINK'', ''symlink''), (''DIRECTORY'', ''directory''), (''CHAR'', ''character device''), (''BLOCK'', ''block device''), (''SOCKET'', ''socket''), (''FIFO'', ''fifo''), (''UNKNOWN'', ''unknown'')]"

definition nx_FileType_marks :: "class_mark list" where
  "nx_FileType_marks = 
    [C_header ''nix/util/source-accessor.hh'', C_words [] (Some \<lparr>en_cxx = ''nix::SourceAccessor::Type'', en_wrapped = None\<rparr>)]"

definition nx_FileType :: "dclass" where
  "nx_FileType = \<lparr>kl_name = ''FileType'', kl_decl = marked_decl nx_FileType_marks,
     kl_ctor = None, kl_methods = [], kl_from_parts = None, kl_raised = None\<rparr>"

definition nx_words_file :: dmodule where
  "nx_words_file = declared_file ''words'' [nx_ContentAddressMethod, nx_HashAlgorithm, nx_FileSerialisationMethod, nx_BuildMode, nx_BuildSuccessStatus, nx_BuildFailureStatus, nx_TrustedFlag, nx_GCAction, nx_RegistryType, nx_FileType]
     [] [] []
     []"

section \<open>Store paths and where an error is, \<open>path.py\<close>\<close>

definition nx_StorePath_methods_1 :: "written list" where
  "nx_StorePath_methods_1 = 
    [Written ''to_string'' [] [] (Some T_StrView) False,
     Written ''name'' [] [] (Some T_StrView) False,
     Written ''hash_part'' [Marked (M_cxx_name ''hashPart'')] [] (Some T_StrView) False,
     Written ''is_derivation'' [Marked (M_cxx_name ''isDerivation'')] [] (Some T_Bint) False]"

definition nx_StorePath_marks :: "class_mark list" where
  "nx_StorePath_marks = 
    [C_header ''nix/store/path.hh'', C_binding ''nix::StorePath'' ''pool'' [] False [] ''nix::StorePathSet'', C_wire_value [PField ''base_name'' ''to_string''] ''cxx'' ''to_string'' True [] False]"

definition nx_StorePath_init :: "written" where
  "nx_StorePath_init = Written ''__init__'' [] [a_param ''base_name'' T_Str] None False"

definition nx_StorePath :: "dclass" where
  "nx_StorePath = \<lparr>kl_name = ''StorePath'',
     kl_decl = marked_decl nx_StorePath_marks,
     kl_ctor = Some (declared nx_StorePath_init),
     kl_methods = map declared nx_StorePath_methods_1,
     kl_from_parts = None, kl_raised = None\<rparr>"

definition nx_Position_methods_1 :: "written list" where
  "nx_Position_methods_1 = 
    [Written ''file'' [Marked (M_wire_read ''file_bytes'')] [] (Some T_Str) False,
     Written ''line'' [] [] (Some T_I64) False,
     Written ''column'' [] [] (Some T_I64) False,
     Written ''file_bytes'' [Marked M_local, Marked (M_reads ''file'' [])] [] (Some T_Bytes) False]"

definition nx_Position_marks :: "class_mark list" where
  "nx_Position_marks = 
    [C_produced, C_binding [] ''pool'' [] False [] [], C_wire_value [] ''parts'' [] False [] False]"

definition nx_Position :: "dclass" where
  "nx_Position = \<lparr>kl_name = ''Position'',
     kl_decl = marked_decl nx_Position_marks,
     kl_ctor = None,
     kl_methods = map declared nx_Position_methods_1,
     kl_from_parts = None, kl_raised = None\<rparr>"

definition nx_Trace_methods_1 :: "written list" where
  "nx_Trace_methods_1 = 
    [Written ''hint'' [Marked (M_wire_read ''hint_bytes'')] [] (Some T_Str) False,
     Written ''pos'' [] [] (Some (T_opt (T_bound ''Position''))) False,
     Written ''hint_bytes'' [Marked M_local, Marked (M_reads ''hint'' [])] [] (Some T_Bytes) False]"

definition nx_Trace_marks :: "class_mark list" where
  "nx_Trace_marks = 
    [C_produced, C_binding [] ''pool'' [] False [] [], C_wire_value [] ''parts'' [] False [] False]"

definition nx_Trace :: "dclass" where
  "nx_Trace = \<lparr>kl_name = ''Trace'',
     kl_decl = marked_decl nx_Trace_marks,
     kl_ctor = None,
     kl_methods = map declared nx_Trace_methods_1,
     kl_from_parts = None, kl_raised = None\<rparr>"

definition nx_ErrorInfo_methods_1 :: "written list" where
  "nx_ErrorInfo_methods_1 = 
    [Written ''level'' [] [] (Some T_I64) False,
     Written ''msg'' [Marked (M_wire_read ''msg_bytes'')] [] (Some T_Str) False,
     Written ''msg_bytes'' [Marked M_local, Marked (M_reads ''msg'' [])] [] (Some T_Bytes) False,
     Written ''pos'' [] [] (Some (T_opt (T_bound ''Position''))) False,
     Written ''is_from_expr'' [] [] (Some T_Bint) False,
     Written ''status'' [] [] (Some T_I64) False,
     Written ''traces'' [] [] (Some (T_list (T_bound ''Trace''))) False,
     Written ''truncated'' [] [] (Some T_Bint) False,
     Written ''suggestions'' [Marked (M_wire_read ''suggestions_bytes'')] [] (Some (T_list T_Str)) False,
     Written ''suggestions_bytes'' [Marked M_local, Marked (M_reads ''suggestions'' [])] [] (Some (T_list T_Bytes)) False]"

definition nx_ErrorInfo_marks :: "class_mark list" where
  "nx_ErrorInfo_marks = 
    [C_produced, C_binding [] ''pool'' [] False [] [], C_wire_value [] ''parts'' [] False [] False]"

definition nx_ErrorInfo :: "dclass" where
  "nx_ErrorInfo = \<lparr>kl_name = ''ErrorInfo'',
     kl_decl = marked_decl nx_ErrorInfo_marks,
     kl_ctor = None,
     kl_methods = map declared nx_ErrorInfo_methods_1,
     kl_from_parts = None, kl_raised = None\<rparr>"

definition nx_path_functions_1 :: "written list" where
  "nx_path_functions_1 = 
    [Written ''_init_libstore'' [Marked (M_needs [''huggorm_decl/cpp/libstore.hpp'']), Marked (M_binds ''huggorm::init_libstore''), Marked M_startup] [] None False,
     Written ''_translate_nix_error'' [Marked (M_needs [''huggorm_decl/cpp/errors.hpp'', ''huggorm_decl/cpp/error_info.hpp'']), Marked (M_binds ''huggorm::translate_nix_error''), Marked M_translator] [] None False]"

definition nx_path_file :: dmodule where
  "nx_path_file = declared_file ''path'' [nx_StorePath, nx_Position, nx_Trace, nx_ErrorInfo]
     (map declared (nx_path_functions_1)) [] []
     []"

section \<open>The exceptions, \<open>errors.py\<close>\<close>

definition nx_NixError :: "dclass" where
  "nx_NixError = error_class ''NixError'' [] [(''message'', (T_plain ''str'')), (''colored'', (T_plain ''str'')), (''info'', (T_opt (T_bound ''ErrorInfo'')))] ''nix::Error''"

definition nx_UsageError :: "dclass" where
  "nx_UsageError = error_class ''UsageError'' [''NixError''] [(''message'', (T_plain ''str'')), (''colored'', (T_plain ''str'')), (''info'', (T_opt (T_bound ''ErrorInfo'')))] ''nix::UsageError''"

definition nx_SysError :: "dclass" where
  "nx_SysError = error_class ''SysError'' [''NixError''] [(''message'', (T_plain ''str'')), (''colored'', (T_plain ''str'')), (''info'', (T_opt (T_bound ''ErrorInfo'')))] ''nix::SystemError''"

definition nx_Unsupported :: "dclass" where
  "nx_Unsupported = error_class ''Unsupported'' [''NixError''] [(''message'', (T_plain ''str'')), (''colored'', (T_plain ''str'')), (''info'', (T_opt (T_bound ''ErrorInfo'')))] ''nix::Unsupported''"

definition nx_InvalidPath :: "dclass" where
  "nx_InvalidPath = error_class ''InvalidPath'' [''NixError''] [(''message'', (T_plain ''str'')), (''colored'', (T_plain ''str'')), (''info'', (T_opt (T_bound ''ErrorInfo'')))] ''nix::InvalidPath''"

definition nx_BadStorePath :: "dclass" where
  "nx_BadStorePath = error_class ''BadStorePath'' [''NixError''] [(''message'', (T_plain ''str'')), (''colored'', (T_plain ''str'')), (''info'', (T_opt (T_bound ''ErrorInfo'')))] ''nix::BadStorePath''"

definition nx_BadStorePathName :: "dclass" where
  "nx_BadStorePathName = error_class ''BadStorePathName'' [''BadStorePath''] [(''message'', (T_plain ''str'')), (''colored'', (T_plain ''str'')), (''info'', (T_opt (T_bound ''ErrorInfo'')))] ''nix::BadStorePathName''"

definition nx_UnimplementedError :: "dclass" where
  "nx_UnimplementedError = error_class ''UnimplementedError'' [''NixError''] [(''message'', (T_plain ''str'')), (''colored'', (T_plain ''str'')), (''info'', (T_opt (T_bound ''ErrorInfo'')))] ''nix::UnimplementedError''"

definition nx_ParseError :: "dclass" where
  "nx_ParseError = error_class ''ParseError'' [''NixError''] [(''message'', (T_plain ''str'')), (''colored'', (T_plain ''str'')), (''info'', (T_opt (T_bound ''ErrorInfo'')))] ''nix::ParseError''"

definition nx_EvalBaseError :: "dclass" where
  "nx_EvalBaseError = error_class ''EvalBaseError'' [''NixError''] [(''message'', (T_plain ''str'')), (''colored'', (T_plain ''str'')), (''info'', (T_opt (T_bound ''ErrorInfo'')))] ''nix::EvalBaseError''"

definition nx_EvalError :: "dclass" where
  "nx_EvalError = error_class ''EvalError'' [''EvalBaseError''] [(''message'', (T_plain ''str'')), (''colored'', (T_plain ''str'')), (''info'', (T_opt (T_bound ''ErrorInfo'')))] ''nix::EvalError''"

definition nx_NixTypeError :: "dclass" where
  "nx_NixTypeError = error_class ''NixTypeError'' [''EvalError''] [(''message'', (T_plain ''str'')), (''colored'', (T_plain ''str'')), (''info'', (T_opt (T_bound ''ErrorInfo'')))] ''nix::TypeError''"

definition nx_UndefinedVarError :: "dclass" where
  "nx_UndefinedVarError = error_class ''UndefinedVarError'' [''EvalError''] [(''message'', (T_plain ''str'')), (''colored'', (T_plain ''str'')), (''info'', (T_opt (T_bound ''ErrorInfo'')))] ''nix::UndefinedVarError''"

definition nx_NixAssertionError :: "dclass" where
  "nx_NixAssertionError = error_class ''NixAssertionError'' [''EvalError''] [(''message'', (T_plain ''str'')), (''colored'', (T_plain ''str'')), (''info'', (T_opt (T_bound ''ErrorInfo'')))] ''nix::AssertionError''"

definition nx_ThrownError :: "dclass" where
  "nx_ThrownError = error_class ''ThrownError'' [''NixAssertionError''] [(''message'', (T_plain ''str'')), (''colored'', (T_plain ''str'')), (''info'', (T_opt (T_bound ''ErrorInfo'')))] ''nix::ThrownError''"

definition nx_Abort :: "dclass" where
  "nx_Abort = error_class ''Abort'' [''EvalError''] [(''message'', (T_plain ''str'')), (''colored'', (T_plain ''str'')), (''info'', (T_opt (T_bound ''ErrorInfo'')))] ''nix::Abort''"

definition nx_MissingAttribute :: "dclass" where
  "nx_MissingAttribute = error_class ''MissingAttribute'' [''EvalError''] [(''message'', (T_plain ''str'')), (''colored'', (T_plain ''str'')), (''info'', (T_opt (T_bound ''ErrorInfo'')))] ''huggorm::MissingAttribute''"

definition nx_ListIndex :: "dclass" where
  "nx_ListIndex = error_class ''ListIndex'' [''EvalError''] [(''message'', (T_plain ''str'')), (''colored'', (T_plain ''str'')), (''info'', (T_opt (T_bound ''ErrorInfo'')))] ''huggorm::ListIndex''"

definition nx_Interrupted :: "dclass" where
  "nx_Interrupted = error_class ''Interrupted'' [] [(''message'', (T_plain ''str'')), (''colored'', (T_plain ''str''))] ''nix::Interrupted''"

definition nx_BuildError :: "dclass" where
  "nx_BuildError = error_class ''BuildError'' [''NixError''] [(''message'', (T_plain ''str'')), (''colored'', (T_plain ''str'')), (''status'', (T_plain ''str'')), (''is_non_deterministic'', (T_plain ''bool''))] []"

definition nx_errors_file :: dmodule where
  "nx_errors_file = declared_file ''errors'' []
     [] [] [nx_NixError, nx_UsageError, nx_SysError, nx_Unsupported, nx_InvalidPath, nx_BadStorePath, nx_BadStorePathName, nx_UnimplementedError, nx_ParseError, nx_EvalBaseError, nx_EvalError, nx_NixTypeError, nx_UndefinedVarError, nx_NixAssertionError, nx_ThrownError, nx_Abort, nx_MissingAttribute, nx_ListIndex, nx_Interrupted, nx_BuildError]
     [nx_path_file]"

end
