(* ===== verification/Nix_Values.thy ===== *)
theory Nix_Values
  imports Nix_Decl
begin

text \<open>
  What the declarations say of the values that cross: hashes, derivations, realisations, results of builds, collections and
  references. Each definition is a part of \<open>huggorm_decl/decl/\<close> as the reader's records hold it, on Nix 2.34: a
  class with its decorators as written, its constructor and its methods, a function, a union, and the file with what it
  imports. Docstrings and C++ bodies are left out; a method says whether it carries one.
\<close>

definition nx_Hash_methods_1 :: "written list" where
  "nx_Hash_methods_1 = 
    [Written ''algorithm'' [Marked (M_reads ''algo'' [])] [] (Some (T_bound ''HashAlgorithm'')) False,
     Written ''digest'' [] [] (Some T_Bytes) True]"

definition nx_Hash_methods_2 :: "written list" where
  "nx_Hash_methods_2 = 
    [Written ''to_string'' [Marked M_local, Marked M_instant] [] (Some T_Str) True]"

definition nx_Hash_methods_3 :: "written list" where
  "nx_Hash_methods_3 = 
    [Written ''base16'' [Marked M_local, Marked M_instant] [] (Some T_Str) True]"

definition nx_Hash_methods_4 :: "written list" where
  "nx_Hash_methods_4 = 
    [Written ''sri'' [Marked M_local, Marked M_instant] [] (Some T_Str) True]"

definition nx_Hash_marks :: "class_mark list" where
  "nx_Hash_marks = 
    [C_header ''nix/util/hash.hh'', C_binding ''nix::Hash'' ''pool'' [] False [] [], C_wire_value [] ''cxx'' ''to_string'' True [] False]"

definition nx_Hash_init :: "written" where
  "nx_Hash_init = Written ''__init__'' [] [a_param ''algorithm'' (T_bound ''HashAlgorithm''), a_param ''digest'' T_Bytes] None True"

definition nx_Hash :: "dclass" where
  "nx_Hash = \<lparr>kl_name = ''Hash'',
     kl_decl = marked_decl nx_Hash_marks,
     kl_ctor = Some (declared nx_Hash_init),
     kl_methods = map declared (nx_Hash_methods_1 @ nx_Hash_methods_2 @ nx_Hash_methods_3 @ nx_Hash_methods_4),
     kl_from_parts = None, kl_raised = None\<rparr>"

definition nx_hash_file :: dmodule where
  "nx_hash_file = declared_file ''hash'' [nx_Hash]
     [] [] []
     [nx_words_file]"

definition nx_Signature_methods_1 :: "written list" where
  "nx_Signature_methods_1 = 
    [Written ''key_name'' [Marked (M_reads ''keyName'' [])] [] (Some T_Str) False,
     Written ''sig'' [Marked (M_reads ''sig'' [])] [] (Some T_Bytes) False,
     Written ''to_string'' [Marked M_local, Marked M_instant] [] (Some T_Str) False]"

definition nx_Signature_marks :: "class_mark list" where
  "nx_Signature_marks = 
    [C_header ''nix/util/signature/local-keys.hh'', C_binding ''nix::Signature'' ''pool'' [] False [] [], C_wire_value [] ''cxx'' ''to_string'' True [] False]"

definition nx_Signature_init :: "written" where
  "nx_Signature_init = Written ''__init__'' [] [a_param ''key_name'' T_Str, a_param ''sig'' T_Bytes] None True"

definition nx_Signature :: "dclass" where
  "nx_Signature = \<lparr>kl_name = ''Signature'',
     kl_decl = marked_decl nx_Signature_marks,
     kl_ctor = Some (declared nx_Signature_init),
     kl_methods = map declared nx_Signature_methods_1,
     kl_from_parts = None, kl_raised = None\<rparr>"

definition nx_signature_file :: dmodule where
  "nx_signature_file = declared_file ''signature'' [nx_Signature]
     [] [] []
     []"

definition nx_ContentAddress_methods_1 :: "written list" where
  "nx_ContentAddress_methods_1 = 
    [Written ''method'' [Marked (M_reads ''method'' [])] [] (Some (T_bound ''ContentAddressMethod'')) False,
     Written ''hash'' [Marked (M_reads ''hash'' [])] [] (Some (T_bound ''Hash'')) False,
     Written ''render'' [Marked M_local, Marked M_instant] [] (Some T_Str) False]"

definition nx_ContentAddress_marks :: "class_mark list" where
  "nx_ContentAddress_marks = 
    [C_header ''nix/store/content-address.hh'', C_binding ''nix::ContentAddress'' ''pool'' [] False [] [], C_wire_value [] ''cxx'' ''render'' True [] False]"

definition nx_ContentAddress_init :: "written" where
  "nx_ContentAddress_init = Written ''__init__'' [] [a_param ''method'' (T_bound ''ContentAddressMethod''), a_param ''hash'' (T_bound ''Hash'')] None True"

definition nx_ContentAddress :: "dclass" where
  "nx_ContentAddress = \<lparr>kl_name = ''ContentAddress'',
     kl_decl = marked_decl nx_ContentAddress_marks,
     kl_ctor = Some (declared nx_ContentAddress_init),
     kl_methods = map declared nx_ContentAddress_methods_1,
     kl_from_parts = None, kl_raised = None\<rparr>"

definition nx_content_address_file :: dmodule where
  "nx_content_address_file = declared_file ''content_address'' [nx_ContentAddress]
     [] [] []
     [nx_hash_file, nx_words_file]"

definition nx_OutputsSpec_methods_1 :: "written list" where
  "nx_OutputsSpec_methods_1 = 
    [Written ''all'' [] [] (Some T_Bint) True]"

definition nx_OutputsSpec_methods_2 :: "written list" where
  "nx_OutputsSpec_methods_2 = 
    [Written ''names'' [] [] (Some (T_list T_Str)) True]"

definition nx_OutputsSpec_marks :: "class_mark list" where
  "nx_OutputsSpec_marks = 
    [C_header ''nix/store/outputs-spec.hh'', C_binding ''nix::OutputsSpec'' ''pool'' [] False [] [], C_wire_value [] ''cxx'' [] False [] False]"

definition nx_OutputsSpec_init :: "written" where
  "nx_OutputsSpec_init = Written ''__init__'' [] [a_default ''all'' T_Bint (PBool False), a_default ''names'' (T_opt (T_list T_Str)) PNone] None True"

definition nx_OutputsSpec :: "dclass" where
  "nx_OutputsSpec = \<lparr>kl_name = ''OutputsSpec'',
     kl_decl = marked_decl nx_OutputsSpec_marks,
     kl_ctor = Some (declared nx_OutputsSpec_init),
     kl_methods = map declared (nx_OutputsSpec_methods_1 @ nx_OutputsSpec_methods_2),
     kl_from_parts = None, kl_raised = None\<rparr>"

definition nx_SingleDerivedPathBuilt_methods_1 :: "written list" where
  "nx_SingleDerivedPathBuilt_methods_1 = 
    [Written ''drv_path'' [] [] (Some (T_bound ''SingleDerivedPath'')) True]"

definition nx_SingleDerivedPathBuilt_methods_2 :: "written list" where
  "nx_SingleDerivedPathBuilt_methods_2 = 
    [Written ''output'' [Marked (M_reads ''output'' [])] [] (Some T_Str) False]"

definition nx_SingleDerivedPathBuilt_marks :: "class_mark list" where
  "nx_SingleDerivedPathBuilt_marks = 
    [C_header ''nix/store/derived-path.hh'', C_binding ''nix::SingleDerivedPathBuilt'' ''pool'' [] False [] [], C_wire_value [] ''cxx'' [] False [] False]"

definition nx_SingleDerivedPathBuilt_init :: "written" where
  "nx_SingleDerivedPathBuilt_init = Written ''__init__'' [] [a_param ''drv_path'' (T_bound ''SingleDerivedPath''), a_param ''output'' T_Str] None True"

definition nx_SingleDerivedPathBuilt :: "dclass" where
  "nx_SingleDerivedPathBuilt = \<lparr>kl_name = ''SingleDerivedPathBuilt'',
     kl_decl = marked_decl nx_SingleDerivedPathBuilt_marks,
     kl_ctor = Some (declared nx_SingleDerivedPathBuilt_init),
     kl_methods = map declared (nx_SingleDerivedPathBuilt_methods_1 @ nx_SingleDerivedPathBuilt_methods_2),
     kl_from_parts = None, kl_raised = None\<rparr>"

definition nx_SingleDerivedPath :: "dclass" where
  "nx_SingleDerivedPath = union_class ''SingleDerivedPath'' [''StorePath'', ''SingleDerivedPathBuilt''] [] (Some \<lparr>va_cxx = ''nix::SingleDerivedPath'', va_wraps = [(''StorePath'', ''nix::DerivedPathOpaque'', ''path'')]\<rparr>)"

definition nx_DerivedPathBuilt_methods_1 :: "written list" where
  "nx_DerivedPathBuilt_methods_1 = 
    [Written ''drv_path'' [] [] (Some (T_bound ''SingleDerivedPath'')) True]"

definition nx_DerivedPathBuilt_methods_2 :: "written list" where
  "nx_DerivedPathBuilt_methods_2 = 
    [Written ''outputs'' [Marked (M_reads ''outputs'' [])] [] (Some (T_bound ''OutputsSpec'')) False]"

definition nx_DerivedPathBuilt_marks :: "class_mark list" where
  "nx_DerivedPathBuilt_marks = 
    [C_header ''nix/store/derived-path.hh'', C_binding ''nix::DerivedPathBuilt'' ''pool'' [] False [] [], C_wire_value [] ''cxx'' [] False [] False]"

definition nx_DerivedPathBuilt_init :: "written" where
  "nx_DerivedPathBuilt_init = Written ''__init__'' [] [a_param ''drv_path'' (T_bound ''SingleDerivedPath''), a_param ''outputs'' (T_bound ''OutputsSpec'')] None True"

definition nx_DerivedPathBuilt :: "dclass" where
  "nx_DerivedPathBuilt = \<lparr>kl_name = ''DerivedPathBuilt'',
     kl_decl = marked_decl nx_DerivedPathBuilt_marks,
     kl_ctor = Some (declared nx_DerivedPathBuilt_init),
     kl_methods = map declared (nx_DerivedPathBuilt_methods_1 @ nx_DerivedPathBuilt_methods_2),
     kl_from_parts = None, kl_raised = None\<rparr>"

definition nx_DerivedPath :: "dclass" where
  "nx_DerivedPath = union_class ''DerivedPath'' [''StorePath'', ''DerivedPathBuilt''] [] (Some \<lparr>va_cxx = ''nix::DerivedPath'', va_wraps = [(''StorePath'', ''nix::DerivedPathOpaque'', ''path'')]\<rparr>)"

definition nx_derived_path_file :: dmodule where
  "nx_derived_path_file = declared_file ''derived_path'' [nx_OutputsSpec, nx_SingleDerivedPathBuilt, nx_DerivedPathBuilt]
     [] [nx_SingleDerivedPath, nx_DerivedPath] []
     [nx_path_file]"

definition nx_DrvOutput_methods_1 :: "written list" where
  "nx_DrvOutput_methods_1 = 
    [Written ''drv_hash'' [Marked (M_reads ''drvHash'' [])] [] (Some (T_bound ''Hash'')) False,
     Written ''output_name'' [Marked (M_reads ''outputName'' [])] [] (Some T_Str) False,
     Written ''to_string'' [Marked M_local, Marked M_instant] [] (Some T_Str) False]"

definition nx_DrvOutput_marks :: "class_mark list" where
  "nx_DrvOutput_marks = 
    [C_header ''nix/store/realisation.hh'', C_binding ''nix::DrvOutput'' ''pool'' [] False [] [], C_wire_value [] ''cxx'' ''to_string'' True [] False]"

definition nx_DrvOutput_init :: "written" where
  "nx_DrvOutput_init = Written ''__init__'' [] [a_param ''drv_hash'' (T_bound ''Hash''), a_param ''output_name'' T_Str] None True"

definition nx_DrvOutput :: "dclass" where
  "nx_DrvOutput = \<lparr>kl_name = ''DrvOutput'',
     kl_decl = marked_decl nx_DrvOutput_marks,
     kl_ctor = Some (declared nx_DrvOutput_init),
     kl_methods = map declared nx_DrvOutput_methods_1,
     kl_from_parts = None, kl_raised = None\<rparr>"

definition nx_Realisation_methods_1 :: "written list" where
  "nx_Realisation_methods_1 = 
    [Written ''id'' [Marked (M_reads ''id'' [])] [] (Some (T_bound ''DrvOutput'')) False,
     Written ''out_path'' [Marked (M_reads ''outPath'' [])] [] (Some (T_bound ''StorePath'')) False,
     Written ''signatures'' [Marked (M_reads ''signatures'' [])] [] (Some (T_list (T_bound ''Signature''))) False]"

definition nx_Realisation_marks :: "class_mark list" where
  "nx_Realisation_marks = 
    [C_produced, C_header ''nix/store/realisation.hh'', C_binding ''nix::Realisation'' ''pool'' [] False [] [], C_wire_value [] ''parts'' [] False [] False]"

definition nx_Realisation_init :: "written" where
  "nx_Realisation_init = Written ''__init__'' [] [a_param ''id'' (T_bound ''DrvOutput''), a_param ''out_path'' (T_bound ''StorePath''), a_default ''signatures'' (T_opt (T_list (T_bound ''Signature''))) PNone] None True"

definition nx_Realisation_builder :: "written" where
  "nx_Realisation_builder = Written ''_from_parts'' [As_static] [] (Some (T_bound ''Realisation'')) True"

definition nx_Realisation :: "dclass" where
  "nx_Realisation = \<lparr>kl_name = ''Realisation'',
     kl_decl = marked_decl nx_Realisation_marks,
     kl_ctor = Some (declared nx_Realisation_init),
     kl_methods = map declared nx_Realisation_methods_1,
     kl_from_parts = Some (declared nx_Realisation_builder), kl_raised = None\<rparr>"

definition nx_realisation_file :: dmodule where
  "nx_realisation_file = declared_file ''realisation'' [nx_DrvOutput, nx_Realisation]
     [] [] []
     [nx_hash_file, nx_path_file, nx_signature_file]"

definition nx_PathInfo_methods_1 :: "written list" where
  "nx_PathInfo_methods_1 = 
    [Written ''path'' [Marked (M_reads ''path'' [])] [] (Some (T_bound ''StorePath'')) False,
     Written ''store_dir'' [Marked (M_reads ''storeDir'' [])] [] (Some T_Str) False,
     Written ''nar_hash'' [Marked (M_reads ''narHash'' [])] [] (Some (T_bound ''Hash'')) False,
     Written ''nar_size'' [Marked (M_reads ''narSize'' [])] [] (Some T_U64) False,
     Written ''deriver'' [Marked (M_reads ''deriver'' [])] [] (Some (T_opt (T_bound ''StorePath''))) False,
     Written ''registration_time'' [] [] (Some (T_opt T_I64)) True]"

definition nx_PathInfo_methods_2 :: "written list" where
  "nx_PathInfo_methods_2 = 
    [Written ''ultimate'' [Marked (M_reads ''ultimate'' [])] [] (Some T_Bint) False,
     Written ''ca'' [Marked (M_reads ''ca'' [])] [] (Some (T_opt (T_bound ''ContentAddress''))) False,
     Written ''references'' [Marked (M_reads ''references'' [])] [] (Some (T_list (T_bound ''StorePath''))) False,
     Written ''sigs'' [Marked (M_reads ''sigs'' [])] [] (Some (T_list (T_bound ''Signature''))) False]"

definition nx_PathInfo_marks :: "class_mark list" where
  "nx_PathInfo_marks = 
    [C_produced, C_header ''nix/store/path-info.hh'', C_binding ''nix::ValidPathInfo'' ''pool'' [] False [] [], C_wire_value [] ''parts'' [] False [] False]"

definition nx_PathInfo_builder :: "written" where
  "nx_PathInfo_builder = Written ''_from_parts'' [As_static, Marked (M_needs [''nix/util/signature/local-keys.hh''])] [] (Some (T_bound ''PathInfo'')) True"

definition nx_PathInfo :: "dclass" where
  "nx_PathInfo = \<lparr>kl_name = ''PathInfo'',
     kl_decl = marked_decl nx_PathInfo_marks,
     kl_ctor = None,
     kl_methods = map declared (nx_PathInfo_methods_1 @ nx_PathInfo_methods_2),
     kl_from_parts = Some (declared nx_PathInfo_builder), kl_raised = None\<rparr>"

definition nx_pathinfo_file :: dmodule where
  "nx_pathinfo_file = declared_file ''pathinfo'' [nx_PathInfo]
     [] [] []
     [nx_content_address_file, nx_hash_file, nx_path_file, nx_signature_file]"

definition nx_BuildSuccess_methods_1 :: "written list" where
  "nx_BuildSuccess_methods_1 = 
    [Written ''status'' [] [] (Some (T_bound ''BuildSuccessStatus'')) True]"

definition nx_BuildSuccess_methods_2 :: "written list" where
  "nx_BuildSuccess_methods_2 = 
    [Written ''built_outputs'' [Marked (M_reads ''builtOutputs'' [])] [] (Some (T_dict (T_bound ''Realisation''))) False]"

definition nx_BuildSuccess_marks :: "class_mark list" where
  "nx_BuildSuccess_marks = 
    [C_produced, C_header ''nix/store/build-result.hh'', C_binding ''nix::BuildResult::Success'' ''pool'' [] False [] [], C_wire_value [] ''parts'' [] False [] False]"

definition nx_BuildSuccess_builder :: "written" where
  "nx_BuildSuccess_builder = Written ''_from_parts'' [As_static] [] (Some (T_bound ''BuildSuccess'')) True"

definition nx_BuildSuccess :: "dclass" where
  "nx_BuildSuccess = \<lparr>kl_name = ''BuildSuccess'',
     kl_decl = marked_decl nx_BuildSuccess_marks,
     kl_ctor = None,
     kl_methods = map declared (nx_BuildSuccess_methods_1 @ nx_BuildSuccess_methods_2),
     kl_from_parts = Some (declared nx_BuildSuccess_builder), kl_raised = None\<rparr>"

definition nx_KeyedBuildResult_methods_1 :: "written list" where
  "nx_KeyedBuildResult_methods_1 = 
    [Written ''path'' [Marked (M_reads ''path'' [])] [] (Some (T_bound ''DerivedPath'')) False,
     Written ''success'' [] [] (Some (T_opt (T_bound ''BuildSuccess''))) True]"

definition nx_KeyedBuildResult_methods_2 :: "written list" where
  "nx_KeyedBuildResult_methods_2 = 
    [Written ''error'' [Marked (M_needs [''huggorm_decl/cpp/errors.hpp''])] [] (Some (T_opt (T_bound ''BuildError''))) True]"

definition nx_KeyedBuildResult_methods_3 :: "written list" where
  "nx_KeyedBuildResult_methods_3 = 
    [Written ''times_built'' [Marked (M_reads ''timesBuilt'' [])] [] (Some T_U64) False,
     Written ''start_time'' [Marked (M_reads ''startTime'' [])] [] (Some T_I64) False,
     Written ''stop_time'' [Marked (M_reads ''stopTime'' [])] [] (Some T_I64) False,
     Written ''cpu_user'' [Marked (M_reads ''cpuUser'' [])] [] (Some (T_opt T_Duration)) False,
     Written ''cpu_system'' [Marked (M_reads ''cpuSystem'' [])] [] (Some (T_opt T_Duration)) False]"

definition nx_KeyedBuildResult_marks :: "class_mark list" where
  "nx_KeyedBuildResult_marks = 
    [C_produced, C_header ''nix/store/build-result.hh'', C_binding ''nix::KeyedBuildResult'' ''pool'' [] False [] [], C_wire_value [] ''parts'' [] False [] False]"

definition nx_KeyedBuildResult_builder :: "written" where
  "nx_KeyedBuildResult_builder = Written ''_from_parts'' [As_static, Marked (M_spells [''BuildFailureStatus''])] [] (Some (T_bound ''KeyedBuildResult'')) True"

definition nx_KeyedBuildResult :: "dclass" where
  "nx_KeyedBuildResult = \<lparr>kl_name = ''KeyedBuildResult'',
     kl_decl = marked_decl nx_KeyedBuildResult_marks,
     kl_ctor = None,
     kl_methods = map declared (nx_KeyedBuildResult_methods_1 @ nx_KeyedBuildResult_methods_2 @ nx_KeyedBuildResult_methods_3),
     kl_from_parts = Some (declared nx_KeyedBuildResult_builder), kl_raised = None\<rparr>"

definition nx_build_result_file :: dmodule where
  "nx_build_result_file = declared_file ''build_result'' [nx_BuildSuccess, nx_KeyedBuildResult]
     [] [] []
     [nx_derived_path_file, nx_errors_file, nx_words_file, nx_realisation_file]"

definition nx_DerivationOutputInputAddressed_methods_1 :: "written list" where
  "nx_DerivationOutputInputAddressed_methods_1 = 
    [Written ''path'' [Marked (M_reads ''path'' [])] [] (Some (T_bound ''StorePath'')) False]"

definition nx_DerivationOutputInputAddressed_marks :: "class_mark list" where
  "nx_DerivationOutputInputAddressed_marks = 
    [C_header ''nix/store/derivations.hh'', C_binding ''nix::DerivationOutput::InputAddressed'' ''pool'' [] False [] [], C_wire_value [] ''cxx'' [] False [] False]"

definition nx_DerivationOutputInputAddressed_init :: "written" where
  "nx_DerivationOutputInputAddressed_init = Written ''__init__'' [] [a_param ''path'' (T_bound ''StorePath'')] None True"

definition nx_DerivationOutputInputAddressed :: "dclass" where
  "nx_DerivationOutputInputAddressed = \<lparr>kl_name = ''DerivationOutputInputAddressed'',
     kl_decl = marked_decl nx_DerivationOutputInputAddressed_marks,
     kl_ctor = Some (declared nx_DerivationOutputInputAddressed_init),
     kl_methods = map declared nx_DerivationOutputInputAddressed_methods_1,
     kl_from_parts = None, kl_raised = None\<rparr>"

definition nx_DerivationOutputCAFixed_methods_1 :: "written list" where
  "nx_DerivationOutputCAFixed_methods_1 = 
    [Written ''ca'' [Marked (M_reads ''ca'' [])] [] (Some (T_bound ''ContentAddress'')) False]"

definition nx_DerivationOutputCAFixed_marks :: "class_mark list" where
  "nx_DerivationOutputCAFixed_marks = 
    [C_header ''nix/store/derivations.hh'', C_binding ''nix::DerivationOutput::CAFixed'' ''pool'' [] False [] [], C_wire_value [] ''cxx'' [] False [] False]"

definition nx_DerivationOutputCAFixed_init :: "written" where
  "nx_DerivationOutputCAFixed_init = Written ''__init__'' [] [a_param ''ca'' (T_bound ''ContentAddress'')] None True"

definition nx_DerivationOutputCAFixed :: "dclass" where
  "nx_DerivationOutputCAFixed = \<lparr>kl_name = ''DerivationOutputCAFixed'',
     kl_decl = marked_decl nx_DerivationOutputCAFixed_marks,
     kl_ctor = Some (declared nx_DerivationOutputCAFixed_init),
     kl_methods = map declared nx_DerivationOutputCAFixed_methods_1,
     kl_from_parts = None, kl_raised = None\<rparr>"

definition nx_DerivationOutputCAFloating_methods_1 :: "written list" where
  "nx_DerivationOutputCAFloating_methods_1 = 
    [Written ''method'' [Marked (M_reads ''method'' [])] [] (Some (T_bound ''ContentAddressMethod'')) False,
     Written ''hash_algo'' [Marked (M_reads ''hashAlgo'' [])] [] (Some (T_bound ''HashAlgorithm'')) False]"

definition nx_DerivationOutputCAFloating_marks :: "class_mark list" where
  "nx_DerivationOutputCAFloating_marks = 
    [C_header ''nix/store/derivations.hh'', C_binding ''nix::DerivationOutput::CAFloating'' ''pool'' [] False [] [], C_wire_value [] ''cxx'' [] False [] False]"

definition nx_DerivationOutputCAFloating_init :: "written" where
  "nx_DerivationOutputCAFloating_init = Written ''__init__'' [] [a_param ''method'' (T_bound ''ContentAddressMethod''), a_param ''hash_algo'' (T_bound ''HashAlgorithm'')] None True"

definition nx_DerivationOutputCAFloating :: "dclass" where
  "nx_DerivationOutputCAFloating = \<lparr>kl_name = ''DerivationOutputCAFloating'',
     kl_decl = marked_decl nx_DerivationOutputCAFloating_marks,
     kl_ctor = Some (declared nx_DerivationOutputCAFloating_init),
     kl_methods = map declared nx_DerivationOutputCAFloating_methods_1,
     kl_from_parts = None, kl_raised = None\<rparr>"

definition nx_DerivationOutputDeferred_marks :: "class_mark list" where
  "nx_DerivationOutputDeferred_marks = 
    [C_header ''nix/store/derivations.hh'', C_binding ''nix::DerivationOutput::Deferred'' ''pool'' [] False [] [], C_wire_value [] ''cxx'' [] False [] True]"

definition nx_DerivationOutputDeferred_init :: "written" where
  "nx_DerivationOutputDeferred_init = Written ''__init__'' [] [] None True"

definition nx_DerivationOutputDeferred :: "dclass" where
  "nx_DerivationOutputDeferred = \<lparr>kl_name = ''DerivationOutputDeferred'',
     kl_decl = marked_decl nx_DerivationOutputDeferred_marks,
     kl_ctor = Some (declared nx_DerivationOutputDeferred_init),
     kl_methods = [],
     kl_from_parts = None, kl_raised = None\<rparr>"

definition nx_DerivationOutputImpure_methods_1 :: "written list" where
  "nx_DerivationOutputImpure_methods_1 = 
    [Written ''method'' [Marked (M_reads ''method'' [])] [] (Some (T_bound ''ContentAddressMethod'')) False,
     Written ''hash_algo'' [Marked (M_reads ''hashAlgo'' [])] [] (Some (T_bound ''HashAlgorithm'')) False]"

definition nx_DerivationOutputImpure_marks :: "class_mark list" where
  "nx_DerivationOutputImpure_marks = 
    [C_header ''nix/store/derivations.hh'', C_binding ''nix::DerivationOutput::Impure'' ''pool'' [] False [] [], C_wire_value [] ''cxx'' [] False [] False]"

definition nx_DerivationOutputImpure_init :: "written" where
  "nx_DerivationOutputImpure_init = Written ''__init__'' [] [a_param ''method'' (T_bound ''ContentAddressMethod''), a_param ''hash_algo'' (T_bound ''HashAlgorithm'')] None True"

definition nx_DerivationOutputImpure :: "dclass" where
  "nx_DerivationOutputImpure = \<lparr>kl_name = ''DerivationOutputImpure'',
     kl_decl = marked_decl nx_DerivationOutputImpure_marks,
     kl_ctor = Some (declared nx_DerivationOutputImpure_init),
     kl_methods = map declared nx_DerivationOutputImpure_methods_1,
     kl_from_parts = None, kl_raised = None\<rparr>"

definition nx_DerivationOutput :: "dclass" where
  "nx_DerivationOutput = union_class ''DerivationOutput'' [''DerivationOutputInputAddressed'', ''DerivationOutputCAFixed'', ''DerivationOutputCAFloating'', ''DerivationOutputDeferred'', ''DerivationOutputImpure''] [] (Some \<lparr>va_cxx = ''nix::DerivationOutput'', va_wraps = []\<rparr>)"

definition nx_InputDrvNode_methods_1 :: "written list" where
  "nx_InputDrvNode_methods_1 = 
    [Written ''outputs'' [Marked (M_reads ''value'' ''std::set<nix::OutputName, std::less<>>'')] [] (Some (T_list T_Str)) False,
     Written ''dynamic_outputs'' [Marked (M_reads ''childMap'' [])] [] (Some (T_dict (T_bound ''InputDrvNode''))) False]"

definition nx_InputDrvNode_marks :: "class_mark list" where
  "nx_InputDrvNode_marks = 
    [C_header ''nix/store/derivations.hh'', C_binding ''nix::DerivedPathMap<std::set<nix::OutputName, std::less<>>>::ChildNode'' ''pool'' [] False [] [], C_wire_value [] ''cxx'' [] False [] False]"

definition nx_InputDrvNode :: "dclass" where
  "nx_InputDrvNode = \<lparr>kl_name = ''InputDrvNode'',
     kl_decl = marked_decl nx_InputDrvNode_marks,
     kl_ctor = None,
     kl_methods = map declared nx_InputDrvNode_methods_1,
     kl_from_parts = None, kl_raised = None\<rparr>"

definition nx_Derivation_methods_1 :: "written list" where
  "nx_Derivation_methods_1 = 
    [Written ''name'' [Marked (M_reads ''name'' [])] [] (Some T_Str) False,
     Written ''system'' [Marked (M_reads ''platform'' [])] [] (Some T_Str) False,
     Written ''builder'' [Marked (M_reads ''builder'' [])] [] (Some T_Str) False,
     Written ''args'' [Marked (M_reads ''args'' [])] [] (Some (T_list T_Str)) False,
     Written ''env'' [Marked (M_reads ''env'' [])] [] (Some (T_dict T_Str)) False,
     Written ''input_srcs'' [Marked (M_needs [''huggorm_decl/cpp/derivation.hpp''])] [] (Some (T_list (T_bound ''StorePath''))) True]"

definition nx_Derivation_methods_2 :: "written list" where
  "nx_Derivation_methods_2 = 
    [Written ''input_drvs'' [Marked (M_needs [''huggorm_decl/cpp/derivation.hpp''])] [] (Some (T_dict (T_bound ''InputDrvNode''))) True]"

definition nx_Derivation_methods_3 :: "written list" where
  "nx_Derivation_methods_3 = 
    [Written ''outputs'' [Marked (M_reads ''outputs'' [])] [] (Some (T_dict (T_bound ''DerivationOutput''))) False,
     Written ''structured_attrs'' [Marked (M_needs [''nlohmann/json.hpp''])] [] (Some (T_opt T_Str)) True]"

definition nx_Derivation_methods_4 :: "written list" where
  "nx_Derivation_methods_4 = 
    [Written ''to_json'' [Marked (M_needs [''nlohmann/json.hpp''])] [] (Some T_Str) True]"

definition nx_Derivation_marks :: "class_mark list" where
  "nx_Derivation_marks = 
    [C_produced, C_header ''nix/store/derivations.hh'', C_binding ''nix::Derivation'' ''pool'' [] False [] []]"

definition nx_Derivation :: "dclass" where
  "nx_Derivation = \<lparr>kl_name = ''Derivation'',
     kl_decl = marked_decl nx_Derivation_marks,
     kl_ctor = None,
     kl_methods = map declared (nx_Derivation_methods_1 @ nx_Derivation_methods_2 @ nx_Derivation_methods_3 @ nx_Derivation_methods_4),
     kl_from_parts = None, kl_raised = None\<rparr>"

definition nx_derivation_file :: dmodule where
  "nx_derivation_file = declared_file ''derivation'' [nx_DerivationOutputInputAddressed, nx_DerivationOutputCAFixed, nx_DerivationOutputCAFloating, nx_DerivationOutputDeferred, nx_DerivationOutputImpure, nx_InputDrvNode, nx_Derivation]
     [] [nx_DerivationOutput] []
     [nx_content_address_file, nx_path_file, nx_words_file]"

definition nx_GCOptions_methods_1 :: "written list" where
  "nx_GCOptions_methods_1 = 
    [Written ''action'' [Marked (M_reads ''action'' [])] [] (Some (T_bound ''GCAction'')) False,
     Written ''ignore_liveness'' [Marked (M_reads ''ignoreLiveness'' [])] [] (Some T_Bint) False,
     Written ''paths_to_delete'' [Marked (M_reads ''pathsToDelete'' [])] [] (Some (T_list (T_bound ''StorePath''))) False,
     Written ''max_freed'' [] [] (Some (T_opt T_U64)) True]"

definition nx_GCOptions_marks :: "class_mark list" where
  "nx_GCOptions_marks = 
    [C_header ''nix/store/gc-store.hh'', C_needs [''limits''], C_binding ''nix::GCOptions'' ''pool'' [] False [] [], C_wire_value [] ''parts'' [] False [] False]"

definition nx_GCOptions_init :: "written" where
  "nx_GCOptions_init = Written ''__init__'' [] [a_word ''action'' (T_bound ''GCAction'') (PEnum ''GCAction'' ''delete-dead'') ''DELETE_DEAD'', a_default ''ignore_liveness'' T_Bint (PBool False), a_default ''paths_to_delete'' (T_opt (T_list (T_bound ''StorePath''))) PNone, a_default ''max_freed'' (T_opt T_U64) PNone] None True"

definition nx_GCOptions :: "dclass" where
  "nx_GCOptions = \<lparr>kl_name = ''GCOptions'',
     kl_decl = marked_decl nx_GCOptions_marks,
     kl_ctor = Some (declared nx_GCOptions_init),
     kl_methods = map declared nx_GCOptions_methods_1,
     kl_from_parts = None, kl_raised = None\<rparr>"

definition nx_GCResults_methods_1 :: "written list" where
  "nx_GCResults_methods_1 = 
    [Written ''paths'' [Marked (M_reads ''paths'' ''nix::StringSet'')] [] (Some (T_list T_Str)) False,
     Written ''bytes_freed'' [Marked (M_reads ''bytesFreed'' [])] [] (Some T_U64) False]"

definition nx_GCResults_marks :: "class_mark list" where
  "nx_GCResults_marks = 
    [C_header ''nix/store/gc-store.hh'', C_binding ''nix::GCResults'' ''pool'' [] False [] [], C_produced, C_wire_value [] ''parts'' [] False [] False]"

definition nx_GCResults :: "dclass" where
  "nx_GCResults = \<lparr>kl_name = ''GCResults'',
     kl_decl = marked_decl nx_GCResults_marks,
     kl_ctor = None,
     kl_methods = map declared nx_GCResults_methods_1,
     kl_from_parts = None, kl_raised = None\<rparr>"

definition nx_gc_file :: dmodule where
  "nx_gc_file = declared_file ''gc'' [nx_GCOptions, nx_GCResults]
     [] [] []
     [nx_path_file, nx_words_file]"

definition nx_StoreReferenceAuto_marks :: "class_mark list" where
  "nx_StoreReferenceAuto_marks = 
    [C_header ''nix/store/store-reference.hh'', C_binding ''nix::StoreReference::Auto'' ''pool'' [] False [] [], C_wire_value [] ''cxx'' [] False [] True]"

definition nx_StoreReferenceAuto_init :: "written" where
  "nx_StoreReferenceAuto_init = Written ''__init__'' [] [] None True"

definition nx_StoreReferenceAuto :: "dclass" where
  "nx_StoreReferenceAuto = \<lparr>kl_name = ''StoreReferenceAuto'',
     kl_decl = marked_decl nx_StoreReferenceAuto_marks,
     kl_ctor = Some (declared nx_StoreReferenceAuto_init),
     kl_methods = [],
     kl_from_parts = None, kl_raised = None\<rparr>"

definition nx_StoreReferenceDaemon_marks :: "class_mark list" where
  "nx_StoreReferenceDaemon_marks = 
    [C_header ''nix/store/store-reference.hh'', C_binding ''nix::StoreReference::Daemon'' ''pool'' [] False [] [], C_wire_value [] ''cxx'' [] False [] True]"

definition nx_StoreReferenceDaemon_init :: "written" where
  "nx_StoreReferenceDaemon_init = Written ''__init__'' [] [] None True"

definition nx_StoreReferenceDaemon :: "dclass" where
  "nx_StoreReferenceDaemon = \<lparr>kl_name = ''StoreReferenceDaemon'',
     kl_decl = marked_decl nx_StoreReferenceDaemon_marks,
     kl_ctor = Some (declared nx_StoreReferenceDaemon_init),
     kl_methods = [],
     kl_from_parts = None, kl_raised = None\<rparr>"

definition nx_StoreReferenceLocal_marks :: "class_mark list" where
  "nx_StoreReferenceLocal_marks = 
    [C_header ''nix/store/store-reference.hh'', C_binding ''nix::StoreReference::Local'' ''pool'' [] False [] [], C_wire_value [] ''cxx'' [] False [] True]"

definition nx_StoreReferenceLocal_init :: "written" where
  "nx_StoreReferenceLocal_init = Written ''__init__'' [] [] None True"

definition nx_StoreReferenceLocal :: "dclass" where
  "nx_StoreReferenceLocal = \<lparr>kl_name = ''StoreReferenceLocal'',
     kl_decl = marked_decl nx_StoreReferenceLocal_marks,
     kl_ctor = Some (declared nx_StoreReferenceLocal_init),
     kl_methods = [],
     kl_from_parts = None, kl_raised = None\<rparr>"

definition nx_StoreReferenceSpecified_methods_1 :: "written list" where
  "nx_StoreReferenceSpecified_methods_1 = 
    [Written ''scheme'' [Marked (M_reads ''scheme'' [])] [] (Some T_Str) False,
     Written ''authority'' [Marked (M_reads ''authority'' [])] [] (Some T_Str) False]"

definition nx_StoreReferenceSpecified_marks :: "class_mark list" where
  "nx_StoreReferenceSpecified_marks = 
    [C_header ''nix/store/store-reference.hh'', C_binding ''nix::StoreReference::Specified'' ''pool'' [] False [] [], C_wire_value [] ''cxx'' [] False [] False]"

definition nx_StoreReferenceSpecified_init :: "written" where
  "nx_StoreReferenceSpecified_init = Written ''__init__'' [] [a_param ''scheme'' T_Str, a_default ''authority'' T_Str (PStr [])] None True"

definition nx_StoreReferenceSpecified :: "dclass" where
  "nx_StoreReferenceSpecified = \<lparr>kl_name = ''StoreReferenceSpecified'',
     kl_decl = marked_decl nx_StoreReferenceSpecified_marks,
     kl_ctor = Some (declared nx_StoreReferenceSpecified_init),
     kl_methods = map declared nx_StoreReferenceSpecified_methods_1,
     kl_from_parts = None, kl_raised = None\<rparr>"

definition nx_StoreReferenceVariant :: "dclass" where
  "nx_StoreReferenceVariant = union_class ''StoreReferenceVariant'' [''StoreReferenceAuto'', ''StoreReferenceSpecified'', ''StoreReferenceDaemon'', ''StoreReferenceLocal''] [] (Some \<lparr>va_cxx = ''nix::StoreReference::Variant'', va_wraps = []\<rparr>)"

definition nx_StoreReference_methods_1 :: "written list" where
  "nx_StoreReference_methods_1 = 
    [Written ''variant'' [Marked (M_reads ''variant'' [])] [] (Some (T_bound ''StoreReferenceVariant'')) False,
     Written ''params'' [Marked (M_reads ''params'' [])] [] (Some (T_dict T_Str)) False,
     Written ''render'' [] [a_default ''with_params'' T_Bint (PBool True)] (Some T_Str) True]"

definition nx_StoreReference_marks :: "class_mark list" where
  "nx_StoreReference_marks = 
    [C_produced, C_header ''nix/store/store-reference.hh'', C_binding ''nix::StoreReference'' ''pool'' [] False [] []]"

definition nx_StoreReference :: "dclass" where
  "nx_StoreReference = \<lparr>kl_name = ''StoreReference'',
     kl_decl = marked_decl nx_StoreReference_marks,
     kl_ctor = None,
     kl_methods = map declared nx_StoreReference_methods_1,
     kl_from_parts = None, kl_raised = None\<rparr>"

definition nx_store_reference_functions_1 :: "written list" where
  "nx_store_reference_functions_1 = 
    [Written ''parse_store_reference'' [Marked (M_threading ''pool''), Marked (M_needs [''nix/store/store-reference.hh''])] [a_param ''uri'' T_Str] (Some (T_bound ''StoreReference'')) True]"

definition nx_store_reference_file :: dmodule where
  "nx_store_reference_file = declared_file ''store_reference'' [nx_StoreReferenceAuto, nx_StoreReferenceDaemon, nx_StoreReferenceLocal, nx_StoreReferenceSpecified, nx_StoreReference]
     (map declared (nx_store_reference_functions_1)) [nx_StoreReferenceVariant] []
     []"

end
