(* ===== verification/Nix_Store.thy ===== *)
theory Nix_Store
  imports Nix_Values
begin

text \<open>
  What the declarations say of sources, sinks, accessors and stores. Each definition is a part of
  \<open>huggorm_decl/decl/\<close> as the reader's records hold it, on Nix 2.34: a class with its decorators as written, its
  constructor and its methods, a function, a union, and the file with what it imports. Docstrings and C++ bodies are left
  out; a method says whether it carries one.
\<close>

definition nx_Sink_methods_1 :: "written list" where
  "nx_Sink_methods_1 = 
    [Written ''write'' [Marked M_virtual, Marked M_posted] [a_param ''data'' T_Bytes] None False]"

definition nx_Sink_marks :: "class_mark list" where
  "nx_Sink_marks = 
    [C_in_process, C_calls_back, C_header ''huggorm_decl/cpp/serialise.hpp'', C_binding ''huggorm::Sink'' ''pool'' [] True [] []]"

definition nx_Sink_init :: "written" where
  "nx_Sink_init = Written ''__init__'' [] [] None False"

definition nx_Sink :: "dclass" where
  "nx_Sink = \<lparr>kl_name = ''Sink'',
     kl_decl = marked_decl nx_Sink_marks,
     kl_ctor = Some (declared nx_Sink_init),
     kl_methods = map declared nx_Sink_methods_1,
     kl_from_parts = None, kl_raised = None\<rparr>"

definition nx_Source_methods_1 :: "written list" where
  "nx_Source_methods_1 = 
    [Written ''read'' [Marked M_virtual] [a_param ''n'' T_U64] (Some T_Bytes) False]"

definition nx_Source_marks :: "class_mark list" where
  "nx_Source_marks = 
    [C_in_process, C_calls_back, C_header ''huggorm_decl/cpp/serialise.hpp'', C_binding ''huggorm::Source'' ''pool'' [] True [] []]"

definition nx_Source_init :: "written" where
  "nx_Source_init = Written ''__init__'' [] [] None False"

definition nx_Source :: "dclass" where
  "nx_Source = \<lparr>kl_name = ''Source'',
     kl_decl = marked_decl nx_Source_marks,
     kl_ctor = Some (declared nx_Source_init),
     kl_methods = map declared nx_Source_methods_1,
     kl_from_parts = None, kl_raised = None\<rparr>"

definition nx_serialise_file :: dmodule where
  "nx_serialise_file = declared_file ''serialise'' [nx_Sink, nx_Source]
     [] [] []
     []"

definition nx_Stat_methods_1 :: "written list" where
  "nx_Stat_methods_1 = 
    [Written ''type'' [Marked (M_reads ''type'' [])] [] (Some (T_bound ''FileType'')) False,
     Written ''file_size'' [Marked (M_reads ''fileSize'' [])] [] (Some (T_opt T_U64)) False,
     Written ''is_executable'' [Marked (M_reads ''isExecutable'' [])] [] (Some T_Bint) False]"

definition nx_Stat_marks :: "class_mark list" where
  "nx_Stat_marks = 
    [C_header ''nix/util/source-accessor.hh'', C_binding ''nix::SourceAccessor::Stat'' ''pool'' [] False [] [], C_wire_value [] ''parts'' [] False [] False]"

definition nx_Stat_init :: "written" where
  "nx_Stat_init = Written ''__init__'' [] [a_param ''type'' (T_bound ''FileType''), a_default ''file_size'' (T_opt T_U64) PNone, a_default ''is_executable'' T_Bint (PBool False)] None True"

definition nx_Stat_builder :: "written" where
  "nx_Stat_builder = Written ''_from_parts'' [As_static] [] (Some (T_bound ''Stat'')) True"

definition nx_Stat :: "dclass" where
  "nx_Stat = \<lparr>kl_name = ''Stat'',
     kl_decl = marked_decl nx_Stat_marks,
     kl_ctor = Some (declared nx_Stat_init),
     kl_methods = map declared nx_Stat_methods_1,
     kl_from_parts = Some (declared nx_Stat_builder), kl_raised = None\<rparr>"

definition nx_SourceAccessor_methods_1 :: "written list" where
  "nx_SourceAccessor_methods_1 = 
    [Written ''maybe_lstat'' [Marked M_virtual] [a_param ''path'' T_Str] (Some (T_opt (T_bound ''Stat''))) False,
     Written ''read_directory'' [Marked M_virtual] [a_param ''path'' T_Str] (Some (T_dict (T_opt (T_bound ''FileType'')))) False,
     Written ''read_link'' [Marked M_virtual] [a_param ''path'' T_Str] (Some T_Str) False,
     Written ''read_file'' [Marked M_virtual] [a_param ''path'' T_Str] (Some T_Bytes) False]"

definition nx_SourceAccessor_marks :: "class_mark list" where
  "nx_SourceAccessor_marks = 
    [C_in_process, C_calls_back, C_header ''huggorm_decl/cpp/source_accessor.hpp'', C_binding ''huggorm::SourceAccessor'' ''pool'' ''shared_ptr'' True [] []]"

definition nx_SourceAccessor_init :: "written" where
  "nx_SourceAccessor_init = Written ''__init__'' [] [a_default ''below'' (T_opt (T_bound ''SourceAccessor'')) PNone] None False"

definition nx_SourceAccessor :: "dclass" where
  "nx_SourceAccessor = \<lparr>kl_name = ''SourceAccessor'',
     kl_decl = marked_decl nx_SourceAccessor_marks,
     kl_ctor = Some (declared nx_SourceAccessor_init),
     kl_methods = map declared nx_SourceAccessor_methods_1,
     kl_from_parts = None, kl_raised = None\<rparr>"

definition nx_source_accessor_functions_1 :: "written list" where
  "nx_source_accessor_functions_1 = 
    [Written ''filesystem_accessor'' [Marked (M_needs [''huggorm_decl/cpp/source_accessor.hpp''])] [a_param ''root'' T_Path] (Some (T_bound ''SourceAccessor'')) True]"

definition nx_source_accessor_file :: dmodule where
  "nx_source_accessor_file = declared_file ''source_accessor'' [nx_Stat, nx_SourceAccessor]
     (map declared (nx_source_accessor_functions_1)) [] []
     [nx_words_file]"

definition nx_GcRoot_methods_1 :: "written list" where
  "nx_GcRoot_methods_1 = 
    [Written ''link'' [] [] (Some T_Str) False,
     Written ''path'' [] [] (Some (T_bound ''StorePath'')) False]"

definition nx_GcRoot_marks :: "class_mark list" where
  "nx_GcRoot_marks = 
    [C_produced, C_binding [] ''pool'' [] False [] [], C_wire_value [] ''parts'' [] False [] False]"

definition nx_GcRoot :: "dclass" where
  "nx_GcRoot = \<lparr>kl_name = ''GcRoot'',
     kl_decl = marked_decl nx_GcRoot_marks,
     kl_ctor = None,
     kl_methods = map declared nx_GcRoot_methods_1,
     kl_from_parts = None, kl_raised = None\<rparr>"

definition nx_StoreLocation_methods_1 :: "written list" where
  "nx_StoreLocation_methods_1 = 
    [Written ''path'' [] [] (Some (T_bound ''StorePath'')) False,
     Written ''sub_path'' [] [] (Some (T_plain ''str'')) False]"

definition nx_StoreLocation_marks :: "class_mark list" where
  "nx_StoreLocation_marks = 
    [C_produced, C_binding [] ''pool'' [] False [] [], C_wire_value [] ''parts'' [] False [] False]"

definition nx_StoreLocation :: "dclass" where
  "nx_StoreLocation = \<lparr>kl_name = ''StoreLocation'',
     kl_decl = marked_decl nx_StoreLocation_marks,
     kl_ctor = None,
     kl_methods = map declared nx_StoreLocation_methods_1,
     kl_from_parts = None, kl_raised = None\<rparr>"

definition nx_MissingPaths_methods_1 :: "written list" where
  "nx_MissingPaths_methods_1 = 
    [Written ''will_build'' [Marked (M_reads ''willBuild'' [])] [] (Some (T_list (T_bound ''StorePath''))) False,
     Written ''will_substitute'' [Marked (M_reads ''willSubstitute'' [])] [] (Some (T_list (T_bound ''StorePath''))) False,
     Written ''unknown'' [Marked (M_reads ''unknown'' [])] [] (Some (T_list (T_bound ''StorePath''))) False,
     Written ''download_size'' [Marked (M_reads ''downloadSize'' [])] [] (Some T_U64) False,
     Written ''nar_size'' [Marked (M_reads ''narSize'' [])] [] (Some T_U64) False]"

definition nx_MissingPaths_marks :: "class_mark list" where
  "nx_MissingPaths_marks = 
    [C_produced, C_header ''nix/store/store-api.hh'', C_binding ''nix::MissingPaths'' ''pool'' [] False [] [], C_wire_value [] ''parts'' [] False [] False]"

definition nx_MissingPaths :: "dclass" where
  "nx_MissingPaths = \<lparr>kl_name = ''MissingPaths'',
     kl_decl = marked_decl nx_MissingPaths_marks,
     kl_ctor = None,
     kl_methods = map declared nx_MissingPaths_methods_1,
     kl_from_parts = None, kl_raised = None\<rparr>"

definition nx_Store_methods_1 :: "written list" where
  "nx_Store_methods_1 = 
    [Written ''get_uri'' [Marked M_instant] [] (Some T_Str) True]"

definition nx_Store_methods_2 :: "written list" where
  "nx_Store_methods_2 = 
    [Written ''reference'' [Marked M_instant] [] (Some T_Str) True]"

definition nx_Store_methods_3 :: "written list" where
  "nx_Store_methods_3 = 
    [Written ''store_dir'' [Marked M_instant] [] (Some T_Str) True]"

definition nx_Store_methods_4 :: "written list" where
  "nx_Store_methods_4 = 
    [Written ''close'' [Marked (M_needs [''nix/store/remote-store.hh''])] [] None True]"

definition nx_Store_methods_5 :: "written list" where
  "nx_Store_methods_5 = 
    [Written ''is_valid_path'' [Marked (M_cxx_name ''isValidPath'')] [a_param ''path'' (T_bound ''StorePath'')] (Some T_Bint) False,
     Written ''add_to_store'' [Marked (M_needs [''nix/util/serialise.hh''])] [a_param ''name'' T_Str, a_param ''data'' T_Bytes, a_word ''method'' (T_bound ''ContentAddressMethod'') (PEnum ''ContentAddressMethod'' ''nar'') ''NAR'', a_word ''hash_algo'' (T_bound ''HashAlgorithm'') (PEnum ''HashAlgorithm'' ''sha256'') ''SHA256'', a_default ''references'' (T_opt (T_list (T_bound ''StorePath''))) PNone] (Some (T_bound ''StorePath'')) True]"

definition nx_Store_methods_6 :: "written list" where
  "nx_Store_methods_6 = 
    [Written ''add_path_to_store'' [Marked (M_needs [''nix/util/source-accessor.hh''])] [a_param ''name'' T_Str, a_param ''path'' T_Str, a_word ''method'' (T_bound ''ContentAddressMethod'') (PEnum ''ContentAddressMethod'' ''nar'') ''NAR'', a_word ''hash_algo'' (T_bound ''HashAlgorithm'') (PEnum ''HashAlgorithm'' ''sha256'') ''SHA256'', a_default ''references'' (T_opt (T_list (T_bound ''StorePath''))) PNone] (Some (T_bound ''StorePath'')) True]"

definition nx_Store_methods_7 :: "written list" where
  "nx_Store_methods_7 = 
    [Written ''compute_store_path'' [Marked (M_needs [''nix/util/source-accessor.hh''])] [a_param ''name'' T_Str, a_param ''path'' T_Str, a_word ''method'' (T_bound ''ContentAddressMethod'') (PEnum ''ContentAddressMethod'' ''nar'') ''NAR'', a_word ''hash_algo'' (T_bound ''HashAlgorithm'') (PEnum ''HashAlgorithm'' ''sha256'') ''SHA256'', a_default ''references'' (T_opt (T_list (T_bound ''StorePath''))) PNone] (Some (T_bound ''StorePath'')) True]"

definition nx_Store_methods_8 :: "written list" where
  "nx_Store_methods_8 = 
    [Written ''add_accessor_to_store'' [] [a_param ''name'' T_Str, a_param ''accessor'' (T_bound ''SourceAccessor''), a_default ''path'' T_Str (PStr ''/''), a_word ''method'' (T_bound ''ContentAddressMethod'') (PEnum ''ContentAddressMethod'' ''nar'') ''NAR'', a_word ''hash_algo'' (T_bound ''HashAlgorithm'') (PEnum ''HashAlgorithm'' ''sha256'') ''SHA256'', a_default ''references'' (T_opt (T_list (T_bound ''StorePath''))) PNone] (Some (T_bound ''StorePath'')) True]"

definition nx_Store_methods_9 :: "written list" where
  "nx_Store_methods_9 = 
    [Written ''query_all_valid_paths'' [Marked (M_cxx_name ''queryAllValidPaths'')] [] (Some (T_list (T_bound ''StorePath''))) False,
     Written ''query_valid_derivers'' [Marked (M_cxx_name ''queryValidDerivers'')] [a_param ''path'' (T_bound ''StorePath'')] (Some (T_list (T_bound ''StorePath''))) False,
     Written ''query_valid_paths'' [Marked (M_cxx_name ''queryValidPaths'')] [a_param ''paths'' (T_list (T_bound ''StorePath''))] (Some (T_list (T_bound ''StorePath''))) False,
     Written ''compute_fs_closure'' [] [a_param ''paths'' (T_list (T_bound ''StorePath'')), a_default ''flip_direction'' T_Bint (PBool False), a_default ''include_outputs'' T_Bint (PBool False), a_default ''include_derivers'' T_Bint (PBool False)] (Some (T_list (T_bound ''StorePath''))) True]"

definition nx_Store_methods_10 :: "written list" where
  "nx_Store_methods_10 = 
    [Written ''query_referrers'' [] [a_param ''path'' (T_bound ''StorePath'')] (Some (T_list (T_bound ''StorePath''))) True]"

definition nx_Store_methods_11 :: "written list" where
  "nx_Store_methods_11 = 
    [Written ''make_validity_registration'' [] [a_param ''paths'' (T_list (T_bound ''StorePath'')), a_default ''show_derivers'' T_Bint (PBool True), a_default ''show_hash'' T_Bint (PBool True)] (Some T_Str) True]"

definition nx_Store_methods_12 :: "written list" where
  "nx_Store_methods_12 = 
    [Written ''real_path'' [Marked (M_needs [''nix/store/local-fs-store.hh''])] [a_param ''path'' (T_bound ''StorePath'')] (Some T_Path) True]"

definition nx_Store_methods_13 :: "written list" where
  "nx_Store_methods_13 = 
    [Written ''root_dir'' [Marked M_instant, Marked (M_needs [''nix/store/local-fs-store.hh''])] [] (Some (T_opt T_Path)) True]"

definition nx_Store_methods_14 :: "written list" where
  "nx_Store_methods_14 = 
    [Written ''state_dir'' [Marked M_instant, Marked (M_needs [''nix/store/local-fs-store.hh''])] [] (Some (T_opt T_Path)) True]"

definition nx_Store_methods_15 :: "written list" where
  "nx_Store_methods_15 = 
    [Written ''log_dir'' [Marked M_instant, Marked (M_needs [''nix/store/local-fs-store.hh''])] [] (Some (T_opt T_Path)) True]"

definition nx_Store_methods_16 :: "written list" where
  "nx_Store_methods_16 = 
    [Written ''real_store_dir'' [Marked M_instant, Marked (M_needs [''nix/store/local-fs-store.hh''])] [] (Some (T_opt T_Path)) True]"

definition nx_Store_methods_17 :: "written list" where
  "nx_Store_methods_17 = 
    [Written ''build_dir'' [Marked M_instant, Marked (M_needs [''nix/store/local-store.hh''])] [] (Some (T_opt T_Path)) True]"

definition nx_Store_methods_18 :: "written list" where
  "nx_Store_methods_18 = 
    [Written ''query_path_info'' [] [a_param ''path'' (T_bound ''StorePath'')] (Some (T_bound ''PathInfo'')) True]"

definition nx_Store_methods_19 :: "written list" where
  "nx_Store_methods_19 = 
    [Written ''nar_from_path'' [] [a_param ''path'' (T_bound ''StorePath''), a_param ''sink'' (T_bound ''Sink'')] None True]"

definition nx_Store_methods_20 :: "written list" where
  "nx_Store_methods_20 = 
    [Written ''get_fs_accessor'' [] [a_param ''path'' (T_bound ''StorePath''), a_default ''require_valid_path'' T_Bint (PBool True)] (Some (T_opt (T_bound ''SourceAccessor''))) True]"

definition nx_Store_methods_21 :: "written list" where
  "nx_Store_methods_21 = 
    [Written ''add_to_store_from_dump'' [] [a_param ''dump'' (T_bound ''Source''), a_param ''name'' T_Str, a_word ''dump_method'' (T_bound ''FileSerialisationMethod'') (PEnum ''FileSerialisationMethod'' ''nar'') ''NAR'', a_word ''hash_method'' (T_bound ''ContentAddressMethod'') (PEnum ''ContentAddressMethod'' ''nar'') ''NAR'', a_word ''hash_algo'' (T_bound ''HashAlgorithm'') (PEnum ''HashAlgorithm'' ''sha256'') ''SHA256'', a_default ''references'' (T_opt (T_list (T_bound ''StorePath''))) PNone, a_default ''repair'' T_Bint (PBool False)] (Some (T_bound ''StorePath'')) True]"

definition nx_Store_methods_22 :: "written list" where
  "nx_Store_methods_22 = 
    [Written ''add_to_store_nar'' [] [a_param ''info'' (T_bound ''PathInfo''), a_param ''source'' (T_bound ''Source''), a_default ''repair'' T_Bint (PBool False), a_default ''check_sigs'' T_Bint (PBool True)] None True]"

definition nx_Store_methods_23 :: "written list" where
  "nx_Store_methods_23 = 
    [Written ''to_store_path'' [Marked M_instant] [a_param ''path'' T_Str] (Some (T_bound ''StoreLocation'')) True]"

definition nx_Store_methods_24 :: "written list" where
  "nx_Store_methods_24 = 
    [Written ''query_realisation'' [Marked (M_needs [''nix/store/realisation.hh''])] [a_param ''id'' (T_bound ''DrvOutput'')] (Some (T_opt (T_bound ''Realisation''))) True]"

definition nx_Store_methods_25 :: "written list" where
  "nx_Store_methods_25 = 
    [Written ''query_missing'' [] [a_param ''targets'' (T_list (T_bound ''DerivedPath''))] (Some (T_bound ''MissingPaths'')) True]"

definition nx_Store_methods_26 :: "written list" where
  "nx_Store_methods_26 = 
    [Written ''query_derivation_output_map'' [Marked (M_cxx_name ''queryDerivationOutputMap'')] [a_param ''path'' (T_bound ''StorePath'')] (Some (T_dict (T_bound ''StorePath''))) True]"

definition nx_Store_methods_27 :: "written list" where
  "nx_Store_methods_27 = 
    [Written ''register_drv_output'' [Marked (M_needs [''nix/store/realisation.hh''])] [a_param ''output'' (T_bound ''Realisation''), a_default ''check_sigs'' T_Bint (PBool True)] None True]"

definition nx_Store_methods_28 :: "written list" where
  "nx_Store_methods_28 = 
    [Written ''build_paths'' [Marked (M_needs [''huggorm_decl/cpp/build.hpp''])] [a_param ''targets'' (T_list (T_bound ''DerivedPath'')), a_word ''mode'' (T_bound ''BuildMode'') (PEnum ''BuildMode'' ''normal'') ''NORMAL'', a_default ''eval_store'' (T_opt (T_bound ''Store'')) PNone] None True]"

definition nx_Store_methods_29 :: "written list" where
  "nx_Store_methods_29 = 
    [Written ''build_paths_with_results'' [Marked (M_needs [''nix/store/build-result.hh'', ''huggorm_decl/cpp/build.hpp''])] [a_param ''targets'' (T_list (T_bound ''DerivedPath'')), a_word ''mode'' (T_bound ''BuildMode'') (PEnum ''BuildMode'' ''normal'') ''NORMAL'', a_default ''eval_store'' (T_opt (T_bound ''Store'')) PNone] (Some (T_list (T_bound ''KeyedBuildResult''))) True]"

definition nx_Store_methods_30 :: "written list" where
  "nx_Store_methods_30 = 
    [Written ''ensure_path'' [Marked (M_needs [''huggorm_decl/cpp/build.hpp''])] [a_param ''path'' (T_bound ''StorePath'')] None True]"

definition nx_Store_methods_31 :: "written list" where
  "nx_Store_methods_31 = 
    [Written ''add_temp_root'' [Marked (M_cxx_name ''addTempRoot'')] [a_param ''path'' (T_bound ''StorePath'')] None False,
     Written ''query_substitutable_paths'' [Marked (M_cxx_name ''querySubstitutablePaths'')] [a_param ''paths'' (T_list (T_bound ''StorePath''))] (Some (T_list (T_bound ''StorePath''))) False,
     Written ''topo_sort_paths'' [Marked (M_cxx_name ''topoSortPaths'')] [a_param ''paths'' (T_list (T_bound ''StorePath''))] (Some (T_list (T_bound ''StorePath''))) False,
     Written ''read_derivation'' [Marked (M_cxx_name ''readDerivation'')] [a_param ''path'' (T_bound ''StorePath'')] (Some (T_bound ''Derivation'')) False,
     Written ''add_derivation'' [Marked (M_needs [''nlohmann/json.hpp'', ''huggorm_decl/cpp/store.hpp''])] [a_param ''json'' T_Str] (Some (T_bound ''StorePath'')) True]"

definition nx_Store_methods_32 :: "written list" where
  "nx_Store_methods_32 = 
    [Written ''write_derivation'' [Marked (M_needs [''nix/store/derivations.hh''])] [a_param ''drv'' (T_bound ''Derivation''), a_default ''repair'' T_Bint (PBool False)] (Some (T_bound ''StorePath'')) True]"

definition nx_Store_methods_33 :: "written list" where
  "nx_Store_methods_33 = 
    [Written ''get_build_log'' [Marked (M_needs [''nix/store/log-store.hh'', ''nix/store/store-cast.hh''])] [a_param ''path'' (T_bound ''StorePath'')] (Some (T_opt T_Str)) True]"

definition nx_Store_methods_34 :: "written list" where
  "nx_Store_methods_34 = 
    [Written ''copy_closure'' [] [a_param ''destination'' (T_bound ''Store''), a_param ''paths'' (T_list (T_bound ''StorePath'')), a_default ''repair'' T_Bint (PBool False), a_default ''check_sigs'' T_Bint (PBool True), a_default ''substitute'' T_Bint (PBool False)] None True]"

definition nx_Store_methods_35 :: "written list" where
  "nx_Store_methods_35 = 
    [Written ''query_path_from_hash_part'' [Marked (M_cxx_name ''queryPathFromHashPart'')] [a_param ''hash_part'' T_Str] (Some (T_opt (T_bound ''StorePath''))) False,
     Written ''is_trusted_client'' [Marked (M_cxx_name ''isTrustedClient'')] [] (Some (T_opt (T_bound ''TrustedFlag''))) True]"

definition nx_Store_methods_36 :: "written list" where
  "nx_Store_methods_36 = 
    [Written ''collect_garbage'' [Marked (M_needs [''nix/store/gc-store.hh'']), Marked (M_cxx_name ''collectGarbage'')] [a_param ''options'' (T_bound ''GCOptions'')] (Some (T_bound ''GCResults'')) True]"

definition nx_Store_methods_37 :: "written list" where
  "nx_Store_methods_37 = 
    [Written ''add_perm_root'' [Marked (M_needs [''nix/store/local-fs-store.hh''])] [a_param ''path'' (T_bound ''StorePath''), a_param ''gc_root'' T_Str] (Some T_Path) True]"

definition nx_Store_methods_38 :: "written list" where
  "nx_Store_methods_38 = 
    [Written ''optimise_store'' [Marked (M_cxx_name ''optimiseStore'')] [] None False,
     Written ''add_indirect_root'' [Marked (M_needs [''nix/store/indirect-root-store.hh''])] [a_param ''path'' T_Str] None True]"

definition nx_Store_methods_39 :: "written list" where
  "nx_Store_methods_39 = 
    [Written ''find_roots'' [Marked (M_needs [''algorithm''])] [a_param ''censor'' T_Bint] (Some (T_list (T_bound ''GcRoot''))) True]"

definition nx_Store_methods_40 :: "written list" where
  "nx_Store_methods_40 = 
    [Written ''verify_store'' [] [a_param ''check_contents'' T_Bint, a_default ''repair'' T_Bint (PBool False)] (Some T_Bint) True]"

definition nx_Store_methods_41 :: "written list" where
  "nx_Store_methods_41 = 
    [Written ''follow_links_to_store'' [] [a_param ''path'' T_Str] (Some T_Str) True]"

definition nx_Store_methods_42 :: "written list" where
  "nx_Store_methods_42 = 
    [Written ''follow_links_to_store_path'' [Marked (M_cxx_name ''followLinksToStorePath'')] [a_param ''path'' T_StrView] (Some (T_bound ''StorePath'')) False,
     Written ''print_store_path'' [Marked M_instant, Marked (M_cxx_name ''printStorePath'')] [a_param ''path'' (T_bound ''StorePath'')] (Some T_Str) False,
     Written ''print_derived_path'' [Marked M_instant] [a_param ''target'' (T_bound ''DerivedPath'')] (Some T_Str) True]"

definition nx_Store_methods_43 :: "written list" where
  "nx_Store_methods_43 = 
    [Written ''parse_derived_path'' [Marked M_instant] [a_param ''target'' T_StrView] (Some (T_bound ''DerivedPath'')) True]"

definition nx_Store_methods_44 :: "written list" where
  "nx_Store_methods_44 = 
    [Written ''parse_store_path'' [Marked M_instant] [a_param ''path'' T_StrView] (Some (T_bound ''StorePath'')) True]"

definition nx_Store_marks :: "class_mark list" where
  "nx_Store_marks = 
    [C_abstract, C_header ''nix/store/store-api.hh'', C_binding ''nix::Store'' ''pool'' ''shared_ptr'' True [] []]"

definition nx_Store_init :: "written" where
  "nx_Store_init = Written ''__init__'' [] [] None False"

definition nx_Store :: "dclass" where
  "nx_Store = \<lparr>kl_name = ''Store'',
     kl_decl = constructs_class ''open_store'' (marked_decl nx_Store_marks),
     kl_ctor = Some (declared nx_Store_init),
     kl_methods = map declared (nx_Store_methods_1 @ nx_Store_methods_2 @ nx_Store_methods_3 @ nx_Store_methods_4 @ nx_Store_methods_5 @ nx_Store_methods_6 @ nx_Store_methods_7 @ nx_Store_methods_8 @ nx_Store_methods_9 @ nx_Store_methods_10 @ nx_Store_methods_11 @ nx_Store_methods_12 @ nx_Store_methods_13 @ nx_Store_methods_14 @ nx_Store_methods_15 @ nx_Store_methods_16 @ nx_Store_methods_17 @ nx_Store_methods_18 @ nx_Store_methods_19 @ nx_Store_methods_20 @ nx_Store_methods_21 @ nx_Store_methods_22 @ nx_Store_methods_23 @ nx_Store_methods_24 @ nx_Store_methods_25 @ nx_Store_methods_26 @ nx_Store_methods_27 @ nx_Store_methods_28 @ nx_Store_methods_29 @ nx_Store_methods_30 @ nx_Store_methods_31 @ nx_Store_methods_32 @ nx_Store_methods_33 @ nx_Store_methods_34 @ nx_Store_methods_35 @ nx_Store_methods_36 @ nx_Store_methods_37 @ nx_Store_methods_38 @ nx_Store_methods_39 @ nx_Store_methods_40 @ nx_Store_methods_41 @ nx_Store_methods_42 @ nx_Store_methods_43 @ nx_Store_methods_44),
     kl_from_parts = None, kl_raised = None\<rparr>"

definition nx_store_functions_1 :: "written list" where
  "nx_store_functions_1 = 
    [Written ''open_store'' [Marked (M_constructs (declared_class ''Store'')), Marked (M_needs [''nix/store/store-open.hh'']), Marked M_blocks] [a_default ''uri'' T_Str (PStr ''auto'')] (Some (T_bound ''Store'')) True]"

definition nx_store_functions_2 :: "written list" where
  "nx_store_functions_2 = 
    [Written ''render_store_reference'' [Marked (M_needs [''nix/store/store-reference.hh''])] [a_param ''uri'' T_Str, a_default ''with_params'' T_Bint (PBool True)] (Some T_Str) True]"

definition nx_store_functions_3 :: "written list" where
  "nx_store_functions_3 = 
    [Written ''store_types_json'' [Marked (M_needs [''nix/store/store-registration.hh'', ''nix/util/experimental-features.hh'', ''nix/util/json-utils.hh''])] [] (Some T_Str) True]"

definition nx_store_functions_4 :: "written list" where
  "nx_store_functions_4 = 
    [Written ''_init_libstore'' [Marked (M_needs [''huggorm_decl/cpp/libstore.hpp'']), Marked (M_binds ''huggorm::init_libstore''), Marked M_startup] [] None False]"

definition nx_store_file :: dmodule where
  "nx_store_file = declared_file ''store'' [nx_GcRoot, nx_StoreLocation, nx_MissingPaths, nx_Store]
     (map declared (nx_store_functions_1 @ nx_store_functions_2 @ nx_store_functions_3 @ nx_store_functions_4)) [] []
     [nx_build_result_file, nx_derivation_file, nx_derived_path_file, nx_gc_file, nx_path_file, nx_pathinfo_file, nx_realisation_file, nx_serialise_file, nx_source_accessor_file, nx_words_file]"

definition nx_LayeredStoreConfig_methods_1 :: "written list" where
  "nx_LayeredStoreConfig_methods_1 = 
    [Written ''scheme'' [Marked (M_reads ''scheme'' [])] [] (Some T_Str) False,
     Written ''authority'' [Marked (M_reads ''authority'' [])] [] (Some T_Str) False,
     Written ''params'' [Marked (M_reads ''params'' [])] [] (Some (T_dict T_Str)) False]"

definition nx_LayeredStoreConfig_marks :: "class_mark list" where
  "nx_LayeredStoreConfig_marks = 
    [C_in_process, C_header ''huggorm_decl/cpp/layered_store.hpp'', C_binding ''huggorm::LayeredStoreConfig'' ''pool'' ''shared_ptr'' False [] []]"

definition nx_LayeredStoreConfig :: "dclass" where
  "nx_LayeredStoreConfig = \<lparr>kl_name = ''LayeredStoreConfig'',
     kl_decl = marked_decl nx_LayeredStoreConfig_marks,
     kl_ctor = None,
     kl_methods = map declared nx_LayeredStoreConfig_methods_1,
     kl_from_parts = None, kl_raised = None\<rparr>"

definition nx_LayeredStore_methods_1 :: "written list" where
  "nx_LayeredStore_methods_1 = 
    [Written ''is_valid_path'' [Marked M_virtual] [a_param ''path'' (T_bound ''StorePath'')] (Some T_Bint) False,
     Written ''query_path_info'' [Marked M_virtual] [a_param ''path'' (T_bound ''StorePath'')] (Some (T_bound ''PathInfo'')) False,
     Written ''query_path_from_hash_part'' [Marked M_virtual] [a_param ''hash_part'' T_Str] (Some (T_opt (T_bound ''StorePath''))) False,
     Written ''query_all_valid_paths'' [Marked M_virtual] [] (Some (T_list (T_bound ''StorePath''))) False,
     Written ''query_referrers'' [Marked M_virtual] [a_param ''path'' (T_bound ''StorePath'')] (Some (T_list (T_bound ''StorePath''))) False,
     Written ''add_temp_root'' [Marked M_virtual] [a_param ''path'' (T_bound ''StorePath'')] None False,
     Written ''query_valid_derivers'' [Marked M_virtual] [a_param ''path'' (T_bound ''StorePath'')] (Some (T_list (T_bound ''StorePath''))) False,
     Written ''query_valid_paths'' [Marked M_virtual] [a_param ''paths'' (T_list (T_bound ''StorePath''))] (Some (T_list (T_bound ''StorePath''))) False,
     Written ''compute_fs_closure'' [Marked M_virtual] [a_param ''paths'' (T_list (T_bound ''StorePath'')), a_default ''flip_direction'' T_Bint (PBool False), a_default ''include_outputs'' T_Bint (PBool False), a_default ''include_derivers'' T_Bint (PBool False)] (Some (T_list (T_bound ''StorePath''))) False,
     Written ''query_substitutable_paths'' [Marked M_virtual] [a_param ''paths'' (T_list (T_bound ''StorePath''))] (Some (T_list (T_bound ''StorePath''))) False,
     Written ''query_missing'' [Marked M_virtual] [a_param ''targets'' (T_list (T_bound ''DerivedPath''))] (Some (T_bound ''MissingPaths'')) False,
     Written ''query_realisation'' [Marked M_virtual] [a_param ''id'' (T_bound ''DrvOutput'')] (Some (T_opt (T_bound ''Realisation''))) False,
     Written ''register_drv_output'' [Marked M_virtual] [a_param ''output'' (T_bound ''Realisation''), a_default ''check_sigs'' T_Bint (PBool True)] None False,
     Written ''read_derivation'' [Marked M_virtual] [a_param ''path'' (T_bound ''StorePath'')] (Some (T_bound ''Derivation'')) False,
     Written ''write_derivation'' [Marked M_virtual] [a_param ''drv'' (T_bound ''Derivation''), a_default ''repair'' T_Bint (PBool False)] (Some (T_bound ''StorePath'')) False,
     Written ''optimise_store'' [Marked M_virtual] [] None False,
     Written ''verify_store'' [Marked M_virtual] [a_param ''check_contents'' T_Bint, a_default ''repair'' T_Bint (PBool False)] (Some T_Bint) False,
     Written ''is_trusted_client'' [Marked M_virtual] [] (Some (T_opt (T_bound ''TrustedFlag''))) False,
     Written ''ensure_path'' [Marked M_virtual] [a_param ''path'' (T_bound ''StorePath'')] None False,
     Written ''build_paths'' [Marked M_virtual] [a_param ''targets'' (T_list (T_bound ''DerivedPath'')), a_word ''mode'' (T_bound ''BuildMode'') (PEnum ''BuildMode'' ''normal'') ''NORMAL'', a_default ''eval_store'' (T_opt (T_bound ''Store'')) PNone] None False,
     Written ''build_paths_with_results'' [Marked M_virtual] [a_param ''targets'' (T_list (T_bound ''DerivedPath'')), a_word ''mode'' (T_bound ''BuildMode'') (PEnum ''BuildMode'' ''normal'') ''NORMAL'', a_default ''eval_store'' (T_opt (T_bound ''Store'')) PNone] (Some (T_list (T_bound ''KeyedBuildResult''))) False,
     Written ''get_fs_accessor'' [Marked M_virtual] [a_param ''path'' (T_bound ''StorePath''), a_default ''require_valid_path'' T_Bint (PBool True)] (Some (T_opt (T_bound ''SourceAccessor''))) False,
     Written ''nar_from_path'' [Marked M_virtual] [a_param ''path'' (T_bound ''StorePath''), a_param ''sink'' (T_bound ''Sink'')] None False,
     Written ''add_to_store_from_dump'' [Marked M_virtual] [a_param ''dump'' (T_bound ''Source''), a_param ''name'' T_Str, a_word ''dump_method'' (T_bound ''FileSerialisationMethod'') (PEnum ''FileSerialisationMethod'' ''nar'') ''NAR'', a_word ''hash_method'' (T_bound ''ContentAddressMethod'') (PEnum ''ContentAddressMethod'' ''nar'') ''NAR'', a_word ''hash_algo'' (T_bound ''HashAlgorithm'') (PEnum ''HashAlgorithm'' ''sha256'') ''SHA256'', a_default ''references'' (T_opt (T_list (T_bound ''StorePath''))) PNone, a_default ''repair'' T_Bint (PBool False)] (Some (T_bound ''StorePath'')) False,
     Written ''add_to_store_nar'' [Marked M_virtual] [a_param ''info'' (T_bound ''PathInfo''), a_param ''source'' (T_bound ''Source''), a_default ''repair'' T_Bint (PBool False), a_default ''check_sigs'' T_Bint (PBool True)] None False]"

definition nx_LayeredStore_marks :: "class_mark list" where
  "nx_LayeredStore_marks = 
    [C_in_process, C_header ''huggorm_decl/cpp/layered_store.hpp'', C_binding ''huggorm::LayeredStore'' ''pool'' ''shared_ptr'' True [] []]"

definition nx_LayeredStore_init :: "written" where
  "nx_LayeredStore_init = Written ''__init__'' [] [a_param ''config'' (T_bound ''LayeredStoreConfig''), a_default ''underlying'' (T_opt (T_bound ''Store'')) PNone] None False"

definition nx_LayeredStore :: "dclass" where
  "nx_LayeredStore = \<lparr>kl_name = ''LayeredStore'',
     kl_decl = marked_decl nx_LayeredStore_marks,
     kl_ctor = Some (declared nx_LayeredStore_init),
     kl_methods = map declared nx_LayeredStore_methods_1,
     kl_from_parts = None, kl_raised = None\<rparr>"

definition nx_layered_store_functions_1 :: "written list" where
  "nx_layered_store_functions_1 = 
    [Written ''register_store_implementation'' [Marked (M_needs [''huggorm_decl/cpp/layered_store.hpp''])] [a_param ''name'' T_Str, a_param ''schemes'' (T_list T_Str), a_param ''factory'' T_PyFunc] None True]"

definition nx_layered_store_file :: dmodule where
  "nx_layered_store_file = declared_file ''layered_store'' [nx_LayeredStoreConfig, nx_LayeredStore]
     (map declared (nx_layered_store_functions_1)) [] []
     [nx_build_result_file, nx_derivation_file, nx_derived_path_file, nx_path_file, nx_pathinfo_file, nx_realisation_file, nx_serialise_file, nx_source_accessor_file, nx_store_file, nx_words_file]"

end
