(* ===== verification/Nix_Refs.thy ===== *)
theory Nix_Refs
  imports Nix_Store
begin

text \<open>
  What the declarations say of the registry, profiles, fetchers and flake references. Each definition is a part of
  \<open>huggorm_decl/decl/\<close> as the reader's records hold it, on Nix 2.34: a class with its decorators as written, its
  constructor and its methods, a function, a union, and the file with what it imports. Docstrings and C++ bodies are left
  out; a method says whether it carries one.
\<close>

definition nx_Attr :: "dclass" where
  "nx_Attr = union_class ''Attr'' [''str'', ''uint'', ''bool''] [(''str'', T_Str), (''uint'', T_U64), (''bool'', T_Bint)] (Some \<lparr>va_cxx = ''nix::fetchers::Attr'', va_wraps = [(''bool'', ''nix::Explicit<bool>'', ''t'')]\<rparr>)"

definition nx_RegistryEntry_methods_1 :: "written list" where
  "nx_RegistryEntry_methods_1 = 
    [Written ''layer'' [] [] (Some (T_bound ''RegistryType'')) False,
     Written ''source'' [] [] (Some T_Str) False,
     Written ''target'' [] [] (Some T_Str) False,
     Written ''extra_attrs'' [] [] (Some (T_dict (T_bound ''Attr''))) False,
     Written ''exact'' [] [] (Some T_Bint) False]"

definition nx_RegistryEntry_marks :: "class_mark list" where
  "nx_RegistryEntry_marks = 
    [C_produced, C_binding [] ''pool'' [] False [] [], C_wire_value [] ''parts'' [] False [] False]"

definition nx_RegistryEntry :: "dclass" where
  "nx_RegistryEntry = \<lparr>kl_name = ''RegistryEntry'',
     kl_decl = marked_decl nx_RegistryEntry_marks,
     kl_ctor = None,
     kl_methods = map declared nx_RegistryEntry_methods_1,
     kl_from_parts = None, kl_raised = None\<rparr>"

definition nx_RegistryWrite_methods_1 :: "written list" where
  "nx_RegistryWrite_methods_1 = 
    [Written ''path'' [] [] (Some T_Str) False,
     Written ''removed'' [] [] (Some T_U64) False,
     Written ''target'' [] [] (Some (T_opt T_Str)) False,
     Written ''locked'' [] [] (Some (T_opt T_Bint)) False]"

definition nx_RegistryWrite_marks :: "class_mark list" where
  "nx_RegistryWrite_marks = 
    [C_produced, C_binding [] ''pool'' [] False [] [], C_wire_value [] ''parts'' [] False [] False]"

definition nx_RegistryWrite :: "dclass" where
  "nx_RegistryWrite = \<lparr>kl_name = ''RegistryWrite'',
     kl_decl = marked_decl nx_RegistryWrite_marks,
     kl_ctor = None,
     kl_methods = map declared nx_RegistryWrite_methods_1,
     kl_from_parts = None, kl_raised = None\<rparr>"

definition nx_registry_functions_1 :: "written list" where
  "nx_registry_functions_1 = 
    [Written ''registry_entries'' [Marked (M_needs [''huggorm_decl/cpp/call_settings.hpp'', ''nix/fetchers/fetch-settings.hh'', ''nix/fetchers/registry.hh'']), Marked (M_threading ''pool''), Marked M_blocks] [a_param ''store'' (T_bound ''Store''), a_default ''settings'' (T_opt (T_dict T_Str)) PNone] (Some (T_list (T_bound ''RegistryEntry''))) True]"

definition nx_registry_functions_2 :: "written list" where
  "nx_registry_functions_2 = 
    [Written ''user_registry_path'' [Marked (M_needs [''nix/fetchers/registry.hh''])] [] (Some T_Str) True]"

definition nx_registry_functions_3 :: "written list" where
  "nx_registry_functions_3 = 
    [Written ''registry_add'' [Marked (M_needs [''huggorm_decl/cpp/call_settings.hpp'', ''huggorm_decl/cpp/flakeref.hpp'', ''nix/fetchers/fetch-settings.hh'', ''nix/fetchers/registry.hh'', ''nix/flake/flakeref.hh'', ''nix/util/source-path.hh'']), Marked (M_threading ''pool''), Marked M_blocks] [a_param ''path'' (T_opt T_Str), a_param ''source'' T_Str, a_param ''target'' T_Str, a_default ''base'' (T_opt T_Str) PNone, a_default ''settings'' (T_opt (T_dict T_Str)) PNone] (Some (T_bound ''RegistryWrite'')) True]"

definition nx_registry_functions_4 :: "written list" where
  "nx_registry_functions_4 = 
    [Written ''registry_remove'' [Marked (M_needs [''huggorm_decl/cpp/call_settings.hpp'', ''huggorm_decl/cpp/flakeref.hpp'', ''nix/fetchers/fetch-settings.hh'', ''nix/fetchers/registry.hh'', ''nix/flake/flakeref.hh'', ''nix/util/source-path.hh'']), Marked (M_threading ''pool''), Marked M_blocks] [a_param ''path'' (T_opt T_Str), a_param ''source'' T_Str, a_default ''base'' (T_opt T_Str) PNone, a_default ''settings'' (T_opt (T_dict T_Str)) PNone] (Some (T_bound ''RegistryWrite'')) True]"

definition nx_registry_functions_5 :: "written list" where
  "nx_registry_functions_5 = 
    [Written ''registry_pin'' [Marked (M_needs [''huggorm_decl/cpp/call_settings.hpp'', ''huggorm_decl/cpp/flakeref.hpp'', ''nix/fetchers/fetch-settings.hh'', ''nix/fetchers/registry.hh'', ''nix/flake/flakeref.hh'', ''nix/util/source-path.hh'']), Marked (M_threading ''pool''), Marked M_blocks] [a_param ''store'' (T_bound ''Store''), a_param ''path'' (T_opt T_Str), a_param ''source'' T_Str, a_default ''target'' (T_opt T_Str) PNone, a_default ''base'' (T_opt T_Str) PNone, a_default ''settings'' (T_opt (T_dict T_Str)) PNone] (Some (T_bound ''RegistryWrite'')) True]"

definition nx_registry_file :: dmodule where
  "nx_registry_file = declared_file ''registry'' [nx_RegistryEntry, nx_RegistryWrite]
     (map declared (nx_registry_functions_1 @ nx_registry_functions_2 @ nx_registry_functions_3 @ nx_registry_functions_4 @ nx_registry_functions_5)) [nx_Attr] []
     [nx_store_file, nx_words_file]"

definition nx_Generation_methods_1 :: "written list" where
  "nx_Generation_methods_1 = 
    [Written ''number'' [Marked (M_reads ''number'' [])] [] (Some T_U64) False,
     Written ''path'' [Marked (M_reads ''path'' [])] [] (Some T_Path) False,
     Written ''creation_time'' [Marked (M_reads ''creationTime'' [])] [] (Some T_I64) False]"

definition nx_Generation_marks :: "class_mark list" where
  "nx_Generation_marks = 
    [C_produced, C_header ''nix/store/profiles.hh'', C_binding ''nix::Generation'' ''pool'' [] False [] [], C_wire_value [] ''parts'' [] False [] False]"

definition nx_Generation_builder :: "written" where
  "nx_Generation_builder = Written ''_from_parts'' [As_static] [] (Some (T_bound ''Generation'')) True"

definition nx_Generation :: "dclass" where
  "nx_Generation = \<lparr>kl_name = ''Generation'',
     kl_decl = marked_decl nx_Generation_marks,
     kl_ctor = None,
     kl_methods = map declared nx_Generation_methods_1,
     kl_from_parts = Some (declared nx_Generation_builder), kl_raised = None\<rparr>"

definition nx_profiles_functions_1 :: "written list" where
  "nx_profiles_functions_1 = 
    [Written ''find_generations'' [Marked (M_needs [''nix/store/profiles.hh'']), Marked (M_threading ''pool''), Marked M_blocks] [a_param ''profile'' T_Path] (Some (T_list (T_bound ''Generation''))) True]"

definition nx_profiles_functions_2 :: "written list" where
  "nx_profiles_functions_2 = 
    [Written ''current_generation'' [Marked (M_needs [''nix/store/profiles.hh'']), Marked (M_threading ''pool''), Marked M_blocks] [a_param ''profile'' T_Path] (Some (T_opt T_U64)) True]"

definition nx_profiles_functions_3 :: "written list" where
  "nx_profiles_functions_3 = 
    [Written ''set_profile'' [Marked (M_needs [''nix/store/profiles.hh'', ''nix/store/local-fs-store.hh'', ''filesystem'']), Marked (M_threading ''pool''), Marked M_blocks] [a_param ''store'' (T_bound ''Store''), a_param ''profile'' T_Path, a_param ''path'' (T_bound ''StorePath'')] (Some T_Path) True]"

definition nx_profiles_functions_4 :: "written list" where
  "nx_profiles_functions_4 = 
    [Written ''switch_generation'' [Marked (M_needs [''nix/store/profiles.hh'']), Marked (M_threading ''pool''), Marked M_blocks] [a_param ''profile'' T_Path, a_default ''number'' (T_opt T_U64) PNone, a_default ''dry_run'' T_Bint (PBool False)] None True]"

definition nx_profiles_functions_5 :: "written list" where
  "nx_profiles_functions_5 = 
    [Written ''delete_old_generations'' [Marked (M_needs [''nix/store/profiles.hh'']), Marked (M_threading ''pool''), Marked M_blocks] [a_param ''profile'' T_Path, a_default ''dry_run'' T_Bint (PBool False)] None True]"

definition nx_profiles_functions_6 :: "written list" where
  "nx_profiles_functions_6 = 
    [Written ''delete_generations_older_than'' [Marked (M_needs [''nix/store/profiles.hh'']), Marked (M_threading ''pool''), Marked M_blocks] [a_param ''profile'' T_Path, a_param ''older_than'' T_Str, a_default ''dry_run'' T_Bint (PBool False)] None True]"

definition nx_profiles_file :: dmodule where
  "nx_profiles_file = declared_file ''profiles'' [nx_Generation]
     (map declared (nx_profiles_functions_1 @ nx_profiles_functions_2 @ nx_profiles_functions_3 @ nx_profiles_functions_4 @ nx_profiles_functions_5 @ nx_profiles_functions_6)) [] []
     [nx_path_file, nx_store_file]"

definition nx_Input_methods_1 :: "written list" where
  "nx_Input_methods_1 = 
    [Written ''to_string'' [Marked M_local] [] (Some T_Str) False,
     Written ''to_url_string'' [Marked M_local] [] (Some T_Str) True]"

definition nx_Input_methods_2 :: "written list" where
  "nx_Input_methods_2 = 
    [Written ''to_attrs'' [] [] (Some (T_dict (T_bound ''Attr''))) True]"

definition nx_Input_methods_3 :: "written list" where
  "nx_Input_methods_3 = 
    [Written ''fingerprint'' [Marked M_local, Marked M_blocks] [a_param ''store'' (T_bound ''Store'')] (Some (T_opt T_Str)) True]"

definition nx_Input_marks :: "class_mark list" where
  "nx_Input_marks = 
    [C_produced, C_header ''nix/fetchers/fetchers.hh'', C_binding ''nix::fetchers::Input'' ''pool'' [] False [] [], C_wire_value [PNamed ''to_attrs''] ''cxx'' ''to_string'' False [] False]"

definition nx_Input_builder :: "written" where
  "nx_Input_builder = Written ''_from_parts'' [As_static, Marked (M_needs [''huggorm_decl/cpp/call_settings.hpp'', ''huggorm_decl/cpp/fetchers.hpp'', ''nix/fetchers/fetch-settings.hh''])] [] (Some (T_bound ''Input'')) True"

definition nx_Input :: "dclass" where
  "nx_Input = \<lparr>kl_name = ''Input'',
     kl_decl = marked_decl nx_Input_marks,
     kl_ctor = None,
     kl_methods = map declared (nx_Input_methods_1 @ nx_Input_methods_2 @ nx_Input_methods_3),
     kl_from_parts = Some (declared nx_Input_builder), kl_raised = None\<rparr>"

definition nx_fetchers_functions_1 :: "written list" where
  "nx_fetchers_functions_1 = 
    [Written ''input_from_url'' [Marked (M_needs [''huggorm_decl/cpp/call_settings.hpp'', ''huggorm_decl/cpp/fetchers.hpp'', ''nix/fetchers/fetch-settings.hh'', ''nix/fetchers/fetchers.hh'']), Marked (M_threading ''pool'')] [a_param ''url'' T_Str] (Some (T_bound ''Input'')) True]"

definition nx_fetchers_functions_2 :: "written list" where
  "nx_fetchers_functions_2 = 
    [Written ''input_from_attrs'' [Marked (M_needs [''huggorm_decl/cpp/call_settings.hpp'', ''huggorm_decl/cpp/fetchers.hpp'', ''nix/fetchers/fetch-settings.hh'', ''nix/fetchers/fetchers.hh'']), Marked (M_threading ''pool'')] [a_param ''attrs'' (T_dict (T_bound ''Attr''))] (Some (T_bound ''Input'')) True]"

definition nx_fetchers_file :: dmodule where
  "nx_fetchers_file = declared_file ''fetchers'' [nx_Input]
     (map declared (nx_fetchers_functions_1 @ nx_fetchers_functions_2)) [] []
     [nx_registry_file, nx_store_file]"

definition nx_FlakeRef_methods_1 :: "written list" where
  "nx_FlakeRef_methods_1 = 
    [Written ''to_string'' [Marked M_local] [] (Some T_Str) False,
     Written ''subdir'' [Marked M_local, Marked (M_reads ''subdir'' [])] [] (Some T_Str) False,
     Written ''to_attrs'' [] [] (Some (T_dict (T_bound ''Attr''))) True]"

definition nx_FlakeRef_marks :: "class_mark list" where
  "nx_FlakeRef_marks = 
    [C_produced, C_header ''nix/flake/flakeref.hh'', C_binding ''nix::FlakeRef'' ''pool'' [] False [] [], C_wire_value [PNamed ''to_attrs''] ''cxx'' ''to_string'' False [] False]"

definition nx_FlakeRef_builder :: "written" where
  "nx_FlakeRef_builder = Written ''_from_parts'' [As_static, Marked (M_needs [''huggorm_decl/cpp/call_settings.hpp'', ''huggorm_decl/cpp/flakeref.hpp'', ''nix/fetchers/fetch-settings.hh''])] [] (Some (T_bound ''FlakeRef'')) True"

definition nx_FlakeRef :: "dclass" where
  "nx_FlakeRef = \<lparr>kl_name = ''FlakeRef'',
     kl_decl = marked_decl nx_FlakeRef_marks,
     kl_ctor = None,
     kl_methods = map declared nx_FlakeRef_methods_1,
     kl_from_parts = Some (declared nx_FlakeRef_builder), kl_raised = None\<rparr>"

definition nx_flakeref_functions_1 :: "written list" where
  "nx_flakeref_functions_1 = 
    [Written ''parse_flake_ref'' [Marked (M_needs [''huggorm_decl/cpp/call_settings.hpp'', ''huggorm_decl/cpp/flakeref.hpp'', ''nix/fetchers/fetch-settings.hh'', ''nix/flake/flakeref.hh'']), Marked (M_threading ''pool''), Marked M_blocks] [a_param ''url'' T_Str, a_default ''base'' (T_opt T_Str) PNone] (Some (T_bound ''FlakeRef'')) True]"

definition nx_flakeref_file :: dmodule where
  "nx_flakeref_file = declared_file ''flakeref'' [nx_FlakeRef]
     (map declared (nx_flakeref_functions_1)) [] []
     [nx_registry_file]"

definition nx_terminal_functions_1 :: "written list" where
  "nx_terminal_functions_1 = 
    [Written ''filter_ansi_escapes'' [Marked (M_needs [''nix/util/terminal.hh'', ''limits''])] [a_param ''text'' T_Str, a_default ''filter_all'' T_Bint (PBool False), a_default ''width'' (T_opt T_U64) PNone] (Some T_Str) True]"

definition nx_terminal_file :: dmodule where
  "nx_terminal_file = declared_file ''terminal'' []
     (map declared (nx_terminal_functions_1)) [] []
     []"

end
