(* ===== verification/Nix_Eval.thy ===== *)
theory Nix_Eval
  imports Nix_Refs
begin

text \<open>
  What the declaration of the evaluator says: values, the state, the read-eval-print loop, settings and logs. Each definition
  is a part of \<open>huggorm_decl/decl/\<close> as the reader's records hold it, on Nix 2.34: a class with its decorators as
  written, its constructor and its methods, a function, a union, and the file with what it imports. Docstrings and C++ bodies
  are left out; a method says whether it carries one.
\<close>

definition nx_Value_methods_1 :: "written list" where
  "nx_Value_methods_1 = 
    [Written ''_identity'' [Marked (M_cxx_name ''identity'')] [] (Some T_I64) False,
     Written ''_force'' [] [] None True]"

definition nx_Value_methods_2 :: "written list" where
  "nx_Value_methods_2 = 
    [Written ''_is_derivation'' [Marked (M_guard ''attrs'')] [] (Some T_Bint) True]"

definition nx_Value_methods_3 :: "written list" where
  "nx_Value_methods_3 = 
    [Written ''is_gc_managed'' [] [] (Some T_Bint) False,
     Written ''type_name'' [Marked M_names] [] (Some T_Str) False,
     Written ''integer'' [Marked (M_guard ''int'')] [] (Some T_I64) False,
     Written ''floating'' [Marked (M_guard ''float''), Marked (M_cxx_name ''fpoint'')] [] (Some T_F64) False,
     Written ''string_value'' [Marked (M_guard ''string''), Marked (M_cxx_name ''string_view'')] [] (Some T_StrView) False,
     Written ''boolean'' [Marked (M_guard ''bool'')] [] (Some T_Bint) False,
     Written ''size'' [] [] (Some T_I64) True]"

definition nx_Value_methods_4 :: "written list" where
  "nx_Value_methods_4 = 
    [Written ''length'' [Marked (M_guard ''list'')] [] (Some T_I64) True]"

definition nx_Value_methods_5 :: "written list" where
  "nx_Value_methods_5 = 
    [Written ''names'' [Marked (M_guard ''attrs'')] [] (Some (T_list T_Str)) True]"

definition nx_Value_methods_6 :: "written list" where
  "nx_Value_methods_6 = 
    [Written ''at'' [Marked (M_guard ''list''), Marked (M_needs [''huggorm_decl/cpp/eval_errors.hpp''])] [a_param ''index'' T_I64] (Some (T_bound ''Value'')) True]"

definition nx_Value_methods_7 :: "written list" where
  "nx_Value_methods_7 = 
    [Written ''name_at'' [Marked (M_guard ''attrs'')] [a_param ''index'' T_I64] (Some T_Str) True]"

definition nx_Value_methods_8 :: "written list" where
  "nx_Value_methods_8 = 
    [Written ''value_at'' [Marked (M_guard ''attrs'')] [a_param ''index'' T_I64] (Some (T_bound ''Value'')) True]"

definition nx_Value_methods_9 :: "written list" where
  "nx_Value_methods_9 = 
    [Written ''has'' [Marked (M_guard ''attrs'')] [a_param ''name'' T_Str] (Some T_Bint) True]"

definition nx_Value_methods_10 :: "written list" where
  "nx_Value_methods_10 = 
    [Written ''get'' [Marked (M_guard ''attrs''), Marked (M_needs [''huggorm_decl/cpp/eval_errors.hpp''])] [a_param ''name'' T_Str] (Some (T_bound ''Value'')) True]"

definition nx_Value_methods_11 :: "written list" where
  "nx_Value_methods_11 = 
    [Written ''to_json'' [Marked M_blocks, Marked (M_needs [''nix/expr/value-to-json.hh'', ''nlohmann/json.hpp''])] [a_default ''copy_to_store'' T_Bint (PBool False)] (Some T_Str) True]"

definition nx_Value_methods_12 :: "written list" where
  "nx_Value_methods_12 = 
    [Written ''realise_json'' [Marked M_blocks, Marked (M_needs [''nix/expr/value-to-json.hh'', ''nlohmann/json.hpp''])] [a_default ''copy_to_store'' T_Bint (PBool False)] (Some T_Str) True]"

definition nx_Value_methods_13 :: "written list" where
  "nx_Value_methods_13 = 
    [Written ''string_context'' [Marked M_blocks, Marked (M_needs [''functional''])] [] (Some (T_list T_Str)) True]"

definition nx_Value_methods_14 :: "written list" where
  "nx_Value_methods_14 = 
    [Written ''realise_string'' [Marked M_blocks] [] (Some T_Str) True]"

definition nx_Value_methods_15 :: "written list" where
  "nx_Value_methods_15 = 
    [Written ''realise_argv'' [Marked (M_guard ''list''), Marked M_blocks] [] (Some (T_list T_Str)) True]"

definition nx_Value_methods_16 :: "written list" where
  "nx_Value_methods_16 = 
    [Written ''is_lambda'' [Marked (M_guard ''function'')] [] (Some T_Bint) True]"

definition nx_Value_methods_17 :: "written list" where
  "nx_Value_methods_17 = 
    [Written ''is_primop'' [Marked (M_guard ''function'')] [] (Some T_Bint) True]"

definition nx_Value_methods_18 :: "written list" where
  "nx_Value_methods_18 = 
    [Written ''is_primop_app'' [Marked (M_guard ''function'')] [] (Some T_Bint) True]"

definition nx_Value_methods_19 :: "written list" where
  "nx_Value_methods_19 = 
    [Written ''__call__'' [Marked M_blocks] [a_param ''arg'' (T_bound ''Value'')] (Some (T_bound ''Value'')) True]"

definition nx_Value_methods_20 :: "written list" where
  "nx_Value_methods_20 = 
    [Written ''apply_auto'' [Marked (M_guard ''function''), Marked M_blocks] [a_param ''args'' (T_bound ''Value'')] (Some (T_bound ''Value'')) True]"

definition nx_Value_methods_21 :: "written list" where
  "nx_Value_methods_21 = 
    [Written ''drv_path'' [Marked (M_guard ''attrs''), Marked M_blocks, Marked (M_needs [''nix/expr/get-drvs.hh''])] [] (Some (T_bound ''StorePath'')) True]"

definition nx_Value_methods_22 :: "written list" where
  "nx_Value_methods_22 = 
    [Written ''output_paths'' [Marked (M_guard ''attrs''), Marked M_blocks, Marked (M_needs [''nix/expr/get-drvs.hh''])] [] (Some (T_dict (T_opt (T_bound ''StorePath'')))) True]"

definition nx_Value_methods_23 :: "written list" where
  "nx_Value_methods_23 = 
    [Written ''lambda_name'' [Marked (M_guard ''function'')] [] (Some T_Str) True]"

definition nx_Value_methods_24 :: "written list" where
  "nx_Value_methods_24 = 
    [Written ''lambda_arg'' [Marked (M_guard ''function'')] [] (Some T_Str) True]"

definition nx_Value_methods_25 :: "written list" where
  "nx_Value_methods_25 = 
    [Written ''has_formals'' [Marked (M_guard ''function'')] [] (Some T_Bint) True]"

definition nx_Value_methods_26 :: "written list" where
  "nx_Value_methods_26 = 
    [Written ''accepts_extra'' [Marked (M_guard ''function'')] [] (Some T_Bint) True]"

definition nx_Value_methods_27 :: "written list" where
  "nx_Value_methods_27 = 
    [Written ''formal_names'' [Marked (M_guard ''function'')] [] (Some (T_list T_Str)) True]"

definition nx_Value_methods_28 :: "written list" where
  "nx_Value_methods_28 = 
    [Written ''defaulted_formals'' [Marked (M_guard ''function'')] [] (Some (T_list T_Str)) True]"

definition nx_Value_methods_29 :: "written list" where
  "nx_Value_methods_29 = 
    [Written ''primop_name'' [Marked (M_guard ''function'')] [] (Some T_Str) True]"

definition nx_Value_methods_30 :: "written list" where
  "nx_Value_methods_30 = 
    [Written ''primop_arity'' [Marked (M_guard ''function'')] [] (Some T_I64) True]"

definition nx_Value_methods_31 :: "written list" where
  "nx_Value_methods_31 = 
    [Written ''primop_args'' [Marked (M_guard ''function'')] [] (Some (T_list T_Str)) True]"

definition nx_Value_methods_32 :: "written list" where
  "nx_Value_methods_32 = 
    [Written ''doc'' [Marked M_blocks] [] (Some (T_opt (T_bound ''Doc''))) True]"

definition nx_Value_methods_33 :: "written list" where
  "nx_Value_methods_33 = 
    [Written ''attr_doc'' [Marked M_blocks] [a_param ''name'' T_Str] (Some (T_opt (T_bound ''AttrDoc''))) True]"

definition nx_Value_methods_34 :: "written list" where
  "nx_Value_methods_34 = 
    [Written ''edit_location'' [Marked M_blocks, Marked (M_needs [''nix/expr/attr-path.hh''])] [] (Some (T_bound ''SourceLocation'')) True]"

definition nx_Value_marks :: "class_mark list" where
  "nx_Value_marks = 
    [C_produced, C_header ''huggorm_decl/cpp/eval.hpp'', C_binding ''huggorm::Bridge'' ''affine'' [] False [] [], C_tagged ''get()'' ''type<true>()'' [(''thunk'', ''nix::nThunk''), (''int'', ''nix::nInt''), (''float'', ''nix::nFloat''), (''bool'', ''nix::nBool''), (''string'', ''nix::nString''), (''path'', ''nix::nPath''), (''null'', ''nix::nNull''), (''attrs'', ''nix::nAttrs''), (''list'', ''nix::nList''), (''function'', ''nix::nFunction''), (''external'', ''nix::nExternal''), (''failed'', ''nix::nFailed'')], C_tree \<lparr>td_kind = ''type_name'', td_kinds = [(''int'', TLeaf ''int'' ''integer''), (''float'', TLeaf ''float'' ''floating''), (''string'', TLeaf ''str'' ''string_value''), (''bool'', TLeaf ''bool'' ''boolean''), (''null'', TNull), (''list'', TItems ''size'' ''at''), (''attrs'', TEntries ''size'' ''name_at'' ''value_at'')], td_identity = ''_identity'', td_force = ''_force'', td_stop = ''_is_derivation''\<rparr>]"

definition nx_Value :: "dclass" where
  "nx_Value = \<lparr>kl_name = ''Value'',
     kl_decl = marked_decl nx_Value_marks,
     kl_ctor = None,
     kl_methods = map declared (nx_Value_methods_1 @ nx_Value_methods_2 @ nx_Value_methods_3 @ nx_Value_methods_4 @ nx_Value_methods_5 @ nx_Value_methods_6 @ nx_Value_methods_7 @ nx_Value_methods_8 @ nx_Value_methods_9 @ nx_Value_methods_10 @ nx_Value_methods_11 @ nx_Value_methods_12 @ nx_Value_methods_13 @ nx_Value_methods_14 @ nx_Value_methods_15 @ nx_Value_methods_16 @ nx_Value_methods_17 @ nx_Value_methods_18 @ nx_Value_methods_19 @ nx_Value_methods_20 @ nx_Value_methods_21 @ nx_Value_methods_22 @ nx_Value_methods_23 @ nx_Value_methods_24 @ nx_Value_methods_25 @ nx_Value_methods_26 @ nx_Value_methods_27 @ nx_Value_methods_28 @ nx_Value_methods_29 @ nx_Value_methods_30 @ nx_Value_methods_31 @ nx_Value_methods_32 @ nx_Value_methods_33 @ nx_Value_methods_34),
     kl_from_parts = None, kl_raised = None\<rparr>"

definition nx_Doc_methods_1 :: "written list" where
  "nx_Doc_methods_1 = 
    [Written ''name'' [] [] (Some (T_opt T_Str)) False,
     Written ''arity'' [] [] (Some T_I64) False,
     Written ''args'' [] [] (Some (T_list T_Str)) False,
     Written ''doc'' [] [] (Some T_Str) False,
     Written ''path'' [] [] (Some (T_opt T_Str)) False,
     Written ''line'' [] [] (Some T_I64) False]"

definition nx_Doc_marks :: "class_mark list" where
  "nx_Doc_marks = 
    [C_produced, C_binding [] ''pool'' [] False [] [], C_wire_value [] ''parts'' [] False [] False]"

definition nx_Doc :: "dclass" where
  "nx_Doc = \<lparr>kl_name = ''Doc'',
     kl_decl = marked_decl nx_Doc_marks,
     kl_ctor = None,
     kl_methods = map declared nx_Doc_methods_1,
     kl_from_parts = None, kl_raised = None\<rparr>"

definition nx_AttrDoc_methods_1 :: "written list" where
  "nx_AttrDoc_methods_1 = 
    [Written ''path'' [] [] (Some T_Str) False,
     Written ''line'' [] [] (Some T_I64) False,
     Written ''doc'' [] [] (Some (T_opt T_Str)) False]"

definition nx_AttrDoc_marks :: "class_mark list" where
  "nx_AttrDoc_marks = 
    [C_produced, C_binding [] ''pool'' [] False [] [], C_wire_value [] ''parts'' [] False [] False]"

definition nx_AttrDoc :: "dclass" where
  "nx_AttrDoc = \<lparr>kl_name = ''AttrDoc'',
     kl_decl = marked_decl nx_AttrDoc_marks,
     kl_ctor = None,
     kl_methods = map declared nx_AttrDoc_methods_1,
     kl_from_parts = None, kl_raised = None\<rparr>"

definition nx_SourceLocation_methods_1 :: "written list" where
  "nx_SourceLocation_methods_1 = 
    [Written ''path'' [] [] (Some T_Str) False,
     Written ''line'' [] [] (Some T_I64) False]"

definition nx_SourceLocation_marks :: "class_mark list" where
  "nx_SourceLocation_marks = 
    [C_produced, C_binding [] ''pool'' [] False [] [], C_wire_value [] ''parts'' [] False [] False]"

definition nx_SourceLocation :: "dclass" where
  "nx_SourceLocation = \<lparr>kl_name = ''SourceLocation'',
     kl_decl = marked_decl nx_SourceLocation_marks,
     kl_ctor = None,
     kl_methods = map declared nx_SourceLocation_methods_1,
     kl_from_parts = None, kl_raised = None\<rparr>"

definition nx_LogField_methods_1 :: "written list" where
  "nx_LogField_methods_1 = 
    [Written ''is_int'' [Marked (M_reads ''is_int'' [])] [] (Some T_Bint) False,
     Written ''integer'' [Marked (M_reads ''integer'' [])] [] (Some T_I64) False,
     Written ''text'' [Marked (M_reads ''text'' []), Marked (M_wire_read ''text_bytes'')] [] (Some T_Str) False,
     Written ''text_bytes'' [Marked M_local, Marked (M_reads ''text'' [])] [] (Some T_Bytes) False]"

definition nx_LogField_marks :: "class_mark list" where
  "nx_LogField_marks = 
    [C_header ''huggorm_decl/cpp/logging.hpp'', C_binding ''huggorm::LogField'' ''pool'' [] False [] [], C_produced, C_wire_value [] ''parts'' [] False [] False]"

definition nx_LogField :: "dclass" where
  "nx_LogField = \<lparr>kl_name = ''LogField'',
     kl_decl = marked_decl nx_LogField_marks,
     kl_ctor = None,
     kl_methods = map declared nx_LogField_methods_1,
     kl_from_parts = None, kl_raised = None\<rparr>"

definition nx_LogRecord_methods_1 :: "written list" where
  "nx_LogRecord_methods_1 = 
    [Written ''action'' [Marked (M_reads ''action'' [])] [] (Some T_Str) False,
     Written ''level'' [Marked (M_reads ''level'' [])] [] (Some T_I64) False,
     Written ''id'' [Marked (M_reads ''id'' [])] [] (Some T_I64) False,
     Written ''parent'' [Marked (M_reads ''parent'' [])] [] (Some T_I64) False,
     Written ''type'' [Marked (M_reads ''type'' [])] [] (Some T_I64) False,
     Written ''request'' [Marked (M_reads ''request'' [])] [] (Some T_I64) False,
     Written ''text'' [Marked (M_reads ''text'' []), Marked (M_wire_read ''text_bytes'')] [] (Some T_Str) False,
     Written ''text_bytes'' [Marked M_local, Marked (M_reads ''text'' [])] [] (Some T_Bytes) False,
     Written ''fields'' [Marked (M_reads ''fields'' [])] [] (Some (T_list (T_bound ''LogField''))) False,
     Written ''info'' [Marked (M_reads ''info'' [])] [] (Some (T_opt (T_bound ''ErrorInfo''))) False]"

definition nx_LogRecord_marks :: "class_mark list" where
  "nx_LogRecord_marks = 
    [C_header ''huggorm_decl/cpp/logging.hpp'', C_binding ''huggorm::LogRecord'' ''pool'' [] False [] [], C_produced, C_wire_value [] ''parts'' [] False [] False]"

definition nx_LogRecord :: "dclass" where
  "nx_LogRecord = \<lparr>kl_name = ''LogRecord'',
     kl_decl = marked_decl nx_LogRecord_marks,
     kl_ctor = None,
     kl_methods = map declared nx_LogRecord_methods_1,
     kl_from_parts = None, kl_raised = None\<rparr>"

definition nx_LogStream_methods_1 :: "written list" where
  "nx_LogStream_methods_1 = 
    [Written ''drain'' [] [] (Some (T_list (T_bound ''LogRecord''))) False,
     Written ''dropped'' [] [] (Some T_I64) False,
     Written ''close'' [] [] None False]"

definition nx_LogStream_marks :: "class_mark list" where
  "nx_LogStream_marks = 
    [C_header ''huggorm_decl/cpp/logging.hpp'', C_binding ''huggorm::LogQueue'' ''pool'' ''shared_ptr'' False [] [], C_produced]"

definition nx_LogStream :: "dclass" where
  "nx_LogStream = \<lparr>kl_name = ''LogStream'',
     kl_decl = marked_decl nx_LogStream_marks,
     kl_ctor = None,
     kl_methods = map declared nx_LogStream_methods_1,
     kl_from_parts = None, kl_raised = None\<rparr>"

definition nx_LockedInput_methods_1 :: "written list" where
  "nx_LockedInput_methods_1 = 
    [Written ''locked_ref'' [] [] (Some (T_bound ''FlakeRef'')) False,
     Written ''original_ref'' [] [] (Some (T_bound ''FlakeRef'')) False,
     Written ''is_flake'' [] [] (Some T_Bint) False]"

definition nx_LockedInput_marks :: "class_mark list" where
  "nx_LockedInput_marks = 
    [C_produced, C_binding [] ''pool'' [] False [] [], C_wire_value [] ''parts'' [] False [] False]"

definition nx_LockedInput :: "dclass" where
  "nx_LockedInput = \<lparr>kl_name = ''LockedInput'',
     kl_decl = marked_decl nx_LockedInput_marks,
     kl_ctor = None,
     kl_methods = map declared nx_LockedInput_methods_1,
     kl_from_parts = None, kl_raised = None\<rparr>"

definition nx_LockedFlake_methods_1 :: "written list" where
  "nx_LockedFlake_methods_1 = 
    [Written ''description'' [] [] (Some (T_opt T_Str)) True]"

definition nx_LockedFlake_methods_2 :: "written list" where
  "nx_LockedFlake_methods_2 = 
    [Written ''find_input'' [] [a_param ''path'' (T_list T_Str)] (Some (T_opt (T_bound ''LockedInput''))) True]"

definition nx_LockedFlake_methods_3 :: "written list" where
  "nx_LockedFlake_methods_3 = 
    [Written ''write_lock_file'' [Marked M_blocks, Marked (M_needs [''huggorm_decl/cpp/flakeref.hpp''])] [] None True]"

definition nx_LockedFlake_marks :: "class_mark list" where
  "nx_LockedFlake_marks = 
    [C_produced, C_header ''huggorm_decl/cpp/eval.hpp'', C_binding ''huggorm::LockedFlake'' ''affine'' [] False [] []]"

definition nx_LockedFlake :: "dclass" where
  "nx_LockedFlake = \<lparr>kl_name = ''LockedFlake'',
     kl_decl = marked_decl nx_LockedFlake_marks,
     kl_ctor = None,
     kl_methods = map declared (nx_LockedFlake_methods_1 @ nx_LockedFlake_methods_2 @ nx_LockedFlake_methods_3),
     kl_from_parts = None, kl_raised = None\<rparr>"

definition nx_ReplSelection_methods_1 :: "written list" where
  "nx_ReplSelection_methods_1 = 
    [Written ''name'' [Marked (M_reads ''name'' [])] [] (Some T_Str) False,
     Written ''attrs'' [Marked (M_reads ''attrs'' [])] [] (Some (T_bound ''Value'')) False]"

definition nx_ReplSelection_marks :: "class_mark list" where
  "nx_ReplSelection_marks = 
    [C_produced, C_header ''huggorm_decl/cpp/eval.hpp'', C_binding ''huggorm::ReplSelection'' ''affine'' [] False [] []]"

definition nx_ReplSelection :: "dclass" where
  "nx_ReplSelection = \<lparr>kl_name = ''ReplSelection'',
     kl_decl = marked_decl nx_ReplSelection_marks,
     kl_ctor = None,
     kl_methods = map declared nx_ReplSelection_methods_1,
     kl_from_parts = None, kl_raised = None\<rparr>"

definition nx_Repl_methods_1 :: "written list" where
  "nx_Repl_methods_1 = 
    [Written ''process_line'' [] [a_param ''line'' T_Str, a_default ''base'' (T_opt T_Str) PNone] (Some (T_opt (T_bound ''Value''))) True]"

definition nx_Repl_methods_2 :: "written list" where
  "nx_Repl_methods_2 = 
    [Written ''eval_expr'' [] [a_param ''expr'' T_Str, a_default ''base'' (T_opt T_Str) PNone] (Some (T_bound ''Value'')) True]"

definition nx_Repl_methods_3 :: "written list" where
  "nx_Repl_methods_3 = 
    [Written ''eval_file'' [Marked (M_needs [''nix/cmd/common-eval-args.hh''])] [a_param ''path'' T_Str] (Some (T_bound ''Value'')) True]"

definition nx_Repl_methods_4 :: "written list" where
  "nx_Repl_methods_4 = 
    [Written ''load_file'' [Marked (M_needs [''nix/cmd/common-eval-args.hh''])] [a_param ''path'' T_Str] (Some (T_bound ''Value'')) True]"

definition nx_Repl_methods_5 :: "written list" where
  "nx_Repl_methods_5 = 
    [Written ''add_attrs'' [] [a_param ''attrs'' (T_bound ''Value'')] (Some (T_list T_Str)) True]"

definition nx_Repl_methods_6 :: "written list" where
  "nx_Repl_methods_6 = 
    [Written ''names'' [] [] (Some (T_list T_Str)) True]"

definition nx_Repl_methods_7 :: "written list" where
  "nx_Repl_methods_7 = 
    [Written ''select'' [] [a_param ''expr'' T_Str, a_default ''base'' (T_opt T_Str) PNone] (Some (T_opt (T_bound ''ReplSelection''))) True]"

definition nx_Repl_marks :: "class_mark list" where
  "nx_Repl_marks = 
    [C_produced, C_header ''huggorm_decl/cpp/eval.hpp'', C_binding ''huggorm::Repl'' ''affine'' [] True [] []]"

definition nx_Repl :: "dclass" where
  "nx_Repl = \<lparr>kl_name = ''Repl'',
     kl_decl = marked_decl nx_Repl_marks,
     kl_ctor = None,
     kl_methods = map declared (nx_Repl_methods_1 @ nx_Repl_methods_2 @ nx_Repl_methods_3 @ nx_Repl_methods_4 @ nx_Repl_methods_5 @ nx_Repl_methods_6 @ nx_Repl_methods_7),
     kl_from_parts = None, kl_raised = None\<rparr>"

definition nx_EvalState_methods_1 :: "written list" where
  "nx_EvalState_methods_1 = 
    [Written ''set_setting'' [] [a_param ''name'' T_Str, a_param ''value'' T_Str] None True]"

definition nx_EvalState_methods_2 :: "written list" where
  "nx_EvalState_methods_2 = 
    [Written ''get_store_uri'' [] [] (Some T_Str) True]"

definition nx_EvalState_methods_3 :: "written list" where
  "nx_EvalState_methods_3 = 
    [Written ''parse_expr'' [] [a_param ''expr'' T_Str, a_default ''base'' (T_opt T_Str) PNone] (Some (T_bound ''Value'')) True]"

definition nx_EvalState_methods_4 :: "written list" where
  "nx_EvalState_methods_4 = 
    [Written ''eval_expr'' [] [a_param ''expr'' T_Str, a_default ''base'' (T_opt T_Str) PNone] (Some (T_bound ''Value'')) True]"

definition nx_EvalState_methods_5 :: "written list" where
  "nx_EvalState_methods_5 = 
    [Written ''eval_file'' [Marked (M_needs [''nix/cmd/common-eval-args.hh''])] [a_param ''path'' T_Str] (Some (T_bound ''Value'')) True]"

definition nx_EvalState_methods_6 :: "written list" where
  "nx_EvalState_methods_6 = 
    [Written ''mount'' [Marked (M_needs [''nix/fetchers/fetch-to-store.hh'', ''nix/util/mounted-source-accessor.hh''])] [a_param ''accessor'' (T_bound ''SourceAccessor''), a_default ''name'' T_Str (PStr ''source''), a_default ''path'' (T_opt (T_bound ''StorePath'')) PNone] (Some (T_bound ''StorePath'')) True]"

definition nx_EvalState_methods_7 :: "written list" where
  "nx_EvalState_methods_7 = 
    [Written ''cached_files'' [] [] (Some (T_list T_Str)) True]"

definition nx_EvalState_methods_8 :: "written list" where
  "nx_EvalState_methods_8 = 
    [Written ''forget_file'' [] [a_param ''path'' T_Str] None True]"

definition nx_EvalState_methods_9 :: "written list" where
  "nx_EvalState_methods_9 = 
    [Written ''register_primop'' [Marked M_instant] [a_param ''name'' T_Str, a_param ''arity'' T_I64, a_param ''fn'' T_PyFunc] None True]"

definition nx_EvalState_methods_10 :: "written list" where
  "nx_EvalState_methods_10 = 
    [Written ''make_primop'' [Marked M_instant] [a_param ''name'' T_Str, a_param ''arity'' T_I64, a_param ''fn'' T_PyFunc] (Some (T_bound ''Value'')) True]"

definition nx_EvalState_methods_11 :: "written list" where
  "nx_EvalState_methods_11 = 
    [Written ''subscribe_logs'' [Marked (M_subscription OPEN)] [a_default ''capacity'' T_I64 (PInt 1024), a_default ''level'' T_I64 (PInt 3)] (Some (T_bound ''LogStream'')) True]"

definition nx_EvalState_methods_12 :: "written list" where
  "nx_EvalState_methods_12 = 
    [Written ''unsubscribe_logs'' [Marked (M_subscription CLOSE)] [] None True]"

definition nx_EvalState_methods_13 :: "written list" where
  "nx_EvalState_methods_13 = 
    [Written ''force'' [] [a_param ''v'' (T_bound ''Value'')] None True]"

definition nx_EvalState_methods_14 :: "written list" where
  "nx_EvalState_methods_14 = 
    [Written ''make_int'' [Marked (M_produces ''mkInt'')] [a_param ''value'' T_I64] (Some (T_bound ''Value'')) False,
     Written ''make_float'' [Marked (M_produces ''mkFloat'')] [a_param ''value'' T_F64] (Some (T_bound ''Value'')) False,
     Written ''make_string'' [] [a_param ''value'' T_Str, a_default ''context'' (T_opt (T_list T_Str)) PNone] (Some (T_bound ''Value'')) True]"

definition nx_EvalState_methods_15 :: "written list" where
  "nx_EvalState_methods_15 = 
    [Written ''make_bool'' [Marked (M_produces ''mkBool'')] [a_param ''value'' T_Bint] (Some (T_bound ''Value'')) False,
     Written ''make_null'' [Marked (M_produces ''mkNull'')] [] (Some (T_bound ''Value'')) False,
     Written ''make_list'' [] [] (Some (T_bound ''Value'')) True]"

definition nx_EvalState_methods_16 :: "written list" where
  "nx_EvalState_methods_16 = 
    [Written ''list_append'' [Marked (M_fills ''make_list'' ''list'')] [a_param ''target'' (T_bound ''Value''), a_param ''item'' (T_bound ''Value'')] None True]"

definition nx_EvalState_methods_17 :: "written list" where
  "nx_EvalState_methods_17 = 
    [Written ''make_attrs'' [] [] (Some (T_bound ''Value'')) True]"

definition nx_EvalState_methods_18 :: "written list" where
  "nx_EvalState_methods_18 = 
    [Written ''attrs_set'' [Marked (M_fills ''make_attrs'' ''attrs'')] [a_param ''target'' (T_bound ''Value''), a_param ''name'' T_Str, a_param ''item'' (T_bound ''Value'')] None True]"

definition nx_EvalState_methods_19 :: "written list" where
  "nx_EvalState_methods_19 = 
    [Written ''lock_flake'' [Marked (M_needs [''huggorm_decl/cpp/call_settings.hpp'', ''nix/flake/settings.hh''])] [a_param ''ref'' (T_bound ''FlakeRef''), a_default ''recreate'' T_Bint (PBool False), a_default ''update'' (T_opt (T_list T_Str)) PNone, a_default ''write_lock_file'' T_Bint (PBool True), a_default ''settings'' (T_opt (T_dict T_Str)) PNone] (Some (T_bound ''LockedFlake'')) True]"

definition nx_EvalState_methods_20 :: "written list" where
  "nx_EvalState_methods_20 = 
    [Written ''repl'' [] [] (Some (T_bound ''Repl'')) True]"

definition nx_EvalState_methods_21 :: "written list" where
  "nx_EvalState_methods_21 = 
    [Written ''call_flake'' [] [a_param ''locked'' (T_bound ''LockedFlake'')] (Some (T_bound ''Value'')) True]"

definition nx_EvalState_methods_22 :: "written list" where
  "nx_EvalState_methods_22 = 
    [Written ''get_flake'' [] [a_param ''ref'' (T_bound ''FlakeRef''), a_default ''use_registries'' T_Bint (PBool True)] (Some (T_bound ''FlakeRef'')) True]"

definition nx_EvalState_methods_23 :: "written list" where
  "nx_EvalState_methods_23 = 
    [Written ''flake_metadata_json'' [Marked (M_needs [''nlohmann/json.hpp'', ''nix/fetchers/attrs.hh''])] [a_param ''locked'' (T_bound ''LockedFlake'')] (Some T_Str) True]"

definition nx_EvalState_methods_24 :: "written list" where
  "nx_EvalState_methods_24 = 
    [Written ''statistics_json'' [] [] (Some T_Str) True]"

definition nx_EvalState_marks :: "class_mark list" where
  "nx_EvalState_marks = 
    [C_header ''huggorm_decl/cpp/eval.hpp'', C_gc_slots ''huggorm::evaluator_slots'', C_builds \<lparr>bu_null = ''make_null'', bu_leaves = [(''int'', ''make_int''), (''float'', ''make_float''), (''str'', ''make_string''), (''bool'', ''make_bool'')], bu_items = ''make_list'', bu_add_item = ''list_append'', bu_entries = ''make_attrs'', bu_add_entry = ''attrs_set''\<rparr>, C_binding ''huggorm::Evaluator'' ''affine'' [] True [] []]"

definition nx_EvalState_init :: "written" where
  "nx_EvalState_init = Written ''__init__'' [] [a_param ''store'' (T_bound ''Store''), a_default ''settings'' (T_opt (T_dict T_Str)) PNone, a_default ''build_store'' (T_opt (T_bound ''Store'')) PNone] None False"

definition nx_EvalState :: "dclass" where
  "nx_EvalState = \<lparr>kl_name = ''EvalState'',
     kl_decl = marked_decl nx_EvalState_marks,
     kl_ctor = Some (declared nx_EvalState_init),
     kl_methods = map declared (nx_EvalState_methods_1 @ nx_EvalState_methods_2 @ nx_EvalState_methods_3 @ nx_EvalState_methods_4 @ nx_EvalState_methods_5 @ nx_EvalState_methods_6 @ nx_EvalState_methods_7 @ nx_EvalState_methods_8 @ nx_EvalState_methods_9 @ nx_EvalState_methods_10 @ nx_EvalState_methods_11 @ nx_EvalState_methods_12 @ nx_EvalState_methods_13 @ nx_EvalState_methods_14 @ nx_EvalState_methods_15 @ nx_EvalState_methods_16 @ nx_EvalState_methods_17 @ nx_EvalState_methods_18 @ nx_EvalState_methods_19 @ nx_EvalState_methods_20 @ nx_EvalState_methods_21 @ nx_EvalState_methods_22 @ nx_EvalState_methods_23 @ nx_EvalState_methods_24),
     kl_from_parts = None, kl_raised = None\<rparr>"

definition nx_eval_functions_1 :: "written list" where
  "nx_eval_functions_1 = 
    [Written ''gc_stats'' [Marked (M_needs [''huggorm_decl/cpp/gc.hpp'']), Marked (M_threading ''pool'')] [] (Some (T_dict T_I64)) True]"

definition nx_eval_functions_2 :: "written list" where
  "nx_eval_functions_2 = 
    [Written ''collect_garbage'' [Marked (M_needs [''huggorm_decl/cpp/gc.hpp'']), Marked (M_threading ''pool''), Marked M_blocks, Marked (M_binds ''huggorm::gc_collect'')] [] None False,
     Written ''collector_owner_thread'' [Marked (M_needs [''huggorm_decl/cpp/gc.hpp''])] [] (Some T_I64) True]"

definition nx_eval_functions_3 :: "written list" where
  "nx_eval_functions_3 = 
    [Written ''start_collector'' [Marked (M_needs [''huggorm_decl/cpp/gc.hpp'']), Marked (M_binds ''huggorm::gc_start'')] [] None False,
     Written ''gc_release_thread'' [Marked (M_needs [''huggorm_decl/cpp/gc.hpp'']), Marked (M_binds ''huggorm::gc_unregister_thread'')] [] None False,
     Written ''process_verbosity'' [Marked (M_needs [''huggorm_decl/cpp/logging.hpp''])] [] (Some T_I64) True]"

definition nx_eval_functions_4 :: "written list" where
  "nx_eval_functions_4 = 
    [Written ''daemon_verbosity'' [Marked (M_needs [''huggorm_decl/cpp/logging.hpp''])] [] (Some T_I64) True]"

definition nx_eval_functions_5 :: "written list" where
  "nx_eval_functions_5 = 
    [Written ''thread_verbosity'' [Marked (M_needs [''huggorm_decl/cpp/logging.hpp''])] [] (Some T_I64) True]"

definition nx_eval_functions_6 :: "written list" where
  "nx_eval_functions_6 = 
    [Written ''set_thread_verbosity'' [Marked (M_needs [''huggorm_decl/cpp/logging.hpp''])] [a_param ''level'' T_I64] None True]"

definition nx_eval_functions_7 :: "written list" where
  "nx_eval_functions_7 = 
    [Written ''clear_thread_verbosity'' [Marked (M_needs [''huggorm_decl/cpp/logging.hpp''])] [] None True]"

definition nx_eval_functions_8 :: "written list" where
  "nx_eval_functions_8 = 
    [Written ''default_verbosity'' [Marked (M_needs [''huggorm_decl/cpp/logging.hpp''])] [] (Some T_I64) True]"

definition nx_eval_functions_9 :: "written list" where
  "nx_eval_functions_9 = 
    [Written ''set_default_verbosity'' [Marked (M_needs [''huggorm_decl/cpp/logging.hpp''])] [a_param ''level'' T_I64] None True]"

definition nx_eval_functions_10 :: "written list" where
  "nx_eval_functions_10 = 
    [Written ''log_message'' [Marked (M_needs [''huggorm_decl/cpp/logging.hpp''])] [a_param ''level'' T_I64, a_param ''message'' T_Str] None True]"

definition nx_eval_functions_11 :: "written list" where
  "nx_eval_functions_11 = 
    [Written ''current_request'' [Marked (M_needs [''huggorm_decl/cpp/logging.hpp''])] [] (Some T_I64) True]"

definition nx_eval_functions_12 :: "written list" where
  "nx_eval_functions_12 = 
    [Written ''begin_request'' [Marked (M_needs [''huggorm_decl/cpp/logging.hpp'', ''huggorm_decl/cpp/interrupt.hpp''])] [a_param ''request'' T_I64] (Some T_I64) True]"

definition nx_eval_functions_13 :: "written list" where
  "nx_eval_functions_13 = 
    [Written ''end_request'' [Marked (M_needs [''huggorm_decl/cpp/logging.hpp''])] [a_param ''previous'' T_I64] None True]"

definition nx_eval_functions_14 :: "written list" where
  "nx_eval_functions_14 = 
    [Written ''cancel_request'' [Marked (M_needs [''huggorm_decl/cpp/interrupt.hpp''])] [a_param ''request'' T_I64] None True]"

definition nx_eval_functions_15 :: "written list" where
  "nx_eval_functions_15 = 
    [Written ''forget_request'' [Marked (M_needs [''huggorm_decl/cpp/interrupt.hpp''])] [a_param ''request'' T_I64] None True]"

definition nx_eval_functions_16 :: "written list" where
  "nx_eval_functions_16 = 
    [Written ''begin_interrupt_scope'' [Marked (M_needs [''huggorm_decl/cpp/interrupt.hpp''])] [a_param ''scope'' T_I64] (Some T_I64) True]"

definition nx_eval_functions_17 :: "written list" where
  "nx_eval_functions_17 = 
    [Written ''end_interrupt_scope'' [Marked (M_needs [''huggorm_decl/cpp/interrupt.hpp''])] [a_param ''previous'' T_I64] None True]"

definition nx_eval_functions_18 :: "written list" where
  "nx_eval_functions_18 = 
    [Written ''cancel_interrupt_scope'' [Marked (M_needs [''huggorm_decl/cpp/interrupt.hpp''])] [a_param ''scope'' T_I64] None True]"

definition nx_eval_functions_19 :: "written list" where
  "nx_eval_functions_19 = 
    [Written ''forget_interrupt_scope'' [Marked (M_needs [''huggorm_decl/cpp/interrupt.hpp''])] [a_param ''scope'' T_I64] None True]"

definition nx_eval_functions_20 :: "written list" where
  "nx_eval_functions_20 = 
    [Written ''get_setting'' [Marked (M_needs [''huggorm_decl/cpp/settings.hpp''])] [a_param ''name'' T_Str] (Some (T_opt T_Str)) True]"

definition nx_eval_functions_21 :: "written list" where
  "nx_eval_functions_21 = 
    [Written ''load_config'' [Marked (M_needs [''huggorm_decl/cpp/settings.hpp''])] [] None True]"

definition nx_eval_functions_22 :: "written list" where
  "nx_eval_functions_22 = 
    [Written ''init_plugins'' [Marked (M_needs [''nix/main/plugin.hh'', ''atomic''])] [] None True]"

definition nx_eval_functions_23 :: "written list" where
  "nx_eval_functions_23 = 
    [Written ''set_setting'' [Marked (M_needs [''huggorm_decl/cpp/settings.hpp''])] [a_param ''name'' T_Str, a_param ''value'' T_Str] None True]"

definition nx_eval_functions_24 :: "written list" where
  "nx_eval_functions_24 = 
    [Written ''list_settings'' [Marked (M_needs [''huggorm_decl/cpp/settings.hpp''])] [a_default ''overridden_only'' T_Bint (PBool False)] (Some (T_dict T_Str)) True]"

definition nx_eval_functions_25 :: "written list" where
  "nx_eval_functions_25 = 
    [Written ''reset_overridden'' [Marked (M_needs [''huggorm_decl/cpp/settings.hpp''])] [] None True]"

definition nx_eval_functions_26 :: "written list" where
  "nx_eval_functions_26 = 
    [Written ''is_experimental_feature'' [Marked (M_needs [''nix/util/experimental-features.hh''])] [a_param ''name'' T_Str] (Some T_Bint) True]"

definition nx_eval_functions_27 :: "written list" where
  "nx_eval_functions_27 = 
    [Written ''enable_experimental_feature'' [Marked (M_needs [''nix/util/experimental-features.hh''])] [a_param ''name'' T_Str] None True]"

definition nx_eval_functions_28 :: "written list" where
  "nx_eval_functions_28 = 
    [Written ''settings_json'' [Marked (M_needs [''huggorm_decl/cpp/settings.hpp''])] [] (Some T_Str) True]"

definition nx_eval_functions_29 :: "written list" where
  "nx_eval_functions_29 = 
    [Written ''eval_settings_json'' [Marked (M_needs [''huggorm_decl/cpp/settings.hpp''])] [] (Some T_Str) True]"

definition nx_eval_functions_30 :: "written list" where
  "nx_eval_functions_30 = 
    [Written ''fetch_settings_json'' [Marked (M_needs [''huggorm_decl/cpp/settings.hpp''])] [] (Some T_Str) True]"

definition nx_eval_functions_31 :: "written list" where
  "nx_eval_functions_31 = 
    [Written ''flake_settings_json'' [Marked (M_needs [''huggorm_decl/cpp/settings.hpp''])] [] (Some T_Str) True]"

definition nx_eval_functions_32 :: "written list" where
  "nx_eval_functions_32 = 
    [Written ''parse_nix_path'' [Marked (M_needs [''nix/expr/eval-settings.hh''])] [a_param ''value'' T_Str] (Some (T_list T_Str)) True]"

definition nx_eval_functions_33 :: "written list" where
  "nx_eval_functions_33 = 
    [Written ''is_pseudo_url'' [Marked (M_needs [''nix/expr/eval-settings.hh''])] [a_param ''value'' T_Str] (Some T_Bint) True]"

definition nx_eval_functions_34 :: "written list" where
  "nx_eval_functions_34 = 
    [Written ''current_system'' [Marked (M_needs [''nix/cmd/common-eval-args.hh''])] [] (Some T_Str) True]"

definition nx_eval_functions_35 :: "written list" where
  "nx_eval_functions_35 = 
    [Written ''nix_version'' [Marked (M_needs [''nix/store/globals.hh''])] [] (Some T_Str) True]"

definition nx_eval_functions_36 :: "written list" where
  "nx_eval_functions_36 = 
    [Written ''eval_counters_enabled'' [Marked (M_needs [''nix/expr/counter.hh''])] [] (Some T_Bint) True]"

definition nx_eval_functions_37 :: "written list" where
  "nx_eval_functions_37 = 
    [Written ''set_eval_counters_enabled'' [Marked (M_needs [''nix/expr/counter.hh''])] [a_param ''enabled'' T_Bint] None True]"

definition nx_eval_functions_38 :: "written list" where
  "nx_eval_functions_38 = 
    [Written ''boehm_gc'' [Marked (M_needs [''nix/expr/config.hh''])] [] (Some T_Bint) True]"

definition nx_eval_functions_39 :: "written list" where
  "nx_eval_functions_39 = 
    [Written ''subscribe_process_logs'' [Marked (M_needs [''huggorm_decl/cpp/logging.hpp'']), Marked (M_threading ''pool''), Marked (M_subscription OPEN)] [a_default ''capacity'' T_I64 (PInt 1024), a_default ''level'' T_I64 (PInt 3)] (Some (T_bound ''LogStream'')) True]"

definition nx_eval_functions_40 :: "written list" where
  "nx_eval_functions_40 = 
    [Written ''unsubscribe_process_logs'' [Marked (M_needs [''huggorm_decl/cpp/logging.hpp'']), Marked (M_threading ''pool''), Marked (M_binds ''huggorm::unsubscribe_process_logs''), Marked (M_subscription CLOSE)] [] None False,
     Written ''_log_tap_init'' [Marked (M_needs [''huggorm_decl/cpp/logging.hpp'']), Marked (M_binds ''huggorm::install_log_tap''), Marked M_startup] [] None False,
     Written ''_gc_init'' [Marked (M_needs [''huggorm_decl/cpp/gc.hpp'']), Marked (M_binds ''huggorm::gc_boot''), Marked M_startup] [] None False]"

definition nx_eval_file :: dmodule where
  "nx_eval_file = declared_file ''eval'' [nx_Value, nx_Doc, nx_AttrDoc, nx_SourceLocation, nx_LogField, nx_LogRecord, nx_LogStream, nx_LockedInput, nx_LockedFlake, nx_ReplSelection, nx_Repl, nx_EvalState]
     (map declared (nx_eval_functions_1 @ nx_eval_functions_2 @ nx_eval_functions_3 @ nx_eval_functions_4 @ nx_eval_functions_5 @ nx_eval_functions_6 @ nx_eval_functions_7 @ nx_eval_functions_8 @ nx_eval_functions_9 @ nx_eval_functions_10 @ nx_eval_functions_11 @ nx_eval_functions_12 @ nx_eval_functions_13 @ nx_eval_functions_14 @ nx_eval_functions_15 @ nx_eval_functions_16 @ nx_eval_functions_17 @ nx_eval_functions_18 @ nx_eval_functions_19 @ nx_eval_functions_20 @ nx_eval_functions_21 @ nx_eval_functions_22 @ nx_eval_functions_23 @ nx_eval_functions_24 @ nx_eval_functions_25 @ nx_eval_functions_26 @ nx_eval_functions_27 @ nx_eval_functions_28 @ nx_eval_functions_29 @ nx_eval_functions_30 @ nx_eval_functions_31 @ nx_eval_functions_32 @ nx_eval_functions_33 @ nx_eval_functions_34 @ nx_eval_functions_35 @ nx_eval_functions_36 @ nx_eval_functions_37 @ nx_eval_functions_38 @ nx_eval_functions_39 @ nx_eval_functions_40)) [] []
     [nx_flakeref_file, nx_path_file, nx_source_accessor_file, nx_store_file]"

end
