(* ===== verification/Nix_Set.thy ===== *)
theory Nix_Set
  imports Nix_Eval Marks_Props Errors_Props
begin

text \<open>
  The declaration set: which files make it up (\<open>huggorm_decl/__init__.py\<close>), that the lists of them and the directory agree
  (\<open>census\<close>), and what an emitter asks of all of them (\<open>Corpus\<close> of \<open>huggorm_dsl/corpus.py\<close>); and what
  holds of the shipped declarations, checked on the declarations themselves.
\<close>

definition NANOBIND :: "string list" where
  "NANOBIND = [''path.py'', ''hash.py'', ''signature.py'', ''content_address.py'', ''derived_path.py'', ''realisation.py'', ''pathinfo.py'',
     ''build_result.py'', ''derivation.py'', ''gc.py'', ''store_reference.py'', ''serialise.py'', ''source_accessor.py'', ''store.py'',
     ''layered_store.py'', ''eval.py'', ''registry.py'', ''profiles.py'', ''fetchers.py'', ''flakeref.py'', ''terminal.py'']"

definition VOCABULARIES :: "string list" where "VOCABULARIES = [''words.py'']"

definition ERRORS :: string where "ERRORS = ''errors.py''"

text \<open>Names in two lists, or twice in one; the pairs of the name and the two groups.\<close>

fun listed_twice :: "(string, string) dict \<Rightarrow> (string \<times> string) list \<Rightarrow> (string \<times> string \<times> string) list" where
  "listed_twice seen [] = []"
| "listed_twice seen ((name, grp) # ns) = (case dict_get seen name of
       None \<Rightarrow> listed_twice (dict_set name grp seen) ns
     | Some g \<Rightarrow> (name, g, grp) # listed_twice (dict_set name grp seen) ns)"

definition listed_names :: "(string \<times> string list) list \<Rightarrow> (string \<times> string) list" where
  "listed_names ls = concat (map (\<lambda>(g, ns). map (\<lambda>n. (n, g)) ns) ls)"

text \<open>\<open>census\<close>: the files in no list, those that are not there, and those listed twice; any of them is a TypeError.\<close>

definition census :: "string list \<Rightarrow> (string \<times> string list) list \<Rightarrow> (string list \<times> string list \<times> (string \<times> string \<times> string) list) + unit" where
  "census on_disk ls = (let names = map fst (listed_names ls);
       missing = sorted_strs (filter (\<lambda>f. f \<notin> set names) on_disk);
       gone = sorted_strs (filter (\<lambda>n. n \<notin> set on_disk) names);
       twice = listed_twice [] (listed_names ls)
     in if missing = [] \<and> gone = [] \<and> twice = [] then Inr () else Inl (missing, gone, twice))"

definition the_corpus :: "string \<Rightarrow> string list \<Rightarrow> (string list \<times> string list \<times> (string \<times> string \<times> string) list) + corpus" where
  "the_corpus root on_disk =
     map_sum id (\<lambda>_. \<lparr>co_root = root, co_nanobind = NANOBIND, co_vocabularies = VOCABULARIES, co_errors = ERRORS\<rparr>)
       (census on_disk [(''NANOBIND'', NANOBIND), (''VOCABULARIES'', VOCABULARIES), (''ERRORS'', [ERRORS])])"

text \<open>The questions about the set, by its modules and its vocabularies once they are read.\<close>

definition set_module_names :: "dmodule list \<Rightarrow> string list" where
  "set_module_names ms = map md_name ms"

definition set_classes :: "dmodule list \<Rightarrow> dclass list" where
  "set_classes ms = concat (map md_classes ms)"

definition set_unions :: "dmodule list \<Rightarrow> dclass list" where
  "set_unions ms = concat (map md_unions ms)"

definition set_functions :: "dmodule list \<Rightarrow> meth list" where
  "set_functions ms = concat (map md_functions ms)"

definition set_known :: "dmodule list \<Rightarrow> dmodule list \<Rightarrow> known" where
  "set_known ms vs = fold (\<lambda>c d. dict_set (kl_name c) c d) (concat (map (\<lambda>m. md_classes m @ md_unions m) (ms @ vs))) []"

subsection \<open>The lists and the directory\<close>

lemma listed_twice_iff:
  "listed_twice seen ns = [] \<longleftrightarrow> distinct (map fst ns) \<and> set (map fst ns) \<inter> set (dict_keys seen) = {}"
proof (induction ns arbitrary: seen)
  case (Cons p ns)
  obtain name g where p: "p = (name, g)" by (cases p)
  have k: "dict_get seen name = None \<longleftrightarrow> name \<notin> set (dict_keys seen)" by (simp add: map_of_eq_None_iff)
  show ?case
  proof (cases "dict_get seen name")
    case None
    show ?thesis unfolding p listed_twice.simps using None k Cons.IH[of "dict_set name g seen"]
      by (auto simp: dict_keys_set simp del: set_map)
  next
    case (Some h)
    then show ?thesis using k by (auto simp: p)
  qed
qed simp

lemma sorted_strs_Nil [simp]: "sorted_strs xs = [] \<longleftrightarrow> xs = []"
  using sorted_strs_set[of xs] by (metis set_empty)

text \<open>The census passes exactly when every file is in one list, once, and every name listed is a file.\<close>

lemma census_iff:
  "census on_disk ls = Inr () \<longleftrightarrow> distinct (map fst (listed_names ls)) \<and> set (map fst (listed_names ls)) = set on_disk"
  unfolding census_def Let_def by (auto simp: listed_twice_iff filter_empty_conv)

text \<open>A name the set knows is a class or a union of one of its files, the last that declares it.\<close>

lemma set_known_get: "dict_get (set_known ms vs) n = Some c \<Longrightarrow>
    kl_name c = n \<and> c \<in> set (set_classes (ms @ vs) @ set_unions (ms @ vs))"
proof -
  have "dict_get (fold (\<lambda>c d. dict_set (kl_name c) c d) cs d0) n = Some c \<Longrightarrow> (kl_name c = n \<and> c \<in> set cs) \<or> dict_get d0 n = Some c" for cs d0
    by (induction cs arbitrary: d0) (fastforce split: if_splits)+
  from this[of "concat (map (\<lambda>m. md_classes m @ md_unions m) (ms @ vs))" "[]"]
  show "dict_get (set_known ms vs) n = Some c \<Longrightarrow> kl_name c = n \<and> c \<in> set (set_classes (ms @ vs) @ set_unions (ms @ vs))"
    by (fastforce simp: set_known_def set_classes_def set_unions_def)
qed

lemma set_known_all: "c \<in> set (set_classes (ms @ vs) @ set_unions (ms @ vs)) \<Longrightarrow> dict_get (set_known ms vs) (kl_name c) \<noteq> None"
proof -
  have "dict_get d0 (kl_name c) \<noteq> None \<or> c \<in> set cs \<Longrightarrow> dict_get (fold (\<lambda>c d. dict_set (kl_name c) c d) cs d0) (kl_name c) \<noteq> None" for cs d0
    by (induction cs arbitrary: d0) (auto split: if_splits)
  from this[of "[]" "concat (map (\<lambda>m. md_classes m @ md_unions m) (ms @ vs))"]
  show "c \<in> set (set_classes (ms @ vs) @ set_unions (ms @ vs)) \<Longrightarrow> dict_get (set_known ms vs) (kl_name c) \<noteq> None"
    by (auto simp: set_known_def set_classes_def set_unions_def)
qed

section \<open>The shipped declarations\<close>

text \<open>The files in the order of \<open>NANOBIND\<close>, and what stands in them: the decorators of every class, the members of every class
  and the free functions as they are written, and the vocabularies with their words.\<close>

definition nx_modules :: "dmodule list" where
  "nx_modules = [nx_path_file, nx_hash_file, nx_signature_file, nx_content_address_file, nx_derived_path_file, nx_realisation_file,
     nx_pathinfo_file, nx_build_result_file, nx_derivation_file, nx_gc_file, nx_store_reference_file, nx_serialise_file,
     nx_source_accessor_file, nx_store_file, nx_layered_store_file, nx_eval_file, nx_registry_file, nx_profiles_file,
     nx_fetchers_file, nx_flakeref_file, nx_terminal_file]"

definition nx_members :: "written list" where
  "nx_members = [nx_StorePath_init] @ nx_StorePath_methods_1 @ nx_Position_methods_1 @ nx_Trace_methods_1 @ nx_ErrorInfo_methods_1 @
     [nx_Hash_init] @ nx_Hash_methods_1 @ nx_Hash_methods_2 @ nx_Hash_methods_3 @ nx_Hash_methods_4 @ [nx_Signature_init] @
     nx_Signature_methods_1 @ [nx_ContentAddress_init] @ nx_ContentAddress_methods_1 @ [nx_OutputsSpec_init] @
     nx_OutputsSpec_methods_1 @ nx_OutputsSpec_methods_2 @ [nx_SingleDerivedPathBuilt_init] @
     nx_SingleDerivedPathBuilt_methods_1 @ nx_SingleDerivedPathBuilt_methods_2 @ [nx_DerivedPathBuilt_init] @
     nx_DerivedPathBuilt_methods_1 @ nx_DerivedPathBuilt_methods_2 @ [nx_DrvOutput_init] @ nx_DrvOutput_methods_1 @
     [nx_Realisation_init] @ nx_Realisation_methods_1 @ [nx_Realisation_builder] @ nx_PathInfo_methods_1 @
     nx_PathInfo_methods_2 @ [nx_PathInfo_builder] @ nx_BuildSuccess_methods_1 @ nx_BuildSuccess_methods_2 @
     [nx_BuildSuccess_builder] @ nx_KeyedBuildResult_methods_1 @ nx_KeyedBuildResult_methods_2 @
     nx_KeyedBuildResult_methods_3 @ [nx_KeyedBuildResult_builder] @ [nx_DerivationOutputInputAddressed_init] @
     nx_DerivationOutputInputAddressed_methods_1 @ [nx_DerivationOutputCAFixed_init] @ nx_DerivationOutputCAFixed_methods_1 @
     [nx_DerivationOutputCAFloating_init] @ nx_DerivationOutputCAFloating_methods_1 @ [nx_DerivationOutputDeferred_init] @
     [nx_DerivationOutputImpure_init] @ nx_DerivationOutputImpure_methods_1 @ nx_InputDrvNode_methods_1 @
     nx_Derivation_methods_1 @ nx_Derivation_methods_2 @ nx_Derivation_methods_3 @ nx_Derivation_methods_4 @
     [nx_GCOptions_init] @ nx_GCOptions_methods_1 @ nx_GCResults_methods_1 @ [nx_StoreReferenceAuto_init] @
     [nx_StoreReferenceDaemon_init] @ [nx_StoreReferenceLocal_init] @ [nx_StoreReferenceSpecified_init] @
     nx_StoreReferenceSpecified_methods_1 @ nx_StoreReference_methods_1 @ [nx_Sink_init] @ nx_Sink_methods_1 @
     [nx_Source_init] @ nx_Source_methods_1 @ [nx_Stat_init] @ nx_Stat_methods_1 @ [nx_Stat_builder] @
     [nx_SourceAccessor_init] @ nx_SourceAccessor_methods_1 @ nx_GcRoot_methods_1 @ nx_StoreLocation_methods_1 @
     nx_MissingPaths_methods_1 @ [nx_Store_init] @ nx_Store_methods_1 @ nx_Store_methods_2 @ nx_Store_methods_3 @
     nx_Store_methods_4 @ nx_Store_methods_5 @ nx_Store_methods_6 @ nx_Store_methods_7 @ nx_Store_methods_8 @
     nx_Store_methods_9 @ nx_Store_methods_10 @ nx_Store_methods_11 @ nx_Store_methods_12 @ nx_Store_methods_13 @
     nx_Store_methods_14 @ nx_Store_methods_15 @ nx_Store_methods_16 @ nx_Store_methods_17 @ nx_Store_methods_18 @
     nx_Store_methods_19 @ nx_Store_methods_20 @ nx_Store_methods_21 @ nx_Store_methods_22 @ nx_Store_methods_23 @
     nx_Store_methods_24 @ nx_Store_methods_25 @ nx_Store_methods_26 @ nx_Store_methods_27 @ nx_Store_methods_28 @
     nx_Store_methods_29 @ nx_Store_methods_30 @ nx_Store_methods_31 @ nx_Store_methods_32 @ nx_Store_methods_33 @
     nx_Store_methods_34 @ nx_Store_methods_35 @ nx_Store_methods_36 @ nx_Store_methods_37 @ nx_Store_methods_38 @
     nx_Store_methods_39 @ nx_Store_methods_40 @ nx_Store_methods_41 @ nx_Store_methods_42 @ nx_Store_methods_43 @
     nx_Store_methods_44 @ nx_LayeredStoreConfig_methods_1 @ [nx_LayeredStore_init] @ nx_LayeredStore_methods_1 @
     nx_RegistryEntry_methods_1 @ nx_RegistryWrite_methods_1 @ nx_Generation_methods_1 @ [nx_Generation_builder] @
     nx_Input_methods_1 @ nx_Input_methods_2 @ nx_Input_methods_3 @ [nx_Input_builder] @ nx_FlakeRef_methods_1 @
     [nx_FlakeRef_builder] @ nx_Value_methods_1 @ nx_Value_methods_2 @ nx_Value_methods_3 @ nx_Value_methods_4 @
     nx_Value_methods_5 @ nx_Value_methods_6 @ nx_Value_methods_7 @ nx_Value_methods_8 @ nx_Value_methods_9 @
     nx_Value_methods_10 @ nx_Value_methods_11 @ nx_Value_methods_12 @ nx_Value_methods_13 @ nx_Value_methods_14 @
     nx_Value_methods_15 @ nx_Value_methods_16 @ nx_Value_methods_17 @ nx_Value_methods_18 @ nx_Value_methods_19 @
     nx_Value_methods_20 @ nx_Value_methods_21 @ nx_Value_methods_22 @ nx_Value_methods_23 @ nx_Value_methods_24 @
     nx_Value_methods_25 @ nx_Value_methods_26 @ nx_Value_methods_27 @ nx_Value_methods_28 @ nx_Value_methods_29 @
     nx_Value_methods_30 @ nx_Value_methods_31 @ nx_Value_methods_32 @ nx_Value_methods_33 @ nx_Value_methods_34 @
     nx_Doc_methods_1 @ nx_AttrDoc_methods_1 @ nx_SourceLocation_methods_1 @ nx_LogField_methods_1 @ nx_LogRecord_methods_1 @
     nx_LogStream_methods_1 @ nx_LockedInput_methods_1 @ nx_LockedFlake_methods_1 @ nx_LockedFlake_methods_2 @
     nx_LockedFlake_methods_3 @ nx_ReplSelection_methods_1 @ nx_Repl_methods_1 @ nx_Repl_methods_2 @ nx_Repl_methods_3 @
     nx_Repl_methods_4 @ nx_Repl_methods_5 @ nx_Repl_methods_6 @ nx_Repl_methods_7 @ [nx_EvalState_init] @
     nx_EvalState_methods_1 @ nx_EvalState_methods_2 @ nx_EvalState_methods_3 @ nx_EvalState_methods_4 @
     nx_EvalState_methods_5 @ nx_EvalState_methods_6 @ nx_EvalState_methods_7 @ nx_EvalState_methods_8 @
     nx_EvalState_methods_9 @ nx_EvalState_methods_10 @ nx_EvalState_methods_11 @ nx_EvalState_methods_12 @
     nx_EvalState_methods_13 @ nx_EvalState_methods_14 @ nx_EvalState_methods_15 @ nx_EvalState_methods_16 @
     nx_EvalState_methods_17 @ nx_EvalState_methods_18 @ nx_EvalState_methods_19 @ nx_EvalState_methods_20 @
     nx_EvalState_methods_21 @ nx_EvalState_methods_22 @ nx_EvalState_methods_23 @ nx_EvalState_methods_24"

definition nx_free :: "written list" where
  "nx_free = nx_path_functions_1 @ nx_store_reference_functions_1 @ nx_source_accessor_functions_1 @ nx_store_functions_1 @
     nx_store_functions_2 @ nx_store_functions_3 @ nx_store_functions_4 @ nx_layered_store_functions_1 @
     nx_registry_functions_1 @ nx_registry_functions_2 @ nx_registry_functions_3 @ nx_registry_functions_4 @
     nx_registry_functions_5 @ nx_profiles_functions_1 @ nx_profiles_functions_2 @ nx_profiles_functions_3 @
     nx_profiles_functions_4 @ nx_profiles_functions_5 @ nx_profiles_functions_6 @ nx_fetchers_functions_1 @
     nx_fetchers_functions_2 @ nx_flakeref_functions_1 @ nx_terminal_functions_1 @ nx_eval_functions_1 @ nx_eval_functions_2
     @ nx_eval_functions_3 @ nx_eval_functions_4 @ nx_eval_functions_5 @ nx_eval_functions_6 @ nx_eval_functions_7 @
     nx_eval_functions_8 @ nx_eval_functions_9 @ nx_eval_functions_10 @ nx_eval_functions_11 @ nx_eval_functions_12 @
     nx_eval_functions_13 @ nx_eval_functions_14 @ nx_eval_functions_15 @ nx_eval_functions_16 @ nx_eval_functions_17 @
     nx_eval_functions_18 @ nx_eval_functions_19 @ nx_eval_functions_20 @ nx_eval_functions_21 @ nx_eval_functions_22 @
     nx_eval_functions_23 @ nx_eval_functions_24 @ nx_eval_functions_25 @ nx_eval_functions_26 @ nx_eval_functions_27 @
     nx_eval_functions_28 @ nx_eval_functions_29 @ nx_eval_functions_30 @ nx_eval_functions_31 @ nx_eval_functions_32 @
     nx_eval_functions_33 @ nx_eval_functions_34 @ nx_eval_functions_35 @ nx_eval_functions_36 @ nx_eval_functions_37 @
     nx_eval_functions_38 @ nx_eval_functions_39 @ nx_eval_functions_40"

definition nx_vocabularies :: "(dclass \<times> (string \<times> string) list) list" where
  "nx_vocabularies = [(nx_ContentAddressMethod, nx_ContentAddressMethod_words), (nx_HashAlgorithm, nx_HashAlgorithm_words),
     (nx_FileSerialisationMethod, nx_FileSerialisationMethod_words), (nx_BuildMode, nx_BuildMode_words),
     (nx_BuildSuccessStatus, nx_BuildSuccessStatus_words), (nx_BuildFailureStatus, nx_BuildFailureStatus_words),
     (nx_TrustedFlag, nx_TrustedFlag_words), (nx_GCAction, nx_GCAction_words), (nx_RegistryType, nx_RegistryType_words),
     (nx_FileType, nx_FileType_words)]"

subsection \<open>The vocabularies\<close>

definition nx_world :: world where
  "nx_world = \<lparr>wd_files = [], wd_words = (\<lambda>c. map_option snd (List.find (\<lambda>v. kl_name (fst v) = pc_name c) nx_vocabularies))\<rparr>"

definition reads_back :: "dclass \<times> (string \<times> string) list \<Rightarrow> bool" where
  "reads_back v \<longleftrightarrow> distinct (map fst (snd v)) \<and> distinct (map snd (snd v)) \<and>
     list_all (\<lambda>(m, w). word_member nx_world (A_class (declared_class (kl_name (fst v)))) (Some (PEnum (kl_name (fst v)) w)) = m) (snd v)"

text \<open>The defaults written as words, and that each is a word of the vocabulary its parameter declares.\<close>

definition word_defaults :: "written \<Rightarrow> param list" where
  "word_defaults w = filter (\<lambda>p. pm_member p \<noteq> []) (wr_params w)"

definition default_known :: "param \<Rightarrow> bool" where
  "default_known p \<longleftrightarrow> word_member nx_world (A_class (declared_class (ty_python (ty_required (pm_type p))))) (pm_default p) = pm_member p"

text \<open>Words and members of a vocabulary are distinct, and a word reads back as its member.\<close>

lemma words_back: "list_all reads_back nx_vocabularies"
  unfolding nx_vocabularies_def list.pred_inject by (intro conjI TrueI; code_simp)

lemma default_words: "list_all (\<lambda>w. list_all default_known (word_defaults w)) nx_members"
  unfolding nx_members_def list_all_append by (intro conjI; code_simp)

lemma free_default_words: "list_all (\<lambda>w. list_all default_known (word_defaults w)) nx_free"
  unfolding nx_free_def list_all_append by (intro conjI; code_simp)

subsection \<open>The unions\<close>

text \<open>Every union of the set passes the check of its arms in its file.\<close>

lemma arms_ok:
  "check_arms nx_SingleDerivedPath (known_of nx_derived_path_file) = Inr ()"
  "check_arms nx_DerivedPath (known_of nx_derived_path_file) = Inr ()"
  "check_arms nx_DerivationOutput (known_of nx_derivation_file) = Inr ()"
  "check_arms nx_StoreReferenceVariant (known_of nx_store_reference_file) = Inr ()"
  "check_arms nx_Attr k = Inr ()"
  by code_simp+

subsection \<open>The exceptions\<close>

text \<open>What the typed model makes of an exception of the shipped file, whose parts have three types.\<close>

definition part_type :: "dtype \<Rightarrow> tref" where
  "part_type t = (if t = T_plain ''str'' then RLeaf K_SCALAR ''str'' [] [] (''std::string'', Some ''string'')
     else if t = T_plain ''bool'' then RLeaf K_SCALAR ''bool'' [] [] (''bool'', None)
     else RWrap OPTIONAL_OF (RLeaf K_VALUE ''ErrorInfo'' [] [] (''huggorm::ErrorInfo'', None)) (''std::optional<huggorm::ErrorInfo>'', Some ''optional''))"

definition shipped_error :: "dclass \<Rightarrow> error_model" where
  "shipped_error c = (case kl_raised c of None \<Rightarrow> \<lparr>er_name = kl_name c, er_bases = [], er_fields = [], er_cxx = []\<rparr>
     | Some r \<Rightarrow> \<lparr>er_name = kl_name c, er_bases = ra_bases r, er_fields = map (\<lambda>(p, t). (p, part_type t)) (ra_parts r), er_cxx = ra_cxx r\<rparr>)"

definition error_rank :: "string \<Rightarrow> nat" where
  "error_rank n = (if n \<in> {''NixError'', ''Interrupted''} then 0
     else if n = ''ThrownError'' then 4
     else if n \<in> {''NixTypeError'', ''UndefinedVarError'', ''NixAssertionError'', ''Abort'', ''MissingAttribute'', ''ListIndex''} then 3
     else if n \<in> {''BadStorePathName'', ''EvalError''} then 2 else 1)"

lemma part_types:
  "type_ref 9 (known_of nx_errors_file) (T_plain ''str'') = Inr (part_type (T_plain ''str''))"
  "type_ref 9 (known_of nx_errors_file) (T_plain ''bool'') = Inr (part_type (T_plain ''bool''))"
  "type_ref 9 (known_of nx_errors_file) (T_opt (T_bound ''ErrorInfo'')) = Inr (part_type (T_opt (T_bound ''ErrorInfo'')))"
  by code_simp+

text \<open>What the chain of catches needs of an exception: one base at most, declared, and of a lower rank.\<close>

definition error_placed :: "string list \<Rightarrow> dclass \<Rightarrow> bool" where
  "error_placed ns c \<longleftrightarrow> (case kl_raised c of None \<Rightarrow> False
     | Some r \<Rightarrow> length (ra_bases r) \<le> 1 \<and> list_all (\<lambda>b. b \<in> set ns \<and> error_rank b < error_rank (kl_name c)) (ra_bases r) \<and>
         list_all (\<lambda>t. t \<in> {T_plain ''str'', T_plain ''bool'', T_opt (T_bound ''ErrorInfo'')}) (map snd (ra_parts r)) \<and>
         (ra_cxx r = [] \<longleftrightarrow> kl_name c = ''BuildError'') \<and>
         (ra_cxx r = [] \<or> list_all (\<lambda>t. t = T_opt (T_bound ''ErrorInfo'')) (map snd (drop MESSAGE_PARTS (ra_parts r)))))"

definition error_names :: "string list" where "error_names = map kl_name (md_errors nx_errors_file)"

lemma shipped_names: "error_names = [''NixError'', ''UsageError'', ''SysError'', ''Unsupported'', ''InvalidPath'', ''BadStorePath'',
    ''BadStorePathName'', ''UnimplementedError'', ''ParseError'', ''EvalBaseError'', ''EvalError'', ''NixTypeError'', ''UndefinedVarError'',
    ''NixAssertionError'', ''ThrownError'', ''Abort'', ''MissingAttribute'', ''ListIndex'', ''Interrupted'', ''BuildError'']"
  by code_simp

lemma errors_placed: "list_all (error_placed error_names) (md_errors nx_errors_file)"
  unfolding shipped_names nx_errors_file_def declared_file_def dmodule.simps list.pred_inject by (intro conjI TrueI; code_simp)

lemma names_distinct: "distinct error_names" unfolding shipped_names by code_simp

lemma part_type_kind: "tr_kind (tr_required (part_type (T_opt (T_bound ''ErrorInfo'')))) = K_VALUE" by code_simp

lemma error_shipped:
  assumes "error_placed ns c"
  shows "error_of 9 (known_of nx_errors_file) c = Inr (shipped_error c)"
proof -
  obtain r where r: "kl_raised c = Some r" "\<forall>x\<in>set (ra_parts r). snd x \<in> {T_plain ''str'', T_plain ''bool'', T_opt (T_bound ''ErrorInfo'')}"
    "ra_cxx r = [] \<or> (\<forall>x\<in>set (drop MESSAGE_PARTS (ra_parts r)). snd x = T_opt (T_bound ''ErrorInfo''))"
    using assms by (auto simp: error_placed_def list_all_iff split: option.splits)
  have "type_ref 9 (known_of nx_errors_file) (snd x) = Inr (part_type (snd x))" if "x \<in> set (ra_parts r)" for x
    using r(2) that part_types by auto
  then have "map_res (\<lambda>(p, t). map_sum id (Pair p) (type_ref 9 (known_of nx_errors_file) t)) (ra_parts r) = Inr (map (\<lambda>(p, t). (p, part_type t)) (ra_parts r))"
    by (intro map_res_all_Inr) (auto split: prod.splits)
  moreover have "ra_cxx r = [] \<or> map_res reader_ok (drop MESSAGE_PARTS (map (\<lambda>(p, t). (p, part_type t)) (ra_parts r))) = Inr (map (\<lambda>x. ()) (drop MESSAGE_PARTS (map (\<lambda>(p, t). (p, part_type t)) (ra_parts r))))"
  proof (cases "ra_cxx r = []")
    case False
    then have "\<forall>x\<in>set (drop MESSAGE_PARTS (ra_parts r)). snd x = T_opt (T_bound ''ErrorInfo'')" using r(3) by simp
    then show ?thesis
      by (intro disjI2 map_res_all_Inr) (auto simp: drop_map reader_ok_def guard_exn_def part_type_kind)
  qed simp
  ultimately show ?thesis using r(1) by (auto simp: error_of_def shipped_error_def)
qed

lemma shipped_lookup:
  assumes "set es = set (md_errors nx_errors_file)" "dict_get (map (\<lambda>e. (er_name e, e)) (map shipped_error es)) x = Some e"
  obtains c r where "c \<in> set (md_errors nx_errors_file)" "e = shipped_error c" "kl_name c = x" "kl_raised c = Some r" "er_bases e = ra_bases r" "er_cxx e = ra_cxx r"
proof -
  obtain c where c: "c \<in> set (md_errors nx_errors_file)" "e = shipped_error c" "x = er_name e"
    using assms dict_get_mem[OF assms(2)] by auto
  then obtain r where "kl_raised c = Some r" using errors_placed by (auto simp: list_all_iff error_placed_def split: option.splits)
  with c that show ?thesis by (auto simp: shipped_error_def)
qed

lemma shipped_error_name: "er_name (shipped_error c) = kl_name c"
  by (simp add: shipped_error_def split: option.splits)

lemma shipped_count: "length (md_errors nx_errors_file) = 20"
  by (simp add: nx_errors_file_def declared_file_def)

lemma shipped_placed:
  assumes "set es = set (md_errors nx_errors_file)" "dict_get (map (\<lambda>e. (er_name e, e)) (map shipped_error es)) x = Some e"
  shows "length (er_bases e) \<le> 1 \<and> (\<forall>b\<in>set (er_bases e). b \<in> set error_names \<and> error_rank b < error_rank x) \<and>
    (er_cxx e \<noteq> [] \<longleftrightarrow> x \<noteq> ''BuildError'')"
proof -
  obtain c r where c: "c \<in> set (md_errors nx_errors_file)" "kl_name c = x" "kl_raised c = Some r" "er_bases e = ra_bases r" "er_cxx e = ra_cxx r"
    using shipped_lookup[OF assms] by metis
  then have "error_placed error_names c" using errors_placed by (simp add: list_all_iff)
  then show ?thesis using c by (auto simp: error_placed_def list_all_iff)
qed

text \<open>C22. The exceptions of \<open>errors.py\<close> build, and the translator catches each with a C++ type, \<open>BuildError\<close> alone having none, in an order
  in which none comes after a class it derives from.\<close>

theorem shipped_errors_caught:
  "\<exists>classes cs. errors_of 9 (known_of nx_errors_file) (md_errors nx_errors_file) = Inr (classes, cs) \<and>
     set cs = set error_names - {''BuildError''} \<and> sorted_wrt (\<lambda>a b. \<not> (derives classes)\<^sup>+\<^sup>+ b a) cs"
proof -
  define es where "es = sort_by (\<lambda>a b. str_le (kl_name a) (kl_name b)) (md_errors nx_errors_file)"
  define classes where "classes = map (\<lambda>e. (er_name e, e)) (map shipped_error es)"
  have es: "set es = set (md_errors nx_errors_file)" by (simp add: es_def)
  have "map_res (error_of 9 (known_of nx_errors_file)) es = Inr (map shipped_error es)"
    by (intro map_res_all_Inr error_shipped) (use errors_placed es in \<open>auto simp: list_all_iff\<close>)
  then have errs: "errors_of 9 (known_of nx_errors_file) (md_errors nx_errors_file) = res_bind (caught_of classes error_names) (\<lambda>cs. Inr (classes, cs))"
    by (simp add: errors_of_def es_def[symmetric] classes_def error_names_def Let_def)
  have keys: "dict_get classes n \<noteq> None" if "n \<in> set error_names" for n
    using that es by (auto simp: classes_def error_names_def map_of_eq_None_iff image_image shipped_error_name)
  note placed = shipped_placed[OF es, folded classes_def]
  have "error_rank x \<le> length classes" for x by (simp add: classes_def es_def error_rank_def shipped_count)
  then obtain cs where cs: "caught_of classes error_names = Inr cs"
    using caught_exists[of classes error_rank error_names] placed keys by blast
  have single: "single_bases classes" using placed by (simp add: single_bases_def)
  have "set cs = set error_names - {''BuildError''}"
    using caught_sorted(3)[OF cs] placed keys by fastforce
  moreover have "sorted_wrt (\<lambda>a b. \<not> (derives classes)\<^sup>+\<^sup>+ b a) cs"
  proof (rule sorted_wrt_mono_rel[OF _ caught_sorted(1)[OF cs]])
    fix a b assume "b \<in> set cs" "depth_at classes b \<le> depth_at classes a"
    then show "\<not> (derives classes)\<^sup>+\<^sup>+ b a" using caught_sorted(2)[OF cs] depth_chain[OF single] by (metis not_less)
  qed
  ultimately show ?thesis using errs cs by auto
qed

end
