(* ===== verification/Spec2Isabelle.thy ===== *)
theory Spec2Isabelle
  imports Lifecycle_Props Codec_Props Tree_Props Watching_Props Devshell_Props Logbus_Props Pool_Props Home
    Hooks_Props Runner_Props Client_Frames Callbacks Session Contracts_Props Errors_Props Signature Py_Package
    Py_Literal Marks_Props Reader_Props Nix_Set
begin

text \<open>
  huggorm lets Python code use Nix in process or through a server. A declaration (\<open>huggorm_dsl\<close>, \<open>huggorm_decl\<close>) says
  what is bound; the generator (\<open>huggorm_gen\<close>) reads the declarations into a typed model and emits C++ bindings and a Python
  package with async wrappers and a wire policy; the library (\<open>huggorm\<close>) runs a server that keeps bound objects in a handle
  table, a client that talks to it, sessions, watchers and a development shell over either. File names below are under
  \<open>src/packages/\<close>; a definition has the name of the function it models where HOL allows it.

  Shared. \<open>Prelude\<close>: exceptions as values, dictionaries in insertion order, sums, \<open>sorted\<close>. \<open>Effects\<close>: code that raises and
  keeps the state it reached. \<open>Values\<close>: Python objects, msgpack values, \<open>Wire\<close>, paths and their normal form. Code outside the repository
  (Nix, bound objects, msgpack, the operating system, the interpreter's event loop)
  is an argument of the definitions that call it, and what a property needs of it is a hypothesis with a witness.

  The value codec (\<open>huggorm/codec.py\<close>). \<open>Codec\<close> computes encode and decode by a declared \<open>Wire\<close> and has the
  wire format as a relation, which \<open>Codec_Round\<close> shows both directions follow, so what is encoded decodes to the same value;
  \<open>Codec_Props\<close>: what decodes has the declared type. The stack is a number counted down, and every property says how much of
  it a value needs; a value nests unions at most \<open>MAX_UNION_DEPTH\<close> deep, as the code checks. \<open>Trees\<close>, \<open>Tree_Walks\<close>, \<open>Tree_Round\<close>,
  \<open>Tree_Props\<close> (\<open>huggorm/tree.py\<close> and the walk of \<open>server.py\<close>): whole values crossing in one frame, under the
  budgets of nodes, bytes and depth that the request carries, which bound the recursion. \<open>Protocol\<close>, \<open>Protocol_Props\<close>
  (\<open>huggorm/protocol.py\<close>): frames on a stream, and failures as values that cross.

  The handle table (\<open>huggorm/lifecycle.py\<close>). \<open>Lifecycle\<close> has every operation; \<open>Lifecycle_Inv\<close>, \<open>Reaping\<close>, \<open>Lifecycle_Ops\<close>,
  \<open>Lifecycle_Moves\<close> and \<open>Lifecycle_Sweep\<close> show that each keeps the table balanced, with its exact effect
  on the leases; \<open>Lifecycle_System\<close> is the table under any sequence of operations. \<open>Holders\<close> states what a connection relies on
  as the locale \<open>holder_store\<close>, interpreted on the table as \<open>tbl\<close>; \<open>Lifecycle_Props\<close> rests on it. The loop of
  a reap ends because each round drops an entry or shortens its work list.

  The server (\<open>huggorm/server.py\<close>). \<open>Dispatcher\<close>: a request against the emitted policy. \<open>Serving\<close>: connections, jobs, sweeps,
  closes and the stop as events. \<open>Serving_Inv\<close> holds the locale \<open>server_invariant\<close>, what a property of the table must satisfy to
  survive every event, interpreted as \<open>balanced\<close>; \<open>Serving_Props\<close> uses it. \<open>Logbus\<close> (\<open>logbus.py\<close>): one log subscription with
  many readers. \<open>Callbacks\<close> (\<open>callbacks.py\<close>): the server calling an object of the client.

  The client (\<open>huggorm/remote.py\<close>). \<open>Client\<close>, \<open>Client_Calls\<close>: proxies, counts, calls, the reader and the ping loop, a stretch
  between two awaits at a time. \<open>Client_Inv\<close> holds the locale \<open>client_invariant\<close>, interpreted for the count of a handle
  (\<open>count\<close>, \<open>Client_Count\<close>), for what is known, matched, dropped and used (\<open>Client_Matching\<close>, \<open>Client_Props\<close>,
  \<open>Client_Frames\<close>). \<open>Session\<close> (\<open>session.py\<close>): what a session owns and how it closes.

  Threads (\<open>huggorm-gen/.../payload/_runtime.py\<close>). \<open>Pool\<close>, \<open>Home\<close>, \<open>Hooks\<close>, \<open>Runner\<close> with the properties of each: the shared pool, the
  dedicated thread with its shutdown and the hooks of a call, one locked section at a time as steps that may interleave freely. Of
  the runners only building an object is stepped so, at every access of its fields and its lock (\<open>build_next\<close>); the rest of a
  runner's call is one step, as is a request of \<open>Dispatcher\<close> from its arguments to its answer, and the opening of a connection
  in \<open>Client\<close> (\<open>bind_open\<close>) from the connect to the WELCOME.

  Around the evaluator. \<open>Watching\<close> (\<open>watch.py\<close>, \<open>notify.py\<close>, \<open>warm.py\<close>), \<open>Devshell\<close> (\<open>devshell.py\<close>) and \<open>Signature\<close>
  (\<open>signature.py\<close>), with their properties.

  The generator. \<open>Decl\<close>: declared types, classes and files (\<open>huggorm_dsl/read.py\<close>, \<open>declare.py\<close>) and their C++ spelling
  (\<open>huggorm_gen/cxx.py\<close>), where the fuel of \<open>bare\<close>
  stands for Python's stack: a union is never an arm of another, so two rounds are enough. \<open>Model_Types\<close>, \<open>Model_Classes\<close>, \<open>Model_Set\<close> (\<open>ir.py\<close>, \<open>cppgen/generate.py\<close>): the typed model with every check;
  the depth of an error class is counted with the number of classes as fuel, more than any chain of bases. \<open>Contracts\<close>
  (\<open>contracts.py\<close>), \<open>Policy\<close> (\<open>policy_module\<close> of \<open>pygen/emitter.py\<close>, with a declaration set cut from the real ones for
  the witnesses), \<open>Errors_Props\<close>. \<open>Py_Source\<close> is the Python that is emitted, as syntax trees; \<open>Spell\<close>
  (\<open>pygen/spell.py\<close>), \<open>Py_Emit\<close>, \<open>Py_Literal\<close> and \<open>Py_Package\<close> (\<open>emitter.py\<close>, \<open>frontdoor.py\<close>) build it, and
  \<open>Spell_Cover\<close> shows that what is written is imported.

  The reader (\<open>huggorm_dsl\<close>). \<open>Refusals\<close>: a refusal with its place, the collector, and code that reads under it. \<open>Marks\<close>
  (\<open>declare.py\<close>): the decorators, where they may stand and what they write. \<open>Decl_File\<close>: a file's syntax tree and what its
  import left, brought together. \<open>Reader\<close> (\<open>read.py\<close>): functions, classes, unions, exceptions, files and what they import;
  the fuel of \<open>read_file\<close> is Python's stack, one for each file on a chain of imports. \<open>Marks_Props\<close> shows what the check of decorators amounts to and that their order does not
  matter but for the headers of stacked \<open>needs\<close>; \<open>Reader_Props\<close> that a report is complete and where each name of a file
  goes, with a small file as the example.

  The declarations (\<open>huggorm_decl\<close>). \<open>Nix_Decl\<close>, \<open>Nix_Values\<close>, \<open>Nix_Store\<close>, \<open>Nix_Refs\<close> and \<open>Nix_Eval\<close> hold what every file of
  \<open>decl/\<close> declares on Nix 2.34, a definition for each class, its decorators, its constructor, its members, each vocabulary, union and
  exception, under the declared name with \<open>nx_\<close> in front, in the records of the reader. \<open>Nix_Set\<close> is the whole set (\<open>corpus.py\<close>, the
  lists of \<open>huggorm_decl/__init__.py\<close> and their census) and shows of the shipped declarations that words and their members determine each other and every default written as a word reads back, that the
  arms of every union pass their check, and that no exception is caught before one that derives from it.

  Not modelled, with the reason: sockets, signals, timers and the command line of the server, and the endless loops of the
  notifier and warmer (effects of the operating system; the steps inside them are modelled); the C++ emitters
  \<open>cppgen/nbemit.py\<close>, \<open>pyerrors.py\<close>, \<open>pyenum.py\<close>, \<open>pyinit.py\<close> (text whose meaning is C++ and nanobind, which are not in
  the repository); the docstrings and C++ bodies of the declarations, and their
  branches for Nix 2.35 and later; type stubs and docstrings of the emitted package; ruff; the
  C++ helpers; packaging. Memory is never short, and strings are lists of code points below 256.
\<close>

end
